(* ===== verification/Prelude.thy ===== *)
theory Prelude
  imports Main "HOL-Library.Monad_Syntax" "HOL-Library.Word"
begin

text \<open>
  Shared material: the named collections the component theories fill, the option
  combinators in which fuelled computations are written (\<^const>\<open>None\<close> is "no result
  within the fuel"), and facts on lists that several components use.

  Strings are lists of bytes, as Go strings are: \<^typ>\<open>char\<close> is one byte, so
  \<^term>\<open>length s\<close> is Go's \<open>len(s)\<close> and \<^term>\<open>s ! i\<close> is \<open>s[i]\<close>.
\<close>

named_theorems lexer_frame
  "how the lexer's elementary operations act on the fields of its state"
named_theorems parser_frame
  "how the parser's elementary operations act on the fields of its state"

subsection \<open>Results of fuelled computations\<close>

text \<open>
  \<open>returns Q r\<close> is total correctness for an optional result: there is a result, and it
  satisfies \<open>Q\<close>. It is the form in which termination and functional facts are proved together.
\<close>

definition returns :: "('a \<Rightarrow> bool) \<Rightarrow> 'a option \<Rightarrow> bool" where
  "returns Q r = (case r of None \<Rightarrow> False | Some x \<Rightarrow> Q x)"

lemma returns_Some [simp]: "returns Q (Some x) = Q x"
  by (simp add: returns_def)

lemma returns_None [simp]: "\<not> returns Q None"
  by (simp add: returns_def)

lemma returnsE:
  assumes "returns Q r"
  obtains x where "r = Some x" and "Q x"
  using assms by (cases r) auto

lemma returns_mono: "returns Q r \<Longrightarrow> (\<And>x. Q x \<Longrightarrow> Q' x) \<Longrightarrow> returns Q' r"
  by (cases r) auto

lemma returns_bind:
  "returns P r \<Longrightarrow> (\<And>x. P x \<Longrightarrow> returns Q (f x)) \<Longrightarrow> returns Q (Option.bind r f)"
  by (cases r) auto

lemma returns_bindD:
  "Option.bind r f = Some y \<Longrightarrow> \<exists>x. r = Some x \<and> f x = Some y"
  by (cases r) auto

subsection \<open>Extension of an append-only log\<close>

text \<open>
  Token lists and diagnostic bags are only ever appended to. \<open>extends xs ys\<close> says that
  \<open>ys\<close> continues \<open>xs\<close>.
\<close>

definition extends :: "'a list \<Rightarrow> 'a list \<Rightarrow> bool" where
  "extends xs ys = (take (length xs) ys = xs)"

lemma extends_refl [simp, intro]: "extends xs xs"
  by (simp add: extends_def)

lemma extends_append [simp, intro]: "extends xs (xs @ ys)"
  by (simp add: extends_def)

lemma extends_iff: "extends xs ys \<longleftrightarrow> (\<exists>zs. ys = xs @ zs)"
proof
  assume "extends xs ys"
  then have "ys = xs @ drop (length xs) ys"
    unfolding extends_def by (metis append_take_drop_id)
  then show "\<exists>zs. ys = xs @ zs" by blast
qed (auto simp: extends_def)

lemma extends_trans [trans]: "extends xs ys \<Longrightarrow> extends ys zs \<Longrightarrow> extends xs zs"
  by (auto simp: extends_iff)

lemma extends_append_trans: "extends xs ys \<Longrightarrow> extends xs (ys @ zs)"
  by (auto simp: extends_iff)

lemma extends_set: "extends xs ys \<Longrightarrow> set xs \<subseteq> set ys"
  by (auto simp: extends_iff)

lemma extends_length: "extends xs ys \<Longrightarrow> length xs \<le> length ys"
  by (auto simp: extends_iff)

lemma extends_Nil: "extends xs [] \<longleftrightarrow> xs = []"
  by (auto simp: extends_iff)

subsection \<open>Slices\<close>

text \<open>\<open>slice s i j\<close> is Go's \<open>s[i:j]\<close> for \<open>i \<le> j \<le> len(s)\<close>.\<close>

definition slice :: "'a list \<Rightarrow> nat \<Rightarrow> nat \<Rightarrow> 'a list" where
  "slice s i j = take (j - i) (drop i s)"

lemma slice_empty [simp]: "slice s i i = []"
  by (simp add: slice_def)

lemma take_slice: "i \<le> j \<Longrightarrow> take i s @ slice s i j = take j s"
  by (simp add: slice_def flip: take_add)

lemma slice_append: "i \<le> j \<Longrightarrow> j \<le> k \<Longrightarrow> slice s i j @ slice s j k = slice s i k"
proof -
  assume "i \<le> j" and "j \<le> k"
  then have "slice s i k = take (j - i + (k - j)) (drop i s)"
    by (simp add: slice_def)
  also have "\<dots> = slice s i j @ slice s j k"
    using \<open>i \<le> j\<close> by (simp only: take_add) (simp add: slice_def)
  finally show ?thesis by simp
qed

lemma length_slice: "j \<le> length s \<Longrightarrow> length (slice s i j) = j - i"
  by (simp add: slice_def)

lemma slice_Cons_drop:
  "drop i s = xs @ ys \<Longrightarrow> i \<le> length s \<Longrightarrow> slice s i (i + length xs) = xs"
  by (simp add: slice_def)

end
