(* ===== verification/Utf8.thy ===== *)
theory Utf8
  imports Prelude
begin

text \<open>
  Go's package \<open>unicode/utf8\<close> as far as the front end uses it: \<open>DecodeRuneInString\<close>
  and the encoding of a rune (\<open>string(r)\<close>, \<open>strings.Builder.WriteRune\<close>). A rune is
  a natural number; ill-formed input decodes to \<open>(RuneError, 1)\<close>, and the empty string to
  \<open>(RuneError, 0)\<close>. The decoder rejects overlong forms, surrogates and values above
  \<open>0x10FFFF\<close>, as the library does.
\<close>

definition RuneError :: nat where
  "RuneError = 0xFFFD"

definition byteOf :: "char \<Rightarrow> nat" where
  "byteOf c = of_char c"

lemma byteOf_less [simp]: "byteOf c < 256"
  by (simp add: byteOf_def)

lemma byteOf_inject [simp]: "byteOf c = byteOf d \<longleftrightarrow> c = d"
  by (simp add: byteOf_def)

lemma char_of_byteOf [simp]: "char_of (byteOf c) = c"
  by (simp add: byteOf_def)

definition inRange :: "nat \<Rightarrow> nat \<Rightarrow> char \<Rightarrow> bool" where
  "inRange lo hi c = (lo \<le> byteOf c \<and> byteOf c \<le> hi)"

definition isContinuation :: "char \<Rightarrow> bool" where
  "isContinuation c = inRange 0x80 0xBF c"

text \<open>The accepted second bytes depend on the first byte (Go's \<open>acceptRanges\<close>).\<close>

definition decode2 :: "nat \<Rightarrow> string \<Rightarrow> nat \<times> nat" where
  "decode2 b0 cs = (case cs of
      c1 # _ \<Rightarrow> if isContinuation c1
                then ((b0 - 0xC0) * 64 + (byteOf c1 - 0x80), 2) else (RuneError, 1)
    | _ \<Rightarrow> (RuneError, 1))"

definition decode3 :: "nat \<Rightarrow> string \<Rightarrow> nat \<times> nat" where
  "decode3 b0 cs = (case cs of
      c1 # c2 # _ \<Rightarrow>
        if inRange (if b0 = 0xE0 then 0xA0 else 0x80) (if b0 = 0xED then 0x9F else 0xBF) c1
           \<and> isContinuation c2
        then ((b0 - 0xE0) * 4096 + (byteOf c1 - 0x80) * 64 + (byteOf c2 - 0x80), 3)
        else (RuneError, 1)
    | _ \<Rightarrow> (RuneError, 1))"

definition decode4 :: "nat \<Rightarrow> string \<Rightarrow> nat \<times> nat" where
  "decode4 b0 cs = (case cs of
      c1 # c2 # c3 # _ \<Rightarrow>
        if inRange (if b0 = 0xF0 then 0x90 else 0x80) (if b0 = 0xF4 then 0x8F else 0xBF) c1
           \<and> isContinuation c2 \<and> isContinuation c3
        then ((b0 - 0xF0) * 262144 + (byteOf c1 - 0x80) * 4096 + (byteOf c2 - 0x80) * 64
              + (byteOf c3 - 0x80), 4)
        else (RuneError, 1)
    | _ \<Rightarrow> (RuneError, 1))"

definition DecodeRune :: "string \<Rightarrow> nat \<times> nat" where
  "DecodeRune s = (case s of
      [] \<Rightarrow> (RuneError, 0)
    | c0 # cs \<Rightarrow>
        (let b0 = byteOf c0 in
         if b0 < 0x80 then (b0, 1)
         else if 0xC2 \<le> b0 \<and> b0 \<le> 0xDF then decode2 b0 cs
         else if 0xE0 \<le> b0 \<and> b0 \<le> 0xEF then decode3 b0 cs
         else if 0xF0 \<le> b0 \<and> b0 \<le> 0xF4 then decode4 b0 cs
         else (RuneError, 1)))"

definition validRune :: "nat \<Rightarrow> bool" where
  "validRune r = (r \<le> 0x10FFFF \<and> \<not> (0xD800 \<le> r \<and> r \<le> 0xDFFF))"

definition EncodeRune :: "nat \<Rightarrow> string" where
  "EncodeRune r0 =
    (let r = (if validRune r0 then r0 else RuneError) in
     if r < 0x80 then [char_of r]
     else if r < 0x800 then [char_of (0xC0 + r div 64), char_of (0x80 + r mod 64)]
     else if r < 0x10000 then
       [char_of (0xE0 + r div 4096), char_of (0x80 + r div 64 mod 64), char_of (0x80 + r mod 64)]
     else
       [char_of (0xF0 + r div 262144), char_of (0x80 + r div 4096 mod 64),
        char_of (0x80 + r div 64 mod 64), char_of (0x80 + r mod 64)])"

lemmas decode_defs = DecodeRune_def decode2_def decode3_def decode4_def inRange_def
  isContinuation_def

subsection \<open>Bounds on the size\<close>

lemma DecodeRune_Nil [simp]: "DecodeRune [] = (RuneError, 0)"
  by (simp add: DecodeRune_def)

lemma DecodeRune_size_pos: "s \<noteq> [] \<Longrightarrow> 0 < snd (DecodeRune s)"
  by (auto simp: decode_defs Let_def split: list.splits)

lemma DecodeRune_size_le: "snd (DecodeRune s) \<le> length s"
  by (auto simp: decode_defs Let_def split: list.splits)

lemma DecodeRune_ascii:
  "byteOf c < 0x80 \<Longrightarrow> DecodeRune (c # s) = (byteOf c, 1)"
  by (simp add: DecodeRune_def)

text \<open>A multi-byte sequence starts with a byte above ASCII.\<close>

lemma DecodeRune_size_one:
  "byteOf c < 0x80 \<Longrightarrow> snd (DecodeRune (c # s)) = 1"
  by (simp add: DecodeRune_ascii)

subsection \<open>Round trip\<close>

text \<open>Encoding the rune that a well-formed prefix decodes to gives that prefix back.\<close>

lemma char_of_eqI: "n = byteOf c \<Longrightarrow> char_of n = c"
  by simp

text \<open>The six-bit digits of a code point.\<close>

lemma digits3:
  fixes a b c :: nat
  assumes "b < 64" "c < 64"
  shows "(a * 4096 + b * 64 + c) div 4096 = a" "(a * 4096 + b * 64 + c) div 64 mod 64 = b"
    "(a * 4096 + b * 64 + c) mod 64 = c"
proof -
  have "a * 4096 + b * 64 + c = c + (a * 64 + b) * 64" by simp
  then have "(a * 4096 + b * 64 + c) div 64 = a * 64 + b" "(a * 4096 + b * 64 + c) mod 64 = c"
    using assms(2) by (simp_all only: div_mult_self1 mod_mult_self1 div_less mod_less)
  with assms(1) show "(a * 4096 + b * 64 + c) div 64 mod 64 = b"
    "(a * 4096 + b * 64 + c) mod 64 = c" by simp_all
  have "a * 4096 + b * 64 + c = (b * 64 + c) + a * 4096" by simp
  moreover have "b * 64 + c < 4096" using assms by simp
  ultimately show "(a * 4096 + b * 64 + c) div 4096 = a"
    by (simp only: div_mult_self1 div_less)
qed

lemma digits4:
  fixes a b c d :: nat
  assumes "b < 64" "c < 64" "d < 64"
  shows "(a * 262144 + b * 4096 + c * 64 + d) div 262144 = a"
    "(a * 262144 + b * 4096 + c * 64 + d) div 4096 mod 64 = b"
    "(a * 262144 + b * 4096 + c * 64 + d) div 64 mod 64 = c"
    "(a * 262144 + b * 4096 + c * 64 + d) mod 64 = d"
proof -
  define e where "e = a * 64 + b"
  have e: "a * 262144 + b * 4096 + c * 64 + d = e * 4096 + c * 64 + d" by (simp add: e_def)
  note digits = digits3 [OF assms(2,3), of e]
  show "(a * 262144 + b * 4096 + c * 64 + d) div 64 mod 64 = c"
    "(a * 262144 + b * 4096 + c * 64 + d) mod 64 = d" by (simp_all only: e digits)
  have "e mod 64 = b" "e div 64 = a" using assms(1) by (simp_all add: e_def)
  with digits(1) show "(a * 262144 + b * 4096 + c * 64 + d) div 4096 mod 64 = b"
    by (simp only: e)
  have "(e * 4096 + c * 64 + d) div (4096 * 64) = a"
    by (simp only: div_mult2_eq digits \<open>e div 64 = a\<close>)
  then show "(a * 262144 + b * 4096 + c * 64 + d) div 262144 = a" by (simp only: e) simp
qed

lemma byteOf_offset:
  assumes "k \<le> byteOf x" obtains d where "byteOf x = k + d"
  using assms le_Suc_ex by blast

lemma decode2_encode:
  assumes "0xC2 \<le> byteOf c0" "byteOf c0 \<le> 0xDF" "decode2 (byteOf c0) cs = (r, n)" "n \<noteq> 1"
  shows "EncodeRune r = take n (c0 # cs) \<and> validRune r"
proof -
  obtain c1 rest where cs: "cs = c1 # rest" and c1: "0x80 \<le> byteOf c1" "byteOf c1 \<le> 0xBF"
    and r: "r = (byteOf c0 - 0xC0) * 64 + (byteOf c1 - 0x80)" and n: "n = 2"
    using assms(3,4)
    by (auto simp: decode2_def isContinuation_def inRange_def split: list.splits if_splits)
  from assms(1) obtain a where a: "byteOf c0 = 0xC0 + a"
    by (elim byteOf_offset [of "0xC0", rotated]) simp
  from c1 obtain b where b: "byteOf c1 = 0x80 + b" by (elim byteOf_offset [of "0x80", rotated])
  have rab: "r = a * 64 + b" "b < 64" "2 \<le> a" "a \<le> 31" using r a b c1 assms(1,2) by simp_all
  then have "r div 64 = a" "r mod 64 = b" "0x80 \<le> r" "r < 0x800" by simp_all
  then show ?thesis
    using cs n by (simp add: EncodeRune_def validRune_def flip: a b)
qed

lemma decode3_encode:
  assumes "0xE0 \<le> byteOf c0" "byteOf c0 \<le> 0xEF" "decode3 (byteOf c0) cs = (r, n)" "n \<noteq> 1"
  shows "EncodeRune r = take n (c0 # cs) \<and> validRune r"
proof -
  obtain c1 c2 rest where cs: "cs = c1 # c2 # rest"
    and c1: "(if byteOf c0 = 0xE0 then 0xA0 else 0x80) \<le> byteOf c1"
      "byteOf c1 \<le> (if byteOf c0 = 0xED then 0x9F else 0xBF)"
    and c2: "0x80 \<le> byteOf c2" "byteOf c2 \<le> 0xBF"
    and r: "r = (byteOf c0 - 0xE0) * 4096 + (byteOf c1 - 0x80) * 64 + (byteOf c2 - 0x80)"
    and n: "n = 3"
    using assms(3,4)
    by (auto simp: decode3_def isContinuation_def inRange_def split: list.splits if_splits)
  from assms(1) obtain a where a: "byteOf c0 = 0xE0 + a" by (elim byteOf_offset)
  have "0x80 \<le> byteOf c1" using c1(1) by (simp split: if_splits)
  then obtain b where b: "byteOf c1 = 0x80 + b" by (elim byteOf_offset)
  from c2(1) obtain c where c: "byteOf c2 = 0x80 + c" by (elim byteOf_offset)
  have bounds: "a < 16" "b < 64" "c < 64" "a = 0 \<Longrightarrow> 32 \<le> b" "a = 13 \<Longrightarrow> b < 32"
    using a b c c1 c2 assms(2) by (simp_all split: if_splits)
  have rabc: "r = a * 4096 + b * 64 + c" using r a b c by simp
  note digits = digits3 [OF bounds(2,3), of a, folded rabc]
  have range: "0x800 \<le> r" "r < 0x10000" "validRune r"
    using bounds by (cases "a = 0"; cases "a = 13"; auto simp: validRune_def rabc)+
  then show ?thesis
    using cs n digits by (simp add: EncodeRune_def flip: a b c)
qed

lemma decode4_encode:
  assumes "0xF0 \<le> byteOf c0" "byteOf c0 \<le> 0xF4" "decode4 (byteOf c0) cs = (r, n)" "n \<noteq> 1"
  shows "EncodeRune r = take n (c0 # cs) \<and> validRune r"
proof -
  obtain c1 c2 c3 rest where cs: "cs = c1 # c2 # c3 # rest"
    and c1: "(if byteOf c0 = 0xF0 then 0x90 else 0x80) \<le> byteOf c1"
      "byteOf c1 \<le> (if byteOf c0 = 0xF4 then 0x8F else 0xBF)"
    and c2: "0x80 \<le> byteOf c2" "byteOf c2 \<le> 0xBF"
    and c3: "0x80 \<le> byteOf c3" "byteOf c3 \<le> 0xBF"
    and r: "r = (byteOf c0 - 0xF0) * 262144 + (byteOf c1 - 0x80) * 4096 + (byteOf c2 - 0x80) * 64
              + (byteOf c3 - 0x80)" and n: "n = 4"
    using assms(3,4)
    by (auto simp: decode4_def isContinuation_def inRange_def split: list.splits if_splits)
  from assms(1) obtain a where a: "byteOf c0 = 0xF0 + a" by (elim byteOf_offset)
  have "0x80 \<le> byteOf c1" using c1(1) by (simp split: if_splits)
  then obtain b where b: "byteOf c1 = 0x80 + b" by (elim byteOf_offset)
  from c2(1) obtain c where c: "byteOf c2 = 0x80 + c" by (elim byteOf_offset)
  from c3(1) obtain d where d: "byteOf c3 = 0x80 + d" by (elim byteOf_offset)
  have bounds: "a \<le> 4" "b < 64" "c < 64" "d < 64" "a = 0 \<Longrightarrow> 16 \<le> b" "a = 4 \<Longrightarrow> b < 16"
    using a b c d c1 c2 c3 assms(2) by (simp_all split: if_splits)
  have rabc: "r = a * 262144 + b * 4096 + c * 64 + d" using r a b c d by simp
  note digits = digits4 [OF bounds(2-4), of a, folded rabc]
  have "0x10000 \<le> r" using bounds by (cases "a = 0") (simp_all add: rabc)
  moreover have "r \<le> 0x10FFFF" using bounds by (cases "a = 4") (simp_all add: rabc)
  ultimately have "validRune r" "0x10000 \<le> r" by (auto simp: validRune_def)
  then show ?thesis
    using cs n digits by (simp add: EncodeRune_def flip: a b c d)
qed

lemma DecodeRune_encode:
  assumes "DecodeRune s = (r, n)" and "\<not> (r = RuneError \<and> n \<le> 1)"
  shows "EncodeRune r = take n s \<and> validRune r"
proof (cases s)
  case Nil
  with assms show ?thesis by simp
next
  case (Cons c0 cs)
  show ?thesis
  proof (cases "n = 1")
    case True
    with assms Cons have "byteOf c0 < 0x80" "r = byteOf c0"
      by (auto simp: decode_defs Let_def split: list.splits if_splits)
    with Cons True show ?thesis by (simp add: EncodeRune_def validRune_def)
  next
    case False
    with assms(1) Cons show ?thesis
      using decode2_encode [of c0 cs r n] decode3_encode [of c0 cs r n]
        decode4_encode [of c0 cs r n]
      by (auto simp: DecodeRune_def Let_def split: if_splits)
  qed
qed

end
