(* ===== verification/Source.thy ===== *)
theory Source
  imports Utf8
begin

text \<open>
  Source files, positions and spans (\<open>internal/source/source.go\<close>). Offsets, lines and
  columns are Go's \<open>int\<close>; a \<open>FileID\<close> is a \<open>uint32\<close>.
\<close>

type_synonym FileID = "32 word"

record File =
  ID :: FileID
  Path :: string
  Text :: string

definition NewFile :: "FileID \<Rightarrow> string \<Rightarrow> string \<Rightarrow> File" where
  "NewFile i path text = \<lparr>ID = i, Path = path, Text = text\<rparr>"

record Position =
  Offset :: int
  Line :: int
  Column :: int

record Span =
  SpanFile :: FileID
  Start :: Position
  End :: Position

definition NewSpan :: "FileID \<Rightarrow> Position \<Rightarrow> Position \<Rightarrow> Span" where
  "NewSpan fileID start end = \<lparr>SpanFile = fileID, Start = start, End = end\<rparr>"

definition Span_Empty :: "Span \<Rightarrow> bool" where
  "Span_Empty s = (Offset (Start s) = Offset (End s))"

text \<open>An invalid span reads as the empty string, so the slice is always in range.\<close>

definition Span_Text :: "Span \<Rightarrow> File \<Rightarrow> string" where
  "Span_Text s file =
    (if SpanFile s \<noteq> ID file \<or> Offset (Start s) < 0 \<or> Offset (End s) < Offset (Start s)
        \<or> Offset (End s) > int (length (Text file))
     then []
     else slice (Text file) (nat (Offset (Start s))) (nat (Offset (End s))))"

lemma NewSpan_simps [simp]:
  "SpanFile (NewSpan i a b) = i" "Start (NewSpan i a b) = a" "End (NewSpan i a b) = b"
  by (simp_all add: NewSpan_def)

lemma Span_Text_slice:
  assumes "SpanFile s = ID file" "Offset (Start s) = int i" "Offset (End s) = int j"
    "i \<le> j" "j \<le> length (Text file)"
  shows "Span_Text s file = slice (Text file) i j"
  using assms by (simp add: Span_Text_def)

end
