(* ===== verification/Diagnostics.thy ===== *)
theory Diagnostics
  imports Source
begin

text \<open>
  Diagnostics and the bag that collects them (\<open>internal/diagnostics\<close>), with the
  rendering of one diagnostic for the command line. A bag is its list of items: \<open>Items\<close>
  returns a copy, so no caller can change what has been reported.
\<close>

datatype Severity = SeverityError | SeverityWarning

record Diagnostic =
  Code :: string
  Sev :: Severity
  Message :: string
  DSpan :: Span
  Hint :: string

type_synonym Bag = "Diagnostic list"

definition Bag_Add :: "Bag \<Rightarrow> Diagnostic \<Rightarrow> Bag" where
  "Bag_Add b d = b @ [d]"

definition Bag_Error :: "Bag \<Rightarrow> string \<Rightarrow> string \<Rightarrow> Span \<Rightarrow> string \<Rightarrow> Bag" where
  "Bag_Error b code message span hint =
     Bag_Add b \<lparr>Code = code, Sev = SeverityError, Message = message, DSpan = span, Hint = hint\<rparr>"

definition Bag_Items :: "Bag \<Rightarrow> Diagnostic list" where
  "Bag_Items b = b"

definition Bag_HasErrors :: "Bag \<Rightarrow> bool" where
  "Bag_HasErrors b = list_ex (\<lambda>item. Sev item = SeverityError) b"

definition Bag_Len :: "Bag \<Rightarrow> nat" where
  "Bag_Len b = length b"

lemma extends_Bag_Error [simp, intro]: "extends b (Bag_Error b c m s h)"
  by (simp add: Bag_Error_def Bag_Add_def)

lemma Bag_Error_nonempty [simp]: "Bag_Error b c m s h \<noteq> []"
  by (simp add: Bag_Error_def Bag_Add_def)

lemma Bag_HasErrors_Error [simp]: "Bag_HasErrors (Bag_Error b c m s h)"
  by (simp add: Bag_HasErrors_def Bag_Error_def Bag_Add_def)

lemma Bag_HasErrors_extends: "extends b b' \<Longrightarrow> Bag_HasErrors b \<Longrightarrow> Bag_HasErrors b'"
  by (auto simp: Bag_HasErrors_def extends_iff)

text \<open>A bag to which only errors were added has errors as soon as it is not empty.\<close>

definition onlyErrors :: "Bag \<Rightarrow> bool" where
  "onlyErrors b = list_all (\<lambda>d. Sev d = SeverityError) b"

lemma onlyErrors_Nil [simp]: "onlyErrors []"
  by (simp add: onlyErrors_def)

lemma onlyErrors_Error [simp]: "onlyErrors (Bag_Error b c m s h) = onlyErrors b"
  by (simp add: onlyErrors_def Bag_Error_def Bag_Add_def)

lemma onlyErrors_HasErrors: "onlyErrors b \<Longrightarrow> Bag_HasErrors b \<longleftrightarrow> b \<noteq> []"
  by (cases b) (auto simp: onlyErrors_def Bag_HasErrors_def)

subsection \<open>Rendering\<close>

text \<open>\<open>sourceLine\<close> counts \<open>\n\<close>, \<open>\r\<close> and \<open>\r\n\<close> each as one line end, as the lexer
  does. The loop runs an index over the text up to and including its end.\<close>

definition isLineEnd :: "char \<Rightarrow> bool" where
  "isLineEnd c = (c = CHR 0x0A \<or> c = CHR 0x0D)"

function sourceLineFrom :: "string \<Rightarrow> int \<Rightarrow> int \<Rightarrow> nat \<Rightarrow> nat \<Rightarrow> string option" where
  "sourceLineFrom text wanted line start index =
    (if index > length text then None
     else if index < length text \<and> \<not> isLineEnd (text ! index)
       then sourceLineFrom text wanted line start (index + 1)
     else if line = wanted then Some (slice text start index)
     else
       (let index' = (if index < length text \<and> text ! index = CHR 0x0D
                         \<and> index + 1 < length text \<and> text ! (index + 1) = CHR 0x0A
                      then index + 1 else index)
        in sourceLineFrom text wanted (line + 1) (index' + 1) (index' + 1)))"
  by pat_completeness auto
termination
  by (relation "measure (\<lambda>(text, wanted, line, start, index). Suc (length text) - index)")
    (auto simp: Let_def split: if_splits)

declare sourceLineFrom.simps [simp del]

definition sourceLine :: "string \<Rightarrow> int \<Rightarrow> string option" where
  "sourceLine text wanted = sourceLineFrom text wanted 1 0 0"

text \<open>\<open>utf8.RuneCountInString\<close>: an ill-formed byte counts as one rune.\<close>

function RuneCount :: "string \<Rightarrow> nat" where
  "RuneCount s = (if s = [] then 0 else Suc (RuneCount (drop (snd (DecodeRune s)) s)))"
  by pat_completeness auto
termination
  by (relation "measure length") (auto simp: DecodeRune_size_pos)

declare RuneCount.simps [simp del]

lemma RuneCount_Nil [simp]: "RuneCount [] = 0"
  by (simp add: RuneCount.simps)

lemma RuneCount_step:
  "s \<noteq> [] \<Longrightarrow> RuneCount s = Suc (RuneCount (drop (snd (DecodeRune s)) s))"
  by (subst RuneCount.simps) simp

text \<open>Decimal rendering of an integer (Go's \<open>%d\<close>).\<close>

fun natDigits :: "nat \<Rightarrow> string" where
  "natDigits n = (if n < 10 then [char_of (48 + n)]
                  else natDigits (n div 10) @ [char_of (48 + n mod 10)])"

declare natDigits.simps [simp del]

definition intDigits :: "int \<Rightarrow> string" where
  "intDigits i = (if i < 0 then CHR ''-'' # natDigits (nat (- i)) else natDigits (nat i))"

definition newline :: string where "newline = [CHR 0x0A]"

text \<open>The caret column and width are clamped to the displayed line.\<close>

definition caretColumn :: "Diagnostic \<Rightarrow> int \<Rightarrow> int" where
  "caretColumn item lineWidth =
    (let column = max 1 (Column (Start (DSpan item)))
     in if column > lineWidth + 1 then lineWidth + 1 else column)"

definition caretWidth :: "Diagnostic \<Rightarrow> int \<Rightarrow> int" where
  "caretWidth item lineWidth =
    (let column = max 1 (Column (Start (DSpan item)));
         width = (if Line (End (DSpan item)) = Line (Start (DSpan item))
                     \<and> Column (End (DSpan item)) > column
                  then Column (End (DSpan item)) - column else 1);
         maximum = lineWidth - caretColumn item lineWidth + 1
     in if maximum > 0 \<and> width > maximum then maximum else width)"

definition Render :: "Diagnostic \<Rightarrow> (FileID \<rightharpoonup> File) \<Rightarrow> string" where
  "Render item files =
    (let severity = (if Sev item = SeverityWarning then ''warning'' else ''error'');
         start = Start (DSpan item);
         located = files (SpanFile (DSpan item));
         location = (case located of
             Some file \<Rightarrow> if SpanFile (DSpan item) \<noteq> 0
               then '' '' @ Path file @ '':'' @ intDigits (Line start) @ '':'' @ intDigits (Column start)
               else []
           | None \<Rightarrow> []);
         out = severity @ '' ['' @ Code item @ '']'' @ location @ newline @ Message item;
         excerpt = (case located of
             Some file \<Rightarrow>
               if Line start > 0 then
                 (case sourceLine (Text file) (Line start) of
                    Some line \<Rightarrow>
                      (let lineNumber = intDigits (Line start);
                           lineWidth = int (RuneCount line)
                       in newline @ ''  '' @ lineNumber @ '' | '' @ line
                          @ newline @ ''  '' @ replicate (length lineNumber) CHR '' '' @ '' | ''
                          @ replicate (nat (caretColumn item lineWidth - 1)) CHR '' ''
                          @ replicate (nat (caretWidth item lineWidth)) CHR ''^'')
                  | None \<Rightarrow> [])
               else []
           | None \<Rightarrow> [])
     in out @ excerpt @ (if Hint item \<noteq> [] then newline @ ''  hint: '' @ Hint item else []))"

text \<open>
  \<open>strings.Repeat\<close> panics on a negative count: the two counts above are never negative,
  and a caret that starts inside the line ends inside it.
\<close>

lemma caret_in_line:
  assumes "0 \<le> lineWidth"
  shows "0 \<le> caretColumn item lineWidth - 1" and "caretColumn item lineWidth \<le> lineWidth + 1"
    and "1 \<le> caretWidth item lineWidth"
    and "caretColumn item lineWidth \<le> lineWidth \<Longrightarrow>
         caretColumn item lineWidth + caretWidth item lineWidth \<le> lineWidth + 1"
  using assms by (auto simp: caretColumn_def caretWidth_def Let_def)

end
