(* ===== verification/Token.thy ===== *)
theory Token
  imports Source
begin

text \<open>
  Token kinds, their stable names, the reserved words and the token record
  (\<open>internal/syntax/token\<close>). The Go constants are one flat enumeration; here the
  reserved words are a datatype of their own, embedded by the constructor \<open>Keyword\<close>, and
  \<open>KeywordAnd\<close> etc. abbreviate the embedded constants.
\<close>

datatype (plugins only: code size) keyword =
    KwAnd | KwOr | KwNot | KwSame | KwIs | KwIn | KwHas | KwIf | KwElse | KwWhile | KwUntil |
    KwFor | KwBreak | KwContinue | KwState | KwCondition | KwDefault | KwAttempt | KwExcept |
    KwUltimately | KwToss | KwReturn | KwBring | KwFrom | KwAll | KwAs | KwRequire | KwTrue |
    KwFalse | KwNull | KwInt | KwReal | KwComplex | KwString | KwBool | KwNothing | KwList |
    KwPair | KwFunction | KwLambda | KwOverload | KwOverride | KwClass | KwAttributes |
    KwConstant | KwLocal | KwGlobal | KwUses | KwConfidential | KwObject | KwError

datatype (plugins only: code size) Kind =
    Invalid | EOF | Newline | Identifier | IntLiteral | RealLiteral | ImaginaryLiteral |
    StringStart | StringText | InterpolationStart | InterpolationEnd | StringEnd |
    Keyword keyword | Colon | Declare | Assign | Arrow | Plus | Minus | Star | Slash | Percent |
    Caret | PlusAssign | MinusAssign | StarAssign | SlashAssign | PercentAssign | CaretAssign |
    Increment | Decrement | Equal | NotEqual | Less | LessEqual | Greater | GreaterEqual | Dot |
    Comma | LeftParen | RightParen | LeftBracket | RightBracket | LeftBrace | RightBrace |
    Question | Hash | At

abbreviation KeywordAnd :: Kind where "KeywordAnd \<equiv> Keyword KwAnd"
abbreviation KeywordOr :: Kind where "KeywordOr \<equiv> Keyword KwOr"
abbreviation KeywordNot :: Kind where "KeywordNot \<equiv> Keyword KwNot"
abbreviation KeywordSame :: Kind where "KeywordSame \<equiv> Keyword KwSame"
abbreviation KeywordIs :: Kind where "KeywordIs \<equiv> Keyword KwIs"
abbreviation KeywordIn :: Kind where "KeywordIn \<equiv> Keyword KwIn"
abbreviation KeywordHas :: Kind where "KeywordHas \<equiv> Keyword KwHas"
abbreviation KeywordIf :: Kind where "KeywordIf \<equiv> Keyword KwIf"
abbreviation KeywordElse :: Kind where "KeywordElse \<equiv> Keyword KwElse"
abbreviation KeywordWhile :: Kind where "KeywordWhile \<equiv> Keyword KwWhile"
abbreviation KeywordUntil :: Kind where "KeywordUntil \<equiv> Keyword KwUntil"
abbreviation KeywordFor :: Kind where "KeywordFor \<equiv> Keyword KwFor"
abbreviation KeywordBreak :: Kind where "KeywordBreak \<equiv> Keyword KwBreak"
abbreviation KeywordContinue :: Kind where "KeywordContinue \<equiv> Keyword KwContinue"
abbreviation KeywordState :: Kind where "KeywordState \<equiv> Keyword KwState"
abbreviation KeywordCondition :: Kind where "KeywordCondition \<equiv> Keyword KwCondition"
abbreviation KeywordDefault :: Kind where "KeywordDefault \<equiv> Keyword KwDefault"
abbreviation KeywordAttempt :: Kind where "KeywordAttempt \<equiv> Keyword KwAttempt"
abbreviation KeywordExcept :: Kind where "KeywordExcept \<equiv> Keyword KwExcept"
abbreviation KeywordUltimately :: Kind where "KeywordUltimately \<equiv> Keyword KwUltimately"
abbreviation KeywordToss :: Kind where "KeywordToss \<equiv> Keyword KwToss"
abbreviation KeywordReturn :: Kind where "KeywordReturn \<equiv> Keyword KwReturn"
abbreviation KeywordBring :: Kind where "KeywordBring \<equiv> Keyword KwBring"
abbreviation KeywordFrom :: Kind where "KeywordFrom \<equiv> Keyword KwFrom"
abbreviation KeywordAll :: Kind where "KeywordAll \<equiv> Keyword KwAll"
abbreviation KeywordAs :: Kind where "KeywordAs \<equiv> Keyword KwAs"
abbreviation KeywordRequire :: Kind where "KeywordRequire \<equiv> Keyword KwRequire"
abbreviation KeywordTrue :: Kind where "KeywordTrue \<equiv> Keyword KwTrue"
abbreviation KeywordFalse :: Kind where "KeywordFalse \<equiv> Keyword KwFalse"
abbreviation KeywordNull :: Kind where "KeywordNull \<equiv> Keyword KwNull"
abbreviation KeywordInt :: Kind where "KeywordInt \<equiv> Keyword KwInt"
abbreviation KeywordReal :: Kind where "KeywordReal \<equiv> Keyword KwReal"
abbreviation KeywordComplex :: Kind where "KeywordComplex \<equiv> Keyword KwComplex"
abbreviation KeywordString :: Kind where "KeywordString \<equiv> Keyword KwString"
abbreviation KeywordBool :: Kind where "KeywordBool \<equiv> Keyword KwBool"
abbreviation KeywordNothing :: Kind where "KeywordNothing \<equiv> Keyword KwNothing"
abbreviation KeywordList :: Kind where "KeywordList \<equiv> Keyword KwList"
abbreviation KeywordPair :: Kind where "KeywordPair \<equiv> Keyword KwPair"
abbreviation KeywordFunction :: Kind where "KeywordFunction \<equiv> Keyword KwFunction"
abbreviation KeywordLambda :: Kind where "KeywordLambda \<equiv> Keyword KwLambda"
abbreviation KeywordOverload :: Kind where "KeywordOverload \<equiv> Keyword KwOverload"
abbreviation KeywordOverride :: Kind where "KeywordOverride \<equiv> Keyword KwOverride"
abbreviation KeywordClass :: Kind where "KeywordClass \<equiv> Keyword KwClass"
abbreviation KeywordAttributes :: Kind where "KeywordAttributes \<equiv> Keyword KwAttributes"
abbreviation KeywordConstant :: Kind where "KeywordConstant \<equiv> Keyword KwConstant"
abbreviation KeywordLocal :: Kind where "KeywordLocal \<equiv> Keyword KwLocal"
abbreviation KeywordGlobal :: Kind where "KeywordGlobal \<equiv> Keyword KwGlobal"
abbreviation KeywordUses :: Kind where "KeywordUses \<equiv> Keyword KwUses"
abbreviation KeywordConfidential :: Kind where "KeywordConfidential \<equiv> Keyword KwConfidential"
abbreviation KeywordObject :: Kind where "KeywordObject \<equiv> Keyword KwObject"
abbreviation KeywordError :: Kind where "KeywordError \<equiv> Keyword KwError"

primrec keyword_String :: "keyword \<Rightarrow> string" where
    "keyword_String KwAnd = ''and''"
  | "keyword_String KwOr = ''or''"
  | "keyword_String KwNot = ''not''"
  | "keyword_String KwSame = ''same''"
  | "keyword_String KwIs = ''is''"
  | "keyword_String KwIn = ''in''"
  | "keyword_String KwHas = ''has''"
  | "keyword_String KwIf = ''if''"
  | "keyword_String KwElse = ''else''"
  | "keyword_String KwWhile = ''while''"
  | "keyword_String KwUntil = ''until''"
  | "keyword_String KwFor = ''for''"
  | "keyword_String KwBreak = ''break''"
  | "keyword_String KwContinue = ''continue''"
  | "keyword_String KwState = ''state''"
  | "keyword_String KwCondition = ''condition''"
  | "keyword_String KwDefault = ''default''"
  | "keyword_String KwAttempt = ''attempt''"
  | "keyword_String KwExcept = ''except''"
  | "keyword_String KwUltimately = ''ultimately''"
  | "keyword_String KwToss = ''toss''"
  | "keyword_String KwReturn = ''return''"
  | "keyword_String KwBring = ''bring''"
  | "keyword_String KwFrom = ''from''"
  | "keyword_String KwAll = ''all''"
  | "keyword_String KwAs = ''as''"
  | "keyword_String KwRequire = ''require''"
  | "keyword_String KwTrue = ''true''"
  | "keyword_String KwFalse = ''false''"
  | "keyword_String KwNull = ''null''"
  | "keyword_String KwInt = ''Int''"
  | "keyword_String KwReal = ''Real''"
  | "keyword_String KwComplex = ''Complex''"
  | "keyword_String KwString = ''String''"
  | "keyword_String KwBool = ''Bool''"
  | "keyword_String KwNothing = ''Nothing''"
  | "keyword_String KwList = ''List''"
  | "keyword_String KwPair = ''Pair''"
  | "keyword_String KwFunction = ''Function''"
  | "keyword_String KwLambda = ''lambda''"
  | "keyword_String KwOverload = ''Overload''"
  | "keyword_String KwOverride = ''Override''"
  | "keyword_String KwClass = ''Class''"
  | "keyword_String KwAttributes = ''Attributes''"
  | "keyword_String KwConstant = ''Constant''"
  | "keyword_String KwLocal = ''Local''"
  | "keyword_String KwGlobal = ''Global''"
  | "keyword_String KwUses = ''uses''"
  | "keyword_String KwConfidential = ''Confidential''"
  | "keyword_String KwObject = ''Object''"
  | "keyword_String KwError = ''Error''"

primrec Kind_String :: "Kind \<Rightarrow> string" where
    "Kind_String Invalid = ''Invalid''"
  | "Kind_String EOF = ''EOF''"
  | "Kind_String Newline = ''Newline''"
  | "Kind_String Identifier = ''Identifier''"
  | "Kind_String IntLiteral = ''IntLiteral''"
  | "Kind_String RealLiteral = ''RealLiteral''"
  | "Kind_String ImaginaryLiteral = ''ImaginaryLiteral''"
  | "Kind_String StringStart = ''StringStart''"
  | "Kind_String StringText = ''StringText''"
  | "Kind_String InterpolationStart = ''InterpolationStart''"
  | "Kind_String InterpolationEnd = ''InterpolationEnd''"
  | "Kind_String StringEnd = ''StringEnd''"
  | "Kind_String (Keyword w) = keyword_String w"
  | "Kind_String Colon = '':''"
  | "Kind_String Declare = '':=''"
  | "Kind_String Assign = ''=''"
  | "Kind_String Arrow = ''->''"
  | "Kind_String Plus = ''+''"
  | "Kind_String Minus = ''-''"
  | "Kind_String Star = ''*''"
  | "Kind_String Slash = ''/''"
  | "Kind_String Percent = ''%''"
  | "Kind_String Caret = ''^''"
  | "Kind_String PlusAssign = ''+=''"
  | "Kind_String MinusAssign = ''-=''"
  | "Kind_String StarAssign = ''*=''"
  | "Kind_String SlashAssign = ''/=''"
  | "Kind_String PercentAssign = ''%=''"
  | "Kind_String CaretAssign = ''^=''"
  | "Kind_String Increment = ''++''"
  | "Kind_String Decrement = ''--''"
  | "Kind_String Equal = ''==''"
  | "Kind_String NotEqual = ''!=''"
  | "Kind_String Less = ''<''"
  | "Kind_String LessEqual = ''<=''"
  | "Kind_String Greater = ''>''"
  | "Kind_String GreaterEqual = ''>=''"
  | "Kind_String Dot = ''.''"
  | "Kind_String Comma = '',''"
  | "Kind_String LeftParen = ''(''"
  | "Kind_String RightParen = '')''"
  | "Kind_String LeftBracket = ''[''"
  | "Kind_String RightBracket = '']''"
  | "Kind_String LeftBrace = ''{''"
  | "Kind_String RightBrace = ''}''"
  | "Kind_String Question = ''?''"
  | "Kind_String Hash = ''#''"
  | "Kind_String At = ''@''"

text \<open>The reserved words, in the order of the Go map literal.\<close>

definition keywordTable :: "(string \<times> Kind) list" where
  "keywordTable = [
     (''and'', KeywordAnd), (''or'', KeywordOr), (''not'', KeywordNot), (''same'', KeywordSame),
     (''is'', KeywordIs), (''in'', KeywordIn), (''has'', KeywordHas), (''if'', KeywordIf),
     (''else'', KeywordElse), (''while'', KeywordWhile), (''until'', KeywordUntil),
     (''for'', KeywordFor), (''break'', KeywordBreak), (''continue'', KeywordContinue),
     (''state'', KeywordState), (''condition'', KeywordCondition),
     (''default'', KeywordDefault), (''attempt'', KeywordAttempt), (''except'', KeywordExcept),
     (''ultimately'', KeywordUltimately), (''toss'', KeywordToss), (''return'', KeywordReturn),
     (''bring'', KeywordBring), (''from'', KeywordFrom), (''all'', KeywordAll),
     (''as'', KeywordAs), (''require'', KeywordRequire), (''true'', KeywordTrue),
     (''false'', KeywordFalse), (''null'', KeywordNull), (''Int'', KeywordInt),
     (''Real'', KeywordReal), (''Complex'', KeywordComplex), (''String'', KeywordString),
     (''Bool'', KeywordBool), (''Nothing'', KeywordNothing), (''List'', KeywordList),
     (''Pair'', KeywordPair), (''Function'', KeywordFunction), (''lambda'', KeywordLambda),
     (''Overload'', KeywordOverload), (''Override'', KeywordOverride),
     (''Class'', KeywordClass), (''Attributes'', KeywordAttributes),
     (''Constant'', KeywordConstant), (''Local'', KeywordLocal), (''Global'', KeywordGlobal),
     (''uses'', KeywordUses), (''Confidential'', KeywordConfidential),
     (''Object'', KeywordObject), (''Error'', KeywordError)]"

definition LookupKeyword :: "string \<Rightarrow> Kind option" where
  "LookupKeyword normalized = map_of keywordTable normalized"

datatype TriviaKind = WhitespaceTrivia | LineCommentTrivia | BlockCommentTrivia

record Trivia =
  TriviaOf :: TriviaKind
  TriviaLexeme :: string
  TriviaSpan :: Span

text \<open>\<open>Value\<close> is normalized identifier text or decoded string text; \<open>Lexeme\<close> is the
  original spelling.\<close>

record Token =
  KindOf :: Kind
  Lexeme :: string
  Value :: string
  TokenSpan :: Span
  LeadingTrivia :: "Trivia list"
  Synthetic :: bool

text \<open>The source text a token stands for, with the trivia in front of it.\<close>

definition tokenText :: "Token \<Rightarrow> string" where
  "tokenText t = concat (map TriviaLexeme (LeadingTrivia t)) @ Lexeme t"

lemma LookupKeyword_Keyword: "LookupKeyword s = Some k \<Longrightarrow> \<exists>w. k = Keyword w"
proof -
  assume "LookupKeyword s = Some k"
  then have "(s, k) \<in> set keywordTable"
    by (auto simp: LookupKeyword_def dest: map_of_SomeD)
  then show ?thesis by (auto simp: keywordTable_def)
qed

end
