(* ===== verification/LexerBase.thy ===== *)
theory LexerBase
  imports Diagnostics Token
begin

text \<open>
  The lexer's state, its cursor operations and token emission, trivia and comments
  (\<open>internal/lexer/lexer.go\<close>, first half; \<open>errors.go\<close>, \<open>result.go\<close>, \<open>unicode.go\<close>,
  \<open>identifier.go\<close>). The mutable \<open>*lexer\<close> is the record \<open>lexer\<close>, passed and returned.

  NFKC normalization is golang.org/x/text code, and the Unicode range tables and the quoting of a
  rune (\<open>%q\<close>, which depends on the tables of printable characters) are data of the Go library:
  they are the parameter \<open>unicode\<close>.
\<close>

subsection \<open>Messages\<close>

definition codeInvalidUTF8 :: string where "codeInvalidUTF8 = ''LEX001''"
definition codeUnexpectedCharacter :: string where "codeUnexpectedCharacter = ''LEX002''"
definition codeUnterminatedBlockComment :: string where "codeUnterminatedBlockComment = ''LEX003''"
definition codeInvalidNumericLiteral :: string where "codeInvalidNumericLiteral = ''LEX004''"
definition codeInvalidEscape :: string where "codeInvalidEscape = ''LEX005''"
definition codeUnterminatedString :: string where "codeUnterminatedString = ''LEX006''"
definition codeNewlineInString :: string where "codeNewlineInString = ''LEX007''"
definition codeUnmatchedStringBrace :: string where "codeUnmatchedStringBrace = ''LEX008''"
definition codeUnterminatedInterpolation :: string where "codeUnterminatedInterpolation = ''LEX009''"
definition codeEmptyInterpolation :: string where "codeEmptyInterpolation = ''LEX010''"

lemmas lexerCodes = codeInvalidUTF8_def codeUnexpectedCharacter_def codeUnterminatedBlockComment_def
  codeInvalidNumericLiteral_def codeInvalidEscape_def codeUnterminatedString_def
  codeNewlineInString_def codeUnmatchedStringBrace_def codeUnterminatedInterpolation_def
  codeEmptyInterpolation_def

text \<open>A message and its hint.\<close>

definition mInvalidUTF8 :: "string \<times> string" where
  "mInvalidUTF8 = (''invalid UTF-8 byte in source'', ''save the source file as valid UTF-8'')"

definition mBlockComment :: "string \<times> string" where
  "mBlockComment = (''unterminated multiline comment'', ''add */ to close the comment'')"

definition hUnexpected :: string where
  "hUnexpected = ''remove the character or replace it with valid AhdCode syntax''"

definition mAfterPoint :: "string \<times> string" where
  "mAfterPoint = (''Real literals require digits after the decimal point'',
     ''add one or more digits after the decimal point'')"

definition mExponent :: "string \<times> string" where
  "mExponent = (''numeric exponent requires decimal digits'',
     ''add one or more digits after the exponent marker'')"

definition mSuffix :: "string \<times> string" where
  "mSuffix = (''only the uppercase I numeric suffix is supported'',
     ''write plain decimal digits or append uppercase I immediately for an imaginary literal'')"

definition mBeforePoint :: "string \<times> string" where
  "mBeforePoint = (''Real literals require digits before the decimal point'',
     ''write 0 before the decimal point'')"

subsection \<open>Unicode classes\<close>

record unicode =
  nfkc :: "string \<Rightarrow> string"
  patternSyntax :: "nat \<Rightarrow> bool"
  patternWhiteSpace :: "nat \<Rightarrow> bool"
  isLetter :: "nat \<Rightarrow> bool"
  tableNl :: "nat \<Rightarrow> bool"
  otherIDStart :: "nat \<Rightarrow> bool"
  tableMn :: "nat \<Rightarrow> bool"
  tableMc :: "nat \<Rightarrow> bool"
  tableNd :: "nat \<Rightarrow> bool"
  tablePc :: "nat \<Rightarrow> bool"
  otherIDContinue :: "nat \<Rightarrow> bool"
  quoteRune :: "nat \<Rightarrow> string"

definition isIDStart :: "unicode \<Rightarrow> nat \<Rightarrow> bool" where
  "isIDStart uc r =
    (if patternSyntax uc r \<or> patternWhiteSpace uc r then False
     else isLetter uc r \<or> tableNl uc r \<or> otherIDStart uc r)"

definition isIDContinue :: "unicode \<Rightarrow> nat \<Rightarrow> bool" where
  "isIDContinue uc r =
    (if patternSyntax uc r \<or> patternWhiteSpace uc r then False
     else isIDStart uc r \<or> tableMn uc r \<or> tableMc uc r \<or> tableNd uc r \<or> tablePc uc r
          \<or> otherIDContinue uc r)"

text \<open>\<open>for _, r := range s\<close>: the runes of a string, an ill-formed byte as \<open>RuneError\<close>.\<close>

function runesOf :: "string \<Rightarrow> nat list" where
  "runesOf s = (if s = [] then []
                else fst (DecodeRune s) # runesOf (drop (snd (DecodeRune s)) s))"
  by pat_completeness auto
termination
  by (relation "measure length") (auto simp: DecodeRune_size_pos)

declare runesOf.simps [simp del]

definition normalizeIdentifier :: "unicode \<Rightarrow> string \<Rightarrow> string" where
  "normalizeIdentifier uc text = nfkc uc text"

definition isXIDStart :: "unicode \<Rightarrow> nat \<Rightarrow> bool" where
  "isXIDStart uc r =
    (if r = byteOf CHR ''_'' then True
     else
       (let normalized = nfkc uc (EncodeRune r);
            (first, size) = DecodeRune normalized
        in if size = 0 \<or> \<not> isIDStart uc first then False
           else list_all (isIDContinue uc) (runesOf (drop size normalized))))"

definition isXIDContinue :: "unicode \<Rightarrow> nat \<Rightarrow> bool" where
  "isXIDContinue uc r =
    (if r = byteOf CHR ''_'' then True
     else
       (let normalized = nfkc uc (EncodeRune r)
        in if normalized = [] then False
           else list_all (isIDContinue uc) (runesOf normalized)))"

definition ValidIdentifier :: "unicode \<Rightarrow> string \<Rightarrow> bool" where
  "ValidIdentifier uc text =
    (if text = [] then False
     else
       (let (first, size) = DecodeRune text
        in if \<not> isXIDStart uc first then False
           else list_all (isXIDContinue uc) (runesOf (drop size text))))"

definition startsIdentifierAt :: "unicode \<Rightarrow> string \<Rightarrow> nat \<Rightarrow> bool" where
  "startsIdentifierAt uc text offset =
    (if offset \<ge> length text then False else isXIDStart uc (fst (DecodeRune (drop offset text))))"

definition isASCIIDigit :: "char \<Rightarrow> bool" where
  "isASCIIDigit b = (byteOf b \<ge> byteOf CHR ''0'' \<and> byteOf b \<le> byteOf CHR ''9'')"

definition isHorizontalWhitespace :: "char \<Rightarrow> bool" where
  "isHorizontalWhitespace b = (b = CHR '' '' \<or> b = CHR 0x09 \<or> b = CHR 0x0C \<or> b = CHR 0x0B)"

definition isRawStringPrefix :: "char \<Rightarrow> char \<Rightarrow> bool" where
  "isRawStringPrefix prefix quote =
     (prefix = CHR ''r'' \<and> (quote = CHR 0x22 \<or> quote = CHR 0x27))"

subsection \<open>State and cursor\<close>

record lexer =
  l_file :: File
  l_offset :: nat
  l_line :: int
  l_column :: int
  l_tokens :: "Token list"
  l_pending :: "Trivia list"
  l_bag :: Bag

abbreviation l_text :: "lexer \<Rightarrow> string" where
  "l_text l \<equiv> Text (l_file l)"

text \<open>Bytes not yet consumed: the measure of every loop of the lexer.\<close>

definition remaining :: "lexer \<Rightarrow> nat" where
  "remaining l = length (l_text l) - l_offset l"

definition position :: "lexer \<Rightarrow> Position" where
  "position l = \<lparr>Offset = int (l_offset l), Line = l_line l, Column = l_column l\<rparr>"

definition l_span :: "lexer \<Rightarrow> Position \<Rightarrow> Span" where
  "l_span l start = NewSpan (ID (l_file l)) start (position l)"

definition atEnd :: "lexer \<Rightarrow> bool" where
  "atEnd l = (l_offset l \<ge> length (l_text l))"

definition byteAt :: "lexer \<Rightarrow> nat \<Rightarrow> char" where
  "byteAt l relative =
    (let index = l_offset l + relative
     in if index \<ge> length (l_text l) then CHR 0x00 else l_text l ! index)"

definition hasPrefix :: "lexer \<Rightarrow> string \<Rightarrow> bool" where
  "hasPrefix l text =
    (length (l_text l) - l_offset l \<ge> length text
     \<and> slice (l_text l) (l_offset l) (l_offset l + length text) = text)"

definition peekRune :: "lexer \<Rightarrow> nat \<times> nat" where
  "peekRune l = (if atEnd l then (0, 0) else DecodeRune (drop (l_offset l) (l_text l)))"

definition lexError :: "string \<Rightarrow> string \<times> string \<Rightarrow> Span \<Rightarrow> lexer \<Rightarrow> lexer" where
  "lexError code m span l = l\<lparr>l_bag := Bag_Error (l_bag l) code (fst m) span (snd m)\<rparr>"

definition advanceRune :: "lexer \<Rightarrow> (nat \<times> nat) \<times> lexer" where
  "advanceRune l =
    (let start = position l; (r, size) = peekRune l in
     if size = 0 then ((0, 0), l)
     else if r = RuneError \<and> size = 1 then
       (let l1 = l\<lparr>l_offset := l_offset l + 1, l_column := l_column l + 1\<rparr>
        in ((r, size), lexError codeInvalidUTF8 mInvalidUTF8 (l_span l1 start) l1))
     else ((r, size), l\<lparr>l_offset := l_offset l + size, l_column := l_column l + 1\<rparr>))"

fun advanceASCII :: "nat \<Rightarrow> lexer \<Rightarrow> lexer" where
  "advanceASCII 0 l = l"
| "advanceASCII (Suc count) l =
    (if atEnd l then l
     else advanceASCII count (l\<lparr>l_offset := l_offset l + 1, l_column := l_column l + 1\<rparr>))"

definition isNewline :: "lexer \<Rightarrow> bool" where
  "isNewline l = (byteAt l 0 = CHR 0x0A \<or> byteAt l 0 = CHR 0x0D)"

definition consumeNewline :: "lexer \<Rightarrow> lexer" where
  "consumeNewline l =
    l\<lparr>l_offset := (if hasPrefix l [CHR 0x0D, CHR 0x0A] then l_offset l + 2 else l_offset l + 1),
      l_line := l_line l + 1, l_column := 1\<rparr>"

definition emit :: "Kind \<Rightarrow> Position \<Rightarrow> string \<Rightarrow> bool \<Rightarrow> lexer \<Rightarrow> lexer" where
  "emit kind start value synthetic l =
    (let span = l_span l start;
         lexeme = Span_Text span (l_file l)
     in l\<lparr>l_pending := [],
          l_tokens := l_tokens l @ [\<lparr>KindOf = kind, Lexeme = lexeme, Value = value,
            TokenSpan = span, LeadingTrivia = l_pending l, Synthetic = synthetic\<rparr>]\<rparr>)"

definition emitSynthetic :: "Kind \<Rightarrow> Position \<Rightarrow> lexer \<Rightarrow> lexer" where
  "emitSynthetic kind at l = emit kind at [] True l"

definition emitNewline :: "lexer \<Rightarrow> lexer" where
  "emitNewline l =
    (let start = position l; l1 = consumeNewline l
     in emit Newline start [CHR 0x0A] False l1)"

definition addTrivia :: "TriviaKind \<Rightarrow> Position \<Rightarrow> lexer \<Rightarrow> lexer" where
  "addTrivia kind start l =
    (let span = l_span l start
     in if Span_Empty span then l
        else l\<lparr>l_pending := l_pending l @
          [\<lparr>TriviaOf = kind, TriviaLexeme = Span_Text span (l_file l), TriviaSpan = span\<rparr>]\<rparr>)"

subsection \<open>How the cursor operations move\<close>

text \<open>
  \<open>quiet l l'\<close>: from \<open>l\<close> to \<open>l'\<close> the cursor moved forward inside the text and nothing
  was emitted; diagnostics may have been reported.
\<close>

definition quiet :: "lexer \<Rightarrow> lexer \<Rightarrow> bool" where
  "quiet l l' \<longleftrightarrow> l_file l' = l_file l \<and> l_offset l \<le> l_offset l'
     \<and> l_offset l' \<le> length (l_text l) \<and> l_tokens l' = l_tokens l
     \<and> l_pending l' = l_pending l \<and> extends (l_bag l) (l_bag l')"

definition inText :: "lexer \<Rightarrow> bool" where
  "inText l = (l_offset l \<le> length (l_text l))"

lemma quiet_refl [simp]: "quiet l l = inText l"
  by (simp add: quiet_def inText_def)

lemma quiet_trans [trans]: "quiet l l' \<Longrightarrow> quiet l' l'' \<Longrightarrow> quiet l l''"
  by (auto simp: quiet_def intro: extends_trans)

lemma quiet_inText: "quiet l l' \<Longrightarrow> inText l \<and> inText l'"
  by (auto simp: quiet_def inText_def)

lemma quiet_file: "quiet l l' \<Longrightarrow> l_file l' = l_file l"
  by (simp add: quiet_def)

lemma quiet_offset: "quiet l l' \<Longrightarrow> l_offset l \<le> l_offset l'"
  by (simp add: quiet_def)

lemma quiet_remaining: "quiet l l' \<Longrightarrow> remaining l' \<le> remaining l"
  by (auto simp: quiet_def remaining_def)

lemma remaining_less:
  "l_file l' = l_file l \<Longrightarrow> l_offset l < l_offset l' \<Longrightarrow> \<not> atEnd l \<Longrightarrow> remaining l' < remaining l"
  by (auto simp: remaining_def atEnd_def)

lemma atEnd_remaining: "atEnd l \<longleftrightarrow> remaining l = 0"
  by (auto simp: atEnd_def remaining_def)

lemma atEnd_inText: "\<not> atEnd l \<Longrightarrow> inText l"
  by (simp add: atEnd_def inText_def)

lemma byteAt_atEnd: "byteAt l n \<noteq> CHR 0x00 \<Longrightarrow> \<not> atEnd l"
  by (auto simp: byteAt_def atEnd_def Let_def split: if_splits)

lemma byteAt_bound: "byteAt l n \<noteq> CHR 0x00 \<Longrightarrow> l_offset l + n < length (l_text l)"
  by (auto simp: byteAt_def Let_def split: if_splits)

lemma isASCIIDigit_byteAt: "isASCIIDigit (byteAt l 0) \<Longrightarrow> \<not> atEnd l"
  by (rule byteAt_atEnd [of l 0]) (auto simp: isASCIIDigit_def byteOf_def)

lemma isHorizontalWhitespace_byteAt: "isHorizontalWhitespace (byteAt l 0) \<Longrightarrow> \<not> atEnd l"
  by (rule byteAt_atEnd [of l 0]) (auto simp: isHorizontalWhitespace_def)

lemma isNewline_byteAt: "isNewline l \<Longrightarrow> \<not> atEnd l"
  by (rule byteAt_atEnd [of l 0]) (auto simp: isNewline_def)

lemma hasPrefix_bound: "hasPrefix l t \<Longrightarrow> t \<noteq> [] \<Longrightarrow> l_offset l + length t \<le> length (l_text l)"
  by (cases t) (auto simp: hasPrefix_def)

lemma peekRune_size: "\<not> atEnd l \<Longrightarrow> 0 < snd (peekRune l) \<and> l_offset l + snd (peekRune l) \<le> length (l_text l)"
  using DecodeRune_size_pos [of "drop (l_offset l) (l_text l)"]
    DecodeRune_size_le [of "drop (l_offset l) (l_text l)"]
  by (auto simp: peekRune_def atEnd_def)

lemma quiet_step:
  "inText l \<Longrightarrow> l_offset l + n \<le> length (l_text l)
   \<Longrightarrow> quiet l (l\<lparr>l_offset := l_offset l + n, l_line := x, l_column := y\<rparr>)"
  by (simp add: quiet_def inText_def)

lemma quiet_lexError: "quiet l l' \<Longrightarrow> quiet l (lexError c m s l')"
  by (auto simp: quiet_def lexError_def intro: extends_trans)

lemma advanceRune_quiet:
  assumes "inText l"
  shows "quiet l (snd (advanceRune l))"
    and "\<not> atEnd l \<Longrightarrow> l_offset l < l_offset (snd (advanceRune l))"
proof -
  let ?n = "snd (peekRune l)"
  have bound: "l_offset l + ?n \<le> length (l_text l)"
    using peekRune_size [of l] assms by (cases "atEnd l") (auto simp: peekRune_def inText_def)
  then show "quiet l (snd (advanceRune l))"
    using assms
    by (auto simp: advanceRune_def Let_def split_def inText_def quiet_def lexError_def)
  show "l_offset l < l_offset (snd (advanceRune l))" if "\<not> atEnd l"
    using peekRune_size [OF that]
    by (auto simp: advanceRune_def Let_def split_def lexError_def)
qed

lemma advanceASCII_quiet: "inText l \<Longrightarrow> quiet l (advanceASCII n l)"
proof (induction n l rule: advanceASCII.induct)
  case (2 n l)
  let ?l1 = "l\<lparr>l_offset := l_offset l + 1, l_column := l_column l + 1\<rparr>"
  show ?case
  proof (cases "atEnd l")
    case False
    then have "quiet l ?l1" using 2(2) by (simp add: quiet_def inText_def atEnd_def)
    moreover from this have "quiet ?l1 (advanceASCII n ?l1)"
      using 2(1) [OF False] quiet_inText by blast
    ultimately show ?thesis using False by (simp add: quiet_trans)
  qed (use 2 in simp)
qed simp

lemma advanceASCII_offset: "l_offset l + n \<le> length (l_text l) \<Longrightarrow> l_offset (advanceASCII n l) = l_offset l + n"
  by (induction n l rule: advanceASCII.induct) (auto simp: atEnd_def)

lemma advanceASCII_progress: "\<not> atEnd l \<Longrightarrow> inText l \<Longrightarrow> 0 < n \<Longrightarrow> l_offset l < l_offset (advanceASCII n l)"
proof (cases n)
  case (Suc k)
  assume "\<not> atEnd l" "inText l"
  let ?l1 = "l\<lparr>l_offset := l_offset l + 1, l_column := l_column l + 1\<rparr>"
  have "inText ?l1" using \<open>\<not> atEnd l\<close> by (simp add: inText_def atEnd_def)
  from quiet_offset [OF advanceASCII_quiet [OF this, of k]] Suc \<open>\<not> atEnd l\<close>
  show ?thesis by simp
qed simp

lemma advance1_remaining: "\<not> atEnd l \<Longrightarrow> remaining (advanceASCII 1 l) < remaining l"
  by (simp add: remaining_def atEnd_def)

lemma advanceRune_remaining: "\<not> atEnd l \<Longrightarrow> remaining (snd (advanceRune l)) < remaining l"
  using peekRune_size [of l]
  by (auto simp: advanceRune_def Let_def split_def lexError_def remaining_def atEnd_def)

lemma consumeNewline_quiet:
  assumes "inText l" "isNewline l"
  shows "quiet l (consumeNewline l)" "l_offset l < l_offset (consumeNewline l)"
  using assms isNewline_byteAt [OF assms(2)] hasPrefix_bound [of l "[CHR 0x0D, CHR 0x0A]"]
  by (auto simp: consumeNewline_def quiet_def inText_def atEnd_def)

end
