(* ===== verification/Lexer.thy ===== *)
theory Lexer
  imports LexerBase
begin

text \<open>
  Scanning: trivia and comments, identifiers, numbers, operators, ordinary, raw and triple
  strings with nested interpolation, and the main loop (\<open>lexer.go\<close>, \<open>string.go\<close>).

  Loops that only move the cursor are total functions whose measure is the number of bytes left.
  Strings and interpolations call each other through \<open>scanCodeToken\<close>; these loops carry fuel,
  and \<open>LexerProofs\<close> shows that the fuel \<open>Lex\<close> supplies is always enough.
\<close>

subsection \<open>More messages\<close>

definition mNewlineInString :: "string \<times> string" where
  "mNewlineInString = (''physical newline in ordinary string'',
     ''close the string before the newline or use a triple string'')"

definition mUnterminatedString :: "string \<times> string" where
  "mUnterminatedString = (''unterminated string'', ''add the matching string delimiter'')"

definition mUnmatchedBrace :: "string \<times> string" where
  "mUnmatchedBrace = (''unmatched } in string text'', ''escape a literal closing brace as '' @ [CHR 0x5C] @ ''}'')"

definition mIncompleteEscape :: "string \<times> string" where
  "mIncompleteEscape = (''incomplete escape sequence'', ''add one of the supported escape characters'')"

definition mNewlineEscape :: "string \<times> string" where
  "mNewlineEscape = (''physical newline cannot be escaped in a string'',
     ''use '' @ [CHR 0x5C] @ ''n for a newline value or a triple string for physical newlines'')"

definition mUnsupportedEscape :: "string \<times> string" where
  "mUnsupportedEscape = (''unsupported escape sequence'',
     (let b = [CHR 0x5C] in ''use only '' @ b @ ''n, '' @ b @ ''r, '' @ b @ ''t, '' @ b @ b @ '', ''
        @ b @ [CHR 0x22] @ '', '' @ b @ [CHR 0x27] @ '', '' @ b @ ''{, or '' @ b @ ''}''))"

definition mInterpolationTrivia :: "string \<times> string" where
  "mInterpolationTrivia = (''physical newline in ordinary string interpolation'',
     ''use a triple string when interpolation syntax spans physical lines'')"

definition mInterpolationNewline :: "string \<times> string" where
  "mInterpolationNewline = (''physical newline in ordinary string interpolation'',
     ''close the interpolation and string before the newline'')"

definition mEmptyInterpolation :: "string \<times> string" where
  "mEmptyInterpolation = (''empty string interpolation'', ''place one expression between the braces'')"

definition mUnterminatedInterpolation :: "string \<times> string" where
  "mUnterminatedInterpolation = (''unterminated string interpolation'',
     ''add } to close the interpolation'')"

subsection \<open>Trivia\<close>

function skipHorizontal :: "lexer \<Rightarrow> lexer" where
  "skipHorizontal l =
    (if isHorizontalWhitespace (byteAt l 0) then skipHorizontal (advanceASCII 1 l) else l)"
  by pat_completeness auto
termination
  by (relation "measure remaining")
    (use isHorizontalWhitespace_byteAt advance1_remaining in auto)

function skipLine :: "lexer \<Rightarrow> lexer" where
  "skipLine l =
    (if \<not> atEnd l \<and> \<not> isNewline l then skipLine (snd (advanceRune l)) else l)"
  by pat_completeness auto
termination
  by (relation "measure remaining") (use advanceRune_remaining in auto)

declare skipHorizontal.simps [simp del] skipLine.simps [simp del]

function scanBlockCommentLoop :: "Position \<Rightarrow> Position \<Rightarrow> lexer \<Rightarrow> lexer" where
  "scanBlockCommentLoop opening chunkStart l =
    (if atEnd l then
       (let l1 = addTrivia BlockCommentTrivia chunkStart l
        in lexError codeUnterminatedBlockComment mBlockComment (l_span l1 opening) l1)
     else if hasPrefix l ''*/'' then
       addTrivia BlockCommentTrivia chunkStart (advanceASCII 2 l)
     else if isNewline l then
       (let l1 = emitNewline (addTrivia BlockCommentTrivia chunkStart l)
        in scanBlockCommentLoop opening (position l1) l1)
     else scanBlockCommentLoop opening chunkStart (snd (advanceRune l)))"
  by pat_completeness auto
termination
proof (relation "measure (\<lambda>(p, q, l). remaining l)", goal_cases)
  case (2 p q l x)
  then show ?case
    by (auto simp: emitNewline_def emit_def consumeNewline_def addTrivia_def remaining_def atEnd_def
        Let_def)
qed (auto simp: advanceRune_remaining)

declare scanBlockCommentLoop.simps [simp del]

definition scanBlockComment :: "lexer \<Rightarrow> lexer" where
  "scanBlockComment l =
    (let opening = position l; l1 = advanceASCII 2 l
     in scanBlockCommentLoop opening opening l1)"

text \<open>The frame facts that the termination of \<open>scanTrivia\<close> needs.\<close>

lemma skipHorizontal_step:
  "isHorizontalWhitespace (byteAt l 0) \<Longrightarrow> skipHorizontal l = skipHorizontal (advanceASCII 1 l)"
  by (subst skipHorizontal.simps) (rule if_P)

lemma skipHorizontal_stop: "\<not> isHorizontalWhitespace (byteAt l 0) \<Longrightarrow> skipHorizontal l = l"
  by (subst skipHorizontal.simps) (rule if_not_P)

lemma skipLine_step:
  "\<not> atEnd l \<Longrightarrow> \<not> isNewline l \<Longrightarrow> skipLine l = skipLine (snd (advanceRune l))"
  by (subst skipLine.simps) (rule if_P, blast)

lemma skipLine_stop: "atEnd l \<or> isNewline l \<Longrightarrow> skipLine l = l"
  by (subst skipLine.simps) (rule if_not_P, blast)

lemma skipHorizontal_quiet: "inText l \<Longrightarrow> quiet l (skipHorizontal l)"
proof (induction l rule: skipHorizontal.induct)
  case (1 l)
  show ?case
  proof (cases "isHorizontalWhitespace (byteAt l 0)")
    case True
    have q: "quiet l (advanceASCII 1 l)" using 1(2) by (rule advanceASCII_quiet)
    with 1(1) [OF True] have "quiet (advanceASCII 1 l) (skipHorizontal (advanceASCII 1 l))"
      using quiet_inText by blast
    with q show ?thesis unfolding skipHorizontal_step [OF True] by (rule quiet_trans)
  qed (use 1(2) in \<open>simp add: skipHorizontal_stop\<close>)
qed

lemma skipLine_quiet: "inText l \<Longrightarrow> quiet l (skipLine l)"
proof (induction l rule: skipLine.induct)
  case (1 l)
  show ?case
  proof (cases "\<not> atEnd l \<and> \<not> isNewline l")
    case True
    have q: "quiet l (snd (advanceRune l))" using 1(2) by (rule advanceRune_quiet)
    with 1(1) [OF True] have "quiet (snd (advanceRune l)) (skipLine (snd (advanceRune l)))"
      using quiet_inText by blast
    with q show ?thesis using True by (simp add: skipLine_step quiet_trans [OF q])
  qed (use 1(2) skipLine_stop [of l] in auto)
qed

lemma addTrivia_fields [simp, lexer_frame]:
  "l_file (addTrivia k s l) = l_file l" "l_offset (addTrivia k s l) = l_offset l"
  "l_line (addTrivia k s l) = l_line l" "l_column (addTrivia k s l) = l_column l"
  "l_tokens (addTrivia k s l) = l_tokens l" "l_bag (addTrivia k s l) = l_bag l"
  by (simp_all add: addTrivia_def Let_def)

lemma addTrivia_tests [simp, lexer_frame]:
  "byteAt (addTrivia k s l) n = byteAt l n" "isNewline (addTrivia k s l) = isNewline l"
  "atEnd (addTrivia k s l) = atEnd l" "inText (addTrivia k s l) = inText l"
  "position (addTrivia k s l) = position l"
  by (simp_all add: isNewline_def byteAt_def atEnd_def inText_def position_def Let_def)

lemma emit_fields [simp, lexer_frame]:
  "l_file (emit k s v b l) = l_file l" "l_offset (emit k s v b l) = l_offset l"
  "l_line (emit k s v b l) = l_line l" "l_column (emit k s v b l) = l_column l"
  "l_pending (emit k s v b l) = []" "l_bag (emit k s v b l) = l_bag l"
  by (simp_all add: emit_def Let_def)

lemma lexError_fields [simp, lexer_frame]:
  "l_file (lexError c m s l) = l_file l" "l_offset (lexError c m s l) = l_offset l"
  "l_line (lexError c m s l) = l_line l" "l_column (lexError c m s l) = l_column l"
  "l_tokens (lexError c m s l) = l_tokens l" "l_pending (lexError c m s l) = l_pending l"
  by (simp_all add: lexError_def)

lemma consumeNewline_fields [simp, lexer_frame]:
  "l_file (consumeNewline l) = l_file l" "l_tokens (consumeNewline l) = l_tokens l"
  "l_pending (consumeNewline l) = l_pending l" "l_bag (consumeNewline l) = l_bag l"
  by (simp_all add: consumeNewline_def)

lemma consumeNewline_offset: "l_offset l < l_offset (consumeNewline l)"
  by (simp add: consumeNewline_def)

lemma emitNewline_fields [simp, lexer_frame]:
  "l_file (emitNewline l) = l_file l" "l_offset (emitNewline l) = l_offset (consumeNewline l)"
  "l_bag (emitNewline l) = l_bag l"
  by (simp_all add: emitNewline_def Let_def)

lemma scanBlockCommentLoop_offset:
  "inText l \<Longrightarrow> l_file (scanBlockCommentLoop p q l) = l_file l
     \<and> l_offset l \<le> l_offset (scanBlockCommentLoop p q l)
     \<and> inText (scanBlockCommentLoop p q l)"
proof (induction p q l rule: scanBlockCommentLoop.induct)
  case (1 p q l)
  consider "atEnd l" | "\<not> atEnd l" "hasPrefix l ''*/''"
    | "\<not> atEnd l" "\<not> hasPrefix l ''*/''" "isNewline l"
    | "\<not> atEnd l" "\<not> hasPrefix l ''*/''" "\<not> isNewline l" by blast
  then show ?case
  proof cases
    case 1
    with \<open>inText l\<close> show ?thesis
      by (subst (1 2 3) scanBlockCommentLoop.simps) (simp add: Let_def inText_def)
  next
    case 2
    have "quiet l (advanceASCII 2 l)" using \<open>inText l\<close> by (rule advanceASCII_quiet)
    with 2 show ?thesis
      by (subst (1 2 3) scanBlockCommentLoop.simps) (auto simp: quiet_def inText_def)
  next
    case 3
    let ?l1 = "emitNewline (addTrivia BlockCommentTrivia q l)"
    have eq: "scanBlockCommentLoop p q l = scanBlockCommentLoop p (position ?l1) ?l1"
      using 3 by (subst scanBlockCommentLoop.simps) (simp add: Let_def)
    have "isNewline (addTrivia BlockCommentTrivia q l)" "inText (addTrivia BlockCommentTrivia q l)"
      using 3 \<open>inText l\<close> by simp_all
    from consumeNewline_quiet [OF this(2,1)]
    have "l_offset l < l_offset ?l1" "inText ?l1" "l_file ?l1 = l_file l"
      by (auto simp: quiet_def inText_def)
    with 3 "1.IH"(1) [OF 3 refl] show ?thesis by (simp add: eq)
  next
    case 4
    have eq: "scanBlockCommentLoop p q l = scanBlockCommentLoop p q (snd (advanceRune l))"
      using 4 by (subst scanBlockCommentLoop.simps) simp
    have "quiet l (snd (advanceRune l))" using \<open>inText l\<close> by (rule advanceRune_quiet)
    moreover from this have "inText (snd (advanceRune l))" using quiet_inText by blast
    ultimately show ?thesis using "1.IH"(2) [OF 4] by (auto simp: eq quiet_def)
  qed
qed

lemma inText_remaining_less:
  "l_file l' = l_file l \<Longrightarrow> l_offset l < l_offset l' \<Longrightarrow> inText l' \<Longrightarrow> remaining l' < remaining l"
  by (auto simp: remaining_def inText_def)

lemma scanBlockComment_progress:
  assumes "inText l" "hasPrefix l ''/*''"
  shows "l_file (scanBlockComment l) = l_file l" "l_offset l < l_offset (scanBlockComment l)"
    "inText (scanBlockComment l)"
proof -
  have q: "quiet l (advanceASCII 2 l)" and le: "l_offset l + 2 \<le> length (l_text l)"
    using assms advanceASCII_quiet hasPrefix_bound [of l "''/*''"] by auto
  from scanBlockCommentLoop_offset [of "advanceASCII 2 l" "position l" "position l"]
    quiet_inText [OF q] quiet_file [OF q] advanceASCII_offset [OF le]
  show "l_file (scanBlockComment l) = l_file l" "l_offset l < l_offset (scanBlockComment l)"
    "inText (scanBlockComment l)"
    by (auto simp: scanBlockComment_def Let_def)
qed

function scanTrivia :: "lexer \<Rightarrow> lexer" where
  "scanTrivia l =
    (if atEnd l then l
     else if isHorizontalWhitespace (byteAt l 0) then
       scanTrivia (addTrivia WhitespaceTrivia (position l) (skipHorizontal l))
     else if hasPrefix l ''//'' then
       scanTrivia (addTrivia LineCommentTrivia (position l) (skipLine (advanceASCII 2 l)))
     else if hasPrefix l ''/*'' then scanTrivia (scanBlockComment l)
     else l)"
  by pat_completeness auto
termination
proof (relation "measure remaining", goal_cases)
  case (2 l)
  then have l: "\<not> atEnd l" "inText l" "isHorizontalWhitespace (byteAt l 0)" by (auto simp: atEnd_inText)
  from l(2) have "quiet l (advanceASCII 1 l)" by (rule advanceASCII_quiet)
  then have q: "quiet (advanceASCII 1 l) (skipHorizontal l)"
    unfolding skipHorizontal_step [OF l(3)] using skipHorizontal_quiet quiet_inText by blast
  have "remaining (skipHorizontal l) < remaining l"
    using quiet_remaining [OF q] advance1_remaining [OF l(1)] by (rule le_less_trans)
  then show ?case by (simp add: remaining_def)
next
  case (3 l)
  then have l: "\<not> atEnd l" "inText l" "hasPrefix l ''//''" by (auto simp: atEnd_inText)
  have q: "quiet l (advanceASCII 2 l)" using l(2) by (rule advanceASCII_quiet)
  then have "quiet (advanceASCII 2 l) (skipLine (advanceASCII 2 l))"
    using skipLine_quiet quiet_inText by blast
  moreover have "l_offset (advanceASCII 2 l) = l_offset l + 2"
    using hasPrefix_bound [OF l(3)] by (simp add: advanceASCII_offset)
  ultimately show ?case using quiet_file [OF q]
    by (auto simp: quiet_def remaining_def)
next
  case (4 l)
  then have l: "\<not> atEnd l" "inText l" "hasPrefix l ''/*''" by (auto simp: atEnd_inText)
  from scanBlockComment_progress [OF l(2,3)] show ?case
    by (simp add: inText_remaining_less)
qed simp

declare scanTrivia.simps [simp del]

subsection \<open>Identifiers, numbers, operators\<close>

record interpolationContext =
  tripleOf :: bool
  braceDepth :: int
  sawExpressionToken :: bool
  openingPos :: Position

text \<open>\<open>context.sawExpressionToken = true\<close>, where there is a context.\<close>

definition sawToken :: "interpolationContext option \<Rightarrow> interpolationContext option" where
  "sawToken context = map_option (\<lambda>c. c\<lparr>sawExpressionToken := True\<rparr>) context"

function skipXID :: "unicode \<Rightarrow> lexer \<Rightarrow> lexer" where
  "skipXID uc l =
    (if atEnd l then l
     else if \<not> isXIDContinue uc (fst (peekRune l)) then l
     else skipXID uc (snd (advanceRune l)))"
  by pat_completeness auto
termination
  by (relation "measure (\<lambda>(uc, l). remaining l)") (auto simp: advanceRune_remaining)

function skipDigits :: "lexer \<Rightarrow> lexer" where
  "skipDigits l = (if isASCIIDigit (byteAt l 0) then skipDigits (advanceASCII 1 l) else l)"
  by pat_completeness auto
termination
  by (relation "measure remaining") (use isASCIIDigit_byteAt advance1_remaining in auto)

declare skipXID.simps [simp del] skipDigits.simps [simp del]

definition scanIdentifier ::
  "unicode \<Rightarrow> interpolationContext option \<Rightarrow> lexer \<Rightarrow> interpolationContext option \<times> lexer" where
  "scanIdentifier uc context l =
    (let start = position l;
         l1 = skipXID uc (snd (advanceRune l));
         raw = Span_Text (l_span l1 start) (l_file l1);
         normalized = normalizeIdentifier uc raw;
         kind = (case LookupKeyword normalized of Some keyword \<Rightarrow> keyword | None \<Rightarrow> Identifier)
     in (sawToken context, emit kind start normalized False l1))"

text \<open>
  \<open>scanNumber\<close> in the order of the code: the digits, an optional fraction, an optional exponent,
  the imaginary suffix, and a rejected identifier suffix. Each part returns the kind so far.
\<close>

definition scanFraction :: "unicode \<Rightarrow> Position \<Rightarrow> Kind \<times> lexer \<Rightarrow> Kind \<times> lexer" where
  "scanFraction uc start kl =
    (let (kind, l) = kl in
     if byteAt l 0 = CHR ''.'' \<and> isASCIIDigit (byteAt l 1) then
       (RealLiteral, skipDigits (advanceASCII 1 l))
     else if byteAt l 0 = CHR ''.'' \<and> \<not> startsIdentifierAt uc (l_text l) (l_offset l + 1) then
       (let l1 = advanceASCII 1 l
        in (RealLiteral, lexError codeInvalidNumericLiteral mAfterPoint (l_span l1 start) l1))
     else (kind, l))"

definition scanExponent :: "Position \<Rightarrow> Kind \<times> lexer \<Rightarrow> Kind \<times> lexer" where
  "scanExponent start kl =
    (let (kind, l) = kl in
     if byteAt l 0 = CHR ''e'' \<or> byteAt l 0 = CHR ''E'' then
       (let l1 = advanceASCII 1 l;
            l2 = (if byteAt l1 0 = CHR ''+'' \<or> byteAt l1 0 = CHR ''-'' then advanceASCII 1 l1 else l1)
        in (RealLiteral,
            if \<not> isASCIIDigit (byteAt l2 0)
            then lexError codeInvalidNumericLiteral mExponent (l_span l2 start) l2
            else skipDigits l2))
     else (kind, l))"

definition scanImaginary :: "Kind \<times> lexer \<Rightarrow> Kind \<times> lexer" where
  "scanImaginary kl =
    (let (kind, l) = kl in
     if byteAt l 0 = CHR ''I'' then (ImaginaryLiteral, advanceASCII 1 l) else (kind, l))"

definition scanSuffix :: "unicode \<Rightarrow> Position \<Rightarrow> Kind \<times> lexer \<Rightarrow> Kind \<times> lexer" where
  "scanSuffix uc start kl =
    (let (kind, l) = kl in
     if byteAt l 0 = CHR ''_'' \<or> startsIdentifierAt uc (l_text l) (l_offset l) then
       (let l1 = skipXID uc l
        in (kind, lexError codeInvalidNumericLiteral mSuffix (l_span l1 start) l1))
     else (kind, l))"

definition scanNumber ::
  "unicode \<Rightarrow> interpolationContext option \<Rightarrow> lexer \<Rightarrow> interpolationContext option \<times> lexer" where
  "scanNumber uc context l =
    (let start = position l;
         (kind, l1) = scanSuffix uc start (scanImaginary (scanExponent start
                        (scanFraction uc start (IntLiteral, skipDigits l))))
     in (sawToken context,
         emit kind start (Span_Text (l_span l1 start) (l_file l1)) False l1))"

definition scanLeadingDotNumber ::
  "interpolationContext option \<Rightarrow> lexer \<Rightarrow> interpolationContext option \<times> lexer" where
  "scanLeadingDotNumber context l =
    (let start = position l;
         l1 = skipDigits (advanceASCII 1 l);
         l2 = lexError codeInvalidNumericLiteral mBeforePoint (l_span l1 start) l1
     in (sawToken context,
         emit RealLiteral start (Span_Text (l_span l2 start) (l_file l2)) False l2))"

definition operatorPairs :: "(string \<times> Kind) list" where
  "operatorPairs =
    [('':='', Declare), (''->'', Arrow), (''+='', PlusAssign), (''-='', MinusAssign),
     (''*='', StarAssign), (''/='', SlashAssign), (''%='', PercentAssign),
     (''^='', CaretAssign), (''++'', Increment), (''--'', Decrement),
     (''=='', Equal), (''!='', NotEqual), (''<='', LessEqual), (''>='', GreaterEqual)]"

definition operatorSingles :: "(char \<times> Kind) list" where
  "operatorSingles =
    [(CHR '':'', Colon), (CHR ''='', Assign), (CHR ''+'', Plus), (CHR ''-'', Minus),
     (CHR ''*'', Star), (CHR ''/'', Slash), (CHR ''%'', Percent), (CHR ''^'', Caret),
     (CHR ''<'', Less), (CHR ''>'', Greater), (CHR ''.'', Dot), (CHR '','', Comma),
     (CHR ''('', LeftParen), (CHR '')'', RightParen), (CHR ''['', LeftBracket),
     (CHR '']'', RightBracket), (CHR ''{'', LeftBrace), (CHR ''}'', RightBrace),
     (CHR ''?'', Question), (CHR ''#'', Hash), (CHR ''@'', At)]"

definition operator :: "lexer \<Rightarrow> Kind \<times> nat" where
  "operator l =
    (case map_of operatorPairs [byteAt l 0, byteAt l 1] of
       Some kind \<Rightarrow> (kind, 2)
     | None \<Rightarrow>
         (case map_of operatorSingles (byteAt l 0) of
            Some kind \<Rightarrow> (kind, 1)
          | None \<Rightarrow> (Invalid, 0)))"

text \<open>\<open>fmt.Sprintf("unexpected character %q", r)\<close>; the quoting of a rune is a table of the
  Go library and a field of \<open>unicode\<close>.\<close>

definition mUnexpected :: "unicode \<Rightarrow> nat \<Rightarrow> string \<times> string" where
  "mUnexpected uc r = (''unexpected character '' @ quoteRune uc r, hUnexpected)"

text \<open>The last part of \<open>scanCodeToken\<close>: an operator, or a character that starts no token.\<close>

definition scanOperator ::
  "unicode \<Rightarrow> interpolationContext option \<Rightarrow> lexer \<Rightarrow> interpolationContext option \<times> lexer" where
  "scanOperator uc context l =
    (let start = position l; (kind, width) = operator l in
     if kind = Invalid then
       (let l1 = snd (advanceRune l)
        in (context, lexError codeUnexpectedCharacter (mUnexpected uc (fst (peekRune l)))
              (l_span l1 start) l1))
     else
       (let l1 = advanceASCII width l;
            context' = map_option (\<lambda>c. c\<lparr>sawExpressionToken := True,
                braceDepth := (if kind = LeftBrace then braceDepth c + 1
                               else if kind = RightBrace \<and> braceDepth c > 0 then braceDepth c - 1
                               else braceDepth c)\<rparr>) context
        in (context', emit kind start [] False l1)))"

subsection \<open>Strings\<close>

record stringDelimiter =
  quote :: char
  width :: nat
  triple :: bool

definition readStringDelimiter :: "lexer \<Rightarrow> stringDelimiter" where
  "readStringDelimiter l =
    (let q = byteAt l 0
     in if hasPrefix l [q, q, q] then \<lparr>quote = q, width = 3, triple = True\<rparr>
        else \<lparr>quote = q, width = 1, triple = False\<rparr>)"

definition matchesDelimiter :: "stringDelimiter \<Rightarrow> lexer \<Rightarrow> bool" where
  "matchesDelimiter d l =
    (if triple d then hasPrefix l [quote d, quote d, quote d] else byteAt l 0 = quote d)"

text \<open>The closure \<open>flush\<close>: emit the text since \<open>textStart\<close>, if there is any.\<close>

definition flushText :: "Position \<Rightarrow> string \<Rightarrow> lexer \<Rightarrow> lexer" where
  "flushText textStart decoded l =
    (if Offset (position l) = Offset textStart then l
     else emit StringText textStart decoded False l)"

definition scanEscape :: "string \<Rightarrow> lexer \<Rightarrow> string \<times> lexer" where
  "scanEscape decoded l =
    (let start = position l; l1 = advanceASCII 1 l in
     if atEnd l1 then
       (decoded @ [CHR 0x5C], lexError codeInvalidEscape mIncompleteEscape (l_span l1 start) l1)
     else if isNewline l1 then
       (decoded, lexError codeInvalidEscape mNewlineEscape (l_span l1 start) l1)
     else
       (let escaped = byteAt l1 0; l2 = advanceASCII 1 l1 in
        if escaped = CHR ''n'' then (decoded @ [CHR 0x0A], l2)
        else if escaped = CHR ''r'' then (decoded @ [CHR 0x0D], l2)
        else if escaped = CHR ''t'' then (decoded @ [CHR 0x09], l2)
        else if escaped \<in> {CHR 0x5C, CHR 0x22, CHR 0x27, CHR ''{'', CHR ''}''}
          then (decoded @ [escaped], l2)
        else (decoded @ [escaped],
              lexError codeInvalidEscape mUnsupportedEscape (l_span l2 start) l2)))"

definition zeroWidthSpan :: "lexer \<Rightarrow> Span" where
  "zeroWidthSpan l = NewSpan (ID (l_file l)) (position l) (position l)"

text \<open>The two ways a string without its closing delimiter ends.\<close>

definition endAtNewline :: "lexer \<Rightarrow> lexer" where
  "endAtNewline l =
    (let l1 = lexError codeNewlineInString mNewlineInString (zeroWidthSpan l) l
     in emitSynthetic StringEnd (position l1) l1)"

definition endUnterminated :: "Position \<Rightarrow> lexer \<Rightarrow> lexer" where
  "endUnterminated start l =
    (let l1 = lexError codeUnterminatedString mUnterminatedString (l_span l start) l
     in emitSynthetic StringEnd (position l1) l1)"

definition endDelimited :: "stringDelimiter \<Rightarrow> lexer \<Rightarrow> lexer" where
  "endDelimited d l =
    (let endStart = position l; l1 = advanceASCII (width d) l
     in emit StringEnd endStart [quote d] False l1)"

function scanRawLoop :: "stringDelimiter \<Rightarrow> Position \<Rightarrow> Position \<Rightarrow> lexer \<Rightarrow> lexer" where
  "scanRawLoop d prefixStart textStart l =
    (let flush = (\<lambda>l. flushText textStart (Span_Text (l_span l textStart) (l_file l)) l) in
     if atEnd l then endUnterminated prefixStart (flush l)
     else if matchesDelimiter d l then endDelimited d (flush l)
     else if \<not> triple d \<and> isNewline l then endAtNewline (flush l)
     else if isNewline l then scanRawLoop d prefixStart textStart (consumeNewline l)
     else scanRawLoop d prefixStart textStart (snd (advanceRune l)))"
  by pat_completeness auto
termination
proof (relation "measure (\<lambda>(d, p, t, l). remaining l)", goal_cases)
  case (2 d p t l x)
  then show ?case by (auto simp: consumeNewline_def remaining_def atEnd_def)
qed (auto simp: advanceRune_remaining)

declare scanRawLoop.simps [simp del]

definition scanRawString :: "lexer \<Rightarrow> lexer" where
  "scanRawString l =
    (let prefixStart = position l;
         l1 = advanceASCII 1 l;
         d = readStringDelimiter l1;
         l2 = emit StringStart prefixStart [quote d] False (advanceASCII (width d) l1)
     in scanRawLoop d prefixStart (position l2) l2)"

definition reportUnterminatedInterpolation :: "interpolationContext \<Rightarrow> lexer \<Rightarrow> lexer" where
  "reportUnterminatedInterpolation context l =
    (let l1 = lexError codeUnterminatedInterpolation mUnterminatedInterpolation
                (NewSpan (ID (l_file l)) (openingPos context) (position l)) l
     in emitSynthetic InterpolationEnd (position l1) l1)"

text \<open>A physical newline inside an interpolation of an ordinary string.\<close>

definition rejectInterpolation :: "string \<times> string \<Rightarrow> Span \<Rightarrow> lexer \<Rightarrow> lexer" where
  "rejectInterpolation m span l =
    (let l1 = lexError codeNewlineInString m span l
     in emitSynthetic InterpolationEnd (position l1) l1)"

definition closeInterpolation :: "interpolationContext \<Rightarrow> lexer \<Rightarrow> lexer" where
  "closeInterpolation context l =
    (let l1 = (if \<not> sawExpressionToken context
               then lexError codeEmptyInterpolation mEmptyInterpolation
                      (NewSpan (ID (l_file l)) (openingPos context) (position l)) l
               else l);
         start = position l1
     in emit InterpolationEnd start [] False (advanceASCII 1 l1))"

text \<open>
  \<open>scanCodeToken\<close>, with the scanner for ordinary strings as an argument: it is the one call that
  leads back, through an interpolation, to \<open>scanCodeToken\<close> itself.
\<close>

definition scanCodeToken ::
    "(lexer \<Rightarrow> lexer option) \<Rightarrow> unicode \<Rightarrow> interpolationContext option \<Rightarrow> lexer
     \<Rightarrow> (interpolationContext option \<times> lexer) option"
where
  "scanCodeToken scanStr uc context l =
    (let (r, size) = peekRune l in
     if r = RuneError \<and> size = 1 then Some (context, snd (advanceRune l))
     else if isRawStringPrefix (byteAt l 0) (byteAt l 1) then
       Some (sawToken context, scanRawString l)
     else if isXIDStart uc r then Some (scanIdentifier uc context l)
     else if isASCIIDigit (byteAt l 0) then Some (scanNumber uc context l)
     else if byteAt l 0 = CHR ''.'' \<and> isASCIIDigit (byteAt l 1) then
       Some (scanLeadingDotNumber context l)
     else if byteAt l 0 = CHR 0x27 \<or> byteAt l 0 = CHR 0x22 then
       map_option (\<lambda>l1. (sawToken context, l1)) (scanStr l)
     else Some (scanOperator uc context l))"

text \<open>The loop of \<open>scanInterpolation\<close>; \<open>scanTok\<close> is \<open>scanCodeToken\<close>.\<close>

primrec scanInterpolation ::
    "nat \<Rightarrow> (interpolationContext option \<Rightarrow> lexer \<Rightarrow> (interpolationContext option \<times> lexer) option)
     \<Rightarrow> interpolationContext \<Rightarrow> lexer \<Rightarrow> (bool \<times> lexer) option"
where
  "scanInterpolation 0 scanTok context l = None"
| "scanInterpolation (Suc n) scanTok context l =
    (if atEnd l then Some (False, reportUnterminatedInterpolation context l)
     else
       (let lineBeforeTrivia = l_line l; l1 = scanTrivia l in
        if \<not> tripleOf context \<and> l_line l1 \<noteq> lineBeforeTrivia then
          Some (False, rejectInterpolation mInterpolationTrivia
            (NewSpan (ID (l_file l1)) (openingPos context) (position l1)) l1)
        else if atEnd l1 then Some (False, reportUnterminatedInterpolation context l1)
        else if isNewline l1 then
          (if \<not> tripleOf context
           then Some (False, rejectInterpolation mInterpolationNewline (zeroWidthSpan l1) l1)
           else scanInterpolation n scanTok context (emitNewline l1))
        else if byteAt l1 0 = CHR ''}'' \<and> braceDepth context = 0 then
          Some (True, closeInterpolation context l1)
        else
          (case scanTok (Some context) l1 of
             Some (Some context', l2) \<Rightarrow> scanInterpolation n scanTok context' l2
           | _ \<Rightarrow> None)))"

text \<open>The loop of \<open>scanString\<close>; \<open>scanInt\<close> is \<open>scanInterpolation\<close>.\<close>

primrec scanStringLoop ::
    "nat \<Rightarrow> (interpolationContext \<Rightarrow> lexer \<Rightarrow> (bool \<times> lexer) option) \<Rightarrow> stringDelimiter
     \<Rightarrow> Position \<Rightarrow> Position \<Rightarrow> string \<Rightarrow> lexer \<Rightarrow> lexer option"
where
  "scanStringLoop 0 scanInt d start textStart decoded l = None"
| "scanStringLoop (Suc n) scanInt d start textStart decoded l =
    (if atEnd l then Some (endUnterminated start (flushText textStart decoded l))
     else if matchesDelimiter d l then Some (endDelimited d (flushText textStart decoded l))
     else if \<not> triple d \<and> isNewline l then Some (endAtNewline (flushText textStart decoded l))
     else if byteAt l 0 = CHR 0x5C then
       (let (decoded', l1) = scanEscape decoded l
        in scanStringLoop n scanInt d start textStart decoded' l1)
     else if byteAt l 0 = CHR ''{'' then
       (let l1 = flushText textStart decoded l;
            opening = position l1;
            l2 = emit InterpolationStart opening [] False (advanceASCII 1 l1)
        in case scanInt \<lparr>tripleOf = triple d, braceDepth = 0, sawExpressionToken = False,
                         openingPos = opening\<rparr> l2 of
             None \<Rightarrow> None
           | Some (closed, l3) \<Rightarrow>
               (if \<not> closed then Some (endUnterminated start l3)
                else scanStringLoop n scanInt d start (position l3) [] l3))
     else if byteAt l 0 = CHR ''}'' then
       (let braceStart = position l;
            l1 = advanceASCII 1 l
        in scanStringLoop n scanInt d start textStart (decoded @ ''}'')
             (lexError codeUnmatchedStringBrace mUnmatchedBrace (l_span l1 braceStart) l1))
     else if isNewline l then
       scanStringLoop n scanInt d start textStart
         (decoded @ (if hasPrefix l [CHR 0x0D, CHR 0x0A] then [CHR 0x0D, CHR 0x0A]
                     else [byteAt l 0]))
         (consumeNewline l)
     else
       (let ((r, size), l1) = advanceRune l
        in scanStringLoop n scanInt d start textStart (decoded @ EncodeRune r) l1))"

text \<open>
  \<open>scanString\<close> ties the knot. Its own fuel bounds the depth to which strings nest inside
  interpolations; the loops get one more step than there are bytes left.
\<close>

definition loopFuel :: "lexer \<Rightarrow> nat" where
  "loopFuel l = remaining l + 1"

primrec scanString :: "nat \<Rightarrow> unicode \<Rightarrow> lexer \<Rightarrow> lexer option" where
  "scanString 0 uc l = None"
| "scanString (Suc n) uc l =
    (let d = readStringDelimiter l;
         start = position l;
         l1 = emit StringStart start [quote d] False (advanceASCII (width d) l);
         scanInt = (\<lambda>context l. scanInterpolation (loopFuel l)
                      (scanCodeToken (scanString n uc) uc) context l)
     in scanStringLoop (loopFuel l1) scanInt d start (position l1) [] l1)"

subsection \<open>The main loop\<close>

record LexResult =
  ResTokens :: "Token list"
  ResDiagnostics :: "Diagnostic list"

definition LexResult_HasErrors :: "LexResult \<Rightarrow> bool" where
  "LexResult_HasErrors r = list_ex (\<lambda>d. Sev d = SeverityError) (ResDiagnostics r)"

text \<open>\<open>lexRun\<close> is the loop of \<open>run\<close>. Strings cannot nest deeper than the text is long.\<close>

definition stringFuel :: "lexer \<Rightarrow> nat" where
  "stringFuel l = remaining l + 1"

primrec lexRun :: "nat \<Rightarrow> unicode \<Rightarrow> lexer \<Rightarrow> lexer option" where
  "lexRun 0 uc l = None"
| "lexRun (Suc n) uc l =
    (if atEnd l then Some (emitSynthetic EOF (position l) l)
     else
       (let l1 = scanTrivia l in
        if atEnd l1 then Some (emitSynthetic EOF (position l1) l1)
        else if isNewline l1 then lexRun n uc (emitNewline l1)
        else (case scanCodeToken (scanString (stringFuel l1) uc) uc None l1 of
                None \<Rightarrow> None
              | Some (_, l2) \<Rightarrow> lexRun n uc l2)))"

definition newLexer :: "File \<Rightarrow> lexer" where
  "newLexer file = \<lparr>l_file = file, l_offset = 0, l_line = 1, l_column = 1, l_tokens = [],
     l_pending = [], l_bag = []\<rparr>"

definition lexFinal :: "unicode \<Rightarrow> File \<Rightarrow> lexer option" where
  "lexFinal uc file = lexRun (length (Text file) + 1) uc (newLexer file)"

definition Lex :: "unicode \<Rightarrow> File \<Rightarrow> LexResult option" where
  "Lex uc file =
    map_option (\<lambda>l. \<lparr>ResTokens = l_tokens l, ResDiagnostics = Bag_Items (l_bag l)\<rparr>)
      (lexFinal uc file)"

end
