(* ===== verification/LexerProofs.thy ===== *)
theory LexerProofs
  imports Lexer
begin

text \<open>
  What every scanning function of the lexer does to the state, in one relation \<open>scans\<close>:
  the cursor moves forward, tokens and diagnostics are only appended, the new tokens lie in
  order between the old and the new cursor, each token carries the text of its span, string and
  interpolation tokens nest, and, unless an invalid byte or an unexpected character was
  reported, the new tokens and trivia spell exactly the bytes consumed.
\<close>

subsection \<open>Nesting of string and interpolation tokens\<close>

datatype bracket = InString | InInterpolation

definition inCode :: "bracket list \<Rightarrow> bool" where
  "inCode st = (case st of [] \<Rightarrow> True | b # _ \<Rightarrow> b = InInterpolation)"

definition nestStep :: "Kind \<Rightarrow> bracket list \<Rightarrow> bracket list option" where
  "nestStep k st =
    (if k = StringEnd \<or> k = StringText \<or> k = InterpolationStart then
       (case st of
          InString # rest \<Rightarrow>
            Some (if k = StringEnd then rest else if k = StringText then st
                  else InInterpolation # st)
        | _ \<Rightarrow> None)
     else if \<not> inCode st then None
     else if k = StringStart then Some (InString # st)
     else if k = InterpolationEnd then
       (case st of InInterpolation # rest \<Rightarrow> Some rest | _ \<Rightarrow> None)
     else Some st)"

primrec nest :: "Kind list \<Rightarrow> bracket list \<Rightarrow> bracket list option" where
  "nest [] st = Some st"
| "nest (k # ks) st = (case nestStep k st of None \<Rightarrow> None | Some st' \<Rightarrow> nest ks st')"

lemma nest_append: "nest xs st = Some st' \<Longrightarrow> nest (xs @ ys) st = nest ys st'"
  by (induction xs arbitrary: st) (auto split: option.splits)

definition plainKind :: "Kind \<Rightarrow> bool" where
  "plainKind k = (k \<noteq> StringStart \<and> k \<noteq> StringEnd \<and> k \<noteq> StringText
     \<and> k \<noteq> InterpolationStart \<and> k \<noteq> InterpolationEnd)"

lemma nestStep_plain: "plainKind k \<Longrightarrow> inCode st \<Longrightarrow> nestStep k st = Some st"
  by (simp add: nestStep_def plainKind_def)

lemma nestStep_simps [simp]:
  "nestStep StringEnd (InString # st) = Some st"
  "nestStep StringText (InString # st) = Some (InString # st)"
  "nestStep InterpolationStart (InString # st) = Some (InInterpolation # InString # st)"
  "nestStep InterpolationEnd (InInterpolation # st) = Some st"
  "inCode st \<Longrightarrow> nestStep StringStart st = Some (InString # st)"
  by (simp_all add: nestStep_def inCode_def)

lemma inCode_simps [simp]: "inCode []" "inCode (InInterpolation # st)" "\<not> inCode (InString # st)"
  by (simp_all add: inCode_def)

declare advanceASCII.simps(2) [simp del]

subsection \<open>The relation\<close>

definition tokenOk :: "File \<Rightarrow> Token \<Rightarrow> bool" where
  "tokenOk file t \<longleftrightarrow> Lexeme t = Span_Text (TokenSpan t) file \<and> SpanFile (TokenSpan t) = ID file
     \<and> KindOf t \<noteq> EOF \<and> (KindOf t = ImaginaryLiteral \<longrightarrow> Value t \<noteq> [])
     \<and> (Synthetic t \<longrightarrow> Lexeme t = [] \<and> KindOf t \<in> {InterpolationEnd, StringEnd})
     \<and> (KindOf t = Identifier \<longrightarrow> LookupKeyword (Value t) = None)"

text \<open>\<open>chain a ts b\<close>: the spans of \<open>ts\<close> follow one another between offsets \<open>a\<close> and \<open>b\<close>.\<close>

primrec chain :: "int \<Rightarrow> Token list \<Rightarrow> int \<Rightarrow> bool" where
  "chain a [] b = (a \<le> b)"
| "chain a (t # ts) b =
    (a \<le> Offset (Start (TokenSpan t)) \<and> Offset (Start (TokenSpan t)) \<le> Offset (End (TokenSpan t))
     \<and> chain (Offset (End (TokenSpan t))) ts b)"

lemma chain_append: "chain a xs b \<Longrightarrow> chain b ys c \<Longrightarrow> chain a (xs @ ys) c"
proof (induction xs arbitrary: a)
  case Nil
  then show ?case by (cases ys) auto
qed auto

definition flat :: "lexer \<Rightarrow> string" where
  "flat l = concat (map tokenText (l_tokens l)) @ concat (map TriviaLexeme (l_pending l))"

definition lossyCode :: "string \<Rightarrow> bool" where
  "lossyCode c = (c = codeInvalidUTF8 \<or> c = codeUnexpectedCharacter)"

definition lossy :: "Bag \<Rightarrow> bool" where
  "lossy b = list_ex (\<lambda>d. lossyCode (Code d)) b"

lemma lossy_extends: "extends b b' \<Longrightarrow> lossy b \<Longrightarrow> lossy b'"
  by (auto simp: lossy_def extends_iff)

definition scans :: "bracket list \<Rightarrow> lexer \<Rightarrow> bracket list \<Rightarrow> lexer \<Rightarrow> bool" where
  "scans st l st' l' \<longleftrightarrow> l_file l' = l_file l \<and> l_offset l \<le> l_offset l'
     \<and> l_offset l' \<le> length (l_text l) \<and> extends (l_bag l) (l_bag l')
     \<and> (\<exists>ts. l_tokens l' = l_tokens l @ ts \<and> nest (map KindOf ts) st = Some st'
           \<and> chain (int (l_offset l)) ts (int (l_offset l')) \<and> list_all (tokenOk (l_file l)) ts)
     \<and> (\<not> lossy (l_bag l') \<longrightarrow> flat l' = flat l @ slice (l_text l) (l_offset l) (l_offset l'))"

lemma scans_refl: "inText l \<Longrightarrow> scans st l st l"
  by (simp add: scans_def inText_def)

lemma scans_trans [trans]:
  assumes "scans st l st' l'" "scans st' l' st'' l''"
  shows "scans st l st'' l''"
proof -
  obtain ts where ts: "l_tokens l' = l_tokens l @ ts" "nest (map KindOf ts) st = Some st'"
    "chain (int (l_offset l)) ts (int (l_offset l'))" "list_all (tokenOk (l_file l)) ts"
    using assms(1) by (auto simp: scans_def)
  obtain us where us: "l_tokens l'' = l_tokens l' @ us" "nest (map KindOf us) st' = Some st''"
    "chain (int (l_offset l')) us (int (l_offset l''))" "list_all (tokenOk (l_file l')) us"
    using assms(2) by (auto simp: scans_def)
  have "l_file l' = l_file l" using assms(1) by (simp add: scans_def)
  then have "l_tokens l'' = l_tokens l @ (ts @ us) \<and> nest (map KindOf (ts @ us)) st = Some st''
      \<and> chain (int (l_offset l)) (ts @ us) (int (l_offset l''))
      \<and> list_all (tokenOk (l_file l)) (ts @ us)"
    using ts us by (simp add: nest_append chain_append [OF ts(3)])
  moreover have "flat l'' = flat l @ slice (l_text l) (l_offset l) (l_offset l'')"
    if "\<not> lossy (l_bag l'')"
  proof -
    have "\<not> lossy (l_bag l')" using assms(2) that lossy_extends by (auto simp: scans_def)
    with assms that show ?thesis by (auto simp: scans_def slice_append)
  qed
  ultimately show ?thesis
    using assms unfolding scans_def by (auto intro: extends_trans)
qed

lemma scans_inText: "scans st l st' l' \<Longrightarrow> inText l'"
  by (simp add: scans_def inText_def)

lemma scans_offset: "scans st l st' l' \<Longrightarrow> l_offset l \<le> l_offset l'"
  by (simp add: scans_def)

lemma scans_file: "scans st l st' l' \<Longrightarrow> l_file l' = l_file l"
  by (simp add: scans_def)

lemma scans_remaining: "scans st l st' l' \<Longrightarrow> remaining l' \<le> remaining l"
  by (auto simp: scans_def remaining_def)

text \<open>Reporting a diagnostic changes nothing else.\<close>

lemma lossy_Bag_Error [simp]: "lossy (Bag_Error b c m s h) \<longleftrightarrow> lossy b \<or> lossyCode c"
  by (auto simp: lossy_def Bag_Error_def Bag_Add_def)

lemma flat_lexError [simp]: "flat (lexError c m s l) = flat l"
  by (simp add: flat_def)

lemma scans_lexError: "inText l \<Longrightarrow> scans st l st (lexError c m s l)"
  by (auto simp: scans_def inText_def lexError_def flat_def)

lemma position_lexError [simp]: "position (lexError c m s l) = position l"
  by (simp add: position_def)

text \<open>Moving the cursor without emitting is only allowed to a lexer that reported the loss.\<close>

lemma scans_lossy: "quiet l l' \<Longrightarrow> lossy (l_bag l') \<Longrightarrow> scans st l st l'"
  by (auto simp: scans_def quiet_def)

text \<open>Emitting the text since an earlier position of the cursor.\<close>

lemma Span_Text_since:
  "quiet l l1 \<Longrightarrow> Span_Text (l_span l1 (position l)) (l_file l)
     = slice (l_text l) (l_offset l) (l_offset l1)"
  by (auto simp: quiet_def l_span_def position_def intro!: Span_Text_slice)

lemma scans_emit:
  assumes "quiet l l1" "nestStep k st = Some st'" "k \<noteq> EOF" "k = ImaginaryLiteral \<Longrightarrow> v \<noteq> []"
    "k = Identifier \<Longrightarrow> LookupKeyword v = None" "b \<Longrightarrow> l_offset l1 = l_offset l \<and> k \<in> {InterpolationEnd, StringEnd}"
  shows "scans st l st' (emit k (position l) v b l1)"
proof -
  note since = Span_Text_since [OF assms(1)]
  define t where "t = \<lparr>KindOf = k, Lexeme = Span_Text (l_span l1 (position l)) (l_file l), Value = v,
     TokenSpan = l_span l1 (position l), LeadingTrivia = l_pending l1, Synthetic = b\<rparr>"
  have toks: "l_tokens (emit k (position l) v b l1) = l_tokens l @ [t]"
    using assms(1) by (simp add: emit_def Let_def t_def quiet_def)
  have "tokenOk (l_file l) t"
    using assms since by (auto simp: tokenOk_def t_def l_span_def quiet_def slice_def)
  moreover have "chain (int (l_offset l)) [t] (int (l_offset l1))"
    using assms(1) by (simp add: t_def l_span_def position_def quiet_def)
  moreover have "flat (emit k (position l) v b l1)
      = flat l @ slice (l_text l) (l_offset l) (l_offset l1)"
    using assms(1) by (simp add: flat_def toks tokenText_def) (simp add: t_def since quiet_def)
  moreover have "KindOf t = k" by (simp add: t_def)
  ultimately show ?thesis
    using assms(1,2) toks by (auto simp: scans_def quiet_def)
qed

lemma scans_emit_plain:
  assumes "quiet l l1" "plainKind k" "inCode st" "k \<noteq> EOF" "k = ImaginaryLiteral \<Longrightarrow> v \<noteq> []"
    "k = Identifier \<Longrightarrow> LookupKeyword v = None" "b \<Longrightarrow> l_offset l1 = l_offset l \<and> k \<in> {InterpolationEnd, StringEnd}"
  shows "scans st l st (emit k (position l) v b l1)"
  using scans_emit [OF assms(1) nestStep_plain [OF assms(2,3)]] assms by blast

lemma scans_synthetic:
  "inText l \<Longrightarrow> nestStep k st = Some st' \<Longrightarrow> k \<in> {InterpolationEnd, StringEnd}
   \<Longrightarrow> scans st l st' (emitSynthetic k (position l) l)"
  unfolding emitSynthetic_def by (rule scans_emit) auto

lemma scans_addTrivia:
  assumes "quiet l l1"
  shows "scans st l st (addTrivia k (position l) l1)"
proof -
  have "Span_Empty (l_span l1 (position l)) \<longleftrightarrow> l_offset l1 = l_offset l"
    by (auto simp: Span_Empty_def l_span_def position_def)
  then have "flat (addTrivia k (position l) l1) = flat l @ slice (l_text l) (l_offset l) (l_offset l1)"
    using assms Span_Text_since [OF assms] by (simp add: addTrivia_def Let_def flat_def quiet_def)
  then show ?thesis using assms by (auto simp: scans_def quiet_def)
qed

subsection \<open>Trivia\<close>

lemma scans_emitNewline:
  assumes "inText l" "isNewline l" "inCode st"
  shows "scans st l st (emitNewline l)"
  unfolding emitNewline_def Let_def
  by (rule scans_emit_plain) (use assms consumeNewline_quiet in \<open>simp_all add: plainKind_def\<close>)

lemma emitNewline_progress: "l_offset l < l_offset (emitNewline l)"
  by (simp add: consumeNewline_offset)

text \<open>\<open>opening\<close> and \<open>chunkStart\<close>: the chunk of the comment since the last newline is pending.\<close>

lemma scans_blockCommentLoop:
  assumes "quiet l0 l" "chunk = position l0" "inCode st"
  shows "scans st l0 st (scanBlockCommentLoop p chunk l)"
  using assms
proof (induction p chunk l arbitrary: l0 rule: scanBlockCommentLoop.induct)
  case (1 p chunk l)
  have inT: "inText l" using 1 quiet_inText by blast
  consider "atEnd l" | "\<not> atEnd l" "hasPrefix l ''*/''"
    | "\<not> atEnd l" "\<not> hasPrefix l ''*/''" "isNewline l"
    | "\<not> atEnd l" "\<not> hasPrefix l ''*/''" "\<not> isNewline l" by blast
  then show ?case
  proof cases
    case 1
    let ?l1 = "addTrivia BlockCommentTrivia chunk l"
    have "scans st l0 st ?l1" using \<open>quiet l0 l\<close> \<open>chunk = position l0\<close> by (simp add: scans_addTrivia)
    moreover have "scans st ?l1 st (lexError codeUnterminatedBlockComment mBlockComment (l_span ?l1 p) ?l1)"
      using inT by (simp add: scans_lexError)
    ultimately show ?thesis using 1
      by (subst scanBlockCommentLoop.simps) (auto simp: Let_def intro: scans_trans)
  next
    case 2
    have "quiet l0 (advanceASCII 2 l)"
      using \<open>quiet l0 l\<close> advanceASCII_quiet [OF inT] by (rule quiet_trans)
    with 2 \<open>chunk = position l0\<close> show ?thesis
      by (subst scanBlockCommentLoop.simps) (simp add: scans_addTrivia)
  next
    case 3
    let ?l1 = "addTrivia BlockCommentTrivia chunk l"
    have s1: "scans st l0 st ?l1" using \<open>quiet l0 l\<close> \<open>chunk = position l0\<close> by (simp add: scans_addTrivia)
    have s2: "scans st ?l1 st (emitNewline ?l1)"
      using 3 inT \<open>inCode st\<close> by (intro scans_emitNewline) simp_all
    have "scans st (emitNewline ?l1) st (scanBlockCommentLoop p (position (emitNewline ?l1)) (emitNewline ?l1))"
      by (rule "1.IH"(1) [OF 3 refl]) (use scans_inText [OF s2] \<open>inCode st\<close> in simp_all)
    with s1 s2 show ?thesis using 3
      by (subst scanBlockCommentLoop.simps) (auto simp: Let_def intro: scans_trans)
  next
    case 4
    have "quiet l0 (snd (advanceRune l))"
      using \<open>quiet l0 l\<close> advanceRune_quiet(1) [OF inT] by (rule quiet_trans)
    from "1.IH"(2) [OF 4 this \<open>chunk = position l0\<close> \<open>inCode st\<close>] 4 show ?thesis
      by (subst scanBlockCommentLoop.simps) simp
  qed
qed

lemma scans_blockComment: "inText l \<Longrightarrow> inCode st \<Longrightarrow> scans st l st (scanBlockComment l)"
  by (simp add: scanBlockComment_def Let_def scans_blockCommentLoop advanceASCII_quiet)

lemma scans_scanTrivia: "inText l \<Longrightarrow> inCode st \<Longrightarrow> scans st l st (scanTrivia l)"
proof (induction l rule: scanTrivia.induct)
  case (1 l)
  let ?white = "isHorizontalWhitespace (byteAt l 0)"
  have inT: "inText l" and c: "inCode st" by fact+
  consider "atEnd l" | "\<not> atEnd l" ?white | "\<not> atEnd l" "\<not> ?white" "hasPrefix l ''//''"
    | "\<not> atEnd l" "\<not> ?white" "\<not> hasPrefix l ''//''" "hasPrefix l ''/*''"
    | "\<not> atEnd l" "\<not> ?white" "\<not> hasPrefix l ''//''" "\<not> hasPrefix l ''/*''" by blast
  then show ?case
  proof cases
    case 1
    then show ?thesis using inT by (simp add: scanTrivia.simps [of l] scans_refl)
  next
    case 2
    let ?l1 = "addTrivia WhitespaceTrivia (position l) (skipHorizontal l)"
    have s: "scans st l st ?l1" by (rule scans_addTrivia [OF skipHorizontal_quiet [OF inT]])
    from "1.IH"(1) [OF 2 scans_inText [OF s] c] have "scans st ?l1 st (scanTrivia ?l1)" .
    with s 2 show ?thesis by (subst scanTrivia.simps) (auto intro: scans_trans)
  next
    case 3
    let ?l1 = "addTrivia LineCommentTrivia (position l) (skipLine (advanceASCII 2 l))"
    have q: "quiet l (advanceASCII 2 l)" using inT by (rule advanceASCII_quiet)
    then have "quiet l (skipLine (advanceASCII 2 l))"
      using skipLine_quiet [of "advanceASCII 2 l"] quiet_inText quiet_trans by blast
    then have s: "scans st l st ?l1" by (rule scans_addTrivia)
    from "1.IH"(2) [OF 3 scans_inText [OF s] c] have "scans st ?l1 st (scanTrivia ?l1)" .
    with s 3 show ?thesis by (subst scanTrivia.simps) (auto intro: scans_trans)
  next
    case 4
    have s: "scans st l st (scanBlockComment l)" using inT c by (rule scans_blockComment)
    from "1.IH"(3) [OF 4 scans_inText [OF s] c]
    have "scans st (scanBlockComment l) st (scanTrivia (scanBlockComment l))" .
    with s 4 show ?thesis by (subst scanTrivia.simps) (auto intro: scans_trans)
  next
    case 5
    then show ?thesis using inT by (simp add: scanTrivia.simps [of l] scans_refl)
  qed
qed

subsection \<open>Identifiers, numbers, operators\<close>

text \<open>\<open>scans\<close> with progress: at least one byte was consumed.\<close>

definition scans1 :: "bracket list \<Rightarrow> lexer \<Rightarrow> bracket list \<Rightarrow> lexer \<Rightarrow> bool" where
  "scans1 st l st' l' \<longleftrightarrow> scans st l st' l' \<and> l_offset l < l_offset l'"

lemma scans1_scans: "scans1 st l st' l' \<Longrightarrow> scans st l st' l'"
  by (simp add: scans1_def)

lemma scans1_trans: "scans1 st l st' l' \<Longrightarrow> scans st' l' st'' l'' \<Longrightarrow> scans1 st l st'' l''"
  by (auto simp: scans1_def intro: scans_trans dest: scans_offset)

lemma scans_scans1: "scans st l st' l' \<Longrightarrow> scans1 st' l' st'' l'' \<Longrightarrow> scans1 st l st'' l''"
  by (auto simp: scans1_def intro: scans_trans dest: scans_offset)

lemma scans1_remaining: "scans1 st l st' l' \<Longrightarrow> remaining l' < remaining l"
  by (auto simp: scans1_def scans_def remaining_def)

lemma skipXID_quiet: "inText l \<Longrightarrow> quiet l (skipXID uc l)"
proof (induction uc l rule: skipXID.induct)
  case (1 uc l)
  show ?case
  proof (cases "atEnd l \<or> \<not> isXIDContinue uc (fst (peekRune l))")
    case True
    then show ?thesis using \<open>inText l\<close> by (subst skipXID.simps) auto
  next
    case False
    have q: "quiet l (snd (advanceRune l))" using \<open>inText l\<close> by (rule advanceRune_quiet)
    with 1 False have "quiet (snd (advanceRune l)) (skipXID uc (snd (advanceRune l)))"
      using quiet_inText by blast
    with q have "quiet l (skipXID uc (snd (advanceRune l)))" by (rule quiet_trans)
    with False show ?thesis by (subst skipXID.simps) simp
  qed
qed

lemma skipDigits_step: "isASCIIDigit (byteAt l 0) \<Longrightarrow> skipDigits l = skipDigits (advanceASCII 1 l)"
  by (subst skipDigits.simps) (rule if_P)

lemma skipDigits_quiet: "inText l \<Longrightarrow> quiet l (skipDigits l)"
proof (induction l rule: skipDigits.induct)
  case (1 l)
  show ?case
  proof (cases "isASCIIDigit (byteAt l 0)")
    case True
    have q: "quiet l (advanceASCII 1 l)" using 1(2) by (rule advanceASCII_quiet)
    with 1(1) [OF True] have "quiet (advanceASCII 1 l) (skipDigits (advanceASCII 1 l))"
      using quiet_inText by blast
    with q show ?thesis unfolding skipDigits_step [OF True] by (rule quiet_trans)
  next
    case False
    then show ?thesis using 1(2) by (simp add: skipDigits.simps [of l])
  qed
qed

lemma skipDigits_progress:
  assumes "inText l" "isASCIIDigit (byteAt l 0)"
  shows "l_offset l < l_offset (skipDigits l)"
proof -
  have q: "quiet l (advanceASCII 1 l)" using assms(1) by (rule advanceASCII_quiet)
  have "l_offset l < l_offset (advanceASCII 1 l)"
    using isASCIIDigit_byteAt [OF assms(2)] assms(1) by (simp add: advanceASCII_progress)
  also have "\<dots> \<le> l_offset (skipDigits (advanceASCII 1 l))"
    using skipDigits_quiet quiet_inText [OF q] quiet_offset by blast
  finally show ?thesis by (simp add: skipDigits_step [OF assms(2)])
qed

lemma plain_Keyword [simp]: "plainKind (Keyword w)" "plainKind Identifier" "plainKind IntLiteral"
  "plainKind RealLiteral" "plainKind ImaginaryLiteral" "plainKind Newline"
  by (simp_all add: plainKind_def)

lemma scanIdentifier_scans:
  assumes "\<not> atEnd l" "inCode st"
  shows "scans1 st l st (snd (scanIdentifier uc ctx l))"
proof -
  have inT: "inText l" using assms(1) by (rule atEnd_inText)
  let ?l1 = "skipXID uc (snd (advanceRune l))"
  have q1: "quiet l (snd (advanceRune l))" and p: "l_offset l < l_offset (snd (advanceRune l))"
    using advanceRune_quiet [OF inT] assms(1) by auto
  have q2: "quiet (snd (advanceRune l)) ?l1" using q1 quiet_inText skipXID_quiet by blast
  have q: "quiet l ?l1" using q1 q2 by (rule quiet_trans)
  define v where "v = normalizeIdentifier uc (Span_Text (l_span ?l1 (position l)) (l_file ?l1))"
  define k where "k = (case LookupKeyword v of Some keyword \<Rightarrow> keyword | None \<Rightarrow> Identifier)"
  have "plainKind k \<and> k \<noteq> EOF \<and> k \<noteq> ImaginaryLiteral \<and> (k = Identifier \<longrightarrow> LookupKeyword v = None)"
    using LookupKeyword_Keyword [of v] by (auto simp: k_def split: option.splits)
  then have "scans st l st (emit k (position l) v False ?l1)"
    using q assms(2) by (intro scans_emit_plain) auto
  moreover have "l_offset l < l_offset ?l1" using p quiet_offset [OF q2] by simp
  ultimately show ?thesis
    by (simp add: scanIdentifier_def Let_def scans1_def v_def k_def)
qed

text \<open>The parts of a number: each only moves the cursor and keeps the kind a literal kind.\<close>

definition numeric :: "Kind \<Rightarrow> bool" where
  "numeric k = (k = IntLiteral \<or> k = RealLiteral \<or> k = ImaginaryLiteral)"

definition numberPart :: "lexer \<Rightarrow> Kind \<times> lexer \<Rightarrow> bool" where
  "numberPart l kl \<longleftrightarrow> quiet l (snd kl) \<and> numeric (fst kl)"

lemma numberPart_quiet: "numberPart l (k, l1) \<Longrightarrow> quiet l1 l2 \<Longrightarrow> numeric k' \<Longrightarrow> numberPart l (k', l2)"
  by (auto simp: numberPart_def intro: quiet_trans)

lemma quiet_digits_after: "inText l \<Longrightarrow> quiet l (skipDigits (advanceASCII 1 l))"
  using advanceASCII_quiet [of l 1] skipDigits_quiet quiet_inText quiet_trans by blast

lemma numberPart_parts:
  assumes "numberPart l kl"
  shows "numberPart l (scanFraction uc p kl)" "numberPart l (scanExponent p kl)"
    "numberPart l (scanImaginary kl)" "numberPart l (scanSuffix uc p kl)"
proof -
  obtain k l1 where kl: "kl = (k, l1)" by (cases kl)
  have inT: "inText l1" using assms quiet_inText by (auto simp: kl numberPart_def)
  have num: "numeric k" using assms by (simp add: numberPart_def kl)
  note step = numberPart_quiet [OF assms [unfolded kl]]
  note moves = advanceASCII_quiet [OF inT, of 1] quiet_digits_after [OF inT] skipXID_quiet [OF inT]
  show "numberPart l (scanFraction uc p kl)"
    using assms by (auto simp: scanFraction_def kl Let_def numeric_def simp del: One_nat_def
        intro!: step quiet_lexError moves)
  show "numberPart l (scanImaginary kl)"
    using assms by (auto simp: scanImaginary_def kl numeric_def simp del: One_nat_def intro!: step moves)
  show "numberPart l (scanSuffix uc p kl)"
    using assms num by (auto simp: scanSuffix_def kl Let_def
        intro!: step quiet_lexError moves)
  define l2 where "l2 = advanceASCII 1 l1"
  define l3 where "l3 = (if byteAt l2 0 = CHR ''+'' \<or> byteAt l2 0 = CHR ''-''
    then advanceASCII 1 l2 else l2)"
  have q2: "quiet l1 l2" using moves(1) by (simp add: l2_def)
  then have "quiet l2 l3" using advanceASCII_quiet [of l2 1] quiet_inText by (auto simp: l3_def)
  with q2 have q3: "quiet l1 l3" by (rule quiet_trans)
  then have "quiet l1 (skipDigits l3)" using skipDigits_quiet quiet_inText quiet_trans by blast
  with q3 show "numberPart l (scanExponent p kl)"
    using assms unfolding scanExponent_def kl Let_def prod.case l2_def [symmetric] l3_def [symmetric]
    by (auto simp: numeric_def simp del: One_nat_def intro!: step quiet_lexError)
qed

lemma slice_nonempty: "i < j \<Longrightarrow> j \<le> length s \<Longrightarrow> slice s i j \<noteq> []"
  by (simp add: slice_def)

lemma scanNumber_scans:
  assumes "isASCIIDigit (byteAt l 0)" "inCode st"
  shows "scans1 st l st (snd (scanNumber uc ctx l))"
proof -
  have inT: "inText l" using isASCIIDigit_byteAt [OF assms(1)] by (rule atEnd_inText)
  let ?l0 = "skipDigits l"
  have q0: "quiet l ?l0" and p0: "l_offset l < l_offset ?l0"
    using inT assms(1) by (simp_all add: skipDigits_quiet skipDigits_progress)
  obtain k l1 where kl: "scanSuffix uc (position l) (scanImaginary (scanExponent (position l)
      (scanFraction uc (position l) (IntLiteral, ?l0)))) = (k, l1)" by (metis surj_pair)
  have "numberPart ?l0 (IntLiteral, ?l0)"
    using q0 quiet_inText by (auto simp: numberPart_def numeric_def)
  then have part: "numberPart ?l0 (k, l1)" by (auto simp flip: kl intro!: numberPart_parts)
  then have q: "quiet l l1" and k: "numeric k" and p: "l_offset l < l_offset l1"
    using quiet_trans [OF q0] p0 quiet_offset by (auto simp: numberPart_def dest: quiet_offset)
  let ?v = "Span_Text (l_span l1 (position l)) (l_file l1)"
  have "l_file l1 = l_file l" using q by (rule quiet_file)
  then have "?v \<noteq> []"
    using Span_Text_since [OF q] p q slice_nonempty by (auto simp: quiet_def)
  then have "scans st l st (emit k (position l) ?v False l1)"
    using k q assms(2) by (intro scans_emit_plain) (auto simp: numeric_def)
  with p show ?thesis by (simp add: scanNumber_def Let_def kl scans1_def)
qed

lemma scanLeadingDotNumber_scans:
  assumes "\<not> atEnd l" "inCode st"
  shows "scans1 st l st (snd (scanLeadingDotNumber ctx l))"
proof -
  have inT: "inText l" using assms(1) by (rule atEnd_inText)
  let ?l1 = "skipDigits (advanceASCII 1 l)"
  have q1: "quiet l (advanceASCII 1 l)" using inT by (rule advanceASCII_quiet)
  have "l_offset l < l_offset (advanceASCII 1 l)"
    using assms(1) inT by (simp add: advanceASCII_progress)
  also have "\<dots> \<le> l_offset ?l1"
    using skipDigits_quiet quiet_inText [OF q1] quiet_offset by blast
  finally have p: "l_offset l < l_offset ?l1" .
  have "quiet l ?l1" using inT by (rule quiet_digits_after)
  then show ?thesis
    using assms(2) p unfolding scanLeadingDotNumber_def Let_def snd_conv scans1_def
    by (intro conjI scans_emit_plain quiet_lexError) simp_all
qed

lemma operator_kind:
  assumes "operator l = (k, w)" "k \<noteq> Invalid"
  shows "plainKind k \<and> k \<noteq> EOF \<and> k \<noteq> ImaginaryLiteral \<and> k \<noteq> Identifier \<and> 0 < w"
proof (cases "map_of operatorPairs [byteAt l 0, byteAt l 1]")
  case (Some k')
  then have "([byteAt l 0, byteAt l 1], k') \<in> set operatorPairs" by (rule map_of_SomeD)
  with Some assms show ?thesis by (auto simp: operator_def operatorPairs_def plainKind_def)
next
  case None
  with assms obtain k' where "map_of operatorSingles (byteAt l 0) = Some k'" "k' = k" "w = 1"
    by (auto simp: operator_def split: option.splits)
  then have "(byteAt l 0, k) \<in> set operatorSingles" by (auto dest: map_of_SomeD)
  with \<open>w = 1\<close> show ?thesis by (auto simp: operatorSingles_def plainKind_def)
qed

lemma scanOperator_scans:
  assumes "\<not> atEnd l" "inCode st"
  shows "scans1 st l st (snd (scanOperator uc ctx l))"
proof -
  have inT: "inText l" using assms(1) by (rule atEnd_inText)
  obtain k w where op: "operator l = (k, w)" by (cases "operator l")
  show ?thesis
  proof (cases "k = Invalid")
    case True
    have "quiet l (snd (advanceRune l))" "l_offset l < l_offset (snd (advanceRune l))"
      using advanceRune_quiet [OF inT] assms(1) by auto
    with True op show ?thesis
      by (auto simp: scanOperator_def Let_def scans1_def lexError_def lossyCode_def
          intro!: scans_lossy quiet_lexError [unfolded lexError_def])
  next
    case False
    have q: "quiet l (advanceASCII w l)" using inT by (rule advanceASCII_quiet)
    have "l_offset l < l_offset (advanceASCII w l)"
      using assms(1) inT operator_kind [OF op False] by (simp add: advanceASCII_progress)
    moreover have "scans st l st (emit k (position l) [] False (advanceASCII w l))"
      using q operator_kind [OF op False] assms(2) by (intro scans_emit_plain) auto
    ultimately show ?thesis using False op by (simp add: scanOperator_def Let_def scans1_def)
  qed
qed

lemma advanceRune_invalid:
  assumes "\<not> atEnd l" "peekRune l = (RuneError, 1)"
  shows "scans1 st l st (snd (advanceRune l))"
proof -
  have inT: "inText l" using assms(1) by (rule atEnd_inText)
  have "lossy (l_bag (snd (advanceRune l)))"
    using assms(2) by (simp add: advanceRune_def Let_def lexError_def lossyCode_def)
  then show ?thesis using advanceRune_quiet [OF inT] assms(1) by (simp add: scans1_def scans_lossy)
qed

subsection \<open>The pieces of a string\<close>

lemma scans_same: "quiet l0 l \<Longrightarrow> l_offset l = l_offset l0 \<Longrightarrow> scans st l0 st l"
  by (auto simp: scans_def quiet_def flat_def)

lemma flushText_scans:
  assumes "quiet l0 l"
  shows "scans (InString # st) l0 (InString # st) (flushText (position l0) v l)"
proof (cases "l_offset l = l_offset l0")
  case True
  with assms show ?thesis by (simp add: flushText_def position_def scans_same)
next
  case False
  then have "flushText (position l0) v l = emit StringText (position l0) v False l"
    by (simp add: flushText_def position_def)
  also have "scans (InString # st) l0 (InString # st) \<dots>"
    using assms by (intro scans_emit) simp_all
  finally show ?thesis .
qed

lemma endSynthetic_scans:
  assumes "inText l" "nestStep k st = Some st'" "k = StringEnd \<or> k = InterpolationEnd"
  shows "scans st l st' (let l1 = lexError c m s l in emitSynthetic k (position l1) l1)"
proof -
  have "scans st l st (lexError c m s l)" using assms(1) by (rule scans_lexError)
  also have "scans st (lexError c m s l) st'
      (emitSynthetic k (position (lexError c m s l)) (lexError c m s l))"
    using assms scans_inText [OF scans_lexError [OF assms(1)]] by (intro scans_synthetic) auto
  finally show ?thesis by (simp add: Let_def)
qed

lemma endAtNewline_scans: "inText l \<Longrightarrow> scans (InString # st) l st (endAtNewline l)"
  unfolding endAtNewline_def by (rule endSynthetic_scans) simp_all

lemma endUnterminated_scans: "inText l \<Longrightarrow> scans (InString # st) l st (endUnterminated p l)"
  unfolding endUnterminated_def by (rule endSynthetic_scans) simp_all

lemma reportUnterminatedInterpolation_scans:
  "inText l \<Longrightarrow> scans (InInterpolation # st) l st (reportUnterminatedInterpolation c l)"
  unfolding reportUnterminatedInterpolation_def by (rule endSynthetic_scans) simp_all

lemma rejectInterpolation_scans:
  "inText l \<Longrightarrow> scans (InInterpolation # st) l st (rejectInterpolation m s l)"
  unfolding rejectInterpolation_def by (rule endSynthetic_scans) simp_all

lemma endDelimited_scans: "inText l \<Longrightarrow> scans (InString # st) l st (endDelimited d l)"
  unfolding endDelimited_def Let_def by (rule scans_emit) (simp_all add: advanceASCII_quiet)

lemma closeInterpolation_scans:
  assumes "inText l"
  shows "scans (InInterpolation # st) l st (closeInterpolation c l)"
proof -
  define l1 where "l1 = (if \<not> sawExpressionToken c
    then lexError codeEmptyInterpolation mEmptyInterpolation
      (NewSpan (ID (l_file l)) (openingPos c) (position l)) l else l)"
  have s: "scans (InInterpolation # st) l (InInterpolation # st) l1"
    using assms by (simp add: l1_def scans_lexError scans_refl)
  also have "scans (InInterpolation # st) l1 st
      (emit InterpolationEnd (position l1) [] False (advanceASCII 1 l1))"
    using scans_inText [OF s] by (intro scans_emit) (simp_all add: advanceASCII_quiet)
  finally show ?thesis unfolding closeInterpolation_def Let_def l1_def .
qed

lemma scanEscape_quiet: "inText l \<Longrightarrow> quiet l (snd (scanEscape v l))"
proof -
  assume inT: "inText l"
  define l1 where "l1 = advanceASCII 1 l"
  have q1: "quiet l l1" using inT by (simp add: l1_def advanceASCII_quiet)
  then have q2: "quiet l (advanceASCII 1 l1)"
    using advanceASCII_quiet [of l1 1] quiet_inText quiet_trans by blast
  show ?thesis
    unfolding scanEscape_def Let_def l1_def [symmetric]
    using q1 q2 by (auto simp: quiet_lexError simp del: One_nat_def)
qed

lemma scanEscape_progress:
  "\<not> atEnd l \<Longrightarrow> l_offset l < l_offset (snd (scanEscape v l))"
proof -
  assume "\<not> atEnd l"
  then have inT: "inText l" by (rule atEnd_inText)
  define l1 where "l1 = advanceASCII 1 l"
  have p: "l_offset l < l_offset l1"
    using \<open>\<not> atEnd l\<close> inT by (simp add: l1_def advanceASCII_progress)
  have "inText l1" using advanceASCII_quiet [OF inT] quiet_inText by (auto simp: l1_def)
  then have "l_offset l1 \<le> l_offset (advanceASCII 1 l1)" using advanceASCII_quiet quiet_offset by blast
  with p show ?thesis
    unfolding scanEscape_def Let_def l1_def [symmetric] by (auto simp del: One_nat_def)
qed

lemma scanRawLoop_scans:
  assumes "quiet l0 l" "t = position l0"
  shows "scans (InString # st) l0 st (scanRawLoop d p t l)"
  using assms
proof (induction d p t l rule: scanRawLoop.induct)
  case (1 d p t l)
  let ?f = "flushText t (Span_Text (l_span l t) (l_file l)) l"
  have s: "scans (InString # st) l0 (InString # st) ?f" using "1.prems" flushText_scans by blast
  note inF = scans_inText [OF s]
  have inT: "inText l" using "1.prems" quiet_inText by blast
  consider "atEnd l" | "\<not> atEnd l" "matchesDelimiter d l"
    | "\<not> atEnd l" "\<not> matchesDelimiter d l" "\<not> triple d \<and> isNewline l"
    | "\<not> atEnd l" "\<not> matchesDelimiter d l" "\<not> (\<not> triple d \<and> isNewline l)" "isNewline l"
    | "\<not> atEnd l" "\<not> matchesDelimiter d l" "\<not> (\<not> triple d \<and> isNewline l)" "\<not> isNewline l"
    by blast
  then show ?case
  proof cases
    case 1
    then have "scanRawLoop d p t l = endUnterminated p ?f"
      by (subst scanRawLoop.simps) (simp add: Let_def)
    with s endUnterminated_scans [OF inF] show ?thesis by (auto intro: scans_trans)
  next
    case 2
    then have "scanRawLoop d p t l = endDelimited d ?f"
      by (subst scanRawLoop.simps) (simp add: Let_def)
    with s endDelimited_scans [OF inF] show ?thesis by (auto intro: scans_trans)
  next
    case 3
    then have "scanRawLoop d p t l = endAtNewline ?f"
      by (subst scanRawLoop.simps) (simp add: Let_def)
    with s endAtNewline_scans [OF inF] show ?thesis by (auto intro: scans_trans)
  next
    case 4
    then have eq: "scanRawLoop d p t l = scanRawLoop d p t (consumeNewline l)"
      by (subst scanRawLoop.simps) (simp add: Let_def)
    have "quiet l0 (consumeNewline l)"
      using "1.prems"(1) consumeNewline_quiet(1) [OF inT 4(4)] by (rule quiet_trans)
    from "1.IH"(1) [OF refl 4 this "1.prems"(2)] show ?thesis by (simp add: eq)
  next
    case 5
    then have eq: "scanRawLoop d p t l = scanRawLoop d p t (snd (advanceRune l))"
      by (subst scanRawLoop.simps) (simp add: Let_def)
    have "quiet l0 (snd (advanceRune l))"
      using "1.prems"(1) advanceRune_quiet(1) [OF inT] by (rule quiet_trans)
    from "1.IH"(2) [OF refl 5 this "1.prems"(2)] show ?thesis by (simp add: eq)
  qed
qed

lemma stringStart_scans:
  assumes "\<not> atEnd l" "inCode st" "quiet l l1" "l_offset l < l_offset l1"
  shows "scans1 st l (InString # st) (emit StringStart (position l) v False l1)"
  using assms scans_emit [OF assms(3), of StringStart st "InString # st" v False]
  by (simp add: scans1_def)

lemma scanRawString_scans:
  assumes "\<not> atEnd l" "inCode st"
  shows "scans1 st l st (scanRawString l)"
proof -
  have inT: "inText l" using assms(1) by (rule atEnd_inText)
  define l1 where "l1 = advanceASCII 1 l"
  define d where "d = readStringDelimiter l1"
  define l2 where "l2 = advanceASCII (width d) l1"
  define l3 where "l3 = emit StringStart (position l) [quote d] False l2"
  have q1: "quiet l l1" using inT by (simp add: l1_def advanceASCII_quiet)
  have q2: "quiet l1 l2" using q1 quiet_inText advanceASCII_quiet by (auto simp: l2_def)
  have p: "l_offset l < l_offset l2"
    using advanceASCII_progress [OF assms(1) inT, of 1] quiet_offset [OF q2] by (simp add: l1_def)
  have s: "scans1 st l (InString # st) l3"
    unfolding l3_def using assms quiet_trans [OF q1 q2] p by (rule stringStart_scans)
  have "scans (InString # st) l3 st (scanRawLoop d (position l) (position l3) l3)"
    using scans_inText [OF scans1_scans [OF s]] by (simp add: scanRawLoop_scans)
  with s show ?thesis
    by (simp add: scanRawString_def Let_def l1_def d_def l2_def l3_def scans1_trans)
qed

subsection \<open>Code tokens over a string scanner\<close>

text \<open>
  The interface between \<open>scanCodeToken\<close> and the scanner for ordinary strings: on every state
  with at most \<open>bound\<close> bytes left, the scanner returns, makes progress, and leaves a complete
  string. Under this contract the code-token dispatcher and the interpolation loop return too.
\<close>

locale string_scanner =
  fixes scanStr :: "lexer \<Rightarrow> lexer option" and bound :: nat
  assumes scanStr_scans:
    "\<not> atEnd l \<Longrightarrow> remaining l \<le> bound \<Longrightarrow> inCode st \<Longrightarrow> returns (scans1 st l st) (scanStr l)"
begin

lemma scanCodeToken_scans:
  assumes "\<not> atEnd l" "remaining l \<le> bound" "inCode st"
  shows "returns (\<lambda>(c, l'). scans1 st l st l' \<and> (ctx = None \<longleftrightarrow> c = None))
    (scanCodeToken scanStr uc ctx l)"
proof -
  obtain r n where peek: "peekRune l = (r, n)" by (cases "peekRune l")
  have ctxs: "(ctx = None) = (fst (scanIdentifier uc ctx l) = None)"
    "(ctx = None) = (fst (scanNumber uc ctx l) = None)"
    "(ctx = None) = (fst (scanLeadingDotNumber ctx l) = None)"
    "(ctx = None) = (fst (scanOperator uc ctx l) = None)"
    by (simp_all add: scanIdentifier_def scanNumber_def scanLeadingDotNumber_def scanOperator_def
        sawToken_def Let_def split_def)
  have str: "returns (scans1 st l st) (scanStr l)" using assms by (rule scanStr_scans)
  consider "r = RuneError \<and> n = 1" | "\<not> (r = RuneError \<and> n = 1)" by blast
  then show ?thesis
  proof cases
    case 1
    with advanceRune_invalid [OF assms(1)] peek show ?thesis
      by (simp add: scanCodeToken_def)
  next
    case 2
    show ?thesis
      using 2 peek ctxs str assms scanRawString_scans [OF assms(1,3)]
        scanIdentifier_scans [OF assms(1,3), of uc ctx] scanNumber_scans [OF _ assms(3), of l uc ctx]
        scanLeadingDotNumber_scans [OF assms(1,3), of ctx]
        scanOperator_scans [OF assms(1,3), of uc ctx]
      by (auto simp: scanCodeToken_def split_def sawToken_def elim!: returnsE)
  qed
qed

lemma scanInterpolation_scans:
  assumes "inText l" "remaining l \<le> bound" "remaining l < n"
  shows "returns (\<lambda>(closed, l'). scans (InInterpolation # st) l st l')
    (scanInterpolation n (scanCodeToken scanStr uc) ctx l)"
  using assms
proof (induction n arbitrary: l ctx)
  case (Suc n)
  let ?st = "InInterpolation # st"
  let ?l1 = "scanTrivia l"
  have s: "scans ?st l ?st ?l1" using \<open>inText l\<close> by (rule scans_scanTrivia) simp
  note inT1 = scans_inText [OF s] and rem1 = scans_remaining [OF s]
  note step = scans_trans [OF s]
  have ends: "scans ?st l st (reportUnterminatedInterpolation ctx l)"
    "scans ?st l st (reportUnterminatedInterpolation ctx ?l1)"
    "scans ?st l st (rejectInterpolation m p ?l1)"
    "scans ?st l st (closeInterpolation ctx ?l1)" for m p
    using inT1 \<open>inText l\<close>
    by (auto intro: step reportUnterminatedInterpolation_scans rejectInterpolation_scans
        closeInterpolation_scans)
  have newline: "returns (\<lambda>(closed, l'). scans ?st l st l')
      (scanInterpolation n (scanCodeToken scanStr uc) ctx (emitNewline ?l1))" if "isNewline ?l1"
  proof -
    have s2: "scans1 ?st ?l1 ?st (emitNewline ?l1)"
      using scans_emitNewline [OF inT1 that] emitNewline_progress by (simp add: scans1_def)
    have "returns (\<lambda>(closed, l'). scans ?st (emitNewline ?l1) st l')
        (scanInterpolation n (scanCodeToken scanStr uc) ctx (emitNewline ?l1))"
      using scans_inText [OF scans1_scans [OF s2]] scans1_remaining [OF s2] rem1 Suc.prems
      by (intro Suc.IH) simp_all
    then show ?thesis
      using scans_trans [OF s scans1_scans [OF s2]]
      by (auto elim!: returns_mono intro: scans_trans)
  qed
  have token: "returns (\<lambda>(closed, l'). scans ?st l st l')
      (case scanCodeToken scanStr uc (Some ctx) ?l1 of
         Some (Some ctx', l2) \<Rightarrow> scanInterpolation n (scanCodeToken scanStr uc) ctx' l2
       | _ \<Rightarrow> None)" if "\<not> atEnd ?l1"
  proof -
    have "remaining ?l1 \<le> bound" using rem1 Suc.prems by simp
    from scanCodeToken_scans [OF that this, of ?st "Some ctx" uc]
    obtain c l2 where tok: "scanCodeToken scanStr uc (Some ctx) ?l1 = Some (Some c, l2)"
      and s2: "scans1 ?st ?l1 ?st l2"
      by (auto elim!: returnsE)
    have "returns (\<lambda>(closed, l'). scans ?st l2 st l')
        (scanInterpolation n (scanCodeToken scanStr uc) c l2)"
      using scans_inText [OF scans1_scans [OF s2]] scans1_remaining [OF s2] rem1 Suc.prems
      by (intro Suc.IH) simp_all
    then show ?thesis
      using scans_trans [OF s scans1_scans [OF s2]]
      by (auto simp: tok elim!: returns_mono intro: scans_trans)
  qed
  show ?case
    using ends newline token by (simp add: Let_def)
qed simp

end

subsection \<open>Strings with nested interpolations\<close>

text \<open>
  The loop of a string, over any interpolation scanner that returns on every state with at most
  \<open>bound\<close> bytes left. \<open>l0\<close> is the state at \<open>textStart\<close>.
\<close>

locale interpolation_scanner =
  fixes scanInt :: "interpolationContext \<Rightarrow> lexer \<Rightarrow> (bool \<times> lexer) option" and bound :: nat
  assumes scanInt_scans:
    "inText l \<Longrightarrow> remaining l \<le> bound \<Longrightarrow>
     returns (\<lambda>(closed, l'). scans (InInterpolation # st) l st l') (scanInt ctx l)"
begin

lemma scanStringLoop_scans:
  assumes "quiet l0 l" "remaining l \<le> bound" "remaining l < n"
  shows "returns (scans (InString # st) l0 st) (scanStringLoop n scanInt d start (position l0) v l)"
  using assms
proof (induction n arbitrary: l0 l v)
  case (Suc n)
  let ?st = "InString # st"
  let ?f = "flushText (position l0) v l"
  have s: "scans ?st l0 ?st ?f" using \<open>quiet l0 l\<close> by (rule flushText_scans)
  note inF = scans_inText [OF s]
  have inT: "inText l" using Suc.prems quiet_inText by blast
  have ends: "scans ?st l0 st (endUnterminated start ?f)" "scans ?st l0 st (endDelimited d ?f)"
    "scans ?st l0 st (endAtNewline ?f)"
    using inF by (auto intro: scans_trans [OF s] endUnterminated_scans endDelimited_scans
        endAtNewline_scans)
  have move: "returns (scans ?st l0 st) (scanStringLoop n scanInt d start (position l0) w l1)"
    if "quiet l l1" "l_offset l < l_offset l1" "\<not> atEnd l" for w l1
  proof -
    have "remaining l1 < remaining l" using that quiet_file by (auto intro: remaining_less)
    with Suc.prems quiet_trans [OF Suc.prems(1) that(1)] show ?thesis by (intro Suc.IH) simp_all
  qed
  have one: "quiet l (advanceASCII 1 l)" "\<not> atEnd l \<Longrightarrow> l_offset l < l_offset (advanceASCII 1 l)"
    using inT by (simp_all add: advanceASCII_quiet advanceASCII_progress)
  define ctx where "ctx = \<lparr>tripleOf = triple d, braceDepth = 0, sawExpressionToken = False,
      openingPos = position ?f\<rparr>"
  define l2 where "l2 = emit InterpolationStart (position ?f) [] False (advanceASCII 1 ?f)"
  have interpolation: "returns (scans ?st l0 st) (case scanInt ctx l2 of None \<Rightarrow> None
      | Some (closed, l3) \<Rightarrow> if \<not> closed then Some (endUnterminated start l3)
          else scanStringLoop n scanInt d start (position l3) [] l3)" if "\<not> atEnd l"
  proof -
    have s2: "scans ?st ?f (InInterpolation # ?st) l2"
      unfolding l2_def using inF by (intro scans_emit) (simp_all add: advanceASCII_quiet)
    have same: "remaining ?f = remaining l" "atEnd ?f = atEnd l"
      by (simp_all add: flushText_def remaining_def atEnd_def)
    have "remaining (advanceASCII 1 ?f) < remaining ?f"
      using advanceASCII_progress [of ?f 1] that inF same advanceASCII_quiet [OF inF, of 1]
      by (intro remaining_less) (simp_all add: quiet_def)
    then have "remaining l2 < remaining l"
      using same by (simp add: l2_def remaining_def)
    moreover from this have "returns (\<lambda>(closed, l'). scans (InInterpolation # ?st) l2 ?st l') (scanInt ctx l2)"
      using scans_inText [OF s2] Suc.prems by (intro scanInt_scans) simp_all
    then obtain c l3 where int: "scanInt ctx l2 = Some (c, l3)"
      and s3: "scans (InInterpolation # ?st) l2 ?st l3"
      by (auto elim!: returnsE)
    have s03: "scans ?st l0 ?st l3" using scans_trans [OF s scans_trans [OF s2 s3]] .
    have "returns (scans ?st l3 st) (scanStringLoop n scanInt d start (position l3) [] l3)"
      using Suc.prems scans_inText [OF s3] scans_remaining [OF s3] \<open>remaining l2 < remaining l\<close>
      by (intro Suc.IH) simp_all
    then show ?thesis
      using scans_trans [OF s03] endUnterminated_scans [OF scans_inText [OF s03]]
      by (auto simp: int elim!: returns_mono)
  qed
  have brace_move: "\<not> atEnd l \<Longrightarrow> returns (scans ?st l0 st)
      (scanStringLoop n scanInt d start (position l0) w (lexError c m p (advanceASCII 1 l)))" for w c m p
    using one by (intro move quiet_lexError) simp_all
  obtain rs l4 where rune: "advanceRune l = (rs, l4)" by (cases "advanceRune l")
  have rune_move: "quiet l l4" "\<not> atEnd l \<Longrightarrow> l_offset l < l_offset l4"
    using advanceRune_quiet [OF inT] rune by auto
  obtain w l5 where escape: "scanEscape v l = (w, l5)" by (cases "scanEscape v l")
  have escape_move: "quiet l l5" "\<not> atEnd l \<Longrightarrow> l_offset l < l_offset l5"
    using scanEscape_quiet [OF inT, of v] scanEscape_progress [of l v] escape by auto
  show ?case
    using ends interpolation [unfolded ctx_def l2_def] move [OF rune_move] move [OF escape_move] move [OF one]
      brace_move consumeNewline_quiet [OF inT] move [of "consumeNewline l"]
    by (cases "triple d") (simp_all add: Let_def rune escape split_def)
qed simp

end

lemma scanString_scanner: "string_scanner (scanString n uc) n"
proof (induction n)
  case 0
  show ?case by unfold_locales (simp add: atEnd_remaining)
next
  case (Suc n)
  have inner: "interpolation_scanner (\<lambda>ctx l. scanInterpolation (loopFuel l)
      (scanCodeToken (scanString n uc) uc) ctx l) n"
    by unfold_locales (rule string_scanner.scanInterpolation_scans [OF Suc], simp_all add: loopFuel_def)
  show ?case
  proof
    fix l st
    assume l: "\<not> atEnd l" "remaining l \<le> Suc n" "inCode st"
    have inT: "inText l" using l(1) by (rule atEnd_inText)
    define d where "d = readStringDelimiter l"
    define l1 where "l1 = emit StringStart (position l) [quote d] False (advanceASCII (width d) l)"
    have "0 < width d" by (simp add: d_def readStringDelimiter_def Let_def)
    then have s: "scans1 st l (InString # st) l1"
      unfolding l1_def using l inT
      by (intro stringStart_scans) (simp_all add: advanceASCII_quiet advanceASCII_progress)
    have "returns (scans (InString # st) l1 st) (scanStringLoop (loopFuel l1) (\<lambda>ctx l.
        scanInterpolation (loopFuel l) (scanCodeToken (scanString n uc) uc) ctx l)
        d (position l) (position l1) [] l1)"
      using scans_inText [OF scans1_scans [OF s]] scans1_remaining [OF s] l(2)
      by (intro interpolation_scanner.scanStringLoop_scans [OF inner]) (simp_all add: loopFuel_def)
    then show "returns (scans1 st l st) (scanString (Suc n) uc l)"
      using scans1_trans [OF s]
      by (auto simp: Let_def elim!: returns_mono simp flip: d_def l1_def)
  qed
qed

text \<open>The lexer's own string scanner meets the contract, for every fuel.\<close>

interpretation strings: string_scanner "scanString n u" n for n u
  by (rule scanString_scanner)

interpretation interpolations: interpolation_scanner
  "\<lambda>ctx l. scanInterpolation (loopFuel l) (scanCodeToken (scanString n u) u) ctx l" n for n u
  by unfold_locales (rule strings.scanInterpolation_scans, simp_all add: loopFuel_def)

subsection \<open>The main loop\<close>

text \<open>The state \<open>run\<close> ends in: everything scanned, then the synthetic end-of-file token.\<close>

definition finished :: "lexer \<Rightarrow> lexer \<Rightarrow> bool" where
  "finished l l' \<longleftrightarrow> (\<exists>l1. scans [] l [] l1 \<and> atEnd l1 \<and> l' = emitSynthetic EOF (position l1) l1)"

lemma finished_trans: "scans [] l [] l1 \<Longrightarrow> finished l1 l' \<Longrightarrow> finished l l'"
  by (auto simp: finished_def intro: scans_trans)

lemma lexRun_finished: "inText l \<Longrightarrow> remaining l < n \<Longrightarrow> returns (finished l) (lexRun n uc l)"
proof (induction n arbitrary: l)
  case (Suc n)
  let ?l1 = "scanTrivia l"
  have s: "scans [] l [] ?l1" using \<open>inText l\<close> by (rule scans_scanTrivia) simp
  note inT1 = scans_inText [OF s] and rem1 = scans_remaining [OF s]
  have ends: "finished l (emitSynthetic EOF (position ?l1) ?l1)" if "atEnd ?l1"
    using s that by (auto simp: finished_def)
  have ends': "finished l (emitSynthetic EOF (position l) l)" if "atEnd l"
    using Suc.prems that by (auto simp: finished_def intro: scans_refl)
  have continue: "returns (finished l) (lexRun n uc l2)" if "scans1 [] ?l1 [] l2" for l2
    using Suc.IH [of l2] scans_inText [OF scans1_scans [OF that]] scans1_remaining [OF that] rem1
      Suc.prems finished_trans [OF scans_trans [OF s scans1_scans [OF that]]]
    by (auto elim!: returns_mono)
  have newline: "scans1 [] ?l1 [] (emitNewline ?l1)" if "isNewline ?l1"
    using scans_emitNewline [OF inT1 that] emitNewline_progress by (simp add: scans1_def)
  have token: "returns (finished l) (case scanCodeToken (scanString (stringFuel ?l1) uc) uc None ?l1 of
      None \<Rightarrow> None | Some (_, l2) \<Rightarrow> lexRun n uc l2)" if "\<not> atEnd ?l1"
  proof -
    from strings.scanCodeToken_scans [OF that, of "stringFuel ?l1" "[]" None uc uc]
    show ?thesis using continue by (auto simp: stringFuel_def elim!: returnsE)
  qed
  show ?case
    using ends ends' continue [OF newline] token by (simp add: Let_def)
qed simp

lemma newLexer_simps [simp]:
  "l_file (newLexer f) = f" "l_offset (newLexer f) = 0" "l_tokens (newLexer f) = []"
  "l_pending (newLexer f) = []" "l_bag (newLexer f) = []" "l_line (newLexer f) = 1"
  "l_column (newLexer f) = 1"
  by (simp_all add: newLexer_def)

lemma lexFinal_finished: "returns (finished (newLexer f)) (lexFinal uc f)"
  unfolding lexFinal_def by (rule lexRun_finished) (simp_all add: inText_def remaining_def)

text \<open>The result of \<open>Lex\<close> in one statement, from which the properties below are read off.\<close>

definition lexed :: "File \<Rightarrow> Token list \<Rightarrow> Bag \<Rightarrow> bool" where
  "lexed f toks bag \<longleftrightarrow> (\<exists>ts eof. toks = ts @ [eof] \<and> KindOf eof = EOF \<and> Synthetic eof \<and> Lexeme eof = []
     \<and> Offset (Start (TokenSpan eof)) = int (length (Text f))
     \<and> Offset (End (TokenSpan eof)) = int (length (Text f))
     \<and> nest (map KindOf ts) [] = Some []
     \<and> chain 0 ts (int (length (Text f))) \<and> list_all (tokenOk f) ts
     \<and> (\<not> lossy bag \<longrightarrow> concat (map tokenText toks) = Text f))"

lemma finished_lexed:
  assumes "finished (newLexer f) l'"
  shows "lexed f (l_tokens l') (l_bag l')"
proof -
  obtain l where s: "scans [] (newLexer f) [] l" and e: "atEnd l"
    and l': "l' = emitSynthetic EOF (position l) l"
    using assms by (auto simp: finished_def)
  have off: "l_offset l = length (Text f)" and same: "l_file l = f"
    using s e by (auto simp: scans_def atEnd_def)
  define eof where "eof = \<lparr>KindOf = EOF, Lexeme = Span_Text (l_span l (position l)) (l_file l), Value = [],
     TokenSpan = l_span l (position l), LeadingTrivia = l_pending l, Synthetic = True\<rparr>"
  have toks: "l_tokens l' = l_tokens l @ [eof]" and bag: "l_bag l' = l_bag l"
    by (simp_all add: l' emitSynthetic_def emit_def eof_def Let_def)
  have empty: "Lexeme eof = []"
    by (simp add: eof_def Span_Text_def l_span_def)
  have "flat l = Text f" if "\<not> lossy (l_bag l)"
    using s that off by (auto simp: scans_def flat_def slice_def)
  then have "concat (map tokenText (l_tokens l')) = Text f" if "\<not> lossy (l_bag l')"
    using that empty by (simp add: toks bag flat_def tokenText_def) (simp add: eof_def)
  with s off same empty show ?thesis
    unfolding lexed_def
    by (intro exI [of _ "l_tokens l"] exI [of _ eof])
      (auto simp: scans_def toks eof_def l_span_def position_def)
qed

lemma Lex_lexed: "returns (\<lambda>r. lexed f (ResTokens r) (ResDiagnostics r)) (Lex uc f)"
  using lexFinal_finished [of f uc]
  by (auto simp: Lex_def Bag_Items_def intro: finished_lexed elim!: returnsE)

end
