(* ===== verification/Ast.thy ===== *)
theory Ast
  imports Token
begin

text \<open>
  The syntax tree (\<open>internal/syntax/ast\<close>). Go's interfaces \<open>Expr\<close> and \<open>Stmt\<close> with their
  node structs are datatypes with one constructor per struct; the embedded \<open>Base\<close> is the first
  argument, its span. A pointer or interface that the parser may leave nil is an option.
\<close>

datatype TypeRef = TypeRef
  (typeRefSpan: Span) (typeRefName: string) (typeRefArguments: "TypeRef list")
  (explicitEmpty: bool) (nullable: bool)

datatype Modifier = ModifierLocal | ModifierGlobal | ModifierConstant | ModifierConfidential

datatype LiteralKind = IntLit | RealLit | ImaginaryLit | BoolLit | NullLit

datatype CaptureKind = LocalCapture | GlobalCapture

record CaptureRef =
  CaptureSpan :: Span
  CaptureKindOf :: CaptureKind
  CaptureName :: string

datatype Expr =
    BadExpr Span
  | LiteralExpr Span LiteralKind string string
  | IdentifierExpr Span string string
  | GroupExpr Span Expr
  | LambdaExpr Span "CaptureRef list" "Parameter list" Expr
  | UnaryExpr Span string Expr
  | BinaryExpr Span Expr string Expr
  | CallExpr Span Expr "CallArgument list"
  | MemberExpr Span Expr string
  | IndexExpr Span Expr Expr
  | SliceExpr Span Expr "Expr option" "Expr option"
  | ListExpr Span "Expr list"
  | PairExpr Span "PairEntry list"
  | StringExpr Span string "StringPart list"
and Parameter = Parameter Span string "Modifier list" "TypeRef option" "Expr option" bool
and CallArgument = CallArgument Span string Expr
and PairEntry = PairEntry Span Expr Expr
and StringPart = StringPart Span string "Expr option"

datatype FunctionFlavor = FunctionBase | FunctionOverload | FunctionOverride

datatype Stmt =
    BadStmt Span
  | ExprStmt Span Expr
  | VariableDecl Span Expr string "Modifier list" "TypeRef option" "Expr option" bool bool
  | AssignmentStmt Span Expr string Expr
  | IncDecStmt Span Expr string bool
  | ReturnStmt Span "Expr option"
  | TossStmt Span Expr
  | BreakStmt Span
  | ContinueStmt Span
  | IfStmt Span "ConditionalBlock list" "Block option"
  | WhileStmt Span Expr Block
  | UntilStmt Span Expr Block
  | ForStmt Span string "TypeRef option" Expr Block
  | StateStmt Span Expr "StateCondition list"
  | AttemptStmt Span Block "ExceptClause list" "Block option"
  | BringStmt Span string string bool bool "string list"
  | RequireStmt Span string Span bool
  | FunctionDecl Span string "Modifier list" FunctionFlavor "Parameter list" TypeRef
      "CaptureRef list" Block
  | ClassDecl Span string "Modifier list" "TypeRef option" bool "Stmt list"
  | StructureDecl Span "Parameter list" "Block option"
and Block = Block Span "Stmt list"
and ConditionalBlock = ConditionalBlock Span Expr Block
and StateCondition = StateCondition Span "Expr option" bool Block
and ExceptClause = ExceptClause Span TypeRef string Block

record Program =
  ProgramSpan :: Span
  Statements :: "Stmt list"

primrec exprSpan :: "Expr \<Rightarrow> Span" where
  "exprSpan (BadExpr s) = s"
| "exprSpan (LiteralExpr s k raw v) = s"
| "exprSpan (IdentifierExpr s n raw) = s"
| "exprSpan (GroupExpr s e) = s"
| "exprSpan (LambdaExpr s cs ps e) = s"
| "exprSpan (UnaryExpr s oper e) = s"
| "exprSpan (BinaryExpr s l oper r) = s"
| "exprSpan (CallExpr s e as) = s"
| "exprSpan (MemberExpr s e n) = s"
| "exprSpan (IndexExpr s e i) = s"
| "exprSpan (SliceExpr s e a b) = s"
| "exprSpan (ListExpr s es) = s"
| "exprSpan (PairExpr s ps) = s"
| "exprSpan (StringExpr s d ps) = s"

primrec blockSpan :: "Block \<Rightarrow> Span" where
  "blockSpan (Block s ss) = s"

end
