(* ===== verification/ParserMessages.thy ===== *)
theory ParserMessages
  imports Prelude
begin

text \<open>
  The parser's diagnostic codes (\<open>internal/parser/errors.go\<close>) and the texts of its messages
  and hints, one constant per diagnostic: \<open>m...\<close> is a message with its hint, \<open>x...\<close> is the
  message of an \<open>expect\<close>, whose hint names the expected token.
\<close>

definition codeUnexpectedToken :: string where "codeUnexpectedToken = ''PAR001''"
definition codeExpectedToken :: string where "codeExpectedToken = ''PAR002''"
definition codeExpectedSeparator :: string where "codeExpectedSeparator = ''PAR003''"
definition codeMixedCallArguments :: string where "codeMixedCallArguments = ''PAR004''"
definition codeInvalidDeclarationScope :: string where "codeInvalidDeclarationScope = ''PAR005''"
definition codeInvalidAssignmentTarget :: string where "codeInvalidAssignmentTarget = ''PAR006''"
definition codeInvalidStandaloneUpdate :: string where "codeInvalidStandaloneUpdate = ''PAR007''"
definition codeInvalidTypeSyntax :: string where "codeInvalidTypeSyntax = ''PAR008''"
definition codeInvalidControlSyntax :: string where "codeInvalidControlSyntax = ''PAR009''"
definition codeExpectedSameLineRHS :: string where "codeExpectedSameLineRHS = ''PAR010''"
definition codeInvalidInferredTarget :: string where "codeInvalidInferredTarget = ''PAR011''"
definition codeInvalidLambdaSyntax :: string where "codeInvalidLambdaSyntax = ''PAR012''"
definition codeLeadingDotContinuation :: string where "codeLeadingDotContinuation = ''PAR013''"
definition codeInvalidRequireArgument :: string where "codeInvalidRequireArgument = ''PAR014''"

definition mSeparator :: "string \<times> string" where
  "mSeparator = (''expected newline between statements'',
     ''place each independent statement on its own line'')"

definition mLeadingDot :: "string \<times> string" where
  "mLeadingDot = (''method chain cannot continue from a new line'',
     ''keep the member call on the same expression as its receiver, or store the intermediate result in a variable'')"

definition mGroupEnd :: "string \<times> string" where
  "mGroupEnd = (''expected an expression and ) to close the grouped expression'',
     ''write an expression followed by )'')"

definition mExpectedExpression :: "string \<times> string" where
  "mExpectedExpression = (''expected expression'',
     ''start an expression with a literal, identifier, grouping, or collection'')"

definition mLambdaBlock :: "string \<times> string" where
  "mLambdaBlock = (''lambda body must be one expression, not a block'',
     ''use lambda (...) -> expression, or write a normal Function for statements'')"

definition mLambdaBody :: "string \<times> string" where
  "mLambdaBody = (''missing lambda body expression after '' @ [CHR 0x27] @ ''->'' @ [CHR 0x27],
     ''write one expression after '' @ [CHR 0x27] @ ''->'' @ [CHR 0x27] @ '', or use a normal Function for statements'')"

definition mMixedArguments :: "string \<times> string" where
  "mMixedArguments = (''positional and named arguments cannot be mixed'',
     ''make every argument positional or every argument named'')"

definition mCallSeparator :: "string \<times> string" where
  "mCallSeparator = (''expected comma or newline between call arguments'',
     ''add a comma on the same line or place the next argument on a new line'')"

definition mIndexEnd :: "string \<times> string" where
  "mIndexEnd = (''expected an index expression and ] to close the index'',
     ''write an index followed by ]'')"

definition mEmptyIndex :: "string \<times> string" where
  "mEmptyIndex = (''empty index is not allowed'',
     ''provide an index or use : for a slice'')"

definition mListSeparator :: "string \<times> string" where
  "mListSeparator = (''expected comma or newline between List elements'',
     ''separate same-line elements with commas'')"

definition mPairSeparator :: "string \<times> string" where
  "mPairSeparator = (''expected comma or newline between Pair entries'',
     ''separate same-line entries with commas'')"

definition mEmptyInterpolationExpr :: "string \<times> string" where
  "mEmptyInterpolationExpr = (''empty interpolation expression'',
     ''place one expression between the braces'')"

definition mStringToken :: "string \<times> string" where
  "mStringToken = (''unexpected token in string'',
     ''use text or a valid interpolation expression'')"

definition mNotAssignable :: "string \<times> string" where
  "mNotAssignable = (''expression is not assignable'',
     ''assign only to an identifier, member, or index'')"

definition mUpdateTarget :: "string \<times> string" where
  "mUpdateTarget = (''increment/decrement target is not assignable'',
     ''update only an identifier, member, or index'')"

definition mInferredTarget :: "string \<times> string" where
  "mInferredTarget = (''an inferred declaration target must be a plain identifier'',
     ''write name := value, or use an explicit name: Type := value declaration'')"

definition mInitializer :: "string \<times> string" where
  "mInitializer = (''missing initializer after '' @ [CHR 0x27] @ '':='' @ [CHR 0x27],
     ''write the initializer after '' @ [CHR 0x27] @ '':='' @ [CHR 0x27] @ '' on the same line'')"

definition mDeclarationTarget :: "string \<times> string" where
  "mDeclarationTarget = (''declaration target is not a name or member'',
     ''declare an identifier or an allowed attribute member'')"

definition mFlavor :: "string \<times> string" where
  "mFlavor = (''Overload/Override may modify only Function declarations'',
     ''remove the Function modifier or use Function as the declaration type'')"

definition mTypeName :: "string \<times> string" where
  "mTypeName = (''expected type name'',
     ''use a declared Class name or an AhdCode type'')"

definition mTypeSeparator :: "string \<times> string" where
  "mTypeSeparator = (''expected comma or newline between generic type arguments'',
     ''write Pair<String, Int> on one line'')"

definition mOverrideScope :: "string \<times> string" where
  "mOverrideScope = (''Override Function requires Class member scope'',
     ''declare Override Function inside a derived Class'')"

definition mClassScope :: "string \<times> string" where
  "mClassScope = (''Class declarations are allowed only at module root'',
     ''move the Class declaration to module root'')"

definition mClassParent :: "string \<times> string" where
  "mClassParent = (''Class accepts at most one direct parent'',
     ''write Class<Parent> with one parent'')"

definition mStructureScope :: "string \<times> string" where
  "mStructureScope = (''structure declarations require Class member scope'',
     ''move structure into a Class body'')"

definition mParameterFlavor :: "string \<times> string" where
  "mParameterFlavor = (''Overload/Override are not parameter modifiers'',
     ''remove the Function declaration modifier'')"

definition mDefaultExpression :: "string \<times> string" where
  "mDefaultExpression = (''missing default expression after '' @ [CHR 0x27] @ '':='' @ [CHR 0x27],
     ''write the default expression after '' @ [CHR 0x27] @ '':='' @ [CHR 0x27] @ '' on the same line'')"

definition mDefaultOrder :: "string \<times> string" where
  "mDefaultOrder = (''required parameter cannot follow a default parameter'',
     ''move required parameters before default parameters'')"

definition mParameterSeparator :: "string \<times> string" where
  "mParameterSeparator = (''expected comma or newline between parameters'',
     ''separate same-line parameters with commas'')"

definition mForModifier :: "string \<times> string" where
  "mForModifier = (''for iteration bindings are implicitly Local'',
     ''write for name: Type in iterable'')"

definition mStateClause :: "string \<times> string" where
  "mStateClause = (''expected condition in state body'',
     ''state bodies contain only condition clauses'')"

definition mAttempt :: "string \<times> string" where
  "mAttempt = (''attempt requires except or ultimately'',
     ''add an except clause, an ultimately clause, or both'')"

definition mToss :: "string \<times> string" where
  "mToss = (''toss requires an Error expression'',
     ''provide the Error value to toss'')"

definition mImportSeparator :: "string \<times> string" where
  "mImportSeparator = (''expected comma or newline between imported names'',
     ''separate same-line names with commas'')"

definition mRequireScope :: "string \<times> string" where
  "mRequireScope = (''require is allowed only at module root'',
     ''move require to module root, outside any function, condition, loop, or block'')"

definition mRequireLiteral :: "string \<times> string" where
  "mRequireLiteral = (''require path must be a plain string literal with no interpolation'',
     ''write the path as a plain quoted string, e.g. require('' @ [CHR 0x22] @ ''Pages/Home.ahd'' @ [CHR 0x22] @ '')'')"

definition mRequireString :: "string \<times> string" where
  "mRequireString = (''require expects a single string literal path'',
     ''write the path as a quoted string, e.g. require('' @ [CHR 0x22] @ ''Pages/Home.ahd'' @ [CHR 0x22] @ '')'')"

definition mRequireExtra :: "string \<times> string" where
  "mRequireExtra = (''require accepts exactly one string literal argument and nothing else'',
     ''remove the extra content inside require(...)'')"

definition xGroupClose :: string where "xGroupClose = ''expected ) to close the grouped expression''"
definition xLambdaArrow :: string where "xLambdaArrow = ''expected -> after lambda parameters''"
definition xCallOpen :: string where "xCallOpen = ''expected ( to start call arguments''"
definition xCallClose :: string where "xCallClose = ''expected ) to close the call argument list''"
definition xMemberName :: string where "xMemberName = ''expected member name after .''"
definition xSliceClose :: string where "xSliceClose = ''expected ] after slice''"
definition xIndexClose :: string where "xIndexClose = ''expected ] to close the index''"
definition xListClose :: string where "xListClose = ''expected ] to close the List literal''"
definition xPairColon :: string where "xPairColon = ''expected : between Pair key and value''"
definition xPairClose :: string where "xPairClose = ''expected } to close the Pair literal''"
definition xInterpolationClose :: string where "xInterpolationClose = ''expected } after interpolation expression''"
definition xStringEnd :: string where "xStringEnd = ''expected matching string delimiter''"
definition xDeclare :: string where "xDeclare = ''expected := in declaration''"
definition xTypeClose :: string where "xTypeClose = ''expected > after generic type arguments''"
definition xFunctionArrow :: string where "xFunctionArrow = ''expected -> after Function parameters''"
definition xClassOpen :: string where "xClassOpen = ''expected { after Class declaration''"
definition xClassClose :: string where "xClassClose = ''expected } after Class body''"
definition xParametersOpen :: string where "xParametersOpen = ''expected ( before parameters''"
definition xParameterName :: string where "xParameterName = ''expected parameter name''"
definition xParameterColon :: string where "xParameterColon = ''expected : after parameter name''"
definition xParametersClose :: string where "xParametersClose = ''expected ) to close the parameter list''"
definition xBlockOpen :: string where "xBlockOpen = ''expected { to start block''"
definition xBlockClose :: string where "xBlockClose = ''expected } after block''"
definition xForName :: string where "xForName = ''expected iteration variable after for''"
definition xForIn :: string where "xForIn = ''expected in after iteration variable''"
definition xStateOpen :: string where "xStateOpen = ''expected { after state expression''"
definition xStateClose :: string where "xStateClose = ''expected } after state body''"
definition xExceptName :: string where "xExceptName = ''expected exception binding name after as''"
definition xBringName :: string where "xBringName = ''expected module name after bring''"
definition xAliasName :: string where "xAliasName = ''expected alias name after as''"
definition xFrom :: string where "xFrom = ''expected from''"
definition xFromName :: string where "xFromName = ''expected module name after from''"
definition xFromBring :: string where "xFromBring = ''expected bring after module name''"
definition xImportName :: string where "xImportName = ''expected imported symbol name''"
definition xImportClose :: string where "xImportClose = ''expected ) after imported names''"
definition xImportAll :: string where "xImportAll = ''expected imported symbol name or all''"
definition xRequireOpen :: string where "xRequireOpen = ''expected ( after require''"
definition xRequireClose :: string where "xRequireClose = ''expected ) after require path''"

text \<open>Messages with a part filled in.\<close>

definition mOperand :: "string \<Rightarrow> string \<times> string" where
  "mOperand operator = (''missing right operand after '' @ [CHR 0x27] @ operator @ [CHR 0x27],
     ''write an expression after the operator'')"

definition mAssigned :: "string \<Rightarrow> string \<times> string" where
  "mAssigned operator = (''missing assigned expression after '' @ [CHR 0x27] @ operator @ [CHR 0x27],
     ''write the assigned expression after the operator on the same line'')"

definition mSameLine :: "string \<Rightarrow> string \<times> string" where
  "mSameLine symbol =
    (''expected the assigned expression to begin after '' @ [CHR 0x27] @ symbol @ [CHR 0x27]
       @ '' on the same line'',
     ''write the assigned expression on the same line as '' @ [CHR 0x27] @ symbol @ [CHR 0x27])"

definition mCaptureSeparator :: "string \<Rightarrow> string \<times> string" where
  "mCaptureSeparator label = (''expected comma or newline between '' @ label @ '' dependencies'',
     ''separate same-line dependencies with commas'')"

definition xCaptureClose :: "string \<Rightarrow> string" where
  "xCaptureClose label = ''expected ] to close the '' @ label @ '' dependency list''"

definition mCaptureKind :: "string \<Rightarrow> string \<times> string" where
  "mCaptureKind label = (label @ '' dependency must state whether it is Local or Global'',
     ''prefix the name with # for a Local capture or @ for a Global dependency, or write Local/Global out in full'')"

definition xBindingName :: "string \<Rightarrow> string" where
  "xBindingName prefix = ''expected a binding name after '' @ [CHR 0x27] @ prefix @ [CHR 0x27]"

end
