(* ===== verification/ParserBase.thy ===== *)
theory ParserBase
  imports Diagnostics Ast ParserMessages
begin

text \<open>
  The parser's state and its token cursor (\<open>internal/parser/parser.go\<close>): looking at tokens,
  advancing, reporting, skipping and synchronizing. The mutable \<open>*parser\<close> is the record
  \<open>parser\<close>, passed and returned.

  \<open>Parse\<close> makes sure that the token list is not empty and ends in an EOF token. \<open>advance\<close> does
  not move past the last token. A loop of the code that skips tokens of one kind stops at that
  EOF; the model's loops test \<open>movable\<close> (the cursor is not at the last token) as well, which on
  such token lists is no restriction (\<open>ready_movable\<close>).
\<close>

datatype scopeKind = scopeModule | scopeClass | scopeBlock

record parser =
  p_file :: File
  p_tokens :: "Token list"
  p_index :: nat
  p_bag :: Bag
  p_recoveredDot :: bool

subsection \<open>Cursor\<close>

definition current :: "parser \<Rightarrow> Token" where
  "current p = (if p_index p \<ge> length (p_tokens p) then last (p_tokens p)
                else p_tokens p ! p_index p)"

definition previous :: "parser \<Rightarrow> Token" where
  "previous p = (if p_index p = 0 then p_tokens p ! 0 else p_tokens p ! (p_index p - 1))"

definition peek :: "parser \<Rightarrow> nat \<Rightarrow> Token" where
  "peek p distance =
    (let index = p_index p + distance
     in if index \<ge> length (p_tokens p) then last (p_tokens p) else p_tokens p ! index)"

definition movable :: "parser \<Rightarrow> bool" where
  "movable p = (p_index p + 1 < length (p_tokens p))"

definition advance :: "parser \<Rightarrow> Token \<times> parser" where
  "advance p = (current p, if movable p then p\<lparr>p_index := p_index p + 1\<rparr> else p)"

definition currentKind :: "parser \<Rightarrow> Kind" where
  "currentKind p = KindOf (current p)"

definition atEOF :: "parser \<Rightarrow> bool" where
  "atEOF p = (currentKind p = EOF)"

definition check :: "Kind \<Rightarrow> parser \<Rightarrow> bool" where
  "check kind p = (currentKind p = kind)"

definition match :: "Kind list \<Rightarrow> parser \<Rightarrow> bool \<times> parser" where
  "match kinds p = (if currentKind p \<in> set kinds then (True, snd (advance p)) else (False, p))"

definition base :: "parser \<Rightarrow> Position \<Rightarrow> Position \<Rightarrow> Span" where
  "base p start end = NewSpan (ID (p_file p)) start end"

definition errorSpan :: "string \<Rightarrow> string \<times> string \<Rightarrow> Span \<Rightarrow> parser \<Rightarrow> parser" where
  "errorSpan code m span p = p\<lparr>p_bag := Bag_Error (p_bag p) code (fst m) span (snd m)\<rparr>"

definition errorCurrent :: "string \<Rightarrow> string \<times> string \<Rightarrow> parser \<Rightarrow> parser" where
  "errorCurrent code m p = errorSpan code m (TokenSpan (current p)) p"

definition syntheticToken :: "Kind \<Rightarrow> Span \<Rightarrow> Token" where
  "syntheticToken kind span = \<lparr>KindOf = kind, Lexeme = [], Value = [], TokenSpan = span,
     LeadingTrivia = [], Synthetic = True\<rparr>"

definition expect :: "Kind \<Rightarrow> string \<Rightarrow> parser \<Rightarrow> Token \<times> parser" where
  "expect kind message p =
    (if check kind p then advance p
     else
       (let p1 = errorCurrent codeExpectedToken (message, ''expected '' @ Kind_String kind) p;
            at = Start (TokenSpan (current p1))
        in (syntheticToken kind (base p1 at at), p1)))"

text \<open>Tokens from the cursor on: the measure of every loop of the parser.\<close>

definition tokensLeft :: "parser \<Rightarrow> nat" where
  "tokensLeft p = length (p_tokens p) - p_index p"

lemma tokensLeft_advance: "movable p \<Longrightarrow> tokensLeft (snd (advance p)) < tokensLeft p"
  by (auto simp: tokensLeft_def advance_def movable_def)

function skipNewlines :: "parser \<Rightarrow> parser" where
  "skipNewlines p = (if check Newline p \<and> movable p then skipNewlines (snd (advance p)) else p)"
  by pat_completeness auto
termination by (relation "measure tokensLeft") (auto simp: tokensLeft_advance)

text \<open>Recovery: skip until one of the given kinds, or the end of the file.\<close>

function skipUntil :: "Kind list \<Rightarrow> parser \<Rightarrow> parser" where
  "skipUntil kinds p =
    (if currentKind p \<notin> set kinds \<and> \<not> atEOF p \<and> movable p
     then skipUntil kinds (snd (advance p)) else p)"
  by pat_completeness auto
termination by (relation "measure (\<lambda>(kinds, p). tokensLeft p)") (auto simp: tokensLeft_advance)

declare skipNewlines.simps [simp del] skipUntil.simps [simp del]

text \<open>\<open>synchronize\<close> stops at the end, the terminator, a newline or a right brace.\<close>

definition synchronize :: "Kind \<Rightarrow> parser \<Rightarrow> parser" where
  "synchronize terminator p = skipUntil [terminator, Newline, RightBrace] p"

function nextNonNewlineIndex :: "parser \<Rightarrow> nat \<Rightarrow> nat" where
  "nextNonNewlineIndex p from =
    (if from < length (p_tokens p) \<and> KindOf (p_tokens p ! from) = Newline
     then nextNonNewlineIndex p (from + 1)
     else if from \<ge> length (p_tokens p) then length (p_tokens p) - 1 else from)"
  by pat_completeness auto
termination by (relation "measure (\<lambda>(p, from). length (p_tokens p) - from)") auto

declare nextNonNewlineIndex.simps [simp del]

definition requireSameLineRHS :: "Token \<Rightarrow> parser \<Rightarrow> bool \<times> parser" where
  "requireSameLineRHS operator p =
    (if \<not> check Newline p then (False, p)
     else
       (let symbol = Kind_String (KindOf operator)
        in (True, skipNewlines
              (errorSpan codeExpectedSameLineRHS (mSameLine symbol) (TokenSpan operator) p))))"

definition spanStart :: "Expr \<Rightarrow> Position" where
  "spanStart e = Start (exprSpan e)"

definition spanEnd :: "Expr \<Rightarrow> Position" where
  "spanEnd e = End (exprSpan e)"

definition positionSpan :: "FileID \<Rightarrow> Position \<Rightarrow> Span" where
  "positionSpan fileID position = NewSpan fileID position position"

definition expressionCanAssign :: "Expr \<Rightarrow> bool" where
  "expressionCanAssign e =
    (case e of IdentifierExpr _ _ _ \<Rightarrow> True | MemberExpr _ _ _ \<Rightarrow> True
     | IndexExpr _ _ _ \<Rightarrow> True | _ \<Rightarrow> False)"

subsection \<open>Delimited lists\<close>

definition consumeItemSeparator :: "Kind \<Rightarrow> parser \<Rightarrow> bool \<times> parser" where
  "consumeItemSeparator closing p =
    (let (comma, p1) = match [Comma] p in
     if comma then (True, skipNewlines p1)
     else if check Newline p1 then (True, skipNewlines p1)
     else (check closing p1, p1))"

definition closesOuterConstruct :: "Kind \<Rightarrow> parser \<Rightarrow> bool" where
  "closesOuterConstruct closing p =
    (if currentKind p \<in> {RightParen, RightBracket, RightBrace, InterpolationEnd}
     then currentKind p \<noteq> closing else False)"

definition atListTerminator :: "Kind \<Rightarrow> parser \<Rightarrow> bool" where
  "atListTerminator closing p = (check closing p \<or> atEOF p \<or> closesOuterConstruct closing p)"

definition finishListItem :: "nat \<Rightarrow> Kind \<Rightarrow> string \<times> string \<Rightarrow> parser \<Rightarrow> bool \<times> parser" where
  "finishListItem itemIndex closing m p =
    (let (separated, p1) = consumeItemSeparator closing p in
     if separated then (True, p1)
     else if check closing p1 \<or> atEOF p1 then (True, p1)
     else if closesOuterConstruct closing p1 then (False, p1)
     else
       (let p2 = errorCurrent codeExpectedSeparator m p1
        in (True, if p_index p2 = itemIndex \<and> \<not> atEOF p2 then snd (advance p2) else p2)))"

definition consumeClauseKeyword :: "Kind \<Rightarrow> parser \<Rightarrow> bool \<times> parser" where
  "consumeClauseKeyword kind p =
    (let saved = p_index p; (found, p1) = match [kind] (skipNewlines p)
     in if found then (True, p1) else (False, p1\<lparr>p_index := saved\<rparr>))"

subsection \<open>How the cursor moves\<close>

text \<open>The token lists \<open>Parse\<close> works on, and a cursor inside them.\<close>

definition ready :: "parser \<Rightarrow> bool" where
  "ready p \<longleftrightarrow> p_tokens p \<noteq> [] \<and> KindOf (last (p_tokens p)) = EOF \<and> p_index p < length (p_tokens p)"

text \<open>
  \<open>moves p p'\<close>: same file and tokens, the cursor did not go back, diagnostics were only added,
  all of them errors, and the flag \<open>recoveredDotContinuation\<close> was only set together with a diagnostic.
\<close>

definition moves :: "parser \<Rightarrow> parser \<Rightarrow> bool" where
  "moves p p' \<longleftrightarrow> p_file p' = p_file p \<and> p_tokens p' = p_tokens p \<and> p_index p \<le> p_index p'
     \<and> p_index p' < length (p_tokens p) \<and> extends (p_bag p) (p_bag p')
     \<and> (onlyErrors (p_bag p) \<longrightarrow> onlyErrors (p_bag p'))
     \<and> (p_recoveredDot p' \<longrightarrow> p_recoveredDot p \<or> p_bag p' \<noteq> [])"

lemma moves_refl: "ready p \<Longrightarrow> moves p p"
  by (simp add: moves_def ready_def)

lemma moves_trans [trans]: "moves p p' \<Longrightarrow> moves p' p'' \<Longrightarrow> moves p p''"
  by (auto simp: moves_def extends_Nil intro: extends_trans)

lemma moves_ready: "moves p p' \<Longrightarrow> ready p \<Longrightarrow> ready p'"
  by (auto simp: moves_def ready_def)

lemma moves_tokensLeft: "moves p p' \<Longrightarrow> tokensLeft p' \<le> tokensLeft p"
  by (auto simp: moves_def tokensLeft_def)

lemma moves_bag: "moves p p' \<Longrightarrow> extends (p_bag p) (p_bag p')"
  by (simp add: moves_def)

lemma ready_current: "ready p \<Longrightarrow> current p = p_tokens p ! p_index p"
  by (auto simp: ready_def current_def)

lemma ready_movable: "ready p \<Longrightarrow> \<not> atEOF p \<Longrightarrow> movable p"
proof -
  assume p: "ready p" "\<not> atEOF p"
  have "p_index p \<noteq> length (p_tokens p) - 1"
  proof
    assume "p_index p = length (p_tokens p) - 1"
    moreover have "p_tokens p \<noteq> []" using p(1) by (simp add: ready_def)
    ultimately have "current p = last (p_tokens p)"
      by (simp add: ready_current [OF p(1)] last_conv_nth)
    with p show False by (simp add: atEOF_def currentKind_def ready_def)
  qed
  with p(1) show "movable p" by (auto simp: movable_def ready_def)
qed

lemma check_movable: "ready p \<Longrightarrow> check k p \<Longrightarrow> k \<noteq> EOF \<Longrightarrow> movable p"
  using ready_movable by (auto simp: check_def atEOF_def)

lemma moves_advance: "ready p \<Longrightarrow> moves p (snd (advance p))"
  by (auto simp: moves_def advance_def movable_def ready_def)

lemma advance_progress: "movable p \<Longrightarrow> p_index p < p_index (snd (advance p))"
  by (simp add: advance_def)

lemma advance_fields [simp, parser_frame]:
  "p_file (snd (advance p)) = p_file p" "p_tokens (snd (advance p)) = p_tokens p"
  "p_bag (snd (advance p)) = p_bag p" "p_recoveredDot (snd (advance p)) = p_recoveredDot p"
  "fst (advance p) = current p"
  by (simp_all add: advance_def)

lemma errorSpan_fields [simp, parser_frame]:
  "p_file (errorSpan c m s p) = p_file p" "p_tokens (errorSpan c m s p) = p_tokens p"
  "p_index (errorSpan c m s p) = p_index p" "p_recoveredDot (errorSpan c m s p) = p_recoveredDot p"
  "p_bag (errorSpan c m s p) \<noteq> []"
  "extends (p_bag p) (p_bag (errorSpan c m s p))"
  "onlyErrors (p_bag (errorSpan c m s p)) = onlyErrors (p_bag p)"
  by (simp_all add: errorSpan_def)

lemma errorSpan_tests [simp, parser_frame]:
  "current (errorSpan c m s p) = current p" "currentKind (errorSpan c m s p) = currentKind p"
  "check k (errorSpan c m s p) = check k p" "atEOF (errorSpan c m s p) = atEOF p"
  "movable (errorSpan c m s p) = movable p" "ready (errorSpan c m s p) = ready p"
  by (simp_all add: current_def currentKind_def check_def atEOF_def movable_def ready_def)

lemma moves_errorSpan: "ready p \<Longrightarrow> moves p (errorSpan c m s p)"
  by (simp add: moves_def ready_def)

lemma errorCurrent_fields [simp, parser_frame]:
  "p_file (errorCurrent c m p) = p_file p" "p_tokens (errorCurrent c m p) = p_tokens p"
  "p_index (errorCurrent c m p) = p_index p"
  "p_recoveredDot (errorCurrent c m p) = p_recoveredDot p" "p_bag (errorCurrent c m p) \<noteq> []"
  "extends (p_bag p) (p_bag (errorCurrent c m p))"
  "onlyErrors (p_bag (errorCurrent c m p)) = onlyErrors (p_bag p)"
  "current (errorCurrent c m p) = current p" "currentKind (errorCurrent c m p) = currentKind p"
  "check k (errorCurrent c m p) = check k p" "atEOF (errorCurrent c m p) = atEOF p"
  "movable (errorCurrent c m p) = movable p" "ready (errorCurrent c m p) = ready p"
  by (simp_all add: errorCurrent_def)

lemma moves_errorCurrent: "ready p \<Longrightarrow> moves p (errorCurrent c m p)"
  by (simp add: errorCurrent_def moves_errorSpan)

lemma moves_match: "ready p \<Longrightarrow> moves p (snd (match ks p))"
  by (simp add: match_def moves_advance moves_refl)

lemma match_True: "fst (match ks p) \<Longrightarrow> snd (match ks p) = snd (advance p) \<and> currentKind p \<in> set ks"
  by (simp add: match_def split: if_splits)

lemma match_False: "\<not> fst (match ks p) \<Longrightarrow> snd (match ks p) = p"
  by (simp add: match_def split: if_splits)

lemma moves_expect: "ready p \<Longrightarrow> moves p (snd (expect k m p))"
  by (simp add: expect_def Let_def moves_advance moves_errorCurrent)

lemma moves_skipNewlines: "ready p \<Longrightarrow> moves p (skipNewlines p)"
proof (induction p rule: skipNewlines.induct)
  case (1 p)
  show ?case
  proof (cases "check Newline p \<and> movable p")
    case True
    have m: "moves p (snd (advance p))" using \<open>ready p\<close> by (rule moves_advance)
    also have "moves (snd (advance p)) (skipNewlines (snd (advance p)))"
      using "1.IH" [OF True] moves_ready [OF m \<open>ready p\<close>] .
    finally show ?thesis using True by (simp add: skipNewlines.simps [of p])
  next
    case False
    then show ?thesis using \<open>ready p\<close> by (subst skipNewlines.simps) (auto simp: moves_refl)
  qed
qed

lemma skipNewlines_stops: "ready p \<Longrightarrow> \<not> check Newline (skipNewlines p)"
proof (induction p rule: skipNewlines.induct)
  case (1 p)
  show ?case
  proof (cases "check Newline p \<and> movable p")
    case True
    have "ready (snd (advance p))" using moves_ready [OF moves_advance] \<open>ready p\<close> by blast
    with "1.IH" [OF True] True show ?thesis by (simp add: skipNewlines.simps [of p])
  next
    case False
    then have "\<not> check Newline p" using check_movable [OF \<open>ready p\<close>] by auto
    then show ?thesis by (simp add: skipNewlines.simps [of p])
  qed
qed

lemma skipNewlines_progress: "ready p \<Longrightarrow> check Newline p \<Longrightarrow> p_index p < p_index (skipNewlines p)"
proof -
  assume p: "ready p" "check Newline p"
  then have mv: "movable p" by (auto intro: check_movable)
  then have "p_index p < p_index (snd (advance p))" by (rule advance_progress)
  also have "\<dots> \<le> p_index (skipNewlines (snd (advance p)))"
    using moves_skipNewlines [OF moves_ready [OF moves_advance [OF p(1)] p(1)]] by (simp add: moves_def)
  also have "skipNewlines (snd (advance p)) = skipNewlines p"
    using p mv by (simp add: skipNewlines.simps [of p])
  finally show ?thesis .
qed

lemma skipNewlines_id: "\<not> check Newline p \<Longrightarrow> skipNewlines p = p"
  by (simp add: skipNewlines.simps [of p])

lemma moves_skipUntil: "ready p \<Longrightarrow> moves p (skipUntil ks p)"
proof (induction ks p rule: skipUntil.induct)
  case (1 ks p)
  show ?case
  proof (cases "currentKind p \<notin> set ks \<and> \<not> atEOF p \<and> movable p")
    case True
    have m: "moves p (snd (advance p))" using \<open>ready p\<close> by (rule moves_advance)
    also have "moves (snd (advance p)) (skipUntil ks (snd (advance p)))"
      using "1.IH" [OF True] moves_ready [OF m \<open>ready p\<close>] .
    finally show ?thesis using True by (simp add: skipUntil.simps [of ks p])
  next
    case False
    then show ?thesis using \<open>ready p\<close> by (subst skipUntil.simps) (auto simp: moves_refl)
  qed
qed

text \<open>Skipping ends at one of the kinds or at the end of the file.\<close>

lemma skipUntil_stops: "ready p \<Longrightarrow> currentKind (skipUntil ks p) \<in> set ks \<or> atEOF (skipUntil ks p)"
proof (induction ks p rule: skipUntil.induct)
  case (1 ks p)
  show ?case
  proof (cases "currentKind p \<notin> set ks \<and> \<not> atEOF p \<and> movable p")
    case True
    have "ready (snd (advance p))" using moves_ready [OF moves_advance] \<open>ready p\<close> by blast
    with "1.IH" [OF True] True show ?thesis by (simp add: skipUntil.simps [of ks p])
  next
    case False
    then have "currentKind p \<in> set ks \<or> atEOF p" using ready_movable [OF \<open>ready p\<close>] by blast
    then show ?thesis by (auto simp: skipUntil.simps [of ks p])
  qed
qed

lemma skipUntil_progress:
  assumes "ready p" "currentKind p \<notin> set ks" "\<not> atEOF p"
  shows "p_index p < p_index (skipUntil ks p)"
proof -
  have mv: "movable p" using assms ready_movable by blast
  then have "p_index p < p_index (snd (advance p))" by (rule advance_progress)
  also have "\<dots> \<le> p_index (skipUntil ks (snd (advance p)))"
    using moves_skipUntil [OF moves_ready [OF moves_advance [OF assms(1)] assms(1)]] by (simp add: moves_def)
  also have "skipUntil ks (snd (advance p)) = skipUntil ks p"
    using assms mv by (simp add: skipUntil.simps [of ks p])
  finally show ?thesis .
qed

end
