(* ===== verification/Grammar.thy ===== *)
theory Grammar
  imports ParserBase
begin

text \<open>
  What the language allows a syntax tree to look like, stated on the tree alone, independently
  of the parser: operator precedence and associativity, where declarations may stand, what may
  be assigned to, the order of parameters. \<open>exprNode b\<close> and \<open>stmtNode b\<close> are conditions on one
  node; the flag \<open>b\<close> says that no diagnostic was reported, and the rules that only hold then are
  guarded by it. \<open>allExpr\<close> and \<open>allStmt\<close> require a condition of every node of a tree.
\<close>

subsection \<open>Operators\<close>

definition operatorTable :: "(string \<times> nat) list" where
  "operatorTable =
     [(''or'', 10), (''and'', 20), (''=='', 40), (''!='', 40), (''same'', 40), (''in'', 40),
      (''is'', 40), (''is not'', 40), (''has'', 40), (''has not'', 40), (''not in'', 40),
      (''<'', 50), (''<='', 50), (''>'', 50), (''>='', 50), (''+'', 60), (''-'', 60),
      (''*'', 70), (''/'', 70), (''%'', 70), (''^'', 90)]"

definition infixOperators :: "string set" where
  "infixOperators = set (map fst operatorTable)"

definition bindingPower :: "string \<Rightarrow> nat" where
  "bindingPower operator = (case map_of operatorTable operator of Some n \<Rightarrow> n | None \<Rightarrow> 0)"

text \<open>Every infix operator is left associative, except \<open>^\<close>.\<close>

definition rightPower :: "string \<Rightarrow> nat" where
  "rightPower operator =
     (if operator = ''^'' then bindingPower operator - 1 else bindingPower operator + 1)"

definition unaryPower :: "string \<Rightarrow> nat" where
  "unaryPower operator = (if operator = ''not'' then 30 else 80)"

text \<open>An operand that is an operator application without parentheses around it.\<close>

definition leftOperandOk :: "string \<Rightarrow> Expr \<Rightarrow> bool" where
  "leftOperandOk operator e =
    (case e of BinaryExpr _ _ inner _ \<Rightarrow> bindingPower operator < rightPower inner
     | UnaryExpr _ inner _ \<Rightarrow> bindingPower operator < unaryPower inner
     | _ \<Rightarrow> True)"

definition rightOperandOk :: "nat \<Rightarrow> Expr \<Rightarrow> bool" where
  "rightOperandOk least e =
    (case e of BinaryExpr _ _ inner _ \<Rightarrow> least \<le> bindingPower inner | _ \<Rightarrow> True)"

subsection \<open>Parameters\<close>

primrec hasDefault :: "Parameter \<Rightarrow> bool" where
  "hasDefault (Parameter s n ms t d inherited) = (d \<noteq> None)"

primrec isInherited :: "Parameter \<Rightarrow> bool" where
  "isInherited (Parameter s n ms t d inherited) = inherited"

primrec hasType :: "Parameter \<Rightarrow> bool" where
  "hasType (Parameter s n ms t d inherited) = (t \<noteq> None)"

text \<open>Required parameters come before default parameters; \<open>SuperClass.attributes\<close> is allowed
  anywhere in a structure, and nowhere else.\<close>

definition parametersOk :: "bool \<Rightarrow> bool \<Rightarrow> Parameter list \<Rightarrow> bool" where
  "parametersOk b allowInherited ps \<longleftrightarrow>
     (b \<longrightarrow> sorted_wrt (\<lambda>p q. hasDefault p \<longrightarrow> isInherited q \<or> hasDefault q) ps)
     \<and> (\<forall>p \<in> set ps. (isInherited p \<longrightarrow> allowInherited) \<and> (isInherited p \<noteq> hasType p))"

subsection \<open>One node\<close>

definition exprNode :: "bool \<Rightarrow> Expr \<Rightarrow> bool" where
  "exprNode b e =
    (case e of
       BadExpr _ \<Rightarrow> \<not> b
     | BinaryExpr _ l operator r \<Rightarrow> operator \<in> infixOperators \<and> leftOperandOk operator l
         \<and> rightOperandOk (rightPower operator) r
     | UnaryExpr _ operator a \<Rightarrow> operator \<in> {''+'', ''-'', ''not''}
         \<and> rightOperandOk (unaryPower operator) a
     | LambdaExpr _ _ ps _ \<Rightarrow> parametersOk b False ps
     | _ \<Rightarrow> True)"

definition targetName :: "Expr \<Rightarrow> string" where
  "targetName e = (case e of IdentifierExpr _ n _ \<Rightarrow> n | _ \<Rightarrow> [])"

definition isIdentifierExpr :: "Expr \<Rightarrow> bool" where
  "isIdentifierExpr e = (case e of IdentifierExpr _ _ _ \<Rightarrow> True | _ \<Rightarrow> False)"

definition assignmentOperators :: "string set" where
  "assignmentOperators = {''='', ''+='', ''-='', ''*='', ''/='', ''%='', ''^=''}"

definition declarationOk :: "bool \<Rightarrow> Expr \<Rightarrow> string \<Rightarrow> Modifier list \<Rightarrow> bool \<Rightarrow> bool \<Rightarrow> bool \<Rightarrow> bool \<Rightarrow> bool" where
  "declarationOk b t n ms typed initialized globalOnly inferred \<longleftrightarrow>
     n = targetName t \<and> (b \<longrightarrow> expressionCanAssign t) \<and> inferred = (\<not> typed)
     \<and> initialized = (\<not> globalOnly) \<and> (globalOnly \<longrightarrow> ModifierGlobal \<in> set ms)
     \<and> (b \<and> inferred \<and> initialized \<longrightarrow> isIdentifierExpr t)"

definition conditionOk :: "StateCondition \<Rightarrow> bool" where
  "conditionOk c = (case c of StateCondition _ m isDefault _ \<Rightarrow> (m = None) = isDefault)"

definition stmtNode :: "bool \<Rightarrow> scopeKind \<Rightarrow> Stmt \<Rightarrow> bool" where
  "stmtNode b scope s =
    (case s of
       BadStmt _ \<Rightarrow> False
     | VariableDecl _ t n ms ty i g inferred \<Rightarrow>
         declarationOk b t n ms (ty \<noteq> None) (i \<noteq> None) g inferred
     | AssignmentStmt _ t operator _ \<Rightarrow>
         operator \<in> assignmentOperators \<and> (b \<longrightarrow> expressionCanAssign t)
     | IncDecStmt _ t operator _ \<Rightarrow> operator \<in> {''++'', ''--''} \<and> (b \<longrightarrow> expressionCanAssign t)
     | IfStmt _ branches _ \<Rightarrow> branches \<noteq> []
     | StateStmt _ _ conditions \<Rightarrow> list_all conditionOk conditions
     | AttemptStmt _ _ excepts ultimately \<Rightarrow> b \<longrightarrow> excepts \<noteq> [] \<or> ultimately \<noteq> None
     | RequireStmt _ _ _ literal \<Rightarrow> b \<longrightarrow> scope = scopeModule \<and> literal
     | FunctionDecl _ _ _ flavor ps _ _ _ \<Rightarrow>
         parametersOk b False ps \<and> (b \<and> flavor = FunctionOverride \<longrightarrow> scope = scopeClass)
     | ClassDecl _ _ _ _ _ _ \<Rightarrow> b \<longrightarrow> scope = scopeModule
     | StructureDecl _ ps _ \<Rightarrow> parametersOk b True ps \<and> (b \<longrightarrow> scope = scopeClass)
     | _ \<Rightarrow> True)"

subsection \<open>Every node\<close>

fun allExpr :: "(Expr \<Rightarrow> bool) \<Rightarrow> Expr \<Rightarrow> bool"
  and allParam :: "(Expr \<Rightarrow> bool) \<Rightarrow> Parameter \<Rightarrow> bool"
  and allArg :: "(Expr \<Rightarrow> bool) \<Rightarrow> CallArgument \<Rightarrow> bool"
  and allEntry :: "(Expr \<Rightarrow> bool) \<Rightarrow> PairEntry \<Rightarrow> bool"
  and allPart :: "(Expr \<Rightarrow> bool) \<Rightarrow> StringPart \<Rightarrow> bool"
where
  "allExpr P (BadExpr s) = P (BadExpr s)"
| "allExpr P (LiteralExpr s k raw v) = P (LiteralExpr s k raw v)"
| "allExpr P (IdentifierExpr s n raw) = P (IdentifierExpr s n raw)"
| "allExpr P (GroupExpr s e) = (P (GroupExpr s e) \<and> allExpr P e)"
| "allExpr P (LambdaExpr s cs ps e) =
     (P (LambdaExpr s cs ps e) \<and> list_all (allParam P) ps \<and> allExpr P e)"
| "allExpr P (UnaryExpr s oper e) = (P (UnaryExpr s oper e) \<and> allExpr P e)"
| "allExpr P (BinaryExpr s l oper r) = (P (BinaryExpr s l oper r) \<and> allExpr P l \<and> allExpr P r)"
| "allExpr P (CallExpr s e as) = (P (CallExpr s e as) \<and> allExpr P e \<and> list_all (allArg P) as)"
| "allExpr P (MemberExpr s e n) = (P (MemberExpr s e n) \<and> allExpr P e)"
| "allExpr P (IndexExpr s e i) = (P (IndexExpr s e i) \<and> allExpr P e \<and> allExpr P i)"
| "allExpr P (SliceExpr s e a b) =
     (P (SliceExpr s e a b) \<and> allExpr P e \<and> pred_option (allExpr P) a \<and> pred_option (allExpr P) b)"
| "allExpr P (ListExpr s es) = (P (ListExpr s es) \<and> list_all (allExpr P) es)"
| "allExpr P (PairExpr s ps) = (P (PairExpr s ps) \<and> list_all (allEntry P) ps)"
| "allExpr P (StringExpr s d ps) = (P (StringExpr s d ps) \<and> list_all (allPart P) ps)"
| "allParam P (Parameter s n ms t d inh) = pred_option (allExpr P) d"
| "allArg P (CallArgument s n e) = allExpr P e"
| "allEntry P (PairEntry s k v) = (allExpr P k \<and> allExpr P v)"
| "allPart P (StringPart s t e) = pred_option (allExpr P) e"

text \<open>Blocks are parsed in block scope, class members in class scope.\<close>

fun allStmt :: "(Expr \<Rightarrow> bool) \<Rightarrow> (scopeKind \<Rightarrow> Stmt \<Rightarrow> bool) \<Rightarrow> scopeKind \<Rightarrow> Stmt \<Rightarrow> bool"
  and allBlock :: "(Expr \<Rightarrow> bool) \<Rightarrow> (scopeKind \<Rightarrow> Stmt \<Rightarrow> bool) \<Rightarrow> Block \<Rightarrow> bool"
  and allBranch :: "(Expr \<Rightarrow> bool) \<Rightarrow> (scopeKind \<Rightarrow> Stmt \<Rightarrow> bool) \<Rightarrow> ConditionalBlock \<Rightarrow> bool"
  and allCondition :: "(Expr \<Rightarrow> bool) \<Rightarrow> (scopeKind \<Rightarrow> Stmt \<Rightarrow> bool) \<Rightarrow> StateCondition \<Rightarrow> bool"
  and allExcept :: "(Expr \<Rightarrow> bool) \<Rightarrow> (scopeKind \<Rightarrow> Stmt \<Rightarrow> bool) \<Rightarrow> ExceptClause \<Rightarrow> bool"
where
  "allStmt E S c (BadStmt s) = S c (BadStmt s)"
| "allStmt E S c (ExprStmt s e) = (S c (ExprStmt s e) \<and> allExpr E e)"
| "allStmt E S c (VariableDecl s t n ms ty i g infd) =
     (S c (VariableDecl s t n ms ty i g infd) \<and> allExpr E t \<and> pred_option (allExpr E) i)"
| "allStmt E S c (AssignmentStmt s t oper v) =
     (S c (AssignmentStmt s t oper v) \<and> allExpr E t \<and> allExpr E v)"
| "allStmt E S c (IncDecStmt s t oper pre) = (S c (IncDecStmt s t oper pre) \<and> allExpr E t)"
| "allStmt E S c (ReturnStmt s v) = (S c (ReturnStmt s v) \<and> pred_option (allExpr E) v)"
| "allStmt E S c (TossStmt s v) = (S c (TossStmt s v) \<and> allExpr E v)"
| "allStmt E S c (BreakStmt s) = S c (BreakStmt s)"
| "allStmt E S c (ContinueStmt s) = S c (ContinueStmt s)"
| "allStmt E S c (IfStmt s bs e) =
     (S c (IfStmt s bs e) \<and> list_all (allBranch E S) bs \<and> pred_option (allBlock E S) e)"
| "allStmt E S c (WhileStmt s cond b) = (S c (WhileStmt s cond b) \<and> allExpr E cond \<and> allBlock E S b)"
| "allStmt E S c (UntilStmt s cond b) = (S c (UntilStmt s cond b) \<and> allExpr E cond \<and> allBlock E S b)"
| "allStmt E S c (ForStmt s n t i b) = (S c (ForStmt s n t i b) \<and> allExpr E i \<and> allBlock E S b)"
| "allStmt E S c (StateStmt s v cs) =
     (S c (StateStmt s v cs) \<and> allExpr E v \<and> list_all (allCondition E S) cs)"
| "allStmt E S c (AttemptStmt s b es u) =
     (S c (AttemptStmt s b es u) \<and> allBlock E S b \<and> list_all (allExcept E S) es
      \<and> pred_option (allBlock E S) u)"
| "allStmt E S c (BringStmt s m a ns al names) = S c (BringStmt s m a ns al names)"
| "allStmt E S c (RequireStmt s p ps lit) = S c (RequireStmt s p ps lit)"
| "allStmt E S c (FunctionDecl s n ms f ps r cs b) =
     (S c (FunctionDecl s n ms f ps r cs b) \<and> list_all (allParam E) ps \<and> allBlock E S b)"
| "allStmt E S c (ClassDecl s n ms p ex members) =
     (S c (ClassDecl s n ms p ex members) \<and> list_all (allStmt E S scopeClass) members)"
| "allStmt E S c (StructureDecl s ps b) =
     (S c (StructureDecl s ps b) \<and> list_all (allParam E) ps \<and> pred_option (allBlock E S) b)"
| "allBlock E S (Block s ss) = list_all (allStmt E S scopeBlock) ss"
| "allBranch E S (ConditionalBlock s c b) = (allExpr E c \<and> allBlock E S b)"
| "allCondition E S (StateCondition s m d b) = (pred_option (allExpr E) m \<and> allBlock E S b)"
| "allExcept E S (ExceptClause s t n b) = allBlock E S b"

lemma allExpr_root: "allExpr P e \<Longrightarrow> P e"
  by (cases e) auto

lemma allExpr_mono:
  assumes "\<And>e. P e \<Longrightarrow> Q e"
  shows "allExpr P e \<Longrightarrow> allExpr Q e" "allParam P p \<Longrightarrow> allParam Q p"
    "allArg P a \<Longrightarrow> allArg Q a" "allEntry P n \<Longrightarrow> allEntry Q n" "allPart P s \<Longrightarrow> allPart Q s"
  by (induction e and p and a and n and s)
    (auto simp: list_all_iff option.pred_set dest: assms)

lemma allStmt_mono:
  assumes "\<And>e. P e \<Longrightarrow> Q e" "\<And>c s. S c s \<Longrightarrow> T c s"
  shows "allStmt P S c s \<Longrightarrow> allStmt Q T c s" "allBlock P S b \<Longrightarrow> allBlock Q T b"
    "allBranch P S br \<Longrightarrow> allBranch Q T br" "allCondition P S cd \<Longrightarrow> allCondition Q T cd"
    "allExcept P S ex \<Longrightarrow> allExcept Q T ex"
proof -
  have e: "allExpr Q e" if "allExpr P e" for e
    using allExpr_mono(1) [of P Q] assms(1) that by blast
  have p: "allParam Q p" if "allParam P p" for p
    using allExpr_mono(2) [of P Q] assms(1) that by blast
  show "allStmt P S c s \<Longrightarrow> allStmt Q T c s" "allBlock P S b \<Longrightarrow> allBlock Q T b"
    "allBranch P S br \<Longrightarrow> allBranch Q T br" "allCondition P S cd \<Longrightarrow> allCondition Q T cd"
    "allExcept P S ex \<Longrightarrow> allExcept Q T ex"
    by (induction s and b and br and cd and ex arbitrary: c)
      (auto simp: list_all_iff option.pred_set dest: assms(2) e p)
qed

end
