(* ===== verification/Parser.thy ===== *)
theory Parser
  imports Grammar
begin

text \<open>
  The recursive descent parser (\<open>internal/parser/{expression,declaration,control,parser}.go\<close>).

  The Go functions call each other recursively. Here each one is a definition of its own that
  takes its recursive calls as an argument: \<open>procs\<close> holds the three functions through which
  every recursion passes (\<open>parseExpression\<close>, \<open>parseStatement\<close> and \<open>parseTypeRef\<close>), and
  \<open>procs_at n\<close> ties the knot \<open>n\<close> calls deep. A result is \<open>None\<close> when that depth is exceeded,
  when a loop uses up its budget, or where the Go code panics; that none of these happens is
  proved in \<open>ParserProofs\<close>.
\<close>

record procs =
  rExpression :: "nat \<Rightarrow> parser \<Rightarrow> (Expr \<times> parser) option"
  rStatement :: "scopeKind \<Rightarrow> parser \<Rightarrow> (Stmt \<times> parser) option"
  rTypeRef :: "parser \<Rightarrow> (TypeRef \<times> parser) option"

text \<open>\<open>advance\<close> where the token is not used, and several times.\<close>

abbreviation step :: "parser \<Rightarrow> parser" where
  "step p \<equiv> snd (advance p)"

definition steps :: "nat \<Rightarrow> parser \<Rightarrow> parser" where
  "steps n p = (step ^^ n) p"

abbreviation badAt :: "Span \<Rightarrow> Expr" where
  "badAt span \<equiv> BadExpr span"

abbreviation curSpan :: "parser \<Rightarrow> Span" where
  "curSpan p \<equiv> TokenSpan (current p)"

abbreviation curStart :: "parser \<Rightarrow> Position" where
  "curStart p \<equiv> Start (TokenSpan (current p))"

abbreviation prevEnd :: "parser \<Rightarrow> Position" where
  "prevEnd p \<equiv> End (TokenSpan (previous p))"

text \<open>The right-hand side after an operator that must be followed by one on the same line.\<close>

definition parseRequiredExpression ::
  "procs \<Rightarrow> nat \<Rightarrow> string \<times> string \<Rightarrow> parser \<Rightarrow> (Expr \<times> parser) option" where
  "parseRequiredExpression R minBindingPower m p =
    (if atEOF p \<or> check RightParen p \<or> check RightBracket p \<or> check RightBrace p
        \<or> check InterpolationEnd p
     then Some (BadExpr (TokenSpan (current p)), errorCurrent codeUnexpectedToken m p)
     else rExpression R minBindingPower p)"

definition assignedExpression ::
  "procs \<Rightarrow> bool \<Rightarrow> string \<times> string \<Rightarrow> parser \<Rightarrow> (Expr \<times> parser) option" where
  "assignedExpression R lineBroken m p =
    (if lineBroken \<and> atEOF p then Some (BadExpr (curSpan p), p)
     else parseRequiredExpression R 0 m p)"

subsection \<open>The loop of a delimited list\<close>

text \<open>
  \<open>for !p.atListTerminator(closing) { before := p.index; item; if !p.finishListItem(...) { break } }\<close>
  with what the item adds to the list kept in \<open>acc\<close>.
\<close>

primrec listLoop :: "Kind \<Rightarrow> string \<times> string \<Rightarrow> ('a \<Rightarrow> parser \<Rightarrow> ('a \<times> parser) option) \<Rightarrow>
  nat \<Rightarrow> 'a \<Rightarrow> parser \<Rightarrow> ('a \<times> parser) option" where
  "listLoop closing m item 0 acc p = None"
| "listLoop closing m item (Suc k) acc p =
    (if atListTerminator closing p then Some (acc, p)
     else do {
       (acc1, p1) \<leftarrow> item acc p;
       let (more, p2) = finishListItem (p_index p) closing m p1;
       if more then listLoop closing m item k acc1 p2 else Some (acc1, p2)
     })"

text \<open>A budget that is enough for such a loop started at \<open>p\<close>.\<close>

abbreviation enough :: "parser \<Rightarrow> nat" where
  "enough p \<equiv> Suc (Suc (tokensLeft p))"

subsection \<open>Type references\<close>

definition syntacticTypeName :: "Token \<Rightarrow> string option" where
  "syntacticTypeName item =
    (if KindOf item = Identifier then Some (Value item)
     else if KindOf item \<in> {KeywordInt, KeywordReal, KeywordComplex, KeywordString, KeywordBool,
         KeywordNothing, KeywordList, KeywordPair, KeywordFunction, KeywordClass,
         KeywordAttributes, KeywordObject, KeywordError}
     then Some (Kind_String (KindOf item))
     else None)"

definition consumeNullableSuffix :: "TypeRef \<Rightarrow> parser \<Rightarrow> TypeRef \<times> parser" where
  "consumeNullableSuffix typeRef p =
    (if \<not> check Question p then (typeRef, p)
     else
       (let (closing, p1) = advance p
        in (TypeRef (NewSpan (ID (p_file p)) (Start (typeRefSpan typeRef)) (End (TokenSpan closing)))
              (typeRefName typeRef) (typeRefArguments typeRef) (explicitEmpty typeRef) True, p1)))"

primrec typeArguments :: "procs \<Rightarrow> nat \<Rightarrow> TypeRef list \<Rightarrow> parser \<Rightarrow> (TypeRef list \<times> parser) option" where
  "typeArguments R 0 args p = None"
| "typeArguments R (Suc k) args p =
    (if check Greater p \<or> atEOF p then Some (args, p)
     else do {
       (arg, p1) \<leftarrow> rTypeRef R p;
       let args1 = args @ [arg];
       let (comma, p2) = match [Comma] p1;
       if comma then typeArguments R k args1 (skipNewlines p2)
       else if check Newline p2 then typeArguments R k args1 (skipNewlines p2)
       else if \<not> check Greater p2
       then typeArguments R k args1 (errorCurrent codeExpectedSeparator mTypeSeparator p2)
       else typeArguments R k args1 p2
     })"

definition parseTypeRef :: "procs \<Rightarrow> parser \<Rightarrow> (TypeRef \<times> parser) option" where
  "parseTypeRef R p =
    (let startToken = current p in
     case syntacticTypeName startToken of
       None \<Rightarrow>
         (let p1 = errorCurrent codeInvalidTypeSyntax mTypeName p;
              p2 = (if \<not> atEOF p1 then step p1 else p1)
          in Some (TypeRef (TokenSpan startToken) (Value startToken) [] False False, p2))
     | Some name \<Rightarrow>
         (let p1 = step p; (less, p2) = match [Less] p1 in
          if \<not> less
          then Some (consumeNullableSuffix (TypeRef (TokenSpan startToken) name [] False False) p2)
          else do {
            let p3 = skipNewlines p2;
            (args, p4) \<leftarrow> typeArguments R (enough p3) [] p3;
            let (closing, p5) = expect Greater xTypeClose p4;
            Some (consumeNullableSuffix
              (TypeRef (NewSpan (ID (p_file p)) (Start (TokenSpan startToken)) (End (TokenSpan closing)))
                 name args (check Greater p3) False) p5)
          }))"

subsection \<open>Statement lists and blocks\<close>

definition invalidateTruncatedReceiver :: "Stmt list \<Rightarrow> Stmt list" where
  "invalidateTruncatedReceiver statements =
    (if statements = [] then statements
     else case last statements of
       VariableDecl s t n ms ty (Some i) g inferred \<Rightarrow>
         butlast statements @ [VariableDecl s t n ms ty (Some (BadExpr (exprSpan i))) g inferred]
     | AssignmentStmt s t operator v \<Rightarrow>
         butlast statements @ [AssignmentStmt s t operator (BadExpr (exprSpan v))]
     | _ \<Rightarrow> statements)"

primrec statementLoop ::
  "procs \<Rightarrow> scopeKind \<Rightarrow> Kind \<Rightarrow> nat \<Rightarrow> Stmt list \<Rightarrow> parser \<Rightarrow> (Stmt list \<times> parser) option" where
  "statementLoop R scope terminator 0 statements p = None"
| "statementLoop R scope terminator (Suc k) statements p =
    (if check terminator p \<or> atEOF p then Some (statements, p)
     else do {
       (statement, p1) \<leftarrow> rStatement R scope (p\<lparr>p_recoveredDot := False\<rparr>);
       let statements1 =
         (if p_recoveredDot p1 then invalidateTruncatedReceiver statements else statements)
           @ [statement];
       let p2 = (if p_index p1 = p_index p then step p1 else p1);
       if check Newline p2 then statementLoop R scope terminator k statements1 (skipNewlines p2)
       else if check terminator p2 \<or> atEOF p2 then Some (statements1, p2)
       else statementLoop R scope terminator k statements1
         (skipNewlines (synchronize terminator (errorCurrent codeExpectedSeparator mSeparator p2)))
     })"

definition parseStatementList ::
  "procs \<Rightarrow> scopeKind \<Rightarrow> Kind \<Rightarrow> parser \<Rightarrow> (Stmt list \<times> parser) option" where
  "parseStatementList R scope terminator p =
    (let p1 = skipNewlines p in statementLoop R scope terminator (enough p1) [] p1)"

definition parseBlock :: "procs \<Rightarrow> parser \<Rightarrow> (Block \<times> parser) option" where
  "parseBlock R p = do {
    let (opening', p1) = expect LeftBrace xBlockOpen p;
    let p2 = skipNewlines p1;
    (statements, p3) \<leftarrow> parseStatementList R scopeBlock RightBrace p2;
    let (closing, p4) = expect RightBrace xBlockClose p3;
    Some (Block (base p (Start (TokenSpan opening')) (End (TokenSpan closing))) statements, p4)
  }"

subsection \<open>Modifiers, captures and parameters\<close>

definition isDeclarationModifier :: "Kind \<Rightarrow> bool" where
  "isDeclarationModifier kind =
     (kind \<in> {KeywordLocal, KeywordGlobal, KeywordConstant, KeywordConfidential})"

definition hasModifier :: "Modifier list \<Rightarrow> Modifier \<Rightarrow> bool" where
  "hasModifier modifiers wanted = (wanted \<in> set modifiers)"

definition modifierOf :: "Kind \<Rightarrow> Modifier option" where
  "modifierOf kind =
    (if kind = KeywordLocal then Some ModifierLocal
     else if kind = KeywordGlobal then Some ModifierGlobal
     else if kind = KeywordConstant then Some ModifierConstant
     else if kind = KeywordConfidential then Some ModifierConfidential
     else None)"

definition flavorOf :: "Kind \<Rightarrow> FunctionFlavor option" where
  "flavorOf kind =
    (if kind = KeywordOverload then Some FunctionOverload
     else if kind = KeywordOverride then Some FunctionOverride
     else None)"

function modifierLoop ::
  "Modifier list \<Rightarrow> FunctionFlavor \<Rightarrow> parser \<Rightarrow> (Modifier list \<times> FunctionFlavor) \<times> parser" where
  "modifierLoop modifiers flavor p =
    (if movable p \<and> modifierOf (currentKind p) \<noteq> None
     then modifierLoop (modifiers @ [the (modifierOf (currentKind p))]) flavor (step p)
     else if movable p \<and> flavorOf (currentKind p) \<noteq> None
     then modifierLoop modifiers (the (flavorOf (currentKind p))) (step p)
     else ((modifiers, flavor), p))"
  by pat_completeness auto
termination
  by (relation "measure (\<lambda>(ms, fl, p). tokensLeft p)") (auto simp: tokensLeft_advance)

declare modifierLoop.simps [simp del]

definition parseDeclarationModifiers ::
  "parser \<Rightarrow> (Modifier list \<times> FunctionFlavor) \<times> parser" where
  "parseDeclarationModifiers p = modifierLoop [] FunctionBase p"

text \<open>The sigil or keyword of a dependency: its kind and how the message spells it.\<close>

definition captureKindOf :: "Kind \<Rightarrow> (CaptureKind \<times> string) option" where
  "captureKindOf kind =
    (if kind = Hash then Some (LocalCapture, ''#'')
     else if kind = At then Some (GlobalCapture, ''@'')
     else if kind = KeywordLocal then Some (LocalCapture, ''Local'')
     else if kind = KeywordGlobal then Some (GlobalCapture, ''Global'')
     else None)"

definition parseCaptureDependency :: "string \<Rightarrow> parser \<Rightarrow> CaptureRef option \<times> parser" where
  "parseCaptureDependency label p =
    (let start = curStart p in
     case captureKindOf (currentKind p) of
       None \<Rightarrow>
         (let code = (if label \<noteq> ''lambda'' then codeInvalidDeclarationScope
                      else codeInvalidLambdaSyntax)
          in (None, skipUntil [RightBracket] (errorCurrent code (mCaptureKind label) p)))
     | Some (kind, prefix) \<Rightarrow>
         (let p1 = step p; (name, p2) = expect Identifier (xBindingName prefix) p1 in
          if Synthetic name then (None, skipUntil [RightBracket] p2)
          else (Some \<lparr>CaptureSpan = base p start (End (TokenSpan name)),
                  CaptureKindOf = kind, CaptureName = Value name\<rparr>, p2)))"

text \<open>The captures so far, and whether a malformed entry ended the list.\<close>

primrec captureLoop ::
  "string \<Rightarrow> nat \<Rightarrow> CaptureRef list \<Rightarrow> parser \<Rightarrow> ((CaptureRef list \<times> bool) \<times> parser) option" where
  "captureLoop label 0 captures p = None"
| "captureLoop label (Suc k) captures p =
    (if atListTerminator RightBracket p then Some ((captures, False), p)
     else
       (let (result, p1) = parseCaptureDependency label p in
        case result of
          None \<Rightarrow> Some ((captures, True), p1)
        | Some c \<Rightarrow>
            (let (more, p2) =
               finishListItem (p_index p) RightBracket (mCaptureSeparator label) p1
             in if more then captureLoop label k (captures @ [c]) p2
                else Some ((captures @ [c], False), p2))))"

definition parseCaptureListFor ::
  "string \<Rightarrow> parser \<Rightarrow> ((CaptureRef list \<times> bool) \<times> parser) option" where
  "parseCaptureListFor label p =
    (if \<not> check LeftBracket p then Some (([], False), p)
     else do {
       let p1 = skipNewlines (step p);
       (result, p2) \<leftarrow> captureLoop label (enough p1) [] p1;
       let (closing, p3) = expect RightBracket (xCaptureClose label) (skipNewlines p2);
       Some (result, p3)
     })"

text \<open>\<open>SuperClass.attributes\<close>, the inherited attributes of a structure.\<close>

definition atInheritedAttributes :: "bool \<Rightarrow> parser \<Rightarrow> bool" where
  "atInheritedAttributes allowInherited p =
    (allowInherited \<and> check Identifier p \<and> Value (current p) = ''SuperClass''
     \<and> KindOf (peek p 1) = Dot \<and> KindOf (peek p 2) = Identifier
     \<and> Value (peek p 2) = ''attributes'')"

text \<open>One parameter. The accumulator also holds \<open>seenDefault\<close>.\<close>

definition parameterItem ::
  "procs \<Rightarrow> bool \<Rightarrow> Parameter list \<times> bool \<Rightarrow> parser \<Rightarrow> ((Parameter list \<times> bool) \<times> parser) option" where
  "parameterItem R allowInherited acc p =
    (let (parameters, seenDefault) = acc; start = curStart p in
     if atInheritedAttributes allowInherited p
     then
       (let p2 = steps 2 p; (last', p3) = advance p2
        in Some ((parameters @ [Parameter (base p start (End (TokenSpan last'))) [] [] None None True],
                  seenDefault), p3))
     else do {
       let (name, p1) = expect Identifier xParameterName p;
       let (colon, p2) = expect Colon xParameterColon p1;
       let ((modifiers, flavor), p3) = parseDeclarationModifiers p2;
       let p4 = (if flavor \<noteq> FunctionBase
                 then errorCurrent codeInvalidTypeSyntax mParameterFlavor p3 else p3);
       (typeRef, p5) \<leftarrow> rTypeRef R p4;
       if check Declare p5
       then do {
         let (declareToken, p6) = advance p5;
         let (lineBroken, p7) = requireSameLineRHS declareToken p6;
         (value', p8) \<leftarrow> assignedExpression R lineBroken mDefaultExpression p7;
         Some ((parameters @ [Parameter (base p start (spanEnd value')) (Value name) modifiers
                  (Some typeRef) (Some value') False], True), p8)
       }
       else
         (let p6 = (if seenDefault
                    then errorSpan codeInvalidTypeSyntax mDefaultOrder (TokenSpan name) p5 else p5)
          in Some ((parameters @ [Parameter (base p start (End (typeRefSpan typeRef))) (Value name)
                      modifiers (Some typeRef) None False], seenDefault), p6))
     })"

definition parseParameterList :: "procs \<Rightarrow> bool \<Rightarrow> parser \<Rightarrow> (Parameter list \<times> parser) option" where
  "parseParameterList R allowInherited p = do {
    let (opening', p1) = expect LeftParen xParametersOpen p;
    let p2 = skipNewlines p1;
    ((parameters, seenDefault), p3) \<leftarrow>
      listLoop RightParen mParameterSeparator (parameterItem R allowInherited) (enough p2) ([], False) p2;
    let (closing, p4) = expect RightParen xParametersClose p3;
    Some (parameters, p4)
  }"

subsection \<open>Expressions\<close>

definition bpNot :: nat where "bpNot = 30"
definition bpUnary :: nat where "bpUnary = 80"

text \<open>Operator text, left and right binding power, and how many tokens it has (0: none).\<close>

definition infixOperator :: "parser \<Rightarrow> string \<times> nat \<times> nat \<times> nat" where
  "infixOperator p =
    (let kind = currentKind p; next = KindOf (peek p 1) in
     if kind = Caret then (''^'', 90, 90 - 1, 1)
     else if kind \<in> {Star, Slash, Percent} then (Kind_String kind, 70, 70 + 1, 1)
     else if kind \<in> {Plus, Minus} then (Kind_String kind, 60, 60 + 1, 1)
     else if kind \<in> {Less, LessEqual, Greater, GreaterEqual} then (Kind_String kind, 50, 50 + 1, 1)
     else if kind \<in> {Equal, NotEqual, KeywordSame, KeywordIn} then (Kind_String kind, 40, 40 + 1, 1)
     else if kind = KeywordIs
     then (if next = KeywordNot then (''is not'', 40, 40 + 1, 2) else (''is'', 40, 40 + 1, 1))
     else if kind = KeywordHas
     then (if next = KeywordNot then (''has not'', 40, 40 + 1, 2) else (''has'', 40, 40 + 1, 1))
     else if kind = KeywordNot \<and> next = KeywordIn then (''not in'', 40, 40 + 1, 2)
     else if kind = KeywordAnd then (''and'', 20, 20 + 1, 1)
     else if kind = KeywordOr then (''or'', 10, 10 + 1, 1)
     else ([], 0, 0, 0))"

definition parseLambda :: "procs \<Rightarrow> parser \<Rightarrow> (Expr \<times> parser) option" where
  "parseLambda R p = do {
    let start = curStart p;
    ((captures, malformed), p2) \<leftarrow> parseCaptureListFor ''lambda'' (step p);
    (parameters, p3) \<leftarrow> parseParameterList R False p2;
    let (arrow, p4) = expect Arrow xLambdaArrow (skipNewlines p3);
    let p5 = skipNewlines p4;
    if check LeftBrace p5
    then do {
      (block, p6) \<leftarrow> parseBlock R (errorCurrent codeInvalidLambdaSyntax mLambdaBlock p5);
      Some (BadExpr (base p start (End (blockSpan block))), p6)
    }
    else do {
      (body, p6) \<leftarrow> parseRequiredExpression R 0 mLambdaBody p5;
      if malformed then Some (BadExpr (base p start (spanEnd body)), p6)
      else Some (LambdaExpr (base p start (spanEnd body)) captures parameters body, p6)
    }
  }"

text \<open>The parts of a string up to its end.\<close>

primrec stringPartLoop :: "procs \<Rightarrow> nat \<Rightarrow> StringPart list \<Rightarrow> parser \<Rightarrow> (StringPart list \<times> parser) option" where
  "stringPartLoop R 0 parts p = None"
| "stringPartLoop R (Suc k) parts p =
    (if check StringEnd p \<or> atEOF p then Some (parts, p)
     else if check StringText p
     then
       (let (text', p1) = advance p
        in stringPartLoop R k (parts @ [StringPart (TokenSpan text') (Value text') None]) p1)
     else if check InterpolationStart p
     then do {
       let start = curStart p;
       let p1 = skipNewlines (step p);
       (expression, p2) \<leftarrow>
         (if check InterpolationEnd p1
          then Some (BadExpr (curSpan p1), errorCurrent codeUnexpectedToken mEmptyInterpolationExpr p1)
          else rExpression R 0 p1);
       let (closing, p3) = expect InterpolationEnd xInterpolationClose (skipNewlines p2);
       stringPartLoop R k
         (parts @ [StringPart (base p start (End (TokenSpan closing))) [] (Some expression)]) p3
     }
     else stringPartLoop R k parts (step (errorCurrent codeUnexpectedToken mStringToken p)))"

definition parseString :: "procs \<Rightarrow> parser \<Rightarrow> (Expr \<times> parser) option" where
  "parseString R p = do {
    let (opening', p1) = advance p;
    (parts, p2) \<leftarrow> stringPartLoop R (enough p1) [] p1;
    let (closing, p3) = expect StringEnd xStringEnd p2;
    Some (StringExpr (base p (Start (TokenSpan opening')) (End (TokenSpan closing)))
      (Lexeme opening') parts, p3)
  }"

definition listItem :: "procs \<Rightarrow> Expr list \<Rightarrow> parser \<Rightarrow> (Expr list \<times> parser) option" where
  "listItem R elements p = do {
    (element, p1) \<leftarrow> rExpression R 0 p;
    Some (elements @ [element], p1)
  }"

definition parseList :: "procs \<Rightarrow> parser \<Rightarrow> (Expr \<times> parser) option" where
  "parseList R p = do {
    let start = curStart p;
    let p1 = skipNewlines (step p);
    (elements, p2) \<leftarrow> listLoop RightBracket mListSeparator (listItem R) (enough p1) [] p1;
    let (closing, p3) = expect RightBracket xListClose p2;
    Some (ListExpr (base p start (End (TokenSpan closing))) elements, p3)
  }"

definition pairItem :: "procs \<Rightarrow> PairEntry list \<Rightarrow> parser \<Rightarrow> (PairEntry list \<times> parser) option" where
  "pairItem R entries p = do {
    let entryStart = curStart p;
    (key, p1) \<leftarrow> rExpression R 0 p;
    let (colon, p2) = expect Colon xPairColon p1;
    (value', p3) \<leftarrow> rExpression R 0 (skipNewlines p2);
    Some (entries @ [PairEntry (base p entryStart (spanEnd value')) key value'], p3)
  }"

definition parsePair :: "procs \<Rightarrow> parser \<Rightarrow> (Expr \<times> parser) option" where
  "parsePair R p = do {
    let start = curStart p;
    let p1 = skipNewlines (step p);
    (entries, p2) \<leftarrow> listLoop RightBrace mPairSeparator (pairItem R) (enough p1) [] p1;
    let (closing, p3) = expect RightBrace xPairClose p2;
    Some (PairExpr (base p start (End (TokenSpan closing))) entries, p3)
  }"

definition parseGroup :: "procs \<Rightarrow> parser \<Rightarrow> (Expr \<times> parser) option" where
  "parseGroup R p = do {
    let start = curStart p;
    let p1 = skipNewlines (step p);
    if atEOF p1
    then
      (let p2 = errorCurrent codeExpectedToken mGroupEnd p1
       in Some (GroupExpr (base p start (End (curSpan p2))) (BadExpr (curSpan p2)), p2))
    else do {
      (expression, p2) \<leftarrow> rExpression R 0 p1;
      let (closing, p3) = expect RightParen xGroupClose (skipNewlines p2);
      Some (GroupExpr (base p start (End (TokenSpan closing))) expression, p3)
    }
  }"

definition parseUnary :: "procs \<Rightarrow> nat \<Rightarrow> parser \<Rightarrow> (Expr \<times> parser) option" where
  "parseUnary R minBindingPower p = do {
    let (start, p1) = advance p;
    (operand, p2) \<leftarrow> rExpression R minBindingPower (skipNewlines p1);
    Some (UnaryExpr (base p (Start (TokenSpan start)) (spanEnd operand))
      (Kind_String (KindOf start)) operand, p2)
  }"

text \<open>The code slices the \<open>i\<close> off an imaginary literal: an empty value would panic.\<close>

definition parsePrefix :: "procs \<Rightarrow> parser \<Rightarrow> (Expr \<times> parser) option" where
  "parsePrefix R p =
    (let item = current p; kind = KindOf item; span = TokenSpan item in
     if kind = IntLiteral
     then Some (LiteralExpr span IntLit (Lexeme item) (Value item), step p)
     else if kind = RealLiteral
     then Some (LiteralExpr span RealLit (Lexeme item) (Value item), step p)
     else if kind = ImaginaryLiteral
     then (if Value item = [] then None
           else Some (LiteralExpr span ImaginaryLit (Lexeme item) (butlast (Value item)), step p))
     else if kind \<in> {KeywordTrue, KeywordFalse}
     then Some (LiteralExpr span BoolLit (Lexeme item) (Value item), step p)
     else if kind = KeywordNull
     then Some (LiteralExpr span NullLit (Lexeme item) ''null'', step p)
     else if kind = KeywordLambda then parseLambda R p
     else if kind = Identifier
     then Some (IdentifierExpr span (Value item) (Lexeme item), step p)
     else if kind \<in> {KeywordObject, KeywordError}
     then Some (IdentifierExpr span (Kind_String kind) (Lexeme item), step p)
     else if kind = StringStart then parseString R p
     else if kind = LeftParen then parseGroup R p
     else if kind = LeftBracket then parseList R p
     else if kind = LeftBrace then parsePair R p
     else if kind \<in> {Plus, Minus} then parseUnary R bpUnary p
     else if kind = KeywordNot then parseUnary R bpNot p
     else
       (let p1 = errorCurrent codeUnexpectedToken mExpectedExpression p;
            p2 = (if \<not> atEOF p1 \<and> \<not> check RightBrace p1 \<and> \<not> check RightParen p1
                     \<and> \<not> check RightBracket p1 \<and> \<not> check InterpolationEnd p1
                  then step p1 else p1)
        in Some (BadExpr span, p2)))"

text \<open>The style of a call's arguments: not known yet, positional or named.\<close>

definition argumentItem ::
  "procs \<Rightarrow> CallArgument list \<times> bool option \<Rightarrow> parser
     \<Rightarrow> ((CallArgument list \<times> bool option) \<times> parser) option" where
  "argumentItem R acc p = do {
    let (arguments, argumentStyle) = acc;
    let argumentStart = curStart p;
    let named = (check Identifier p \<and> KindOf (peek p 1) = Colon);
    let name = (if named then Value (current p) else []);
    let p1 = (if named then steps 2 p else p);
    let (style, p2) =
      (case argumentStyle of
         None \<Rightarrow> (named, p1)
       | Some s \<Rightarrow> (s, if named \<noteq> s
                       then errorCurrent codeMixedCallArguments mMixedArguments p1 else p1));
    (value', p3) \<leftarrow> rExpression R 0 (skipNewlines p2);
    Some ((arguments @ [CallArgument (base p argumentStart (spanEnd value')) name value'],
      Some style), p3)
  }"

definition parseCall :: "procs \<Rightarrow> Expr \<Rightarrow> parser \<Rightarrow> (Expr \<times> parser) option" where
  "parseCall R callee p = do {
    let start = spanStart callee;
    let (opening', p1) = expect LeftParen xCallOpen p;
    let p2 = skipNewlines p1;
    ((arguments, style), p3) \<leftarrow>
      listLoop RightParen mCallSeparator (argumentItem R) (enough p2) ([], None) p2;
    let (closing, p4) = expect RightParen xCallClose p3;
    Some (CallExpr (base p start (End (TokenSpan closing))) callee arguments, p4)
  }"

definition parseMember :: "Expr \<Rightarrow> parser \<Rightarrow> Expr \<times> parser" where
  "parseMember object p =
    (let p1 = step p in
     if check KeywordHas p1
     then
       (let (name, p2) = advance p1
        in (MemberExpr (base p (spanStart object) (End (TokenSpan name))) object ''has'', p2))
     else
       (let (name, p2) = expect Identifier xMemberName p1
        in (MemberExpr (base p (spanStart object) (End (TokenSpan name))) object (Value name), p2)))"

definition optionalExpression :: "procs \<Rightarrow> bool \<Rightarrow> parser \<Rightarrow> (Expr option \<times> parser) option" where
  "optionalExpression R present p =
    (if present
     then do { (e, p1) \<leftarrow> rExpression R 0 p; Some (Some e, skipNewlines p1) }
     else Some (None, p))"

definition parseIndexOrSlice :: "procs \<Rightarrow> Expr \<Rightarrow> parser \<Rightarrow> (Expr \<times> parser) option" where
  "parseIndexOrSlice R object p = do {
    let p1 = skipNewlines (step p);
    if atEOF p1
    then
      (let p2 = errorCurrent codeExpectedToken mIndexEnd p1
       in Some (IndexExpr (base p (spanStart object) (End (curSpan p2))) object
                  (BadExpr (curSpan p2)), p2))
    else do {
      (first, p2) \<leftarrow> optionalExpression R (\<not> check Colon p1 \<and> \<not> check RightBracket p1) p1;
      let (colon, p3) = match [Colon] p2;
      if colon
      then do {
        let p4 = skipNewlines p3;
        (end', p5) \<leftarrow> optionalExpression R (\<not> check RightBracket p4) p4;
        let (closing, p6) = expect RightBracket xSliceClose p5;
        Some (SliceExpr (base p (spanStart object) (End (TokenSpan closing))) object first end', p6)
      }
      else
        (let (closing, p4) = expect RightBracket xIndexClose p3;
             span = base p (spanStart object) (End (TokenSpan closing))
         in case first of
              None \<Rightarrow> Some (IndexExpr span object (BadExpr (TokenSpan closing)),
                        errorSpan codeUnexpectedToken mEmptyIndex (TokenSpan closing) p4)
            | Some index \<Rightarrow> Some (IndexExpr span object index, p4))
    }
  }"

primrec expressionLoop :: "procs \<Rightarrow> nat \<Rightarrow> nat \<Rightarrow> Expr \<Rightarrow> parser \<Rightarrow> (Expr \<times> parser) option" where
  "expressionLoop R minBindingPower 0 left p = None"
| "expressionLoop R minBindingPower (Suc k) left p =
    (if check Newline p then Some (left, p)
     else if check LeftParen p
     then (if 100 < minBindingPower then Some (left, p)
           else do { (left1, p1) \<leftarrow> parseCall R left p; expressionLoop R minBindingPower k left1 p1 })
     else if check Dot p
     then (if 100 < minBindingPower then Some (left, p)
           else (let (left1, p1) = parseMember left p in expressionLoop R minBindingPower k left1 p1))
     else if check LeftBracket p
     then (if 100 < minBindingPower then Some (left, p)
           else do {
             (left1, p1) \<leftarrow> parseIndexOrSlice R left p;
             expressionLoop R minBindingPower k left1 p1
           })
     else
       (let (operator, leftBP, rightBP, width) = infixOperator p in
        if width = 0 \<or> leftBP < minBindingPower then Some (left, p)
        else do {
          let p1 = skipNewlines (steps width p);
          (right, p2) \<leftarrow> parseRequiredExpression R rightBP (mOperand operator) p1;
          expressionLoop R minBindingPower k
            (BinaryExpr (base p (spanStart left) (spanEnd right)) left operator right) p2
        }))"

definition parseExpression :: "procs \<Rightarrow> nat \<Rightarrow> parser \<Rightarrow> (Expr \<times> parser) option" where
  "parseExpression R minBindingPower p = do {
    (left, p1) \<leftarrow> parsePrefix R p;
    expressionLoop R minBindingPower (enough p1) left p1
  }"

end
