(* ===== verification/ParserStatements.thy ===== *)
theory ParserStatements
  imports Parser
begin

text \<open>
  The parser's statements (\<open>internal/parser/{declaration,control,parser}.go\<close>), the knot that
  ties its mutual recursion, and \<open>Parse\<close>.
\<close>

subsection \<open>Declarations\<close>

definition isAssignmentOperator :: "Kind \<Rightarrow> bool" where
  "isAssignmentOperator kind =
     (kind \<in> {Assign, PlusAssign, MinusAssign, StarAssign, SlashAssign, PercentAssign, CaretAssign})"

text \<open>Parentheses up to the one that closes the first, and an arrow behind it.\<close>

function signatureFrom :: "parser \<Rightarrow> nat \<Rightarrow> nat \<Rightarrow> bool" where
  "signatureFrom p depth index =
    (if index \<ge> length (p_tokens p) then False
     else
       (let kind = KindOf (p_tokens p ! index) in
        if kind = LeftParen then signatureFrom p (depth + 1) (index + 1)
        else if kind = RightParen
        then (if depth = 1 then KindOf (p_tokens p ! nextNonNewlineIndex p (index + 1)) = Arrow
              else signatureFrom p (depth - 1) (index + 1))
        else if kind = EOF then False
        else signatureFrom p depth (index + 1)))"
  by pat_completeness auto
termination by (relation "measure (\<lambda>(p, depth, index). length (p_tokens p) - index)") auto

declare signatureFrom.simps [simp del]

definition looksLikeFunctionSignature :: "parser \<Rightarrow> bool" where
  "looksLikeFunctionSignature p = (check LeftParen p \<and> signatureFrom p 0 (p_index p))"

definition parseInferredDeclaration ::
  "procs \<Rightarrow> Position \<Rightarrow> Expr \<Rightarrow> Modifier list \<Rightarrow> parser \<Rightarrow> (Stmt \<times> parser) option" where
  "parseInferredDeclaration R start target modifiers p = do {
    let ok = isIdentifierExpr target;
    let p1 = (if \<not> ok then errorSpan codeInvalidInferredTarget mInferredTarget (exprSpan target) p
              else p);
    let (declareToken, p2) = expect Declare xDeclare p1;
    let (lineBroken, p3) = requireSameLineRHS declareToken p2;
    (initializer, p4) \<leftarrow> assignedExpression R lineBroken mInitializer p3;
    Some (VariableDecl (base p start (spanEnd initializer)) target (targetName target) modifiers
      None (Some initializer) False True, p4)
  }"

definition parsePrefixUpdate :: "procs \<Rightarrow> parser \<Rightarrow> (Stmt \<times> parser) option" where
  "parsePrefixUpdate R p = do {
    let (operator, p1) = advance p;
    (target, p2) \<leftarrow> rExpression R 100 (skipNewlines p1);
    let p3 = (if \<not> expressionCanAssign target
              then errorSpan codeInvalidStandaloneUpdate mUpdateTarget (exprSpan target) p2 else p2);
    Some (IncDecStmt (base p (Start (TokenSpan operator)) (spanEnd target)) target
      (Kind_String (KindOf operator)) True, p3)
  }"

definition parseFunctionDecl ::
  "procs \<Rightarrow> Position \<Rightarrow> string \<Rightarrow> Modifier list \<Rightarrow> FunctionFlavor \<Rightarrow> scopeKind \<Rightarrow> parser
     \<Rightarrow> (Stmt \<times> parser) option" where
  "parseFunctionDecl R start name modifiers flavor scope p = do {
    let p1 = (if flavor = FunctionOverride \<and> scope \<noteq> scopeClass
              then errorSpan codeInvalidDeclarationScope mOverrideScope
                     (positionSpan (ID (p_file p)) start) p
              else p);
    (parameters, p2) \<leftarrow> parseParameterList R False p1;
    let (arrow, p3) = expect Arrow xFunctionArrow (skipNewlines p2);
    (returnType, p4) \<leftarrow> rTypeRef R (skipNewlines p3);
    let (uses', p5) = match [KeywordUses] (skipNewlines p4);
    ((captures, malformed), p6) \<leftarrow>
      (if uses'
       then do {
         (result, q) \<leftarrow> parseCaptureListFor ''Function'' (skipNewlines p5);
         Some (result, skipNewlines q)
       }
       else Some (([], False), p5));
    (body, p7) \<leftarrow> parseBlock R p6;
    Some (FunctionDecl (base p start (End (blockSpan body))) name modifiers flavor parameters
      returnType captures body, p7)
  }"

definition parseClassDecl ::
  "procs \<Rightarrow> Position \<Rightarrow> string \<Rightarrow> Modifier list \<Rightarrow> TypeRef \<Rightarrow> scopeKind \<Rightarrow> parser
     \<Rightarrow> (Stmt \<times> parser) option" where
  "parseClassDecl R start name modifiers typeRef scope p = do {
    let p1 = (if scope \<noteq> scopeModule
              then errorSpan codeInvalidDeclarationScope mClassScope
                     (positionSpan (ID (p_file p)) start) p
              else p);
    let (opening', p2) = expect LeftBrace xClassOpen p1;
    (members, p3) \<leftarrow> parseStatementList R scopeClass RightBrace (skipNewlines p2);
    let (closing, p4) = expect RightBrace xClassClose p3;
    let args = typeRefArguments typeRef;
    let p5 = (if length args > 1
              then errorSpan codeInvalidTypeSyntax mClassParent (typeRefSpan typeRef) p4 else p4);
    Some (ClassDecl (base p start (End (TokenSpan closing))) name modifiers
      (if args \<noteq> [] then Some (hd args) else None) (explicitEmpty typeRef) members, p5)
  }"

definition parseStructureDecl ::
  "procs \<Rightarrow> Position \<Rightarrow> scopeKind \<Rightarrow> parser \<Rightarrow> (Stmt \<times> parser) option" where
  "parseStructureDecl R start scope p = do {
    let p1 = (if scope \<noteq> scopeClass
              then errorSpan codeInvalidDeclarationScope mStructureScope
                     (positionSpan (ID (p_file p)) start) p
              else p);
    (parameters, p2) \<leftarrow> parseParameterList R True p1;
    if check LeftBrace p2
    then do {
      (body, p3) \<leftarrow> parseBlock R p2;
      Some (StructureDecl (base p start (End (blockSpan body))) parameters (Some body), p3)
    }
    else Some (StructureDecl (base p start (prevEnd p2)) parameters None, p2)
  }"

text \<open>What follows a \<open>:=\<close> in a declaration with a type.\<close>

definition declaredValue ::
  "procs \<Rightarrow> Position \<Rightarrow> Expr \<Rightarrow> Modifier list \<Rightarrow> FunctionFlavor \<Rightarrow> TypeRef \<Rightarrow> scopeKind \<Rightarrow> bool
     \<Rightarrow> parser \<Rightarrow> (Stmt \<times> parser) option" where
  "declaredValue R start target modifiers flavor typeRef scope lineBroken p =
    (let name = targetName target in
     if name = ''structure'' \<and> typeRefName typeRef = ''Attributes'' \<and> check LeftParen p
     then parseStructureDecl R start scope p
     else if typeRefName typeRef = ''Function''
         \<and> (flavor \<noteq> FunctionBase \<or> looksLikeFunctionSignature p)
     then parseFunctionDecl R start name modifiers flavor scope p
     else if typeRefName typeRef = ''Class'' \<and> check LeftBrace p
     then parseClassDecl R start name modifiers typeRef scope p
     else do {
       (initializer, p1) \<leftarrow> assignedExpression R lineBroken mInitializer p;
       Some (VariableDecl (base p start (spanEnd initializer)) target name modifiers
         (Some typeRef) (Some initializer) False False, p1)
     })"

definition typedDeclaration ::
  "procs \<Rightarrow> Position \<Rightarrow> Expr \<Rightarrow> Modifier list \<Rightarrow> FunctionFlavor \<Rightarrow> scopeKind \<Rightarrow> parser
     \<Rightarrow> (Stmt \<times> parser) option" where
  "typedDeclaration R start target modifiers flavor scope p = do {
    (typeRef, p1) \<leftarrow> rTypeRef R p;
    let p2 = (if flavor \<noteq> FunctionBase \<and> typeRefName typeRef \<noteq> ''Function''
              then errorSpan codeInvalidTypeSyntax mFlavor (typeRefSpan typeRef) p1 else p1);
    if hasModifier modifiers ModifierGlobal \<and> \<not> check Declare p2
    then Some (VariableDecl (base p start (End (typeRefSpan typeRef))) target (targetName target)
           modifiers (Some typeRef) None True False, p2)
    else do {
      let (declareToken, p3) = expect Declare xDeclare p2;
      let (lineBroken, p4) = requireSameLineRHS declareToken p3;
      declaredValue R start target modifiers flavor typeRef scope lineBroken p4
    }
  }"

definition parseDeclaration ::
  "procs \<Rightarrow> Position \<Rightarrow> Expr \<Rightarrow> scopeKind \<Rightarrow> parser \<Rightarrow> (Stmt \<times> parser) option" where
  "parseDeclaration R start target scope p =
    (let name = targetName target;
         p1 = (if \<not> isIdentifierExpr target \<and> \<not> expressionCanAssign target
               then errorSpan codeInvalidAssignmentTarget mDeclarationTarget (exprSpan target) p
               else p);
         ((modifiers, flavor), p2) = parseDeclarationModifiers p1
     in if syntacticTypeName (current p2) = None \<and> check Declare p2
        then parseInferredDeclaration R start target modifiers p2
        else if syntacticTypeName (current p2) = None \<and> hasModifier modifiers ModifierGlobal
        then Some (VariableDecl (base p start (prevEnd p2)) target name modifiers None None True True,
               p2)
        else typedDeclaration R start target modifiers flavor scope p2)"

definition parseAssignment ::
  "procs \<Rightarrow> Position \<Rightarrow> Expr \<Rightarrow> parser \<Rightarrow> (Stmt \<times> parser) option" where
  "parseAssignment R start target p = do {
    let (operator, p1) = advance p;
    let p2 = (if \<not> expressionCanAssign target
              then errorSpan codeInvalidAssignmentTarget mNotAssignable (exprSpan target) p1 else p1);
    let (lineBroken, p3) = requireSameLineRHS operator p2;
    (value', p4) \<leftarrow>
      assignedExpression R lineBroken (mAssigned (Kind_String (KindOf operator))) p3;
    Some (AssignmentStmt (base p start (spanEnd value')) target (Kind_String (KindOf operator)) value',
      p4)
  }"

definition parseSimpleStatement :: "procs \<Rightarrow> scopeKind \<Rightarrow> parser \<Rightarrow> (Stmt \<times> parser) option" where
  "parseSimpleStatement R scope p = do {
    let start = curStart p;
    (expression, p1) \<leftarrow> parseExpression R 0 p;
    let (colon, p2) = match [Colon] p1;
    if colon then parseDeclaration R start expression scope p2
    else if check Declare p2 then parseInferredDeclaration R start expression [] p2
    else if isAssignmentOperator (currentKind p2) then parseAssignment R start expression p2
    else do {
      let (update, p3) = match [Increment, Decrement] p2;
      if update
      then do {
        let operator = previous p3;
        let p4 = (if \<not> expressionCanAssign expression
                  then errorSpan codeInvalidStandaloneUpdate mUpdateTarget (exprSpan expression) p3
                  else p3);
        Some (IncDecStmt (base p start (End (TokenSpan operator))) expression
          (Kind_String (KindOf operator)) False, p4)
      }
      else Some (ExprStmt (base p start (spanEnd expression)) expression, p3)
    }
  }"

subsection \<open>Control statements\<close>

text \<open>\<open>if\<close>, \<open>while\<close> and \<open>until\<close> have a condition and a block.\<close>

definition conditionAndBlock :: "procs \<Rightarrow> parser \<Rightarrow> ((Expr \<times> Block) \<times> parser) option" where
  "conditionAndBlock R p = do {
    (condition, p1) \<leftarrow> rExpression R 0 p;
    (body, p2) \<leftarrow> parseBlock R p1;
    Some ((condition, body), p2)
  }"

definition branchOf :: "parser \<Rightarrow> Expr \<Rightarrow> Block \<Rightarrow> ConditionalBlock" where
  "branchOf p condition body =
     ConditionalBlock (base p (Start (exprSpan condition)) (End (blockSpan body))) condition body"

text \<open>The \<open>else if\<close> branches, and the \<open>else\<close> block if there is one, with the end of the last.\<close>

primrec elseLoop ::
  "procs \<Rightarrow> nat \<Rightarrow> ConditionalBlock list \<Rightarrow> Position \<Rightarrow> parser
     \<Rightarrow> ((ConditionalBlock list \<times> Block option \<times> Position) \<times> parser) option" where
  "elseLoop R 0 branches end' p = None"
| "elseLoop R (Suc k) branches end' p =
    (let (found, p1) = consumeClauseKeyword KeywordElse p in
     if \<not> found then Some ((branches, None, end'), p1)
     else
       (let (elseIf, p2) = match [KeywordIf] p1 in
        if elseIf
        then do {
          ((condition, body), p3) \<leftarrow> conditionAndBlock R p2;
          elseLoop R k (branches @ [branchOf p condition body]) (End (blockSpan body)) p3
        }
        else do {
          (body, p3) \<leftarrow> parseBlock R p2;
          Some ((branches, Some body, End (blockSpan body)), p3)
        }))"

definition parseIf :: "procs \<Rightarrow> parser \<Rightarrow> (Stmt \<times> parser) option" where
  "parseIf R p = do {
    let start = curStart p;
    ((condition, body), p1) \<leftarrow> conditionAndBlock R (step p);
    ((branches, elseBody, end'), p2) \<leftarrow>
      elseLoop R (enough p1) [branchOf p condition body] (End (blockSpan body)) p1;
    Some (IfStmt (base p start end') branches elseBody, p2)
  }"

definition parseWhile :: "procs \<Rightarrow> parser \<Rightarrow> (Stmt \<times> parser) option" where
  "parseWhile R p = do {
    let start = curStart p;
    ((condition, body), p1) \<leftarrow> conditionAndBlock R (step p);
    Some (WhileStmt (base p start (End (blockSpan body))) condition body, p1)
  }"

definition parseUntil :: "procs \<Rightarrow> parser \<Rightarrow> (Stmt \<times> parser) option" where
  "parseUntil R p = do {
    let start = curStart p;
    ((condition, body), p1) \<leftarrow> conditionAndBlock R (step p);
    Some (UntilStmt (base p start (End (blockSpan body))) condition body, p1)
  }"

function skipModifiers :: "parser \<Rightarrow> parser" where
  "skipModifiers p =
    (if isDeclarationModifier (currentKind p) \<and> movable p then skipModifiers (step p) else p)"
  by pat_completeness auto
termination by (relation "measure tokensLeft") (auto simp: tokensLeft_advance)

declare skipModifiers.simps [simp del]

definition parseFor :: "procs \<Rightarrow> parser \<Rightarrow> (Stmt \<times> parser) option" where
  "parseFor R p = do {
    let start = curStart p;
    let (name, p1) = expect Identifier xForName (step p);
    let (colon, p2) = match [Colon] p1;
    (typeRef, p3) \<leftarrow>
      (if colon
       then do {
         let q = (if isDeclarationModifier (currentKind p2)
                  then skipModifiers (errorCurrent codeInvalidControlSyntax mForModifier p2) else p2);
         (t, q1) \<leftarrow> rTypeRef R q;
         Some (Some t, q1)
       }
       else Some (None, p2));
    let (in', p4) = expect KeywordIn xForIn p3;
    (iterable, p5) \<leftarrow> rExpression R 0 p4;
    (body, p6) \<leftarrow> parseBlock R p5;
    Some (ForStmt (base p start (End (blockSpan body))) (Value name) typeRef iterable body, p6)
  }"

primrec conditionLoop ::
  "procs \<Rightarrow> nat \<Rightarrow> StateCondition list \<Rightarrow> parser \<Rightarrow> (StateCondition list \<times> parser) option" where
  "conditionLoop R 0 conditions p = None"
| "conditionLoop R (Suc k) conditions p =
    (if check RightBrace p \<or> atEOF p then Some (conditions, p)
     else
       (let clauseStart = curStart p; (found, p1) = match [KeywordCondition] p in
        if \<not> found
        then conditionLoop R k conditions
               (skipNewlines (synchronize RightBrace
                  (errorCurrent codeInvalidControlSyntax mStateClause p1)))
        else do {
          let (isDefault, p2) = match [KeywordDefault] p1;
          (match', p3) \<leftarrow>
            (if \<not> isDefault
             then do { (e, q) \<leftarrow> rExpression R 0 p2; Some (Some e, q) }
             else Some (None, p2));
          (body, p4) \<leftarrow> parseBlock R p3;
          conditionLoop R k
            (conditions @ [StateCondition (base p clauseStart (End (blockSpan body))) match' isDefault body])
            (skipNewlines p4)
        }))"

definition parseState :: "procs \<Rightarrow> parser \<Rightarrow> (Stmt \<times> parser) option" where
  "parseState R p = do {
    let start = curStart p;
    (value', p1) \<leftarrow> rExpression R 0 (step p);
    let (opening', p2) = expect LeftBrace xStateOpen p1;
    let p3 = skipNewlines p2;
    (conditions, p4) \<leftarrow> conditionLoop R (enough p3) [] p3;
    let (closing, p5) = expect RightBrace xStateClose p4;
    Some (StateStmt (base p start (End (TokenSpan closing))) value' conditions, p5)
  }"

primrec exceptLoop ::
  "procs \<Rightarrow> nat \<Rightarrow> ExceptClause list \<Rightarrow> Position \<Rightarrow> parser
     \<Rightarrow> ((ExceptClause list \<times> Position) \<times> parser) option" where
  "exceptLoop R 0 excepts end' p = None"
| "exceptLoop R (Suc k) excepts end' p =
    (let (found, p1) = consumeClauseKeyword KeywordExcept p in
     if \<not> found then Some ((excepts, end'), p1)
     else do {
       let clauseStart = Start (TokenSpan (previous p1));
       (typeRef, p2) \<leftarrow> rTypeRef R p1;
       let (as', p3) = match [KeywordAs] p2;
       let (name, p4) =
         (if as' then (let (t, q) = expect Identifier xExceptName p3 in (Value t, q)) else ([], p3));
       (clauseBody, p5) \<leftarrow> parseBlock R p4;
       exceptLoop R k
         (excepts @ [ExceptClause (base p clauseStart (End (blockSpan clauseBody))) typeRef name clauseBody])
         (End (blockSpan clauseBody)) p5
     })"

definition parseAttempt :: "procs \<Rightarrow> parser \<Rightarrow> (Stmt \<times> parser) option" where
  "parseAttempt R p = do {
    let start = curStart p;
    (body, p1) \<leftarrow> parseBlock R (step p);
    ((excepts, end'), p2) \<leftarrow> exceptLoop R (enough p1) [] (End (blockSpan body)) p1;
    let (found, p3) = consumeClauseKeyword KeywordUltimately p2;
    (ultimately', p4) \<leftarrow>
      (if found then do { (b, q) \<leftarrow> parseBlock R p3; Some (Some b, q) } else Some (None, p3));
    let p5 = (if excepts = [] \<and> ultimately' = None
              then errorSpan codeInvalidControlSyntax mAttempt (blockSpan body) p4 else p4);
    let end'' = (case ultimately' of Some b \<Rightarrow> End (blockSpan b) | None \<Rightarrow> end');
    Some (AttemptStmt (base p start end'') body excepts ultimately', p5)
  }"

definition parseReturn :: "procs \<Rightarrow> parser \<Rightarrow> (Stmt \<times> parser) option" where
  "parseReturn R p = do {
    let (keyword, p1) = advance p;
    if check Newline p1 \<or> check RightBrace p1 \<or> atEOF p1
    then Some (ReturnStmt (TokenSpan keyword) None, p1)
    else do {
      (value', p2) \<leftarrow> rExpression R 0 p1;
      Some (ReturnStmt (base p (Start (TokenSpan keyword)) (End (exprSpan value'))) (Some value'), p2)
    }
  }"

definition parseToss :: "procs \<Rightarrow> parser \<Rightarrow> (Stmt \<times> parser) option" where
  "parseToss R p = do {
    let start = curStart p;
    let p1 = step p;
    if check Newline p1 \<or> check RightBrace p1 \<or> atEOF p1
    then
      (let p2 = errorCurrent codeInvalidControlSyntax mToss p1;
           bad = BadExpr (curSpan p2)
       in Some (TossStmt (base p start (End (exprSpan bad))) bad, p2))
    else do {
      (value', p2) \<leftarrow> rExpression R 0 p1;
      Some (TossStmt (base p start (End (exprSpan value'))) value', p2)
    }
  }"

text \<open>The names of \<open>from M bring (...)\<close>.\<close>

definition importItem :: "string list \<Rightarrow> parser \<Rightarrow> (string list \<times> parser) option" where
  "importItem names p =
    (let (name, p1) = expect Identifier xImportName p
     in Some (if Value name \<noteq> [] then names @ [Value name] else names, p1))"

definition parseBring :: "parser \<Rightarrow> (Stmt \<times> parser) option" where
  "parseBring p =
    (let start = curStart p; (bring, p1) = match [KeywordBring] p in
     if bring
     then
       (let (module', p2) = expect Identifier xBringName p1;
            (as', p3) = match [KeywordAs] p2;
            (alias, p4) =
              (if as' then (let (t, q) = expect Identifier xAliasName p3 in (Some t, q)) else (None, p3));
            aliasName = (case alias of Some t \<Rightarrow> Value t | None \<Rightarrow> []);
            end' = (case alias of
                      Some t \<Rightarrow> if Value t \<noteq> [] then End (TokenSpan t) else End (TokenSpan module')
                    | None \<Rightarrow> End (TokenSpan module'))
        in Some (BringStmt (base p start end') (Value module') aliasName True False [], p4))
     else
       (let (from', p2) = expect KeywordFrom xFrom p1;
            (module', p3) = expect Identifier xFromName p2;
            (bring', p4) = expect KeywordBring xFromBring p3;
            (all', p5) = match [KeywordAll] p4
        in if all'
           then Some (BringStmt (base p start (prevEnd p5)) (Value module') [] False True [], p5)
           else
             (let (open', p6) = match [LeftParen] p5 in
              if open'
              then do {
                let p7 = skipNewlines p6;
                (names, p8) \<leftarrow> listLoop RightParen mImportSeparator importItem (enough p7) [] p7;
                let (closing, p9) = expect RightParen xImportClose p8;
                Some (BringStmt (base p start (End (TokenSpan closing))) (Value module') []
                  False False names, p9)
              }
              else
                (let (name, p7) = expect Identifier xImportAll p6
                 in Some (BringStmt (base p start (End (TokenSpan name))) (Value module') [] False False
                      (if Value name \<noteq> [] then [Value name] else []), p7)))))"

definition literalStringText :: "Expr \<Rightarrow> string option" where
  "literalStringText e =
    (case e of
       StringExpr _ _ parts \<Rightarrow>
         if list_all (\<lambda>part. case part of StringPart _ _ x \<Rightarrow> x = None) parts
         then Some (concat (map (\<lambda>part. case part of StringPart _ t _ \<Rightarrow> t) parts)) else None
     | _ \<Rightarrow> None)"

definition zeroPosition :: Position where
  "zeroPosition = \<lparr>Offset = 0, Line = 0, Column = 0\<rparr>"

definition zeroSpan :: Span where
  "zeroSpan = NewSpan 0 zeroPosition zeroPosition"

text \<open>Path, span of the path, and whether it is a literal; what Go leaves unset is zero.\<close>

definition requirePath :: "procs \<Rightarrow> parser \<Rightarrow> ((string \<times> Span \<times> bool) \<times> parser) option" where
  "requirePath R p =
    (if check StringStart p
     then do {
       (value', p1) \<leftarrow> parseString R p;
       case literalStringText value' of
         Some path \<Rightarrow> Some ((path, exprSpan value', True), p1)
       | None \<Rightarrow> Some (([], zeroSpan, False),
                   errorSpan codeInvalidRequireArgument mRequireLiteral (exprSpan value') p1)
     }
     else Some (([], zeroSpan, False), errorCurrent codeInvalidRequireArgument mRequireString p))"

definition parseRequire :: "procs \<Rightarrow> scopeKind \<Rightarrow> parser \<Rightarrow> (Stmt \<times> parser) option" where
  "parseRequire R scope p = do {
    let start = curStart p;
    let (keyword, p1) = advance p;
    let p2 = (if scope \<noteq> scopeModule
              then errorSpan codeInvalidDeclarationScope mRequireScope (TokenSpan keyword) p1 else p1);
    let (open', p3) = expect LeftParen xRequireOpen p2;
    ((path, pathSpan, literal), p4) \<leftarrow> requirePath R p3;
    let p5 = (if \<not> check RightParen p4 \<and> \<not> check Newline p4 \<and> \<not> atEOF p4
              then skipUntil [RightParen, Newline]
                     (errorCurrent codeInvalidRequireArgument mRequireExtra p4)
              else p4);
    let (closing, p6) = expect RightParen xRequireClose p5;
    Some (RequireStmt (base p start (End (TokenSpan closing))) path pathSpan literal, p6)
  }"

subsection \<open>Rejected method chains\<close>

text \<open>
  One line of a rejected chain, with balanced brackets. The first component says that the code
  returns at once, because a bracket closes or opens an enclosing construct.
\<close>

function dotRegion :: "nat \<Rightarrow> Position \<Rightarrow> parser \<Rightarrow> (bool \<times> Position) \<times> parser" where
  "dotRegion depth end' p =
    (if atEOF p \<or> \<not> movable p then ((False, end'), p)
     else if depth = 0 \<and> (check Newline p \<or> check RightBrace p) then ((False, end'), p)
     else if depth = 0 \<and> currentKind p \<in> {RightParen, RightBracket, LeftBrace} then ((True, end'), p)
     else dotRegion
       (if currentKind p \<in> {LeftParen, LeftBracket, LeftBrace} then depth + 1
        else if currentKind p \<in> {RightParen, RightBracket, RightBrace} then depth - 1 else depth)
       (End (curSpan p)) (step p))"
  by pat_completeness auto
termination
  by (relation "measure (\<lambda>(d, e, p). tokensLeft p)") (auto simp: tokensLeft_advance)

declare dotRegion.simps [simp del]

lemma dotRegion_tokensLeft: "tokensLeft (snd (dotRegion d e p)) \<le> tokensLeft p"
proof (induction d e p rule: dotRegion.induct)
  case (1 d e p)
  show ?case
  proof (cases "atEOF p \<or> \<not> movable p \<or> d = 0 \<and> (check Newline p \<or> check RightBrace p)
      \<or> d = 0 \<and> currentKind p \<in> {RightParen, RightBracket, LeftBrace}")
    case True
    then show ?thesis by (subst dotRegion.simps) auto
  next
    case False
    then have "tokensLeft (step p) \<le> tokensLeft p" using tokensLeft_advance [of p] by auto
    with "1" False show ?thesis by (subst dotRegion.simps) (auto intro: le_trans)
  qed
qed

lemma dotRegion_steps:
  assumes "dotRegion d e p = (r, p1)" "movable p1"
  shows "tokensLeft (steps (Suc n) p1) < tokensLeft p"
proof -
  have s: "tokensLeft (step q) \<le> tokensLeft q" for q
    by (auto simp: tokensLeft_def advance_def)
  have "tokensLeft (steps (Suc n) p1) < tokensLeft p1"
  proof (induction n)
    case 0
    show ?case using tokensLeft_advance [OF assms(2)] by (simp add: steps_def)
  next
    case (Suc n)
    then show ?case using s [of "steps (Suc n) p1"] by (simp add: steps_def)
  qed
  then show ?thesis using dotRegion_tokensLeft [of d e p] assms(1) by simp
qed

text \<open>How many newlines follow.\<close>

function newlinesAhead :: "parser \<Rightarrow> nat \<Rightarrow> nat" where
  "newlinesAhead p n =
    (if KindOf (peek p n) = Newline \<and> p_index p + n < length (p_tokens p)
     then newlinesAhead p (n + 1) else n)"
  by pat_completeness auto
termination by (relation "measure (\<lambda>(p, n). length (p_tokens p) - (p_index p + n))") auto

declare newlinesAhead.simps [simp del]

function consumeDotContinuation :: "Position \<Rightarrow> parser \<Rightarrow> Position \<times> parser" where
  "consumeDotContinuation end' p =
    (let (result, p1) = dotRegion 0 end' p; returned = fst result; end1 = snd result;
         next = newlinesAhead p1 0 in
     if returned \<or> KindOf (peek p1 next) \<noteq> Dot \<or> \<not> movable p1 then (end1, p1)
     else consumeDotContinuation (End (curSpan (steps next p1))) (steps (next + 1) p1))"
  by pat_completeness auto
termination
  by (relation "measure (\<lambda>(e, p). tokensLeft p)") (auto simp: dotRegion_steps [OF sym])

declare consumeDotContinuation.simps [simp del]

definition parseLeadingDotContinuation :: "parser \<Rightarrow> Stmt \<times> parser" where
  "parseLeadingDotContinuation p =
    (let (leading, p1) = advance p;
         p2 = errorSpan codeLeadingDotContinuation mLeadingDot (TokenSpan leading) p1;
         (end', p3) = consumeDotContinuation (End (TokenSpan leading)) p2;
         span = base p (Start (TokenSpan leading)) end'
     in (ExprStmt span (BadExpr span), p3\<lparr>p_recoveredDot := True\<rparr>))"

subsection \<open>Statements\<close>

definition parseStatement :: "procs \<Rightarrow> scopeKind \<Rightarrow> parser \<Rightarrow> (Stmt \<times> parser) option" where
  "parseStatement R scope p =
    (let kind = currentKind p in
     if kind = KeywordIf then parseIf R p
     else if kind = KeywordWhile then parseWhile R p
     else if kind = KeywordUntil then parseUntil R p
     else if kind = KeywordFor then parseFor R p
     else if kind = KeywordState then parseState R p
     else if kind = KeywordAttempt then parseAttempt R p
     else if kind = KeywordBreak
     then Some (BreakStmt (base p (curStart p) (prevEnd (step p))), step p)
     else if kind = KeywordContinue
     then Some (ContinueStmt (base p (curStart p) (prevEnd (step p))), step p)
     else if kind = KeywordReturn then parseReturn R p
     else if kind = KeywordToss then parseToss R p
     else if kind \<in> {KeywordBring, KeywordFrom} then parseBring p
     else if kind = KeywordRequire then parseRequire R scope p
     else if kind \<in> {Increment, Decrement} then parsePrefixUpdate R p
     else if kind = Dot then Some (parseLeadingDotContinuation p)
     else parseSimpleStatement R scope p)"

subsection \<open>The knot, and Parse\<close>

primrec procs_at :: "nat \<Rightarrow> procs" where
  "procs_at 0 = \<lparr>rExpression = (\<lambda>m p. None), rStatement = (\<lambda>c p. None), rTypeRef = (\<lambda>p. None)\<rparr>"
| "procs_at (Suc n) =
    (let R = procs_at n
     in \<lparr>rExpression = parseExpression R, rStatement = parseStatement R,
         rTypeRef = parseTypeRef R\<rparr>)"

record ParseResult =
  ResProgram :: Program
  ResParseTokens :: "Token list"
  ResParseDiagnostics :: Bag

definition ParseResult_HasErrors :: "ParseResult \<Rightarrow> bool" where
  "ParseResult_HasErrors r = list_ex (\<lambda>d. Sev d = SeverityError) (ResParseDiagnostics r)"

definition parseProgram :: "procs \<Rightarrow> parser \<Rightarrow> (Program \<times> parser) option" where
  "parseProgram R p = do {
    let start = curStart p;
    (statements, p1) \<leftarrow> parseStatementList R scopeModule EOF p;
    Some (\<lparr>ProgramSpan = base p1 start (End (curSpan p1)), Statements = statements\<rparr>, p1)
  }"

text \<open>A token list that does not end in EOF gets one.\<close>

definition ownedTokens :: "File \<Rightarrow> Token list \<Rightarrow> Token list" where
  "ownedTokens file tokens =
    (if tokens = [] \<or> KindOf (last tokens) \<noteq> EOF
     then
       (let at = \<lparr>Offset = int (length (Text file)), Line = 1, Column = 1\<rparr>
        in tokens @ [syntheticToken EOF (NewSpan (ID file) at at)])
     else tokens)"

definition newParser :: "File \<Rightarrow> Token list \<Rightarrow> parser" where
  "newParser file tokens = \<lparr>p_file = file, p_tokens = ownedTokens file tokens, p_index = 0,
     p_bag = [], p_recoveredDot = False\<rparr>"

definition Parse :: "File \<Rightarrow> Token list \<Rightarrow> ParseResult option" where
  "Parse file tokens = do {
    let p = newParser file tokens;
    (program, p1) \<leftarrow> parseProgram (procs_at (length (p_tokens p))) p;
    Some \<lparr>ResProgram = program, ResParseTokens = p_tokens p, ResParseDiagnostics = Bag_Items (p_bag p1)\<rparr>
  }"

end
