(* ===== verification/ParserRules.thy ===== *)
theory ParserRules
  imports ParserStatements
begin

text \<open>
  A small program logic for the parser. \<open>parses b n p Q r\<close> is total correctness of the result
  \<open>r\<close> of a computation that starts in the state \<open>p\<close>, for all \<open>p\<close> with at most \<open>n\<close> tokens
  left: there is a result (the fuel suffices and nothing panics), the cursor did not go back,
  diagnostics were only added, and \<open>Q\<close> holds of the result. If \<open>b\<close>, then \<open>Q\<close> is only claimed
  when no diagnostic has been reported. The rules follow the shape of the definitions.
\<close>

abbreviation clean :: "parser \<Rightarrow> bool" where
  "clean p \<equiv> p_bag p = []"

text \<open>
  What the parser relies on in its tokens: imaginary literals have a value, so that slicing off
  its last byte does not panic, and identifiers stand in the source.
\<close>

definition tokensOk :: "Token list \<Rightarrow> bool" where
  "tokensOk ts = list_all (\<lambda>t. (KindOf t = ImaginaryLiteral \<longrightarrow> Value t \<noteq> [])
     \<and> (KindOf t = Identifier \<longrightarrow> \<not> Synthetic t)) ts"

definition good :: "parser \<Rightarrow> bool" where
  "good p \<longleftrightarrow> ready p \<and> tokensOk (p_tokens p)"

definition parses :: "bool \<Rightarrow> nat \<Rightarrow> parser \<Rightarrow> ('a \<Rightarrow> parser \<Rightarrow> bool) \<Rightarrow> ('a \<times> parser) option \<Rightarrow> bool" where
  "parses b n p Q r \<longleftrightarrow>
     (good p \<and> tokensLeft p \<le> n \<longrightarrow>
       returns (\<lambda>(a, p'). moves p p' \<and> ((b \<longrightarrow> clean p') \<longrightarrow> Q a p')) r)"

text \<open>What an operation on the cursor does: it moves; it moves and consumes a token.\<close>

definition pmove :: "parser \<Rightarrow> parser \<Rightarrow> bool" where
  "pmove p q \<longleftrightarrow> (ready p \<longrightarrow> moves p q)"

definition consumes :: "parser \<Rightarrow> parser \<Rightarrow> bool" where
  "consumes p q \<longleftrightarrow> (ready p \<longrightarrow> moves p q \<and> p_index p < p_index q)"

subsection \<open>Cursor operations\<close>

lemma moves_clean: "moves p q \<Longrightarrow> clean q \<Longrightarrow> clean p"
  by (auto simp: moves_def extends_Nil)

lemma moves_good: "moves p q \<Longrightarrow> good p \<Longrightarrow> good q"
  by (auto simp: good_def moves_ready) (auto simp: moves_def)

lemma pmove_refl: "pmove p p"
  by (simp add: pmove_def moves_refl)

lemma pmove_trans: "pmove p q \<Longrightarrow> pmove q r \<Longrightarrow> pmove p r"
  by (auto simp: pmove_def intro: moves_trans moves_ready)

lemma consumes_pmove: "consumes p q \<Longrightarrow> pmove p q"
  by (auto simp: pmove_def consumes_def)

lemma consumes_trans1: "consumes p q \<Longrightarrow> pmove q r \<Longrightarrow> consumes p r"
  unfolding consumes_def pmove_def by (metis moves_def moves_ready moves_trans order_less_le_trans)

lemma consumes_trans2: "pmove p q \<Longrightarrow> consumes q r \<Longrightarrow> consumes p r"
  unfolding consumes_def pmove_def by (metis moves_def moves_ready moves_trans order_le_less_trans)

lemma consumes_tokensLeft: "consumes p q \<Longrightarrow> ready p \<Longrightarrow> tokensLeft q < tokensLeft p"
  by (auto simp: consumes_def moves_def tokensLeft_def)

lemma ready_step: "ready p \<Longrightarrow> ready (step p)"
  by (rule moves_ready [OF moves_advance])

lemma moves_steps: "ready p \<Longrightarrow> moves p (steps n p)"
proof (induction n)
  case 0
  then show ?case by (simp add: steps_def moves_refl)
next
  case (Suc n)
  then have "moves p (steps n p)" by blast
  also have "moves (steps n p) (step (steps n p))"
    using Suc.prems \<open>moves p (steps n p)\<close> by (blast intro: moves_advance moves_ready)
  finally show ?case by (simp add: steps_def)
qed

lemma moves_requireSameLineRHS: "ready p \<Longrightarrow> moves p (snd (requireSameLineRHS t p))"
  using moves_trans [OF moves_errorSpan moves_skipNewlines]
  by (auto simp: requireSameLineRHS_def moves_refl Let_def)

lemma moves_consumeItemSeparator: "ready p \<Longrightarrow> moves p (snd (consumeItemSeparator c p))"
  using moves_trans [OF moves_match [of p "[Comma]"] moves_skipNewlines] moves_match [of p "[Comma]"]
  by (auto simp: consumeItemSeparator_def split: prod.splits dest: moves_ready)

lemma moves_finishListItem: "ready p \<Longrightarrow> moves p (snd (finishListItem i c m p))"
proof -
  assume p: "ready p"
  obtain s p1 where s: "consumeItemSeparator c p = (s, p1)" by force
  with moves_consumeItemSeparator [OF p, of c] have mv: "moves p p1" by simp
  then have r: "ready p1" using p by (rule moves_ready)
  then have e: "moves p1 (errorCurrent codeExpectedSeparator m p1)"
    by (rule moves_errorCurrent)
  moreover have "moves p (step (errorCurrent codeExpectedSeparator m p1))"
    using e mv r by (blast intro: moves_trans moves_advance moves_ready)
  moreover have "moves p (errorCurrent codeExpectedSeparator m p1)"
    using mv e by (rule moves_trans)
  ultimately show ?thesis
    using mv s by (simp add: finishListItem_def Let_def)
qed

lemma moves_modifierLoop: "ready p \<Longrightarrow> moves p (snd (modifierLoop ms fl p))"
proof (induction ms fl p rule: modifierLoop.induct)
  case (1 ms fl p)
  have s: "moves p (step p)" using "1.prems" by (rule moves_advance)
  then have "ready (step p)" using "1.prems" by (rule moves_ready)
  with 1 s show ?case
    by (subst modifierLoop.simps) (auto simp: moves_refl intro: moves_trans)
qed

lemma moves_skipModifiers: "ready p \<Longrightarrow> moves p (skipModifiers p)"
proof (induction p rule: skipModifiers.induct)
  case (1 p)
  have s: "moves p (step p)" using "1.prems" by (rule moves_advance)
  then have "ready (step p)" using "1.prems" by (rule moves_ready)
  with 1 s show ?case
    by (subst skipModifiers.simps) (auto simp: moves_refl intro: moves_trans)
qed

lemma moves_dotRegion: "ready p \<Longrightarrow> moves p (snd (dotRegion d e p))"
proof (induction d e p rule: dotRegion.induct)
  case (1 d e p)
  have s: "moves p (step p)" using "1.prems" by (rule moves_advance)
  then have r: "ready (step p)" using "1.prems" by (rule moves_ready)
  show ?case
    using 1 s r by (subst dotRegion.simps) (auto simp: moves_refl intro: moves_trans)
qed

lemma moves_consumeDotContinuation: "ready p \<Longrightarrow> moves p (snd (consumeDotContinuation e p))"
proof (induction e p rule: consumeDotContinuation.induct)
  case (1 e p)
  obtain returned e1 p1 where d: "dotRegion 0 e p = ((returned, e1), p1)" by (metis surj_pair)
  with moves_dotRegion [OF "1.prems", of 0 e] have m: "moves p p1" by simp
  then have "ready p1" using "1.prems" by (rule moves_ready)
  then have s: "moves p1 (steps n p1)" "ready (steps n p1)" for n
    using moves_steps moves_ready by blast+
  let ?n = "newlinesAhead p1 0"
  have "moves p (snd (consumeDotContinuation (End (curSpan (steps ?n p1))) (steps (?n + 1) p1)))"
    if c: "\<not> returned" "KindOf (peek p1 ?n) = Dot" "movable p1"
  proof -
    have "moves (steps (?n + 1) p1)
        (snd (consumeDotContinuation (End (curSpan (steps ?n p1))) (steps (?n + 1) p1)))"
      by (rule "1.IH" [OF d [symmetric] refl refl refl refl]) (use c s in auto)
    with m s(1) [of "?n + 1"] show ?thesis by (blast intro: moves_trans)
  qed
  with d m show ?case
    by (subst consumeDotContinuation.simps) (simp add: Let_def)
qed

lemma moves_consumeClauseKeyword: "ready p \<Longrightarrow> moves p (snd (consumeClauseKeyword k p))"
proof -
  assume p: "ready p"
  have m: "moves p (snd (match [k] (skipNewlines p)))"
    using moves_skipNewlines [OF p] moves_match moves_ready [OF _ p] moves_trans by blast
  then have "moves p (snd (match [k] (skipNewlines p))\<lparr>p_index := p_index p\<rparr>)"
    using p by (simp add: moves_def ready_def)
  with m show ?thesis
    by (auto simp: consumeClauseKeyword_def Let_def split: prod.splits)
qed

lemma moves_flag: "ready p \<Longrightarrow> moves p (p\<lparr>p_recoveredDot := False\<rparr>)"
  by (simp add: moves_def ready_def)

lemma pmove_ops:
  assumes "pmove p q"
  shows "pmove p (step q)" "pmove p (skipNewlines q)" "pmove p (errorSpan c m s q)"
    "pmove p (errorCurrent c m q)" "pmove p (skipUntil ks q)" "pmove p (synchronize t q)"
    "pmove p (skipModifiers q)" "pmove p (steps n q)" "pmove p (q\<lparr>p_recoveredDot := False\<rparr>)"
  by (rule pmove_trans [OF assms],
      simp add: pmove_def synchronize_def moves_advance moves_skipNewlines moves_errorSpan
        moves_errorCurrent moves_skipUntil moves_skipModifiers moves_steps moves_flag)+

lemma pmove_snd_ops:
  assumes "pmove p q"
  shows "pmove p (snd (expect k x q))" "pmove p (snd (match ks q))"
    "pmove p (snd (requireSameLineRHS t q))" "pmove p (snd (finishListItem i c m q))"
    "pmove p (snd (parseDeclarationModifiers q))" "pmove p (snd (consumeDotContinuation e q))"
    "pmove p (snd (consumeClauseKeyword k q))"
  by (rule pmove_trans [OF assms],
      simp add: pmove_def parseDeclarationModifiers_def moves_expect moves_match
        moves_requireSameLineRHS moves_finishListItem moves_modifierLoop
        moves_consumeDotContinuation moves_consumeClauseKeyword)+

lemma pmove_if: "pmove p a \<Longrightarrow> pmove p b \<Longrightarrow> pmove p (if c then a else b)"
  by simp

lemma pmove_snd_if: "pmove p (snd a) \<Longrightarrow> pmove p (snd b) \<Longrightarrow> pmove p (snd (if c then a else b))"
  by simp

lemma pmove_snd_map: "pmove p (snd t) \<Longrightarrow> pmove p (snd (let (a, q) = t in (f a, q)))"
  by (cases t) simp

lemma pmove_snd_Pair: "pmove p q \<Longrightarrow> pmove p (snd (a, q))"
  by simp

lemma pmove_member: "pmove p q \<Longrightarrow> pmove p (snd (parseMember e q))"
proof -
  assume "pmove p q"
  then have s: "pmove p (step q)" by (rule pmove_ops)
  then have "pmove p (step (step q))" "pmove p (snd (expect Identifier xMemberName (step q)))"
    by (rule pmove_ops pmove_snd_ops)+
  then show ?thesis
    by (cases "advance (step q)"; cases "expect Identifier xMemberName (step q)")
      (simp add: parseMember_def Let_def)
qed

lemma pmove_snd_option:
  "pmove p (snd a) \<Longrightarrow> (\<And>y. pmove p (snd (f y))) \<Longrightarrow>
   pmove p (snd (case x of None \<Rightarrow> a | Some y \<Rightarrow> f y))"
  by (cases x) auto

lemma pmove_nullable: "pmove p q \<Longrightarrow> pmove p (snd (consumeNullableSuffix t q))"
  using pmove_ops(1) [of p q] by (cases "advance q") (simp add: consumeNullableSuffix_def)

lemmas pmoves = pmove_refl pmove_if pmove_snd_if pmove_snd_map pmove_snd_Pair pmove_ops
  pmove_snd_ops pmove_snd_option pmove_member pmove_nullable

text \<open>Consuming a token: on every kind but EOF.\<close>

lemma consumes_step: "\<not> atEOF p \<Longrightarrow> consumes p (step p)"
  by (auto simp: consumes_def moves_advance advance_progress ready_movable)

lemma check_not_EOF: "check k p \<Longrightarrow> k \<noteq> EOF \<Longrightarrow> \<not> atEOF p"
  by (simp add: check_def atEOF_def)

lemma consumes_steps: "\<not> atEOF p \<Longrightarrow> n \<noteq> 0 \<Longrightarrow> consumes p (steps n p)"
proof (cases n)
  case (Suc m)
  assume "\<not> atEOF p"
  then have "consumes p (step p)" by (rule consumes_step)
  moreover have "pmove (step p) (steps m (step p))"
    by (rule pmove_ops) (rule pmove_refl)
  moreover have "steps n p = steps m (step p)"
    by (simp only: Suc steps_def funpow_Suc_right o_apply)
  ultimately show ?thesis by (simp add: consumes_trans1)
qed simp

lemma consumes_match: "match ks p = (True, q) \<Longrightarrow> EOF \<notin> set ks \<Longrightarrow> consumes p q"
  using consumes_step [of p] by (cases "currentKind p = EOF") (auto simp: match_def atEOF_def split: if_splits)

lemma consumes_clause: "consumeClauseKeyword k p = (True, q) \<Longrightarrow> k \<noteq> EOF \<Longrightarrow> consumes p q"
proof -
  assume c: "consumeClauseKeyword k p = (True, q)" and k: "k \<noteq> EOF"
  from c have "match [k] (skipNewlines p) = (True, q)"
    by (auto simp: consumeClauseKeyword_def Let_def split: prod.splits if_splits)
  with k have "consumes (skipNewlines p) q" by (auto intro: consumes_match)
  then show ?thesis by (rule consumes_trans2 [OF pmove_ops(2) [OF pmove_refl]])
qed

lemma expect_check: "check k p \<Longrightarrow> expect k m p = (current p, step p)"
  by (simp add: expect_def advance_def)

lemma consumes_expect: "check k p \<Longrightarrow> k \<noteq> EOF \<Longrightarrow> consumes p (snd (expect k m p))"
  by (simp add: expect_check consumes_step check_not_EOF)

lemma current_in: "ready p \<Longrightarrow> current p \<in> set (p_tokens p)"
  by (auto simp: ready_current) (simp add: ready_def)

text \<open>A synthetic identifier comes from an \<open>expect\<close> that failed.\<close>

lemma expect_reported:
  assumes "good p" "expect Identifier m p = (t, q)" "Synthetic t"
  shows "p_bag q \<noteq> []"
proof (cases "check Identifier p")
  case True
  then have "t = current p" "KindOf t = Identifier"
    using assms(2) by (auto simp: expect_check check_def currentKind_def)
  with assms(1,3) have False
    using current_in [of p] by (auto simp: good_def tokensOk_def list_all_iff)
  then show ?thesis ..
qed (use assms(2) in \<open>auto simp: expect_def Let_def\<close>)

lemma skipUntil_bag [simp]: "p_bag (skipUntil ks p) = p_bag p"
  by (induction ks p rule: skipUntil.induct) (subst skipUntil.simps, auto)

subsection \<open>The rules\<close>

lemma parsesI:
  assumes "\<And>p. good p \<Longrightarrow> tokensLeft p \<le> n \<Longrightarrow> p = q \<Longrightarrow>
    returns (\<lambda>(a, p'). moves p p' \<and> ((b \<longrightarrow> clean p') \<longrightarrow> Q a p')) r"
  shows "parses b n q Q r"
  using assms by (simp add: parses_def)

lemma parsesE:
  assumes "parses b n p Q r" "good p" "tokensLeft p \<le> n"
  obtains a p' where "r = Some (a, p')" "moves p p'" "(b \<longrightarrow> clean p') \<longrightarrow> Q a p'"
  using assms by (auto simp: parses_def elim!: returnsE)

lemma parses_level: "parses b n p Q r \<Longrightarrow> m \<le> n \<Longrightarrow> parses b m p Q r"
  by (simp add: parses_def)

lemma parses_any: "parses False n p Q r \<Longrightarrow> parses b n p Q r"
  unfolding parses_def by (auto elim!: returns_mono)

lemma parses_mono:
  "parses b n p Q r \<Longrightarrow> (\<And>a p'. (b \<longrightarrow> clean p') \<Longrightarrow> Q a p' \<Longrightarrow> Q' a p') \<Longrightarrow> parses b n p Q' r"
  unfolding parses_def by (auto elim!: returns_mono)

lemma parses_shift:
  assumes "parses b n q Q r" "pmove p q"
  shows "parses b n p (\<lambda>a p'. (b \<longrightarrow> clean q) \<and> Q a p') r"
proof (rule parsesI, hypsubst)
  assume p: "good p" "tokensLeft p \<le> n"
  then have m: "moves p q" using assms(2) by (simp add: pmove_def good_def)
  then have "good q" "tokensLeft q \<le> n"
    using p moves_good moves_tokensLeft [OF m] by (blast, linarith)
  from parsesE [OF assms(1) this] obtain a p' where
    r: "r = Some (a, p')" "moves q p'" "(b \<longrightarrow> clean p') \<longrightarrow> Q a p'" .
  then show "returns (\<lambda>(a, p'). moves p p' \<and>
      ((b \<longrightarrow> clean p') \<longrightarrow> (b \<longrightarrow> clean q) \<and> Q a p')) r"
    using m moves_clean [OF r(2)] by (auto intro: moves_trans)
qed

lemma parses_consumes:
  assumes "consumes p q"
    "parses b n q (\<lambda>a p'. (b \<longrightarrow> clean q) \<longrightarrow> p_index p < p_index p' \<longrightarrow> Q a p') r"
  shows "parses b (Suc n) p Q r"
proof (rule parsesI, hypsubst)
  assume p: "good p" "tokensLeft p \<le> Suc n"
  then have m: "moves p q" using assms(1) by (simp add: consumes_def good_def)
  then have "good q" "tokensLeft q \<le> n"
    using p moves_good consumes_tokensLeft [OF assms(1)] by (blast, simp add: good_def)
  from parsesE [OF assms(2) this] obtain a p' where
    r: "r = Some (a, p')" "moves q p'"
      "(b \<longrightarrow> clean p') \<longrightarrow> (b \<longrightarrow> clean q) \<longrightarrow> p_index p < p_index p' \<longrightarrow> Q a p'" .
  moreover have "p_index p < p_index p'"
    using assms(1) p(1) r(2) by (auto simp: consumes_def good_def moves_def)
  ultimately show "returns (\<lambda>(a, p'). moves p p' \<and> ((b \<longrightarrow> clean p') \<longrightarrow> Q a p')) r"
    using m moves_clean [OF r(2)] by (auto intro: moves_trans)
qed

lemma parses_Some:
  "pmove p q \<Longrightarrow> ((b \<longrightarrow> clean q) \<Longrightarrow> Q a q) \<Longrightarrow> parses b n p Q (Some (a, q))"
  by (auto simp: parses_def pmove_def good_def)

lemma parses_Some_fst:
  "pmove p (snd t) \<Longrightarrow> ((b \<longrightarrow> clean (snd t)) \<Longrightarrow> Q (fst t) (snd t)) \<Longrightarrow> parses b n p Q (Some t)"
  using parses_Some [of p "snd t" b Q "fst t"] by simp

lemma parses_bind:
  assumes "parses b n p Q1 r"
    "\<And>a q. parses b n q (\<lambda>a' p'. (b \<longrightarrow> clean q) \<longrightarrow> Q1 a q \<longrightarrow> Q a' p') (f a q)"
  shows "parses b n p Q (Option.bind r (case_prod f))"
proof (rule parsesI, hypsubst)
  assume p: "good p" "tokensLeft p \<le> n"
  from parsesE [OF assms(1) this] obtain a q where
    r: "r = Some (a, q)" "moves p q" "(b \<longrightarrow> clean q) \<longrightarrow> Q1 a q" .
  then have "good q" "tokensLeft q \<le> n"
    using p moves_good moves_tokensLeft [OF r(2)] by (blast, linarith)
  from parsesE [OF assms(2) this] obtain a' p' where
    f: "f a q = Some (a', p')" "moves q p'"
      "(b \<longrightarrow> clean p') \<longrightarrow> (b \<longrightarrow> clean q) \<longrightarrow> Q1 a q \<longrightarrow> Q a' p'" .
  then show "returns (\<lambda>(a, p'). moves p p' \<and> ((b \<longrightarrow> clean p') \<longrightarrow> Q a p')) (Option.bind r (case_prod f))"
    using r moves_clean [OF f(2)] by (auto intro: moves_trans)
qed

lemma parses_bind2:
  assumes "parses b n p Q1 r"
    "\<And>a1 a2 q. parses b n q (\<lambda>a' p'. (b \<longrightarrow> clean q) \<longrightarrow> Q1 (a1, a2) q \<longrightarrow> Q a' p') (f a1 a2 q)"
  shows "parses b n p Q (Option.bind r (case_prod (case_prod f)))"
  using assms(1) by (rule parses_bind) (auto intro: assms(2))

lemma parses_bind3:
  assumes "parses b n p Q1 r"
    "\<And>a1 a2 a3 q. parses b n q
       (\<lambda>a' p'. (b \<longrightarrow> clean q) \<longrightarrow> Q1 (a1, a2, a3) q \<longrightarrow> Q a' p') (f a1 a2 a3 q)"
  shows "parses b n p Q (Option.bind r (case_prod (case_prod (\<lambda>a1. case_prod (f a1)))))"
  using assms(1) by (rule parses_bind) (auto intro: assms(2))

lemma parses_pair:
  assumes "pmove p (snd t)"
    "\<And>a q. t = (a, q) \<Longrightarrow> parses b n q (\<lambda>a' p'. (b \<longrightarrow> clean q) \<longrightarrow> Q a' p') (f a q)"
  shows "parses b n p Q (let (a, q) = t in f a q)"
proof (cases t)
  case (Pair a q)
  from parses_shift [OF assms(2) [OF Pair], of p] assms(1) Pair
  have "parses b n p (\<lambda>a' p'. (b \<longrightarrow> clean q) \<and> ((b \<longrightarrow> clean q) \<longrightarrow> Q a' p')) (f a q)" by simp
  then have "parses b n p Q (f a q)" by (rule parses_mono) blast
  then show ?thesis by (simp add: Pair)
qed

lemma parses_pair2:
  assumes "pmove p (snd t)"
    "\<And>a1 a2 q. t = ((a1, a2), q) \<Longrightarrow>
       parses b n q (\<lambda>a' p'. (b \<longrightarrow> clean q) \<longrightarrow> Q a' p') (f a1 a2 q)"
  shows "parses b n p Q (let ((a1, a2), q) = t in f a1 a2 q)"
proof -
  have "parses b n p Q (let (a, q) = t in (case a of (a1, a2) \<Rightarrow> f a1 a2 q))"
    using assms(1) by (rule parses_pair) (auto intro: assms(2))
  then show ?thesis by (simp add: split_def)
qed

lemma parses_let:
  fixes t :: parser
  assumes "pmove p t" "\<And>q. q = t \<Longrightarrow> parses b n q (\<lambda>a' p'. (b \<longrightarrow> clean q) \<longrightarrow> Q a' p') (f q)"
  shows "parses b n p Q (let q = t in f q)"
  using parses_pair [of p "((), t)" b n Q "\<lambda>_. f"] assms by simp

lemma parses_if:
  "(c \<Longrightarrow> parses b n p Q r) \<Longrightarrow> (\<not> c \<Longrightarrow> parses b n p Q s) \<Longrightarrow> parses b n p Q (if c then r else s)"
  by simp

lemma parses_case_option:
  "(x = None \<Longrightarrow> parses b n p Q r) \<Longrightarrow> (\<And>y. x = Some y \<Longrightarrow> parses b n p Q (s y)) \<Longrightarrow>
   parses b n p Q (case x of None \<Rightarrow> r | Some y \<Rightarrow> s y)"
  by (cases x) auto

text \<open>The accumulators of two loops are pairs.\<close>

lemma parses_acc:
  fixes t :: "'t \<times> bool"
  shows "(\<And>x y. t = (x, y) \<Longrightarrow> parses b n p Q (f x y)) \<Longrightarrow> parses b n p Q (let (x, y) = t in f x y)"
  by (cases t) simp

lemma parses_acc_option:
  fixes t :: "'t \<times> bool option"
  shows "(\<And>x y. t = (x, y) \<Longrightarrow> parses b n p Q (f x y)) \<Longrightarrow> parses b n p Q (let (x, y) = t in f x y)"
  by (cases t) simp

lemma skipNewlines_bag [simp]: "p_bag (skipNewlines p) = p_bag p"
  by (induction p rule: skipNewlines.induct) (subst skipNewlines.simps, auto)

text \<open>A broken line after an assignment operator is reported.\<close>

lemma requireSameLineRHS_reported:
  "requireSameLineRHS t p = (lineBroken, q) \<Longrightarrow> clean q \<Longrightarrow> \<not> lineBroken"
  by (auto simp: requireSameLineRHS_def Let_def split: if_splits)

text \<open>Rules in the order in which they are tried, and the lets that bind no parser.\<close>

lemmas parses_rules = parses_acc parses_acc_option parses_pair2 parses_pair parses_let
  parses_if parses_case_option parses_Some

lemmas plain_lets = Let_def [where ?'a = Position] Let_def [where ?'a = Token]
  Let_def [where ?'a = Span] Let_def [where ?'a = bool] Let_def [where ?'a = string]
  Let_def [where ?'a = Kind] Let_def [where ?'a = Expr] Let_def [where ?'a = "'t list"]

subsection \<open>Delimited lists\<close>

text \<open>After an item, the loop of a list has consumed a token or is at its end.\<close>

lemma finishListItem_progress:
  assumes p: "ready p" and i: "i \<le> p_index p" and f: "finishListItem i c m p = (True, q)"
  shows "i < p_index q \<or> atListTerminator c q"
proof (cases "check Comma p \<or> check Newline p")
  case True
  have "consumes p (snd (consumeItemSeparator c p))" and s: "fst (consumeItemSeparator c p)"
    using True skipNewlines_progress [OF p] moves_skipNewlines [OF p]
      consumes_trans1 [OF consumes_step [of p] pmove_ops(2) [OF pmove_refl]] check_not_EOF [of Comma p]
    by (auto simp: consumeItemSeparator_def match_def check_def consumes_def)
  with f have "consumes p q"
    by (cases "consumeItemSeparator c p") (auto simp: finishListItem_def)
  with p i show ?thesis by (auto simp: consumes_def)
next
  case False
  then have s: "consumeItemSeparator c p = (check c p, p)"
    by (simp add: consumeItemSeparator_def match_def check_def)
  show ?thesis
  proof (cases "atListTerminator c p")
    case True
    with f s show ?thesis
      by (auto simp: finishListItem_def atListTerminator_def split: if_splits)
  next
    case False
    then have q: "q = (let p2 = errorCurrent codeExpectedSeparator m p in
        if p_index p2 = i \<and> \<not> atEOF p2 then step p2 else p2)"
      using f s by (simp add: finishListItem_def atListTerminator_def Let_def)
    have "movable (errorCurrent codeExpectedSeparator m p)"
      using False p by (simp add: ready_movable atListTerminator_def)
    from advance_progress [OF this] False i show ?thesis
      by (auto simp: q Let_def atListTerminator_def)
  qed
qed

lemma listLoop_ok:
  assumes item: "\<And>acc q. \<not> atListTerminator closing q \<Longrightarrow>
    parses b n q (\<lambda>acc' _. I acc \<longrightarrow> I acc') (item acc q)"
  shows "tokensLeft p + 1 < k \<or> atListTerminator closing p \<and> 0 < k \<Longrightarrow>
    parses b n p (\<lambda>acc' _. I acc \<longrightarrow> I acc') (listLoop closing m item k acc p)"
proof (induction k arbitrary: acc p)
  case (Suc k)
  show ?case
  proof (cases "atListTerminator closing p")
    case True
    then show ?thesis by (auto intro: parses_Some pmove_refl)
  next
    case False
    show ?thesis
    proof (rule parsesI, hypsubst)
      assume p: "good p" "tokensLeft p \<le> n"
      from parsesE [OF item [OF False] p] obtain acc1 p1 where
        1: "item acc p = Some (acc1, p1)" "moves p p1" "(b \<longrightarrow> clean p1) \<longrightarrow> I acc \<longrightarrow> I acc1" .
      obtain more p2 where f: "finishListItem (p_index p) closing m p1 = (more, p2)" by force
      have g1: "good p1" using 1 p by (blast intro: moves_good)
      then have "moves p1 p2"
        using moves_finishListItem [of p1 "p_index p" closing m] f by (simp add: good_def)
      with 1 have m2: "moves p p2" by (blast intro: moves_trans)
      then have g2: "good p2" "tokensLeft p2 \<le> n"
        using p moves_good moves_tokensLeft [OF m2] by (blast, linarith)
      have c: "clean p2 \<Longrightarrow> clean p1" using \<open>moves p1 p2\<close> by (rule moves_clean)
      show "returns (\<lambda>(a, p'). moves p p' \<and> ((b \<longrightarrow> clean p') \<longrightarrow> I acc \<longrightarrow> I a))
          (listLoop closing m item (Suc k) acc p)"
      proof (cases more)
        case True
        have "finishListItem (p_index p) closing m p1 = (True, p2)" using f True by simp
        then have "p_index p < p_index p2 \<or> atListTerminator closing p2"
          using finishListItem_progress [of p1 "p_index p" closing m p2] g1 1(2)
          by (auto simp: good_def moves_def)
        moreover have "tokensLeft p2 < tokensLeft p" if "p_index p < p_index p2"
          using that m2 by (auto simp: tokensLeft_def moves_def)
        ultimately have "tokensLeft p2 + 1 < k \<or> atListTerminator closing p2 \<and> 0 < k"
          using Suc.prems False by auto
        from parsesE [OF Suc.IH [OF this] g2] obtain a p' where
          "listLoop closing m item k acc1 p2 = Some (a, p')" "moves p2 p'"
          "(b \<longrightarrow> clean p') \<longrightarrow> I acc1 \<longrightarrow> I a" .
        then show ?thesis
          using False 1 f True m2 c moves_clean by (auto intro: moves_trans)
      next
        case not_more: False
        then show ?thesis using False 1 f m2 c by auto
      qed
    qed
  qed
qed simp

lemmas listLoop_call = parses_shift [OF listLoop_ok]

end
