(* ===== verification/ParserProofs.thy ===== *)
theory ParserProofs
  imports ParserRules
begin

text \<open>
  The parser is total and what it builds obeys \<open>Grammar\<close>. The locale \<open>recursive_parsers\<close> states
  what a function needs of the recursive calls it makes; inside it every parse function is shown
  to keep that contract with one more token left, and the knot \<open>procs_at\<close> follows by induction.
\<close>

abbreviation okE :: "bool \<Rightarrow> Expr \<Rightarrow> bool" where "okE b \<equiv> allExpr (exprNode b)"
abbreviation okS :: "bool \<Rightarrow> scopeKind \<Rightarrow> Stmt \<Rightarrow> bool" where "okS b \<equiv> allStmt (exprNode b) (stmtNode b)"
abbreviation okB :: "bool \<Rightarrow> Block \<Rightarrow> bool" where "okB b \<equiv> allBlock (exprNode b) (stmtNode b)"

text \<open>The cursor stands where an operator of at least the binding power \<open>m\<close> does not continue.\<close>

definition stops :: "nat \<Rightarrow> parser \<Rightarrow> bool" where
  "stops m p \<longleftrightarrow> check Newline p \<or>
     (case infixOperator p of (operator, leftBP, rightBP, width) \<Rightarrow> width = 0 \<or> leftBP < m)"

text \<open>An expression that ends in an operand could not have been continued with the operator at the
  cursor.\<close>

definition tight :: "Expr \<Rightarrow> parser \<Rightarrow> bool" where
  "tight e p = (case e of BinaryExpr _ _ operator _ \<Rightarrow> stops (rightPower operator) p
     | UnaryExpr _ operator _ \<Rightarrow> stops (unaryPower operator) p
     | _ \<Rightarrow> True)"

definition prefixPost :: "bool \<Rightarrow> Expr \<Rightarrow> parser \<Rightarrow> bool" where
  "prefixPost b e p \<longleftrightarrow> okE b e \<and> (\<forall>m. rightOperandOk m e) \<and> tight e p"

definition exprPost :: "bool \<Rightarrow> nat \<Rightarrow> Expr \<Rightarrow> parser \<Rightarrow> bool" where
  "exprPost b m e p \<longleftrightarrow> okE b e \<and> rightOperandOk m e \<and> tight e p \<and> stops m p"

lemma exprPost_ok [dest]: "exprPost b m e p \<Longrightarrow> okE b e"
  by (simp add: exprPost_def)

lemma bindingPowers [simp]:
  shows
    "bindingPower ''or'' = 10" "bindingPower ''and'' = 20" "bindingPower ''=='' = 40"
    "bindingPower ''!='' = 40" "bindingPower ''same'' = 40" "bindingPower ''in'' = 40"
    "bindingPower ''is'' = 40" "bindingPower ''is not'' = 40" "bindingPower ''has'' = 40"
    "bindingPower ''has not'' = 40" "bindingPower ''not in'' = 40" "bindingPower ''<'' = 50"
    "bindingPower ''<='' = 50" "bindingPower ''>'' = 50" "bindingPower ''>='' = 50"
    "bindingPower ''+'' = 60" "bindingPower ''-'' = 60" "bindingPower ''*'' = 70"
    "bindingPower ''/'' = 70" "bindingPower ''%'' = 70" "bindingPower ''^'' = 90"
  by (simp_all add: bindingPower_def operatorTable_def)

lemma rightPowers [simp]:
  shows
    "rightPower ''or'' = 11" "rightPower ''and'' = 21" "rightPower ''=='' = 41"
    "rightPower ''!='' = 41" "rightPower ''same'' = 41" "rightPower ''in'' = 41"
    "rightPower ''is'' = 41" "rightPower ''is not'' = 41" "rightPower ''has'' = 41"
    "rightPower ''has not'' = 41" "rightPower ''not in'' = 41" "rightPower ''<'' = 51"
    "rightPower ''<='' = 51" "rightPower ''>'' = 51" "rightPower ''>='' = 51"
    "rightPower ''+'' = 61" "rightPower ''-'' = 61" "rightPower ''*'' = 71"
    "rightPower ''/'' = 71" "rightPower ''%'' = 71" "rightPower ''^'' = 89"
  by (simp_all add: rightPower_def)

lemma infixOperators_eq:
  "infixOperators = {''or'', ''and'', ''=='', ''!='', ''same'', ''in'', ''is'', ''is not'', ''has'', ''has not'', ''not in'', ''<'', ''<='', ''>'', ''>='', ''+'', ''-'', ''*'', ''/'', ''%'', ''^''}"
  by (simp add: infixOperators_def operatorTable_def)

lemma infixOperator_power:
  assumes "infixOperator p = (operator, l, r, w)" "w \<noteq> 0"
  shows "operator \<in> infixOperators \<and> l = bindingPower operator \<and> r = rightPower operator
    \<and> \<not> atEOF p"
proof -
  have "infixOperator p = (operator, l, r, w) \<longrightarrow> w \<noteq> 0 \<longrightarrow>
      operator \<in> infixOperators \<and> l = bindingPower operator \<and> r = rightPower operator \<and> \<not> atEOF p"
    unfolding infixOperator_def Let_def atEOF_def
    by (cases "currentKind p") (auto simp: infixOperators_eq split: if_splits)
  with assms show ?thesis by blast
qed

lemma stops_closer:
  "currentKind p \<in> {EOF, RightParen, RightBracket, RightBrace, InterpolationEnd} \<Longrightarrow> stops m p"
  by (auto simp: stops_def infixOperator_def Let_def)

lemma stops_errorCurrent [simp]: "stops m (errorCurrent c x p) = stops m p"
  by (simp add: stops_def infixOperator_def peek_def)

lemma parses_zero: "parses b 0 p Q r"
  by (auto simp: parses_def good_def ready_def tokensLeft_def)

lemma parses_self: "(tokensLeft p \<le> n \<Longrightarrow> parses b (tokensLeft p) p Q r) \<Longrightarrow> parses b n p Q r"
  by (simp add: parses_def)

lemmas parses_tail = parses_mono [OF parses_shift]

locale recursive_parsers =
  fixes R :: procs and n :: nat and b :: bool
  assumes expression_ok: "parses b n p (exprPost b m) (rExpression R m p)"
    and statement_ok: "parses b n p (\<lambda>s _. okS b scope s) (rStatement R scope p)"
    and typeRef_ok: "parses False n p (\<lambda>_ p'. \<not> atEOF p \<longrightarrow> p_index p < p_index p') (rTypeRef R p)"
begin

lemmas expression_call = parses_shift [OF expression_ok]
lemmas expression_bind = parses_bind [OF expression_call]
lemmas typeRef_call = parses_shift [OF parses_any [OF typeRef_ok]]
lemmas typeRef_bind = parses_bind [OF typeRef_call]

lemma required_ok: "parses b n p (exprPost b m) (parseRequiredExpression R m x p)"
  unfolding parseRequiredExpression_def
  by (intro parses_rules pmoves expression_ok)
    (auto simp: exprPost_def exprNode_def rightOperandOk_def tight_def check_def atEOF_def
      intro!: stops_closer)

lemmas required_call = parses_shift [OF required_ok]
lemmas required_bind = parses_bind [OF required_call]

lemma assigned_ok: "parses b n p (\<lambda>e _. \<not> (b \<and> lb) \<longrightarrow> okE b e) (assignedExpression R lb x p)"
  unfolding assignedExpression_def
  by (intro parses_rules pmoves parses_mono [OF required_ok])
    (auto simp: exprPost_def exprNode_def)

lemmas assigned_bind = parses_bind [OF parses_shift [OF assigned_ok]]

text \<open>Type references.\<close>

lemma typeArguments_ok:
  "tokensLeft p < k \<Longrightarrow> parses b n p (\<lambda>_ _. True) (typeArguments R k args p)"
proof (induction k arbitrary: args p)
  case (Suc k)
  show ?case
  proof (rule parsesI, hypsubst)
    assume p: "good p" "tokensLeft p \<le> n"
    show "returns (\<lambda>(a, p'). moves p p' \<and> ((b \<longrightarrow> clean p') \<longrightarrow> True)) (typeArguments R (Suc k) args p)"
    proof (cases "check Greater p \<or> atEOF p")
      case True
      then show ?thesis using p by (simp add: moves_refl good_def)
    next
      case False
      from parsesE [OF typeRef_ok p] obtain t p1 where t: "rTypeRef R p = Some (t, p1)" "moves p p1"
        "p_index p < p_index p1" using False by blast
      obtain comma p2 where m: "match [Comma] p1 = (comma, p2)" by force
      obtain q where q: "q = (if comma \<or> check Newline p2 then skipNewlines p2
        else if \<not> check Greater p2 then errorCurrent codeExpectedSeparator mTypeSeparator p2 else p2)"
        by blast
      have r: "ready p1" using t p by (auto simp: good_def intro: moves_ready)
      then have "moves p1 p2" using moves_match [of p1 "[Comma]"] m by simp
      then have "moves p1 q"
        using r moves_skipNewlines [of p2] moves_ready
          moves_errorCurrent [of p2 codeExpectedSeparator mTypeSeparator]
        by (auto simp: q intro: moves_trans)
      with t have mv: "moves p q" "p_index p < p_index q" by (blast intro: moves_trans, simp add: moves_def)
      then have "tokensLeft q < tokensLeft p" by (auto simp: moves_def tokensLeft_def)
      with Suc.prems p mv have "good q" "tokensLeft q \<le> n" "tokensLeft q < k"
        by (auto intro: moves_good)
      from parsesE [OF Suc.IH [OF this(3)] this(1,2)] obtain a p' where
        "typeArguments R k (args @ [t]) q = Some (a, p')" "moves q p'" .
      with mv(1) have "returns (\<lambda>(a, p'). moves p p' \<and> ((b \<longrightarrow> clean p') \<longrightarrow> True))
          (typeArguments R k (args @ [t]) q)"
        by (auto intro: moves_trans)
      then show ?thesis using False t(1) m by (auto simp: Let_def q split: if_splits)
    qed
  qed
qed simp

lemma typeArguments_call:
  "pmove p q \<Longrightarrow> parses b n p (\<lambda>_ _. True) (typeArguments R (enough q) args q)"
  by (rule parses_mono [OF parses_shift [OF typeArguments_ok]]) auto

lemma parseTypeRef_ok:
  "parses b (Suc n) p (\<lambda>_ p'. \<not> atEOF p \<longrightarrow> p_index p < p_index p') (parseTypeRef R p)"
proof (cases "atEOF p")
  case True
  then have "syntacticTypeName (current p) = None"
    by (auto simp: syntacticTypeName_def atEOF_def currentKind_def)
  with True show ?thesis
    unfolding parseTypeRef_def plain_lets
    by (simp only: option.case) (intro parses_rules pmoves; simp)
next
  case False
  show ?thesis
  proof (cases "syntacticTypeName (current p)")
    case None
    let ?q = "errorCurrent codeInvalidTypeSyntax mTypeName p"
    have "consumes p (step ?q)"
      using consumes_trans2 [OF pmove_ops(4) [OF pmove_refl] consumes_step] False by simp
    then show ?thesis
      unfolding parseTypeRef_def plain_lets Let_def using None False
      by (simp del: advance_fields) (erule parses_consumes, rule parses_Some [OF pmove_refl], simp)
  next
    case (Some name)
    show ?thesis
      unfolding parseTypeRef_def plain_lets Some option.case
      by (rule parses_consumes [OF consumes_step [OF False]])
        (intro parses_rules pmoves parses_Some_fst parses_bind [OF typeArguments_call]; simp)
  qed
qed

text \<open>Statement lists and blocks.\<close>

lemma invalidate_ok:
  assumes "list_all (okS b c) ss" "\<not> b"
  shows "list_all (okS b c) (invalidateTruncatedReceiver ss)"
proof (cases ss rule: rev_cases)
  case (snoc xs s)
  with assms show ?thesis
    by (cases s)
      (auto simp: invalidateTruncatedReceiver_def exprNode_def stmtNode_def split: option.splits)
qed (simp add: invalidateTruncatedReceiver_def)

lemma statementLoop_ok:
  "tokensLeft p < k \<Longrightarrow>
   parses b n p (\<lambda>ss' _. list_all (okS b c) ss \<longrightarrow> list_all (okS b c) ss') (statementLoop R c t k ss p)"
proof (induction k arbitrary: ss p)
  case (Suc k)
  show ?case
  proof (cases "check t p \<or> atEOF p")
    case True
    then show ?thesis by (auto intro: parses_Some pmove_refl)
  next
    case False
    show ?thesis
    proof (rule parsesI, hypsubst)
      assume p: "good p" "tokensLeft p \<le> n"
      let ?p0 = "p\<lparr>p_recoveredDot := False\<rparr>"
      have m0: "moves p ?p0" using p by (simp add: good_def moves_flag)
      then have "good ?p0" "tokensLeft ?p0 \<le> n"
        using p moves_good moves_tokensLeft [OF m0] by (blast, linarith)
      from parsesE [OF statement_ok this] obtain s p1 where
        1: "rStatement R c ?p0 = Some (s, p1)" "moves ?p0 p1" "(b \<longrightarrow> clean p1) \<longrightarrow> okS b c s" .
      have m1: "moves p p1" using m0 1(2) by (rule moves_trans)
      then have r1: "ready p1" using p by (auto simp: good_def intro: moves_ready)
      obtain ss1 where ss1: "ss1 = (if p_recoveredDot p1 then invalidateTruncatedReceiver ss else ss) @ [s]"
        by blast
      have ok1: "list_all (okS b c) ss1" if "b \<longrightarrow> clean p1" "list_all (okS b c) ss"
        using that 1(2,3) invalidate_ok by (auto simp: ss1 moves_def)
      obtain p2 where p2: "p2 = (if p_index p1 = p_index p then step p1 else p1)" by blast
      have m2: "moves p1 p2" using r1 by (simp add: p2 moves_advance moves_refl)
      have "p_index p < p_index p2"
      proof (cases "p_index p1 = p_index p")
        case True
        then have "movable p1" using m1 False p ready_movable [of p]
          by (simp add: moves_def movable_def good_def)
        with True show ?thesis using advance_progress [of p1] by (simp add: p2)
      qed (use m1 in \<open>auto simp: p2 moves_def\<close>)
      note progress = this
      have r2: "ready p2" using m2 r1 by (rule moves_ready)
      obtain p3 where p3: "p3 = (if check Newline p2 then skipNewlines p2 else
          skipNewlines (synchronize t (errorCurrent codeExpectedSeparator mSeparator p2)))" by blast
      have "pmove p2 p3" unfolding p3 by (intro pmoves)
      then have m3: "moves p2 p3" using r2 by (simp add: pmove_def)
      have m: "moves p p2" "moves p p3" using m1 m2 m3 by (blast intro: moves_trans)+
      have "tokensLeft p3 < tokensLeft p" using progress m3 m
        by (auto simp: moves_def tokensLeft_def)
      with Suc.prems p m have "good p3" "tokensLeft p3 \<le> n" "tokensLeft p3 < k"
        by (auto intro: moves_good)
      from parsesE [OF Suc.IH [OF this(3)] this(1,2)] obtain a p' where
        l: "statementLoop R c t k ss1 p3 = Some (a, p')" "moves p3 p'"
          "(b \<longrightarrow> clean p') \<longrightarrow> list_all (okS b c) ss1 \<longrightarrow> list_all (okS b c) a" .
      have step: "statementLoop R c t (Suc k) ss p =
          (if check Newline p2 \<or> \<not> (check t p2 \<or> atEOF p2) then statementLoop R c t k ss1 p3
           else Some (ss1, p2))"
        using False 1(1) by (simp add: Let_def p3 flip: p2 ss1)
      have "clean p' \<Longrightarrow> clean p1" "clean p2 \<Longrightarrow> clean p1"
        using m2 m3 l(2) moves_clean by blast+
      with l m ok1 show "returns (\<lambda>(a, p'). moves p p' \<and> ((b \<longrightarrow> clean p') \<longrightarrow>
          list_all (okS b c) ss \<longrightarrow> list_all (okS b c) a)) (statementLoop R c t (Suc k) ss p)"
        unfolding step by (auto intro: moves_trans)
    qed
  qed
qed simp

lemma statementList_ok:
  "parses b n p (\<lambda>ss _. list_all (okS b c) ss) (parseStatementList R c t p)"
  unfolding parseStatementList_def
  by (intro parses_rules pmoves) (rule parses_mono [OF statementLoop_ok], auto)

lemmas statementList_bind = parses_bind [OF parses_shift [OF statementList_ok]]

lemma parseBlock_ok: "parses b n p (\<lambda>blk _. okB b blk) (parseBlock R p)"
  unfolding parseBlock_def by (intro parses_rules pmoves statementList_bind) auto

lemmas block_bind = parses_bind [OF parses_shift [OF parseBlock_ok]]

text \<open>Captures and parameters.\<close>

lemma pmove_capture: "pmove p (snd (parseCaptureDependency label p))"
proof -
  have "pmove p (snd (expect Identifier (xBindingName prefix) (step p)))" for prefix
    by (intro pmoves)
  moreover have "pmove q (skipUntil [RightBracket] q)" for q by (intro pmoves)
  ultimately have "pmove p q" "pmove p (skipUntil [RightBracket] q)"
    if "expect Identifier (xBindingName prefix) (step p) = (t, q)" for prefix t q
    using that by (metis snd_conv, metis pmove_trans snd_conv)
  moreover have "pmove p (skipUntil [RightBracket] (errorCurrent c m p))" for c m by (intro pmoves)
  ultimately show ?thesis
    by (auto simp: parseCaptureDependency_def Let_def split: option.split prod.split)
qed

lemma capture_reported:
  assumes p: "good p" and d: "parseCaptureDependency label p = (None, q)"
  shows "p_bag q \<noteq> []"
proof (cases "captureKindOf (currentKind p)")
  case None
  with d show ?thesis by (auto simp: parseCaptureDependency_def Let_def)
next
  case (Some kp)
  have "good (step p)" using p moves_good [OF moves_advance] by (simp add: good_def)
  from expect_reported [OF this] Some d show ?thesis
    by (cases kp) (auto simp: parseCaptureDependency_def Let_def split: prod.splits if_splits)
qed

lemma captureLoop_ok:
  "tokensLeft p + 1 < k \<or> atListTerminator RightBracket p \<and> 0 < k \<Longrightarrow>
   parses b n p (\<lambda>r _. b \<longrightarrow> \<not> snd r) (captureLoop label k cs p)"
proof (induction k arbitrary: cs p)
  case (Suc k)
  show ?case
  proof (cases "atListTerminator RightBracket p")
    case True
    then show ?thesis by (auto intro: parses_Some pmove_refl)
  next
    case False
    obtain r p1 where d: "parseCaptureDependency label p = (r, p1)" by force
    with pmove_capture [of p label] have m1: "pmove p p1" by simp
    show ?thesis
    proof (cases r)
      case None
      with False d m1 capture_reported [of p label p1] show ?thesis
        by (auto simp: parses_def pmove_def good_def)
    next
      case (Some c)
      obtain more p2 where f: "finishListItem (p_index p) RightBracket (mCaptureSeparator label) p1 = (more, p2)"
        by force
      have "pmove p1 (snd (finishListItem (p_index p) RightBracket (mCaptureSeparator label) p1))"
        by (intro pmoves)
      with m1 f have m2: "pmove p p2" by (auto intro: pmove_trans)
      show ?thesis
      proof (cases more)
        case True
        have "parses b n p2 (\<lambda>r _. b \<longrightarrow> \<not> snd r) (captureLoop label k (cs @ [c]) p2)" if "ready p"
        proof (rule Suc.IH)
          have "finishListItem (p_index p) RightBracket (mCaptureSeparator label) p1 = (True, p2)"
            using f True by simp
          then have "p_index p < p_index p2 \<or> atListTerminator RightBracket p2"
            using finishListItem_progress [of p1 "p_index p" RightBracket "mCaptureSeparator label" p2]
              m1 that moves_ready [of p p1]
            by (auto simp: pmove_def moves_def)
          moreover have "tokensLeft p2 < tokensLeft p" if "p_index p < p_index p2"
            using that m2 \<open>ready p\<close> by (auto simp: tokensLeft_def pmove_def moves_def)
          ultimately show "tokensLeft p2 + 1 < k \<or> atListTerminator RightBracket p2 \<and> 0 < k"
            using Suc.prems False by auto
        qed
        from parses_shift [OF this m2] show ?thesis
          using False d Some f True by (auto simp: parses_def good_def elim!: returns_mono)
      next
        case not_more: False
        with False d Some f m2 show ?thesis by (auto intro: parses_Some)
      qed
    qed
  qed
qed simp

lemma captureLoop_call: "pmove p q \<Longrightarrow> parses b n p (\<lambda>r _. b \<longrightarrow> \<not> snd r) (captureLoop label (enough q) cs q)"
  by (rule parses_mono [OF parses_shift [OF captureLoop_ok]]) auto

lemma captureList_ok: "parses b n p (\<lambda>r _. b \<longrightarrow> \<not> snd r) (parseCaptureListFor label p)"
  unfolding parseCaptureListFor_def
  by (intro parses_rules pmoves parses_bind [OF captureLoop_call]) auto

lemmas captureList_bind = parses_bind2 [OF parses_shift [OF captureList_ok]]
lemmas captureList_bind1 = parses_bind [OF parses_shift [OF captureList_ok]]

text \<open>The parameters so far obey the order, and \<open>seenDefault\<close> says whether one has a default.\<close>

definition parametersInv :: "bool \<Rightarrow> Parameter list \<times> bool \<Rightarrow> bool" where
  "parametersInv allow acc \<longleftrightarrow> parametersOk b allow (fst acc)
     \<and> snd acc = (\<exists>p \<in> set (fst acc). hasDefault p) \<and> list_all (allParam (exprNode b)) (fst acc)"

lemma parameterItem_ok:
  "parses b n p (\<lambda>acc' _. parametersInv allow acc \<longrightarrow> parametersInv allow acc')
     (parameterItem R allow acc p)"
  unfolding parameterItem_def plain_lets
  by (intro parses_rules pmoves typeRef_bind assigned_bind)
    (auto simp: parametersInv_def parametersOk_def sorted_wrt_append
      atInheritedAttributes_def
      dest: requireSameLineRHS_reported split: if_splits)

lemma parameterList_ok:
  "parses b n p (\<lambda>ps _. parametersOk b allow ps \<and> list_all (allParam (exprNode b)) ps)
     (parseParameterList R allow p)"
  unfolding parseParameterList_def plain_lets
  by (intro parses_rules pmoves
      parses_bind2 [OF listLoop_call [where I = "parametersInv allow", OF parameterItem_ok]])
    (auto simp: parametersInv_def parametersOk_def)

lemmas parameterList_bind = parses_bind [OF parses_shift [OF parameterList_ok]]

text \<open>Prefix expressions.\<close>

lemma parseLambda_ok: "\<not> atEOF p \<Longrightarrow> parses b (Suc n) p (prefixPost b) (parseLambda R p)"
  unfolding parseLambda_def plain_lets
  by (rule parses_consumes [OF consumes_step], assumption)
    (intro parses_rules pmoves captureList_bind parameterList_bind block_bind required_bind;
     auto simp: prefixPost_def exprNode_def rightOperandOk_def tight_def)

lemma stringPartLoop_ok:
  "m < k \<Longrightarrow> m \<le> n \<Longrightarrow> parses b m p
     (\<lambda>ps' _. list_all (allPart (exprNode b)) ps \<longrightarrow> list_all (allPart (exprNode b)) ps')
     (stringPartLoop R k ps p)"
proof (induction k arbitrary: m ps p)
  case (Suc k)
  show ?case
  proof (cases "atEOF p \<or> m = 0")
    case True
    then show ?thesis by (auto intro: parses_Some pmove_refl parses_zero)
  next
    case False
    then obtain m' where m: "m = Suc m'" by (cases m) auto
    have f: "consumes p (step (errorCurrent codeUnexpectedToken mStringToken p))"
      using consumes_trans2 [OF pmove_ops(4) [OF pmove_refl] consumes_step] False by simp
    note tail = parses_tail [OF Suc.IH]
    have e: "parses b m' q (\<lambda>e _. okE b e)
        (if check InterpolationEnd q
         then Some (BadExpr (curSpan q), errorCurrent codeUnexpectedToken mEmptyInterpolationExpr q)
         else rExpression R 0 q)" for q
      using Suc.prems m
      by (intro parses_rules pmoves parses_mono [OF parses_level [OF expression_ok]])
        (auto simp: exprNode_def)
    note bind = parses_bind [OF parses_shift [OF e]]
    show ?thesis
      unfolding stringPartLoop.simps plain_lets m
      apply (intro parses_if)
      subgoal by (rule parses_Some [OF pmove_refl]) simp
      subgoal using Suc.prems False m
        by (intro parses_consumes [OF consumes_step] parses_rules pmoves tail) auto
      subgoal using Suc.prems False m
        by (intro parses_consumes [OF consumes_step] parses_rules pmoves bind tail) auto
      subgoal using Suc.prems False m
        by (intro parses_consumes [OF f] tail pmoves) auto
      done
  qed
qed simp

lemma stringPartLoop_call:
  "pmove p q \<Longrightarrow> parses b n p
     (\<lambda>ps' _. list_all (allPart (exprNode b)) ps \<longrightarrow> list_all (allPart (exprNode b)) ps')
     (stringPartLoop R (enough q) ps q)"
  by (rule parses_tail [OF parses_self [OF stringPartLoop_ok]]) auto

lemma parseString_ok:
  "\<not> atEOF p \<Longrightarrow> parses b (Suc n) p (prefixPost b) (parseString R p)"
  unfolding parseString_def plain_lets
  by (rule parses_consumes [OF consumes_step], assumption)
    (intro parses_rules pmoves parses_bind [OF stringPartLoop_call];
     auto simp: prefixPost_def exprNode_def rightOperandOk_def tight_def)

lemma parseList_ok: "\<not> atEOF p \<Longrightarrow> parses b (Suc n) p (prefixPost b) (parseList R p)"
  unfolding parseList_def listItem_def plain_lets
  by (rule parses_consumes [OF consumes_step], assumption)
    (intro parses_rules pmoves expression_bind
       parses_bind [OF listLoop_call [where I = "list_all (okE b)"]];
     auto simp: prefixPost_def exprNode_def rightOperandOk_def tight_def)

lemma parsePair_ok: "\<not> atEOF p \<Longrightarrow> parses b (Suc n) p (prefixPost b) (parsePair R p)"
  unfolding parsePair_def pairItem_def plain_lets
  by (rule parses_consumes [OF consumes_step], assumption)
    (intro parses_rules pmoves expression_bind
       parses_bind [OF listLoop_call [where I = "list_all (allEntry (exprNode b))"]];
     auto simp: prefixPost_def exprNode_def rightOperandOk_def tight_def)

lemma parseGroup_ok: "\<not> atEOF p \<Longrightarrow> parses b (Suc n) p (prefixPost b) (parseGroup R p)"
  unfolding parseGroup_def plain_lets
  by (rule parses_consumes [OF consumes_step], assumption)
    (intro parses_rules pmoves expression_bind;
     auto simp: prefixPost_def exprNode_def rightOperandOk_def tight_def)

lemma parseUnary_ok:
  assumes "currentKind p \<in> {Plus, Minus} \<and> m = bpUnary \<or> currentKind p = KeywordNot \<and> m = bpNot"
  shows "parses b (Suc n) p (prefixPost b) (parseUnary R m p)"
proof -
  have e: "\<not> atEOF p" using assms by (auto simp: atEOF_def)
  have m: "Kind_String (currentKind p) \<in> {''+'', ''-'', ''not''}"
    "m = unaryPower (Kind_String (currentKind p))"
    using assms by (auto simp: bpUnary_def bpNot_def unaryPower_def)
  show ?thesis
    unfolding parseUnary_def
    by (rule parses_consumes [OF consumes_step [OF e]])
      (intro parses_rules pmoves expression_bind; use m in
        \<open>auto simp: prefixPost_def exprPost_def exprNode_def rightOperandOk_def tight_def currentKind_def
           advance_def\<close>)
qed

lemma parses_imaginary:
  "KindOf (current p) = ImaginaryLiteral \<Longrightarrow> Value (current p) = [] \<Longrightarrow> parses b m p Q None"
  using current_in [of p] by (auto simp: parses_def good_def tokensOk_def list_all_iff)

lemma parsePrefix_ok: "parses b (Suc n) p (prefixPost b) (parsePrefix R p)"
  unfolding parsePrefix_def plain_lets
  by (intro parses_rules pmoves parses_imaginary parseLambda_ok parseString_ok parseGroup_ok
      parseList_ok parsePair_ok parseUnary_ok)
    (auto simp: prefixPost_def exprNode_def rightOperandOk_def tight_def atEOF_def currentKind_def)

text \<open>Postfix expressions. Their first token is consumed by the loop.\<close>

lemma argumentItem_ok:
  "parses b n p (\<lambda>acc' _. list_all (allArg (exprNode b)) (fst acc) \<longrightarrow>
     list_all (allArg (exprNode b)) (fst acc')) (argumentItem R acc p)"
  unfolding argumentItem_def plain_lets
  by (intro parses_rules pmoves expression_bind) auto

lemma parseCall_ok:
  assumes "check LeftParen p"
  shows "parses b n (step p) (\<lambda>e q. okE b callee \<longrightarrow> prefixPost b e q) (parseCall R callee p)"
  unfolding parseCall_def plain_lets expect_check [OF assms]
  by (intro parses_rules parses_bind2 [OF listLoop_call
        [where I = "\<lambda>acc. list_all (allArg (exprNode b)) (fst acc)", OF argumentItem_ok]] pmoves)
    (auto simp: prefixPost_def exprNode_def rightOperandOk_def tight_def)

lemma pmove_member_step: "pmove (step p) (snd (parseMember e p))"
proof -
  have "pmove (step p) (step (step p))" "pmove (step p) (snd (expect Identifier xMemberName (step p)))"
    by (intro pmoves)+
  then show ?thesis
    by (cases "advance (step p)"; cases "expect Identifier xMemberName (step p)")
      (simp add: parseMember_def Let_def)
qed

lemma parseMember_ok: "okE b e \<Longrightarrow> prefixPost b (fst (parseMember e p)) q"
  by (auto simp: parseMember_def Let_def prefixPost_def exprNode_def rightOperandOk_def tight_def
      split: prod.splits)

lemma optionalExpression_ok:
  "parses b n p (\<lambda>e _. pred_option (okE b) e) (optionalExpression R present p)"
  unfolding optionalExpression_def by (intro parses_rules pmoves expression_bind) auto

lemma parseIndexOrSlice_ok:
  "parses b n (step p) (\<lambda>e q. okE b object \<longrightarrow> prefixPost b e q) (parseIndexOrSlice R object p)"
  unfolding parseIndexOrSlice_def plain_lets
  by (intro parses_rules pmoves parses_bind [OF parses_shift [OF optionalExpression_ok]])
    (auto simp: prefixPost_def exprNode_def rightOperandOk_def tight_def)

text \<open>The operator loop: precedence climbing.\<close>

definition loopInv :: "nat \<Rightarrow> Expr \<Rightarrow> parser \<Rightarrow> bool" where
  "loopInv m e p \<longleftrightarrow> okE b e \<and> rightOperandOk m e \<and> tight e p"

lemma loopInv_ok: "loopInv m e p \<Longrightarrow> okE b e"
  by (simp add: loopInv_def)

lemma prefix_loopInv: "prefixPost b e p \<Longrightarrow> loopInv m e p"
  by (simp add: prefixPost_def loopInv_def)

lemma binary_loopInv:
  assumes "infixOperator p = (operator, l, r, w)" "w \<noteq> 0" "m \<le> l" "\<not> check Newline p"
    "loopInv m left p" "exprPost b r right q"
  shows "loopInv m (BinaryExpr s left operator right) q"
  using infixOperator_power [OF assms(1,2)] assms
  by (auto simp: loopInv_def exprPost_def exprNode_def rightOperandOk_def leftOperandOk_def tight_def
      stops_def split: Expr.splits)

lemma expressionLoop_ok:
  "l < k \<Longrightarrow> l \<le> Suc n \<Longrightarrow>
   parses b l p (\<lambda>e q. loopInv m left p \<longrightarrow> exprPost b m e q) (expressionLoop R m k left p)"
proof (induction k arbitrary: l left p)
  case (Suc k)
  obtain operator leftBP rightBP width where
    i: "infixOperator p = (operator, leftBP, rightBP, width)" by (cases "infixOperator p") blast
  have stop: "stops m p \<Longrightarrow> parses b l p (\<lambda>e q. loopInv m left p \<longrightarrow> exprPost b m e q) (Some (left, p))"
    by (auto simp: loopInv_def exprPost_def intro: parses_Some pmove_refl)
  have postfix: "stops m p" if "currentKind p \<in> {LeftParen, Dot, LeftBracket}"
    using that by (auto simp: stops_def infixOperator_def Let_def)
  show ?case
  proof (cases l)
    case 0
    then show ?thesis by (simp add: parses_zero)
  next
    case (Suc l')
    note tail = parses_tail [OF Suc.IH]
    note level = Suc.prems Suc
    have step: "\<not> atEOF p" if "currentKind p \<in> {LeftParen, Dot, LeftBracket} \<or> width \<noteq> 0"
      using that infixOperator_power [OF i] by (auto simp: atEOF_def)
    show ?thesis
      unfolding expressionLoop.simps i Suc Let_def [where ?'a = "string \<times> nat \<times> nat \<times> nat"]
        Let_def [where ?'a = parser] prod.case
    proof (intro parses_if stop [unfolded Suc])
      show "check Newline p \<Longrightarrow> stops m p" by (simp add: stops_def)
      show "check LeftParen p \<Longrightarrow> stops m p" "check Dot p \<Longrightarrow> stops m p" "check LeftBracket p \<Longrightarrow> stops m p"
        by (rule postfix, simp add: check_def)+
      show "width = 0 \<or> leftBP < m \<Longrightarrow> stops m p" using i by (auto simp: stops_def)
    next
      assume c: "check LeftParen p"
      show "parses b (Suc l') p (\<lambda>e q. loopInv m left p \<longrightarrow> exprPost b m e q)
          (parseCall R left p \<bind> (\<lambda>(x, y). expressionLoop R m k x y))"
        by (rule parses_consumes [OF consumes_step],
            use c in \<open>simp add: atEOF_def check_def\<close>)
          (intro parses_bind [OF parses_level [OF parseCall_ok [OF c]]] tail pmove_refl;
            use level in \<open>auto dest: loopInv_ok prefix_loopInv [of _ _ m]\<close>)
    next
      assume c: "check Dot p"
      show "parses b (Suc l') p (\<lambda>e q. loopInv m left p \<longrightarrow> exprPost b m e q)
          (let (x, y) = parseMember left p in expressionLoop R m k x y)"
        by (rule parses_consumes [OF consumes_step],
            use c in \<open>simp add: atEOF_def check_def\<close>)
          (intro parses_pair tail pmove_refl pmove_member_step;
            use level parseMember_ok [of left p] in \<open>auto dest: loopInv_ok prefix_loopInv [of _ _ m]\<close>)
    next
      assume c: "check LeftBracket p"
      show "parses b (Suc l') p (\<lambda>e q. loopInv m left p \<longrightarrow> exprPost b m e q)
          (parseIndexOrSlice R left p \<bind> (\<lambda>(x, y). expressionLoop R m k x y))"
        by (rule parses_consumes [OF consumes_step],
            use c in \<open>simp add: atEOF_def check_def\<close>)
          (intro parses_bind [OF parses_level [OF parseIndexOrSlice_ok]] tail pmove_refl;
            use level in \<open>auto dest: loopInv_ok prefix_loopInv [of _ _ m]\<close>)
    next
      assume c: "\<not> check Newline p" "\<not> (width = 0 \<or> leftBP < m)"
      then have e: "\<not> atEOF p" using infixOperator_power [OF i] by simp
      show "parses b (Suc l') p (\<lambda>e q. loopInv m left p \<longrightarrow> exprPost b m e q)
          (parseRequiredExpression R rightBP (mOperand operator) (skipNewlines (steps width p)) \<bind>
            (\<lambda>(right, p2). expressionLoop R m k
              (BinaryExpr (base p (spanStart left) (spanEnd right)) left operator right) p2))"
        by (rule parses_consumes [OF consumes_steps [OF e, of width]], use c in simp)
          (intro parses_bind [OF parses_level [OF required_call]] tail pmoves;
            use level c binary_loopInv [OF i] in auto)
    qed
  qed
qed simp

lemma expressionLoop_call:
  "pmove p q \<Longrightarrow> parses b (Suc n) p (\<lambda>e p'. loopInv m left q \<longrightarrow> exprPost b m e p')
     (expressionLoop R m (enough q) left q)"
proof -
  assume q: "pmove p q"
  have "parses b (Suc n) q (\<lambda>e p'. loopInv m left q \<longrightarrow> exprPost b m e p')
      (expressionLoop R m (enough q) left q)"
    by (rule parses_self, rule expressionLoop_ok) auto
  from parses_shift [OF this q] show ?thesis by (rule parses_mono) auto
qed

lemma parseExpression_ok: "parses b (Suc n) p (exprPost b m) (parseExpression R m p)"
  unfolding parseExpression_def
  by (intro parses_bind [OF parsePrefix_ok] parses_mono [OF expressionLoop_call] pmoves)
    (auto dest: prefix_loopInv)

end

end
