(* ===== verification/ParserStmtProofs.thy ===== *)
theory ParserStmtProofs
  imports ParserProofs
begin

text \<open>
  The statement functions keep the contract of \<open>recursive_parsers\<close>, so the knot \<open>procs_at\<close>
  satisfies it at every depth, and \<open>Parse\<close> returns a program that obeys \<open>Grammar\<close>.
\<close>

lemma expect_clean: "expect k m p = (t, q) \<Longrightarrow> clean q \<Longrightarrow> clean p"
  by (auto simp: expect_def advance_def Let_def split: if_splits)

lemma parses_match:
  assumes "EOF \<notin> set ks"
    "currentKind p \<in> set ks \<Longrightarrow> parses b n (step p) Q (f True (step p))"
    "currentKind p \<notin> set ks \<Longrightarrow> parses b (Suc n) p Q (f False p)"
  shows "parses b (Suc n) p Q (let (c, q) = match ks p in f c q)"
proof (cases "currentKind p \<in> set ks")
  case True
  with assms(1) have "\<not> atEOF p" by (auto simp: atEOF_def)
  moreover have "parses b n (step p) (\<lambda>a p'. (b \<longrightarrow> clean (step p)) \<longrightarrow> p_index p < p_index p' \<longrightarrow> Q a p')
      (f True (step p))"
    using assms(2) [OF True] by (rule parses_mono) blast
  ultimately have "parses b (Suc n) p Q (f True (step p))" by (rule parses_consumes [OF consumes_step])
  with True show ?thesis by (simp add: match_def)
qed (use assms in \<open>simp add: match_def\<close>)

lemma parses_match0:
  "(currentKind p \<in> set ks \<Longrightarrow> parses b n p Q (f True (step p))) \<Longrightarrow>
   (currentKind p \<notin> set ks \<Longrightarrow> parses b n p Q (f False p)) \<Longrightarrow>
   parses b n p Q (let (c, q) = match ks p in f c q)"
  by (simp add: match_def)

lemma parses_good: "(good p \<Longrightarrow> parses b n p Q r) \<Longrightarrow> parses b n p Q r"
  by (simp add: parses_def)

lemma identifier_canAssign: "isIdentifierExpr e \<Longrightarrow> expressionCanAssign e"
  by (cases e) (simp_all add: isIdentifierExpr_def expressionCanAssign_def)

lemma conditionOk_simp [simp]: "conditionOk (StateCondition s m d blk) = ((m = None) = d)"
  by (simp add: conditionOk_def)

text \<open>Recovery from a bad clause gets past the newline it stops at.\<close>

lemma consumes_recovery:
  assumes "currentKind p \<noteq> t" "currentKind p \<noteq> RightBrace" "\<not> atEOF p"
  shows "consumes p (skipNewlines (synchronize t (errorCurrent c x p)))"
proof (unfold consumes_def, intro impI conjI)
  let ?q = "errorCurrent c x p"
  assume p: "ready p"
  have "pmove p (skipNewlines (synchronize t ?q))" by (intro pmoves)
  with p show "moves p (skipNewlines (synchronize t ?q))" by (simp add: pmove_def)
  have q: "ready ?q" "p_index ?q = p_index p" using p by simp_all
  have "moves ?q (synchronize t ?q)" unfolding synchronize_def using q(1) by (rule moves_skipUntil)
  then have s: "ready (synchronize t ?q)" using q(1) by (rule moves_ready)
  show "p_index p < p_index (skipNewlines (synchronize t ?q))"
  proof (cases "currentKind p = Newline")
    case True
    then have "synchronize t ?q = ?q" by (simp add: synchronize_def skipUntil.simps [of _ ?q])
    with True skipNewlines_progress [OF q(1)] q(2) show ?thesis by (simp add: check_def)
  next
    case False
    then have "p_index ?q < p_index (synchronize t ?q)"
      unfolding synchronize_def using assms q by (intro skipUntil_progress) auto
    also have "\<dots> \<le> p_index (skipNewlines (synchronize t ?q))"
      using moves_skipNewlines [OF s] by (simp add: moves_def)
    finally show ?thesis by simp
  qed
qed

text \<open>Statements without a recursive call.\<close>

lemma importItem_ok: "parses b n p (\<lambda>_ _. True \<longrightarrow> True) (importItem names p)"
  unfolding importItem_def by (intro parses_rules pmoves) simp

lemma parseBring_ok: "parses b n p (\<lambda>s _. okS b scope s) (parseBring p)"
  unfolding parseBring_def plain_lets
  by (intro parses_rules pmoves parses_bind [OF listLoop_call [where I = "\<lambda>_. True", OF importItem_ok]])
    (auto simp: stmtNode_def)

lemma leadingDot_ok: "parses b n p (\<lambda>s _. \<not> b \<and> (\<exists>x. s = ExprStmt x (BadExpr x)))
  (Some (parseLeadingDotContinuation p))"
proof (rule parses_good)
  assume p: "good p"
  let ?p2 = "errorSpan codeLeadingDotContinuation mLeadingDot (TokenSpan (current p)) (step p)"
  obtain e p3 where c: "consumeDotContinuation (End (TokenSpan (current p))) ?p2 = (e, p3)" by force
  have "pmove p ?p2" by (intro pmoves)
  then have m1: "moves p ?p2" using p by (simp add: pmove_def good_def)
  then have "moves ?p2 p3"
    using moves_consumeDotContinuation [OF moves_ready [OF m1]] p c by (metis good_def snd_conv)
  moreover from this have "\<not> clean p3" by (auto dest: moves_clean)
  ultimately have "moves p (p3\<lparr>p_recoveredDot := True\<rparr>)" "\<not> clean p3"
    using m1 by (auto simp: moves_def dest: extends_trans)
  then show ?thesis
    using c by (auto simp: parses_def parseLeadingDotContinuation_def Let_def advance_def
        split: prod.splits)
qed

context recursive_parsers
begin

text \<open>Declarations.\<close>

lemma parseInferredDeclaration_ok:
  assumes "pmove p0 (snd (expect Declare xDeclare
    (if \<not> isIdentifierExpr target
     then errorSpan codeInvalidInferredTarget mInferredTarget (exprSpan target) p else p)))"
  shows "parses b n p0 (\<lambda>s _. okE b target \<longrightarrow> okS b scope s)
    (parseInferredDeclaration R start target ms p)"
  unfolding parseInferredDeclaration_def plain_lets Let_def [where ?'a = parser]
  by (intro parses_rules pmoves assms assigned_bind)
    (auto simp: stmtNode_def declarationOk_def identifier_canAssign
      dest!: requireSameLineRHS_reported expect_clean split: if_splits)

lemma parsePrefixUpdate_ok:
  assumes "currentKind p \<in> {Increment, Decrement}"
  shows "parses b (Suc n) p (\<lambda>s _. okS b scope s) (parsePrefixUpdate R p)"
proof -
  have e: "\<not> atEOF p" using assms by (auto simp: atEOF_def)
  show ?thesis
    unfolding parsePrefixUpdate_def plain_lets
    by (rule parses_consumes [OF consumes_step [OF e]])
      (intro parses_rules pmoves expression_bind;
        use assms in \<open>auto simp: stmtNode_def advance_def currentKind_def split: if_splits\<close>)
qed

lemma parseFunctionDecl_ok:
  "parses b n p (\<lambda>s _. okS b scope s) (parseFunctionDecl R start name ms flavor scope p)"
proof -
  have c: "parses b n q (\<lambda>_ _. True)
      (if uses' then do { (result, q') \<leftarrow> parseCaptureListFor ''Function'' (skipNewlines q);
                          Some (result, skipNewlines q') }
       else Some (([], False), q))" for q uses'
    by (intro parses_rules pmoves captureList_bind1) auto
  show ?thesis
    unfolding parseFunctionDecl_def plain_lets
    by (intro parses_rules pmoves parameterList_bind typeRef_bind block_bind
        parses_bind2 [OF parses_shift [OF c]])
      (auto simp: stmtNode_def split: if_splits)
qed

lemma parseClassDecl_ok:
  "parses b n p (\<lambda>s _. okS b scope s) (parseClassDecl R start name ms t scope p)"
  unfolding parseClassDecl_def plain_lets
  by (intro parses_rules pmoves statementList_bind)
    (auto simp: stmtNode_def dest: expect_clean split: if_splits)

lemma parseStructureDecl_ok:
  "parses b n p (\<lambda>s _. okS b scope s) (parseStructureDecl R start scope p)"
  unfolding parseStructureDecl_def plain_lets
  by (intro parses_rules pmoves parameterList_bind block_bind)
    (auto simp: stmtNode_def split: if_splits)

lemma declaredValue_ok:
  assumes "b \<longrightarrow> lineBroken \<longrightarrow> \<not> clean p"
  shows "parses b n p (\<lambda>s _. okE b target \<longrightarrow> (b \<longrightarrow> expressionCanAssign target) \<longrightarrow> okS b scope s)
    (declaredValue R start target ms flavor t scope lineBroken p)"
  unfolding declaredValue_def plain_lets
  by (intro parses_rules pmoves assigned_bind parses_mono [OF parseStructureDecl_ok]
      parses_mono [OF parseFunctionDecl_ok] parses_mono [OF parseClassDecl_ok])
    (use assms in \<open>auto simp: stmtNode_def declarationOk_def\<close>)

lemma typedDeclaration_ok:
  "parses b n p (\<lambda>s _. okE b target \<longrightarrow> (b \<longrightarrow> expressionCanAssign target) \<longrightarrow> okS b scope s)
    (typedDeclaration R start target ms flavor scope p)"
  unfolding typedDeclaration_def plain_lets
  by (intro parses_rules pmoves typeRef_bind parses_mono [OF declaredValue_ok])
    (auto simp: stmtNode_def declarationOk_def hasModifier_def dest: requireSameLineRHS_reported)

lemma parseDeclaration_ok:
  "parses b n p (\<lambda>s _. okE b target \<longrightarrow> okS b scope s) (parseDeclaration R start target scope p)"
  unfolding parseDeclaration_def plain_lets
  by (intro parses_rules pmoves parses_mono [OF parseInferredDeclaration_ok]
      parses_mono [OF typedDeclaration_ok])
    (auto simp: stmtNode_def declarationOk_def hasModifier_def identifier_canAssign
      dest: identifier_canAssign split: if_splits)

lemma parseAssignment_ok:
  assumes "isAssignmentOperator (currentKind p)"
  shows "parses b (Suc n) p (\<lambda>s _. okE b target \<longrightarrow> okS b scope s) (parseAssignment R start target p)"
proof -
  have e: "\<not> atEOF p" using assms by (auto simp: isAssignmentOperator_def atEOF_def)
  have "Kind_String (KindOf (current p)) \<in> assignmentOperators"
    using assms by (auto simp: isAssignmentOperator_def assignmentOperators_def currentKind_def)
  then show ?thesis
    unfolding parseAssignment_def plain_lets
    by (intro parses_consumes [OF consumes_step [OF e]] parses_rules pmoves assigned_bind)
      (auto simp: stmtNode_def advance_def dest: requireSameLineRHS_reported split: if_splits)
qed

lemma previous_step: "ready p \<Longrightarrow> \<not> atEOF p \<Longrightarrow> previous (step p) = current p"
  using ready_movable [of p] by (simp add: previous_def advance_def ready_current)

lemma postfixUpdate_ok:
  assumes "currentKind p \<in> set [Increment, Decrement]"
  shows "parses b (Suc n) p (\<lambda>s _. okE b e \<longrightarrow> okS b scope s)
     (let p4 = (if \<not> expressionCanAssign e
                then errorSpan codeInvalidStandaloneUpdate mUpdateTarget (exprSpan e) (step p)
                else step p)
      in Some (IncDecStmt span e (Kind_String (KindOf (previous (step p)))) False, p4))"
proof (rule parses_good)
  assume "good p"
  moreover have e: "\<not> atEOF p" using assms by (auto simp: atEOF_def)
  ultimately have "previous (step p) = current p" by (simp add: good_def previous_step)
  with assms have "Kind_String (KindOf (previous (step p))) \<in> {''++'', ''--''}"
    by (auto simp: currentKind_def)
  then show ?thesis
    unfolding plain_lets
    by (intro parses_consumes [OF consumes_step [OF e]] parses_rules pmoves)
      (auto simp: stmtNode_def split: if_splits)
qed

lemma parseSimpleStatement_ok:
  "parses b (Suc n) p (\<lambda>s _. okS b scope s) (parseSimpleStatement R scope p)"
proof -
  have inferred: "parses b (Suc n) q (\<lambda>s _. okE b e \<longrightarrow> okS b scope s)
      (parseInferredDeclaration R start e [] q)" if "check Declare q" for q e start
  proof -
    let ?q = "if \<not> isIdentifierExpr e
      then errorSpan codeInvalidInferredTarget mInferredTarget (exprSpan e) q else q"
    have "consumes ?q (snd (expect Declare xDeclare ?q))"
      using that by (intro consumes_expect) auto
    moreover have "pmove q ?q" by (intro pmoves)
    ultimately have "consumes q (snd (expect Declare xDeclare ?q))" by (blast intro: consumes_trans2)
    then show ?thesis
      by (rule parses_consumes) (rule parses_mono [OF parseInferredDeclaration_ok [OF pmove_refl]], blast)
  qed
  show ?thesis
    unfolding parseSimpleStatement_def plain_lets
    by (intro parses_bind [OF parseExpression_ok] parses_match; (simp only: if_True if_False)?)
      (simp, (intro parses_if parses_mono [OF parseDeclaration_ok] parses_mono [OF inferred] pmoves
         parses_mono [OF parseAssignment_ok] parses_mono [OF postfixUpdate_ok] parses_match0 parses_Some;
       auto simp: stmtNode_def)+)
qed

text \<open>Control statements.\<close>

lemma conditionAndBlock_ok:
  "parses b n p (\<lambda>r _. okE b (fst r) \<and> okB b (snd r)) (conditionAndBlock R p)"
  unfolding conditionAndBlock_def by (intro parses_rules pmoves expression_bind block_bind) auto

lemmas conditionAndBlock_bind = parses_bind2 [OF parses_shift [OF conditionAndBlock_ok]]

lemma elseLoop_ok:
  "m < k \<Longrightarrow> m \<le> n \<Longrightarrow> parses b m p
     (\<lambda>r _. list_all (allBranch (exprNode b) (stmtNode b)) bs \<longrightarrow> bs \<noteq> [] \<longrightarrow>
        list_all (allBranch (exprNode b) (stmtNode b)) (fst r) \<and> fst r \<noteq> []
        \<and> pred_option (okB b) (fst (snd r)))
     (elseLoop R k bs e p)"
proof (induction k arbitrary: m bs e p)
  case (Suc k)
  obtain found p1 where f: "consumeClauseKeyword KeywordElse p = (found, p1)" by force
  have mv: "pmove p (snd (consumeClauseKeyword KeywordElse p))" by (intro pmoves)
  note tail = parses_tail [OF Suc.IH]
  show ?case
  proof (cases "found \<and> m \<noteq> 0")
    case True
    then obtain m' where m: "m = Suc m'" by (cases m) auto
    from f True have c: "consumes p p1" by (auto intro: consumes_clause)
    show ?thesis
      unfolding elseLoop.simps f m Let_def [of "(found, p1)"] prod.case
      by (rule parses_consumes [OF c], rule parses_if)
        (use True in simp, (intro parses_rules pmoves tail
           parses_bind2 [OF parses_level [OF parses_shift [OF conditionAndBlock_ok]]]
           parses_bind [OF parses_level [OF parses_shift [OF parseBlock_ok]]];
         use Suc.prems m in \<open>auto simp: branchOf_def\<close>)+)
  next
    case False
    with f mv show ?thesis
      by (cases "m = 0") (auto simp: parses_zero Let_def intro!: parses_Some)
  qed
qed simp

lemma elseLoop_call:
  "pmove p q \<Longrightarrow> parses b n p
     (\<lambda>r _. list_all (allBranch (exprNode b) (stmtNode b)) bs \<longrightarrow> bs \<noteq> [] \<longrightarrow>
        list_all (allBranch (exprNode b) (stmtNode b)) (fst r) \<and> fst r \<noteq> []
        \<and> pred_option (okB b) (fst (snd r)))
     (elseLoop R (enough q) bs e q)"
  by (rule parses_tail [OF parses_self [OF elseLoop_ok]]) auto

lemma parseIf_ok: "\<not> atEOF p \<Longrightarrow> parses b (Suc n) p (\<lambda>s _. okS b scope s) (parseIf R p)"
  unfolding parseIf_def plain_lets
  by (rule parses_consumes [OF consumes_step], assumption)
    (intro parses_rules pmoves conditionAndBlock_bind parses_bind3 [OF elseLoop_call];
     auto simp: stmtNode_def branchOf_def)

lemma parseWhile_ok: "\<not> atEOF p \<Longrightarrow> parses b (Suc n) p (\<lambda>s _. okS b scope s) (parseWhile R p)"
  unfolding parseWhile_def plain_lets
  by (rule parses_consumes [OF consumes_step], assumption)
    (intro parses_rules pmoves conditionAndBlock_bind; auto simp: stmtNode_def)

lemma parseUntil_ok: "\<not> atEOF p \<Longrightarrow> parses b (Suc n) p (\<lambda>s _. okS b scope s) (parseUntil R p)"
  unfolding parseUntil_def plain_lets
  by (rule parses_consumes [OF consumes_step], assumption)
    (intro parses_rules pmoves conditionAndBlock_bind; auto simp: stmtNode_def)

lemma parseFor_ok: "\<not> atEOF p \<Longrightarrow> parses b (Suc n) p (\<lambda>s _. okS b scope s) (parseFor R p)"
proof -
  assume e: "\<not> atEOF p"
  have t: "parses b n q (\<lambda>_ _. True)
      (if colon
       then do {
         let q' = (if isDeclarationModifier (currentKind q)
                  then skipModifiers (errorCurrent codeInvalidControlSyntax mForModifier q) else q);
         (t, q1) \<leftarrow> rTypeRef R q';
         Some (Some t, q1)
       }
       else Some (None, q))" for q colon
    by (intro parses_rules pmoves typeRef_bind) auto
  show ?thesis
    unfolding parseFor_def plain_lets
    by (rule parses_consumes [OF consumes_step [OF e]])
      (intro parses_rules pmoves expression_bind block_bind parses_bind [OF parses_shift [OF t]];
       auto simp: stmtNode_def)
qed

lemma conditionLoop_ok:
  "m < k \<Longrightarrow> m \<le> n \<Longrightarrow> parses b m p
     (\<lambda>cs' _. list_all (allCondition (exprNode b) (stmtNode b)) cs \<and> list_all conditionOk cs \<longrightarrow>
        list_all (allCondition (exprNode b) (stmtNode b)) cs' \<and> list_all conditionOk cs')
     (conditionLoop R k cs p)"
proof (induction k arbitrary: m cs p)
  case (Suc k)
  let ?I = "\<lambda>cs. list_all (allCondition (exprNode b) (stmtNode b)) cs \<and> list_all conditionOk cs"
  note tail = parses_tail [OF Suc.IH]
  show ?case
  proof (cases "check RightBrace p \<or> atEOF p \<or> m = 0")
    case True
    then show ?thesis by (auto intro: parses_Some pmove_refl parses_zero)
  next
    case False
    then obtain m' where m: "m = Suc m'" by (cases m) auto
    show ?thesis
    proof (cases "currentKind p = KeywordCondition")
      case True
      have opt: "parses b m' q (\<lambda>e _. pred_option (okE b) e \<and> (e = None) = d)
          (if \<not> d then do { (e, q') \<leftarrow> rExpression R 0 q; Some (Some e, q') } else Some (None, q))"
        for q d
        using Suc.prems m
        by (intro parses_rules pmoves parses_bind [OF parses_level [OF expression_call]]) auto
      have "parses b m' (step p) (\<lambda>cs' _. ?I cs \<longrightarrow> ?I cs')
          (let (isDefault, p2) = match [KeywordDefault] (step p) in do {
             (match', p3) \<leftarrow>
               (if \<not> isDefault
                then do { (e, q) \<leftarrow> rExpression R 0 p2; Some (Some e, q) }
                else Some (None, p2));
             (body, p4) \<leftarrow> parseBlock R p3;
             conditionLoop R k
               (cs @ [StateCondition (base p (curStart p) (End (blockSpan body))) match' isDefault body])
               (skipNewlines p4) })"
        by (intro parses_rules pmoves parses_bind [OF parses_shift [OF opt]]
            parses_bind [OF parses_level [OF parses_shift [OF parseBlock_ok]]] tail;
          use Suc.prems m in auto)
      then have "parses b m' (step p) (\<lambda>a p'. (b \<longrightarrow> clean (step p)) \<longrightarrow> p_index p < p_index p' \<longrightarrow>
          ?I cs \<longrightarrow> ?I a) (conditionLoop R (Suc k) cs p)"
        using True False by (simp add: match_def parses_mono Let_def)
      then show ?thesis unfolding m using False by (intro parses_consumes [OF consumes_step]) auto
    next
      case no: False
      let ?q = "skipNewlines (synchronize RightBrace (errorCurrent codeInvalidControlSyntax mStateClause p))"
      have c: "consumes p ?q" using False by (intro consumes_recovery) (auto simp: check_def)
      show ?thesis
        unfolding m using no False
        by (simp add: match_def Let_def) (rule parses_consumes [OF c], rule tail;
          use Suc.prems m in \<open>auto simp: pmove_refl\<close>)
    qed
  qed
qed simp

lemma conditionLoop_call:
  "pmove p q \<Longrightarrow> parses b n p
     (\<lambda>cs' _. list_all (allCondition (exprNode b) (stmtNode b)) cs \<and> list_all conditionOk cs \<longrightarrow>
        list_all (allCondition (exprNode b) (stmtNode b)) cs' \<and> list_all conditionOk cs')
     (conditionLoop R (enough q) cs q)"
  by (rule parses_tail [OF parses_self [OF conditionLoop_ok]]) auto

lemma parseState_ok: "\<not> atEOF p \<Longrightarrow> parses b (Suc n) p (\<lambda>s _. okS b scope s) (parseState R p)"
  unfolding parseState_def plain_lets
  by (rule parses_consumes [OF consumes_step], assumption)
    (intro parses_rules pmoves expression_bind parses_bind [OF conditionLoop_call];
     auto simp: stmtNode_def)

lemma exceptLoop_ok:
  "m < k \<Longrightarrow> m \<le> n \<Longrightarrow> parses b m p
     (\<lambda>r _. list_all (allExcept (exprNode b) (stmtNode b)) xs \<longrightarrow>
        list_all (allExcept (exprNode b) (stmtNode b)) (fst r))
     (exceptLoop R k xs e p)"
proof (induction k arbitrary: m xs e p)
  case (Suc k)
  obtain found p1 where f: "consumeClauseKeyword KeywordExcept p = (found, p1)" by force
  have mv: "pmove p (snd (consumeClauseKeyword KeywordExcept p))" by (intro pmoves)
  note tail = parses_tail [OF Suc.IH]
  show ?case
  proof (cases "found \<and> m \<noteq> 0")
    case True
    then obtain m' where m: "m = Suc m'" by (cases m) auto
    from f True have c: "consumes p p1" by (auto intro: consumes_clause)
    show ?thesis
      unfolding exceptLoop.simps f m Let_def [of "(found, p1)"] prod.case plain_lets
      by (rule parses_consumes [OF c], rule parses_if)
        (use True in simp, (intro parses_rules pmoves tail
           parses_bind [OF parses_level [OF typeRef_call]]
           parses_bind [OF parses_level [OF parses_shift [OF parseBlock_ok]]];
         use Suc.prems m in auto)+)
  next
    case False
    with f mv show ?thesis
      by (cases "m = 0") (auto simp: parses_zero Let_def intro!: parses_Some)
  qed
qed simp

lemma exceptLoop_call:
  "pmove p q \<Longrightarrow> parses b n p
     (\<lambda>r _. list_all (allExcept (exprNode b) (stmtNode b)) xs \<longrightarrow>
        list_all (allExcept (exprNode b) (stmtNode b)) (fst r))
     (exceptLoop R (enough q) xs e q)"
  by (rule parses_tail [OF parses_self [OF exceptLoop_ok]]) auto

lemma parseAttempt_ok: "\<not> atEOF p \<Longrightarrow> parses b (Suc n) p (\<lambda>s _. okS b scope s) (parseAttempt R p)"
proof -
  assume e: "\<not> atEOF p"
  have u: "parses b n q (\<lambda>u _. pred_option (okB b) u)
      (if found then do { (blk, q') \<leftarrow> parseBlock R q; Some (Some blk, q') } else Some (None, q))"
    for q found
    by (intro parses_rules pmoves block_bind) auto
  show ?thesis
    unfolding parseAttempt_def plain_lets
    by (rule parses_consumes [OF consumes_step [OF e]])
      (intro parses_rules pmoves block_bind parses_bind2 [OF exceptLoop_call]
         parses_bind [OF parses_shift [OF u]];
       auto simp: stmtNode_def split: if_splits)
qed

lemma parseReturn_ok: "\<not> atEOF p \<Longrightarrow> parses b (Suc n) p (\<lambda>s _. okS b scope s) (parseReturn R p)"
  unfolding parseReturn_def plain_lets
  by (rule parses_consumes [OF consumes_step], assumption)
    (intro parses_rules pmoves expression_bind; auto simp: stmtNode_def)

lemma parseToss_ok: "\<not> atEOF p \<Longrightarrow> parses b (Suc n) p (\<lambda>s _. okS b scope s) (parseToss R p)"
  unfolding parseToss_def plain_lets
  by (rule parses_consumes [OF consumes_step], assumption)
    (intro parses_rules pmoves expression_bind; auto simp: stmtNode_def exprNode_def)

lemma requirePath_ok:
  "parses b (Suc n) p (\<lambda>r _. b \<longrightarrow> snd (snd r)) (requirePath R p)"
  unfolding requirePath_def
  by (intro parses_rules pmoves parses_bind [OF parseString_ok]; auto simp: check_def atEOF_def)

lemma parseRequire_ok:
  "currentKind p = KeywordRequire \<Longrightarrow> parses b (Suc n) p (\<lambda>s _. okS b scope s) (parseRequire R scope p)"
  unfolding parseRequire_def plain_lets
  by (intro parses_rules pmoves parses_bind3 [OF parses_shift [OF requirePath_ok]];
      auto simp: stmtNode_def split: if_splits dest: expect_clean)

lemma parseStatement_ok: "parses b (Suc n) p (\<lambda>s _. okS b scope s) (parseStatement R scope p)"
  unfolding parseStatement_def plain_lets
  by (intro parses_if parseIf_ok parseWhile_ok parseUntil_ok parseFor_ok parseState_ok parseAttempt_ok
      parses_Some pmoves parseReturn_ok parseToss_ok parseBring_ok
      parseRequire_ok parsePrefixUpdate_ok parses_mono [OF leadingDot_ok] parseSimpleStatement_ok)
   (auto simp: atEOF_def stmtNode_def exprNode_def)

end

text \<open>The knot: at depth \<open>n\<close> it serves every state with at most \<open>n\<close> tokens left.\<close>

lemma recursive_procs_at: "recursive_parsers (procs_at n) n b"
proof (induction n arbitrary: b)
  case 0
  show ?case by (rule recursive_parsers.intro) (simp_all add: parses_zero)
next
  case (Suc n)
  then show ?case
    by (intro recursive_parsers.intro)
      (simp_all add: Let_def recursive_parsers.parseExpression_ok recursive_parsers.parseStatement_ok
        recursive_parsers.parseTypeRef_ok)
qed

interpretation knot: recursive_parsers "procs_at n" n b for n b
  by (rule recursive_procs_at)

subsection \<open>Parse\<close>

lemma good_newParser:
  assumes "tokensOk tokens"
  shows "good (newParser file tokens)"
  using assms by (auto simp: good_def ready_def newParser_def ownedTokens_def tokensOk_def syntheticToken_def Let_def)

text \<open>A statement list that ends at EOF leaves the cursor there.\<close>

lemma statementLoop_end:
  "statementLoop R c t k ss p = Some (ss', p') \<Longrightarrow> check t p' \<or> atEOF p'"
  by (induction k arbitrary: ss p) (auto simp: Let_def split: if_splits Option.bind_splits)

text \<open>What \<open>Parse\<close> promises: it read up to an EOF token, and every statement obeys the grammar.\<close>

definition parsedBy :: "bool \<Rightarrow> File \<Rightarrow> Token list \<Rightarrow> ParseResult \<Rightarrow> bool" where
  "parsedBy b file tokens r \<longleftrightarrow>
     ResParseTokens r = ownedTokens file tokens
     \<and> (\<exists>t \<in> set (ownedTokens file tokens). KindOf t = EOF
          \<and> End (ProgramSpan (ResProgram r)) = End (TokenSpan t))
     \<and> onlyErrors (ResParseDiagnostics r)
     \<and> ((b \<longrightarrow> ResParseDiagnostics r = []) \<longrightarrow>
          list_all (okS b scopeModule) (Statements (ResProgram r)))"

lemma Parse_parsedBy:
  assumes "tokensOk tokens"
  shows "returns (parsedBy b file tokens) (Parse file tokens)"
proof -
  let ?p = "newParser file tokens" and ?n = "length (ownedTokens file tokens)"
  have p: "good ?p" "tokensLeft ?p \<le> ?n"
    using good_newParser [OF assms] by (simp_all add: newParser_def tokensLeft_def)
  from parsesE [OF knot.statementList_ok [where c = scopeModule and t = EOF and b = b] p]
  obtain ss p1 where
    s: "parseStatementList (procs_at ?n) scopeModule EOF ?p = Some (ss, p1)" "moves ?p p1"
      "(b \<longrightarrow> clean p1) \<longrightarrow> list_all (okS b scopeModule) ss" .
  have e: "KindOf (current p1) = EOF"
    using statementLoop_end [OF s(1) [unfolded parseStatementList_def Let_def]]
    by (auto simp: check_def atEOF_def currentKind_def)
  have "ready p1" using s(2) p(1) by (auto simp: good_def intro: moves_ready)
  then have "current p1 \<in> set (p_tokens ?p)" using current_in s(2) by (fastforce simp: moves_def)
  then have "current p1 \<in> set (ownedTokens file tokens)" by (simp add: newParser_def)
  moreover have "onlyErrors (p_bag p1)" using s(2) by (simp add: moves_def newParser_def)
  ultimately show ?thesis
    using e s by (auto simp: Parse_def parseProgram_def Let_def parsedBy_def Bag_Items_def base_def
        newParser_def)
qed

end
