(* ===== verification/Frontend.thy ===== *)
theory Frontend
  imports LexerProofs ParserStmtProofs
begin

text \<open>
  The front end of one file as the module compiler runs it (\<open>internal/module/compiler.go\<close>): the
  lexer, then the parser on its tokens. The contracts of both are joined here, and the conditions
  of \<open>Grammar\<close> are split into the ones that the properties name.
\<close>

definition frontEnd :: "unicode \<Rightarrow> File \<Rightarrow> (LexResult \<times> ParseResult) option" where
  "frontEnd uc file = do {
    lexed \<leftarrow> Lex uc file;
    parsed \<leftarrow> Parse file (ResTokens lexed);
    Some (lexed, parsed)
  }"

lemma lexed_tokensOk: "lexed f toks bag \<Longrightarrow> tokensOk toks"
  by (auto simp: lexed_def tokensOk_def list_all_iff tokenOk_def)

lemma lexed_owned: "lexed f toks bag \<Longrightarrow> ownedTokens f toks = toks"
  by (auto simp: lexed_def ownedTokens_def)

lemma lexed_EOF: "lexed f toks bag \<Longrightarrow> t \<in> set toks \<Longrightarrow> KindOf t = EOF \<Longrightarrow>
    Offset (End (TokenSpan t)) = int (length (Text f))"
  by (auto simp: lexed_def list_all_iff tokenOk_def)

text \<open>Everything that is known of one run.\<close>

definition frontEndOk :: "File \<Rightarrow> LexResult \<times> ParseResult \<Rightarrow> bool" where
  "frontEndOk file r \<longleftrightarrow> lexed file (ResTokens (fst r)) (ResDiagnostics (fst r))
     \<and> (\<forall>b. parsedBy b file (ResTokens (fst r)) (snd r))"

lemma frontEnd_ok: "returns (frontEndOk file) (frontEnd uc file)"
proof -
  obtain l where l: "Lex uc file = Some l" "lexed file (ResTokens l) (ResDiagnostics l)"
    using Lex_lexed by (rule returnsE)
  then have t: "tokensOk (ResTokens l)" by (blast dest: lexed_tokensOk)
  obtain q where q: "Parse file (ResTokens l) = Some q"
    using Parse_parsedBy [OF t] by (rule returnsE)
  have "parsedBy b file (ResTokens l) q" for b
    using Parse_parsedBy [OF t] q by (metis returns_Some)
  with l q show ?thesis by (simp add: frontEnd_def frontEndOk_def)
qed

lemma frontEndOk_errors:
  "frontEndOk file r \<Longrightarrow> ParseResult_HasErrors (snd r) \<longleftrightarrow> ResParseDiagnostics (snd r) \<noteq> []"
  by (cases "ResParseDiagnostics (snd r)")
    (auto simp: frontEndOk_def parsedBy_def ParseResult_HasErrors_def onlyErrors_def)

lemma frontEndOk_grammar:
  "frontEndOk file r \<Longrightarrow> ParseResult_HasErrors (snd r) \<or>
     list_all (okS True scopeModule) (Statements (ResProgram (snd r)))"
proof (cases "ResParseDiagnostics (snd r) = []")
  case True
  moreover assume "frontEndOk file r"
  then have "parsedBy True file (ResTokens (fst r)) (snd r)" by (simp add: frontEndOk_def)
  ultimately show ?thesis by (simp add: parsedBy_def)
qed (simp add: frontEndOk_errors)

lemma frontEndOk_always:
  "frontEndOk file r \<Longrightarrow> list_all (okS False scopeModule) (Statements (ResProgram (snd r)))"
proof -
  assume "frontEndOk file r"
  then have "parsedBy False file (ResTokens (fst r)) (snd r)" by (simp add: frontEndOk_def)
  then show ?thesis by (simp add: parsedBy_def)
qed

subsection \<open>The parts of the grammar\<close>

definition notBad :: "Expr \<Rightarrow> bool" where
  "notBad e = (case e of BadExpr _ \<Rightarrow> False | _ \<Rightarrow> True)"

definition precedenceOk :: "Expr \<Rightarrow> bool" where
  "precedenceOk e =
    (case e of
       BinaryExpr _ l oper r \<Rightarrow> oper \<in> infixOperators \<and> leftOperandOk oper l
         \<and> rightOperandOk (rightPower oper) r
     | UnaryExpr _ oper a \<Rightarrow> oper \<in> {''+'', ''-'', ''not''}
         \<and> rightOperandOk (unaryPower oper) a
     | _ \<Rightarrow> True)"

definition placementOk :: "scopeKind \<Rightarrow> Stmt \<Rightarrow> bool" where
  "placementOk scope s =
    (case s of
       RequireStmt _ _ _ literal \<Rightarrow> scope = scopeModule \<and> literal
     | ClassDecl _ _ _ _ _ _ \<Rightarrow> scope = scopeModule
     | StructureDecl _ _ _ \<Rightarrow> scope = scopeClass
     | FunctionDecl _ _ _ flavor _ _ _ _ \<Rightarrow> flavor \<noteq> FunctionOverride \<or> scope = scopeClass
     | _ \<Rightarrow> True)"

definition targetsOk :: "Stmt \<Rightarrow> bool" where
  "targetsOk s =
    (case s of
       AssignmentStmt _ t oper _ \<Rightarrow> oper \<in> assignmentOperators \<and> expressionCanAssign t
     | IncDecStmt _ t oper _ \<Rightarrow> oper \<in> {''++'', ''--''} \<and> expressionCanAssign t
     | VariableDecl _ t n _ ty i g inferred \<Rightarrow> n = targetName t \<and> expressionCanAssign t
         \<and> inferred = (ty = None) \<and> (i = None) = g
         \<and> (isIdentifierExpr t \<or> g \<or> ty \<noteq> None)
     | _ \<Rightarrow> True)"

definition statementShapeOk :: "Stmt \<Rightarrow> bool" where
  "statementShapeOk s =
    (case s of
       BadStmt _ \<Rightarrow> False
     | IfStmt _ branches _ \<Rightarrow> branches \<noteq> []
     | StateStmt _ _ conditions \<Rightarrow> list_all conditionOk conditions
     | VariableDecl _ _ n ms ty i g inferred \<Rightarrow> inferred = (ty = None) \<and> (i = None) = g
         \<and> (ModifierGlobal \<in> set ms \<or> i \<noteq> None)
     | _ \<Rightarrow> True)"

definition parametersInOrder :: "Parameter list \<Rightarrow> bool" where
  "parametersInOrder ps = sorted_wrt (\<lambda>p q. hasDefault p \<longrightarrow> isInherited q \<or> hasDefault q) ps"

definition declaredParameters :: "Stmt \<Rightarrow> Parameter list" where
  "declaredParameters s =
    (case s of FunctionDecl _ _ _ _ ps _ _ _ \<Rightarrow> ps | StructureDecl _ ps _ \<Rightarrow> ps | _ \<Rightarrow> [])"

definition lambdaParameters :: "Expr \<Rightarrow> Parameter list" where
  "lambdaParameters e = (case e of LambdaExpr _ _ ps _ \<Rightarrow> ps | _ \<Rightarrow> [])"

lemma exprNode_parts:
  "exprNode True e \<Longrightarrow> notBad e" "exprNode b e \<Longrightarrow> precedenceOk e"
  "exprNode True e \<Longrightarrow> parametersInOrder (lambdaParameters e)"
  by (cases e; simp add: exprNode_def notBad_def precedenceOk_def lambdaParameters_def
      parametersOk_def parametersInOrder_def)+

lemma stmtNode_parts:
  "stmtNode True c s \<Longrightarrow> placementOk c s" "stmtNode True c s \<Longrightarrow> targetsOk s"
  "stmtNode b c s \<Longrightarrow> statementShapeOk s"
  "stmtNode True c s \<Longrightarrow> parametersInOrder (declaredParameters s)"
  by (cases s; auto simp: stmtNode_def placementOk_def targetsOk_def statementShapeOk_def
      declarationOk_def declaredParameters_def parametersOk_def parametersInOrder_def)+

lemma list_all_allStmt_mono:
  assumes "list_all (allStmt P S c) ss" "\<And>e. P e \<Longrightarrow> Q e" "\<And>c s. S c s \<Longrightarrow> T c s"
  shows "list_all (allStmt Q T c) ss"
proof -
  have "allStmt Q T c s" if "allStmt P S c s" for s
    by (rule allStmt_mono(1) [OF assms(2,3) that])
  with assms(1) show ?thesis by (auto simp: list_all_iff)
qed

text \<open>A property of every run, from one that the contract implies.\<close>

lemma frontEnd_rule:
  "(\<And>r. frontEndOk file r \<Longrightarrow> Q r) \<Longrightarrow> returns Q (frontEnd uc file)"
  using frontEnd_ok by (rule returns_mono)

end
