(* ===== verification/GoStrings.thy ===== *)
theory GoStrings
  imports Prelude "HOL-Library.Sublist"
begin

text \<open>
  The functions of Go's packages \<open>strings\<close> and \<open>path\<close> (\<open>path/filepath\<close> on a system whose
  separator is the slash) that the module compiler calls, as the standard library documents them.
  \<open>Clean\<close>, \<open>Join\<close> and \<open>Rel\<close> work on the list of slash-separated elements of a path.
\<close>

subsection \<open>strings\<close>

fun joinStrings :: "string \<Rightarrow> string list \<Rightarrow> string" where
  "joinStrings sep [] = ''''"
| "joinStrings sep [s] = s"
| "joinStrings sep (s # t # ss) = s @ sep @ joinStrings sep (t # ss)"

definition HasPrefix :: "string \<Rightarrow> string \<Rightarrow> bool" where
  "HasPrefix s p = (take (length p) s = p)"

definition HasSuffix :: "string \<Rightarrow> string \<Rightarrow> bool" where
  "HasSuffix s p = (length p \<le> length s \<and> drop (length s - length p) s = p)"

definition TrimPrefix :: "string \<Rightarrow> string \<Rightarrow> string" where
  "TrimPrefix s p = (if HasPrefix s p then drop (length p) s else s)"

definition TrimSuffix :: "string \<Rightarrow> string \<Rightarrow> string" where
  "TrimSuffix s p = (if HasSuffix s p then take (length s - length p) s else s)"

fun Contains :: "string \<Rightarrow> string \<Rightarrow> bool" where
  "Contains s p = (HasPrefix s p \<or> (case s of [] \<Rightarrow> False | _ # s' \<Rightarrow> Contains s' p))"

declare Contains.simps [simp del]

subsection \<open>path and path/filepath\<close>

abbreviation slash :: char where "slash \<equiv> CHR ''/''"

fun splitSlash :: "string \<Rightarrow> string list" where
  "splitSlash [] = [[]]"
| "splitSlash (c # s) =
    (if c = slash then [] # splitSlash s
     else (case splitSlash s of [] \<Rightarrow> [[c]] | x # xs \<Rightarrow> (c # x) # xs))"

definition joinSlash :: "string list \<Rightarrow> string" where
  "joinSlash = joinStrings ''/''"

definition IsAbs :: "string \<Rightarrow> bool" where
  "IsAbs p = HasPrefix p ''/''"

definition cleanElement :: "bool \<Rightarrow> string list \<Rightarrow> string \<Rightarrow> string list" where
  "cleanElement rooted out element =
    (if element = '''' \<or> element = ''.'' then out
     else if element = ''..'' then
       if out \<noteq> [] \<and> last out \<noteq> ''..'' then butlast out
       else if rooted then out
       else out @ [''..'']
     else out @ [element])"

definition cleanElements :: "bool \<Rightarrow> string list \<Rightarrow> string list" where
  "cleanElements rooted = foldl (cleanElement rooted) []"

definition Clean :: "string \<Rightarrow> string" where
  "Clean p =
    (let out = cleanElements (IsAbs p) (splitSlash p)
     in if IsAbs p then slash # joinSlash out
        else if out = [] then ''.'' else joinSlash out)"

definition PathJoin :: "string list \<Rightarrow> string" where
  "PathJoin elements =
    (case dropWhile (\<lambda>e. e = '''') elements of
       [] \<Rightarrow> ''''
     | es \<Rightarrow> Clean (joinSlash es))"

definition Dir :: "string \<Rightarrow> string" where
  "Dir p = Clean (rev (dropWhile (\<lambda>c. c \<noteq> slash) (rev p)))"

definition Base :: "string \<Rightarrow> string" where
  "Base p =
    (if p = '''' then ''.''
     else
       (let trimmed = dropWhile (\<lambda>c. c = slash) (rev p);
            name = rev (takeWhile (\<lambda>c. c \<noteq> slash) trimmed)
        in if name = '''' then ''/'' else name))"

definition Ext :: "string \<Rightarrow> string" where
  "Ext p =
    (let name = takeWhile (\<lambda>c. c \<noteq> slash) (rev p);
         suffix = takeWhile (\<lambda>c. c \<noteq> CHR ''.'') name
     in if suffix = name then '''' else CHR ''.'' # rev suffix)"

text \<open>The elements of a cleaned path.\<close>

definition elements :: "string \<Rightarrow> string list" where
  "elements p =
    (let q = (if IsAbs p then tl p else p) in if q = '''' then [] else splitSlash q)"

fun stripCommon :: "string list \<Rightarrow> string list \<Rightarrow> string list \<times> string list" where
  "stripCommon (b # bs) (t # ts) = (if b = t then stripCommon bs ts else (b # bs, t # ts))"
| "stripCommon bs ts = (bs, ts)"

definition Rel :: "string \<Rightarrow> string \<Rightarrow> string option" where
  "Rel basepath targpath =
    (let base = Clean basepath; targ = Clean targpath
     in if targ = base then Some ''.''
        else
          (let base = (if base = ''.'' then '''' else base)
           in if IsAbs base \<noteq> IsAbs targ then None
              else
                (case stripCommon (elements base) (elements targ) of
                   (bs, ts) \<Rightarrow>
                     if bs \<noteq> [] \<and> ts \<noteq> [] \<and> hd bs = ''..'' then None
                     else Some (joinSlash (replicate (length bs) ''..'' @ ts)))))"

subsection \<open>Elements of paths\<close>

definition plainElement :: "string \<Rightarrow> bool" where
  "plainElement e \<longleftrightarrow> e \<noteq> '''' \<and> e \<noteq> ''.'' \<and> slash \<notin> set e"

lemma splitSlash_nonempty [simp]: "splitSlash s \<noteq> []"
  by (induction s) (auto split: list.split)

lemma splitSlash_no_slash: "e \<in> set (splitSlash s) \<Longrightarrow> slash \<notin> set e"
  by (induction s arbitrary: e) (auto split: list.splits if_splits)

lemma splitSlash_plain: "slash \<notin> set s \<Longrightarrow> splitSlash s = [s]"
  by (induction s) auto

lemma splitSlash_append:
  "slash \<notin> set s \<Longrightarrow> splitSlash (s @ slash # t) = s # splitSlash t"
  by (induction s) auto

lemma splitSlash_joinSlash:
  "cs \<noteq> [] \<Longrightarrow> \<forall>c \<in> set cs. slash \<notin> set c \<Longrightarrow> splitSlash (joinSlash cs) = cs"
  unfolding joinSlash_def
  by (induction "''/''" cs rule: joinStrings.induct) (auto simp: splitSlash_plain splitSlash_append)

lemma joinSlash_eq_Nil: "joinSlash cs = '''' \<longleftrightarrow> cs = [] \<or> cs = ['''']"
  unfolding joinSlash_def by (cases "(''/'', cs)" rule: joinStrings.cases) auto

lemma cleanElement_plain:
  "\<forall>e \<in> set out. plainElement e \<and> (rooted \<longrightarrow> e \<noteq> ''..'') \<Longrightarrow> slash \<notin> set element \<Longrightarrow>
   \<forall>e \<in> set (cleanElement rooted out element). plainElement e \<and> (rooted \<longrightarrow> e \<noteq> ''..'')"
  by (auto simp: cleanElement_def plainElement_def dest: in_set_butlastD)

lemma cleanElements_plain:
  assumes "\<forall>e \<in> set es. slash \<notin> set e" "e \<in> set (cleanElements rooted es)"
  shows "plainElement e \<and> (rooted \<longrightarrow> e \<noteq> ''..'')"
proof -
  have "\<forall>e \<in> set (foldl (cleanElement rooted) out es). plainElement e \<and> (rooted \<longrightarrow> e \<noteq> ''..'')"
    if "\<forall>e \<in> set out. plainElement e \<and> (rooted \<longrightarrow> e \<noteq> ''..'')" for out
    using assms(1) that
  proof (induction es arbitrary: out)
    case (Cons e es)
    have "\<forall>x \<in> set (cleanElement rooted out e). plainElement x \<and> (rooted \<longrightarrow> x \<noteq> ''..'')"
      using Cons.prems by (intro cleanElement_plain) auto
    from Cons.IH [OF _ this] Cons.prems(1) show ?case by simp
  qed simp
  from this [of "[]"]
  have "\<forall>e \<in> set (cleanElements rooted es). plainElement e \<and> (rooted \<longrightarrow> e \<noteq> ''..'')"
    by (simp add: cleanElements_def)
  with assms(2) show ?thesis by blast
qed

lemma cleanElements_fixed:
  assumes "\<forall>e \<in> set es. plainElement e \<and> e \<noteq> ''..''"
  shows "cleanElements rooted es = es"
proof -
  have "foldl (cleanElement rooted) out es = out @ es" for out
    using assms by (induction es arbitrary: out) (auto simp: cleanElement_def plainElement_def)
  from this [of "[]"] show ?thesis by (simp add: cleanElements_def)
qed

lemma IsAbs_iff: "IsAbs p \<longleftrightarrow> (\<exists>q. p = slash # q)"
  by (cases p) (auto simp: IsAbs_def HasPrefix_def)

lemma IsAbs_Clean [simp]: "IsAbs (Clean p) = IsAbs p"
proof (cases "IsAbs p")
  case True
  then show ?thesis by (simp add: Clean_def Let_def) (simp add: IsAbs_def HasPrefix_def)
next
  case False
  let ?out = "cleanElements False (splitSlash p)"
  have "plainElement (hd ?out)" if "?out \<noteq> []"
    using cleanElements_plain [of "splitSlash p" "hd ?out" False] that splitSlash_no_slash by auto
  moreover have "\<not> IsAbs (s @ t)" if "plainElement s" for s t
    using that by (cases s) (auto simp: IsAbs_iff plainElement_def)
  moreover from this [of _ "[]"] have "\<not> IsAbs s" if "plainElement s" for s
    using that by simp
  moreover have "\<not> IsAbs ''''" by (simp add: IsAbs_iff)
  ultimately have "\<not> IsAbs (joinSlash ?out)"
    unfolding joinSlash_def by (cases "(''/'', ?out)" rule: joinStrings.cases) auto
  moreover have "\<not> IsAbs ''.''" by (simp add: IsAbs_iff)
  ultimately show ?thesis using False by (auto simp: Clean_def Let_def)
qed

lemma elements_rooted:
  assumes "\<forall>e \<in> set es. plainElement e"
  shows "elements (slash # joinSlash es) = es"
proof (cases "es = []")
  case True
  then show ?thesis by (simp add: elements_def joinSlash_def IsAbs_iff)
next
  case False
  have "es \<noteq> ['''']" using assms by (metis list.set_intros(1) plainElement_def)
  with False have 1: "joinSlash es \<noteq> ''''" by (simp add: joinSlash_eq_Nil)
  have 2: "splitSlash (joinSlash es) = es"
    by (rule splitSlash_joinSlash [OF False]) (use assms in \<open>simp add: plainElement_def\<close>)
  have "IsAbs (slash # joinSlash es)" by (simp add: IsAbs_iff)
  then show ?thesis by (simp add: elements_def 1 2 del: splitSlash.simps)
qed

lemma Clean_rooted:
  assumes "IsAbs p"
  obtains es where "Clean p = slash # joinSlash es" "elements (Clean p) = es"
    "\<forall>e \<in> set es. plainElement e \<and> e \<noteq> ''..''"
proof
  let ?es = "cleanElements True (splitSlash p)"
  show 1: "\<forall>e \<in> set ?es. plainElement e \<and> e \<noteq> ''..''"
    using cleanElements_plain [of "splitSlash p" _ True] splitSlash_no_slash by blast
  show 2: "Clean p = slash # joinSlash ?es" using assms by (simp add: Clean_def)
  show "elements (Clean p) = ?es" unfolding 2 using 1 by (intro elements_rooted) auto
qed

text \<open>A rooted path that is clean already is not changed.\<close>

lemma Clean_joined:
  assumes "\<forall>e \<in> set es. plainElement e \<and> e \<noteq> ''..''"
  shows "Clean (slash # joinSlash es) = slash # joinSlash es"
proof -
  have "splitSlash (slash # joinSlash es) = '''' # (if es = [] then [''''] else es)"
    using assms splitSlash_joinSlash [of es] by (auto simp: plainElement_def joinSlash_def)
  then have "cleanElements True (splitSlash (slash # joinSlash es)) = cleanElements True es"
    by (auto simp: cleanElements_def cleanElement_def)
  then show ?thesis
    using cleanElements_fixed [OF assms] by (simp add: Clean_def IsAbs_def HasPrefix_def)
qed

lemma Clean_idempotent: "IsAbs p \<Longrightarrow> Clean (Clean p) = Clean p"
  by (erule Clean_rooted) (simp add: Clean_joined)

lemma stripCommon_prefix: "prefix bs ts \<Longrightarrow> stripCommon bs ts = ([], drop (length bs) ts)"
  by (induction bs ts rule: stripCommon.induct) (auto simp: prefix_def)

lemma stripCommon_rest:
  "stripCommon bs ts = ([], ts') \<Longrightarrow> prefix bs ts"
  by (induction bs ts rule: stripCommon.induct) (auto split: if_splits)

lemma stripCommon_subset: "stripCommon bs ts = (bs', ts') \<Longrightarrow> set bs' \<subseteq> set bs \<and> set ts' \<subseteq> set ts"
  by (induction bs ts rule: stripCommon.induct) (auto split: if_splits)

end
