(* ===== verification/Types.thy ===== *)
theory Types
  imports GoStrings
begin

text \<open>
  The semantic types (\<open>internal/types/types.go\<close>): identity, assignability, iteration and display.

  A Go interface value is an option (\<open>nil\<close> is \<^const>\<open>None\<close>), and so is a pointer. Class symbols
  are shared and compared by address, so a \<open>*ClassSymbol\<close> is an index into a store of symbols,
  which every operation that follows one takes as its first argument. An address outside the
  store does not occur in Go; the definitions treat it as a symbol without a parent.
\<close>

subsection \<open>Data\<close>

datatype TypeKind =
    InvalidKind | IntKind | RealKind | ComplexKind | StringKind | BoolKind | NothingKind
  | ListKind | PairKind | FunctionKind | ClassKind | RangeKind

definition TypeKind_String :: "TypeKind \<Rightarrow> string" where
  "TypeKind_String kind =
    (case kind of
       IntKind \<Rightarrow> ''Int'' | RealKind \<Rightarrow> ''Real'' | ComplexKind \<Rightarrow> ''Complex''
     | StringKind \<Rightarrow> ''String'' | BoolKind \<Rightarrow> ''Bool'' | NothingKind \<Rightarrow> ''Nothing''
     | ListKind \<Rightarrow> ''List'' | PairKind \<Rightarrow> ''Pair'' | FunctionKind \<Rightarrow> ''Function''
     | ClassKind \<Rightarrow> ''Class'' | RangeKind \<Rightarrow> ''Int range''
     | InvalidKind \<Rightarrow> ''<invalid>'')"

type_synonym classPtr = nat

record ClassSymbol =
  ClassModuleID :: string
  ClassName :: string
  ClassParent :: "classPtr option"

type_synonym classStore = "ClassSymbol list"

text \<open>
  Following a pointer. An address outside the store does not occur in Go; it reads as the zero
  value of the struct, so that every definition is total.
\<close>

definition symbolAt :: "classStore \<Rightarrow> classPtr \<Rightarrow> ClassSymbol" where
  "symbolAt cs a =
    (if a < length cs then cs ! a
     else \<lparr>ClassModuleID = '''', ClassName = '''', ClassParent = None\<rparr>)"

datatype Type =
    BasicType TypeKind
  | RangeType
  | ListType "Type option" bool
  | PairType "Type option" "Type option" bool
  | FunctionType "Signature option"
  | ClassType "classPtr option" bool
and Signature = Signature (signatureParameters: "SigParameter list") (signatureReturn: "Type option")
and SigParameter = SigParameter string "Type option" bool

primrec typeKind :: "Type \<Rightarrow> TypeKind" where
  "typeKind (BasicType kind) = kind"
| "typeKind RangeType = RangeKind"
| "typeKind (ListType e n) = ListKind"
| "typeKind (PairType k v n) = PairKind"
| "typeKind (FunctionType s) = FunctionKind"
| "typeKind (ClassType c r) = ClassKind"

subsection \<open>Questions about one type\<close>

definition IsInvalid :: "Type option \<Rightarrow> bool" where
  "IsInvalid value = (case value of None \<Rightarrow> True | Some t \<Rightarrow> typeKind t = InvalidKind)"

definition IterationYield :: "Type option \<Rightarrow> Type option \<times> bool \<times> bool" where
  "IterationYield value =
    (case value of
       None \<Rightarrow> (Some (BasicType InvalidKind), False, False)
     | Some t \<Rightarrow>
         (case t of
            ListType e n \<Rightarrow> (e, n, True)
          | PairType k v n \<Rightarrow> (k, False, True)
          | RangeType \<Rightarrow> (Some (BasicType IntKind), False, True)
          | _ \<Rightarrow>
              if typeKind t = StringKind then (Some (BasicType StringKind), False, True)
              else (Some (BasicType InvalidKind), False, False)))"

definition IsPairKey :: "Type option \<Rightarrow> bool" where
  "IsPairKey value =
    (case value of None \<Rightarrow> False | Some t \<Rightarrow> typeKind t \<in> {StringKind, IntKind, BoolKind})"

definition IsNumeric :: "Type option \<Rightarrow> bool" where
  "IsNumeric value =
    (case value of None \<Rightarrow> False | Some t \<Rightarrow> typeKind t \<in> {IntKind, RealKind, ComplexKind})"

subsection \<open>Display\<close>

primrec typeString :: "classStore \<Rightarrow> Type \<Rightarrow> string"
    and signatureString :: "classStore \<Rightarrow> Signature \<Rightarrow> string"
    and parameterString :: "classStore \<Rightarrow> SigParameter \<Rightarrow> string" where
  "typeString cs (BasicType kind) = TypeKind_String kind"
| "typeString cs RangeType = ''Int range''"
| "typeString cs (ListType e n) =
     ''List<'' @ case_option ''<invalid>'' id (map_option (typeString cs) e)
       @ (if n then ''?'' else '''') @ ''>''"
| "typeString cs (PairType k v n) =
     ''Pair<'' @ case_option ''<invalid>'' id (map_option (typeString cs) k) @ '', ''
       @ case_option ''<invalid>'' id (map_option (typeString cs) v)
       @ (if n then ''?'' else '''') @ ''>''"
| "typeString cs (FunctionType s) =
     case_option ''Function'' id (map_option (signatureString cs) s)"
| "typeString cs (ClassType c r) =
     (case c of
        None \<Rightarrow> ''Class<?>''
      | Some a \<Rightarrow>
          if r then ''Class<'' @ ClassName (symbolAt cs a) @ ''> reference'' else ClassName (symbolAt cs a))"
| "signatureString cs (Signature ps r) =
     ''Function('' @ joinStrings '', '' (map (parameterString cs) ps) @ '') -> ''
       @ case_option ''<invalid>'' id (map_option (typeString cs) r)"
| "parameterString cs (SigParameter n t d) =
     case_option ''<invalid>'' id (map_option (typeString cs) t)"

definition Display :: "classStore \<Rightarrow> Type option \<Rightarrow> string" where
  "Display cs value = (case value of None \<Rightarrow> ''<invalid>'' | Some t \<Rightarrow> typeString cs t)"

subsection \<open>Identity\<close>

definition SameClassIdentity :: "classStore \<Rightarrow> classPtr option \<Rightarrow> classPtr option \<Rightarrow> bool" where
  "SameClassIdentity cs left right =
    (case (left, right) of
       (Some l, Some r) \<Rightarrow>
         if ClassModuleID (symbolAt cs l) = '''' \<or> ClassModuleID (symbolAt cs r) = '''' then l = r
         else ClassModuleID (symbolAt cs l) = ClassModuleID (symbolAt cs r) \<and> ClassName (symbolAt cs l) = ClassName (symbolAt cs r)
     | _ \<Rightarrow> left = right)"

text \<open>
  \<open>equalType\<close> is \<open>Equal\<close> once its left argument is known not to be nil. Two signatures are
  compared parameter by parameter, once their numbers and results agree.
\<close>

primrec equalType :: "classStore \<Rightarrow> Type \<Rightarrow> Type option \<Rightarrow> bool"
    and equalSignature :: "classStore \<Rightarrow> Signature \<Rightarrow> Signature \<Rightarrow> bool"
    and equalParameter :: "classStore \<Rightarrow> SigParameter \<Rightarrow> SigParameter \<Rightarrow> bool" where
  "equalType cs (BasicType kind) right =
     (case right of None \<Rightarrow> False | Some r \<Rightarrow> typeKind r = kind)"
| "equalType cs RangeType right =
     (case right of None \<Rightarrow> False | Some r \<Rightarrow> typeKind r = RangeKind)"
| "equalType cs (ListType e n) right =
     (case right of
        Some (ListType e' n') \<Rightarrow>
          case_option False (\<lambda>equalTo. equalTo e') (map_option (equalType cs) e) \<and> n = n'
      | _ \<Rightarrow> False)"
| "equalType cs (PairType k v n) right =
     (case right of
        Some (PairType k' v' n') \<Rightarrow>
          case_option False (\<lambda>equalTo. equalTo k') (map_option (equalType cs) k)
          \<and> case_option False (\<lambda>equalTo. equalTo v') (map_option (equalType cs) v) \<and> n = n'
      | _ \<Rightarrow> False)"
| "equalType cs (FunctionType s) right =
     (case right of
        Some (FunctionType s') \<Rightarrow>
          (case (map_option (equalSignature cs) s, s') of
             (None, None) \<Rightarrow> True
           | (Some equalTo, Some right) \<Rightarrow> equalTo right
           | _ \<Rightarrow> False)
      | _ \<Rightarrow> False)"
| "equalType cs (ClassType c r) right =
     (case right of
        Some (ClassType c' r') \<Rightarrow> SameClassIdentity cs c c' \<and> r = r'
      | _ \<Rightarrow> False)"
| "equalSignature cs (Signature ps result) right =
     (length ps = length (signatureParameters right)
      \<and> case_option False (\<lambda>equalTo. equalTo (signatureReturn right))
          (map_option (equalType cs) result)
      \<and> list_all2 (\<lambda>equalTo q. equalTo q) (map (equalParameter cs) ps)
          (signatureParameters right))"
| "equalParameter cs (SigParameter n t d) right =
     (case right of
        SigParameter n' t' d' \<Rightarrow>
          d = d' \<and> case_option False (\<lambda>equalTo. equalTo t') (map_option (equalType cs) t))"

definition Equal :: "classStore \<Rightarrow> Type option \<Rightarrow> Type option \<Rightarrow> bool" where
  "Equal cs left right = (case left of None \<Rightarrow> False | Some l \<Rightarrow> equalType cs l right)"

subsection \<open>Assignability\<close>

text \<open>
  The loop of \<open>Assignable\<close> over the ancestors of a class. The set of visited symbols makes it
  end on any store, a cyclic one included.
\<close>

function climb :: "classStore \<Rightarrow> classPtr option \<Rightarrow> classPtr set \<Rightarrow> classPtr option \<Rightarrow> bool" where
  "climb cs target visited current =
    (case current of
       None \<Rightarrow> False
     | Some a \<Rightarrow>
         if a \<in> visited then False
         else if SameClassIdentity cs current target then True
         else climb cs target (insert a visited) (ClassParent (symbolAt cs a)))"
  by pat_completeness auto

termination climb
proof (relation "measure (\<lambda>(cs, t, visited, current).
    card ({..<length cs} - visited) + (case current of None \<Rightarrow> 0 | Some a \<Rightarrow> 1))")
  fix cs :: classStore and target current :: "classPtr option" and visited and a
  assume c: "current = Some a" and new: "a \<notin> visited"
  show "((cs, target, insert a visited, ClassParent (symbolAt cs a)), cs, target, visited, current)
      \<in> measure (\<lambda>(cs, t, visited, current).
          card ({..<length cs} - visited) + (case current of None \<Rightarrow> 0 | Some a \<Rightarrow> 1))"
  proof (cases "a < length cs")
    case True
    with new have "card ({..<length cs} - insert a visited) < card ({..<length cs} - visited)"
      by (intro psubset_card_mono) auto
    with c show ?thesis by (auto split: option.split)
  next
    case False
    then have "{..<length cs} - insert a visited = {..<length cs} - visited" by auto
    with False c show ?thesis by (simp add: symbolAt_def)
  qed
qed simp

declare climb.simps [simp del]

definition Assignable :: "classStore \<Rightarrow> Type option \<Rightarrow> Type option \<Rightarrow> bool" where
  "Assignable cs target value =
    (if IsInvalid target \<or> IsInvalid value then True
     else if Equal cs target value then True
     else if typeKind (the target) = RealKind \<and> typeKind (the value) = IntKind then True
     else if typeKind (the target) = ComplexKind \<and> typeKind (the value) \<in> {IntKind, RealKind}
       then True
     else (case (the target, the value) of
         (FunctionType None, FunctionType (Some _)) \<Rightarrow> True
       | (ClassType t False, ClassType v False) \<Rightarrow> climb cs t {} v
       | _ \<Rightarrow> False))"

subsection \<open>Well-formed types and stores\<close>

text \<open>
  What the analyzer builds: \<open>Basic\<close> holds one of the kinds that have no structure of their own,
  no component is nil, and class symbols are in the store.
\<close>

definition basicKinds :: "TypeKind set" where
  "basicKinds = {InvalidKind, IntKind, RealKind, ComplexKind, StringKind, BoolKind, NothingKind}"

primrec typeOk :: "classStore \<Rightarrow> Type \<Rightarrow> bool"
    and signatureOk :: "classStore \<Rightarrow> Signature \<Rightarrow> bool"
    and parameterOk :: "classStore \<Rightarrow> SigParameter \<Rightarrow> bool" where
  "typeOk cs (BasicType kind) = (kind \<in> basicKinds)"
| "typeOk cs RangeType = True"
| "typeOk cs (ListType e n) = case_option False id (map_option (typeOk cs) e)"
| "typeOk cs (PairType k v n) =
     (case_option False id (map_option (typeOk cs) k) \<and> case_option False id (map_option (typeOk cs) v))"
| "typeOk cs (FunctionType s) = case_option True id (map_option (signatureOk cs) s)"
| "typeOk cs (ClassType c r) = (case c of None \<Rightarrow> True | Some a \<Rightarrow> a < length cs)"
| "signatureOk cs (Signature ps r) =
     (list_all id (map (parameterOk cs) ps) \<and> case_option False id (map_option (typeOk cs) r))"
| "parameterOk cs (SigParameter n t d) = case_option False id (map_option (typeOk cs) t)"

text \<open>
  Two symbols of one identity have parents of one identity: what a module interface, which is
  read by several modules, has to keep.
\<close>

definition coherentClasses :: "classStore \<Rightarrow> bool" where
  "coherentClasses cs = list_all (\<lambda>a. list_all (\<lambda>b.
      SameClassIdentity cs (Some a) (Some b)
        \<longrightarrow> SameClassIdentity cs (ClassParent (cs ! a)) (ClassParent (cs ! b)))
      [0..<length cs]) [0..<length cs]"

text \<open>No class is its own proper ancestor.\<close>

definition acyclicClasses :: "classStore \<Rightarrow> bool" where
  "acyclicClasses cs =
     list_all (\<lambda>a. \<not> climb cs (Some a) {} (ClassParent (cs ! a))) [0..<length cs]"

subsection \<open>Identity is equality of normal forms\<close>

text \<open>
  The abstract meaning of \<open>Equal\<close>: replace each class symbol by the first one of its identity
  and forget the parameter names; two types are the same if the results are.
\<close>

definition firstAlike :: "classStore \<Rightarrow> classPtr \<Rightarrow> classPtr" where
  "firstAlike cs a = hd (filter (\<lambda>b. SameClassIdentity cs (Some b) (Some a)) [0..<length cs])"

primrec normalType :: "classStore \<Rightarrow> Type \<Rightarrow> Type"
    and normalSignature :: "classStore \<Rightarrow> Signature \<Rightarrow> Signature"
    and normalParameter :: "classStore \<Rightarrow> SigParameter \<Rightarrow> SigParameter" where
  "normalType cs (BasicType kind) = BasicType kind"
| "normalType cs RangeType = RangeType"
| "normalType cs (ListType e n) = ListType (map_option (normalType cs) e) n"
| "normalType cs (PairType k v n) =
     PairType (map_option (normalType cs) k) (map_option (normalType cs) v) n"
| "normalType cs (FunctionType s) = FunctionType (map_option (normalSignature cs) s)"
| "normalType cs (ClassType c r) = ClassType (map_option (firstAlike cs) c) r"
| "normalSignature cs (Signature ps r) =
     Signature (map (normalParameter cs) ps) (map_option (normalType cs) r)"
| "normalParameter cs (SigParameter n t d) = SigParameter [] (map_option (normalType cs) t) d"

lemma SameClassIdentity_refl [simp]: "SameClassIdentity cs a a"
  by (auto simp: SameClassIdentity_def split: option.split)

lemma SameClassIdentity_sym: "SameClassIdentity cs a b \<Longrightarrow> SameClassIdentity cs b a"
  by (auto simp: SameClassIdentity_def split: option.splits if_splits)

lemma SameClassIdentity_trans [trans]:
  "SameClassIdentity cs a b \<Longrightarrow> SameClassIdentity cs b c \<Longrightarrow> SameClassIdentity cs a c"
  by (auto simp: SameClassIdentity_def split: option.splits if_splits)

lemma SameClassIdentity_None [simp]:
  "SameClassIdentity cs None b \<longleftrightarrow> b = None" "SameClassIdentity cs a None \<longleftrightarrow> a = None"
  by (auto simp: SameClassIdentity_def split: option.splits)

lemma firstAlike_same:
  assumes "a < length cs"
  shows "SameClassIdentity cs (Some (firstAlike cs a)) (Some a)"
proof -
  let ?l = "filter (\<lambda>b. SameClassIdentity cs (Some b) (Some a)) [0..<length cs]"
  have "a \<in> set ?l" using assms by simp
  then have "hd ?l \<in> set ?l" by (metis hd_in_set list.distinct(1) list.set_cases)
  then show ?thesis by (simp add: firstAlike_def)
qed

lemma firstAlike_eq:
  assumes "a < length cs" "b < length cs"
  shows "firstAlike cs a = firstAlike cs b \<longleftrightarrow> SameClassIdentity cs (Some a) (Some b)"
proof
  assume "firstAlike cs a = firstAlike cs b"
  then show "SameClassIdentity cs (Some a) (Some b)"
    using assms firstAlike_same SameClassIdentity_sym SameClassIdentity_trans by metis
next
  assume same: "SameClassIdentity cs (Some a) (Some b)"
  have "SameClassIdentity cs (Some c) (Some a) = SameClassIdentity cs (Some c) (Some b)" for c
    using same SameClassIdentity_sym SameClassIdentity_trans by metis
  then show "firstAlike cs a = firstAlike cs b" by (simp add: firstAlike_def)
qed

lemma normalType_kind [simp]: "typeKind (normalType cs t) = typeKind t"
  by (cases t) auto

lemma equal_normal:
  "typeOk cs s \<Longrightarrow> typeOk cs t \<Longrightarrow> equalType cs s (Some t) \<longleftrightarrow> normalType cs s = normalType cs t"
  "signatureOk cs g \<Longrightarrow> signatureOk cs h \<Longrightarrow>
     equalSignature cs g h \<longleftrightarrow> normalSignature cs g = normalSignature cs h"
  "parameterOk cs p \<Longrightarrow> parameterOk cs q \<Longrightarrow>
     equalParameter cs p q \<longleftrightarrow> normalParameter cs p = normalParameter cs q"
proof (induction s and g and p arbitrary: t and h and q)
  case (BasicType k)
  then show ?case by (cases t) (auto simp: basicKinds_def)
next
  case RangeType
  then show ?case by (cases t) (auto simp: basicKinds_def)
next
  case (ListType e n)
  then show ?case by (cases t) (auto split: option.splits)
next
  case (PairType k v n)
  then show ?case by (cases t) (auto split: option.splits)
next
  case (FunctionType s)
  then show ?case by (cases t) (auto split: option.splits)
next
  case (ClassType c r)
  then show ?case by (cases t) (auto simp: firstAlike_eq split: option.splits)
next
  case (Signature ps r)
  obtain ps' r' where h: "h = Signature ps' r'" by (cases h)
  have "list_all2 (\<lambda>equalTo q. equalTo q) (map (equalParameter cs) ps) ps'
      \<longleftrightarrow> map (normalParameter cs) ps = map (normalParameter cs) ps'"
    using Signature.prems Signature.IH(1) unfolding h
    by (auto simp: list_all2_conv_all_nth list_eq_iff_nth_eq list_all_iff)
  with Signature show ?case unfolding h
    by (auto split: option.splits dest: list_all2_lengthD)
next
  case (SigParameter n t' d)
  then show ?case by (cases q) (auto split: option.splits)
qed

subsection \<open>The climb finds exactly the ancestors\<close>

definition parentRel :: "classStore \<Rightarrow> (classPtr \<times> classPtr) set" where
  "parentRel cs = {(a, b). ClassParent (symbolAt cs a) = Some b}"

lemma parentRel_steps:
  "(a, b) \<in> (parentRel cs)\<^sup>* \<longleftrightarrow>
     b = a \<or> (\<exists>p. ClassParent (symbolAt cs a) = Some p \<and> (p, b) \<in> (parentRel cs)\<^sup>*)"
proof
  assume "(a, b) \<in> (parentRel cs)\<^sup>*"
  then show "b = a \<or> (\<exists>p. ClassParent (symbolAt cs a) = Some p \<and> (p, b) \<in> (parentRel cs)\<^sup>*)"
    by (cases rule: converse_rtranclE) (auto simp: parentRel_def)
next
  assume "b = a \<or> (\<exists>p. ClassParent (symbolAt cs a) = Some p \<and> (p, b) \<in> (parentRel cs)\<^sup>*)"
  then show "(a, b) \<in> (parentRel cs)\<^sup>*"
    by (auto simp: parentRel_def intro: converse_rtrancl_into_rtrancl)
qed

text \<open>
  The invariant of the loop: no visited symbol is alike, and the parent of a visited symbol is
  visited or is the next one.
\<close>

lemma climb_invariant:
  assumes "\<And>v. v \<in> visited \<Longrightarrow> \<not> SameClassIdentity cs (Some v) target"
    and "\<And>v p. v \<in> visited \<Longrightarrow> ClassParent (symbolAt cs v) = Some p \<Longrightarrow>
           p \<in> visited \<or> current = Some p"
  shows "climb cs target visited current \<longleftrightarrow>
    (\<exists>a b. current = Some a \<and> (a, b) \<in> (parentRel cs)\<^sup>* \<and> SameClassIdentity cs (Some b) target)"
  using assms
proof (induction cs target visited current rule: climb.induct)
  case (1 cs target visited current)
  show ?case
  proof (cases current)
    case None
    then show ?thesis by (simp add: climb.simps)
  next
    case (Some a)
    show ?thesis
    proof (cases "a \<in> visited")
      case True
      have "b \<in> visited" if "(a, b) \<in> (parentRel cs)\<^sup>*" for b
        using that
      proof (induction rule: rtrancl_induct)
        case (step y z)
        then show ?case using 1(3) [of y z] True Some by (auto simp: parentRel_def)
      qed (fact True)
      with True Some 1(2) show ?thesis by (auto simp: climb.simps [of _ _ _ "Some a"])
    next
      case new: False
      show ?thesis
      proof (cases "SameClassIdentity cs (Some a) target")
        case True
        with new Some show ?thesis by (auto simp: climb.simps [of _ _ _ "Some a"])
      next
        case False
        have "climb cs target visited current
            = climb cs target (insert a visited) (ClassParent (symbolAt cs a))"
          using new False Some by (simp add: climb.simps [of _ _ _ "Some a"])
        also have "\<dots> \<longleftrightarrow> (\<exists>p b. ClassParent (symbolAt cs a) = Some p
            \<and> (p, b) \<in> (parentRel cs)\<^sup>* \<and> SameClassIdentity cs (Some b) target)"
          using 1(2,3) new False Some by (intro 1(1)) auto
        also have "\<dots> \<longleftrightarrow> (\<exists>b. (a, b) \<in> (parentRel cs)\<^sup>* \<and> SameClassIdentity cs (Some b) target)"
          using False by (auto simp: parentRel_steps [of a])
        finally show ?thesis using Some by simp
      qed
    qed
  qed
qed

lemma climb_iff:
  "climb cs target {} current \<longleftrightarrow>
    (\<exists>a b. current = Some a \<and> (a, b) \<in> (parentRel cs)\<^sup>* \<and> SameClassIdentity cs (Some b) target)"
  by (rule climb_invariant) auto

lemma symbolAt_outside [simp]: "\<not> a < length cs \<Longrightarrow> ClassParent (symbolAt cs a) = None"
  by (simp add: symbolAt_def)

text \<open>In a coherent store, what is above a symbol is above every symbol of its identity.\<close>

lemma coherent_parents:
  assumes "coherentClasses cs" "SameClassIdentity cs (Some a) (Some b)"
  shows "SameClassIdentity cs (ClassParent (symbolAt cs a)) (ClassParent (symbolAt cs b))"
proof (cases "a < length cs \<and> b < length cs")
  case True
  with assms show ?thesis by (auto simp: coherentClasses_def list_all_iff symbolAt_def)
next
  case False
  then have "a = b"
    using assms(2) by (auto simp: SameClassIdentity_def symbolAt_def split: if_splits)
  then show ?thesis by simp
qed

lemma coherent_ancestors:
  assumes co: "coherentClasses cs" and reach: "(a, b) \<in> (parentRel cs)\<^sup>*"
  shows "SameClassIdentity cs (Some a) (Some a') \<Longrightarrow>
    \<exists>b'. (a', b') \<in> (parentRel cs)\<^sup>* \<and> SameClassIdentity cs (Some b) (Some b')"
  using reach
proof (induction rule: rtrancl_induct)
  case base
  then show ?case by blast
next
  case (step y z)
  then obtain y' where y': "(a', y') \<in> (parentRel cs)\<^sup>*" "SameClassIdentity cs (Some y) (Some y')"
    by blast
  from step.hyps(2) have "ClassParent (symbolAt cs y) = Some z" by (simp add: parentRel_def)
  with coherent_parents [OF co y'(2)] obtain z' where
    z': "ClassParent (symbolAt cs y') = Some z'" "SameClassIdentity cs (Some z) (Some z')"
    by (cases "ClassParent (symbolAt cs y')") auto
  then have "(y', z') \<in> parentRel cs" by (simp add: parentRel_def)
  with y' z'(2) show ?case by (meson rtrancl.rtrancl_into_rtrancl)
qed

lemma climb_trans:
  assumes "coherentClasses cs" "climb cs (Some b) {} (Some c)" "climb cs a {} (Some b)"
  shows "climb cs a {} (Some c)"
proof -
  obtain n where n: "(c, n) \<in> (parentRel cs)\<^sup>*" "SameClassIdentity cs (Some n) (Some b)"
    using assms(2) by (auto simp: climb_iff)
  obtain m where m: "(b, m) \<in> (parentRel cs)\<^sup>*" "SameClassIdentity cs (Some m) a"
    using assms(3) by (auto simp: climb_iff)
  obtain m' where "(n, m') \<in> (parentRel cs)\<^sup>*" "SameClassIdentity cs (Some m) (Some m')"
    using coherent_ancestors [OF assms(1) m(1) SameClassIdentity_sym [OF n(2)]] by blast
  with n(1) m(2) have "(c, m') \<in> (parentRel cs)\<^sup>*" "SameClassIdentity cs (Some m') a"
    by (auto intro: SameClassIdentity_sym SameClassIdentity_trans)
  then show ?thesis by (auto simp: climb_iff)
qed

lemma climb_antisym:
  assumes "coherentClasses cs" "acyclicClasses cs"
    "climb cs (Some a) {} (Some b)" "climb cs (Some b) {} (Some a)"
  shows "SameClassIdentity cs (Some a) (Some b)"
proof -
  obtain n where n: "(b, n) \<in> (parentRel cs)\<^sup>*" "SameClassIdentity cs (Some n) (Some a)"
    using assms(3) by (auto simp: climb_iff)
  show ?thesis
  proof (cases "n = b")
    case True
    with n(2) show ?thesis by (blast intro: SameClassIdentity_sym)
  next
    case False
    with n(1) obtain p where p: "ClassParent (symbolAt cs b) = Some p" "(p, n) \<in> (parentRel cs)\<^sup>*"
      by (auto simp: parentRel_steps [of b])
    have "climb cs (Some n) {} (Some p)" using p(2) by (auto simp: climb_iff)
    moreover have "climb cs (Some b) {} (Some n)"
      using climb_trans [OF assms(1) _ assms(4)] n(2) by (auto simp: climb_iff)
    ultimately have "climb cs (Some b) {} (Some p)" by (rule climb_trans [OF assms(1)])
    moreover have "b < length cs" using p(1) symbolAt_outside by fastforce
    ultimately show ?thesis
      using assms(2) p(1) by (force simp: acyclicClasses_def list_all_iff symbolAt_def)
  qed
qed

subsection \<open>Assignability on well-formed types\<close>

lemma Equal_normal:
  "typeOk cs s \<Longrightarrow> typeOk cs t \<Longrightarrow> Equal cs (Some s) (Some t) \<longleftrightarrow> normalType cs s = normalType cs t"
  by (simp add: Equal_def equal_normal)

lemma Equal_refl: "typeOk cs t \<Longrightarrow> Equal cs (Some t) (Some t)"
  by (simp add: Equal_normal)

lemma Equal_sym: "typeOk cs s \<Longrightarrow> typeOk cs t \<Longrightarrow> Equal cs (Some s) (Some t) \<Longrightarrow>
    Equal cs (Some t) (Some s)"
  by (simp add: Equal_normal)

lemma Equal_trans: "typeOk cs s \<Longrightarrow> typeOk cs t \<Longrightarrow> typeOk cs u \<Longrightarrow>
    Equal cs (Some s) (Some t) \<Longrightarrow> Equal cs (Some t) (Some u) \<Longrightarrow> Equal cs (Some s) (Some u)"
  by (simp add: Equal_normal)

lemma Equal_kind: "Equal cs (Some s) (Some t) \<Longrightarrow> typeKind s = typeKind t"
  by (cases s; cases t) (auto simp: Equal_def)

text \<open>
  \<open>below\<close> lists the ways in which a value of type \<open>v\<close> is accepted for a target of type \<open>t\<close>.
\<close>

inductive below :: "classStore \<Rightarrow> Type \<Rightarrow> Type \<Rightarrow> bool" for cs where
  same: "Equal cs (Some t) (Some v) \<Longrightarrow> below cs t v"
| real: "below cs (BasicType RealKind) (BasicType IntKind)"
| complex: "k \<in> {IntKind, RealKind} \<Longrightarrow> below cs (BasicType ComplexKind) (BasicType k)"
| callable: "below cs (FunctionType None) (FunctionType (Some s))"
| descendant: "climb cs t {} v \<Longrightarrow> below cs (ClassType t False) (ClassType v False)"

inductive_simps below_simps:
  "below cs (BasicType k) v" "below cs RangeType v" "below cs (ListType e n) v"
  "below cs (PairType k e n) v" "below cs (FunctionType s) v" "below cs (ClassType c r) v"

lemma typeOk_kind:
  "typeOk cs t \<Longrightarrow> typeKind t = k \<Longrightarrow> k \<in> basicKinds \<Longrightarrow> t = BasicType k"
  by (cases t) (auto simp: basicKinds_def)

lemma Assignable_below:
  assumes "typeOk cs t" "typeOk cs v" "typeKind t \<noteq> InvalidKind" "typeKind v \<noteq> InvalidKind"
  shows "Assignable cs (Some t) (Some v) \<longleftrightarrow> below cs t v"
proof
  assume "Assignable cs (Some t) (Some v)"
  then show "below cs t v"
    using assms typeOk_kind [OF assms(1), of RealKind] typeOk_kind [OF assms(1), of ComplexKind]
      typeOk_kind [OF assms(2), of IntKind] typeOk_kind [OF assms(2), of RealKind]
    by (auto simp: Assignable_def IsInvalid_def basicKinds_def
        intro: below.intros split: if_splits Type.splits option.splits bool.splits)
next
  assume "below cs t v"
  then show "Assignable cs (Some t) (Some v)"
    by (cases rule: below.cases) (auto simp: Assignable_def)
qed

text \<open>\<open>climb\<close> respects identity at both ends.\<close>

lemma climb_alike:
  assumes "coherentClasses cs"
  shows "climb cs c {} u \<Longrightarrow> climb cs u {} v \<Longrightarrow> climb cs c {} v"
    and "climb cs c {} u \<Longrightarrow> SameClassIdentity cs u v \<Longrightarrow> climb cs c {} v"
    and "SameClassIdentity cs c u \<Longrightarrow> climb cs u {} v \<Longrightarrow> climb cs c {} v"
proof -
  show 1: "climb cs c {} v" if "climb cs c {} u" "climb cs u {} v" for c u v
    using climb_trans [OF assms, of _ _ c] that by (cases u; cases v) (auto simp: climb_iff)
  show "climb cs c {} v" if "climb cs c {} u" "SameClassIdentity cs u v"
    using 1 [OF that(1), of v] that SameClassIdentity_sym [OF that(2)]
    by (cases u; cases v) (auto simp: climb_iff)
  show "climb cs c {} v" if "SameClassIdentity cs c u" "climb cs u {} v"
    using that SameClassIdentity_trans [OF _ SameClassIdentity_sym [OF that(1)]]
    by (auto simp: climb_iff)
qed

lemma Equal_cases:
  assumes "Equal cs (Some t) (Some v)" "typeOk cs t" "typeOk cs v"
  obtains (basic) k where "t = BasicType k" "v = BasicType k"
  | (callable) "t = FunctionType None" "v = FunctionType None"
  | (signature) s s' where "t = FunctionType (Some s)" "v = FunctionType (Some s')"
  | (named) c d r where "t = ClassType c r" "v = ClassType d r" "SameClassIdentity cs c d"
  | (other) "typeKind t \<in> {ListKind, PairKind, RangeKind}" "typeKind v = typeKind t"
  using assms by (cases t; cases v) (auto simp: Equal_def basicKinds_def split: option.splits)

lemma below_same_left:
  assumes "coherentClasses cs" "typeOk cs t" "typeOk cs u" "typeOk cs v"
    "Equal cs (Some t) (Some u)" "below cs u v"
  shows "below cs t v"
  using assms(6)
proof (cases rule: below.cases)
  case same
  then show ?thesis using assms by (blast intro: below.same Equal_trans)
qed (cases rule: Equal_cases [OF assms(5,2,3)];
    use assms(5) in \<open>auto intro: below.intros climb_alike(3) [OF assms(1)]\<close>)+

lemma below_same_right:
  assumes "coherentClasses cs" "typeOk cs t" "typeOk cs u" "typeOk cs v"
    "below cs t u" "Equal cs (Some u) (Some v)"
  shows "below cs t v"
  using assms(5)
proof (cases rule: below.cases)
  case same
  then show ?thesis using assms by (blast intro: below.same Equal_trans)
qed (cases rule: Equal_cases [OF assms(6,3,4)];
    use assms(6) in \<open>auto intro: below.intros climb_alike(2) [OF assms(1)]\<close>)+

lemma below_trans:
  assumes "coherentClasses cs" "typeOk cs t" "typeOk cs u" "typeOk cs v"
    and "below cs t u" "below cs u v"
  shows "below cs t v"
proof (cases "Equal cs (Some t) (Some u) \<or> Equal cs (Some u) (Some v)")
  case True
  then show ?thesis
    using below_same_left [OF assms(1-4) _ assms(6)] below_same_right [OF assms(1-5)] by blast
next
  case False
  from assms(5) show ?thesis
  proof (cases rule: below.cases)
    case same
    with False show ?thesis by blast
  qed (use assms(6) False in \<open>auto elim!: below.cases intro: below.intros
        climb_alike(1) [OF assms(1)]\<close>)+
qed

lemma below_antisym:
  assumes "coherentClasses cs" "acyclicClasses cs" "typeOk cs t" "typeOk cs v"
    and "below cs t v" "below cs v t"
  shows "Equal cs (Some t) (Some v)"
proof -
  have alike: "SameClassIdentity cs c d" if "climb cs c {} d" "climb cs d {} c" for c d
  proof (cases c; cases d)
    fix a b assume "c = Some a" "d = Some b"
    with that show ?thesis by (simp add: climb_antisym [OF assms(1,2)])
  qed (use that in \<open>simp_all add: climb_iff\<close>)
  show ?thesis
  proof (cases "Equal cs (Some v) (Some t)")
    case True
    then show ?thesis by (rule Equal_sym [OF assms(4,3)])
  next
    case False
    from assms(5) show ?thesis
    proof (cases rule: below.cases)
      case same
      then show ?thesis .
    next
      case (descendant c d)
      with assms(6) False have "climb cs d {} c" by (auto elim!: below.cases)
      with descendant show ?thesis by (simp add: Equal_def alike)
    qed (use assms(6) False in \<open>auto elim!: below.cases\<close>)+
  qed
qed

lemma IterationYield_ok:
  "typeOk cs t \<Longrightarrow> case IterationYield (Some t) of (e, n, ok) \<Rightarrow> \<exists>u. e = Some u \<and> typeOk cs u"
  by (cases t) (auto simp: IterationYield_def basicKinds_def split: option.splits)

subsection \<open>Properties\<close>

text \<open>
  C7: \<open>types.Equal\<close> is an equivalence relation on the types the analyzer builds: Basic types of a
  kind without structure, Range, and lists, pairs, callables and classes without nil components.
\<close>

theorem Equal_is_an_equivalence:
  "equiv {t. typeOk cs t} {(s, t). typeOk cs s \<and> typeOk cs t \<and> Equal cs (Some s) (Some t)}"
  by (rule equivI) (auto simp: refl_on_def sym_def trans_def Equal_normal)

text \<open>
  C8: the loop of \<open>types.Assignable\<close> over \<open>Parent\<close> pointers, which stops at a symbol it has
  visited, returns on every store of class symbols (also where parents form a cycle) and answers
  true exactly if some ancestor of the value's class, itself included, has the target's identity.
\<close>

theorem climb_finds_the_ancestors:
  "climb cs target {} (Some a) \<longleftrightarrow>
    (\<exists>b. (a, b) \<in> {(x, y). ClassParent (symbolAt cs x) = Some y}\<^sup>* \<and> SameClassIdentity cs (Some b) target)"
  by (simp add: climb_iff parentRel_def)

text \<open>
  C9: assignability is transitive over valid types: a value accepted where \<open>u\<close> is declared is
  accepted wherever a \<open>u\<close> is. The class store has to be coherent (symbols of one identity have
  parents of one identity); the invalid type in the middle, which is accepted everywhere to avoid
  cascading diagnostics, is excluded.
\<close>

theorem Assignable_is_transitive:
  assumes "coherentClasses cs" "typeOk cs t" "typeOk cs u" "typeOk cs v"
    and "typeKind u \<noteq> InvalidKind"
    and "Assignable cs (Some t) (Some u)" "Assignable cs (Some u) (Some v)"
  shows "Assignable cs (Some t) (Some v)"
proof (cases "typeKind t = InvalidKind \<or> typeKind v = InvalidKind")
  case True
  then show ?thesis by (auto simp: Assignable_def IsInvalid_def)
next
  case False
  with assms show ?thesis
    using below_trans [OF assms(1-4)] by (simp add: Assignable_below)
qed

text \<open>Three classes, a grandchild last; a Puppy is an Animal.\<close>

definition animals :: classStore where
  "animals =
    [\<lparr>ClassModuleID = ''zoo'', ClassName = ''Animal'', ClassParent = None\<rparr>,
     \<lparr>ClassModuleID = ''zoo'', ClassName = ''Dog'', ClassParent = Some 0\<rparr>,
     \<lparr>ClassModuleID = ''zoo'', ClassName = ''Puppy'', ClassParent = Some 1\<rparr>]"

lemma animals_ok: "coherentClasses animals" "acyclicClasses animals"
  by (simp_all add: coherentClasses_def acyclicClasses_def animals_def upt_rec SameClassIdentity_def
      symbolAt_def climb.simps)

theorem Assignable_is_transitive_witness:
  "Assignable animals (Some (ClassType (Some 0) False)) (Some (ClassType (Some 2) False))"
  by (rule Assignable_is_transitive [where u = "ClassType (Some 1) False"])
    (simp_all add: animals_ok, simp_all add: animals_def Assignable_def IsInvalid_def Equal_def
      SameClassIdentity_def symbolAt_def climb.simps)

text \<open>
  With no class its own proper ancestor, two valid types that accept each other's values are
  the same type, so assignability is a partial order on types up to \<open>types.Equal\<close>: no widening
  (Int to Real to Complex), no loss of a signature and no step up a class is reversible.
\<close>

theorem Assignable_is_antisymmetric:
  assumes "coherentClasses cs" "acyclicClasses cs" "typeOk cs t" "typeOk cs v"
    and "typeKind t \<noteq> InvalidKind" "typeKind v \<noteq> InvalidKind"
    and "Assignable cs (Some t) (Some v)" "Assignable cs (Some v) (Some t)"
  shows "Equal cs (Some t) (Some v)"
  using assms below_antisym [OF assms(1-4)] by (simp add: Assignable_below)

theorem Assignable_is_antisymmetric_witness:
  "Equal animals (Some (ListType (Some (ClassType (Some 1) False)) True))
    (Some (ListType (Some (ClassType (Some 1) False)) True))"
  by (rule Assignable_is_antisymmetric)
    (simp_all add: animals_ok, simp_all add: animals_def Assignable_def IsInvalid_def Equal_def
      SameClassIdentity_def symbolAt_def)

text \<open>
  The element types of lists and pairs are invariant: a list is assignable to a list type
  exactly if the elements have the same type and the same nullability, although a Dog is
  assignable to an Animal and an Int to a Real.
\<close>

theorem element_types_are_invariant:
  "(Assignable cs (Some (ListType (Some s) n)) (Some (ListType (Some t) m))
     = (Equal cs (Some s) (Some t) \<and> n = m))
   \<and> (Assignable cs (Some (PairType (Some k) (Some s) n)) (Some (PairType (Some l) (Some t) m))
     = (Equal cs (Some k) (Some l) \<and> Equal cs (Some s) (Some t) \<and> n = m))"
  by (auto simp: Assignable_def IsInvalid_def Equal_def)

end
