(* ===== verification/Modules.thy ===== *)
theory Modules
  imports Frontend GoStrings
begin

text \<open>
  The data model of the module compiler (\<open>internal/module/model.go\<close>), its two workspaces
  (\<open>resolver.go\<close>: files, and the in-memory one) and the bundled framework modules
  (\<open>framework.go\<close>, \<open>internal/framework\<close>). A Go error is its text, on the left of a sum.

  What the operating system answers is a parameter (\<open>os\<close>); the answers do not change during one
  compilation. The semantic analyzer is a parameter of \<open>config\<close> too: any function.
\<close>

type_synonym ModuleID = string

datatype AnalysisState = Unseen | Resolving | Resolved | Failed

record SourceIdentity =
  SourceID :: ModuleID
  SourceName :: string
  SourcePath :: string
  Builtin :: bool
  FrameworkSource :: bool

record ('sem, 'iface) Module =
  ModuleIDOf :: ModuleID
  ModuleSource :: SourceIdentity
  ModuleFile :: "File option"
  Parsed :: "ParseResult option"
  Semantic :: "'sem option"
  Interface :: "'iface option"
  Dependencies :: "ModuleID list"
  AState :: AnalysisState
  AnalyzeCount :: nat
  RequiredFiles :: "File list"
  UnresolvedRequires :: "string list"

record ModuleDiagnostic =
  DiagnosticOf :: Diagnostic
  RequestingModule :: ModuleID
  TargetModule :: ModuleID
  RequestedSymbol :: string
  CycleOf :: "ModuleID list"

record ('sem, 'iface) CompilationResult =
  ResultEntry :: ModuleID
  ResultModules :: "ModuleID \<rightharpoonup> ('sem, 'iface) Module"
  ResultOrder :: "ModuleID list"
  ResultDiagnostics :: "ModuleDiagnostic list"

definition CompilationResult_HasErrors :: "('sem, 'iface) CompilationResult \<Rightarrow> bool" where
  "CompilationResult_HasErrors r =
     list_ex (\<lambda>item. Sev (DiagnosticOf item) = SeverityError) (ResultDiagnostics r)"

subsection \<open>The operating system\<close>

record os =
  getwd :: "string + string"
  evalSymlinks :: "string \<Rightarrow> string option"
  readDir :: "string \<Rightarrow> string list option"
  readFile :: "string \<Rightarrow> string + string"

text \<open>\<open>filepath.Abs\<close>.\<close>

definition Abs :: "os \<Rightarrow> string \<Rightarrow> string + string" where
  "Abs sys p =
    (if IsAbs p then Inr (Clean p)
     else (case getwd sys of Inl err \<Rightarrow> Inl err | Inr wd \<Rightarrow> Inr (PathJoin [wd, p])))"

subsection \<open>Sibling files\<close>

definition canonicalFilePath :: "os \<Rightarrow> string \<Rightarrow> string + string" where
  "canonicalFilePath sys value =
    (case Abs sys (Clean value) of
       Inl err \<Rightarrow> Inl err
     | Inr absolute \<Rightarrow>
         (let absolute = (case evalSymlinks sys absolute of
             Some evaluated \<Rightarrow> evaluated | None \<Rightarrow> absolute)
          in Inr (Clean absolute)))"

definition fileIdentity :: "string \<Rightarrow> SourceIdentity" where
  "fileIdentity canonical =
    (let base = Base canonical; name = TrimSuffix base (Ext base)
     in \<lparr>SourceID = ''file:'' @ canonical, SourceName = name, SourcePath = canonical,
         Builtin = False, FrameworkSource = False\<rparr>)"

definition FileResolver_CanonicalEntry :: "os \<Rightarrow> string \<Rightarrow> string + SourceIdentity" where
  "FileResolver_CanonicalEntry sys entryPath =
    (case canonicalFilePath sys entryPath of
       Inl err \<Rightarrow> Inl err | Inr canonical \<Rightarrow> Inr (fileIdentity canonical))"

definition FileResolver_Resolve :: "os \<Rightarrow> SourceIdentity \<Rightarrow> string \<Rightarrow> string + SourceIdentity" where
  "FileResolver_Resolve sys importer moduleName =
    (if Builtin importer then
       Inl (''built-in module '' @ SourceName importer @ '' has no filesystem-relative imports'')
     else
       (let directory = Dir (SourcePath importer);
            filename = moduleName @ ''.ahd''
        in case readDir sys directory of
             Some entries \<Rightarrow>
               if filename \<notin> set entries
               then Inl (''no case-sensitive sibling file '' @ filename)
               else
                 (case canonicalFilePath sys (PathJoin [directory, filename]) of
                    Inl err \<Rightarrow> Inl err | Inr canonical \<Rightarrow> Inr (fileIdentity canonical))
           | None \<Rightarrow>
               (case canonicalFilePath sys (PathJoin [directory, filename]) of
                  Inl err \<Rightarrow> Inl err | Inr canonical \<Rightarrow> Inr (fileIdentity canonical))))"

definition FileLoader_Load :: "os \<Rightarrow> SourceIdentity \<Rightarrow> string + string" where
  "FileLoader_Load sys identity = readFile sys (SourcePath identity)"

subsection \<open>The in-memory workspace\<close>

text \<open>
  \<open>NewInMemoryWorkspace\<close> ranges over a Go map, whose order is not fixed; its argument here is
  the sequence of entries in the order of one such iteration.
\<close>

type_synonym memorySources = "string \<rightharpoonup> string"

definition canonicalMemoryPath :: "string \<Rightarrow> string" where
  "canonicalMemoryPath value = Clean (''/'' @ TrimPrefix value ''/'')"

definition memoryIdentity :: "string \<Rightarrow> SourceIdentity" where
  "memoryIdentity canonical =
    (let base = Base canonical; name = TrimSuffix base (Ext base)
     in \<lparr>SourceID = ''mem:'' @ canonical, SourceName = name, SourcePath = canonical,
         Builtin = False, FrameworkSource = False\<rparr>)"

definition NewInMemoryWorkspace :: "(string \<times> string) list \<Rightarrow> memorySources" where
  "NewInMemoryWorkspace sources =
     foldl (\<lambda>workspace (filePath, text). workspace(canonicalMemoryPath filePath \<mapsto> text))
       Map.empty sources"

definition InMemory_CanonicalEntry :: "string \<Rightarrow> string + SourceIdentity" where
  "InMemory_CanonicalEntry entryPath = Inr (memoryIdentity (canonicalMemoryPath entryPath))"

definition InMemory_Resolve :: "SourceIdentity \<Rightarrow> string \<Rightarrow> string + SourceIdentity" where
  "InMemory_Resolve importer moduleName =
     Inr (memoryIdentity (canonicalMemoryPath
       (PathJoin [Dir (SourcePath importer), moduleName @ ''.ahd''])))"

definition InMemory_Load :: "memorySources \<Rightarrow> SourceIdentity \<Rightarrow> string + string" where
  "InMemory_Load workspace identity =
    (case workspace (SourcePath identity) of
       None \<Rightarrow> Inl (''module source '' @ SourceID identity @ '' does not exist'')
     | Some text \<Rightarrow> Inr text)"

subsection \<open>Bundled framework modules\<close>

text \<open>
  \<open>embed.FS\<close> is the list of the embedded files with their texts. No file of any system has a
  NUL in its name.
\<close>

type_synonym embedded = "(string \<times> string) list"

definition embedReadFile :: "embedded \<Rightarrow> string \<Rightarrow> string option" where
  "embedReadFile fs name = (if CHR 0x00 \<in> set name then None else map_of fs name)"

definition publicModules :: "string set" where "publicModules = {''Web''}"
definition facades :: "string set" where "facades = {''Web''}"

definition sourcePath :: "string \<Rightarrow> string" where
  "sourcePath name =
    (if name = '''' \<or> list_ex (\<lambda>c. c \<in> {CHR ''/'', CHR 0x5C, CHR ''.''}) name
     then ''sources/'' @ [CHR 0x00]
     else ''sources/'' @ name @ ''.ahd'')"

definition Framework_Source :: "embedded \<Rightarrow> string \<Rightarrow> string option" where
  "Framework_Source fs name = embedReadFile fs (sourcePath name)"

definition Framework_Has :: "embedded \<Rightarrow> string \<Rightarrow> bool" where
  "Framework_Has fs name = (embedReadFile fs (sourcePath name) \<noteq> None)"

definition IsPublic :: "embedded \<Rightarrow> string \<Rightarrow> bool" where
  "IsPublic fs name = (name \<in> publicModules \<and> Framework_Has fs name)"

definition IsFacade :: "embedded \<Rightarrow> string \<Rightarrow> bool" where
  "IsFacade fs name = (name \<in> facades \<and> Framework_Has fs name)"

definition FrameworkModuleID :: "string \<Rightarrow> string" where
  "FrameworkModuleID name = ''framework:'' @ name"

definition VirtualPath :: "string \<Rightarrow> string" where
  "VirtualPath name = ''<ahdcode>/'' @ name @ ''.ahd''"

definition frameworkIdentity :: "embedded \<Rightarrow> SourceIdentity \<Rightarrow> string \<Rightarrow> SourceIdentity option" where
  "frameworkIdentity fs importer name =
    (if \<not> Framework_Has fs name then None
     else if \<not> FrameworkSource importer \<and> \<not> IsPublic fs name then None
     else Some \<lparr>SourceID = FrameworkModuleID name, SourceName = name,
       SourcePath = VirtualPath name, Builtin = False, FrameworkSource = True\<rparr>)"

definition frameworkIsolationError :: "string \<Rightarrow> string" where
  "frameworkIsolationError name =
     ''bundled first-party module '' @ name
       @ '' is not a built-in module or another bundled module''"

subsection \<open>Configuration and state of the compiler\<close>

record 'iface Environment =
  EnvModuleID :: string
  EnvModuleName :: string
  Imports :: "(string \<times> 'iface) list"
  FailedImports :: "string list"
  ReExportImports :: bool
  ImplicitModules :: "'iface list"

record ('sem, 'iface) config =
  unicodeOf :: unicode
  osOf :: os
  quoted :: "string \<Rightarrow> string"
  CanonicalEntry :: "string \<Rightarrow> string + SourceIdentity"
  Resolve :: "SourceIdentity \<Rightarrow> string \<Rightarrow> string + SourceIdentity"
  Load :: "SourceIdentity \<Rightarrow> string + string"
  Builtins :: "string \<Rightarrow> 'iface option"
  embeddedFiles :: embedded
  AnalyzeWithEnvironment :: "ParseResult \<Rightarrow> 'iface Environment \<Rightarrow> 'sem"
  SemanticDiagnostics :: "'sem \<Rightarrow> Diagnostic list"
  BuildModuleInterface :: "'sem \<Rightarrow> string \<Rightarrow> string \<Rightarrow> 'iface"
  InterfaceModuleID :: "'iface \<Rightarrow> string"
  InterfaceName :: "'iface \<Rightarrow> string"

record ('sem, 'iface) Compiler =
  compModules :: "ModuleID \<rightharpoonup> ('sem, 'iface) Module"
  compOrder :: "ModuleID list"
  compDiagnostics :: "ModuleDiagnostic list"
  compStack :: "ModuleID list"
  compNextFileID :: FileID

definition CodeModuleNotFound :: string where "CodeModuleNotFound = ''SEM028''"
definition CodeCircularDependency :: string where "CodeCircularDependency = ''SEM032''"
definition CodeRequireNotFound :: string where "CodeRequireNotFound = ''SEM046''"
definition CodeRequireCycle :: string where "CodeRequireCycle = ''SEM047''"
definition CodeRequireInvalidPath :: string where "CodeRequireInvalidPath = ''SEM048''"

definition addDiagnostic ::
  "string \<Rightarrow> string \<Rightarrow> Span \<Rightarrow> string \<Rightarrow> ModuleID \<Rightarrow> ModuleID \<Rightarrow> string \<Rightarrow> ModuleID list
    \<Rightarrow> ('sem, 'iface) Compiler \<Rightarrow> ('sem, 'iface) Compiler" where
  "addDiagnostic code message span hint requester target symbol cycle c =
     c\<lparr>compDiagnostics := compDiagnostics c @
       [\<lparr>DiagnosticOf = \<lparr>Code = code, Sev = SeverityError, Message = message, DSpan = span,
            Hint = hint\<rparr>,
         RequestingModule = requester, TargetModule = target, RequestedSymbol = symbol,
         CycleOf = cycle\<rparr>]\<rparr>"

definition appendFrontendDiagnostics ::
  "ModuleID \<Rightarrow> Diagnostic list \<Rightarrow> ('sem, 'iface) Compiler \<Rightarrow> ('sem, 'iface) Compiler" where
  "appendFrontendDiagnostics moduleID items c =
     c\<lparr>compDiagnostics := compDiagnostics c @ map (\<lambda>item.
       \<lparr>DiagnosticOf = item, RequestingModule = moduleID, TargetModule = '''',
        RequestedSymbol = '''', CycleOf = []\<rparr>) items\<rparr>"

definition hasErrors :: "Diagnostic list \<Rightarrow> bool" where
  "hasErrors items = list_ex (\<lambda>item. Sev item = SeverityError) items"

end
