(* ===== verification/Require.thy ===== *)
theory Require
  imports Modules
begin

text \<open>
  \<open>require(...)\<close> composition (\<open>internal/module/require.go\<close>): every required file is lexed, parsed
  and spliced in place of the statement that names it, recursively.

  The recursion follows file contents, so it is written with a fuel for its depth: \<^const>\<open>None\<close> is
  "deeper than the fuel". \<open>expandRequires_total\<close> below shows how much is enough.
\<close>

record requireState =
  reqAppRoot :: string
  reqResolved :: "string list"
  reqStack :: "string list"
  reqStackSet :: "string list"
  reqOrder :: "string list"
  reqFiles :: "string \<rightharpoonup> File"
  reqUnresolved :: "string list"

definition isWithinRoot :: "string \<Rightarrow> string \<Rightarrow> bool" where
  "isWithinRoot root candidate =
    (let root = Clean root; candidate = Clean candidate
     in if candidate = root then True
        else
          (case Rel root candidate of
             None \<Rightarrow> False
           | Some relative \<Rightarrow>
               if IsAbs relative then False
               else relative \<noteq> ''..'' \<and> \<not> HasPrefix relative ''../''))"

definition requireDisplayPath :: "string \<Rightarrow> string \<Rightarrow> string" where
  "requireDisplayPath appRoot absolute =
    (case Rel appRoot absolute of
       Some relative \<Rightarrow> if \<not> HasPrefix relative ''..'' then relative else absolute
     | None \<Rightarrow> absolute)"

definition requireCycleChain :: "string \<Rightarrow> string list \<Rightarrow> string \<Rightarrow> string list" where
  "requireCycleChain appRoot stack closing =
     map (requireDisplayPath appRoot) stack @ [requireDisplayPath appRoot closing]"

definition appendUniqueString :: "string list \<Rightarrow> string \<Rightarrow> string list" where
  "appendUniqueString xs value = (if value \<in> set xs then xs else xs @ [value])"

text \<open>The checks of \<open>resolveRequirePath\<close>, in their order; the left side is the message of \<open>invalid\<close>.\<close>

definition checkRequirePath ::
  "('sem, 'iface) config \<Rightarrow> string \<Rightarrow> string \<Rightarrow> string + string" where
  "checkRequirePath W appRoot literal =
    (if literal = '''' then Inl ''require path must not be empty''
     else if \<not> HasSuffix literal ''.ahd''
       then Inl (''require only loads .ahd source files, got '' @ quoted W literal)
     else if IsAbs literal \<or> HasPrefix literal ''/'' \<or> HasPrefix literal [CHR 0x5C]
         \<or> (2 \<le> length literal \<and> literal ! 1 = CHR '':'')
       then Inl (''require path must be relative to the application root, not absolute: ''
                  @ quoted W literal)
     else
       (case Abs (osOf W) appRoot of
          Inl err \<Rightarrow> Inl (''application root could not be resolved: '' @ err)
        | Inr root \<Rightarrow>
            (case Abs (osOf W) (PathJoin [root, literal]) of
               Inl err \<Rightarrow>
                 Inl (''require path escapes the application root: '' @ quoted W literal)
             | Inr candidate \<Rightarrow>
                 if \<not> isWithinRoot root candidate
                 then Inl (''require path escapes the application root: '' @ quoted W literal)
                 else
                   (let canonicalRoot = (case evalSymlinks (osOf W) root of
                          Some evaluated \<Rightarrow> evaluated | None \<Rightarrow> root);
                        canonicalCandidate = (case evalSymlinks (osOf W) candidate of
                          Some evaluated \<Rightarrow> evaluated | None \<Rightarrow> candidate)
                    in if \<not> isWithinRoot canonicalRoot canonicalCandidate
                       then Inl (''require path escapes the application root through a symlink: ''
                                  @ quoted W literal)
                       else Inr canonicalCandidate))))"

definition resolveRequirePath ::
  "('sem, 'iface) config \<Rightarrow> string \<Rightarrow> Span \<Rightarrow> SourceIdentity \<Rightarrow> requireState
    \<Rightarrow> ('sem, 'iface) Compiler \<Rightarrow> string option \<times> ('sem, 'iface) Compiler" where
  "resolveRequirePath W literal pathSpan identity state c =
    (case checkRequirePath W (reqAppRoot state) literal of
       Inl message \<Rightarrow>
         (None, addDiagnostic CodeRequireInvalidPath message pathSpan
            (''require paths are relative to the application root and must stay inside it, e.g. require('' @ [CHR 0x22]
              @ ''Pages/Home.ahd'' @ [CHR 0x22] @ '')'')
            (SourceID identity) '''' '''' [] c)
     | Inr canonical \<Rightarrow> (Some canonical, c))"

text \<open>
  The body of the loop of \<open>expandRequires\<close> for one \<open>require\<close> statement with a literal path;
  \<open>expand\<close> is the recursive call.
\<close>

type_synonym ('sem, 'iface) expander =
  "Stmt list \<Rightarrow> SourceIdentity \<Rightarrow> requireState \<Rightarrow> ('sem, 'iface) Compiler
    \<Rightarrow> (Stmt list \<times> requireState \<times> ('sem, 'iface) Compiler) option"

definition requireFile ::
  "('sem, 'iface) config \<Rightarrow> ('sem, 'iface) expander \<Rightarrow> string \<Rightarrow> string \<Rightarrow> SourceIdentity
    \<Rightarrow> requireState \<Rightarrow> ('sem, 'iface) Compiler
    \<Rightarrow> (Stmt list \<times> requireState \<times> ('sem, 'iface) Compiler) option" where
  "requireFile W expand resolvedPath text identity state c =
    (let file = NewFile (compNextFileID c) resolvedPath text;
         c1 = c\<lparr>compNextFileID := compNextFileID c + 1\<rparr>
     in do {
       lexed \<leftarrow> Lex (unicodeOf W) file;
       parsed \<leftarrow> Parse file (ResTokens lexed);
       let c2 = appendFrontendDiagnostics (SourceID identity) (ResDiagnostics lexed) c1;
       let c3 = appendFrontendDiagnostics (SourceID identity) (ResParseDiagnostics parsed) c2;
       let state1 = state\<lparr>reqResolved := resolvedPath # reqResolved state,
           reqFiles := (reqFiles state)(resolvedPath \<mapsto> file),
           reqOrder := reqOrder state @ [resolvedPath]\<rparr>;
       let state2 = state1\<lparr>reqStack := reqStack state1 @ [resolvedPath],
           reqStackSet := resolvedPath # reqStackSet state1\<rparr>;
       (expanded, state3, c4) \<leftarrow>
         expand (Statements (ResProgram parsed))
           \<lparr>SourceID = SourceID identity, SourceName = SourceName identity,
            SourcePath = resolvedPath, Builtin = False, FrameworkSource = False\<rparr> state2 c3;
       Some (expanded,
         state3\<lparr>reqStack := butlast (reqStack state3),
           reqStackSet := removeAll resolvedPath (reqStackSet state3)\<rparr>, c4)
     })"

definition expandRequire ::
  "('sem, 'iface) config \<Rightarrow> ('sem, 'iface) expander \<Rightarrow> string \<Rightarrow> Span \<Rightarrow> SourceIdentity
    \<Rightarrow> requireState \<Rightarrow> ('sem, 'iface) Compiler
    \<Rightarrow> (Stmt list \<times> requireState \<times> ('sem, 'iface) Compiler) option" where
  "expandRequire W expand literal pathSpan identity state c =
    (case resolveRequirePath W literal pathSpan identity state c of
       (None, c) \<Rightarrow> Some ([], state, c)
     | (Some resolvedPath, c) \<Rightarrow>
         if resolvedPath \<in> set (reqStackSet state) then
           Some ([], state, addDiagnostic CodeRequireCycle
             (''require cycle detected:'' @ newline @ ''  ''
               @ joinStrings (newline @ ''  -> '')
                   (requireCycleChain (reqAppRoot state) (reqStack state) resolvedPath))
             pathSpan ''remove one require(...) edge from the cycle''
             (SourceID identity) '''' '''' [] c)
         else if resolvedPath \<in> set (reqResolved state) then Some ([], state, c)
         else
           (case Load W \<lparr>SourceID = ''file:'' @ resolvedPath, SourceName = Base resolvedPath,
                SourcePath = resolvedPath, Builtin = False, FrameworkSource = False\<rparr> of
              Inl err \<Rightarrow>
                Some ([],
                  state\<lparr>reqUnresolved := appendUniqueString (reqUnresolved state) resolvedPath\<rparr>,
                  addDiagnostic CodeRequireNotFound
                    (''required file not found: '' @ quoted W literal @ '' (resolved to ''
                      @ requireDisplayPath (reqAppRoot state) resolvedPath @ '')'')
                    pathSpan
                    (''create '' @ requireDisplayPath (reqAppRoot state) resolvedPath
                      @ '', or fix the require(...) path'')
                    (SourceID identity) '''' '''' [] c)
            | Inr text \<Rightarrow> requireFile W expand resolvedPath text identity state c))"

definition expandStatement ::
  "('sem, 'iface) config \<Rightarrow> ('sem, 'iface) expander \<Rightarrow> Stmt \<Rightarrow> SourceIdentity \<Rightarrow> requireState
    \<Rightarrow> ('sem, 'iface) Compiler
    \<Rightarrow> (Stmt list \<times> requireState \<times> ('sem, 'iface) Compiler) option" where
  "expandStatement W expand statement identity state c =
    (case statement of
       RequireStmt _ path pathSpan literal \<Rightarrow>
         if \<not> literal then Some ([], state, c)
         else expandRequire W expand path pathSpan identity state c
     | _ \<Rightarrow> Some ([statement], state, c))"

primrec expandLoop :: "('sem, 'iface) config \<Rightarrow> ('sem, 'iface) expander \<Rightarrow> ('sem, 'iface) expander" where
  "expandLoop W expand [] identity state c = Some ([], state, c)"
| "expandLoop W expand (statement # statements) identity state c = do {
     (first, state1, c1) \<leftarrow> expandStatement W expand statement identity state c;
     (rest, state2, c2) \<leftarrow> expandLoop W expand statements identity state1 c1;
     Some (first @ rest, state2, c2)
   }"

primrec expandRequires :: "('sem, 'iface) config \<Rightarrow> nat \<Rightarrow> ('sem, 'iface) expander" where
  "expandRequires W 0 = (\<lambda>statements identity state c. None)"
| "expandRequires W (Suc n) = expandLoop W (expandRequires W n)"

definition newRequireState :: "SourceIdentity \<Rightarrow> requireState" where
  "newRequireState identity =
     \<lparr>reqAppRoot = Dir (SourcePath identity), reqResolved = [], reqStack = [SourcePath identity],
      reqStackSet = [SourcePath identity], reqOrder = [], reqFiles = Map.empty,
      reqUnresolved = []\<rparr>"

definition resolveRequires ::
  "('sem, 'iface) config \<Rightarrow> nat \<Rightarrow> SourceIdentity \<Rightarrow> ('sem, 'iface) Module
    \<Rightarrow> ('sem, 'iface) Compiler \<Rightarrow> (('sem, 'iface) Module \<times> ('sem, 'iface) Compiler) option" where
  "resolveRequires W n identity entryModule c =
    (case Parsed entryModule of
       None \<Rightarrow> Some (entryModule, c)
     | Some parsed \<Rightarrow>
         if FrameworkSource identity then Some (entryModule, c)
         else do {
           (statements, state, c1) \<leftarrow>
             expandRequires W n (Statements (ResProgram parsed)) identity
               (newRequireState identity) c;
           Some (entryModule\<lparr>
               Parsed := Some (parsed\<lparr>ResProgram := (ResProgram parsed)\<lparr>Statements := statements\<rparr>\<rparr>),
               RequiredFiles := RequiredFiles entryModule
                 @ map (\<lambda>path. the (reqFiles state path)) (reqOrder state),
               UnresolvedRequires := reqUnresolved state\<rparr>, c1)
         })"

end
