(* ===== verification/ModuleCompiler.thy ===== *)
theory ModuleCompiler
  imports Require "HOL-Library.AList" "HOL-Library.List_Lexorder" "HOL-Library.Char_ord"
begin

text \<open>
  The module compiler (\<open>internal/module/compiler.go\<close>): \<open>Compile\<close> and \<open>analyze\<close>, the depth-first
  walk over the graph of \<open>bring\<close> statements.

  A \<open>*Module\<close> is an entry of \<open>compModules\<close>; an update through a pointer is an update of the
  entry, so a state that a nested call changes (a cycle marks modules of the stack) is seen by
  the callers. \<open>analyze\<close> has a fuel for its depth; \<open>k\<close> is the fuel of \<open>require\<close> composition.
\<close>

definition updateModule ::
  "ModuleID \<Rightarrow> (('sem, 'iface) Module \<Rightarrow> ('sem, 'iface) Module) \<Rightarrow> ('sem, 'iface) Compiler
    \<Rightarrow> ('sem, 'iface) Compiler" where
  "updateModule moduleID f c = c\<lparr>compModules :=
     (case compModules c moduleID of
        None \<Rightarrow> compModules c
      | Some m \<Rightarrow> (compModules c)(moduleID \<mapsto> f m))\<rparr>"

definition setState :: "ModuleID \<Rightarrow> AnalysisState \<Rightarrow> ('sem, 'iface) Compiler \<Rightarrow> ('sem, 'iface) Compiler" where
  "setState moduleID s = updateModule moduleID (\<lambda>m. m\<lparr>AState := s\<rparr>)"

definition popStack :: "('sem, 'iface) Compiler \<Rightarrow> ('sem, 'iface) Compiler" where
  "popStack c = c\<lparr>compStack := butlast (compStack c)\<rparr>"

subsection \<open>Cycles\<close>

definition cycleFrom :: "ModuleID list \<Rightarrow> ModuleID \<Rightarrow> ModuleID list" where
  "cycleFrom stack target =
     (if target \<in> set stack then dropWhile (\<lambda>moduleID. moduleID \<noteq> target) stack else stack) @ [target]"

fun formatCycle :: "ModuleID list \<Rightarrow> string" where
  "formatCycle [] = ''''"
| "formatCycle (first # rest) = foldl (\<lambda>result moduleID. result @ '' -> '' @ moduleID) first rest"

definition reportCycle ::
  "ModuleID \<Rightarrow> ModuleID \<Rightarrow> Span \<Rightarrow> ('sem, 'iface) Compiler \<Rightarrow> ('sem, 'iface) Compiler" where
  "reportCycle moduleID requester importSpan c =
    (let cycle = cycleFrom (compStack c) moduleID;
         c = addDiagnostic CodeCircularDependency
               (''circular module dependency: '' @ formatCycle cycle) importSpan
               ''remove one bring edge from the dependency cycle'' requester moduleID '''' cycle c
     in foldl (\<lambda>c i. setState i Failed c) c (butlast cycle))"

subsection \<open>Dependencies\<close>

definition implicitStandardDependencies :: "string \<Rightarrow> string list" where
  "implicitStandardDependencies name = (if name = ''TLS'' then [''Time''] else [])"

definition resolveDependency ::
  "('sem, 'iface) config \<Rightarrow> SourceIdentity \<Rightarrow> string \<Rightarrow> string + SourceIdentity" where
  "resolveDependency W importer name =
    (case Builtins W name of
       Some interfaceValue \<Rightarrow>
         Inr \<lparr>SourceID = (if InterfaceModuleID W interfaceValue = '''' then ''builtin:'' @ name
                else InterfaceModuleID W interfaceValue),
              SourceName = name, SourcePath = InterfaceModuleID W interfaceValue,
              Builtin = True, FrameworkSource = False\<rparr>
     | None \<Rightarrow>
         (case frameworkIdentity (embeddedFiles W) importer name of
            Some identity \<Rightarrow> Inr identity
          | None \<Rightarrow>
              if FrameworkSource importer then Inl (frameworkIsolationError name)
              else Resolve W importer name))"

definition loadSource :: "('sem, 'iface) config \<Rightarrow> SourceIdentity \<Rightarrow> string + string" where
  "loadSource W identity =
    (if FrameworkSource identity then
       (case Framework_Source (embeddedFiles W) (SourceName identity) of
          None \<Rightarrow> Inl (''bundled first-party module '' @ SourceName identity
                          @ '' is missing from this build'')
        | Some text \<Rightarrow> Inr text)
     else Load W identity)"

definition spanContains :: "Span \<Rightarrow> Span \<Rightarrow> bool" where
  "spanContains outer inner =
    (SpanFile outer = SpanFile inner \<and> Offset (Start outer) \<le> Offset (Start inner)
     \<and> Offset (End inner) \<le> Offset (End outer))"

text \<open>
  The context of a semantic diagnostic: the first \<open>bring\<close> statement whose span contains it, and
  the first imported name its message quotes (or the only one).
\<close>

definition requestedSymbol :: "('sem, 'iface) config \<Rightarrow> string \<Rightarrow> string list \<Rightarrow> string" where
  "requestedSymbol W message names =
    (case filter (\<lambda>name. Contains message (quoted W name) \<or> length names = 1) names of
       [] \<Rightarrow> '''' | name # _ \<Rightarrow> name)"

fun bringContext ::
  "('sem, 'iface) config \<Rightarrow> (string \<times> ModuleID) list \<Rightarrow> Diagnostic \<Rightarrow> Stmt list
    \<Rightarrow> ModuleID \<times> string" where
  "bringContext W targets item [] = ('''', '''')"
| "bringContext W targets item (statement # statements) =
    (case statement of
       BringStmt span moduleName _ _ _ names \<Rightarrow>
         if spanContains span (DSpan item)
         then (case map_of targets moduleName of None \<Rightarrow> '''' | Some target \<Rightarrow> target,
               requestedSymbol W (Message item) names)
         else bringContext W targets item statements
     | _ \<Rightarrow> bringContext W targets item statements)"

definition appendSemanticDiagnostics ::
  "('sem, 'iface) config \<Rightarrow> ModuleID \<Rightarrow> Program \<Rightarrow> Diagnostic list \<Rightarrow> (string \<times> ModuleID) list
    \<Rightarrow> ('sem, 'iface) Compiler \<Rightarrow> ('sem, 'iface) Compiler" where
  "appendSemanticDiagnostics W moduleID program items targets c =
     c\<lparr>compDiagnostics := compDiagnostics c @ map (\<lambda>item.
       (case bringContext W targets item (Statements program) of
          (target, symbol) \<Rightarrow>
            \<lparr>DiagnosticOf = item, RequestingModule = moduleID, TargetModule = target,
             RequestedSymbol = symbol, CycleOf = []\<rparr>)) items\<rparr>"

subsection \<open>One module\<close>

type_synonym ('sem, 'iface) analyzer =
  "SourceIdentity \<Rightarrow> ModuleID \<Rightarrow> Span \<Rightarrow> ('sem, 'iface) Compiler \<Rightarrow> ('sem, 'iface) Compiler option"

text \<open>The local variables of the loop over the \<open>bring\<close> statements.\<close>

record 'iface bringState =
  environment :: "'iface Environment"
  dependencyFailed :: bool
  seenDependencies :: "ModuleID list"
  dependencyTargets :: "(string \<times> ModuleID) list"

definition addDependency ::
  "ModuleID \<Rightarrow> ModuleID \<Rightarrow> 'iface bringState \<Rightarrow> ('sem, 'iface) Compiler
    \<Rightarrow> 'iface bringState \<times> ('sem, 'iface) Compiler" where
  "addDependency moduleID dependency b c =
    (if dependency \<in> set (seenDependencies b) then (b, c)
     else (b\<lparr>seenDependencies := dependency # seenDependencies b\<rparr>,
           updateModule moduleID (\<lambda>m. m\<lparr>Dependencies := Dependencies m @ [dependency]\<rparr>) c))"

text \<open>The interface of a dependency that is resolved and has one.\<close>

definition resolvedInterface :: "('sem, 'iface) Compiler \<Rightarrow> ModuleID \<Rightarrow> 'iface option" where
  "resolvedInterface c moduleID =
    (case compModules c moduleID of
       None \<Rightarrow> None
     | Some m \<Rightarrow> if AState m = Resolved then Interface m else None)"

definition failImport :: "string \<Rightarrow> 'iface bringState \<Rightarrow> 'iface bringState" where
  "failImport name b = b\<lparr>dependencyFailed := True,
     environment := (environment b)\<lparr>FailedImports := name # FailedImports (environment b)\<rparr>\<rparr>"

definition bringModule ::
  "('sem, 'iface) config \<Rightarrow> ('sem, 'iface) analyzer \<Rightarrow> SourceIdentity \<Rightarrow> Span \<Rightarrow> string
    \<Rightarrow> 'iface bringState \<Rightarrow> ('sem, 'iface) Compiler
    \<Rightarrow> ('iface bringState \<times> ('sem, 'iface) Compiler) option" where
  "bringModule W analyzeRec identity span name b c =
    (case resolveDependency W identity name of
       Inl err \<Rightarrow>
         Some (failImport name b,
           addDiagnostic CodeModuleNotFound
             (''module '' @ name @ '' was not found: '' @ err) span
             ''provide the sibling .ahd source file'' (SourceID identity) '''' '''' [] c)
     | Inr dependency \<Rightarrow> do {
         c1 \<leftarrow> analyzeRec dependency (SourceID identity) span c;
         let b1 = b\<lparr>dependencyTargets :=
               AList.update name (SourceID dependency) (dependencyTargets b)\<rparr>;
         let r = addDependency (SourceID identity) (SourceID dependency) b1 c1;
         case resolvedInterface (snd r) (SourceID dependency) of
           None \<Rightarrow> Some (failImport name (fst r), snd r)
         | Some interfaceValue \<Rightarrow>
             Some ((fst r)\<lparr>environment := (environment (fst r))\<lparr>Imports :=
               AList.update name interfaceValue (Imports (environment (fst r)))\<rparr>\<rparr>, snd r)
       })"

primrec bringLoop ::
  "('sem, 'iface) config \<Rightarrow> ('sem, 'iface) analyzer \<Rightarrow> SourceIdentity \<Rightarrow> Stmt list
    \<Rightarrow> 'iface bringState \<Rightarrow> ('sem, 'iface) Compiler
    \<Rightarrow> ('iface bringState \<times> ('sem, 'iface) Compiler) option" where
  "bringLoop W analyzeRec identity [] b c = Some (b, c)"
| "bringLoop W analyzeRec identity (statement # statements) b c =
    (case statement of
       BringStmt span name _ _ _ _ \<Rightarrow> do {
         (b, c) \<leftarrow> bringModule W analyzeRec identity span name b c;
         bringLoop W analyzeRec identity statements b c
       }
     | _ \<Rightarrow> bringLoop W analyzeRec identity statements b c)"

primrec implicitLoop ::
  "('sem, 'iface) config \<Rightarrow> ('sem, 'iface) analyzer \<Rightarrow> SourceIdentity \<Rightarrow> string list
    \<Rightarrow> 'iface bringState \<Rightarrow> ('sem, 'iface) Compiler
    \<Rightarrow> ('iface bringState \<times> ('sem, 'iface) Compiler) option" where
  "implicitLoop W analyzeRec identity [] b c = Some (b, c)"
| "implicitLoop W analyzeRec identity (name # names) b c =
    (case resolveDependency W identity name of
       Inl err \<Rightarrow> implicitLoop W analyzeRec identity names b c
     | Inr dependency \<Rightarrow>
         if \<not> Builtin dependency then implicitLoop W analyzeRec identity names b c
         else do {
           c1 \<leftarrow> analyzeRec dependency (SourceID identity) zeroSpan c;
           let b1 = (case resolvedInterface c1 (SourceID dependency) of
               None \<Rightarrow> b
             | Some interfaceValue \<Rightarrow> b\<lparr>environment := (environment b)\<lparr>ImplicitModules :=
                 ImplicitModules (environment b) @ [interfaceValue]\<rparr>\<rparr>);
           let r = addDependency (SourceID identity) (SourceID dependency) b1 c1;
           implicitLoop W analyzeRec identity names (fst r) (snd r)
         })"

text \<open>The implicit dependencies of all brought modules, in the order of their names.\<close>

definition implicitNames :: "('sem, 'iface) config \<Rightarrow> (string \<times> 'iface) list \<Rightarrow> string list" where
  "implicitNames W imports =
     concat (map (\<lambda>name. implicitStandardDependencies
       (InterfaceName W (the (map_of imports name)))) (sort (map fst imports)))"

definition newModule :: "SourceIdentity \<Rightarrow> ('sem, 'iface) Module" where
  "newModule identity =
     \<lparr>ModuleIDOf = SourceID identity, ModuleSource = identity, ModuleFile = None, Parsed = None,
      Semantic = None, Interface = None, Dependencies = [], AState = Resolving, AnalyzeCount = 0,
      RequiredFiles = [], UnresolvedRequires = []\<rparr>"

definition newBringState :: "('sem, 'iface) config \<Rightarrow> SourceIdentity \<Rightarrow> 'iface bringState" where
  "newBringState W identity =
     \<lparr>environment = \<lparr>EnvModuleID = SourceID identity, EnvModuleName = SourceName identity,
        Imports = [], FailedImports = [],
        ReExportImports = (FrameworkSource identity
          \<and> IsFacade (embeddedFiles W) (SourceName identity)),
        ImplicitModules = []\<rparr>,
      dependencyFailed = False, seenDependencies = [], dependencyTargets = []\<rparr>"

text \<open>The end of \<open>analyze\<close>: the semantic analysis, unless a cycle has failed the module.\<close>

definition finishModule ::
  "('sem, 'iface) config \<Rightarrow> SourceIdentity \<Rightarrow> ParseResult \<Rightarrow> bool \<Rightarrow> 'iface bringState
    \<Rightarrow> ('sem, 'iface) Compiler \<Rightarrow> ('sem, 'iface) Compiler" where
  "finishModule W identity parsed frontendFailed b c =
    (case compModules c (SourceID identity) of
       None \<Rightarrow> c
     | Some m \<Rightarrow>
         if AState m = Failed then c
         else
           (let sem = AnalyzeWithEnvironment W parsed (environment b);
                c1 = updateModule (SourceID identity)
                  (\<lambda>m. m\<lparr>AnalyzeCount := AnalyzeCount m + 1, Semantic := Some sem\<rparr>) c;
                c2 = appendSemanticDiagnostics W (SourceID identity) (ResProgram parsed)
                  (SemanticDiagnostics W sem) (dependencyTargets b) c1
            in if frontendFailed \<or> dependencyFailed b \<or> hasErrors (SemanticDiagnostics W sem)
               then setState (SourceID identity) Failed c2
               else updateModule (SourceID identity)
                 (\<lambda>m. m\<lparr>Interface := Some (BuildModuleInterface W sem (SourceID identity)
                        (SourceName identity)), AState := Resolved\<rparr>) c2))"

text \<open>From the text of a module to its end: front end, requires, brings, analysis.\<close>

definition analyzeText ::
  "('sem, 'iface) config \<Rightarrow> nat \<Rightarrow> ('sem, 'iface) analyzer \<Rightarrow> SourceIdentity \<Rightarrow> string
    \<Rightarrow> ('sem, 'iface) Compiler \<Rightarrow> ('sem, 'iface) Compiler option" where
  "analyzeText W k analyzeRec identity text c =
    (let moduleID = SourceID identity;
         file = NewFile (compNextFileID c) (SourcePath identity) text;
         c1 = c\<lparr>compNextFileID := compNextFileID c + 1\<rparr>
     in do {
       lexed \<leftarrow> Lex (unicodeOf W) file;
       parsed \<leftarrow> Parse file (ResTokens lexed);
       let c2 = updateModule moduleID (\<lambda>m. m\<lparr>ModuleFile := Some file, Parsed := Some parsed\<rparr>) c1;
       let c3 = appendFrontendDiagnostics moduleID (ResDiagnostics lexed) c2;
       let c4 = appendFrontendDiagnostics moduleID (ResParseDiagnostics parsed) c3;
       (m, c5) \<leftarrow> resolveRequires W k identity (the (compModules c4 moduleID)) c4;
       let c6 = updateModule moduleID (\<lambda>_. m) c5;
       let frontendFailed = (hasErrors (ResDiagnostics lexed) \<or> ParseResult_HasErrors parsed
         \<or> list_ex (\<lambda>item. Sev (DiagnosticOf item) = SeverityError)
              (drop (length (compDiagnostics c4)) (compDiagnostics c6)));
       let merged = the (Parsed m);
       (b, c7) \<leftarrow> bringLoop W analyzeRec identity (Statements (ResProgram merged))
         (newBringState W identity) c6;
       (b, c8) \<leftarrow> implicitLoop W analyzeRec identity
         (implicitNames W (Imports (environment b))) b c7;
       Some (popStack (finishModule W identity merged frontendFailed b c8))
     })"

definition pushModule :: "SourceIdentity \<Rightarrow> ('sem, 'iface) Compiler \<Rightarrow> ('sem, 'iface) Compiler" where
  "pushModule identity c =
     c\<lparr>compModules := (compModules c)(SourceID identity \<mapsto> newModule identity),
       compOrder := compOrder c @ [SourceID identity],
       compStack := compStack c @ [SourceID identity]\<rparr>"

definition analyzeBody ::
  "('sem, 'iface) config \<Rightarrow> nat \<Rightarrow> ('sem, 'iface) analyzer \<Rightarrow> ('sem, 'iface) analyzer" where
  "analyzeBody W k analyzeRec identity requester importSpan c =
    (case compModules c (SourceID identity) of
       Some existing \<Rightarrow>
         Some (if AState existing = Resolving
               then reportCycle (SourceID identity) requester importSpan c else c)
     | None \<Rightarrow>
         (let c1 = pushModule identity c
          in if Builtin identity then
               Some (popStack (updateModule (SourceID identity)
                 (\<lambda>m. m\<lparr>Interface := Builtins W (SourceName identity), AState := Resolved\<rparr>) c1))
             else
               (case loadSource W identity of
                  Inl err \<Rightarrow>
                    Some (popStack (addDiagnostic CodeModuleNotFound
                      (''module '' @ SourceName identity @ '' was not found: '' @ err) importSpan
                      ''provide the sibling .ahd source file'' requester (SourceID identity) '''' []
                      (setState (SourceID identity) Failed c1)))
                | Inr text \<Rightarrow> analyzeText W k analyzeRec identity text c1)))"

primrec analyze :: "('sem, 'iface) config \<Rightarrow> nat \<Rightarrow> nat \<Rightarrow> ('sem, 'iface) analyzer" where
  "analyze W k 0 = (\<lambda>identity requester importSpan c. None)"
| "analyze W k (Suc n) = analyzeBody W k (analyze W k n)"

subsection \<open>The whole compilation\<close>

definition emptyCompiler :: "('sem, 'iface) Compiler" where
  "emptyCompiler = \<lparr>compModules = Map.empty, compOrder = [], compDiagnostics = [], compStack = [],
     compNextFileID = 1\<rparr>"

definition resultOf :: "ModuleID \<Rightarrow> ('sem, 'iface) Compiler \<Rightarrow> ('sem, 'iface) CompilationResult" where
  "resultOf entry c = \<lparr>ResultEntry = entry, ResultModules = compModules c, ResultOrder = compOrder c,
     ResultDiagnostics = compDiagnostics c\<rparr>"

definition Compile ::
  "('sem, 'iface) config \<Rightarrow> nat \<Rightarrow> nat \<Rightarrow> string \<Rightarrow> ('sem, 'iface) CompilationResult option" where
  "Compile W k n entryPath =
    (case CanonicalEntry W entryPath of
       Inl err \<Rightarrow>
         Some (resultOf '''' (addDiagnostic CodeModuleNotFound
           (''entry module was not found: '' @ err) zeroSpan ''provide a readable .ahd entry file''
           '''' '''' '''' [] emptyCompiler))
     | Inr identity \<Rightarrow> do {
         c \<leftarrow> analyze W k n identity '''' zeroSpan emptyCompiler;
         Some (resultOf (SourceID identity) c)
       })"

end
