(* ===== verification/RequireProofs.thy ===== *)
theory RequireProofs
  imports Require "HOL-Library.Multiset"
begin

text \<open>
  What \<open>require\<close> composition does, proved for every workspace: it ends, each file is merged at
  most once and with exactly its own statements, no \<open>require\<close> statement is left, and a run that
  reports nothing has followed an acyclic graph to its end.

  The contract between the module compiler and what supplies the sources is the locale
  \<open>workspace\<close>; both workspaces of the code are interpretations of it.
\<close>

subsection \<open>The interface of a workspace\<close>

text \<open>
  Only finitely many paths can be loaded, and a module that a \<open>bring\<close> resolves to is named by its
  path: two identities with one ID have one path.
\<close>

locale workspace =
  fixes W :: "('sem, 'iface) config"
    and paths :: "string set"
    and scheme :: string
  assumes finite_paths: "finite paths"
    and load_paths: "Load W identity = Inr text \<Longrightarrow> SourcePath identity \<in> paths"
    and load_by_path: "SourcePath i = SourcePath j \<Longrightarrow> Load W i = Inr text \<Longrightarrow> Load W j = Inr text"
    and resolve_identity: "Resolve W importer name = Inr i \<Longrightarrow>
      SourceID i = scheme @ SourcePath i \<and> \<not> Builtin i \<and> \<not> FrameworkSource i"
    and entry_identity: "CanonicalEntry W entry = Inr i \<Longrightarrow>
      SourceID i = scheme @ SourcePath i \<and> \<not> Builtin i \<and> \<not> FrameworkSource i"

subsection \<open>Statements and their requires\<close>

definition isRequire :: "Stmt \<Rightarrow> bool" where
  "isRequire s = (case s of RequireStmt _ _ _ _ \<Rightarrow> True | _ \<Rightarrow> False)"

text \<open>The valid targets of the \<open>require\<close> statements of a list.\<close>

definition requireTargets :: "('sem, 'iface) config \<Rightarrow> string \<Rightarrow> Stmt \<Rightarrow> string list" where
  "requireTargets W appRoot s =
    (case s of
       RequireStmt _ path _ literal \<Rightarrow>
         if literal
         then (case checkRequirePath W appRoot path of Inl _ \<Rightarrow> [] | Inr canonical \<Rightarrow> [canonical])
         else []
     | _ \<Rightarrow> [])"

definition requiredBy :: "('sem, 'iface) config \<Rightarrow> string \<Rightarrow> Stmt list \<Rightarrow> string list" where
  "requiredBy W appRoot ss = concat (map (requireTargets W appRoot) ss)"

text \<open>The statements of a merged file, as the front end reads them.\<close>

definition fileStatements :: "('sem, 'iface) config \<Rightarrow> File \<Rightarrow> Stmt list" where
  "fileStatements W file =
    (case frontEnd (unicodeOf W) file of
       None \<Rightarrow> [] | Some r \<Rightarrow> Statements (ResProgram (snd r)))"

definition ownStatements :: "('sem, 'iface) config \<Rightarrow> (string \<rightharpoonup> File) \<Rightarrow> string \<Rightarrow> Stmt list" where
  "ownStatements W files path =
    (case files path of None \<Rightarrow> [] | Some file \<Rightarrow> fileStatements W file)"

definition plainOf :: "Stmt list \<Rightarrow> Stmt multiset" where
  "plainOf ss = mset (filter (\<lambda>s. \<not> isRequire s) ss)"

lemma plainOf_simps [simp]:
  "plainOf [] = {#}" "plainOf (s # ss) = (if isRequire s then {#} else {#s#}) + plainOf ss"
  "plainOf (ss @ ts) = plainOf ss + plainOf ts"
  by (simp_all add: plainOf_def)

lemma requiredBy_simps [simp]:
  "requiredBy W r [] = []" "requiredBy W r (s # ss) = requireTargets W r s @ requiredBy W r ss"
  by (simp_all add: requiredBy_def)

lemma ownStatements_le:
  "files \<subseteq>\<^sub>m files' \<Longrightarrow> p \<in> dom files \<Longrightarrow> ownStatements W files' p = ownStatements W files p"
  by (auto simp: ownStatements_def map_le_def split: option.split)

subsection \<open>The state\<close>

definition requireInv :: "requireState \<Rightarrow> bool" where
  "requireInv st \<longleftrightarrow> distinct (reqOrder st) \<and> set (reqResolved st) = set (reqOrder st)
     \<and> dom (reqFiles st) = set (reqOrder st) \<and> reqStackSet st = rev (reqStack st)
     \<and> distinct (reqStack st) \<and> distinct (reqUnresolved st)
     \<and> (\<forall>p f. reqFiles st p = Some f \<longrightarrow> Path f = p)"

text \<open>Files whose expansion has ended.\<close>

definition finished :: "requireState \<Rightarrow> string set" where
  "finished st = set (reqOrder st) - set (reqStack st)"

text \<open>
  \<open>follows W st files fin\<close>: each file of \<open>fin\<close> requires only files finished in \<open>st\<close> or standing
  before it.
\<close>

fun follows ::
  "('sem, 'iface) config \<Rightarrow> string \<Rightarrow> (string \<rightharpoonup> File) \<Rightarrow> string set \<Rightarrow> string list \<Rightarrow> bool" where
  "follows W appRoot files before [] = True"
| "follows W appRoot files before (p # fin) =
    (set (requiredBy W appRoot (ownStatements W files p)) \<subseteq> before
     \<and> follows W appRoot files (insert p before) fin)"

lemma follows_append:
  "follows W r files before (xs @ ys) \<longleftrightarrow>
     follows W r files before xs \<and> follows W r files (before \<union> set xs) ys"
  by (induction xs arbitrary: before) auto

lemma follows_files:
  "files \<subseteq>\<^sub>m files' \<Longrightarrow> set fin \<subseteq> dom files \<Longrightarrow>
   follows W r files' before fin = follows W r files before fin"
  by (induction fin arbitrary: before) (auto simp: ownStatements_le)

text \<open>What one expansion of \<open>ss\<close> from the state \<open>st\<close> establishes.\<close>

definition expandFrame :: "requireState \<Rightarrow> ('sem, 'iface) Compiler \<Rightarrow> requireState
    \<Rightarrow> ('sem, 'iface) Compiler \<Rightarrow> string list \<Rightarrow> bool" where
  "expandFrame st c st' c' new \<longleftrightarrow>
     reqAppRoot st' = reqAppRoot st \<and> reqStack st' = reqStack st
     \<and> reqOrder st' = reqOrder st @ new \<and> set new \<inter> set (reqStack st) = {}
     \<and> reqFiles st \<subseteq>\<^sub>m reqFiles st'
     \<and> compModules c' = compModules c \<and> compOrder c' = compOrder c \<and> compStack c' = compStack c
     \<and> extends (compDiagnostics c) (compDiagnostics c')"


text \<open>
  \<open>acyclicRun\<close>: the new files can be put in an order in which each requires only what comes
  before it, and everything \<open>ss\<close> requires is finished at the end.
\<close>

definition acyclicRun :: "('sem, 'iface) config \<Rightarrow> Stmt list \<Rightarrow> requireState \<Rightarrow> requireState
    \<Rightarrow> string list \<Rightarrow> bool" where
  "acyclicRun W ss st st' new \<longleftrightarrow>
     (\<exists>fin. distinct fin \<and> set fin = set new
        \<and> follows W (reqAppRoot st) (reqFiles st') (finished st) fin
        \<and> set (requiredBy W (reqAppRoot st) ss) \<subseteq> finished st \<union> set fin)"

definition expandPost :: "('sem, 'iface) config \<Rightarrow> Stmt list \<Rightarrow> requireState
    \<Rightarrow> ('sem, 'iface) Compiler \<Rightarrow> string list
    \<Rightarrow> Stmt list \<times> requireState \<times> ('sem, 'iface) Compiler \<Rightarrow> bool" where
  "expandPost W ss st c new r \<longleftrightarrow>
    (case r of (out, st', c') \<Rightarrow>
       requireInv st' \<and> expandFrame st c st' c' new
       \<and> list_all (\<lambda>s. \<not> isRequire s) out
       \<and> mset out = plainOf ss + (\<Sum>p\<leftarrow>new. plainOf (ownStatements W (reqFiles st') p))
       \<and> (compDiagnostics c' = compDiagnostics c \<longrightarrow> acyclicRun W ss st st' new))"

lemma requireInv_dom: "requireInv st \<Longrightarrow> dom (reqFiles st) = set (reqOrder st)"
  by (simp add: requireInv_def)

lemma extends_antisym: "extends xs ys \<Longrightarrow> extends ys xs \<Longrightarrow> ys = xs"
  using extends_length [of xs ys] extends_length [of ys xs] by (simp add: extends_def)

lemma expandFrame_refl: "expandFrame st c st c []"
  by (simp add: expandFrame_def)

lemma expandPost_Nil: "requireInv st \<Longrightarrow> expandPost W [] st c [] ([], st, c)"
  by (simp add: expandPost_def expandFrame_refl acyclicRun_def)

lemma expandFrame_trans:
  assumes "expandFrame st c st1 c1 xs" "expandFrame st1 c1 st2 c2 ys"
  shows "expandFrame st c st2 c2 (xs @ ys)"
  using assms unfolding expandFrame_def by (auto intro: map_le_trans extends_trans)

lemma expandFrame_finished:
  "expandFrame st c st' c' new \<Longrightarrow> finished st' = finished st \<union> set new"
  by (auto simp: finished_def expandFrame_def)

lemma sum_own_le:
  assumes "files \<subseteq>\<^sub>m files'" "set new \<subseteq> dom files"
  shows "(\<Sum>p\<leftarrow>new. plainOf (ownStatements W files' p)) = (\<Sum>p\<leftarrow>new. plainOf (ownStatements W files p))"
  using assms by (induction new) (auto simp: ownStatements_le)

lemma acyclicRun_append:
  assumes run1: "acyclicRun W ss st st1 xs" and run2: "acyclicRun W ts st1 st2 ys"
    and frame1: "expandFrame st c st1 c1 xs" and frame2: "expandFrame st1 c1 st2 c2 ys"
    and inv: "requireInv st1" "requireInv st2"
  shows "acyclicRun W (ss @ ts) st st2 (xs @ ys)"
proof -
  obtain f where f: "distinct f" "set f = set xs"
      "follows W (reqAppRoot st) (reqFiles st1) (finished st) f"
      "set (requiredBy W (reqAppRoot st) ss) \<subseteq> finished st \<union> set f"
    using run1 by (auto simp: acyclicRun_def)
  obtain g where g: "distinct g" "set g = set ys"
      "follows W (reqAppRoot st1) (reqFiles st2) (finished st1) g"
      "set (requiredBy W (reqAppRoot st1) ts) \<subseteq> finished st1 \<union> set g"
    using run2 by (auto simp: acyclicRun_def)
  have root: "reqAppRoot st1 = reqAppRoot st" and le: "reqFiles st1 \<subseteq>\<^sub>m reqFiles st2"
    using frame1 frame2 by (auto simp: expandFrame_def)
  have fin1: "finished st1 = finished st \<union> set f"
    using expandFrame_finished [OF frame1] f(2) by simp
  have "distinct (reqOrder st @ xs @ ys)"
    using inv(2) frame1 frame2 by (simp add: requireInv_def expandFrame_def)
  then have "set f \<inter> set g = {}" using f(2) g(2) by auto
  moreover have "set f \<subseteq> dom (reqFiles st1)"
    using requireInv_dom [OF inv(1)] frame1 f(2) by (simp add: expandFrame_def)
  from follows_files [OF le this] f(3)
  have "follows W (reqAppRoot st) (reqFiles st2) (finished st) f" by blast
  ultimately have "distinct (f @ g) \<and> set (f @ g) = set (xs @ ys)
      \<and> follows W (reqAppRoot st) (reqFiles st2) (finished st) (f @ g)
      \<and> set (requiredBy W (reqAppRoot st) (ss @ ts)) \<subseteq> finished st \<union> set (f @ g)"
    using f g by (auto simp: follows_append requiredBy_def root fin1)
  then show ?thesis unfolding acyclicRun_def by blast
qed

lemma expandPostD:
  assumes "expandPost W ss st c new (out, st', c')"
  shows "requireInv st'" "expandFrame st c st' c' new" "list_all (\<lambda>s. \<not> isRequire s) out"
    "mset out = plainOf ss + (\<Sum>p\<leftarrow>new. plainOf (ownStatements W (reqFiles st') p))"
    "compDiagnostics c' = compDiagnostics c \<Longrightarrow> acyclicRun W ss st st' new"
  using assms unfolding expandPost_def prod.case by blast+

lemma expandPostI:
  "requireInv st' \<Longrightarrow> expandFrame st c st' c' new \<Longrightarrow> list_all (\<lambda>s. \<not> isRequire s) out \<Longrightarrow>
   mset out = plainOf ss + (\<Sum>p\<leftarrow>new. plainOf (ownStatements W (reqFiles st') p)) \<Longrightarrow>
   (compDiagnostics c' = compDiagnostics c \<Longrightarrow> acyclicRun W ss st st' new) \<Longrightarrow>
   expandPost W ss st c new (out, st', c')"
  unfolding expandPost_def prod.case by blast

lemma expandPost_append:
  assumes "expandPost W ss st c xs (o1, st1, c1)" "expandPost W ts st1 c1 ys (o2, st2, c2)"
  shows "expandPost W (ss @ ts) st c (xs @ ys) (o1 @ o2, st2, c2)"
proof -
  have inv: "requireInv st1" "requireInv st2"
    and frame: "expandFrame st c st1 c1 xs" "expandFrame st1 c1 st2 c2 ys"
    by (fact expandPostD(1,2) [OF assms(1)] expandPostD(1,2) [OF assms(2)])+
  have le: "reqFiles st1 \<subseteq>\<^sub>m reqFiles st2" using frame(2) by (simp add: expandFrame_def)
  have "set xs \<subseteq> dom (reqFiles st1)"
    using requireInv_dom [OF inv(1)] frame(1) by (simp add: expandFrame_def)
  with le have sums: "(\<Sum>p\<leftarrow>xs. plainOf (ownStatements W (reqFiles st2) p))
      = (\<Sum>p\<leftarrow>xs. plainOf (ownStatements W (reqFiles st1) p))"
    by (rule sum_own_le)
  have "acyclicRun W (ss @ ts) st st2 (xs @ ys)"
    if eq: "compDiagnostics c2 = compDiagnostics c"
  proof (rule acyclicRun_append [OF _ _ frame inv])
    have "extends (compDiagnostics c) (compDiagnostics c1)"
      "extends (compDiagnostics c1) (compDiagnostics c2)"
      using frame by (simp_all add: expandFrame_def)
    with eq have "compDiagnostics c1 = compDiagnostics c" "compDiagnostics c2 = compDiagnostics c1"
      by (metis extends_antisym)+
    then show "acyclicRun W ss st st1 xs" "acyclicRun W ts st1 st2 ys"
      using expandPostD(5) [OF assms(1)] expandPostD(5) [OF assms(2)] by blast+
  qed
  then show ?thesis
    using expandPostD(3,4) [OF assms(1)] expandPostD(3,4) [OF assms(2)]
    by (intro expandPostI [OF inv(2) expandFrame_trans [OF frame]]) (simp_all add: sums)
qed

subsection \<open>One statement\<close>

lemma addDiagnostic_simps [simp]:
  "compModules (addDiagnostic k m s h r t y cy c) = compModules c"
  "compOrder (addDiagnostic k m s h r t y cy c) = compOrder c"
  "compStack (addDiagnostic k m s h r t y cy c) = compStack c"
  "compNextFileID (addDiagnostic k m s h r t y cy c) = compNextFileID c"
  by (simp_all add: addDiagnostic_def)

lemma addDiagnostic_grows:
  "extends (compDiagnostics c) (compDiagnostics (addDiagnostic k m s h r t y cy c))"
  "length (compDiagnostics (addDiagnostic k m s h r t y cy c)) = Suc (length (compDiagnostics c))"
  by (simp_all add: addDiagnostic_def)

lemma addDiagnostic_differs [simp]:
  "compDiagnostics (addDiagnostic k m s h r t y cy c) \<noteq> compDiagnostics c"
  by (simp add: addDiagnostic_def)

lemma appendFrontendDiagnostics_simps [simp]:
  "compModules (appendFrontendDiagnostics i ds c) = compModules c"
  "compOrder (appendFrontendDiagnostics i ds c) = compOrder c"
  "compStack (appendFrontendDiagnostics i ds c) = compStack c"
  "extends (compDiagnostics c) (compDiagnostics (appendFrontendDiagnostics i ds c))"
  by (simp_all add: appendFrontendDiagnostics_def)

text \<open>\<open>reported c c'\<close>: \<open>c'\<close> is \<open>c\<close> with one error more.\<close>

definition reported :: "('sem, 'iface) Compiler \<Rightarrow> ('sem, 'iface) Compiler \<Rightarrow> bool" where
  "reported c c' \<longleftrightarrow> (\<exists>d. Sev (DiagnosticOf d) = SeverityError \<and>
     c' = c\<lparr>compDiagnostics := compDiagnostics c @ [d]\<rparr>)"

lemma reported_add [simp, intro]: "reported c (addDiagnostic k m s h r t y cy c)"
  unfolding reported_def addDiagnostic_def
  by (rule exI, rule conjI [rotated], rule refl) simp

lemma reported_simps:
  assumes "reported c c'"
  shows "compModules c' = compModules c" "compOrder c' = compOrder c" "compStack c' = compStack c"
    "extends (compDiagnostics c) (compDiagnostics c')" "compDiagnostics c' \<noteq> compDiagnostics c"
  using assms by (auto simp: reported_def)

text \<open>A \<open>require\<close> that merges nothing: reported, or met before.\<close>

lemma expandPost_nothing:
  assumes "requireInv st" "isRequire s"
    and "st' = st \<or> st' = st\<lparr>reqUnresolved := appendUniqueString (reqUnresolved st) p\<rparr>"
    and "reported c c'
      \<or> c' = c \<and> set (requireTargets W (reqAppRoot st) s) \<subseteq> finished st"
  shows "expandPost W [s] st c [] ([], st', c')"
proof (rule expandPostI)
  show "requireInv st'"
    using assms(1,3) by (elim disjE) (simp_all add: requireInv_def appendUniqueString_def)
  show "expandFrame st c st' c' []"
    using assms(3,4) reported_simps(1-4) [of c c'] by (auto simp: expandFrame_def)
  assume "compDiagnostics c' = compDiagnostics c"
  with assms(4) have "set (requireTargets W (reqAppRoot st) s) \<subseteq> finished st"
    using reported_simps(5) by blast
  then show "acyclicRun W [s] st st' []" by (simp add: acyclicRun_def)
qed (use assms(2) in simp_all)

lemma frontEnd_parts:
  obtains l q where "frontEnd uc f = Some (l, q)" "Lex uc f = Some l" "Parse f (ResTokens l) = Some q"
proof -
  obtain r where r: "frontEnd uc f = Some r" using frontEnd_ok by (rule returnsE)
  obtain l where l: "Lex uc f = Some l"
    and b: "Option.bind (Parse f (ResTokens l)) (\<lambda>q. Some (l, q)) = Some r"
    using returns_bindD [OF r [unfolded frontEnd_def]] by blast
  obtain q where q: "Parse f (ResTokens l) = Some q" and "r = (l, q)"
    using returns_bindD [OF b] by blast
  with r l that show thesis by blast
qed

lemma requireFile_ok:
  assumes inv: "requireInv st" and new: "p \<notin> set (reqOrder st)" "p \<notin> set (reqStack st)"
    and targets: "requireTargets W (reqAppRoot st) s = [p]" and req: "isRequire s"
    and rec: "\<And>ss i st2 c2. requireInv st2 \<Longrightarrow> reqResolved st2 = p # reqResolved st \<Longrightarrow>
      returns (\<lambda>r. \<exists>new. expandPost W ss st2 c2 new r) (expand ss i st2 c2)"
  shows "returns (\<lambda>r. \<exists>new. expandPost W [s] st c new r) (requireFile W expand p text i st c)"
proof -
  let ?file = "NewFile (compNextFileID c) p text"
  obtain l q where fe: "frontEnd (unicodeOf W) ?file = Some (l, q)"
    and l: "Lex (unicodeOf W) ?file = Some l" and q: "Parse ?file (ResTokens l) = Some q"
    by (rule frontEnd_parts)
  let ?ss = "Statements (ResProgram q)"
  let ?files = "(reqFiles st)(p \<mapsto> ?file)"
  define st2 where "st2 = st\<lparr>reqResolved := p # reqResolved st, reqFiles := ?files,
    reqOrder := reqOrder st @ [p], reqStack := reqStack st @ [p],
    reqStackSet := p # reqStackSet st\<rparr>"
  define c2 where "c2 = appendFrontendDiagnostics (SourceID i) (ResParseDiagnostics q)
    (appendFrontendDiagnostics (SourceID i) (ResDiagnostics l)
      (c\<lparr>compNextFileID := compNextFileID c + 1\<rparr>))"
  have inv2: "requireInv st2" and st2: "reqResolved st2 = p # reqResolved st"
    "reqOrder st2 = reqOrder st @ [p]" "reqStack st2 = reqStack st @ [p]"
    "reqFiles st2 = ?files" "reqAppRoot st2 = reqAppRoot st"
    using inv new by (simp_all add: requireInv_def st2_def NewFile_def)
  have frame2: "compModules c2 = compModules c" "compOrder c2 = compOrder c"
    "compStack c2 = compStack c" "extends (compDiagnostics c) (compDiagnostics c2)"
    using appendFrontendDiagnostics_simps(4) by (simp_all add: c2_def extends_append_trans
        appendFrontendDiagnostics_def)
  let ?i = "\<lparr>SourceID = SourceID i, SourceName = SourceName i, SourcePath = p,
        Builtin = False, FrameworkSource = False\<rparr>"
  obtain r where r: "expand ?ss ?i st2 c2 = Some r" and "\<exists>xs. expandPost W ?ss st2 c2 xs r"
    using rec [OF inv2 st2(1)] by (rule returnsE)
  moreover obtain out st3 c3 where "r = (out, st3, c3)" by (cases r)
  ultimately obtain xs where run: "expand ?ss ?i st2 c2 = Some (out, st3, c3)"
    and post: "expandPost W ?ss st2 c2 xs (out, st3, c3)" by blast
  let ?st4 = "st3\<lparr>reqStack := butlast (reqStack st3), reqStackSet := removeAll p (reqStackSet st3)\<rparr>"
  have result: "requireFile W expand p text i st c = Some (out, ?st4, c3)"
    using l q run by (simp add: requireFile_def Let_def st2_def c2_def)
  note p1 = expandPostD [OF post]
  have "expandPost W [s] st c (p # xs) (out, ?st4, c3)"
  proof (rule expandPostI)
    have stack: "reqStack st3 = reqStack st @ [p]" and le: "?files \<subseteq>\<^sub>m reqFiles st3"
      and root: "reqAppRoot st3 = reqAppRoot st"
      and order: "reqOrder st3 = reqOrder st @ p # xs" and disj: "set xs \<inter> set (reqStack st2) = {}"
      and ext: "extends (compDiagnostics c2) (compDiagnostics c3)"
      using p1(2) by (simp_all add: expandFrame_def st2)
    have no_p: "p \<notin> set (rev (reqStack st))" using new by simp
    show "requireInv ?st4"
      using p1(1) stack no_p by (auto simp: requireInv_def)
    have "reqFiles st \<subseteq>\<^sub>m ?files"
      using new(1) requireInv_dom [OF inv] by (auto simp: map_le_def)
    then have "reqFiles st \<subseteq>\<^sub>m reqFiles st3" using le map_le_trans by blast
    then show "expandFrame st c ?st4 c3 (p # xs)"
      using p1(2) stack order new disj frame2 root by (auto simp: expandFrame_def st2 intro: extends_trans)
    show "list_all (\<lambda>s. \<not> isRequire s) out" by (rule p1(3))
    have "reqFiles st3 p = Some ?file" using le by (auto simp: map_le_def)
    then have own: "ownStatements W (reqFiles st3) p = ?ss"
      by (simp add: ownStatements_def fileStatements_def fe)
    show "mset out = plainOf [s] + (\<Sum>p\<leftarrow>p # xs. plainOf (ownStatements W (reqFiles ?st4) p))"
      using p1(4) req own by simp
    assume same: "compDiagnostics c3 = compDiagnostics c"
    then have "compDiagnostics c3 = compDiagnostics c2"
      using ext frame2(4) extends_antisym by metis
    then obtain f where f: "distinct f" "set f = set xs"
      "follows W (reqAppRoot st) (reqFiles st3) (finished st2) f"
      "set (requiredBy W (reqAppRoot st) ?ss) \<subseteq> finished st2 \<union> set f"
      using p1(5) by (auto simp: acyclicRun_def st2)
    have "finished st2 = finished st" using new by (auto simp: finished_def st2)
    moreover have "p \<notin> set xs" using disj st2 by auto
    ultimately show "acyclicRun W [s] st ?st4 (p # xs)"
      unfolding acyclicRun_def using f targets own
      by (intro exI [of _ "f @ [p]"]) (auto simp: follows_append)
  qed
  with result show ?thesis by auto
qed

subsection \<open>Any number of statements, in any workspace\<close>

definition pathsLeft :: "string set \<Rightarrow> requireState \<Rightarrow> nat" where
  "pathsLeft ps st = card (ps - set (reqResolved st))"

lemma pathsLeft_frame:
  assumes "finite ps" "requireInv st" "requireInv st'" "expandFrame st c st' c' new"
  shows "pathsLeft ps st' \<le> pathsLeft ps st"
proof -
  have "set (reqResolved st) \<subseteq> set (reqResolved st')"
    using assms(2-4) by (simp add: requireInv_def expandFrame_def)
  then show ?thesis unfolding pathsLeft_def by (intro card_mono) (use assms(1) in auto)
qed

lemma resolveRequirePath_cases:
  assumes "resolveRequirePath W literal sp i st c = (p, c')"
  obtains (invalid) message where "checkRequirePath W (reqAppRoot st) literal = Inl message"
      "p = None" "reported c c'"
  | (valid) canonical where "checkRequirePath W (reqAppRoot st) literal = Inr canonical"
      "p = Some canonical" "c' = c"
  using assms unfolding resolveRequirePath_def
  by (cases "checkRequirePath W (reqAppRoot st) literal") auto

context workspace
begin

lemma expandRequire_ok:
  assumes inv: "requireInv st" and left: "pathsLeft paths st < Suc n"
    and rec: "\<And>ss i st2 c2. requireInv st2 \<Longrightarrow> pathsLeft paths st2 < n \<Longrightarrow>
      returns (\<lambda>r. \<exists>new. expandPost W ss st2 c2 new r) (expand ss i st2 c2)"
  shows "returns (\<lambda>r. \<exists>new. expandPost W [RequireStmt s literal sp True] st c new r)
    (expandRequire W expand literal sp i st c)"
proof -
  let ?s = "RequireStmt s literal sp True"
  have req: "isRequire ?s" by (simp add: isRequire_def)
  obtain p c1 where res: "resolveRequirePath W literal sp i st c = (p, c1)" by (cases "resolveRequirePath W literal sp i st c")
  from res show ?thesis
  proof (cases rule: resolveRequirePath_cases)
    case invalid
    then have "expandPost W [?s] st c [] ([], st, c1)"
      by (intro expandPost_nothing [OF inv req]) simp_all
    with res invalid(2) show ?thesis by (auto simp: expandRequire_def)
  next
    case (valid q)
    have targets: "requireTargets W (reqAppRoot st) ?s = [q]"
      by (simp add: requireTargets_def valid(1))
    consider (stack) "q \<in> set (reqStackSet st)"
      | (known) "q \<notin> set (reqStackSet st)" "q \<in> set (reqResolved st)"
      | (new) "q \<notin> set (reqStackSet st)" "q \<notin> set (reqResolved st)" by blast
    then show ?thesis
    proof cases
      case stack
      then show ?thesis
        unfolding expandRequire_def res valid prod.case option.case
        by (simp only: if_True returns_Some)
          (rule exI, rule expandPost_nothing [OF inv req], simp_all only: reported_add simp_thms)
    next
      case known
      then have "q \<in> finished st" using inv by (auto simp: requireInv_def finished_def)
      then have "expandPost W [?s] st c [] ([], st, c)"
        by (intro expandPost_nothing [OF inv req]) (simp_all add: targets)
      with known show ?thesis unfolding expandRequire_def res valid by auto
    next
      case new
      let ?i = "\<lparr>SourceID = ''file:'' @ q, SourceName = Base q, SourcePath = q,
          Builtin = False, FrameworkSource = False\<rparr>"
      show ?thesis
      proof (cases "Load W ?i")
        case (Inl err)
        with new show ?thesis
          unfolding expandRequire_def res valid prod.case option.case
          by (simp only: if_False returns_Some sum.case)
            (rule exI, rule expandPost_nothing [OF inv req, where p = q],
             simp_all only: reported_add simp_thms)
      next
        case (Inr source)
        then have "q \<in> paths" using load_paths by fastforce
        with new(2) have "card (paths - insert q (set (reqResolved st)))
            < card (paths - set (reqResolved st))"
          using finite_paths by (intro psubset_card_mono) auto
        with left have "pathsLeft paths st2 < n" if "reqResolved st2 = q # reqResolved st" for st2
          using that by (simp add: pathsLeft_def)
        then have "returns (\<lambda>r. \<exists>new. expandPost W [?s] st c new r)
            (requireFile W expand q source i st c)"
          using inv new rec by (intro requireFile_ok [OF inv _ _ targets req])
            (auto simp: requireInv_def)
        with new Inr show ?thesis unfolding expandRequire_def res valid by simp
      qed
    qed
  qed
qed


lemma expandStatement_ok:
  assumes "requireInv st" "pathsLeft paths st < Suc n"
    and "\<And>ss i st2 c2. requireInv st2 \<Longrightarrow> pathsLeft paths st2 < n \<Longrightarrow>
      returns (\<lambda>r. \<exists>new. expandPost W ss st2 c2 new r) (expand ss i st2 c2)"
  shows "returns (\<lambda>r. \<exists>new. expandPost W [s] st c new r) (expandStatement W expand s i st c)"
proof (cases "isRequire s")
  case True
  then obtain a b sp literal where s: "s = RequireStmt a b sp literal"
    by (cases s) (simp_all add: isRequire_def)
  show ?thesis
  proof (cases literal)
    case True
    with s expandRequire_ok [OF assms] show ?thesis by (simp add: expandStatement_def)
  next
    case False
    then have "expandPost W [s] st c [] ([], st, c)"
      using s by (intro expandPost_nothing [OF assms(1) True]) (simp_all add: requireTargets_def)
    with s False show ?thesis by (auto simp: expandStatement_def)
  qed
next
  case False
  then have "requireTargets W (reqAppRoot st) s = []"
    by (cases s) (simp_all add: isRequire_def requireTargets_def)
  then have "expandPost W [s] st c [] ([s], st, c)"
    using assms(1) False by (intro expandPostI) (simp_all add: expandFrame_refl acyclicRun_def)
  moreover have "expandStatement W expand s i st c = Some ([s], st, c)"
    using False by (cases s) (simp_all add: isRequire_def expandStatement_def)
  ultimately show ?thesis by auto
qed

lemma expandLoop_ok:
  assumes rec: "\<And>ss i st2 c2. requireInv st2 \<Longrightarrow> pathsLeft paths st2 < n \<Longrightarrow>
      returns (\<lambda>r. \<exists>new. expandPost W ss st2 c2 new r) (expand ss i st2 c2)"
  shows "requireInv st \<Longrightarrow> pathsLeft paths st < Suc n \<Longrightarrow>
    returns (\<lambda>r. \<exists>new. expandPost W ss st c new r) (expandLoop W expand ss i st c)"
proof (induction ss arbitrary: st c)
  case Nil
  then show ?case by (auto intro: expandPost_Nil)
next
  case (Cons s ss)
  obtain r1 where r1: "expandStatement W expand s i st c = Some r1"
      "\<exists>new. expandPost W [s] st c new r1"
    using expandStatement_ok [OF Cons.prems rec] by (rule returnsE)
  moreover obtain o1 st1 c1 where "r1 = (o1, st1, c1)" by (cases r1)
  ultimately obtain xs where run1: "expandStatement W expand s i st c = Some (o1, st1, c1)"
    and p1: "expandPost W [s] st c xs (o1, st1, c1)" by blast
  note inv1 = expandPostD(1,2) [OF p1]
  have "pathsLeft paths st1 < Suc n"
    using pathsLeft_frame [OF finite_paths Cons.prems(1) inv1] Cons.prems(2) by simp
  from Cons.IH [OF inv1(1) this] obtain r2 where r2: "expandLoop W expand ss i st1 c1 = Some r2"
      "\<exists>new. expandPost W ss st1 c1 new r2"
    by (rule returnsE)
  moreover obtain o2 st2 c2 where "r2 = (o2, st2, c2)" by (cases r2)
  ultimately obtain ys where run2: "expandLoop W expand ss i st1 c1 = Some (o2, st2, c2)"
    and p2: "expandPost W ss st1 c1 ys (o2, st2, c2)" by blast
  have "expandPost W (s # ss) st c (xs @ ys) (o1 @ o2, st2, c2)"
    using expandPost_append [OF p1 p2] by simp
  with run1 run2 show ?case by auto
qed

theorem expandRequires_ok:
  "requireInv st \<Longrightarrow> pathsLeft paths st < n \<Longrightarrow>
    returns (\<lambda>r. \<exists>new. expandPost W ss st c new r) (expandRequires W n ss i st c)"
proof (induction n arbitrary: ss i st c)
  case (Suc n)
  then show ?case using expandLoop_ok [of n "expandRequires W n"] by simp
qed simp

lemma newRequireState_inv: "requireInv (newRequireState i)"
  by (simp add: requireInv_def newRequireState_def)

lemma newRequireState_left: "pathsLeft paths (newRequireState i) = card paths"
  by (simp add: pathsLeft_def newRequireState_def)

text \<open>The whole of one composition, from the initial state.\<close>

lemma compose_ok:
  assumes "card paths < n"
  shows "returns (\<lambda>r. expandPost W ss (newRequireState i) c (reqOrder (fst (snd r))) r)
    (expandRequires W n ss i (newRequireState i) c)"
proof -
  have "returns (\<lambda>r. \<exists>new. expandPost W ss (newRequireState i) c new r)
      (expandRequires W n ss i (newRequireState i) c)"
    using assms by (intro expandRequires_ok newRequireState_inv) (simp add: newRequireState_left)
  then show ?thesis
  proof (rule returns_mono)
    fix r assume "\<exists>new. expandPost W ss (newRequireState i) c new r"
    then obtain new where new: "expandPost W ss (newRequireState i) c new r" ..
    obtain out st' c' where r: "r = (out, st', c')" by (cases r)
    have "reqOrder st' = new"
      using expandPostD(2) [OF new [unfolded r]] by (simp add: expandFrame_def newRequireState_def)
    with new r show "expandPost W ss (newRequireState i) c (reqOrder (fst (snd r))) r" by simp
  qed
qed

end

subsection \<open>The workspaces of the code\<close>

text \<open>
  The compiler on an in-memory workspace, and on a file system whose readable files are the
  listed ones.
\<close>

definition memoryConfig ::
  "(string \<times> string) list \<Rightarrow> ('sem, 'iface) config \<Rightarrow> ('sem, 'iface) config" where
  "memoryConfig sources W =
     W\<lparr>CanonicalEntry := InMemory_CanonicalEntry, Resolve := InMemory_Resolve,
       Load := InMemory_Load (NewInMemoryWorkspace sources)\<rparr>"

definition listedFiles :: "(string \<times> string) list \<Rightarrow> os \<Rightarrow> os" where
  "listedFiles files sys = sys\<lparr>readFile := (\<lambda>p.
     case map_of files p of None \<Rightarrow> Inl ''no such file or directory'' | Some text \<Rightarrow> Inr text)\<rparr>"

definition fileConfig ::
  "(string \<times> string) list \<Rightarrow> ('sem, 'iface) config \<Rightarrow> ('sem, 'iface) config" where
  "fileConfig files W =
    (let sys = listedFiles files (osOf W)
     in W\<lparr>osOf := sys, CanonicalEntry := FileResolver_CanonicalEntry sys,
         Resolve := FileResolver_Resolve sys, Load := FileLoader_Load sys\<rparr>)"

lemma dom_NewInMemoryWorkspace:
  "dom (NewInMemoryWorkspace sources) = (\<lambda>(p, t). canonicalMemoryPath p) ` set sources"
proof -
  have "dom (foldl (\<lambda>workspace (filePath, text). workspace(canonicalMemoryPath filePath \<mapsto> text)) m sources)
      = dom m \<union> (\<lambda>(p, t). canonicalMemoryPath p) ` set sources" for m
    by (induction sources arbitrary: m) auto
  then show ?thesis by (simp add: NewInMemoryWorkspace_def)
qed

interpretation memory: workspace "memoryConfig sources W"
  "(\<lambda>(p, t). canonicalMemoryPath p) ` set sources" "''mem:''" for sources W
proof unfold_locales
  fix i :: SourceIdentity and t
  assume "Load (memoryConfig sources W) i = Inr t"
  then have "SourcePath i \<in> dom (NewInMemoryWorkspace sources)"
    by (auto simp: memoryConfig_def InMemory_Load_def split: option.splits)
  then show "SourcePath i \<in> (\<lambda>(p, t). canonicalMemoryPath p) ` set sources"
    by (simp only: dom_NewInMemoryWorkspace)
qed (auto simp: memoryConfig_def InMemory_Load_def InMemory_Resolve_def InMemory_CanonicalEntry_def
    memoryIdentity_def Let_def split: option.splits)

interpretation files: workspace "fileConfig files W" "fst ` set files" "''file:''" for files W
proof unfold_locales
  fix i :: SourceIdentity and t
  assume "Load (fileConfig files W) i = Inr t"
  then have "map_of files (SourcePath i) = Some t"
    by (auto simp: fileConfig_def Let_def FileLoader_Load_def listedFiles_def split: option.splits)
  then show "SourcePath i \<in> fst ` set files" by (force dest: map_of_SomeD)
qed (auto simp: fileConfig_def Let_def FileLoader_Load_def FileResolver_Resolve_def
    FileResolver_CanonicalEntry_def fileIdentity_def split: option.splits sum.splits if_splits)

end
