(* ===== verification/ModuleProofs.thy ===== *)
theory ModuleProofs
  imports ModuleCompiler RequireProofs
begin

text \<open>
  The invariant of the module compiler and what \<open>analyze\<close> does to the state, for every workspace:
  it ends, leaves the stack as it was, never touches a resolved module, and resolves a module only
  if it reported nothing on the way.
\<close>

subsection \<open>The invariant\<close>

definition stateOf :: "('sem, 'iface) Compiler \<Rightarrow> ModuleID \<Rightarrow> AnalysisState option" where
  "stateOf c i = map_option AState (compModules c i)"

definition clean :: "('sem, 'iface) Compiler \<Rightarrow> bool" where
  "clean c = (\<not> list_ex (\<lambda>item. Sev (DiagnosticOf item) = SeverityError) (compDiagnostics c))"

text \<open>Every \<open>bring\<close> of a module resolves to one of the given modules.\<close>

fun bringsOk :: "('sem, 'iface) config \<Rightarrow> SourceIdentity \<Rightarrow> ModuleID set \<Rightarrow> Stmt list \<Rightarrow> bool" where
  "bringsOk W importer before [] = True"
| "bringsOk W importer before (statement # statements) =
    ((case statement of
        BringStmt _ name _ _ _ _ \<Rightarrow>
          (case resolveDependency W importer name of
             Inl _ \<Rightarrow> False | Inr d \<Rightarrow> SourceID d \<in> before)
      | _ \<Rightarrow> True)
     \<and> bringsOk W importer before statements)"

definition moduleStatements :: "('sem, 'iface) Module \<Rightarrow> Stmt list" where
  "moduleStatements m = (case Parsed m of None \<Rightarrow> [] | Some p \<Rightarrow> Statements (ResProgram p))"

definition moduleBrings :: "('sem, 'iface) config \<Rightarrow> ModuleID set \<Rightarrow> ('sem, 'iface) Module option \<Rightarrow> bool" where
  "moduleBrings W before m =
    (case m of None \<Rightarrow> False | Some m \<Rightarrow> bringsOk W (ModuleSource m) before (moduleStatements m))"

text \<open>\<open>bringsFollow W ms before fin\<close>: each module of \<open>fin\<close> brings only modules that come before it.\<close>

fun bringsFollow ::
  "('sem, 'iface) config \<Rightarrow> (ModuleID \<rightharpoonup> ('sem, 'iface) Module) \<Rightarrow> ModuleID set \<Rightarrow> ModuleID list \<Rightarrow> bool"
where
  "bringsFollow W ms before [] = True"
| "bringsFollow W ms before (i # fin) =
    (moduleBrings W before (ms i) \<and> bringsFollow W ms (insert i before) fin)"

definition resolvedIDs :: "('sem, 'iface) Compiler \<Rightarrow> ModuleID set" where
  "resolvedIDs c = {i. stateOf c i = Some Resolved}"

definition moduleOk :: "('sem, 'iface) Compiler \<Rightarrow> ModuleID \<Rightarrow> ('sem, 'iface) Module \<Rightarrow> bool" where
  "moduleOk c i m \<longleftrightarrow> ModuleIDOf m = i \<and> AnalyzeCount m \<le> 1
     \<and> (AState m = Unseen \<longrightarrow> False)
     \<and> (AState m = Resolving \<longrightarrow> i \<in> set (compStack c) \<and> AnalyzeCount m = 0)
     \<and> (AState m = Resolved \<longrightarrow> Interface m \<noteq> None \<and> i \<notin> set (compStack c))
     \<and> (AState m = Failed \<longrightarrow> \<not> clean c)
     \<and> (i \<in> set (compStack c) \<longrightarrow> AnalyzeCount m = 0)"

definition compilerInv :: "('sem, 'iface) config \<Rightarrow> ('sem, 'iface) Compiler \<Rightarrow> bool" where
  "compilerInv W c \<longleftrightarrow>
     distinct (compOrder c) \<and> dom (compModules c) = set (compOrder c)
     \<and> distinct (compStack c) \<and> set (compStack c) \<subseteq> dom (compModules c)
     \<and> (\<forall>i m. compModules c i = Some m \<longrightarrow> moduleOk c i m)
     \<and> (\<exists>fin. distinct fin \<and> set fin = resolvedIDs c \<and> bringsFollow W (compModules c) {} fin)"

lemma compilerInvD:
  assumes "compilerInv W c"
  shows "distinct (compOrder c)" "dom (compModules c) = set (compOrder c)"
    "distinct (compStack c)" "set (compStack c) \<subseteq> dom (compModules c)"
    "\<And>i m. compModules c i = Some m \<Longrightarrow> moduleOk c i m"
    "\<exists>fin. distinct fin \<and> set fin = resolvedIDs c \<and> bringsFollow W (compModules c) {} fin"
  using assms unfolding compilerInv_def by blast+

lemma bringsOk_mono: "bringsOk W i s ss \<Longrightarrow> s \<subseteq> t \<Longrightarrow> bringsOk W i t ss"
  by (induction ss) (auto split: Stmt.splits sum.splits)

lemma bringsOk_append: "bringsOk W i s (ss @ ts) \<longleftrightarrow> bringsOk W i s ss \<and> bringsOk W i s ts"
  by (induction ss) auto

lemma bringsFollow_append:
  "bringsFollow W ms before (xs @ ys) \<longleftrightarrow>
     bringsFollow W ms before xs \<and> bringsFollow W ms (before \<union> set xs) ys"
  by (induction xs arbitrary: before) auto

lemma bringsFollow_cong:
  "(\<And>i s. i \<in> set fin \<Longrightarrow> moduleBrings W s (ms' i) = moduleBrings W s (ms i)) \<Longrightarrow>
    bringsFollow W ms' before fin = bringsFollow W ms before fin"
  by (induction fin arbitrary: before) auto

subsection \<open>How a state evolves\<close>

text \<open>
  A module keeps everything but its state, which may go from resolving to failed. While a module
  of \<open>own\<close> is being analyzed its list of dependencies grows too.
\<close>

definition demoted :: "('sem, 'iface) Module \<Rightarrow> ('sem, 'iface) Module \<Rightarrow> bool" where
  "demoted m m' \<longleftrightarrow> m' = m \<or> AState m = Resolving \<and> m' = m\<lparr>AState := Failed\<rparr>"

definition evolved :: "ModuleID set \<Rightarrow> ModuleID \<Rightarrow> ('sem, 'iface) Module \<Rightarrow> ('sem, 'iface) Module \<Rightarrow> bool" where
  "evolved own i m m' \<longleftrightarrow>
     (if i \<in> own then \<exists>ds. demoted (m\<lparr>Dependencies := ds\<rparr>) m' else demoted m m')"

definition evolves :: "ModuleID set \<Rightarrow> ('sem, 'iface) Compiler \<Rightarrow> ('sem, 'iface) Compiler \<Rightarrow> bool" where
  "evolves own c c' \<longleftrightarrow> compStack c' = compStack c
     \<and> extends (compOrder c) (compOrder c') \<and> extends (compDiagnostics c) (compDiagnostics c')
     \<and> (\<forall>i m. compModules c i = Some m \<longrightarrow>
          (\<exists>m'. compModules c' i = Some m' \<and> evolved own i m m'))"

lemma demoted_refl [simp]: "demoted m m"
  by (simp add: demoted_def)

lemma demoted_trans: "demoted m m1 \<Longrightarrow> demoted m1 m2 \<Longrightarrow> demoted m m2"
  by (auto simp: demoted_def)

lemma evolved_refl [simp]: "evolved own i m m"
  unfolding evolved_def by (auto intro!: exI [of _ "Dependencies m"])

lemma demoted_Dependencies:
  "demoted m m1 \<Longrightarrow> demoted (m\<lparr>Dependencies := ds\<rparr>) (m1\<lparr>Dependencies := ds\<rparr>)"
  by (auto simp: demoted_def)

lemma evolved_trans: "evolved own i m m1 \<Longrightarrow> evolved own i m1 m2 \<Longrightarrow> evolved own i m m2"
proof (cases "i \<in> own")
  case True
  moreover assume "evolved own i m m1" "evolved own i m1 m2"
  ultimately obtain ds es where 1: "demoted (m\<lparr>Dependencies := ds\<rparr>) m1"
    and 2: "demoted (m1\<lparr>Dependencies := es\<rparr>) m2"
    by (auto simp: evolved_def)
  have "demoted (m\<lparr>Dependencies := es\<rparr>) (m1\<lparr>Dependencies := es\<rparr>)"
    using demoted_Dependencies [OF 1, of es] by simp
  with 2 True show ?thesis by (auto simp: evolved_def intro: demoted_trans)
qed (auto simp: evolved_def intro: demoted_trans)

lemma evolved_mono: "evolved own i m m' \<Longrightarrow> own \<subseteq> own' \<Longrightarrow> evolved own' i m m'"
  unfolding evolved_def by (auto split: if_splits intro!: exI [of _ "Dependencies m"])

lemma evolved_fields:
  assumes "evolved own i m m'"
  shows "ModuleIDOf m' = ModuleIDOf m" "ModuleSource m' = ModuleSource m" "Parsed m' = Parsed m"
    "Interface m' = Interface m" "AnalyzeCount m' = AnalyzeCount m"
    "AState m' = AState m \<or> AState m = Resolving \<and> AState m' = Failed"
  using assms by (auto simp: evolved_def demoted_def split: if_splits)

lemma evolved_Resolved: "evolved own i m m' \<Longrightarrow> i \<notin> own \<Longrightarrow> AState m = Resolved \<Longrightarrow> m' = m"
  by (auto simp: evolved_def demoted_def)

lemma evolves_refl [simp]: "evolves own c c"
  by (simp add: evolves_def)

lemma evolves_trans:
  assumes "evolves own c c1" "evolves own c1 c2"
  shows "evolves own c c2"
  unfolding evolves_def
proof (intro conjI allI impI)
  fix i m assume "compModules c i = Some m"
  then obtain m1 where "compModules c1 i = Some m1" "evolved own i m m1"
    using assms(1) unfolding evolves_def by blast
  then show "\<exists>m'. compModules c2 i = Some m' \<and> evolved own i m m'"
    using assms(2) evolved_trans unfolding evolves_def by blast
qed (use assms in \<open>auto simp: evolves_def intro: extends_trans\<close>)

lemma evolves_mono: "evolves own c c' \<Longrightarrow> own \<subseteq> own' \<Longrightarrow> evolves own' c c'"
  unfolding evolves_def using evolved_mono by blast

lemma evolvesD:
  assumes "evolves own c c'"
  shows "compStack c' = compStack c" "extends (compOrder c) (compOrder c')"
    "extends (compDiagnostics c) (compDiagnostics c')"
    "compModules c i = Some m \<Longrightarrow> \<exists>m'. compModules c' i = Some m' \<and> evolved own i m m'"
  using assms unfolding evolves_def by blast+

lemma clean_extends: "extends (compDiagnostics c) (compDiagnostics c') \<Longrightarrow> clean c' \<Longrightarrow> clean c"
  by (auto simp: clean_def extends_iff)

lemma evolves_clean: "evolves own c c' \<Longrightarrow> clean c' \<Longrightarrow> clean c"
  by (blast dest: evolvesD(3) clean_extends)

lemma evolves_Failed: "evolves own c c' \<Longrightarrow> stateOf c i = Some Failed \<Longrightarrow> stateOf c' i = Some Failed"
  using evolvesD(4) [of own c c' i] evolved_fields(6)
  by (fastforce simp: stateOf_def)

lemma evolves_Resolved:
  "evolves own c c' \<Longrightarrow> stateOf c i = Some Resolved \<Longrightarrow> stateOf c' i = Some Resolved"
  using evolvesD(4) [of own c c' i] evolved_fields(6)
  by (fastforce simp: stateOf_def)

lemma evolves_Resolved_same:
  "evolves own c c' \<Longrightarrow> stateOf c i = Some Resolved \<Longrightarrow> i \<notin> own \<Longrightarrow>
    compModules c' i = compModules c i"
  using evolvesD(4) [of own c c' i] evolved_Resolved
  by (fastforce simp: stateOf_def)

lemma evolves_dom: "evolves own c c' \<Longrightarrow> dom (compModules c) \<subseteq> dom (compModules c')"
  unfolding evolves_def by blast

subsection \<open>The invariant under evolution\<close>

lemma evolved_brings:
  "evolved own i m m' \<Longrightarrow> moduleBrings W s (Some m') = moduleBrings W s (Some m)"
  by (simp add: moduleBrings_def moduleStatements_def evolved_fields(2,3))

lemma moduleOk_evolved:
  assumes ok: "moduleOk c i m" and ev: "evolved own i m m'"
    and "compStack c' = compStack c" "clean c' \<Longrightarrow> clean c"
    and failed: "AState m' = Failed \<Longrightarrow> AState m = Failed \<or> \<not> clean c'"
  shows "moduleOk c' i m'"
  using assms evolved_fields [OF ev] unfolding moduleOk_def by auto

lemma inv_evolves:
  assumes inv: "compilerInv W c" and ev: "evolves own c c'" and order: "compOrder c' = compOrder c"
    and dom: "dom (compModules c') = dom (compModules c)"
    and failed: "\<And>i. stateOf c' i = Some Failed \<Longrightarrow> stateOf c i = Some Failed \<or> \<not> clean c'"
  shows "compilerInv W c'"
proof -
  note D = compilerInvD [OF inv]
  have before: "\<exists>m. compModules c i = Some m \<and> evolved own i m m'" if "compModules c' i = Some m'" for i m'
  proof -
    have "i \<in> dom (compModules c)" using that dom by blast
    then obtain m where m: "compModules c i = Some m" by blast
    with evolvesD(4) [OF ev m] that show ?thesis by auto
  qed
  obtain fin where fin: "distinct fin" "set fin = resolvedIDs c" "bringsFollow W (compModules c) {} fin"
    using D(6) by blast
  have resolved: "resolvedIDs c' = resolvedIDs c"
  proof (rule set_eqI)
    fix i
    show "i \<in> resolvedIDs c' \<longleftrightarrow> i \<in> resolvedIDs c"
    proof
      assume "i \<in> resolvedIDs c'"
      then obtain m' where m': "compModules c' i = Some m'" "AState m' = Resolved"
        by (auto simp: resolvedIDs_def stateOf_def)
      then obtain m where "compModules c i = Some m" "evolved own i m m'" using before by blast
      with m' evolved_fields(6) show "i \<in> resolvedIDs c"
        by (fastforce simp: resolvedIDs_def stateOf_def)
    qed (use evolves_Resolved [OF ev] in \<open>auto simp: resolvedIDs_def\<close>)
  qed
  have "bringsFollow W (compModules c') {} fin = bringsFollow W (compModules c) {} fin"
  proof (rule bringsFollow_cong)
    fix i s assume "i \<in> set fin"
    then obtain m where m: "compModules c i = Some m"
      using fin(2) by (auto simp: resolvedIDs_def stateOf_def)
    then obtain m' where "compModules c' i = Some m'" "evolved own i m m'"
      using evolvesD(4) [OF ev] by blast
    with m evolved_brings show "moduleBrings W s (compModules c' i) = moduleBrings W s (compModules c i)"
      by metis
  qed
  moreover have "moduleOk c' i m'" if m': "compModules c' i = Some m'" for i m'
  proof -
    obtain m where m: "compModules c i = Some m" "evolved own i m m'" using before [OF m'] by blast
    show ?thesis
    proof (rule moduleOk_evolved [OF D(5) [OF m(1)] m(2) evolvesD(1) [OF ev]])
      show "clean c' \<Longrightarrow> clean c" by (rule evolves_clean [OF ev])
      show "AState m' = Failed \<Longrightarrow> AState m = Failed \<or> \<not> clean c'"
        using failed [of i] m(1) m' by (simp add: stateOf_def)
    qed
  qed
  ultimately show ?thesis
    using D(1-4) fin resolved order dom evolvesD(1) [OF ev] unfolding compilerInv_def by auto
qed

lemma stateOf_dom: "stateOf c i = Some s \<Longrightarrow> i \<in> dom (compModules c)"
  by (auto simp: stateOf_def)

subsection \<open>Reports\<close>

lemma not_clean_reported: "reported c c' \<Longrightarrow> \<not> clean c'"
  by (auto simp: reported_def clean_def)

lemma evolves_reported: "reported c c' \<Longrightarrow> evolves own c c'"
  using reported_simps [of c c'] unfolding evolves_def by auto

lemma inv_reported:
  assumes "reported c c'" "compilerInv W c"
  shows "compilerInv W c'"
  by (rule inv_evolves [OF assms(2) evolves_reported [OF assms(1), of "{}"]])
    (simp_all add: reported_simps(1,2) [OF assms(1)] not_clean_reported [OF assms(1)])

lemma stateOf_reported: "reported c c' \<Longrightarrow> stateOf c' = stateOf c"
  using reported_simps [of c c'] by (auto simp: stateOf_def fun_eq_iff)

subsection \<open>Cycles\<close>

lemma setState_Failed_fields:
  "compModules (foldl (\<lambda>c i. setState i Failed c) c ids) i =
     (if i \<in> set ids then map_option (\<lambda>m. m\<lparr>AState := Failed\<rparr>) (compModules c i) else compModules c i)"
  "compStack (foldl (\<lambda>c i. setState i Failed c) c ids) = compStack c"
  "compOrder (foldl (\<lambda>c i. setState i Failed c) c ids) = compOrder c"
  "compDiagnostics (foldl (\<lambda>c i. setState i Failed c) c ids) = compDiagnostics c"
  by (induction ids arbitrary: c)
    (auto simp: setState_def updateModule_def split: option.split)

lemma cycleFrom_members:
  assumes "i \<in> set stack"
  shows "i \<in> set (butlast (cycleFrom stack i))" "last stack \<in> set (butlast (cycleFrom stack i))"
    "set (butlast (cycleFrom stack i)) \<subseteq> set stack"
proof -
  let ?d = "dropWhile (\<lambda>j. j \<noteq> i) stack"
  have c: "butlast (cycleFrom stack i) = ?d" using assms by (simp add: cycleFrom_def)
  have ne: "?d \<noteq> []" using assms by (simp add: dropWhile_eq_Nil_conv)
  have "hd ?d = i" using hd_dropWhile [OF ne] by blast
  with ne show "i \<in> set (butlast (cycleFrom stack i))" unfolding c by (metis hd_in_set)
  have "last ?d = last stack" using ne by (metis last_appendR takeWhile_dropWhile_id)
  with ne show "last stack \<in> set (butlast (cycleFrom stack i))" unfolding c by (metis last_in_set)
  show "set (butlast (cycleFrom stack i)) \<subseteq> set stack" unfolding c by (rule set_dropWhileD [THEN subsetI])
qed

lemma reportCycle_ok:
  assumes inv: "compilerInv W c" and res: "stateOf c i = Some Resolving"
  shows "compilerInv W (reportCycle i r s c)" "evolves {} c (reportCycle i r s c)"
    "stateOf (reportCycle i r s c) i = Some Failed" "\<not> clean (reportCycle i r s c)"
    "stateOf (reportCycle i r s c) (last (compStack c)) = Some Failed"
proof -
  let ?ids = "butlast (cycleFrom (compStack c) i)" and ?c' = "reportCycle i r s c"
  define c1 where "c1 = addDiagnostic CodeCircularDependency
    (''circular module dependency: '' @ formatCycle (cycleFrom (compStack c) i)) s
    ''remove one bring edge from the dependency cycle'' r i '''' (cycleFrom (compStack c) i) c"
  have rep: "reported c c1" by (simp add: c1_def)
  have c': "?c' = foldl (\<lambda>c i. setState i Failed c) c1 ?ids"
    by (simp add: reportCycle_def Let_def c1_def)
  note D = compilerInvD [OF inv]
  obtain m where "compModules c i = Some m" "AState m = Resolving"
    using res by (auto simp: stateOf_def)
  then have i: "i \<in> set (compStack c)" using D(5) by (auto simp: moduleOk_def)
  note cyc = cycleFrom_members [OF i]
  have mods: "compModules ?c' j = (if j \<in> set ?ids then map_option (\<lambda>m. m\<lparr>AState := Failed\<rparr>) (compModules c j)
      else compModules c j)" for j
    unfolding c' setState_Failed_fields using reported_simps(1) [OF rep] by simp
  have fields: "compStack ?c' = compStack c" "compOrder ?c' = compOrder c"
      "compDiagnostics ?c' = compDiagnostics c1"
    unfolding c' setState_Failed_fields using reported_simps(2,3) [OF rep] by simp_all
  show nc: "\<not> clean ?c'" using not_clean_reported [OF rep] by (simp add: clean_def fields(3))
  have ondom: "j \<in> dom (compModules c)" if "j \<in> set ?ids" for j
    using that cyc(3) D(4) by blast
  show ev: "evolves {} c ?c'"
    unfolding evolves_def
  proof (intro conjI allI impI)
    fix j m assume m: "compModules c j = Some m"
    show "\<exists>m'. compModules ?c' j = Some m' \<and> evolved {} j m m'"
    proof (cases "j \<in> set ?ids")
      case True
      then have "AState m \<noteq> Resolved" "AState m \<noteq> Unseen"
        using D(5) [OF m] cyc(3) by (auto simp: moduleOk_def)
      then have "demoted m (m\<lparr>AState := Failed\<rparr>)"
        by (cases "AState m") (simp_all add: demoted_def)
      with True m mods [of j] show ?thesis by (simp add: evolved_def)
    qed (use m mods [of j] in simp)
  qed (use fields reported_simps(4) [OF rep] in auto)
  have "stateOf ?c' j = Some Failed" if j: "j \<in> set ?ids" for j
  proof -
    obtain m where "compModules c j = Some m" using ondom [OF j] by blast
    with mods [of j] j show ?thesis by (simp add: stateOf_def)
  qed
  with cyc(1,2) show "stateOf ?c' i = Some Failed" "stateOf ?c' (last (compStack c)) = Some Failed"
    by blast+
  have "dom (compModules ?c') = dom (compModules c)"
    using mods by (auto split: if_splits)
  then show "compilerInv W ?c'" using inv ev fields(2) nc by (blast intro: inv_evolves)
qed

subsection \<open>Opening and closing a module\<close>

lemma pushModule_simps [simp]:
  "compModules (pushModule i c) = (compModules c)(SourceID i \<mapsto> newModule i)"
  "compOrder (pushModule i c) = compOrder c @ [SourceID i]"
  "compStack (pushModule i c) = compStack c @ [SourceID i]"
  "compDiagnostics (pushModule i c) = compDiagnostics c"
  "clean (pushModule i c) = clean c"
  by (simp_all add: pushModule_def clean_def)

lemma popStack_simps [simp]:
  "compModules (popStack c) = compModules c" "compOrder (popStack c) = compOrder c"
  "compStack (popStack c) = butlast (compStack c)" "compDiagnostics (popStack c) = compDiagnostics c"
  "clean (popStack c) = clean c" "stateOf (popStack c) = stateOf c"
  by (simp_all add: popStack_def clean_def stateOf_def fun_eq_iff)

lemma push_inv:
  assumes inv: "compilerInv W c" and new: "compModules c (SourceID i) = None"
  shows "compilerInv W (pushModule i c)"
proof -
  note D = compilerInvD [OF inv]
  obtain fin where fin: "distinct fin" "set fin = resolvedIDs c" "bringsFollow W (compModules c) {} fin"
    using D(6) by blast
  have notin: "SourceID i \<notin> set (compStack c)" "SourceID i \<notin> set (compOrder c)"
    using new D(2,4) by (auto simp flip: D(2))
  have "resolvedIDs (pushModule i c) = resolvedIDs c"
    using new by (auto simp: resolvedIDs_def stateOf_def newModule_def)
  moreover have "bringsFollow W (compModules (pushModule i c)) {} fin"
    using fin new by (subst bringsFollow_cong [where ms = "compModules c"])
      (auto simp: resolvedIDs_def stateOf_def)
  moreover have "moduleOk (pushModule i c) j m" if m: "compModules (pushModule i c) j = Some m" for j m
  proof (cases "j = SourceID i")
    case True
    with m show ?thesis by (auto simp: moduleOk_def newModule_def)
  next
    case False
    with m D(5) [of j m] show ?thesis by (auto simp: moduleOk_def)
  qed
  ultimately show ?thesis
    using D(1-4) fin notin unfolding compilerInv_def by auto
qed

lemma close_ok:
  assumes inv: "compilerInv W c2" and stack: "compStack c2 = st @ [i]"
    and m2: "compModules c2 i = Some m2" "AState m2 \<noteq> Resolved"
    and c3: "compModules c3 = (compModules c2)(i \<mapsto> m3)" "compOrder c3 = compOrder c2"
      "compStack c3 = compStack c2" "extends (compDiagnostics c2) (compDiagnostics c3)"
    and m3: "ModuleIDOf m3 = i" "AnalyzeCount m3 \<le> 1" "AState m3 = Resolved \<or> AState m3 = Failed"
      "AState m3 = Failed \<Longrightarrow> \<not> clean c3"
      "AState m3 = Resolved \<Longrightarrow> Interface m3 \<noteq> None \<and> moduleBrings W (resolvedIDs c2) (Some m3)"
  shows "compilerInv W (popStack c3)"
proof -
  note D = compilerInvD [OF inv]
  obtain fin where fin: "distinct fin" "set fin = resolvedIDs c2" "bringsFollow W (compModules c2) {} fin"
    using D(6) by blast
  have i_fin: "i \<notin> set fin" using fin(2) m2 by (simp add: resolvedIDs_def stateOf_def)
  have kept: "bringsFollow W (compModules c3) {} fin"
    using fin(3) i_fin by (subst bringsFollow_cong [where ms = "compModules c2"]) (auto simp: c3(1))
  have ids: "resolvedIDs (popStack c3)
      = (if AState m3 = Resolved then insert i (resolvedIDs c2) else resolvedIDs c2)"
    using m2 by (auto simp: resolvedIDs_def stateOf_def c3(1))
  have "\<exists>fin. distinct fin \<and> set fin = resolvedIDs (popStack c3) \<and> bringsFollow W (compModules (popStack c3)) {} fin"
  proof (cases "AState m3 = Resolved")
    case True
    with m3(5) fin i_fin kept show ?thesis
      by (intro exI [of _ "fin @ [i]"]) (auto simp: ids bringsFollow_append c3(1))
  next
    case False
    with fin kept show ?thesis by (intro exI [of _ fin]) (simp add: ids)
  qed
  moreover have "moduleOk (popStack c3) j m" if m: "compModules (popStack c3) j = Some m" for j m
  proof (cases "j = i")
    case True
    then have "m = m3" using m by (simp add: c3(1))
    then show ?thesis using True m3 D(3) stack c3(3) by (auto simp: moduleOk_def)
  next
    case False
    then have "moduleOk c2 j m" using m D(5) by (simp add: c3(1))
    moreover have "clean c3 \<Longrightarrow> clean c2" by (rule clean_extends [OF c3(4)])
    ultimately show ?thesis using False D(3) stack c3(3) by (auto simp: moduleOk_def)
  qed
  moreover have "dom (compModules c3) = dom (compModules c2)" using m2(1) by (auto simp: c3(1))
  ultimately show ?thesis
    using D(1-4) stack c3(2,3) unfolding compilerInv_def by auto
qed

lemma close_evolves:
  assumes new: "compModules c i = None"
    and c1: "compModules c1 = (compModules c)(i \<mapsto> m1)" "compOrder c1 = compOrder c @ [i]"
      "compStack c1 = compStack c @ [i]" "extends (compDiagnostics c) (compDiagnostics c1)"
    and ev: "evolves {i} c1 c2"
    and c3: "compModules c3 = (compModules c2)(i \<mapsto> m3)" "compOrder c3 = compOrder c2"
      "compStack c3 = compStack c2" "extends (compDiagnostics c2) (compDiagnostics c3)"
  shows "evolves {} c (popStack c3)"
  unfolding evolves_def
proof (intro conjI allI impI)
  fix j m assume m: "compModules c j = Some m"
  then have j: "j \<noteq> i" using new by auto
  with m evolvesD(4) [OF ev, of j m] c1(1)
  show "\<exists>m'. compModules (popStack c3) j = Some m' \<and> evolved {} j m m'"
    by (auto simp: c3(1) evolved_def)
next
  have "extends (compOrder c) (compOrder c1)" by (simp add: c1(2))
  then show "extends (compOrder c) (compOrder (popStack c3))"
    using evolvesD(2) [OF ev] extends_trans by (simp only: popStack_simps c3(2)) blast
  show "extends (compDiagnostics c) (compDiagnostics (popStack c3))"
    using evolvesD(3) [OF ev] c1(4) c3(4) extends_trans by simp blast
  show "compStack (popStack c3) = compStack c"
    using evolvesD(1) [OF ev] c3(3) c1(3) by simp
qed

lemma replace_inv:
  assumes inv: "compilerInv W c" and m: "compModules c i = Some m" "AState m = Resolving"
    and m': "ModuleIDOf m' = i" "AState m' = Resolving" "AnalyzeCount m' = 0"
    and c': "compModules c' = (compModules c)(i \<mapsto> m')" "compOrder c' = compOrder c"
      "compStack c' = compStack c" "extends (compDiagnostics c) (compDiagnostics c')"
  shows "compilerInv W c'"
proof -
  note D = compilerInvD [OF inv]
  obtain fin where fin: "distinct fin" "set fin = resolvedIDs c" "bringsFollow W (compModules c) {} fin"
    using D(6) by blast
  have "i \<notin> set fin" using fin(2) m by (simp add: resolvedIDs_def stateOf_def)
  then have "bringsFollow W (compModules c') {} fin"
    using fin(3) by (subst bringsFollow_cong [where ms = "compModules c"]) (auto simp: c'(1))
  moreover have "resolvedIDs c' = resolvedIDs c"
    using m m'(2) by (auto simp: resolvedIDs_def stateOf_def c'(1))
  moreover have "moduleOk c' j n" if n: "compModules c' j = Some n" for j n
  proof (cases "j = i")
    case True
    then have "n = m'" using n by (simp add: c'(1))
    then show ?thesis using True m' D(5) [OF m(1)] m(2) by (auto simp: moduleOk_def c'(3))
  next
    case False
    then have "moduleOk c j n" using n D(5) by (simp add: c'(1))
    then show ?thesis using clean_extends [OF c'(4)] by (auto simp: moduleOk_def c'(3))
  qed
  moreover have "dom (compModules c') = dom (compModules c)" using m(1) by (auto simp: c'(1))
  ultimately show ?thesis
    using D(1-4) fin c'(2,3) unfolding compilerInv_def by auto
qed

subsection \<open>Identities and the measure\<close>

definition validIdentity :: "('sem, 'iface) config \<Rightarrow> string \<Rightarrow> SourceIdentity \<Rightarrow> bool" where
  "validIdentity W scheme i \<longleftrightarrow>
    (if Builtin i then Builtins W (SourceName i) \<noteq> None
     else if FrameworkSource i then SourceID i = FrameworkModuleID (SourceName i)
     else SourceID i = scheme @ SourcePath i)"

definition loadableIDs :: "('sem, 'iface) config \<Rightarrow> string \<Rightarrow> string set \<Rightarrow> ModuleID set" where
  "loadableIDs W scheme paths = (\<lambda>p. scheme @ p) ` paths
     \<union> FrameworkModuleID ` {name. Framework_Has (embeddedFiles W) name}"

definition modulesLeft :: "ModuleID set \<Rightarrow> ('sem, 'iface) Compiler \<Rightarrow> nat" where
  "modulesLeft ids c = card (ids - dom (compModules c))"

lemma Framework_names:
  "finite {name. Framework_Has fs name} \<and> card {name. Framework_Has fs name} \<le> length fs"
proof -
  let ?names = "{name. Framework_Has fs name}"
  have name: "sourcePath name = ''sources/'' @ name @ ''.ahd''" if "Framework_Has fs name" for name
    using that by (auto simp: Framework_Has_def embedReadFile_def sourcePath_def split: if_splits)
  have inj: "inj_on sourcePath ?names" by (rule inj_onI) (simp add: name)
  have "sourcePath ` ?names \<subseteq> fst ` set fs"
    by (force simp: Framework_Has_def embedReadFile_def dest: map_of_SomeD split: if_splits)
  moreover have "finite (fst ` set fs)" by simp
  ultimately have "finite (sourcePath ` ?names)" "card (sourcePath ` ?names) \<le> card (fst ` set fs)"
    by (rule finite_subset, rule card_mono [rotated])
  moreover have "card (fst ` set fs) \<le> length fs" by (metis card_length length_map list.set_map)
  ultimately show ?thesis using inj by (simp add: card_image finite_image_iff)
qed

lemma loadableIDs_card:
  assumes "finite paths"
  shows "finite (loadableIDs W scheme paths)"
    "card (loadableIDs W scheme paths) \<le> card paths + length (embeddedFiles W)"
proof -
  note F = Framework_names [of "embeddedFiles W"]
  show "finite (loadableIDs W scheme paths)" using assms F by (simp add: loadableIDs_def)
  have "card (loadableIDs W scheme paths)
      \<le> card ((\<lambda>p. scheme @ p) ` paths) + card (FrameworkModuleID ` {name. Framework_Has (embeddedFiles W) name})"
    unfolding loadableIDs_def by (rule card_Un_le)
  also have "\<dots> \<le> card paths + card {name. Framework_Has (embeddedFiles W) name}"
    by (intro add_mono card_image_le) (use assms F in auto)
  finally show "card (loadableIDs W scheme paths) \<le> card paths + length (embeddedFiles W)"
    using F by linarith
qed

lemma modulesLeft_evolves:
  "finite ids \<Longrightarrow> evolves own c c' \<Longrightarrow> modulesLeft ids c' \<le> modulesLeft ids c"
  unfolding modulesLeft_def by (intro card_mono) (auto dest!: evolves_dom)

subsection \<open>The contract of \<open>analyze\<close>\<close>

definition analyzePost ::
  "('sem, 'iface) config \<Rightarrow> SourceIdentity \<Rightarrow> ('sem, 'iface) Compiler \<Rightarrow> ('sem, 'iface) Compiler \<Rightarrow> bool"
where
  "analyzePost W i c c' \<longleftrightarrow> compilerInv W c' \<and> evolves {} c c'
     \<and> (stateOf c' (SourceID i) = Some Resolved \<and> clean c' = clean c
        \<or> stateOf c' (SourceID i) = Some Failed)
     \<and> (Builtin i \<longrightarrow> compStack c \<noteq> [] \<longrightarrow>
          clean c' = clean c \<or> stateOf c' (last (compStack c)) = Some Failed)"

definition analyzesTo ::
  "('sem, 'iface) config \<Rightarrow> string \<Rightarrow> ModuleID set \<Rightarrow> nat \<Rightarrow> ('sem, 'iface) analyzer \<Rightarrow> bool" where
  "analyzesTo W scheme ids n rec \<longleftrightarrow>
     (\<forall>i r s c. validIdentity W scheme i \<longrightarrow> compilerInv W c \<longrightarrow> modulesLeft ids c < n \<longrightarrow>
        returns (analyzePost W i c) (rec i r s c))"

lemma resolvedInterface_iff:
  "compilerInv W c \<Longrightarrow> stateOf c d = Some Resolved \<longleftrightarrow> resolvedInterface c d \<noteq> None"
  using compilerInvD(5) [of W c d]
  by (auto simp: stateOf_def resolvedInterface_def moduleOk_def split: option.splits)

lemma addDependency_ok:
  assumes "addDependency self d b c = (b', c')"
  shows "dependencyFailed b' = dependencyFailed b" "evolves {self} c c'"
    "compOrder c' = compOrder c" "dom (compModules c') = dom (compModules c)"
    "stateOf c' = stateOf c" "clean c' = clean c"
proof -
  have "dependencyFailed b' = dependencyFailed b \<and> evolves {self} c c' \<and> compOrder c' = compOrder c
      \<and> dom (compModules c') = dom (compModules c) \<and> stateOf c' = stateOf c \<and> clean c' = clean c"
  proof (cases "d \<in> set (seenDependencies b) \<or> compModules c self = None")
    case True
    with assms show ?thesis
      by (auto simp: addDependency_def updateModule_def split: if_splits)
  next
    case False
    then obtain m where m: "compModules c self = Some m" by blast
    let ?m' = "m\<lparr>Dependencies := Dependencies m @ [d]\<rparr>"
    have b': "dependencyFailed b' = dependencyFailed b"
      and c': "c' = c\<lparr>compModules := (compModules c)(self \<mapsto> ?m')\<rparr>"
      using assms False m by (auto simp: addDependency_def updateModule_def)
    have "evolved {self} self m ?m'"
      unfolding evolved_def by (auto intro: exI [of _ "Dependencies m @ [d]"])
    then have "evolves {self} c c'" unfolding evolves_def using m by (auto simp: c')
    moreover have "dom (compModules c') = dom (compModules c)" using m by (auto simp: c')
    ultimately show ?thesis using m b' by (auto simp: c' stateOf_def clean_def fun_eq_iff)
  qed
  then show "dependencyFailed b' = dependencyFailed b" "evolves {self} c c'"
    "compOrder c' = compOrder c" "dom (compModules c') = dom (compModules c)"
    "stateOf c' = stateOf c" "clean c' = clean c" by blast+
qed

lemma inv_addDependency:
  assumes "addDependency self d b c = (b', c')" "compilerInv W c"
  shows "compilerInv W c'"
  using addDependency_ok [OF assms(1)] assms(2) by (auto intro: inv_evolves)

lemma failImport_simps [simp]: "dependencyFailed (failImport name b)"
  by (simp add: failImport_def)

text \<open>What the loops over dependencies keep, for the module \<open>self\<close> on top of the stack.\<close>

definition loopPost ::
  "('sem, 'iface) config \<Rightarrow> ModuleID \<Rightarrow> 'iface bringState \<Rightarrow> ('sem, 'iface) Compiler
    \<Rightarrow> 'iface bringState \<Rightarrow> ('sem, 'iface) Compiler \<Rightarrow> bool" where
  "loopPost W self b c b' c' \<longleftrightarrow> compilerInv W c' \<and> evolves {self} c c'
     \<and> (dependencyFailed b \<longrightarrow> dependencyFailed b')
     \<and> (dependencyFailed b' \<longrightarrow> dependencyFailed b \<or> \<not> clean c')
     \<and> (dependencyFailed b' \<or> stateOf c' self = Some Failed \<or> clean c' = clean c)"

lemma loopPost_refl: "compilerInv W c \<Longrightarrow> loopPost W self b c b c"
  by (simp add: loopPost_def)

lemma loopPost_trans:
  assumes "loopPost W self b c b1 c1" "loopPost W self b1 c1 b2 c2"
  shows "loopPost W self b c b2 c2"
proof -
  have "evolves {self} c c2"
    using assms by (auto simp: loopPost_def intro: evolves_trans)
  moreover have "clean c2 \<Longrightarrow> clean c1" "stateOf c1 self = Some Failed \<Longrightarrow> stateOf c2 self = Some Failed"
    using assms(2) by (auto simp: loopPost_def intro: evolves_clean evolves_Failed)
  ultimately show ?thesis using assms unfolding loopPost_def by blast
qed

subsection \<open>The loops over the dependencies\<close>

lemma resolvedIDs_evolves: "evolves own c c' \<Longrightarrow> resolvedIDs c \<subseteq> resolvedIDs c'"
  by (auto simp: resolvedIDs_def evolves_Resolved)

lemma loopPost_reported:
  assumes "compilerInv W c" "reported c c'" "dependencyFailed b'"
  shows "loopPost W self b c b' c'"
  using inv_reported [OF assms(2,1)] evolves_reported [OF assms(2)] not_clean_reported [OF assms(2)]
    assms(3) by (simp add: loopPost_def)

context workspace
begin

abbreviation "allIDs \<equiv> loadableIDs W scheme paths"

lemma finite_allIDs: "finite allIDs"
  by (rule loadableIDs_card(1) [OF finite_paths])

lemma resolveDependency_valid:
  "resolveDependency W importer name = Inr d \<Longrightarrow> validIdentity W scheme d"
  using resolve_identity by (fastforce simp: resolveDependency_def validIdentity_def
      frameworkIdentity_def split: option.splits if_splits)

lemma bringModule_ok:
  assumes rec: "analyzesTo W scheme allIDs n rec" and inv: "compilerInv W c"
    and left: "modulesLeft allIDs c < n"
  shows "returns (\<lambda>(b', c'). loopPost W (SourceID i) b c b' c'
      \<and> (dependencyFailed b' \<or> (\<exists>d. resolveDependency W i name = Inr d \<and> SourceID d \<in> resolvedIDs c')))
    (bringModule W rec i sp name b c)"
proof (cases "resolveDependency W i name")
  case (Inl err)
  then show ?thesis
    unfolding bringModule_def Inl sum.case returns_Some prod.case
    by (intro conjI loopPost_reported [OF inv reported_add]) simp_all
next
  case (Inr d)
  obtain c1 where c1: "rec d (SourceID i) sp c = Some c1" and post: "analyzePost W d c c1"
    using rec resolveDependency_valid [OF Inr] inv left
    unfolding analyzesTo_def by (blast elim: returnsE)
  let ?b1 = "b\<lparr>dependencyTargets := AList.update name (SourceID d) (dependencyTargets b)\<rparr>"
  obtain b2 c2 where a: "addDependency (SourceID i) (SourceID d) ?b1 c1 = (b2, c2)"
    by (cases "addDependency (SourceID i) (SourceID d) ?b1 c1")
  note A = addDependency_ok [OF a]
  have inv1: "compilerInv W c1" and inv2: "compilerInv W c2"
    using post inv_addDependency [OF a] by (auto simp: analyzePost_def)
  have ev: "evolves {SourceID i} c c2"
    using post A(2) by (auto simp: analyzePost_def intro: evolves_trans evolves_mono)
  show ?thesis
  proof (cases "resolvedInterface c2 (SourceID d)")
    case None
    then have "stateOf c2 (SourceID d) = Some Failed"
      using resolvedInterface_iff [OF inv2] post by (auto simp: A(5) analyzePost_def)
    then have "\<not> clean c2"
      using compilerInvD(5) [OF inv2] by (auto simp: stateOf_def moduleOk_def)
    then have "loopPost W (SourceID i) b c (failImport name b2) c2"
      using inv2 ev by (simp add: loopPost_def)
    with c1 a None Inr show ?thesis by (simp add: bringModule_def Let_def)
  next
    case (Some v)
    then have "stateOf c2 (SourceID d) = Some Resolved"
      using resolvedInterface_iff [OF inv2] by simp
    then have st: "SourceID d \<in> resolvedIDs c2" "clean c2 = clean c"
      using post by (auto simp: resolvedIDs_def A(5,6) analyzePost_def)
    then have "loopPost W (SourceID i) b c
        (b2\<lparr>environment := (environment b2)\<lparr>Imports := AList.update name v (Imports (environment b2))\<rparr>\<rparr>) c2"
      using inv2 ev A(1) by (simp add: loopPost_def)
    with c1 a Some Inr st(1) show ?thesis by (simp add: bringModule_def Let_def)
  qed
qed

lemma bringLoop_ok:
  assumes rec: "analyzesTo W scheme allIDs n rec"
  shows "compilerInv W c \<Longrightarrow> modulesLeft allIDs c < n \<Longrightarrow>
    returns (\<lambda>(b', c'). loopPost W (SourceID i) b c b' c'
      \<and> (dependencyFailed b' \<or> bringsOk W i (resolvedIDs c') ss))
    (bringLoop W rec i ss b c)"
proof (induction ss arbitrary: b c)
  case Nil
  then show ?case by (simp add: loopPost_refl)
next
  case (Cons s ss)
  show ?case
  proof (cases "\<exists>sp name x y z ns. s = BringStmt sp name x y z ns")
    case False
    then have "bringLoop W rec i (s # ss) b c = bringLoop W rec i ss b c"
      "\<And>ids. bringsOk W i ids (s # ss) = bringsOk W i ids ss" by (cases s; simp)+
    with Cons show ?thesis by simp
  next
    case True
    then obtain sp name x y z ns where s: "s = BringStmt sp name x y z ns" by blast
    obtain r where "bringModule W rec i sp name b c = Some r" and
      "case r of (b', c') \<Rightarrow> loopPost W (SourceID i) b c b' c'
        \<and> (dependencyFailed b' \<or> (\<exists>d. resolveDependency W i name = Inr d \<and> SourceID d \<in> resolvedIDs c'))"
      using bringModule_ok [OF rec Cons.prems] by (rule returnsE)
    moreover obtain b1 c1 where "r = (b1, c1)" by (cases r)
    ultimately have b1: "bringModule W rec i sp name b c = Some (b1, c1)"
      and p1: "loopPost W (SourceID i) b c b1 c1"
      and ok1: "dependencyFailed b1 \<or> (\<exists>d. resolveDependency W i name = Inr d \<and> SourceID d \<in> resolvedIDs c1)"
      by simp_all
    have inv1: "compilerInv W c1" and ev: "evolves {SourceID i} c c1"
      using p1 by (simp_all add: loopPost_def)
    have "modulesLeft allIDs c1 < n"
      using modulesLeft_evolves [OF finite_allIDs ev] Cons.prems(2) by simp
    from Cons.IH [OF inv1 this, of b1] show ?thesis
      unfolding s bringLoop.simps Stmt.case b1 bind.bind_lunit prod.case
    proof (rule returns_mono)
      fix r assume "case r of (b', c') \<Rightarrow> loopPost W (SourceID i) b1 c1 b' c'
        \<and> (dependencyFailed b' \<or> bringsOk W i (resolvedIDs c') ss)"
      moreover obtain b2 c2 where r: "r = (b2, c2)" by (cases r)
      ultimately have p2: "loopPost W (SourceID i) b1 c1 b2 c2"
        and ok2: "dependencyFailed b2 \<or> bringsOk W i (resolvedIDs c2) ss" by simp_all
      have "evolves {SourceID i} c1 c2" using p2 by (simp add: loopPost_def)
      then have "resolvedIDs c1 \<subseteq> resolvedIDs c2" by (rule resolvedIDs_evolves)
      moreover have "dependencyFailed b1 \<Longrightarrow> dependencyFailed b2" using p2 by (simp add: loopPost_def)
      ultimately show "case r of (b', c') \<Rightarrow> loopPost W (SourceID i) b c b' c' \<and>
          (dependencyFailed b' \<or> bringsOk W i (resolvedIDs c') (BringStmt sp name x y z ns # ss))"
        using loopPost_trans [OF p1 p2] ok1 ok2 by (auto simp: r)
    qed
  qed
qed

lemma implicitLoop_ok:
  assumes rec: "analyzesTo W scheme allIDs n rec"
  shows "compilerInv W c \<Longrightarrow> modulesLeft allIDs c < n \<Longrightarrow> compStack c = st @ [SourceID i] \<Longrightarrow>
    returns (\<lambda>(b', c'). loopPost W (SourceID i) b c b' c' \<and> dependencyFailed b' = dependencyFailed b)
    (implicitLoop W rec i names b c)"
proof (induction names arbitrary: b c)
  case Nil
  then show ?case by (simp add: loopPost_refl)
next
  case (Cons name names)
  show ?case
  proof (cases "\<exists>d. resolveDependency W i name = Inr d \<and> Builtin d")
    case False
    then have "implicitLoop W rec i (name # names) b c = implicitLoop W rec i names b c"
      by (auto split: sum.split)
    with Cons show ?thesis by simp
  next
    case True
    then obtain d where d: "resolveDependency W i name = Inr d" "Builtin d" by blast
    obtain c1 where c1: "rec d (SourceID i) zeroSpan c = Some c1" and post: "analyzePost W d c c1"
      using rec resolveDependency_valid [OF d(1)] Cons.prems(1,2)
      unfolding analyzesTo_def by (blast elim: returnsE)
    define b1 where "b1 = (case resolvedInterface c1 (SourceID d) of None \<Rightarrow> b
      | Some v \<Rightarrow> b\<lparr>environment := (environment b)\<lparr>ImplicitModules :=
          ImplicitModules (environment b) @ [v]\<rparr>\<rparr>)"
    obtain b2 c2 where a: "addDependency (SourceID i) (SourceID d) b1 c1 = (b2, c2)"
      by (cases "addDependency (SourceID i) (SourceID d) b1 c1")
    note A = addDependency_ok [OF a]
    have inv2: "compilerInv W c2"
      using post inv_addDependency [OF a] by (auto simp: analyzePost_def)
    have ev: "evolves {SourceID i} c c2"
      using post A(2) by (auto simp: analyzePost_def intro: evolves_trans evolves_mono)
    have b2: "dependencyFailed b2 = dependencyFailed b"
      using A(1) by (auto simp: b1_def split: option.splits)
    have "clean c2 = clean c \<or> stateOf c2 (SourceID i) = Some Failed"
      using post d(2) Cons.prems(3) by (auto simp: analyzePost_def A(5,6))
    then have p1: "loopPost W (SourceID i) b c b2 c2"
      using inv2 ev b2 by (auto simp: loopPost_def)
    have "modulesLeft allIDs c2 < n"
      using modulesLeft_evolves [OF finite_allIDs ev] Cons.prems(2) by simp
    moreover have "compStack c2 = st @ [SourceID i]" using evolvesD(1) [OF ev] Cons.prems(3) by simp
    ultimately have rest: "returns (\<lambda>(b', c'). loopPost W (SourceID i) b2 c2 b' c'
        \<and> dependencyFailed b' = dependencyFailed b2) (implicitLoop W rec i names b2 c2)"
      using Cons.IH [OF inv2] by blast
    have step: "implicitLoop W rec i (name # names) b c = implicitLoop W rec i names b2 c2"
      using d c1 a by (simp add: b1_def [symmetric] Let_def)
    show ?thesis unfolding step using rest
    proof (rule returns_mono)
      fix r
      assume r: "case r of (b', c') \<Rightarrow> loopPost W (SourceID i) b2 c2 b' c'
          \<and> dependencyFailed b' = dependencyFailed b2"
      then show "case r of (b', c') \<Rightarrow> loopPost W (SourceID i) b c b' c'
          \<and> dependencyFailed b' = dependencyFailed b"
        using loopPost_trans [OF p1] b2 by (cases r) auto
    qed
  qed
qed


subsection \<open>One module\<close>

lemma resolveRequires_ok:
  assumes k: "card paths < k" and parsed: "Parsed m = Some p"
  shows "returns (\<lambda>(m', c'). compModules c' = compModules c \<and> compOrder c' = compOrder c
      \<and> compStack c' = compStack c \<and> extends (compDiagnostics c) (compDiagnostics c')
      \<and> ModuleIDOf m' = ModuleIDOf m \<and> ModuleSource m' = ModuleSource m \<and> AState m' = AState m
      \<and> AnalyzeCount m' = AnalyzeCount m \<and> Parsed m' \<noteq> None)
    (resolveRequires W k i m c)"
proof (cases "FrameworkSource i")
  case True
  with parsed show ?thesis by (simp add: resolveRequires_def)
next
  case False
  obtain r where r: "expandRequires W k (Statements (ResProgram p)) i (newRequireState i) c = Some r"
    and post: "expandPost W (Statements (ResProgram p)) (newRequireState i) c (reqOrder (fst (snd r))) r"
    using compose_ok [OF k] by (rule returnsE)
  obtain out st c' where "r = (out, st, c')" by (cases r)
  with r post parsed False show ?thesis
    by (simp add: resolveRequires_def expandPost_def expandFrame_def)
qed

end

lemma updateModule_simps:
  "compOrder (updateModule i f c) = compOrder c" "compStack (updateModule i f c) = compStack c"
  "compDiagnostics (updateModule i f c) = compDiagnostics c"
  "compModules c i = Some m \<Longrightarrow> compModules (updateModule i f c) = (compModules c)(i \<mapsto> f m)"
  by (simp_all add: updateModule_def)

lemma clean_append:
  "compDiagnostics c' = compDiagnostics c @ ds \<Longrightarrow>
   clean c' = (clean c \<and> \<not> list_ex (\<lambda>d. Sev (DiagnosticOf d) = SeverityError) ds)"
  by (simp add: clean_def)

lemma appendSemanticDiagnostics_simps:
  "compModules (appendSemanticDiagnostics W i p ds ts c) = compModules c"
  "compOrder (appendSemanticDiagnostics W i p ds ts c) = compOrder c"
  "compStack (appendSemanticDiagnostics W i p ds ts c) = compStack c"
  "extends (compDiagnostics c) (compDiagnostics (appendSemanticDiagnostics W i p ds ts c))"
  "clean (appendSemanticDiagnostics W i p ds ts c) = (clean c \<and> \<not> hasErrors ds)"
proof -
  let ?g = "\<lambda>item. case bringContext W ts item (Statements p) of (target, symbol) \<Rightarrow>
    \<lparr>DiagnosticOf = item, RequestingModule = i, TargetModule = target, RequestedSymbol = symbol,
     CycleOf = []\<rparr>"
  have "DiagnosticOf (?g item) = item" for item by (simp split: prod.split)
  then have "list_ex (\<lambda>d. Sev (DiagnosticOf d) = SeverityError) (map ?g ds)
      = list_ex (\<lambda>d. Sev d = SeverityError) ds"
    by (induction ds) auto
  then show "clean (appendSemanticDiagnostics W i p ds ts c) = (clean c \<and> \<not> hasErrors ds)"
    by (subst clean_append [of _ c "map ?g ds"]) (simp_all add: appendSemanticDiagnostics_def hasErrors_def)
qed (simp_all add: appendSemanticDiagnostics_def)

lemma finishModule_ok:
  assumes m: "compModules c (SourceID i) = Some m" and st: "AState m = Resolving \<or> AState m = Failed"
    and c': "c' = finishModule W i p ff b c"
  obtains m3 where "compModules c' = (compModules c)(SourceID i \<mapsto> m3)" "compOrder c' = compOrder c"
      "compStack c' = compStack c" "extends (compDiagnostics c) (compDiagnostics c')"
      "ModuleIDOf m3 = ModuleIDOf m" "ModuleSource m3 = ModuleSource m" "Parsed m3 = Parsed m"
      "AnalyzeCount m3 \<le> Suc (AnalyzeCount m)"
      "AState m3 = Failed \<and> (AState m = Failed \<or> ff \<or> dependencyFailed b \<or> \<not> clean c')
        \<or> AState m3 = Resolved \<and> Interface m3 \<noteq> None \<and> \<not> ff \<and> \<not> dependencyFailed b \<and> clean c' = clean c"
proof (cases "AState m = Failed")
  case True
  with c' m have "c' = c" by (simp add: finishModule_def)
  with True m show ?thesis by (intro that [of m]) auto
next
  case False
  let ?i = "SourceID i"
  define sem where "sem = AnalyzeWithEnvironment W p (environment b)"
  define m1 where "m1 = m\<lparr>AnalyzeCount := AnalyzeCount m + 1, Semantic := Some sem\<rparr>"
  define c1 where "c1 = updateModule ?i
    (\<lambda>m. m\<lparr>AnalyzeCount := AnalyzeCount m + 1, Semantic := Some sem\<rparr>) c"
  define c2 where "c2 = appendSemanticDiagnostics W ?i (ResProgram p) (SemanticDiagnostics W sem)
    (dependencyTargets b) c1"
  have c1: "compModules c1 = (compModules c)(?i \<mapsto> m1)" "compOrder c1 = compOrder c"
    "compStack c1 = compStack c" "compDiagnostics c1 = compDiagnostics c" "clean c1 = clean c"
    using m by (simp_all add: c1_def m1_def updateModule_simps clean_def)
  have c2: "compModules c2 = (compModules c)(?i \<mapsto> m1)" "compOrder c2 = compOrder c"
    "compStack c2 = compStack c" "extends (compDiagnostics c) (compDiagnostics c2)"
    "clean c2 = (clean c \<and> \<not> hasErrors (SemanticDiagnostics W sem))"
    using c1 appendSemanticDiagnostics_simps(4) [of c1]
    by (simp_all add: c2_def appendSemanticDiagnostics_simps)
  have fin: "c' = (if ff \<or> dependencyFailed b \<or> hasErrors (SemanticDiagnostics W sem)
      then setState ?i Failed c2
      else updateModule ?i (\<lambda>m. m\<lparr>Interface := Some (BuildModuleInterface W sem ?i (SourceName i)),
        AState := Resolved\<rparr>) c2)"
    using False m unfolding c' by (simp add: finishModule_def Let_def c1_def c2_def sem_def)
  have m2: "compModules c2 ?i = Some m1" by (simp add: c2(1))
  show ?thesis
  proof (cases "ff \<or> dependencyFailed b \<or> hasErrors (SemanticDiagnostics W sem)")
    case True
    with fin have "c' = setState ?i Failed c2" by simp
    with m2 c2 True show ?thesis
      by (intro that [of "m1\<lparr>AState := Failed\<rparr>"])
        (auto simp: setState_def updateModule_simps m1_def clean_def)
  next
    case False
    with fin have "c' = updateModule ?i (\<lambda>m. m\<lparr>Interface := Some (BuildModuleInterface W sem ?i
        (SourceName i)), AState := Resolved\<rparr>) c2" by simp
    with m2 c2 False show ?thesis
      by (intro that [of "m1\<lparr>Interface := Some (BuildModuleInterface W sem ?i (SourceName i)),
          AState := Resolved\<rparr>"]) (auto simp: updateModule_simps m1_def clean_def)
  qed
qed

text \<open>The whole compilation: the final state, and what it says of the entry.\<close>

definition compiled :: "('sem, 'iface) config \<Rightarrow> ('sem, 'iface) CompilationResult \<Rightarrow> bool" where
  "compiled W r \<longleftrightarrow> (\<exists>c. compilerInv W c \<and> compStack c = []
     \<and> r = resultOf (ResultEntry r) c
     \<and> (stateOf c (ResultEntry r) = Some Resolved \<longleftrightarrow> clean c))"

lemma appendFrontend_clean:
  "clean (appendFrontendDiagnostics i ds c) = (clean c \<and> \<not> hasErrors ds)"
proof -
  let ?g = "\<lambda>item. \<lparr>DiagnosticOf = item, RequestingModule = i, TargetModule = '''',
    RequestedSymbol = '''', CycleOf = []\<rparr>"
  have "list_ex (\<lambda>d. Sev (DiagnosticOf d) = SeverityError) (map ?g ds)
      = list_ex (\<lambda>d. Sev d = SeverityError) ds"
    by (induction ds) auto
  then show ?thesis
    by (subst clean_append [of _ c "map ?g ds"]) (simp_all add: appendFrontendDiagnostics_def hasErrors_def)
qed

lemma extends_drop: "extends xs ys \<Longrightarrow> ys = xs @ drop (length xs) ys"
  by (metis append_take_drop_id extends_def)

lemma clean_drop:
  "extends (compDiagnostics c) (compDiagnostics c') \<Longrightarrow>
   clean c' = (clean c \<and> \<not> list_ex (\<lambda>d. Sev (DiagnosticOf d) = SeverityError)
     (drop (length (compDiagnostics c)) (compDiagnostics c')))"
  by (rule clean_append, rule extends_drop)

context workspace
begin

lemma analyzeText_ok:
  assumes rec: "analyzesTo W scheme allIDs n rec" and k: "card paths < k"
    and inv: "compilerInv W c" and new: "compModules c (SourceID i) = None"
    and left: "modulesLeft allIDs (pushModule i c) < n" and nb: "\<not> Builtin i"
  shows "returns (analyzePost W i c) (analyzeText W k rec i text (pushModule i c))"
proof -
  let ?i = "SourceID i" and ?p = "pushModule i c"
  let ?file = "NewFile (compNextFileID ?p) (SourcePath i) text"
  obtain l q where l: "Lex (unicodeOf W) ?file = Some l" and q: "Parse ?file (ResTokens l) = Some q"
    by (rule frontEnd_parts)
  define m2 where "m2 = (newModule i :: ('sem, 'iface) Module)\<lparr>ModuleFile := Some ?file, Parsed := Some q\<rparr>"
  define c2 where "c2 = updateModule ?i (\<lambda>m. m\<lparr>ModuleFile := Some ?file, Parsed := Some q\<rparr>)
    (?p\<lparr>compNextFileID := compNextFileID ?p + 1\<rparr>)"
  define c4 where "c4 = appendFrontendDiagnostics ?i (ResParseDiagnostics q)
    (appendFrontendDiagnostics ?i (ResDiagnostics l) c2)"
  have c2: "compModules c2 = (compModules c)(?i \<mapsto> m2)" "compOrder c2 = compOrder c @ [?i]"
    "compStack c2 = compStack c @ [?i]" "compDiagnostics c2 = compDiagnostics c"
    by (simp_all add: c2_def m2_def updateModule_def)
  have c4: "compModules c4 = (compModules c)(?i \<mapsto> m2)" "compOrder c4 = compOrder c @ [?i]"
    "compStack c4 = compStack c @ [?i]" "extends (compDiagnostics c) (compDiagnostics c4)"
    using c2 by (simp_all add: c4_def appendFrontendDiagnostics_def)
  have clean4: "clean c4 = (clean c \<and> \<not> hasErrors (ResDiagnostics l) \<and> \<not> ParseResult_HasErrors q)"
  proof -
    have "clean c2 = clean c" using c2(4) by (simp add: clean_def)
    then show ?thesis
      by (simp add: c4_def appendFrontend_clean hasErrors_def ParseResult_HasErrors_def)
  qed
  have parsed2: "Parsed m2 = Some q" by (simp add: m2_def)
  obtain r where r: "resolveRequires W k i m2 c4 = Some r" and rp:
    "case r of (m', c') \<Rightarrow> compModules c' = compModules c4 \<and> compOrder c' = compOrder c4
      \<and> compStack c' = compStack c4 \<and> extends (compDiagnostics c4) (compDiagnostics c')
      \<and> ModuleIDOf m' = ModuleIDOf m2 \<and> ModuleSource m' = ModuleSource m2 \<and> AState m' = AState m2
      \<and> AnalyzeCount m' = AnalyzeCount m2 \<and> Parsed m' \<noteq> None"
    using resolveRequires_ok [OF k parsed2] by (rule returnsE)
  obtain m c5 where mc: "r = (m, c5)" by (cases r)
  from rp mc have m: "ModuleIDOf m = ?i" "ModuleSource m = i" "AState m = Resolving"
      "AnalyzeCount m = 0" "Parsed m \<noteq> None"
    and c5: "compModules c5 = compModules c4" "compOrder c5 = compOrder c4"
      "compStack c5 = compStack c4" "extends (compDiagnostics c4) (compDiagnostics c5)"
    by (simp_all add: m2_def newModule_def)
  define merged where "merged = the (Parsed m)"
  have merged: "Parsed m = Some merged" using m(5) by (auto simp: merged_def)
  define c6 where "c6 = updateModule ?i (\<lambda>_. m) c5"
  have c6: "compModules c6 = (compModules c)(?i \<mapsto> m)" "compOrder c6 = compOrder c @ [?i]"
    "compStack c6 = compStack c @ [?i]" "compDiagnostics c6 = compDiagnostics c5"
    using c5 c4 by (simp_all add: c6_def updateModule_simps updateModule_def)
  have ext6: "extends (compDiagnostics c) (compDiagnostics c6)"
    using c4(4) c5(4) c6(4) extends_trans by metis
  define ff where "ff = (hasErrors (ResDiagnostics l) \<or> ParseResult_HasErrors q
    \<or> list_ex (\<lambda>item. Sev (DiagnosticOf item) = SeverityError)
        (drop (length (compDiagnostics c4)) (compDiagnostics c6)))"
  have clean6: "clean c6 = (clean c \<and> \<not> ff)"
    using clean_drop [of c4 c6] c5(4) c6(4) clean4 by (auto simp: ff_def)
  have inv6: "compilerInv W c6"
  proof (rule replace_inv [OF push_inv [OF inv new]])
    show "compModules c6 = (compModules ?p)(?i \<mapsto> m)" using c6(1) by simp
    show "compModules ?p ?i = Some (newModule i)" by simp
  qed (use m c6 ext6 in \<open>simp_all add: newModule_def\<close>)
  have left6: "modulesLeft allIDs c6 < n"
    using left c6(1) new by (simp add: modulesLeft_def)
  obtain r1 where r1: "bringLoop W rec i (Statements (ResProgram merged)) (newBringState W i) c6 = Some r1"
    and p1: "case r1 of (b', c') \<Rightarrow> loopPost W ?i (newBringState W i) c6 b' c'
      \<and> (dependencyFailed b' \<or> bringsOk W i (resolvedIDs c') (Statements (ResProgram merged)))"
    using bringLoop_ok [OF rec inv6 left6] by (rule returnsE)
  obtain b7 c7 where bc7: "r1 = (b7, c7)" by (cases r1)
  have post7: "loopPost W ?i (newBringState W i) c6 b7 c7"
    and brings7: "dependencyFailed b7 \<or> bringsOk W i (resolvedIDs c7) (Statements (ResProgram merged))"
    using p1 bc7 by simp_all
  have inv7: "compilerInv W c7" and ev7: "evolves {?i} c6 c7" using post7 by (simp_all add: loopPost_def)
  have left7: "modulesLeft allIDs c7 < n"
    using modulesLeft_evolves [OF finite_allIDs ev7] left6 by simp
  have stack7: "compStack c7 = compStack c @ [?i]" using evolvesD(1) [OF ev7] c6(3) by simp
  obtain r2 where r2: "implicitLoop W rec i (implicitNames W (Imports (environment b7))) b7 c7 = Some r2"
    and p2: "case r2 of (b', c') \<Rightarrow> loopPost W ?i b7 c7 b' c' \<and> dependencyFailed b' = dependencyFailed b7"
    using implicitLoop_ok [OF rec inv7 left7 stack7] by (rule returnsE)
  obtain b8 c8 where bc8: "r2 = (b8, c8)" by (cases r2)
  have post8: "loopPost W ?i (newBringState W i) c6 b8 c8" and b8: "dependencyFailed b8 = dependencyFailed b7"
    and ev78: "evolves {?i} c7 c8"
    using p2 bc8 loopPost_trans [OF post7] by (auto simp: loopPost_def)
  have inv8: "compilerInv W c8" and ev8: "evolves {?i} c6 c8"
    and failed8: "dependencyFailed b8 \<Longrightarrow> \<not> clean c8"
    and clean8: "dependencyFailed b8 \<or> stateOf c8 ?i = Some Failed \<or> clean c8 = clean c6"
    using post8 by (auto simp: loopPost_def newBringState_def)
  obtain m8 where m8: "compModules c8 ?i = Some m8" "evolved {?i} ?i m m8"
    using evolvesD(4) [OF ev8, of ?i m] c6(1) by auto
  note E = evolved_fields [OF m8(2)]
  have st8: "AState m8 = Resolving \<or> AState m8 = Failed" using E(6) m(3) by auto
  let ?c9 = "finishModule W i merged ff b8 c8"
  obtain m9 where c9: "compModules ?c9 = (compModules c8)(?i \<mapsto> m9)" "compOrder ?c9 = compOrder c8"
      "compStack ?c9 = compStack c8" "extends (compDiagnostics c8) (compDiagnostics ?c9)"
    and m9: "ModuleIDOf m9 = ?i" "ModuleSource m9 = i" "Parsed m9 = Some merged" "AnalyzeCount m9 \<le> 1"
    and fin9: "AState m9 = Failed \<and> (AState m8 = Failed \<or> ff \<or> dependencyFailed b8 \<or> \<not> clean ?c9)
        \<or> AState m9 = Resolved \<and> Interface m9 \<noteq> None \<and> \<not> ff \<and> \<not> dependencyFailed b8 \<and> clean ?c9 = clean c8"
    using finishModule_ok [OF m8(1) st8 refl, of W merged ff b8] E m merged by auto
  have nclean: "\<not> clean ?c9" if "AState m9 = Failed"
  proof -
    have "AState m8 = Failed \<Longrightarrow> \<not> clean c8"
      using compilerInvD(5) [OF inv8 m8(1)] by (simp add: moduleOk_def)
    moreover have "ff \<Longrightarrow> \<not> clean c8" using clean6 evolves_clean [OF ev8] by blast
    ultimately show ?thesis
      using fin9 that failed8 clean_extends [OF c9(4)] by auto
  qed
  have resolved: "AState m8 = Resolving \<and> clean ?c9 = clean c" if "AState m9 = Resolved"
  proof -
    have "AState m8 \<noteq> Failed"
    proof
      assume "AState m8 = Failed"
      then have "?c9 = c8" using m8(1) by (simp add: finishModule_def)
      then have "m9 = m8" using c9(1) m8(1) by (metis fun_upd_same option.inject)
      with that \<open>AState m8 = Failed\<close> show False by simp
    qed
    then have "stateOf c8 ?i \<noteq> Some Failed" using m8(1) by (simp add: stateOf_def)
    then show ?thesis using fin9 that clean8 clean6 st8 \<open>AState m8 \<noteq> Failed\<close> by auto
  qed
  have inv9: "compilerInv W (popStack ?c9)"
  proof (rule close_ok [OF inv8 _ m8(1) _ c9])
    show "compStack c8 = compStack c @ [?i]" using evolvesD(1) [OF ev78] stack7 by simp
    show "AState m8 \<noteq> Resolved" using st8 by auto
    show "AState m9 = Resolved \<or> AState m9 = Failed" using fin9 by auto
    show "AState m9 = Resolved \<Longrightarrow> Interface m9 \<noteq> None \<and> moduleBrings W (resolvedIDs c8) (Some m9)"
      using fin9 brings7 b8 m9(2,3) bringsOk_mono [OF _ resolvedIDs_evolves [OF ev78]]
      by (auto simp: moduleBrings_def moduleStatements_def)
  qed (use m9 nclean in auto)
  have "evolves {} c (popStack ?c9)"
    by (rule close_evolves [OF new c6(1-3) ext6 ev8 c9])
  moreover have "stateOf (popStack ?c9) ?i = Some (AState m9)" by (simp add: stateOf_def c9(1))
  ultimately have "analyzePost W i c (popStack ?c9)"
    using inv9 fin9 resolved nb by (auto simp: analyzePost_def)
  moreover have "analyzeText W k rec i text ?p = Some (popStack ?c9)"
    using l q r r1 r2 mc bc7 bc8 c2(1) c4(1)
    by (simp add: analyzeText_def Let_def c2_def [symmetric] c4_def [symmetric] c6_def [symmetric]
        merged_def [symmetric] ff_def [symmetric])
  ultimately show ?thesis by simp
qed


lemma loaded_ID:
  assumes "validIdentity W scheme i" "\<not> Builtin i" "loadSource W i = Inr text"
  shows "SourceID i \<in> allIDs"
  using assms load_paths [of i]
  by (auto simp: loadSource_def validIdentity_def loadableIDs_def Framework_Source_def
      Framework_Has_def split: if_splits option.splits)

lemma analyzeBody_ok:
  assumes rec: "analyzesTo W scheme allIDs n rec" and k: "card paths < k"
    and valid: "validIdentity W scheme i" and inv: "compilerInv W c"
    and left: "modulesLeft allIDs c < Suc n"
  shows "returns (analyzePost W i c) (analyzeBody W k rec i requester sp c)"
proof (cases "compModules c (SourceID i)")
  case (Some m)
  have ok: "moduleOk c (SourceID i) m" by (rule compilerInvD(5) [OF inv Some])
  show ?thesis
  proof (cases "AState m = Resolving")
    case True
    then have "stateOf c (SourceID i) = Some Resolving" using Some by (simp add: stateOf_def)
    from reportCycle_ok [OF inv this, of requester sp] True Some show ?thesis
      by (simp add: analyzeBody_def analyzePost_def)
  next
    case False
    then have "stateOf c (SourceID i) = Some Resolved \<or> stateOf c (SourceID i) = Some Failed"
      using Some ok by (cases "AState m") (auto simp: stateOf_def moduleOk_def)
    with False Some inv show ?thesis by (simp add: analyzeBody_def analyzePost_def)
  qed
next
  case None
  let ?i = "SourceID i" and ?p = "pushModule i c"
  have inv1: "compilerInv W ?p" by (rule push_inv [OF inv None])
  have p: "compModules ?p ?i = Some (newModule i)" "AState (newModule i) \<noteq> Resolved"
    by (simp_all add: newModule_def)
  have ends: "compilerInv W (popStack c3) \<and> evolves {} c (popStack c3)"
    if c3: "compModules c3 = (compModules ?p)(?i \<mapsto> m3)" "compOrder c3 = compOrder ?p"
        "compStack c3 = compStack ?p" "extends (compDiagnostics ?p) (compDiagnostics c3)"
      and m3: "ModuleIDOf m3 = ?i" "AnalyzeCount m3 \<le> 1" "AState m3 = Resolved \<or> AState m3 = Failed"
        "AState m3 = Failed \<Longrightarrow> \<not> clean c3"
        "AState m3 = Resolved \<Longrightarrow> Interface m3 \<noteq> None \<and> moduleBrings W (resolvedIDs ?p) (Some m3)"
    for c3 m3
    using close_ok [OF inv1 _ p c3 m3] close_evolves [OF None _ _ _ _ evolves_refl c3] by simp
  show ?thesis
  proof (cases "Builtin i")
    case True
    then obtain v where v: "Builtins W (SourceName i) = Some v"
      using valid by (auto simp: validIdentity_def)
    let ?m = "(newModule i :: ('sem, 'iface) Module)\<lparr>Interface := Some v, AState := Resolved\<rparr>"
    let ?c3 = "updateModule ?i (\<lambda>m. m\<lparr>Interface := Builtins W (SourceName i), AState := Resolved\<rparr>) ?p"
    have c3: "compModules ?c3 = (compModules ?p)(?i \<mapsto> ?m)"
      using p(1) v by (simp add: updateModule_simps)
    have "compilerInv W (popStack ?c3) \<and> evolves {} c (popStack ?c3)"
      by (rule ends [OF c3]) (simp_all add: updateModule_simps newModule_def moduleBrings_def moduleStatements_def)
    moreover have "clean ?c3 = clean c" "stateOf ?c3 ?i = Some Resolved"
      using c3 by (simp_all add: clean_def updateModule_simps stateOf_def)
    ultimately show ?thesis
      using True None by (simp add: analyzeBody_def analyzePost_def)
  next
    case nb: False
    show ?thesis
    proof (cases "loadSource W i")
      case (Inl err)
      let ?m = "(newModule i :: ('sem, 'iface) Module)\<lparr>AState := Failed\<rparr>"
      let ?c2 = "setState ?i Failed ?p"
      let ?c3 = "addDiagnostic CodeModuleNotFound (''module '' @ SourceName i @ '' was not found: '' @ err)
        sp ''provide the sibling .ahd source file'' requester ?i '''' [] ?c2"
      have rep: "reported ?c2 ?c3" by (rule reported_add)
      have c3: "compModules ?c3 = (compModules ?p)(?i \<mapsto> ?m)"
        using p(1) reported_simps(1) [OF rep] by (simp add: setState_def updateModule_simps)
      have "compilerInv W (popStack ?c3) \<and> evolves {} c (popStack ?c3)"
        by (rule ends [OF c3])
          (use reported_simps [OF rep] not_clean_reported [OF rep] in
            \<open>simp_all add: setState_def updateModule_simps newModule_def\<close>)
      moreover have "stateOf ?c3 ?i = Some Failed" using c3 by (simp add: stateOf_def)
      ultimately show ?thesis
        using nb None Inl by (simp add: analyzeBody_def analyzePost_def)
    next
      case (Inr source)
      have "?i \<in> allIDs" by (rule loaded_ID [OF valid nb Inr])
      then have "modulesLeft allIDs ?p < modulesLeft allIDs c"
        unfolding modulesLeft_def using None finite_allIDs by (intro psubset_card_mono) auto
      then have "modulesLeft allIDs ?p < n" using left by simp
      from analyzeText_ok [OF rec k inv None this nb] None nb Inr show ?thesis
        by (simp add: analyzeBody_def)
    qed
  qed
qed

lemma analyze_ok: "card paths < k \<Longrightarrow> analyzesTo W scheme allIDs n (analyze W k n)"
proof (induction n)
  case 0
  then show ?case by (simp add: analyzesTo_def)
next
  case (Suc n)
  then show ?case using analyzeBody_ok unfolding analyzesTo_def by simp
qed

lemma emptyCompiler_inv: "compilerInv W emptyCompiler"
  by (auto simp: compilerInv_def emptyCompiler_def resolvedIDs_def stateOf_def intro: exI [of _ "[]"])

lemma entry_valid: "CanonicalEntry W entry = Inr i \<Longrightarrow> validIdentity W scheme i"
  using entry_identity [of entry i] by (simp add: validIdentity_def)

theorem Compile_ok:
  assumes "card paths < k" "card paths + length (embeddedFiles W) < n"
  shows "returns (compiled W) (Compile W k n entry)"
proof (cases "CanonicalEntry W entry")
  case (Inl err)
  let ?c = "addDiagnostic CodeModuleNotFound (''entry module was not found: '' @ err) zeroSpan
    ''provide a readable .ahd entry file'' '''' '''' '''' [] (emptyCompiler :: ('sem, 'iface) Compiler)"
  have rep: "reported emptyCompiler ?c" by (rule reported_add)
  have "compilerInv W ?c" by (rule inv_reported [OF rep emptyCompiler_inv])
  moreover have "stateOf ?c '''' \<noteq> Some Resolved" "compStack ?c = []"
    using reported_simps(1,3) [OF rep] by (simp_all add: stateOf_def emptyCompiler_def)
  ultimately have "compiled W (resultOf '''' ?c)"
    using not_clean_reported [OF rep] unfolding compiled_def by (auto simp: resultOf_def)
  with Inl show ?thesis by (simp add: Compile_def)
next
  case (Inr i)
  have "modulesLeft allIDs emptyCompiler < n"
    using loadableIDs_card(2) [OF finite_paths, where W = W and scheme = scheme] assms(2)
    by (simp add: modulesLeft_def emptyCompiler_def)
  then have "returns (analyzePost W i emptyCompiler) (analyze W k n i '''' zeroSpan emptyCompiler)"
    using analyze_ok [OF assms(1), of n] entry_valid [OF Inr] emptyCompiler_inv
    unfolding analyzesTo_def by blast
  then obtain c where c: "analyze W k n i '''' zeroSpan emptyCompiler = Some c"
    and post: "analyzePost W i emptyCompiler c" by (rule returnsE)
  have inv: "compilerInv W c" and ev: "evolves {} emptyCompiler c" using post by (simp_all add: analyzePost_def)
  have "clean (emptyCompiler :: ('sem, 'iface) Compiler)" by (simp add: clean_def emptyCompiler_def)
  moreover have "\<not> clean c" if "stateOf c (SourceID i) = Some Failed"
    using that compilerInvD(5) [OF inv] by (auto simp: stateOf_def moduleOk_def)
  ultimately have "stateOf c (SourceID i) = Some Resolved \<longleftrightarrow> clean c"
    using post by (auto simp: analyzePost_def)
  then have "compiled W (resultOf (SourceID i) c)"
    using inv evolvesD(1) [OF ev] unfolding compiled_def
    by (intro exI [of _ c]) (simp add: resultOf_def emptyCompiler_def)
  with Inr c show ?thesis by (simp add: Compile_def)
qed

end

end
