(* ===== verification/Composition.thy ===== *)
theory Composition
  imports RequireProofs
begin

text \<open>
  The properties of \<open>require\<close> composition: containment in the application root, and what the
  expansion of one module's statements returns.
\<close>

subsection \<open>Containment\<close>

lemma joinSlash_dots:
  "joinSlash (''..'' # ts) = (if ts = [] then ''..'' else ''../'' @ joinSlash ts)"
  by (cases ts) (simp_all add: joinSlash_def)

lemma joinSlash_plain:
  assumes "ts \<noteq> []" "\<forall>e \<in> set ts. plainElement e \<and> e \<noteq> ''..''"
  shows "\<not> IsAbs (joinSlash ts)" "joinSlash ts \<noteq> ''..''" "\<not> HasPrefix (joinSlash ts) ''../''"
proof -
  have split: "splitSlash (joinSlash ts) = ts"
    using assms by (intro splitSlash_joinSlash) (auto simp: plainElement_def)
  have first: "hd ts \<noteq> ''..''" "hd ts \<noteq> ''''"
    using assms by (auto simp: plainElement_def neq_Nil_conv)
  show "joinSlash ts \<noteq> ''..''"
  proof
    assume "joinSlash ts = ''..''"
    then have "ts = [''..'']" using split by simp
    with first show False by simp
  qed
  have hd_split: "hd (splitSlash (slash # s)) = ''''" "hd (splitSlash (''../'' @ s)) = ''..''" for s
    by simp_all
  show "\<not> IsAbs (joinSlash ts)"
  proof
    assume "IsAbs (joinSlash ts)"
    then obtain s where "joinSlash ts = slash # s" by (auto simp: IsAbs_iff)
    with hd_split(1) [of s] split first(2) show False by metis
  qed
  show "\<not> HasPrefix (joinSlash ts) ''../''"
  proof
    assume "HasPrefix (joinSlash ts) ''../''"
    then have "joinSlash ts = ''../'' @ drop 3 (joinSlash ts)"
      by (metis HasPrefix_def One_nat_def Suc_1 append_take_drop_id length_Cons list.size(3) numeral_3_eq_3)
    with hd_split(2) [of "drop 3 (joinSlash ts)"] split first(1) show False by metis
  qed
qed

text \<open>
  For absolute paths \<open>isWithinRoot\<close>, which compares strings that \<open>filepath.Rel\<close> builds, decides
  whether the elements of the root are the first elements of the candidate.
\<close>

lemma isWithinRoot_elements:
  assumes "IsAbs root" "IsAbs candidate"
  shows "isWithinRoot root candidate \<longleftrightarrow> prefix (elements (Clean root)) (elements (Clean candidate))"
proof -
  obtain es where es: "Clean root = slash # joinSlash es" "elements (Clean root) = es"
      "\<forall>e \<in> set es. plainElement e \<and> e \<noteq> ''..''"
    using assms(1) by (rule Clean_rooted)
  obtain fs where fs: "Clean candidate = slash # joinSlash fs" "elements (Clean candidate) = fs"
      "\<forall>e \<in> set fs. plainElement e \<and> e \<noteq> ''..''"
    using assms(2) by (rule Clean_rooted)
  show ?thesis
  proof (cases "Clean candidate = Clean root")
    case True
    then show ?thesis by (simp add: isWithinRoot_def Let_def)
  next
    case False
    obtain bs ts where strip: "stripCommon es fs = (bs, ts)" by (cases "stripCommon es fs")
    then have sub: "set bs \<subseteq> set es" "set ts \<subseteq> set fs" using stripCommon_subset by blast+
    have no_dots: "bs = [] \<or> hd bs \<noteq> ''..''" using sub(1) es(3) by (meson hd_in_set subsetD)
    have rel: "Rel (Clean root) (Clean candidate) = Some (joinSlash (replicate (length bs) ''..'' @ ts))"
    proof -
      have "Clean root \<noteq> ''.''" using es(1) by simp
      moreover have "IsAbs (Clean root)" "IsAbs (Clean candidate)"
        using assms IsAbs_Clean by blast+
      ultimately
      show ?thesis using False strip es(2) fs(2) no_dots
        by (auto simp add: Rel_def Let_def Clean_idempotent [OF assms(1)] Clean_idempotent [OF assms(2)])
    qed
    show ?thesis
    proof (cases bs)
      case Nil
      then have "prefix es fs" using strip stripCommon_rest by blast
      moreover have "es \<noteq> fs" using False es(1) fs(1) by auto
      then have "ts \<noteq> []"
        using stripCommon_prefix [OF \<open>prefix es fs\<close>] strip Nil \<open>prefix es fs\<close>
        by (auto simp: prefix_def)
      with joinSlash_plain [of ts] sub(2) fs(3) have "isWithinRoot root candidate"
        using False Nil rel by (auto simp: isWithinRoot_def Let_def)
      ultimately show ?thesis using es(2) fs(2) by simp
    next
      case (Cons b bs')
      have "\<not> prefix es fs" using stripCommon_prefix strip Cons by fastforce
      moreover have "\<not> isWithinRoot root candidate"
        using False Cons rel joinSlash_dots [of "replicate (length bs') ''..'' @ ts"]
        by (auto simp: isWithinRoot_def Let_def HasPrefix_def split: if_splits)
      ultimately show ?thesis using es(2) fs(2) by simp
    qed
  qed
qed

subsection \<open>Properties\<close>

text \<open>
  \<open>isWithinRoot\<close> decides containment: for absolute paths it answers true exactly if the
  elements of the cleaned root are the first elements of the cleaned candidate. A sibling whose
  name starts with the root's name is outside, and no \<open>..\<close> gets out.
\<close>

theorem isWithinRoot_is_containment:
  assumes "IsAbs root" "IsAbs candidate"
  shows "isWithinRoot root candidate = prefix (elements (Clean root)) (elements (Clean candidate))"
  using isWithinRoot_elements [OF assms] .

theorem isWithinRoot_is_containment_witness:
  "isWithinRoot ''/app'' ''/app/../app2/x'' = prefix [''app''] [''app2'', ''x'']"
proof -
  have "elements (Clean ''/app'') = [''app'']" "elements (Clean ''/app/../app2/x'') = [''app2'', ''x'']"
    by code_simp+
  then show ?thesis
    using isWithinRoot_is_containment [of "''/app''" "''/app/../app2/x''"]
    by (simp add: IsAbs_def HasPrefix_def)
qed

lemma Abs_IsAbs:
  assumes "Abs sys p = Inr q" "\<And>wd. getwd sys = Inr wd \<Longrightarrow> IsAbs wd"
  shows "IsAbs q"
proof (cases "IsAbs p")
  case False
  then obtain wd where wd: "getwd sys = Inr wd" and q: "q = PathJoin [wd, p]"
    using assms(1) by (auto simp: Abs_def split: sum.splits)
  from assms(2) [OF wd] obtain w where "wd = slash # w" by (auto simp: IsAbs_iff)
  then have "q = Clean (slash # w @ slash # p)" by (simp add: q PathJoin_def joinSlash_def)
  moreover have "IsAbs (slash # w @ slash # p)" by (simp add: IsAbs_iff)
  ultimately show ?thesis using IsAbs_Clean by blast
qed (use assms(1) in \<open>auto simp: Abs_def\<close>)

text \<open>
  A path with its symbolic links evaluated, or the path itself where they cannot be (a file that
  does not exist).
\<close>

abbreviation linksEvaluated :: "os \<Rightarrow> string \<Rightarrow> string" where
  "linksEvaluated sys path \<equiv>
     (case evalSymlinks sys path of Some evaluated \<Rightarrow> evaluated | None \<Rightarrow> path)"

text \<open>
  C10: What \<open>require\<close> loads is inside the application. If the operating system answers with
  absolute paths (the working directory, and the evaluation of symbolic links in an absolute
  path), every path that \<open>resolveRequirePath\<close> returns is the literal below the application root
  with its links evaluated (or as it stands, where they cannot be evaluated); it is inside the root
  before the links are evaluated, and inside the root with its own links evaluated after: the
  elements of the one path are the first elements of the other.
\<close>

theorem required_files_are_inside_the_root:
  assumes "\<And>wd. getwd (osOf W) = Inr wd \<Longrightarrow> IsAbs wd"
    and "\<And>p q. IsAbs p \<Longrightarrow> evalSymlinks (osOf W) p = Some q \<Longrightarrow> IsAbs q"
    and "checkRequirePath W appRoot literal = Inr required"
  shows "\<exists>root candidate. Abs (osOf W) appRoot = Inr root
    \<and> Abs (osOf W) (PathJoin [root, literal]) = Inr candidate
    \<and> required = linksEvaluated (osOf W) candidate
    \<and> prefix (elements (Clean root)) (elements (Clean candidate))
    \<and> prefix (elements (Clean (linksEvaluated (osOf W) root))) (elements (Clean required))"
proof -
  obtain root candidate where r: "Abs (osOf W) appRoot = Inr root"
      "Abs (osOf W) (PathJoin [root, literal]) = Inr candidate"
    and within: "isWithinRoot root candidate" "isWithinRoot (linksEvaluated (osOf W) root) required"
    and required: "required = linksEvaluated (osOf W) candidate"
    using assms(3) by (auto simp: checkRequirePath_def Let_def split: if_splits sum.splits)
  have abs: "IsAbs root" "IsAbs candidate" using r assms(1) Abs_IsAbs by blast+
  have "IsAbs (linksEvaluated (osOf W) root)" "IsAbs required"
    using abs assms(2) unfolding required by (auto split: option.split)
  with within abs r required show ?thesis by (auto simp: isWithinRoot_elements)
qed

text \<open>
  A concrete setting for examples: ASCII letters and digits, and a system whose application
  directory \<open>/app\<close> is a link to \<open>/srv/web\<close>.
\<close>

definition asciiUnicode :: unicode where
  "asciiUnicode =
     \<lparr>nfkc = (\<lambda>s. s),
      patternSyntax = (\<lambda>r. 33 \<le> r \<and> r \<le> 47 \<or> 58 \<le> r \<and> r \<le> 64 \<or> 91 \<le> r \<and> r \<le> 94
         \<or> r = 96 \<or> 123 \<le> r \<and> r \<le> 126),
      patternWhiteSpace = (\<lambda>r. 9 \<le> r \<and> r \<le> 13 \<or> r = 32),
      isLetter = (\<lambda>r. 65 \<le> r \<and> r \<le> 90 \<or> 97 \<le> r \<and> r \<le> 122),
      tableNl = (\<lambda>_. False), otherIDStart = (\<lambda>_. False), tableMn = (\<lambda>_. False),
      tableMc = (\<lambda>_. False), tableNd = (\<lambda>r. 48 \<le> r \<and> r \<le> 57), tablePc = (\<lambda>r. r = 95),
      otherIDContinue = (\<lambda>_. False), quoteRune = (\<lambda>r. [CHR 0x27] @ EncodeRune r @ [CHR 0x27])\<rparr>"

definition linkedSystem :: os where
  "linkedSystem =
     \<lparr>getwd = Inr ''/'',
      evalSymlinks = (\<lambda>p. if HasPrefix p ''/app'' then Some (''/srv/web'' @ drop 4 p) else None),
      readDir = (\<lambda>_. None), readFile = (\<lambda>_. Inl ''none'')\<rparr>"

definition linkedConfig :: "(unit, unit) config" where
  "linkedConfig =
     \<lparr>unicodeOf = asciiUnicode, osOf = linkedSystem,
      quoted = (\<lambda>s. [CHR 0x22] @ s @ [CHR 0x22]),
      CanonicalEntry = FileResolver_CanonicalEntry linkedSystem,
      Resolve = FileResolver_Resolve linkedSystem, Load = FileLoader_Load linkedSystem,
      Builtins = (\<lambda>_. None), embeddedFiles = [], AnalyzeWithEnvironment = (\<lambda>_ _. ()),
      SemanticDiagnostics = (\<lambda>_. []), BuildModuleInterface = (\<lambda>_ _ _. ()),
      InterfaceModuleID = (\<lambda>_. ''''), InterfaceName = (\<lambda>_. '''')\<rparr>"

lemma linkedSystem_accepts:
  "osOf W = linkedSystem \<Longrightarrow> checkRequirePath W ''/app'' ''b.ahd'' = Inr ''/srv/web/b.ahd''"
  by (simp add: checkRequirePath_def linkedSystem_def HasSuffix_def HasPrefix_def IsAbs_def Abs_def
      Clean_def cleanElements_def cleanElement_def joinSlash_def PathJoin_def isWithinRoot_def Rel_def
      elements_def Let_def)

theorem required_files_are_inside_the_root_witness:
  "evalSymlinks linkedSystem ''/app/b.ahd'' = Some ''/srv/web/b.ahd''
    \<and> prefix (elements (Clean ''/app'')) (elements (Clean ''/app/b.ahd''))
    \<and> prefix (elements (Clean ''/srv/web'')) (elements (Clean ''/srv/web/b.ahd''))"
proof -
  let ?W = linkedConfig
  have "\<exists>root candidate. Abs (osOf ?W) ''/app'' = Inr root
      \<and> Abs (osOf ?W) (PathJoin [root, ''b.ahd'']) = Inr candidate
      \<and> ''/srv/web/b.ahd'' = linksEvaluated (osOf ?W) candidate
      \<and> prefix (elements (Clean root)) (elements (Clean candidate))
      \<and> prefix (elements (Clean (linksEvaluated (osOf ?W) root))) (elements (Clean ''/srv/web/b.ahd''))"
  proof (rule required_files_are_inside_the_root)
    show "checkRequirePath ?W ''/app'' ''b.ahd'' = Inr ''/srv/web/b.ahd''"
      by (rule linkedSystem_accepts) (simp add: linkedConfig_def)
  qed (auto simp: linkedConfig_def linkedSystem_def IsAbs_def HasPrefix_def split: if_splits)
  then show ?thesis
    by (auto simp: linkedConfig_def linkedSystem_def Abs_def IsAbs_def HasPrefix_def Clean_def cleanElements_def
        cleanElement_def joinSlash_def PathJoin_def)
qed

text \<open>
  C11: \<open>require\<close> ends and merges each file once. On any file system with finitely many readable
  files, whatever they hold, expanding a module's statements returns; no \<open>require\<close> statement is
  left, no file is merged twice, and the result holds exactly the module's other statements and
  those of each merged file.
\<close>

theorem require_merges_each_file_once:
  "returns (\<lambda>(statements, state, c'). list_all (\<lambda>s. \<not> isRequire s) statements
      \<and> distinct (reqOrder state)
      \<and> mset statements = plainOf ss
          + (\<Sum>p\<leftarrow>reqOrder state. plainOf (ownStatements (fileConfig files W) (reqFiles state) p)))
    (expandRequires (fileConfig files W) (Suc (length files)) ss i (newRequireState i) c)"
proof (rule returns_mono [OF files.compose_ok])
  show "card (fst ` set files) < Suc (length files)"
    by (metis card_length length_map less_Suc_eq_le list.set_map)
qed (auto simp: expandPost_def requireInv_def)

text \<open>
  C12: Cycles are never passed over. If the expansion adds no diagnostic, the merged files can be
  listed so that each requires only files before it, and everything the module requires is merged;
  in particular no chain of requires is circular.
\<close>

theorem clean_requires_are_acyclic:
  "returns (\<lambda>(statements, state, c'). length (compDiagnostics c) < length (compDiagnostics c')
      \<or> (\<exists>fin. distinct fin \<and> set fin = set (reqOrder state)
          \<and> follows (fileConfig files W) (Dir (SourcePath i)) (reqFiles state) {} fin
          \<and> set (requiredBy (fileConfig files W) (Dir (SourcePath i)) ss) \<subseteq> set fin))
    (expandRequires (fileConfig files W) (Suc (length files)) ss i (newRequireState i) c)"
proof (rule returns_mono [OF files.compose_ok])
  show "card (fst ` set files) < Suc (length files)"
    by (metis card_length length_map less_Suc_eq_le list.set_map)
next
  fix r
  assume post: "expandPost (fileConfig files W) ss (newRequireState i) c (reqOrder (fst (snd r))) r"
  obtain out st c' where r: "r = (out, st, c')" by (cases r)
  have p: "extends (compDiagnostics c) (compDiagnostics c')"
      "compDiagnostics c' = compDiagnostics c \<Longrightarrow>
        acyclicRun (fileConfig files W) ss (newRequireState i) st (reqOrder st)"
    using post unfolding r expandPost_def by (auto simp: expandFrame_def)
  show "case r of (statements, state, c') \<Rightarrow> length (compDiagnostics c) < length (compDiagnostics c')
      \<or> (\<exists>fin. distinct fin \<and> set fin = set (reqOrder state)
          \<and> follows (fileConfig files W) (Dir (SourcePath i)) (reqFiles state) {} fin
          \<and> set (requiredBy (fileConfig files W) (Dir (SourcePath i)) ss) \<subseteq> set fin)"
  proof (cases "length (compDiagnostics c) < length (compDiagnostics c')")
    case False
    then have "compDiagnostics c' = compDiagnostics c"
      using p(1) by (simp add: extends_def)
    from p(2) [OF this] show ?thesis
      by (auto simp: r acyclicRun_def finished_def newRequireState_def)
  qed (simp add: r)
qed

end
