(* ===== verification/Compilation.thy ===== *)
theory Compilation
  imports ModuleProofs Composition
begin

text \<open>
  The properties of the module compiler. They are stated for the compiler of the command line,
  whose workspace is the file system; the lists of files and of embedded modules bound the fuel.
\<close>

definition compileFiles ::
  "(string \<times> string) list \<Rightarrow> ('sem, 'iface) config \<Rightarrow> string \<Rightarrow> ('sem, 'iface) CompilationResult option"
where
  "compileFiles files W =
     Compile (fileConfig files W) (Suc (length files)) (Suc (length files + length (embeddedFiles W)))"

lemma card_files: "card (fst ` set files) \<le> length files"
  by (metis card_length length_map list.set_map)

lemma compileFiles_ok: "returns (compiled (fileConfig files W)) (compileFiles files W entry)"
  unfolding compileFiles_def
  by (rule files.Compile_ok) (use card_files [of files] in \<open>simp_all add: fileConfig_def Let_def\<close>)

lemma compileFiles_rule:
  assumes "\<And>c e. compilerInv (fileConfig files W) c \<Longrightarrow> compStack c = [] \<Longrightarrow>
    (stateOf c e = Some Resolved) = clean c \<Longrightarrow> Q (resultOf e c)"
  shows "returns Q (compileFiles files W entry)"
  using compileFiles_ok
proof (rule returns_mono)
  fix r assume "compiled (fileConfig files W) r"
  then obtain c where "compilerInv (fileConfig files W) c" "compStack c = []"
      "r = resultOf (ResultEntry r) c" "(stateOf c (ResultEntry r) = Some Resolved) = clean c"
    unfolding compiled_def by blast
  with assms show "Q r" by metis
qed

lemma resultOf_simps [simp]:
  "ResultEntry (resultOf e c) = e" "ResultModules (resultOf e c) = compModules c"
  "ResultOrder (resultOf e c) = compOrder c" "ResultDiagnostics (resultOf e c) = compDiagnostics c"
  by (simp_all add: resultOf_def)

text \<open>
  C13: Compilation ends, whatever the files hold (also for circular \<open>bring\<close>s and \<open>require\<close>s), and
  the entry module is resolved exactly if no error was reported, in whatever module: no failure
  goes unreported, and no reported error is overlooked.
\<close>

theorem entry_is_resolved_iff_no_error:
  "returns (\<lambda>r. (map_option AState (ResultModules r (ResultEntry r)) = Some Resolved)
      = (\<not> CompilationResult_HasErrors r))
    (compileFiles files W entry)"
  by (rule compileFiles_rule) (simp add: CompilationResult_HasErrors_def stateOf_def clean_def)

text \<open>
  C14: Every module is visited once. The order lists each module of the result once, no module is
  left unfinished, each was analyzed at most once, and a resolved one has an interface.
\<close>

theorem modules_are_analyzed_once:
  "returns (\<lambda>r. distinct (ResultOrder r) \<and> dom (ResultModules r) = set (ResultOrder r)
      \<and> ran (ResultModules r) \<subseteq> {m. AnalyzeCount m \<le> 1
          \<and> (AState m = Failed \<or> AState m = Resolved \<and> Interface m \<noteq> None)})
    (compileFiles files W entry)"
proof (rule compileFiles_rule)
  fix c :: "('a, 'b) Compiler" and e
  assume inv: "compilerInv (fileConfig files W) c" and stack: "compStack c = []"
  have "AnalyzeCount m \<le> 1 \<and> (AState m = Failed \<or> AState m = Resolved \<and> Interface m \<noteq> None)"
    if "compModules c i = Some m" for i m
    using compilerInvD(5) [OF inv that] stack
    by (cases "AState m") (auto simp: moduleOk_def)
  then show "distinct (ResultOrder (resultOf e c))
      \<and> dom (ResultModules (resultOf e c)) = set (ResultOrder (resultOf e c))
      \<and> ran (ResultModules (resultOf e c)) \<subseteq> {m. AnalyzeCount m \<le> 1
          \<and> (AState m = Failed \<or> AState m = Resolved \<and> Interface m \<noteq> None)}"
    using compilerInvD(1,2) [OF inv] by (auto simp: ran_def)
qed

text \<open>
  C15: The dependencies of what compiles are sound and acyclic. The resolved modules can be listed
  so that every \<open>bring\<close> of a module, those of the files it requires included, resolves to a module
  that comes before it.
\<close>

theorem resolved_modules_bring_resolved_modules:
  "returns (\<lambda>r. \<exists>fin. distinct fin
      \<and> set fin = {i. map_option AState (ResultModules r i) = Some Resolved}
      \<and> bringsFollow (fileConfig files W) (ResultModules r) {} fin)
    (compileFiles files W entry)"
proof (rule compileFiles_rule)
  fix c :: "('a, 'b) Compiler" and e
  assume "compilerInv (fileConfig files W) c"
  from compilerInvD(6) [OF this]
  show "\<exists>fin. distinct fin \<and> set fin = {i. map_option AState (ResultModules (resultOf e c) i) = Some Resolved}
      \<and> bringsFollow (fileConfig files W) (ResultModules (resultOf e c)) {} fin"
    by (simp add: resolvedIDs_def stateOf_def)
qed

text \<open>
  C16: The framework is closed and mostly private. A \<open>bring\<close> resolves to a built-in module, or to
  the bundled module of that name if the importer is bundled itself or the name is \<open>Web\<close>, or, for
  application files only, to what the workspace finds; a bundled module never reads the
  application's source tree.
\<close>

theorem framework_is_isolated:
  "case resolveDependency W importer name of
     Inl err \<Rightarrow> True
   | Inr d \<Rightarrow> Builtin d
       \<or> (FrameworkSource d \<and> SourceID d = FrameworkModuleID name
          \<and> (FrameworkSource importer \<or> name = ''Web''))
       \<or> (FrameworkSource importer = False \<and> Resolve W importer name = Inr d)"
proof (cases "Builtins W name")
  case None
  show ?thesis
  proof (cases "frameworkIdentity (embeddedFiles W) importer name")
    case None
    with \<open>Builtins W name = None\<close> show ?thesis
      by (cases "FrameworkSource importer") (simp_all add: resolveDependency_def split: sum.split)
  next
    case (Some d)
    then have "FrameworkSource d \<and> SourceID d = FrameworkModuleID name
        \<and> (FrameworkSource importer \<or> name = ''Web'')"
      unfolding frameworkIdentity_def IsPublic_def publicModules_def
      by (auto split: if_splits)
    with Some None show ?thesis by (simp add: resolveDependency_def)
  qed
qed (simp add: resolveDependency_def)

text \<open>
  The paths of the in-memory workspace are canonical: canonicalising twice is canonicalising
  once, so a path and the path of the module it names are one key.
\<close>

theorem memory_paths_are_canonical:
  "canonicalMemoryPath (canonicalMemoryPath value) = canonicalMemoryPath value"
proof -
  have "IsAbs (''/'' @ TrimPrefix value ''/'')" by (simp add: IsAbs_iff)
  then obtain es where es: "canonicalMemoryPath value = slash # joinSlash es"
      "\<forall>e \<in> set es. plainElement e \<and> e \<noteq> ''..''"
    unfolding canonicalMemoryPath_def by (rule Clean_rooted)
  have "canonicalMemoryPath (slash # joinSlash es) = Clean (slash # joinSlash es)"
    by (simp add: canonicalMemoryPath_def TrimPrefix_def HasPrefix_def)
  also have "\<dots> = slash # joinSlash es" by (rule Clean_joined [OF es(2)])
  finally show ?thesis unfolding es(1) .
qed

end
