(* ===== verification/LspPosition.thy ===== *)
theory LspPosition
  imports Utf8
begin

text \<open>
  Positions of the language server (\<open>internal/lsp/position.go\<close>): a byte offset into a document and
  a line with a count of UTF-16 code units are converted into each other over the real text, also
  where it is not well-formed UTF-8. Lines end at a newline, with an optional carriage return
  before it.
\<close>

record LspPos =
  PosLine :: int
  PosCharacter :: int

record lineIndex =
  indexText :: string
  indexStarts :: "nat list"

definition newLineIndex :: "string \<Rightarrow> lineIndex" where
  "newLineIndex txt =
     \<lparr>indexText = txt,
      indexStarts = 0 # map Suc (filter (\<lambda>i. txt ! i = CHR 0x0A) [0..<length txt])\<rparr>"

text \<open>The content of a line, without its line terminator.\<close>

definition trimTerminator :: "string \<Rightarrow> nat \<Rightarrow> nat \<Rightarrow> nat" where
  "trimTerminator txt start end =
    (if end > start \<and> txt ! (end - 1) = CHR 0x0A then
       if end - 1 > start \<and> txt ! (end - 2) = CHR 0x0D then end - 2 else end - 1
     else end)"

definition lineContentRange :: "lineIndex \<Rightarrow> int \<Rightarrow> nat \<times> nat" where
  "lineContentRange index line0 =
    (let line = (if line0 < 0 then 0 else nat line0)
     in if line \<ge> length (indexStarts index)
        then (length (indexText index), length (indexText index))
        else
          (let start = indexStarts index ! line;
               end = (if line + 1 < length (indexStarts index) then indexStarts index ! (line + 1)
                      else length (indexText index))
           in (start, trimTerminator (indexText index) start end)))"

definition utf16Width :: "nat \<Rightarrow> nat" where
  "utf16Width codePoint = (if codePoint > 0xFFFF then 2 else 1)"

function utf16Length :: "string \<Rightarrow> nat" where
  "utf16Length s =
    (if s = [] then 0
     else utf16Width (fst (DecodeRune s)) + utf16Length (drop (snd (DecodeRune s)) s))"
  by pat_completeness auto
termination
  by (relation "measure length") (auto simp: DecodeRune_size_pos)

declare utf16Length.simps [simp del]

text \<open>
  \<open>sort.Search\<close> returns the smallest index at which its predicate holds; on the sorted line starts
  it is the number of those not beyond the offset.
\<close>

definition OffsetToPosition :: "lineIndex \<Rightarrow> int \<Rightarrow> LspPos" where
  "OffsetToPosition index offset0 =
    (let n = length (indexText index);
         offset = (if offset0 < 0 then 0 else if offset0 > int n then n else nat offset0);
         found = int (length (takeWhile (\<lambda>start. start \<le> offset) (indexStarts index))) - 1;
         line = (if found < 0 then 0 else found);
         range = lineContentRange index line;
         offset = (if offset > snd range then snd range else offset)
     in \<lparr>PosLine = line,
         PosCharacter = int (utf16Length (slice (indexText index) (fst range) offset))\<rparr>)"

function advanceUnits :: "string \<Rightarrow> nat \<Rightarrow> nat \<Rightarrow> int \<Rightarrow> nat" where
  "advanceUnits txt lineEnd offset remaining =
    (if offset < lineEnd \<and> remaining > 0 then
       (let r = DecodeRune (slice txt offset lineEnd); width = int (utf16Width (fst r))
        in if remaining < width then offset
           else advanceUnits txt lineEnd (offset + snd r) (remaining - width))
     else offset)"
  by pat_completeness auto
termination
  by (relation "measure (\<lambda>(txt, lineEnd, offset, remaining). nat remaining)")
    (auto simp: utf16Width_def split: if_splits)

declare advanceUnits.simps [simp del]

definition PositionToOffset :: "lineIndex \<Rightarrow> LspPos \<Rightarrow> nat" where
  "PositionToOffset index position =
    (let line = (if PosLine position < 0 then 0 else PosLine position);
         range = lineContentRange index line
     in advanceUnits (indexText index) (snd range) (fst range) (PosCharacter position))"

subsection \<open>Character boundaries\<close>

text \<open>\<open>boundary s k\<close>: decoding \<open>s\<close> rune by rune reaches the offset \<open>k\<close>.\<close>


function boundary :: "string \<Rightarrow> nat \<Rightarrow> bool" where
  "boundary s k =
    (if k = 0 then True
     else if s = [] then False
     else if k < snd (DecodeRune s) then False
     else boundary (drop (snd (DecodeRune s)) s) (k - snd (DecodeRune s)))"
  by pat_completeness auto
termination
  by (relation "measure (\<lambda>(s, k). length s)") (auto simp: DecodeRune_size_pos)

declare boundary.simps [simp del]

lemma boundary_0 [simp]: "boundary s 0"
  by (simp add: boundary.simps)

lemma boundary_step:
  "s \<noteq> [] \<Longrightarrow> boundary (drop (snd (DecodeRune s)) s) k \<Longrightarrow> boundary s (snd (DecodeRune s) + k)"
  by (subst boundary.simps) simp

lemma boundary_cases:
  assumes "boundary s k"
  obtains "k = 0"
  | j where "s \<noteq> []" "k = snd (DecodeRune s) + j" "boundary (drop (snd (DecodeRune s)) s) j"
proof (cases "k = 0")
  case False
  then have "s \<noteq> []" "\<not> k < snd (DecodeRune s)"
      "boundary (drop (snd (DecodeRune s)) s) (k - snd (DecodeRune s))"
    using assms by (simp_all add: boundary.simps [of s k] split: if_splits)
  then show thesis using that(2) [of "k - snd (DecodeRune s)"] by simp
qed (use that in simp)

lemma boundary_length: "boundary s (length s)"
proof (induction s rule: length_induct)
  case (1 s)
  show ?case
  proof (cases "s = []")
    case False
    let ?k = "snd (DecodeRune s)"
    have "length (drop ?k s) < length s" using False DecodeRune_size_pos [OF False] by simp
    with 1 have "boundary (drop ?k s) (length (drop ?k s))" by blast
    from boundary_step [OF False this] show ?thesis using DecodeRune_size_le [of s] by simp
  qed simp
qed

lemma boundary_le: "boundary s k \<Longrightarrow> k \<le> length s"
proof (induction s arbitrary: k rule: length_induct)
  case (1 s)
  from 1(2) show ?case
  proof (cases rule: boundary_cases)
    case (2 j)
    then have "length (drop (snd (DecodeRune s)) s) < length s" using DecodeRune_size_pos by simp
    with 1(1) 2(3) have "j \<le> length (drop (snd (DecodeRune s)) s)" by blast
    then show ?thesis using 2(2) DecodeRune_size_le [of s] by simp
  qed simp
qed

text \<open>Decoding reads no further than the rune it returns.\<close>

lemma decode2_take: "snd (decode2 b cs) \<le> Suc j \<Longrightarrow> decode2 b (take j cs) = decode2 b cs"
  unfolding decode2_def by (cases cs; cases j) (simp_all split: if_splits)

lemma decode3_prefix: "decode3 b (c1 # c2 # r) = decode3 b (c1 # c2 # r')"
  by (simp add: decode3_def)

lemma decode4_prefix: "decode4 b (c1 # c2 # c3 # r) = decode4 b (c1 # c2 # c3 # r')"
  by (simp add: decode4_def)

lemma decode3_take:
  assumes "snd (decode3 b cs) \<le> Suc j" shows "decode3 b (take j cs) = decode3 b cs"
proof (cases "snd (decode3 b cs) = 3")
  case True
  then obtain c1 c2 rest where cs: "cs = c1 # c2 # rest"
    by (auto simp: decode3_def split: list.splits if_splits)
  obtain i where j: "j = Suc (Suc i)" using assms True by (metis Suc_le_mono numeral_3_eq_3 Suc_le_D)
  show ?thesis by (simp add: cs j decode3_def)
next
  case False
  then have fail: "decode3 b cs = (RuneError, 1)"
    by (auto simp: decode3_def split: list.splits if_splits)
  then have "decode3 b (take j cs) = (RuneError, 1) \<or> (\<exists>c1 c2 rest. take j cs = c1 # c2 # rest)"
    by (auto simp: decode3_def split: list.splits)
  then show ?thesis
  proof
    assume "\<exists>c1 c2 rest. take j cs = c1 # c2 # rest"
    then obtain c1 c2 rest where t: "take j cs = c1 # c2 # rest" by blast
    then have "cs = c1 # c2 # (rest @ drop j cs)" by (metis append_Cons append_take_drop_id)
    then show ?thesis by (simp only: t decode3_prefix [of b c1 c2 rest "rest @ drop j cs"])
  qed (simp add: fail)
qed

lemma decode4_take:
  assumes "snd (decode4 b cs) \<le> Suc j" shows "decode4 b (take j cs) = decode4 b cs"
proof (cases "snd (decode4 b cs) = 4")
  case True
  then obtain c1 c2 c3 rest where cs: "cs = c1 # c2 # c3 # rest"
    by (auto simp: decode4_def split: list.splits if_splits)
  have "3 \<le> j" using assms True by simp
  then obtain i where j: "j = Suc (Suc (Suc i))" by (metis Suc_le_D numeral_3_eq_3 Suc_le_mono)
  show ?thesis by (simp add: cs j decode4_def)
next
  case False
  then have fail: "decode4 b cs = (RuneError, 1)"
    by (auto simp: decode4_def split: list.splits if_splits)
  then have "decode4 b (take j cs) = (RuneError, 1) \<or> (\<exists>c1 c2 c3 rest. take j cs = c1 # c2 # c3 # rest)"
    by (auto simp: decode4_def split: list.splits)
  then show ?thesis
  proof
    assume "\<exists>c1 c2 c3 rest. take j cs = c1 # c2 # c3 # rest"
    then obtain c1 c2 c3 rest where t: "take j cs = c1 # c2 # c3 # rest" by blast
    then have "cs = c1 # c2 # c3 # (rest @ drop j cs)" by (metis append_Cons append_take_drop_id)
    then show ?thesis by (simp only: t decode4_prefix [of b c1 c2 c3 rest "rest @ drop j cs"])
  qed (simp add: fail)
qed

lemma DecodeRune_take:
  assumes "snd (DecodeRune s) \<le> k" "s \<noteq> []"
  shows "DecodeRune (take k s) = DecodeRune s"
proof -
  obtain c cs where s: "s = c # cs" using assms(2) by (cases s) auto
  obtain j where k: "k = Suc j" using assms DecodeRune_size_pos [of s] by (cases k) auto
  consider "byteOf c < 0x80" | "0xC2 \<le> byteOf c" "byteOf c \<le> 0xDF"
    | "0xE0 \<le> byteOf c" "byteOf c \<le> 0xEF" | "0xF0 \<le> byteOf c" "byteOf c \<le> 0xF4"
    | "0x80 \<le> byteOf c" "byteOf c < 0xC2 \<or> 0xF4 < byteOf c"
    by linarith
  then show ?thesis
    using assms(1) decode2_take [of "byteOf c" cs j] decode3_take [of "byteOf c" cs j]
      decode4_take [of "byteOf c" cs j]
    by cases (auto simp: s k DecodeRune_def Let_def)
qed


subsection \<open>Counting and advancing agree\<close>

lemma drop_slice: "drop n (slice s i j) = slice s (i + n) j"
  by (simp add: slice_def drop_take add.commute)

lemma slice_inhabited: "i < j \<Longrightarrow> j \<le> length s \<Longrightarrow> slice s i j \<noteq> []"
  using length_slice [of j s i] by auto

lemma utf16Length_Nil [simp]: "utf16Length [] = 0"
  by (simp add: utf16Length.simps)

lemma utf16Length_take:
  assumes "s \<noteq> []" "k = snd (DecodeRune s) + j"
  shows "utf16Length (take k s)
       = utf16Width (fst (DecodeRune s)) + utf16Length (take j (drop (snd (DecodeRune s)) s))"
proof -
  have "DecodeRune (take k s) = DecodeRune s" using DecodeRune_take [OF _ assms(1)] assms(2) by simp
  moreover have "take k s \<noteq> []" using assms DecodeRune_size_pos [OF assms(1)] by simp
  moreover have "drop (snd (DecodeRune s)) (take k s) = take j (drop (snd (DecodeRune s)) s)"
    using assms(2) by (simp add: drop_take)
  ultimately show ?thesis by (simp add: utf16Length.simps [of "take k s"])
qed

lemma utf16Width_pos: "0 < utf16Width c"
  by (simp add: utf16Width_def)

text \<open>Advancing by the width of a text that ends at a boundary reaches that boundary.\<close>

lemma advance_reaches:
  assumes "boundary (slice txt a b) k" "a \<le> b" "b \<le> length txt"
  shows "advanceUnits txt b a (int (utf16Length (take k (slice txt a b)))) = a + k"
  using assms(1,2)
proof (induction k arbitrary: a rule: less_induct)
  case (less k a)
  let ?s = "slice txt a b" and ?n = "snd (DecodeRune (slice txt a b))"
  from less.prems(1) show ?case
  proof (cases rule: boundary_cases)
    case 1
    then show ?thesis by (simp add: advanceUnits.simps)
  next
    case (2 j)
    from 2(1) less.prems(2) have "a < b" by (cases "a = b") auto
    have n: "0 < ?n" "?n \<le> b - a"
      using DecodeRune_size_pos [OF 2(1)] DecodeRune_size_le [of ?s] length_slice [OF assms(3), of a]
      by simp_all
    have "advanceUnits txt b (a + ?n) (int (utf16Length (take j (slice txt (a + ?n) b)))) = a + ?n + j"
      using 2 n less.IH [of j "a + ?n"] by (simp add: drop_slice)
    moreover have "utf16Length (take k ?s)
        = utf16Width (fst (DecodeRune ?s)) + utf16Length (take j (slice txt (a + ?n) b))"
      using utf16Length_take [OF 2(1,2)] by (simp add: drop_slice)
    ultimately show ?thesis
      using \<open>a < b\<close> 2(2) utf16Width_pos [of "fst (DecodeRune ?s)"]
      by (simp add: advanceUnits.simps [of "txt" b a] Let_def)
  qed
qed

text \<open>Advancing stops at a boundary of the line.\<close>

lemma advance_boundary:
  assumes "a \<le> b" "b \<le> length txt"
  shows "a \<le> advanceUnits txt b a r \<and> advanceUnits txt b a r \<le> b
       \<and> boundary (slice txt a b) (advanceUnits txt b a r - a)"
  using assms(1)
proof (induction "nat r" arbitrary: a r rule: less_induct)
  case less
  let ?s = "slice txt a b" and ?w = "int (utf16Width (fst (DecodeRune (slice txt a b))))"
  let ?n = "snd (DecodeRune (slice txt a b))"
  show ?case
  proof (cases "a < b \<and> r > 0 \<and> \<not> r < ?w")
    case True
    then have ne: "?s \<noteq> []" using slice_inhabited assms(2) by blast
    have n: "0 < ?n" "a + ?n \<le> b"
      using True DecodeRune_size_pos [OF ne] DecodeRune_size_le [of ?s] length_slice [OF assms(2), of a]
      by simp_all
    have eq: "advanceUnits txt b a r = advanceUnits txt b (a + ?n) (r - ?w)"
      using True by (simp add: advanceUnits.simps [of "txt" b a] Let_def)
    have "nat (r - ?w) < nat r" using True utf16Width_pos by simp
    from less.hyps [OF this n(2)]
    have IH: "a + ?n \<le> advanceUnits txt b a r" "advanceUnits txt b a r \<le> b"
      "boundary (drop ?n ?s) (advanceUnits txt b a r - (a + ?n))"
      by (simp_all add: eq drop_slice)
    from boundary_step [OF ne IH(3)] IH(1,2) show ?thesis by simp
  next
    case False
    then have "advanceUnits txt b a r = a" by (auto simp: advanceUnits.simps [of "txt" b a] Let_def)
    with less.prems show ?thesis by simp
  qed
qed

lemma advanceUnits_end [simp]: "advanceUnits txt b b r = b"
  by (simp add: advanceUnits.simps)

subsection \<open>Lines\<close>

abbreviation lineStarts :: "string \<Rightarrow> nat list" where
  "lineStarts txt \<equiv> indexStarts (newLineIndex txt)"

lemma lineStarts_eq:
  "lineStarts txt = 0 # map Suc (filter (\<lambda>i. txt ! i = CHR 0x0A) [0..<length txt])"
  by (simp add: newLineIndex_def)

lemma indexText_newLineIndex [simp]: "indexText (newLineIndex txt) = txt"
  by (simp add: newLineIndex_def)

lemma lineStarts_sorted: "sorted_wrt (<) (lineStarts txt)"
  by (simp add: lineStarts_eq sorted_wrt_map sorted_wrt_filter flip: strict_sorted_iff)

lemma lineStarts_less: "i < j \<Longrightarrow> j < length (lineStarts txt) \<Longrightarrow> lineStarts txt ! i < lineStarts txt ! j"
  using lineStarts_sorted sorted_wrt_iff_nth_less by blast

lemma lineStarts_ne: "0 < length (lineStarts txt)"
  by (simp add: lineStarts_eq)

text \<open>Each start but the first stands behind a newline.\<close>

lemma lineStarts_newline:
  assumes "0 < i" "i < length (lineStarts txt)"
  shows "\<exists>k < length txt. lineStarts txt ! i = Suc k \<and> txt ! k = CHR 0x0A"
proof -
  from assms obtain j where "i = Suc j" by (cases i) auto
  with assms have "lineStarts txt ! i \<in> set (map Suc (filter (\<lambda>i. txt ! i = CHR 0x0A) [0..<length txt]))"
    unfolding lineStarts_eq by (metis Suc_less_eq length_Cons nth_Cons_Suc nth_mem)
  then show ?thesis by auto
qed

lemma lineStarts_le: "i < length (lineStarts txt) \<Longrightarrow> lineStarts txt ! i \<le> length txt"
  using lineStarts_newline [of i "txt"] by (cases "i = 0") (auto simp: lineStarts_eq)

lemma lineStarts_all:
  "k < length txt \<Longrightarrow> txt ! k = CHR 0x0A \<Longrightarrow> \<exists>i < length (lineStarts txt). lineStarts txt ! i = Suc k"
proof -
  assume "k < length txt" "txt ! k = CHR 0x0A"
  then have "Suc k \<in> set (lineStarts txt)" by (simp add: lineStarts_eq)
  then show ?thesis by (simp add: in_set_conv_nth)
qed

text \<open>The line found for an offset is the last one that starts at or before it.\<close>

lemma line_of_offset:
  assumes i: "i < length (lineStarts txt)" "lineStarts txt ! i \<le> n"
    and nxt: "Suc i < length (lineStarts txt) \<Longrightarrow> n < lineStarts txt ! Suc i"
  shows "length (takeWhile (\<lambda>start. start \<le> n) (lineStarts txt)) = Suc i"
proof -
  let ?xs = "lineStarts txt"
  have "?xs ! j \<le> n" if "j < Suc i" for j
    using that i lineStarts_less [of j i "txt"] by (cases "j = i") auto
  then have "takeWhile (\<lambda>start. start \<le> n) ?xs = take (Suc i) ?xs"
    using i nxt by (intro takeWhile_eq_take_P_nth) (auto simp: not_le)
  with i show ?thesis by simp
qed

lemma trimTerminator_bounds: "start \<le> e \<Longrightarrow> start \<le> trimTerminator txt start e \<and> trimTerminator txt start e \<le> e"
  by (auto simp: trimTerminator_def)

lemma trimTerminator_less:
  "start < e \<Longrightarrow> txt ! (e - 1) = CHR 0x0A \<Longrightarrow> trimTerminator txt start e < e"
  by (auto simp: trimTerminator_def)


definition lineRange :: "string \<Rightarrow> nat \<Rightarrow> nat \<times> nat" where
  "lineRange txt i =
    (let start = lineStarts txt ! i;
         e = (if i + 1 < length (lineStarts txt) then lineStarts txt ! (i + 1) else length txt)
     in (start, trimTerminator txt start e))"

lemma lineContentRange_line:
  "i < length (lineStarts txt) \<Longrightarrow> lineContentRange (newLineIndex txt) (int i) = lineRange txt i"
  by (simp add: lineContentRange_def lineRange_def)

lemma lineRange_bounds:
  assumes "i < length (lineStarts txt)" "lineRange txt i = (a, b)"
  shows "a = lineStarts txt ! i" "a \<le> b" "b \<le> length txt"
    "Suc i < length (lineStarts txt) \<Longrightarrow> b < lineStarts txt ! Suc i"
proof -
  let ?e = "if i + 1 < length (lineStarts txt) then lineStarts txt ! (i + 1) else length txt"
  show a: "a = lineStarts txt ! i" using assms(2) by (simp add: lineRange_def Let_def)
  have b: "b = trimTerminator txt a ?e" using assms(2) by (auto simp: lineRange_def Let_def)
  have "a \<le> ?e" "?e \<le> length txt"
    using assms(1) a lineStarts_less [of i "Suc i" "txt"] lineStarts_le by auto
  then show "a \<le> b" "b \<le> length txt" using b trimTerminator_bounds [of a ?e "txt"] by auto
  show "b < lineStarts txt ! Suc i" if more: "Suc i < length (lineStarts txt)"
  proof -
    obtain k where "lineStarts txt ! Suc i = Suc k" "txt ! k = CHR 0x0A"
      using lineStarts_newline [OF zero_less_Suc more] by blast
    then show ?thesis
      using b more a lineStarts_less [of i "Suc i" "txt"] trimTerminator_less [of a ?e "txt"] by simp
  qed
qed

text \<open>On a character boundary of the content of a line the conversions are inverse.\<close>

lemma conversion_inverse:
  assumes i: "i < length (lineStarts txt)" and r: "lineRange txt i = (a, b)"
    and n: "a \<le> n" "n \<le> b" and "boundary (slice txt a b) (n - a)"
  shows "PosLine (OffsetToPosition (newLineIndex txt) (int n)) = int i"
    "PositionToOffset (newLineIndex txt) (OffsetToPosition (newLineIndex txt) (int n)) = n"
proof -
  note bounds = lineRange_bounds [OF i r]
  have found: "length (takeWhile (\<lambda>start. start \<le> n) (lineStarts txt)) = Suc i"
    by (rule line_of_offset [OF i]) (use n bounds in auto)
  have line: "int (length (takeWhile (\<lambda>start. start \<le> n) (lineStarts txt))) - 1 = int i"
    by (simp only: found)
  have found_ne: "takeWhile (\<lambda>start. start \<le> n) (lineStarts txt) \<noteq> []"
    using found by auto
  have slice: "slice txt a n = take (n - a) (slice txt a b)"
    using n by (simp add: slice_def)
  have pos: "OffsetToPosition (newLineIndex txt) (int n)
      = \<lparr>PosLine = int i, PosCharacter = int (utf16Length (take (n - a) (slice txt a b)))\<rparr>"
    using n bounds(3) by (simp add: OffsetToPosition_def Let_def lineContentRange_line [OF i] r slice line found_ne)
  then show "PosLine (OffsetToPosition (newLineIndex txt) (int n)) = int i" by simp
  show "PositionToOffset (newLineIndex txt) (OffsetToPosition (newLineIndex txt) (int n)) = n"
    using advance_reaches [OF assms(5) bounds(2,3)] n(1) i
    by (simp add: pos PositionToOffset_def Let_def lineContentRange_line r)
qed

lemma last_line_content:
  assumes "i < length (lineStarts txt)" "\<not> Suc i < length (lineStarts txt)"
  shows "snd (lineRange txt i) = length txt"
proof (rule ccontr)
  assume other: "snd (lineRange txt i) \<noteq> length txt"
  then have "lineStarts txt ! i < length txt" "txt ! (length txt - 1) = CHR 0x0A"
    using assms(2) by (auto simp: lineRange_def trimTerminator_def Let_def split: if_splits)
  then obtain j where j: "j < length (lineStarts txt)" "lineStarts txt ! j = length txt"
    using lineStarts_all [of "length txt - 1" "txt"]
    by (metis One_nat_def Suc_pred diff_Suc_less gr_implies_not0 neq0_conv)
  have "j \<le> i" using assms j(1) by simp
  then have "lineStarts txt ! j \<le> lineStarts txt ! i"
    using lineStarts_less [of j i "txt"] assms(1) by (cases "j = i") auto
  with j(2) \<open>lineStarts txt ! i < length txt\<close> show False by simp
qed

text \<open>Every offset the server computes lies on a boundary of the content of some line.\<close>

lemma PositionToOffset_on_boundary:
  "\<exists>i a b. i < length (lineStarts txt) \<and> lineRange txt i = (a, b) \<and> a \<le> PositionToOffset (newLineIndex txt) p
     \<and> PositionToOffset (newLineIndex txt) p \<le> b
     \<and> boundary (slice txt a b) (PositionToOffset (newLineIndex txt) p - a)"
proof (cases "nat (PosLine p) < length (lineStarts txt)")
  case True
  obtain a b where r: "lineRange txt (nat (PosLine p)) = (a, b)" by force
  note bounds = lineRange_bounds [OF True r]
  have "PositionToOffset (newLineIndex txt) p = advanceUnits txt b a (PosCharacter p)"
    using lineContentRange_line [OF True] r
    by (cases "PosLine p < 0") (simp_all add: PositionToOffset_def Let_def)
  with advance_boundary [OF bounds(2,3), of "PosCharacter p"] True r show ?thesis
    by (intro exI [of _ "nat (PosLine p)"] exI [of _ a] exI [of _ b]) simp
next
  case False
  let ?i = "length (lineStarts txt) - 1"
  have i: "?i < length (lineStarts txt)" "\<not> Suc ?i < length (lineStarts txt)" using lineStarts_ne by auto
  obtain a b where r: "lineRange txt ?i = (a, b)" by force
  have b: "b = length txt" using last_line_content [OF i] r by simp
  have "PositionToOffset (newLineIndex txt) p = length txt"
    using False lineStarts_ne [of "txt"]
    by (cases "PosLine p < 0") (simp_all add: PositionToOffset_def Let_def lineContentRange_def not_less)
  moreover have "boundary (slice txt a b) (b - a)"
    using boundary_length [of "slice txt a b"] length_slice [of b "txt" a] b by simp
  ultimately show ?thesis using i(1) r b lineRange_bounds(2) [OF i(1) r]
    by (intro exI [of _ ?i] exI [of _ a] exI [of _ b]) simp
qed

subsection \<open>Properties\<close>

text \<open>C23: converting a byte offset to a position and back gives the offset, on every line and for
  every text, when the offset is a character boundary of the content of its line (decoding the line
  from its start reaches it). Offsets inside a character, or inside a line terminator, have no
  position of their own.\<close>

theorem offsets_round_trip:
  assumes "i < length (indexStarts (newLineIndex txt))"
    and "lineContentRange (newLineIndex txt) (int i) = (a, b)"
    and "a \<le> n" "n \<le> b" "boundary (slice txt a b) (n - a)"
  shows "PosLine (OffsetToPosition (newLineIndex txt) (int n)) = int i \<and>
    PositionToOffset (newLineIndex txt) (OffsetToPosition (newLineIndex txt) (int n)) = n"
  using conversion_inverse [OF assms(1) _ assms(3-5)] assms(1,2) by (simp add: lineContentRange_line)

text \<open>The witness: the end of a four-byte character on the second line, whose terminator has a
  carriage return; the character counts two units.\<close>

theorem offsets_round_trip_witness:
  "let txt = ''a'' @ [CHR 0x0D, CHR 0x0A, CHR 0xF0, CHR 0x9F, CHR 0x98, CHR 0x80, CHR 0x62, CHR 0x0D, CHR 0x0A]
   in PositionToOffset (newLineIndex txt) (OffsetToPosition (newLineIndex txt) 7) = 7"
proof -
  let ?txt = "''a'' @ [CHR 0x0D, CHR 0x0A, CHR 0xF0, CHR 0x9F, CHR 0x98, CHR 0x80, CHR 0x62, CHR 0x0D, CHR 0x0A]"
  have index: "newLineIndex ?txt = \<lparr>indexText = ?txt, indexStarts = [0, 3, 10]\<rparr>"
    by (simp add: newLineIndex_def upt_rec numeral_nat)
  then have "Suc 0 < length (indexStarts (newLineIndex ?txt))" by simp
  moreover have "lineContentRange (newLineIndex ?txt) (int (Suc 0)) = (3, 8)"
    by (simp only: index lineContentRange_def trimTerminator_def) simp
  moreover have "boundary (slice ?txt 3 8) (7 - 3)"
    by (simp add: slice_def boundary.simps decode_defs byteOf_def)
  ultimately show ?thesis
    using offsets_round_trip [of "Suc 0" ?txt 3 8 7] by (simp add: Let_def)
qed

text \<open>Whatever position a client sends, negative, beyond the last line, beyond the end of the
  line or inside a surrogate pair, the offset it stands for lies in the text, and the position of that
  offset stands for the same offset: one conversion normalises, and a second changes nothing.\<close>

theorem positions_settle:
  "PositionToOffset (newLineIndex txt) p \<le> length txt \<and>
   PositionToOffset (newLineIndex txt)
     (OffsetToPosition (newLineIndex txt) (int (PositionToOffset (newLineIndex txt) p)))
   = PositionToOffset (newLineIndex txt) p"
  using PositionToOffset_on_boundary [of "txt" p] conversion_inverse lineRange_bounds(3)
  by (meson order_trans)

end
