(* ===== verification/Calendar.thy ===== *)
theory Calendar
  imports Prelude
begin

text \<open>
  What the runtime uses of Go's package \<open>time\<close>, and the \<open>Time\<close> and \<open>Calendar\<close> functions of
  \<open>ahdruntime.go\<close> over it. An instant is the number of nanoseconds since the beginning of year 1,
  UTC. A location is the offset from UTC, in seconds, that is in force at each second. The civil
  calendar is the proleptic Gregorian one, as the package documents.
\<close>

type_synonym instant = int
type_synonym location = "int \<Rightarrow> int"

subsection \<open>Days, months and years\<close>

text \<open>Days are counted from 0001-01-01, a Monday.\<close>

definition isLeap :: "int \<Rightarrow> bool" where
  "isLeap year = (year mod 4 = 0 \<and> (year mod 100 \<noteq> 0 \<or> year mod 400 = 0))"

definition yearStart :: "int \<Rightarrow> int" where
  "yearStart year = (let k = year - 1 in 365 * k + k div 4 - k div 100 + k div 400)"

definition monthStarts :: "bool \<Rightarrow> int list" where
  "monthStarts leap = (if leap then [0, 31, 60, 91, 121, 152, 182, 213, 244, 274, 305, 335, 366]
     else [0, 31, 59, 90, 120, 151, 181, 212, 243, 273, 304, 334, 365])"

definition monthStart :: "int \<Rightarrow> int \<Rightarrow> int" where
  "monthStart year month = monthStarts (isLeap year) ! nat (month - 1)"

definition monthLength :: "int \<Rightarrow> int \<Rightarrow> int" where
  "monthLength year month = monthStart year (month + 1) - monthStart year month"

definition validDate :: "int \<Rightarrow> int \<Rightarrow> int \<Rightarrow> bool" where
  "validDate year month day = (1 \<le> month \<and> month \<le> 12 \<and> 1 \<le> day \<and> day \<le> monthLength year month)"

text \<open>\<open>time.Date\<close> normalises a month or a day beyond its range.\<close>

definition dayNumber :: "int \<Rightarrow> int \<Rightarrow> int \<Rightarrow> int" where
  "dayNumber year month day =
    (let y = year + (month - 1) div 12; m = (month - 1) mod 12 + 1
     in yearStart y + monthStart y m + day - 1)"

definition yearOf :: "int \<Rightarrow> int" where
  "yearOf n =
    (let y = 400 * n div 146097 + 1
     in if n < yearStart y then y - 1 else if yearStart (y + 1) \<le> n then y + 1 else y)"

definition monthOf :: "int \<Rightarrow> int" where
  "monthOf n =
    int (length (takeWhile (\<lambda>s. s \<le> n - yearStart (yearOf n)) (monthStarts (isLeap (yearOf n)))))"

definition dayOf :: "int \<Rightarrow> int" where
  "dayOf n = n - yearStart (yearOf n) - monthStart (yearOf n) (monthOf n) + 1"

text \<open>Sunday is 0, as in \<open>time.Weekday\<close>.\<close>

definition weekdayOf :: "int \<Rightarrow> int" where
  "weekdayOf n = (n + 1) mod 7"

lemma div_add_one:
  assumes "0 < m" shows "((k::int) + 1) div m = k div m + (if (k + 1) mod m = 0 then 1 else 0)"
proof -
  define q r where "q = k div m" and "r = k mod m"
  have k: "k = m * q + r" "0 \<le> r" "r < m" using assms by (simp_all add: q_def r_def)
  show ?thesis
  proof (cases "r + 1 = m")
    case True
    then have "k + 1 = m * (q + 1)" using k by (simp add: algebra_simps)
    then show ?thesis using assms by (simp add: q_def)
  next
    case False
    then have "(k + 1) div m = q" "(k + 1) mod m = r + 1"
      using k by (auto intro: int_div_pos_eq int_mod_pos_eq)
    then show ?thesis using k(2) by (simp add: q_def)
  qed
qed

lemma mod_mod_le: "(k::int) mod (m * n) = 0 \<Longrightarrow> k mod m = 0"
  by (metis dvd_mult_left mod_0_imp_dvd mod_eq_0_iff_dvd)

lemma leap_arith:
  fixes a b c :: int
  assumes "a' = a + (if A then 1 else 0)" "b' = b + (if B then 1 else 0)"
    "c' = c + (if C then 1 else 0)" "C \<Longrightarrow> B" "B \<Longrightarrow> A"
  shows "365 + (a' - a) - (b' - b) + (c' - c) = (if A \<and> (\<not> B \<or> C) then 366 else 365)"
proof -
  have "(if C then 1 else 0) \<le> (if B then 1 else 0 :: int)" "(if B then 1 else 0) \<le> (if A then 1 else 0 :: int)"
    using assms(4,5) by simp_all
  with assms(1-3) show ?thesis by (cases A; cases B; cases C) simp_all
qed

lemma yearStart_step: "yearStart (k + 2) - yearStart (k + 1)
    = 365 + ((k + 1) div 4 - k div 4) - ((k + 1) div 100 - k div 100) + ((k + 1) div 400 - k div 400)"
proof -
  have "k + 2 - 1 = k + 1" by simp
  then show ?thesis unfolding yearStart_def Let_def by (simp only: add_diff_cancel_right') simp
qed

lemma yearStart_Suc: "yearStart (year + 1) = yearStart year + (if isLeap year then 366 else 365)"
proof -
  define k where "k = year - 1"
  have "yearStart (k + 2) - yearStart (k + 1) = (if isLeap (k + 1) then 366 else 365)"
    unfolding yearStart_step isLeap_def
  proof (rule leap_arith)
    show "(k + 1) mod 100 = 0" if "(k + 1) mod 400 = 0" using that mod_mod_le [of "k + 1" 100 4] by simp
    show "(k + 1) mod 4 = 0" if "(k + 1) mod 100 = 0" using that mod_mod_le [of "k + 1" 4 25] by simp
  qed (rule div_add_one; simp)+
  then show ?thesis by (simp add: k_def add.commute split: if_splits)
qed

lemma div_bounds: "0 < m \<Longrightarrow> m * ((k::int) div m) \<le> k \<and> k < m * (k div m) + m"
  using mult_div_mod_eq [of m k] pos_mod_bound [of m k] pos_mod_sign [of m k] by linarith

lemma yearStart_bounds:
  "146097 * (year - 1) - 699 \<le> 400 * yearStart year" "400 * yearStart year \<le> 146097 * (year - 1) + 396"
proof -
  define k where "k = year - 1"
  note div_bounds [of 4 k] div_bounds [of 100 k] div_bounds [of 400 k]
  then show "146097 * (year - 1) - 699 \<le> 400 * yearStart year"
    "400 * yearStart year \<le> 146097 * (year - 1) + 396"
    unfolding yearStart_def Let_def k_def [symmetric] by simp_all
qed

lemma yearOf_bounds: "yearStart (yearOf n) \<le> n \<and> n < yearStart (yearOf n + 1)"
proof -
  define y where "y = 400 * n div 146097 + 1"
  have y: "146097 * (y - 1) \<le> 400 * n" "400 * n < 146097 * (y - 1) + 146097"
    using div_bounds [of 146097 "400 * n"] unfolding y_def by simp_all
  have near: "yearStart (y - 1) \<le> n" "n < yearStart (y + 2)"
    using y yearStart_bounds(2) [of "y - 1"] yearStart_bounds(1) [of "y + 2"] by simp_all
  have "yearOf n = (if n < yearStart y then y - 1 else if yearStart (y + 1) \<le> n then y + 1 else y)"
    by (simp add: yearOf_def y_def)
  then show ?thesis using near by (auto simp: add.commute)
qed

lemma yearStart_mono: "y \<le> z \<Longrightarrow> yearStart y \<le> yearStart z"
proof (induction z rule: int_ge_induct)
  case (step z)
  then show ?case using yearStart_Suc [of z] by (auto split: if_splits)
qed simp

lemma yearOf_unique: "yearStart y \<le> n \<Longrightarrow> n < yearStart (y + 1) \<Longrightarrow> yearOf n = y"
  using yearOf_bounds [of n] yearStart_mono [of "y + 1" "yearOf n"] yearStart_mono [of "yearOf n + 1" y]
  by force


subsection \<open>A day number and its date\<close>

lemma monthStarts_simps:
  "length (monthStarts l) = 13" "monthStarts l ! 0 = 0" "monthStarts l ! 12 = (if l then 366 else 365)"
  by (simp_all add: monthStarts_def)

lemma monthStarts_less: "i < j \<Longrightarrow> j < 13 \<Longrightarrow> monthStarts l ! i < monthStarts l ! j"
proof -
  have "sorted_wrt (<) (monthStarts l)" by (simp add: monthStarts_def)
  then show "i < j \<Longrightarrow> j < 13 \<Longrightarrow> monthStarts l ! i < monthStarts l ! j"
    by (simp add: sorted_wrt_iff_nth_less monthStarts_simps)
qed

lemma monthLength_pos: "1 \<le> m \<Longrightarrow> m \<le> 12 \<Longrightarrow> 0 < monthLength y m"
  using monthStarts_less [of "nat (m - 1)" "nat m" "isLeap y"]
  by (simp add: monthLength_def monthStart_def nat_less_eq_zless)

lemma yearOf_length: "0 \<le> n - yearStart (yearOf n) \<and>
    n - yearStart (yearOf n) < monthStarts (isLeap (yearOf n)) ! 12"
  using yearOf_bounds [of n] yearStart_Suc [of "yearOf n"] by (simp add: monthStarts_simps)

lemma takeWhile_monthStarts:
  assumes "i < 12" "monthStarts l ! i \<le> d" "d < monthStarts l ! Suc i"
  shows "length (takeWhile (\<lambda>s. s \<le> d) (monthStarts l)) = Suc i"
proof -
  have "monthStarts l ! j \<le> d" if "j < Suc i" for j
    using that assms monthStarts_less [of j i l] by (cases "j = i") auto
  then have "takeWhile (\<lambda>s. s \<le> d) (monthStarts l) = take (Suc i) (monthStarts l)"
    using assms by (intro takeWhile_eq_take_P_nth) (auto simp: monthStarts_simps)
  with assms show ?thesis by (simp add: monthStarts_simps)
qed

lemma month_exists:
  assumes "0 \<le> d" "d < monthStarts l ! 12"
  obtains i where "i < 12" "monthStarts l ! i \<le> d" "d < monthStarts l ! Suc i"
proof -
  let ?P = "\<lambda>i. d < monthStarts l ! i"
  define j where "j = (LEAST i. ?P i)"
  have j: "?P j" "j \<le> 12" unfolding j_def using assms(2) by (auto intro: LeastI Least_le)
  moreover have "j \<noteq> 0"
  proof
    assume "j = 0"
    with j(1) assms(1) show False by (simp add: monthStarts_simps)
  qed
  moreover have "\<not> ?P (j - 1)" using \<open>j \<noteq> 0\<close> unfolding j_def by (intro not_less_Least) auto
  ultimately show ?thesis using that [of "j - 1"] by auto
qed

text \<open>Month and day of a day number are the date it stands for.\<close>

lemma dateOf_valid: "validDate (yearOf n) (monthOf n) (dayOf n)"
  and dayNumber_dateOf: "dayNumber (yearOf n) (monthOf n) (dayOf n) = n"
proof -
  let ?y = "yearOf n"
  obtain i where i: "i < 12" "monthStarts (isLeap ?y) ! i \<le> n - yearStart ?y"
      "n - yearStart ?y < monthStarts (isLeap ?y) ! Suc i"
    using yearOf_length [of n] month_exists by blast
  have m: "monthOf n = int i + 1" using takeWhile_monthStarts [OF i] by (simp add: monthOf_def)
  show "validDate ?y (monthOf n) (dayOf n)"
    using i by (auto simp: validDate_def dayOf_def m monthLength_def monthStart_def nat_add_distrib)
  show "dayNumber ?y (monthOf n) (dayOf n) = n"
    using i by (simp add: dayNumber_def dayOf_def m Let_def)
qed

lemma monthStart_total: "1 \<le> m \<Longrightarrow> m \<le> 12 \<Longrightarrow> 0 \<le> monthStart y m \<and>
    monthStart y m + monthLength y m \<le> (if isLeap y then 366 else 365)"
  using monthStarts_less [of 0 "nat (m - 1)" "isLeap y"] monthStarts_less [of "nat m" 12 "isLeap y"]
  by (cases "m = 1"; cases "m = 12")
    (simp_all add: monthStart_def monthLength_def monthStarts_simps nat_less_iff split: if_splits)

lemma dateOf_dayNumber:
  assumes "validDate y m d"
  shows "yearOf (dayNumber y m d) = y" "monthOf (dayNumber y m d) = m" "dayOf (dayNumber y m d) = d"
proof -
  have v: "1 \<le> m" "m \<le> 12" "1 \<le> d" "d \<le> monthLength y m" using assms by (auto simp: validDate_def)
  have n: "dayNumber y m d = yearStart y + monthStart y m + d - 1"
    using v by (simp add: dayNumber_def Let_def)
  have "yearStart y \<le> dayNumber y m d" "dayNumber y m d < yearStart (y + 1)"
    using v monthStart_total [OF v(1,2), of y] by (simp_all add: n yearStart_Suc split: if_splits)
  then show y: "yearOf (dayNumber y m d) = y" by (rule yearOf_unique)
  have i: "nat (m - 1) < 12" "Suc (nat (m - 1)) = nat m" using v by auto
  have "length (takeWhile (\<lambda>s. s \<le> monthStart y m + d - 1) (monthStarts (isLeap y))) = Suc (nat (m - 1))"
    using v i by (intro takeWhile_monthStarts) (simp_all add: monthStart_def monthLength_def)
  moreover have rel: "dayNumber y m d - yearStart y = monthStart y m + d - 1" by (simp add: n)
  ultimately show m: "monthOf (dayNumber y m d) = m"
    using v by (simp add: monthOf_def y rel)
  show "dayOf (dayNumber y m d) = d" by (simp add: dayOf_def y m rel)
qed

end
