(* ===== verification/GoText.thy ===== *)
theory GoText
  imports GoStrings Utf8
begin

text \<open>
  More of Go's packages \<open>strings\<close> and \<open>strconv\<close>, for the runtime and the tools: decimal numbers,
  splitting at a byte, fields and trimming. A separator below 0x80 is never part of the encoding
  of another rune, so splitting at it by bytes and by runes is the same.
\<close>

subsection \<open>Values of the runtime\<close>

text \<open>
  An \<open>int64\<close> is a word read with \<^const>\<open>sint\<close>, and its conversion to \<open>uint64\<close> is the same word read
  with \<^const>\<open>uint\<close>. What an operation of the runtime raises is the class of the error and its message.
\<close>

type_synonym int64 = "64 word"

type_synonym raised = "string \<times> string"

subsection \<open>strconv\<close>

text \<open>The decimal digits of a number, \<open>strconv.Itoa\<close> and \<open>strconv.FormatInt\<close> in base ten.\<close>

fun digitsOf :: "nat \<Rightarrow> string" where
  "digitsOf n = (if n < 10 then [char_of (48 + n)] else digitsOf (n div 10) @ [char_of (48 + n mod 10)])"

declare digitsOf.simps [simp del]

definition FormatInt :: "int \<Rightarrow> string" where
  "FormatInt i = (if i < 0 then ''-'' @ digitsOf (nat (- i)) else digitsOf (nat i))"

definition isDecimal :: "char \<Rightarrow> bool" where
  "isDecimal c = (48 \<le> byteOf c \<and> byteOf c \<le> 57)"

text \<open>\<open>strconv.Atoi\<close> on decimal digits that fit an \<open>int\<close>.\<close>

definition digitsValue :: "string \<Rightarrow> nat" where
  "digitsValue s = foldl (\<lambda>n c. 10 * n + (byteOf c - 48)) 0 s"

lemma byteOf_digit: "n < 208 \<Longrightarrow> byteOf (char_of (48 + n)) = 48 + n"
  by (simp add: byteOf_def)

lemma digitsValue_append: "digitsValue (s @ [c]) = 10 * digitsValue s + (byteOf c - 48)"
  by (simp add: digitsValue_def)

lemma digitsValue_digitsOf: "digitsValue (digitsOf n) = n"
proof (induction n rule: digitsOf.induct)
  case (1 n)
  then show ?case
    by (subst digitsOf.simps) (auto simp: digitsValue_append byteOf_digit, simp add: digitsValue_def byteOf_digit)
qed

lemma isDecimal_digit: "(n::nat) < 10 \<Longrightarrow> isDecimal (char_of (48 + n))"
  by (simp add: isDecimal_def byteOf_digit)

lemma digitsOf_decimal: "list_all isDecimal (digitsOf n)"
proof (induction n rule: digitsOf.induct)
  case (1 n)
  then show ?case by (subst digitsOf.simps) (auto simp: isDecimal_digit)
qed

subsection \<open>strings\<close>

text \<open>\<open>strings.Split\<close> with a separator of one byte: always at least one part.\<close>

fun splitAt :: "char \<Rightarrow> string \<Rightarrow> string list" where
  "splitAt sep [] = [[]]"
| "splitAt sep (c # cs) =
    (if c = sep then [] # splitAt sep cs
     else (case splitAt sep cs of [] \<Rightarrow> [[c]] | p # ps \<Rightarrow> (c # p) # ps))"

text \<open>\<open>strings.Cut\<close>: the text before and after the first separator, and whether there is one.\<close>

fun cutAt :: "char \<Rightarrow> string \<Rightarrow> string \<times> string \<times> bool" where
  "cutAt sep [] = ([], [], False)"
| "cutAt sep (c # cs) =
    (if c = sep then ([], cs, True)
     else (case cutAt sep cs of (front, rest, found) \<Rightarrow> (c # front, rest, found)))"

text \<open>\<open>strings.FieldsFunc\<close>: the maximal non-empty runs without a separator.\<close>

definition fieldsBy :: "char list \<Rightarrow> string \<Rightarrow> string list" where
  "fieldsBy seps s =
    filter (\<lambda>f. f \<noteq> [])
      (foldr (\<lambda>c parts. if c \<in> set seps then [] # parts
          else (case parts of [] \<Rightarrow> [[c]] | p # ps \<Rightarrow> (c # p) # ps)) s [[]])"

lemma splitAt_ne: "splitAt sep s \<noteq> []"
  by (cases s) (auto split: list.splits)

lemma splitAt_free: "p \<in> set (splitAt sep s) \<Longrightarrow> sep \<notin> set p"
  by (induction s arbitrary: p) (auto split: list.splits if_splits)

lemma splitAt_plain: "sep \<notin> set s \<Longrightarrow> splitAt sep s = [s]"
  by (induction s) auto

lemma splitAt_append: "sep \<notin> set s \<Longrightarrow> splitAt sep (s @ sep # t) = s # splitAt sep t"
  by (induction s) auto

text \<open>\<open>strings.Join\<close> with the separator undoes \<open>strings.Split\<close>.\<close>

lemma joinStrings_Cons: "ps \<noteq> [] \<Longrightarrow> joinStrings sep (p # ps) = p @ sep @ joinStrings sep ps"
  by (cases ps) auto

lemma join_splitAt: "joinStrings [sep] (splitAt sep s) = s"
proof (induction s)
  case (Cons c s)
  obtain p ps where s: "splitAt sep s = p # ps" using splitAt_ne by (cases "splitAt sep s") blast+
  have "joinStrings [sep] ((c # p) # ps) = c # joinStrings [sep] (p # ps)" by (cases ps) auto
  with Cons s show ?case by (auto simp: joinStrings_Cons)
qed simp

lemma splitAt_join:
  "ps \<noteq> [] \<Longrightarrow> (\<And>p. p \<in> set ps \<Longrightarrow> sep \<notin> set p) \<Longrightarrow> splitAt sep (joinStrings [sep] ps) = ps"
  by (induction "[sep]" ps rule: joinStrings.induct) (auto simp: splitAt_append splitAt_plain)

end
