(* ===== verification/Clock.thy ===== *)
theory Clock
  imports Calendar GoText "HOL-Library.Signed_Division"
begin

text \<open>
  Go's \<open>time.Time\<close> read in a location, and the \<open>Time\<close> and \<open>Calendar\<close> functions of
  \<open>internal/backend/golang/ahdruntime/ahdruntime.go\<close>: an instant is broken into civil fields, which
  are validated and made into an instant again. An error is the class that is raised and its message.
\<close>


subsection \<open>Instants in a location\<close>

abbreviation second :: int where "second \<equiv> 1000000000"
abbreviation minute :: int where "minute \<equiv> 60 * second"
abbreviation hour :: int where "hour \<equiv> 3600 * second"
abbreviation day :: int where "day \<equiv> 86400 * second"

definition FixedZone :: "int \<Rightarrow> location" where
  "FixedZone offset = (\<lambda>_. offset)"

text \<open>What a clock in the location shows, in nanoseconds since the beginning of year 1.\<close>

definition wall :: "location \<Rightarrow> instant \<Rightarrow> int" where
  "wall loc t = t + second * loc (t div second)"

definition timeNanosecond :: "location \<Rightarrow> instant \<Rightarrow> int" where
  "timeNanosecond loc t = wall loc t mod second"
definition timeSecond :: "location \<Rightarrow> instant \<Rightarrow> int" where
  "timeSecond loc t = wall loc t div second mod 60"
definition timeMinute :: "location \<Rightarrow> instant \<Rightarrow> int" where
  "timeMinute loc t = wall loc t div minute mod 60"
definition timeHour :: "location \<Rightarrow> instant \<Rightarrow> int" where
  "timeHour loc t = wall loc t div hour mod 24"
definition timeDay :: "location \<Rightarrow> instant \<Rightarrow> int" where
  "timeDay loc t = dayOf (wall loc t div day)"
definition timeMonth :: "location \<Rightarrow> instant \<Rightarrow> int" where
  "timeMonth loc t = monthOf (wall loc t div day)"
definition timeYear :: "location \<Rightarrow> instant \<Rightarrow> int" where
  "timeYear loc t = yearOf (wall loc t div day)"
definition timeWeekday :: "location \<Rightarrow> instant \<Rightarrow> int" where
  "timeWeekday loc t = weekdayOf (wall loc t div day)"

text \<open>
  \<open>time.Date\<close> looks up the offset at the reading taken as UTC, and, unless that offset is zero, the
  offset at the instant it gives.
\<close>

definition timeDate ::
  "location \<Rightarrow> int \<Rightarrow> int \<Rightarrow> int \<Rightarrow> int \<Rightarrow> int \<Rightarrow> int \<Rightarrow> int \<Rightarrow> instant" where
  "timeDate loc y mo d h mi s ns =
    (let w = dayNumber y mo d * day + h * hour + mi * minute + s * second + ns;
         offset = loc (w div second);
         offset = (if offset = 0 then 0 else loc (w div second - offset))
     in w - second * offset)"

text \<open>Milliseconds since 1970, as \<open>Time.UnixMilli\<close> and \<open>time.UnixMilli\<close> count.\<close>

definition unixEpoch :: instant where
  "unixEpoch = dayNumber 1970 1 1 * day"

definition toUnixMilli :: "instant \<Rightarrow> int" where
  "toUnixMilli t = (t - unixEpoch) div 1000000"

definition fromUnixMilli :: "int \<Rightarrow> instant" where
  "fromUnixMilli ms = unixEpoch + ms * 1000000"

subsection \<open>Civil fields\<close>

record AhdCivilTime =
  CivilYear :: int
  CivilMonth :: int
  CivilDay :: int
  CivilHour :: int
  CivilMinute :: int
  CivilSecond :: int
  CivilMillisecond :: int
  CivilWeekday :: int
  OffsetMinutes :: int
  OffsetSeconds :: int

definition ahdCivilFrom :: "location \<Rightarrow> instant \<Rightarrow> raised + AhdCivilTime" where
  "ahdCivilFrom loc value =
    (if timeYear loc value < 1 \<or> timeYear loc value > 9999
     then Inl (''ValueError'', ''instant is outside the supported DateTime range'')
     else
       (let weekday = timeWeekday loc value;
            weekday = (if weekday = 0 then 7 else weekday);
            offsetSeconds = loc (value div second)
        in Inr \<lparr>CivilYear = timeYear loc value, CivilMonth = timeMonth loc value,
             CivilDay = timeDay loc value, CivilHour = timeHour loc value,
             CivilMinute = timeMinute loc value, CivilSecond = timeSecond loc value,
             CivilMillisecond = timeNanosecond loc value div 1000000, CivilWeekday = weekday,
             OffsetMinutes = offsetSeconds sdiv 60, OffsetSeconds = offsetSeconds smod 60\<rparr>))"

definition ahdRequireRange :: "int \<Rightarrow> int \<Rightarrow> int \<Rightarrow> string \<Rightarrow> raised option" where
  "ahdRequireRange value low high name =
    (if value < low \<or> value > high
     then Some (''ValueError'', name @ '' '' @ FormatInt value @ '' is outside '' @ FormatInt low
       @ ''..'' @ FormatInt high)
     else None)"

definition ahdRequireOffset :: "int \<Rightarrow> raised option" where
  "ahdRequireOffset offsetMinutes = ahdRequireRange offsetMinutes (- 840) 840 ''offsetMinutes''"

text \<open>The checks of a function in their order; the first that fails is raised.\<close>

fun checked :: "raised option list \<Rightarrow> 'a \<Rightarrow> raised + 'a" where
  "checked [] result = Inr result"
| "checked (None # checks) result = checked checks result"
| "checked (Some r # checks) result = Inl r"

definition isLeapYear :: "int \<Rightarrow> bool" where
  "isLeapYear year = (year smod 4 = 0 \<and> (year smod 100 \<noteq> 0 \<or> year smod 400 = 0))"

definition AhdCalendarIsLeapYear :: "int \<Rightarrow> raised + bool" where
  "AhdCalendarIsLeapYear year = checked [ahdRequireRange year 1 9999 ''year''] (isLeapYear year)"

definition daysInMonth :: "int \<Rightarrow> int \<Rightarrow> int" where
  "daysInMonth year month =
    (if month \<in> {1, 3, 5, 7, 8, 10, 12} then 31
     else if month \<in> {4, 6, 9, 11} then 30
     else if isLeapYear year then 29 else 28)"

definition AhdCalendarDaysInMonth :: "int \<Rightarrow> int \<Rightarrow> raised + int" where
  "AhdCalendarDaysInMonth year month =
    checked [ahdRequireRange year 1 9999 ''year'', ahdRequireRange month 1 12 ''month'']
      (daysInMonth year month)"

definition ahdTimeCivilIn ::
  "location \<Rightarrow> int \<Rightarrow> int \<Rightarrow> int \<Rightarrow> int \<Rightarrow> int \<Rightarrow> int \<Rightarrow> int \<Rightarrow> raised + AhdCivilTime" where
  "ahdTimeCivilIn loc y mo d h mi s ms =
    (case checked [ahdRequireRange y 1 9999 ''year'', ahdRequireRange mo 1 12 ''month''] () of
       Inl r \<Rightarrow> Inl r
     | Inr _ \<Rightarrow>
         (case AhdCalendarDaysInMonth y mo of
            Inl r \<Rightarrow> Inl r
          | Inr days \<Rightarrow>
              (case checked [ahdRequireRange d 1 days ''day'', ahdRequireRange h 0 23 ''hour'',
                   ahdRequireRange mi 0 59 ''minute'', ahdRequireRange s 0 59 ''second'',
                   ahdRequireRange ms 0 999 ''millisecond''] () of
                 Inl r \<Rightarrow> Inl r
               | Inr _ \<Rightarrow> ahdCivilFrom loc (timeDate loc y mo d h mi s (ms * 1000000)))))"

text \<open>\<open>local\<close> is the host's zone, \<open>time.Local\<close>.\<close>

definition AhdTimeCivil ::
  "location \<Rightarrow> int \<Rightarrow> int \<Rightarrow> int \<Rightarrow> int \<Rightarrow> int \<Rightarrow> int \<Rightarrow> int \<Rightarrow> raised + AhdCivilTime" where
  "AhdTimeCivil local = ahdTimeCivilIn local"

definition AhdTimeCivilUTC ::
  "int \<Rightarrow> int \<Rightarrow> int \<Rightarrow> int \<Rightarrow> int \<Rightarrow> int \<Rightarrow> int \<Rightarrow> raised + AhdCivilTime" where
  "AhdTimeCivilUTC = ahdTimeCivilIn (FixedZone 0)"

definition AhdTimeCivilOffset ::
  "int \<Rightarrow> int \<Rightarrow> int \<Rightarrow> int \<Rightarrow> int \<Rightarrow> int \<Rightarrow> int \<Rightarrow> int \<Rightarrow> raised + AhdCivilTime" where
  "AhdTimeCivilOffset y mo d offsetMinutes h mi s ms =
    (case ahdRequireOffset offsetMinutes of
       Some r \<Rightarrow> Inl r
     | None \<Rightarrow> ahdTimeCivilIn (FixedZone (offsetMinutes * 60)) y mo d h mi s ms)"

definition AhdCalendarWeekday :: "location \<Rightarrow> int \<Rightarrow> int \<Rightarrow> int \<Rightarrow> raised + int" where
  "AhdCalendarWeekday local y mo d = map_sum id CivilWeekday (AhdTimeCivil local y mo d 0 0 0 0)"

definition ahdInstant ::
  "int \<Rightarrow> int \<Rightarrow> int \<Rightarrow> int \<Rightarrow> int \<Rightarrow> int \<Rightarrow> int \<Rightarrow> int \<Rightarrow> int \<Rightarrow> raised + instant" where
  "ahdInstant y mo d h mi s ms offsetMinutes offsetSeconds =
    checked [ahdRequireOffset offsetMinutes]
      (timeDate (FixedZone (offsetMinutes * 60 + offsetSeconds)) y mo d h mi s (ms * 1000000))"

definition AhdTimeInstantCivil :: "AhdCivilTime \<Rightarrow> raised + instant" where
  "AhdTimeInstantCivil c =
    ahdInstant (CivilYear c) (CivilMonth c) (CivilDay c) (CivilHour c) (CivilMinute c) (CivilSecond c)
      (CivilMillisecond c) (OffsetMinutes c) (OffsetSeconds c)"

definition AhdTimeCompare :: "instant \<Rightarrow> instant \<Rightarrow> int" where
  "AhdTimeCompare left right = (if left < right then -1 else if left > right then 1 else 0)"

definition AhdTimeFromTimestamp :: "int \<Rightarrow> raised + AhdCivilTime" where
  "AhdTimeFromTimestamp milliseconds =
    (let value = fromUnixMilli milliseconds
     in if timeYear (FixedZone 0) value < 1 \<or> timeYear (FixedZone 0) value > 9999
        then Inl (''ValueError'', ''timestamp is outside the supported DateTime range'')
        else ahdCivilFrom (FixedZone 0) value)"

definition AhdTimeToUTC :: "instant \<Rightarrow> raised + AhdCivilTime" where
  "AhdTimeToUTC value = ahdCivilFrom (FixedZone 0) value"

definition AhdTimeToLocal :: "location \<Rightarrow> instant \<Rightarrow> raised + AhdCivilTime" where
  "AhdTimeToLocal local value = ahdCivilFrom local value"

definition AhdTimeToOffset :: "instant \<Rightarrow> int \<Rightarrow> raised + AhdCivilTime" where
  "AhdTimeToOffset value offsetMinutes =
    (case ahdRequireOffset offsetMinutes of
       Some r \<Rightarrow> Inl r
     | None \<Rightarrow> ahdCivilFrom (FixedZone (offsetMinutes * 60)) value)"

definition AhdTimeDifference :: "instant \<Rightarrow> instant \<Rightarrow> int" where
  "AhdTimeDifference first second' = toUnixMilli second' - toUnixMilli first"

definition ahdPad :: "int \<Rightarrow> nat \<Rightarrow> string" where
  "ahdPad value width =
    (let txt = FormatInt value in replicate (width - length txt) CHR ''0'' @ txt)"

definition AhdTimeText :: "int \<Rightarrow> int \<Rightarrow> int \<Rightarrow> int \<Rightarrow> int \<Rightarrow> int \<Rightarrow> string" where
  "AhdTimeText y mo d h mi s = ahdPad y 4 @ ''-'' @ ahdPad mo 2 @ ''-'' @ ahdPad d 2 @ '' ''
     @ ahdPad h 2 @ '':'' @ ahdPad mi 2 @ '':'' @ ahdPad s 2"


definition AhdTimeCivilText :: "AhdCivilTime \<Rightarrow> string" where
  "AhdTimeCivilText c = AhdTimeText (CivilYear c) (CivilMonth c) (CivilDay c) (CivilHour c)
     (CivilMinute c) (CivilSecond c)"

subsection \<open>Readings and dates\<close>

lemma div_steps:
  fixes w :: int
  shows "w div minute = w div second div 60" "w div hour = w div minute div 60"
    "w div day = w div hour div 24"
  by (simp_all add: zdiv_zmult2_eq [symmetric])

lemma wall_join:
  "w div day * day + w div hour mod 24 * hour + w div minute mod 60 * minute
    + w div second mod 60 * second + w mod second = w"
proof -
  have "w = w div second * second + w mod second" by simp
  moreover have "w div second = w div minute * 60 + w div second mod 60"
    unfolding div_steps(1) by (simp only: div_mult_mod_eq)
  moreover have "w div minute = w div hour * 60 + w div minute mod 60"
    unfolding div_steps(2) by (simp only: div_mult_mod_eq)
  moreover have "w div hour = w div day * 24 + w div hour mod 24"
    unfolding div_steps(3) by (simp only: div_mult_mod_eq)
  ultimately show ?thesis by linarith
qed

lemma div_mod_of: "(w::int) = q * m + r \<Longrightarrow> 0 \<le> r \<Longrightarrow> r < m \<Longrightarrow> w div m = q \<and> w mod m = r"
  using int_div_pos_eq [of w m q r] int_mod_pos_eq [of w m q r] by (simp add: mult.commute)

lemma wall_readings:
  assumes "0 \<le> h" "h \<le> 23" "0 \<le> mi" "mi \<le> 59" "0 \<le> s" "s \<le> 59" "0 \<le> ns" "ns < second"
    and "w = n * day + h * hour + mi * minute + s * second + ns"
  shows "w div day = n" "w div hour mod 24 = h" "w div minute mod 60 = mi"
    "w div second mod 60 = s" "w mod second = ns"
proof -
  have "w div second = ((n * 24 + h) * 60 + mi) * 60 + s \<and> w mod second = ns"
    by (rule div_mod_of) (use assms(9) in \<open>simp only: distrib_right mult.assoc, simp\<close>, use assms(7,8) in simp_all)
  then have 1: "w div second = ((n * 24 + h) * 60 + mi) * 60 + s" "w mod second = ns" by simp_all
  have "w div second div 60 = (n * 24 + h) * 60 + mi \<and> w div second mod 60 = s"
    by (rule div_mod_of) (use 1(1) assms(5,6) in simp_all)
  then have 2: "w div minute = (n * 24 + h) * 60 + mi" "w div second mod 60 = s"
    by (simp_all only: div_steps(1))
  have "w div minute div 60 = n * 24 + h \<and> w div minute mod 60 = mi"
    by (rule div_mod_of) (use 2(1) assms(3,4) in simp_all)
  then have 3: "w div hour = n * 24 + h" "w div minute mod 60 = mi" by (simp_all only: div_steps(2))
  have "w div hour div 24 = n \<and> w div hour mod 24 = h"
    by (rule div_mod_of) (use 3(1) assms(1,2) in simp_all)
  then have 4: "w div day = n" "w div hour mod 24 = h" by (simp_all only: div_steps(3))
  show "w div day = n" "w div hour mod 24 = h" "w div minute mod 60 = mi"
    "w div second mod 60 = s" "w mod second = ns" by (fact 4 3(2) 2(2) 1(2))+
qed

lemma FixedZone_apply: "FixedZone offset t = offset"
  by (simp add: FixedZone_def)

lemma timeDate_fixed:
  "timeDate (FixedZone offset) y mo d h mi s ns =
     dayNumber y mo d * day + h * hour + mi * minute + s * second + ns - second * offset"
  by (simp add: timeDate_def FixedZone_def Let_def)

lemma wall_fixed: "wall (FixedZone offset) t = t + second * offset"
  by (simp add: wall_def FixedZone_def)

lemma daysInMonth_length:
  assumes "1 \<le> year" "1 \<le> month" "month \<le> 12"
  shows "daysInMonth year month = monthLength year month"
proof -
  have leap: "isLeapYear year = isLeap year"
    using assms(1) by (simp add: isLeapYear_def isLeap_def smod_mod_positive)
  have "month \<in> {1, 2, 3, 4, 5, 6, 7, 8, 9, 10, 11, 12}" using assms by (simp, presburger)
  then show ?thesis
    by (auto simp: daysInMonth_def leap monthLength_def monthStart_def monthStarts_def)
qed

lemma dateOf_month: "1 \<le> monthOf n" "monthOf n \<le> 12"
  using dateOf_valid [of n] by (auto simp: validDate_def)


definition civilOf :: "location \<Rightarrow> instant \<Rightarrow> AhdCivilTime" where
  "civilOf loc value =
    \<lparr>CivilYear = timeYear loc value, CivilMonth = timeMonth loc value,
     CivilDay = timeDay loc value, CivilHour = timeHour loc value,
     CivilMinute = timeMinute loc value, CivilSecond = timeSecond loc value,
     CivilMillisecond = timeNanosecond loc value div 1000000,
     CivilWeekday = (if timeWeekday loc value = 0 then 7 else timeWeekday loc value),
     OffsetMinutes = loc (value div second) sdiv 60, OffsetSeconds = loc (value div second) smod 60\<rparr>"

subsection \<open>Properties\<close>

text \<open>
  C31: A date and time survives its civil form. Breaking an instant into fields in any location
  fails only for a year outside 1 to 9999; otherwise the date is one of the calendar, and putting the
  fields together again gives the instant itself, cut to its millisecond, also where the offset is not
  a whole number of minutes. It fails only for an offset beyond fourteen hours.
\<close>

theorem civil_round_trip:
  "case ahdCivilFrom loc value of
     Inl _ \<Rightarrow> timeYear loc value \<notin> {1..9999}
   | Inr c \<Rightarrow> timeYear loc value \<in> {1..9999} \<and> validDate (CivilYear c) (CivilMonth c) (CivilDay c) \<and>
       (case AhdTimeInstantCivil c of
          Inl _ \<Rightarrow> OffsetMinutes c \<notin> {-840..840}
        | Inr t \<Rightarrow> OffsetMinutes c \<in> {-840..840} \<and> t = value - value mod 1000000)"
proof (cases "timeYear loc value \<in> {1..9999}")
  case True
  let ?w = "wall loc value" and ?o = "loc (value div second)"
  have o: "?o sdiv 60 * 60 + ?o smod 60 = ?o" by (metis mult_sdiv_smod_eq mult.commute)
  have "?w mod second div 1000000 * 1000000 = ?w mod second - ?w mod second mod 1000000"
    by (simp only: minus_mod_eq_div_mult)
  moreover have "?w mod second mod 1000000 = ?w mod 1000000" by (rule mod_mod_cancel) simp
  moreover have "?w mod 1000000 = value mod 1000000"
  proof -
    have "?w = value + 1000000 * (1000 * ?o)" by (simp add: wall_def)
    then show ?thesis by (simp only: mod_mult_self2)
  qed
  ultimately have "timeDate (FixedZone (?o sdiv 60 * 60 + ?o smod 60)) (timeYear loc value) (timeMonth loc value)
      (timeDay loc value) (timeHour loc value) (timeMinute loc value) (timeSecond loc value)
      (timeNanosecond loc value div 1000000 * 1000000)
    = value - value mod 1000000"
    using wall_join [of ?w]
    unfolding o timeDate_fixed timeYear_def timeMonth_def timeDay_def timeHour_def timeMinute_def
      timeSecond_def timeNanosecond_def dayNumber_dateOf
    by (simp add: wall_def)
  then have t: "AhdTimeInstantCivil (civilOf loc value)
      = checked [ahdRequireOffset (?o sdiv 60)] (value - value mod 1000000)"
    by (simp add: AhdTimeInstantCivil_def ahdInstant_def civilOf_def)
  have c: "ahdCivilFrom loc value = Inr (civilOf loc value)"
    using True by (auto simp: ahdCivilFrom_def civilOf_def Let_def)
  have "validDate (CivilYear (civilOf loc value)) (CivilMonth (civilOf loc value)) (CivilDay (civilOf loc value))"
    using dateOf_valid by (simp add: civilOf_def timeYear_def timeMonth_def timeDay_def)
  with c t True show ?thesis
    by (cases "ahdRequireOffset (?o sdiv 60)")
      (auto simp: civilOf_def ahdRequireOffset_def ahdRequireRange_def split: if_splits)
qed (auto simp: ahdCivilFrom_def)

lemma require_range [simp]:
  "ahdRequireRange v low high name = None \<longleftrightarrow> v \<in> {low..high}"
  by (auto simp: ahdRequireRange_def)

lemma checked_Inr [simp]: "checked cs x = Inr y \<longleftrightarrow> list_all (\<lambda>c. c = None) cs \<and> x = y"
  by (induction cs x rule: checked.induct) auto

definition civilRange :: "int \<Rightarrow> int \<Rightarrow> int \<Rightarrow> int \<Rightarrow> int \<Rightarrow> int \<Rightarrow> int \<Rightarrow> bool" where
  "civilRange y mo d h mi s ms \<longleftrightarrow> y \<in> {1..9999} \<and> validDate y mo d \<and> h \<in> {0..23} \<and> mi \<in> {0..59}
     \<and> s \<in> {0..59} \<and> ms \<in> {0..999}"

lemma civilRange_checks:
  "civilRange y mo d h mi s ms \<longleftrightarrow>
     ahdRequireRange y 1 9999 ''year'' = None \<and> ahdRequireRange mo 1 12 ''month'' = None
   \<and> ahdRequireRange d 1 (daysInMonth y mo) ''day'' = None \<and> ahdRequireRange h 0 23 ''hour'' = None
   \<and> ahdRequireRange mi 0 59 ''minute'' = None \<and> ahdRequireRange s 0 59 ''second'' = None
   \<and> ahdRequireRange ms 0 999 ''millisecond'' = None"
  by (cases "1 \<le> y \<and> 1 \<le> mo \<and> mo \<le> 12")
    (auto simp: civilRange_def validDate_def daysInMonth_length)

lemma ahdTimeCivilIn_accepts:
  "civilRange y mo d h mi s ms \<and>
     ahdTimeCivilIn loc y mo d h mi s ms = ahdCivilFrom loc (timeDate loc y mo d h mi s (ms * 1000000))
   \<or> \<not> civilRange y mo d h mi s ms \<and> (\<exists>r. ahdTimeCivilIn loc y mo d h mi s ms = Inl r)"
proof (cases "ahdRequireRange y 1 9999 ''year'' = None \<and> ahdRequireRange mo 1 12 ''month'' = None")
  case True
  then have days: "AhdCalendarDaysInMonth y mo = Inr (daysInMonth y mo)"
    by (simp only: AhdCalendarDaysInMonth_def checked_Inr) simp
  have first: "checked [ahdRequireRange y 1 9999 ''year'', ahdRequireRange mo 1 12 ''month''] () = Inr ()"
    using True by (simp only: checked_Inr) simp
  let ?cs = "[ahdRequireRange d 1 (daysInMonth y mo) ''day'', ahdRequireRange h 0 23 ''hour'',
    ahdRequireRange mi 0 59 ''minute'', ahdRequireRange s 0 59 ''second'',
    ahdRequireRange ms 0 999 ''millisecond'']"
  show ?thesis
  proof (cases "checked ?cs ()")
    case (Inl r)
    then have "\<not> civilRange y mo d h mi s ms"
      using checked_Inr [of ?cs "()" "()"] by (simp add: civilRange_checks del: require_range)
    then show ?thesis using Inl by (simp add: ahdTimeCivilIn_def first days del: checked.simps)
  next
    case (Inr u)
    then have "civilRange y mo d h mi s ms"
      using True by (simp add: civilRange_checks del: require_range)
    then show ?thesis
      using Inr by (simp add: ahdTimeCivilIn_def first days del: checked.simps checked_Inr)
  qed
next
  case False
  then obtain r where "checked [ahdRequireRange y 1 9999 ''year'', ahdRequireRange mo 1 12 ''month''] () = Inl r"
    by (cases "ahdRequireRange y 1 9999 ''year''"; cases "ahdRequireRange mo 1 12 ''month''") auto
  moreover have "\<not> civilRange y mo d h mi s ms" using False by (simp only: civilRange_checks) blast
  ultimately show ?thesis by (simp add: ahdTimeCivilIn_def del: checked.simps)
qed

lemma weekday_shift: "(if weekdayOf n = 0 then 7 else weekdayOf n) = n mod 7 + 1"
proof (cases "n mod 7 = 6")
  case True
  then have "n + 1 = (n div 7 + 1) * 7 + 0" using mult_div_mod_eq [of 7 n] by simp
  from div_mod_of [OF this] have "(n + 1) mod 7 = 0" by simp
  then show ?thesis using True by (simp add: weekdayOf_def)
next
  case False
  then have "0 \<le> n mod 7 + 1" "n mod 7 + 1 < 7"
    using pos_mod_bound [of 7 n] pos_mod_sign [of 7 n] by linarith+
  moreover have "n + 1 = n div 7 * 7 + (n mod 7 + 1)" using div_mult_mod_eq [of n 7] by linarith
  ultimately have "(n + 1) mod 7 = n mod 7 + 1" using div_mod_of by blast
  moreover have "n mod 7 + 1 \<noteq> 0" using pos_mod_sign [of 7 n] by linarith
  ultimately show ?thesis by (simp add: weekdayOf_def)
qed

lemma civil_fields:
  assumes "civilRange y mo d h mi s ms"
  shows "ahdCivilFrom (FixedZone (offset * 60)) (timeDate (FixedZone (offset * 60)) y mo d h mi s (ms * 1000000))
   = Inr \<lparr>CivilYear = y, CivilMonth = mo, CivilDay = d, CivilHour = h, CivilMinute = mi,
       CivilSecond = s, CivilMillisecond = ms, CivilWeekday = dayNumber y mo d mod 7 + 1,
       OffsetMinutes = offset, OffsetSeconds = 0\<rparr>"
proof -
  let ?z = "FixedZone (offset * 60)"
  let ?t = "timeDate ?z y mo d h mi s (ms * 1000000)"
  have v: "validDate y mo d" and y: "\<not> (y < 1 \<or> y > 9999)" using assms by (auto simp: civilRange_def)
  have bounds: "0 \<le> h" "h \<le> 23" "0 \<le> mi" "mi \<le> 59" "0 \<le> s" "s \<le> 59" "0 \<le> ms * 1000000"
    "ms * 1000000 < second"
    using assms by (auto simp: civilRange_def)
  have "wall ?z ?t = dayNumber y mo d * day + h * hour + mi * minute + s * second + ms * 1000000"
    by (simp only: wall_fixed timeDate_fixed diff_add_cancel)
  note wall_readings [OF bounds this]
  then have readings: "timeYear ?z ?t = y" "timeMonth ?z ?t = mo" "timeDay ?z ?t = d" "timeHour ?z ?t = h"
    "timeMinute ?z ?t = mi" "timeSecond ?z ?t = s" "timeNanosecond ?z ?t = ms * 1000000"
    "timeWeekday ?z ?t = weekdayOf (dayNumber y mo d)"
    by (simp_all only: timeYear_def timeMonth_def timeDay_def timeHour_def timeMinute_def timeSecond_def
        timeNanosecond_def timeWeekday_def dateOf_dayNumber [OF v])
  have parts: "(offset * 60) sdiv 60 = offset" "(offset * 60) smod 60 = 0"
    by (simp_all add: signed_divide_int_def signed_modulo_int_def sgn_mult abs_mult mult_sgn_abs)
  show ?thesis
    unfolding ahdCivilFrom_def Let_def readings weekday_shift if_not_P [OF y] FixedZone_apply parts by simp
qed

text \<open>
  Civil fields are validated exactly. A date and time at a fixed offset is accepted if and only
  if every field is in its range and the day exists in its month, and then all its fields are kept, the
  offset included, with the weekday of that day.
\<close>

theorem civil_fields_are_kept:
  "case AhdTimeCivilOffset y mo d offset h mi s ms of
     Inl _ \<Rightarrow> \<not> (offset \<in> {-840..840} \<and> y \<in> {1..9999} \<and> validDate y mo d \<and> h \<in> {0..23} \<and> mi \<in> {0..59}
       \<and> s \<in> {0..59} \<and> ms \<in> {0..999})
   | Inr c \<Rightarrow> offset \<in> {-840..840} \<and> y \<in> {1..9999} \<and> validDate y mo d \<and> h \<in> {0..23} \<and> mi \<in> {0..59}
       \<and> s \<in> {0..59} \<and> ms \<in> {0..999}
       \<and> c = \<lparr>CivilYear = y, CivilMonth = mo, CivilDay = d, CivilHour = h, CivilMinute = mi,
           CivilSecond = s, CivilMillisecond = ms, CivilWeekday = dayNumber y mo d mod 7 + 1,
           OffsetMinutes = offset, OffsetSeconds = 0\<rparr>"
proof (cases "ahdRequireOffset offset")
  case None
  then have "offset \<in> {-840..840}" by (simp add: ahdRequireOffset_def)
  moreover have "AhdTimeCivilOffset y mo d offset h mi s ms = ahdTimeCivilIn (FixedZone (offset * 60)) y mo d h mi s ms"
    by (simp add: AhdTimeCivilOffset_def None)
  ultimately show ?thesis
    using ahdTimeCivilIn_accepts [of y mo d h mi s ms "FixedZone (offset * 60)"]
  proof (elim disjE conjE exE)
    assume r: "civilRange y mo d h mi s ms"
    note civil_fields [OF this, of offset]
    moreover assume "ahdTimeCivilIn (FixedZone (offset * 60)) y mo d h mi s ms =
      ahdCivilFrom (FixedZone (offset * 60)) (timeDate (FixedZone (offset * 60)) y mo d h mi s (ms * 1000000))"
    ultimately show ?thesis
      using r \<open>offset \<in> {-840..840}\<close> \<open>AhdTimeCivilOffset y mo d offset h mi s ms = _\<close>
      by (simp only: sum.case civilRange_def simp_thms)
  next
    fix r assume "ahdTimeCivilIn (FixedZone (offset * 60)) y mo d h mi s ms = Inl r"
    moreover assume "\<not> civilRange y mo d h mi s ms"
    ultimately show ?thesis
      using \<open>AhdTimeCivilOffset y mo d offset h mi s ms = _\<close>
      by (simp only: sum.case civilRange_def simp_thms)
  qed
next
  case (Some r)
  then have "offset \<notin> {-840..840}" by (metis ahdRequireOffset_def option.distinct(1) require_range)
  then show ?thesis by (simp only: AhdTimeCivilOffset_def Some option.case sum.case simp_thms)
qed

end
