(* ===== verification/Cron.thy ===== *)
theory Cron
  imports Clock
begin

text \<open>
  The \<open>Cron\<close> module of the runtime (\<open>internal/backend/golang/ahdruntime/cron.go\<close>): the parser of
  five-field schedules and the search for the next occurrence. \<open>quote\<close> stands for Go's
  \<open>strconv.Quote\<close>, which only words the messages.
\<close>

subsection \<open>Schedules\<close>

record ahdCronField =
  fieldName :: string
  fieldLow :: nat
  fieldHigh :: nat

definition ahdCronFields :: "ahdCronField list" where
  "ahdCronFields =
    [\<lparr>fieldName = ''minute'', fieldLow = 0, fieldHigh = 59\<rparr>,
     \<lparr>fieldName = ''hour'', fieldLow = 0, fieldHigh = 23\<rparr>,
     \<lparr>fieldName = ''day-of-month'', fieldLow = 1, fieldHigh = 31\<rparr>,
     \<lparr>fieldName = ''month'', fieldLow = 1, fieldHigh = 12\<rparr>,
     \<lparr>fieldName = ''day-of-week'', fieldLow = 0, fieldHigh = 7\<rparr>]"

definition ahdCronMonthDays :: "nat list" where
  "ahdCronMonthDays = [0, 31, 29, 31, 30, 31, 30, 31, 31, 30, 31, 30, 31]"

record ahdCronSchedule =
  cronMinutes :: "bool list"
  cronHours :: "bool list"
  cronDays :: "bool list"
  cronMonths :: "bool list"
  cronWeekdays :: "bool list"
  daysStar :: bool
  weekdaysStar :: bool

text \<open>A computation that may raise continues with its result.\<close>

definition bindE :: "raised + 'a \<Rightarrow> ('a \<Rightarrow> raised + 'b) \<Rightarrow> raised + 'b" where
  "bindE outcome continue = case_sum Inl continue outcome"

lemma bindE_Inr [simp]: "bindE outcome continue = Inr y \<longleftrightarrow> (\<exists>x. outcome = Inr x \<and> continue x = Inr y)"
  by (cases outcome) (auto simp: bindE_def)

subsection \<open>One field\<close>

definition invalidField :: "(string \<Rightarrow> string) \<Rightarrow> ahdCronField \<Rightarrow> string \<Rightarrow> string" where
  "invalidField quote field txt =
    fieldName field @ '' field '' @ quote txt @ '' is not a number, range, step, or list''"

text \<open>
  \<open>number\<close>: plain decimal digits; \<^const>\<open>None\<close> is a value too long to mean anything.
\<close>

definition cronNumber ::
  "(string \<Rightarrow> string) \<Rightarrow> (string \<Rightarrow> raised) \<Rightarrow> ahdCronField \<Rightarrow> string \<Rightarrow> string \<Rightarrow> raised + nat option" where
  "cronNumber quote fail field txt digits =
    (if digits = '''' then Inl (fail (invalidField quote field txt))
     else if \<not> list_all isDecimal digits then Inl (fail (invalidField quote field txt))
     else if length digits > 9 then Inr None
     else Inr (Some (digitsValue digits)))"

definition cronValue ::
  "(string \<Rightarrow> string) \<Rightarrow> (string \<Rightarrow> raised) \<Rightarrow> ahdCronField \<Rightarrow> string \<Rightarrow> string \<Rightarrow> raised + nat" where
  "cronValue quote fail field txt digits =
    bindE (cronNumber quote fail field txt digits) (\<lambda>parsed.
      let bounds = FormatInt (int (fieldLow field)) @ ''..'' @ FormatInt (int (fieldHigh field));
          outside = Inl (fail (fieldName field @ '' value '' @ digits @ '' is outside '' @ bounds))
      in case parsed of
           None \<Rightarrow> outside
         | Some v \<Rightarrow> if v < fieldLow field \<or> v > fieldHigh field then outside else Inr v)"

definition stepNeedsRange :: "ahdCronField \<Rightarrow> string" where
  "stepNeedsRange field = fieldName field @ '' step needs a range such as */5 or 0-30/5''"

text \<open>The bounds of one item of a list, before its step.\<close>

definition cronRange ::
  "(string \<Rightarrow> string) \<Rightarrow> (string \<Rightarrow> raised) \<Rightarrow> ahdCronField \<Rightarrow> string \<Rightarrow> string \<Rightarrow> bool \<Rightarrow> raised + nat \<times> nat"
where
  "cronRange quote fail field txt rangeText stepped =
    (if rangeText = ''*''
     then Inr (fieldLow field, if fieldName field = ''day-of-week'' then 6 else fieldHigh field)
     else
       (let (lowText, highText, isRange) = cutAt (CHR ''-'') rangeText
        in bindE (cronValue quote fail field txt lowText) (\<lambda>low.
           bindE (if isRange
                  then bindE (cronValue quote fail field txt highText) (\<lambda>high.
                    if low > high
                    then Inl (fail (fieldName field @ '' range '' @ rangeText @ '' runs backwards''))
                    else Inr high)
                  else Inr low) (\<lambda>high.
           if stepped \<and> \<not> isRange then Inl (fail (stepNeedsRange field)) else Inr (low, high)))))"

definition cronStep ::
  "(string \<Rightarrow> string) \<Rightarrow> (string \<Rightarrow> raised) \<Rightarrow> ahdCronField \<Rightarrow> string \<Rightarrow> nat \<Rightarrow> nat \<Rightarrow> string \<Rightarrow> bool
    \<Rightarrow> raised + nat" where
  "cronStep quote fail field txt low high stepText stepped =
    (if \<not> stepped then Inr 1
     else
       (let width = high - low
        in if width = 0 then Inl (fail (stepNeedsRange field))
           else bindE (cronNumber quote fail field txt stepText) (\<lambda>parsed.
             let outside = Inl (fail (fieldName field @ '' step '' @ stepText @ '' is outside 1..''
               @ FormatInt (int width)))
             in case parsed of
                  None \<Rightarrow> outside
                | Some v \<Rightarrow> if v < 1 \<or> v > width then outside else Inr v)))"

text \<open>
  The loop that sets every \<open>step\<close>-th value. The parser only passes positive steps, with a step of
  zero the loop of the code would not end.
\<close>

definition cronMark :: "ahdCronField \<Rightarrow> nat \<Rightarrow> bool list \<Rightarrow> bool list" where
  "cronMark field v set' =
    (if fieldName field = ''day-of-week'' then set'[v mod 7 := True] else set'[v := True])"

function cronMarkLoop :: "ahdCronField \<Rightarrow> nat \<Rightarrow> nat \<Rightarrow> nat \<Rightarrow> bool list \<Rightarrow> bool list" where
  "cronMarkLoop field high step current set' =
    (if current \<le> high \<and> 0 < step
     then cronMarkLoop field high step (current + step) (cronMark field current set')
     else set')"
  by pat_completeness auto
termination
  by (relation "measure (\<lambda>(field, high, step, current, set'). Suc high - current)") auto

declare cronMarkLoop.simps [simp del]

definition cronItem ::
  "(string \<Rightarrow> string) \<Rightarrow> (string \<Rightarrow> raised) \<Rightarrow> ahdCronField \<Rightarrow> string \<Rightarrow> string \<Rightarrow> bool list
    \<Rightarrow> raised + bool list" where
  "cronItem quote fail field txt item set' =
    (let (rangeText, stepText, stepped) = cutAt (CHR ''/'') item
     in bindE (cronRange quote fail field txt rangeText stepped) (\<lambda>(low, high).
        bindE (cronStep quote fail field txt low high stepText stepped) (\<lambda>step.
        Inr (cronMarkLoop field high step low set'))))"

primrec cronItems ::
  "(string \<Rightarrow> string) \<Rightarrow> (string \<Rightarrow> raised) \<Rightarrow> ahdCronField \<Rightarrow> string \<Rightarrow> string list \<Rightarrow> bool list
    \<Rightarrow> raised + bool list" where
  "cronItems quote fail field txt [] set' = Inr set'"
| "cronItems quote fail field txt (item # items) set' =
    bindE (cronItem quote fail field txt item set') (cronItems quote fail field txt items)"

definition ahdCronParseField ::
  "(string \<Rightarrow> string) \<Rightarrow> (string \<Rightarrow> raised) \<Rightarrow> ahdCronField \<Rightarrow> string \<Rightarrow> bool list \<Rightarrow> raised + bool list" where
  "ahdCronParseField quote fail field txt set' =
    cronItems quote fail field txt (splitAt (CHR '','') txt) set'"

subsection \<open>The whole expression\<close>

text \<open>Some selected day exists in some selected month.\<close>

definition cronPossible :: "bool list \<Rightarrow> bool list \<Rightarrow> bool" where
  "cronPossible months days =
    list_ex (\<lambda>month. months ! month \<and> list_ex (\<lambda>d. days ! d) [1..<ahdCronMonthDays ! month + 1]) [1..<13]"

definition ahdCronParse ::
  "(string \<Rightarrow> string) \<Rightarrow> string \<Rightarrow> string \<Rightarrow> string \<Rightarrow> raised + ahdCronSchedule" where
  "ahdCronParse quote errorClass operation expression =
    (let fail = (\<lambda>detail. (errorClass, operation @ '': schedule '' @ quote expression @ '' '' @ detail));
         fields = fieldsBy [CHR '' '', CHR 0x09] expression
     in if length fields = 0 then Inl (errorClass, operation @ '': the schedule is empty'')
        else if length fields \<noteq> 5 then
          Inl (fail (''has '' @ (if length fields = 1 then ''1 field''
              else FormatInt (int (length fields)) @ '' fields'')
            @ ''; expected 5 (minute hour day-of-month month day-of-week)''))
        else
          (let field = (\<lambda>i size. ahdCronParseField quote fail (ahdCronFields ! i) (fields ! i)
                 (replicate size False));
               starDays = HasPrefix (fields ! 2) ''*'';
               starWeekdays = HasPrefix (fields ! 4) ''*''
           in bindE (field 0 60) (\<lambda>minutes.
              bindE (field 1 24) (\<lambda>hours.
              bindE (field 2 32) (\<lambda>days.
              bindE (field 3 13) (\<lambda>months.
              bindE (field 4 7) (\<lambda>weekdays.
              if \<not> starDays \<and> starWeekdays \<and> \<not> cronPossible months days
              then Inl (fail ''can never run: none of its day-of-month values occurs in its months'')
              else Inr \<lparr>cronMinutes = minutes, cronHours = hours, cronDays = days,
                cronMonths = months, cronWeekdays = weekdays, daysStar = starDays,
                weekdaysStar = starWeekdays\<rparr>)))))))"

subsection \<open>The search for the next occurrence\<close>

definition dayMatches :: "ahdCronSchedule \<Rightarrow> int \<Rightarrow> int \<Rightarrow> bool" where
  "dayMatches s d weekday =
    (if daysStar s \<or> weekdaysStar s
     then cronDays s ! nat d \<and> cronWeekdays s ! nat weekday
     else cronDays s ! nat d \<or> cronWeekdays s ! nat weekday)"

definition ahdCronAdvance :: "instant \<Rightarrow> instant \<Rightarrow> instant" where
  "ahdCronAdvance current target = (if target > current then target else current + minute)"

primrec nextLoop :: "ahdCronSchedule \<Rightarrow> location \<Rightarrow> nat \<Rightarrow> instant \<Rightarrow> instant option" where
  "nextLoop s loc 0 candidate = None"
| "nextLoop s loc (Suc guard) candidate =
    (let y = timeYear loc candidate; mo = timeMonth loc candidate; d = timeDay loc candidate
     in if y > 9999 then None
        else if \<not> cronMonths s ! nat mo
        then nextLoop s loc guard (ahdCronAdvance candidate (timeDate loc y (mo + 1) 1 0 0 0 0))
        else if \<not> dayMatches s d (timeWeekday loc candidate)
        then nextLoop s loc guard (ahdCronAdvance candidate (timeDate loc y mo (d + 1) 0 0 0 0))
        else if \<not> cronHours s ! nat (timeHour loc candidate)
        then nextLoop s loc guard (candidate + (60 - timeMinute loc candidate) * minute)
        else if \<not> cronMinutes s ! nat (timeMinute loc candidate)
        then nextLoop s loc guard (candidate + minute)
        else Some candidate)"

definition cronNext ::
  "(string \<Rightarrow> string) \<Rightarrow> ahdCronSchedule \<Rightarrow> string \<Rightarrow> string \<Rightarrow> string \<Rightarrow> instant \<Rightarrow> location \<Rightarrow> raised + instant"
where
  "cronNext quote s errorClass operation expression after loc =
    (let candidate = after - timeSecond loc after * second - timeNanosecond loc after + minute
     in case nextLoop s loc 4000000 candidate of
          Some t \<Rightarrow> Inr t
        | None \<Rightarrow> Inl (errorClass, operation @ '': schedule '' @ quote expression
            @ '' has no occurrence before the year 10000''))"

text \<open>The location of \<open>after\<close> is given beside it.\<close>

definition AhdCronNextInstant ::
  "(string \<Rightarrow> string) \<Rightarrow> string \<Rightarrow> string \<Rightarrow> instant \<Rightarrow> location \<Rightarrow> raised + instant" where
  "AhdCronNextInstant quote errorClass expression after loc =
    bindE (ahdCronParse quote errorClass ''Cron.next'' expression) (\<lambda>s.
      cronNext quote s errorClass ''Cron.next'' expression after loc)"

definition AhdCronNext ::
  "(string \<Rightarrow> string) \<Rightarrow> string \<Rightarrow> string \<Rightarrow> AhdCivilTime \<Rightarrow> raised + AhdCivilTime" where
  "AhdCronNext quote errorClass expression after =
    bindE (AhdTimeInstantCivil after) (\<lambda>t.
      let loc = FixedZone (OffsetMinutes after * 60 + OffsetSeconds after)
      in bindE (AhdCronNextInstant quote errorClass expression t loc) (ahdCivilFrom loc))"

end
