(* ===== verification/CronProofs.thy ===== *)
theory CronProofs
  imports Cron
begin

text \<open>
  The parser of schedules accepts only schedules that can run (\<open>scheduleOk\<close>), and the search finds
  the first occurrence. In a zone with a fixed offset a candidate is a whole minute, and the search
  is a function \<open>nextMinute\<close> on the number of that minute; each of its steps skips only minutes that
  do not match, and the guard of the code is never reached.
\<close>

subsection \<open>What the parser accepts\<close>

definition markTarget :: "ahdCronField \<Rightarrow> nat \<Rightarrow> nat" where
  "markTarget field v = (if fieldName field = ''day-of-week'' then v mod 7 else v)"

lemma cronMark_eq: "cronMark field v set' = set'[markTarget field v := True]"
  by (simp add: cronMark_def markTarget_def)

text \<open>Marking only adds values.\<close>

definition marks :: "bool list \<Rightarrow> bool list \<Rightarrow> bool" where
  "marks xs ys \<longleftrightarrow> length ys = length xs \<and> (\<forall>i < length xs. xs ! i \<longrightarrow> ys ! i)"

lemma marks_refl [simp]: "marks xs xs"
  by (simp add: marks_def)

lemma marks_trans: "marks xs ys \<Longrightarrow> marks ys zs \<Longrightarrow> marks xs zs"
  by (simp add: marks_def)

lemma marks_mark: "marks xs (cronMark field v xs)"
  unfolding marks_def cronMark_eq by (metis length_list_update nth_list_update_eq nth_list_update_neq)

lemma marks_loop: "marks xs (cronMarkLoop field high step current xs)"
proof (induction field high step current xs rule: cronMarkLoop.induct)
  case (1 field high step current xs)
  then show ?case
    by (subst cronMarkLoop.simps) (auto intro: marks_trans marks_mark)
qed

lemma marks_low:
  assumes "low \<le> high" "0 < step" "markTarget field low < length xs"
  shows "cronMarkLoop field high step low xs ! markTarget field low"
proof -
  have "cronMarkLoop field high step low xs
      = cronMarkLoop field high step (low + step) (cronMark field low xs)"
    using assms by (simp add: cronMarkLoop.simps [of field high step low])
  moreover have "cronMark field low xs ! markTarget field low" using assms(3) by (simp add: cronMark_eq)
  ultimately show ?thesis
    using marks_loop [of "cronMark field low xs" field high step "low + step"] assms(3)
    by (simp add: marks_def cronMark_eq)
qed

lemma cronNumber_decimal: "cronNumber quote fail field txt digits = Inr p \<Longrightarrow> list_all isDecimal digits \<and> digits \<noteq> []"
  by (auto simp: cronNumber_def split: if_splits)

lemma cronValue_range:
  assumes "cronValue quote fail field txt digits = Inr v"
  shows "fieldLow field \<le> v \<and> v \<le> fieldHigh field \<and> list_all isDecimal digits \<and> digits \<noteq> []"
proof -
  obtain p where p: "cronNumber quote fail field txt digits = Inr p"
    using assms by (auto simp: cronValue_def)
  have "fieldLow field \<le> v \<and> v \<le> fieldHigh field"
    using assms by (cases p) (simp_all add: cronValue_def p bindE_def Let_def split: if_splits)
  with cronNumber_decimal [OF p] show ?thesis by blast
qed

lemma field_bounds: "list_all (\<lambda>field. fieldLow field \<le> fieldHigh field \<and>
    (fieldName field = ''day-of-week'' \<longrightarrow> fieldLow field \<le> 6 \<and> 6 \<le> fieldHigh field)) ahdCronFields"
  by code_simp

lemma cronRange_bounds:
  assumes "cronRange quote fail field txt rangeText stepped = Inr (low, high)" "field \<in> set ahdCronFields"
  shows "fieldLow field \<le> low \<and> low \<le> high \<and> high \<le> fieldHigh field
    \<and> (HasPrefix rangeText ''*'' \<longrightarrow> low = fieldLow field)"
proof (cases "rangeText = ''*''")
  case True
  moreover have "fieldLow field \<le> fieldHigh field"
    "fieldName field = ''day-of-week'' \<Longrightarrow> fieldLow field \<le> 6 \<and> 6 \<le> fieldHigh field"
    using field_bounds assms(2) by (simp_all add: list_all_iff)
  ultimately show ?thesis using assms(1) by (auto simp: cronRange_def)
next
  case False
  obtain lowText highText isRange where cut: "cutAt (CHR ''-'') rangeText = (lowText, highText, isRange)"
    by (cases "cutAt (CHR ''-'') rangeText")
  have low: "cronValue quote fail field txt lowText = Inr low"
    using assms(1) False cut by (cases isRange) (auto simp: cronRange_def split: if_splits)
  have "low \<le> high \<and> high \<le> fieldHigh field"
  proof (cases isRange)
    case True
    with assms(1) False cut low have "cronValue quote fail field txt highText = Inr high" "low \<le> high"
      by (auto simp: cronRange_def split: if_splits)
    then show ?thesis using cronValue_range by blast
  next
    case False
    with assms(1) \<open>rangeText \<noteq> _\<close> cut low have "high = low" by (auto simp: cronRange_def split: if_splits)
    then show ?thesis using cronValue_range [OF low] by simp
  qed
  moreover have "\<not> HasPrefix rangeText ''*''"
  proof
    assume "HasPrefix rangeText ''*''"
    then obtain rest where "rangeText = CHR ''*'' # rest" by (cases rangeText) (auto simp: HasPrefix_def)
    with cut have "lowText = [] \<or> CHR ''*'' \<in> set lowText" by (auto split: prod.splits)
    moreover have "\<not> isDecimal (CHR ''*'')" by (simp add: isDecimal_def byteOf_def)
    ultimately show False using cronValue_range [OF low] by (auto simp: list_all_iff)
  qed
  ultimately show ?thesis using cronValue_range [OF low] by simp
qed

lemma cronStep_pos: "cronStep quote fail field txt low high stepText stepped = Inr step \<Longrightarrow> 0 < step"
  by (auto simp: cronStep_def Let_def split: if_splits option.splits)

text \<open>What a field adds: a value of its range, and its lowest value if it begins with a star.\<close>

definition fieldMarked :: "ahdCronField \<Rightarrow> string \<Rightarrow> bool list \<Rightarrow> bool list \<Rightarrow> bool" where
  "fieldMarked field txt xs ys \<longleftrightarrow> marks xs ys \<and>
     (\<exists>v \<in> {fieldLow field..fieldHigh field}. ys ! markTarget field v) \<and>
     (HasPrefix txt ''*'' \<longrightarrow> ys ! markTarget field (fieldLow field))"

lemma cutAt_prefix:
  "HasPrefix item [c] \<Longrightarrow> c \<noteq> sep \<Longrightarrow> HasPrefix (fst (cutAt sep item)) [c]"
  by (cases item) (auto simp: HasPrefix_def split: prod.splits)

lemma cronItem_marks:
  assumes "cronItem quote fail field txt item xs = Inr ys" "field \<in> set ahdCronFields"
    and size: "\<And>v. v \<in> {fieldLow field..fieldHigh field} \<Longrightarrow> markTarget field v < length xs"
  shows "fieldMarked field item xs ys"
proof -
  obtain rangeText stepText stepped where cut: "cutAt (CHR ''/'') item = (rangeText, stepText, stepped)"
    by (cases "cutAt (CHR ''/'') item")
  obtain low high step where r: "cronRange quote fail field txt rangeText stepped = Inr (low, high)"
    and s: "cronStep quote fail field txt low high stepText stepped = Inr step"
    and ys: "ys = cronMarkLoop field high step low xs"
    using assms(1) by (auto simp: cronItem_def cut)
  note bounds = cronRange_bounds [OF r assms(2)]
  have "low \<in> {fieldLow field..fieldHigh field}" using bounds by simp
  with size have "ys ! markTarget field low"
    unfolding ys using bounds cronStep_pos [OF s] by (intro marks_low) auto
  moreover have "HasPrefix item ''*'' \<Longrightarrow> low = fieldLow field"
    using bounds cutAt_prefix [of item "CHR ''*''" "CHR ''/''"] cut by simp
  ultimately show ?thesis
    using bounds marks_loop by (auto simp: fieldMarked_def ys)
qed

lemma cronItems_marks: "cronItems quote fail field txt items xs = Inr ys \<Longrightarrow> field \<in> set ahdCronFields \<Longrightarrow>
    (\<And>v. v \<in> {fieldLow field..fieldHigh field} \<Longrightarrow> markTarget field v < length xs) \<Longrightarrow> marks xs ys"
proof (induction items arbitrary: xs)
  case (Cons item items)
  then obtain zs where z: "cronItem quote fail field txt item xs = Inr zs"
      "cronItems quote fail field txt items zs = Inr ys" by auto
  from cronItem_marks [OF z(1) Cons.prems(2,3)] have "marks xs zs" by (simp add: fieldMarked_def)
  moreover from this have "marks zs ys"
    using Cons.prems(3) by (intro Cons.IH [OF z(2) Cons.prems(2)]) (simp add: marks_def)
  ultimately show ?case by (rule marks_trans)
qed simp

lemma ahdCronParseField_marks:
  assumes "ahdCronParseField quote fail field txt xs = Inr ys" "field \<in> set ahdCronFields"
    and size: "\<And>v. v \<in> {fieldLow field..fieldHigh field} \<Longrightarrow> markTarget field v < length xs"
  shows "fieldMarked field txt xs ys"
proof -
  obtain item items where split: "splitAt (CHR '','') txt = item # items"
    using splitAt_ne by (cases "splitAt (CHR '','') txt") blast+
  then obtain zs where z: "cronItem quote fail field txt item xs = Inr zs"
      "cronItems quote fail field txt items zs = Inr ys"
    using assms(1) by (auto simp: ahdCronParseField_def)
  from cronItem_marks [OF z(1) assms(2) size] have m: "fieldMarked field item xs zs" .
  then have length: "length zs = length xs" by (simp add: fieldMarked_def marks_def)
  then have rest: "marks zs ys" using size by (intro cronItems_marks [OF z(2) assms(2)]) simp
  have "HasPrefix txt ''*'' \<Longrightarrow> HasPrefix item ''*''"
    using split by (cases "txt") (auto simp: HasPrefix_def split: list.splits if_splits)
  then show ?thesis
    using m rest size length unfolding fieldMarked_def marks_def
    by (metis atLeastAtMost_iff le_refl order_trans)
qed


text \<open>The schedules that can run.\<close>

definition scheduleOk :: "ahdCronSchedule \<Rightarrow> bool" where
  "scheduleOk s \<longleftrightarrow>
     (\<exists>v \<in> {0..59}. cronMinutes s ! v) \<and> (\<exists>v \<in> {0..23}. cronHours s ! v)
   \<and> (\<exists>v \<in> {1..12}. cronMonths s ! v) \<and> (\<exists>v \<in> {0..6}. cronWeekdays s ! v)
   \<and> (daysStar s \<longrightarrow> cronDays s ! 1) \<and> (weekdaysStar s \<longrightarrow> cronWeekdays s ! 0)
   \<and> (weekdaysStar s \<and> \<not> daysStar s \<longrightarrow> cronPossible (cronMonths s) (cronDays s))"

lemma fieldMarked_exists:
  "fieldMarked field txt xs ys \<Longrightarrow> fieldName field \<noteq> ''day-of-week'' \<Longrightarrow>
     (\<exists>v \<in> {fieldLow field..fieldHigh field}. ys ! v) \<and> (HasPrefix txt ''*'' \<longrightarrow> ys ! fieldLow field)"
  by (auto simp: fieldMarked_def markTarget_def)

lemma ahdCronFields_nth:
  "ahdCronFields ! 0 = \<lparr>fieldName = ''minute'', fieldLow = 0, fieldHigh = 59\<rparr>"
  "ahdCronFields ! 1 = \<lparr>fieldName = ''hour'', fieldLow = 0, fieldHigh = 23\<rparr>"
  "ahdCronFields ! 2 = \<lparr>fieldName = ''day-of-month'', fieldLow = 1, fieldHigh = 31\<rparr>"
  "ahdCronFields ! 3 = \<lparr>fieldName = ''month'', fieldLow = 1, fieldHigh = 12\<rparr>"
  "ahdCronFields ! 4 = \<lparr>fieldName = ''day-of-week'', fieldLow = 0, fieldHigh = 7\<rparr>"
  by (simp_all add: ahdCronFields_def)

lemma ahdCronFields_mem: "i < 5 \<Longrightarrow> ahdCronFields ! i \<in> set ahdCronFields"
  by (rule nth_mem) (simp add: ahdCronFields_def)

lemma ahdCronParse_fields:
  assumes "ahdCronParse quote cls op e = Inr s"
  obtains fail fields where
    "ahdCronParseField quote fail (ahdCronFields ! 0) (fields ! 0) (replicate 60 False) = Inr (cronMinutes s)"
    "ahdCronParseField quote fail (ahdCronFields ! 1) (fields ! 1) (replicate 24 False) = Inr (cronHours s)"
    "ahdCronParseField quote fail (ahdCronFields ! 2) (fields ! 2) (replicate 32 False) = Inr (cronDays s)"
    "ahdCronParseField quote fail (ahdCronFields ! 3) (fields ! 3) (replicate 13 False) = Inr (cronMonths s)"
    "ahdCronParseField quote fail (ahdCronFields ! 4) (fields ! 4) (replicate 7 False) = Inr (cronWeekdays s)"
    "daysStar s = HasPrefix (fields ! 2) ''*''" "weekdaysStar s = HasPrefix (fields ! 4) ''*''"
    "weekdaysStar s \<and> \<not> daysStar s \<longrightarrow> cronPossible (cronMonths s) (cronDays s)"
proof -
  let ?fields = "fieldsBy [CHR '' '', CHR 0x09] e"
  have "length ?fields \<noteq> 0" "\<not> length ?fields \<noteq> 5"
    using assms by (auto simp: ahdCronParse_def Let_def split: if_splits)
  with assms obtain fail minutes hours days months weekdays where
    p: "ahdCronParseField quote fail (ahdCronFields ! 0) (?fields ! 0) (replicate 60 False) = Inr minutes"
      "ahdCronParseField quote fail (ahdCronFields ! 1) (?fields ! 1) (replicate 24 False) = Inr hours"
      "ahdCronParseField quote fail (ahdCronFields ! 2) (?fields ! 2) (replicate 32 False) = Inr days"
      "ahdCronParseField quote fail (ahdCronFields ! 3) (?fields ! 3) (replicate 13 False) = Inr months"
      "ahdCronParseField quote fail (ahdCronFields ! 4) (?fields ! 4) (replicate 7 False) = Inr weekdays"
    and r: "(if \<not> HasPrefix (?fields ! 2) ''*'' \<and> HasPrefix (?fields ! 4) ''*'' \<and> \<not> cronPossible months days
       then Inl (fail ''can never run: none of its day-of-month values occurs in its months'')
       else Inr \<lparr>cronMinutes = minutes, cronHours = hours, cronDays = days,
         cronMonths = months, cronWeekdays = weekdays, daysStar = HasPrefix (?fields ! 2) ''*'',
         weekdaysStar = HasPrefix (?fields ! 4) ''*''\<rparr>) = Inr s"
    unfolding ahdCronParse_def Let_def bindE_Inr if_not_P [OF \<open>length ?fields \<noteq> 0\<close>]
      if_not_P [OF \<open>\<not> length ?fields \<noteq> 5\<close>]
    by (elim exE conjE) (assumption | rule that)+
  from r have "s = \<lparr>cronMinutes = minutes, cronHours = hours, cronDays = days,
         cronMonths = months, cronWeekdays = weekdays, daysStar = HasPrefix (?fields ! 2) ''*'',
         weekdaysStar = HasPrefix (?fields ! 4) ''*''\<rparr>"
      "weekdaysStar s \<and> \<not> daysStar s \<longrightarrow> cronPossible (cronMonths s) (cronDays s)"
    by (auto split: if_splits)
  with p show thesis by (intro that [of fail ?fields]) simp_all
qed

lemma ahdCronParse_ok: "ahdCronParse quote cls op e = Inr s \<Longrightarrow> scheduleOk s"
proof (erule ahdCronParse_fields)
  fix fail fields
  let ?parse = "\<lambda>i n. ahdCronParseField quote fail (ahdCronFields ! i) (fields ! i) (replicate n False)"
  assume p: "?parse 0 60 = Inr (cronMinutes s)" "?parse 1 24 = Inr (cronHours s)"
    "?parse 2 32 = Inr (cronDays s)" "?parse 3 13 = Inr (cronMonths s)"
    "?parse 4 7 = Inr (cronWeekdays s)"
    and star: "daysStar s = HasPrefix (fields ! 2) ''*''" "weekdaysStar s = HasPrefix (fields ! 4) ''*''"
    and possible: "weekdaysStar s \<and> \<not> daysStar s \<longrightarrow> cronPossible (cronMonths s) (cronDays s)"
  note marked = ahdCronParseField_marks [OF _ ahdCronFields_mem]
  have "fieldMarked (ahdCronFields ! 0) (fields ! 0) (replicate 60 False) (cronMinutes s)"
    by (rule marked [OF p(1)]) (simp_all add: ahdCronFields_nth markTarget_def del: One_nat_def)
  from fieldMarked_exists [OF this] have 0: "\<exists>v \<in> {0..59}. cronMinutes s ! v"
    by (simp add: ahdCronFields_nth del: One_nat_def)
  have "fieldMarked (ahdCronFields ! 1) (fields ! 1) (replicate 24 False) (cronHours s)"
    by (rule marked [OF p(2)]) (simp_all add: ahdCronFields_nth markTarget_def del: One_nat_def)
  from fieldMarked_exists [OF this] have 1: "\<exists>v \<in> {0..23}. cronHours s ! v"
    by (simp add: ahdCronFields_nth del: One_nat_def)
  have "fieldMarked (ahdCronFields ! 2) (fields ! 2) (replicate 32 False) (cronDays s)"
    by (rule marked [OF p(3)]) (simp_all add: ahdCronFields_nth markTarget_def del: One_nat_def)
  from fieldMarked_exists [OF this] have 2: "HasPrefix (fields ! 2) ''*'' \<longrightarrow> cronDays s ! 1"
    by (simp add: ahdCronFields_nth del: One_nat_def)
  have "fieldMarked (ahdCronFields ! 3) (fields ! 3) (replicate 13 False) (cronMonths s)"
    by (rule marked [OF p(4)]) (simp_all add: ahdCronFields_nth markTarget_def del: One_nat_def)
  from fieldMarked_exists [OF this] have 3: "\<exists>v \<in> {1..12}. cronMonths s ! v"
    by (simp add: ahdCronFields_nth del: One_nat_def)
  have "fieldMarked (ahdCronFields ! 4) (fields ! 4) (replicate 7 False) (cronWeekdays s)"
    by (rule marked [OF p(5)]) (simp_all add: ahdCronFields_nth markTarget_def del: One_nat_def)
  then obtain v :: nat where "cronWeekdays s ! (v mod 7)" and w: "HasPrefix (fields ! 4) ''*'' \<longrightarrow> cronWeekdays s ! 0"
    by (auto simp: fieldMarked_def markTarget_def ahdCronFields_nth)
  then have 4: "\<exists>v \<in> {0..6}. cronWeekdays s ! v" by (intro bexI [of _ "v mod 7"]) auto
  show "scheduleOk s"
    using 0 1 2 3 4 w star possible unfolding scheduleOk_def by blast
qed


subsection \<open>Occurrences and the search in any location\<close>

definition occurs :: "ahdCronSchedule \<Rightarrow> location \<Rightarrow> instant \<Rightarrow> bool" where
  "occurs s loc t \<longleftrightarrow> cronMonths s ! nat (timeMonth loc t)
     \<and> dayMatches s (timeDay loc t) (timeWeekday loc t)
     \<and> cronHours s ! nat (timeHour loc t) \<and> cronMinutes s ! nat (timeMinute loc t)"

lemma timeMinute_bounds: "0 \<le> timeMinute loc t \<and> timeMinute loc t \<le> 59"
  using pos_mod_bound [of 60 "wall loc t div minute"] pos_mod_sign [of 60 "wall loc t div minute"]
  unfolding timeMinute_def by linarith

lemma ahdCronAdvance_later: "current < ahdCronAdvance current target"
  by (simp add: ahdCronAdvance_def)

text \<open>Whatever the location, the result is not before the candidate and matches every field.\<close>

lemma nextLoop_sound:
  "nextLoop s loc k c = Some t \<Longrightarrow> c \<le> t \<and> occurs s loc t \<and> timeYear loc t \<le> 9999"
proof (induction k arbitrary: c)
  case (Suc k)
  have later: "c < c + (60 - timeMinute loc c) * minute"
    using timeMinute_bounds [of loc c] by simp
  note steps = less_imp_le [OF ahdCronAdvance_later, THEN order_trans]
    less_imp_le [OF later, THEN order_trans] order_trans [of c "c + minute" t]
  from Suc.prems show ?case
    by (auto simp: Let_def occurs_def split: if_splits dest!: Suc.IH intro: steps)
qed simp

lemma cronNext_later:
  assumes "cronNext quote s cls op e after loc = Inr t"
  shows "after < t \<and> occurs s loc t \<and> timeYear loc t \<le> 9999"
proof -
  let ?c = "after - timeSecond loc after * second - timeNanosecond loc after + minute"
  have "timeSecond loc after \<le> 59" "timeNanosecond loc after < second"
    using pos_mod_bound [of 60 "wall loc after div second"] pos_mod_bound [of second "wall loc after"]
    unfolding timeSecond_def timeNanosecond_def by linarith+
  then have "after < ?c" by simp
  moreover have "nextLoop s loc 4000000 ?c = Some t"
    using assms by (simp add: cronNext_def Let_def split: option.splits)
  ultimately show ?thesis using nextLoop_sound by fastforce
qed

subsection \<open>The search at a fixed offset, by minutes\<close>

text \<open>Minute \<open>n\<close> of the wall clock that is \<open>offset\<close> seconds ahead of UTC.\<close>

definition atMinute :: "int \<Rightarrow> int \<Rightarrow> instant" where
  "atMinute offset n = n * minute - second * offset"

lemma wall_atMinute: "wall (FixedZone offset) (atMinute offset n) = n * minute"
  by (simp add: wall_fixed atMinute_def)

lemma atMinute_readings:
  "timeYear (FixedZone offset) (atMinute offset n) = yearOf (n div 1440)"
  "timeMonth (FixedZone offset) (atMinute offset n) = monthOf (n div 1440)"
  "timeDay (FixedZone offset) (atMinute offset n) = dayOf (n div 1440)"
  "timeWeekday (FixedZone offset) (atMinute offset n) = weekdayOf (n div 1440)"
  "timeHour (FixedZone offset) (atMinute offset n) = n div 60 mod 24"
  "timeMinute (FixedZone offset) (atMinute offset n) = n mod 60"
proof -
  have m: "n * minute div minute = n" by (rule nonzero_mult_div_cancel_right) simp
  have h: "n * minute div hour = n div 60" by (simp only: div_steps(2) m)
  have d: "n * minute div day = n div 1440"
    unfolding div_steps(3) h by (simp add: zdiv_zmult2_eq [symmetric])
  show "timeYear (FixedZone offset) (atMinute offset n) = yearOf (n div 1440)"
    "timeMonth (FixedZone offset) (atMinute offset n) = monthOf (n div 1440)"
    "timeDay (FixedZone offset) (atMinute offset n) = dayOf (n div 1440)"
    "timeWeekday (FixedZone offset) (atMinute offset n) = weekdayOf (n div 1440)"
    "timeHour (FixedZone offset) (atMinute offset n) = n div 60 mod 24"
    "timeMinute (FixedZone offset) (atMinute offset n) = n mod 60"
    by (simp_all only: timeYear_def timeMonth_def timeDay_def timeWeekday_def timeHour_def
        timeMinute_def wall_atMinute m h d)
qed

definition dateMatches :: "ahdCronSchedule \<Rightarrow> int \<Rightarrow> bool" where
  "dateMatches s d \<longleftrightarrow> cronMonths s ! nat (monthOf d) \<and> dayMatches s (dayOf d) (weekdayOf d)"

definition minuteMatches :: "ahdCronSchedule \<Rightarrow> int \<Rightarrow> bool" where
  "minuteMatches s n \<longleftrightarrow> dateMatches s (n div 1440) \<and> cronHours s ! nat (n div 60 mod 24)
     \<and> cronMinutes s ! nat (n mod 60)"

lemma occurs_atMinute: "occurs s (FixedZone offset) (atMinute offset n) = minuteMatches s n"
  by (simp add: occurs_def minuteMatches_def dateMatches_def atMinute_readings conj_assoc)

text \<open>The minute the search looks at after one that does not match.\<close>

definition skipTo :: "ahdCronSchedule \<Rightarrow> int \<Rightarrow> int" where
  "skipTo s n =
    (let d = n div 1440
     in if \<not> cronMonths s ! nat (monthOf d) then dayNumber (yearOf d) (monthOf d + 1) 1 * 1440
        else if \<not> dayMatches s (dayOf d) (weekdayOf d) then (d + 1) * 1440
        else if \<not> cronHours s ! nat (n div 60 mod 24) then n + (60 - n mod 60)
        else n + 1)"

primrec nextMinute :: "ahdCronSchedule \<Rightarrow> nat \<Rightarrow> int \<Rightarrow> int option" where
  "nextMinute s 0 n = None"
| "nextMinute s (Suc k) n =
    (if yearOf (n div 1440) > 9999 then None
     else if minuteMatches s n then Some n
     else nextMinute s k (skipTo s n))"

lemma dayNumber_dateOf_next: "dayNumber (yearOf d) (monthOf d) (dayOf d + 1) = d + 1"
  using dayNumber_dateOf [of d] by (simp add: dayNumber_def Let_def)

text \<open>The first of the next month comes after every day of this month, and only after those.\<close>

lemma dayNumber_month_end:
  assumes "1 \<le> mo" "mo \<le> 12"
  shows "dayNumber y (mo + 1) 1 = dayNumber y mo (monthLength y mo + 1)"
proof (cases "mo = 12")
  case True
  then show ?thesis
    using yearStart_Suc [of y]
    by (simp add: dayNumber_def Let_def monthLength_def monthStart_def monthStarts_def split: if_splits)
next
  case False
  then show ?thesis using assms by (simp add: dayNumber_def Let_def monthLength_def)
qed

lemma rest_of_month:
  assumes "d \<le> d'" "d' < dayNumber (yearOf d) (monthOf d + 1) 1"
  shows "monthOf d' = monthOf d"
proof -
  let ?y = "yearOf d" and ?m = "monthOf d"
  have shift: "dayNumber ?y ?m (dayOf d + k) = d + k" for k
    using dayNumber_dateOf [of d] by (simp add: dayNumber_def Let_def)
  have "dayNumber ?y (?m + 1) 1 = d + (monthLength ?y ?m + 1 - dayOf d)"
    using dayNumber_month_end [OF dateOf_month, of ?y d] shift [of "monthLength ?y ?m + 1 - dayOf d"] by simp
  with assms dateOf_valid [of d] have "validDate ?y ?m (dayOf d + (d' - d))"
    by (auto simp: validDate_def)
  from dateOf_dayNumber(2) [OF this] show ?thesis by (simp add: shift)
qed

lemma next_month_later: "d < dayNumber (yearOf d) (monthOf d + 1) 1"
proof -
  have "dayNumber (yearOf d) (monthOf d + 1) 1 = d + (monthLength (yearOf d) (monthOf d) + 1 - dayOf d)"
    using dayNumber_month_end [OF dateOf_month, of "yearOf d" d] dayNumber_dateOf [of d]
    by (simp add: dayNumber_def Let_def)
  with dateOf_valid [of d] show ?thesis by (simp add: validDate_def)
qed


lemma atMinute_less: "atMinute offset m < atMinute offset n \<longleftrightarrow> m < n"
  by (simp add: atMinute_def)

lemma day_later: "n div 1440 < d \<Longrightarrow> n < d * (1440::int)"
  using pos_mod_bound [of 1440 n] mult_div_mod_eq [of 1440 n] by (simp add: mult.commute)

lemma day_earlier: "m < d * (1440::int) \<Longrightarrow> m div 1440 < d"
  using pos_mod_sign [of 1440 m] mult_div_mod_eq [of 1440 m] by simp

lemma advance_to_day:
  assumes "n div 1440 < dayNumber y mo d"
  shows "ahdCronAdvance (atMinute offset n) (timeDate (FixedZone offset) y mo d 0 0 0 0)
       = atMinute offset (dayNumber y mo d * 1440)"
  using day_later [OF assms] by (simp add: ahdCronAdvance_def timeDate_fixed atMinute_def)

lemma nextLoop_fixed:
  "nextLoop s (FixedZone offset) k (atMinute offset n) = map_option (atMinute offset) (nextMinute s k n)"
proof (induction k arbitrary: n)
  case (Suc k)
  let ?d = "n div 1440"
  have m: "ahdCronAdvance (atMinute offset n) (timeDate (FixedZone offset) (yearOf ?d) (monthOf ?d + 1) 1 0 0 0 0)
      = atMinute offset (dayNumber (yearOf ?d) (monthOf ?d + 1) 1 * 1440)"
    by (rule advance_to_day) (rule next_month_later)
  have d: "ahdCronAdvance (atMinute offset n) (timeDate (FixedZone offset) (yearOf ?d) (monthOf ?d) (dayOf ?d + 1) 0 0 0 0)
      = atMinute offset ((?d + 1) * 1440)"
    using advance_to_day [of n "yearOf ?d" "monthOf ?d" "dayOf ?d + 1"] by (simp add: dayNumber_dateOf_next)
  have h: "atMinute offset n + (60 - n mod 60) * minute = atMinute offset (n + (60 - n mod 60))"
    "atMinute offset n + minute = atMinute offset (n + 1)"
    by (simp_all add: atMinute_def algebra_simps)
  show ?case
    unfolding nextLoop.simps nextMinute.simps Let_def atMinute_readings m d h Suc.IH
    by (simp add: minuteMatches_def dateMatches_def skipTo_def Let_def)
qed simp

subsection \<open>Nothing is skipped\<close>

lemma rest_of_day: "(n::int) \<le> m \<Longrightarrow> m < (n div 1440 + 1) * 1440 \<Longrightarrow> m div 1440 = n div 1440"
  using zdiv_mono1 [of n m 1440] pos_mod_sign [of 1440 m] mult_div_mod_eq [of 1440 m] by simp

lemma rest_of_hour:
  assumes "(n::int) \<le> m" "m < n + (60 - n mod 60)"
  shows "m div 60 = n div 60"
proof -
  have "(n div 60 + 1) * 60 = n - n mod 60 + 60" by (simp add: minus_mod_eq_mult_div)
  then have "m < (n div 60 + 1) * 60" using assms(2) by linarith
  then show ?thesis
    using assms(1) zdiv_mono1 [of n m 60] pos_mod_sign [of 60 m] mult_div_mod_eq [of 60 m] by simp
qed

lemma same_day_of_hour: "(m::int) div 60 = n div 60 \<Longrightarrow> m div 1440 = n div 1440"
proof -
  have "k div 1440 = k div 60 div 24" for k :: int by (simp add: zdiv_zmult2_eq [symmetric])
  then show "m div 60 = n div 60 \<Longrightarrow> m div 1440 = n div 1440" by simp
qed

lemma skipTo_later: "n < skipTo s n"
proof -
  have "n < dayNumber (yearOf (n div 1440)) (monthOf (n div 1440) + 1) 1 * 1440"
    by (rule day_later) (rule next_month_later)
  moreover have "n < (n div 1440 + 1) * 1440" by (rule day_later) simp
  moreover have "n < n + (60 - n mod 60)" using pos_mod_bound [of 60 n] by simp
  ultimately show ?thesis unfolding skipTo_def Let_def by (simp split del: if_split) (simp split: if_split)
qed

lemma skipTo_skips:
  assumes "\<not> minuteMatches s n" "n \<le> m" "m < skipTo s n"
  shows "\<not> minuteMatches s m"
proof (cases "cronMonths s ! nat (monthOf (n div 1440))")
  case False
  then have "m < dayNumber (yearOf (n div 1440)) (monthOf (n div 1440) + 1) 1 * 1440"
    using assms(3) by (simp add: skipTo_def Let_def)
  then have "m div 1440 < dayNumber (yearOf (n div 1440)) (monthOf (n div 1440) + 1) 1"
    by (rule day_earlier)
  with zdiv_mono1 [OF assms(2), of 1440] have "monthOf (m div 1440) = monthOf (n div 1440)"
    by (intro rest_of_month) simp_all
  with False show ?thesis by (simp add: minuteMatches_def dateMatches_def)
next
  case month: True
  show ?thesis
  proof (cases "dateMatches s (n div 1440)")
    case False
    then have "m < (n div 1440 + 1) * 1440" using assms(3) month by (simp add: skipTo_def dateMatches_def Let_def)
    then have "m div 1440 = n div 1440" by (rule rest_of_day [OF assms(2)])
    with False show ?thesis by (simp add: minuteMatches_def)
  next
    case date: True
    show ?thesis
    proof (cases "cronHours s ! nat (n div 60 mod 24)")
      case False
      then have "m < n + (60 - n mod 60)" using assms(3) month date by (simp add: skipTo_def dateMatches_def Let_def)
      then have "m div 60 = n div 60" by (rule rest_of_hour [OF assms(2)])
      with False show ?thesis by (simp add: minuteMatches_def)
    next
      case True
      with assms month date have "m = n" by (simp add: skipTo_def dateMatches_def Let_def)
      with assms(1) show ?thesis by simp
    qed
  qed
qed

lemma nextMinute_first:
  "nextMinute s k n = Some r \<Longrightarrow> n \<le> r \<and> minuteMatches s r \<and> yearOf (r div 1440) \<le> 9999
     \<and> (\<forall>m. n \<le> m \<and> m < r \<longrightarrow> \<not> minuteMatches s m)"
proof (induction k arbitrary: n)
  case (Suc k)
  show ?case
  proof (cases "minuteMatches s n")
    case True
    with Suc.prems show ?thesis by (auto split: if_splits)
  next
    case False
    with Suc.prems have "nextMinute s k (skipTo s n) = Some r" by (simp split: if_splits)
    from Suc.IH [OF this] skipTo_later [of n s] skipTo_skips [OF False] show ?thesis by fastforce
  qed
qed simp


subsection \<open>The guard is enough\<close>

text \<open>
  The steps the search takes from minute \<open>n\<close> to the first match \<open>m\<close>, at most: the minutes left
  of the first day, one for every day, and the minutes of the last one.
\<close>

definition searchCost :: "int \<Rightarrow> int \<Rightarrow> int" where
  "searchCost n m =
    (if n div 1440 = m div 1440 then m - n
     else (if n mod 1440 = 0 then 0 else 1440 - n mod 1440) + (m div 1440 - n div 1440) + 1440)"

definition firstMatch :: "ahdCronSchedule \<Rightarrow> int \<Rightarrow> int \<Rightarrow> bool" where
  "firstMatch s n m \<longleftrightarrow> n \<le> m \<and> minuteMatches s m \<and> (\<forall>j. n \<le> j \<and> j < m \<longrightarrow> \<not> minuteMatches s j)"

lemma firstMatch_skip:
  assumes "firstMatch s n m" "n \<noteq> m"
  shows "firstMatch s (skipTo s n) m"
proof -
  have "\<not> minuteMatches s n" using assms by (simp add: firstMatch_def)
  with assms skipTo_skips [of s n m] have "skipTo s n \<le> m" by (force simp: firstMatch_def)
  with assms skipTo_later [of n s] show ?thesis by (auto simp: firstMatch_def)
qed

lemma minute_of_day:
  assumes "h \<le> 23" "mi \<le> 59" and j: "j = (d * 24 + int h) * 60 + int mi"
  shows "j div 1440 = d" "j div 60 mod 24 = int h" "j mod 60 = int mi"
proof -
  have "j div 60 = d * 24 + int h \<and> j mod 60 = int mi"
    by (rule div_mod_of) (use assms in simp_all)
  then have 1: "j div 60 = d * 24 + int h" "j mod 60 = int mi" by simp_all
  have 2: "j div 60 div 24 = d \<and> j div 60 mod 24 = int h"
    by (rule div_mod_of) (use 1 assms in simp_all)
  have "j div 1440 = j div 60 div 24" by (simp add: zdiv_zmult2_eq [symmetric])
  with 1 2 show "j div 1440 = d" "j div 60 mod 24 = int h" "j mod 60 = int mi" by simp_all
qed

lemma match_minute:
  assumes "dateMatches s d" "h \<le> 23" "cronHours s ! h" "mi \<le> 59" "cronMinutes s ! mi"
  shows "minuteMatches s ((d * 24 + int h) * 60 + int mi)"
  unfolding minuteMatches_def minute_of_day [OF assms(2,4) refl] using assms by simp

text \<open>A day that matches has a match, unless it is looked at from its middle.\<close>

lemma firstMatch_same_day:
  assumes "firstMatch s n m" "scheduleOk s" "dateMatches s (n div 1440)" "n mod 1440 = 0"
  shows "m div 1440 = n div 1440"
proof -
  have "\<exists>v \<in> {0..23}. cronHours s ! v" "\<exists>v \<in> {0..59}. cronMinutes s ! v"
    using assms(2) unfolding scheduleOk_def by blast+
  then obtain h mi :: nat where h: "h \<le> 23" "cronHours s ! h" and mi: "mi \<le> 59" "cronMinutes s ! mi"
    by auto
  define j where "j = (n div 1440 * 24 + int h) * 60 + int mi"
  have d: "j div 1440 = n div 1440" by (rule minute_of_day(1) [OF h(1) mi(1) j_def])
  have "minuteMatches s j" unfolding j_def by (rule match_minute [OF assms(3) h mi])
  moreover have "n \<le> j" using assms(4) mult_div_mod_eq [of 1440 n] by (simp add: j_def)
  ultimately have "m \<le> j" using assms(1) by (force simp: firstMatch_def)
  then show ?thesis
    using assms(1) d zdiv_mono1 [of n m 1440] zdiv_mono1 [of m j 1440] by (simp add: firstMatch_def)
qed

lemma skipTo_within_day:
  assumes "dateMatches s (n div 1440)"
  shows "skipTo s n \<le> (n div 1440 + 1) * 1440"
proof -
  have "n < (n div 1440 + 1) * 1440" by (rule day_later) simp
  moreover have "n + (60 - n mod 60) \<le> (n div 1440 + 1) * 1440"
  proof -
    have "n div 1440 = n div 60 div 24" by (simp add: zdiv_zmult2_eq [symmetric])
    then have "n div 60 < (n div 1440 + 1) * 24"
      using pos_mod_bound [of 24 "n div 60"] mult_div_mod_eq [of 24 "n div 60"] by simp
    moreover have "n - n mod 60 = n div 60 * 60" by (rule minus_mod_eq_div_mult)
    ultimately show ?thesis by simp
  qed
  ultimately show ?thesis using assms by (simp add: skipTo_def Let_def dateMatches_def)
qed

lemma skipTo_next_day:
  assumes "\<not> dateMatches s (n div 1440)"
  obtains d where "skipTo s n = d * 1440"
proof (cases "cronMonths s ! nat (monthOf (n div 1440))")
  case True
  with assms have "skipTo s n = (n div 1440 + 1) * 1440" by (simp add: skipTo_def Let_def dateMatches_def)
  then show ?thesis by (rule that)
next
  case False
  then have "skipTo s n = dayNumber (yearOf (n div 1440)) (monthOf (n div 1440) + 1) 1 * 1440"
    by (simp add: skipTo_def Let_def)
  then show ?thesis by (rule that)
qed

lemma day_split: "\<exists>q r. n = q * 1440 + r \<and> 0 \<le> r \<and> r < (1440::int) \<and> n div 1440 = q \<and> n mod 1440 = r"
  using div_mult_mod_eq [of n 1440] by (intro exI [of _ "n div 1440"] exI [of _ "n mod 1440"]) simp

lemma searchCost_skip:
  assumes "firstMatch s n m" "n \<noteq> m" "scheduleOk s"
  shows "searchCost (skipTo s n) m < searchCost n m"
proof -
  have later: "n < skipTo s n" by (rule skipTo_later)
  have le: "skipTo s n \<le> m" using firstMatch_skip [OF assms(1,2)] by (simp add: firstMatch_def)
  obtain d r where n: "n = d * 1440 + r" "0 \<le> r" "r < 1440" "n div 1440 = d" "n mod 1440 = r"
    using day_split [of n] by blast
  obtain e q where m: "m = e * 1440 + q" "0 \<le> q" "q < 1440" "m div 1440 = e" "m mod 1440 = q"
    using day_split [of m] by blast
  obtain f u where k: "skipTo s n = f * 1440 + u" "0 \<le> u" "u < 1440" "skipTo s n div 1440 = f"
      "skipTo s n mod 1440 = u"
    using day_split [of "skipTo s n"] by blast
  have order: "d \<le> f" "f \<le> e"
    using zdiv_mono1 [of n "skipTo s n" 1440] zdiv_mono1 [of "skipTo s n" m 1440] later le n k m by simp_all
  show ?thesis
  proof (cases "d = e")
    case True
    then show ?thesis using order n m k later by (simp add: searchCost_def)
  next
    case False
    show ?thesis
    proof (cases "dateMatches s d")
      case True
      then have "r \<noteq> 0" using firstMatch_same_day [OF assms(1,3)] n m False by auto
      moreover have "skipTo s n \<le> (d + 1) * 1440" using skipTo_within_day [of s n] True n by simp
      then have "f * 1440 + u \<le> d * 1440 + 1440" using k by simp
      then have "f = d \<and> r < u \<or> f = d + 1 \<and> u = 0"
        using n(1) k(1,2) later order by (cases "f = d") auto
      ultimately show ?thesis using False n m k order by (auto simp: searchCost_def)
    next
      case date: False
      obtain g where "skipTo s n = g * 1440" using skipTo_next_day [of s n] date n by auto
      then have "u = 0" using k(5) by simp
      moreover from this have "d < f" using n(1,2) k(1) later by simp
      ultimately show ?thesis using False n m k order by (auto simp: searchCost_def)
    qed
  qed
qed

lemma yearOf_mono:
  assumes "d \<le> d'" shows "yearOf d \<le> yearOf d'"
proof (rule ccontr)
  assume "\<not> yearOf d \<le> yearOf d'"
  then have "yearStart (yearOf d' + 1) \<le> yearStart (yearOf d)" by (intro yearStart_mono) simp
  with yearOf_bounds [of d] yearOf_bounds [of d'] assms show False by simp
qed

lemma nextMinute_finds:
  assumes "scheduleOk s" "yearOf (m div 1440) \<le> 9999"
  shows "firstMatch s n m \<Longrightarrow> searchCost n m < int k \<Longrightarrow> nextMinute s k n = Some m"
proof (induction k arbitrary: n)
  case 0
  then have "n \<le> m" by (simp add: firstMatch_def)
  then have "0 \<le> searchCost n m"
    using zdiv_mono1 [of n m 1440] pos_mod_bound [of 1440 n] by (simp add: searchCost_def)
  with 0 show ?case by simp
next
  case (Suc k)
  then have "n \<le> m" by (simp add: firstMatch_def)
  then have year: "\<not> yearOf (n div 1440) > 9999"
    using assms(2) yearOf_mono [OF zdiv_mono1, of n m 1440] by simp
  show ?case
  proof (cases "n = m")
    case True
    with Suc.prems year show ?thesis by (simp add: firstMatch_def)
  next
    case False
    then have "\<not> minuteMatches s n" using Suc.prems by (simp add: firstMatch_def)
    moreover have "nextMinute s k (skipTo s n) = Some m"
      using searchCost_skip [OF Suc.prems(1) False assms(1)] Suc.prems(2)
      by (intro Suc.IH firstMatch_skip [OF Suc.prems(1) False]) simp
    ultimately show ?thesis using year by simp
  qed
qed

text \<open>Until the end of year 9999 there are fewer steps than the guard of the code allows.\<close>

lemma searchCost_guard:
  assumes "1 \<le> yearOf (n div 1440)" "yearOf (m div 1440) \<le> 9999" "n \<le> m"
  shows "searchCost n m < 4000000"
proof -
  have "yearStart 1 = 0" "yearStart 10000 = 3652059" by (simp_all add: yearStart_def)
  moreover have "yearStart 1 \<le> n div 1440"
    using yearStart_mono [OF assms(1)] yearOf_bounds [of "n div 1440"] by linarith
  moreover have "m div 1440 < yearStart 10000"
    using yearStart_mono [of "yearOf (m div 1440) + 1" 10000] assms(2) yearOf_bounds [of "m div 1440"]
    by linarith
  moreover have "0 \<le> n mod 1440" "m mod 1440 < 1440" by simp_all
  ultimately show ?thesis
    using mult_div_mod_eq [of 1440 n] mult_div_mod_eq [of 1440 m]
    by (auto simp: searchCost_def)
qed

lemma firstMatch_exists:
  assumes "n \<le> j" "minuteMatches s j"
  shows "\<exists>m. firstMatch s n m \<and> m \<le> j"
proof -
  let ?P = "\<lambda>i. minuteMatches s (n + int i)"
  define i where "i = (LEAST i. ?P i)"
  have "?P (nat (j - n))" using assms by simp
  then have "?P i" "i \<le> nat (j - n)" unfolding i_def by (rule LeastI, rule Least_le)
  moreover have "\<not> minuteMatches s l" if "n \<le> l" "l < n + int i" for l
    using not_less_Least [of "nat (l - n)" ?P] that by (auto simp: i_def nat_less_iff)
  ultimately show ?thesis using assms(1) by (intro exI [of _ "n + int i"]) (auto simp: firstMatch_def)
qed

lemma nextMinute_guard:
  assumes "scheduleOk s" "1 \<le> yearOf (n div 1440)" "nextMinute s 4000000 n = None" "n \<le> j"
    "minuteMatches s j"
  shows "9999 < yearOf (j div 1440)"
proof (rule ccontr)
  assume "\<not> 9999 < yearOf (j div 1440)"
  moreover obtain m where m: "firstMatch s n m" "m \<le> j" using firstMatch_exists assms(4,5) by blast
  ultimately have "yearOf (m div 1440) \<le> 9999" using yearOf_mono [OF zdiv_mono1, of m j 1440] by simp
  moreover from this m(1) have "searchCost n m < int 4000000"
    using searchCost_guard [OF assms(2), of m] by (simp add: firstMatch_def)
  ultimately have "nextMinute s 4000000 n = Some m" using nextMinute_finds [OF assms(1)] m(1) by blast
  with assms(3) show False by simp
qed


subsection \<open>Accepted schedules run\<close>

text \<open>The calendar repeats every 400 years, weekdays included.\<close>

lemma yearStart_cycle: "yearStart (y + 400 * k) = yearStart y + 146097 * k"
proof -
  have div: "(a + 400 * k) div 4 = a div 4 + 100 * k" "(a + 400 * k) div 100 = a div 100 + 4 * k"
    "(a + 400 * k) div 400 = a div 400 + k" for a :: int
    using div_mult_self2 [of 4 a "100 * k"] div_mult_self2 [of 100 a "4 * k"] div_mult_self2 [of 400 a k]
    by simp_all
  have eq: "y + 400 * k - 1 = (y - 1) + 400 * k" by simp
  show ?thesis unfolding yearStart_def Let_def eq div by simp
qed

lemma isLeap_cycle: "isLeap (y + 400 * k) = isLeap y"
proof -
  have "(y + 400 * k) mod 4 = y mod 4" "(y + 400 * k) mod 100 = y mod 100" "(y + 400 * k) mod 400 = y mod 400"
    using mod_mult_self2 [of y 4 "100 * k"] mod_mult_self2 [of y 100 "4 * k"] mod_mult_self2 [of y 400 k]
    by simp_all
  then show ?thesis unfolding isLeap_def by simp
qed

lemma yearOf_cycle: "yearOf (d + 146097 * k) = yearOf d + 400 * k"
proof (rule yearOf_unique)
  show "yearStart (yearOf d + 400 * k) \<le> d + 146097 * k"
    using yearOf_bounds [of d] by (simp add: yearStart_cycle)
  have "yearOf d + 400 * k + 1 = (yearOf d + 1) + 400 * k" by simp
  then show "d + 146097 * k < yearStart (yearOf d + 400 * k + 1)"
    using yearOf_bounds [of d] by (simp only: yearStart_cycle) simp
qed

lemma dateMatches_cycle: "dateMatches s (d + 146097 * k) = dateMatches s d"
proof -
  have m: "monthOf (d + 146097 * k) = monthOf d"
    by (simp add: monthOf_def yearOf_cycle yearStart_cycle isLeap_cycle)
  moreover have "dayOf (d + 146097 * k) = dayOf d"
    by (simp add: dayOf_def m yearOf_cycle yearStart_cycle monthStart_def isLeap_cycle)
  moreover have "d + 146097 * k + 1 = (d + 1) + 7 * (20871 * k)" by simp
  then have "weekdayOf (d + 146097 * k) = weekdayOf d"
    unfolding weekdayOf_def by (simp only: mod_mult_self2)
  ultimately show ?thesis by (simp add: dateMatches_def)
qed

text \<open>Every day of every month falls on every weekday, 29 February included.\<close>

lemma leap_years:
  assumes "k \<in> {0..6}"
  shows "isLeap (2000 + 4 * k)" "yearStart (2000 + 4 * k) = 730119 + 1461 * k"
proof -
  have "k \<in> {0, 1, 2, 3, 4, 5, 6}" using assms by auto
  then show "isLeap (2000 + 4 * k)" "yearStart (2000 + 4 * k) = 730119 + 1461 * k"
    by (auto simp: isLeap_def yearStart_def)
qed

lemma weekday_solution: "\<exists>k \<in> {0..6::int}. (c + 5 * k) mod 7 = w mod 7"
proof -
  let ?k = "(3 * (w - c)) mod 7"
  have "(c + 5 * ?k) mod 7 = (c + 5 * (3 * (w - c))) mod 7" by (metis mod_add_right_eq mod_mult_right_eq)
  also have "c + 5 * (3 * (w - c)) = w + 7 * (2 * (w - c))" by simp
  also have "\<dots> mod 7 = w mod 7" by (rule mod_mult_self2)
  finally show ?thesis using pos_mod_bound [of 7 "3 * (w - c)"] by (intro bexI [of _ ?k]) auto
qed

lemma date_on_weekday:
  assumes "1 \<le> m" "m \<le> 12" "1 \<le> d" "d \<le> int (ahdCronMonthDays ! nat m)" "w \<in> {0..6}"
  shows "\<exists>n. monthOf n = m \<and> dayOf n = d \<and> weekdayOf n = w"
proof -
  define c where "c = 730119 + monthStarts True ! nat (m - 1) + d"
  obtain k where k: "k \<in> {0..6}" "(c + 5 * k) mod 7 = w mod 7" using weekday_solution by blast
  let ?y = "2000 + 4 * k"
  note leap = leap_years [OF k(1)]
  have "m \<in> {1, 2, 3, 4, 5, 6, 7, 8, 9, 10, 11, 12}" using assms(1,2) by (simp, presburger)
  then have "monthLength ?y m = int (ahdCronMonthDays ! nat m)"
    using leap(1) by (auto simp: monthLength_def monthStart_def monthStarts_def ahdCronMonthDays_def)
  then have valid: "validDate ?y m d" using assms by (simp add: validDate_def)
  have "dayNumber ?y m d + 1 = c + 5 * k + 7 * (208 * k)"
    using assms(1,2) leap by (simp add: dayNumber_def c_def monthStart_def)
  then have "weekdayOf (dayNumber ?y m d) = (c + 5 * k) mod 7"
    unfolding weekdayOf_def by (simp only: mod_mult_self2)
  also have "\<dots> = w" using k(2) assms(5) by simp
  finally show ?thesis using dateOf_dayNumber(2,3) [OF valid] by blast
qed

lemma schedule_has_date:
  assumes "scheduleOk s"
  shows "\<exists>n. dateMatches s n"
proof -
  have parts: "\<exists>v \<in> {1..12}. cronMonths s ! v" "\<exists>v \<in> {0..6}. cronWeekdays s ! v"
    "daysStar s \<longrightarrow> cronDays s ! 1" "weekdaysStar s \<longrightarrow> cronWeekdays s ! 0"
    "weekdaysStar s \<and> \<not> daysStar s \<longrightarrow> cronPossible (cronMonths s) (cronDays s)"
    using assms unfolding scheduleOk_def by blast+
  obtain m d w where date: "1 \<le> m" "m \<le> 12" "1 \<le> d" "d \<le> ahdCronMonthDays ! m" "w \<le> 6" "cronMonths s ! m"
    and day: "if daysStar s \<or> weekdaysStar s then cronDays s ! d \<and> cronWeekdays s ! w
       else cronDays s ! d \<or> cronWeekdays s ! w"
  proof (cases "weekdaysStar s \<and> \<not> daysStar s")
    case True
    then obtain m d where "1 \<le> m" "m < 13" "cronMonths s ! m" "1 \<le> d" "d < ahdCronMonthDays ! m + 1" "cronDays s ! d"
      using parts(5) by (auto simp: cronPossible_def list_ex_iff)
    with True parts(4) show thesis by (intro that [of m d 0]) auto
  next
    case False
    obtain m w where m: "1 \<le> m" "m \<le> 12" "cronMonths s ! m" and w: "w \<le> 6" "cronWeekdays s ! w"
      using parts(1,2) by auto
    have "\<forall>m \<in> {1..12}. 1 \<le> ahdCronMonthDays ! m" by code_simp
    with m w False parts(3) show thesis by (intro that [of m 1 w]) auto
  qed
  have "\<exists>n. monthOf n = int m \<and> dayOf n = int d \<and> weekdayOf n = int w"
    by (rule date_on_weekday) (use date in simp_all)
  then obtain n where "monthOf n = int m" "dayOf n = int d" "weekdayOf n = int w" by blast
  with date day show ?thesis by (intro exI [of _ n]) (simp add: dateMatches_def dayMatches_def)
qed

lemma schedule_occurs:
  assumes "scheduleOk s"
  shows "\<exists>j \<ge> n. minuteMatches s j \<and> yearOf (j div 1440) \<le> yearOf (n div 1440) + 400"
proof -
  let ?d = "n div 1440"
  obtain d0 where d0: "dateMatches s d0" using schedule_has_date [OF assms] by blast
  define d where "d = ?d + 146097 - (?d - d0) mod 146097"
  define q r where "q = (?d - d0) div 146097" and "r = (?d - d0) mod 146097"
  have "?d - d0 - r = 146097 * q" unfolding q_def r_def by (rule minus_mod_eq_mult_div)
  then have "d = d0 + 146097 * (q + 1)" by (simp add: d_def r_def [symmetric])
  then have match: "dateMatches s d" using d0 dateMatches_cycle by metis
  have range: "?d < d" "d \<le> ?d + 146097"
    using pos_mod_bound [of 146097 "?d - d0"] pos_mod_sign [of 146097 "?d - d0"] by (simp_all add: d_def)
  have year: "yearOf d \<le> yearOf ?d + 400"
    using yearOf_mono [OF range(2)] yearOf_cycle [of ?d 1] by simp
  have day: "d * 1440 div 1440 = d" by simp
  have first: "\<exists>j. firstMatch s (d * 1440) j \<and> j div 1440 = d"
  proof -
    have "\<exists>v \<in> {0..23}. cronHours s ! v" "\<exists>v \<in> {0..59}. cronMinutes s ! v"
      using assms unfolding scheduleOk_def by blast+
    then obtain h mi :: nat where h: "h \<le> 23" "cronHours s ! h" and mi: "mi \<le> 59" "cronMinutes s ! mi"
      by auto
    have "minuteMatches s ((d * 24 + int h) * 60 + int mi)"
      using match_minute [OF match h mi] .
    moreover have "d * 1440 \<le> (d * 24 + int h) * 60 + int mi" by simp
    ultimately obtain j where "firstMatch s (d * 1440) j" using firstMatch_exists by blast
    with firstMatch_same_day [OF this assms] match show ?thesis by auto
  qed
  then obtain j where "firstMatch s (d * 1440) j" "j div 1440 = d" by blast
  moreover have "n \<le> d * 1440" using day_later [OF range(1)] by simp
  ultimately show ?thesis using year by (intro exI [of _ j]) (auto simp: firstMatch_def)
qed


subsection \<open>Properties\<close>

definition wholeMinute :: "int \<Rightarrow> instant \<Rightarrow> bool" where
  "wholeMinute offset t \<longleftrightarrow> timeSecond (FixedZone offset) t = 0 \<and> timeNanosecond (FixedZone offset) t = 0"

lemma wall_minutes:
  "w - w div second mod 60 * second - w mod second = w div minute * minute"
proof -
  have "w - w mod second = w div second * second" by (rule minus_mod_eq_div_mult)
  moreover have "w div second - w div second mod 60 = w div minute * 60"
    unfolding div_steps(1) by (rule minus_mod_eq_div_mult)
  ultimately show ?thesis by linarith
qed

lemma wholeMinute_iff: "wholeMinute offset t \<longleftrightarrow> (\<exists>n. t = atMinute offset n)"
proof
  assume "wholeMinute offset t"
  then have "wall (FixedZone offset) t = wall (FixedZone offset) t div minute * minute"
    using wall_minutes [of "wall (FixedZone offset) t"] by (simp add: wholeMinute_def timeSecond_def timeNanosecond_def)
  then have "t = atMinute offset (wall (FixedZone offset) t div minute)"
    by (simp add: atMinute_def wall_fixed)
  then show "\<exists>n. t = atMinute offset n" ..
next
  assume "\<exists>n. t = atMinute offset n"
  then obtain n where "wall (FixedZone offset) t = 60 * n * second + 0" by (auto simp: wall_atMinute)
  then have "wall (FixedZone offset) t div second = 60 * n" "wall (FixedZone offset) t mod second = 0"
    by (simp_all only: div_mod_of)
  then show "wholeMinute offset t" by (simp add: wholeMinute_def timeSecond_def timeNanosecond_def)
qed

definition minuteAfter :: "int \<Rightarrow> instant \<Rightarrow> int" where
  "minuteAfter offset t = wall (FixedZone offset) t div minute + 1"

lemma candidate_minute:
  "t - timeSecond (FixedZone offset) t * second - timeNanosecond (FixedZone offset) t + minute
     = atMinute offset (minuteAfter offset t)"
  using wall_minutes [of "wall (FixedZone offset) t"]
  by (simp add: timeSecond_def timeNanosecond_def minuteAfter_def atMinute_def distrib_right wall_fixed)

lemma minuteAfter_less: "minuteAfter offset t \<le> n \<longleftrightarrow> t < atMinute offset n"
proof -
  let ?w = "wall (FixedZone offset) t"
  have "?w div minute < n \<longleftrightarrow> ?w < n * minute"
  proof
    assume "?w div minute < n"
    then have "(?w div minute + 1) * minute \<le> n * minute" by (intro mult_right_mono) simp_all
    then show "?w < n * minute" using div_bounds [of minute ?w] by (simp add: distrib_right mult.commute)
  next
    assume "?w < n * minute"
    then have "?w div minute * minute < n * minute"
      using div_bounds [of minute ?w] by (simp add: mult.commute)
    then show "?w div minute < n" by simp
  qed
  then show ?thesis by (auto simp: minuteAfter_def atMinute_def wall_fixed)
qed

lemma cronNext_fixed:
  "cronNext quote s cls op e after (FixedZone offset)
   = (case nextMinute s 4000000 (minuteAfter offset after) of
        Some n \<Rightarrow> Inr (atMinute offset n)
      | None \<Rightarrow> Inl (cls, op @ '': schedule '' @ quote e @ '' has no occurrence before the year 10000''))"
  by (simp only: cronNext_def Let_def candidate_minute nextLoop_fixed) (simp split: option.split)

lemma yearOf_next: "yearOf (d + 1) \<le> yearOf d + 1"
proof (rule ccontr)
  assume "\<not> yearOf (d + 1) \<le> yearOf d + 1"
  then have "yearStart (yearOf d + 1 + 1) \<le> yearStart (yearOf (d + 1))" by (intro yearStart_mono) simp
  moreover have "yearStart (yearOf d + 1) + 365 \<le> yearStart (yearOf d + 1 + 1)"
    by (simp only: yearStart_Suc) simp
  ultimately show False using yearOf_bounds [of d] yearOf_bounds [of "d + 1"] by linarith
qed

lemma minuteAfter_year:
  "timeYear (FixedZone offset) t \<le> yearOf (minuteAfter offset t div 1440)"
  "yearOf (minuteAfter offset t div 1440) \<le> timeYear (FixedZone offset) t + 1"
proof -
  let ?n = "wall (FixedZone offset) t div minute"
  have day: "wall (FixedZone offset) t div day = ?n div 1440"
    unfolding div_steps(3) div_steps(2) by (simp add: zdiv_zmult2_eq [symmetric])
  have "?n div 1440 \<le> (?n + 1) div 1440" "(?n + 1) div 1440 \<le> ?n div 1440 + 1"
    using zdiv_mono1 [of ?n "?n + 1" 1440] zdiv_mono1 [of "?n + 1" "?n + 1440" 1440]
      div_add_self2 [of 1440 ?n] by simp_all
  note yearOf_mono [OF this(1)] yearOf_mono [OF this(2)] yearOf_next [of "?n div 1440"]
  then show "timeYear (FixedZone offset) t \<le> yearOf (minuteAfter offset t div 1440)"
    "yearOf (minuteAfter offset t div 1440) \<le> timeYear (FixedZone offset) t + 1"
    unfolding timeYear_def minuteAfter_def day by linarith+
qed

text \<open>
  C32: \<open>Cron.next\<close> is exact. For an instant of year 1 or later, in a zone of fixed offset, the result
  for an accepted schedule is a whole minute strictly after the instant that matches every field, and
  no whole minute between the two matches; the error is raised only if no later minute before the year
  10000 matches, so the loop's guard of four million steps never cuts a search short.
\<close>

theorem next_is_the_first_occurrence:
  assumes "1 \<le> timeYear (FixedZone offset) after"
  shows "case ahdCronParse quote cls ''Cron.next'' e of
     Inl r \<Rightarrow> AhdCronNextInstant quote cls e after (FixedZone offset) = Inl r
   | Inr s \<Rightarrow> (case AhdCronNextInstant quote cls e after (FixedZone offset) of
       Inr t \<Rightarrow> after < t \<and> wholeMinute offset t \<and> occurs s (FixedZone offset) t
         \<and> (\<forall>u. after < u \<and> u < t \<and> wholeMinute offset u \<longrightarrow> \<not> occurs s (FixedZone offset) u)
     | Inl _ \<Rightarrow> \<forall>u. after < u \<and> wholeMinute offset u \<and> occurs s (FixedZone offset) u
         \<longrightarrow> 9999 < timeYear (FixedZone offset) u)"
proof (cases "ahdCronParse quote cls ''Cron.next'' e")
  case (Inl r)
  then show ?thesis by (simp add: AhdCronNextInstant_def bindE_def)
next
  case (Inr s)
  let ?n = "minuteAfter offset after"
  have result: "AhdCronNextInstant quote cls e after (FixedZone offset)
      = cronNext quote s cls ''Cron.next'' e after (FixedZone offset)"
    by (simp add: AhdCronNextInstant_def bindE_def Inr)
  have ok: "scheduleOk s" using Inr by (rule ahdCronParse_ok)
  have year: "1 \<le> yearOf (?n div 1440)" using assms minuteAfter_year(1) [of offset after] by simp
  show ?thesis
  proof (cases "nextMinute s 4000000 ?n")
    case None
    have "9999 < timeYear (FixedZone offset) (atMinute offset j)"
      if "after < atMinute offset j" "occurs s (FixedZone offset) (atMinute offset j)" for j
      using that nextMinute_guard [OF ok year None, of j] minuteAfter_less [of offset after j]
      by (simp add: atMinute_readings occurs_atMinute)
    then show ?thesis
      unfolding Inr result cronNext_fixed None by (auto simp: wholeMinute_iff)
  next
    case (Some r)
    note first = nextMinute_first [OF Some]
    then have "after < atMinute offset r" using minuteAfter_less by blast
    moreover have "\<not> occurs s (FixedZone offset) (atMinute offset m)"
      if "after < atMinute offset m" "atMinute offset m < atMinute offset r" for m
      using that first minuteAfter_less [of offset after m] by (auto simp: occurs_atMinute atMinute_less)
    ultimately show ?thesis
      using first unfolding Inr result cronNext_fixed Some
      by (auto simp: wholeMinute_iff occurs_atMinute)
  qed
qed

theorem next_is_the_first_occurrence_witness:
  "let after = timeDate (FixedZone 10800) 2026 9 12 23 59 30 0; e = ''0 0 * * *''
   in case ahdCronParse id ''CronError'' ''Cron.next'' e of
     Inl r \<Rightarrow> AhdCronNextInstant id ''CronError'' e after (FixedZone 10800) = Inl r
   | Inr s \<Rightarrow> (case AhdCronNextInstant id ''CronError'' e after (FixedZone 10800) of
       Inr t \<Rightarrow> after < t \<and> wholeMinute 10800 t \<and> occurs s (FixedZone 10800) t
         \<and> (\<forall>u. after < u \<and> u < t \<and> wholeMinute 10800 u \<longrightarrow> \<not> occurs s (FixedZone 10800) u)
     | Inl _ \<Rightarrow> \<forall>u. after < u \<and> wholeMinute 10800 u \<and> occurs s (FixedZone 10800) u
         \<longrightarrow> 9999 < timeYear (FixedZone 10800) u)"
proof -
  have "1 \<le> timeYear (FixedZone 10800) (timeDate (FixedZone 10800) 2026 9 12 23 59 30 0)" by code_simp
  then show ?thesis unfolding Let_def by (rule next_is_the_first_occurrence)
qed

text \<open>
  C33: Every schedule the parser accepts runs. Whatever list, range and step its fields are, also for
  29 February on a given weekday, the search from any instant of the years 1 to 9598 finds an
  occurrence, at most 401 years ahead; the parser rejects the schedules that never would.
\<close>

theorem accepted_schedules_run:
  assumes "ahdCronParse quote cls op e = Inr s"
    and "1 \<le> timeYear (FixedZone offset) after" "timeYear (FixedZone offset) after \<le> 9598"
  shows "\<exists>t. cronNext quote s cls op e after (FixedZone offset) = Inr t
    \<and> timeYear (FixedZone offset) t \<le> timeYear (FixedZone offset) after + 401"
proof -
  let ?n = "minuteAfter offset after"
  have ok: "scheduleOk s" using assms(1) by (rule ahdCronParse_ok)
  have year: "1 \<le> yearOf (?n div 1440)" "yearOf (?n div 1440) \<le> timeYear (FixedZone offset) after + 1"
    using assms(2) minuteAfter_year [of offset after] by simp_all
  obtain j where j: "?n \<le> j" "minuteMatches s j" "yearOf (j div 1440) \<le> yearOf (?n div 1440) + 400"
    using schedule_occurs [OF ok] by blast
  obtain m where m: "firstMatch s ?n m" "m \<le> j" using firstMatch_exists [OF j(1,2)] by blast
  then have late: "yearOf (m div 1440) \<le> yearOf (?n div 1440) + 400"
    using yearOf_mono [OF zdiv_mono1, of m j 1440] j(3) by simp
  then have "searchCost ?n m < int 4000000"
    using searchCost_guard [OF year(1), of m] m(1) year(2) assms(3) by (simp add: firstMatch_def)
  with nextMinute_finds [OF ok, of m ?n 4000000] m(1) late year(2) assms(3)
  have "nextMinute s 4000000 ?n = Some m" by simp
  then show ?thesis
    using late year(2) by (intro exI [of _ "atMinute offset m"]) (simp add: cronNext_fixed atMinute_readings)
qed

theorem accepted_schedules_run_witness:
  "let after = timeDate (FixedZone 0) 9000 1 1 0 0 0 0; s = projr (ahdCronParse id ''E'' ''op'' ''0 0 29 2 */6'')
   in \<exists>t. cronNext id s ''E'' ''op'' ''0 0 29 2 */6'' after (FixedZone 0) = Inr t
     \<and> timeYear (FixedZone 0) t \<le> timeYear (FixedZone 0) after + 401"
proof -
  have "isl (ahdCronParse id ''E'' ''op'' ''0 0 29 2 */6'') = False" by code_simp
  then have "ahdCronParse id ''E'' ''op'' ''0 0 29 2 */6'' = Inr (projr (ahdCronParse id ''E'' ''op'' ''0 0 29 2 */6''))"
    by (simp add: sum.expand)
  moreover have "timeYear (FixedZone 0) (timeDate (FixedZone 0) 9000 1 1 0 0 0 0) = 9000" by code_simp
  ultimately show ?thesis
    unfolding Let_def by (intro accepted_schedules_run) simp_all
qed

end
