(* ===== verification/CronScheduler.thy ===== *)
theory CronScheduler
  imports CronProofs
begin

text \<open>
  The scheduler of the \<open>Cron\<close> module (\<open>cron.go\<close>): its registry of handles and the loop of \<open>run\<close> as
  a state machine. The environment decides what the clock shows, when a wait ends, whether a task
  returns or raises, and who calls \<open>add\<close> and \<open>stop\<close> meanwhile; each such decision is an event, and
  \<open>schedulerStep\<close> does what the code does between two of them. The mutex makes each step atomic.
\<close>

subsection \<open>State\<close>

record cronJob =
  jobExpression :: string
  jobSchedule :: ahdCronSchedule
  jobNext :: instant

text \<open>One run of a task: which job, for which occurrence, and the latest time the loop had seen.\<close>

record cronTaskRun =
  RunJob :: nat
  RunOccurrence :: instant
  RunSeen :: instant

text \<open>Where \<open>run\<close> stands: choosing the next due time, waiting for it, looking at a job, in its task.\<close>

datatype cronPoint = NotRunning | Choosing | Waiting instant | Scanning nat | InTask nat

record cronScheduler =
  jobs :: "cronJob list"
  running :: bool
  stopping :: bool
  point :: cronPoint
  latest :: instant
  runResult :: "raised option"
  runLog :: "cronTaskRun list"

text \<open>A new scheduler; a job that has not been scheduled yet has the zero time.\<close>

definition newScheduler :: cronScheduler where
  "newScheduler = \<lparr>jobs = [], running = False, stopping = False, point = NotRunning, latest = 0,
     runResult = None, runLog = []\<rparr>"

record cronRegistry =
  schedulers :: "string \<rightharpoonup> cronScheduler"
  schedulerCount :: int

definition AhdCronNewScheduler :: "cronRegistry \<Rightarrow> string \<times> cronRegistry" where
  "AhdCronNewScheduler r =
    (let count = schedulerCount r + 1; handle = ''cron-scheduler-'' @ FormatInt count
     in (handle, r\<lparr>schedulerCount := count, schedulers := (schedulers r)(handle \<mapsto> newScheduler)\<rparr>))"

definition ahdCronLookup :: "string \<Rightarrow> string \<Rightarrow> string \<Rightarrow> cronRegistry \<Rightarrow> raised + cronScheduler" where
  "ahdCronLookup errorClass operation handle r =
    (case schedulers r handle of
       None \<Rightarrow> Inl (errorClass, operation @ '': the Scheduler is not available'')
     | Some scheduler \<Rightarrow> Inr scheduler)"

subsection \<open>Operations\<close>

text \<open>
  \<open>Scheduler.add\<close>; the flag says whether there is a task. The error is the result, and the jobs of
  a running scheduler are fixed.
\<close>

definition AhdCronSchedulerAdd ::
  "(string \<Rightarrow> string) \<Rightarrow> string \<Rightarrow> string \<Rightarrow> bool \<Rightarrow> cronScheduler \<Rightarrow> raised + cronScheduler" where
  "AhdCronSchedulerAdd quote errorClass expression hasTask m =
    bindE (ahdCronParse quote errorClass ''Scheduler.add'' expression) (\<lambda>s.
      if \<not> hasTask then Inl (errorClass, ''Scheduler.add: the task Function is missing'')
      else if running m
        then Inl (errorClass, ''Scheduler.add: a job cannot be added while the Scheduler is running'')
      else Inr (m\<lparr>jobs := jobs m @ [\<lparr>jobExpression = expression, jobSchedule = s, jobNext = 0\<rparr>]\<rparr>))"

definition stop :: "cronScheduler \<Rightarrow> cronScheduler" where
  "stop m = (if running m \<and> \<not> stopping m then m\<lparr>stopping := True\<rparr> else m)"

definition stopRequested :: "cronScheduler \<Rightarrow> bool" where
  "stopRequested m = stopping m"

subsection \<open>The loop\<close>

text \<open>\<open>run\<close> returns, or raises, and its deferred function resets the scheduler.\<close>

definition finishRun :: "raised option \<Rightarrow> cronScheduler \<Rightarrow> cronScheduler" where
  "finishRun result m = m\<lparr>running := False, stopping := False, point := NotRunning, runResult := result\<rparr>"

definition jobOccurrence ::
  "(string \<Rightarrow> string) \<Rightarrow> string \<Rightarrow> location \<Rightarrow> cronJob \<Rightarrow> instant \<Rightarrow> raised + instant" where
  "jobOccurrence quote errorClass loc job after =
    cronNext quote (jobSchedule job) errorClass ''Scheduler.run'' (jobExpression job) after loc"

primrec startJobs ::
  "(string \<Rightarrow> string) \<Rightarrow> string \<Rightarrow> location \<Rightarrow> instant \<Rightarrow> cronJob list \<Rightarrow> cronJob list \<times> raised option"
where
  "startJobs quote errorClass loc started [] = ([], None)"
| "startJobs quote errorClass loc started (job # rest) =
    (case jobOccurrence quote errorClass loc job started of
       Inl r \<Rightarrow> (job # rest, Some r)
     | Inr t \<Rightarrow> (case startJobs quote errorClass loc started rest of
         (rest', result) \<Rightarrow> (job\<lparr>jobNext := t\<rparr> # rest', result)))"

definition startRun ::
  "(string \<Rightarrow> string) \<Rightarrow> string \<Rightarrow> location \<Rightarrow> instant \<Rightarrow> cronScheduler \<Rightarrow> cronScheduler" where
  "startRun quote errorClass loc started m =
    (if running m
     then m\<lparr>runResult := Some (errorClass, ''Scheduler.run: the Scheduler is already running'')\<rparr>
     else if jobs m = []
     then m\<lparr>runResult := Some (errorClass,
       ''Scheduler.run: the Scheduler has no jobs; add one with Scheduler.add first'')\<rparr>
     else
       (let (jobs', result) = startJobs quote errorClass loc started (jobs m);
            m1 = m\<lparr>running := True, stopping := False, jobs := jobs', runLog := [], runResult := None\<rparr>
        in case result of
             Some r \<Rightarrow> finishRun (Some r) m1
           | None \<Rightarrow> m1\<lparr>latest := started, point := Choosing\<rparr>))"

definition earliest :: "cronJob list \<Rightarrow> instant" where
  "earliest js = foldl (\<lambda>due job. if jobNext job < due then jobNext job else due) (jobNext (hd js)) (tl js)"

definition ahdCronLongestWait :: int where
  "ahdCronLongestWait = 30 * second"

definition waitFor :: "instant \<Rightarrow> instant \<Rightarrow> int" where
  "waitFor due now = (if due - now > ahdCronLongestWait then ahdCronLongestWait else due - now)"

definition noticeTime :: "instant \<Rightarrow> cronScheduler \<Rightarrow> cronScheduler" where
  "noticeTime now m = (if now > latest m then m\<lparr>latest := now\<rparr> else m)"

text \<open>
  One turn of the waiting loop: the clock shows \<open>now\<close>, and, once the due time has come, \<open>later\<close>. A
  wait ends early only when the stop channel is closed.
\<close>

definition waitTurn :: "instant \<Rightarrow> instant \<Rightarrow> bool \<Rightarrow> instant \<Rightarrow> cronScheduler \<Rightarrow> cronScheduler" where
  "waitTurn due now elapsed later m =
    (if now < due then (if \<not> elapsed \<and> stopping m then finishRun None m else m)
     else (noticeTime later m)\<lparr>point := Scanning 0\<rparr>)"

definition scanJob :: "nat \<Rightarrow> cronScheduler \<Rightarrow> cronScheduler" where
  "scanJob i m =
    (if i \<ge> length (jobs m) then m\<lparr>point := Choosing\<rparr>
     else if jobNext (jobs m ! i) > latest m then m\<lparr>point := Scanning (Suc i)\<rparr>
     else if stopRequested m then finishRun None m
     else m\<lparr>point := InTask i,
       runLog := \<lparr>RunJob = i, RunOccurrence = jobNext (jobs m ! i), RunSeen = latest m\<rparr> # runLog m\<rparr>)"

definition taskReturned ::
  "(string \<Rightarrow> string) \<Rightarrow> string \<Rightarrow> location \<Rightarrow> nat \<Rightarrow> instant \<Rightarrow> cronScheduler \<Rightarrow> cronScheduler" where
  "taskReturned quote errorClass loc i now m =
    (if stopRequested m then finishRun None m
     else
       (let m1 = noticeTime now m
        in case jobOccurrence quote errorClass loc (jobs m1 ! i) (latest m1) of
             Inl r \<Rightarrow> finishRun (Some r) m1
           | Inr t \<Rightarrow> m1\<lparr>jobs := (jobs m1)[i := (jobs m1 ! i)\<lparr>jobNext := t\<rparr>], point := Scanning (Suc i)\<rparr>))"

datatype cronEvent =
    RunCalled instant
  | Turn instant bool instant
  | Proceed
  | TaskReturns instant
  | TaskRaises raised
  | StopCalled
  | AddCalled string bool

fun schedulerStep ::
  "(string \<Rightarrow> string) \<Rightarrow> string \<Rightarrow> location \<Rightarrow> cronScheduler \<Rightarrow> cronEvent \<Rightarrow> cronScheduler" where
  "schedulerStep quote errorClass loc m (RunCalled started) = startRun quote errorClass loc started m"
| "schedulerStep quote errorClass loc m StopCalled = stop m"
| "schedulerStep quote errorClass loc m (AddCalled expression hasTask) =
    (case AhdCronSchedulerAdd quote errorClass expression hasTask m of Inl r \<Rightarrow> m | Inr m' \<Rightarrow> m')"
| "schedulerStep quote errorClass loc m Proceed =
    (case point m of
       Choosing \<Rightarrow> m\<lparr>point := Waiting (earliest (jobs m))\<rparr>
     | Scanning i \<Rightarrow> scanJob i m
     | _ \<Rightarrow> m)"
| "schedulerStep quote errorClass loc m (Turn now elapsed later) =
    (case point m of Waiting due \<Rightarrow> waitTurn due now elapsed later m | _ \<Rightarrow> m)"
| "schedulerStep quote errorClass loc m (TaskReturns now) =
    (case point m of InTask i \<Rightarrow> taskReturned quote errorClass loc i now m | _ \<Rightarrow> m)"
| "schedulerStep quote errorClass loc m (TaskRaises r) =
    (case point m of InTask i \<Rightarrow> finishRun (Some r) m | _ \<Rightarrow> m)"

definition schedulerRun ::
  "(string \<Rightarrow> string) \<Rightarrow> string \<Rightarrow> location \<Rightarrow> cronEvent list \<Rightarrow> cronScheduler" where
  "schedulerRun quote errorClass loc events = foldl (schedulerStep quote errorClass loc) newScheduler events"


subsection \<open>The invariant of the scheduler\<close>

text \<open>
  Two task runs of one log, the later first: time as seen by the loop does not go back, and a run of
  the same job is for an occurrence after everything seen at the earlier one.
\<close>

definition laterRun :: "cronTaskRun \<Rightarrow> cronTaskRun \<Rightarrow> bool" where
  "laterRun new old \<longleftrightarrow> RunSeen old \<le> RunSeen new
     \<and> (RunJob new = RunJob old \<longrightarrow> RunSeen old < RunOccurrence new)"

text \<open>A task ran for an occurrence of its schedule that was due.\<close>

definition dueRun :: "location \<Rightarrow> cronJob list \<Rightarrow> cronTaskRun \<Rightarrow> bool" where
  "dueRun loc js r \<longleftrightarrow> RunJob r < length js \<and> occurs (jobSchedule (js ! RunJob r)) loc (RunOccurrence r)
     \<and> RunOccurrence r \<le> RunSeen r"

definition settled :: "cronJob list \<Rightarrow> cronTaskRun list \<Rightarrow> bool" where
  "settled js log \<longleftrightarrow> (\<forall>r \<in> set log. RunSeen r < jobNext (js ! RunJob r))"

definition pointOk :: "cronScheduler \<Rightarrow> bool" where
  "pointOk m = (case point m of
      NotRunning \<Rightarrow> False
    | InTask i \<Rightarrow> i < length (jobs m) \<and> jobNext (jobs m ! i) \<le> latest m \<and>
        (\<exists>rest. settled (jobs m) rest \<and>
          runLog m = \<lparr>RunJob = i, RunOccurrence = jobNext (jobs m ! i), RunSeen = latest m\<rparr> # rest)
    | _ \<Rightarrow> settled (jobs m) (runLog m))"

definition logOk :: "location \<Rightarrow> cronJob list \<Rightarrow> cronTaskRun list \<Rightarrow> bool" where
  "logOk loc js log \<longleftrightarrow> sorted_wrt laterRun log \<and> list_all (dueRun loc js) log"

definition schedulerInv :: "location \<Rightarrow> cronScheduler \<Rightarrow> bool" where
  "schedulerInv loc m \<longleftrightarrow> logOk loc (jobs m) (runLog m) \<and> (stopping m \<longrightarrow> running m) \<and>
     (if running m
      then pointOk m \<and> (\<forall>job \<in> set (jobs m). occurs (jobSchedule job) loc (jobNext job))
        \<and> (\<forall>r \<in> set (runLog m). RunSeen r \<le> latest m)
      else point m = NotRunning)"

text \<open>The schedules of the jobs are never changed, so what the log says of them stays true.\<close>

definition sameSchedules :: "cronJob list \<Rightarrow> cronJob list \<Rightarrow> bool" where
  "sameSchedules js js' \<longleftrightarrow> extends (map jobSchedule js) (map jobSchedule js')"

lemma sameSchedules_simps [simp]:
  "sameSchedules js js" "sameSchedules js (js @ js')"
  "sameSchedules js (js[i := (js ! i)\<lparr>jobNext := t\<rparr>])"
  by (auto simp: sameSchedules_def map_update) (metis extends_refl list_update_id map_update)

lemma dueRun_same: "dueRun loc js r \<Longrightarrow> sameSchedules js js' \<Longrightarrow> dueRun loc js' r"
  unfolding dueRun_def sameSchedules_def extends_iff
  by (metis append_Nil2 length_append length_map nth_append nth_map trans_less_add1)

lemma logOk_same: "logOk loc js log \<Longrightarrow> sameSchedules js js' \<Longrightarrow> logOk loc js' log"
  by (auto simp: logOk_def list_all_iff intro: dueRun_same)

lemma cronNext_occurs: "cronNext quote s cls op e after loc = Inr t \<Longrightarrow> occurs s loc t"
  using cronNext_later by blast

lemma schedulerInv_running: "schedulerInv loc m \<Longrightarrow> running m \<longleftrightarrow> point m \<noteq> NotRunning"
  by (auto simp: schedulerInv_def pointOk_def split: if_splits)

lemma schedulerInv_result [simp]: "schedulerInv loc (m\<lparr>runResult := x\<rparr>) = schedulerInv loc m"
  by (cases "point m") (simp_all add: schedulerInv_def pointOk_def)

lemma startJobs_ok:
  "startJobs quote cls loc started js = (js', result) \<Longrightarrow> map jobSchedule js' = map jobSchedule js
     \<and> (result = None \<longrightarrow> (\<forall>job \<in> set js'. occurs (jobSchedule job) loc (jobNext job)))"
proof (induction js arbitrary: js' result)
  case (Cons job js)
  then show ?case
    using cronNext_occurs [of quote "jobSchedule job" cls _ _ started loc]
    unfolding startJobs.simps jobOccurrence_def by (auto split: sum.splits prod.splits)
qed simp

lemma finishRun_inv: "logOk loc (jobs m) (runLog m) \<Longrightarrow> schedulerInv loc (finishRun result m)"
  by (simp add: schedulerInv_def finishRun_def)

lemma noticeTime_simps [simp]:
  "jobs (noticeTime now m) = jobs m" "running (noticeTime now m) = running m"
  "stopping (noticeTime now m) = stopping m" "runLog (noticeTime now m) = runLog m"
  "point (noticeTime now m) = point m" "latest m \<le> latest (noticeTime now m)"
  by (simp_all add: noticeTime_def)

lemma startRun_inv:
  assumes "schedulerInv loc m" shows "schedulerInv loc (startRun quote cls loc started m)"
proof (cases "running m \<or> jobs m = []")
  case True
  then show ?thesis using assms by (auto simp: startRun_def)
next
  case False
  obtain js result where r: "startJobs quote cls loc started (jobs m) = (js, result)" by force
  from startJobs_ok [OF r] False show ?thesis
    by (cases result)
      (auto simp: startRun_def r schedulerInv_def finishRun_def logOk_def pointOk_def settled_def Let_def)
qed

lemma scanJob_inv:
  assumes "schedulerInv loc m" "point m = Scanning i"
  shows "schedulerInv loc (scanJob i m)"
proof -
  have m: "running m" "settled (jobs m) (runLog m)" "logOk loc (jobs m) (runLog m)"
    "\<forall>job \<in> set (jobs m). occurs (jobSchedule job) loc (jobNext job)" "\<forall>r \<in> set (runLog m). RunSeen r \<le> latest m"
    using assms by (auto simp: schedulerInv_def pointOk_def split: if_splits)
  show ?thesis
  proof (cases "i < length (jobs m) \<and> jobNext (jobs m ! i) \<le> latest m \<and> \<not> stopping m")
    case True
    with m show ?thesis
      by (auto simp: scanJob_def stopRequested_def schedulerInv_def pointOk_def logOk_def laterRun_def
          dueRun_def settled_def)
  next
    case False
    with m show ?thesis
      by (auto simp: scanJob_def stopRequested_def schedulerInv_def pointOk_def finishRun_def)
  qed
qed

lemma taskReturned_inv:
  assumes "schedulerInv loc m" "point m = InTask i"
  shows "schedulerInv loc (taskReturned quote cls loc i now m)"
proof -
  obtain rest where m: "running m" "logOk loc (jobs m) (runLog m)" "i < length (jobs m)"
    "settled (jobs m) rest" "runLog m = \<lparr>RunJob = i, RunOccurrence = jobNext (jobs m ! i), RunSeen = latest m\<rparr> # rest"
    "\<forall>job \<in> set (jobs m). occurs (jobSchedule job) loc (jobNext job)" "\<forall>r \<in> set (runLog m). RunSeen r \<le> latest m"
    using assms by (auto simp: schedulerInv_def pointOk_def split: if_splits)
  show ?thesis
  proof (cases "stopping m")
    case True
    then show ?thesis using m(2) by (simp add: taskReturned_def stopRequested_def finishRun_inv)
  next
    case False
    show ?thesis
    proof (cases "jobOccurrence quote cls loc (jobs m ! i) (latest (noticeTime now m))")
      case (Inl r)
      then show ?thesis
        using False m(2) by (simp add: taskReturned_def stopRequested_def Let_def finishRun_inv)
    next
      case (Inr t)
      let ?js = "(jobs m)[i := (jobs m ! i)\<lparr>jobNext := t\<rparr>]"
      have t: "latest (noticeTime now m) < t" "occurs (jobSchedule (jobs m ! i)) loc t"
        using Inr cronNext_later unfolding jobOccurrence_def by blast+
      have seen: "\<forall>r \<in> set (runLog m). RunSeen r \<le> latest (noticeTime now m)"
        using m(7) noticeTime_simps(6) [of m now] by (meson order_trans)
      have settled: "settled ?js (runLog m)"
        unfolding settled_def
      proof
        fix r assume r: "r \<in> set (runLog m)"
        show "RunSeen r < jobNext (?js ! RunJob r)"
        proof (cases "RunJob r = i")
          case True
          with r seen t(1) m(3) show ?thesis by auto
        next
          case False
          with r m(4,5) show ?thesis by (auto simp: settled_def)
        qed
      qed
      have "logOk loc ?js (runLog m)" using m(2) by (rule logOk_same) simp
      moreover have "\<forall>job \<in> set ?js. occurs (jobSchedule job) loc (jobNext job)"
        using m(6) t(2) by (auto dest!: set_update_subset_insert [THEN subsetD])
      ultimately show ?thesis
        using False Inr m(1) settled seen
        by (simp add: taskReturned_def stopRequested_def Let_def schedulerInv_def pointOk_def)
    qed
  qed
qed

lemma stop_inv: "schedulerInv loc m \<Longrightarrow> schedulerInv loc (stop m)"
  by (cases "point m") (auto simp: stop_def schedulerInv_def pointOk_def)

lemma AhdCronSchedulerAdd_inv:
  assumes "schedulerInv loc m" "AhdCronSchedulerAdd quote cls e hasTask m = Inr m'"
  shows "schedulerInv loc m'"
proof -
  obtain s where "\<not> running m" "m' = m\<lparr>jobs := jobs m @ [\<lparr>jobExpression = e, jobSchedule = s, jobNext = 0\<rparr>]\<rparr>"
    using assms(2) by (auto simp: AhdCronSchedulerAdd_def split: if_splits)
  moreover have "logOk loc (jobs m) (runLog m)" using assms(1) by (simp add: schedulerInv_def)
  then have "logOk loc (jobs m @ js) (runLog m)" for js by (rule logOk_same) simp
  ultimately show ?thesis using assms(1) by (simp add: schedulerInv_def)
qed

lemma choose_inv:
  "schedulerInv loc m \<Longrightarrow> point m = Choosing \<Longrightarrow> schedulerInv loc (m\<lparr>point := Waiting due\<rparr>)"
  by (simp add: schedulerInv_def pointOk_def split: if_splits)

lemma waitTurn_inv:
  assumes "schedulerInv loc m" "point m = Waiting due"
  shows "schedulerInv loc (waitTurn due now elapsed later m)"
proof -
  have m: "running m" "settled (jobs m) (runLog m)" "logOk loc (jobs m) (runLog m)"
    "\<forall>job \<in> set (jobs m). occurs (jobSchedule job) loc (jobNext job)" "\<forall>r \<in> set (runLog m). RunSeen r \<le> latest m"
    using assms by (auto simp: schedulerInv_def pointOk_def split: if_splits)
  moreover have "\<forall>r \<in> set (runLog m). RunSeen r \<le> latest (noticeTime later m)"
    using m(5) noticeTime_simps(6) [of m later] by (meson order_trans)
  ultimately show ?thesis
    using assms(1) by (simp add: waitTurn_def finishRun_inv) (simp add: schedulerInv_def pointOk_def)
qed

lemma raise_inv: "schedulerInv loc m \<Longrightarrow> schedulerInv loc (finishRun result m)"
  by (rule finishRun_inv) (simp add: schedulerInv_def)

lemma schedulerStep_inv: "schedulerInv loc m \<Longrightarrow> schedulerInv loc (schedulerStep quote cls loc m ev)"
  by (cases ev)
    (auto simp: startRun_inv stop_inv choose_inv scanJob_inv waitTurn_inv taskReturned_inv raise_inv
      AhdCronSchedulerAdd_inv split: cronPoint.split sum.split)

lemma schedulerRun_inv: "schedulerInv loc (schedulerRun quote cls loc events)"
proof -
  have "schedulerInv loc m \<Longrightarrow> schedulerInv loc (foldl (schedulerStep quote cls loc) m events)" for m
    by (induction events arbitrary: m) (simp_all add: schedulerStep_inv)
  moreover have "schedulerInv loc newScheduler"
    by (simp add: schedulerInv_def newScheduler_def logOk_def)
  ultimately show ?thesis by (simp add: schedulerRun_def)
qed


text \<open>Every wait is positive and at most half a minute.\<close>

lemma waitFor_bounds: "now < due \<Longrightarrow> 0 < waitFor due now \<and> waitFor due now \<le> ahdCronLongestWait"
  by (simp add: waitFor_def ahdCronLongestWait_def)

text \<open>After a stop was requested no task starts.\<close>

lemma stopped_starts_nothing:
  "stopping m \<Longrightarrow> schedulerInv loc m \<Longrightarrow> runLog (schedulerStep quote cls loc m ev) = runLog m"
  by (cases ev)
    (auto simp: schedulerInv_def startRun_def stop_def AhdCronSchedulerAdd_def scanJob_def stopRequested_def
      waitTurn_def taskReturned_def finishRun_def split: cronPoint.split sum.split if_splits)

text \<open>
  C40: The scheduler runs no occurrence twice and none early. Whatever the clock shows, also when it
  is set back, whatever the tasks take, and whenever \<open>stop\<close> and \<open>add\<close> are called: in the log of a run
  each task ran for an occurrence of its own schedule that was due, the times seen do not decrease, and
  a later run of the same job is for an occurrence after everything that had been seen before.
\<close>

theorem no_occurrence_runs_twice:
  "sorted_wrt laterRun (runLog (schedulerRun quote cls loc events)) \<and>
   list_all (dueRun loc (jobs (schedulerRun quote cls loc events))) (runLog (schedulerRun quote cls loc events))"
  using schedulerRun_inv by (auto simp: schedulerInv_def logOk_def)

end
