(* ===== verification/Bits.thy ===== *)
theory Bits
  imports Clock
begin

unbundle bit_operations_syntax

text \<open>
  The \<open>Bits\<close> module of the runtime (\<open>internal/backend/golang/ahdruntime/bits.go\<close>), on 64-bit words.
\<close>

definition AhdBitsAnd :: "int64 \<Rightarrow> int64 \<Rightarrow> int64" where
  "AhdBitsAnd left right = left AND right"

definition AhdBitsOr :: "int64 \<Rightarrow> int64 \<Rightarrow> int64" where
  "AhdBitsOr left right = left OR right"

definition AhdBitsXor :: "int64 \<Rightarrow> int64 \<Rightarrow> int64" where
  "AhdBitsXor left right = left XOR right"

definition AhdBitsNot :: "int64 \<Rightarrow> int64" where
  "AhdBitsNot value = NOT value"

definition distanceError :: "string \<Rightarrow> raised" where
  "distanceError errorClass = (errorClass, ''Bits shift distance must be between 0 and 63'')"

definition ahdBitsDistance :: "string \<Rightarrow> int64 \<Rightarrow> raised + nat" where
  "ahdBitsDistance errorClass distance =
    (if sint distance < 0 \<or> sint distance > 63
     then Inl (distanceError errorClass)
     else Inr (unat distance))"

definition AhdBitsShiftLeft :: "string \<Rightarrow> int64 \<Rightarrow> int64 \<Rightarrow> raised + int64" where
  "AhdBitsShiftLeft errorClass value distance =
    map_sum id (\<lambda>n. push_bit n value) (ahdBitsDistance errorClass distance)"

definition AhdBitsShiftRight :: "string \<Rightarrow> int64 \<Rightarrow> int64 \<Rightarrow> raised + int64" where
  "AhdBitsShiftRight errorClass value distance =
    map_sum id (\<lambda>n. signed_drop_bit n value) (ahdBitsDistance errorClass distance)"

definition AhdBitsShiftRightUnsigned :: "string \<Rightarrow> int64 \<Rightarrow> int64 \<Rightarrow> raised + int64" where
  "AhdBitsShiftRightUnsigned errorClass value distance =
    map_sum id (\<lambda>n. drop_bit n value) (ahdBitsDistance errorClass distance)"

text \<open>\<open>math/bits\<close>: a rotation by \<open>k\<close>, negative for the right.\<close>

definition RotateLeft64 :: "int64 \<Rightarrow> int \<Rightarrow> int64" where
  "RotateLeft64 x k = (let s = nat (k mod 64) in push_bit s x OR drop_bit (64 - s) x)"

definition OnesCount64 :: "int64 \<Rightarrow> nat" where
  "OnesCount64 x = length (filter (bit x) [0..<64])"

definition LeadingZeros64 :: "int64 \<Rightarrow> nat" where
  "LeadingZeros64 x = length (takeWhile (\<lambda>i. \<not> bit x i) (rev [0..<64]))"

definition TrailingZeros64 :: "int64 \<Rightarrow> nat" where
  "TrailingZeros64 x = length (takeWhile (\<lambda>i. \<not> bit x i) [0..<64])"

definition AhdBitsRotateLeft :: "string \<Rightarrow> int64 \<Rightarrow> int64 \<Rightarrow> raised + int64" where
  "AhdBitsRotateLeft errorClass value distance =
    map_sum id (\<lambda>n. RotateLeft64 value (int n)) (ahdBitsDistance errorClass distance)"

definition AhdBitsRotateRight :: "string \<Rightarrow> int64 \<Rightarrow> int64 \<Rightarrow> raised + int64" where
  "AhdBitsRotateRight errorClass value distance =
    map_sum id (\<lambda>n. RotateLeft64 value (- int n)) (ahdBitsDistance errorClass distance)"

definition AhdBitsCount :: "int64 \<Rightarrow> int64" where
  "AhdBitsCount value = of_nat (OnesCount64 value)"

definition AhdBitsLeadingZeros :: "int64 \<Rightarrow> int64" where
  "AhdBitsLeadingZeros value = of_nat (LeadingZeros64 value)"

definition AhdBitsTrailingZeros :: "int64 \<Rightarrow> int64" where
  "AhdBitsTrailingZeros value = of_nat (TrailingZeros64 value)"

subsection \<open>Rotations\<close>

lemma bit_rotate:
  assumes "i < 64"
  shows "bit (RotateLeft64 x k) i = bit x (nat ((int i - k) mod 64))"
proof -
  define s where "s = nat (k mod 64)"
  have s: "s < 64" "int s = k mod 64" by (simp_all add: s_def nat_less_iff)
  have "bit (RotateLeft64 x k) i = (if s \<le> i then bit x (i - s) else bit x (64 - s + i))"
    using assms s(1) by (auto simp: RotateLeft64_def Let_def s_def [symmetric] bit_or_iff bit_push_bit_iff
        bit_drop_bit_eq dest: bit_imp_le_length)
  moreover have "(int i - k) mod 64 = (int i - int s) mod 64" by (simp add: s(2) mod_diff_right_eq)
  moreover have "(int i - int s) mod 64 = (if s \<le> i then int i - int s else int i - int s + 64)"
  proof (cases "s \<le> i")
    case False
    have "int i - int s = (- 1) * 64 + (int i - int s + 64)" by simp
    from div_mod_of [OF this] False s(1) assms show ?thesis by simp
  qed (use assms in simp)
  moreover have "nat (int i - int s + 64) = 64 - s + i" if "\<not> s \<le> i" using that s(1) by linarith
  ultimately show ?thesis by (simp add: nat_diff_distrib')
qed

lemma rotate_back: "RotateLeft64 (RotateLeft64 x k) (- k) = x"
proof (rule bit_word_eqI)
  fix i assume "i < LENGTH(64)"
  then have i: "i < 64" by simp
  have "nat ((int i + k) mod 64) < 64" by (simp add: nat_less_iff)
  then have "bit (RotateLeft64 (RotateLeft64 x k) (- k)) i = bit x (nat ((int (nat ((int i + k) mod 64)) - k) mod 64))"
    by (simp add: bit_rotate [OF i] bit_rotate)
  also have "(int (nat ((int i + k) mod 64)) - k) mod 64 = int i"
    using i by (simp add: mod_diff_left_eq)
  finally show "bit (RotateLeft64 (RotateLeft64 x k) (- k)) i = bit x i" by simp
qed

lemma OnesCount64_card: "OnesCount64 x = card {i. i < 64 \<and> bit x i}"
proof -
  have "OnesCount64 x = card (set (filter (bit x) [0..<64]))"
    unfolding OnesCount64_def by (rule distinct_card [symmetric]) simp
  also have "set (filter (bit x) [0..<64]) = {i. i < 64 \<and> bit x i}" by auto
  finally show ?thesis .
qed

lemma OnesCount64_rotate: "OnesCount64 (RotateLeft64 x k) = OnesCount64 x"
proof -
  let ?f = "\<lambda>i. nat ((int i - k) mod 64)" and ?g = "\<lambda>i. nat ((int i + k) mod 64)"
  have inverse: "?g (?f i) = i" "?f (?g i) = i" if "i < 64" for i
    using that by (simp_all add: mod_add_left_eq mod_diff_left_eq)
  have range: "?f i < 64" "?g i < 64" for i by (simp_all add: nat_less_iff)
  have "bij_betw ?f {i. i < 64 \<and> bit (RotateLeft64 x k) i} {i. i < 64 \<and> bit x i}"
    by (rule bij_betw_byWitness [where f' = ?g]) (use inverse range in \<open>auto simp: bit_rotate\<close>)
  then show ?thesis unfolding OnesCount64_card by (rule bij_betw_same_card)
qed

lemma distance_value:
  assumes "\<not> sint (distance :: int64) < 0" "\<not> 63 < sint distance"
  shows "nat (sint distance) = unat distance"
proof -
  have "take_bit 64 (sint distance) = sint distance"
    by (rule take_bit_int_eq_self) (use assms in simp_all)
  then have "uint distance = sint distance" by (simp add: uint_sint)
  then show ?thesis by (metis nat_int uint_nat)
qed

lemma shifted:
  fixes v :: int64
  shows "sint (signed_drop_bit n v) = sint v div 2 ^ n" "uint (drop_bit n v) = uint v div 2 ^ n"
    "uint (push_bit n v) = uint v * 2 ^ n mod 18446744073709551616"
proof -
  show "sint (signed_drop_bit n v) = sint v div 2 ^ n"
    by (simp only: sint_signed_drop_bit_eq drop_bit_eq_div)
  have "take_bit 64 (uint v) = uint v" by (rule bintr_uint) simp
  then show "uint (drop_bit n v) = uint v div 2 ^ n"
    unfolding unsigned_drop_bit_eq by (simp add: drop_bit_eq_div)
  show "uint (push_bit n v) = uint v * 2 ^ n mod 18446744073709551616"
    unfolding unsigned_push_bit_eq by (simp add: push_bit_eq_mult take_bit_eq_mod)
qed

text \<open>
  Rotations lose nothing. A distance outside 0 to 63 raises for both directions; otherwise
  rotating to the right undoes rotating to the left by the same distance, and the number of ones stays.
\<close>

theorem rotation_round_trip:
  "case AhdBitsRotateLeft cls value distance of
     Inl r \<Rightarrow> sint distance \<notin> {0..63} \<and> AhdBitsRotateRight cls value distance = Inl r
   | Inr rotated \<Rightarrow> sint distance \<in> {0..63} \<and> AhdBitsRotateRight cls rotated distance = Inr value
       \<and> AhdBitsCount rotated = AhdBitsCount value"
  by (auto simp: AhdBitsRotateLeft_def AhdBitsRotateRight_def ahdBitsDistance_def AhdBitsCount_def
      OnesCount64_rotate rotate_back)

text \<open>
  Shifts are arithmetic. A distance outside 0 to 63 raises; otherwise shifting to the right divides
  by a power of two and rounds down, on the signed value or on the unsigned one, and shifting to the
  left multiplies by it, modulo \<open>2\<^sup>6\<^sup>4\<close>.
\<close>

theorem shifts_are_arithmetic:
  "if sint distance \<in> {0..63}
   then map_sum id sint (AhdBitsShiftRight cls value distance) = Inr (sint value div 2 ^ nat (sint distance))
      \<and> map_sum id uint (AhdBitsShiftRightUnsigned cls value distance) = Inr (uint value div 2 ^ nat (sint distance))
      \<and> map_sum id uint (AhdBitsShiftLeft cls value distance) = Inr (uint value * 2 ^ nat (sint distance) mod 2 ^ 64)
   else AhdBitsShiftRight cls value distance = Inl (distanceError cls)
      \<and> AhdBitsShiftRightUnsigned cls value distance = Inl (distanceError cls)
      \<and> AhdBitsShiftLeft cls value distance = Inl (distanceError cls)"
  by (auto simp: AhdBitsShiftRight_def AhdBitsShiftRightUnsigned_def AhdBitsShiftLeft_def
      ahdBitsDistance_def distanceError_def distance_value shifted)

end
