(* ===== verification/Hosts.thy ===== *)
theory Hosts
  imports GoText
begin

text \<open>
  Local development host names and the block of the hosts file that AhdCode manages
  (\<open>internal/localdev/hostname.go\<close>, \<open>internal/localdev/hosts.go\<close>).

  \<open>lower\<close> stands for Go's \<open>strings.ToLower\<close> and \<open>equalFold\<close> for \<open>strings.EqualFold\<close> (tables of the
  Unicode database), \<open>hostOf\<close> for the host part \<open>net.SplitHostPort\<close> finds, if any, and \<open>isIP\<close> and
  \<open>loopbackIP\<close> for \<open>net.ParseIP\<close>.
\<close>

subsection \<open>White space (strings.TrimSpace, strings.Fields)\<close>

definition isSpaceRune :: "nat \<Rightarrow> bool" where
  "isSpaceRune r = (r \<in> {0x09, 0x0A, 0x0B, 0x0C, 0x0D, 0x20, 0x85, 0xA0, 0x1680, 0x2028, 0x2029, 0x202F,
     0x205F, 0x3000} \<or> 0x2000 \<le> r \<and> r \<le> 0x200A)"

definition RuneStart :: "char \<Rightarrow> bool" where
  "RuneStart c = (\<not> (0x80 \<le> byteOf c \<and> byteOf c < 0xC0))"

text \<open>\<open>utf8.DecodeLastRuneInString\<close> looks back at most four bytes for the start of the last rune.\<close>

definition DecodeLastRune :: "string \<Rightarrow> nat \<times> nat" where
  "DecodeLastRune s =
    (if s = [] then (RuneError, 0)
     else if byteOf (last s) < 0x80 then (byteOf (last s), 1)
     else
       (let e = length s; lim = e - 4;
            start = (case filter (\<lambda>i. RuneStart (s ! i)) (rev [lim..<e - 1]) of
                [] \<Rightarrow> lim - 1 | i # _ \<Rightarrow> i);
            (r, size) = DecodeRune (drop start s)
        in if start + size \<noteq> e then (RuneError, 1) else (r, size)))"

lemma DecodeLastRune_size: "s \<noteq> [] \<Longrightarrow> 0 < snd (DecodeLastRune s)"
proof -
  assume s: "s \<noteq> []"
  define start where "start = (case filter (\<lambda>i. RuneStart (s ! i)) (rev [length s - 4..<length s - 1]) of
     [] \<Rightarrow> length s - 4 - 1 | i # _ \<Rightarrow> i)"
  have "start < length s"
  proof (cases "filter (\<lambda>i. RuneStart (s ! i)) (rev [length s - 4..<length s - 1])")
    case Nil
    then show ?thesis using s by (cases s) (auto simp: start_def)
  next
    case (Cons i rest)
    then have "i \<in> set (filter (\<lambda>i. RuneStart (s ! i)) (rev [length s - 4..<length s - 1]))" by simp
    then have "i < length s" by auto
    moreover have "start = i" by (simp only: start_def Cons list.case)
    ultimately show ?thesis by simp
  qed
  then have "0 < snd (DecodeRune (drop start s))" by (intro DecodeRune_size_pos) simp
  with s show ?thesis
    unfolding DecodeLastRune_def Let_def start_def [symmetric] by (auto split: prod.split)
qed

function trimLeftSpace :: "string \<Rightarrow> string" where
  "trimLeftSpace s =
    (if s \<noteq> [] \<and> isSpaceRune (fst (DecodeRune s)) then trimLeftSpace (drop (snd (DecodeRune s)) s) else s)"
  by pat_completeness auto
termination
  by (relation "measure length") (auto simp: DecodeRune_size_pos)

function trimRightSpace :: "string \<Rightarrow> string" where
  "trimRightSpace s =
    (if s \<noteq> [] \<and> isSpaceRune (fst (DecodeLastRune s))
     then trimRightSpace (take (length s - snd (DecodeLastRune s)) s) else s)"
  by pat_completeness auto
termination
  by (relation "measure length") (auto simp: DecodeLastRune_size)

declare trimLeftSpace.simps [simp del] trimRightSpace.simps [simp del]

definition TrimSpace :: "string \<Rightarrow> string" where
  "TrimSpace s = trimRightSpace (trimLeftSpace s)"

function fieldsFrom :: "string \<Rightarrow> string \<Rightarrow> string list" where
  "fieldsFrom current s =
    (if s = [] then (if current = [] then [] else [current])
     else
       (let (r, size) = DecodeRune s
        in if isSpaceRune r
           then (if current = [] then [] else [current]) @ fieldsFrom [] (drop size s)
           else fieldsFrom (current @ take size s) (drop size s)))"
  by pat_completeness auto
termination
  by (relation "measure (\<lambda>(current, s). length s)")
    (auto simp: prod_eq_iff DecodeRune_size_pos)

declare fieldsFrom.simps [simp del]

definition Fields :: "string \<Rightarrow> string list" where
  "Fields s = fieldsFrom [] s"

subsection \<open>Host names\<close>

definition LocalTLD :: string where
  "LocalTLD = ''test''"

definition dotTLD :: string where
  "dotTLD = ''.'' @ LocalTLD"

definition letterOrDigit :: "char \<Rightarrow> bool" where
  "letterOrDigit c = (97 \<le> byteOf c \<and> byteOf c \<le> 122 \<or> 48 \<le> byteOf c \<and> byteOf c \<le> 57)"

definition labelByte :: "char \<Rightarrow> bool" where
  "labelByte c = (letterOrDigit c \<or> c = CHR ''-'')"

definition validLabel :: "string \<Rightarrow> bool" where
  "validLabel label =
    (if label = '''' \<or> length label > 63 then False
     else if hd label = CHR ''-'' \<or> last label = CHR ''-'' then False
     else list_all labelByte label)"

definition ValidHostname :: "string \<Rightarrow> bool" where
  "ValidHostname hostname =
    (if hostname = '''' \<or> length hostname > 253 then False
     else if \<not> HasSuffix hostname dotTLD then False
     else
       (let stem = TrimSuffix hostname dotTLD
        in if stem = '''' then False else list_all validLabel (splitAt (CHR ''.'') stem)))"


text \<open>
  \<open>sanitizeLabel\<close>; a byte above 0x7F belongs to a rune that is neither a letter a to z, a digit nor a
  hyphen, so the bytes are filtered one by one.
\<close>

definition trimHyphens :: "string \<Rightarrow> string" where
  "trimHyphens s = rev (dropWhile (\<lambda>c. c = CHR ''-'') (rev (dropWhile (\<lambda>c. c = CHR ''-'') s)))"

definition sanitizeStep :: "string \<Rightarrow> char \<Rightarrow> string" where
  "sanitizeStep kept c =
    (if letterOrDigit c then kept @ [c]
     else if c = CHR ''-'' \<and> length kept > 0 then kept @ [c]
     else kept)"

definition sanitizeLabel :: "(string \<Rightarrow> string) \<Rightarrow> string \<Rightarrow> string" where
  "sanitizeLabel lower label = trimHyphens (foldl sanitizeStep [] (lower label))"

definition countryCodeSecondLevelLabels :: "string set" where
  "countryCodeSecondLevelLabels =
    {''com'', ''co'', ''net'', ''org'', ''edu'', ''gov'', ''mil'', ''ac'', ''gen'', ''biz'', ''info'', ''name'',
     ''web'', ''tv'', ''k12'', ''sch'', ''ltd'', ''nom'', ''or'', ''ne'', ''go'', ''int'', ''av'', ''bel'', ''pol'',
     ''tsk'', ''dr'', ''kep'', ''res'', ''in''}"

definition trimBrackets :: "string \<Rightarrow> string" where
  "trimBrackets s =
    (let bracket = (\<lambda>c. c = CHR ''['' \<or> c = CHR '']'')
     in rev (dropWhile bracket (rev (dropWhile bracket s))))"

text \<open>The labels left when the registrable suffix is dropped.\<close>

definition projectLabels :: "string list \<Rightarrow> string list" where
  "projectLabels labels =
    (if length labels > 1 then
       (let topLevel = last labels; labels = butlast labels
        in if length labels > 1 \<and> length topLevel = 2 \<and> last labels \<in> countryCodeSecondLevelLabels
           then butlast labels else labels)
     else labels)"

definition DeriveHostname ::
  "(string \<Rightarrow> string) \<Rightarrow> (string \<Rightarrow> string option) \<Rightarrow> (string \<Rightarrow> bool) \<Rightarrow> string \<Rightarrow> string" where
  "DeriveHostname lower hostOf isIP appHost =
    (let host = TrimSpace appHost
     in if host = '''' then ''''
        else
          (let host = (case hostOf host of Some bare \<Rightarrow> bare | None \<Rightarrow> host);
               host = lower (TrimSuffix (trimBrackets host) ''.'')
           in if host = '''' then ''''
              else if isIP host then ''''
              else
                (let kept = filter (\<lambda>l. l \<noteq> '''')
                       (map (sanitizeLabel lower) (projectLabels (splitAt (CHR ''.'') host)))
                 in if kept = [] then '''' else joinStrings ''.'' kept @ ''.'' @ LocalTLD)))"

definition SuffixHostname :: "string \<Rightarrow> int \<Rightarrow> string" where
  "SuffixHostname hostname index =
    (if index \<le> 0 then hostname
     else TrimSuffix hostname dotTLD @ FormatInt index @ dotTLD)"

definition IsLoopbackHost :: "(string \<Rightarrow> bool option) \<Rightarrow> string \<Rightarrow> bool" where
  "IsLoopbackHost loopbackIP host =
    (let trimmed = trimBrackets (TrimSpace host)
     in if trimmed = '''' then False
        else (case loopbackIP trimmed of None \<Rightarrow> False | Some isLoopback \<Rightarrow> isLoopback))"

subsection \<open>The managed block of the hosts file\<close>

abbreviation lf :: char where "lf \<equiv> CHR 0x0A"

definition hostsBeginMarker :: string where
  "hostsBeginMarker = ''# BEGIN AHDCODE LOCAL''"

definition hostsEndMarker :: string where
  "hostsEndMarker = ''# END AHDCODE LOCAL''"

text \<open>\<open>sort.Strings\<close> orders by bytes.\<close>

fun lessBytes :: "string \<Rightarrow> string \<Rightarrow> bool" where
  "lessBytes [] t = (t \<noteq> [])"
| "lessBytes (c # s) [] = False"
| "lessBytes (c # s) (d # t) = (byteOf c < byteOf d \<or> c = d \<and> lessBytes s t)"

fun insertSorted :: "string \<Rightarrow> string list \<Rightarrow> string list" where
  "insertSorted s [] = [s]"
| "insertSorted s (t # ts) = (if lessBytes t s then t # insertSorted s ts else s # t # ts)"

definition sortStrings :: "string list \<Rightarrow> string list" where
  "sortStrings ss = foldr insertSorted ss []"

definition uniqueStep :: "(string \<Rightarrow> string) \<Rightarrow> string list \<Rightarrow> string \<Rightarrow> string list" where
  "uniqueStep lower unique hostname =
    (let name = lower (TrimSpace hostname)
     in if \<not> ValidHostname name \<or> name \<in> set unique then unique else unique @ [name])"

definition blockNames :: "(string \<Rightarrow> string) \<Rightarrow> string list \<Rightarrow> string list" where
  "blockNames lower hostnames = sortStrings (foldl (uniqueStep lower) [] hostnames)"

definition loopbackPrefix :: string where
  "loopbackPrefix = ''127.0.0.1 ''"

definition RenderHostsBlock :: "(string \<Rightarrow> string) \<Rightarrow> string list \<Rightarrow> string" where
  "RenderHostsBlock lower hostnames =
    (let unique = blockNames lower hostnames
     in if unique = [] then ''''
        else hostsBeginMarker @ [lf] @ concat (map (\<lambda>name. loopbackPrefix @ name @ [lf]) unique)
          @ hostsEndMarker @ [lf])"

text \<open>The loop over the lines: the index of the begin marker, and of the end marker behind it.\<close>

fun findMarkers :: "nat \<Rightarrow> nat option \<Rightarrow> string list \<Rightarrow> nat option \<times> nat option" where
  "findMarkers index start [] = (start, None)"
| "findMarkers index start (line # lines) =
    (let trimmed = TrimSpace line
     in if start = None \<and> trimmed = hostsBeginMarker then findMarkers (index + 1) (Some index) lines
        else if start \<noteq> None \<and> trimmed = hostsEndMarker then (start, Some index)
        else findMarkers (index + 1) start lines)"

definition splitManagedBlock :: "string \<Rightarrow> string \<times> string \<times> bool" where
  "splitManagedBlock content =
    (let lines = splitAt lf content
     in case findMarkers 0 None lines of
          (None, _) \<Rightarrow> (content, '''', False)
        | (Some start, stopAt) \<Rightarrow>
            (let stop = (case stopAt of Some i \<Rightarrow> i | None \<Rightarrow> length lines - 1);
                 front = joinStrings [lf] (take start lines);
                 front = (if front \<noteq> '''' \<and> \<not> HasSuffix front [lf] then front @ [lf] else front);
                 rest = joinStrings [lf] (drop (stop + 1) lines)
             in (front, rest, True)))"

definition ApplyHostsBlock :: "string \<Rightarrow> string \<Rightarrow> string" where
  "ApplyHostsBlock existing block =
    (case splitManagedBlock existing of
       (front, rest, True) \<Rightarrow> front @ block @ rest
     | (_, _, False) \<Rightarrow>
         if block = '''' then existing
         else (if existing \<noteq> '''' \<and> \<not> HasSuffix existing [lf] then existing @ [lf] else existing) @ block)"

text \<open>
  \<open>bufio.Scanner\<close>: the lines without their ends; it stops at a line that does not fit its buffer of
  65536 bytes.
\<close>

definition dropCR :: "string \<Rightarrow> string" where
  "dropCR line = (if line \<noteq> [] \<and> last line = CHR 0x0D then butlast line else line)"

definition scannerLines :: "string \<Rightarrow> string list" where
  "scannerLines content =
    (let lines = splitAt lf content;
         lines = (if last lines = [] then butlast lines else lines)
     in map dropCR (takeWhile (\<lambda>line. length line < 65536) lines))"

fun blockLines :: "bool \<Rightarrow> string list \<Rightarrow> string list" where
  "blockLines inside [] = []"
| "blockLines inside (line # lines) =
    (let trimmed = TrimSpace line
     in if trimmed = hostsBeginMarker then blockLines True lines
        else if trimmed = hostsEndMarker then []
        else if \<not> inside then blockLines inside lines
        else
          (let fields = Fields trimmed
           in (if length fields < 2 \<or> hd fields \<noteq> ''127.0.0.1'' then [] else tl fields)
              @ blockLines inside lines))"

definition HostsBlockNames :: "string \<Rightarrow> string list" where
  "HostsBlockNames content =
    (case splitManagedBlock content of
       (_, _, False) \<Rightarrow> []
     | (_, _, True) \<Rightarrow> blockLines False (scannerLines content))"

fun mapsLoopback :: "(string \<Rightarrow> string \<Rightarrow> bool) \<Rightarrow> string \<Rightarrow> string \<Rightarrow> string list \<Rightarrow> bool \<Rightarrow> bool option" where
  "mapsLoopback equalFold want address [] found = Some found"
| "mapsLoopback equalFold want address (name # names) found =
    (if \<not> equalFold (TrimSuffix name ''.'') want then mapsLoopback equalFold want address names found
     else if address \<noteq> ''127.0.0.1'' then None
     else mapsLoopback equalFold want address names True)"

fun mapsLines :: "(string \<Rightarrow> string \<Rightarrow> bool) \<Rightarrow> string \<Rightarrow> string list \<Rightarrow> bool \<Rightarrow> bool" where
  "mapsLines equalFold want [] found = found"
| "mapsLines equalFold want (line # lines) found =
    (let fields = Fields (fst (cutAt (CHR ''#'') line))
     in if length fields < 2 then mapsLines equalFold want lines found
        else
          (case mapsLoopback equalFold want (hd fields) (tl fields) found of
             None \<Rightarrow> False
           | Some found \<Rightarrow> mapsLines equalFold want lines found))"

definition HostsMapsLoopback ::
  "(string \<Rightarrow> string) \<Rightarrow> (string \<Rightarrow> string \<Rightarrow> bool) \<Rightarrow> string \<Rightarrow> string \<Rightarrow> bool" where
  "HostsMapsLoopback lower equalFold content hostname =
    (let want = lower (TrimSpace hostname)
     in if want = '''' then False else mapsLines equalFold want (scannerLines content) False)"

end
