(* ===== verification/HostsProofs.thy ===== *)
theory HostsProofs
  imports Hosts
begin

text \<open>
  The managed block of the hosts file and the host names in it. A file is seen as its lines
  (\<open>linesText\<close>); a rendered block is found again between the lines around it, which are kept byte for
  byte, except for a blank line directly above the block.
\<close>

subsection \<open>Lines\<close>

definition linesText :: "string list \<Rightarrow> string" where
  "linesText ls = concat (map (\<lambda>l. l @ [lf]) ls)"

lemma linesText_simps [simp]:
  "linesText [] = []" "linesText (l # ls) = l @ lf # linesText ls"
  "linesText (ls @ ls') = linesText ls @ linesText ls'"
  by (simp_all add: linesText_def)

definition lineFree :: "string list \<Rightarrow> bool" where
  "lineFree ls \<longleftrightarrow> (\<forall>l \<in> set ls. lf \<notin> set l)"

lemma splitAt_lines: "lineFree ls \<Longrightarrow> splitAt lf (linesText ls @ t) = ls @ splitAt lf t"
  by (induction ls) (auto simp: lineFree_def splitAt_append)

lemma lineFree_splitAt: "lineFree (splitAt lf s)"
  by (auto simp: lineFree_def dest: splitAt_free)

lemma join_lines: "ls \<noteq> [] \<Longrightarrow> joinStrings [lf] ls @ [lf] = linesText ls"
proof (induction ls)
  case (Cons l ls)
  then show ?case by (cases "ls = []") (simp_all add: joinStrings_Cons)
qed simp

lemma join_last: "joinStrings [lf] (ls @ [l]) = linesText ls @ l"
proof -
  have "joinStrings [lf] (ls @ [l]) @ [lf] = (linesText ls @ l) @ [lf]"
    using join_lines [of "ls @ [l]"] by simp
  then show ?thesis by (simp only: append_same_eq)
qed

text \<open>A text ends with a newline, or is empty, exactly if it is a list of whole lines.\<close>

definition terminated :: "string \<Rightarrow> string" where
  "terminated s = (if s \<noteq> [] \<and> \<not> HasSuffix s [lf] then s @ [lf] else s)"

definition endsBlank :: "string \<Rightarrow> bool" where
  "endsBlank s \<longleftrightarrow> s = [lf] \<or> HasSuffix s [lf, lf]"

lemma HasSuffix_append: "HasSuffix s p \<longleftrightarrow> (\<exists>q. s = q @ p)"
  by (auto simp: HasSuffix_def) (metis append_take_drop_id)

lemma linesText_blank: "endsBlank (linesText (ls @ [l])) \<longleftrightarrow> l = [] \<or> (\<exists>k. l = k @ [lf])"
proof
  assume "endsBlank (linesText (ls @ [l]))"
  then show "l = [] \<or> (\<exists>k. l = k @ [lf])"
    by (cases l rule: rev_cases) (auto simp: endsBlank_def HasSuffix_append)
next
  assume l: "l = [] \<or> (\<exists>k. l = k @ [lf])"
  show "endsBlank (linesText (ls @ [l]))"
  proof (cases "l = []")
    case True
    show ?thesis
    proof (cases ls rule: rev_cases)
      case (snoc ks k)
      then show ?thesis using True by (auto simp: endsBlank_def HasSuffix_append)
    qed (simp add: True endsBlank_def)
  next
    case False
    with l show ?thesis by (auto simp: endsBlank_def HasSuffix_append)
  qed
qed

lemma terminated_lines:
  assumes "splitAt lf s = ls @ [l]"
  shows "terminated s = (if l = [] then linesText ls else linesText (ls @ [l]))"
proof -
  have s: "s = linesText ls @ l" using join_splitAt [of lf s] by (simp only: assms join_last)
  have l: "lf \<notin> set l" using splitAt_free [of l lf s] assms by simp
  show ?thesis
  proof (cases "l = []")
    case True
    have "HasSuffix s [lf] \<or> s = []"
      using s True by (cases ls rule: rev_cases) (auto simp: HasSuffix_append)
    then show ?thesis using True s by (auto simp: terminated_def)
  next
    case False
    then have "\<not> HasSuffix s [lf]" using s l by (cases l rule: rev_cases) (auto simp: HasSuffix_append)
    then show ?thesis using False s by (simp add: terminated_def)
  qed
qed

subsection \<open>Finding the markers\<close>

definition hasLine :: "string \<Rightarrow> string list \<Rightarrow> bool" where
  "hasLine marker ls \<longleftrightarrow> (\<exists>l \<in> set ls. TrimSpace l = marker)"

lemma findMarkers_before:
  "\<not> hasLine hostsBeginMarker ls \<Longrightarrow> findMarkers i None (ls @ rest) = findMarkers (i + length ls) None rest"
  by (induction ls arbitrary: i) (auto simp: hasLine_def Let_def)

lemma findMarkers_inside:
  "\<not> hasLine hostsEndMarker ls \<Longrightarrow> findMarkers i (Some k) (ls @ rest) = findMarkers (i + length ls) (Some k) rest"
  by (induction ls arbitrary: i) (auto simp: hasLine_def Let_def)

lemma findMarkers_start:
  "findMarkers i None ls = (start, stop) \<Longrightarrow>
     (case start of None \<Rightarrow> \<not> hasLine hostsBeginMarker ls
      | Some k \<Rightarrow> i \<le> k \<and> k < i + length ls \<and> \<not> hasLine hostsBeginMarker (take (k - i) ls))"
proof (induction ls arbitrary: i)
  case (Cons l ls)
  show ?case
  proof (cases "TrimSpace l = hostsBeginMarker")
    case True
    have kept: "fst (findMarkers j (Some k) ls) = Some k" for j k
      by (induction ls arbitrary: j) (auto simp: Let_def)
    have "findMarkers (i + 1) (Some i) ls = (start, stop)" using Cons.prems True by (simp add: Let_def)
    with kept [of "i + 1" i] have "start = Some i" by simp
    then show ?thesis by (simp add: hasLine_def)
  next
    case False
    with Cons.prems have "findMarkers (i + 1) None ls = (start, stop)" by (simp add: Let_def)
    from Cons.IH [OF this] False show ?thesis
      by (auto simp: hasLine_def take_Cons' split: option.splits)
  qed
qed (simp add: hasLine_def)

text \<open>A file that consists of lines, a block with its markers, and a rest, is split there.\<close>

definition plainEdge :: "char \<Rightarrow> bool" where
  "plainEdge c \<longleftrightarrow> byteOf c < 0x80 \<and> \<not> isSpaceRune (byteOf c)"

lemma TrimSpace_plain:
  assumes "s \<noteq> []" "plainEdge (hd s)" "plainEdge (last s)"
  shows "TrimSpace s = s"
proof -
  have "DecodeRune s = (byteOf (hd s), 1)"
    using assms by (cases s) (simp_all add: plainEdge_def DecodeRune_ascii)
  then have left: "trimLeftSpace s = s"
    using assms by (subst trimLeftSpace.simps) (simp add: plainEdge_def)
  have "DecodeLastRune s = (byteOf (last s), 1)"
    using assms by (simp add: plainEdge_def DecodeLastRune_def)
  then have "trimRightSpace s = s"
    using assms by (subst trimRightSpace.simps) (simp add: plainEdge_def)
  with left show ?thesis by (simp add: TrimSpace_def)
qed

lemma trim_markers: "TrimSpace hostsBeginMarker = hostsBeginMarker" "TrimSpace hostsEndMarker = hostsEndMarker"
  by (intro TrimSpace_plain; simp add: hostsBeginMarker_def hostsEndMarker_def plainEdge_def byteOf_def isSpaceRune_def)+

definition markedBlock :: "string list \<Rightarrow> string" where
  "markedBlock entries = linesText (hostsBeginMarker # entries @ [hostsEndMarker])"

lemma markers_lineFree: "lineFree [hostsBeginMarker, hostsEndMarker]"
  by code_simp

lemma splitManagedBlock_marked:
  assumes "lineFree ls" "\<not> hasLine hostsBeginMarker ls" "lineFree entries"
    "\<not> hasLine hostsEndMarker entries"
  shows "splitManagedBlock (linesText ls @ markedBlock entries @ rest) =
    (if ls \<noteq> [] \<and> last ls = [] then linesText (butlast ls) else linesText ls, rest, True)"
proof -
  let ?lines = "ls @ hostsBeginMarker # entries @ hostsEndMarker # splitAt lf rest"
  have free: "lineFree (ls @ hostsBeginMarker # entries @ [hostsEndMarker])"
    using assms(1,3) markers_lineFree by (auto simp: lineFree_def)
  have lines: "splitAt lf (linesText ls @ markedBlock entries @ rest) = ?lines"
    using splitAt_lines [OF free, of rest] by (simp add: markedBlock_def)
  have "hostsBeginMarker \<noteq> hostsEndMarker" by code_simp
  then have find: "findMarkers 0 None ?lines = (Some (length ls), Some (length ls + 1 + length entries))"
    using findMarkers_before [OF assms(2), of 0] findMarkers_inside [OF assms(4)]
    by (simp add: Let_def trim_markers)
  have rest: "joinStrings [lf] (drop (length ls + 1 + length entries + 1) ?lines) = rest"
    using join_splitAt [of lf rest] by simp
  have front: "(let front = joinStrings [lf] (take (length ls) ?lines)
      in if front \<noteq> [] \<and> \<not> HasSuffix front [lf] then front @ [lf] else front)
    = (if ls \<noteq> [] \<and> last ls = [] then linesText (butlast ls) else linesText ls)"
  proof (cases ls rule: rev_cases)
    case (snoc ks k)
    have "terminated (linesText ks @ k) = (if k = [] then linesText ks else linesText (ks @ [k]))"
    proof (rule terminated_lines)
      have "lineFree ks" "lf \<notin> set k" using assms(1) snoc by (auto simp: lineFree_def)
      then show "splitAt lf (linesText ks @ k) = ks @ [k]" by (simp add: splitAt_lines splitAt_plain)
    qed
    then show ?thesis by (simp add: snoc join_last terminated_def Let_def)
  qed simp
  show ?thesis
    using front rest unfolding splitManagedBlock_def Let_def lines find by simp
qed

subsection \<open>The rendered block\<close>

text \<open>A valid host name consists of plain bytes, so an entry is one line of two fields.\<close>

lemma joinStrings_set: "c \<in> set (joinStrings sep ps) \<Longrightarrow> c \<in> set sep \<or> (\<exists>p \<in> set ps. c \<in> set p)"
  by (induction sep ps rule: joinStrings.induct) auto

lemma nameByte:
  assumes "ValidHostname name" "c \<in> set name"
  shows "labelByte c \<or> c = CHR ''.''"
proof -
  obtain stem where name: "name = stem @ dotTLD"
    using assms(1) by (auto simp: ValidHostname_def HasSuffix_append split: if_splits)
  have trim: "TrimSuffix name dotTLD = stem"
    by (simp add: name TrimSuffix_def HasSuffix_append)
  have labels: "list_all validLabel (splitAt (CHR ''.'') stem)"
    using assms(1) trim by (auto simp: ValidHostname_def split: if_splits)
  have "labelByte c \<or> c = CHR ''.''" if "c \<in> set stem"
  proof -
    have "c \<in> set (joinStrings ''.'' (splitAt (CHR ''.'') stem))" using that by (simp add: join_splitAt)
    then have "c = CHR ''.'' \<or> (\<exists>l \<in> set (splitAt (CHR ''.'') stem). c \<in> set l)"
      by (auto dest: joinStrings_set)
    then show ?thesis
      using labels by (auto simp: list_all_iff validLabel_def split: if_splits)
  qed
  moreover have "labelByte c \<or> c = CHR ''.''" if "c \<in> set dotTLD"
    using that by (auto simp: dotTLD_def LocalTLD_def labelByte_def letterOrDigit_def byteOf_def)
  ultimately show ?thesis using assms(2) by (auto simp: name)
qed

lemma plain_nameByte: "labelByte c \<or> c = CHR ''.'' \<Longrightarrow> plainEdge c"
  by (auto simp: labelByte_def letterOrDigit_def plainEdge_def isSpaceRune_def byteOf_def)

lemma lf_not_plain: "\<not> plainEdge lf"
  by (simp add: plainEdge_def isSpaceRune_def byteOf_def)

lemma fieldsFrom_plain:
  "list_all plainEdge w \<Longrightarrow> fieldsFrom current (w @ s) = fieldsFrom (current @ w) s"
proof (induction w arbitrary: current)
  case (Cons c w)
  have "fieldsFrom current (c # w @ s) = fieldsFrom (current @ [c]) (w @ s)"
    using Cons.prems by (subst fieldsFrom.simps) (simp add: plainEdge_def DecodeRune_ascii)
  with Cons show ?case by simp
qed simp

lemma fieldsFrom_space:
  "fieldsFrom current (CHR '' '' # s) = (if current = [] then [] else [current]) @ fieldsFrom [] s"
  by (subst fieldsFrom.simps) (simp add: DecodeRune_ascii byteOf_def isSpaceRune_def)

lemma fieldsFrom_end: "fieldsFrom current [] = (if current = [] then [] else [current])"
  by (subst fieldsFrom.simps) simp

definition hostEntry :: "string \<Rightarrow> string" where
  "hostEntry name = loopbackPrefix @ name"

lemma hostEntry_props:
  assumes "ValidHostname name"
  shows "TrimSpace (hostEntry name) = hostEntry name" "lf \<notin> set (hostEntry name)"
    "Fields (hostEntry name) = [''127.0.0.1'', name]"
    "hostEntry name \<noteq> hostsBeginMarker" "hostEntry name \<noteq> hostsEndMarker"
proof -
  have plain: "list_all plainEdge name"
    using nameByte [OF assms] plain_nameByte by (auto simp: list_all_iff)
  have ne: "name \<noteq> []" using assms by (auto simp: ValidHostname_def)
  have one: "plainEdge (CHR ''1'')" "list_all plainEdge ''127.0.0.1''"
    by (auto simp: plainEdge_def isSpaceRune_def byteOf_def)
  show "TrimSpace (hostEntry name) = hostEntry name"
    using ne plain one(1) by (intro TrimSpace_plain) (auto simp: hostEntry_def loopbackPrefix_def list_all_iff)
  show "lf \<notin> set (hostEntry name)"
    using plain lf_not_plain by (auto simp: hostEntry_def loopbackPrefix_def list_all_iff)
  have "fieldsFrom [] (''127.0.0.1'' @ CHR '' '' # name) = [''127.0.0.1'', name]"
    using fieldsFrom_plain [OF one(2), of "[]" "CHR '' '' # name"] fieldsFrom_plain [OF plain, of "[]" "[]"] ne
    by (simp add: fieldsFrom_space fieldsFrom_end)
  then show "Fields (hostEntry name) = [''127.0.0.1'', name]"
    by (simp add: Fields_def hostEntry_def loopbackPrefix_def)
  show "hostEntry name \<noteq> hostsBeginMarker" "hostEntry name \<noteq> hostsEndMarker"
    by (simp_all add: hostEntry_def loopbackPrefix_def hostsBeginMarker_def hostsEndMarker_def)
qed

lemma insertSorted_set: "set (insertSorted s ss) = insert s (set ss)"
  by (induction ss) auto

lemma sortStrings_set: "set (sortStrings ss) = set ss"
  by (induction ss) (simp_all add: sortStrings_def insertSorted_set)

lemma uniqueStep_valid:
  "\<forall>n \<in> set unique. ValidHostname n \<Longrightarrow> \<forall>n \<in> set (foldl (uniqueStep lower) unique hostnames). ValidHostname n"
proof (induction hostnames arbitrary: unique)
  case (Cons h hs)
  have "\<forall>n \<in> set (uniqueStep lower unique h). ValidHostname n"
    using Cons.prems by (simp add: uniqueStep_def Let_def)
  from Cons.IH [OF this] show ?case by simp
qed simp

lemma blockNames_valid: "n \<in> set (blockNames lower hostnames) \<Longrightarrow> ValidHostname n"
  using uniqueStep_valid [of "[]" lower hostnames] by (simp add: blockNames_def sortStrings_set)

lemma RenderHostsBlock_marked:
  "RenderHostsBlock lower hostnames =
    (if blockNames lower hostnames = [] then [] else markedBlock (map hostEntry (blockNames lower hostnames)))"
proof -
  have "concat (map (\<lambda>name. loopbackPrefix @ name @ [lf]) names) = linesText (map hostEntry names)" for names
    by (induction names) (simp_all add: hostEntry_def)
  then show ?thesis by (simp add: RenderHostsBlock_def markedBlock_def Let_def)
qed

lemma entries_props:
  assumes "\<forall>n \<in> set names. ValidHostname n"
  shows "lineFree (map hostEntry names)" "\<not> hasLine hostsEndMarker (map hostEntry names)"
    "\<not> hasLine hostsBeginMarker (map hostEntry names)"
  using assms hostEntry_props by (auto simp: lineFree_def hasLine_def)

subsection \<open>The text around the block\<close>

text \<open>
  What belongs above and below the block: the lines up to the first begin marker, and the lines behind
  the first end marker after it; the whole file if there is no block.
\<close>

definition noMarker :: "string \<Rightarrow> string \<Rightarrow> bool" where
  "noMarker marker line \<longleftrightarrow> TrimSpace line \<noteq> marker"

definition outsideBlock :: "string \<Rightarrow> string \<times> string" where
  "outsideBlock content =
    (let lines = splitAt lf content;
         block = dropWhile (noMarker hostsBeginMarker) lines
     in if block = [] then (terminated content, '''')
        else (terminated (joinStrings [lf] (takeWhile (noMarker hostsBeginMarker) lines)),
          joinStrings [lf] (tl (dropWhile (noMarker hostsEndMarker) (tl block)))))"

lemma outsideBlock_Cons:
  assumes "dropWhile (noMarker hostsBeginMarker) (splitAt lf content) = b # t"
  shows "outsideBlock content =
    (terminated (joinStrings [lf] (takeWhile (noMarker hostsBeginMarker) (splitAt lf content))),
     joinStrings [lf] (tl (dropWhile (noMarker hostsEndMarker) t)))"
  unfolding outsideBlock_def Let_def assms by simp

lemma hasLine_noMarker: "\<not> hasLine marker ls \<longleftrightarrow> (\<forall>l \<in> set ls. noMarker marker l)"
  by (auto simp: hasLine_def noMarker_def)

lemma findMarkers_block:
  assumes "ls = front @ b # inside @ rest" "\<forall>l \<in> set front. noMarker hostsBeginMarker l"
    "\<not> noMarker hostsBeginMarker b" "\<forall>l \<in> set inside. noMarker hostsEndMarker l"
    "rest = [] \<or> \<not> noMarker hostsEndMarker (hd rest)"
  shows "findMarkers 0 None ls =
    (Some (length front), if rest = [] then None else Some (length front + 1 + length inside))"
proof -
  have "findMarkers 0 None ls = findMarkers (length front + 1) (Some (length front)) (inside @ rest)"
    using assms(2,3) findMarkers_before [of front 0 "b # inside @ rest"]
    by (simp add: assms(1) hasLine_noMarker) (simp add: noMarker_def)
  also have "\<dots> = findMarkers (length front + 1 + length inside) (Some (length front)) rest"
    using assms(4) findMarkers_inside by (simp add: hasLine_noMarker)
  also have "\<dots> = (Some (length front), if rest = [] then None else Some (length front + 1 + length inside))"
    using assms(5) by (cases rest) (auto simp: noMarker_def Let_def)
  finally show ?thesis .
qed

lemma split_outside:
  "splitManagedBlock content =
    (if hasLine hostsBeginMarker (splitAt lf content)
     then (fst (outsideBlock content), snd (outsideBlock content), True) else (content, '''', False))"
proof -
  define lines where "lines = splitAt lf content"
  define front where "front = takeWhile (noMarker hostsBeginMarker) lines"
  have lines: "lines = front @ dropWhile (noMarker hostsBeginMarker) lines" by (simp add: front_def)
  have plain: "\<forall>l \<in> set front. noMarker hostsBeginMarker l" by (auto simp: front_def dest: set_takeWhileD)
  show ?thesis
  proof (cases "dropWhile (noMarker hostsBeginMarker) lines")
    case Nil
    then have none: "\<not> hasLine hostsBeginMarker lines" using lines plain hasLine_noMarker by simp
    then have "findMarkers 0 None lines = (None, None)" using findMarkers_before [of lines 0 "[]"] by simp
    then show ?thesis using none by (simp add: splitManagedBlock_def lines_def [symmetric] Let_def)
  next
    case (Cons b t)
    have b: "\<not> noMarker hostsBeginMarker b" using Cons by (metis hd_dropWhile list.sel(1) list.distinct(1))
    define inside where "inside = takeWhile (noMarker hostsEndMarker) t"
    define rest where "rest = dropWhile (noMarker hostsEndMarker) t"
    have t: "t = inside @ rest" by (simp add: inside_def rest_def)
    have all: "lines = front @ b # inside @ rest" using lines Cons t by simp
    have "findMarkers 0 None lines =
        (Some (length front), if rest = [] then None else Some (length front + 1 + length inside))"
      using all plain b
    proof (rule findMarkers_block)
      show "\<forall>l \<in> set inside. noMarker hostsEndMarker l" by (auto simp: inside_def dest: set_takeWhileD)
      show "rest = [] \<or> \<not> noMarker hostsEndMarker (hd rest)" using hd_dropWhile rest_def by blast
    qed
    moreover have "hasLine hostsBeginMarker lines" using all b by (auto simp: hasLine_def noMarker_def)
    moreover have "outsideBlock content = (terminated (joinStrings [lf] front), joinStrings [lf] (tl rest))"
      using outsideBlock_Cons Cons by (simp add: lines_def front_def rest_def)
    moreover have "drop (length front) lines = b # inside @ rest" "take (length front) lines = front"
      "drop (length front + 1 + length inside + 1) lines = tl rest"
      using all by (simp_all add: drop_Suc)
    moreover have "rest = [] \<Longrightarrow> length lines - 1 + 1 = length front + 1 + length inside"
      using all by simp
    ultimately show ?thesis
      by (cases "rest = []")
        (simp_all add: splitManagedBlock_def lines_def [symmetric] Let_def terminated_def all)
  qed
qed

definition withoutBlank :: "string \<Rightarrow> string" where
  "withoutBlank s = (if endsBlank s then butlast s else s)"

lemma ApplyHostsBlock_outside:
  assumes "block \<noteq> []"
  shows "ApplyHostsBlock existing block = fst (outsideBlock existing) @ block @ snd (outsideBlock existing)"
proof (cases "hasLine hostsBeginMarker (splitAt lf existing)")
  case True
  then show ?thesis by (simp add: ApplyHostsBlock_def split_outside)
next
  case False
  then have "dropWhile (noMarker hostsBeginMarker) (splitAt lf existing) = []"
    by (simp add: dropWhile_eq_Nil_conv hasLine_noMarker)
  then have "outsideBlock existing = (terminated existing, '''')" by (simp add: outsideBlock_def)
  with False assms show ?thesis by (simp add: ApplyHostsBlock_def split_outside terminated_def)
qed

text \<open>The text above the block is a list of whole lines without a begin marker.\<close>

lemma hasLine_terminated:
  assumes "splitAt lf s = ls" "\<not> hasLine hostsBeginMarker ls"
  obtains ks where "terminated s = linesText ks" "lineFree ks" "\<not> hasLine hostsBeginMarker ks"
proof -
  obtain ks k where ls: "ls = ks @ [k]" using splitAt_ne assms(1) by (metis rev_exhaust)
  have free: "lineFree ls" using lineFree_splitAt assms(1) by blast
  show thesis
  proof (cases "k = []")
    case True
    then show thesis using terminated_lines [of s ks k] assms ls free
      by (intro that [of ks]) (auto simp: lineFree_def hasLine_def)
  next
    case False
    then show thesis using terminated_lines [of s ks k] assms ls free
      by (intro that [of ls]) auto
  qed
qed

lemma outside_lines:
  obtains ls where "fst (outsideBlock content) = linesText ls" "lineFree ls" "\<not> hasLine hostsBeginMarker ls"
proof -
  define lines where "lines = splitAt lf content"
  define front where "front = takeWhile (noMarker hostsBeginMarker) lines"
  have plain: "\<not> hasLine hostsBeginMarker front"
    by (auto simp: hasLine_noMarker front_def dest: set_takeWhileD)
  consider (whole) "dropWhile (noMarker hostsBeginMarker) lines = []" | (empty) b t where "front = []"
    "dropWhile (noMarker hostsBeginMarker) lines = b # t" | (some) b t where "front \<noteq> []"
    "dropWhile (noMarker hostsBeginMarker) lines = b # t" by (meson list.exhaust)
  then show thesis
  proof cases
    case whole
    then have "front = lines" by (simp add: front_def takeWhile_eq_all_conv dropWhile_eq_Nil_conv)
    moreover have "fst (outsideBlock content) = terminated content"
      using whole by (simp add: outsideBlock_def lines_def)
    ultimately show thesis using hasLine_terminated plain lines_def that by metis
  next
    case empty
    then have "fst (outsideBlock content) = terminated []"
      using outsideBlock_Cons by (simp add: lines_def front_def)
    then show thesis using that [of "[]"] by (simp add: terminated_def lineFree_def hasLine_def)
  next
    case some
    then have top: "fst (outsideBlock content) = terminated (joinStrings [lf] front)"
      using outsideBlock_Cons by (simp add: lines_def front_def)
    have "lf \<notin> set l" if "l \<in> set front" for l
      using that splitAt_free [of l lf content] by (auto simp: front_def lines_def dest: set_takeWhileD)
    then have "splitAt lf (joinStrings [lf] front) = front"
      using some(1) by (intro splitAt_join) auto
    then show thesis using hasLine_terminated plain top that by metis
  qed
qed

lemma withoutBlank_lines:
  assumes "lineFree ls"
  shows "withoutBlank (linesText ls) = (if ls \<noteq> [] \<and> last ls = [] then linesText (butlast ls) else linesText ls)"
proof (cases ls rule: rev_cases)
  case Nil
  then show ?thesis by (simp add: withoutBlank_def endsBlank_def HasSuffix_append)
next
  case (snoc ks k)
  have "endsBlank (linesText ls) \<longleftrightarrow> k = []"
    using assms unfolding snoc linesText_blank by (auto simp: lineFree_def)
  then show ?thesis by (auto simp: withoutBlank_def snoc butlast_append)
qed

text \<open>
  C34: the hosts file. The rendered block of any host names is put between the text above and the text
  below the block that is there, or at the end of the file, and it is found there again: applying another
  block, also an empty one, replaces exactly it. The text below is kept byte for byte. The text above is
  kept except at its end: a last line without a line end gets one, and a blank line directly above an
  existing block is dropped. The comments of \<open>hosts.go\<close> promise more, that everything outside the markers
  is copied byte for byte and that nothing above or below the block moves; the code does not do that.
\<close>

theorem hosts_block_is_managed:
  assumes "RenderHostsBlock lower hostnames \<noteq> ''''"
  shows "ApplyHostsBlock existing (RenderHostsBlock lower hostnames) =
      fst (outsideBlock existing) @ RenderHostsBlock lower hostnames @ snd (outsideBlock existing)
    \<and> ApplyHostsBlock (ApplyHostsBlock existing (RenderHostsBlock lower hostnames)) block =
      withoutBlank (fst (outsideBlock existing)) @ block @ snd (outsideBlock existing)"
proof -
  define names where "names = blockNames lower hostnames"
  have block: "RenderHostsBlock lower hostnames = markedBlock (map hostEntry names)"
    using assms by (auto simp: RenderHostsBlock_marked names_def)
  have entries: "lineFree (map hostEntry names)" "\<not> hasLine hostsEndMarker (map hostEntry names)"
    using entries_props blockNames_valid names_def by blast+
  obtain ls where ls: "fst (outsideBlock existing) = linesText ls" "lineFree ls" "\<not> hasLine hostsBeginMarker ls"
    using outside_lines .
  note first = ApplyHostsBlock_outside [OF assms, of existing]
  have "splitManagedBlock (ApplyHostsBlock existing (RenderHostsBlock lower hostnames)) =
      (withoutBlank (linesText ls), snd (outsideBlock existing), True)"
    using first splitManagedBlock_marked [OF ls(2,3) entries]
    by (simp only: ls(1) block withoutBlank_lines [OF ls(2)])
  then have "ApplyHostsBlock (ApplyHostsBlock existing (RenderHostsBlock lower hostnames)) block =
      withoutBlank (fst (outsideBlock existing)) @ block @ snd (outsideBlock existing)"
    by (simp add: ApplyHostsBlock_def ls(1))
  with first show ?thesis by simp
qed

lemma hosts_block_is_managed_witness:
  "(let existing = ''127.0.0.1 localhost'' @ [lf]; block = RenderHostsBlock (\<lambda>s. s) [''b.test'', ''a.test'']
    in block \<noteq> '''' \<and> ApplyHostsBlock (ApplyHostsBlock existing block) '''' = existing)"
proof -
  let ?names = "[''b.test'', ''a.test'']"
  define existing where "existing = ''127.0.0.1 localhost'' @ [lf]"
  have trim: "TrimSpace ''b.test'' = ''b.test''" "TrimSpace ''a.test'' = ''a.test''"
    by (intro TrimSpace_plain; simp add: plainEdge_def byteOf_def isSpaceRune_def)+
  have valid: "ValidHostname ''a.test''" "ValidHostname ''b.test''"
    by (simp_all add: ValidHostname_def dotTLD_def LocalTLD_def HasSuffix_def TrimSuffix_def
        validLabel_def labelByte_def letterOrDigit_def byteOf_def)
  have names: "blockNames (\<lambda>s. s) ?names = [''a.test'', ''b.test'']"
    by (simp add: blockNames_def uniqueStep_def trim valid sortStrings_def byteOf_def)
  then have block: "RenderHostsBlock (\<lambda>s. s) ?names \<noteq> ''''"
    by (simp add: RenderHostsBlock_def Let_def)
  have lines: "splitAt lf existing = [''127.0.0.1 localhost'', '''']" by (simp add: existing_def)
  have "TrimSpace ''127.0.0.1 localhost'' = ''127.0.0.1 localhost''"
    by (intro TrimSpace_plain) (simp_all add: plainEdge_def byteOf_def isSpaceRune_def)
  moreover have "TrimSpace '''' = ''''"
    by (simp add: TrimSpace_def trimLeftSpace.simps [of "[]"] trimRightSpace.simps [of "[]"])
  ultimately have "\<forall>l \<in> set (splitAt lf existing). noMarker hostsBeginMarker l"
    by (simp add: lines noMarker_def hostsBeginMarker_def)
  then have none: "dropWhile (noMarker hostsBeginMarker) (splitAt lf existing) = []"
    unfolding dropWhile_eq_Nil_conv .
  have "outsideBlock existing = (existing, '''')"
    unfolding outsideBlock_def Let_def none by (simp add: terminated_def HasSuffix_def existing_def)
  moreover have "withoutBlank existing = existing"
    by (simp add: withoutBlank_def endsBlank_def HasSuffix_def existing_def)
  ultimately have "ApplyHostsBlock (ApplyHostsBlock existing (RenderHostsBlock (\<lambda>s. s) ?names)) '''' = existing"
    using conjunct2 [OF hosts_block_is_managed [OF block, of existing "''''"]]
    by (simp only: fst_conv snd_conv append.simps append_Nil2)
  with block show ?thesis unfolding Let_def existing_def [symmetric] by blast
qed

subsection \<open>Derived host names\<close>

lemma sanitizeStep_labels: "list_all labelByte kept \<Longrightarrow> list_all labelByte (foldl sanitizeStep kept s)"
  by (induction s arbitrary: kept) (auto simp: sanitizeStep_def labelByte_def)

lemma trimHyphens_props:
  assumes "list_all labelByte s"
  shows "list_all labelByte (trimHyphens s)"
    and "trimHyphens s \<noteq> [] \<Longrightarrow> hd (trimHyphens s) \<noteq> CHR ''-'' \<and> last (trimHyphens s) \<noteq> CHR ''-''"
proof -
  define t where "t = dropWhile (\<lambda>c. c = CHR ''-'') s"
  define u where "u = dropWhile (\<lambda>c. c = CHR ''-'') (rev t)"
  have r: "trimHyphens s = rev u" by (simp add: trimHyphens_def t_def u_def)
  have "set u \<subseteq> set s" unfolding u_def t_def by (metis set_dropWhileD set_rev subsetI)
  with assms show "list_all labelByte (trimHyphens s)" by (auto simp: r list_all_iff)
  assume ne: "trimHyphens s \<noteq> []"
  have "hd u \<noteq> CHR ''-''" using ne hd_dropWhile [of "\<lambda>c. c = CHR ''-''" "rev t"] r u_def by force
  moreover have "last u = hd t \<and> t \<noteq> []"
  proof -
    obtain front where "rev t = front @ u" using takeWhile_dropWhile_id [symmetric] u_def by metis
    then have "t = rev u @ rev front" by (metis rev_append rev_rev_ident)
    then show ?thesis using ne r by (simp add: hd_append hd_rev)
  qed
  moreover have "t \<noteq> [] \<Longrightarrow> hd t \<noteq> CHR ''-''"
    using hd_dropWhile [of "\<lambda>c. c = CHR ''-''" s] t_def by force
  ultimately show "hd (trimHyphens s) \<noteq> CHR ''-'' \<and> last (trimHyphens s) \<noteq> CHR ''-''"
    using ne r by (simp add: hd_rev last_rev)
qed

lemma sanitizeLabel_valid:
  "sanitizeLabel lower l \<noteq> [] \<Longrightarrow> validLabel (sanitizeLabel lower l) \<longleftrightarrow> length (sanitizeLabel lower l) \<le> 63"
  "list_all labelByte (sanitizeLabel lower l)"
  using trimHyphens_props [OF sanitizeStep_labels [of "[]" "lower l"]]
  by (auto simp: sanitizeLabel_def validLabel_def)

text \<open>
  A derived host name is a valid one, up to the length limits: it is valid exactly if neither the
  name (253) nor one of its labels (63) is too long. In particular every label is made of lower-case
  letters, digits and interior hyphens, and the name ends in .test.
\<close>

theorem derived_hostnames_are_valid:
  assumes "DeriveHostname lower hostOf isIP appHost \<noteq> ''''"
  shows "ValidHostname (DeriveHostname lower hostOf isIP appHost) \<longleftrightarrow>
    length (DeriveHostname lower hostOf isIP appHost) \<le> 253 \<and>
    list_all (\<lambda>l. length l \<le> 63) (splitAt (CHR ''.'') (DeriveHostname lower hostOf isIP appHost))"
proof -
  obtain labels where kept: "labels \<noteq> []" "\<forall>l \<in> set labels. l \<noteq> '''' \<and> l \<in> range (sanitizeLabel lower)"
    and name: "DeriveHostname lower hostOf isIP appHost = joinStrings ''.'' labels @ dotTLD"
  proof -
    have "\<exists>ls. DeriveHostname lower hostOf isIP appHost =
        joinStrings ''.'' (filter (\<lambda>l. l \<noteq> '''') (map (sanitizeLabel lower) ls)) @ dotTLD
        \<and> filter (\<lambda>l. l \<noteq> '''') (map (sanitizeLabel lower) ls) \<noteq> []"
      using assms unfolding DeriveHostname_def Let_def dotTLD_def by (metis append.assoc)
    then obtain ls where "DeriveHostname lower hostOf isIP appHost =
        joinStrings ''.'' (filter (\<lambda>l. l \<noteq> '''') (map (sanitizeLabel lower) ls)) @ dotTLD"
      "filter (\<lambda>l. l \<noteq> '''') (map (sanitizeLabel lower) ls) \<noteq> []" by blast
    then show thesis by (intro that) auto
  qed
  have dotless: "CHR ''.'' \<notin> set l" if "l \<in> set labels" for l
  proof -
    have "\<not> labelByte (CHR ''.'')" by (simp add: labelByte_def letterOrDigit_def byteOf_def)
    then show ?thesis using that kept(2) sanitizeLabel_valid(2) [of lower] by (auto simp: list_all_iff)
  qed
  have split: "splitAt (CHR ''.'') (joinStrings ''.'' labels) = labels"
    using splitAt_join [OF kept(1) dotless] .
  have all: "joinStrings ''.'' labels @ dotTLD = joinStrings ''.'' (labels @ [LocalTLD])"
    using kept(1)
  proof (induction labels)
    case (Cons l ls)
    then show ?case by (cases "ls = []") (simp_all add: joinStrings_Cons dotTLD_def)
  qed simp
  have "CHR ''.'' \<notin> set LocalTLD" by (simp add: LocalTLD_def)
  then have splitAll: "splitAt (CHR ''.'') (joinStrings ''.'' labels @ dotTLD) = labels @ [LocalTLD]"
    unfolding all using dotless by (intro splitAt_join) auto
  have "validLabel l \<longleftrightarrow> length l \<le> 63" if "l \<in> set labels" for l
    using kept(2) that sanitizeLabel_valid(1) [of lower] by auto
  then have labels: "list_all validLabel labels \<longleftrightarrow> list_all (\<lambda>l. length l \<le> 63) labels"
    by (simp add: list_all_iff)
  have "joinStrings ''.'' labels \<noteq> ''''"
    using kept by (cases "(''.'', labels)" rule: joinStrings.cases) auto
  then show ?thesis
    unfolding name splitAll ValidHostname_def
    using labels split by (auto simp: TrimSuffix_def HasSuffix_append LocalTLD_def)
qed

lemma derived_hostnames_are_valid_witness:
  "DeriveHostname (\<lambda>s. s) (\<lambda>_. None) (\<lambda>_. False) ''www.a.com.tr'' = ''www.a.test'' \<and> ValidHostname ''www.a.test''"
proof -
  have "TrimSpace ''www.a.com.tr'' = ''www.a.com.tr''"
    by (intro TrimSpace_plain) (simp_all add: plainEdge_def byteOf_def isSpaceRune_def)
  moreover have "TrimSuffix (trimBrackets ''www.a.com.tr'') ''.'' = ''www.a.com.tr''"
    by (simp add: trimBrackets_def TrimSuffix_def HasSuffix_def)
  moreover have "projectLabels (splitAt (CHR ''.'') ''www.a.com.tr'') = [''www'', ''a'']"
    by (simp add: projectLabels_def countryCodeSecondLevelLabels_def)
  moreover have "sanitizeLabel (\<lambda>s. s) ''www'' = ''www''" "sanitizeLabel (\<lambda>s. s) ''a'' = ''a''"
    by (simp_all add: sanitizeLabel_def sanitizeStep_def letterOrDigit_def byteOf_def trimHyphens_def)
  ultimately have name: "DeriveHostname (\<lambda>s. s) (\<lambda>_. None) (\<lambda>_. False) ''www.a.com.tr'' = ''www.a.test''"
    by (simp add: DeriveHostname_def LocalTLD_def)
  have "DeriveHostname (\<lambda>s. s) (\<lambda>_. None) (\<lambda>_. False) ''www.a.com.tr'' \<noteq> ''''" by (simp add: name)
  from derived_hostnames_are_valid [OF this] show ?thesis by (simp add: name)
qed

end
