(* ===== verification/IntArith.thy ===== *)
theory IntArith
  imports GoText "HOL-Library.Signed_Division"
begin

unbundle bit_operations_syntax

text \<open>
  Checked integer arithmetic, indices, and the lazy iteration \<open>between\<close>
  (\<open>internal/backend/golang/ahdruntime/ahdruntime.go\<close>). Values are 64-bit words; Go's operators wrap,
  and the functions of the runtime raise where the result would not be the mathematical one.
\<close>

subsection \<open>The operations\<close>

definition MaxInt64 :: int64 where "MaxInt64 = 0x7FFFFFFFFFFFFFFF"
definition MinInt64 :: int64 where "MinInt64 = 0x8000000000000000"

definition ahdOverflow :: raised where
  "ahdOverflow = (''OverflowError'', ''Int arithmetic overflowed signed 64-bit range'')"

definition AhdIntAdd :: "int64 \<Rightarrow> int64 \<Rightarrow> raised + int64" where
  "AhdIntAdd left right =
    (let sum = left + right
     in if (sint sum > sint left) \<noteq> (sint right > 0) then Inl ahdOverflow else Inr sum)"

definition AhdIntSubtract :: "int64 \<Rightarrow> int64 \<Rightarrow> raised + int64" where
  "AhdIntSubtract left right =
    (let difference = left - right
     in if (sint difference < sint left) \<noteq> (sint right > 0) then Inl ahdOverflow else Inr difference)"

text \<open>Go's \<open>/\<close> and \<open>%\<close> truncate towards zero.\<close>

definition goDiv :: "int64 \<Rightarrow> int64 \<Rightarrow> int64" where
  "goDiv left right = word_of_int (sint left sdiv sint right)"

definition goRem :: "int64 \<Rightarrow> int64 \<Rightarrow> int64" where
  "goRem left right = word_of_int (sint left smod sint right)"

definition AhdIntMultiply :: "int64 \<Rightarrow> int64 \<Rightarrow> raised + int64" where
  "AhdIntMultiply left right =
    (if left = 0 \<or> right = 0 then Inr 0
     else if left = MinInt64 \<and> right = -1 \<or> right = MinInt64 \<and> left = -1 then Inl ahdOverflow
     else (let product = left * right
           in if goDiv product right \<noteq> left then Inl ahdOverflow else Inr product))"

definition AhdIntNegate :: "int64 \<Rightarrow> raised + int64" where
  "AhdIntNegate value = (if value = MinInt64 then Inl ahdOverflow else Inr (- value))"

definition AhdIntModulo :: "int64 \<Rightarrow> int64 \<Rightarrow> raised + int64" where
  "AhdIntModulo left right =
    (if right = 0 then Inl (''DivisionByZeroError'', ''Int modulo by zero'')
     else if right = -1 then Inr 0
     else Inr (goRem left right))"

lemma sint_shift_right: "sint (signed_drop_bit 1 (w::int64)) = sint w div 2"
  by (simp add: sint_signed_drop_bit_eq drop_bit_eq_div)

function powerLoop :: "int64 \<Rightarrow> int64 \<Rightarrow> int64 \<Rightarrow> raised + int64" where
  "powerLoop result current remaining =
    (if sint remaining \<le> 0 then Inr result
     else
       (case (if remaining AND 1 = 1 then AhdIntMultiply result current else Inr result) of
          Inl r \<Rightarrow> Inl r
        | Inr result \<Rightarrow>
            let remaining = signed_drop_bit 1 remaining
            in if sint remaining > 0
               then (case AhdIntMultiply current current of
                       Inl r \<Rightarrow> Inl r
                     | Inr current \<Rightarrow> powerLoop result current remaining)
               else powerLoop result current remaining))"
  by pat_completeness auto
termination
  by (relation "measure (\<lambda>(_, _, remaining). nat (sint remaining))")
    (auto simp: sint_shift_right simp flip: One_nat_def)

declare powerLoop.simps [simp del]

definition AhdIntPower :: "int64 \<Rightarrow> int64 \<Rightarrow> raised + int64" where
  "AhdIntPower base exponent =
    (if sint exponent < 0 then Inl (''DomainError'', ''Int power requires a non-negative exponent'')
     else powerLoop 1 base exponent)"

subsection \<open>Overflow is detected exactly\<close>

abbreviation int64Range :: "int set" where
  "int64Range \<equiv> {-(2 ^ 63)..<2 ^ 63}"

lemma sint_range: "sint (w::int64) \<in> int64Range"
  using sint_range_size [of w] by (simp add: word_size)

lemma unat_sint: "0 \<le> sint (w::int64) \<Longrightarrow> unat w = nat (sint w)"
proof -
  assume "0 \<le> sint w"
  then have "take_bit 64 (sint w) = sint w"
    using sint_range [of w] by (intro take_bit_int_eq_self) auto
  then have "uint w = sint w" by (simp add: uint_sint)
  then show ?thesis by (metis nat_int uint_nat)
qed

lemma sint_of_int: "i \<in> int64Range \<Longrightarrow> sint (word_of_int i :: int64) = i"
  by (simp only: signed_of_int) (simp add: signed_take_bit_int_eq_self)

text \<open>A wrapped result is congruent to the exact one.\<close>

lemma sint_cong: "word_of_int i = (w::int64) \<Longrightarrow> \<exists>k. sint w = i + k * 2 ^ 64"
proof -
  assume "word_of_int i = w"
  then have "(word_of_int (sint w) :: int64) = word_of_int i" by simp
  then have "take_bit 64 (sint w) = take_bit 64 i"
    by (simp only: word_of_int_eq_iff) simp
  then have "sint w mod 2 ^ 64 = i mod 2 ^ 64"
    by (simp only: take_bit_eq_mod)
  then have "2 ^ 64 dvd sint w - i" by (simp add: mod_eq_dvd_iff)
  then obtain k where "sint w - i = 2 ^ 64 * k" by (elim dvdE)
  then show ?thesis by (intro exI [of _ k]) simp
qed

definition exactly :: "int \<Rightarrow> raised + int64 \<Rightarrow> bool" where
  "exactly i result =
    (if i \<in> int64Range then (\<exists>w. result = Inr w \<and> sint w = i) else result = Inl ahdOverflow)"

lemma exactly_Inr: "exactly i (Inr w) \<longleftrightarrow> sint w = i"
  using sint_range by (auto simp: exactly_def)

lemma add_word: "left + right = (word_of_int (sint left + sint right) :: int64)"
  by simp

lemma AhdIntAdd_exact: "exactly (sint left + sint right) (AhdIntAdd left right)"
proof -
  obtain k where k: "sint (left + right) = sint left + sint right + k * 2 ^ 64"
    using sint_cong [OF add_word [symmetric, of left right]] by blast
  note ranges = sint_range [of left] sint_range [of right] sint_range [of "left + right"]
  show ?thesis
  proof (cases "sint left + sint right \<in> int64Range")
    case True
    then have "k = 0" using k ranges by simp
    then have "sint (left + right) = sint left + sint right" using k by simp
    then show ?thesis using True by (simp add: AhdIntAdd_def exactly_def)
  next
    case False
    then have "k \<noteq> 0" using k ranges by auto
    then have "(sint (left + right) > sint left) \<noteq> (sint right > 0)" using k ranges by auto
    then show ?thesis using False by (simp add: AhdIntAdd_def exactly_def)
  qed
qed

lemma AhdIntSubtract_exact: "exactly (sint left - sint right) (AhdIntSubtract left right)"
proof -
  have "word_of_int (sint left - sint right) = left - right" by simp
  then obtain k where k: "sint (left - right) = sint left - sint right + k * 2 ^ 64"
    using sint_cong by blast
  note ranges = sint_range [of left] sint_range [of right] sint_range [of "left - right"]
  show ?thesis
  proof (cases "sint left - sint right \<in> int64Range")
    case True
    then have "k = 0" using k ranges by simp
    then have "sint (left - right) = sint left - sint right" using k by simp
    then show ?thesis using True by (simp add: AhdIntSubtract_def exactly_def)
  next
    case False
    then have "k \<noteq> 0" using k ranges by auto
    then have "(sint (left - right) < sint left) \<noteq> (sint right > 0)" using k ranges by auto
    then show ?thesis using False by (simp add: AhdIntSubtract_def exactly_def)
  qed
qed

text \<open>
  The check of a product divides it by the right factor: the remainder of the division is smaller than
  that factor, so a product that is off by a multiple of \<open>2 ^ 64\<close> is noticed.
\<close>

lemma sdiv_off:
  fixes L R p :: int
  assumes "R \<noteq> 0" "p sdiv R = L" "p = L * R + k * 2 ^ 64" "\<bar>R\<bar> \<le> 2 ^ 63"
  shows "k = 0"
proof (rule ccontr)
  assume "k \<noteq> 0"
  have "p = (p sdiv R) * R + p smod R" by (simp add: sdiv_mult_smod_eq)
  then have "p smod R = k * 2 ^ 64" using assms(2,3) by simp
  moreover have "\<bar>p smod R\<bar> < \<bar>R\<bar>" using smod_int_range [OF assms(1), of p] by auto
  ultimately have "\<bar>k\<bar> * 2 ^ 64 < 2 ^ 63" using assms(4) by (simp add: abs_mult)
  moreover have "1 \<le> \<bar>k\<bar>" using \<open>k \<noteq> 0\<close> by simp
  ultimately show False by simp
qed

lemma sint_bounds: "sint MinInt64 = - (2 ^ 63)" "sint MaxInt64 = 2 ^ 63 - 1" "sint (-1 :: int64) = -1"
  by (simp_all add: MinInt64_def MaxInt64_def)

lemma sint_eqD: "sint (w::int64) = sint v \<Longrightarrow> w = v"
  by (rule signed_word_eqI)

lemma sdiv_bound:
  fixes p R :: int
  assumes "2 \<le> \<bar>R\<bar>" "\<bar>p\<bar> \<le> 2 ^ 63"
  shows "\<bar>p sdiv R\<bar> \<le> 2 ^ 62"
proof -
  have "\<bar>p\<bar> div \<bar>R\<bar> \<le> \<bar>p\<bar> div 2" using assms(1) by (intro zdiv_mono2) simp_all
  also have "\<dots> \<le> 2 ^ 62" using assms(2) by simp
  finally have "\<bar>p\<bar> div \<bar>R\<bar> \<le> 2 ^ 62" .
  moreover have "0 \<le> \<bar>p\<bar> div \<bar>R\<bar>" using assms(1) by (intro pos_imp_zdiv_nonneg_iff [THEN iffD2]) auto
  ultimately show ?thesis by (auto simp: signed_divide_int_def abs_mult sgn_if)
qed

lemma product_check:
  assumes "left \<noteq> 0" "right \<noteq> 0" "\<not> (left = MinInt64 \<and> right = -1)"
  shows "goDiv (left * right) right = left \<longleftrightarrow> sint (left * right) = sint left * sint right"
proof -
  define L R p where "L = sint left" and "R = sint right" and "p = sint (left * right)"
  note ranges = sint_range [of left] sint_range [of right] sint_range [of "left * right"]
  have "word_of_int (L * R) = left * right" by (simp add: L_def R_def)
  then obtain k where k: "p = L * R + k * 2 ^ 64" unfolding p_def using sint_cong by blast
  have R: "R \<noteq> 0" "\<bar>R\<bar> \<le> 2 ^ 63" using assms(2) ranges sint_eqD [of right 0] by (auto simp: R_def)
  have off: "k = 0 \<longleftrightarrow> p = L * R" using k by simp
  have "L * R sdiv R = L"
  proof -
    have "\<bar>L * R\<bar> div \<bar>R\<bar> = \<bar>L\<bar>" using R(1) by (simp add: abs_mult)
    moreover have "sgn R * sgn R = 1" using R(1) by (cases "R < 0") simp_all
    then have "sgn (L * R) * sgn R = sgn L" by (simp only: sgn_mult mult.assoc mult_1_right)
    ultimately show ?thesis by (simp add: signed_divide_int_def sgn_mult_abs)
  qed
  then have exact: "p = L * R \<Longrightarrow> p sdiv R = L" by simp
  show ?thesis
  proof (cases "R = -1")
    case True
    have "L \<noteq> - (2 ^ 63)"
      using assms(3) True sint_eqD [of left MinInt64] sint_eqD [of right "-1"]
      by (auto simp: sint_bounds L_def R_def)
    then have "k = 0" using k ranges True by (auto simp: L_def p_def)
    then have "p = L * R" using off by simp
    then show ?thesis using exact by (simp add: goDiv_def flip: p_def L_def R_def) (simp add: L_def)
  next
    case False
    have "p sdiv R \<in> int64Range"
    proof (cases "R = 1")
      case True
      then show ?thesis using ranges by (simp add: p_def)
    next
      case one: False
      then have "2 \<le> \<bar>R\<bar>" using R(1) False by auto
      moreover have "\<bar>p\<bar> \<le> 2 ^ 63" using ranges by (auto simp: p_def)
      ultimately have "\<bar>p sdiv R\<bar> \<le> 2 ^ 62" by (rule sdiv_bound)
      then show ?thesis by auto
    qed
    then have "goDiv (left * right) right = left \<longleftrightarrow> p sdiv R = L"
      using sint_of_int [of "p sdiv R"] sint_eqD by (auto simp: goDiv_def p_def R_def L_def)
    also have "\<dots> \<longleftrightarrow> p = L * R" using exact off sdiv_off [OF R(1) _ k R(2)] by blast
    finally show ?thesis by (simp add: p_def L_def R_def)
  qed
qed

lemma AhdIntMultiply_exact: "exactly (sint left * sint right) (AhdIntMultiply left right)"
proof (cases "left = 0 \<or> right = 0")
  case True
  then show ?thesis by (auto simp: AhdIntMultiply_def exactly_def)
next
  case nonzero: False
  show ?thesis
  proof (cases "left = MinInt64 \<and> right = -1 \<or> right = MinInt64 \<and> left = -1")
    case True
    then have "sint left * sint right = 2 ^ 63" by (auto simp: sint_bounds)
    then show ?thesis using True nonzero by (simp add: AhdIntMultiply_def exactly_def)
  next
    case False
    have check: "goDiv (left * right) right = left \<longleftrightarrow> sint (left * right) = sint left * sint right"
      using product_check nonzero False by blast
    have "word_of_int (sint left * sint right) = left * right" by simp
    then obtain k where k: "sint (left * right) = sint left * sint right + k * 2 ^ 64"
      using sint_cong by blast
    have "sint left * sint right \<in> int64Range \<longleftrightarrow> sint (left * right) = sint left * sint right"
      using k sint_range [of "left * right"] by auto
    then show ?thesis using nonzero False check by (auto simp: AhdIntMultiply_def exactly_def Let_def)
  qed
qed

text \<open>
  Exponentiation by squaring. A square that overflows is \<open>2 ^ 63\<close> or more, in fact more, and it is
  squared only when it is still multiplied into the result, so the power overflows as well.
\<close>

lemma square_overflow:
  fixes c :: int
  assumes "2 ^ 63 \<le> c * c"
  shows "2 ^ 63 < c * c"
proof (rule ccontr)
  assume "\<not> 2 ^ 63 < c * c"
  then have eq: "\<bar>c\<bar> * \<bar>c\<bar> = 2 ^ 63" using assms by simp
  show False
  proof (cases "\<bar>c\<bar> \<le> 3037000499")
    case True
    then have "\<bar>c\<bar> * \<bar>c\<bar> \<le> 3037000499 * 3037000499" by (intro mult_mono) auto
    with eq show False by simp
  next
    case False
    then have "3037000500 * 3037000500 \<le> \<bar>c\<bar> * \<bar>c\<bar>" by (intro mult_mono) auto
    with eq show False by simp
  qed
qed

lemma range_abs: "i \<notin> int64Range \<Longrightarrow> 2 ^ 63 \<le> \<bar>i\<bar>" "2 ^ 63 < \<bar>i\<bar> \<Longrightarrow> i \<notin> int64Range"
  by auto

lemma abs_mult_ge: "(q::int) \<noteq> 0 \<Longrightarrow> \<bar>p\<bar> \<le> \<bar>p * q\<bar>"
proof -
  assume "q \<noteq> 0"
  then have "\<bar>p\<bar> * 1 \<le> \<bar>p\<bar> * \<bar>q\<bar>" by (intro mult_left_mono) auto
  then show ?thesis by (simp add: abs_mult)
qed

lemma square_out:
  fixes r c :: int
  assumes "c * c \<notin> int64Range" "r \<noteq> 0" "0 < n"
  shows "r * (c * c) ^ n \<notin> int64Range"
proof -
  have "2 ^ 63 < c * c" using assms(1) square_overflow [of c] zero_le_square [of c] by auto
  also have "c * c \<le> (c * c) ^ n" using assms(3) \<open>2 ^ 63 < c * c\<close> by (intro self_le_power) auto
  finally have big: "2 ^ 63 < \<bar>(c * c) ^ n\<bar>" by simp
  also have "\<dots> \<le> \<bar>(c * c) ^ n * r\<bar>" using assms(2) by (rule abs_mult_ge)
  finally show ?thesis by (intro range_abs(2)) (simp add: mult.commute)
qed

lemma odd_out:
  fixes r c :: int
  assumes "r * c \<notin> int64Range" "odd n"
  shows "r * c ^ n \<notin> int64Range"
proof -
  obtain m where n: "n = 2 * m + 1" using assms(2) by (rule oddE)
  have c: "c \<noteq> 0" using assms(1) by auto
  have eq: "r * c ^ n = (r * c) * (c ^ m * c ^ m)" by (simp add: n power_add mult_2)
  have "0 < (c ^ m)\<^sup>2" using c by simp
  then have "0 < c ^ m * c ^ m" by (simp only: power2_eq_square)
  then have one: "1 \<le> c ^ m * c ^ m" by simp
  show ?thesis
  proof (cases "0 \<le> r * c")
    case True
    then have "r * c * 1 \<le> r * c * (c ^ m * c ^ m)" using one by (intro mult_left_mono) auto
    then show ?thesis using assms(1) True by (auto simp: eq)
  next
    case False
    then have "r * c * (c ^ m * c ^ m) \<le> r * c * 1" using one by (intro mult_left_mono_neg) auto
    then show ?thesis using assms(1) False by (auto simp: eq)
  qed
qed

lemma bit_one: "((w::int64) AND 1 = 1) = odd (sint w)"
proof -
  have "(w AND 1 = 1) = odd w" by (simp add: and_one_eq odd_iff_mod_2_eq_one)
  also have "\<dots> = bit w 0" by (simp add: bit_0)
  also have "\<dots> = bit (sint w) 0" by (simp add: bit_sint_iff)
  also have "\<dots> = odd (sint w)" by (simp add: bit_0)
  finally show ?thesis .
qed

lemma powerLoop_exact:
  "(result = 0 \<longrightarrow> current = 0) \<Longrightarrow>
   exactly (sint result * sint current ^ nat (sint remaining)) (powerLoop result current remaining)"
proof (induction result current remaining rule: powerLoop.induct)
  case (1 result current remaining)
  show ?case
  proof (cases "sint remaining \<le> 0")
    case True
    then show ?thesis by (subst powerLoop.simps) (simp add: exactly_Inr)
  next
    case False
    define n where "n = nat (sint remaining)"
    define half where "half = signed_drop_bit 1 remaining"
    define multiplied where
      "multiplied = (if remaining AND 1 = 1 then AhdIntMultiply result current else Inr result)"
    have half: "sint half = sint remaining div 2" "nat (sint half) = n div 2"
      using False by (auto simp: half_def n_def sint_shift_right simp flip: One_nat_def)
    have odd: "remaining AND 1 = 1 \<longleftrightarrow> odd n"
      using False by (simp add: bit_one n_def even_nat_iff)
    have multiplied: "exactly (sint result * sint current ^ (n mod 2)) multiplied"
      using AhdIntMultiply_exact [of result current] odd
      by (auto simp: multiplied_def exactly_Inr odd_iff_mod_2_eq_one)
    have target: "sint result * sint current ^ n =
        sint result * sint current ^ (n mod 2) * (sint current * sint current) ^ (n div 2)"
      by (simp add: power_mult_distrib flip: power_add power_mult mult.assoc)
        (metis div_mult_mod_eq mult.commute mult_2_right power_add mult.assoc)
    have loop: "powerLoop result current remaining =
      (case multiplied of Inl r \<Rightarrow> Inl r
       | Inr result \<Rightarrow> if sint half > 0
           then (case AhdIntMultiply current current of Inl r \<Rightarrow> Inl r | Inr current \<Rightarrow> powerLoop result current half)
           else powerLoop result current half)"
      unfolding multiplied_def half_def by (subst powerLoop.simps) (simp only: Let_def False if_False)
    show ?thesis
    proof (cases multiplied)
      case (Inl r)
      then have "sint result * sint current ^ (n mod 2) \<notin> int64Range" "r = ahdOverflow"
        using multiplied by (auto simp: exactly_def split: if_splits)
      moreover from this have "odd n"
        using sint_range [of result] by (auto simp: odd_iff_mod_2_eq_one intro: ccontr)
      ultimately have "sint result * sint current ^ n \<notin> int64Range"
        using odd_out by (simp add: odd_iff_mod_2_eq_one)
      then show ?thesis using Inl loop \<open>r = ahdOverflow\<close> by (simp add: exactly_def n_def)
    next
      case (Inr acc)
      then have step: "sint acc = sint result * sint current ^ (n mod 2)"
        using multiplied by (simp add: exactly_Inr)
      then have zero: "acc = 0 \<longrightarrow> current = 0"
        using "1.prems" sint_eqD [of result 0] sint_eqD [of current 0] by auto
      show ?thesis
      proof (cases "sint half > 0")
        case last: False
        then have "n div 2 = 0" using half by simp
        then have "exactly (sint acc * sint current ^ nat (sint half)) (powerLoop acc current half)"
          using last half(2) by (subst powerLoop.simps) (simp add: exactly_Inr)
        then show ?thesis using Inr loop last target step half(2) \<open>n div 2 = 0\<close> by (simp add: n_def)
      next
        case more: True
        then have pos: "0 < n div 2" using half by simp
        have square: "exactly (sint current * sint current) (AhdIntMultiply current current)"
          by (rule AhdIntMultiply_exact)
        show ?thesis
        proof (cases "AhdIntMultiply current current")
          case (Inl r)
          then have out: "sint current * sint current \<notin> int64Range" "r = ahdOverflow"
            using square by (auto simp: exactly_def split: if_splits)
          then have "sint acc \<noteq> 0" using zero sint_eqD [of acc 0] by auto
          then have "sint result * sint current ^ n \<notin> int64Range"
            using square_out [OF out(1) _ pos, of "sint acc"] by (simp add: target step)
          then show ?thesis using Inl Inr loop more out(2) by (simp add: exactly_def n_def)
        next
          case (Inr squared)
          then have sq: "sint squared = sint current * sint current" using square by (simp add: exactly_Inr)
          have "acc = 0 \<longrightarrow> squared = 0"
            using zero sq sint_eqD [of squared 0] by auto
          then have "exactly (sint acc * sint squared ^ nat (sint half)) (powerLoop acc squared half)"
            using "1.IH" (1) [of acc half squared] False \<open>multiplied = Inr acc\<close> more Inr
            by (simp add: multiplied_def half_def)
          then show ?thesis
            using Inr \<open>multiplied = Inr acc\<close> loop more by (simp add: half(2) sq step target flip: n_def)
        qed
      qed
    qed
  qed
qed

lemma AhdIntPower_exact:
  "0 \<le> sint exponent \<Longrightarrow> exactly (sint base ^ nat (sint exponent)) (AhdIntPower base exponent)"
  using powerLoop_exact [of 1 base exponent] by (simp add: AhdIntPower_def)

text \<open>
  C27: integer arithmetic is exact. Addition, subtraction, multiplication, negation and powers give the
  mathematical result whenever it fits 64 bits, and raise OverflowError exactly when it does not; a
  negative exponent and a zero divisor raise their own errors, and the remainder has the sign of the
  left operand.
\<close>

theorem integer_arithmetic_is_exact:
  "exactly (sint l + sint r) (AhdIntAdd l r)
   \<and> exactly (sint l - sint r) (AhdIntSubtract l r)
   \<and> exactly (sint l * sint r) (AhdIntMultiply l r)
   \<and> exactly (- sint l) (AhdIntNegate l)
   \<and> (if sint r < 0 then AhdIntPower l r = Inl (''DomainError'', ''Int power requires a non-negative exponent'')
      else exactly (sint l ^ nat (sint r)) (AhdIntPower l r))
   \<and> (if r = 0 then AhdIntModulo l r = Inl (''DivisionByZeroError'', ''Int modulo by zero'')
      else map_sum id sint (AhdIntModulo l r) = Inr (sint l smod sint r))"
proof (intro conjI)
  show "exactly (- sint l) (AhdIntNegate l)"
  proof (cases "l = MinInt64")
    case True
    then show ?thesis by (simp add: AhdIntNegate_def exactly_def sint_bounds)
  next
    case False
    then have "sint l \<noteq> - (2 ^ 63)" using sint_eqD [of l MinInt64] by (auto simp: sint_bounds)
    then have "- sint l \<in> int64Range" using sint_range [of l] by simp
    moreover from this have "sint (- l) = - sint l" using sint_of_int [of "- sint l"] by simp
    ultimately show ?thesis using False by (simp add: AhdIntNegate_def exactly_Inr)
  qed
  show "if r = 0 then AhdIntModulo l r = Inl (''DivisionByZeroError'', ''Int modulo by zero'')
      else map_sum id sint (AhdIntModulo l r) = Inr (sint l smod sint r)"
  proof -
    have "sint l smod sint r \<in> int64Range" if "r \<noteq> 0"
    proof -
      have "sint r \<noteq> 0" using that sint_eqD [of r 0] by auto
      then show ?thesis using smod_int_range [of "sint r" "sint l"] sint_range [of r] by auto
    qed
    then show ?thesis
      using sint_of_int [of "sint l smod sint r"]
      by (auto simp: AhdIntModulo_def goRem_def sint_bounds smod_int_alt_def)
  qed
qed (use AhdIntAdd_exact AhdIntSubtract_exact AhdIntMultiply_exact AhdIntPower_exact in
      \<open>auto simp: AhdIntPower_def\<close>)

subsection \<open>Indices\<close>

text \<open>A negative index counts from the end.\<close>

definition ahdResolveIndex :: "int64 \<Rightarrow> int64 \<Rightarrow> raised + int64" where
  "ahdResolveIndex index len =
    (let position = (if sint index < 0 then index + len else index)
     in if sint position < 0 \<or> sint position \<ge> sint len
        then Inl (''IndexError'', ''index '' @ FormatInt (sint index) @ '' is out of range for length ''
          @ FormatInt (sint len))
        else Inr position)"

definition ahdResolveRange :: "int64 option \<Rightarrow> int64 option \<Rightarrow> int64 \<Rightarrow> int64 \<times> int64" where
  "ahdResolveRange start end len =
    (let low = (case start of None \<Rightarrow> 0 | Some s \<Rightarrow> if sint s < 0 then s + len else s);
         high = (case end of None \<Rightarrow> len | Some e \<Rightarrow> if sint e < 0 then e + len else e);
         low = (if sint low < 0 then 0 else low);
         high = (if sint high > sint len then len else high);
         low = (if sint low > sint len then len else low);
         high = (if sint high < sint low then low else high)
     in (low, high))"

text \<open>Adding the length to a negative index cannot overflow.\<close>

lemma sint_add_len:
  assumes "sint (i::int64) < 0" "0 \<le> sint (len::int64)"
  shows "sint (i + len) = sint i + sint len"
proof -
  have "sint i + sint len \<in> int64Range" using assms sint_range [of i] sint_range [of len] by auto
  then show ?thesis using sint_of_int [of "sint i + sint len"] by simp
qed

lemma ahdResolveIndex_spec:
  assumes "sint len = int n"
  shows "ahdResolveIndex index len =
    (let i = (if sint index < 0 then sint index + int n else sint index)
     in if 0 \<le> i \<and> i < int n then Inr (word_of_int i)
        else Inl (''IndexError'', ''index '' @ FormatInt (sint index) @ '' is out of range for length ''
          @ FormatInt (int n)))"
  using assms sint_add_len [of index len] by (auto simp: ahdResolveIndex_def Let_def simp flip: assms)

definition clampTo :: "int \<Rightarrow> int \<Rightarrow> int" where
  "clampTo n i = max 0 (min n i)"

lemma clamp_steps:
  assumes "0 \<le> n"
  shows "(if n < (if a < 0 then 0 else a) then n else if a < 0 then 0 else a) = clampTo n a"
    and "(if (if n < b then n else b) < clampTo n a then clampTo n a else if n < b then n else b)
      = max (clampTo n a) (clampTo n b)"
  using assms by (simp_all add: clampTo_def max_def min_def)

lemma ahdResolveRange_spec:
  assumes "sint len = int n"
  shows "map_prod sint sint (ahdResolveRange start end len) =
    (let fromEnd = (\<lambda>i. if sint i < 0 then sint i + int n else sint i);
         low = clampTo (int n) (case start of None \<Rightarrow> 0 | Some s \<Rightarrow> fromEnd s);
         high = clampTo (int n) (case end of None \<Rightarrow> int n | Some e \<Rightarrow> fromEnd e)
     in (low, max low high))"
proof -
  define a where "a = (case start of None \<Rightarrow> 0 | Some s \<Rightarrow> if sint s < 0 then s + len else s)"
  define b where "b = (case end of None \<Rightarrow> len | Some e \<Rightarrow> if sint e < 0 then e + len else e)"
  have a: "sint a = (case start of None \<Rightarrow> 0 | Some s \<Rightarrow> if sint s < 0 then sint s + int n else sint s)"
    using assms sint_add_len by (auto simp: a_def split: option.split)
  have b: "sint b = (case end of None \<Rightarrow> int n | Some e \<Rightarrow> if sint e < 0 then sint e + int n else sint e)"
    using assms sint_add_len by (auto simp: b_def split: option.split)
  have cut: "sint (if c then x else y) = (if c then sint x else sint y)" for c and x y :: int64 by simp
  show ?thesis
    unfolding ahdResolveRange_def Let_def map_prod_simp a_def [symmetric] b_def [symmetric] cut
      a [symmetric] b [symmetric] assms sint_0
    by (simp only: clamp_steps of_nat_0_le_iff)
qed

subsection \<open>Lazy integer iteration\<close>

record AhdRange =
  rangeCurrent :: int64
  rangeStop :: int64
  rangeStep :: int64
  rangeFinished :: bool

definition AhdBetween :: "int64 \<Rightarrow> int64 \<Rightarrow> int64 \<Rightarrow> raised + AhdRange" where
  "AhdBetween start stop step =
    (if step = 0 then Inl (''DomainError'', ''between requires a non-zero step'')
     else Inr \<lparr>rangeCurrent = start, rangeStop = stop, rangeStep = step, rangeFinished = False\<rparr>)"

text \<open>\<open>(*AhdRange).Next\<close>: the value and whether there is one, and the iteration after the call.\<close>

definition rangeNext :: "AhdRange \<Rightarrow> (int64 \<times> bool) \<times> AhdRange" where
  "rangeNext it =
    (let finish = it\<lparr>rangeFinished := True\<rparr>; value = rangeCurrent it
     in if rangeFinished it then ((0, False), it)
        else if sint (rangeStep it) > 0 \<and> sint (rangeCurrent it) \<ge> sint (rangeStop it) then ((0, False), finish)
        else if sint (rangeStep it) < 0 \<and> sint (rangeCurrent it) \<le> sint (rangeStop it) then ((0, False), finish)
        else if sint (rangeStep it) > 0 \<and> sint (rangeCurrent it) > sint (MaxInt64 - rangeStep it)
        then ((value, True), finish)
        else if sint (rangeStep it) < 0 \<and> sint (rangeCurrent it) < sint (MinInt64 - rangeStep it)
        then ((value, True), finish)
        else ((value, True), it\<lparr>rangeCurrent := rangeCurrent it + rangeStep it\<rparr>))"

text \<open>What the first \<open>n\<close> calls return.\<close>

fun rangeCalls :: "nat \<Rightarrow> AhdRange \<Rightarrow> (int64 \<times> bool) list" where
  "rangeCalls 0 it = []"
| "rangeCalls (Suc n) it = (case rangeNext it of (r, it) \<Rightarrow> r # rangeCalls n it)"

text \<open>The progression on the integers.\<close>

function progression :: "int \<Rightarrow> int \<Rightarrow> int \<Rightarrow> int list" where
  "progression a b s =
    (if s > 0 \<and> a < b \<or> s < 0 \<and> a > b then a # progression (a + s) b s else [])"
  by pat_completeness auto
termination
  by (relation "measure (\<lambda>(a, b, s). nat (if s > 0 then b - a else a - b))") auto

declare progression.simps [simp del]

lemma progression_Nil: "\<not> (s > 0 \<and> a < b \<or> s < 0 \<and> a > b) \<Longrightarrow> progression a b s = []"
  by (subst progression.simps) simp

lemma progression_Cons: "s > 0 \<and> a < b \<or> s < 0 \<and> a > b \<Longrightarrow> progression a b s = a # progression (a + s) b s"
  by (subst progression.simps) simp

lemma rangeCalls_finished: "rangeFinished it \<Longrightarrow> rangeCalls n it = replicate n (0, False)"
  by (induction n) (simp_all add: rangeNext_def)

lemma range_room:
  "sint step > 0 \<Longrightarrow> sint (MaxInt64 - step) = 2 ^ 63 - 1 - sint (step::int64)"
  "sint step < 0 \<Longrightarrow> sint (MinInt64 - step) = - (2 ^ 63) - sint (step::int64)"
proof -
  assume step: "sint step > 0"
  then have "2 ^ 63 - 1 - sint step \<in> int64Range" using sint_range [of step] by auto
  moreover have "word_of_int (2 ^ 63 - 1 - sint step) = MaxInt64 - step" by (simp add: MaxInt64_def)
  ultimately show "sint (MaxInt64 - step) = 2 ^ 63 - 1 - sint step" using sint_of_int by metis
next
  assume step: "sint step < 0"
  then have "- (2 ^ 63) - sint step \<in> int64Range" using sint_range [of step] by auto
  moreover have "word_of_int (- (2 ^ 63) - sint step) = MinInt64 - step" by (simp add: MinInt64_def)
  ultimately show "sint (MinInt64 - step) = - (2 ^ 63) - sint step" using sint_of_int by metis
qed

lemma rangeNext_steps:
  assumes "\<not> rangeFinished it" "rangeStep it \<noteq> 0"
    and a: "a = sint (rangeCurrent it)" and b: "b = sint (rangeStop it)" and s: "s = sint (rangeStep it)"
  shows "(progression a b s = [] \<and> rangeNext it = ((0, False), it\<lparr>rangeFinished := True\<rparr>))
    \<or> progression a b s = [a] \<and> rangeNext it = ((word_of_int a, True), it\<lparr>rangeFinished := True\<rparr>)
    \<or> progression a b s = a # progression (a + s) b s \<and> a + s \<in> int64Range
      \<and> rangeNext it = ((word_of_int a, True), it\<lparr>rangeCurrent := rangeCurrent it + rangeStep it\<rparr>)"
proof -
  have s0: "s \<noteq> 0" using assms(2) s sint_eqD [of "rangeStep it" 0] by auto
  have val: "word_of_int a = rangeCurrent it" by (simp add: a)
  note room = range_room [of "rangeStep it"]
  note ranges = sint_range [of "rangeCurrent it"] sint_range [of "rangeStop it"] sint_range [of "rangeStep it"]
  consider (over) "\<not> (s > 0 \<and> a < b \<or> s < 0 \<and> a > b)"
    | (last) "s > 0 \<and> a < b \<or> s < 0 \<and> a > b" "a + s \<notin> int64Range"
    | (more) "s > 0 \<and> a < b \<or> s < 0 \<and> a > b" "a + s \<in> int64Range" by blast
  then show ?thesis
  proof cases
    case over
    then show ?thesis using assms(1) s0 by (auto simp: progression_Nil rangeNext_def Let_def a b s)
  next
    case last
    then have "progression (a + s) b s = []"
      using ranges by (intro progression_Nil) (auto simp: a b s)
    moreover have "rangeNext it = ((word_of_int a, True), it\<lparr>rangeFinished := True\<rparr>)"
      using last assms(1) ranges room unfolding val by (auto simp: rangeNext_def Let_def a b s)
    ultimately show ?thesis using progression_Cons [OF last(1)] by simp
  next
    case more
    then have "rangeNext it = ((word_of_int a, True), it\<lparr>rangeCurrent := rangeCurrent it + rangeStep it\<rparr>)"
      using assms(1) ranges room unfolding val by (auto simp: rangeNext_def Let_def a b s)
    then show ?thesis using progression_Cons [OF more(1)] more(2) by blast
  qed
qed

lemma rangeCalls_progression:
  "\<not> rangeFinished it \<Longrightarrow> rangeStep it \<noteq> 0 \<Longrightarrow>
   rangeCalls n it = take n (map (\<lambda>v. (word_of_int v, True))
     (progression (sint (rangeCurrent it)) (sint (rangeStop it)) (sint (rangeStep it))) @ replicate n (0, False))"
proof (induction n arbitrary: it)
  case (Suc n)
  define a b s where "a = sint (rangeCurrent it)" and "b = sint (rangeStop it)" and "s = sint (rangeStep it)"
  define p where "p = progression a b s"
  have pad: "take (n - m) (x # replicate n x) = replicate (n - m) x" for m and x :: "int64 \<times> bool"
    using take_replicate [of "n - m" "Suc n" x] by (simp add: min_def)
  consider "p = []" "rangeNext it = ((0, False), it\<lparr>rangeFinished := True\<rparr>)"
    | "p = [a]" "rangeNext it = ((word_of_int a, True), it\<lparr>rangeFinished := True\<rparr>)"
    | "p = a # progression (a + s) b s" "a + s \<in> int64Range"
      "rangeNext it = ((word_of_int a, True), it\<lparr>rangeCurrent := rangeCurrent it + rangeStep it\<rparr>)"
    using rangeNext_steps [OF Suc.prems a_def b_def s_def] unfolding p_def by blast
  then have "rangeCalls (Suc n) it = take (Suc n) (map (\<lambda>v. (word_of_int v, True)) p @ replicate (Suc n) (0, False))"
  proof cases
    case 1
    then show ?thesis by (simp add: rangeCalls_finished)
  next
    case 2
    then show ?thesis using pad [of 0 "(0, False)"] by (simp add: rangeCalls_finished)
  next
    case 3
    define it' where "it' = it\<lparr>rangeCurrent := rangeCurrent it + rangeStep it\<rparr>"
    have "sint (rangeCurrent it') = a + s"
      using sint_of_int [OF 3(2)] by (simp add: it'_def a_def s_def)
    then have "rangeCalls n it' =
        take n (map (\<lambda>v. (word_of_int v, True)) (progression (a + s) b s) @ replicate n (0, False))"
      using Suc.IH [of it'] Suc.prems by (simp add: it'_def b_def s_def)
    then show ?thesis using 3 pad by (simp add: it'_def)
  qed
  then show ?case by (simp only: p_def a_def b_def s_def)
qed simp

text \<open>
  C28: between iterates over exactly the arithmetic progression. A zero step raises; otherwise the calls of
  Next return the values from start in steps up to, not including, the stop, also next to the ends of
  the 64-bit range, and then report forever that there is none.
\<close>

theorem between_is_the_progression:
  "case AhdBetween start stop step of
     Inl r \<Rightarrow> step = 0 \<and> r = (''DomainError'', ''between requires a non-zero step'')
   | Inr it \<Rightarrow> step \<noteq> 0 \<and> rangeCalls n it = take n (map (\<lambda>v. (word_of_int v, True))
       (progression (sint start) (sint stop) (sint step)) @ replicate n (0, False))"
  by (auto simp: AhdBetween_def rangeCalls_progression)

end
