(* ===== verification/Containers.thy ===== *)
theory Containers
  imports IntArith "HOL-Library.AList"
begin

text \<open>
  The mutable containers of the runtime, \<open>AhdList\<close> and \<open>AhdPair\<close>
  (\<open>internal/backend/golang/ahdruntime/ahdruntime.go\<close>). An object is a record; a method takes the
  object its pointer refers to, \<^const>\<open>None\<close> for a nil pointer, and returns what it raises or the
  changed object. A nil map of an empty pair is the empty map. Lengths are those of Go slices, below
  \<open>2 ^ 63\<close>.

  A pair keeps its keys in a list, in the order of insertion, and its values in a map. It refines the
  association list \<open>entries\<close>, whose updates are those of \<^theory_text>\<open>HOL-Library.AList\<close>.
\<close>

subsection \<open>Results\<close>

fun andThen :: "raised + 'a \<Rightarrow> ('a \<Rightarrow> raised + 'b) \<Rightarrow> raised + 'b" where
  "andThen (Inl r) f = Inl r"
| "andThen (Inr x) f = f x"

lemma andThen_Inr: "andThen r f = Inr y \<longleftrightarrow> (\<exists>x. r = Inr x \<and> f x = Inr y)"
  by (cases r) auto

definition rejectMutation :: raised where
  "rejectMutation = (''ConstantError'', ''cannot mutate a Constant object'')"

definition nextIdentity :: "int64 \<Rightarrow> raised + int64" where
  "nextIdentity counter =
    (if counter = MaxInt64
     then Inl (''OverflowError'', ''runtime identity allocator overflowed signed 64-bit range'')
     else Inr (counter + 1))"

abbreviation lengthInt :: "'a list \<Rightarrow> int64" where
  "lengthInt xs \<equiv> word_of_nat (length xs)"

subsection \<open>Lists\<close>

record 'a AhdList =
  listItems :: "'a list"
  listFrozen :: bool
  listId :: int64

definition AhdNewList :: "'a list \<Rightarrow> 'a AhdList" where
  "AhdNewList items = \<lparr>listItems = items, listFrozen = False, listId = 0\<rparr>"

definition listRequire :: "'a AhdList option \<Rightarrow> raised + 'a AhdList" where
  "listRequire list = (case list of None \<Rightarrow> Inl (''NullError'', ''List value is null'') | Some l \<Rightarrow> Inr l)"

definition listRequireMutable :: "'a AhdList option \<Rightarrow> raised + 'a AhdList" where
  "listRequireMutable list =
    andThen (listRequire list) (\<lambda>l. if listFrozen l then Inl rejectMutation else Inr l)"

definition listIdentity :: "int64 \<Rightarrow> 'a AhdList \<Rightarrow> raised + int64 \<times> 'a AhdList" where
  "listIdentity counter list =
    (if listId list = 0
     then andThen (nextIdentity counter) (\<lambda>i. Inr (i, list\<lparr>listId := i\<rparr>))
     else Inr (counter, list))"

definition listLen :: "'a AhdList option \<Rightarrow> raised + int64" where
  "listLen list = andThen (listRequire list) (\<lambda>l. Inr (lengthInt (listItems l)))"

definition listAt :: "'a AhdList option \<Rightarrow> int64 \<Rightarrow> raised + 'a" where
  "listAt list index =
    andThen (listRequire list) (\<lambda>l.
      andThen (ahdResolveIndex index (lengthInt (listItems l))) (\<lambda>i. Inr (listItems l ! unat i)))"

definition listSet :: "'a AhdList option \<Rightarrow> int64 \<Rightarrow> 'a \<Rightarrow> raised + 'a AhdList" where
  "listSet list index value =
    andThen (listRequireMutable list) (\<lambda>l.
      andThen (ahdResolveIndex index (lengthInt (listItems l)))
        (\<lambda>i. Inr (l\<lparr>listItems := (listItems l)[unat i := value]\<rparr>)))"

definition listAdd :: "'a AhdList option \<Rightarrow> 'a \<Rightarrow> raised + 'a AhdList" where
  "listAdd list value =
    andThen (listRequireMutable list) (\<lambda>l. Inr (l\<lparr>listItems := listItems l @ [value]\<rparr>))"

definition listEject :: "'a AhdList option \<Rightarrow> int64 \<Rightarrow> raised + 'a AhdList" where
  "listEject list index =
    andThen (listRequireMutable list) (\<lambda>l.
      andThen (ahdResolveIndex index (lengthInt (listItems l)))
        (\<lambda>i. Inr (l\<lparr>listItems := take (unat i) (listItems l) @ drop (unat i + 1) (listItems l)\<rparr>)))"

definition listClear :: "'a AhdList option \<Rightarrow> raised + 'a AhdList" where
  "listClear list = andThen (listRequireMutable list) (\<lambda>l. Inr (l\<lparr>listItems := []\<rparr>))"

definition listFreeze :: "'a AhdList \<Rightarrow> 'a AhdList" where
  "listFreeze l = l\<lparr>listFrozen := True\<rparr>"

definition listSnapshot :: "'a AhdList option \<Rightarrow> raised + 'a list" where
  "listSnapshot list = andThen (listRequire list) (\<lambda>l. Inr (listItems l))"

definition listSlice :: "'a AhdList option \<Rightarrow> int64 option \<Rightarrow> int64 option \<Rightarrow> raised + 'a AhdList" where
  "listSlice list start end =
    andThen (listRequire list) (\<lambda>l.
      case ahdResolveRange start end (lengthInt (listItems l)) of
        (low, high) \<Rightarrow> Inr (AhdNewList (slice (listItems l) (unat low) (unat high))))"

definition AhdListConcat :: "'a AhdList option \<Rightarrow> 'a AhdList option \<Rightarrow> raised + 'a AhdList" where
  "AhdListConcat left right =
    andThen (listRequire left) (\<lambda>l.
      andThen (listRequire right) (\<lambda>r. Inr (AhdNewList (listItems l @ listItems r))))"

definition AhdListContains :: "'a AhdList option \<Rightarrow> 'a \<Rightarrow> ('a \<Rightarrow> 'a \<Rightarrow> bool) \<Rightarrow> raised + bool" where
  "AhdListContains list value equal =
    andThen (listRequire list) (\<lambda>l. Inr (list_ex (\<lambda>item. equal item value) (listItems l)))"

text \<open>Two nil lists are equal, a nil list and another are not.\<close>

definition AhdListEqual :: "'a AhdList option \<Rightarrow> 'a AhdList option \<Rightarrow> ('a \<Rightarrow> 'a \<Rightarrow> bool) \<Rightarrow> bool" where
  "AhdListEqual left right equal =
    (case (left, right) of
       (Some l, Some r) \<Rightarrow>
         if length (listItems l) \<noteq> length (listItems r) then False
         else list_all (\<lambda>(x, y). equal x y) (zip (listItems l) (listItems r))
     | (None, None) \<Rightarrow> True
     | _ \<Rightarrow> False)"

text \<open>The loop that exchanges the two ends and moves inwards.\<close>

function reverseLoop :: "nat \<Rightarrow> int \<Rightarrow> 'a list \<Rightarrow> 'a list" where
  "reverseLoop left right items =
    (if int left < right
     then reverseLoop (left + 1) (right - 1)
       (items[left := items ! nat right, nat right := items ! left])
     else items)"
  by pat_completeness auto
termination
  by (relation "measure (\<lambda>(left, right, _). nat (right - int left))") auto

declare reverseLoop.simps [simp del]

definition listReverse :: "'a AhdList option \<Rightarrow> raised + 'a AhdList" where
  "listReverse list =
    andThen (listRequireMutable list)
      (\<lambda>l. Inr (l\<lparr>listItems := reverseLoop 0 (int (length (listItems l)) - 1) (listItems l)\<rparr>))"

text \<open>
  The descending Fisher-Yates pass; \<open>random index\<close> is the number \<open>AhdMathRandomInt(0, index)\<close> draws.
\<close>

fun shuffleLoop :: "(nat \<Rightarrow> nat) \<Rightarrow> nat \<Rightarrow> 'a list \<Rightarrow> 'a list" where
  "shuffleLoop random 0 items = items"
| "shuffleLoop random (Suc i) items =
    (let index = Suc i; selected = random index
     in shuffleLoop random i (items[index := items ! selected, selected := items ! index]))"

definition listShuffle :: "(nat \<Rightarrow> nat) \<Rightarrow> 'a AhdList option \<Rightarrow> raised + 'a AhdList" where
  "listShuffle random list =
    andThen (listRequireMutable list)
      (\<lambda>l. Inr (l\<lparr>listItems := shuffleLoop random (length (listItems l) - 1) (listItems l)\<rparr>))"

definition AhdListCount :: "'a AhdList option \<Rightarrow> 'a \<Rightarrow> ('a \<Rightarrow> 'a \<Rightarrow> bool) \<Rightarrow> raised + int64" where
  "AhdListCount list value equal =
    andThen (listRequire list)
      (\<lambda>l. Inr (foldl (\<lambda>total item. if equal item value then total + 1 else total) 0 (listItems l)))"

fun indexLoop :: "int64 \<Rightarrow> 'a list \<Rightarrow> 'a \<Rightarrow> ('a \<Rightarrow> 'a \<Rightarrow> bool) \<Rightarrow> int64 option" where
  "indexLoop index [] value equal = None"
| "indexLoop index (item # items) value equal =
    (if equal item value then Some index else indexLoop (index + 1) items value equal)"

definition AhdListIndex :: "'a AhdList option \<Rightarrow> 'a \<Rightarrow> ('a \<Rightarrow> 'a \<Rightarrow> bool) \<Rightarrow> raised + int64" where
  "AhdListIndex list value equal =
    andThen (listRequire list) (\<lambda>l.
      case indexLoop 0 (listItems l) value equal of
        Some index \<Rightarrow> Inr index
      | None \<Rightarrow> Inl (''DomainError'', ''index did not find the value in the List''))"

text \<open>
  A callback is a function that may raise; the elements are those of the snapshot taken before the
  first call.
\<close>

fun mapLoop :: "('a \<Rightarrow> raised + 'b) \<Rightarrow> 'a list \<Rightarrow> 'b list \<Rightarrow> raised + 'b list" where
  "mapLoop transform [] result = Inr result"
| "mapLoop transform (item # items) result =
    andThen (transform item) (\<lambda>x. mapLoop transform items (result @ [x]))"

definition AhdListMap :: "'a AhdList option \<Rightarrow> ('a \<Rightarrow> raised + 'b) \<Rightarrow> raised + 'b AhdList" where
  "AhdListMap list transform =
    andThen (listSnapshot list) (\<lambda>items.
      andThen (mapLoop transform items []) (\<lambda>result. Inr (AhdNewList result)))"

definition ahdPredicate :: "bool option \<Rightarrow> raised + bool" where
  "ahdPredicate value =
    (case value of None \<Rightarrow> Inl (''NullError'', ''filter predicate returned null'') | Some b \<Rightarrow> Inr b)"

fun filterLoop :: "('a \<Rightarrow> raised + bool option) \<Rightarrow> 'a list \<Rightarrow> 'a list \<Rightarrow> raised + 'a list" where
  "filterLoop keep [] result = Inr result"
| "filterLoop keep (item # items) result =
    andThen (keep item) (\<lambda>value.
      andThen (ahdPredicate value) (\<lambda>b.
        filterLoop keep items (if b then result @ [item] else result)))"

definition AhdListFilter :: "'a AhdList option \<Rightarrow> ('a \<Rightarrow> raised + bool option) \<Rightarrow> raised + 'a AhdList" where
  "AhdListFilter list keep =
    andThen (listSnapshot list) (\<lambda>items.
      andThen (filterLoop keep items []) (\<lambda>result. Inr (AhdNewList result)))"

text \<open>\<open>sort.SliceStable\<close> orders the items by their keys and keeps the order of equal ones.\<close>

fun sortKeys :: "('a \<Rightarrow> raised + 'k option) \<Rightarrow> 'a list \<Rightarrow> raised + 'k list" where
  "sortKeys key [] = Inr []"
| "sortKeys key (item # items) =
    andThen (key item) (\<lambda>value.
      case value of
        None \<Rightarrow> Inl (''NullError'', ''sort key Function returned null'')
      | Some k \<Rightarrow> andThen (sortKeys key items) (\<lambda>ks. Inr (k # ks)))"

definition ahdSortByKey :: "'a AhdList option \<Rightarrow> ('a \<Rightarrow> raised + 'k::linorder option) \<Rightarrow> raised + 'a AhdList" where
  "ahdSortByKey list key =
    andThen (listRequireMutable list) (\<lambda>l.
      andThen (sortKeys key (listItems l)) (\<lambda>keys.
        Inr (l\<lparr>listItems := map snd (sort_key fst (zip keys (listItems l)))\<rparr>)))"

definition ahdSortNaturalNonNull :: "('a::linorder) AhdList option \<Rightarrow> raised + 'a AhdList" where
  "ahdSortNaturalNonNull list =
    andThen (listRequireMutable list) (\<lambda>l. Inr (l\<lparr>listItems := sort (listItems l)\<rparr>))"

fun elementPointers :: "'a option list \<Rightarrow> raised + 'a list" where
  "elementPointers [] = Inr []"
| "elementPointers (None # items) = Inl (''NullError'', ''sort does not accept a null List element'')"
| "elementPointers (Some x # items) = andThen (elementPointers items) (\<lambda>xs. Inr (x # xs))"

definition ahdSortNatural :: "('a::linorder) option AhdList option \<Rightarrow> raised + 'a option AhdList" where
  "ahdSortNatural list =
    andThen (listRequireMutable list) (\<lambda>l.
      andThen (elementPointers (listItems l)) (\<lambda>xs. Inr (l\<lparr>listItems := map Some (sort xs)\<rparr>)))"

subsection \<open>Pairs\<close>

record ('k, 'v) AhdPair =
  pairKeys :: "'k list"
  pairValues :: "'k \<rightharpoonup> 'v"
  pairFrozen :: bool
  pairId :: int64

definition AhdNewPair :: "('k, 'v) AhdPair" where
  "AhdNewPair = \<lparr>pairKeys = [], pairValues = Map.empty, pairFrozen = False, pairId = 0\<rparr>"

definition pairRequire :: "('k, 'v) AhdPair option \<Rightarrow> raised + ('k, 'v) AhdPair" where
  "pairRequire pair = (case pair of None \<Rightarrow> Inl (''NullError'', ''Pair value is null'') | Some p \<Rightarrow> Inr p)"

definition pairRequireMutable :: "('k, 'v) AhdPair option \<Rightarrow> raised + ('k, 'v) AhdPair" where
  "pairRequireMutable pair =
    andThen (pairRequire pair) (\<lambda>p. if pairFrozen p then Inl rejectMutation else Inr p)"

definition pairIdentity :: "int64 \<Rightarrow> ('k, 'v) AhdPair \<Rightarrow> raised + int64 \<times> ('k, 'v) AhdPair" where
  "pairIdentity counter pair =
    (if pairId pair = 0
     then andThen (nextIdentity counter) (\<lambda>i. Inr (i, pair\<lparr>pairId := i\<rparr>))
     else Inr (counter, pair))"

definition pairLen :: "('k, 'v) AhdPair option \<Rightarrow> raised + int64" where
  "pairLen pair = andThen (pairRequire pair) (\<lambda>p. Inr (lengthInt (pairKeys p)))"

definition pairSet :: "('k, 'v) AhdPair option \<Rightarrow> 'k \<Rightarrow> 'v \<Rightarrow> raised + ('k, 'v) AhdPair" where
  "pairSet pair key value =
    andThen (pairRequireMutable pair) (\<lambda>p.
      let p = (if pairValues p key = None then p\<lparr>pairKeys := pairKeys p @ [key]\<rparr> else p)
      in Inr (p\<lparr>pairValues := (pairValues p)(key \<mapsto> value)\<rparr>))"

text \<open>\<open>keyText\<close> is the text of a key in a message, \<open>ahdKeyText\<close>.\<close>

definition noKey :: "('k \<Rightarrow> string) \<Rightarrow> 'k \<Rightarrow> raised" where
  "noKey keyText key = (''KeyError'', ''Pair has no key '' @ keyText key)"

definition pairGet :: "('k \<Rightarrow> string) \<Rightarrow> ('k, 'v) AhdPair option \<Rightarrow> 'k \<Rightarrow> raised + 'v" where
  "pairGet keyText pair key =
    andThen (pairRequire pair) (\<lambda>p.
      case pairValues p key of None \<Rightarrow> Inl (noKey keyText key) | Some value \<Rightarrow> Inr value)"

definition pairHas :: "('k, 'v) AhdPair option \<Rightarrow> 'k \<Rightarrow> raised + bool" where
  "pairHas pair key = andThen (pairRequire pair) (\<lambda>p. Inr (pairValues p key \<noteq> None))"

definition pairRemove :: "('k, 'v) AhdPair option \<Rightarrow> 'k \<Rightarrow> raised + bool \<times> ('k, 'v) AhdPair" where
  "pairRemove pair key =
    andThen (pairRequireMutable pair) (\<lambda>p.
      if pairValues p key = None then Inr (False, p)
      else Inr (True, p\<lparr>pairValues := (pairValues p)(key := None), pairKeys := remove1 key (pairKeys p)\<rparr>))"

definition pairEject :: "('k \<Rightarrow> string) \<Rightarrow> ('k, 'v) AhdPair option \<Rightarrow> 'k \<Rightarrow> raised + ('k, 'v) AhdPair" where
  "pairEject keyText pair key =
    andThen (pairRequireMutable pair) (\<lambda>p.
      if pairValues p key = None then Inl (noKey keyText key)
      else map_sum id snd (pairRemove (Some p) key))"

definition pairClear :: "('k, 'v) AhdPair option \<Rightarrow> raised + ('k, 'v) AhdPair" where
  "pairClear pair =
    andThen (pairRequireMutable pair) (\<lambda>p. Inr (p\<lparr>pairKeys := [], pairValues := Map.empty\<rparr>))"

text \<open>Freezing the object itself; \<open>AhdFreezeGraph\<close> goes on with its keys and values.\<close>

definition pairFreeze :: "('k, 'v) AhdPair \<Rightarrow> ('k, 'v) AhdPair" where
  "pairFreeze p = p\<lparr>pairFrozen := True\<rparr>"

definition pairKeysSnapshot :: "('k, 'v) AhdPair option \<Rightarrow> raised + 'k list" where
  "pairKeysSnapshot pair = andThen (pairRequire pair) (\<lambda>p. Inr (pairKeys p))"

text \<open>
  The loop runs over the left map in the order of Go's map iteration; it only decides a conjunction.
\<close>

definition AhdPairEqual ::
  "('k, 'v) AhdPair option \<Rightarrow> ('k, 'v) AhdPair option \<Rightarrow> ('v \<Rightarrow> 'v \<Rightarrow> bool) \<Rightarrow> bool" where
  "AhdPairEqual left right equal =
    (case (left, right) of
       (Some l, Some r) \<Rightarrow>
         if length (pairKeys l) \<noteq> length (pairKeys r) then False
         else list_all (\<lambda>key.
           case (pairValues l key, pairValues r key) of
             (Some value, Some other) \<Rightarrow> equal value other
           | _ \<Rightarrow> False) (pairKeys l)
     | (None, None) \<Rightarrow> True
     | _ \<Rightarrow> False)"

subsection \<open>Refinement of association lists\<close>

definition pairOk :: "('k, 'v) AhdPair \<Rightarrow> bool" where
  "pairOk p \<longleftrightarrow> distinct (pairKeys p) \<and> set (pairKeys p) = dom (pairValues p)"

definition entries :: "('k, 'v) AhdPair \<Rightarrow> ('k \<times> 'v) list" where
  "entries p = map (\<lambda>k. (k, the (pairValues p k))) (pairKeys p)"

lemma pairOk_value: "pairOk p \<Longrightarrow> k \<in> set (pairKeys p) \<Longrightarrow> pairValues p k = Some (the (pairValues p k))"
  by (auto simp: pairOk_def)

lemma entries_keys [simp]: "map fst (entries p) = pairKeys p"
  by (simp add: entries_def comp_def)

lemma entries_fst: "fst ` set (entries p) = set (pairKeys p)"
  by (metis entries_keys list.set_map)

lemma map_of_entries: "pairOk p \<Longrightarrow> map_of (entries p) = pairValues p"
proof
  fix k assume ok: "pairOk p"
  show "map_of (entries p) k = pairValues p k"
  proof (cases "k \<in> set (pairKeys p)")
    case True
    then show ?thesis
      using pairOk_value [OF ok True] by (simp add: entries_def map_of_map_restrict)
  next
    case False
    then have "map_of (entries p) k = None" by (simp add: map_of_eq_None_iff entries_fst)
    moreover have "pairValues p k = None" using False ok by (auto simp: pairOk_def)
    ultimately show ?thesis by simp
  qed
qed

lemma entries_length: "length (entries p) = length (pairKeys p)"
  by (simp add: entries_def)

text \<open>Two association lists with the same distinct keys in the same order and the same values are equal.\<close>

lemma alist_eqI:
  assumes "map fst xs = map fst ys" "distinct (map fst xs)" "\<And>k. map_of xs k = map_of ys k"
  shows "xs = ys"
proof (rule nth_equalityI)
  show len: "length xs = length ys" using assms(1) map_eq_imp_length_eq by blast
  fix i assume i: "i < length xs"
  obtain k v w where xs: "xs ! i = (k, v)" and ys: "ys ! i = (k, w)"
    using i len assms(1) by (metis nth_map prod.collapse)
  have "map_of xs k = Some v" "map_of ys k = Some w"
    using xs ys i len assms(1,2) nth_mem by (metis map_of_eq_Some_iff)+
  then show "xs ! i = ys ! i" using xs ys assms(3) by simp
qed

lemma pairSet_props:
  assumes "pairOk p" "pairSet (Some p) k v = Inr p'"
  shows "pairOk p'" "entries p' = AList.update k v (entries p)" "pairFrozen p' = pairFrozen p"
proof -
  have p': "p' = p\<lparr>pairKeys := (if pairValues p k = None then pairKeys p @ [k] else pairKeys p),
      pairValues := (pairValues p)(k \<mapsto> v)\<rparr>"
    using assms(2) by (auto simp: pairSet_def pairRequireMutable_def pairRequire_def Let_def split: if_splits)
  show ok: "pairOk p'" using assms(1) by (auto simp: pairOk_def p' insert_absorb)
  show "entries p' = AList.update k v (entries p)"
  proof (rule alist_eqI)
    show "map fst (entries p') = map fst (AList.update k v (entries p))"
      using assms(1) by (auto simp: AList.update_keys entries_fst p' pairOk_def)
    show "distinct (map fst (entries p'))" using ok by (simp add: pairOk_def)
    fix x show "map_of (entries p') x = map_of (AList.update k v (entries p)) x"
      using map_of_entries [OF ok] map_of_entries [OF assms(1)] by (simp add: AList.update_conv' p')
  qed
  show "pairFrozen p' = pairFrozen p" by (simp add: p')
qed

lemma pairEject_props:
  assumes "pairOk p" "pairEject kt (Some p) k = Inr p'"
  shows "pairOk p'" "entries p' = AList.delete k (entries p)" "pairFrozen p' = pairFrozen p"
proof -
  have p': "p' = p\<lparr>pairKeys := remove1 k (pairKeys p), pairValues := (pairValues p)(k := None)\<rparr>"
    using assms(2)
    by (auto simp: pairEject_def pairRemove_def pairRequireMutable_def pairRequire_def split: if_splits)
  show ok: "pairOk p'" using assms(1) by (auto simp: pairOk_def p')
  show "entries p' = AList.delete k (entries p)"
  proof (rule alist_eqI)
    show "map fst (entries p') = map fst (AList.delete k (entries p))"
      using assms(1) by (simp add: AList.delete_keys p' pairOk_def distinct_remove1_removeAll)
    show "distinct (map fst (entries p'))" using ok by (simp add: pairOk_def)
    fix x show "map_of (entries p') x = map_of (AList.delete k (entries p)) x"
      using map_of_entries [OF ok] map_of_entries [OF assms(1)] by (simp add: AList.delete_conv' p')
  qed
  show "pairFrozen p' = pairFrozen p" by (simp add: p')
qed

text \<open>
  An object is used through calls; each gives a reply and a new state. A simulation of the calls, one by
  one, gives the same replies for every sequence of calls.
\<close>

fun replies :: "('c \<Rightarrow> 's \<Rightarrow> 'r \<times> 's) \<Rightarrow> 'c list \<Rightarrow> 's \<Rightarrow> 'r list" where
  "replies step [] s = []"
| "replies step (c # cs) s = (case step c s of (r, s) \<Rightarrow> r # replies step cs s)"

locale object_refinement =
  fixes step :: "'c \<Rightarrow> 's \<Rightarrow> 'r \<times> 's" and spec :: "'c \<Rightarrow> 't \<Rightarrow> 'r \<times> 't" and abstract :: "'s \<Rightarrow> 't"
    and ok :: "'s \<Rightarrow> bool"
  assumes simulates: "ok s \<Longrightarrow> spec c (abstract s) = map_prod id abstract (step c s)"
    and keeps: "ok s \<Longrightarrow> ok (snd (step c s))"
begin

lemma replies_refine: "ok s \<Longrightarrow> replies step cs s = replies spec cs (abstract s)"
proof (induction cs arbitrary: s)
  case (Cons c cs)
  obtain r s' where step: "step c s = (r, s')" by fastforce
  then have "spec c (abstract s) = (r, abstract s')" using simulates [OF Cons.prems] by simp
  then show ?case using step Cons.IH [of s'] keeps [OF Cons.prems, of c] by simp
qed simp

lemma invariant: "ok s \<Longrightarrow> ok (fold (\<lambda>c s. snd (step c s)) cs s)"
  by (induction cs arbitrary: s) (simp_all add: keeps)

end

datatype ('k, 'v) pairCall =
    CallLen | CallSet 'k 'v | CallGet 'k | CallHas 'k | CallEject 'k | CallRemove 'k | CallClear | CallKeys
  | CallFreeze

datatype ('k, 'v) pairReply =
    Returned | Integer int64 | Found 'v | Truth bool | KeyList "'k list" | Raised raised

fun answer :: "('a \<Rightarrow> ('k, 'v) pairReply) \<Rightarrow> raised + 'a \<Rightarrow> ('k, 'v) pairReply" where
  "answer f (Inl r) = Raised r"
| "answer f (Inr x) = f x"

fun changed :: "'s \<Rightarrow> raised + 's \<Rightarrow> ('k, 'v) pairReply \<times> 's" where
  "changed s (Inl r) = (Raised r, s)"
| "changed s (Inr s') = (Returned, s')"

fun pairStep :: "('k \<Rightarrow> string) \<Rightarrow> ('k, 'v) pairCall \<Rightarrow> ('k, 'v) AhdPair \<Rightarrow> ('k, 'v) pairReply \<times> ('k, 'v) AhdPair" where
  "pairStep kt CallLen p = (answer Integer (pairLen (Some p)), p)"
| "pairStep kt (CallSet k v) p = changed p (pairSet (Some p) k v)"
| "pairStep kt (CallGet k) p = (answer Found (pairGet kt (Some p) k), p)"
| "pairStep kt (CallHas k) p = (answer Truth (pairHas (Some p) k), p)"
| "pairStep kt (CallEject k) p = changed p (pairEject kt (Some p) k)"
| "pairStep kt (CallRemove k) p =
    (case pairRemove (Some p) k of Inl r \<Rightarrow> (Raised r, p) | Inr (b, p) \<Rightarrow> (Truth b, p))"
| "pairStep kt CallClear p = changed p (pairClear (Some p))"
| "pairStep kt CallKeys p = (answer KeyList (pairKeysSnapshot (Some p)), p)"
| "pairStep kt CallFreeze p = (Returned, pairFreeze p)"

text \<open>The specification: an association list without duplicate keys, and whether it is frozen.\<close>

fun alistStep ::
  "('k \<Rightarrow> string) \<Rightarrow> ('k, 'v) pairCall \<Rightarrow> ('k \<times> 'v) list \<times> bool \<Rightarrow> ('k, 'v) pairReply \<times> ('k \<times> 'v) list \<times> bool" where
  "alistStep kt CallLen (al, frozen) = (Integer (lengthInt al), al, frozen)"
| "alistStep kt (CallSet k v) (al, frozen) =
    (if frozen then (Raised rejectMutation, al, frozen) else (Returned, AList.update k v al, frozen))"
| "alistStep kt (CallGet k) (al, frozen) =
    (case map_of al k of None \<Rightarrow> Raised (noKey kt k) | Some v \<Rightarrow> Found v, al, frozen)"
| "alistStep kt (CallHas k) (al, frozen) = (Truth (k \<in> fst ` set al), al, frozen)"
| "alistStep kt (CallEject k) (al, frozen) =
    (if frozen then (Raised rejectMutation, al, frozen)
     else if k \<in> fst ` set al then (Returned, AList.delete k al, frozen)
     else (Raised (noKey kt k), al, frozen))"
| "alistStep kt (CallRemove k) (al, frozen) =
    (if frozen then (Raised rejectMutation, al, frozen)
     else (Truth (k \<in> fst ` set al), AList.delete k al, frozen))"
| "alistStep kt CallClear (al, frozen) =
    (if frozen then (Raised rejectMutation, al, frozen) else (Returned, [], frozen))"
| "alistStep kt CallKeys (al, frozen) = (KeyList (map fst al), al, frozen)"
| "alistStep kt CallFreeze (al, frozen) = (Returned, al, True)"

definition pairView :: "('k, 'v) AhdPair \<Rightarrow> ('k \<times> 'v) list \<times> bool" where
  "pairView p = (entries p, pairFrozen p)"

lemma pair_has: "pairOk p \<Longrightarrow> k \<in> fst ` set (entries p) \<longleftrightarrow> pairValues p k \<noteq> None"
  by (auto simp: entries_fst pairOk_def)

lemma pairEject_reply:
  "pairEject kt (Some p) k =
    (if pairFrozen p then Inl rejectMutation else if pairValues p k = None then Inl (noKey kt k)
     else Inr (p\<lparr>pairKeys := remove1 k (pairKeys p), pairValues := (pairValues p)(k := None)\<rparr>))"
  by (auto simp: pairEject_def pairRemove_def pairRequireMutable_def pairRequire_def)

lemma pairRemove_reply:
  "pairRemove (Some p) k =
    (if pairFrozen p then Inl rejectMutation else if pairValues p k = None then Inr (False, p)
     else Inr (True, p\<lparr>pairKeys := remove1 k (pairKeys p), pairValues := (pairValues p)(k := None)\<rparr>))"
  by (auto simp: pairRemove_def pairRequireMutable_def pairRequire_def)

lemma pairStep_simulates:
  assumes "pairOk p"
  shows "alistStep kt c (pairView p) = map_prod id pairView (pairStep kt c p) \<and> pairOk (snd (pairStep kt c p))"
proof (cases c)
  case (CallSet k v)
  show ?thesis
  proof (cases "pairFrozen p")
    case True
    then show ?thesis using assms CallSet
      by (simp add: pairView_def pairSet_def pairRequireMutable_def pairRequire_def)
  next
    case False
    then obtain p' where "pairSet (Some p) k v = Inr p'"
      by (auto simp: pairSet_def pairRequireMutable_def pairRequire_def Let_def)
    then show ?thesis using pairSet_props [OF assms] CallSet False by (simp add: pairView_def)
  qed
next
  case (CallEject k)
  show ?thesis
  proof (cases "pairFrozen p \<or> pairValues p k = None")
    case True
    then show ?thesis using assms CallEject by (auto simp: pairView_def pairEject_reply pair_has)
  next
    case False
    then obtain p' where "pairEject kt (Some p) k = Inr p'" by (simp add: pairEject_reply)
    then show ?thesis using pairEject_props [OF assms] CallEject False pair_has [OF assms, of k]
      by (simp add: pairView_def)
  qed
next
  case (CallRemove k)
  show ?thesis
  proof (cases "pairFrozen p \<or> pairValues p k = None")
    case True
    then show ?thesis using assms CallRemove pair_has [OF assms, of k]
      by (auto simp: pairView_def pairRemove_reply)
  next
    case False
    then obtain p' where "pairEject kt (Some p) k = Inr p'" "pairRemove (Some p) k = Inr (True, p')"
      by (simp add: pairEject_reply pairRemove_reply)
    then show ?thesis using pairEject_props [OF assms] CallRemove False pair_has [OF assms, of k]
      by (simp add: pairView_def)
  qed
next
  case CallClear
  then show ?thesis using assms
    by (auto simp: pairView_def pairClear_def pairRequireMutable_def pairRequire_def pairOk_def entries_def)
next
  case CallFreeze
  then show ?thesis using assms by (simp add: pairView_def pairFreeze_def entries_def pairOk_def)
next
  case (CallGet k)
  then show ?thesis using assms map_of_entries [OF assms]
    by (simp add: pairView_def pairGet_def pairRequire_def split: option.split)
next
  case (CallHas k)
  then show ?thesis using assms pair_has [OF assms] by (simp add: pairView_def pairHas_def pairRequire_def)
qed (use assms in \<open>auto simp: pairView_def pairLen_def pairKeysSnapshot_def pairRequire_def entries_length\<close>)

interpretation pairs: object_refinement "pairStep kt" "alistStep kt" pairView pairOk
  by unfold_locales (simp_all add: pairStep_simulates)

text \<open>
  C25: a Pair is an association list. For every sequence of calls on a new Pair, the replies, errors
  included, are those of an association list whose keys are distinct: an update keeps the position of an
  existing key and appends a new one, ejecting a key keeps the order of the others, and a frozen Pair
  answers every change with ConstantError.
\<close>

theorem pair_refines_association_list:
  "replies (pairStep keyText) calls AhdNewPair = replies (alistStep keyText) calls ([], False)"
  using pairs.replies_refine [of AhdNewPair]
  by (simp add: pairView_def entries_def AhdNewPair_def pairOk_def)

subsection \<open>Lists as sequences\<close>

lemma lengthInt: "length xs < 2 ^ 63 \<Longrightarrow> sint (lengthInt xs) = int (length xs)"
  using sint_of_int [of "int (length xs)"] by simp

definition positionAt :: "nat \<Rightarrow> int \<Rightarrow> nat option" where
  "positionAt n i =
    (let j = (if i < 0 then i + int n else i) in if 0 \<le> j \<and> j < int n then Some (nat j) else None)"

definition indexError :: "int \<Rightarrow> nat \<Rightarrow> raised" where
  "indexError i n =
    (''IndexError'', ''index '' @ FormatInt i @ '' is out of range for length '' @ FormatInt (int n))"

lemma resolve_position:
  assumes "length xs < 2 ^ 63"
  shows "ahdResolveIndex index (lengthInt xs) =
    (case positionAt (length xs) (sint index) of None \<Rightarrow> Inl (indexError (sint index) (length xs))
     | Some p \<Rightarrow> Inr (word_of_nat p))"
  using ahdResolveIndex_spec [OF lengthInt [OF assms]]
  by (auto simp: positionAt_def indexError_def Let_def of_nat_nat)

lemma positionAt_less: "positionAt n i = Some p \<Longrightarrow> p < n"
  by (auto simp: positionAt_def Let_def split: if_splits)

lemma unat_small: "n < 2 ^ 64 \<Longrightarrow> unat (word_of_nat n :: int64) = n"
  by (simp add: unat_of_nat take_bit_nat_eq_self)

lemma unat_positionAt: "positionAt (length xs) i = Some p \<Longrightarrow> length xs < 2 ^ 63 \<Longrightarrow> unat (word_of_nat p :: int64) = p"
  using positionAt_less [of "length xs" i p] by (intro unat_small) simp

text \<open>Reversing by exchanging the ends gives the reversed list.\<close>

lemma reverseLoop_nth:
  "right < int (length items) \<Longrightarrow>
   length (reverseLoop left right items) = length items \<and>
   (\<forall>i < length items. reverseLoop left right items ! i =
     (if int left \<le> int i \<and> int i \<le> right then items ! nat (int left + right - int i) else items ! i))"
proof (induction left right items rule: reverseLoop.induct)
  case (1 left right items)
  show ?case
  proof (cases "int left < right")
    case False
    then have "nat (int left + right - int i) = i" if "int left \<le> int i" "int i \<le> right" for i
      using that by simp
    then show ?thesis using False by (subst (1 2) reverseLoop.simps) auto
  next
    case True
    define items' where "items' = items[left := items ! nat right, nat right := items ! left]"
    have loop: "reverseLoop left right items = reverseLoop (left + 1) (right - 1) items'"
      using True by (subst reverseLoop.simps) (simp add: items'_def)
    have IH: "length (reverseLoop (left + 1) (right - 1) items') = length items'"
      "\<And>i. i < length items' \<Longrightarrow> reverseLoop (left + 1) (right - 1) items' ! i =
        (if int (left + 1) \<le> int i \<and> int i \<le> right - 1 then items' ! nat (int (left + 1) + (right - 1) - int i)
         else items' ! i)"
      using "1.IH" True "1.prems" by (simp_all add: items'_def)
    have len: "length items' = length items" by (simp add: items'_def)
    have nth: "items' ! i = (if int i = right then items ! left else if i = left then items ! nat right else items ! i)"
      if "i < length items" for i
      using that "1.prems" True by (auto simp: items'_def nth_list_update)
    have "reverseLoop left right items ! i =
        (if int left \<le> int i \<and> int i \<le> right then items ! nat (int left + right - int i) else items ! i)"
      if i: "i < length items" for i
    proof -
      consider "int i < int left \<or> right < int i" | "i = left" | "int i = right" | "int left < int i" "int i < right"
        by linarith
      then show ?thesis
      proof cases
        case 4
        then have "nat (int left + right - int i) < length items" "nat (int left + right - int i) \<noteq> left"
          "int (nat (int left + right - int i)) \<noteq> right" using "1.prems" by simp_all
        from nth [OF this(1)] this(2,3) show ?thesis using 4 IH(2) [of i] i True by (simp add: loop len)
      qed (use IH(2) [of i] i True nth [OF i] in \<open>auto simp: loop len\<close>)
    qed
    then show ?thesis using IH(1) by (simp add: loop len)
  qed
qed

lemma reverseLoop_rev: "reverseLoop 0 (int (length items) - 1) items = rev items"
proof (rule nth_equalityI)
  have bound: "int (length items) - 1 < int (length items)" by simp
  note loop = reverseLoop_nth [OF bound, of 0]
  show len: "length (reverseLoop 0 (int (length items) - 1) items) = length (rev items)" using loop by simp
  fix i assume i: "i < length (reverseLoop 0 (int (length items) - 1) items)"
  then have "i < length items" using loop by simp
  moreover from this have "nat (int 0 + (int (length items) - 1) - int i) = length items - Suc i" by simp
  ultimately show "reverseLoop 0 (int (length items) - 1) items ! i = rev items ! i"
    using loop by (simp add: rev_nth)
qed

datatype 'a listCall =
    ListLen | ListAt int64 | ListSet int64 'a | ListAdd 'a | ListEject int64 | ListClear | ListReverse
  | ListSnapshot | ListSlice "int64 option" "int64 option" | ListFreeze

fun listStep :: "'a listCall \<Rightarrow> 'a AhdList \<Rightarrow> ('a, 'a) pairReply \<times> 'a AhdList" where
  "listStep ListLen l = (answer Integer (listLen (Some l)), l)"
| "listStep (ListAt i) l = (answer Found (listAt (Some l) i), l)"
| "listStep (ListSet i v) l = changed l (listSet (Some l) i v)"
| "listStep (ListAdd v) l = changed l (listAdd (Some l) v)"
| "listStep (ListEject i) l = changed l (listEject (Some l) i)"
| "listStep ListClear l = changed l (listClear (Some l))"
| "listStep ListReverse l = changed l (listReverse (Some l))"
| "listStep ListSnapshot l = (answer KeyList (listSnapshot (Some l)), l)"
| "listStep (ListSlice a b) l = (answer (\<lambda>l'. KeyList (listItems l')) (listSlice (Some l) a b), l)"
| "listStep ListFreeze l = (Returned, listFreeze l)"

text \<open>
  The specification: a sequence and whether it is frozen. An index counts from the end if it is negative;
  the bounds of a slice are clamped to the sequence.
\<close>

definition sliceBounds :: "nat \<Rightarrow> int64 option \<Rightarrow> int64 option \<Rightarrow> nat \<times> nat" where
  "sliceBounds n start end =
    (let fromEnd = (\<lambda>i. if sint i < 0 then sint i + int n else sint i);
         low = clampTo (int n) (case start of None \<Rightarrow> 0 | Some s \<Rightarrow> fromEnd s);
         high = clampTo (int n) (case end of None \<Rightarrow> int n | Some e \<Rightarrow> fromEnd e)
     in (nat low, nat (max low high)))"

definition atPosition :: "'a list \<times> bool \<Rightarrow> int64 \<Rightarrow> (nat \<Rightarrow> ('a, 'a) pairReply \<times> 'a list \<times> bool) \<Rightarrow>
    ('a, 'a) pairReply \<times> 'a list \<times> bool" where
  "atPosition s i act =
    (case positionAt (length (fst s)) (sint i) of
       None \<Rightarrow> (Raised (indexError (sint i) (length (fst s))), s)
     | Some p \<Rightarrow> act p)"

fun seqStep :: "'a listCall \<Rightarrow> 'a list \<times> bool \<Rightarrow> ('a, 'a) pairReply \<times> 'a list \<times> bool" where
  "seqStep ListLen (xs, frozen) = (Integer (lengthInt xs), xs, frozen)"
| "seqStep (ListAt i) (xs, frozen) = atPosition (xs, frozen) i (\<lambda>p. (Found (xs ! p), xs, frozen))"
| "seqStep ListSnapshot (xs, frozen) = (KeyList xs, xs, frozen)"
| "seqStep (ListSlice a b) (xs, frozen) =
    (case sliceBounds (length xs) a b of (low, high) \<Rightarrow> (KeyList (slice xs low high), xs, frozen))"
| "seqStep ListFreeze (xs, frozen) = (Returned, xs, True)"
| "seqStep c (xs, frozen) =
    (if frozen then (Raised rejectMutation, xs, frozen)
     else
       (case c of
          ListSet i v \<Rightarrow> atPosition (xs, frozen) i (\<lambda>p. (Returned, xs[p := v], frozen))
        | ListEject i \<Rightarrow> atPosition (xs, frozen) i (\<lambda>p. (Returned, take p xs @ drop (Suc p) xs, frozen))
        | ListAdd v \<Rightarrow> (Returned, xs @ [v], frozen)
        | ListReverse \<Rightarrow> (Returned, rev xs, frozen)
        | _ \<Rightarrow> (Returned, [], frozen)))"

definition listView :: "'a AhdList \<Rightarrow> 'a list \<times> bool" where
  "listView l = (listItems l, listFrozen l)"

lemma sliceBounds_nats:
  assumes "length xs < 2 ^ 63"
  shows "map_prod unat unat (ahdResolveRange a b (lengthInt xs)) = sliceBounds (length xs) a b"
proof -
  obtain low high where range: "ahdResolveRange a b (lengthInt xs) = (low, high)" by fastforce
  note spec = ahdResolveRange_spec [OF lengthInt [OF assms], of a b, unfolded range Let_def]
  then have "0 \<le> sint low" "0 \<le> sint high" by (auto simp: clampTo_def)
  then have "unat low = nat (sint low)" "unat high = nat (sint high)"
    by (simp_all add: unat_sint)
  then show ?thesis using spec by (simp add: range sliceBounds_def Let_def)
qed

lemma mutable_list:
  "listRequireMutable (Some l) = (if listFrozen l then Inl rejectMutation else Inr l)"
  "listRequire (Some l) = Inr l"
  by (simp_all add: listRequireMutable_def listRequire_def)

text \<open>
  C26: a List is a sequence. Each call on a List of fewer than \<open>2 ^ 63\<close> elements replies and changes
  the list as the specification says: negative indices count from the end, an index out of range
  raises IndexError and changes nothing, slices are clamped, reversing in place reverses, and a
  frozen List answers every change with ConstantError.
\<close>

theorem list_refines_sequence:
  assumes "length (listItems l) < 2 ^ 63"
  shows "seqStep c (listView l) = map_prod id listView (listStep c l)"
proof -
  note resolve = resolve_position [OF assms] and unat = unat_positionAt [OF _ assms]
  show ?thesis
  proof (cases c)
    case (ListAt i)
    then show ?thesis using unat
      by (auto simp: listView_def listAt_def mutable_list resolve atPosition_def split: option.split)
  next
    case (ListSet i v)
    then show ?thesis using unat
      by (auto simp: listView_def listSet_def mutable_list resolve atPosition_def split: option.split)
  next
    case (ListEject i)
    then show ?thesis using unat
      by (auto simp: listView_def listEject_def mutable_list resolve atPosition_def split: option.split)
  next
    case (ListSlice a b)
    obtain low high where range: "ahdResolveRange a b (lengthInt (listItems l)) = (low, high)" by fastforce
    then have "sliceBounds (length (listItems l)) a b = (unat low, unat high)"
      using sliceBounds_nats [OF assms, of a b] by simp
    then show ?thesis using ListSlice range
      by (simp add: listView_def listSlice_def mutable_list AhdNewList_def)
  qed (auto simp: listView_def listLen_def listAdd_def listClear_def listReverse_def listSnapshot_def
      listFreeze_def mutable_list reverseLoop_rev)
qed

lemma list_refines_sequence_witness:
  "seqStep (ListAt (-1)) ([7::nat, 8], False) = (Found 8, [7, 8], False)
   \<and> listStep (ListAt (-1)) (AhdNewList [7::nat, 8]) = (Found 8, AhdNewList [7, 8])"
proof -
  have "length (listItems (AhdNewList [7::nat, 8])) < 2 ^ 63" by (simp add: AhdNewList_def)
  from list_refines_sequence [OF this, of "ListAt (-1)"]
  have "seqStep (ListAt (-1)) ([7::nat, 8], False) =
      (fst (listStep (ListAt (-1)) (AhdNewList [7::nat, 8])), [7, 8], False)"
    by (simp add: listView_def AhdNewList_def)
  moreover have "seqStep (ListAt (-1)) ([7::nat, 8], False) = (Found 8, [7, 8], False)"
    by (simp add: atPosition_def positionAt_def)
  ultimately show ?thesis by simp
qed

end
