(* ===== verification/Collections.thy ===== *)
theory Collections
  imports Containers "HOL-Library.Multiset"
begin

text \<open>
  The \<open>Lists\<close> and \<open>KeyValue\<close> modules of the runtime
  (\<open>internal/backend/golang/ahdruntime/ahdruntime.go\<close>): structural transformations that read their
  argument and build a new collection. A List of Lists holds pointers to its rows. A callback is a
  function that may raise; callbacks that change the collection they are called for are not modelled.
\<close>

subsection \<open>Lists\<close>

text \<open>The size is positive when the loop is entered; sums of lengths of slices do not overflow.\<close>

function chunkLoop :: "nat \<Rightarrow> nat \<Rightarrow> 'a list \<Rightarrow> 'a list list" where
  "chunkLoop start chunk items =
    (if start < length items \<and> 0 < chunk
     then slice items start (min (start + chunk) (length items)) # chunkLoop (start + chunk) chunk items
     else [])"
  by pat_completeness auto
termination
  by (relation "measure (\<lambda>(start, chunk, items). length items - start)") auto

declare chunkLoop.simps [simp del]

definition AhdListsChunk :: "string \<Rightarrow> 'a AhdList option \<Rightarrow> int64 \<Rightarrow> raised + 'a AhdList option AhdList" where
  "AhdListsChunk class values chunk =
    andThen (listRequire values) (\<lambda>l.
      if sint chunk \<le> 0
      then Inl (class, ''chunk requires a size greater than zero; received '' @ FormatInt (sint chunk))
      else Inr (AhdNewList (map (\<lambda>part. Some (AhdNewList part)) (chunkLoop 0 (unat chunk) (listItems l)))))"

fun flattenRows :: "'a AhdList option list \<Rightarrow> 'a list \<Rightarrow> raised + 'a list" where
  "flattenRows [] result = Inr result"
| "flattenRows (row # rows) result =
    andThen (listRequire row) (\<lambda>l. flattenRows rows (result @ listItems l))"

definition AhdListsFlatten :: "'a AhdList option AhdList option \<Rightarrow> raised + 'a AhdList" where
  "AhdListsFlatten rows =
    andThen (listRequire rows) (\<lambda>l.
      andThen (flattenRows (listItems l) []) (\<lambda>result. Inr (AhdNewList result)))"

text \<open>Every row is checked before the first column is built.\<close>

fun checkRows :: "string \<Rightarrow> nat \<Rightarrow> nat \<Rightarrow> 'a AhdList option list \<Rightarrow> raised + 'a list list" where
  "checkRows class width index [] = Inr []"
| "checkRows class width index (row # rows) =
    andThen (listRequire row) (\<lambda>l.
      if length (listItems l) \<noteq> width
      then Inl (class, ''transpose requires rectangular rows: row '' @ FormatInt (int index) @ '' has ''
        @ FormatInt (int (length (listItems l))) @ '' element(s); expected '' @ FormatInt (int width))
      else andThen (checkRows class width (index + 1) rows) (\<lambda>items. Inr (listItems l # items)))"

definition AhdListsTranspose ::
  "string \<Rightarrow> 'a AhdList option AhdList option \<Rightarrow> raised + 'a AhdList option AhdList" where
  "AhdListsTranspose class rows =
    andThen (listRequire rows) (\<lambda>l.
      case listItems l of
        [] \<Rightarrow> Inr (AhdNewList [])
      | row # _ \<Rightarrow>
          andThen (listRequire row) (\<lambda>first.
            let width = length (listItems first)
            in andThen (checkRows class width 0 (listItems l)) (\<lambda>items.
                 Inr (AhdNewList (map (\<lambda>column. Some (AhdNewList (map (\<lambda>row. row ! column) items)))
                   [0..<width])))))"

definition uniqueItem :: "('a \<Rightarrow> 'a \<Rightarrow> bool) \<Rightarrow> 'a list \<Rightarrow> 'a \<Rightarrow> 'a list" where
  "uniqueItem equal result item = (if list_ex (\<lambda>kept. equal kept item) result then result else result @ [item])"

definition AhdListsUnique :: "'a AhdList option \<Rightarrow> ('a \<Rightarrow> 'a \<Rightarrow> bool) \<Rightarrow> raised + 'a AhdList" where
  "AhdListsUnique values equal =
    andThen (listRequire values) (\<lambda>l. Inr (AhdNewList (foldl (uniqueItem equal) [] (listItems l))))"

definition countItem :: "('k, int64) AhdPair \<Rightarrow> 'k \<Rightarrow> ('k, int64) AhdPair" where
  "countItem result item =
    (let count = (case pairValues result item of None \<Rightarrow> 0 | Some n \<Rightarrow> n) + 1;
         result = result\<lparr>pairValues := (pairValues result)(item \<mapsto> count)\<rparr>
     in if count = 1 then result\<lparr>pairKeys := pairKeys result @ [item]\<rparr> else result)"

definition AhdListsValueCounts :: "'k AhdList option \<Rightarrow> raised + ('k, int64) AhdPair" where
  "AhdListsValueCounts values =
    andThen (listRequire values) (\<lambda>l. Inr (foldl countItem AhdNewPair (listItems l)))"

fun groupLoop :: "('a \<Rightarrow> raised + 'k) \<Rightarrow> 'a list \<Rightarrow> ('k, 'a AhdList) AhdPair \<Rightarrow> raised + ('k, 'a AhdList) AhdPair" where
  "groupLoop key [] result = Inr result"
| "groupLoop key (item # items) result =
    andThen (key item) (\<lambda>selected.
      let (result, members) =
        (case pairValues result selected of
           None \<Rightarrow> (result\<lparr>pairKeys := pairKeys result @ [selected]\<rparr>, AhdNewList [])
         | Some members \<Rightarrow> (result, members))
      in groupLoop key items
        (result\<lparr>pairValues := (pairValues result)(selected \<mapsto> members\<lparr>listItems := listItems members @ [item]\<rparr>)\<rparr>))"

definition AhdListsGroupBy :: "'a AhdList option \<Rightarrow> ('a \<Rightarrow> raised + 'k) \<Rightarrow> raised + ('k, 'a AhdList) AhdPair" where
  "AhdListsGroupBy values key = andThen (listSnapshot values) (\<lambda>items. groupLoop key items AhdNewPair)"

subsection \<open>KeyValue\<close>

definition AhdKeyValueKeys :: "('k, 'v) AhdPair option \<Rightarrow> raised + 'k AhdList" where
  "AhdKeyValueKeys pair = andThen (pairKeysSnapshot pair) (\<lambda>keys. Inr (AhdNewList keys))"

definition AhdKeyValueValues :: "('k, 'v) AhdPair option \<Rightarrow> raised + 'v AhdList" where
  "AhdKeyValueValues pair =
    andThen (pairRequire pair) (\<lambda>p. Inr (AhdNewList (map (\<lambda>key. the (pairValues p key)) (pairKeys p))))"

text \<open>The step of every loop that builds a pair: a new last key with its value.\<close>

definition pairAppend :: "('k, 'v) AhdPair \<Rightarrow> 'k \<Rightarrow> 'v \<Rightarrow> ('k, 'v) AhdPair" where
  "pairAppend result key value =
    result\<lparr>pairKeys := pairKeys result @ [key], pairValues := (pairValues result)(key \<mapsto> value)\<rparr>"

fun combineLoop ::
  "('k \<Rightarrow> string) \<Rightarrow> string \<Rightarrow> ('k \<times> 'v) list \<Rightarrow> ('k, 'v) AhdPair \<Rightarrow> raised + ('k, 'v) AhdPair" where
  "combineLoop keyText class [] result = Inr result"
| "combineLoop keyText class ((key, value) # rest) result =
    (if pairValues result key \<noteq> None then Inl (class, ''combine received the duplicate key '' @ keyText key)
     else combineLoop keyText class rest (pairAppend result key value))"

definition AhdKeyValueCombine ::
  "('k \<Rightarrow> string) \<Rightarrow> string \<Rightarrow> 'k AhdList option \<Rightarrow> 'v AhdList option \<Rightarrow> raised + ('k, 'v) AhdPair" where
  "AhdKeyValueCombine keyText class keys values =
    andThen (listRequire keys) (\<lambda>ks.
      andThen (listRequire values) (\<lambda>vs.
        if length (listItems ks) \<noteq> length (listItems vs)
        then Inl (class, ''combine requires equal lengths; received '' @ FormatInt (int (length (listItems ks)))
          @ '' key(s) and '' @ FormatInt (int (length (listItems vs))) @ '' value(s)'')
        else combineLoop keyText class (zip (listItems ks) (listItems vs)) AhdNewPair))"

definition ahdPairCopy :: "('k, 'v) AhdPair option \<Rightarrow> raised + ('k, 'v) AhdPair" where
  "ahdPairCopy pair =
    andThen (pairRequire pair)
      (\<lambda>p. Inr (AhdNewPair\<lparr>pairKeys := pairKeys p, pairValues := pairValues p\<rparr>))"

definition AhdKeyValueWith :: "('k, 'v) AhdPair option \<Rightarrow> 'k \<Rightarrow> 'v \<Rightarrow> raised + ('k, 'v) AhdPair" where
  "AhdKeyValueWith pair key value = andThen (ahdPairCopy pair) (\<lambda>result. pairSet (Some result) key value)"

definition AhdKeyValueWithout ::
  "('k \<Rightarrow> string) \<Rightarrow> ('k, 'v) AhdPair option \<Rightarrow> 'k \<Rightarrow> raised + ('k, 'v) AhdPair" where
  "AhdKeyValueWithout keyText pair key =
    andThen (pairRequire pair) (\<lambda>p.
      if pairValues p key = None then Inl (noKey keyText key)
      else andThen (ahdPairCopy pair) (\<lambda>result. map_sum id snd (pairRemove (Some result) key)))"

fun requestedLoop ::
  "('k \<Rightarrow> string) \<Rightarrow> string \<Rightarrow> string \<Rightarrow> ('k, 'v) AhdPair \<Rightarrow> 'k list \<Rightarrow> 'k list \<Rightarrow> raised + 'k list" where
  "requestedLoop keyText class operation pair [] requested = Inr requested"
| "requestedLoop keyText class operation pair (key # keys) requested =
    (if pairValues pair key = None then Inl (noKey keyText key)
     else if key \<in> set requested then Inl (class, operation @ '' received the duplicate key '' @ keyText key)
     else requestedLoop keyText class operation pair keys (requested @ [key]))"

definition ahdRequestedKeys ::
  "('k \<Rightarrow> string) \<Rightarrow> string \<Rightarrow> string \<Rightarrow> ('k, 'v) AhdPair option \<Rightarrow> 'k AhdList option \<Rightarrow> raised + 'k list" where
  "ahdRequestedKeys keyText class operation pair keys =
    andThen (pairRequire pair) (\<lambda>p.
      andThen (listRequire keys) (\<lambda>ks. requestedLoop keyText class operation p (listItems ks) []))"

definition copyKeys :: "('k, 'v) AhdPair \<Rightarrow> 'k list \<Rightarrow> ('k, 'v) AhdPair \<Rightarrow> ('k, 'v) AhdPair" where
  "copyKeys pair keys result = foldl (\<lambda>result key. pairAppend result key (the (pairValues pair key))) result keys"

definition AhdKeyValueSelect ::
  "('k \<Rightarrow> string) \<Rightarrow> string \<Rightarrow> ('k, 'v) AhdPair option \<Rightarrow> 'k AhdList option \<Rightarrow> raised + ('k, 'v) AhdPair" where
  "AhdKeyValueSelect keyText class pair keys =
    andThen (ahdRequestedKeys keyText class ''select'' pair keys) (\<lambda>_.
      andThen (pairRequire pair) (\<lambda>p.
        andThen (listRequire keys) (\<lambda>ks. Inr (copyKeys p (listItems ks) AhdNewPair))))"

definition AhdKeyValueDrop ::
  "('k \<Rightarrow> string) \<Rightarrow> string \<Rightarrow> ('k, 'v) AhdPair option \<Rightarrow> 'k AhdList option \<Rightarrow> raised + ('k, 'v) AhdPair" where
  "AhdKeyValueDrop keyText class pair keys =
    andThen (ahdRequestedKeys keyText class ''drop'' pair keys) (\<lambda>removed.
      andThen (pairRequire pair) (\<lambda>p.
        Inr (copyKeys p (filter (\<lambda>key. key \<notin> set removed) (pairKeys p)) AhdNewPair)))"

definition AhdKeyValueRename ::
  "('k \<Rightarrow> string) \<Rightarrow> string \<Rightarrow> ('k, 'v) AhdPair option \<Rightarrow> 'k \<Rightarrow> 'k \<Rightarrow> raised + ('k, 'v) AhdPair" where
  "AhdKeyValueRename keyText class pair oldKey newKey =
    andThen (pairRequire pair) (\<lambda>p.
      if pairValues p oldKey = None then Inl (noKey keyText oldKey)
      else if oldKey = newKey then ahdPairCopy pair
      else if pairValues p newKey \<noteq> None
      then Inl (class, ''rename cannot rename '' @ keyText oldKey @ '' to '' @ keyText newKey
        @ ''; that key already exists'')
      else Inr (foldl (\<lambda>result key.
          if key = oldKey then pairAppend result newKey (the (pairValues p oldKey))
          else pairAppend result key (the (pairValues p key))) AhdNewPair (pairKeys p)))"

fun mapValuesLoop ::
  "('v \<Rightarrow> raised + 'u) \<Rightarrow> ('k, 'v) AhdPair \<Rightarrow> 'k list \<Rightarrow> ('k, 'u) AhdPair \<Rightarrow> raised + ('k, 'u) AhdPair" where
  "mapValuesLoop transform pair [] result = Inr result"
| "mapValuesLoop transform pair (key # keys) result =
    andThen (transform (the (pairValues pair key)))
      (\<lambda>value. mapValuesLoop transform pair keys (pairAppend result key value))"

definition AhdKeyValueMapValues ::
  "('k, 'v) AhdPair option \<Rightarrow> ('v \<Rightarrow> raised + 'u) \<Rightarrow> raised + ('k, 'u) AhdPair" where
  "AhdKeyValueMapValues pair transform =
    andThen (pairRequire pair) (\<lambda>p. mapValuesLoop transform p (pairKeys p) AhdNewPair)"

fun mergeLoop ::
  "('k \<Rightarrow> string) \<Rightarrow> string \<Rightarrow> ('k, 'v) AhdPair \<Rightarrow> 'k list \<Rightarrow> ('k, 'v) AhdPair \<Rightarrow> raised + ('k, 'v) AhdPair" where
  "mergeLoop keyText class right [] result = Inr result"
| "mergeLoop keyText class right (key # keys) result =
    (if pairValues result key \<noteq> None
     then Inl (class, ''merge received the key '' @ keyText key @ '' in both Pairs'')
     else mergeLoop keyText class right keys (pairAppend result key (the (pairValues right key))))"

definition AhdKeyValueMerge ::
  "('k \<Rightarrow> string) \<Rightarrow> string \<Rightarrow> ('k, 'v) AhdPair option \<Rightarrow> ('k, 'v) AhdPair option \<Rightarrow> raised + ('k, 'v) AhdPair" where
  "AhdKeyValueMerge keyText class left right =
    andThen (pairRequire right) (\<lambda>r.
      andThen (ahdPairCopy left) (\<lambda>result. mergeLoop keyText class r (pairKeys r) result))"

fun overlayLoop :: "('k, 'v) AhdPair \<Rightarrow> 'k list \<Rightarrow> ('k, 'v) AhdPair \<Rightarrow> raised + ('k, 'v) AhdPair" where
  "overlayLoop changes [] result = Inr result"
| "overlayLoop changes (key # keys) result =
    andThen (pairSet (Some result) key (the (pairValues changes key))) (overlayLoop changes keys)"

definition AhdKeyValueOverlay :: "('k, 'v) AhdPair option \<Rightarrow> ('k, 'v) AhdPair option \<Rightarrow> raised + ('k, 'v) AhdPair" where
  "AhdKeyValueOverlay base changes =
    andThen (pairRequire changes) (\<lambda>c.
      andThen (ahdPairCopy base) (\<lambda>result. overlayLoop c (pairKeys c) result))"

subsection \<open>KeyValue on association lists\<close>

text \<open>\<open>yields al r\<close>: the operation returns a new, mutable pair with exactly these entries.\<close>

definition yields :: "('k \<times> 'v) list \<Rightarrow> raised + ('k, 'v) AhdPair \<Rightarrow> bool" where
  "yields al r = (case r of Inl _ \<Rightarrow> False | Inr p \<Rightarrow> pairOk p \<and> \<not> pairFrozen p \<and> entries p = al)"

lemma yields_Inr [simp]: "yields al (Inr p) \<longleftrightarrow> pairOk p \<and> \<not> pairFrozen p \<and> entries p = al"
  by (simp add: yields_def)

lemma pairRequire_Some [simp]: "pairRequire (Some p) = Inr p"
  by (simp add: pairRequire_def)

lemma listRequire_Some [simp]: "listRequire (Some l) = Inr l"
  by (simp add: listRequire_def)

lemma new_pair: "pairOk AhdNewPair" "\<not> pairFrozen AhdNewPair" "entries AhdNewPair = []"
    "pairValues AhdNewPair = Map.empty"
  by (simp_all add: AhdNewPair_def pairOk_def entries_def)

definition freshKeys :: "('k, 'v) AhdPair \<Rightarrow> 'k list \<Rightarrow> bool" where
  "freshKeys p ks \<longleftrightarrow> distinct ks \<and> set ks \<inter> dom (pairValues p) = {}"

lemma freshKeys_Cons:
  "freshKeys p (k # ks) \<longleftrightarrow> pairValues p k = None \<and> freshKeys (pairAppend p k v) ks"
  by (auto simp: freshKeys_def pairAppend_def)

lemma pairAppend_props:
  assumes "pairOk p" "pairValues p k = None"
  shows "pairOk (pairAppend p k v)" "entries (pairAppend p k v) = entries p @ [(k, v)]"
    "pairFrozen (pairAppend p k v) = pairFrozen p"
proof -
  have k: "k \<notin> set (pairKeys p)" using assms by (auto simp: pairOk_def)
  show "pairOk (pairAppend p k v)" using assms k by (auto simp: pairAppend_def pairOk_def)
  show "entries (pairAppend p k v) = entries p @ [(k, v)]"
    using k by (auto simp: pairAppend_def entries_def)
  show "pairFrozen (pairAppend p k v) = pairFrozen p" by (simp add: pairAppend_def)
qed

lemma appendAll:
  "pairOk p \<Longrightarrow> \<not> pairFrozen p \<Longrightarrow> freshKeys p (map fst kvs) \<Longrightarrow>
   yields (entries p @ kvs) (Inr (foldl (\<lambda>r (k, v). pairAppend r k v) p kvs))"
proof (induction kvs arbitrary: p)
  case (Cons kv kvs)
  obtain k v where kv: "kv = (k, v)" by fastforce
  then have fresh: "pairValues p k = None" "freshKeys (pairAppend p k v) (map fst kvs)"
    using Cons.prems(3) freshKeys_Cons [of p k _ v] by auto
  note props = pairAppend_props [OF Cons.prems(1) fresh(1), of v]
  show ?case using Cons.IH [OF props(1) _ fresh(2)] Cons.prems(2) props by (simp add: kv)
qed simp

lemma freshKeys_new: "freshKeys AhdNewPair ks \<longleftrightarrow> distinct ks"
  by (simp add: freshKeys_def new_pair)

lemma copyKeys_fold:
  "copyKeys p ks r = foldl (\<lambda>r (k, v). pairAppend r k v) r (map (\<lambda>k. (k, the (pairValues p k))) ks)"
  unfolding copyKeys_def by (simp add: foldl_map)

lemma copyKeys_yields:
  "distinct ks \<Longrightarrow> yields (map (\<lambda>k. (k, the (pairValues p k))) ks) (Inr (copyKeys p ks AhdNewPair))"
  using appendAll [of AhdNewPair "map (\<lambda>k. (k, the (pairValues p k))) ks"]
  by (simp add: copyKeys_fold new_pair freshKeys_new comp_def)

lemma ahdPairCopy_yields: "pairOk p \<Longrightarrow> yields (entries p) (ahdPairCopy (Some p))"
  by (simp add: ahdPairCopy_def AhdNewPair_def pairOk_def entries_def)

lemma yieldsE:
  assumes "yields al r"
  obtains p where "r = Inr p" "pairOk p" "\<not> pairFrozen p" "entries p = al"
  using assms by (cases r) (auto simp: yields_def)

lemma pairSet_yields: "pairOk p \<Longrightarrow> \<not> pairFrozen p \<Longrightarrow> yields (AList.update k v (entries p)) (pairSet (Some p) k v)"
proof -
  assume p: "pairOk p" "\<not> pairFrozen p"
  then obtain p' where "pairSet (Some p) k v = Inr p'"
    by (auto simp: pairSet_def pairRequireMutable_def Let_def)
  with pairSet_props [OF p(1) this] p(2) show ?thesis by simp
qed

lemma with_yields: "pairOk p \<Longrightarrow> yields (AList.update k v (entries p)) (AhdKeyValueWith (Some p) k v)"
proof -
  assume "pairOk p"
  then obtain c where c: "ahdPairCopy (Some p) = Inr c" "pairOk c" "\<not> pairFrozen c" "entries c = entries p"
    using yieldsE [OF ahdPairCopy_yields] by blast
  then show ?thesis using pairSet_yields [OF c(2,3), of k v] by (simp add: AhdKeyValueWith_def)
qed

lemma keys_iff: "pairOk p \<Longrightarrow> pairValues p k = None \<longleftrightarrow> k \<notin> set (pairKeys p)"
  by (auto simp: pairOk_def)

lemma without_yields:
  assumes "pairOk p"
  shows "if k \<in> set (pairKeys p) then yields (AList.delete k (entries p)) (AhdKeyValueWithout kt (Some p) k)
    else AhdKeyValueWithout kt (Some p) k = Inl (noKey kt k)"
proof (cases "k \<in> set (pairKeys p)")
  case True
  obtain c where c: "ahdPairCopy (Some p) = Inr c" "pairOk c" "\<not> pairFrozen c" "entries c = entries p"
    using ahdPairCopy_yields [OF assms] by (rule yieldsE)
  have keys: "pairKeys c = pairKeys p" using c(4) by (metis entries_keys)
  then have some: "pairValues c k \<noteq> None" using True keys_iff [OF c(2)] by simp
  obtain c' where c': "pairEject kt (Some c) k = Inr c'" "pairRemove (Some c) k = Inr (True, c')"
    using some c(3) by (simp add: pairEject_reply pairRemove_reply)
  show ?thesis
    using True c(1,3,4) c'(2) keys_iff [OF assms] pairEject_props [OF c(2) c'(1)]
    by (simp add: AhdKeyValueWithout_def)
next
  case False
  then show ?thesis using keys_iff [OF assms] by (simp add: AhdKeyValueWithout_def)
qed

lemma requestedLoop_iff:
  assumes "pairOk p"
  shows "if set ks \<subseteq> set (pairKeys p) \<and> distinct ks \<and> set ks \<inter> set done = {}
    then requestedLoop kt cls operation p ks done = Inr (done @ ks)
    else \<exists>e. requestedLoop kt cls operation p ks done = Inl e"
  using keys_iff [OF assms]
proof (induction ks arbitrary: "done")
  case (Cons k ks)
  from Cons.IH [of "done @ [k]"] show ?case
    by (auto simp: keys_iff [OF assms] split: if_splits)
qed simp

lemma select_yields:
  assumes "pairOk p"
  shows "if set ks \<subseteq> set (pairKeys p) \<and> distinct ks
    then yields (map (\<lambda>k. (k, the (map_of (entries p) k))) ks)
        (AhdKeyValueSelect kt cls (Some p) (Some (AhdNewList ks)))
      \<and> yields (filter (\<lambda>(k, v). k \<notin> set ks) (entries p))
        (AhdKeyValueDrop kt cls (Some p) (Some (AhdNewList ks)))
    else (\<exists>e. AhdKeyValueSelect kt cls (Some p) (Some (AhdNewList ks)) = Inl e)
      \<and> (\<exists>e. AhdKeyValueDrop kt cls (Some p) (Some (AhdNewList ks)) = Inl e)"
proof (cases "set ks \<subseteq> set (pairKeys p) \<and> distinct ks")
  case True
  then have keys: "ahdRequestedKeys kt cls operation (Some p) (Some (AhdNewList ks)) = Inr ks" for operation
    using requestedLoop_iff [OF assms, of ks "[]" kt cls operation] by (simp add: ahdRequestedKeys_def AhdNewList_def)
  have "map (\<lambda>k. (k, the (pairValues p k))) (filter (\<lambda>k. k \<notin> set ks) (pairKeys p)) =
      filter (\<lambda>(k, v). k \<notin> set ks) (entries p)"
    by (simp add: entries_def filter_map comp_def)
  moreover have "distinct (filter (\<lambda>k. k \<notin> set ks) (pairKeys p))" using assms by (simp add: pairOk_def)
  ultimately have "yields (filter (\<lambda>(k, v). k \<notin> set ks) (entries p))
      (AhdKeyValueDrop kt cls (Some p) (Some (AhdNewList ks)))"
    using keys copyKeys_yields [of "filter (\<lambda>k. k \<notin> set ks) (pairKeys p)" p]
    by (simp add: AhdKeyValueDrop_def)
  moreover have "yields (map (\<lambda>k. (k, the (map_of (entries p) k))) ks)
      (AhdKeyValueSelect kt cls (Some p) (Some (AhdNewList ks)))"
    using True keys copyKeys_yields [of ks p] map_of_entries [OF assms]
    by (simp add: AhdKeyValueSelect_def AhdNewList_def)
  ultimately show ?thesis using True by simp
next
  case False
  then have "\<exists>e. ahdRequestedKeys kt cls operation (Some p) (Some (AhdNewList ks)) = Inl e" for operation
    using requestedLoop_iff [OF assms, of ks "[]" kt cls operation]
    by (simp add: ahdRequestedKeys_def AhdNewList_def split: if_splits)
  then have "(\<exists>e. AhdKeyValueSelect kt cls (Some p) (Some (AhdNewList ks)) = Inl e)
      \<and> (\<exists>e. AhdKeyValueDrop kt cls (Some p) (Some (AhdNewList ks)) = Inl e)"
    unfolding AhdKeyValueSelect_def AhdKeyValueDrop_def by (metis andThen.simps(1))
  with False show ?thesis by auto
qed

lemma rename_yields:
  assumes "pairOk p"
  shows "if old \<in> set (pairKeys p) \<and> (new = old \<or> new \<notin> set (pairKeys p))
    then yields (map (\<lambda>(k, v). (if k = old then new else k, v)) (entries p)) (AhdKeyValueRename kt cls (Some p) old new)
    else \<exists>e. AhdKeyValueRename kt cls (Some p) old new = Inl e"
proof (cases "old \<in> set (pairKeys p) \<and> new \<noteq> old \<and> new \<notin> set (pairKeys p)")
  case True
  let ?kvs = "map (\<lambda>(k, v). (if k = old then new else k, v)) (entries p)"
  have "map fst ?kvs = map (\<lambda>k. if k = old then new else k) (pairKeys p)"
    by (simp add: entries_def)
  moreover have "distinct (map (\<lambda>k. if k = old then new else k) (pairKeys p))"
    using True assms by (auto simp: pairOk_def distinct_map inj_on_def)
  ultimately have "yields ?kvs (Inr (foldl (\<lambda>r (k, v). pairAppend r k v) AhdNewPair ?kvs))"
    using appendAll [of AhdNewPair ?kvs] by (simp add: new_pair freshKeys_new)
  moreover have "foldl (\<lambda>r (k, v). pairAppend r k v) AhdNewPair ?kvs =
      foldl (\<lambda>result key. if key = old then pairAppend result new (the (pairValues p old))
        else pairAppend result key (the (pairValues p key))) AhdNewPair (pairKeys p)"
  proof -
    have "foldl (\<lambda>r (k, v). pairAppend r k v) AhdNewPair ?kvs =
        foldl (\<lambda>r x. pairAppend r (if x = old then new else x) (the (pairValues p x))) AhdNewPair (pairKeys p)"
      by (simp add: entries_def foldl_map)
    also have "\<dots> = foldl (\<lambda>result key. if key = old then pairAppend result new (the (pairValues p old))
        else pairAppend result key (the (pairValues p key))) AhdNewPair (pairKeys p)"
      by (rule foldl_cong) auto
    finally show ?thesis .
  qed
  moreover have "old \<noteq> new" using True by blast
  ultimately show ?thesis using True keys_iff [OF assms] by (simp add: AhdKeyValueRename_def)
next
  case False
  have "map (\<lambda>(k, v). (if k = old then old else k, v)) (entries p) = entries p"
    by (rule map_idI) auto
  then show ?thesis
    using False keys_iff [OF assms] ahdPairCopy_yields [OF assms] by (auto simp: AhdKeyValueRename_def)
qed

lemma mapValuesLoop_yields:
  assumes "\<And>v. transform v = Inr (f v)"
  shows "mapValuesLoop transform p ks r =
    Inr (foldl (\<lambda>r (k, v). pairAppend r k v) r (map (\<lambda>k. (k, f (the (pairValues p k)))) ks))"
  by (induction ks arbitrary: r) (simp_all add: assms)

lemma mapValues_yields:
  assumes "pairOk p"
  shows "yields (map (\<lambda>(k, v). (k, f v)) (entries p)) (AhdKeyValueMapValues (Some p) (\<lambda>v. Inr (f v)))"
proof -
  have kvs: "map (\<lambda>(k, v). (k, f v)) (entries p) = map (\<lambda>k. (k, f (the (pairValues p k)))) (pairKeys p)"
    by (simp add: entries_def)
  have "distinct (pairKeys p)" using assms by (simp add: pairOk_def)
  then show ?thesis
    using appendAll [of AhdNewPair "map (\<lambda>k. (k, f (the (pairValues p k)))) (pairKeys p)"]
    unfolding kvs by (simp add: AhdKeyValueMapValues_def mapValuesLoop_yields new_pair freshKeys_new comp_def)
qed

lemma mergeLoop_yields:
  "pairOk p \<Longrightarrow> \<not> pairFrozen p \<Longrightarrow> distinct ks \<Longrightarrow>
   if set ks \<inter> dom (pairValues p) = {}
   then mergeLoop kt cls q ks p = Inr (copyKeys q ks p)
   else \<exists>e. mergeLoop kt cls q ks p = Inl e"
proof (induction ks arbitrary: p)
  case (Cons k ks)
  show ?case
  proof (cases "pairValues p k = None")
    case True
    note props = pairAppend_props [OF Cons.prems(1) True, of "the (pairValues q k)"]
    from Cons.IH [OF props(1)] props(3) Cons.prems True show ?thesis
      by (auto simp: copyKeys_def pairAppend_def split: if_splits)
  qed auto
qed (simp add: copyKeys_def)

lemma merge_yields:
  assumes "pairOk p" "pairOk q"
  shows "if set (pairKeys p) \<inter> set (pairKeys q) = {}
    then yields (entries p @ entries q) (AhdKeyValueMerge kt cls (Some p) (Some q))
    else \<exists>e. AhdKeyValueMerge kt cls (Some p) (Some q) = Inl e"
proof -
  obtain c where c: "ahdPairCopy (Some p) = Inr c" "pairOk c" "\<not> pairFrozen c" "entries c = entries p"
    using ahdPairCopy_yields [OF assms(1)] by (rule yieldsE)
  have keys: "dom (pairValues c) = set (pairKeys p)" using c(2,4) by (metis entries_keys pairOk_def)
  have q: "distinct (pairKeys q)" using assms(2) by (simp add: pairOk_def)
  have "set (pairKeys p) \<inter> set (pairKeys q) = {} \<Longrightarrow> freshKeys c (pairKeys q)"
    using q keys by (auto simp: freshKeys_def)
  then have "set (pairKeys p) \<inter> set (pairKeys q) = {} \<Longrightarrow> yields (entries p @ entries q) (Inr (copyKeys q (pairKeys q) c))"
    using appendAll [OF c(2,3), of "entries q"] c(4) by (simp add: copyKeys_fold flip: entries_def)
  then show ?thesis
    using mergeLoop_yields [OF c(2,3) q, of kt cls q] c(1) keys
    by (auto simp: AhdKeyValueMerge_def split: if_splits)
qed

lemma overlayLoop_yields:
  "pairOk p \<Longrightarrow> \<not> pairFrozen p \<Longrightarrow>
   yields (fold (\<lambda>k. AList.update k (the (pairValues q k))) ks (entries p)) (overlayLoop q ks p)"
proof (induction ks arbitrary: p)
  case (Cons k ks)
  obtain p' where p': "pairSet (Some p) k (the (pairValues q k)) = Inr p'" "pairOk p'" "\<not> pairFrozen p'"
      "entries p' = AList.update k (the (pairValues q k)) (entries p)"
    using yieldsE [OF pairSet_yields [OF Cons.prems]] by blast
  show ?case using Cons.IH [OF p'(2,3)] p' by simp
qed simp

lemma overlay_yields:
  assumes "pairOk p" "pairOk q"
  shows "yields (fold (\<lambda>(k, v). AList.update k v) (entries q) (entries p)) (AhdKeyValueOverlay (Some p) (Some q))"
proof -
  obtain c where c: "ahdPairCopy (Some p) = Inr c" "pairOk c" "\<not> pairFrozen c" "entries c = entries p"
    using ahdPairCopy_yields [OF assms(1)] by (rule yieldsE)
  then show ?thesis using overlayLoop_yields [OF c(2,3), of q "pairKeys q"]
    by (simp add: AhdKeyValueOverlay_def entries_def fold_map comp_def)
qed

lemma combineLoop_yields:
  "pairOk p \<Longrightarrow> \<not> pairFrozen p \<Longrightarrow>
   if freshKeys p (map fst kvs) then yields (entries p @ kvs) (combineLoop kt cls kvs p)
   else \<exists>e. combineLoop kt cls kvs p = Inl e"
proof (induction kvs arbitrary: p)
  case (Cons kv kvs)
  obtain k v where kv: "kv = (k, v)" by fastforce
  show ?case
  proof (cases "pairValues p k = None")
    case True
    note props = pairAppend_props [OF Cons.prems(1) True, of v]
    from Cons.IH [OF props(1)] props(2,3) Cons.prems(2) True show ?thesis
      using freshKeys_Cons [of p k "map fst kvs" v] by (simp add: kv split: if_splits)
  next
    case False
    then show ?thesis by (auto simp: kv freshKeys_def)
  qed
qed (simp add: freshKeys_def)

lemma combine_yields:
  "if length ks = length vs \<and> distinct ks
   then yields (zip ks vs) (AhdKeyValueCombine kt cls (Some (AhdNewList ks)) (Some (AhdNewList vs)))
   else \<exists>e. AhdKeyValueCombine kt cls (Some (AhdNewList ks)) (Some (AhdNewList vs)) = Inl e"
  using combineLoop_yields [OF new_pair(1,2), of "zip ks vs" kt cls]
  by (auto simp: AhdKeyValueCombine_def AhdNewList_def new_pair freshKeys_new)

text \<open>
  C29: the KeyValue operations on well-formed Pairs, as operations on their entries. None changes its
  argument, every result is a new mutable Pair that is well formed again, and each refuses exactly the
  arguments for which its result would not be one: with updates and without deletes an entry, rename
  keeps the position, select and drop take distinct existing keys, merge takes disjoint Pairs and
  overlay lets the changes win, combine undoes keys and values.
\<close>

theorem keyvalue_operations_on_entries:
  assumes "pairOk p" "pairOk q"
  shows "(yields (AList.update k v (entries p)) (AhdKeyValueWith (Some p) k v))
    \<and> (if k \<in> set (pairKeys p) then yields (AList.delete k (entries p)) (AhdKeyValueWithout kt (Some p) k)
      else AhdKeyValueWithout kt (Some p) k = Inl (noKey kt k))
    \<and> (if k \<in> set (pairKeys p) \<and> (k' = k \<or> k' \<notin> set (pairKeys p))
      then yields (map (\<lambda>(x, v). (if x = k then k' else x, v)) (entries p)) (AhdKeyValueRename kt cls (Some p) k k')
      else \<exists>e. AhdKeyValueRename kt cls (Some p) k k' = Inl e)
    \<and> (if set ks \<subseteq> set (pairKeys p) \<and> distinct ks
      then yields (map (\<lambda>k. (k, the (map_of (entries p) k))) ks)
          (AhdKeyValueSelect kt cls (Some p) (Some (AhdNewList ks)))
        \<and> yields (filter (\<lambda>(k, v). k \<notin> set ks) (entries p))
          (AhdKeyValueDrop kt cls (Some p) (Some (AhdNewList ks)))
      else (\<exists>e. AhdKeyValueSelect kt cls (Some p) (Some (AhdNewList ks)) = Inl e)
        \<and> (\<exists>e. AhdKeyValueDrop kt cls (Some p) (Some (AhdNewList ks)) = Inl e))
    \<and> (if set (pairKeys p) \<inter> set (pairKeys q) = {}
      then yields (entries p @ entries q) (AhdKeyValueMerge kt cls (Some p) (Some q))
      else \<exists>e. AhdKeyValueMerge kt cls (Some p) (Some q) = Inl e)
    \<and> (yields (fold (\<lambda>(k, v). AList.update k v) (entries q) (entries p)) (AhdKeyValueOverlay (Some p) (Some q)))
    \<and> (yields (map (\<lambda>(k, v). (k, f v)) (entries p)) (AhdKeyValueMapValues (Some p) (\<lambda>v. Inr (f v))))
    \<and> (if length ks = length vs \<and> distinct ks
      then yields (zip ks vs) (AhdKeyValueCombine kt cls (Some (AhdNewList ks)) (Some (AhdNewList vs)))
      else \<exists>e. AhdKeyValueCombine kt cls (Some (AhdNewList ks)) (Some (AhdNewList vs)) = Inl e)"
  by (intro conjI) (rule with_yields without_yields rename_yields select_yields merge_yields overlay_yields
      mapValues_yields combine_yields assms)+

lemma keyvalue_operations_on_entries_witness:
  "yields [(1::nat, 20::nat)] (AhdKeyValueWith (Some (pairAppend AhdNewPair 1 10)) 1 20)"
proof -
  let ?p = "pairAppend AhdNewPair (1::nat) (10::nat)"
  have "pairOk ?p" "entries ?p = [(1, 10)]"
    using pairAppend_props [of AhdNewPair "1::nat" "10::nat"] by (simp_all add: new_pair)
  from conjunct1 [OF keyvalue_operations_on_entries [OF this(1) this(1)], of 1 20] this(2)
  show ?thesis by simp
qed

subsection \<open>Lists of lists\<close>

lemma flattenRows_concat:
  "flattenRows (map (\<lambda>part. Some (AhdNewList part)) parts) result = Inr (result @ concat parts)"
  by (induction parts arbitrary: result) (simp_all add: AhdNewList_def)

lemma chunkLoop_concat: "0 < n \<Longrightarrow> concat (chunkLoop start n items) = drop start items"
proof (induction start n items rule: chunkLoop.induct)
  case (1 start n items)
  show ?case
  proof (cases "start < length items")
    case True
    then have "slice items start (min (start + n) (length items)) @ drop (start + n) items = drop start items"
      by (simp add: slice_def min_def) (metis add.commute append_take_drop_id drop_drop)
    with 1 True show ?thesis by (subst chunkLoop.simps) simp
  qed (subst chunkLoop.simps, simp)
qed

lemma chunkLoop_lengths:
  "0 < n \<Longrightarrow> list_all (\<lambda>c. 0 < length c \<and> length c \<le> n) (chunkLoop start n items)
    \<and> list_all (\<lambda>c. length c = n) (butlast (chunkLoop start n items))"
proof (induction start n items rule: chunkLoop.induct)
  case (1 start n items)
  show ?case
  proof (cases "start < length items")
    case True
    define rest where "rest = chunkLoop (start + n) n items"
    have loop: "chunkLoop start n items = slice items start (min (start + n) (length items)) # rest"
      using True "1.prems" unfolding rest_def by (subst chunkLoop.simps) simp
    have "rest \<noteq> [] \<Longrightarrow> start + n < length items"
      unfolding rest_def by (subst (asm) chunkLoop.simps) (auto split: if_splits)
    moreover have "length (slice items start (min (start + n) (length items))) = min (start + n) (length items) - start"
      by (rule length_slice) simp
    ultimately show ?thesis
      using 1 True by (auto simp: loop rest_def [symmetric] simp del: length_greater_0_conv)
  qed (subst (1 2) chunkLoop.simps, simp)
qed

definition rowPointers :: "'a list list \<Rightarrow> 'a AhdList option AhdList" where
  "rowPointers rows = AhdNewList (map (\<lambda>r. Some (AhdNewList r)) rows)"

lemma checkRows_rows:
  "list_all (\<lambda>r. length r = width) rows \<Longrightarrow>
   checkRows cls width index (map (\<lambda>r. Some (AhdNewList r)) rows) = Inr rows"
  by (induction rows arbitrary: index) (simp_all add: AhdNewList_def)

lemma checkRows_ragged:
  "\<not> list_all (\<lambda>r. length r = width) rows \<Longrightarrow>
   \<exists>m. checkRows cls width index (map (\<lambda>r. Some (AhdNewList r)) rows) = Inl (cls, m)"
proof (induction rows arbitrary: index)
  case (Cons r rows)
  then show ?case
    by (cases "length r = width") (auto simp: AhdNewList_def dest!: meta_spec [of _ "index + 1"])
qed simp

definition columns :: "nat \<Rightarrow> 'a list list \<Rightarrow> 'a list list" where
  "columns width rows = map (\<lambda>c. map (\<lambda>r. r ! c) rows) [0..<width]"

lemma transpose_rows:
  "AhdListsTranspose cls (Some (rowPointers rows)) =
    (if rows = [] then Inr (rowPointers [])
     else if list_all (\<lambda>r. length r = length (hd rows)) rows
     then Inr (rowPointers (columns (length (hd rows)) rows))
     else AhdListsTranspose cls (Some (rowPointers rows)))"
proof (cases rows)
  case (Cons r rs)
  then show ?thesis
    using checkRows_rows [of "length r" rows cls 0]
    by (simp add: AhdListsTranspose_def rowPointers_def AhdNewList_def columns_def comp_def)
qed (simp add: AhdListsTranspose_def rowPointers_def AhdNewList_def)

lemma columns_columns:
  assumes "list_all (\<lambda>r. length r = width) rows"
  shows "columns (length rows) (columns width rows) = rows"
proof (rule nth_equalityI)
  show "length (columns (length rows) (columns width rows)) = length rows" by (simp add: columns_def)
  fix i assume "i < length (columns (length rows) (columns width rows))"
  then have i: "i < length rows" by (simp add: columns_def)
  then have "columns (length rows) (columns width rows) ! i = map (\<lambda>c. rows ! i ! c) [0..<width]"
    by (simp add: columns_def comp_def)
  also have "\<dots> = rows ! i"
    using assms i by (intro nth_equalityI) (simp_all add: list_all_length)
  finally show "columns (length rows) (columns width rows) ! i = rows ! i" .
qed

text \<open>Elements in the order of their first occurrence.\<close>

definition firsts :: "'a list \<Rightarrow> 'a list" where
  "firsts xs = rev (remdups (rev xs))"

lemma firsts_snoc: "firsts (xs @ [x]) = (if x \<in> set xs then firsts xs else firsts xs @ [x])"
  by (simp add: firsts_def)

lemma firsts_set [simp]: "set (firsts xs) = set xs" "distinct (firsts xs)"
  by (simp_all add: firsts_def)

lemma unique_firsts: "foldl (uniqueItem (=)) [] xs = firsts xs"
proof (induction xs rule: rev_induct)
  case (snoc x xs)
  then show ?case by (auto simp: firsts_snoc uniqueItem_def list_ex_iff)
qed (simp add: firsts_def)

definition groupsOf :: "('a \<Rightarrow> 'k) \<Rightarrow> 'a list \<Rightarrow> ('k, 'a AhdList) AhdPair" where
  "groupsOf f xs = AhdNewPair\<lparr>pairKeys := firsts (map f xs),
     pairValues := (\<lambda>k. if k \<in> f ` set xs then Some (AhdNewList (filter (\<lambda>x. f x = k) xs)) else None)\<rparr>"

lemma groupLoop_groups:
  "groupLoop (\<lambda>x. Inr (f x)) ys (groupsOf f xs) = Inr (groupsOf f (xs @ ys))"
proof (induction ys arbitrary: xs)
  case (Cons y ys)
  have "groupLoop (\<lambda>x. Inr (f x)) (y # ys) (groupsOf f xs) = groupLoop (\<lambda>x. Inr (f x)) ys (groupsOf f (xs @ [y]))"
    by (cases "f y \<in> f ` set xs")
      (auto simp: groupsOf_def firsts_snoc AhdNewList_def AhdNewPair_def fun_eq_iff Let_def
          filter_empty_conv intro!: arg_cong [of _ _ "groupLoop _ _"] dest: rev_image_eqI [OF _ sym])
  then show ?case using Cons.IH [of "xs @ [y]"] by simp
qed simp

text \<open>
  C30: the Lists operations lose and invent nothing. Chunks of a positive size are full except the last
  one, which is not empty, and flattening them gives the list back; a rectangle with at least one
  column is transposed to its columns, and back; unique keeps the first occurrences; grouping by a key
  gives, in the order of the first occurrences of the keys, the elements with each key in their order.
\<close>

theorem lists_operations_keep_their_elements:
  assumes "0 < sint n" "rows \<noteq> []" "0 < width" "list_all (\<lambda>r. length r = width) rows"
  shows "(\<exists>parts. AhdListsChunk cls (Some (AhdNewList items)) n = Inr (rowPointers parts)
      \<and> AhdListsFlatten (Some (rowPointers parts)) = Inr (AhdNewList items)
      \<and> list_all (\<lambda>c. int (length c) = sint n) (butlast parts)
      \<and> list_all (\<lambda>c. 0 < length c \<and> int (length c) \<le> sint n) parts)
    \<and> AhdListsTranspose cls (Some (rowPointers rows)) = Inr (rowPointers (columns width rows))
    \<and> AhdListsTranspose cls (Some (rowPointers (columns width rows))) = Inr (rowPointers rows)
    \<and> AhdListsUnique (Some (AhdNewList items)) (=) = Inr (AhdNewList (firsts items))
    \<and> AhdListsGroupBy (Some (AhdNewList items)) (\<lambda>x. Inr (f x)) = Inr (groupsOf f items)"
proof (intro conjI)
  have n: "0 < unat n" "int (unat n) = sint n" using assms(1) unat_sint [of n] by simp_all
  let ?parts = "chunkLoop 0 (unat n) items"
  have "AhdListsFlatten (Some (rowPointers ?parts)) = Inr (AhdNewList items)"
    using flattenRows_concat [of ?parts "[]"] chunkLoop_concat [OF n(1), of 0 items]
    by (simp add: AhdListsFlatten_def rowPointers_def) (simp add: AhdNewList_def)
  moreover have "AhdListsChunk cls (Some (AhdNewList items)) n = Inr (rowPointers ?parts)"
    using assms(1) by (simp add: AhdListsChunk_def rowPointers_def) (simp add: AhdNewList_def)
  moreover have "list_all (\<lambda>c. int (length c) = sint n) (butlast ?parts)"
    "list_all (\<lambda>c. 0 < length c \<and> int (length c) \<le> sint n) ?parts"
    using chunkLoop_lengths [OF n(1), of 0 items] unfolding n(2) [symmetric] of_nat_le_iff of_nat_eq_iff
    by simp_all
  ultimately show "\<exists>parts. AhdListsChunk cls (Some (AhdNewList items)) n = Inr (rowPointers parts)
      \<and> AhdListsFlatten (Some (rowPointers parts)) = Inr (AhdNewList items)
      \<and> list_all (\<lambda>c. int (length c) = sint n) (butlast parts)
      \<and> list_all (\<lambda>c. 0 < length c \<and> int (length c) \<le> sint n) parts" by blast
  have "length (hd rows) = width" using assms(2,4) by (cases rows) auto
  then show "AhdListsTranspose cls (Some (rowPointers rows)) = Inr (rowPointers (columns width rows))"
    using transpose_rows [of cls rows] assms(2,4) by simp
  have "columns width rows \<noteq> []" "list_all (\<lambda>r. length r = length rows) (columns width rows)"
    "length (hd (columns width rows)) = length rows"
    using assms(3) by (auto simp: columns_def list_all_iff upt_conv_Cons)
  then show "AhdListsTranspose cls (Some (rowPointers (columns width rows))) = Inr (rowPointers rows)"
    using transpose_rows [of cls "columns width rows"] columns_columns [OF assms(4)] by simp
  show "AhdListsUnique (Some (AhdNewList items)) (=) = Inr (AhdNewList (firsts items))"
    by (simp add: AhdListsUnique_def unique_firsts) (simp add: AhdNewList_def)
  have "groupsOf f [] = AhdNewPair" by (simp add: groupsOf_def firsts_def AhdNewPair_def)
  then show "AhdListsGroupBy (Some (AhdNewList items)) (\<lambda>x. Inr (f x)) = Inr (groupsOf f items)"
    using groupLoop_groups [of f items "[]"]
    by (simp add: AhdListsGroupBy_def listSnapshot_def) (simp add: AhdNewList_def)
qed

lemma lists_operations_keep_their_elements_witness:
  "AhdListsTranspose ''ListsError'' (Some (rowPointers [[1::nat, 2], [3, 4]])) = Inr (rowPointers [[1, 3], [2, 4]])"
proof -
  have "columns 2 [[1::nat, 2], [3, 4]] = [[1, 3], [2, 4]]" by (simp add: columns_def upt_conv_Cons numeral_2_eq_2)
  then show ?thesis
    using lists_operations_keep_their_elements
      [of 2 "[[1::nat, 2], [3, 4]]" 2 "''ListsError''" "[] :: nat list" "\<lambda>x. x"] by simp
qed

end
