(* ===== verification/Json.thy ===== *)
theory Json
  imports IntArith
begin

text \<open>
  The \<open>JSON\<close> module of the runtime (\<open>internal/backend/golang/ahdruntime/ahdruntime.go\<close>): the
  hand-written parser, the canonical and the indented text, and the accessors of a JSONValue, which is
  held as its canonical text.

  The parser is written on the text behind its position; \<open>parser.pos\<close> is the length of the text minus
  the length of that rest. Recursion between values carries a fuel, and \<^const>\<open>None\<close> is "deeper than
  the fuel". What the code uses of \<open>float64\<close> and \<open>strconv\<close> for reals is the record \<open>floats\<close>: parsing
  (\<^const>\<open>None\<close> for an error or an infinity), the shortest text in format 'g', the conversion of an
  \<open>int64\<close>, and finiteness.
\<close>

record 'r floats =
  parseFloat :: "string \<Rightarrow> 'r option"
  formatFloat :: "'r \<Rightarrow> string"
  floatOfInt :: "int64 \<Rightarrow> 'r"
  isFinite :: "'r \<Rightarrow> bool"

subsection \<open>Values\<close>

text \<open>An object holds its members in the order of their keys, which are distinct.\<close>

datatype 'r ahdJSONNode =
    JNull | JBool bool | JInt int64 | JReal 'r | JString string
  | JArray "'r ahdJSONNode list" | JObject "(string \<times> 'r ahdJSONNode) list"

fun nodeKind :: "'r ahdJSONNode \<Rightarrow> string" where
  "nodeKind JNull = ''Null''"
| "nodeKind (JBool _) = ''Bool''"
| "nodeKind (JInt _) = ''Int''"
| "nodeKind (JReal _) = ''Real''"
| "nodeKind (JString _) = ''String''"
| "nodeKind (JArray _) = ''Array''"
| "nodeKind (JObject _) = ''Object''"

subsection \<open>Parsing\<close>

type_synonym 'a parsed = "raised + 'a \<times> string"

definition jsonSpace :: "char \<Rightarrow> bool" where
  "jsonSpace c = (c \<in> {CHR '' '', CHR 0x09, CHR 0x0A, CHR 0x0D})"

definition skipWhitespace :: "string \<Rightarrow> string" where
  "skipWhitespace rest = dropWhile jsonSpace rest"

definition expectLiteral :: "string \<Rightarrow> string \<Rightarrow> 'r ahdJSONNode \<Rightarrow> string \<Rightarrow> 'r ahdJSONNode parsed" where
  "expectLiteral class literal node rest =
    (if HasPrefix rest literal then Inr (node, drop (length literal) rest)
     else Inl (class, ''JSON input has an invalid literal''))"

definition hexValue :: "char \<Rightarrow> nat option" where
  "hexValue c =
    (if 48 \<le> byteOf c \<and> byteOf c \<le> 57 then Some (byteOf c - 48)
     else if 97 \<le> byteOf c \<and> byteOf c \<le> 102 then Some (byteOf c - 87)
     else if 65 \<le> byteOf c \<and> byteOf c \<le> 70 then Some (byteOf c - 55)
     else None)"

text \<open>\<open>strconv.ParseUint\<close> in base 16, on digits that fit.\<close>

fun parseHexDigits :: "nat \<Rightarrow> string \<Rightarrow> nat option" where
  "parseHexDigits n [] = Some n"
| "parseHexDigits n (c # cs) =
    (case hexValue c of None \<Rightarrow> None | Some d \<Rightarrow> parseHexDigits (16 * n + d) cs)"

definition parseHex4 :: "string \<Rightarrow> string \<Rightarrow> nat parsed" where
  "parseHex4 class rest =
    (let rest = drop 1 rest
     in if length rest < 4 then Inl (class, ''JSON String has an incomplete '' @ [CHR 0x5C] @ ''u escape'')
        else
          (case parseHexDigits 0 (take 4 rest) of
             None \<Rightarrow> Inl (class, ''JSON String has an invalid '' @ [CHR 0x5C] @ ''u escape'')
           | Some value \<Rightarrow> Inr (value, drop 4 rest)))"

definition isSurrogate :: "nat \<Rightarrow> bool" where
  "isSurrogate r = (0xD800 \<le> r \<and> r < 0xE000)"

definition surrogatePair :: "nat \<Rightarrow> nat \<Rightarrow> nat" where
  "surrogatePair high low =
    (if 0xD800 \<le> high \<and> high < 0xDC00 \<and> 0xDC00 \<le> low \<and> low < 0xE000
     then (high - 0xD800) * 0x400 + (low - 0xDC00) + 0x10000 else RuneError)"

definition parseUnicodeEscape :: "string \<Rightarrow> string \<Rightarrow> nat parsed" where
  "parseUnicodeEscape class rest =
    (case parseHex4 class rest of
       Inl r \<Rightarrow> Inl r
     | Inr (high, rest) \<Rightarrow>
         if isSurrogate high then
           (if HasPrefix rest [CHR 0x5C, CHR ''u''] then
              (case parseHex4 class (drop 2 rest) of
                 Inl r \<Rightarrow> Inl r
               | Inr (low, behind) \<Rightarrow>
                   let combined = surrogatePair high low
                   in if combined \<noteq> RuneError then Inr (combined, behind) else Inr (RuneError, rest))
            else Inr (RuneError, rest))
         else Inr (high, rest))"

definition shortEscape :: "char \<Rightarrow> char option" where
  "shortEscape c =
    (if c = CHR ''\"'' then Some (CHR ''\"'')
     else if c = CHR 0x5C then Some (CHR 0x5C)
     else if c = CHR ''/'' then Some (CHR ''/'')
     else if c = CHR ''b'' then Some (CHR 0x08)
     else if c = CHR ''f'' then Some (CHR 0x0C)
     else if c = CHR ''n'' then Some (CHR 0x0A)
     else if c = CHR ''r'' then Some (CHR 0x0D)
     else if c = CHR ''t'' then Some (CHR 0x09)
     else None)"

lemma parseHex4_rest: "parseHex4 class rest = Inr (v, rest') \<Longrightarrow> length rest' + 5 = length rest"
  by (auto simp: parseHex4_def Let_def split: if_splits option.splits)

lemma parseUnicodeEscape_rest: "parseUnicodeEscape class rest = Inr (v, rest') \<Longrightarrow> length rest' < length rest"
  by (auto simp: parseUnicodeEscape_def Let_def split: sum.splits prod.splits if_splits dest!: parseHex4_rest)

text \<open>The loop over a string behind its opening quote.\<close>

function parseStringLoop :: "string \<Rightarrow> string \<Rightarrow> string \<Rightarrow> string parsed" where
  "parseStringLoop class builder rest =
    (case rest of
       [] \<Rightarrow> Inl (class, ''JSON String is not closed'')
     | c # cs \<Rightarrow>
         if c = CHR ''\"'' then Inr (builder, cs)
         else if c = CHR 0x5C then
           (case cs of
              [] \<Rightarrow> Inl (class, ''JSON String has an incomplete escape sequence'')
            | e # es \<Rightarrow>
                (case shortEscape e of
                   Some d \<Rightarrow> parseStringLoop class (builder @ [d]) es
                 | None \<Rightarrow>
                     if e = CHR ''u'' then
                       (case parseUnicodeEscape class cs of
                          Inl r \<Rightarrow> Inl r
                        | Inr (rune, behind) \<Rightarrow> parseStringLoop class (builder @ EncodeRune rune) behind)
                     else Inl (class, ''JSON String has an invalid escape sequence'')))
         else if byteOf c < 0x20 then Inl (class, ''JSON String contains an unescaped control character'')
         else
           (let width = snd (DecodeRune rest)
            in parseStringLoop class (builder @ take width rest) (drop width rest)))"
  by pat_completeness auto
termination
  by (relation "measure (\<lambda>(_, _, rest). length rest)")
    (auto simp: DecodeRune_size_pos dest!: parseUnicodeEscape_rest)

declare parseStringLoop.simps [simp del]

definition parseString_json :: "string \<Rightarrow> string \<Rightarrow> string parsed" where
  "parseString_json class rest = parseStringLoop class [] (drop 1 rest)"

definition dropDigits :: "string \<Rightarrow> string" where
  "dropDigits rest = dropWhile isDecimal rest"

definition integerPart :: "string \<Rightarrow> string \<Rightarrow> raised + string" where
  "integerPart class rest =
    (let rest = (if rest \<noteq> [] \<and> hd rest = CHR ''-'' then tl rest else rest)
     in if rest = [] \<or> \<not> isDecimal (hd rest) then Inl (class, ''JSON input has a malformed number'')
        else Inr (if hd rest = CHR ''0'' then tl rest else dropDigits rest))"

definition fractionPart :: "string \<Rightarrow> string \<Rightarrow> raised + bool \<times> string" where
  "fractionPart class rest =
    (if rest \<noteq> [] \<and> hd rest = CHR ''.'' then
       (let behind = dropDigits (tl rest)
        in if behind = tl rest then Inl (class, ''JSON number has a malformed fraction'')
           else Inr (True, behind))
     else Inr (False, rest))"

definition exponentPart :: "string \<Rightarrow> string \<Rightarrow> raised + bool \<times> string" where
  "exponentPart class rest =
    (if rest \<noteq> [] \<and> (hd rest = CHR ''e'' \<or> hd rest = CHR ''E'') then
       (let rest = tl rest;
            rest = (if rest \<noteq> [] \<and> (hd rest = CHR ''+'' \<or> hd rest = CHR ''-'') then tl rest else rest);
            behind = dropDigits rest
        in if behind = rest then Inl (class, ''JSON number has a malformed exponent'')
           else Inr (True, behind))
     else Inr (False, rest))"

text \<open>\<open>strconv.ParseInt\<close> in base ten, on an optional minus sign and digits.\<close>

definition parseInt :: "string \<Rightarrow> int64 option" where
  "parseInt lexeme =
    (let i = (if lexeme \<noteq> [] \<and> hd lexeme = CHR ''-'' then - int (digitsValue (tl lexeme))
              else int (digitsValue lexeme))
     in if - (2 ^ 63) \<le> i \<and> i < 2 ^ 63 then Some (word_of_int i) else None)"

definition numberNode :: "'r floats \<Rightarrow> string \<Rightarrow> bool \<Rightarrow> string \<Rightarrow> raised + 'r ahdJSONNode" where
  "numberNode fl class isReal lexeme =
    (if \<not> isReal then
       (case parseInt lexeme of
          Some value \<Rightarrow> Inr (JInt value)
        | None \<Rightarrow> Inl (class, ''JSON integer literal '' @ lexeme @ '' does not fit AhdCode's Int range''))
     else
       (case parseFloat fl lexeme of
          Some value \<Rightarrow> Inr (JReal value)
        | None \<Rightarrow> Inl (class, ''JSON real literal '' @ lexeme @ '' is out of range'')))"

definition parseNumber :: "'r floats \<Rightarrow> string \<Rightarrow> string \<Rightarrow> 'r ahdJSONNode parsed" where
  "parseNumber fl class rest =
    (case integerPart class rest of
       Inl r \<Rightarrow> Inl r
     | Inr rest1 \<Rightarrow>
         (case fractionPart class rest1 of
            Inl r \<Rightarrow> Inl r
          | Inr (fraction, rest2) \<Rightarrow>
              (case exponentPart class rest2 of
                 Inl r \<Rightarrow> Inl r
               | Inr (exponent, rest3) \<Rightarrow>
                   (case numberNode fl class (fraction \<or> exponent) (take (length rest - length rest3) rest) of
                      Inl r \<Rightarrow> Inl r
                    | Inr node \<Rightarrow> Inr (node, rest3)))))"

definition ahdJSONMaxInputBytes :: nat where "ahdJSONMaxInputBytes = 8 * 1024 * 1024"
definition ahdJSONMaxDepth :: nat where "ahdJSONMaxDepth = 256"

text \<open>
  \<open>parseValue\<close>, and the loops of \<open>parseArray\<close> and \<open>parseObject\<close> behind the opening bracket. The bodies
  are given the functions they call.
\<close>

definition valueBody ::
  "'r floats \<Rightarrow> string \<Rightarrow> (string \<Rightarrow> 'r ahdJSONNode parsed option) \<Rightarrow> (string \<Rightarrow> 'r ahdJSONNode parsed option) \<Rightarrow>
   nat \<Rightarrow> string \<Rightarrow> 'r ahdJSONNode parsed option" where
  "valueBody fl class arrayLoop objectLoop depth rest =
    (if depth > ahdJSONMaxDepth
     then Some (Inl (class, ''JSON input exceeds the maximum supported nesting depth''))
     else
       (let rest = skipWhitespace rest
        in case rest of
          [] \<Rightarrow> Some (Inl (class, ''JSON input ends where a value was expected''))
        | c # cs \<Rightarrow>
            if c = CHR ''{'' then
              (let rest = skipWhitespace cs
               in if rest \<noteq> [] \<and> hd rest = CHR ''}'' then Some (Inr (JObject [], tl rest))
                  else objectLoop rest)
            else if c = CHR ''['' then
              (let rest = skipWhitespace cs
               in if rest \<noteq> [] \<and> hd rest = CHR '']'' then Some (Inr (JArray [], tl rest))
                  else arrayLoop rest)
            else if c = CHR 0x22 then Some (map_sum id (map_prod JString id) (parseString_json class rest))
            else if c = CHR ''t'' then Some (expectLiteral class ''true'' (JBool True) rest)
            else if c = CHR ''f'' then Some (expectLiteral class ''false'' (JBool False) rest)
            else if c = CHR ''n'' then Some (expectLiteral class ''null'' JNull rest)
            else if c = CHR ''-'' \<or> isDecimal c then Some (parseNumber fl class rest)
            else Some (Inl (class, ''JSON input has an unexpected character''))))"

definition arrayBody ::
  "string \<Rightarrow> ('r ahdJSONNode list \<Rightarrow> string \<Rightarrow> 'r ahdJSONNode parsed option) \<Rightarrow>
   'r ahdJSONNode list \<Rightarrow> 'r ahdJSONNode parsed option \<Rightarrow> 'r ahdJSONNode parsed option" where
  "arrayBody class loop items value =
    (case value of
       None \<Rightarrow> None
     | Some (Inl r) \<Rightarrow> Some (Inl r)
     | Some (Inr (node, rest)) \<Rightarrow>
         (case skipWhitespace rest of
            [] \<Rightarrow> Some (Inl (class, ''JSON array is not closed''))
          | c # cs \<Rightarrow>
              if c = CHR '','' then loop (items @ [node]) cs
              else if c = CHR '']'' then Some (Inr (JArray (items @ [node]), cs))
              else Some (Inl (class, ''JSON array is missing ',' or ']'' @ [CHR 0x27]))))"

definition objectBody ::
  "string \<Rightarrow> (string \<Rightarrow> 'r ahdJSONNode parsed option) \<Rightarrow>
   ((string \<times> 'r ahdJSONNode) list \<Rightarrow> string \<Rightarrow> 'r ahdJSONNode parsed option) \<Rightarrow>
   (string \<times> 'r ahdJSONNode) list \<Rightarrow> string \<Rightarrow> 'r ahdJSONNode parsed option" where
  "objectBody class parse loop members rest =
    (let rest = skipWhitespace rest
     in if rest = [] \<or> hd rest \<noteq> CHR 0x22 then Some (Inl (class, ''JSON object key must be a String''))
        else
          (case parseString_json class rest of
             Inl r \<Rightarrow> Some (Inl r)
           | Inr (key, rest) \<Rightarrow>
               (let rest = skipWhitespace rest
                in if rest = [] \<or> hd rest \<noteq> CHR '':''
                   then Some (Inl (class, ''JSON object is missing ':' after a key''))
                   else
                     (case parse (tl rest) of
                        None \<Rightarrow> None
                      | Some (Inl r) \<Rightarrow> Some (Inl r)
                      | Some (Inr (node, rest)) \<Rightarrow>
                          if key \<in> fst ` set members
                          then Some (Inl (class, ''JSON object has a duplicate key''))
                          else
                            (case skipWhitespace rest of
                               [] \<Rightarrow> Some (Inl (class, ''JSON object is not closed''))
                             | c # cs \<Rightarrow>
                                 if c = CHR '','' then loop (members @ [(key, node)]) cs
                                 else if c = CHR ''}'' then Some (Inr (JObject (members @ [(key, node)]), cs))
                                 else Some (Inl (class, ''JSON object is missing ',' or '}'' @ [CHR 0x27])))))))"

fun parseValue :: "'r floats \<Rightarrow> string \<Rightarrow> nat \<Rightarrow> nat \<Rightarrow> string \<Rightarrow> 'r ahdJSONNode parsed option"
  and parseArrayLoop :: "'r floats \<Rightarrow> string \<Rightarrow> nat \<Rightarrow> nat \<Rightarrow> 'r ahdJSONNode list \<Rightarrow> string \<Rightarrow>
    'r ahdJSONNode parsed option"
  and parseObjectLoop :: "'r floats \<Rightarrow> string \<Rightarrow> nat \<Rightarrow> nat \<Rightarrow> (string \<times> 'r ahdJSONNode) list \<Rightarrow> string \<Rightarrow>
    'r ahdJSONNode parsed option" where
  "parseValue fl class 0 depth rest = None"
| "parseValue fl class (Suc fuel) depth rest =
    valueBody fl class (\<lambda>rest. parseArrayLoop fl class fuel depth [] rest)
      (\<lambda>rest. parseObjectLoop fl class fuel depth [] rest) depth rest"
| "parseArrayLoop fl class 0 depth items rest = None"
| "parseArrayLoop fl class (Suc fuel) depth items rest =
    arrayBody class (\<lambda>items rest. parseArrayLoop fl class fuel depth items rest) items
      (parseValue fl class fuel (depth + 1) rest)"
| "parseObjectLoop fl class 0 depth members rest = None"
| "parseObjectLoop fl class (Suc fuel) depth members rest =
    objectBody class (\<lambda>rest. parseValue fl class fuel (depth + 1) rest)
      (\<lambda>members rest. parseObjectLoop fl class fuel depth members rest) members rest"

text \<open>\<open>utf8.ValidString\<close>\<close>

function ValidString :: "string \<Rightarrow> bool" where
  "ValidString s =
    (if s = [] then True
     else (case DecodeRune s of (r, n) \<Rightarrow> if r = RuneError \<and> n = 1 then False else ValidString (drop n s)))"
  by pat_completeness auto
termination
  by (relation "measure length") (auto simp: prod_eq_iff DecodeRune_size_pos)

declare ValidString.simps [simp del]

text \<open>Every step of the parser consumes a byte, so twice the length of the input is fuel enough.\<close>

definition ahdJSONParseDocument :: "'r floats \<Rightarrow> string \<Rightarrow> string \<Rightarrow> (raised + 'r ahdJSONNode) option" where
  "ahdJSONParseDocument fl class source =
    (if length source > ahdJSONMaxInputBytes
     then Some (Inl (class, ''JSON input is larger than the supported limit''))
     else if \<not> ValidString source then Some (Inl (class, ''JSON input is not valid UTF-8''))
     else
       (let rest = skipWhitespace source
        in if rest = [] then Some (Inl (class, ''JSON input is empty''))
           else
             (case parseValue fl class (2 * length source + 2) 0 rest of
                None \<Rightarrow> None
              | Some (Inl r) \<Rightarrow> Some (Inl r)
              | Some (Inr (node, rest)) \<Rightarrow>
                  Some (if skipWhitespace rest \<noteq> []
                    then Inl (class, ''JSON input has trailing content after its value'')
                    else Inr node))))"

subsection \<open>Writing\<close>

definition ahdJSONFormatReal :: "'r floats \<Rightarrow> 'r \<Rightarrow> string" where
  "ahdJSONFormatReal fl value =
    (let formatted = formatFloat fl value
     in if \<not> list_ex (\<lambda>c. c \<in> set ''.eE'') formatted then formatted @ ''.0'' else formatted)"

definition hexDigit :: "nat \<Rightarrow> char" where
  "hexDigit d = char_of (if d < 10 then 48 + d else 87 + d)"

text \<open>\<open>strconv.FormatInt\<close> in base 16.\<close>

fun formatHex :: "nat \<Rightarrow> string" where
  "formatHex n = (if n < 16 then [hexDigit n] else formatHex (n div 16) @ [hexDigit (n mod 16)])"

declare formatHex.simps [simp del]

definition encodeJSONRune :: "nat \<Rightarrow> string" where
  "encodeJSONRune r =
    (if r = 0x22 then [CHR 0x5C, CHR 0x22]
     else if r = 0x5C then [CHR 0x5C, CHR 0x5C]
     else if r = 0x0A then [CHR 0x5C, CHR ''n'']
     else if r = 0x0D then [CHR 0x5C, CHR ''r'']
     else if r = 0x09 then [CHR 0x5C, CHR ''t'']
     else if r = 0x08 then [CHR 0x5C, CHR ''b'']
     else if r = 0x0C then [CHR 0x5C, CHR ''f'']
     else if r < 0x20 then [CHR 0x5C, CHR ''u''] @ formatHex r
     else EncodeRune r)"

function encodeJSONRunes :: "string \<Rightarrow> string" where
  "encodeJSONRunes s =
    (if s = [] then []
     else (case DecodeRune s of (r, n) \<Rightarrow> encodeJSONRune r @ encodeJSONRunes (drop n s)))"
  by pat_completeness auto
termination
  by (relation "measure length") (auto simp: prod_eq_iff DecodeRune_size_pos)

declare encodeJSONRunes.simps [simp del]

definition ahdJSONEncodeString :: "string \<Rightarrow> string" where
  "ahdJSONEncodeString value = [CHR 0x22] @ encodeJSONRunes value @ [CHR 0x22]"

definition jsonIndent :: "bool \<Rightarrow> nat \<Rightarrow> string" where
  "jsonIndent pretty level = (if \<not> pretty then [] else CHR 0x0A # concat (replicate level ''  ''))"

definition encodedInt :: "int64 \<Rightarrow> string" where
  "encodedInt number = FormatInt (sint number)"

fun ahdJSONStringifyNode :: "'r floats \<Rightarrow> 'r ahdJSONNode \<Rightarrow> bool \<Rightarrow> nat \<Rightarrow> string" where
  "ahdJSONStringifyNode fl JNull pretty depth = ''null''"
| "ahdJSONStringifyNode fl (JBool flag) pretty depth = (if flag then ''true'' else ''false'')"
| "ahdJSONStringifyNode fl (JInt number) pretty depth = encodedInt number"
| "ahdJSONStringifyNode fl (JReal real) pretty depth = ahdJSONFormatReal fl real"
| "ahdJSONStringifyNode fl (JString content) pretty depth = ahdJSONEncodeString content"
| "ahdJSONStringifyNode fl (JArray items) pretty depth =
    (if items = [] then ''[]''
     else ''['' @ joinStrings '','' (map (\<lambda>item. jsonIndent pretty (depth + 1)
         @ ahdJSONStringifyNode fl item pretty (depth + 1)) items)
       @ jsonIndent pretty depth @ '']'')"
| "ahdJSONStringifyNode fl (JObject members) pretty depth =
    (if members = [] then ''{}''
     else ''{'' @ joinStrings '','' (map (\<lambda>(key, item). jsonIndent pretty (depth + 1)
         @ ahdJSONEncodeString key @ '':'' @ (if pretty then '' '' else '''')
         @ ahdJSONStringifyNode fl item pretty (depth + 1)) members)
       @ jsonIndent pretty depth @ ''}'')"

definition ahdJSONCanonicalText :: "'r floats \<Rightarrow> 'r ahdJSONNode \<Rightarrow> string" where
  "ahdJSONCanonicalText fl node = ahdJSONStringifyNode fl node False 0"

subsection \<open>The functions of the module\<close>

definition AhdJSONParse :: "'r floats \<Rightarrow> string \<Rightarrow> string \<Rightarrow> (raised + string) option" where
  "AhdJSONParse fl class source =
    map_option (map_sum id (ahdJSONCanonicalText fl)) (ahdJSONParseDocument fl class source)"

definition AhdJSONFromReal :: "'r floats \<Rightarrow> string \<Rightarrow> 'r \<Rightarrow> raised + string" where
  "AhdJSONFromReal fl class value =
    (if \<not> isFinite fl value then Inl (class, ''JSON Real value must be finite'')
     else Inr (ahdJSONFormatReal fl value))"

definition AhdJSONArray :: "string list \<Rightarrow> string" where
  "AhdJSONArray texts = ''['' @ joinStrings '','' texts @ '']''"

definition AhdJSONObject :: "(string \<times> string) list \<Rightarrow> string" where
  "AhdJSONObject members =
    ''{'' @ joinStrings '','' (map (\<lambda>(key, item). ahdJSONEncodeString key @ '':'' @ item) members) @ ''}''"

definition AhdJSONStringify :: "'r floats \<Rightarrow> string \<Rightarrow> bool \<Rightarrow> (raised + string) option" where
  "AhdJSONStringify fl source pretty =
    (if \<not> pretty then Some (Inr source)
     else map_option (map_sum id (\<lambda>node. ahdJSONStringifyNode fl node True 0))
       (ahdJSONParseDocument fl ''JSONError'' source))"

text \<open>The accessors parse the text of the value and raise if it has another kind.\<close>

definition wrongKind :: "string \<Rightarrow> string \<Rightarrow> 'r ahdJSONNode \<Rightarrow> raised" where
  "wrongKind class operation node = (class, operation @ '' cannot be called on a '' @ nodeKind node @ '' JSONValue'')"

definition jsonAccess ::
  "'r floats \<Rightarrow> string \<Rightarrow> string \<Rightarrow> ('r ahdJSONNode \<Rightarrow> raised + 'a) \<Rightarrow> (raised + 'a) option" where
  "jsonAccess fl class source select =
    map_option (\<lambda>r. case r of Inl e \<Rightarrow> Inl e | Inr node \<Rightarrow> select node) (ahdJSONParseDocument fl class source)"

definition AhdJSONKind :: "'r floats \<Rightarrow> string \<Rightarrow> string \<Rightarrow> (raised + string) option" where
  "AhdJSONKind fl class source = jsonAccess fl class source (\<lambda>node. Inr (nodeKind node))"

definition AhdJSONIsNull :: "'r floats \<Rightarrow> string \<Rightarrow> string \<Rightarrow> (raised + bool) option" where
  "AhdJSONIsNull fl class source = jsonAccess fl class source (\<lambda>node. Inr (nodeKind node = ''Null''))"

definition AhdJSONBool :: "'r floats \<Rightarrow> string \<Rightarrow> string \<Rightarrow> (raised + bool) option" where
  "AhdJSONBool fl class source = jsonAccess fl class source
    (\<lambda>node. case node of JBool flag \<Rightarrow> Inr flag | _ \<Rightarrow> Inl (wrongKind class ''bool()'' node))"

definition AhdJSONInt :: "'r floats \<Rightarrow> string \<Rightarrow> string \<Rightarrow> (raised + int64) option" where
  "AhdJSONInt fl class source = jsonAccess fl class source
    (\<lambda>node. case node of JInt number \<Rightarrow> Inr number | _ \<Rightarrow> Inl (wrongKind class ''int()'' node))"

definition AhdJSONReal :: "'r floats \<Rightarrow> string \<Rightarrow> string \<Rightarrow> (raised + 'r) option" where
  "AhdJSONReal fl class source = jsonAccess fl class source
    (\<lambda>node. case node of JReal real \<Rightarrow> Inr real | JInt number \<Rightarrow> Inr (floatOfInt fl number)
       | _ \<Rightarrow> Inl (wrongKind class ''real()'' node))"

definition AhdJSONString :: "'r floats \<Rightarrow> string \<Rightarrow> string \<Rightarrow> (raised + string) option" where
  "AhdJSONString fl class source = jsonAccess fl class source
    (\<lambda>node. case node of JString content \<Rightarrow> Inr content | _ \<Rightarrow> Inl (wrongKind class ''string()'' node))"

definition AhdJSONArrayElements :: "'r floats \<Rightarrow> string \<Rightarrow> string \<Rightarrow> (raised + string list) option" where
  "AhdJSONArrayElements fl class source = jsonAccess fl class source
    (\<lambda>node. case node of JArray items \<Rightarrow> Inr (map (ahdJSONCanonicalText fl) items)
       | _ \<Rightarrow> Inl (wrongKind class ''array()'' node))"

definition AhdJSONObjectKeys :: "'r floats \<Rightarrow> string \<Rightarrow> string \<Rightarrow> (raised + string list) option" where
  "AhdJSONObjectKeys fl class source = jsonAccess fl class source
    (\<lambda>node. case node of JObject members \<Rightarrow> Inr (map fst members)
       | _ \<Rightarrow> Inl (wrongKind class ''object()'' node))"

definition AhdJSONObjectValueTexts :: "'r floats \<Rightarrow> string \<Rightarrow> string \<Rightarrow> (raised + string list) option" where
  "AhdJSONObjectValueTexts fl class source = jsonAccess fl class source
    (\<lambda>node. case node of JObject members \<Rightarrow> Inr (map (ahdJSONCanonicalText fl \<circ> snd) members)
       | _ \<Rightarrow> Inl (wrongKind class ''object()'' node))"

definition AhdJSONGet :: "'r floats \<Rightarrow> string \<Rightarrow> string \<Rightarrow> string \<Rightarrow> (raised + string option) option" where
  "AhdJSONGet fl class source key = jsonAccess fl class source
    (\<lambda>node. case node of JObject members \<Rightarrow> Inr (map_option (ahdJSONCanonicalText fl) (map_of members key))
       | _ \<Rightarrow> Inl (wrongKind class ''get()'' node))"

definition AhdJSONAt :: "'r floats \<Rightarrow> string \<Rightarrow> string \<Rightarrow> int64 \<Rightarrow> (raised + string) option" where
  "AhdJSONAt fl class source index = jsonAccess fl class source
    (\<lambda>node. case node of
       JArray items \<Rightarrow>
         (let len = word_of_nat (length items);
              resolved = (if sint index < 0 then index + len else index)
          in if sint resolved < 0 \<or> sint resolved \<ge> sint len
             then Inl (class, ''JSONValue array index is out of range'')
             else Inr (ahdJSONCanonicalText fl (items ! unat resolved)))
     | _ \<Rightarrow> Inl (wrongKind class ''at()'' node))"

end
