(* ===== verification/JsonProofs.thy ===== *)
theory JsonProofs
  imports Json
begin

text \<open>
  The JSON parser returns on every input: each recursive call of the parser has less text before it, so
  the fuel of \<open>ahdJSONParseDocument\<close> is never used up.
\<close>

subsection \<open>The parser returns\<close>

text \<open>\<open>shorter rest r\<close>: a result that is not an error leaves less text than \<open>rest\<close>.\<close>

definition shorter :: "string \<Rightarrow> 'a parsed \<Rightarrow> bool" where
  "shorter rest r = (case r of Inl _ \<Rightarrow> True | Inr (_, rest') \<Rightarrow> length rest' < length rest)"

lemma shorter_simps [simp]:
  "shorter rest (Inl r)" "shorter rest (Inr (x, rest')) \<longleftrightarrow> length rest' < length rest"
  by (simp_all add: shorter_def)

lemma shorter_le: "shorter rest' r \<Longrightarrow> length rest' \<le> length rest \<Longrightarrow> shorter rest r"
  by (auto simp: shorter_def split: sum.splits)

lemma shorter_returns:
  "returns (shorter rest') r \<Longrightarrow> length rest' \<le> length rest \<Longrightarrow> returns (shorter rest) r"
  by (auto elim!: returns_mono intro: shorter_le)

lemma returns_ifI:
  "(b \<Longrightarrow> returns Q r) \<Longrightarrow> (\<not> b \<Longrightarrow> returns Q s) \<Longrightarrow> returns Q (if b then r else s)"
  by simp

lemma parseStringLoop_shorter: "shorter rest (parseStringLoop cls builder rest)"
proof (induction cls builder rest rule: parseStringLoop.induct)
  case (1 cls builder rest)
  show ?case
  proof (cases rest)
    case Nil
    then show ?thesis by (subst parseStringLoop.simps) simp
  next
    case rest: (Cons c cs)
    have width: "0 < snd (DecodeRune rest)" using rest DecodeRune_size_pos by blast
    show ?thesis
    proof (cases "c = CHR 0x22")
      case quote: False
      show ?thesis
      proof (cases "c = CHR 0x5C")
        case escape: True
        show ?thesis
        proof (cases cs)
          case Nil
          then show ?thesis using rest escape by (subst parseStringLoop.simps) simp
        next
          case cs: (Cons e es)
          show ?thesis
          proof (cases "shortEscape e")
            case (Some d)
            have "shorter rest (parseStringLoop cls (builder @ [d]) es)"
              by (rule shorter_le [OF "1.IH"(2) [OF rest quote escape cs Some]]) (simp add: rest cs)
            then show ?thesis using rest escape cs Some by (subst parseStringLoop.simps) simp
          next
            case None
            have "shorter rest (parseStringLoop cls (builder @ EncodeRune rune) behind)"
              if "e = CHR ''u''" "parseUnicodeEscape cls cs = Inr (rune, behind)" for rune behind
              by (rule shorter_le [OF "1.IH"(1) [OF rest quote escape cs None that refl]])
                (use parseUnicodeEscape_rest [OF that(2)] rest in simp)
            then show ?thesis
              using rest escape cs None
              by (subst parseStringLoop.simps) (auto split: sum.split prod.split)
          qed
        qed
      next
        case False
        show ?thesis
        proof (cases "byteOf c < 32")
          case True
          then show ?thesis using rest quote False by (subst parseStringLoop.simps) simp
        next
          case plain: False
          have "shorter rest (parseStringLoop cls (builder @ take (snd (DecodeRune rest)) rest)
              (drop (snd (DecodeRune rest)) rest))"
            by (rule shorter_le [OF "1.IH"(3) [OF rest quote False plain refl]]) simp
          then show ?thesis
            using rest quote False plain by (subst parseStringLoop.simps) (simp add: Let_def)
        qed
      qed
    qed (subst parseStringLoop.simps, simp add: rest)
  qed
qed

lemma parseString_shorter: "rest \<noteq> [] \<Longrightarrow> shorter rest (parseString_json cls rest)"
proof -
  assume "rest \<noteq> []"
  have "shorter (drop 1 rest) (parseString_json cls rest)"
    by (simp add: parseString_json_def parseStringLoop_shorter)
  then show ?thesis by (auto simp: shorter_def split: sum.splits)
qed

lemma dropDigits_le: "length (dropDigits rest) \<le> length rest"
  by (simp add: dropDigits_def length_dropWhile_le)

lemma dropDigits_digit: "isDecimal c \<Longrightarrow> length (dropDigits (c # cs)) \<le> length cs"
  using dropDigits_le [of cs] by (simp add: dropDigits_def)

lemma integerPart_shorter: "integerPart cls rest = Inr rest' \<Longrightarrow> length rest' < length rest"
proof -
  assume part: "integerPart cls rest = Inr rest'"
  define r where "r = (if rest \<noteq> [] \<and> hd rest = CHR ''-'' then tl rest else rest)"
  have r: "length r \<le> length rest" by (simp add: r_def)
  have "r \<noteq> []" "isDecimal (hd r)" "rest' = (if hd r = CHR ''0'' then tl r else dropDigits r)"
    using part by (auto simp: integerPart_def r_def [symmetric] Let_def split: if_splits)
  then have "length rest' < length r"
    using dropDigits_digit [of "hd r" "tl r"] by (cases r) auto
  with r show ?thesis by simp
qed

lemma fractionPart_le: "fractionPart cls rest = Inr (b, rest') \<Longrightarrow> length rest' \<le> length rest"
  using dropDigits_le [of "tl rest"] by (auto simp: fractionPart_def Let_def split: if_splits)

lemma exponentPart_le: "exponentPart cls rest = Inr (b, rest') \<Longrightarrow> length rest' \<le> length rest"
  using dropDigits_le [of "tl rest"] dropDigits_le [of "tl (tl rest)"]
  by (auto simp: exponentPart_def Let_def split: if_splits)

lemma parseNumber_shorter: "shorter rest (parseNumber fl cls rest)"
  by (fastforce simp: parseNumber_def split: sum.split prod.split
      dest: integerPart_shorter fractionPart_le exponentPart_le)

lemma skipWhitespace_le: "length (skipWhitespace rest) \<le> length rest"
  by (simp add: skipWhitespace_def length_dropWhile_le)

lemma valueBody_returns:
  assumes "\<And>rest'. length rest' < length rest \<Longrightarrow> returns (shorter rest') (arrayLoop rest')"
    and "\<And>rest'. length rest' < length rest \<Longrightarrow> returns (shorter rest') (objectLoop rest')"
  shows "returns (shorter rest) (valueBody fl cls arrayLoop objectLoop depth rest)"
proof (cases "skipWhitespace rest")
  case Nil
  then show ?thesis by (simp add: valueBody_def)
next
  case (Cons c cs)
  have len: "Suc (length cs) \<le> length rest" using skipWhitespace_le [of rest] Cons by simp
  have skip: "length (skipWhitespace cs) \<le> length cs" by (rule skipWhitespace_le)
  have inner: "length (skipWhitespace cs) < length rest" using len skip by simp
  have tl: "length (tl (skipWhitespace cs)) < length rest" using inner by simp
  have loops: "returns (shorter rest) (arrayLoop (skipWhitespace cs))" "returns (shorter rest) (objectLoop (skipWhitespace cs))"
    using shorter_returns [OF assms(1) [OF inner]] shorter_returns [OF assms(2) [OF inner]] inner by simp_all
  have string: "shorter rest (map_sum id (map_prod JString id) (parseString_json cls (c # cs)))" for c
    using parseString_shorter [of "c # cs" cls] len by (auto simp: shorter_def split: sum.splits)
  have literal: "shorter rest (expectLiteral cls literal node (c # cs))" if "literal \<noteq> []" for c literal node
    using that len by (cases literal) (auto simp: expectLiteral_def)
  have number: "shorter rest (parseNumber fl cls (c # cs))" for c
    by (rule shorter_le [OF parseNumber_shorter]) (use len in simp)
  show ?thesis
    unfolding valueBody_def Cons Let_def list.case
    by (intro returns_ifI) (use tl in \<open>simp_all add: loops string literal number\<close>)
qed

lemma arrayBody_returns:
  assumes "returns (shorter rest) value"
    and "\<And>items rest'. length rest' < length rest \<Longrightarrow> returns (shorter rest') (loop items rest')"
  shows "returns (shorter rest) (arrayBody cls loop items value)"
proof (cases "value")
  case (Some r)
  show ?thesis
  proof (cases r)
    case (Inr nr)
    obtain node rest1 where nr: "nr = (node, rest1)" by fastforce
    then have rest1: "length rest1 < length rest" using assms(1) Some Inr by simp
    show ?thesis
    proof (cases "skipWhitespace rest1")
      case (Cons c cs)
      then have cs: "length cs < length rest" using rest1 skipWhitespace_le [of rest1] by simp
      have "returns (shorter rest) (loop items' cs)" for items'
        by (rule shorter_returns [OF assms(2) [OF cs]]) (use cs in simp)
      then show ?thesis using Some Inr nr Cons cs by (simp add: arrayBody_def)
    qed (simp add: Some Inr nr arrayBody_def)
  qed (simp add: Some arrayBody_def)
qed (use assms(1) in simp)

lemma objectBody_returns:
  assumes "\<And>rest'. length rest' < length rest \<Longrightarrow> returns (shorter rest') (parse rest')"
    and "\<And>members rest'. length rest' < length rest \<Longrightarrow> returns (shorter rest') (loop members rest')"
  shows "returns (shorter rest) (objectBody cls parse loop members rest)"
proof (cases "skipWhitespace rest = [] \<or> hd (skipWhitespace rest) \<noteq> CHR 0x22")
  case True
  then show ?thesis by (simp add: objectBody_def Let_def)
next
  case False
  show ?thesis
  proof (cases "parseString_json cls (skipWhitespace rest)")
    case (Inl r)
    then show ?thesis using False by (simp add: objectBody_def Let_def)
  next
    case (Inr kr)
    obtain key rest1 where kr: "kr = (key, rest1)" by fastforce
    have rest1: "length rest1 < length rest"
      using parseString_shorter [of "skipWhitespace rest" cls] False Inr kr skipWhitespace_le [of rest] by simp
    define rest2 where "rest2 = skipWhitespace rest1"
    have rest2: "length rest2 < length rest" using rest1 skipWhitespace_le [of rest1] by (simp add: rest2_def)
    show ?thesis
    proof (cases "rest2 = [] \<or> hd rest2 \<noteq> CHR '':''")
      case True
      then show ?thesis using False Inr kr by (simp add: objectBody_def Let_def rest2_def)
    next
      case colon: False
      have tl: "length (tl rest2) < length rest" using rest2 by simp
      obtain r where r: "parse (tl rest2) = Some r" "shorter (tl rest2) r"
        using assms(1) [OF tl] by (rule returnsE)
      have body: "objectBody cls parse loop members rest =
        (case r of Inl r \<Rightarrow> Some (Inl r)
         | Inr (node, rest) \<Rightarrow>
             if key \<in> fst ` set members then Some (Inl (cls, ''JSON object has a duplicate key''))
             else (case skipWhitespace rest of
                     [] \<Rightarrow> Some (Inl (cls, ''JSON object is not closed''))
                   | c # cs \<Rightarrow>
                       if c = CHR '','' then loop (members @ [(key, node)]) cs
                       else if c = CHR ''}'' then Some (Inr (JObject (members @ [(key, node)]), cs))
                       else Some (Inl (cls, ''JSON object is missing ',' or '}'' @ [CHR 0x27]))))"
        using False Inr kr colon r(1) by (simp add: objectBody_def Let_def rest2_def [symmetric])
      show ?thesis
      proof (cases r)
        case (Inr nr)
        obtain node rest3 where nr: "nr = (node, rest3)" by fastforce
        then have rest3: "length rest3 < length rest" using r(2) Inr tl by simp
        show ?thesis
        proof (cases "skipWhitespace rest3")
          case (Cons c cs)
          then have cs: "length cs < length rest" using rest3 skipWhitespace_le [of rest3] by simp
          have "returns (shorter rest) (loop members' cs)" for members'
            by (rule shorter_returns [OF assms(2) [OF cs]]) (use cs in simp)
          then show ?thesis using Inr nr Cons cs by (simp add: body)
        qed (simp add: body Inr nr)
      qed (simp add: body)
    qed
  qed
qed

lemma parser_returns:
  "(2 * length rest + 2 \<le> fuel \<longrightarrow> returns (shorter rest) (parseValue fl cls fuel depth rest)) \<and>
   (2 * length rest + 3 \<le> fuel \<longrightarrow> returns (shorter rest) (parseArrayLoop fl cls fuel depth items rest)) \<and>
   (2 * length rest + 3 \<le> fuel \<longrightarrow> returns (shorter rest) (parseObjectLoop fl cls fuel depth members rest))"
proof (induction fuel arbitrary: depth rest items members)
  case (Suc fuel)
  have "returns (shorter rest) (parseValue fl cls (Suc fuel) depth rest)" if "2 * length rest + 2 \<le> Suc fuel"
    using that Suc.IH by (simp, intro valueBody_returns) simp_all
  moreover have "returns (shorter rest) (parseArrayLoop fl cls (Suc fuel) depth items rest)"
    if "2 * length rest + 3 \<le> Suc fuel"
    using that Suc.IH by (simp, intro arrayBody_returns) simp_all
  moreover have "returns (shorter rest) (parseObjectLoop fl cls (Suc fuel) depth members rest)"
    if "2 * length rest + 3 \<le> Suc fuel"
    using that Suc.IH by (simp, intro objectBody_returns) simp_all
  ultimately show ?case by blast
qed simp

text \<open>
  The JSON parser is total. On every text it returns either a value or an error of the class it was given,
  and the accessors, which parse the text they hold, return as well.
\<close>

theorem json_parser_returns:
  "(\<exists>r. ahdJSONParseDocument fl cls source = Some r) \<and>
   (\<exists>r. AhdJSONParse fl cls source = Some r) \<and> (\<exists>r. AhdJSONKind fl cls source = Some r) \<and>
   (\<exists>r. AhdJSONGet fl cls source key = Some r) \<and> (\<exists>r. AhdJSONAt fl cls source index = Some r) \<and>
   (\<exists>r. AhdJSONStringify fl source pretty = Some r)"
proof -
  have doc: "\<exists>r. ahdJSONParseDocument fl cls source = Some r" for cls
  proof -
    have "length (skipWhitespace source) \<le> length source" by (rule skipWhitespace_le)
    then have "returns (shorter (skipWhitespace source)) (parseValue fl cls (2 * length source + 2) 0 (skipWhitespace source))"
      using parser_returns [of "skipWhitespace source" "2 * length source + 2" fl cls 0] by simp
    then obtain r where "parseValue fl cls (2 * length source + 2) 0 (skipWhitespace source) = Some r"
      by (rule returnsE) blast
    then show ?thesis by (simp add: ahdJSONParseDocument_def Let_def split: sum.split prod.split)
  qed
  then show ?thesis
    using doc [of cls] doc [of "''JSONError''"]
    by (auto simp: AhdJSONParse_def AhdJSONKind_def AhdJSONGet_def AhdJSONAt_def AhdJSONStringify_def jsonAccess_def)
qed

end
