(* ===== verification/JsonRoundTrip.thy ===== *)
theory JsonRoundTrip
  imports JsonProofs
begin

text \<open>
  The text written for a JSON value is read back as the same value, by the parts of the text: strings and
  their escapes, numbers, arrays, objects, documents. The writer has no correct text for a control
  character without a short escape, and the reader refuses surrogate pairs; the last lemmas show both.
\<close>


subsection \<open>Well-formed text\<close>

lemma RuneError_ge: "128 \<le> RuneError"
  by (simp add: RuneError_def)

lemma decode2_extends: "decode2 b0 cs = (r, n) \<Longrightarrow> n \<noteq> 1 \<Longrightarrow> n = 2 \<and> decode2 b0 (take 1 cs @ t) = (r, 2)"
  by (auto simp: decode2_def split: list.splits if_splits)

lemma decode3_extends: "decode3 b0 cs = (r, n) \<Longrightarrow> n \<noteq> 1 \<Longrightarrow> n = 3 \<and> decode3 b0 (take 2 cs @ t) = (r, 3)"
  by (cases cs; cases "tl cs") (auto simp: decode3_def split: if_splits)

lemma decode4_extends: "decode4 b0 cs = (r, n) \<Longrightarrow> n \<noteq> 1 \<Longrightarrow> n = 4 \<and> decode4 b0 (take 3 cs @ t) = (r, 4)"
  by (cases cs; cases "tl cs"; cases "tl (tl cs)") (auto simp: decode4_def split: if_splits)

lemma DecodeRune_prefix:
  assumes "DecodeRune s = (r, n)" "\<not> (r = RuneError \<and> n \<le> 1)"
  shows "DecodeRune (take n s @ t) = (r, n)"
proof (cases s)
  case (Cons c cs)
  consider "byteOf c < 0x80" "n = 1" "r = byteOf c"
    | "0xC2 \<le> byteOf c" "byteOf c \<le> 0xDF" "decode2 (byteOf c) cs = (r, n)" "n \<noteq> 1"
    | "0xE0 \<le> byteOf c" "byteOf c \<le> 0xEF" "decode3 (byteOf c) cs = (r, n)" "n \<noteq> 1"
    | "0xF0 \<le> byteOf c" "byteOf c \<le> 0xF4" "decode4 (byteOf c) cs = (r, n)" "n \<noteq> 1"
    using assms Cons
    by (auto simp: DecodeRune_def decode2_def decode3_def decode4_def Let_def split: if_splits list.splits)
  then show ?thesis
    by cases (use decode2_extends [of "byteOf c" cs r n t] decode3_extends [of "byteOf c" cs r n t]
        decode4_extends [of "byteOf c" cs r n t] Cons in \<open>simp_all add: DecodeRune_def\<close>)
qed (use assms in simp)

lemma DecodeRune_high:
  assumes "DecodeRune (c # cs) = (r, n)" "128 \<le> byteOf c"
  shows "128 \<le> r"
proof -
  have "128 \<le> fst (decode2 (byteOf c) cs)" if "0xC2 \<le> byteOf c"
    using that RuneError_ge by (auto simp: decode2_def split: list.splits)
  moreover have "128 \<le> fst (decode3 (byteOf c) cs)" if "0xE0 \<le> byteOf c"
    using that RuneError_ge by (cases "byteOf c = 0xE0") (auto simp: decode3_def inRange_def split: list.splits)
  moreover have "128 \<le> fst (decode4 (byteOf c) cs)" if "0xF0 \<le> byteOf c"
    using that RuneError_ge by (cases "byteOf c = 0xF0") (auto simp: decode4_def inRange_def split: list.splits)
  ultimately show ?thesis
    using assms RuneError_ge by (auto simp: DecodeRune_def Let_def prod_eq_iff split: if_splits)
qed

lemma ValidString_step:
  "s \<noteq> [] \<Longrightarrow> DecodeRune s = (r, n) \<Longrightarrow>
   ValidString s \<longleftrightarrow> \<not> (r = RuneError \<and> n \<le> 1) \<and> ValidString (drop n s)"
  using DecodeRune_size_pos [of s]
  by (subst ValidString.simps) (auto simp: le_Suc_eq)

lemma ValidString_Nil [simp]: "ValidString []"
  by (subst ValidString.simps) simp

lemma ValidString_append: "ValidString s \<Longrightarrow> ValidString (s @ t) = ValidString t"
proof (induction s rule: ValidString.induct)
  case (1 s)
  show ?case
  proof (cases "s = []")
    case False
    obtain r n where d: "DecodeRune s = (r, n)" by fastforce
    then have ok: "\<not> (r = RuneError \<and> n \<le> 1)" and valid: "ValidString (drop n s)"
      using 1(2) False by (simp_all add: ValidString_step)
    have le: "n \<le> length s" using DecodeRune_size_le [of s] d by simp
    have "DecodeRune (s @ t) = (r, n)"
      using DecodeRune_prefix [OF d ok, of "drop n s @ t"] by (simp flip: append_assoc)
    then have "ValidString (s @ t) = ValidString (drop n (s @ t))"
      using ok False by (simp add: ValidString_step)
    also have "\<dots> = ValidString (drop n s @ t)" using le by simp
    also have "\<dots> = ValidString t"
      using 1(1) [OF False d [symmetric]] ok valid by auto
    finally show ?thesis .
  qed simp
qed

lemma ValidString_ascii: "list_all (\<lambda>c. byteOf c < 128) s \<Longrightarrow> ValidString s"
proof (induction s)
  case (Cons c s)
  then show ?case
    by (subst ValidString_step [where r = "byteOf c" and n = 1]) (auto simp: DecodeRune_ascii RuneError_def)
qed simp

lemma ValidString_ascii_Cons: "byteOf c < 128 \<Longrightarrow> ValidString (c # s) = ValidString s"
  using ValidString_append [of "[c]" s] ValidString_ascii [of "[c]"] by simp

subsection \<open>Strings\<close>

text \<open>A string the writer has an escape for: well-formed, and of the control bytes only the five short ones.\<close>

definition plainByte :: "char \<Rightarrow> bool" where
  "plainByte c = (32 \<le> byteOf c \<or> byteOf c \<in> {8, 9, 10, 12, 13})"

definition stringOk :: "string \<Rightarrow> bool" where
  "stringOk s = (ValidString s \<and> list_all plainByte s)"

lemma escape_reads:
  "shortEscape e = Some d \<Longrightarrow>
   parseStringLoop cls b ([CHR 0x5C, e] @ rest) = parseStringLoop cls (b @ [d]) rest"
  by (subst parseStringLoop.simps) simp

lemma encodeJSONRune_escape:
  assumes "r \<in> {8, 9, 10, 12, 13, 34, 92}"
  shows "\<exists>e d. encodeJSONRune r = [CHR 0x5C, e] \<and> shortEscape e = Some d \<and> byteOf d = r"
  using assms by (elim insertE emptyE; simp add: encodeJSONRune_def shortEscape_def byteOf_def)

lemma encodeJSONRune_ascii:
  assumes "byteOf c < 128" "plainByte c"
  shows "parseStringLoop cls b (encodeJSONRune (byteOf c) @ rest) = parseStringLoop cls (b @ [c]) rest"
proof (cases "byteOf c \<in> {8, 9, 10, 12, 13, 34, 92}")
  case True
  then obtain e where "encodeJSONRune (byteOf c) = [CHR 0x5C, e]" "shortEscape e = Some c"
    using encodeJSONRune_escape [OF True] by auto
  then show ?thesis using escape_reads by simp
next
  case False
  then have c: "32 \<le> byteOf c" "byteOf c \<noteq> 34" "byteOf c \<noteq> 92"
    using assms(2) by (auto simp: plainByte_def)
  have "encodeJSONRune (byteOf c) = [c]"
    using c assms(1) by (simp add: encodeJSONRune_def EncodeRune_def validRune_def)
  moreover have "c \<noteq> CHR 0x22" "c \<noteq> CHR 0x5C" using c by (auto simp: byteOf_def)
  ultimately show ?thesis
    using c assms(1) by (subst parseStringLoop.simps) (simp add: DecodeRune_ascii)
qed

lemma encodeJSONRune_high:
  assumes "DecodeRune (c # cs) = (r, n)" "\<not> (r = RuneError \<and> n \<le> 1)" "128 \<le> byteOf c"
  shows "encodeJSONRune r = take n (c # cs)"
    and "parseStringLoop cls b (take n (c # cs) @ rest) = parseStringLoop cls (b @ take n (c # cs)) rest"
proof -
  show "encodeJSONRune r = take n (c # cs)"
    using DecodeRune_high [OF assms(1,3)] DecodeRune_encode [OF assms(1,2)] by (simp add: encodeJSONRune_def)
  have n: "0 < n" "n \<le> length (c # cs)"
    using DecodeRune_size_pos [of "c # cs"] DecodeRune_size_le [of "c # cs"] assms(1) by simp_all
  then obtain ds where ds: "take n (c # cs) = c # ds" "length (c # ds) = n"
    by (cases n) auto
  have "c \<noteq> CHR 0x22" "c \<noteq> CHR 0x5C" using assms(3) by (auto simp: byteOf_def)
  moreover have "DecodeRune (c # ds @ rest) = (r, n)"
    using DecodeRune_prefix [OF assms(1,2), of rest] ds by simp
  ultimately show "parseStringLoop cls b (take n (c # cs) @ rest) = parseStringLoop cls (b @ take n (c # cs)) rest"
    unfolding ds(1) using assms(3) ds(2) by (subst parseStringLoop.simps) (auto simp: Let_def)
qed

lemma string_loop_reads:
  assumes "stringOk s"
  shows "parseStringLoop cls b (encodeJSONRunes s @ CHR 0x22 # rest) = Inr (b @ s, rest)"
  using assms
proof (induction s arbitrary: b rule: encodeJSONRunes.induct)
  case (1 s)
  show ?case
  proof (cases s)
    case Nil
    then show ?thesis by (simp add: encodeJSONRunes.simps) (subst parseStringLoop.simps, simp)
  next
    case (Cons c cs)
    obtain r n where d: "DecodeRune s = (r, n)" by fastforce
    then have ok: "\<not> (r = RuneError \<and> n \<le> 1)" and valid: "ValidString (drop n s)"
      using 1(2) Cons by (auto simp: ValidString_step stringOk_def)
    have "list_all plainByte (drop n s)" using 1(2) by (auto simp: stringOk_def list_all_iff dest: in_set_dropD)
    then have IH: "parseStringLoop cls b' (encodeJSONRunes (drop n s) @ CHR 0x22 # rest) = Inr (b' @ drop n s, rest)" for b'
      using 1(1) [OF _ d [symmetric]] Cons valid by (simp add: stringOk_def)
    have runes: "encodeJSONRunes s = encodeJSONRune r @ encodeJSONRunes (drop n s)"
      using Cons d by (subst encodeJSONRunes.simps) simp
    show ?thesis
    proof (cases "byteOf c < 128")
      case True
      then have "(r, n) = (byteOf c, 1)" using d Cons by (simp add: DecodeRune_ascii)
      moreover have "plainByte c" using 1(2) Cons by (simp add: stringOk_def)
      ultimately show ?thesis
        using IH [of "b @ [c]"] True Cons unfolding runes by (simp add: encodeJSONRune_ascii)
    next
      case False
      then have "encodeJSONRune r = take n s"
        "parseStringLoop cls b (take n s @ x) = parseStringLoop cls (b @ take n s) x" for x
        using encodeJSONRune_high [of c cs r n] d ok Cons by simp_all
      then show ?thesis using IH by (simp add: runes)
    qed
  qed
qed

lemma string_reads:
  "stringOk s \<Longrightarrow> parseString_json cls (ahdJSONEncodeString s @ rest) = Inr (s, rest)"
  by (simp add: parseString_json_def ahdJSONEncodeString_def string_loop_reads)

lemma ValidString_encoded: "ValidString s \<Longrightarrow> ValidString (encodeJSONRunes s)"
proof (induction s rule: encodeJSONRunes.induct)
  case (1 s)
  show ?case
  proof (cases s)
    case Nil
    then show ?thesis by (simp add: encodeJSONRunes.simps)
  next
    case (Cons c cs)
    obtain r n where d: "DecodeRune s = (r, n)" by fastforce
    then have ok: "\<not> (r = RuneError \<and> n \<le> 1)" and valid: "ValidString (drop n s)"
      using 1(2) Cons by (auto simp: ValidString_step)
    have runes: "encodeJSONRunes s = encodeJSONRune r @ encodeJSONRunes (drop n s)"
      using Cons d by (subst encodeJSONRunes.simps) simp
    have "ValidString (encodeJSONRune r)"
    proof (cases "byteOf c < 128")
      case True
      have "list_all (\<lambda>c. byteOf c < 128) (formatHex x)" if "x < 128" for x
        using that
      proof (induction x rule: formatHex.induct)
        case (1 x)
        then show ?case by (subst formatHex.simps) (auto simp: hexDigit_def byteOf_def)
      qed
      moreover have "r < 128" using True d Cons by (simp add: DecodeRune_ascii)
      ultimately have "list_all (\<lambda>c. byteOf c < 128) (encodeJSONRune r)"
        by (auto simp: encodeJSONRune_def EncodeRune_def validRune_def byteOf_def)
      then show ?thesis by (rule ValidString_ascii)
    next
      case False
      have "n \<le> length s" using DecodeRune_size_le [of s] d by simp
      moreover have "DecodeRune (take n s @ []) = (r, n)" by (rule DecodeRune_prefix [OF d ok])
      moreover have "take n s \<noteq> []" using DecodeRune_size_pos [of s] d Cons by simp
      moreover have "encodeJSONRune r = take n s" using encodeJSONRune_high [of c cs r n] False d ok Cons by simp
      ultimately show ?thesis using ok by (auto simp: ValidString_step)
    qed
    moreover have "ValidString (encodeJSONRunes (drop n s))" using 1(1) [OF _ d [symmetric]] Cons valid by blast
    ultimately show ?thesis unfolding runes by (simp add: ValidString_append)
  qed
qed

lemma ValidString_string: "stringOk s \<Longrightarrow> ValidString (ahdJSONEncodeString s)"
  by (simp add: ahdJSONEncodeString_def stringOk_def ValidString_ascii_Cons ValidString_append ValidString_encoded
      ValidString_ascii byteOf_def)

subsection \<open>Numbers\<close>

definition integerText :: "string \<Rightarrow> bool" where
  "integerText t = (t = ''0'' \<or> t \<noteq> [] \<and> hd t \<noteq> CHR ''0'' \<and> list_all isDecimal t)"

definition fractionText :: "string \<Rightarrow> bool" where
  "fractionText t = (t = [] \<or> hd t = CHR ''.'' \<and> tl t \<noteq> [] \<and> list_all isDecimal (tl t))"

definition exponentText :: "string \<Rightarrow> bool" where
  "exponentText t = (t = [] \<or> hd t = CHR ''e'' \<and> length t > 2 \<and> t ! 1 \<in> {CHR ''+'', CHR ''-''}
     \<and> list_all isDecimal (drop 2 t))"

text \<open>What may follow a number: no digit, no point and no exponent.\<close>

definition numberStop :: "string \<Rightarrow> bool" where
  "numberStop t = (t = [] \<or> \<not> isDecimal (hd t) \<and> hd t \<notin> {CHR ''.'', CHR ''e'', CHR ''E''})"

lemma isDecimal_facts [simp]:
  "\<not> isDecimal (CHR ''-'')" "\<not> isDecimal (CHR ''+'')" "\<not> isDecimal (CHR ''.'')" "\<not> isDecimal (CHR ''e'')" "\<not> isDecimal (CHR ''E'')"
  "isDecimal (CHR ''0'')"
  by (simp_all add: isDecimal_def byteOf_def)

lemma dropDigits_append:
  "list_all isDecimal ds \<Longrightarrow> t = [] \<or> \<not> isDecimal (hd t) \<Longrightarrow> dropDigits (ds @ t) = t"
  by (induction ds) (auto simp: dropDigits_def dropWhile_eq_self_iff)

lemma integerPart_reads:
  assumes "sign \<in> {[], ''-''}" "integerText t" "rest = [] \<or> \<not> isDecimal (hd rest)"
  shows "integerPart cls (sign @ t @ rest) = Inr rest"
proof -
  obtain c cs where t: "t = c # cs" using assms(2) by (cases t) (auto simp: integerText_def)
  then have c: "isDecimal c" "c \<noteq> CHR ''-''" using assms(2) by (auto simp: integerText_def)
  have "(if c = CHR ''0'' then cs @ rest else dropDigits (c # cs @ rest)) = rest"
    using assms(2,3) dropDigits_append [of t rest] by (auto simp: integerText_def t)
  then show ?thesis
    using assms(1) c by (auto simp: integerPart_def t Let_def)
qed

lemma fractionPart_reads:
  assumes "fractionText t" "rest = [] \<or> \<not> isDecimal (hd rest)" "rest = [] \<or> hd rest \<noteq> CHR ''.''"
  shows "fractionPart cls (t @ rest) = Inr (t \<noteq> [], rest)"
proof (cases t)
  case (Cons c cs)
  then have "c = CHR ''.''" "cs \<noteq> []" "dropDigits (cs @ rest) = rest"
    using assms(1,2) dropDigits_append [of cs rest] by (auto simp: fractionText_def)
  then show ?thesis using Cons by (simp add: fractionPart_def)
qed (use assms in \<open>auto simp: fractionPart_def\<close>)

lemma exponentPart_reads:
  assumes "exponentText t" "numberStop rest"
  shows "exponentPart cls (t @ rest) = Inr (t \<noteq> [], rest)"
proof (cases "t = []")
  case False
  then obtain s cs where t: "t = CHR ''e'' # s # cs" "cs \<noteq> []" "s \<in> {CHR ''+'', CHR ''-''}" "list_all isDecimal cs"
    using assms(1) by (cases t; cases "tl t") (auto simp: exponentText_def)
  have "dropDigits (cs @ rest) = rest" using assms(2) t(4) dropDigits_append [of cs rest] by (auto simp: numberStop_def)
  then show ?thesis using t by (auto simp: exponentPart_def)
qed (use assms in \<open>auto simp: exponentPart_def numberStop_def\<close>)

lemma number_reads:
  assumes "sign \<in> {[], ''-''}" "integerText t" "fractionText f" "exponentText e" "numberStop rest"
    "numberNode fl cls (f \<noteq> [] \<or> e \<noteq> []) (sign @ t @ f @ e) = Inr node"
  shows "parseNumber fl cls (sign @ t @ f @ e @ rest) = Inr (node, rest)"
proof -
  have er: "e @ rest = [] \<or> \<not> isDecimal (hd (e @ rest)) \<and> hd (e @ rest) \<noteq> CHR ''.''"
    using assms(4,5) by (cases e) (auto simp: exponentText_def numberStop_def)
  then have "f @ e @ rest = [] \<or> \<not> isDecimal (hd (f @ e @ rest))"
    using assms(3) by (cases f) (auto simp: fractionText_def)
  then have "integerPart cls (sign @ t @ f @ e @ rest) = Inr (f @ e @ rest)"
    by (rule integerPart_reads [OF assms(1,2)])
  moreover have "fractionPart cls (f @ e @ rest) = Inr (f \<noteq> [], e @ rest)"
    using er by (intro fractionPart_reads [OF assms(3)]) auto
  moreover have "exponentPart cls (e @ rest) = Inr (e \<noteq> [], rest)"
    by (rule exponentPart_reads [OF assms(4,5)])
  moreover have "take (length (sign @ t @ f @ e @ rest) - length rest) (sign @ t @ f @ e @ rest) = sign @ t @ f @ e"
    by simp
  ultimately show ?thesis using assms(6) by (simp add: parseNumber_def)
qed

lemma digitsOf_ne [simp]: "digitsOf n \<noteq> []"
  by (subst digitsOf.simps) simp

lemma digitsOf_leading: "0 < n \<Longrightarrow> hd (digitsOf n) \<noteq> CHR ''0''"
proof (induction n rule: digitsOf.induct)
  case (1 n)
  then show ?case
  proof (cases "n < 10")
    case True
    then have "byteOf (char_of (48 + n)) \<noteq> byteOf (CHR ''0'')" using 1(2) by (simp add: byteOf_digit) (simp add: byteOf_def)
    then show ?thesis using True by (subst digitsOf.simps) auto
  next
    case False
    then have "hd (digitsOf (n div 10)) \<noteq> CHR ''0''" using 1(1) by simp
    then show ?thesis using False by (subst digitsOf.simps) simp
  qed
qed

lemma char_of_zero_digit: "char_of (48::nat) = CHR ''0''"
proof -
  have "byteOf (char_of (48::nat)) = byteOf (CHR ''0'')" using byteOf_digit [of 0] by (simp add: byteOf_def)
  then show ?thesis by simp
qed

lemma integerText_digitsOf: "integerText (digitsOf n)"
proof (cases "n = 0")
  case True
  then show ?thesis by (subst digitsOf.simps) (simp add: integerText_def char_of_zero_digit)
next
  case False
  then show ?thesis using digitsOf_leading [of n] digitsOf_decimal by (simp add: integerText_def)
qed

lemma hd_digitsOf: "isDecimal (hd (digitsOf n))"
  using digitsOf_decimal [of n] by (cases "digitsOf n") (use digitsOf_ne [of n] in auto)

lemma parseInt_encoded: "parseInt (encodedInt v) = Some v"
proof -
  define sign where "sign = (if sint v < 0 then ''-'' else [])"
  define t where "t = digitsOf (nat \<bar>sint v\<bar>)"
  have split: "encodedInt v = sign @ t" by (simp add: encodedInt_def FormatInt_def sign_def t_def)
  have range: "- (2 ^ 63) \<le> sint v" "sint v < 2 ^ 63" using sint_range [of v] by simp_all
  have minus: "hd (digitsOf n) \<noteq> CHR ''-''" for n using hd_digitsOf [of n] by auto
  have "parseInt (sign @ t) = Some v"
  proof (cases "sint v < 0")
    case True
    then have "nat (- sint v) \<le> 2 ^ 63" using range by (simp add: nat_le_iff)
    then show ?thesis using True range by (simp add: parseInt_def sign_def t_def digitsValue_digitsOf Let_def)
  next
    case False
    then have "nat (sint v) < 2 ^ 63" using range by (simp add: nat_less_iff)
    then show ?thesis using False minus range by (simp add: parseInt_def sign_def t_def digitsValue_digitsOf Let_def)
  qed
  then show ?thesis by (simp add: split)
qed

lemma int_reads:
  assumes "numberStop rest"
  shows "parseNumber fl cls (encodedInt v @ rest) = Inr (JInt v, rest)"
proof -
  define sign where "sign = (if sint v < 0 then ''-'' else [])"
  define t where "t = digitsOf (nat \<bar>sint v\<bar>)"
  have split: "encodedInt v = sign @ t" by (simp add: encodedInt_def FormatInt_def sign_def t_def)
  have "parseInt (sign @ t) = Some v" using parseInt_encoded [of v] by (simp add: split)
  then have "numberNode fl cls ([] \<noteq> ([]::string) \<or> [] \<noteq> ([]::string)) (sign @ t @ [] @ []) = Inr (JInt v)" by (simp add: numberNode_def)
  then have "parseNumber fl cls (sign @ t @ [] @ [] @ rest) = Inr (JInt v, rest)"
    by (rule number_reads [rotated -1])
      (use assms in \<open>simp_all add: sign_def t_def integerText_digitsOf fractionText_def exponentText_def\<close>)
  then show ?thesis by (simp add: split)
qed

text \<open>
  What the round trip needs of \<open>strconv\<close>: the shortest text of a finite number has the shape of a JSON
  number, and reading it, or an integral text with \<open>.0\<close> behind it, gives the number.
\<close>

definition floatLaws :: "'r floats \<Rightarrow> bool" where
  "floatLaws fl = (\<forall>x. isFinite fl x \<longrightarrow>
     (\<exists>sign t f e. formatFloat fl x = sign @ t @ f @ e \<and> sign \<in> {[], ''-''} \<and> integerText t
        \<and> fractionText f \<and> exponentText e) \<and>
     parseFloat fl (formatFloat fl x) = Some x \<and>
     (list_all (\<lambda>c. isDecimal c \<or> c = CHR ''-'') (formatFloat fl x) \<longrightarrow>
        parseFloat fl (formatFloat fl x @ ''.0'') = Some x))"

lemma integerText_decimal: "integerText t \<Longrightarrow> list_all isDecimal t"
  by (auto simp: integerText_def)

lemma no_point:
  assumes "list_all isDecimal t"
  shows "\<not> list_ex (\<lambda>c. c \<in> set ''.eE'') t"
proof -
  have "c \<notin> set ''.eE''" if "isDecimal c" for c
    using that by (auto simp: isDecimal_def byteOf_def)
  then show ?thesis using assms by (auto simp: list_ex_iff list_all_iff)
qed

lemma real_shape:
  assumes "floatLaws fl" "isFinite fl x"
  shows "\<exists>sign t f e. ahdJSONFormatReal fl x = sign @ t @ f @ e \<and> sign \<in> {[], ''-''} \<and> integerText t
    \<and> fractionText f \<and> exponentText e \<and> (f \<noteq> [] \<or> e \<noteq> []) \<and> parseFloat fl (sign @ t @ f @ e) = Some x"
proof -
  obtain sign t f e where fmt: "formatFloat fl x = sign @ t @ f @ e" and sign: "sign \<in> {[], ''-''}"
    and t: "integerText t" and f: "fractionText f" and e: "exponentText e"
    using assms unfolding floatLaws_def by blast
  have laws: "parseFloat fl (sign @ t @ f @ e) = Some x"
    "list_all (\<lambda>c. isDecimal c \<or> c = CHR ''-'') (sign @ t @ f @ e) \<Longrightarrow> parseFloat fl ((sign @ t @ f @ e) @ ''.0'') = Some x"
    using assms unfolding floatLaws_def fmt [symmetric] by blast+
  show ?thesis
  proof (cases "f = [] \<and> e = []")
    case True
    have "\<not> list_ex (\<lambda>c. c \<in> set ''.eE'') (sign @ t)"
      using sign no_point [OF integerText_decimal [OF t]] by auto
    then have "ahdJSONFormatReal fl x = sign @ t @ ''.0'' @ []"
      using True by (simp add: ahdJSONFormatReal_def fmt)
    moreover have "list_all (\<lambda>c. isDecimal c \<or> c = CHR ''-'') (sign @ t @ f @ e)"
      using sign integerText_decimal [OF t] True by (auto simp: list_all_iff)
    ultimately show ?thesis
      using sign t e True laws(2)
      by (intro exI [of _ sign] exI [of _ t] exI [of _ "''.0''"] exI [of _ "[]"]) (simp add: fractionText_def)
  next
    case False
    then have "list_ex (\<lambda>c. c \<in> set ''.eE'') (sign @ t @ f @ e)"
      using f e by (cases f; cases e) (auto simp: fractionText_def exponentText_def)
    then have "ahdJSONFormatReal fl x = sign @ t @ f @ e" by (simp add: ahdJSONFormatReal_def fmt)
    then show ?thesis using sign t f e laws(1) False by blast
  qed
qed

lemma real_reads:
  assumes "floatLaws fl" "isFinite fl x" "numberStop rest"
  shows "parseNumber fl cls (ahdJSONFormatReal fl x @ rest) = Inr (JReal x, rest)"
proof -
  obtain sign t f e where s: "ahdJSONFormatReal fl x = sign @ t @ f @ e" "sign \<in> {[], ''-''}" "integerText t"
    "fractionText f" "exponentText e" "f \<noteq> [] \<or> e \<noteq> []" "parseFloat fl (sign @ t @ f @ e) = Some x"
    using real_shape [OF assms(1,2)] by blast
  have "parseNumber fl cls (sign @ t @ f @ e @ rest) = Inr (JReal x, rest)"
    by (rule number_reads [OF s(2-5) assms(3)]) (use s(6,7) in \<open>auto simp: numberNode_def\<close>)
  then show ?thesis by (simp add: s(1))
qed

subsection \<open>Values\<close>

text \<open>
  A value the writer can express at a nesting depth: finite reals, strings it has escapes for, distinct
  keys, and not deeper than the parser reads.
\<close>

fun nodeOk :: "'r floats \<Rightarrow> nat \<Rightarrow> 'r ahdJSONNode \<Rightarrow> bool" where
  "nodeOk fl depth (JReal x) = (depth \<le> ahdJSONMaxDepth \<and> isFinite fl x)"
| "nodeOk fl depth (JString s) = (depth \<le> ahdJSONMaxDepth \<and> stringOk s)"
| "nodeOk fl depth (JArray items) = (depth \<le> ahdJSONMaxDepth \<and> list_all (nodeOk fl (depth + 1)) items)"
| "nodeOk fl depth (JObject members) =
    (depth \<le> ahdJSONMaxDepth \<and> distinct (map fst members)
     \<and> list_all (\<lambda>(key, item). stringOk key \<and> nodeOk fl (depth + 1) item) members)"
| "nodeOk fl depth _ = (depth \<le> ahdJSONMaxDepth)"

lemma skip_append: "list_all jsonSpace ws \<Longrightarrow> skipWhitespace (ws @ t) = skipWhitespace t"
  by (induction ws) (auto simp: skipWhitespace_def)

lemma skip_id: "t = [] \<or> \<not> jsonSpace (hd t) \<Longrightarrow> skipWhitespace t = t"
  by (auto simp: skipWhitespace_def dropWhile_eq_self_iff)

lemma skip_idem [simp]: "skipWhitespace (skipWhitespace t) = skipWhitespace t"
  by (simp add: skipWhitespace_def)

lemma jsonIndent_space: "list_all jsonSpace (jsonIndent pretty level)"
  by (auto simp: jsonIndent_def jsonSpace_def list_all_iff)

lemma skip_indent [simp]: "skipWhitespace (jsonIndent pretty level @ t) = skipWhitespace t"
  by (rule skip_append [OF jsonIndent_space])

lemma numberStop_indent:
  "c \<in> {CHR '','', CHR '']'', CHR ''}''} \<Longrightarrow> numberStop (jsonIndent pretty level @ c # t)"
  by (auto simp: jsonIndent_def numberStop_def isDecimal_def byteOf_def)

lemma parseValue_skip: "parseValue fl cls fuel depth (skipWhitespace t) = parseValue fl cls fuel depth t"
  by (cases fuel) (simp_all add: valueBody_def)

lemma parseArrayLoop_skip:
  "parseArrayLoop fl cls fuel depth items (skipWhitespace t) = parseArrayLoop fl cls fuel depth items t"
  by (cases fuel) (simp_all add: parseValue_skip)

lemma parseObjectLoop_skip:
  "parseObjectLoop fl cls fuel depth members (skipWhitespace t) = parseObjectLoop fl cls fuel depth members t"
  by (cases fuel) (simp_all add: objectBody_def)

lemma jsonSpace_facts:
  "\<not> jsonSpace (CHR '','')" "\<not> jsonSpace (CHR '']'')" "\<not> jsonSpace (CHR ''}'')" "\<not> jsonSpace (CHR '':'')" "\<not> jsonSpace (CHR 0x22)"
  by (simp_all add: jsonSpace_def)

text \<open>The text of a value starts with a byte that is no space and closes nothing.\<close>

definition startsValue :: "string \<Rightarrow> bool" where
  "startsValue t = (t \<noteq> [] \<and> \<not> jsonSpace (hd t) \<and> hd t \<notin> {CHR '']'', CHR ''}''})"

lemma startsValue_number:
  assumes "sign \<in> {[], ''-''}" "integerText t"
  shows "startsValue (sign @ t @ rest)" "isDecimal (hd (sign @ t @ rest)) \<or> hd (sign @ t @ rest) = CHR ''-''"
proof -
  obtain c cs where t: "t = c # cs" "isDecimal c" using assms(2) by (cases t) (auto simp: integerText_def)
  then show "isDecimal (hd (sign @ t @ rest)) \<or> hd (sign @ t @ rest) = CHR ''-''" using assms(1) by auto
  have "\<not> jsonSpace c" "c \<noteq> CHR '']''" "c \<noteq> CHR ''}''"
    using t(2) by (auto simp: isDecimal_def byteOf_def jsonSpace_def)
  then show "startsValue (sign @ t @ rest)" using assms(1) t(1) by (auto simp: startsValue_def jsonSpace_def)
qed

lemma int_shape: "\<exists>sign t. encodedInt v = sign @ t @ [] \<and> sign \<in> {[], ''-''} \<and> integerText t"
  by (rule exI [of _ "if sint v < 0 then ''-'' else []"], rule exI [of _ "digitsOf (nat \<bar>sint v\<bar>)"])
    (simp add: encodedInt_def FormatInt_def integerText_digitsOf)

lemma node_starts:
  assumes "floatLaws fl" "nodeOk fl depth node"
  shows "startsValue (ahdJSONStringifyNode fl node pretty d)"
proof (cases node)
  case (JInt v)
  obtain sign t where "encodedInt v = sign @ t @ []" "sign \<in> {[], ''-''}" "integerText t"
    using int_shape by blast
  then show ?thesis using JInt startsValue_number(1) [of sign t "[]"] by simp
next
  case (JReal x)
  then have "isFinite fl x" using assms(2) by simp
  then obtain sign t f e where "ahdJSONFormatReal fl x = sign @ t @ f @ e" "sign \<in> {[], ''-''}" "integerText t"
    using real_shape [OF assms(1)] by blast
  then show ?thesis using JReal startsValue_number(1) [of sign t "f @ e"] by simp
qed (auto simp: startsValue_def jsonSpace_def ahdJSONEncodeString_def)

lemma array_loop_reads:
  fixes T :: "'r ahdJSONNode \<Rightarrow> string" and pretty :: bool and level :: nat
  defines "row \<equiv> (\<lambda>item. jsonIndent pretty (level + 1) @ T item)"
  assumes "items \<noteq> []"
    and "\<And>item t fuel. item \<in> set items \<Longrightarrow> numberStop t \<Longrightarrow> 2 * length (T item @ t) + 2 \<le> fuel \<Longrightarrow>
      parseValue fl cls fuel (depth + 1) (T item @ t) = Some (Inr (item, t))"
    and "\<And>item. item \<in> set items \<Longrightarrow> startsValue (T item)"
    and "2 * length (joinStrings '','' (map row items) @ jsonIndent pretty level @ '']'' @ rest) + 3 \<le> fuel"
  shows "parseArrayLoop fl cls fuel depth acc (joinStrings '','' (map row items) @ jsonIndent pretty level @ '']'' @ rest)
    = Some (Inr (JArray (acc @ items), rest))"
  using assms(2-)
proof (induction items arbitrary: acc fuel)
  case (Cons item items)
  obtain fuel' where fuel: "fuel = Suc fuel'" using Cons.prems(4) by (cases fuel) simp_all
  define t where "t = (if items = [] then jsonIndent pretty level @ '']'' @ rest
    else '','' @ joinStrings '','' (map row items) @ jsonIndent pretty level @ '']'' @ rest)"
  have split: "joinStrings '','' (map row (item # items)) @ jsonIndent pretty level @ '']'' @ rest
      = jsonIndent pretty (level + 1) @ T item @ t"
    by (cases items) (simp_all add: t_def row_def)
  have stop: "numberStop t" using numberStop_indent by (auto simp: t_def numberStop_def isDecimal_def byteOf_def)
  have len: "2 * length (T item @ t) + 2 \<le> fuel'" using Cons.prems(4) unfolding split fuel by simp
  have "parseValue fl cls fuel' (depth + 1) (jsonIndent pretty (level + 1) @ T item @ t) =
      parseValue fl cls fuel' (depth + 1) (T item @ t)"
    using parseValue_skip [of fl cls fuel' "depth + 1"] by (metis skip_indent)
  then have first: "parseValue fl cls fuel' (depth + 1) (jsonIndent pretty (level + 1) @ T item @ t) = Some (Inr (item, t))"
    using Cons.prems(2) [OF _ stop len] by simp
  show ?case
  proof (cases "items = []")
    case True
    then show ?thesis
      unfolding split fuel using first by (simp add: arrayBody_def t_def skip_id jsonSpace_facts)
  next
    case False
    have "2 * length (joinStrings '','' (map row items) @ jsonIndent pretty level @ '']'' @ rest) + 3 \<le> fuel'"
      using len False by (simp add: t_def)
    then have "parseArrayLoop fl cls fuel' depth (acc @ [item]) (joinStrings '','' (map row items) @ jsonIndent pretty level @ '']'' @ rest)
        = Some (Inr (JArray ((acc @ [item]) @ items), rest))"
      using Cons.prems(2,3) False by (intro Cons.IH) simp_all
    then show ?thesis
      unfolding split fuel using first False by (simp add: arrayBody_def t_def skip_id jsonSpace_facts)
  qed
qed simp

lemma object_loop_reads:
  fixes T :: "'r ahdJSONNode \<Rightarrow> string" and pretty :: bool and level :: nat
  defines "row \<equiv> (\<lambda>(key, item). jsonIndent pretty (level + 1) @ ahdJSONEncodeString key @ '':''
    @ (if pretty then '' '' else '''') @ T item)"
  assumes "members \<noteq> []"
    and "\<And>key item t fuel. (key, item) \<in> set members \<Longrightarrow> numberStop t \<Longrightarrow> 2 * length (T item @ t) + 2 \<le> fuel \<Longrightarrow>
      parseValue fl cls fuel (depth + 1) (T item @ t) = Some (Inr (item, t))"
    and "\<And>key item. (key, item) \<in> set members \<Longrightarrow> stringOk key"
    and "distinct (map fst (acc @ members))"
    and "2 * length (joinStrings '','' (map row members) @ jsonIndent pretty level @ ''}'' @ rest) + 3 \<le> fuel"
  shows "parseObjectLoop fl cls fuel depth acc (joinStrings '','' (map row members) @ jsonIndent pretty level @ ''}'' @ rest)
    = Some (Inr (JObject (acc @ members), rest))"
  using assms(2-)
proof (induction members arbitrary: acc fuel)
  case (Cons member members)
  obtain key item where member: "member = (key, item)" by fastforce
  obtain fuel' where fuel: "fuel = Suc fuel'" using Cons.prems(5) by (cases fuel) simp_all
  define gap where "gap = (if pretty then '' '' else ([]::string))"
  define t where "t = (if members = [] then jsonIndent pretty level @ ''}'' @ rest
    else '','' @ joinStrings '','' (map row members) @ jsonIndent pretty level @ ''}'' @ rest)"
  have split: "joinStrings '','' (map row (member # members)) @ jsonIndent pretty level @ ''}'' @ rest
      = jsonIndent pretty (level + 1) @ ahdJSONEncodeString key @ CHR '':'' # gap @ T item @ t"
    by (cases members) (simp_all add: t_def row_def gap_def member)
  have stop: "numberStop t" using numberStop_indent by (auto simp: t_def numberStop_def isDecimal_def byteOf_def)
  have len: "2 * length (T item @ t) + 2 \<le> fuel'" using Cons.prems(5) unfolding split fuel by simp
  have "list_all jsonSpace gap" by (simp add: gap_def jsonSpace_def)
  then have "parseValue fl cls fuel' (depth + 1) (gap @ T item @ t) = parseValue fl cls fuel' (depth + 1) (T item @ t)"
    using parseValue_skip [of fl cls fuel' "depth + 1"] by (metis skip_append)
  then have first: "parseValue fl cls fuel' (depth + 1) (gap @ T item @ t) = Some (Inr (item, t))"
    using Cons.prems(2) [OF _ stop len, of key] member by simp
  have key: "stringOk key" "key \<notin> fst ` set acc" using Cons.prems(3,4) member by (auto simp: image_iff)
  have "skipWhitespace (jsonIndent pretty (level + 1) @ ahdJSONEncodeString key @ x) = ahdJSONEncodeString key @ x" for x
    by (simp add: skip_id ahdJSONEncodeString_def jsonSpace_facts)
  moreover have "ahdJSONEncodeString key @ x \<noteq> []" "hd (ahdJSONEncodeString key @ x) = CHR 0x22" for x
    by (simp_all add: ahdJSONEncodeString_def)
  ultimately have body: "parseObjectLoop fl cls fuel depth acc
      (jsonIndent pretty (level + 1) @ ahdJSONEncodeString key @ CHR '':'' # gap @ T item @ t) =
      (case skipWhitespace t of
         [] \<Rightarrow> Some (Inl (cls, ''JSON object is not closed''))
       | c # cs \<Rightarrow>
           if c = CHR '','' then parseObjectLoop fl cls fuel' depth (acc @ [(key, item)]) cs
           else if c = CHR ''}'' then Some (Inr (JObject (acc @ [(key, item)]), cs))
           else Some (Inl (cls, ''JSON object is missing ',' or '}'' @ [CHR 0x27])))"
    unfolding fuel using key first
    by (simp add: objectBody_def string_reads skip_id [of "CHR '':'' # x" for x] jsonSpace_facts)
  show ?case
  proof (cases "members = []")
    case True
    then show ?thesis unfolding split body by (simp add: t_def skip_id jsonSpace_facts member)
  next
    case False
    have room: "2 * length (joinStrings '','' (map row members) @ jsonIndent pretty level @ ''}'' @ rest) + 3 \<le> fuel'"
      using len False by (simp add: t_def)
    have "parseObjectLoop fl cls fuel' depth (acc @ [(key, item)]) (joinStrings '','' (map row members) @ jsonIndent pretty level @ ''}'' @ rest)
        = Some (Inr (JObject ((acc @ [(key, item)]) @ members), rest))"
    proof (rule Cons.IH [OF False])
      show "parseValue fl cls fuel (depth + 1) (T item @ t) = Some (Inr (item, t))"
        if "(key, item) \<in> set members" "numberStop t" "2 * length (T item @ t) + 2 \<le> fuel" for key item t fuel
        by (rule Cons.prems(2) [OF list.set_intros(2) [OF that(1)] that(2,3)])
      show "stringOk key" if "(key, item) \<in> set members" for key item
        by (rule Cons.prems(3) [OF list.set_intros(2) [OF that]])
      show "2 * length (joinStrings '','' (map row members) @ jsonIndent pretty level @ ''}'' @ rest) + 3 \<le> fuel'"
        by (rule room)
      show "distinct (map fst ((acc @ [(key, item)]) @ members))" using Cons.prems(4) member by simp
    qed
    then show ?thesis unfolding split body using False by (simp add: t_def skip_id jsonSpace_facts member)
  qed
qed simp

lemma number_value_reads:
  assumes "depth \<le> ahdJSONMaxDepth" "isDecimal (hd t) \<or> hd t = CHR ''-''" "t \<noteq> []"
    "parseNumber fl cls t = Inr (node, rest)" "0 < fuel"
  shows "parseValue fl cls fuel depth t = Some (Inr (node, rest))"
proof -
  obtain c cs where t: "t = c # cs" using assms(3) by (cases t) simp_all
  have "\<not> jsonSpace c" "c \<notin> {CHR ''{'', CHR ''['', CHR 0x22, CHR ''t'', CHR ''f'', CHR ''n''}"
    using assms(2) by (auto simp: t isDecimal_def byteOf_def jsonSpace_def)
  then show ?thesis
    using assms by (cases fuel) (auto simp: valueBody_def t skip_id)
qed

lemma value_reads:
  assumes "floatLaws fl" "nodeOk fl depth node" "numberStop rest"
    "2 * length (ahdJSONStringifyNode fl node pretty d @ rest) + 2 \<le> fuel"
  shows "parseValue fl cls fuel depth (ahdJSONStringifyNode fl node pretty d @ rest) = Some (Inr (node, rest))"
  using assms(2-)
proof (induction node arbitrary: depth rest d fuel)
  case JNull
  then show ?case by (cases fuel) (simp_all add: valueBody_def skip_id jsonSpace_def expectLiteral_def HasPrefix_def Let_def)
next
  case (JBool b)
  then show ?case by (cases fuel) (simp_all add: valueBody_def skip_id jsonSpace_def expectLiteral_def HasPrefix_def Let_def)
next
  case (JInt v)
  obtain sign t where s: "encodedInt v = sign @ t @ []" "sign \<in> {[], ''-''}" "integerText t"
    using int_shape by blast
  have t: "encodedInt v @ rest = sign @ t @ rest" by (simp add: s(1))
  have "parseValue fl cls fuel depth (encodedInt v @ rest) = Some (Inr (JInt v, rest))"
    by (rule number_value_reads [OF _ _ _ int_reads [OF JInt(2)]])
      (use JInt startsValue_number [OF s(2,3), of rest] in \<open>simp_all add: t startsValue_def\<close>)
  then show ?case by simp
next
  case (JReal x)
  then have x: "isFinite fl x" by simp
  obtain sign t f e where s: "ahdJSONFormatReal fl x = sign @ t @ f @ e" "sign \<in> {[], ''-''}" "integerText t"
    using real_shape [OF assms(1) x] by blast
  have t: "ahdJSONFormatReal fl x @ rest = sign @ t @ (f @ e @ rest)" by (simp add: s(1))
  have "parseValue fl cls fuel depth (ahdJSONFormatReal fl x @ rest) = Some (Inr (JReal x, rest))"
    by (rule number_value_reads [OF _ _ _ real_reads [OF assms(1) x JReal(2)]])
      (use JReal startsValue_number [OF s(2,3), of "f @ e @ rest"] in \<open>simp_all add: t startsValue_def\<close>)
  then show ?case by simp
next
  case (JString s)
  then have "parseString_json cls (ahdJSONEncodeString s @ rest) = Inr (s, rest)" by (simp add: string_reads)
  moreover obtain cs where "ahdJSONEncodeString s @ rest = CHR 0x22 # cs" by (simp add: ahdJSONEncodeString_def)
  ultimately show ?case
    using JString by (cases fuel) (auto simp: valueBody_def skip_id jsonSpace_facts)
next
  case (JArray items)
  obtain fuel' where fuel: "fuel = Suc fuel'" using JArray.prems(3) by (cases fuel) simp_all
  show ?case
  proof (cases "items = []")
    case True
    then show ?thesis using JArray.prems(1)
      by (simp add: fuel valueBody_def skip_id jsonSpace_def)
  next
    case False
    define T where "T = (\<lambda>item. ahdJSONStringifyNode fl item pretty (d + 1))"
    define body where "body = joinStrings '','' (map (\<lambda>item. jsonIndent pretty (d + 1) @ T item) items) @ jsonIndent pretty d @ '']'' @ rest"
    have split: "ahdJSONStringifyNode fl (JArray items) pretty d @ rest = CHR ''['' # body"
      using False by (simp add: body_def T_def)
    have starts: "startsValue (T item)" if "item \<in> set items" for item
      using node_starts [OF assms(1)] JArray.prems(1) that by (auto simp: T_def list_all_iff)
    have "parseArrayLoop fl cls fuel' depth [] body = Some (Inr (JArray ([] @ items), rest))"
      unfolding body_def
    proof (rule array_loop_reads [OF False _ starts])
      show "parseValue fl cls fuel (depth + 1) (T item @ t) = Some (Inr (item, t))"
        if "item \<in> set items" "numberStop t" "2 * length (T item @ t) + 2 \<le> fuel" for item t fuel
        unfolding T_def using JArray.prems(1) that by (intro JArray.IH) (auto simp: T_def list_all_iff)
      show "2 * length (joinStrings '','' (map (\<lambda>item. jsonIndent pretty (d + 1) @ T item) items) @ jsonIndent pretty d @ '']'' @ rest) + 3 \<le> fuel'"
        using JArray.prems(3) unfolding split fuel body_def by simp
    qed
    moreover have "skipWhitespace body \<noteq> [] \<and> hd (skipWhitespace body) \<noteq> CHR '']''"
    proof -
      obtain item items' where items: "items = item # items'" using False by (cases items) simp_all
      have "\<exists>u. body = jsonIndent pretty (d + 1) @ T item @ u"
        by (cases items') (simp_all add: body_def items)
      then obtain u where u: "body = jsonIndent pretty (d + 1) @ T item @ u" ..
      have "startsValue (T item)" using starts items by simp
      then show ?thesis by (cases "T item") (auto simp: u startsValue_def skip_id)
    qed
    ultimately show ?thesis
      unfolding split fuel using JArray.prems(1)
      by (simp add: valueBody_def skip_id jsonSpace_def parseArrayLoop_skip)
  qed
next
  case (JObject members)
  obtain fuel' where fuel: "fuel = Suc fuel'" using JObject.prems(3) by (cases fuel) simp_all
  show ?case
  proof (cases "members = []")
    case True
    then show ?thesis using JObject.prems(1)
      by (simp add: fuel valueBody_def skip_id jsonSpace_def)
  next
    case False
    define T where "T = (\<lambda>item. ahdJSONStringifyNode fl item pretty (d + 1))"
    define row where "row = (\<lambda>(key, item). jsonIndent pretty (d + 1) @ ahdJSONEncodeString key @ '':'' @ (if pretty then '' '' else '''') @ T item)"
    define body where "body = joinStrings '','' (map row members) @ jsonIndent pretty d @ ''}'' @ rest"
    have split: "ahdJSONStringifyNode fl (JObject members) pretty d @ rest = CHR ''{'' # body"
      using False by (simp add: body_def row_def T_def)
    have "parseObjectLoop fl cls fuel' depth [] body = Some (Inr (JObject ([] @ members), rest))"
      unfolding body_def row_def
    proof (rule object_loop_reads [OF False])
      show "parseValue fl cls fuel (depth + 1) (T item @ t) = Some (Inr (item, t))"
        if "(key, item) \<in> set members" "numberStop t" "2 * length (T item @ t) + 2 \<le> fuel" for key item t fuel
        unfolding T_def using JObject.prems(1) that
        by (intro JObject.IH [of "(key, item)"]) (auto simp: T_def list_all_iff)
      show "stringOk key" if "(key, item) \<in> set members" for key item
        using JObject.prems(1) that by (auto simp: list_all_iff)
      show "distinct (map fst ([] @ members))" using JObject.prems(1) by simp
      show "2 * length (joinStrings '','' (map (\<lambda>(key, item). jsonIndent pretty (d + 1) @ ahdJSONEncodeString key @ '':'' @ (if pretty then '' '' else '''') @ T item) members) @ jsonIndent pretty d @ ''}'' @ rest) + 3 \<le> fuel'"
        using JObject.prems(3) unfolding split fuel body_def row_def by simp
    qed
    moreover have "skipWhitespace body \<noteq> [] \<and> hd (skipWhitespace body) \<noteq> CHR ''}''"
    proof -
      obtain key item members' where members: "members = (key, item) # members'" using False by (cases members) auto
      have "\<exists>u. body = jsonIndent pretty (d + 1) @ CHR 0x22 # u"
        by (cases members') (simp_all add: body_def members row_def ahdJSONEncodeString_def)
      then obtain u where u: "body = jsonIndent pretty (d + 1) @ CHR 0x22 # u" ..
      show ?thesis by (simp add: u skip_id jsonSpace_facts)
    qed
    ultimately show ?thesis
      unfolding split fuel using JObject.prems(1)
      by (simp add: valueBody_def skip_id jsonSpace_def parseObjectLoop_skip)
  qed
qed

subsection \<open>The document\<close>

lemma ValidString_decimal: "list_all isDecimal t \<Longrightarrow> ValidString t"
  by (rule ValidString_ascii) (auto simp: isDecimal_def elim!: list.pred_mono_strong)

lemma number_valid:
  assumes "sign \<in> {[], ''-''}" "integerText t" "fractionText f" "exponentText e"
  shows "ValidString (sign @ t @ f @ e)"
proof -
  have "list_all (\<lambda>c. byteOf c < 128) sign" using assms(1) by (auto simp: byteOf_def)
  moreover have "list_all (\<lambda>c. byteOf c < 128) t"
    using integerText_decimal [OF assms(2)] by (auto simp: isDecimal_def elim!: list.pred_mono_strong)
  moreover have "list_all (\<lambda>c. byteOf c < 128) f"
    using assms(3) by (cases f) (auto simp: fractionText_def isDecimal_def byteOf_def elim!: list.pred_mono_strong)
  moreover have "list_all (\<lambda>c. byteOf c < 128) e"
    using assms(4) by (cases e; cases "tl e")
      (auto simp: exponentText_def isDecimal_def byteOf_def elim!: list.pred_mono_strong)
  ultimately show ?thesis by (intro ValidString_ascii) simp
qed

lemma ValidString_join:
  "list_all ValidString ts \<Longrightarrow> ValidString (joinStrings '','' ts)"
  by (induction "'',''" ts rule: joinStrings.induct)
    (simp_all add: ValidString_append ValidString_ascii_Cons byteOf_def)

lemma ValidString_indent: "ValidString (jsonIndent pretty level)"
  by (rule ValidString_ascii) (auto simp: jsonIndent_def list_all_iff byteOf_def)

lemma node_valid:
  assumes "floatLaws fl" "nodeOk fl depth node"
  shows "ValidString (ahdJSONStringifyNode fl node pretty d)"
  using assms(2)
proof (induction node arbitrary: depth d)
  case (JInt v)
  obtain sign t where "encodedInt v = sign @ t @ []" "sign \<in> {[], ''-''}" "integerText t"
    using int_shape by blast
  then show ?case using number_valid [of sign t "[]" "[]"] by (simp add: fractionText_def exponentText_def)
next
  case (JReal x)
  then have "isFinite fl x" by simp
  then show ?case using real_shape [OF assms(1)] number_valid by fastforce
next
  case (JArray items)
  have "list_all ValidString (map (\<lambda>item. jsonIndent pretty (d + 1) @ ahdJSONStringifyNode fl item pretty (d + 1)) items)"
    using JArray.prems JArray.IH by (auto simp: list_all_iff ValidString_append ValidString_indent)
  then show ?case
    by (simp add: ValidString_join ValidString_append ValidString_indent ValidString_ascii_Cons byteOf_def)
next
  case (JObject members)
  define row where "row = (\<lambda>(key, item). jsonIndent pretty (d + 1) @ ahdJSONEncodeString key @ '':''
    @ (if pretty then '' '' else '''') @ ahdJSONStringifyNode fl item pretty (d + 1))"
  have "ValidString (row (key, item))" if m: "(key, item) \<in> set members" for key item
  proof -
    have "stringOk key" "nodeOk fl (depth + 1) item" using JObject.prems m by (auto simp: list_all_iff)
    then show ?thesis
      using JObject.IH [OF m, of item "depth + 1" "d + 1"]
      by (simp add: row_def ValidString_append ValidString_indent ValidString_string ValidString_ascii_Cons byteOf_def)
  qed
  then have "list_all ValidString (map row members)" by (auto simp: list_all_iff)
  then show ?case unfolding ahdJSONStringifyNode.simps row_def [symmetric]
    by (simp add: ValidString_join ValidString_append ValidString_indent ValidString_ascii_Cons byteOf_def)
qed (auto intro!: ValidString_ascii ValidString_string simp: byteOf_def)

lemma document_reads:
  assumes "floatLaws fl" "nodeOk fl 0 node"
    "length (ahdJSONStringifyNode fl node pretty 0) \<le> ahdJSONMaxInputBytes"
  shows "ahdJSONParseDocument fl cls (ahdJSONStringifyNode fl node pretty 0) = Some (Inr node)"
proof -
  define t where "t = ahdJSONStringifyNode fl node pretty 0"
  have skip: "skipWhitespace t = t" "t \<noteq> []"
    using node_starts [OF assms(1,2), of pretty 0] by (simp_all add: t_def startsValue_def skip_id)
  have "parseValue fl cls (2 * length t + 2) 0 (t @ []) = Some (Inr (node, []))"
    unfolding t_def by (rule value_reads [OF assms(1,2)]) (simp_all add: numberStop_def)
  then show ?thesis
    using skip node_valid [OF assms(1,2), of pretty 0] assms(3)
    by (simp add: ahdJSONParseDocument_def t_def [symmetric] skip_id)
qed

text \<open>
  C24: reading and writing JSON. The compact and the indented text of a value are read back as that value,
  on these conditions (\<open>nodeOk\<close>): its nesting is at most 256, its reals are finite, the keys of each object
  are distinct, and its strings and keys are well-formed UTF-8 without a control character that has no short
  escape; the text is not longer than the parser accepts, and \<open>strconv\<close> reads back the reals it prints. For
  the other control characters it is false (\<open>control_character_is_lost\<close>). On these conditions a JSONValue keeps its node: parsing its text, compact or indented, gives the canonical
  text again, and the accessors see the kind of the node.
\<close>

theorem json_text_reads_back:
  assumes "floatLaws fl" "nodeOk fl 0 node"
    and "length (ahdJSONStringifyNode fl node pretty 0) \<le> ahdJSONMaxInputBytes"
  shows "ahdJSONParseDocument fl cls (ahdJSONStringifyNode fl node pretty 0) = Some (Inr node) \<and>
    AhdJSONParse fl cls (ahdJSONStringifyNode fl node pretty 0) = Some (Inr (ahdJSONCanonicalText fl node)) \<and>
    AhdJSONKind fl cls (ahdJSONStringifyNode fl node pretty 0) = Some (Inr (nodeKind node))"
  using document_reads [OF assms, of cls] by (simp add: AhdJSONParse_def AhdJSONKind_def jsonAccess_def)

text \<open>Reals that are integers, printed without a point.\<close>

definition integralFloats :: "int64 floats" where
  "integralFloats =
    \<lparr>parseFloat = (\<lambda>t. parseInt (takeWhile (\<lambda>c. c \<noteq> CHR ''.'') t)), formatFloat = encodedInt,
     floatOfInt = (\<lambda>i. i), isFinite = (\<lambda>_. True)\<rparr>"

lemma integralFloats_laws: "floatLaws integralFloats"
proof -
  have free: "c \<noteq> CHR ''.''" if "c \<in> set (encodedInt v)" for c v
  proof -
    obtain sign t where "encodedInt v = sign @ t @ []" "sign \<in> {[], ''-''}" "integerText t" using int_shape by blast
    then show ?thesis using that integerText_decimal [of t] by (auto simp: list_all_iff)
  qed
  have before_point: "takeWhile (\<lambda>c. c \<noteq> CHR ''.'') (encodedInt v) = encodedInt v"
    "takeWhile (\<lambda>c. c \<noteq> CHR ''.'') (encodedInt v @ ''.0'') = encodedInt v" for v
    using free by (auto simp: takeWhile_eq_all_conv takeWhile_append2)
  have "\<exists>sign t f e. encodedInt v = sign @ t @ f @ e \<and> sign \<in> {[], ''-''} \<and> integerText t
        \<and> fractionText f \<and> exponentText e" for v
  proof -
    obtain sign t where "encodedInt v = sign @ t @ []" "sign \<in> {[], ''-''}" "integerText t" using int_shape by blast
    then show ?thesis
      by (intro exI [of _ sign] exI [of _ t] exI [of _ "[]"]) (simp add: fractionText_def exponentText_def)
  qed
  then show ?thesis by (simp add: floatLaws_def integralFloats_def before_point parseInt_encoded)
qed

definition sampleNode :: "int64 ahdJSONNode" where
  "sampleNode = JObject [(''ok'', JBool True),
     (''items'', JArray [JInt (-12), JReal 3, JNull, JObject [], JString [CHR 0x22, CHR 0x5C, CHR 0x0A, CHR 0x09]])]"

theorem json_text_reads_back_witness:
  "ahdJSONParseDocument integralFloats ''JSONError'' (ahdJSONStringifyNode integralFloats sampleNode True 0)
    = Some (Inr sampleNode)"
proof -
  have "nodeOk integralFloats 0 sampleNode"
    by (simp add: sampleNode_def ahdJSONMaxDepth_def integralFloats_def stringOk_def plainByte_def byteOf_def
        ValidString_ascii_Cons)
  moreover have "length (ahdJSONStringifyNode integralFloats sampleNode True 0) \<le> ahdJSONMaxInputBytes"
    by (simp add: sampleNode_def ahdJSONMaxInputBytes_def jsonIndent_def integralFloats_def encodedInt_def FormatInt_def
        digitsOf.simps ahdJSONFormatReal_def Let_def ahdJSONEncodeString_def encodeJSONRunes.simps DecodeRune_ascii byteOf_def
        encodeJSONRune_def EncodeRune_def validRune_def)
  ultimately show ?thesis using json_text_reads_back [OF integralFloats_laws] by blast
qed

subsection \<open>Texts that are not read back\<close>

lemma plain_reads:
  "32 \<le> byteOf c \<Longrightarrow> byteOf c < 128 \<Longrightarrow> c \<noteq> CHR 0x22 \<Longrightarrow> c \<noteq> CHR 0x5C \<Longrightarrow>
   parseStringLoop cls b (c # rest) = parseStringLoop cls (b @ [c]) rest"
  by (subst parseStringLoop.simps) (simp add: DecodeRune_ascii)

lemma unicode_reads:
  "parseStringLoop cls b (CHR 0x5C # CHR ''u'' # rest) =
    (case parseUnicodeEscape cls (CHR ''u'' # rest) of
       Inl r \<Rightarrow> Inl r | Inr (rune, behind) \<Rightarrow> parseStringLoop cls (b @ EncodeRune rune) behind)"
  by (subst parseStringLoop.simps) (simp add: shortEscape_def)

lemma quote_reads: "parseStringLoop cls b (CHR 0x22 # rest) = Inr (b, rest)"
  by (subst parseStringLoop.simps) simp

lemma string_document:
  assumes "length text < 1000" "list_all (\<lambda>c. byteOf c < 128) text"
  shows "ahdJSONParseDocument fl cls (CHR 0x22 # text) =
    Some (case parseStringLoop cls [] text of
       Inl r \<Rightarrow> Inl r
     | Inr (s, rest) \<Rightarrow>
         if skipWhitespace rest \<noteq> [] then Inl (cls, ''JSON input has trailing content after its value'')
         else Inr (JString s))"
proof -
  have "ValidString (CHR 0x22 # text)" using assms(2) by (intro ValidString_ascii) (simp add: byteOf_def)
  moreover have "parseValue fl cls (2 * length (CHR 0x22 # text) + 2) 0 (CHR 0x22 # text) =
      Some (map_sum id (map_prod JString id) (parseStringLoop cls [] text))"
    by (simp add: valueBody_def ahdJSONMaxDepth_def skip_id jsonSpace_facts parseString_json_def)
  ultimately show ?thesis
    using assms(1)
    by (cases "parseStringLoop cls [] text")
      (auto simp: ahdJSONParseDocument_def ahdJSONMaxInputBytes_def skip_id jsonSpace_facts split: prod.split)
qed

lemmas escape_evaluation = plain_reads unicode_reads quote_reads parseUnicodeEscape_def parseHex4_def hexValue_def
  isSurrogate_def HasPrefix_def byteOf_def


text \<open>
  A control character without a short escape is written with the hexadecimal digits of its code and no
  padding, which is no JSON escape. What stands behind it may complete it to another character.
\<close>

lemma control_character_is_lost:
  "ahdJSONEncodeString [CHR 0x01] = [CHR 0x22, CHR 0x5C, CHR ''u'', CHR ''1'', CHR 0x22]
   \<and> ahdJSONParseDocument fl ''JSONError'' (ahdJSONEncodeString [CHR 0x01])
     = Some (Inl (''JSONError'', ''JSON String has an incomplete '' @ [CHR 0x5C] @ ''u escape''))
   \<and> ahdJSONParseDocument fl ''JSONError'' (ahdJSONEncodeString (CHR 0x1F # ''41x''))
     = Some (Inr (JString (EncodeRune 0x1F41 @ ''x'')))"
proof -
  have digit: "hexDigit (Suc 0) = CHR ''1''" "hexDigit 15 = CHR ''f''"
    by (simp_all add: hexDigit_def byteOf_def flip: byteOf_inject)
  have lost: "ahdJSONEncodeString [CHR 0x01] = [CHR 0x22, CHR 0x5C, CHR ''u'', CHR ''1'', CHR 0x22]"
    by (simp add: ahdJSONEncodeString_def encodeJSONRunes.simps DecodeRune_ascii byteOf_def encodeJSONRune_def
        formatHex.simps digit)
  have "encodeJSONRune 52 = ''4''" "encodeJSONRune 49 = ''1''" "encodeJSONRune 120 = ''x''"
    by (simp_all add: encodeJSONRune_def EncodeRune_def validRune_def byteOf_def flip: byteOf_inject)
  then have other: "ahdJSONEncodeString (CHR 0x1F # ''41x'') = [CHR 0x22, CHR 0x5C] @ ''u1f41x'' @ [CHR 0x22]"
    by (simp add: ahdJSONEncodeString_def encodeJSONRunes.simps DecodeRune_ascii byteOf_def)
      (simp add: encodeJSONRune_def formatHex.simps digit)
  show ?thesis
    by (simp add: lost other string_document escape_evaluation skipWhitespace_def)
qed

text \<open>
  The second escape of a surrogate pair is read from one byte behind its start, so no pair is read as
  the character it stands for.
\<close>

lemma surrogate_pair_is_refused:
  "ahdJSONParseDocument fl ''JSONError''
     ([CHR 0x22, CHR 0x5C] @ ''uD83D'' @ [CHR 0x5C] @ ''uDE00'' @ [CHR 0x22])
   = Some (Inl (''JSONError'', ''JSON String has an invalid '' @ [CHR 0x5C] @ ''u escape''))"
  by (simp add: string_document escape_evaluation)

end
