(* ===== verification/Overload.thy ===== *)
theory Overload
  imports Types GoText
begin

text \<open>
  Overload resolution (\<open>internal/semantic/overload.go\<close>, and the one-argument resolution of
  \<open>internal/semantic/protocols.go\<close>): the rank of a conversion, the assessment of a candidate for a call,
  the choice of the best candidate for a call, for a Class Protocol Method and for a Function value.

  Scores are integers; the sums the code keeps in an \<open>int\<close> are bounded by the size of the signatures.
  A candidate is what resolution reads of a \<open>*Callable\<close>. What a function reports is returned as the
  codes, messages and hints of \<open>analyzer.error\<close>, and the trace it stores is part of the result.
\<close>

subsection \<open>Data\<close>

datatype NullState = MaybeNull | Null | NonNull

record Callable =
  CallableSignature :: "Signature option"
  ParameterNull :: "NullState list"
  ReturnNull :: NullState

record OverloadSet =
  SetName :: string
  Candidates :: "Callable list"

record CandidateDecision =
  DecisionSignature :: string
  Applicable :: bool
  DecisionReason :: string
  DecisionWidenings :: int
  DecisionDefaults :: int

record ResolutionTrace =
  TraceCandidates :: "CandidateDecision list"
  Selected :: string

record overloadScore =
  widenings :: int
  defaults :: int

text \<open>What resolution reads of an argument: its name, if it has one, its type and its null state.\<close>

record argumentInfo =
  argumentName :: string
  argumentType :: "Type option"
  argumentNull :: NullState

text \<open>The code, the message and the hint of a reported error.\<close>

type_synonym report = "string \<times> string \<times> string"

primrec parameterName :: "SigParameter \<Rightarrow> string" where "parameterName (SigParameter n t d) = n"
primrec parameterType :: "SigParameter \<Rightarrow> Type option" where "parameterType (SigParameter n t d) = t"
primrec HasDefault :: "SigParameter \<Rightarrow> bool" where "HasDefault (SigParameter n t d) = d"

subsection \<open>Scores\<close>

definition betterThan :: "overloadScore \<Rightarrow> overloadScore \<Rightarrow> bool" where
  "betterThan score other =
    (if widenings score \<noteq> widenings other then widenings score < widenings other
     else defaults score < defaults other)"

definition equalScore :: "overloadScore \<Rightarrow> overloadScore \<Rightarrow> bool" where
  "equalScore score other = (widenings score = widenings other \<and> defaults score = defaults other)"

subsection \<open>Conversions\<close>

lemma size_parameter [simp]: "size_option size (parameterType p) < size p"
  by (cases p) simp

lemma size_parameters:
  "size_option size (parameterType p) + size_option size (parameterType q) < Suc (Suc (size p + m + (size q + n)))"
  using size_parameter [of p] size_parameter [of q] by linarith

text \<open>
  A conversion costs nothing between identical types and 1 between assignable ones; a Function value
  costs what its parameters and unused defaults cost, and one more. The parameters of the expected
  signature are values for those of the candidate.
\<close>

function conversionQuality :: "classStore \<Rightarrow> Type option \<Rightarrow> Type option \<Rightarrow> int option"
  and functionValueScore :: "classStore \<Rightarrow> Signature option \<Rightarrow> Signature option \<Rightarrow> overloadScore option"
  and qualityLoop :: "classStore \<Rightarrow> SigParameter list \<Rightarrow> SigParameter list \<Rightarrow> int option" where
  "conversionQuality cs target value =
    (if Equal cs target value then Some 0
     else
       (case (target, value) of
          (Some (FunctionType (Some t)), Some (FunctionType (Some v))) \<Rightarrow>
            map_option (\<lambda>score. widenings score + defaults score + 1) (functionValueScore cs (Some v) (Some t))
        | _ \<Rightarrow> if Assignable cs target value then Some 1 else None))"
| "functionValueScore cs candidate expected =
    (case (candidate, expected) of
       (Some (Signature ps r), Some (Signature qs s)) \<Rightarrow>
         if length qs > length ps then None
         else
           (case qualityLoop cs ps qs of
              None \<Rightarrow> None
            | Some quality \<Rightarrow>
                if \<not> list_all HasDefault (drop (length qs) ps) then None
                else if \<not> Assignable cs s r then None
                else Some \<lparr>widenings = quality, defaults = int (length ps - length qs)\<rparr>)
     | _ \<Rightarrow> None)"
| "qualityLoop cs ps qs =
    (case (ps, qs) of
       (p # ps, q # qs) \<Rightarrow>
         (case conversionQuality cs (parameterType p) (parameterType q) of
            None \<Rightarrow> None
          | Some quality \<Rightarrow> map_option (\<lambda>rest. quality + rest) (qualityLoop cs ps qs))
     | _ \<Rightarrow> Some 0)"
  by pat_completeness auto
termination
  by (relation "measure (\<lambda>x. case x of
      Inl (cs, t, v) \<Rightarrow> size_option size t + size_option size v
    | Inr (Inl (cs, c, e)) \<Rightarrow> size_option size c + size_option size e
    | Inr (Inr (cs, ps, qs)) \<Rightarrow> size_list size ps + size_list size qs)")
    (auto simp: size_parameters)

declare conversionQuality.simps [simp del] functionValueScore.simps [simp del] qualityLoop.simps [simp del]

subsection \<open>Candidates for a call\<close>

text \<open>\<open>%q\<close> of a name; the names of a program are printable and hold no quotes.\<close>

definition quoted :: "string \<Rightarrow> string" where
  "quoted name = [CHR 0x22] @ name @ [CHR 0x22]"

text \<open>The index of the parameter an argument is for, if there is one.\<close>

definition parameterFor :: "SigParameter list \<Rightarrow> nat \<Rightarrow> argumentInfo \<Rightarrow> nat option" where
  "parameterFor ps index argument =
    (if argumentName argument \<noteq> ''''
     then find (\<lambda>i. parameterName (ps ! i) = argumentName argument) [0..<length ps]
     else if index < length ps then Some index else None)"

definition mayBeNull :: "Callable \<Rightarrow> nat \<Rightarrow> bool" where
  "mayBeNull callable i = (i < length (ParameterNull callable) \<and> ParameterNull callable ! i \<noteq> NonNull)"

definition nullPenalty :: "Callable \<Rightarrow> nat \<Rightarrow> argumentInfo \<Rightarrow> int" where
  "nullPenalty callable i argument = (if argumentNull argument = NonNull \<and> mayBeNull callable i then 1 else 0)"

definition noParameter :: "nat \<Rightarrow> nat \<Rightarrow> argumentInfo \<Rightarrow> string" where
  "noParameter declared received argument =
    (if argumentName argument \<noteq> '''' then ''no parameter named '' @ quoted (argumentName argument)
     else ''accepts '' @ FormatInt (int declared) @ '' parameter(s), received '' @ FormatInt (int received))"

text \<open>
  The loop over the arguments: the widenings so far, and the reason of a rejection or the parameters
  that are assigned.
\<close>

fun assessArguments ::
  "classStore \<Rightarrow> Callable \<Rightarrow> SigParameter list \<Rightarrow> nat \<Rightarrow> nat \<Rightarrow> argumentInfo list \<Rightarrow> bool list \<Rightarrow> int \<Rightarrow>
   int \<times> (string + bool list)" where
  "assessArguments cs callable ps received index [] assigned cost = (cost, Inr assigned)"
| "assessArguments cs callable ps received index (argument # arguments) assigned cost =
    (case parameterFor ps index argument of
       None \<Rightarrow> (cost, Inl (noParameter (length ps) received argument))
     | Some i \<Rightarrow>
         let name = parameterName (ps ! i); expected = parameterType (ps ! i)
         in if assigned ! i then (cost, Inl (''parameter '' @ quoted name @ '' is supplied more than once''))
            else if argumentNull argument \<noteq> NonNull \<and> \<not> mayBeNull callable i
            then (cost, Inl (''argument for '' @ quoted name @ '' may be null''))
            else
              (case conversionQuality cs expected (argumentType argument) of
                 None \<Rightarrow> (cost, Inl (''argument '' @ quoted name @ '' expects '' @ Display cs expected
                   @ '', received '' @ Display cs (argumentType argument)))
               | Some quality \<Rightarrow>
                   assessArguments cs callable ps received (index + 1) arguments (assigned[i := True])
                     (cost + quality + nullPenalty callable i argument)))"

fun assessDefaults :: "SigParameter list \<Rightarrow> bool list \<Rightarrow> int \<Rightarrow> int \<times> string option" where
  "assessDefaults (p # ps) (assigned # rest) used =
    (if assigned then assessDefaults ps rest used
     else if \<not> HasDefault p then (used, Some (''required parameter '' @ quoted (parameterName p) @ '' is missing''))
     else assessDefaults ps rest (used + 1))"
| "assessDefaults _ _ used = (used, None)"

definition assessCallCandidate ::
  "classStore \<Rightarrow> Callable \<Rightarrow> argumentInfo list \<Rightarrow> overloadScore \<times> string \<times> bool" where
  "assessCallCandidate cs callable arguments =
    (case CallableSignature callable of
       None \<Rightarrow> (\<lparr>widenings = 0, defaults = 0\<rparr>, ''candidate has no concrete signature'', False)
     | Some (Signature ps r) \<Rightarrow>
         (case assessArguments cs callable ps (length arguments) 0 arguments (replicate (length ps) False) 0 of
            (cost, Inl reason) \<Rightarrow> (\<lparr>widenings = cost, defaults = 0\<rparr>, reason, False)
          | (cost, Inr assigned) \<Rightarrow>
              (case assessDefaults ps assigned 0 of
                 (used, Some reason) \<Rightarrow> (\<lparr>widenings = cost, defaults = used\<rparr>, reason, False)
               | (used, None) \<Rightarrow> (\<lparr>widenings = cost, defaults = used\<rparr>, ''applicable'', True))))"

subsection \<open>Resolution\<close>

definition codeNoMatchingOverload :: string where "codeNoMatchingOverload = ''SEM026''"
definition codeAmbiguousOverload :: string where "codeAmbiguousOverload = ''SEM027''"

definition formatParameter :: "classStore \<Rightarrow> SigParameter \<Rightarrow> string" where
  "formatParameter cs p =
    (if parameterName p \<noteq> '''' then parameterName p @ '': '' else '''') @ Display cs (parameterType p)
    @ (if HasDefault p then '' := default'' else '''')"

definition FormatSignature :: "classStore \<Rightarrow> Signature option \<Rightarrow> string" where
  "FormatSignature cs signature =
    (case signature of
       None \<Rightarrow> ''Function<?>''
     | Some (Signature ps r) \<Rightarrow>
         ''('' @ joinStrings '', '' (map (formatParameter cs) ps) @ '') -> '' @ Display cs r)"

definition summarizeRejections :: "CandidateDecision list \<Rightarrow> string" where
  "summarizeRejections decisions =
    joinStrings ''; '' (map (\<lambda>d. DecisionSignature d @ '': '' @ DecisionReason d) decisions)"

text \<open>The best score, and the candidates that have it, in the order of the list.\<close>

definition finalists :: "(Callable \<times> overloadScore) list \<Rightarrow> Callable list" where
  "finalists applicable =
    (case applicable of
       [] \<Rightarrow> []
     | first # rest \<Rightarrow>
         let best = foldl (\<lambda>best (_, score). if betterThan score best then score else best) (snd first) rest
         in map fst (filter (\<lambda>(_, score). equalScore score best) applicable))"

definition decide :: "classStore \<Rightarrow> argumentInfo list \<Rightarrow> Callable \<Rightarrow> CandidateDecision" where
  "decide cs arguments candidate =
    (case assessCallCandidate cs candidate arguments of
       (score, reason, ok) \<Rightarrow>
         \<lparr>DecisionSignature = FormatSignature cs (CallableSignature candidate), Applicable = ok,
          DecisionReason = reason, DecisionWidenings = widenings score, DecisionDefaults = defaults score\<rparr>)"

definition applicableCandidates ::
  "classStore \<Rightarrow> argumentInfo list \<Rightarrow> Callable list \<Rightarrow> (Callable \<times> overloadScore) list" where
  "applicableCandidates cs arguments candidates =
    map (\<lambda>c. (c, fst (assessCallCandidate cs c arguments)))
      (filter (\<lambda>c. snd (snd (assessCallCandidate cs c arguments))) candidates)"

definition resolveOverloadCall ::
  "classStore \<Rightarrow> OverloadSet \<Rightarrow> argumentInfo list \<Rightarrow> Callable option \<times> ResolutionTrace \<times> report option" where
  "resolveOverloadCall cs overloads arguments =
    (let decisions = map (decide cs arguments) (Candidates overloads);
         trace = \<lparr>TraceCandidates = decisions, Selected = ''''\<rparr>;
         applicable = applicableCandidates cs arguments (Candidates overloads)
     in if applicable = []
        then (None, trace, Some (codeNoMatchingOverload,
          ''no overload of '' @ quoted (SetName overloads) @ '' matches this call'', summarizeRejections decisions))
        else
          (case finalists applicable of
             [c] \<Rightarrow> (Some c, trace\<lparr>Selected := FormatSignature cs (CallableSignature c)\<rparr>, None)
           | best \<Rightarrow> (None, trace, Some (codeAmbiguousOverload,
               ''call to overloaded Function '' @ quoted (SetName overloads) @ '' is ambiguous'',
               ''equally ranked candidates: ''
                 @ joinStrings ''; '' (map (\<lambda>c. FormatSignature cs (CallableSignature c)) best)))))"

definition parameterNullAt :: "NullState list \<Rightarrow> int \<Rightarrow> NullState" where
  "parameterNullAt states index =
    (if index < 0 \<or> index \<ge> int (length states) then NonNull else states ! nat index)"

text \<open>The assessment of a candidate for the one operand of a Class Protocol Method.\<close>

definition assessProtocol :: "classStore \<Rightarrow> argumentInfo \<Rightarrow> Callable \<Rightarrow> overloadScore option" where
  "assessProtocol cs argument candidate =
    (case CallableSignature candidate of
       Some (Signature [parameter] r) \<Rightarrow>
         let parameterNull = parameterNullAt (ParameterNull candidate) 0
         in if argumentNull argument \<noteq> NonNull \<and> parameterNull = NonNull then None
            else
              (case conversionQuality cs (parameterType parameter) (argumentType argument) of
                 None \<Rightarrow> None
               | Some quality \<Rightarrow>
                   Some \<lparr>widenings = (if argumentNull argument = NonNull \<and> parameterNull \<noteq> NonNull
                       then quality + 1 else quality), defaults = 0\<rparr>)
     | _ \<Rightarrow> None)"

definition resolveProtocolOneArg ::
  "classStore \<Rightarrow> string \<Rightarrow> Callable list \<Rightarrow> argumentInfo \<Rightarrow> Callable option \<times> report option" where
  "resolveProtocolOneArg cs name candidates argument =
    (let applicable = List.map_filter (\<lambda>c. map_option (Pair c) (assessProtocol cs argument c)) candidates
     in if applicable = []
        then (None, Some (codeNoMatchingOverload,
          ''no overload of Class Protocol Method '' @ quoted name @ '' matches this operand'',
          ''declare '' @ name @ '' to accept '' @ Display cs (argumentType argument) @ '', or convert the right operand''))
        else
          (case finalists applicable of
             [c] \<Rightarrow> (Some c, None)
           | _ \<Rightarrow> (None, Some (codeAmbiguousOverload,
               ''call to overloaded Class Protocol Method '' @ quoted name @ '' is ambiguous'',
               ''equally ranked candidates match this operand; add an explicit conversion or narrow the operand type''))))"

text \<open>The loop over the candidates of a Function value, which starts from the largest \<open>int\<close>.\<close>

definition worstScore :: overloadScore where
  "worstScore = \<lparr>widenings = 2 ^ 63 - 1, defaults = 2 ^ 63 - 1\<rparr>"

definition selectStep ::
  "classStore \<Rightarrow> Signature option \<Rightarrow> Callable list \<times> overloadScore \<Rightarrow> Callable \<Rightarrow> Callable list \<times> overloadScore" where
  "selectStep cs expected state candidate =
    (case functionValueScore cs (CallableSignature candidate) expected of
       None \<Rightarrow> state
     | Some score \<Rightarrow>
         if betterThan score (snd state) then ([candidate], score)
         else if equalScore score (snd state) then (fst state @ [candidate], snd state)
         else state)"

definition selectFunctionValue ::
  "classStore \<Rightarrow> OverloadSet \<Rightarrow> Signature option \<Rightarrow> Callable option \<times> report option" where
  "selectFunctionValue cs overloads expected =
    (case fst (foldl (selectStep cs expected) ([], worstScore) (Candidates overloads)) of
       [] \<Rightarrow> (None, Some (codeNoMatchingOverload,
         ''no overload of '' @ quoted (SetName overloads) @ '' matches callback type '' @ FormatSignature cs expected,
         ''use a Function whose parameters and return type satisfy the callback context''))
     | [c] \<Rightarrow> (Some c, None)
     | _ \<Rightarrow> (None, Some (codeAmbiguousOverload,
         ''overloaded Function value '' @ quoted (SetName overloads) @ '' remains ambiguous'',
         ''callback context leaves multiple equally ranked candidates'')))"

end
