(* ===== verification/OverloadProofs.thy ===== *)
theory OverloadProofs
  imports Overload "HOL-Library.Multiset"
begin

text \<open>
  What overload resolution decides: which calls a candidate accepts and at what score, and that the
  candidate chosen is the only one with the best score, whatever the order of the declarations.
\<close>

subsection \<open>Matching arguments and parameters\<close>

text \<open>
  A matching gives every argument a parameter of its own, with a conversion and without a null that the
  parameter does not take; the other parameters have defaults.
\<close>

definition argumentOk :: "classStore \<Rightarrow> Callable \<Rightarrow> SigParameter list \<Rightarrow> nat \<Rightarrow> argumentInfo \<Rightarrow> bool" where
  "argumentOk cs callable ps t argument \<longleftrightarrow>
    (argumentNull argument = NonNull \<or> mayBeNull callable t) \<and>
    conversionQuality cs (parameterType (ps ! t)) (argumentType argument) \<noteq> None"

definition argumentCost :: "classStore \<Rightarrow> Callable \<Rightarrow> SigParameter list \<Rightarrow> nat \<Rightarrow> argumentInfo \<Rightarrow> int" where
  "argumentCost cs callable ps t argument =
    the (conversionQuality cs (parameterType (ps ! t)) (argumentType argument)) + nullPenalty callable t argument"

fun targetsOf :: "SigParameter list \<Rightarrow> nat \<Rightarrow> argumentInfo list \<Rightarrow> nat option list" where
  "targetsOf ps index [] = []"
| "targetsOf ps index (argument # arguments) = parameterFor ps index argument # targetsOf ps (index + 1) arguments"

definition matching :: "classStore \<Rightarrow> Callable \<Rightarrow> SigParameter list \<Rightarrow> argumentInfo list \<Rightarrow> nat list \<Rightarrow> bool" where
  "matching cs callable ps arguments ts \<longleftrightarrow>
    targetsOf ps 0 arguments = map Some ts \<and> distinct ts \<and>
    list_all2 (argumentOk cs callable ps) ts arguments \<and>
    list_all (\<lambda>i. i \<in> set ts \<or> HasDefault (ps ! i)) [0..<length ps]"

lemma parameterFor_less: "parameterFor ps index argument = Some t \<Longrightarrow> t < length ps"
  by (auto simp: parameterFor_def find_Some_iff split: if_splits)

lemma targetsOf_less: "targetsOf ps index arguments = map Some ts \<Longrightarrow> t \<in> set ts \<Longrightarrow> t < length ps"
  by (induction arguments arbitrary: index ts) (auto dest: parameterFor_less)

lemma targetsOf_length: "length (targetsOf ps index arguments) = length arguments"
  by (induction arguments arbitrary: index) auto

lemma assessArguments_iff:
  assumes "length assigned = length ps"
  shows "assessArguments cs callable ps received index arguments assigned cost = (cost', Inr assigned') \<longleftrightarrow>
    (\<exists>ts. targetsOf ps index arguments = map Some ts \<and> distinct ts \<and> (\<forall>t \<in> set ts. \<not> assigned ! t) \<and>
      list_all2 (argumentOk cs callable ps) ts arguments \<and>
      cost' = cost + sum_list (map2 (argumentCost cs callable ps) ts arguments) \<and>
      assigned' = foldl (\<lambda>as t. as[t := True]) assigned ts)"
  using assms
proof (induction arguments arbitrary: index assigned cost)
  case (Cons a arguments)
  show ?case
  proof (cases "parameterFor ps index a")
    case (Some t)
    have t: "t < length ps" using Some by (rule parameterFor_less)
    show ?thesis
    proof (cases "\<not> assigned ! t \<and> argumentOk cs callable ps t a")
      case True
      then obtain q where q: "conversionQuality cs (parameterType (ps ! t)) (argumentType a) = Some q"
        by (auto simp: argumentOk_def)
      have step: "assessArguments cs callable ps received index (a # arguments) assigned cost =
          assessArguments cs callable ps received (index + 1) arguments (assigned[t := True])
            (cost + argumentCost cs callable ps t a)"
        using True Some q by (auto simp: argumentOk_def argumentCost_def Let_def add.assoc)
      show ?thesis (is "_ \<longleftrightarrow> (\<exists>ts. ?P ts)")
      proof -
        have "(\<exists>ts. ?P ts) \<longleftrightarrow> (\<exists>ts. ?P (t # ts))"
          using Some by (auto simp: Cons_eq_map_conv)
        also have "\<dots> \<longleftrightarrow> (\<exists>ts. targetsOf ps (index + 1) arguments = map Some ts \<and> distinct ts \<and>
            (\<forall>t' \<in> set ts. \<not> assigned[t := True] ! t') \<and> list_all2 (argumentOk cs callable ps) ts arguments \<and>
            cost' = (cost + argumentCost cs callable ps t a) + sum_list (map2 (argumentCost cs callable ps) ts arguments) \<and>
            assigned' = foldl (\<lambda>as t. as[t := True]) (assigned[t := True]) ts)"
          using True Some t Cons.prems
          by (intro ex_cong1) (auto simp: nth_list_update dest: targetsOf_less)
        finally show ?thesis
          unfolding step using Cons.IH [of "assigned[t := True]" "index + 1" "cost + argumentCost cs callable ps t a"]
            Cons.prems by simp
      qed
    next
      case False
      then have "\<exists>reason. assessArguments cs callable ps received index (a # arguments) assigned cost = (cost, Inl reason)"
        using Some by (auto simp: argumentOk_def Let_def)
      then show ?thesis using False Some by (auto simp: Cons_eq_map_conv list_all2_Cons2)
    qed
  qed auto
qed auto

lemma foldl_assign:
  "length as = n \<Longrightarrow> (\<forall>t \<in> set ts. t < n) \<Longrightarrow>
   foldl (\<lambda>as t. as[t := True]) as ts = map (\<lambda>i. as ! i \<or> i \<in> set ts) [0..<n]"
proof (induction ts arbitrary: as)
  case Nil
  then show ?case by (auto intro: nth_equalityI)
next
  case (Cons t ts)
  then show ?case by (auto simp: nth_list_update intro!: nth_equalityI)
qed

lemma assessDefaults_iff:
  "length assigned = length ps \<Longrightarrow>
   assessDefaults ps assigned used = (used', None) \<longleftrightarrow>
     list_all2 (\<lambda>a p. a \<or> HasDefault p) assigned ps \<and> used' = used + int (length (filter Not assigned))"
proof (induction ps assigned used rule: assessDefaults.induct)
  case (1 p ps assigned rest used)
  then show ?case by auto
qed auto

lemma unassigned_count:
  assumes "distinct ts" "\<forall>t \<in> set ts. t < n"
  shows "length (filter Not (map (\<lambda>i. i \<in> set ts) [0..<n])) = n - length ts"
proof -
  have "length (filter Not (map (\<lambda>i. i \<in> set ts) [0..<n])) = card (set (filter (\<lambda>i. i \<notin> set ts) [0..<n]))"
    by (subst distinct_card) (simp_all add: filter_map comp_def)
  also have "set (filter (\<lambda>i. i \<notin> set ts) [0..<n]) = {..<n} - set ts" by auto
  also have "card \<dots> = n - card (set ts)" using assms(2) by (subst card_Diff_subset) auto
  finally show ?thesis using assms(1) by (simp add: distinct_card)
qed

lemma assess_iff:
  assumes "CallableSignature callable = Some (Signature ps r)"
  shows "(\<exists>reason. assessCallCandidate cs callable arguments = (score, reason, True)) \<longleftrightarrow>
    (\<exists>ts. matching cs callable ps arguments ts \<and>
      score = \<lparr>widenings = sum_list (map2 (argumentCost cs callable ps) ts arguments),
        defaults = int (length ps - length arguments)\<rparr>)"
    (is "?L \<longleftrightarrow> ?R")
proof -
  let ?as = "replicate (length ps) False"
  let ?start = "assessArguments cs callable ps (length arguments) 0 arguments ?as 0"
  have "?L \<longleftrightarrow> (\<exists>cost assigned used. ?start = (cost, Inr assigned) \<and> assessDefaults ps assigned 0 = (used, None)
      \<and> score = \<lparr>widenings = cost, defaults = used\<rparr>)"
    by (auto simp: assessCallCandidate_def assms split: prod.split sum.split option.split)
  also have "\<dots> \<longleftrightarrow> ?R"
  proof
    assume "\<exists>cost assigned used. ?start = (cost, Inr assigned) \<and> assessDefaults ps assigned 0 = (used, None)
      \<and> score = \<lparr>widenings = cost, defaults = used\<rparr>"
    then obtain cost assigned used where s: "?start = (cost, Inr assigned)" "assessDefaults ps assigned 0 = (used, None)"
      "score = \<lparr>widenings = cost, defaults = used\<rparr>" by blast
    obtain ts where ts: "targetsOf ps 0 arguments = map Some ts" "distinct ts"
      "list_all2 (argumentOk cs callable ps) ts arguments"
      "cost = sum_list (map2 (argumentCost cs callable ps) ts arguments)"
      "assigned = foldl (\<lambda>as t. as[t := True]) ?as ts"
      using s(1) by (subst (asm) assessArguments_iff) auto
    have less: "\<forall>t \<in> set ts. t < length ps" using targetsOf_less [OF ts(1)] by blast
    have assigned: "assigned = map (\<lambda>i. i \<in> set ts) [0..<length ps]"
      using foldl_assign [of ?as "length ps" ts] less ts(5) by (auto intro!: nth_equalityI)
    have "list_all2 (\<lambda>a p. a \<or> HasDefault p) assigned ps" "used = int (length (filter Not assigned))"
      using s(2) by (subst (asm) assessDefaults_iff; simp add: assigned)+
    moreover have "length (filter Not assigned) = length ps - length arguments"
      using unassigned_count [OF ts(2) less] list_all2_lengthD [OF ts(3)] by (simp add: assigned)
    ultimately have "matching cs callable ps arguments ts" "used = int (length ps - length arguments)"
      using ts(1-3) by (auto simp: matching_def assigned list_all2_conv_all_nth list_all_iff)
    then show ?R using s(3) ts(4) by blast
  next
    assume ?R
    then obtain ts where ts: "matching cs callable ps arguments ts"
      "score = \<lparr>widenings = sum_list (map2 (argumentCost cs callable ps) ts arguments),
        defaults = int (length ps - length arguments)\<rparr>" by blast
    let ?assigned = "map (\<lambda>i. i \<in> set ts) [0..<length ps]"
    have less: "\<forall>t \<in> set ts. t < length ps" using ts(1) targetsOf_less by (auto simp: matching_def)
    have assigned: "foldl (\<lambda>as t. as[t := True]) ?as ts = ?assigned"
      using foldl_assign [of ?as "length ps" ts] less by (auto intro!: nth_equalityI)
    have "?start = (sum_list (map2 (argumentCost cs callable ps) ts arguments), Inr ?assigned)"
      using ts(1) less by (subst assessArguments_iff) (auto simp: matching_def assigned intro!: exI [of _ ts])
    moreover have "assessDefaults ps ?assigned 0 = (int (length ps - length arguments), None)"
      using ts(1) unassigned_count [of ts "length ps"] less
      by (subst assessDefaults_iff)
        (auto simp: matching_def list_all2_conv_all_nth list_all_iff dest: list_all2_lengthD)
    ultimately show "\<exists>cost assigned used. ?start = (cost, Inr assigned) \<and> assessDefaults ps assigned 0 = (used, None)
      \<and> score = \<lparr>widenings = cost, defaults = used\<rparr>" using ts(2) by blast
  qed
  finally show ?thesis .
qed

text \<open>
  C17: applicability of a call. A candidate accepts a call exactly if its arguments, by position or by name,
  go to parameters of their own that take their types and their null states, and every other parameter has
  a default. Its score is then the sum of the costs of the arguments, with the number of defaults used.
\<close>

theorem call_applicability:
  "(\<exists>reason. assessCallCandidate cs callable arguments = (score, reason, True)) \<longleftrightarrow>
    (\<exists>ps r ts. CallableSignature callable = Some (Signature ps r) \<and> matching cs callable ps arguments ts \<and>
      score = \<lparr>widenings = sum_list (map2 (argumentCost cs callable ps) ts arguments),
        defaults = int (length ps - length arguments)\<rparr>)"
proof (cases "CallableSignature callable")
  case None
  then show ?thesis by (simp add: assessCallCandidate_def)
next
  case (Some s)
  then show ?thesis by (cases s) (simp add: assess_iff)
qed

subsection \<open>The best candidate\<close>

text \<open>The candidates no other one beats.\<close>

definition bestOnes :: "(Callable \<times> overloadScore) list \<Rightarrow> Callable list" where
  "bestOnes applicable =
    map fst (filter (\<lambda>(c, s). list_all (\<lambda>(d, t). \<not> betterThan t s) applicable) applicable)"

lemma betterThan_irrefl [simp]: "\<not> betterThan s s"
  by (simp add: betterThan_def)

lemma betterThan_trans: "betterThan s t \<Longrightarrow> betterThan t u \<Longrightarrow> betterThan s u"
  by (auto simp: betterThan_def split: if_splits)

lemma betterThan_total: "betterThan s t \<or> betterThan t s \<or> s = t"
  by (cases s; cases t) (auto simp: betterThan_def)

lemma betterThan_asym: "betterThan s t \<Longrightarrow> \<not> betterThan t s"
  by (auto simp: betterThan_def split: if_splits)

lemma not_better_trans: "\<not> betterThan s t \<Longrightarrow> \<not> betterThan t u \<Longrightarrow> \<not> betterThan s u"
  using betterThan_trans betterThan_total by metis

lemma equalScore_iff [simp]: "equalScore s t \<longleftrightarrow> s = t"
  by (auto simp: equalScore_def)

definition bestOf :: "overloadScore \<Rightarrow> overloadScore list \<Rightarrow> overloadScore" where
  "bestOf = foldl (\<lambda>best score. if betterThan score best then score else best)"

lemma bestOf_least: "bestOf s ss \<in> set (s # ss) \<and> (\<forall>t \<in> set (s # ss). \<not> betterThan t (bestOf s ss))"
proof (induction ss arbitrary: s)
  case (Cons t ss)
  let ?s = "if betterThan t s then t else s"
  have "bestOf s (t # ss) = bestOf ?s ss" by (simp add: bestOf_def)
  moreover have "\<not> betterThan s ?s" "\<not> betterThan t ?s" using betterThan_asym by auto
  moreover have "\<not> betterThan ?s (bestOf ?s ss)" using Cons.IH [of ?s] by simp
  ultimately have "\<not> betterThan s (bestOf s (t # ss))" "\<not> betterThan t (bestOf s (t # ss))"
    using not_better_trans by metis+
  then show ?case using Cons.IH [of ?s] \<open>bestOf s (t # ss) = bestOf ?s ss\<close> by (auto split: if_splits)
qed (simp add: bestOf_def)

lemma filter_best:
  assumes "b \<in> snd ` set app" "\<forall>t \<in> snd ` set app. \<not> betterThan t b"
  shows "bestOnes app = map fst (filter (\<lambda>(c, s). s = b) app)"
proof -
  have "list_all (\<lambda>(d, t). \<not> betterThan t s) app \<longleftrightarrow> s = b" if s: "(c, s) \<in> set app" for c s
  proof
    obtain d where "(d, b) \<in> set app" using assms(1) by auto
    moreover assume "list_all (\<lambda>(d, t). \<not> betterThan t s) app"
    ultimately have "\<not> betterThan b s" by (auto simp: list_all_iff)
    moreover have "\<not> betterThan s b" using s assms(2) by (metis image_eqI snd_conv)
    ultimately show "s = b" using betterThan_total by blast
  next
    assume "s = b"
    then show "list_all (\<lambda>(d, t). \<not> betterThan t s) app" using assms(2) by (fastforce simp: list_all_iff)
  qed
  then show ?thesis unfolding bestOnes_def by (intro arg_cong [of _ _ "map fst"] filter_cong) auto
qed

lemma finalists_best: "finalists app = bestOnes app"
proof (cases app)
  case (Cons first rest)
  have fold: "foldl (\<lambda>best (_, score). if betterThan score best then score else best) b rest = bestOf b (map snd rest)" for b
    by (simp add: bestOf_def foldl_map case_prod_unfold)
  have "bestOnes app = map fst (filter (\<lambda>(c, s). s = bestOf (snd first) (map snd rest)) app)"
    using bestOf_least [of "snd first" "map snd rest"] Cons by (intro filter_best) auto
  then show ?thesis by (simp add: finalists_def Cons fold Let_def)
qed (simp add: finalists_def bestOnes_def)

lemma bestOnes_ne: "app \<noteq> [] \<Longrightarrow> bestOnes app \<noteq> []"
proof -
  assume "app \<noteq> []"
  then obtain first rest where app: "app = first # rest" by (cases app) auto
  let ?b = "bestOf (snd first) (map snd rest)"
  have b: "?b \<in> snd ` set app" "\<forall>t \<in> snd ` set app. \<not> betterThan t ?b"
    using bestOf_least [of "snd first" "map snd rest"] by (auto simp: app)
  then obtain c where "(c, ?b) \<in> set app" by auto
  then show ?thesis unfolding filter_best [OF b] by (force simp: filter_empty_conv)
qed

lemma bestOnes_mset: "mset app = mset app' \<Longrightarrow> mset (bestOnes app) = mset (bestOnes app')"
proof -
  assume app: "mset app = mset app'"
  then have "list_all P app = list_all P app'" for P by (metis list_all_iff mset_eq_setD)
  with app show ?thesis unfolding bestOnes_def by (simp only: mset_map mset_filter)
qed

text \<open>The one candidate of a list that has only one.\<close>

definition single :: "'a list \<Rightarrow> 'a option" where
  "single xs = (case xs of [x] \<Rightarrow> Some x | _ \<Rightarrow> None)"

lemma single_iff: "single xs = Some x \<longleftrightarrow> mset xs = {#x#}"
  by (auto simp: single_def split: list.splits)

lemma single_mset: "mset xs = mset ys \<Longrightarrow> single xs = single ys"
  by (metis single_iff option.exhaust)

lemma resolve_single:
  "fst (resolveOverloadCall cs overloads arguments) =
     single (bestOnes (applicableCandidates cs arguments (Candidates overloads)))"
  "snd (snd (resolveOverloadCall cs overloads arguments)) = None \<longleftrightarrow>
     fst (resolveOverloadCall cs overloads arguments) \<noteq> None"
  by (auto simp: resolveOverloadCall_def finalists_best single_def bestOnes_def Let_def split: list.split)

lemma applicable_mset:
  "mset candidates = mset candidates' \<Longrightarrow>
   mset (applicableCandidates cs arguments candidates) = mset (applicableCandidates cs arguments candidates')"
  by (simp add: applicableCandidates_def)

subsection \<open>Function values\<close>

definition valueCandidates ::
  "classStore \<Rightarrow> Signature option \<Rightarrow> Callable list \<Rightarrow> (Callable \<times> overloadScore) list" where
  "valueCandidates cs expected candidates =
    List.map_filter (\<lambda>c. map_option (Pair c) (functionValueScore cs (CallableSignature c) expected)) candidates"

lemma valueCandidates_mset:
  "mset candidates = mset candidates' \<Longrightarrow>
   mset (valueCandidates cs expected candidates) = mset (valueCandidates cs expected candidates')"
  unfolding valueCandidates_def List.map_filter_def by simp

lemma select_fold:
  assumes "\<forall>s \<in> snd ` set (valueCandidates cs expected candidates). betterThan s worstScore"
  shows "foldl (selectStep cs expected) ([], worstScore) candidates =
    (bestOnes (valueCandidates cs expected candidates),
     bestOf worstScore (map snd (valueCandidates cs expected candidates)))"
  using assms
proof (induction candidates rule: rev_induct)
  case Nil
  then show ?case by (simp add: valueCandidates_def List.map_filter_def bestOnes_def bestOf_def)
next
  case (snoc c candidates)
  let ?app = "valueCandidates cs expected candidates" and ?b = "bestOf worstScore (map snd (valueCandidates cs expected candidates))"
  have IH: "foldl (selectStep cs expected) ([], worstScore) candidates = (bestOnes ?app, ?b)"
    using snoc by (simp add: valueCandidates_def List.map_filter_def)
  show ?case
  proof (cases "functionValueScore cs (CallableSignature c) expected")
    case None
    then have "valueCandidates cs expected (candidates @ [c]) = ?app" by (simp add: valueCandidates_def List.map_filter_def)
    moreover have "selectStep cs expected x c = x" for x using None by (simp add: selectStep_def)
    ultimately show ?thesis using IH by simp
  next
    case (Some s)
    then have app: "valueCandidates cs expected (candidates @ [c]) = ?app @ [(c, s)]"
      by (simp add: valueCandidates_def List.map_filter_def)
    have worst: "betterThan s worstScore" "\<forall>t \<in> snd ` set ?app. betterThan t worstScore" using snoc.prems app by auto
    have b: "?b = worstScore \<or> ?b \<in> snd ` set ?app" "\<forall>t \<in> snd ` set ?app. \<not> betterThan t ?b" "\<not> betterThan worstScore ?b"
      using bestOf_least [of worstScore "map snd ?app"] by auto
    have next_best: "bestOf worstScore (map snd (?app @ [(c, s)])) = (if betterThan s ?b then s else ?b)"
      by (simp add: bestOf_def)
    have step: "foldl (selectStep cs expected) ([], worstScore) (candidates @ [c]) = selectStep cs expected (bestOnes ?app, ?b) c"
      by (simp add: IH)
    consider "betterThan s ?b" | "s = ?b" | "betterThan ?b s" using betterThan_total by blast
    then show ?thesis
    proof cases
      case 1
      have "\<forall>t \<in> snd ` set ?app. \<not> betterThan t s" using b(2) betterThan_trans [OF _ 1] by blast
      then have "bestOnes (?app @ [(c, s)]) = map fst (filter (\<lambda>(c, t). t = s) (?app @ [(c, s)]))"
        by (intro filter_best) auto
      moreover have "filter (\<lambda>(c, t). t = s) ?app = []" using b(2) 1 by (force simp: filter_empty_conv)
      ultimately show ?thesis unfolding step using Some 1 next_best app by (simp add: selectStep_def)
    next
      case 2
      then have "?b \<in> snd ` set ?app" using b(1) worst(1) by auto
      then have "bestOnes ?app = map fst (filter (\<lambda>(c, t). t = ?b) ?app)" using b(2) by (intro filter_best) auto
      moreover have "bestOnes (?app @ [(c, s)]) = map fst (filter (\<lambda>(c, t). t = ?b) (?app @ [(c, s)]))"
        using b(2) 2 by (intro filter_best) auto
      ultimately show ?thesis unfolding step using Some 2 next_best app by (simp add: selectStep_def)
    next
      case 3
      then have "?b \<in> snd ` set ?app" using b(1) worst(1) betterThan_trans [of ?b s worstScore] betterThan_irrefl by metis
      then have "bestOnes ?app = map fst (filter (\<lambda>(c, t). t = ?b) ?app)" using b(2) by (intro filter_best) auto
      moreover have "bestOnes (?app @ [(c, s)]) = map fst (filter (\<lambda>(c, t). t = ?b) (?app @ [(c, s)]))"
        using b(2) betterThan_asym [OF 3] \<open>?b \<in> snd ` set ?app\<close> by (intro filter_best) auto
      moreover have "s \<noteq> ?b" "\<not> betterThan s ?b" using 3 betterThan_asym by auto
      ultimately show ?thesis unfolding step using Some next_best app by (simp add: selectStep_def)
    qed
  qed
qed

lemma select_single:
  assumes "\<forall>s \<in> snd ` set (valueCandidates cs expected (Candidates overloads)). betterThan s worstScore"
  shows "fst (selectFunctionValue cs overloads expected) = single (bestOnes (valueCandidates cs expected (Candidates overloads)))"
  unfolding selectFunctionValue_def select_fold [OF assms] by (simp add: single_def split: list.split)

lemma select_report:
  "snd (selectFunctionValue cs overloads expected) = None \<longleftrightarrow>
     fst (selectFunctionValue cs overloads expected) \<noteq> None"
  by (simp add: selectFunctionValue_def split: list.split)

subsection \<open>Class protocols\<close>

definition protocolApplicable ::
  "classStore \<Rightarrow> argumentInfo \<Rightarrow> Callable list \<Rightarrow> (Callable \<times> overloadScore) list" where
  "protocolApplicable cs argument candidates =
    List.map_filter (\<lambda>c. map_option (Pair c) (assessProtocol cs argument c)) candidates"

lemma protocolApplicable_mset:
  "mset candidates = mset candidates' \<Longrightarrow>
   mset (protocolApplicable cs argument candidates) = mset (protocolApplicable cs argument candidates')"
  unfolding protocolApplicable_def List.map_filter_def by simp

lemma protocol_single:
  "fst (resolveProtocolOneArg cs name candidates argument) =
     single (bestOnes (protocolApplicable cs argument candidates))"
  "snd (resolveProtocolOneArg cs name candidates argument) = None \<longleftrightarrow>
     fst (resolveProtocolOneArg cs name candidates argument) \<noteq> None"
  unfolding resolveProtocolOneArg_def protocolApplicable_def [symmetric]
  by (auto simp: finalists_best single_def bestOnes_def Let_def split: list.split)

text \<open>
  C18: overload resolution. The candidate chosen for a call is the only applicable one that no other
  beats, fewer widenings first and then fewer defaults; without such a one the call is reported, and
  a chosen candidate is never accompanied by a report. The order of the declarations does not matter.
  The same holds of the operand of a Class Protocol Method among the candidates that take one
  parameter, and of a Function value in a callback context, as long as the scores are below the
  largest \<open>int\<close>, from which that search starts.
\<close>

theorem resolution_selects_the_unique_best:
  assumes "mset (Candidates overloads') = mset (Candidates overloads)"
    and "list_all (\<lambda>(c, s). betterThan s worstScore) (valueCandidates cs expected (Candidates overloads))"
  shows "fst (resolveOverloadCall cs overloads arguments) =
      single (bestOnes (applicableCandidates cs arguments (Candidates overloads))) \<and>
    (snd (snd (resolveOverloadCall cs overloads arguments)) = None \<longleftrightarrow>
      fst (resolveOverloadCall cs overloads arguments) \<noteq> None) \<and>
    fst (resolveOverloadCall cs overloads' arguments) = fst (resolveOverloadCall cs overloads arguments) \<and>
    fst (resolveProtocolOneArg cs name (Candidates overloads) argument) =
      single (bestOnes (protocolApplicable cs argument (Candidates overloads))) \<and>
    (snd (resolveProtocolOneArg cs name (Candidates overloads) argument) = None \<longleftrightarrow>
      fst (resolveProtocolOneArg cs name (Candidates overloads) argument) \<noteq> None) \<and>
    fst (resolveProtocolOneArg cs name (Candidates overloads') argument) =
      fst (resolveProtocolOneArg cs name (Candidates overloads) argument) \<and>
    fst (selectFunctionValue cs overloads expected) =
      single (bestOnes (valueCandidates cs expected (Candidates overloads))) \<and>
    (snd (selectFunctionValue cs overloads expected) = None \<longleftrightarrow>
      fst (selectFunctionValue cs overloads expected) \<noteq> None) \<and>
    fst (selectFunctionValue cs overloads' expected) = fst (selectFunctionValue cs overloads expected)"
proof -
  have best: "\<forall>s \<in> snd ` set (valueCandidates cs expected (Candidates overloads)). betterThan s worstScore"
    using assms(2) by (auto simp: list_all_iff)
  have same: "mset (valueCandidates cs expected (Candidates overloads')) =
      mset (valueCandidates cs expected (Candidates overloads))"
    by (rule valueCandidates_mset [OF assms(1)])
  then have "\<forall>s \<in> snd ` set (valueCandidates cs expected (Candidates overloads')). betterThan s worstScore"
    using best mset_eq_setD [OF same] by simp
  then show ?thesis
    using resolve_single [of cs overloads arguments] resolve_single(1) [of cs overloads' arguments]
      select_single [OF best] select_single [of cs expected overloads']
      single_mset [OF bestOnes_mset [OF applicable_mset [OF assms(1), of cs arguments]]]
      single_mset [OF bestOnes_mset [OF same]]
      protocol_single [of cs name "Candidates overloads" argument]
      protocol_single(1) [of cs name "Candidates overloads'" argument]
      single_mset [OF bestOnes_mset [OF protocolApplicable_mset [OF assms(1), of cs argument]]]
      select_report [of cs overloads expected]
    by simp
qed

text \<open>Two candidates, for an \<open>Int\<close> and for a \<open>Real\<close>, and a call with an \<open>Int\<close>.\<close>

definition takes :: "TypeKind \<Rightarrow> Callable" where
  "takes kind = \<lparr>CallableSignature = Some (Signature [SigParameter ''x'' (Some (BasicType kind)) False]
      (Some (BasicType NothingKind))), ParameterNull = [NonNull], ReturnNull = NonNull\<rparr>"

definition intArgument :: argumentInfo where
  "intArgument = \<lparr>argumentName = '''', argumentType = Some (BasicType IntKind), argumentNull = NonNull\<rparr>"

definition intCallback :: Signature where
  "intCallback = Signature [SigParameter '''' (Some (BasicType IntKind)) False] (Some (BasicType NothingKind))"

theorem resolution_selects_the_unique_best_witness:
  "fst (resolveOverloadCall [] \<lparr>SetName = ''f'', Candidates = [takes IntKind, takes RealKind]\<rparr> [intArgument])
     = Some (takes IntKind)
   \<and> fst (resolveProtocolOneArg [] ''CAdd'' [takes IntKind, takes RealKind] intArgument) = Some (takes IntKind)
   \<and> fst (selectFunctionValue [] \<lparr>SetName = ''f'', Candidates = [takes IntKind, takes RealKind]\<rparr> (Some intCallback))
     = Some (takes IntKind)"
proof -
  have score: "assessCallCandidate [] (takes IntKind) [intArgument] = (\<lparr>widenings = 0, defaults = 0\<rparr>, ''applicable'', True)"
    "assessCallCandidate [] (takes RealKind) [intArgument] = (\<lparr>widenings = 1, defaults = 0\<rparr>, ''applicable'', True)"
    by (simp_all add: takes_def intArgument_def assessCallCandidate_def parameterFor_def nullPenalty_def mayBeNull_def
        conversionQuality.simps Equal_def Assignable_def IsInvalid_def)
  have "functionValueScore [] (CallableSignature (takes IntKind)) (Some intCallback) = Some \<lparr>widenings = 0, defaults = 0\<rparr>"
    "functionValueScore [] (CallableSignature (takes RealKind)) (Some intCallback) = Some \<lparr>widenings = 1, defaults = 0\<rparr>"
    by (simp_all add: takes_def intCallback_def functionValueScore.simps qualityLoop.simps
        conversionQuality.simps Equal_def Assignable_def IsInvalid_def)
  then have candidates: "valueCandidates [] (Some intCallback) [takes RealKind, takes IntKind] =
      [(takes RealKind, \<lparr>widenings = 1, defaults = 0\<rparr>), (takes IntKind, \<lparr>widenings = 0, defaults = 0\<rparr>)]"
    by (simp add: valueCandidates_def List.map_filter_def)
  have operand: "protocolApplicable [] intArgument [takes RealKind, takes IntKind] =
      [(takes RealKind, \<lparr>widenings = 1, defaults = 0\<rparr>), (takes IntKind, \<lparr>widenings = 0, defaults = 0\<rparr>)]"
    by (simp add: protocolApplicable_def List.map_filter_def assessProtocol_def parameterNullAt_def takes_def
        intArgument_def conversionQuality.simps Equal_def Assignable_def IsInvalid_def)
  note best = resolution_selects_the_unique_best
    [of "\<lparr>SetName = ''f'', Candidates = [takes IntKind, takes RealKind]\<rparr>"
      "\<lparr>SetName = ''f'', Candidates = [takes RealKind, takes IntKind]\<rparr>" "[]" "Some intCallback" "[intArgument]"
      "''CAdd''" intArgument]
  show ?thesis
    using best by (simp add: candidates operand score worstScore_def applicableCandidates_def bestOnes_def single_def betterThan_def)
qed

end
