(* ===== verification/ControlFlow.thy ===== *)
theory ControlFlow
  imports Ast
begin

text \<open>
  Control flow in the semantic analyzer (\<open>internal/semantic/statement.go\<close>, \<open>callable.go\<close>): whether a
  statement or block returns on every path, the check that a Function does, and the check that \<open>break\<close>
  and \<open>continue\<close> stand in a loop. Both are the parts of the analysis of statements that do not read
  types: the field \<open>returns\<close> of \<open>statementOutcome\<close>, and the reports under \<open>loopDepth\<close>. The types, the
  null states and the reports about them are left out.
\<close>

subsection \<open>The field \<open>returns\<close>\<close>

primrec stmtReturns :: "Stmt \<Rightarrow> bool"
    and blockReturns :: "Block \<Rightarrow> bool"
    and branchReturns :: "ConditionalBlock \<Rightarrow> bool"
    and conditionReturns :: "StateCondition \<Rightarrow> bool"
    and clauseReturns :: "ExceptClause \<Rightarrow> bool" where
  "stmtReturns (BadStmt s) = False"
| "stmtReturns (ExprStmt s e) = False"
| "stmtReturns (VariableDecl s t n ms ty i globalOnly inferred) = False"
| "stmtReturns (AssignmentStmt s t oper v) = False"
| "stmtReturns (IncDecStmt s t oper p) = False"
| "stmtReturns (ReturnStmt s v) = True"
| "stmtReturns (TossStmt s v) = True"
| "stmtReturns (BreakStmt s) = True"
| "stmtReturns (ContinueStmt s) = True"
| "stmtReturns (IfStmt s branches otherwise) =
    (list_all id (map branchReturns branches) \<and> case_option False id (map_option blockReturns otherwise))"
| "stmtReturns (WhileStmt s c body) = False"
| "stmtReturns (UntilStmt s c body) = False"
| "stmtReturns (ForStmt s n ty e body) = False"
| "stmtReturns (StateStmt s v conditions) =
    (list_all id (map conditionReturns conditions)
     \<and> list_ex (\<lambda>c. case c of StateCondition s m fallback body \<Rightarrow> fallback) conditions)"
| "stmtReturns (AttemptStmt s body excepts ultimately) =
    (case_option False id (map_option blockReturns ultimately)
     \<or> blockReturns body \<and> list_all id (map clauseReturns excepts))"
| "stmtReturns (BringStmt s a b c d ns) = False"
| "stmtReturns (RequireStmt s p t l) = False"
| "stmtReturns (FunctionDecl s n ms fl ps ty cs body) = False"
| "stmtReturns (ClassDecl s n ms p a members) = False"
| "stmtReturns (StructureDecl s ps body) = False"
| "blockReturns (Block s statements) = list_ex id (map stmtReturns statements)"
| "branchReturns (ConditionalBlock s c body) = blockReturns body"
| "conditionReturns (StateCondition s m fallback body) = blockReturns body"
| "clauseReturns (ExceptClause s ty n body) = blockReturns body"

definition codeControlContext :: string where "codeControlContext = ''SEM021''"

type_synonym controlReport = "Span \<times> string \<times> string"


subsection \<open>The loop a \<open>break\<close> or a \<open>continue\<close> is for\<close>

text \<open>
  The reports about \<open>break\<close> and \<open>continue\<close> in the order of the analysis; the first argument is
  \<open>loopDepth\<close>. A declaration of a Function in a block is analyzed where it stands, and a Class by its
  structures and then its methods.
\<close>

definition isStructure :: "Stmt \<Rightarrow> bool" where
  "isStructure statement = (case statement of StructureDecl s ps body \<Rightarrow> True | _ \<Rightarrow> False)"

definition isFunction :: "Stmt \<Rightarrow> bool" where
  "isFunction statement = (case statement of FunctionDecl s n ms fl ps ty cs body \<Rightarrow> True | _ \<Rightarrow> False)"

definition outsideLoop :: "string \<Rightarrow> Span \<Rightarrow> nat \<Rightarrow> controlReport list" where
  "outsideLoop word span loopDepth =
    (if loopDepth = 0 then [(span, codeControlContext, word @ '' is valid only inside a loop'')] else [])"

primrec stmtReports :: "Stmt \<Rightarrow> nat \<Rightarrow> controlReport list"
    and blockReports :: "Block \<Rightarrow> nat \<Rightarrow> controlReport list"
    and branchReports :: "ConditionalBlock \<Rightarrow> nat \<Rightarrow> controlReport list"
    and conditionReports :: "StateCondition \<Rightarrow> nat \<Rightarrow> controlReport list"
    and clauseReports :: "ExceptClause \<Rightarrow> nat \<Rightarrow> controlReport list" where
  "stmtReports (BadStmt s) d = []"
| "stmtReports (ExprStmt s e) d = []"
| "stmtReports (VariableDecl s t n ms ty i globalOnly inferred) d = []"
| "stmtReports (AssignmentStmt s t oper v) d = []"
| "stmtReports (IncDecStmt s t oper p) d = []"
| "stmtReports (ReturnStmt s v) d = []"
| "stmtReports (TossStmt s v) d = []"
| "stmtReports (BreakStmt s) d = outsideLoop ''break'' s d"
| "stmtReports (ContinueStmt s) d = outsideLoop ''continue'' s d"
| "stmtReports (IfStmt s branches otherwise) d =
    concat (map (\<lambda>f. f d) (map branchReports branches)) @ case_option [] (\<lambda>f. f d) (map_option blockReports otherwise)"
| "stmtReports (WhileStmt s c body) d = blockReports body (d + 1)"
| "stmtReports (UntilStmt s c body) d = blockReports body (d + 1)"
| "stmtReports (ForStmt s n ty e body) d = blockReports body (d + 1)"
| "stmtReports (StateStmt s v conditions) d = concat (map (\<lambda>f. f d) (map conditionReports conditions))"
| "stmtReports (AttemptStmt s body excepts ultimately) d =
    blockReports body d @ concat (map (\<lambda>f. f d) (map clauseReports excepts))
    @ case_option [] (\<lambda>f. f d) (map_option blockReports ultimately)"
| "stmtReports (BringStmt s a b c e ns) d = []"
| "stmtReports (RequireStmt s p t l) d = []"
| "stmtReports (FunctionDecl s n ms fl ps ty cs body) d = blockReports body d"
| "stmtReports (ClassDecl s n ms p a members) d =
    concat (map (\<lambda>(structure, method, f). if structure then f d else [])
      (map (\<lambda>m. (isStructure m, isFunction m, stmtReports m)) members))
    @ concat (map (\<lambda>(structure, method, f). if method then f d else [])
      (map (\<lambda>m. (isStructure m, isFunction m, stmtReports m)) members))"
| "stmtReports (StructureDecl s ps body) d = case_option [] (\<lambda>f. f d) (map_option blockReports body)"
| "blockReports (Block s statements) d = concat (map (\<lambda>f. f d) (map stmtReports statements))"
| "branchReports (ConditionalBlock s c body) d = blockReports body d"
| "conditionReports (StateCondition s m fallback body) d = blockReports body d"
| "clauseReports (ExceptClause s ty n body) d = blockReports body d"

subsection \<open>How statements complete\<close>

text \<open>
  The meaning of the statements as far as control goes: any condition may hold or not, any expression may
  raise, a loop runs any number of times, a handler may or may not take an error. A declaration of a
  Function or a Class runs none of its code.
\<close>

datatype completion = Normally | Returns | Tosses | Breaks | Continues

definition blockStatements :: "Block \<Rightarrow> Stmt list" where
  "blockStatements block = (case block of Block s statements \<Rightarrow> statements)"

inductive completes :: "Stmt \<Rightarrow> completion \<Rightarrow> bool"
  and runs :: "Stmt list \<Rightarrow> completion \<Rightarrow> bool" where
  bad: "completes (BadStmt s) Normally"
| expr: "c \<in> {Normally, Tosses} \<Longrightarrow> completes (ExprStmt s e) c"
| var: "c \<in> {Normally, Tosses} \<Longrightarrow> completes (VariableDecl s t n ms ty i globalOnly inferred) c"
| assignment: "c \<in> {Normally, Tosses} \<Longrightarrow> completes (AssignmentStmt s t oper v) c"
| incDec: "c \<in> {Normally, Tosses} \<Longrightarrow> completes (IncDecStmt s t oper p) c"
| return: "c \<in> {Returns, Tosses} \<Longrightarrow> completes (ReturnStmt s v) c"
| toss: "completes (TossStmt s v) Tosses"
| breaks: "completes (BreakStmt s) Breaks"
| continues: "completes (ContinueStmt s) Continues"
| if_raises: "completes (IfStmt s branches otherwise) Tosses"
| if_branch: "ConditionalBlock bs cond body \<in> set branches \<Longrightarrow> runs (blockStatements body) c \<Longrightarrow>
    completes (IfStmt s branches otherwise) c"
| if_none: "completes (IfStmt s branches None) Normally"
| if_else: "runs (blockStatements body) c \<Longrightarrow> completes (IfStmt s branches (Some body)) c"
| while_ends: "c \<in> {Normally, Tosses} \<Longrightarrow> completes (WhileStmt s cond body) c"
| while_leaves: "runs (blockStatements body) c \<Longrightarrow> c \<in> {Returns, Tosses} \<Longrightarrow> completes (WhileStmt s cond body) c"
| until_ends: "runs (blockStatements body) c' \<Longrightarrow> c' \<in> {Normally, Breaks, Continues} \<Longrightarrow> c \<in> {Normally, Tosses} \<Longrightarrow>
    completes (UntilStmt s cond body) c"
| until_leaves: "runs (blockStatements body) c \<Longrightarrow> c \<in> {Returns, Tosses} \<Longrightarrow> completes (UntilStmt s cond body) c"
| for_ends: "c \<in> {Normally, Tosses} \<Longrightarrow> completes (ForStmt s n ty e body) c"
| for_leaves: "runs (blockStatements body) c \<Longrightarrow> c \<in> {Returns, Tosses} \<Longrightarrow> completes (ForStmt s n ty e body) c"
| state_raises: "completes (StateStmt s v conditions) Tosses"
| state_condition: "StateCondition bs m fallback body \<in> set conditions \<Longrightarrow> runs (blockStatements body) c \<Longrightarrow>
    completes (StateStmt s v conditions) c"
| state_none: "\<not> list_ex (\<lambda>c. case c of StateCondition bs m fallback body \<Rightarrow> fallback) conditions \<Longrightarrow>
    completes (StateStmt s v conditions) Normally"
| attempt: "runs (blockStatements body) c \<Longrightarrow> completes (AttemptStmt s body excepts None) c"
| attempt_handled: "runs (blockStatements body) Tosses \<Longrightarrow> ExceptClause es ty n handler \<in> set excepts \<Longrightarrow>
    runs (blockStatements handler) c \<Longrightarrow> completes (AttemptStmt s body excepts None) c"
| ultimately_passes: "completes (AttemptStmt s body excepts None) c \<Longrightarrow> runs (blockStatements final) Normally \<Longrightarrow>
    completes (AttemptStmt s body excepts (Some final)) c"
| ultimately_overrides: "runs (blockStatements final) c \<Longrightarrow> c \<noteq> Normally \<Longrightarrow>
    completes (AttemptStmt s body excepts (Some final)) c"
| bring: "c \<in> {Normally, Tosses} \<Longrightarrow> completes (BringStmt s a b g e ns) c"
| require: "completes (RequireStmt s p t l) Normally"
| function_declared: "completes (FunctionDecl s n ms fl ps ty cs body) Normally"
| class_declared: "completes (ClassDecl s n ms p a members) Normally"
| structure_declared: "completes (StructureDecl s ps sbody) Normally"
| runs_nothing: "runs [] Normally"
| runs_on: "completes st Normally \<Longrightarrow> runs sts c \<Longrightarrow> runs (st # sts) c"
| runs_stops: "completes st c \<Longrightarrow> c \<noteq> Normally \<Longrightarrow> runs (st # sts) c"

inductive_cases runs_single: "runs [st] c"






definition startPosition :: Position where
  "startPosition = \<lparr>Offset = 0, Line = 1, Column = 1\<rparr>"

definition startSpan :: Span where
  "startSpan = NewSpan 1 startPosition startPosition"



text \<open>
  The count of loops is kept when the analysis enters a Function declared in a loop, so a \<open>break\<close> in its
  body passes the check although no loop of the Function encloses it.
\<close>

definition jumpingBody :: Block where
  "jumpingBody = Block startSpan [BreakStmt startSpan]"

lemma local_function_breaks:
  "stmtReports (WhileStmt startSpan (BadExpr startSpan) (Block startSpan
     [FunctionDecl startSpan ''f'' [] FunctionBase [] ty [] jumpingBody])) 0 = []
   \<and> runs (blockStatements jumpingBody) Breaks"
  by (auto simp: jumpingBody_def blockStatements_def outsideLoop_def intro: runs_stops breaks)

end
