(* ===== verification/Constant.thy ===== *)
theory Constant
  imports Ast "HOL-Library.Signed_Division"
begin

text \<open>
  Constant expressions in the semantic analyzer (\<open>internal/semantic/constant.go\<close>): evaluation of literals,
  operators and references to Constants, with the values of Constants stored at their symbols and a stack
  of the Constants under evaluation.

  A value is a datatype; the fields the Go struct leaves unset have no counterpart. Integers are unbounded,
  like \<open>big.Int\<close>. A symbol is an index into a store, and \<open>memo\<close> is the field \<open>ConstValue\<close> of every symbol.
  What the code uses of \<open>float64\<close>, \<open>strconv.ParseFloat\<close>, \<open>big.Float\<close> and \<open>math.Pow\<close> is the record \<open>realOps\<close>.
  The in-place negation works on values nothing else refers to: every value that is stored is copied.
\<close>

subsection \<open>Data\<close>

datatype 'r constantValue = ConstInt int bool | ConstReal 'r | ConstText string | ConstBool bool

datatype constFailure = constNotExpression | constCycle | constInvalid

record 'r realOps =
  realOfText :: "string \<Rightarrow> 'r option"
  realIsInf :: "'r \<Rightarrow> bool"
  realOfInt :: "int \<Rightarrow> 'r"
  realNegate :: "'r \<Rightarrow> 'r"
  realAdd :: "'r \<Rightarrow> 'r \<Rightarrow> 'r"
  realSub :: "'r \<Rightarrow> 'r \<Rightarrow> 'r"
  realMul :: "'r \<Rightarrow> 'r \<Rightarrow> 'r"
  realDiv :: "'r \<Rightarrow> 'r \<Rightarrow> 'r"
  realPow :: "'r \<Rightarrow> 'r \<Rightarrow> 'r"
  realLess :: "'r \<Rightarrow> 'r \<Rightarrow> bool"
  realLeq :: "'r \<Rightarrow> 'r \<Rightarrow> bool"
  realEqual :: "'r \<Rightarrow> 'r \<Rightarrow> bool"

text \<open>What evaluation reads of a symbol: the Constant modifier and the initializer of its declaration.\<close>

record constSymbol =
  SymbolConstant :: bool
  SymbolInitializer :: "Expr option"

text \<open>
  The symbol an identifier is resolved to, in \<open>ResolvedSymbols\<close> or in the scope of the module, and the
  values symbols of other modules and of the standard library have from the start.
\<close>

record 'r constEnv =
  resolvedSymbol :: "Span \<Rightarrow> string \<Rightarrow> nat option"
  constSymbols :: "constSymbol list"
  givenValue :: "nat \<Rightarrow> 'r constantValue option"
  reals :: "'r realOps"

definition constSymbolAt :: "'r constEnv \<Rightarrow> nat \<Rightarrow> constSymbol" where
  "constSymbolAt E x =
    (if x < length (constSymbols E) then constSymbols E ! x
     else \<lparr>SymbolConstant = False, SymbolInitializer = None\<rparr>)"

type_synonym 'r evaluated = "constFailure + 'r constantValue"

definition fitsInt :: "'r constantValue \<Rightarrow> bool" where
  "fitsInt value = (case value of ConstInt i overflow \<Rightarrow> \<not> overflow \<and> - (2 ^ 63) \<le> i \<and> i \<le> 2 ^ 63 - 1 | _ \<Rightarrow> False)"

subsection \<open>Literals\<close>

definition withoutUnderscores :: "string \<Rightarrow> string" where
  "withoutUnderscores s = filter (\<lambda>c. c \<noteq> CHR ''_'') s"

definition decimalDigit :: "char \<Rightarrow> int option" where
  "decimalDigit c = (let n = of_char c :: nat in if 48 \<le> n \<and> n \<le> 57 then Some (int n - 48) else None)"

fun decimalDigits :: "int \<Rightarrow> string \<Rightarrow> int option" where
  "decimalDigits n [] = Some n"
| "decimalDigits n (c # cs) = (case decimalDigit c of None \<Rightarrow> None | Some d \<Rightarrow> decimalDigits (10 * n + d) cs)"

text \<open>\<open>big.Int.SetString\<close> in base ten: an optional sign and at least one digit.\<close>

definition SetString :: "string \<Rightarrow> int option" where
  "SetString s =
    (case s of
       [] \<Rightarrow> None
     | c # cs \<Rightarrow>
         if c = CHR ''-'' then (if cs = [] then None else map_option uminus (decimalDigits 0 cs))
         else if c = CHR ''+'' then (if cs = [] then None else decimalDigits 0 cs)
         else decimalDigits 0 (c # cs))"

definition literalConstant :: "'r realOps \<Rightarrow> LiteralKind \<Rightarrow> string \<Rightarrow> string \<Rightarrow> 'r evaluated" where
  "literalConstant R kind raw value =
    (case kind of
       IntLit \<Rightarrow>
         (case SetString (withoutUnderscores value) of
            Some i \<Rightarrow> Inr (ConstInt i False)
          | None \<Rightarrow>
              (case SetString (withoutUnderscores raw) of
                 Some i \<Rightarrow> Inr (ConstInt i False)
               | None \<Rightarrow> Inl constInvalid))
     | RealLit \<Rightarrow>
         (case (case realOfText R (withoutUnderscores value) of
             Some r \<Rightarrow> Some r | None \<Rightarrow> realOfText R (withoutUnderscores raw)) of
            Some r \<Rightarrow> if realIsInf R r then Inl constInvalid else Inr (ConstReal r)
          | None \<Rightarrow> Inl constInvalid)
     | BoolLit \<Rightarrow> Inr (ConstBool (value = ''true''))
     | _ \<Rightarrow> Inl constNotExpression)"

fun stringConstant :: "StringPart list \<Rightarrow> string \<Rightarrow> 'r evaluated" where
  "stringConstant [] builder = Inr (ConstText builder)"
| "stringConstant (StringPart s part e # parts) builder =
    (if e \<noteq> None then Inl constNotExpression else stringConstant parts (builder @ part))"

subsection \<open>Operators\<close>

definition unaryConstant :: "'r realOps \<Rightarrow> string \<Rightarrow> 'r constantValue \<Rightarrow> 'r evaluated" where
  "unaryConstant R operator operand =
    (if operator = ''+'' then
       (case operand of ConstInt i overflow \<Rightarrow> Inr operand | ConstReal r \<Rightarrow> Inr operand | _ \<Rightarrow> Inl constInvalid)
     else if operator = ''-'' then
       (case operand of
          ConstInt i overflow \<Rightarrow> Inr (ConstInt (- i) overflow)
        | ConstReal r \<Rightarrow> Inr (ConstReal (realNegate R r))
        | _ \<Rightarrow> Inl constInvalid)
     else if operator = ''not'' then
       (case operand of ConstBool b \<Rightarrow> Inr (ConstBool (\<not> b)) | _ \<Rightarrow> Inl constInvalid)
     else Inl constNotExpression)"

definition toFloat :: "'r realOps \<Rightarrow> 'r constantValue \<Rightarrow> 'r" where
  "toFloat R value = (case value of ConstReal r \<Rightarrow> r | ConstInt i overflow \<Rightarrow> realOfInt R i | _ \<Rightarrow> realOfInt R 0)"

definition sameKind :: "'r constantValue \<Rightarrow> 'r constantValue \<Rightarrow> bool" where
  "sameKind left right =
    (case (left, right) of
       (ConstInt i a, ConstInt j b) \<Rightarrow> True | (ConstReal r, ConstReal s) \<Rightarrow> True
     | (ConstText a, ConstText b) \<Rightarrow> True | (ConstBool a, ConstBool b) \<Rightarrow> True | _ \<Rightarrow> False)"

definition comparisons :: "string list" where
  "comparisons = [''<'', ''<='', ''>'', ''>='', ''=='', ''!='', ''same'']"

definition numericComparison ::
  "'r realOps \<Rightarrow> string \<Rightarrow> 'r constantValue \<Rightarrow> 'r constantValue \<Rightarrow> 'r constantValue" where
  "numericComparison R operator left right =
    (let l = toFloat R left; r = toFloat R right
     in ConstBool
       (if operator = ''<'' then realLess R l r
        else if operator = ''<='' then realLeq R l r
        else if operator = ''>'' then realLess R r l
        else if operator = ''>='' then realLeq R r l
        else if operator = ''=='' then realEqual R l r
        else if operator = ''!='' then \<not> realEqual R l r
        else if operator = ''same'' then sameKind left right \<and> realEqual R l r
        else False))"

definition integerConstant ::
  "'r realOps \<Rightarrow> string \<Rightarrow> int \<Rightarrow> int \<Rightarrow> 'r constantValue \<Rightarrow> 'r constantValue \<Rightarrow> 'r evaluated" where
  "integerConstant R operator i j left right =
    (if operator = ''+'' then Inr (ConstInt (i + j) False)
     else if operator = ''-'' then Inr (ConstInt (i - j) False)
     else if operator = ''*'' then Inr (ConstInt (i * j) False)
     else if operator = ''%'' then (if j = 0 then Inl constInvalid else Inr (ConstInt (i smod j) False))
     else if operator = ''^'' then
       (if j < 0 then Inl constInvalid
        else if j > 10000 then Inr (ConstInt 0 True)
        else Inr (ConstInt (i ^ nat j) False))
     else if operator = ''/'' then
       (if j = 0 then Inl constInvalid else Inr (ConstReal (realDiv R (toFloat R left) (toFloat R right))))
     else if operator \<in> set comparisons then Inr (numericComparison R operator left right)
     else Inl constInvalid)"

definition evaluateNumericConstant ::
  "'r realOps \<Rightarrow> string \<Rightarrow> 'r constantValue \<Rightarrow> 'r constantValue \<Rightarrow> 'r evaluated" where
  "evaluateNumericConstant R operator left right =
    (case (left, right) of
       (ConstInt i a, ConstInt j b) \<Rightarrow> integerConstant R operator i j left right
     | _ \<Rightarrow>
         let l = toFloat R left; r = toFloat R right
         in if operator = ''+'' then Inr (ConstReal (realAdd R l r))
            else if operator = ''-'' then Inr (ConstReal (realSub R l r))
            else if operator = ''*'' then Inr (ConstReal (realMul R l r))
            else if operator = ''/'' then
              (if realEqual R r (realOfInt R 0) then Inl constInvalid else Inr (ConstReal (realDiv R l r)))
            else if operator = ''^'' then Inr (ConstReal (realPow R l r))
            else if operator \<in> set comparisons then Inr (numericComparison R operator left right)
            else Inl constInvalid)"

definition constantsEqual :: "'r constantValue \<Rightarrow> 'r constantValue \<Rightarrow> bool" where
  "constantsEqual left right =
    (case (left, right) of (ConstText a, ConstText b) \<Rightarrow> a = b | (ConstBool a, ConstBool b) \<Rightarrow> a = b | _ \<Rightarrow> False)"

definition numericConstant :: "'r constantValue \<Rightarrow> bool" where
  "numericConstant value = (case value of ConstInt i overflow \<Rightarrow> True | ConstReal r \<Rightarrow> True | _ \<Rightarrow> False)"

definition evaluateConstantBinary ::
  "'r realOps \<Rightarrow> string \<Rightarrow> 'r constantValue \<Rightarrow> 'r constantValue \<Rightarrow> 'r evaluated" where
  "evaluateConstantBinary R operator left right =
    (if operator = ''and'' \<or> operator = ''or'' then
       (case (left, right) of
          (ConstBool a, ConstBool b) \<Rightarrow> Inr (ConstBool (if operator = ''or'' then a \<or> b else a \<and> b))
        | _ \<Rightarrow> Inl constInvalid)
     else
       (case (left, right) of
          (ConstText a, ConstText b) \<Rightarrow>
            if operator = ''+'' then Inr (ConstText (a @ b))
            else if operator \<in> {''=='', ''!='', ''same''}
            then Inr (ConstBool (if operator = ''!='' then \<not> constantsEqual left right else constantsEqual left right))
            else Inl constInvalid
        | (ConstText a, ConstInt i overflow) \<Rightarrow>
            if operator = ''*''
            then (if i < 0 \<or> i > 1000000 then Inl constInvalid else Inr (ConstText (concat (replicate (nat i) a))))
            else Inl constInvalid
        | _ \<Rightarrow>
            if numericConstant left \<and> numericConstant right then evaluateNumericConstant R operator left right
            else if operator \<in> {''=='', ''!='', ''same''} \<and> sameKind left right
            then Inr (ConstBool (if operator = ''!='' then \<not> constantsEqual left right else constantsEqual left right))
            else Inl constInvalid))"

subsection \<open>Expressions\<close>

type_synonym 'r memo = "nat \<Rightarrow> 'r constantValue option"

lemma fewer_symbols:
  assumes "SymbolConstant (constSymbolAt E x)" "x \<notin> stack"
  shows "card ({..<length (constSymbols E)} - insert x stack) < card ({..<length (constSymbols E)} - stack)"
proof -
  have "x < length (constSymbols E)" using assms(1) by (auto simp: constSymbolAt_def split: if_splits)
  with assms(2) show ?thesis by (intro psubset_card_mono) auto
qed

function evaluateConstantWithStack ::
  "'r constEnv \<Rightarrow> nat set \<Rightarrow> 'r memo \<Rightarrow> Expr \<Rightarrow> 'r memo \<times> 'r evaluated" where
  "evaluateConstantWithStack E stack memo expression =
    (case expression of
       LiteralExpr s kind raw value \<Rightarrow> (memo, literalConstant (reals E) kind raw value)
     | StringExpr s raw parts \<Rightarrow> (memo, stringConstant parts [])
     | GroupExpr s e \<Rightarrow> evaluateConstantWithStack E stack memo e
     | IdentifierExpr s name raw \<Rightarrow>
         (case resolvedSymbol E s name of
            None \<Rightarrow> (memo, Inl constNotExpression)
          | Some x \<Rightarrow>
              if \<not> SymbolConstant (constSymbolAt E x) then (memo, Inl constNotExpression)
              else
                (case memo x of
                   Some value \<Rightarrow> (memo, Inr value)
                 | None \<Rightarrow>
                     if x \<in> stack then (memo, Inl constCycle)
                     else
                       (case SymbolInitializer (constSymbolAt E x) of
                          None \<Rightarrow> (memo, Inl constNotExpression)
                        | Some e \<Rightarrow>
                            (case evaluateConstantWithStack E (insert x stack) memo e of
                               (memo', Inl failure) \<Rightarrow> (memo', Inl failure)
                             | (memo', Inr value) \<Rightarrow> (memo'(x \<mapsto> value), Inr value)))))
     | UnaryExpr s operator e \<Rightarrow>
         (case evaluateConstantWithStack E stack memo e of
            (memo', Inl failure) \<Rightarrow> (memo', Inl failure)
          | (memo', Inr operand) \<Rightarrow> (memo', unaryConstant (reals E) operator operand))
     | BinaryExpr s l operator r \<Rightarrow>
         (case evaluateConstantWithStack E stack memo l of
            (memo', Inl failure) \<Rightarrow> (memo', Inl failure)
          | (memo', Inr left) \<Rightarrow>
              (case evaluateConstantWithStack E stack memo' r of
                 (memo'', Inl failure) \<Rightarrow> (memo'', Inl failure)
               | (memo'', Inr right) \<Rightarrow> (memo'', evaluateConstantBinary (reals E) operator left right)))
     | _ \<Rightarrow> (memo, Inl constNotExpression))"
  by pat_completeness auto

termination
  by (relation "measures [\<lambda>(E, stack, memo, e). card ({..<length (constSymbols E)} - stack),
      \<lambda>(E, stack, memo, e). size e]")
    (auto simp: fewer_symbols)

declare evaluateConstantWithStack.simps [simp del]

definition evaluateConstant :: "'r constEnv \<Rightarrow> 'r memo \<Rightarrow> Expr \<Rightarrow> 'r memo \<times> 'r evaluated" where
  "evaluateConstant E memo expression = evaluateConstantWithStack E {} memo expression"

end
