(* ===== verification/ConstantProofs.thy ===== *)
theory ConstantProofs
  imports Constant
begin

text \<open>
  Evaluation of constant expressions with stored values and a stack is evaluation without either: the
  meaning of an expression is defined by unfolding references to Constants, to any depth.
\<close>

subsection \<open>The meaning of a constant expression\<close>

text \<open>\<open>meaning E n e\<close>: references are followed through at most \<open>n\<close> declarations.\<close>

function meaning :: "'r constEnv \<Rightarrow> nat \<Rightarrow> Expr \<Rightarrow> 'r constantValue option" where
  "meaning E n expression =
    (case expression of
       LiteralExpr s kind raw value \<Rightarrow> (case literalConstant (reals E) kind raw value of Inl _ \<Rightarrow> None | Inr v \<Rightarrow> Some v)
     | StringExpr s raw parts \<Rightarrow> (case (stringConstant parts [] :: 'r evaluated) of Inl _ \<Rightarrow> None | Inr v \<Rightarrow> Some v)
     | GroupExpr s e \<Rightarrow> meaning E n e
     | IdentifierExpr s name raw \<Rightarrow>
         (case resolvedSymbol E s name of
            None \<Rightarrow> None
          | Some x \<Rightarrow>
              if \<not> SymbolConstant (constSymbolAt E x) then None
              else
                (case givenValue E x of
                   Some v \<Rightarrow> Some v
                 | None \<Rightarrow>
                     (case (SymbolInitializer (constSymbolAt E x), n) of
                        (Some e, Suc n) \<Rightarrow> meaning E n e | _ \<Rightarrow> None)))
     | UnaryExpr s operator e \<Rightarrow>
         (case meaning E n e of
            None \<Rightarrow> None
          | Some v \<Rightarrow> (case unaryConstant (reals E) operator v of Inl _ \<Rightarrow> None | Inr v \<Rightarrow> Some v))
     | BinaryExpr s l operator r \<Rightarrow>
         (case (meaning E n l, meaning E n r) of
            (Some v, Some w) \<Rightarrow> (case evaluateConstantBinary (reals E) operator v w of Inl _ \<Rightarrow> None | Inr v \<Rightarrow> Some v)
          | _ \<Rightarrow> None)
     | _ \<Rightarrow> None)"
  by pat_completeness auto
termination by (relation "measures [\<lambda>(E, n, e). n, \<lambda>(E, n, e). size e]") auto

declare meaning.simps [simp del]

definition symbolMeaning :: "'r constEnv \<Rightarrow> nat \<Rightarrow> nat \<Rightarrow> 'r constantValue option" where
  "symbolMeaning E n x =
    (case givenValue E x of
       Some v \<Rightarrow> Some v
     | None \<Rightarrow>
         (case (SymbolInitializer (constSymbolAt E x), n) of
            (Some e, Suc n) \<Rightarrow> meaning E n e | _ \<Rightarrow> None))"

lemma meaning_cases:
  "meaning E n (LiteralExpr s kind raw v) = (case literalConstant (reals E) kind raw v of Inl _ \<Rightarrow> None | Inr v \<Rightarrow> Some v)"
  "meaning E n (StringExpr s raw parts) = (case (stringConstant parts [] :: 'r evaluated) of Inl _ \<Rightarrow> None | Inr v \<Rightarrow> Some v)"
  "meaning E n (GroupExpr s e) = meaning E n e"
  "meaning E n (IdentifierExpr s name raw) =
    (case resolvedSymbol E s name of
       None \<Rightarrow> None
     | Some x \<Rightarrow> if \<not> SymbolConstant (constSymbolAt E x) then None else symbolMeaning E n x)"
  "meaning E n (UnaryExpr s operator e) =
    (case meaning E n e of
       None \<Rightarrow> None
     | Some v \<Rightarrow> (case unaryConstant (reals E) operator v of Inl _ \<Rightarrow> None | Inr v \<Rightarrow> Some v))"
  "meaning E n (BinaryExpr s l operator r) =
    (case (meaning E n l, meaning E n r) of
       (Some v, Some w) \<Rightarrow> (case evaluateConstantBinary (reals E) operator v w of Inl _ \<Rightarrow> None | Inr v \<Rightarrow> Some v)
     | _ \<Rightarrow> None)"
  for E :: "'r constEnv"
  unfolding symbolMeaning_def by (subst meaning.simps, simp)+

lemma meaning_none [simp]:
  "meaning E n (BadExpr s) = None" "meaning E n (LambdaExpr s cs ps b) = None" "meaning E n (CallExpr s e arguments) = None"
  "meaning E n (MemberExpr s e name) = None" "meaning E n (IndexExpr s e i) = None"
  "meaning E n (SliceExpr s e lo hi) = None" "meaning E n (ListExpr s es) = None" "meaning E n (PairExpr s pairs) = None"
  by (subst meaning.simps, simp)+

lemma symbolMeaning_iff:
  "symbolMeaning E n x = Some v \<longleftrightarrow> givenValue E x = Some v \<or>
     givenValue E x = None \<and> (\<exists>e m. SymbolInitializer (constSymbolAt E x) = Some e \<and> n = Suc m \<and> meaning E m e = Some v)"
  by (cases n) (auto simp: symbolMeaning_def split: option.splits)

lemma meaning_more: "meaning E n e = Some v \<Longrightarrow> n \<le> m \<Longrightarrow> meaning E m e = Some v"
proof (induction E n e arbitrary: v m rule: meaning.induct)
  case (1 E n e)
  show ?case
  proof (cases e)
    case (IdentifierExpr s name raw)
    then obtain x where x: "resolvedSymbol E s name = Some x" "SymbolConstant (constSymbolAt E x)" "symbolMeaning E n x = Some v"
      using 1(6) by (auto simp: meaning_cases split: option.splits if_splits)
    have "symbolMeaning E m x = Some v"
    proof (cases "givenValue E x")
      case None
      then obtain e' k where k: "SymbolInitializer (constSymbolAt E x) = Some e'" "n = Suc k" "meaning E k e' = Some v"
        using x(3) by (auto simp: symbolMeaning_iff)
      then obtain j where j: "m = Suc j" "k \<le> j" using 1(7) by (cases m) auto
      have "\<not> \<not> SymbolConstant (constSymbolAt E x)" using x(2) by simp
      then have "meaning E j e' = Some v"
        using 1(1) [OF IdentifierExpr x(1) _ None refl k(1,2,3) j(2)] by blast
      then show ?thesis using None k(1) j(1) by (simp add: symbolMeaning_iff)
    qed (use x(3) in \<open>simp add: symbolMeaning_iff\<close>)
    then show ?thesis using IdentifierExpr x by (simp add: meaning_cases)
  next
    case (GroupExpr s e')
    then have "meaning E n e' = Some v" using 1(6) by (simp add: meaning_cases)
    then show ?thesis using 1(2) [OF GroupExpr _ 1(7)] GroupExpr by (simp add: meaning_cases)
  next
    case (UnaryExpr s oper e')
    then obtain a where a: "meaning E n e' = Some a" using 1(6) by (cases "meaning E n e'") (simp_all add: meaning_cases)
    then show ?thesis using 1(3) [OF UnaryExpr a 1(7)] 1(6) UnaryExpr by (simp add: meaning_cases)
  next
    case (BinaryExpr s l oper r)
    then obtain a b where ab: "meaning E n l = Some a" "meaning E n r = Some b"
      using 1(6) by (auto simp: meaning_cases split: option.splits)
    then show ?thesis
      using 1(4) [OF BinaryExpr ab(1) 1(7)] 1(5) [OF BinaryExpr ab(2) 1(7)] 1(6) BinaryExpr by (simp add: meaning_cases)
  qed (use 1(6) in \<open>simp_all add: meaning_cases\<close>)
qed

lemma symbolMeaning_more: "symbolMeaning E n x = Some v \<Longrightarrow> n \<le> m \<Longrightarrow> symbolMeaning E m x = Some v"
  by (cases m) (auto simp: symbolMeaning_iff dest: meaning_more)

lemma meaning_unique: "meaning E n e = Some v \<Longrightarrow> meaning E m e = Some w \<Longrightarrow> v = w"
  using meaning_more [of E n e v "max n m"] meaning_more [of E m e w "max n m"] by simp

subsection \<open>Evaluation finds the meaning\<close>

text \<open>The stored values: those given, and meanings of initializers.\<close>

definition consistent :: "'r constEnv \<Rightarrow> 'r memo \<Rightarrow> bool" where
  "consistent E memo \<longleftrightarrow>
    (\<forall>x v. givenValue E x = Some v \<longrightarrow> memo x = Some v) \<and>
    (\<forall>x v. memo x = Some v \<longrightarrow> (\<exists>n. symbolMeaning E n x = Some v))"

lemma consistent_given: "consistent E (givenValue E)"
  by (auto simp: consistent_def symbolMeaning_iff)

lemma consistent_store:
  assumes "consistent E memo" "memo x = None" "SymbolInitializer (constSymbolAt E x) = Some e" "meaning E n e = Some v"
  shows "consistent E (memo(x \<mapsto> v))"
proof -
  have "givenValue E x = None" using assms(1,2) by (cases "givenValue E x") (auto simp: consistent_def)
  then have "symbolMeaning E (Suc n) x = Some v" using assms(3,4) by (auto simp: symbolMeaning_iff)
  then show ?thesis using assms(1) \<open>givenValue E x = None\<close> by (auto simp: consistent_def)
qed

lemma evaluation_sound:
  assumes "consistent E memo"
  shows "consistent E (fst (evaluateConstantWithStack E stack memo e)) \<and>
    (\<forall>v. snd (evaluateConstantWithStack E stack memo e) = Inr v \<longrightarrow> (\<exists>n. meaning E n e = Some v))"
  using assms
proof (induction E stack memo e rule: evaluateConstantWithStack.induct)
  case (1 E stack memo e)
  show ?case
  proof (cases e)
    case (LiteralExpr s kind raw v)
    then show ?thesis
      using 1(6) by (auto simp: evaluateConstantWithStack.simps [of E stack memo "LiteralExpr s kind raw v"] meaning_cases)
  next
    case (StringExpr s raw parts)
    then show ?thesis
      using 1(6) by (auto simp: evaluateConstantWithStack.simps [of E stack memo "StringExpr s raw parts"] meaning_cases)
  next
    case (GroupExpr s e')
    then show ?thesis
      using 1(2) [OF GroupExpr 1(6)] by (simp add: evaluateConstantWithStack.simps [of E stack memo "GroupExpr s e'"] meaning_cases)
  next
    case (IdentifierExpr s name raw)
    note eval = evaluateConstantWithStack.simps [of E stack memo e, unfolded IdentifierExpr Expr.case]
    show ?thesis
    proof (cases "resolvedSymbol E s name")
      case None
      then show ?thesis using 1 IdentifierExpr by (simp add: eval)
    next
      case x: (Some x)
      show ?thesis
      proof (cases "SymbolConstant (constSymbolAt E x)")
        case const: True
        show ?thesis
        proof (cases "memo x")
          case (Some v)
          then show ?thesis
            using 1 IdentifierExpr x const by (auto simp: eval meaning_cases consistent_def)
        next
          case None
          show ?thesis
          proof (cases "x \<in> stack \<or> SymbolInitializer (constSymbolAt E x) = None")
            case True
            then show ?thesis using 1 IdentifierExpr x const None by (auto simp: eval)
          next
            case False
            then obtain e' where e': "SymbolInitializer (constSymbolAt E x) = Some e'" "x \<notin> stack" by auto
            obtain memo' r where r: "evaluateConstantWithStack E (insert x stack) memo e' = (memo', r)" by fastforce
            have IH: "consistent E memo'" "\<And>v. r = Inr v \<Longrightarrow> \<exists>n. meaning E n e' = Some v"
              using 1(1) [OF IdentifierExpr x _ None e'(2,1) 1(6)] const r by auto
            show ?thesis
            proof (cases r)
              case (Inl f)
              then show ?thesis using IdentifierExpr x const None e' r IH by (simp add: eval)
            next
              case (Inr v)
              then obtain n where n: "meaning E n e' = Some v" using IH(2) by blast
              have "givenValue E x = None" using 1(6) None by (cases "givenValue E x") (auto simp: consistent_def)
              then have sym: "symbolMeaning E (Suc n) x = Some v" using e' n by (auto simp: symbolMeaning_iff)
              then have "consistent E (memo'(x \<mapsto> v))"
                using IH(1) \<open>givenValue E x = None\<close> by (auto simp: consistent_def)
              moreover have "meaning E (Suc n) e = Some v" using IdentifierExpr x const sym by (simp add: meaning_cases)
              ultimately show ?thesis using IdentifierExpr x const None e' r Inr by (auto simp: eval simp del: fun_upd_apply)
            qed
          qed
        qed
      qed (use 1 IdentifierExpr x in \<open>simp add: eval\<close>)
    qed
  next
    case (UnaryExpr s oper e')
    note eval = evaluateConstantWithStack.simps [of E stack memo e, unfolded UnaryExpr Expr.case]
    obtain memo' r where r: "evaluateConstantWithStack E stack memo e' = (memo', r)" by fastforce
    then have IH: "consistent E memo'" "\<And>v. r = Inr v \<Longrightarrow> \<exists>n. meaning E n e' = Some v"
      using 1(3) [OF UnaryExpr 1(6)] by auto
    show ?thesis
    proof (cases r)
      case (Inl f)
      then show ?thesis using IH r UnaryExpr by (simp add: eval)
    next
      case (Inr w)
      then obtain n where "meaning E n e' = Some w" using IH(2) by blast
      then show ?thesis
        using IH(1) r Inr UnaryExpr by (auto simp: eval meaning_cases intro!: exI [of _ n])
    qed
  next
    case (BinaryExpr s l oper r)
    note eval = evaluateConstantWithStack.simps [of E stack memo e, unfolded BinaryExpr Expr.case]
    obtain m1 a where a: "evaluateConstantWithStack E stack memo l = (m1, a)" by fastforce
    then have IH1: "consistent E m1" "\<And>v. a = Inr v \<Longrightarrow> \<exists>n. meaning E n l = Some v"
      using 1(4) [OF BinaryExpr 1(6)] by auto
    show ?thesis
    proof (cases a)
      case (Inl f)
      then show ?thesis using IH1 a BinaryExpr by (simp add: eval)
    next
      case (Inr v)
      obtain m2 b where b: "evaluateConstantWithStack E stack m1 r = (m2, b)" by fastforce
      then have IH2: "consistent E m2" "\<And>v. b = Inr v \<Longrightarrow> \<exists>n. meaning E n r = Some v"
        using 1(5) [OF BinaryExpr _ Inr IH1(1)] a by auto
      show ?thesis
      proof (cases b)
        case (Inl f)
        then show ?thesis using IH2 a b Inr BinaryExpr by (simp add: eval)
      next
        case w: (Inr w)
        obtain n m where nm: "meaning E n l = Some v" "meaning E m r = Some w" using IH1(2) IH2(2) Inr w by blast
        then have "meaning E (max n m) l = Some v" "meaning E (max n m) r = Some w"
          by (auto intro: meaning_more)
        then show ?thesis
          using IH2(1) a b Inr w BinaryExpr
          by (auto simp: eval meaning_cases split: sum.splits intro!: exI [of _ "max n m"])
      qed
    qed
  qed (use 1 in \<open>simp add: evaluateConstantWithStack.simps\<close>)+
qed

text \<open>
  Along a stack whose symbols have no meaning of a smaller depth the evaluation succeeds: a symbol met
  again on the stack would have one.
\<close>

definition pending :: "'r constEnv \<Rightarrow> nat set \<Rightarrow> nat \<Rightarrow> bool" where
  "pending E stack n \<longleftrightarrow>
    (\<forall>x \<in> stack. \<forall>e m. SymbolInitializer (constSymbolAt E x) = Some e \<longrightarrow> m < n \<longrightarrow> meaning E m e = None)"

lemma evaluation_complete:
  "consistent E memo \<Longrightarrow> pending E stack n \<Longrightarrow> meaning E n e = Some v \<Longrightarrow>
   snd (evaluateConstantWithStack E stack memo e) = Inr v"
proof (induction n arbitrary: stack memo e v rule: less_induct)
  case (less n)
  show ?case
    using less.prems
  proof (induction e arbitrary: stack memo v rule: measure_induct_rule [where f = size])
    case (less e)
    note smaller = less.IH and deeper = \<open>\<And>y stack memo e v. y < n \<Longrightarrow> consistent E memo \<Longrightarrow> pending E stack y \<Longrightarrow>
      meaning E y e = Some v \<Longrightarrow> snd (evaluateConstantWithStack E stack memo e) = Inr v\<close>
    show ?case
    proof (cases e)
      case (LiteralExpr s kind raw w)
      then show ?thesis
        using less.prems by (auto simp: evaluateConstantWithStack.simps [of E stack memo "LiteralExpr s kind raw w"]
            meaning_cases split: sum.splits)
    next
      case (StringExpr s raw parts)
      then show ?thesis
        using less.prems by (auto simp: evaluateConstantWithStack.simps [of E stack memo "StringExpr s raw parts"]
            meaning_cases split: sum.splits)
    next
      case (GroupExpr s e')
      then have "meaning E n e' = Some v" using less.prems(3) by (simp add: meaning_cases)
      then show ?thesis
        using smaller [of e' memo stack v] less.prems(1,2) GroupExpr
        by (simp add: evaluateConstantWithStack.simps [of E stack memo "GroupExpr s e'"])
    next
      case (IdentifierExpr s name raw)
      note eval = evaluateConstantWithStack.simps [of E stack memo e, unfolded IdentifierExpr Expr.case]
      obtain x where x: "resolvedSymbol E s name = Some x" "SymbolConstant (constSymbolAt E x)" "symbolMeaning E n x = Some v"
        using IdentifierExpr less.prems(3) by (auto simp: meaning_cases split: option.splits if_splits)
      show ?thesis
      proof (cases "memo x")
        case (Some w)
        then obtain m where "symbolMeaning E m x = Some w"
          using less.prems(1) unfolding consistent_def by blast
        then have "w = v" using x(3) symbolMeaning_more [of E m x w "max m n"] symbolMeaning_more [of E n x v "max m n"] by simp
        then show ?thesis using IdentifierExpr x Some by (simp add: eval)
      next
        case None
        then have "givenValue E x = None" using less.prems(1) by (cases "givenValue E x") (auto simp: consistent_def)
        then obtain e' k where k: "SymbolInitializer (constSymbolAt E x) = Some e'" "n = Suc k" "meaning E k e' = Some v"
          using x(3) by (auto simp: symbolMeaning_iff)
        have "x \<notin> stack" using less.prems(2) k unfolding pending_def by (metis lessI option.distinct(1))
        define least where "least = (LEAST m. \<exists>w. meaning E m e' = Some w)"
        have "\<exists>w. meaning E least e' = Some w" unfolding least_def by (rule LeastI [of _ k]) (use k(3) in blast)
        then have here: "meaning E least e' = Some v" using meaning_unique [OF _ k(3)] by blast
        have "least \<le> k" unfolding least_def by (rule Least_le) (use k(3) in blast)
        have "meaning E m e' = None" if "m < least" for m
          using not_less_Least [of m "\<lambda>m. \<exists>w. meaning E m e' = Some w"] that unfolding least_def by auto
        then have "pending E (insert x stack) least"
          using less.prems(2) k(1,2) \<open>least \<le> k\<close> by (auto simp: pending_def)
        then have "snd (evaluateConstantWithStack E (insert x stack) memo e') = Inr v"
          using deeper [of least memo "insert x stack" e' v] less.prems(1) here \<open>least \<le> k\<close> k(2) by simp
        then show ?thesis
          using IdentifierExpr x None k(1) \<open>x \<notin> stack\<close>
          by (cases "evaluateConstantWithStack E (insert x stack) memo e'") (simp add: eval)
      qed
    next
      case (UnaryExpr s oper e')
      note eval = evaluateConstantWithStack.simps [of E stack memo e, unfolded UnaryExpr Expr.case]
      obtain a where a: "meaning E n e' = Some a" "unaryConstant (reals E) oper a = Inr v"
        using less.prems(3) UnaryExpr by (auto simp: meaning_cases split: option.splits sum.splits)
      then have "snd (evaluateConstantWithStack E stack memo e') = Inr a"
        using smaller [of e' memo stack a] less.prems(1,2) UnaryExpr by simp
      then show ?thesis
        using a(2) UnaryExpr by (cases "evaluateConstantWithStack E stack memo e'") (simp add: eval)
    next
      case (BinaryExpr s l oper r)
      note eval = evaluateConstantWithStack.simps [of E stack memo e, unfolded BinaryExpr Expr.case]
      obtain a b where ab: "meaning E n l = Some a" "meaning E n r = Some b"
        "evaluateConstantBinary (reals E) oper a b = Inr v"
        using less.prems(3) BinaryExpr by (auto simp: meaning_cases split: option.splits sum.splits)
      obtain m1 where m1: "evaluateConstantWithStack E stack memo l = (m1, Inr a)"
        using smaller [of l memo stack a] less.prems(1,2) BinaryExpr ab(1)
        by (cases "evaluateConstantWithStack E stack memo l") simp
      have "consistent E m1" using evaluation_sound [OF less.prems(1), of stack l] m1 by simp
      then have "snd (evaluateConstantWithStack E stack m1 r) = Inr b"
        using smaller [of r m1 stack b] less.prems(2) BinaryExpr ab(2) by simp
      then show ?thesis
        using m1 ab(3) BinaryExpr by (cases "evaluateConstantWithStack E stack m1 r") (simp add: eval)
    qed (use less.prems(3) in simp_all)
  qed
qed

text \<open>
  C20: constant expressions. From stored values that are meanings of their symbols, evaluation succeeds with
  a value exactly if the expression means that value when its Constants are unfolded, and the values it
  stores are again meanings. So neither the stored values nor the order of evaluation change a result, and
  an expression is refused for a cycle only if unfolding it does not end.
\<close>

theorem constants_are_unfolded:
  assumes "consistent E memo"
  shows "(snd (evaluateConstant E memo e) = Inr v \<longleftrightarrow> (\<exists>n. meaning E n e = Some v)) \<and>
    consistent E (fst (evaluateConstant E memo e))"
  using evaluation_sound [OF assms, of "{}" e] evaluation_complete [OF assms, of "{}" _ e v]
  by (auto simp: evaluateConstant_def pending_def)

text \<open>A module with \<open>Constant Int A = 2\<close>, \<open>Constant Int B = A + 3\<close>, \<open>Constant Int C = D\<close> and \<open>Constant Int D = C\<close>.\<close>

definition exampleSpan :: Span where
  "exampleSpan = (let p = \<lparr>Offset = 0, Line = 1, Column = 1\<rparr> in NewSpan 1 p p)"

definition exampleIdentifier :: "string \<Rightarrow> Expr" where
  "exampleIdentifier name = IdentifierExpr exampleSpan name name"

definition exampleLiteral :: "string \<Rightarrow> Expr" where
  "exampleLiteral digits = LiteralExpr exampleSpan IntLit digits digits"

definition exampleConstants :: "int constEnv" where
  "exampleConstants = \<lparr>
    resolvedSymbol = (\<lambda>s name. if name = ''A'' then Some 0 else if name = ''B'' then Some 1
      else if name = ''C'' then Some 2 else if name = ''D'' then Some 3 else None),
    constSymbols =
      [\<lparr>SymbolConstant = True, SymbolInitializer = Some (exampleLiteral ''2'')\<rparr>,
       \<lparr>SymbolConstant = True, SymbolInitializer =
          Some (BinaryExpr exampleSpan (exampleIdentifier ''A'') ''+'' (exampleLiteral ''3''))\<rparr>,
       \<lparr>SymbolConstant = True, SymbolInitializer = Some (exampleIdentifier ''D'')\<rparr>,
       \<lparr>SymbolConstant = True, SymbolInitializer = Some (exampleIdentifier ''C'')\<rparr>],
    givenValue = Map.empty,
    reals = \<lparr>realOfText = (\<lambda>s. None), realIsInf = (\<lambda>r. False), realOfInt = id, realNegate = uminus, realAdd = (+),
      realSub = (-), realMul = (*), realDiv = (div), realPow = (\<lambda>x y. x ^ nat y), realLess = (<), realLeq = (\<le>),
      realEqual = (=)\<rparr>\<rparr>"

lemmas example_evaluation =
  exampleIdentifier_def exampleLiteral_def exampleConstants_def evaluateConstant_def constSymbolAt_def
  literalConstant_def SetString_def withoutUnderscores_def decimalDigit_def evaluateConstantBinary_def
  numericConstant_def evaluateNumericConstant_def integerConstant_def

lemma constant_of_a_constant:
  "snd (evaluateConstant exampleConstants Map.empty
     (BinaryExpr exampleSpan (exampleIdentifier ''B'') ''*'' (exampleIdentifier ''A''))) = Inr (ConstInt 10 False)"
  by (simp add: example_evaluation evaluateConstantWithStack.simps)

lemma cycle_of_constants:
  "evaluateConstant exampleConstants Map.empty (exampleIdentifier ''C'') = (Map.empty, Inl constCycle)"
  by (simp add: example_evaluation evaluateConstantWithStack.simps)

theorem constants_are_unfolded_witness:
  "\<exists>n. meaning exampleConstants n (BinaryExpr exampleSpan (exampleIdentifier ''B'') ''*'' (exampleIdentifier ''A'')) =
     Some (ConstInt 10 False)"
proof -
  have "consistent exampleConstants Map.empty"
    using consistent_given [of exampleConstants] by (simp add: exampleConstants_def)
  from constants_are_unfolded [OF this, of "BinaryExpr exampleSpan (exampleIdentifier ''B'') ''*'' (exampleIdentifier ''A'')"
    "ConstInt 10 False"]
  show ?thesis using constant_of_a_constant by simp
qed

end
