(* ===== verification/Layout.thy ===== *)
theory Layout
  imports Diagnostics GoStrings
begin

text \<open>
  The pretty-printing documents of the formatter and their layout (\<open>internal/formatter/doc.go\<close>).

  A \<open>doc\<close> is a datatype with one constructor per kind; the functions \<open>text\<close>, \<open>hardline\<close>, \<open>concat\<close> and
  so on are its constructors. The stack of work items is a list. Both loops end because every step
  replaces an item by smaller ones.
\<close>

subsection \<open>Documents\<close>

datatype doc =
    dText string
  | dHard
  | dRaw
  | dConcat "doc list"
  | dIndent doc
  | dGroup doc
  | dBreakGroup doc
  | dIfBreak doc doc

definition maxLineWidth :: int where "maxLineWidth = 80"

text \<open>The constructor holds the flat alternative first, the function takes the broken one first.\<close>

definition ifBreak :: "doc \<Rightarrow> doc \<Rightarrow> doc" where
  "ifBreak breakDoc flatDoc = dIfBreak flatDoc breakDoc"

definition runeWidth :: "string \<Rightarrow> int" where
  "runeWidth s = int (RuneCount s)"

datatype renderMode = modeFlat | modeBreak

record workItem =
  workInd :: nat
  workMode :: renderMode
  workDoc :: doc

definition spliceChildren :: "workItem list \<Rightarrow> workItem \<Rightarrow> doc list \<Rightarrow> workItem list" where
  "spliceChildren stack parent children = map (\<lambda>child. parent\<lparr>workDoc := child\<rparr>) children @ stack"

definition lineFeed :: char where "lineFeed = CHR 0x0A"

text \<open>The text after the last newline of a text that has one.\<close>

definition afterNewline :: "string \<Rightarrow> string" where
  "afterNewline s = rev (takeWhile (\<lambda>c. c \<noteq> lineFeed) (rev s))"

definition columnAfter :: "int \<Rightarrow> string \<Rightarrow> int" where
  "columnAfter col s = (if lineFeed \<in> set s then runeWidth (afterNewline s) else col + runeWidth s)"

primrec docWeight :: "doc \<Rightarrow> nat" where
  "docWeight (dText s) = 1"
| "docWeight dHard = 1"
| "docWeight dRaw = 1"
| "docWeight (dConcat ds) = Suc (sum_list (map docWeight ds))"
| "docWeight (dIndent d) = Suc (docWeight d)"
| "docWeight (dGroup d) = Suc (docWeight d)"
| "docWeight (dBreakGroup d) = Suc (docWeight d)"
| "docWeight (dIfBreak f b) = Suc (docWeight f + docWeight b)"

definition stackWeight :: "workItem list \<Rightarrow> nat" where
  "stackWeight stack = sum_list (map (docWeight \<circ> workDoc) stack)"

lemma docWeight_pos [simp]: "0 < docWeight d"
  by (cases d) simp_all

lemma stackWeight_simps [simp]:
  "stackWeight [] = 0"
  "stackWeight (item # stack) = docWeight (workDoc item) + stackWeight stack"
  "stackWeight (spliceChildren stack item ds) = sum_list (map docWeight ds) + stackWeight stack"
  by (simp_all add: stackWeight_def spliceChildren_def comp_def)

subsection \<open>Whether a group fits\<close>

function fitsLoop :: "int \<Rightarrow> workItem list \<Rightarrow> bool" where
  "fitsLoop width stack =
    (if width < 0 then False
     else
       (case stack of
          [] \<Rightarrow> True
        | item # stack \<Rightarrow>
            (case workDoc item of
               dText s \<Rightarrow> if lineFeed \<in> set s then True else fitsLoop (width - runeWidth s) stack
             | dConcat ds \<Rightarrow> fitsLoop width (spliceChildren stack item ds)
             | dHard \<Rightarrow> True
             | dRaw \<Rightarrow> True
             | dIndent d \<Rightarrow> fitsLoop width (item\<lparr>workInd := workInd item + 1, workDoc := d\<rparr> # stack)
             | dIfBreak f b \<Rightarrow>
                 fitsLoop width (item\<lparr>workDoc := (if workMode item = modeBreak then b else f)\<rparr> # stack)
             | dGroup d \<Rightarrow> fitsLoop width (item\<lparr>workMode := modeFlat, workDoc := d\<rparr> # stack)
             | dBreakGroup d \<Rightarrow> True)))"
  by pat_completeness auto
termination by (relation "measure (\<lambda>(width, stack). stackWeight stack)") auto

declare fitsLoop.simps [simp del]

definition fits :: "int \<Rightarrow> workItem \<Rightarrow> workItem list \<Rightarrow> bool" where
  "fits width first rest = fitsLoop width (first # rest)"

subsection \<open>Layout\<close>

definition padding :: "nat \<Rightarrow> string" where
  "padding n = concat (replicate n ''    '')"

function renderLoop :: "int \<Rightarrow> string \<Rightarrow> int \<Rightarrow> workItem list \<Rightarrow> string" where
  "renderLoop width out col stack =
    (case stack of
       [] \<Rightarrow> out
     | item # stack \<Rightarrow>
         (case workDoc item of
            dText s \<Rightarrow> renderLoop width (out @ s) (columnAfter col s) stack
          | dConcat ds \<Rightarrow> renderLoop width out col (spliceChildren stack item ds)
          | dHard \<Rightarrow>
              let pad = padding (workInd item)
              in renderLoop width (out @ [lineFeed] @ pad) (int (length pad)) stack
          | dRaw \<Rightarrow> renderLoop width (out @ [lineFeed]) 0 stack
          | dIndent d \<Rightarrow> renderLoop width out col (item\<lparr>workInd := workInd item + 1, workDoc := d\<rparr> # stack)
          | dIfBreak f b \<Rightarrow>
              renderLoop width out col (item\<lparr>workDoc := (if workMode item = modeBreak then b else f)\<rparr> # stack)
          | dGroup d \<Rightarrow>
              let flatAttempt = item\<lparr>workMode := modeFlat, workDoc := d\<rparr>
              in if fits (width - col) flatAttempt stack
                 then renderLoop width out col (flatAttempt # stack)
                 else renderLoop width out col (item\<lparr>workMode := modeBreak, workDoc := d\<rparr> # stack)
          | dBreakGroup d \<Rightarrow> renderLoop width out col (item\<lparr>workMode := modeBreak, workDoc := d\<rparr> # stack)))"
  by pat_completeness auto
termination by (relation "measure (\<lambda>(width, out, col, stack). stackWeight stack)") auto

declare renderLoop.simps [simp del]

definition render :: "doc \<Rightarrow> int \<Rightarrow> string" where
  "render root width = renderLoop width [] 0 [\<lparr>workInd = 0, workMode = modeBreak, workDoc = root\<rparr>]"

lemma renderLoop_Nil [simp]: "renderLoop width out col [] = out"
  by (subst renderLoop.simps) simp

lemma renderLoop_cases:
  "workDoc item = dText s \<Longrightarrow>
     renderLoop width out col (item # stack) = renderLoop width (out @ s) (columnAfter col s) stack"
  "workDoc item = dHard \<Longrightarrow> renderLoop width out col (item # stack) =
     renderLoop width (out @ [lineFeed] @ padding (workInd item)) (int (length (padding (workInd item)))) stack"
  "workDoc item = dRaw \<Longrightarrow> renderLoop width out col (item # stack) = renderLoop width (out @ [lineFeed]) 0 stack"
  "workDoc item = dConcat ds \<Longrightarrow>
     renderLoop width out col (item # stack) = renderLoop width out col (spliceChildren stack item ds)"
  "workDoc item = dIndent d \<Longrightarrow> renderLoop width out col (item # stack) =
     renderLoop width out col (item\<lparr>workInd := workInd item + 1, workDoc := d\<rparr> # stack)"
  "workDoc item = dIfBreak f b \<Longrightarrow> renderLoop width out col (item # stack) =
     renderLoop width out col (item\<lparr>workDoc := (if workMode item = modeBreak then b else f)\<rparr> # stack)"
  "workDoc item = dGroup d \<Longrightarrow> renderLoop width out col (item # stack) =
     renderLoop width out col (item\<lparr>workMode := (if fits (width - col) (item\<lparr>workMode := modeFlat, workDoc := d\<rparr>) stack
       then modeFlat else modeBreak), workDoc := d\<rparr> # stack)"
  "workDoc item = dBreakGroup d \<Longrightarrow> renderLoop width out col (item # stack) =
     renderLoop width out col (item\<lparr>workMode := modeBreak, workDoc := d\<rparr> # stack)"
  by (subst renderLoop.simps, simp add: Let_def)+

end
