(* ===== verification/Formatter.thy ===== *)
theory Formatter
  imports Layout Frontend
begin

text \<open>
  The source formatter (\<open>internal/formatter/formatter.go\<close>): a builder walks the syntax tree and the tokens
  together and turns them into a document, which is laid out and trimmed.

  A method of the builder is a function from the builder to its result and the new builder. Most methods
  run others in their order and join the documents: that is \<open>concatOf\<close>. A method for a list of nodes gets
  the list of their methods. The last token is always \<open>EOF\<close>, so no loop over tokens reaches it; the loops
  of the model stop there.
\<close>

subsection \<open>The builder\<close>

record builder =
  b_file :: File
  b_tokens :: "Token list"
  b_cursor :: nat
  b_openComment :: bool

type_synonym 'a building = "builder \<Rightarrow> 'a \<times> builder"

definition b_current :: "builder \<Rightarrow> Token" where
  "b_current b = (if b_cursor b \<ge> length (b_tokens b) then last (b_tokens b) else b_tokens b ! b_cursor b)"

definition notLast :: "builder \<Rightarrow> bool" where
  "notLast b = (Suc (b_cursor b) < length (b_tokens b))"

definition b_advance :: "Token building" where
  "b_advance b = (b_current b, if notLast b then b\<lparr>b_cursor := Suc (b_cursor b)\<rparr> else b)"

definition fixed :: "'a \<Rightarrow> 'a building" where "fixed d b = (d, b)"

abbreviation space :: "doc building" where "space \<equiv> fixed (dText '' '')"

primrec seqDocs :: "doc building list \<Rightarrow> doc list building" where
  "seqDocs [] b = ([], b)"
| "seqDocs (f # fs) b = (let (d, b1) = f b; (ds, b2) = seqDocs fs b1 in (d # ds, b2))"

definition concatOf :: "doc building list \<Rightarrow> doc building" where
  "concatOf fs b = (let (ds, b1) = seqDocs fs b in (dConcat ds, b1))"

subsection \<open>Comments\<close>

definition TrimRight :: "string \<Rightarrow> string \<Rightarrow> string" where
  "TrimRight cutset s = rev (dropWhile (\<lambda>c. c \<in> set cutset) (rev s))"

definition blanks :: string where "blanks = [CHR '' '', CHR 0x09, CHR 0x0D]"

definition renderTrivia :: "Trivia \<Rightarrow> (doc \<times> bool) building" where
  "renderTrivia trivia b =
    (case TriviaOf trivia of
       LineCommentTrivia \<Rightarrow> ((dText (TrimRight blanks (TriviaLexeme trivia)), False), b\<lparr>b_openComment := False\<rparr>)
     | BlockCommentTrivia \<Rightarrow>
         let continuation = b_openComment b \<and> \<not> HasPrefix (TriviaLexeme trivia) ''/*'';
             b1 = b\<lparr>b_openComment := \<not> HasSuffix (TrimRight blanks (TriviaLexeme trivia)) ''*/''\<rparr>
         in if continuation then ((dConcat [dRaw, dText (TriviaLexeme trivia)], True), b1)
            else ((dText (TriviaLexeme trivia), False), b1)
     | WhitespaceTrivia \<Rightarrow> ((dConcat [], False), b))"

primrec triviaDocs :: "Trivia list \<Rightarrow> doc list building" where
  "triviaDocs [] b = ([], b)"
| "triviaDocs (t # ts) b =
    (case TriviaOf t of
       LineCommentTrivia \<Rightarrow>
         (let ((d, _), b1) = renderTrivia t b; (ds, b2) = triviaDocs ts b1 in (d # ds, b2))
     | BlockCommentTrivia \<Rightarrow>
         (let ((d, _), b1) = renderTrivia t b; (ds, b2) = triviaDocs ts b1 in (d # dText '' '' # ds, b2))
     | WhitespaceTrivia \<Rightarrow> triviaDocs ts b)"

definition leadingTriviaDoc :: "doc building" where
  "leadingTriviaDoc b = (let (ds, b1) = triviaDocs (LeadingTrivia (b_current b)) b in (dConcat ds, b1))"

definition leaf :: "doc building" where
  "leaf b = (let (trivia, b1) = leadingTriviaDoc b; (consumed, b2) = b_advance b1
    in (dConcat [trivia, dText (Lexeme consumed)], b2))"

definition isEmptyDoc :: "doc \<Rightarrow> bool" where
  "isEmptyDoc d = (case d of dConcat ds \<Rightarrow> ds = [] | dText s \<Rightarrow> s = [] | _ \<Rightarrow> False)"

subsection \<open>Separators\<close>

record gapState =
  gapInline :: doc
  gapHaveInline :: bool
  gapStandalone :: "doc list"
  gapSeenNewline :: bool
  gapBlankRun :: nat

fun gapTrivia :: "Trivia list \<Rightarrow> gapState \<Rightarrow> bool \<Rightarrow> (gapState \<times> bool) building" where
  "gapTrivia [] g hadComment b = ((g, hadComment), b)"
| "gapTrivia (t # ts) g hadComment b =
    (if TriviaOf t \<noteq> LineCommentTrivia \<and> TriviaOf t \<noteq> BlockCommentTrivia then gapTrivia ts g hadComment b
     else
       (case renderTrivia t b of
          ((rendered, continuation), b1) \<Rightarrow>
            if \<not> gapSeenNewline g \<and> \<not> gapHaveInline g
            then gapTrivia ts (g\<lparr>gapInline := rendered, gapHaveInline := True\<rparr>) True b1
            else gapTrivia ts (g\<lparr>gapStandalone := gapStandalone g
                @ (if gapStandalone g \<noteq> [] \<and> \<not> continuation then [dHard] else []) @ [rendered]\<rparr>) True b1))"

text \<open>Comments change only the flag of an open comment.\<close>

lemma renderTrivia_state:
  "renderTrivia t b = (r, b1) \<Longrightarrow> \<exists>c. b1 = b\<lparr>b_openComment := c\<rparr>"
  by (cases "TriviaOf t") (auto simp: renderTrivia_def Let_def split: if_splits intro: exI [of _ "b_openComment b"])

lemma gapTrivia_state: "gapTrivia ts g h b = (r, b1) \<Longrightarrow> \<exists>c. b1 = b\<lparr>b_openComment := c\<rparr>"
proof (induction ts g h b arbitrary: r b1 rule: gapTrivia.induct)
  case (1 g h b)
  then show ?case by (auto intro: exI [of _ "b_openComment b"])
next
  case (2 t ts g h b)
  show ?case
  proof (cases "TriviaOf t = WhitespaceTrivia")
    case True
    then show ?thesis using 2 by simp
  next
    case False
    then have comment: "\<not> (TriviaOf t \<noteq> LineCommentTrivia \<and> TriviaOf t \<noteq> BlockCommentTrivia)"
      by (cases "TriviaOf t") auto
    obtain d k b' where r: "renderTrivia t b = ((d, k), b')" by (metis prod.exhaust)
    obtain c where c: "b' = b\<lparr>b_openComment := c\<rparr>" using renderTrivia_state [OF r] by blast
    have "\<exists>c. b1 = b'\<lparr>b_openComment := c\<rparr>"
      using 2(2,3) [OF comment r [symmetric]] 2(4) comment r by (auto split: if_splits)
    then show ?thesis using c by auto
  qed
qed

function gapLoop :: "gapState \<Rightarrow> gapState building" where
  "gapLoop g b =
    (if notLast b \<and> KindOf (b_current b) \<in> {Newline, Comma} then
       (case gapTrivia (LeadingTrivia (b_current b)) g False b of
          ((g1, hadComment), b1) \<Rightarrow>
            gapLoop
              (if KindOf (b_current b) = Newline
               then g1\<lparr>gapSeenNewline := True, gapBlankRun := (if hadComment then 0 else Suc (gapBlankRun g1))\<rparr>
               else g1)
              (snd (b_advance b1)))
     else (g, b))"
  by pat_completeness auto
termination
  by (relation "measure (\<lambda>(g, b). length (b_tokens b) - b_cursor b)")
    (auto dest!: gapTrivia_state [OF sym] simp: b_advance_def notLast_def)

declare gapLoop.simps [simp del]

definition gapParts :: "(doc \<times> doc \<times> bool) building" where
  "gapParts b =
    (let (g, b1) = gapLoop \<lparr>gapInline = dText [], gapHaveInline = False, gapStandalone = [],
           gapSeenNewline = False, gapBlankRun = 0\<rparr> b
     in ((gapInline g, dConcat (gapStandalone g), gapBlankRun g \<ge> 2), b1))"

definition b_gap :: "doc building" where
  "b_gap b =
    (let ((inline, standalone, _), b1) = gapParts b
     in (if isEmptyDoc inline then standalone else if isEmptyDoc standalone then inline
         else dConcat [inline, dHard, standalone], b1))"

definition withGapSeparator :: "doc \<Rightarrow> bool \<Rightarrow> doc" where
  "withGapSeparator gapDoc blank =
    (let trailer = (if blank then dConcat [dRaw, dHard] else dHard)
     in if isEmptyDoc gapDoc then trailer else dConcat [dHard, gapDoc, trailer])"

definition gapSeparated :: "doc building" where
  "gapSeparated b = (let (g, b1) = b_gap b in (withGapSeparator g False, b1))"

subsection \<open>Statement lists and braces\<close>

primrec stmtLoop :: "doc building list \<Rightarrow> doc list building" where
  "stmtLoop [] b = ([], b)"
| "stmtLoop (f # fs) b =
    (let (d, b1) = f b; ((inline, standalone, blank), b2) = gapParts b1; (ds, b3) = stmtLoop fs b2
     in ([d] @ (if isEmptyDoc inline then [] else [dText '' '', inline])
           @ (if fs = [] then (if isEmptyDoc standalone then [] else [dHard, standalone])
              else [withGapSeparator standalone blank]) @ ds, b3))"

definition stmtSeq :: "doc building list \<Rightarrow> doc list building" where
  "stmtSeq statements b =
    (let (lead, b1) = b_gap b; (ds, b2) = stmtLoop statements b1
     in ((if isEmptyDoc lead then [] else [lead, dHard]) @ ds, b2))"

text \<open>The braces of \<open>bracedStmts\<close> and \<open>stateBody\<close>.\<close>

definition braced :: "bool \<Rightarrow> doc list building \<Rightarrow> doc building" where
  "braced nothing body b =
    (let (opening, b1) = leaf b
     in if nothing then
          let (inner, b2) = b_gap b1; (closing, b3) = leaf b2
          in (if isEmptyDoc inner then dConcat [opening, closing]
              else dConcat [opening, dIndent (dConcat [dHard, inner]), dHard, closing], b3)
        else
          let (ds, b2) = body b1; (closing, b3) = leaf b2
          in (dConcat [opening, dIndent (dConcat (dHard # ds)), dHard, closing], b3))"

definition bracedStmts :: "doc building list \<Rightarrow> doc building" where
  "bracedStmts statements = braced (statements = []) (stmtSeq statements)"

subsection \<open>Types and modifiers\<close>

definition scopeModifiers :: "Kind set" where
  "scopeModifiers = {KeywordLocal, KeywordGlobal, KeywordConstant, KeywordConfidential}"

definition flavorModifiers :: "Kind set" where
  "flavorModifiers = {KeywordOverload, KeywordOverride}"

lemma leaf_state:
  "leaf b = (d, b1) \<Longrightarrow> \<exists>c. b1 = b\<lparr>b_openComment := c, b_cursor := (if notLast b then Suc (b_cursor b) else b_cursor b)\<rparr>"
proof -
  assume leaf: "leaf b = (d, b1)"
  have "\<exists>c. b2 = b\<lparr>b_openComment := c\<rparr>" if "triviaDocs ts b = (ds, b2)" for ts ds b b2
    using that
  proof (induction ts arbitrary: b ds b2)
    case Nil
    then show ?case by (auto intro: exI [of _ "b_openComment b"])
  next
    case (Cons t ts)
    obtain r b' where r: "renderTrivia t b = (r, b')" by fastforce
    then obtain c where "b' = b\<lparr>b_openComment := c\<rparr>" using renderTrivia_state by blast
    then show ?case using Cons r by (cases "TriviaOf t") (fastforce split: prod.splits)+
  qed
  then obtain ds c b2 where "triviaDocs (LeadingTrivia (b_current b)) b = (ds, b2)" "b2 = b\<lparr>b_openComment := c\<rparr>"
    by (metis prod.exhaust)
  then show ?thesis
    using leaf by (auto simp: leaf_def leadingTriviaDoc_def b_advance_def notLast_def)
qed

function modifierDocs :: "doc list \<Rightarrow> doc option \<Rightarrow> doc building" where
  "modifierDocs scope flavor b =
    (if notLast b \<and> KindOf (b_current b) \<in> scopeModifiers then
       (case leaf b of (d, b1) \<Rightarrow> modifierDocs (scope @ [d, dText '' '']) flavor b1)
     else if notLast b \<and> KindOf (b_current b) \<in> flavorModifiers then
       (case leaf b of (d, b1) \<Rightarrow> modifierDocs scope (Some (dConcat [d, dText '' ''])) b1)
     else (dConcat (scope @ (case flavor of None \<Rightarrow> [] | Some f \<Rightarrow> [f])), b))"
  by pat_completeness auto
termination
  by (relation "measure (\<lambda>(scope, flavor, b). length (b_tokens b) - b_cursor b)")
    (auto dest!: leaf_state [OF sym] leaf_state simp: notLast_def)

declare modifierDocs.simps [simp del]

definition declarationModifiers :: "doc building" where
  "declarationModifiers = modifierDocs [] None"

definition nullableSuffix :: "doc building" where
  "nullableSuffix b = (if KindOf (b_current b) \<noteq> Question then (dConcat [], b) else leaf b)"

function skipGapSilently :: "builder \<Rightarrow> builder" where
  "skipGapSilently b =
    (if notLast b \<and> KindOf (b_current b) = Newline then skipGapSilently (snd (b_advance b)) else b)"
  by pat_completeness auto
termination
  by (relation "measure (\<lambda>b. length (b_tokens b) - b_cursor b)") (auto simp: b_advance_def notLast_def)

declare skipGapSilently.simps [simp del]

primrec argumentDocs :: "doc building list \<Rightarrow> bool \<Rightarrow> doc list building" where
  "argumentDocs [] first b = ([], b)"
| "argumentDocs (f # fs) first b =
    (let (d, b1) = f b;
         b2 = (if KindOf (b_current b1) = Comma then snd (b_advance b1) else b1);
         (ds, b3) = argumentDocs fs False (skipGapSilently b2)
     in ((if first then [] else [dText '', '']) @ [d] @ ds, b3))"

text \<open>\<open>typeRef\<close> on a node with the given arguments.\<close>

definition typeRefWith :: "doc building list \<Rightarrow> doc building" where
  "typeRefWith arguments b =
    (let (name, b1) = leaf b
     in if KindOf (b_current b1) \<noteq> Less then
          let (suffix, b2) = nullableSuffix b1 in (dConcat [name, suffix], b2)
        else
          let (opening, b2) = leaf b1; (ds, b3) = argumentDocs arguments True (skipGapSilently b2);
              (closing, b4) = leaf b3; (suffix, b5) = nullableSuffix b4
          in (dConcat [name, opening, dConcat ds, closing, suffix], b5))"

primrec buildTypeRef :: "TypeRef \<Rightarrow> doc building" where
  "buildTypeRef (TypeRef s n arguments explicit null) = typeRefWith (map buildTypeRef arguments)"

subsection \<open>Bracketed constructs\<close>

primrec groupItems :: "doc building list \<Rightarrow> bool \<Rightarrow> (doc list \<times> bool) building" where
  "groupItems [] first b = (([], False), b)"
| "groupItems (f # fs) first b =
    (let (d, b1) = f b; (trailing, b2) = b_gap b1; ((ds, forced), b3) = groupItems fs False b2
     in (((if first then [] else [ifBreak dHard (dText '', '')]) @ [d]
            @ (if isEmptyDoc trailing then [] else [dHard, trailing]) @ ds,
          \<not> isEmptyDoc trailing \<or> forced), b3))"

definition delimitedGroup :: "doc building list \<Rightarrow> doc building" where
  "delimitedGroup items b =
    (let (opening, b1) = leaf b; (lead, b2) = b_gap b1
     in if isEmptyDoc lead \<and> items = [] then
          let (closing, b3) = leaf b2 in (dConcat [opening, closing], b3)
        else
          let ((ds, forced), b3) = groupItems items True b2; (closing, b4) = leaf b3;
              body = (if isEmptyDoc lead then [] else if items = [] then [lead] else [lead, dHard]) @ ds;
              inner = dConcat [opening, dIndent (dConcat (ifBreak dHard (dText []) # body)),
                ifBreak dHard (dText []), closing]
          in (if \<not> isEmptyDoc lead \<or> forced then dBreakGroup inner else dGroup inner, b4))"

definition captureItem :: "doc building" where
  "captureItem b =
    (if KindOf (b_current b) \<in> {KeywordLocal, KeywordGlobal} then concatOf [leaf, space, leaf] b
     else concatOf [leaf, leaf] b)"

definition captureGroup :: "nat \<Rightarrow> doc building" where
  "captureGroup n = delimitedGroup (replicate n captureItem)"

definition binaryOperatorLeaf :: "string \<Rightarrow> doc building" where
  "binaryOperatorLeaf oper =
    (if oper \<in> {''is not'', ''has not'', ''not in''} then concatOf [leaf, space, leaf] else leaf)"

definition sourceSlice :: "File \<Rightarrow> Span \<Rightarrow> string" where
  "sourceSlice file span = slice (Text file) (nat (Offset (Start span))) (nat (Offset (End span)))"

definition verbatimSpan :: "Span \<Rightarrow> doc building" where
  "verbatimSpan span b =
    (let (trivia, b1) = leadingTriviaDoc b;
         skipped = takeWhile (\<lambda>t. Offset (Start (TokenSpan t)) < Offset (End span)) (drop (b_cursor b1) (b_tokens b1))
     in (dConcat [trivia, dText (sourceSlice (b_file b) span)], b1\<lparr>b_cursor := b_cursor b1 + length skipped\<rparr>))"

subsection \<open>Expressions\<close>

text \<open>A list of parameters, arguments or entries, and the \<open>Default\<close> that may be missing.\<close>

definition optionally :: "doc building option \<Rightarrow> doc building list" where
  "optionally f = (case f of None \<Rightarrow> [] | Some f \<Rightarrow> [f])"

definition parameterItem_doc :: "bool \<Rightarrow> doc building \<Rightarrow> doc building option \<Rightarrow> doc building" where
  "parameterItem_doc inherited typeDoc initial =
    (if inherited then concatOf [leaf, leaf, leaf]
     else
       let result = concatOf [leaf, leaf, space, declarationModifiers, typeDoc]
       in case initial of None \<Rightarrow> result | Some f \<Rightarrow> concatOf [result, space, leaf, space, f])"

definition lambdaCaptures :: "nat \<Rightarrow> doc building" where
  "lambdaCaptures n b =
    (if KindOf (b_current b) = LeftBracket then concatOf [captureGroup n, space] b else (dText [], b))"

definition typeOrName :: "doc building option \<Rightarrow> doc building" where
  "typeOrName f = (case f of None \<Rightarrow> typeRefWith [] | Some f \<Rightarrow> f)"

primrec buildExpr :: "Expr \<Rightarrow> doc building"
    and buildParameter :: "Parameter \<Rightarrow> doc building"
    and buildArgument :: "CallArgument \<Rightarrow> doc building"
    and buildEntry :: "PairEntry \<Rightarrow> doc building"
    and buildPart :: "StringPart \<Rightarrow> doc building" where
  "buildExpr (BadExpr s) = leaf"
| "buildExpr (LiteralExpr s k raw v) = leaf"
| "buildExpr (IdentifierExpr s n raw) = leaf"
| "buildExpr (GroupExpr s e) = concatOf [leaf, b_gap, buildExpr e, b_gap, leaf]"
| "buildExpr (LambdaExpr s cs ps body) =
    concatOf [leaf, space, lambdaCaptures (length cs), delimitedGroup (map buildParameter ps), space, leaf, space, b_gap,
      buildExpr body]"
| "buildExpr (UnaryExpr s oper e) =
    (if oper = ''not'' then concatOf [leaf, space, b_gap, buildExpr e] else concatOf [leaf, b_gap, buildExpr e])"
| "buildExpr (BinaryExpr s l oper r) =
    concatOf [buildExpr l, space, binaryOperatorLeaf oper, space, b_gap, buildExpr r]"
| "buildExpr (CallExpr s e arguments) = concatOf [buildExpr e, delimitedGroup (map buildArgument arguments)]"
| "buildExpr (MemberExpr s e n) = concatOf [buildExpr e, leaf, leaf]"
| "buildExpr (IndexExpr s e i) = concatOf [buildExpr e, leaf, b_gap, buildExpr i, b_gap, leaf]"
| "buildExpr (SliceExpr s e lo hi) =
    concatOf ([buildExpr e, leaf, b_gap] @ optionally (map_option buildExpr lo) @ [b_gap, leaf, b_gap]
      @ optionally (map_option buildExpr hi) @ [b_gap, leaf])"
| "buildExpr (ListExpr s es) = delimitedGroup (map buildExpr es)"
| "buildExpr (PairExpr s ps) = delimitedGroup (map buildEntry ps)"
| "buildExpr (StringExpr s d ps) = verbatimSpan s"
| "buildParameter (Parameter s n ms ty d inherited) =
    parameterItem_doc inherited (typeOrName (map_option buildTypeRef ty)) (map_option buildExpr d)"
| "buildArgument (CallArgument s n e) =
    (if n = [] then buildExpr e else concatOf [leaf, leaf, space, buildExpr e])"
| "buildEntry (PairEntry s k v) = concatOf [buildExpr k, leaf, space, buildExpr v]"
| "buildPart (StringPart s t e) = leaf"

definition parameterGroup :: "Parameter list \<Rightarrow> doc building" where
  "parameterGroup parameters = delimitedGroup (map buildParameter parameters)"

subsection \<open>Statements\<close>

definition declHead :: "doc building \<Rightarrow> doc building \<Rightarrow> doc building" where
  "declHead target typeDoc = concatOf [target, leaf, space, declarationModifiers, typeDoc]"

text \<open>The declared name with its modifiers and type, and whether a modifier stands in front of the initializer.\<close>

definition variableHead :: "doc \<Rightarrow> TypeRef option \<Rightarrow> (doc \<times> bool) building" where
  "variableHead target ty b =
    (if KindOf (b_current b) = Colon then
       let (colon, b1) = leaf b; (modifiers, b2) = declarationModifiers b1;
           head = dConcat [target, colon, dText '' '', modifiers]
       in (case ty of
             Some ty \<Rightarrow> let (d, b3) = buildTypeRef ty b2 in ((dConcat [head, d], False), b3)
           | None \<Rightarrow> ((head, True), b2))
     else ((target, False), b))"

definition initializerDoc :: "Expr option \<Rightarrow> doc building" where
  "initializerDoc initializer = (case initializer of None \<Rightarrow> leaf | Some e \<Rightarrow> buildExpr e)"

definition variableDecl :: "Expr \<Rightarrow> TypeRef option \<Rightarrow> Expr option \<Rightarrow> bool \<Rightarrow> doc building" where
  "variableDecl target ty initializer globalOnly b =
    (let (t, b1) = buildExpr target b; ((head, inferredAfterModifier), b2) = variableHead t ty b1
     in if globalOnly then (head, b2)
        else
          let (declare, b3) = leaf b2; (i, b4) = initializerDoc initializer b3
          in (if inferredAfterModifier then dConcat [head, declare, dText '' '', i]
              else dConcat [head, dText '' '', declare, dText '' '', i], b4))"

definition usesDoc :: "nat \<Rightarrow> doc building" where
  "usesDoc n b =
    (if KindOf (b_current b) = KeywordUses then concatOf [space, leaf, space, captureGroup n] b else (dText [], b))"

definition functionDecl :: "Parameter list \<Rightarrow> TypeRef \<Rightarrow> nat \<Rightarrow> doc building \<Rightarrow> doc building" where
  "functionDecl parameters returnType captures body =
    concatOf [declHead leaf (typeRefWith []), space, leaf, space, parameterGroup parameters, space, leaf, space,
      buildTypeRef returnType, usesDoc captures, space, body]"

definition classDecl :: "TypeRef option \<Rightarrow> doc building list \<Rightarrow> doc building" where
  "classDecl parent members =
    concatOf [declHead leaf (typeRefWith (optionally (map_option buildTypeRef parent))), space, leaf, space,
      bracedStmts members]"

definition structureDecl :: "Parameter list \<Rightarrow> doc building option \<Rightarrow> doc building" where
  "structureDecl parameters body =
    concatOf ([declHead leaf (typeRefWith []), space, leaf, space, parameterGroup parameters]
      @ (case body of None \<Rightarrow> [] | Some f \<Rightarrow> [space, f]))"

primrec conditionDocs :: "doc list building list \<Rightarrow> doc list building" where
  "conditionDocs [] b = ([], b)"
| "conditionDocs (f # fs) b =
    (let (d, b1) = f b; (trailing, b2) = b_gap b1; (ds, b3) = conditionDocs fs b2
     in (d @ (if fs = [] then (if isEmptyDoc trailing then [] else [dHard, trailing])
              else [withGapSeparator trailing False]) @ ds, b3))"

definition stateBody :: "doc list building list \<Rightarrow> doc building" where
  "stateBody conditions =
    braced (conditions = [])
      (\<lambda>b. let (lead, b1) = b_gap b; (ds, b2) = conditionDocs conditions b1
           in ((if isEmptyDoc lead then [] else [lead, dHard]) @ ds, b2))"

primrec ifBranches :: "doc building list list \<Rightarrow> doc building list" where
  "ifBranches [] = []"
| "ifBranches (branch # branches) =
    [leaf, space] @ branch
    @ concat (map (\<lambda>branch. [gapSeparated, leaf, space, leaf, space] @ branch) branches)"

definition elsePart :: "doc building option \<Rightarrow> doc building list" where
  "elsePart body = (case body of None \<Rightarrow> [] | Some f \<Rightarrow> [gapSeparated, leaf, space, f])"

definition exceptName :: "string \<Rightarrow> doc building" where
  "exceptName name = (if name \<noteq> [] then concatOf [space, leaf, space, leaf] else fixed (dText []))"

definition requireStmt :: "Span \<Rightarrow> bool \<Rightarrow> doc building" where
  "requireStmt pathSpan literal =
    concatOf [leaf, leaf, (if literal \<and> \<not> Span_Empty pathSpan then verbatimSpan pathSpan else b_gap), leaf]"

definition bringNames :: "nat \<Rightarrow> doc building" where
  "bringNames n b =
    (if KindOf (b_current b) = LeftParen then delimitedGroup (replicate n leaf) b else leaf b)"

definition bringStmt :: "string \<Rightarrow> bool \<Rightarrow> bool \<Rightarrow> nat \<Rightarrow> doc building" where
  "bringStmt alias namespace all n =
    (if namespace then
       (if alias = [] then concatOf [leaf, space, leaf]
        else concatOf [concatOf [leaf, space, leaf], space, leaf, space, leaf])
     else concatOf [concatOf [leaf, space, leaf, space, leaf, space], (if all then leaf else bringNames n)])"

primrec buildStmt :: "Stmt \<Rightarrow> doc building"
    and buildBlock :: "Block \<Rightarrow> doc building"
    and buildBranch :: "ConditionalBlock \<Rightarrow> doc building list"
    and buildCondition :: "StateCondition \<Rightarrow> doc list building"
    and buildExcept :: "ExceptClause \<Rightarrow> doc building list" where
  "buildStmt (BadStmt s) = leaf"
| "buildStmt (ExprStmt s e) = buildExpr e"
| "buildStmt (VariableDecl s t n ms ty i globalOnly inferred) = variableDecl t ty i globalOnly"
| "buildStmt (AssignmentStmt s t oper v) = concatOf [buildExpr t, space, leaf, space, buildExpr v]"
| "buildStmt (IncDecStmt s t oper pre) = (if pre then concatOf [leaf, buildExpr t] else concatOf [buildExpr t, leaf])"
| "buildStmt (ReturnStmt s v) = (case v of None \<Rightarrow> leaf | Some e \<Rightarrow> concatOf [leaf, space, buildExpr e])"
| "buildStmt (TossStmt s v) = concatOf [leaf, space, buildExpr v]"
| "buildStmt (BreakStmt s) = leaf"
| "buildStmt (ContinueStmt s) = leaf"
| "buildStmt (IfStmt s branches otherwise) =
    concatOf (ifBranches (map buildBranch branches) @ elsePart (map_option buildBlock otherwise))"
| "buildStmt (WhileStmt s c body) = concatOf [leaf, space, buildExpr c, space, buildBlock body]"
| "buildStmt (UntilStmt s c body) = concatOf [leaf, space, buildExpr c, space, buildBlock body]"
| "buildStmt (ForStmt s n ty e body) =
    concatOf [leaf, space, leaf,
      (case ty of None \<Rightarrow> fixed (dText []) | Some ty \<Rightarrow> concatOf [leaf, space, buildTypeRef ty]),
      space, leaf, space, buildExpr e, space, buildBlock body]"
| "buildStmt (StateStmt s v conditions) =
    concatOf [leaf, space, buildExpr v, space, stateBody (map buildCondition conditions)]"
| "buildStmt (AttemptStmt s body excepts ultimately) =
    concatOf ([leaf, space, buildBlock body] @ concat (map buildExcept excepts)
      @ elsePart (map_option buildBlock ultimately))"
| "buildStmt (BringStmt s m alias namespace all names) = bringStmt alias namespace all (length names)"
| "buildStmt (RequireStmt s p pathSpan literal) = requireStmt pathSpan literal"
| "buildStmt (FunctionDecl s n ms fl ps ty cs body) = functionDecl ps ty (length cs) (buildBlock body)"
| "buildStmt (ClassDecl s n ms p explicit members) = classDecl p (map buildStmt members)"
| "buildStmt (StructureDecl s ps body) = structureDecl ps (map_option buildBlock body)"
| "buildBlock (Block s statements) = bracedStmts (map buildStmt statements)"
| "buildBranch (ConditionalBlock s c body) = [buildExpr c, space, buildBlock body]"
| "buildCondition (StateCondition s m isDefault body) =
    seqDocs [leaf, space, (if isDefault then leaf else case m of None \<Rightarrow> leaf | Some e \<Rightarrow> buildExpr e), space,
      buildBlock body]"
| "buildExcept (ExceptClause s ty n body) =
    [gapSeparated, leaf, space, buildTypeRef ty, exceptName n, space, buildBlock body]"

definition buildProgram :: "Program \<Rightarrow> doc building" where
  "buildProgram p b = (let (ds, b1) = stmtSeq (map buildStmt (Statements p)) b in (dConcat ds, b1))"

subsection \<open>Formatting a file\<close>

record FormatResult =
  FormattedText :: string
  FormatDiagnostics :: "Diagnostic list"

definition FormatResult_HasErrors :: "FormatResult \<Rightarrow> bool" where
  "FormatResult_HasErrors result = list_ex (\<lambda>d. Sev d = SeverityError) (FormatDiagnostics result)"

definition Format :: "unicode \<Rightarrow> File \<Rightarrow> FormatResult option" where
  "Format uc file = do {
    lexed \<leftarrow> Lex uc file;
    parsed \<leftarrow> Parse file (ResTokens lexed);
    let result = \<lparr>FormattedText = [], FormatDiagnostics = ResDiagnostics lexed @ ResParseDiagnostics parsed\<rparr>;
    if FormatResult_HasErrors result then Some result
    else
      (let b = \<lparr>b_file = file, b_tokens = ResParseTokens parsed, b_cursor = 0, b_openComment = False\<rparr>;
           root = fst (buildProgram (ResProgram parsed) b);
           rendered = TrimRight (blanks @ [lineFeed]) (render root maxLineWidth)
       in if rendered = [] then Some result
          else Some (result\<lparr>FormattedText := rendered @ [lineFeed]\<rparr>))
  }"

end
