(* ===== verification/LayoutProofs.thy ===== *)
theory LayoutProofs
  imports Layout
begin

text \<open>
  What the layout of a document keeps: the pieces of text that are not glue, in their order, whatever the
  width is; and what a group on one line means for the width of the line.
\<close>

subsection \<open>Pieces and glue\<close>

definition glue :: "string \<Rightarrow> bool" where
  "glue s \<longleftrightarrow> set s \<subseteq> {CHR '' '', CHR '','', lineFeed}"

lemma glue_simps [simp]: "glue []" "glue (c # s) \<longleftrightarrow> c \<in> {CHR '' '', CHR '','', lineFeed} \<and> glue s"
  "glue (s @ t) \<longleftrightarrow> glue s \<and> glue t"
  by (auto simp: glue_def)

lemma glue_padding [simp]: "glue (padding n)"
  by (induction n) (auto simp: padding_def)

text \<open>\<open>spells d pieces\<close>: in either mode, \<open>d\<close> prints \<open>pieces\<close> in this order, and glue.\<close>

inductive spells :: "doc \<Rightarrow> string list \<Rightarrow> bool"
  and spellsAll :: "doc list \<Rightarrow> string list \<Rightarrow> bool" where
  spells_glue: "glue s \<Longrightarrow> spells (dText s) []"
| spells_piece: "spells (dText s) [s]"
| spells_hard: "spells dHard []"
| spells_raw: "spells dRaw []"
| spells_concat: "spellsAll ds ps \<Longrightarrow> spells (dConcat ds) ps"
| spells_indent: "spells d ps \<Longrightarrow> spells (dIndent d) ps"
| spells_group: "spells d ps \<Longrightarrow> spells (dGroup d) ps"
| spells_breakGroup: "spells d ps \<Longrightarrow> spells (dBreakGroup d) ps"
| spells_ifBreak: "spells f ps \<Longrightarrow> spells b ps \<Longrightarrow> spells (dIfBreak f b) ps"
| spellsAll_Nil: "spellsAll [] []"
| spellsAll_Cons: "spells d ps \<Longrightarrow> spellsAll ds qs \<Longrightarrow> spellsAll (d # ds) (ps @ qs)"

inductive_simps spells_dText: "spells (dText s) ps"
inductive_simps spells_dHard [simp]: "spells dHard ps"
inductive_simps spells_dRaw [simp]: "spells dRaw ps"
inductive_simps spells_dConcat [simp]: "spells (dConcat ds) ps"
inductive_simps spells_dIndent [simp]: "spells (dIndent d) ps"
inductive_simps spells_dGroup [simp]: "spells (dGroup d) ps"
inductive_simps spells_dBreakGroup [simp]: "spells (dBreakGroup d) ps"
inductive_simps spells_dIfBreak [simp]: "spells (dIfBreak f b) ps"
inductive_simps spellsAll_empty [simp]: "spellsAll [] ps"
inductive_simps spellsAll_item: "spellsAll (d # ds) ps"

lemma spellsAll_append: "spellsAll (ds @ es) ps \<longleftrightarrow> (\<exists>qs rs. ps = qs @ rs \<and> spellsAll ds qs \<and> spellsAll es rs)"
proof (induction ds arbitrary: ps)
  case (Cons d ds)
  show ?case by (simp add: spellsAll_item Cons) (metis append.assoc)
qed simp

lemma spellsAll_appendI: "spellsAll ds ps \<Longrightarrow> spellsAll es qs \<Longrightarrow> spellsAll (ds @ es) (ps @ qs)"
  by (auto simp: spellsAll_append)

text \<open>A text that is the pieces with glue between them.\<close>

inductive interleaves :: "string list \<Rightarrow> string \<Rightarrow> bool" where
  interleaves_end: "glue g \<Longrightarrow> interleaves [] g"
| interleaves_piece: "glue g \<Longrightarrow> interleaves ps out \<Longrightarrow> interleaves (p # ps) (g @ p @ out)"

lemma interleaves_glue: "interleaves ps out \<Longrightarrow> glue g \<Longrightarrow> interleaves ps (g @ out)"
proof (induction rule: interleaves.induct)
  case (interleaves_piece h ps out p)
  then show ?case using interleaves.interleaves_piece [of "g @ h" ps out p] by simp
qed (auto intro: interleaves.intros)

lemma interleaves_next: "interleaves ps out \<Longrightarrow> interleaves (p # ps) (p @ out)"
  using interleaves_piece [of "[]" ps out p] by simp

lemma renderLoop_spells:
  "spellsAll (map workDoc stack) ps \<Longrightarrow> \<exists>rest. renderLoop width out col stack = out @ rest \<and> interleaves ps rest"
proof (induction width out col stack arbitrary: ps rule: renderLoop.induct)
  case (1 width out col stack)
  show ?case
  proof (cases stack)
    case Nil
    then show ?thesis using "1.prems" by (auto intro: interleaves_end)
  next
    case (Cons item stack')
    obtain qs rs where ps: "ps = qs @ rs" "spells (workDoc item) qs" "spellsAll (map workDoc stack') rs"
      using "1.prems" Cons by (auto simp: spellsAll_item)
    have resume: "spellsAll (d # map workDoc stack') ps" if "spells d qs" for d
      using spellsAll_Cons [OF that ps(3)] ps(1) by simp
    show ?thesis
    proof (cases "workDoc item")
      case (dText s)
      obtain rest where "renderLoop width (out @ s) (columnAfter col s) stack' = (out @ s) @ rest" "interleaves rs rest"
        using "1.IH"(1) [OF Cons dText ps(3)] by blast
      moreover have "qs = [s] \<or> glue s \<and> qs = []" using ps(2) dText by (auto simp: spells_dText)
      ultimately show ?thesis
        using ps(1) dText Cons by (auto simp: renderLoop_cases intro: interleaves_next interleaves_glue)
    next
      case dHard
      define pad where "pad = padding (workInd item)"
      obtain rest where "renderLoop width (out @ [lineFeed] @ pad) (int (length pad)) stack' = (out @ [lineFeed] @ pad) @ rest"
        "interleaves rs rest"
        using "1.IH"(2) [OF Cons dHard pad_def ps(3)] by blast
      then show ?thesis
        using ps dHard Cons interleaves_glue [of rs rest "lineFeed # pad"]
        by (simp add: renderLoop_cases pad_def)
    next
      case dRaw
      obtain rest where "renderLoop width (out @ [lineFeed]) 0 stack' = (out @ [lineFeed]) @ rest" "interleaves rs rest"
        using "1.IH"(3) [OF Cons dRaw ps(3)] by blast
      then show ?thesis
        using ps dRaw Cons interleaves_glue [of rs rest "[lineFeed]"] by (simp add: renderLoop_cases)
    next
      case (dConcat ds)
      have "spellsAll (map workDoc (spliceChildren stack' item ds)) ps"
        using ps dConcat by (auto simp: spliceChildren_def spellsAll_append comp_def)
      then show ?thesis
        using "1.IH"(4) [OF Cons dConcat] Cons dConcat by (simp add: renderLoop_cases)
    next
      case (dIndent d)
      then show ?thesis
        using "1.IH"(5) [OF Cons dIndent, of ps] Cons ps(2) by (simp add: renderLoop_cases resume)
    next
      case (dGroup d)
      then show ?thesis
        using "1.IH"(6) [OF Cons dGroup refl _ , of ps] "1.IH"(7) [OF Cons dGroup refl _, of ps] Cons ps(2)
        by (simp add: renderLoop_cases resume)
    next
      case (dBreakGroup d)
      then show ?thesis
        using "1.IH"(8) [OF Cons dBreakGroup, of ps] Cons ps(2) by (simp add: renderLoop_cases resume)
    next
      case (dIfBreak f b)
      then show ?thesis
        using "1.IH"(9) [OF Cons dIfBreak, of ps] Cons ps(2) by (simp add: renderLoop_cases resume)
    qed
  qed
qed

lemma renderLoop_prefix: "\<exists>rest. renderLoop width out col stack = out @ rest"
proof (induction width out col stack rule: renderLoop.induct)
  case (1 width out col stack)
  show ?case
  proof (cases stack)
    case (Cons item stack')
    then show ?thesis
      using "1.IH" [OF Cons] by (cases "workDoc item") (fastforce simp: renderLoop_cases)+
  qed simp
qed

lemma render_spells: "spells root ps \<Longrightarrow> interleaves ps (render root width)"
  using renderLoop_spells [of "[\<lparr>workInd = 0, workMode = modeBreak, workDoc = root\<rparr>]" ps width "[]" 0]
  by (auto simp: render_def spellsAll_item)

subsection \<open>Width\<close>

text \<open>Joining two texts joins at most the bytes of one rune.\<close>

lemma four_bytes:
  obtains "s = []" | c0 where "s = [c0]" | c0 c1 where "s = [c0, c1]" | c0 c1 c2 where "s = [c0, c1, c2]"
  | c0 c1 c2 c3 cs where "s = c0 # c1 # c2 # c3 # cs"
  by (metis list.exhaust)

lemma decode_prefix:
  "snd (decode2 b (s @ t)) \<le> Suc (length s) \<Longrightarrow> decode2 b (s @ t) = decode2 b s"
  "snd (decode3 b (s @ t)) \<le> Suc (length s) \<Longrightarrow> decode3 b (s @ t) = decode3 b s"
  "snd (decode4 b (s @ t)) \<le> Suc (length s) \<Longrightarrow> decode4 b (s @ t) = decode4 b s"
  subgoal by (cases s) (auto simp: decode2_def split: list.splits if_splits)
  subgoal by (cases s rule: four_bytes) (auto simp: decode3_def split: list.splits if_splits)
  subgoal by (cases s rule: four_bytes) (auto simp: decode4_def split: list.splits if_splits)
  done

lemma DecodeRune_of_prefix:
  "s \<noteq> [] \<Longrightarrow> snd (DecodeRune (s @ t)) \<le> length s \<Longrightarrow> DecodeRune (s @ t) = DecodeRune s"
  by (cases s) (auto simp: DecodeRune_def Let_def intro: decode_prefix)

lemma continuation_bytes:
  assumes "i < snd (DecodeRune s)" "0 < i"
  shows "0x80 \<le> byteOf (s ! i) \<and> byteOf (s ! i) \<le> 0xBF"
proof -
  have "i = 1 \<or> i = 2 \<or> i = 3 \<or> 4 \<le> i" using assms(2) by linarith
  with assms(1) show ?thesis
    by (cases s rule: four_bytes) (auto simp: decode_defs Let_def split: if_splits)
qed

lemma RuneCount_continuation:
  assumes "0x80 \<le> byteOf c" "byteOf c \<le> 0xBF"
  shows "RuneCount (c # s) = Suc (RuneCount s)"
proof -
  have "snd (DecodeRune (c # s)) = 1" using assms by (auto simp: DecodeRune_def)
  then show ?thesis using RuneCount_step [of "c # s"] by simp
qed

lemma RuneCount_drop:
  "\<forall>i < n. 0x80 \<le> byteOf (s ! i) \<and> byteOf (s ! i) \<le> 0xBF \<Longrightarrow> RuneCount (drop n s) \<le> RuneCount s"
proof (induction n arbitrary: s)
  case (Suc n)
  show ?case
  proof (cases s)
    case (Cons c t)
    then have "RuneCount (drop n t) \<le> RuneCount t" using Suc.prems by (intro Suc.IH) auto
    moreover have "RuneCount s = Suc (RuneCount t)"
      using Suc.prems Cons RuneCount_continuation [of c t] by auto
    ultimately show ?thesis using Cons by simp
  qed simp
qed simp

lemma RuneCount_append: "RuneCount (s @ t) \<le> RuneCount s + RuneCount t"
proof (induction s rule: length_induct)
  case (1 s)
  show ?case
  proof (cases "s = []")
    case False
    define n where "n = snd (DecodeRune (s @ t))"
    have step: "RuneCount (s @ t) = Suc (RuneCount (drop n (s @ t)))"
      using False unfolding n_def by (intro RuneCount_step) simp
    show ?thesis
    proof (cases "n \<le> length s")
      case True
      then have n: "n = snd (DecodeRune s)" using DecodeRune_of_prefix [of s t] False by (simp add: n_def)
      then have "length (drop n s) < length s" using False DecodeRune_size_pos [of s] by simp
      then have "RuneCount (drop n s @ t) \<le> RuneCount (drop n s) + RuneCount t" using 1 by blast
      then show ?thesis using step True n RuneCount_step [OF False] by simp
    next
      case beyond: False
      have "RuneCount (drop (n - length s) t) \<le> RuneCount t"
      proof (intro RuneCount_drop allI impI)
        fix i assume "i < n - length s"
        then show "0x80 \<le> byteOf (t ! i) \<and> byteOf (t ! i) \<le> 0xBF"
          using continuation_bytes [of "length s + i" "s @ t"] False by (simp add: n_def)
      qed
      then show ?thesis using step beyond RuneCount_step [OF False] by simp
    qed
  qed simp
qed

lemma runeWidth_concat: "runeWidth (concat ps) \<le> sum_list (map runeWidth ps)"
proof (induction ps)
  case (Cons p ps)
  then show ?case using RuneCount_append [of p "concat ps"] by (simp add: runeWidth_def)
qed (simp add: runeWidth_def)

text \<open>
  The line ahead, when every group on it is printed flat: its texts up to the first break that is certain,
  and the stack from that break on. Certain breaks are the forced line ends, a text of several lines and a
  group that is always broken.
\<close>

primrec breaksLine :: "doc \<Rightarrow> bool" where
  "breaksLine (dText s) = (lineFeed \<in> set s)"
| "breaksLine dHard = True"
| "breaksLine dRaw = True"
| "breaksLine (dConcat ds) = False"
| "breaksLine (dIndent d) = False"
| "breaksLine (dGroup d) = False"
| "breaksLine (dBreakGroup d) = True"
| "breaksLine (dIfBreak f b) = False"

function lineAhead :: "workItem list \<Rightarrow> string list \<times> workItem list" where
  "lineAhead stack =
    (case stack of
       [] \<Rightarrow> ([], [])
     | item # rest \<Rightarrow>
         if breaksLine (workDoc item) then ([], stack)
         else
           (case workDoc item of
              dText s \<Rightarrow> (s # fst (lineAhead rest), snd (lineAhead rest))
            | dConcat ds \<Rightarrow> lineAhead (spliceChildren rest item ds)
            | dIndent d \<Rightarrow> lineAhead (item\<lparr>workInd := workInd item + 1, workDoc := d\<rparr> # rest)
            | dIfBreak f b \<Rightarrow> lineAhead (item\<lparr>workDoc := (if workMode item = modeBreak then b else f)\<rparr> # rest)
            | dGroup d \<Rightarrow> lineAhead (item\<lparr>workMode := modeFlat, workDoc := d\<rparr> # rest)
            | _ \<Rightarrow> ([], stack)))"
  by pat_completeness auto
termination by (relation "measure stackWeight") auto

declare lineAhead.simps [simp del]

abbreviation lineTexts :: "workItem list \<Rightarrow> string list" where
  "lineTexts stack \<equiv> fst (lineAhead stack)"

abbreviation lineWidth :: "workItem list \<Rightarrow> int" where
  "lineWidth stack \<equiv> sum_list (map runeWidth (lineTexts stack))"

lemma lineWidth_nonneg: "0 \<le> lineWidth stack"
  by (rule sum_list_nonneg) (auto simp: runeWidth_def)

lemma lineAhead_Nil [simp]: "lineAhead [] = ([], [])"
  by (simp add: lineAhead.simps)

lemma lineAhead_ends:
  "(\<forall>s \<in> set (lineTexts stack). lineFeed \<notin> set s)
    \<and> (snd (lineAhead stack) = [] \<or> breaksLine (workDoc (hd (snd (lineAhead stack)))))"
proof (induction stack rule: lineAhead.induct)
  case (1 stack)
  show ?case
  proof (cases stack)
    case (Cons item rest)
    note here = lineAhead.simps [of "item # rest"]
    show ?thesis
    proof (cases "breaksLine (workDoc item)")
      case True
      then show ?thesis using Cons by (simp add: here)
    next
      case False
      show ?thesis
        using "1.IH" [OF Cons False] Cons False by (cases "workDoc item") (simp_all add: here)
    qed
  qed simp
qed

lemma fitsLoop_ahead: "fitsLoop w stack \<longleftrightarrow> 0 \<le> w \<and> lineWidth stack \<le> w"
proof (induction w stack rule: fitsLoop.induct)
  case (1 w stack)
  show ?case
  proof (cases "w < 0 \<or> stack = []")
    case True
    then show ?thesis using lineWidth_nonneg [of stack] by (auto simp: fitsLoop.simps [of w stack])
  next
    case False
    then obtain item rest where s: "stack = item # rest" "\<not> w < 0" by (cases stack) auto
    note here = fitsLoop.simps [of w "item # rest"] lineAhead.simps [of "item # rest"]
    show ?thesis
    proof (cases "workDoc item")
      case (dText t)
      have "0 \<le> runeWidth t" by (simp add: runeWidth_def)
      then show ?thesis using "1.IH"(1) [OF s(2,1) dText] s dText lineWidth_nonneg [of rest] by (auto simp: here)
    next
      case (dConcat ds)
      then show ?thesis using "1.IH"(2) [OF s(2,1) dConcat] s by (simp add: here)
    next
      case (dIndent d)
      then show ?thesis using "1.IH"(3) [OF s(2,1) dIndent] s by (simp add: here)
    next
      case (dGroup d)
      then show ?thesis using "1.IH"(4) [OF s(2,1) dGroup] s by (simp add: here)
    next
      case (dIfBreak f b)
      then show ?thesis using "1.IH"(5) [OF s(2,1) dIfBreak] s by (simp add: here)
    qed (use s in \<open>simp_all add: here\<close>)
  qed
qed

text \<open>A line that fits is printed as it is ahead: the layout goes on at the break, with the column behind it.\<close>

lemma renderLoop_ahead:
  "lineWidth stack \<le> width - col \<Longrightarrow>
   renderLoop width out col stack =
     renderLoop width (out @ concat (lineTexts stack)) (col + lineWidth stack) (snd (lineAhead stack))"
proof (induction width out col stack rule: renderLoop.induct)
  case (1 width out col stack)
  show ?case
  proof (cases stack)
    case (Cons item rest)
    note here = lineAhead.simps [of "item # rest"]
    show ?thesis
    proof (cases "breaksLine (workDoc item)")
      case True
      then show ?thesis using Cons by (simp add: here)
    next
      case False
      show ?thesis
      proof (cases "workDoc item")
        case (dText s)
        then show ?thesis
          using "1.IH"(1) [OF Cons dText] "1.prems" Cons False
          by (simp add: here renderLoop_cases(1) columnAfter_def algebra_simps)
      next
        case (dConcat ds)
        then show ?thesis
          using "1.IH"(4) [OF Cons dConcat] "1.prems" Cons by (simp add: here renderLoop_cases(4))
      next
        case (dIndent d)
        then show ?thesis
          using "1.IH"(5) [OF Cons dIndent] "1.prems" Cons by (simp add: here renderLoop_cases(5))
      next
        case (dGroup d)
        let ?flat = "item\<lparr>workMode := modeFlat, workDoc := d\<rparr>"
        have ahead: "lineAhead stack = lineAhead (?flat # rest)" using Cons dGroup by (simp add: here)
        then have "fits (width - col) ?flat rest"
          using "1.prems" lineWidth_nonneg [of "?flat # rest"] by (simp add: fits_def fitsLoop_ahead)
        then show ?thesis
          using "1.IH"(6) [OF Cons dGroup refl] "1.prems" Cons dGroup ahead by (simp add: renderLoop_cases(7))
      next
        case (dIfBreak f b)
        then show ?thesis
          using "1.IH"(9) [OF Cons dIfBreak] "1.prems" Cons by (simp add: here renderLoop_cases(6))
      qed (use False in simp_all)
    qed
  qed simp
qed

text \<open>
  C22: lines. A group is printed on one line exactly if the texts ahead of it, with every group on the line
  printed flat as well, are at most as wide as the rest of the page; the texts ahead are those up to the
  first break that is certain (a forced line end, a text of several lines, a group that is always broken) or
  up to the end of the document. Then the line is printed that way, with no line end in it and not beyond the
  page, and the layout goes on at that break. Otherwise the group is broken.
\<close>

theorem groups_fit_or_break:
  "renderLoop width out col (item\<lparr>workDoc := dGroup d\<rparr> # stack) =
    (let ahead = lineAhead (item\<lparr>workMode := modeFlat, workDoc := d\<rparr> # stack);
         lineEnd = col + sum_list (map runeWidth (fst ahead))
     in if lineEnd \<le> width
        then renderLoop width (out @ concat (fst ahead)) lineEnd (snd ahead)
        else renderLoop width out col (item\<lparr>workMode := modeBreak, workDoc := d\<rparr> # stack))
   \<and> (let ahead = lineAhead (item\<lparr>workMode := modeFlat, workDoc := d\<rparr> # stack)
      in lineFeed \<notin> set (concat (fst ahead))
        \<and> runeWidth (concat (fst ahead)) \<le> sum_list (map runeWidth (fst ahead))
        \<and> (snd ahead = [] \<or> breaksLine (workDoc (hd (snd ahead)))))"
proof -
  let ?flat = "item\<lparr>workMode := modeFlat, workDoc := d\<rparr> # stack"
  have fit: "fits (width - col) (item\<lparr>workMode := modeFlat, workDoc := d\<rparr>) stack \<longleftrightarrow> col + lineWidth ?flat \<le> width"
    using lineWidth_nonneg [of ?flat] by (auto simp: fits_def fitsLoop_ahead)
  have "renderLoop width out col ?flat =
      renderLoop width (out @ concat (lineTexts ?flat)) (col + lineWidth ?flat) (snd (lineAhead ?flat))"
    if "col + lineWidth ?flat \<le> width"
    using that by (intro renderLoop_ahead) simp
  moreover have "lineFeed \<notin> set (concat (lineTexts ?flat))" using lineAhead_ends [of ?flat] by auto
  ultimately show ?thesis
    using fit lineAhead_ends [of ?flat] runeWidth_concat [of "lineTexts ?flat"]
    by (simp add: renderLoop_cases(7) Let_def)
qed

text \<open>
  What follows a certain break is not measured, although it begins on the same line if the break is a text
  of several lines or a group that is always broken: \<open>abc\<close> fits three columns with either behind it.
\<close>

lemma broken_neighbours_are_not_measured:
  "render (dConcat [dGroup (dConcat [dText ''abc'', ifBreak dHard (dText '''')]), dBreakGroup (dConcat [dText ''('', dHard])]) 3
     = ''abc('' @ [lineFeed]"
  by (simp add: render_def renderLoop.simps spliceChildren_def fits_def fitsLoop.simps ifBreak_def runeWidth_def
      RuneCount.simps DecodeRune_def byteOf_def lineFeed_def padding_def Let_def)

text \<open>\<open>f(a, b)\<close>\<close>

definition shortCall :: doc where
  "shortCall = dConcat [dText ''f('', dIndent (dConcat [ifBreak dHard (dText ''''), dText ''a'', ifBreak dHard (dText '', ''),
     dText ''b'']), ifBreak dHard (dText ''''), dText '')'']"

theorem groups_fit_or_break_witness: "render (dGroup shortCall) maxLineWidth = ''f(a, b)''"
proof -
  let ?item = "\<lparr>workInd = 0, workMode = modeBreak, workDoc = shortCall\<rparr>"
  have ahead: "lineAhead [\<lparr>workInd = 0, workMode = modeFlat, workDoc = shortCall\<rparr>] =
      ([''f('', '''', ''a'', '', '', ''b'', '''', '')''], [])"
    by (simp add: shortCall_def ifBreak_def lineAhead.simps spliceChildren_def lineFeed_def)
  have widths: "runeWidth ''f('' = 2" "runeWidth '''' = 0" "runeWidth ''a'' = 1" "runeWidth '', '' = 2"
      "runeWidth ''b'' = 1" "runeWidth '')'' = 1"
    by (simp_all add: runeWidth_def RuneCount.simps DecodeRune_def byteOf_def)
  show ?thesis
    using groups_fit_or_break [where width = maxLineWidth and out = "[]" and col = 0 and item = ?item
        and d = shortCall and stack = "[]"]
    by (simp add: ahead widths render_def maxLineWidth_def Let_def)
qed

end
