(* ===== verification/FormatterProofs.thy ===== *)
theory FormatterProofs
  imports Formatter LayoutProofs
begin

text \<open>
  What the formatter prints: the steps of the builder emit pieces of the tokens they pass, with white space
  and commas between them, and the layout keeps these pieces at every width of the page.
\<close>

subsection \<open>The pieces of the tokens\<close>

definition commentText :: "Trivia \<Rightarrow> string" where
  "commentText t =
    (case TriviaOf t of LineCommentTrivia \<Rightarrow> TrimRight blanks (TriviaLexeme t) | BlockCommentTrivia \<Rightarrow> TriviaLexeme t
     | WhitespaceTrivia \<Rightarrow> [])"

definition commentPieces :: "Trivia list \<Rightarrow> string list" where
  "commentPieces ts = filter (\<lambda>s. s \<noteq> []) (map commentText ts)"

definition commentsOf :: "Token \<Rightarrow> string list" where
  "commentsOf t = commentPieces (LeadingTrivia t)"

definition piecesOf :: "Token \<Rightarrow> string list" where
  "piecesOf t = commentsOf t @ [Lexeme t]"

text \<open>Modifiers are printed with the last of \<open>Overload\<close> and \<open>Override\<close> behind the others.\<close>

definition isModifier :: "Token \<Rightarrow> bool" where
  "isModifier t \<longleftrightarrow> KindOf t \<in> scopeModifiers \<union> flavorModifiers"

primrec scopePieces :: "Token list \<Rightarrow> string list" where
  "scopePieces [] = []"
| "scopePieces (t # ts) = (if KindOf t \<in> scopeModifiers then piecesOf t else []) @ scopePieces ts"

primrec flavorPieces :: "string list \<Rightarrow> Token list \<Rightarrow> string list" where
  "flavorPieces fs [] = fs"
| "flavorPieces fs (t # ts) = flavorPieces (if KindOf t \<in> flavorModifiers then piecesOf t else fs) ts"

definition arranged :: "Token list \<Rightarrow> string list" where
  "arranged ts = scopePieces ts @ flavorPieces [] ts"

text \<open>
  \<open>covers F T i j ps\<close>: \<open>ps\<close> are pieces of the tokens \<open>T\<close> from \<open>i\<close> up to \<open>j\<close>. A token gives its comments
  and its text; a newline or comma may give only its comments, or, between the arguments of a type, nothing;
  a run of modifiers may be rearranged; a string literal may give its source text in one piece. At the last
  token, which is never passed, a leaf repeats its text, which is empty.
\<close>

inductive covers :: "File \<Rightarrow> Token list \<Rightarrow> nat \<Rightarrow> nat \<Rightarrow> string list \<Rightarrow> bool" for F T where
  covers_none: "covers F T i i []"
| covers_token: "Suc i < length T \<Longrightarrow> covers F T (Suc i) j ps \<Longrightarrow> covers F T i j (piecesOf (T ! i) @ ps)"
| covers_separator: "Suc i < length T \<Longrightarrow> KindOf (T ! i) \<in> {Newline, Comma} \<Longrightarrow> covers F T (Suc i) j ps \<Longrightarrow>
    covers F T i j (commentsOf (T ! i) @ ps)"
| covers_dropped: "Suc i < length T \<Longrightarrow> KindOf (T ! i) \<in> {Newline, Comma} \<Longrightarrow> covers F T (Suc i) j ps \<Longrightarrow>
    covers F T i j ps"
| covers_modifiers: "i \<le> k \<Longrightarrow> k < length T \<Longrightarrow>
    \<forall>t \<in> set (slice T i k). isModifier t \<Longrightarrow>
    covers F T k j ps \<Longrightarrow> covers F T i j (arranged (slice T i k) @ ps)"
| covers_literal: "i < length T \<Longrightarrow>
    covers F T (i + length (takeWhile (\<lambda>t. Offset (Start (TokenSpan t)) < Offset (End span)) (drop i T))) j ps \<Longrightarrow>
    covers F T i j (commentsOf (T ! i) @ sourceSlice F span # ps)"
| covers_last: "length T \<le> Suc i \<Longrightarrow> covers F T i j ps \<Longrightarrow> covers F T i j (piecesOf (last T) @ ps)"
| covers_last_literal: "length T \<le> i \<Longrightarrow> covers F T i j ps \<Longrightarrow>
    covers F T i j (commentsOf (last T) @ sourceSlice F span # ps)"

lemma covers_trans: "covers F T i j ps \<Longrightarrow> covers F T j k qs \<Longrightarrow> covers F T i k (ps @ qs)"
  by (induction rule: covers.induct) (auto intro: covers.intros)

lemma covers_forward: "covers F T i j ps \<Longrightarrow> i \<le> j"
  by (induction rule: covers.induct) auto

subsection \<open>What a step of the builder emits\<close>

definition moved :: "builder \<Rightarrow> builder \<Rightarrow> string list \<Rightarrow> bool" where
  "moved b b1 ps \<longleftrightarrow> b_file b1 = b_file b \<and> b_tokens b1 = b_tokens b \<and>
    covers (b_file b) (b_tokens b) (b_cursor b) (b_cursor b1) ps"

definition emits :: "doc building \<Rightarrow> bool" where
  "emits f \<longleftrightarrow> (\<forall>b d b1. f b = (d, b1) \<longrightarrow> (\<exists>ps. spells d ps \<and> moved b b1 ps))"

definition emitsAll :: "doc list building \<Rightarrow> bool" where
  "emitsAll f \<longleftrightarrow> (\<forall>b ds b1. f b = (ds, b1) \<longrightarrow> (\<exists>ps. spellsAll ds ps \<and> moved b b1 ps))"

named_theorems emitted

lemma moved_refl: "moved b b []"
  by (simp add: moved_def covers_none)

lemma moved_comment [simp]: "moved b (b\<lparr>b_openComment := c\<rparr>) ps \<longleftrightarrow> moved b b ps"
  "moved (b\<lparr>b_openComment := c\<rparr>) b1 ps \<longleftrightarrow> moved b b1 ps"
  by (simp_all add: moved_def)

lemma moved_trans: "moved b b1 ps \<Longrightarrow> moved b1 b2 qs \<Longrightarrow> moved b b2 (ps @ qs)"
  by (auto simp: moved_def intro: covers_trans)

lemma emitsD: "emits f \<Longrightarrow> f b = (d, b1) \<Longrightarrow> \<exists>ps. spells d ps \<and> moved b b1 ps"
  by (simp add: emits_def)

lemma emitsAllD: "emitsAll f \<Longrightarrow> f b = (ds, b1) \<Longrightarrow> \<exists>ps. spellsAll ds ps \<and> moved b b1 ps"
  by (simp add: emitsAll_def)

lemma emits_fixed [emitted]: "glue s \<Longrightarrow> emits (fixed (dText s))"
  by (auto simp: emits_def fixed_def intro: spells_glue moved_refl)

lemma list_all_mapI [emitted]: "(\<And>x. x \<in> set xs \<Longrightarrow> P (f x)) \<Longrightarrow> list_all P (map f xs)"
  by (auto simp: list_all_iff)

lemma list_all_replicateI [emitted]: "P x \<Longrightarrow> list_all P (replicate n x)"
  by (auto simp: list_all_iff)

lemma list_all_concatI [emitted]: "list_all (list_all P) xss \<Longrightarrow> list_all P (concat xss)"
  by (auto simp: list_all_iff)

lemma emits_seqDocs [emitted]: "list_all emits fs \<Longrightarrow> emitsAll (seqDocs fs)"
proof (induction fs)
  case Nil
  then show ?case by (auto simp: emitsAll_def intro: moved_refl)
next
  case (Cons f fs)
  then have f: "emits f" and fs: "emitsAll (seqDocs fs)" by simp_all
  show ?case
    unfolding emitsAll_def
  proof (intro allI impI)
    fix b ds b2 assume run: "seqDocs (f # fs) b = (ds, b2)"
    obtain d b1 es where steps: "f b = (d, b1)" "seqDocs fs b1 = (es, b2)" "ds = d # es"
      using run by (auto split: prod.splits)
    then show "\<exists>ps. spellsAll ds ps \<and> moved b b2 ps"
      using emitsD [OF f steps(1)] emitsAllD [OF fs steps(2)] by (auto intro: spellsAll_Cons moved_trans)
  qed
qed

lemma emits_concatOf [emitted]: "list_all emits fs \<Longrightarrow> emits (concatOf fs)"
  using emits_seqDocs [of fs]
  by (auto simp: emits_def emitsAll_def concatOf_def split: prod.splits)

subsection \<open>Leaves\<close>

lemma renderTrivia_spells:
  assumes "renderTrivia t b = ((d, k), b1)"
  shows "spells d (commentPieces [t]) \<and> (isEmptyDoc d \<longrightarrow> commentPieces [t] = [])"
  using assms
  by (cases "TriviaOf t")
    (auto simp: renderTrivia_def commentPieces_def commentText_def Let_def isEmptyDoc_def spellsAll_item spells_dText split: if_splits)

lemma commentPieces_Cons: "commentPieces (t # ts) = commentPieces [t] @ commentPieces ts"
  by (simp add: commentPieces_def)

lemma triviaDocs_spells:
  "triviaDocs ts b = (ds, b1) \<Longrightarrow> spellsAll ds (commentPieces ts) \<and> (\<exists>c. b1 = b\<lparr>b_openComment := c\<rparr>)"
proof (induction ts arbitrary: b ds b1)
  case Nil
  then show ?case by (auto simp: commentPieces_def intro: exI [of _ "b_openComment b"])
next
  case (Cons t ts)
  obtain d k b' where r: "renderTrivia t b = ((d, k), b')" by (metis prod.exhaust)
  obtain c where c: "b' = b\<lparr>b_openComment := c\<rparr>" using renderTrivia_state [OF r] by blast
  obtain es b2 where es: "triviaDocs ts (if TriviaOf t = WhitespaceTrivia then b else b') = (es, b2)" by fastforce
  have IH: "spellsAll es (commentPieces ts)" "\<exists>c. b2 = b\<lparr>b_openComment := c\<rparr>"
    using Cons.IH [OF es] c by (auto split: if_splits)
  have d: "spells d (commentPieces [t])" using renderTrivia_spells [OF r] by simp
  have all: "spellsAll (d # es) (commentPieces (t # ts))"
    using spellsAll_Cons [OF d IH(1)] commentPieces_Cons [of t ts] by simp
  have "spellsAll (dText '' '' # es) (commentPieces ts)"
    using spellsAll_Cons [OF spells_glue IH(1), of "'' ''"] by simp
  then have spaced: "spellsAll (d # dText '' '' # es) (commentPieces (t # ts))"
    using spellsAll_Cons [OF d] commentPieces_Cons [of t ts] by simp
  show ?case
    using Cons.prems r es all spaced IH
    by (cases "TriviaOf t") (auto simp: commentPieces_def commentText_def split: if_splits)
qed

lemma current_last: "\<not> notLast b \<Longrightarrow> b_current b = last (b_tokens b)"
proof (cases "b_cursor b < length (b_tokens b)")
  case True
  moreover assume "\<not> notLast b"
  ultimately have "b_cursor b = length (b_tokens b) - 1" by (simp add: notLast_def)
  moreover from True have "b_tokens b \<noteq> []" by auto
  ultimately show ?thesis using True by (simp add: b_current_def last_conv_nth)
qed (simp add: b_current_def)

lemma leaf_spells:
  assumes "leaf b = (d, b1)"
  shows "spells d (piecesOf (b_current b))"
proof -
  obtain ds c b' where trivia: "triviaDocs (LeadingTrivia (b_current b)) b = (ds, b')" "b' = b\<lparr>b_openComment := c\<rparr>"
    "spellsAll ds (commentsOf (b_current b))"
    using triviaDocs_spells [of "LeadingTrivia (b_current b)" b] unfolding commentsOf_def by (metis prod.exhaust)
  have "d = dConcat [dConcat ds, dText (Lexeme (b_current b))]"
    using assms trivia(1,2) by (auto simp: leaf_def leadingTriviaDoc_def b_advance_def b_current_def)
  then show ?thesis
    using spellsAll_Cons [OF spells_concat [OF trivia(3)] spellsAll_Cons [OF spells_piece spellsAll_Nil]]
    by (simp add: piecesOf_def)
qed

lemma leaf_moved:
  assumes "leaf b = (d, b1)"
  shows "moved b b1 (piecesOf (b_current b))"
proof -
  obtain c where b1: "b1 = b\<lparr>b_openComment := c, b_cursor := (if notLast b then Suc (b_cursor b) else b_cursor b)\<rparr>"
    using leaf_state [OF assms] by blast
  show ?thesis
  proof (cases "notLast b")
    case True
    then show ?thesis
      using covers_token [of "b_cursor b" "b_tokens b" "b_file b" "Suc (b_cursor b)" "[]"] b1
      by (simp add: moved_def notLast_def b_current_def covers_none)
  next
    case False
    then show ?thesis
      using covers_last [of "b_tokens b" "b_cursor b" "b_file b" "b_cursor b" "[]"] b1 current_last [OF False]
      by (simp add: moved_def notLast_def covers_none)
  qed
qed

lemma leaf_emits [emitted]: "emits leaf"
  unfolding emits_def using leaf_spells leaf_moved by blast

subsection \<open>Gaps\<close>

text \<open>The comments a gap has collected: \<open>ps\<close> behind the construct, \<open>qs\<close> on lines of their own.\<close>

definition collected :: "gapState \<Rightarrow> string list \<Rightarrow> string list \<Rightarrow> bool" where
  "collected g ps qs \<longleftrightarrow>
    spells (gapInline g) ps \<and> (isEmptyDoc (gapInline g) \<longrightarrow> ps = []) \<and>
    spellsAll (gapStandalone g) qs \<and>
    (\<not> gapHaveInline g \<longrightarrow> gapInline g = dText []) \<and>
    (gapStandalone g \<noteq> [] \<longrightarrow> gapSeenNewline g \<or> gapHaveInline g)"

lemma gapTrivia_collects:
  "gapTrivia ts g h b = ((g1, h1), b1) \<Longrightarrow> collected g ps qs \<Longrightarrow>
   \<exists>ps1 qs1. collected g1 ps1 qs1 \<and> ps1 @ qs1 = ps @ qs @ commentPieces ts"
proof (induction ts g h b arbitrary: ps qs rule: gapTrivia.induct)
  case (1 g h b)
  then show ?case by (auto simp: commentPieces_def)
next
  case (2 t ts g h b)
  show ?case
  proof (cases "TriviaOf t = WhitespaceTrivia")
    case True
    then show ?thesis using 2 commentPieces_Cons [of t ts] by (simp add: commentPieces_def commentText_def)
  next
    case False
    then have comment: "\<not> (TriviaOf t \<noteq> LineCommentTrivia \<and> TriviaOf t \<noteq> BlockCommentTrivia)"
      by (cases "TriviaOf t") auto
    obtain d k b' where r: "renderTrivia t b = ((d, k), b')" by (metis prod.exhaust)
    have d: "spells d (commentPieces [t])" "isEmptyDoc d \<longrightarrow> commentPieces [t] = []"
      using renderTrivia_spells [OF r] by simp_all
    show ?thesis
    proof (cases "\<not> gapSeenNewline g \<and> \<not> gapHaveInline g")
      case True
      then have "ps = []" "qs = []" using 2(5) by (auto simp: collected_def isEmptyDoc_def)
      moreover have "collected (g\<lparr>gapInline := d, gapHaveInline := True\<rparr>) (commentPieces [t]) qs"
        using 2(5) d by (simp add: collected_def)
      ultimately show ?thesis
        using 2(2) [OF comment r [symmetric] refl True, of "commentPieces [t]" qs] 2(4) comment r True
          commentPieces_Cons [of t ts] by simp
    next
      case apart: False
      let ?g = "g\<lparr>gapStandalone := gapStandalone g @ (if gapStandalone g \<noteq> [] \<and> \<not> k then [dHard] else []) @ [d]\<rparr>"
      have "spellsAll ((if gapStandalone g \<noteq> [] \<and> \<not> k then [dHard] else []) @ [d]) (commentPieces [t])"
        using spellsAll_Cons [OF d(1) spellsAll_Nil] by (simp add: spellsAll_item)
      then have "spellsAll (gapStandalone ?g) (qs @ commentPieces [t])"
        using 2(5) spellsAll_appendI by (simp add: collected_def)
      then have "collected ?g ps (qs @ commentPieces [t])" using 2(5) apart by (auto simp: collected_def)
      then show ?thesis
        using 2(3) [OF comment r [symmetric] refl apart, of ps "qs @ commentPieces [t]"] 2(4) comment r apart commentPieces_Cons [of t ts] by simp
    qed
  qed
qed

lemma gapLoop_collects:
  "gapLoop g b = (g1, b1) \<Longrightarrow> collected g ps qs \<Longrightarrow>
   \<exists>ps1 qs1 new. collected g1 ps1 qs1 \<and> ps1 @ qs1 = ps @ qs @ new \<and> moved b b1 new"
proof (induction g b arbitrary: ps qs rule: gapLoop.induct)
  case (1 g b)
  show ?case
  proof (cases "notLast b \<and> KindOf (b_current b) \<in> {Newline, Comma}")
    case False
    then have "g1 = g" "b1 = b" using 1(2) gapLoop.simps [of g b] by auto
    then show ?thesis using 1(3) moved_refl [of b] by fastforce
  next
    case True
    obtain g2 h b2 where t: "gapTrivia (LeadingTrivia (b_current b)) g False b = ((g2, h), b2)" by (metis prod.exhaust)
    obtain c where b2: "b2 = b\<lparr>b_openComment := c\<rparr>" using gapTrivia_state [OF t] by blast
    define g3 where "g3 = (if KindOf (b_current b) = Newline
      then g2\<lparr>gapSeenNewline := True, gapBlankRun := (if h then 0 else Suc (gapBlankRun g2))\<rparr> else g2)"
    have run: "gapLoop g3 (snd (b_advance b2)) = (g1, b1)"
      using 1(2) True t by (simp add: gapLoop.simps [of g b] g3_def)
    obtain ps2 qs2 where c2: "collected g2 ps2 qs2" "ps2 @ qs2 = ps @ qs @ commentsOf (b_current b)"
      using gapTrivia_collects [OF t 1(3)] by (auto simp: commentsOf_def)
    then have "collected g3 ps2 qs2" by (simp add: g3_def collected_def)
    then obtain ps1 qs1 new where rest: "collected g1 ps1 qs1" "ps1 @ qs1 = ps2 @ qs2 @ new"
      "moved (snd (b_advance b2)) b1 new"
      using 1(1) [OF True t [symmetric] refl, folded g3_def, OF run] by blast
    have "moved b (snd (b_advance b2)) (commentsOf (b_current b))"
      using True b2 covers_separator [of "b_cursor b" "b_tokens b" "b_file b" "Suc (b_cursor b)" "[]"]
      by (auto simp: moved_def b_advance_def notLast_def b_current_def covers_none)
    then have "moved b b1 (commentsOf (b_current b) @ new)" using rest(3) by (rule moved_trans)
    then show ?thesis using rest(1,2) c2(2) by (metis append.assoc)
  qed
qed

lemma gapParts_emits:
  assumes "gapParts b = ((inline, standalone, blank), b1)"
  shows "\<exists>ps qs. spells inline ps \<and> spells standalone qs \<and> moved b b1 (ps @ qs) \<and>
    (isEmptyDoc inline \<longrightarrow> ps = []) \<and> (isEmptyDoc standalone \<longrightarrow> qs = [])"
proof -
  let ?g = "\<lparr>gapInline = dText [], gapHaveInline = False, gapStandalone = [], gapSeenNewline = False, gapBlankRun = 0\<rparr>"
  obtain g where g: "gapLoop ?g b = (g, b1)" "inline = gapInline g" "standalone = dConcat (gapStandalone g)"
    using assms by (auto simp: gapParts_def split: prod.splits)
  have "collected ?g [] []" by (simp add: collected_def spells_dText)
  then obtain ps qs where "collected g ps qs" "moved b b1 (ps @ qs)"
    using gapLoop_collects [OF g(1)] by fastforce
  then show ?thesis using g(2,3) by (fastforce simp: collected_def isEmptyDoc_def)
qed

lemma gap_emits:
  assumes "b_gap b = (d, b1)"
  shows "\<exists>ps. spells d ps \<and> moved b b1 ps \<and> (isEmptyDoc d \<longrightarrow> ps = [])"
proof -
  obtain inline standalone blank where parts: "gapParts b = ((inline, standalone, blank), b1)"
    and d: "d = (if isEmptyDoc inline then standalone else if isEmptyDoc standalone then inline
         else dConcat [inline, dHard, standalone])"
    using assms by (auto simp: b_gap_def split: prod.splits)
  obtain ps qs where pieces: "spells inline ps" "spells standalone qs" "moved b b1 (ps @ qs)"
    "isEmptyDoc inline \<longrightarrow> ps = []" "isEmptyDoc standalone \<longrightarrow> qs = []"
    using gapParts_emits [OF parts] by blast
  have "spells (dConcat [inline, dHard, standalone]) (ps @ qs)"
    using spellsAll_Cons [OF pieces(1) spellsAll_Cons [OF spells_hard spellsAll_Cons [OF pieces(2) spellsAll_Nil]]]
    by simp
  then show ?thesis using pieces d by (auto simp: isEmptyDoc_def)
qed

lemma emits_gap [emitted]: "emits b_gap"
  using gap_emits by (fastforce simp: emits_def)

text \<open>A document that is left out when it is empty, and one in front of which lines are broken.\<close>

lemma spells_optional:
  "spells d ps \<Longrightarrow> isEmptyDoc d \<longrightarrow> ps = [] \<Longrightarrow> spells g [] \<Longrightarrow>
   spellsAll (if isEmptyDoc d then [] else [d]) ps \<and> spellsAll (if isEmptyDoc d then [] else [g, d]) ps \<and>
   spellsAll (if isEmptyDoc d then [] else [d, g]) ps"
  by (auto simp: spellsAll_item)

lemma spells_separator:
  "spells g ps \<Longrightarrow> isEmptyDoc g \<longrightarrow> ps = [] \<Longrightarrow> spells (withGapSeparator g blank) ps"
  by (auto simp: withGapSeparator_def spellsAll_item)

lemma emits_gapSeparated [emitted]: "emits gapSeparated"
  unfolding emits_def
proof (intro allI impI)
  fix b d b1 assume "gapSeparated b = (d, b1)"
  then obtain g where "b_gap b = (g, b1)" "d = withGapSeparator g False"
    by (auto simp: gapSeparated_def split: prod.splits)
  then show "\<exists>ps. spells d ps \<and> moved b b1 ps" using gap_emits spells_separator by blast
qed

subsection \<open>Statement lists, braces and bracketed constructs\<close>

lemma stmtLoop_emits [emitted]: "list_all emits fs \<Longrightarrow> emitsAll (stmtLoop fs)"
proof (induction fs)
  case Nil
  then show ?case by (auto simp: emitsAll_def intro: moved_refl)
next
  case (Cons f fs)
  then have f: "emits f" and fs: "emitsAll (stmtLoop fs)" by simp_all
  show ?case
    unfolding emitsAll_def
  proof (intro allI impI)
    fix b ds b3 assume run: "stmtLoop (f # fs) b = (ds, b3)"
    obtain d b1 inline standalone blank b2 es where steps: "f b = (d, b1)"
      "gapParts b1 = ((inline, standalone, blank), b2)" "stmtLoop fs b2 = (es, b3)"
      and ds: "ds = [d] @ (if isEmptyDoc inline then [] else [dText '' '', inline])
        @ (if fs = [] then (if isEmptyDoc standalone then [] else [dHard, standalone])
           else [withGapSeparator standalone blank]) @ es"
      using run by (auto split: prod.splits)
    obtain ps where ps: "spells d ps" "moved b b1 ps" using emitsD [OF f steps(1)] by blast
    obtain qs rs where qs: "spells inline qs" "spells standalone rs" "moved b1 b2 (qs @ rs)"
      "isEmptyDoc inline \<longrightarrow> qs = []" "isEmptyDoc standalone \<longrightarrow> rs = []"
      using gapParts_emits [OF steps(2)] by blast
    obtain ts where ts: "spellsAll es ts" "moved b2 b3 ts" using emitsAllD [OF fs steps(3)] by blast
    have one: "spellsAll [d] ps" using spellsAll_Cons [OF ps(1) spellsAll_Nil] by simp
    have two: "spellsAll (if isEmptyDoc inline then [] else [dText '' '', inline]) qs"
      using spells_optional [OF qs(1,4), of "dText '' ''"] by (simp add: spells_dText)
    have three: "spellsAll (if fs = [] then (if isEmptyDoc standalone then [] else [dHard, standalone])
        else [withGapSeparator standalone blank]) rs"
      using spells_optional [OF qs(2,5), of dHard] spellsAll_Cons [OF spells_separator [OF qs(2,5)] spellsAll_Nil] by simp
    have "spellsAll ds (ps @ qs @ rs @ ts)"
      unfolding ds using spellsAll_appendI [OF one spellsAll_appendI [OF two spellsAll_appendI [OF three ts(1)]]] .
    moreover have "moved b b3 (ps @ qs @ rs @ ts)"
      using moved_trans [OF ps(2) moved_trans [OF qs(3) ts(2)]] by simp
    ultimately show "\<exists>ps. spellsAll ds ps \<and> moved b b3 ps" by blast
  qed
qed

text \<open>Documents behind the comments in front of the first one.\<close>

lemma led_emits:
  assumes "emitsAll f"
  shows "emitsAll (\<lambda>b. let (lead, b1) = b_gap b; (ds, b2) = f b1 in ((if isEmptyDoc lead then [] else [lead, dHard]) @ ds, b2))"
  unfolding emitsAll_def
proof (intro allI impI)
  fix b ds b2
  assume "(let (lead, b1) = b_gap b; (ds, b2) = f b1 in ((if isEmptyDoc lead then [] else [lead, dHard]) @ ds, b2)) = (ds, b2)"
  then obtain lead b1 es where steps: "b_gap b = (lead, b1)" "f b1 = (es, b2)"
    and ds: "ds = (if isEmptyDoc lead then [] else [lead, dHard]) @ es"
    by (auto split: prod.splits)
  obtain ps where ps: "spells lead ps" "moved b b1 ps" "isEmptyDoc lead \<longrightarrow> ps = []" using gap_emits [OF steps(1)] by blast
  obtain qs where qs: "spellsAll es qs" "moved b1 b2 qs" using emitsAllD [OF assms steps(2)] by blast
  have "spellsAll ds (ps @ qs)"
    unfolding ds using spells_optional [OF ps(1,3), of dHard] qs(1) by (intro spellsAll_appendI) simp_all
  then show "\<exists>ps. spellsAll ds ps \<and> moved b b2 ps" using moved_trans [OF ps(2) qs(2)] by blast
qed

lemma stmtSeq_emits [emitted]: "list_all emits fs \<Longrightarrow> emitsAll (stmtSeq fs)"
  using led_emits [OF stmtLoop_emits] unfolding stmtSeq_def .

lemma spells_braces:
  assumes "spells front ps" "spellsAll ds qs" "spells rear rs"
  shows "spells (dConcat [front, dIndent (dConcat (dHard # ds)), dHard, rear]) (ps @ qs @ rs)"
proof -
  have "spellsAll (dHard # ds) qs" using spellsAll_Cons [OF spells_hard assms(2)] by simp
  then have "spells (dIndent (dConcat (dHard # ds))) qs" by simp
  then show ?thesis
    using spellsAll_Cons [OF assms(1) spellsAll_Cons [OF _ spellsAll_Cons [OF spells_hard
      spellsAll_Cons [OF assms(3) spellsAll_Nil]]]] by simp
qed

lemma braced_emits [emitted]:
  assumes "emitsAll body"
  shows "emits (braced nothing body)"
  unfolding emits_def
proof (intro allI impI)
  fix b d b3 assume run: "braced nothing body b = (d, b3)"
  obtain front b1 where o: "leaf b = (front, b1)" by fastforce
  obtain ps where ps: "spells front ps" "moved b b1 ps" using emitsD [OF leaf_emits o] by blast
  show "\<exists>ps. spells d ps \<and> moved b b3 ps"
  proof (cases nothing)
    case True
    obtain inner b2 rear where steps: "b_gap b1 = (inner, b2)" "leaf b2 = (rear, b3)"
      and d: "d = (if isEmptyDoc inner then dConcat [front, rear]
        else dConcat [front, dIndent (dConcat [dHard, inner]), dHard, rear])"
      using run o True by (auto simp: braced_def split: prod.splits)
    obtain qs where qs: "spells inner qs" "moved b1 b2 qs" "isEmptyDoc inner \<longrightarrow> qs = []"
      using gap_emits [OF steps(1)] by blast
    obtain rs where rs: "spells rear rs" "moved b2 b3 rs" using emitsD [OF leaf_emits steps(2)] by blast
    have "spells (dConcat [front, rear]) (ps @ rs)"
      using spellsAll_Cons [OF ps(1) spellsAll_Cons [OF rs(1) spellsAll_Nil]] by simp
    moreover have "spellsAll [inner] qs" using spellsAll_Cons [OF qs(1) spellsAll_Nil] by simp
    ultimately have "spells d (ps @ qs @ rs)"
      unfolding d using spells_braces [OF ps(1) _ rs(1)] qs(3) by simp
    then show ?thesis using moved_trans [OF ps(2) moved_trans [OF qs(2) rs(2)]] by blast
  next
    case False
    obtain ds b2 rear where steps: "body b1 = (ds, b2)" "leaf b2 = (rear, b3)"
      and d: "d = dConcat [front, dIndent (dConcat (dHard # ds)), dHard, rear]"
      using run o False by (auto simp: braced_def split: prod.splits)
    obtain qs where qs: "spellsAll ds qs" "moved b1 b2 qs" using emitsAllD [OF assms steps(1)] by blast
    obtain rs where rs: "spells rear rs" "moved b2 b3 rs" using emitsD [OF leaf_emits steps(2)] by blast
    show ?thesis
      using spells_braces [OF ps(1) qs(1) rs(1)] moved_trans [OF ps(2) moved_trans [OF qs(2) rs(2)]] d by blast
  qed
qed

lemma bracedStmts_emits [emitted]: "list_all emits fs \<Longrightarrow> emits (bracedStmts fs)"
  unfolding bracedStmts_def by (intro braced_emits stmtSeq_emits)

text \<open>The commas of a group on one line are glue.\<close>

lemma spells_ifBreak_glue: "glue s \<Longrightarrow> spells (ifBreak dHard (dText s)) []"
  by (simp add: ifBreak_def spells_dText)

lemma groupItems_emits:
  "list_all emits fs \<Longrightarrow> groupItems fs first b = ((ds, forced), b1) \<Longrightarrow> \<exists>ps. spellsAll ds ps \<and> moved b b1 ps"
proof (induction fs arbitrary: first b ds forced b1)
  case Nil
  then show ?case by (auto intro: moved_refl)
next
  case (Cons f fs)
  then have f: "emits f" by simp
  obtain d b2 trailing b3 es more where steps: "f b = (d, b2)" "b_gap b2 = (trailing, b3)"
    "groupItems fs False b3 = ((es, more), b1)"
    and ds: "ds = (if first then [] else [ifBreak dHard (dText '', '')]) @ [d]
      @ (if isEmptyDoc trailing then [] else [dHard, trailing]) @ es"
    using Cons.prems(2) by (auto split: prod.splits)
  obtain ps where ps: "spells d ps" "moved b b2 ps" using emitsD [OF f steps(1)] by blast
  obtain qs where qs: "spells trailing qs" "moved b2 b3 qs" "isEmptyDoc trailing \<longrightarrow> qs = []"
    using gap_emits [OF steps(2)] by blast
  obtain rs where rs: "spellsAll es rs" "moved b3 b1 rs" using Cons.IH [OF _ steps(3)] Cons.prems(1) by auto
  have "spellsAll (if first then [] else [ifBreak dHard (dText '', '')]) []"
    using spellsAll_Cons [OF spells_ifBreak_glue spellsAll_Nil, of "'', ''"] by simp
  moreover have "spellsAll [d] ps" using spellsAll_Cons [OF ps(1) spellsAll_Nil] by simp
  moreover have "spellsAll (if isEmptyDoc trailing then [] else [dHard, trailing]) qs"
    using spells_optional [OF qs(1,3), of dHard] by simp
  ultimately have "spellsAll ds ([] @ ps @ qs @ rs)"
    unfolding ds using rs(1) by (intro spellsAll_appendI)
  then show ?case using moved_trans [OF ps(2) moved_trans [OF qs(2) rs(2)]] by auto
qed

lemma delimitedGroup_emits [emitted]:
  assumes "list_all emits fs"
  shows "emits (delimitedGroup fs)"
  unfolding emits_def
proof (intro allI impI)
  fix b d b4 assume run: "delimitedGroup fs b = (d, b4)"
  obtain front b1 lead b2 where o: "leaf b = (front, b1)" "b_gap b1 = (lead, b2)" by fastforce
  obtain ps where ps: "spells front ps" "moved b b1 ps" using emitsD [OF leaf_emits o(1)] by blast
  obtain qs where qs: "spells lead qs" "moved b1 b2 qs" "isEmptyDoc lead \<longrightarrow> qs = []"
    using gap_emits [OF o(2)] by blast
  show "\<exists>ps. spells d ps \<and> moved b b4 ps"
  proof (cases "isEmptyDoc lead \<and> fs = []")
    case True
    then obtain rear where c: "leaf b2 = (rear, b4)" "d = dConcat [front, rear]"
      using run o by (auto simp: delimitedGroup_def split: prod.splits)
    obtain rs where rs: "spells rear rs" "moved b2 b4 rs" using emitsD [OF leaf_emits c(1)] by blast
    have "spells d (ps @ qs @ rs)"
      using spellsAll_Cons [OF ps(1) spellsAll_Cons [OF rs(1) spellsAll_Nil]] qs(3) True c(2) by simp
    then show ?thesis using moved_trans [OF ps(2) moved_trans [OF qs(2) rs(2)]] by blast
  next
    case False
    obtain ds forced b3 rear where steps: "groupItems fs True b2 = ((ds, forced), b3)" "leaf b3 = (rear, b4)"
      and d: "d = (let body = (if isEmptyDoc lead then [] else if fs = [] then [lead] else [lead, dHard]) @ ds;
          inner = dConcat [front, dIndent (dConcat (ifBreak dHard (dText []) # body)), ifBreak dHard (dText []), rear]
        in if \<not> isEmptyDoc lead \<or> forced then dBreakGroup inner else dGroup inner)"
      using run o False by (auto simp: delimitedGroup_def Let_def split: prod.splits)
    obtain rs where rs: "spellsAll ds rs" "moved b2 b3 rs" using groupItems_emits [OF assms steps(1)] by blast
    obtain ts where ts: "spells rear ts" "moved b3 b4 ts" using emitsD [OF leaf_emits steps(2)] by blast
    have "spellsAll (if isEmptyDoc lead then [] else if fs = [] then [lead] else [lead, dHard]) qs"
      using spells_optional [OF qs(1,3), of dHard] spellsAll_Cons [OF qs(1) spellsAll_Nil] qs(3) by auto
    then have body: "spellsAll ((if isEmptyDoc lead then [] else if fs = [] then [lead] else [lead, dHard]) @ ds) (qs @ rs)"
      using rs(1) by (rule spellsAll_appendI)
    have edge: "spells (ifBreak dHard (dText [])) []" by (rule spells_ifBreak_glue) simp
    define inner where "inner = dConcat [front, dIndent (dConcat (ifBreak dHard (dText []) #
      (if isEmptyDoc lead then [] else if fs = [] then [lead] else [lead, dHard]) @ ds)), ifBreak dHard (dText []), rear]"
    have "spells (dIndent (dConcat (ifBreak dHard (dText []) #
        (if isEmptyDoc lead then [] else if fs = [] then [lead] else [lead, dHard]) @ ds))) (qs @ rs)"
      using spellsAll_Cons [OF edge body] by simp
    from spells_concat [OF spellsAll_Cons [OF ps(1) spellsAll_Cons [OF this spellsAll_Cons [OF edge
      spellsAll_Cons [OF ts(1) spellsAll_Nil]]]]]
    have "spells inner (ps @ qs @ rs @ ts)" unfolding inner_def by (simp only: append.assoc append_Nil append_Nil2)
    then have "spells d (ps @ qs @ rs @ ts)"
      unfolding d Let_def inner_def [symmetric] by (simp add: spells_group spells_breakGroup)
    then show ?thesis
      using moved_trans [OF ps(2) moved_trans [OF qs(2) moved_trans [OF rs(2) ts(2)]]] by auto
  qed
qed

subsection \<open>Types, modifiers and literals\<close>

text \<open>The modifiers passed between two states.\<close>

definition modifierRun :: "builder \<Rightarrow> builder \<Rightarrow> Token list \<Rightarrow> bool" where
  "modifierRun b b1 ts \<longleftrightarrow> list_all isModifier ts \<and> b_file b1 = b_file b \<and> b_tokens b1 = b_tokens b \<and>
    b_cursor b1 = b_cursor b + length ts \<and> slice (b_tokens b) (b_cursor b) (b_cursor b1) = ts \<and>
    (ts \<noteq> [] \<longrightarrow> b_cursor b1 < length (b_tokens b))"

lemma modifierRun_Nil: "modifierRun b b []"
  by (simp add: modifierRun_def slice_def)

lemma modifierRun_Cons:
  assumes "notLast b" "isModifier (b_current b)" "leaf b = (e, b2)" "modifierRun b2 b1 ts"
  shows "modifierRun b b1 (b_current b # ts)"
proof -
  obtain c where b2: "b2 = b\<lparr>b_openComment := c, b_cursor := Suc (b_cursor b)\<rparr>"
    using leaf_state [OF assms(3)] assms(1) by auto
  have run: "list_all isModifier ts" "b_file b1 = b_file b" "b_tokens b1 = b_tokens b"
    "b_cursor b1 = Suc (b_cursor b + length ts)" "slice (b_tokens b) (Suc (b_cursor b)) (b_cursor b1) = ts"
    "ts \<noteq> [] \<longrightarrow> b_cursor b1 < length (b_tokens b)"
    using assms(4) by (auto simp: modifierRun_def b2)
  have i: "b_cursor b < length (b_tokens b)" "b_current b = b_tokens b ! b_cursor b"
    using assms(1) by (simp_all add: notLast_def b_current_def)
  have all: "slice (b_tokens b) (b_cursor b) (b_cursor b1) = b_current b # ts"
    unfolding run(5) [symmetric] using i run(4) by (simp add: slice_def Cons_nth_drop_Suc [symmetric])
  have len: "b_cursor b1 = b_cursor b + length (b_current b # ts)" using run(4) by simp
  have inside: "b_cursor b1 < length (b_tokens b)" using run(4,6) assms(1) by (cases "ts = []") (simp_all add: notLast_def)
  show ?thesis
    unfolding modifierRun_def using run(1-3) assms(2) by (intro conjI all len impI inside) simp_all
qed

lemma scope_or_flavor: "KindOf t \<in> scopeModifiers \<Longrightarrow> KindOf t \<notin> flavorModifiers"
  by (auto simp: scopeModifiers_def flavorModifiers_def)

lemma modifierDocs_emits:
  "modifierDocs scope flavor b = (d, b1) \<Longrightarrow> spellsAll scope ps \<Longrightarrow>
   spellsAll (case flavor of None \<Rightarrow> [] | Some f \<Rightarrow> [f]) fs \<Longrightarrow>
   \<exists>ts. modifierRun b b1 ts \<and> spells d (ps @ scopePieces ts @ flavorPieces fs ts)"
proof (induction scope flavor b arbitrary: ps fs rule: modifierDocs.induct)
  case (1 scope flavor b)
  obtain e b2 where leaf: "leaf b = (e, b2)" by fastforce
  have e: "spells e (piecesOf (b_current b))" using leaf_spells [OF leaf] .
  have spaced: "spellsAll [e, dText '' ''] (piecesOf (b_current b))"
    using spellsAll_Cons [OF e spellsAll_Cons [OF spells_glue spellsAll_Nil, of "'' ''"]] by simp
  show ?case
  proof (cases "notLast b \<and> KindOf (b_current b) \<in> scopeModifiers")
    case True
    then have run: "modifierDocs (scope @ [e, dText '' '']) flavor b2 = (d, b1)"
      using "1.prems"(1) leaf by (simp add: modifierDocs.simps [of scope flavor b])
    obtain ts where ts: "modifierRun b2 b1 ts"
      "spells d ((ps @ piecesOf (b_current b)) @ scopePieces ts @ flavorPieces fs ts)"
      using "1.IH"(1) [OF True leaf [symmetric] run spellsAll_appendI [OF "1.prems"(2) spaced] "1.prems"(3)] by blast
    have "modifierRun b b1 (b_current b # ts)"
      using modifierRun_Cons [OF _ _ leaf ts(1)] True by (simp add: isModifier_def)
    moreover have "spells d (ps @ scopePieces (b_current b # ts) @ flavorPieces fs (b_current b # ts))"
      using ts(2) True scope_or_flavor [of "b_current b"] by simp
    ultimately show ?thesis by blast
  next
    case not_scope: False
    show ?thesis
    proof (cases "notLast b \<and> KindOf (b_current b) \<in> flavorModifiers")
      case True
      then have run: "modifierDocs scope (Some (dConcat [e, dText '' ''])) b2 = (d, b1)"
        using "1.prems"(1) leaf not_scope by (simp add: modifierDocs.simps [of scope flavor b])
      have "spellsAll (case Some (dConcat [e, dText '' '']) of None \<Rightarrow> [] | Some f \<Rightarrow> [f]) (piecesOf (b_current b))"
        using spellsAll_Cons [OF spells_concat [OF spaced] spellsAll_Nil] by simp
      from "1.IH"(2) [OF not_scope True leaf [symmetric] run "1.prems"(2) this]
      obtain ts where ts: "modifierRun b2 b1 ts"
        "spells d (ps @ scopePieces ts @ flavorPieces (piecesOf (b_current b)) ts)" by blast
      have "modifierRun b b1 (b_current b # ts)"
        using modifierRun_Cons [OF _ _ leaf ts(1)] True by (simp add: isModifier_def)
      moreover have "spells d (ps @ scopePieces (b_current b # ts) @ flavorPieces fs (b_current b # ts))"
        using ts(2) True not_scope by simp
      ultimately show ?thesis by blast
    next
      case False
      then have "d = dConcat (scope @ (case flavor of None \<Rightarrow> [] | Some f \<Rightarrow> [f]))" "b1 = b"
        using "1.prems"(1) not_scope by (auto simp: modifierDocs.simps [of scope flavor b])
      then show ?thesis
        using spellsAll_appendI [OF "1.prems"(2,3)] modifierRun_Nil [of b] by (intro exI [of _ "[]"]) simp
    qed
  qed
qed

lemma declarationModifiers_emits [emitted]: "emits declarationModifiers"
  unfolding emits_def declarationModifiers_def
proof (intro allI impI)
  fix b d b1 assume "modifierDocs [] None b = (d, b1)"
  from modifierDocs_emits [OF this, of "[]" "[]"]
  obtain ts where ts: "modifierRun b b1 ts" "spells d (arranged ts)" by (auto simp: arranged_def)
  have "covers (b_file b) (b_tokens b) (b_cursor b) (b_cursor b1) (arranged ts)"
  proof (cases "ts = []")
    case True
    then show ?thesis using ts(1) covers_none by (simp add: modifierRun_def arranged_def)
  next
    case False
    then have "covers (b_file b) (b_tokens b) (b_cursor b) (b_cursor b1)
        (arranged (slice (b_tokens b) (b_cursor b) (b_cursor b1)) @ [])"
      using ts(1) False by (intro covers_modifiers covers_none) (auto simp: modifierRun_def list_all_iff)
    moreover have "slice (b_tokens b) (b_cursor b) (b_cursor b1) = ts" using ts(1) unfolding modifierRun_def by blast
    ultimately show ?thesis by simp
  qed
  then show "\<exists>ps. spells d ps \<and> moved b b1 ps" using ts by (auto simp: modifierRun_def moved_def)
qed

lemma skipGap_moved: "moved b (skipGapSilently b) []"
proof (induction b rule: skipGapSilently.induct)
  case (1 b)
  show ?case
  proof (cases "notLast b \<and> KindOf (b_current b) = Newline")
    case True
    have "moved b (snd (b_advance b)) []"
      using True covers_dropped [of "b_cursor b" "b_tokens b" "b_file b" "Suc (b_cursor b)" "[]"]
      by (auto simp: moved_def b_advance_def notLast_def b_current_def covers_none)
    then have "moved b (skipGapSilently (snd (b_advance b))) []" using moved_trans [OF _ 1 [OF True]] by fastforce
    then show ?thesis using True by (simp add: skipGapSilently.simps [of b])
  next
    case False
    then show ?thesis using moved_refl by (auto simp: skipGapSilently.simps [of b])
  qed
qed

lemma comma_moved: "moved b (if KindOf (b_current b) = Comma then snd (b_advance b) else b) []"
  using covers_dropped [of "b_cursor b" "b_tokens b" "b_file b" "Suc (b_cursor b)" "[]"]
  by (auto simp: moved_def b_advance_def notLast_def b_current_def covers_none)

lemma argumentDocs_emits:
  "list_all emits fs \<Longrightarrow> argumentDocs fs first b = (ds, b1) \<Longrightarrow> \<exists>ps. spellsAll ds ps \<and> moved b b1 ps"
proof (induction fs arbitrary: first b ds b1)
  case Nil
  then show ?case by (auto intro: moved_refl)
next
  case (Cons f fs)
  then have f: "emits f" by simp
  obtain d b2 where d: "f b = (d, b2)" by fastforce
  define b3 where "b3 = (if KindOf (b_current b2) = Comma then snd (b_advance b2) else b2)"
  obtain es where es: "argumentDocs fs False (skipGapSilently b3) = (es, b1)"
    and ds: "ds = (if first then [] else [dText '', '']) @ [d] @ es"
    using Cons.prems(2) d by (auto simp: b3_def Let_def split: prod.splits)
  obtain ps where ps: "spells d ps" "moved b b2 ps" using emitsD [OF f d] by blast
  obtain qs where qs: "spellsAll es qs" "moved (skipGapSilently b3) b1 qs" using Cons.IH [OF _ es] Cons.prems(1) by auto
  have "moved b2 b3 []" unfolding b3_def by (rule comma_moved)
  from moved_trans [OF ps(2) moved_trans [OF this moved_trans [OF skipGap_moved qs(2)]]]
  have "moved b b1 (ps @ qs)" by simp
  moreover have "spellsAll (if first then [] else [dText '', '']) []"
    using spellsAll_Cons [OF spells_glue spellsAll_Nil, of "'', ''"] by simp
  then have "spellsAll ds ([] @ ps @ qs)"
    unfolding ds using spellsAll_Cons [OF ps(1) spellsAll_Nil] qs(1) by (intro spellsAll_appendI) simp_all
  ultimately show ?case by auto
qed

lemma emits_empty: "emits (fixed (dConcat []))"
  by (auto simp: emits_def fixed_def intro: moved_refl)

text \<open>A step that looks at the current token.\<close>

lemma emits_if: "emits f \<Longrightarrow> emits g \<Longrightarrow> emits (\<lambda>b. if c b then f b else g b)"
  by (simp add: emits_def)

lemma nullableSuffix_emits [emitted]: "emits nullableSuffix"
proof -
  have "nullableSuffix = (\<lambda>b. if KindOf (b_current b) \<noteq> Question then fixed (dConcat []) b else leaf b)"
    by (simp add: fun_eq_iff nullableSuffix_def fixed_def)
  then show ?thesis using emits_if [OF emits_empty leaf_emits, of "\<lambda>b. KindOf (b_current b) \<noteq> Question"] by simp
qed

lemma typeRefWith_emits [emitted]:
  assumes "list_all emits fs"
  shows "emits (typeRefWith fs)"
  unfolding emits_def
proof (intro allI impI)
  fix b d b1 assume run: "typeRefWith fs b = (d, b1)"
  obtain name c where name: "leaf b = (name, c)" by fastforce
  obtain ps where ps: "spells name ps" "moved b c ps" using emitsD [OF leaf_emits name] by blast
  show "\<exists>ps. spells d ps \<and> moved b b1 ps"
  proof (cases "KindOf (b_current c) = Less")
    case False
    then obtain suffix where s: "nullableSuffix c = (suffix, b1)" "d = dConcat [name, suffix]"
      using run name by (auto simp: typeRefWith_def split: prod.splits)
    obtain qs where qs: "spells suffix qs" "moved c b1 qs" using emitsD [OF nullableSuffix_emits s(1)] by blast
    have "spells d (ps @ qs)" using spellsAll_Cons [OF ps(1) spellsAll_Cons [OF qs(1) spellsAll_Nil]] s(2) by simp
    then show ?thesis using moved_trans [OF ps(2) qs(2)] by blast
  next
    case True
    then obtain front b2 ds b3 rear b4 suffix where steps: "leaf c = (front, b2)"
      "argumentDocs fs True (skipGapSilently b2) = (ds, b3)" "leaf b3 = (rear, b4)" "nullableSuffix b4 = (suffix, b1)"
      "d = dConcat [name, front, dConcat ds, rear, suffix]"
      using run name by (auto simp: typeRefWith_def split: prod.splits)
    obtain qs where qs: "spells front qs" "moved c b2 qs" using emitsD [OF leaf_emits steps(1)] by blast
    obtain rs where rs: "spellsAll ds rs" "moved (skipGapSilently b2) b3 rs"
      using argumentDocs_emits [OF assms steps(2)] by blast
    obtain ts where ts: "spells rear ts" "moved b3 b4 ts" using emitsD [OF leaf_emits steps(3)] by blast
    obtain us where us: "spells suffix us" "moved b4 b1 us" using emitsD [OF nullableSuffix_emits steps(4)] by blast
    have "spells d (ps @ qs @ rs @ ts @ us)"
      using spellsAll_Cons [OF ps(1) spellsAll_Cons [OF qs(1) spellsAll_Cons [OF spells_concat [OF rs(1)]
        spellsAll_Cons [OF ts(1) spellsAll_Cons [OF us(1) spellsAll_Nil]]]]] steps(5) by simp
    moreover have "moved b b1 (ps @ qs @ [] @ rs @ ts @ us)"
      by (intro moved_trans [OF ps(2)] moved_trans [OF qs(2)] moved_trans [OF skipGap_moved] moved_trans [OF rs(2)]
          moved_trans [OF ts(2)] us(2))
    ultimately show ?thesis by auto
  qed
qed

lemma buildTypeRef_emits [emitted]: "emits (buildTypeRef t)"
  by (induction t) (simp add: typeRefWith_emits list_all_mapI)

lemma verbatimSpan_emits [emitted]: "emits (verbatimSpan span)"
  unfolding emits_def
proof (intro allI impI)
  fix b d b1 assume run: "verbatimSpan span b = (d, b1)"
  obtain ds c b' where trivia: "triviaDocs (LeadingTrivia (b_current b)) b = (ds, b')" "b' = b\<lparr>b_openComment := c\<rparr>"
    "spellsAll ds (commentsOf (b_current b))"
    using triviaDocs_spells [of "LeadingTrivia (b_current b)" b] unfolding commentsOf_def by (metis prod.exhaust)
  let ?k = "length (takeWhile (\<lambda>t. Offset (Start (TokenSpan t)) < Offset (End span)) (drop (b_cursor b) (b_tokens b)))"
  have d: "d = dConcat [dConcat ds, dText (sourceSlice (b_file b) span)]"
    and b1: "b1 = b\<lparr>b_openComment := c, b_cursor := b_cursor b + ?k\<rparr>"
    using run trivia(1,2) by (auto simp: verbatimSpan_def leadingTriviaDoc_def)
  have "spells d (commentsOf (b_current b) @ [sourceSlice (b_file b) span])"
    using spellsAll_Cons [OF spells_concat [OF trivia(3)] spellsAll_Cons [OF spells_piece spellsAll_Nil]] d by simp
  moreover have "moved b b1 (commentsOf (b_current b) @ [sourceSlice (b_file b) span])"
    using covers_literal [of "b_cursor b" "b_tokens b" "b_file b" span "b_cursor b + ?k" "[]"]
      covers_last_literal [of "b_tokens b" "b_cursor b" "b_file b" "b_cursor b" "[]" span]
    by (auto simp: moved_def b1 b_current_def covers_none)
  ultimately show "\<exists>ps. spells d ps \<and> moved b b1 ps" by blast
qed

subsection \<open>Expressions and statements\<close>

lemma captureItem_emits [emitted]: "emits captureItem"
proof -
  have "emits (\<lambda>b. if KindOf (b_current b) \<in> {KeywordLocal, KeywordGlobal} then concatOf [leaf, space, leaf] b
      else concatOf [leaf, leaf] b)"
    by (intro emits_if) (simp_all add: emitted)
  then show ?thesis unfolding captureItem_def .
qed

lemma captureGroup_emits [emitted]: "emits (captureGroup n)"
  by (simp add: captureGroup_def emitted)

lemma binaryOperatorLeaf_emits [emitted]: "emits (binaryOperatorLeaf oper)"
  by (simp add: binaryOperatorLeaf_def emitted)

lemma lambdaCaptures_emits [emitted]: "emits (lambdaCaptures n)"
proof -
  have eq: "lambdaCaptures n = (\<lambda>b. if KindOf (b_current b) = LeftBracket then concatOf [captureGroup n, space] b
      else fixed (dText []) b)"
    by (simp add: fun_eq_iff lambdaCaptures_def fixed_def)
  show ?thesis unfolding eq by (intro emits_if) (simp_all add: emitted)
qed

lemma parameterItem_emits [emitted]:
  "emits ty \<Longrightarrow> (\<forall>f. g = Some f \<longrightarrow> emits f) \<Longrightarrow> emits (parameterItem_doc inherited ty g)"
  by (cases g) (simp_all add: parameterItem_doc_def emitted)

lemma typeOrName_emits [emitted]: "emits (typeOrName (map_option buildTypeRef ty))"
  by (cases ty) (simp_all add: typeOrName_def emitted)

lemma build_emits [emitted]:
  "emits (buildExpr e)" "emits (buildParameter p)" "emits (buildArgument a)" "emits (buildEntry q)" "emits (buildPart r)"
proof (induction e and p and a and q and r)
  case (SliceExpr s e lo hi)
  then show ?case by (cases lo; cases hi) (simp_all add: emitted optionally_def)
next
  case (Parameter s n ms ty d inherited)
  then show ?case by (cases d) (simp_all add: emitted)
qed (simp_all add: emitted)

lemma variableHead_emits:
  assumes "variableHead t ty c = ((head, after), b2)" "spells t ps"
  shows "\<exists>qs. spells head (ps @ qs) \<and> moved c b2 qs"
proof (cases "KindOf (b_current c) = Colon")
  case False
  then show ?thesis using assms moved_refl [of c] by (intro exI [of _ "[]"]) (simp add: variableHead_def)
next
  case True
  obtain colon c1 modifiers c2 where steps: "leaf c = (colon, c1)" "declarationModifiers c1 = (modifiers, c2)" by fastforce
  obtain qs where qs: "spells colon qs" "moved c c1 qs" using emitsD [OF leaf_emits steps(1)] by blast
  obtain rs where rs: "spells modifiers rs" "moved c1 c2 rs" using emitsD [OF declarationModifiers_emits steps(2)] by blast
  have h: "spells (dConcat [t, colon, dText '' '', modifiers]) (ps @ qs @ rs)"
    using spellsAll_Cons [OF assms(2) spellsAll_Cons [OF qs(1) spellsAll_Cons [OF spells_glue
      spellsAll_Cons [OF rs(1) spellsAll_Nil]]], of "'' ''"] by simp
  show ?thesis
  proof (cases ty)
    case None
    then have "head = dConcat [t, colon, dText '' '', modifiers]" "b2 = c2"
      using assms(1) True steps by (simp_all add: variableHead_def)
    then show ?thesis using h moved_trans [OF qs(2) rs(2)] by blast
  next
    case (Some ty')
    obtain e where e: "buildTypeRef ty' c2 = (e, b2)" "head = dConcat [dConcat [t, colon, dText '' '', modifiers], e]"
      using assms(1) True steps Some by (auto simp: variableHead_def split: prod.splits)
    obtain ts where ts: "spells e ts" "moved c2 b2 ts" using emitsD [OF buildTypeRef_emits e(1)] by blast
    have "spells head ((ps @ qs @ rs) @ ts)"
      unfolding e(2) using spells_concat [OF spellsAll_Cons [OF h spellsAll_Cons [OF ts(1) spellsAll_Nil]]] by (simp only: append_Nil2)
    then have "spells head (ps @ qs @ rs @ ts)" by (simp only: append.assoc)
    then show ?thesis using moved_trans [OF qs(2) moved_trans [OF rs(2) ts(2)]] by blast
  qed
qed

lemma variableDecl_emits [emitted]: "emits (variableDecl target ty initializer globalOnly)"
  unfolding emits_def
proof (intro allI impI)
  fix b d b1 assume run: "variableDecl target ty initializer globalOnly b = (d, b1)"
  obtain t c where t: "buildExpr target b = (t, c)" by fastforce
  obtain head after b2 where head: "variableHead t ty c = ((head, after), b2)" by (metis prod.exhaust)
  obtain ps where ps: "spells t ps" "moved b c ps" using emitsD [OF build_emits(1) t] by blast
  obtain qs where qs: "spells head (ps @ qs)" "moved c b2 qs" using variableHead_emits [OF head ps(1)] by blast
  show "\<exists>ps. spells d ps \<and> moved b b1 ps"
  proof (cases globalOnly)
    case True
    then have "d = head" "b1 = b2" using run t head by (simp_all add: variableDecl_def)
    then show ?thesis using qs moved_trans [OF ps(2) qs(2)] by blast
  next
    case False
    obtain decl b3 where decl: "leaf b2 = (decl, b3)" by fastforce
    obtain i where i: "initializerDoc initializer b3 = (i, b1)"
      and d: "d = (if after then dConcat [head, decl, dText '' '', i] else dConcat [head, dText '' '', decl, dText '' '', i])"
      using run False t head decl by (auto simp: variableDecl_def split: prod.splits)
    obtain rs where rs: "spells decl rs" "moved b2 b3 rs" using emitsD [OF leaf_emits decl] by blast
    have init: "emits (initializerDoc initializer)"
      by (cases initializer) (simp_all add: initializerDoc_def leaf_emits build_emits)
    obtain ts where ts: "spells i ts" "moved b3 b1 ts" using emitsD [OF init i] by blast
    have tail: "spellsAll [decl, dText '' '', i] (rs @ ts)"
      using spellsAll_Cons [OF rs(1) spellsAll_Cons [OF spells_glue spellsAll_Cons [OF ts(1) spellsAll_Nil]], of "'' ''"] by simp
    have "spellsAll [head, decl, dText '' '', i] ((ps @ qs) @ rs @ ts)"
      using spellsAll_Cons [OF qs(1) tail] .
    moreover have "spellsAll [head, dText '' '', decl, dText '' '', i] ((ps @ qs) @ rs @ ts)"
      using spellsAll_Cons [OF qs(1) spellsAll_Cons [OF spells_glue tail], of "'' ''"] by simp
    ultimately have "spells d ((ps @ qs) @ rs @ ts)" unfolding d by (simp add: spells_concat del: spells_dConcat)
    then show ?thesis using moved_trans [OF moved_trans [OF ps(2) qs(2)] moved_trans [OF rs(2) ts(2)]] by blast
  qed
qed

lemma usesDoc_emits [emitted]: "emits (usesDoc n)"
proof -
  have eq: "usesDoc n = (\<lambda>b. if KindOf (b_current b) = KeywordUses then concatOf [space, leaf, space, captureGroup n] b
      else fixed (dText []) b)"
    by (simp add: fun_eq_iff usesDoc_def fixed_def)
  show ?thesis unfolding eq by (intro emits_if) (simp_all add: emitted)
qed

lemma bringNames_emits [emitted]: "emits (bringNames n)"
proof -
  have eq: "bringNames n = (\<lambda>b. if KindOf (b_current b) = LeftParen then delimitedGroup (replicate n leaf) b else leaf b)"
    by (simp add: fun_eq_iff bringNames_def)
  show ?thesis unfolding eq by (intro emits_if) (simp_all add: emitted)
qed

lemma conditionDocs_emits: "list_all emitsAll fs \<Longrightarrow> emitsAll (conditionDocs fs)"
proof (induction fs)
  case Nil
  then show ?case by (auto simp: emitsAll_def intro: moved_refl)
next
  case (Cons f fs)
  then have f: "emitsAll f" and fs: "emitsAll (conditionDocs fs)" by simp_all
  show ?case
    unfolding emitsAll_def
  proof (intro allI impI)
    fix b ds b3 assume run: "conditionDocs (f # fs) b = (ds, b3)"
    obtain d b1 trailing b2 es where steps: "f b = (d, b1)" "b_gap b1 = (trailing, b2)" "conditionDocs fs b2 = (es, b3)"
      and ds: "ds = d @ (if fs = [] then (if isEmptyDoc trailing then [] else [dHard, trailing])
        else [withGapSeparator trailing False]) @ es"
      using run by (auto split: prod.splits)
    obtain ps where ps: "spellsAll d ps" "moved b b1 ps" using emitsAllD [OF f steps(1)] by blast
    obtain qs where qs: "spells trailing qs" "moved b1 b2 qs" "isEmptyDoc trailing \<longrightarrow> qs = []"
      using gap_emits [OF steps(2)] by blast
    obtain rs where rs: "spellsAll es rs" "moved b2 b3 rs" using emitsAllD [OF fs steps(3)] by blast
    have "spellsAll (if fs = [] then (if isEmptyDoc trailing then [] else [dHard, trailing])
        else [withGapSeparator trailing False]) qs"
      using spells_optional [OF qs(1,3), of dHard] spellsAll_Cons [OF spells_separator [OF qs(1,3)] spellsAll_Nil] by simp
    then have "spellsAll ds (ps @ qs @ rs)" unfolding ds using ps(1) rs(1) by (intro spellsAll_appendI)
    then show "\<exists>ps. spellsAll ds ps \<and> moved b b3 ps" using moved_trans [OF ps(2) moved_trans [OF qs(2) rs(2)]] by blast
  qed
qed

lemma stateBody_emits [emitted]: "list_all emitsAll fs \<Longrightarrow> emits (stateBody fs)"
  unfolding stateBody_def by (intro braced_emits led_emits conditionDocs_emits)

lemma parts_emit [emitted]:
  "(\<forall>f. g = Some f \<longrightarrow> emits f) \<Longrightarrow> list_all emits (elsePart g)"
  "list_all (list_all emits) branches \<Longrightarrow> list_all emits (ifBranches branches)"
  subgoal by (cases g) (simp_all add: elsePart_def emitted)
  subgoal by (cases branches) (auto simp: list_all_iff leaf_emits emits_gapSeparated emits_fixed)
  done

lemma declHead_emits [emitted]: "emits target \<Longrightarrow> emits ty \<Longrightarrow> emits (declHead target ty)"
  unfolding declHead_def by (rule emits_concatOf) (simp add: emitted)

lemma parameterGroup_emits [emitted]: "emits (parameterGroup ps)"
  unfolding parameterGroup_def by (rule delimitedGroup_emits) (simp add: build_emits list_all_mapI)

lemma functionDecl_emits [emitted]: "emits body \<Longrightarrow> emits (functionDecl ps r n body)"
  unfolding functionDecl_def by (rule emits_concatOf) (simp add: emitted)

lemma classDecl_emits [emitted]: "list_all emits members \<Longrightarrow> emits (classDecl parent members)"
  unfolding classDecl_def by (rule emits_concatOf) (cases parent; simp add: optionally_def emitted)

lemma structureDecl_emits [emitted]: "(\<forall>f. g = Some f \<longrightarrow> emits f) \<Longrightarrow> emits (structureDecl ps g)"
  unfolding structureDecl_def by (rule emits_concatOf) (cases g; simp add: emitted)

lemma exceptName_emits [emitted]: "emits (exceptName name)"
  by (simp add: exceptName_def emitted)

lemma requireStmt_emits [emitted]: "emits (requireStmt span literal)"
  unfolding requireStmt_def by (rule emits_concatOf) (simp add: emitted)

lemma bringStmt_emits [emitted]: "emits (bringStmt alias namespace all k)"
  by (simp add: bringStmt_def emitted)

lemma buildStmt_emits:
  "emits (buildStmt st)" "emits (buildBlock b)" "list_all emits (buildBranch br)"
  "emitsAll (buildCondition cond)" "list_all emits (buildExcept ex)"
proof (induction st and b and br and cond and ex)
  case (ReturnStmt s v)
  then show ?case by (cases v) (simp_all add: emitted)
next
  case (IfStmt s branches otherwise)
  then show ?case by (cases otherwise) (simp_all add: emitted)
next
  case (ForStmt s n ty e body)
  then show ?case by (cases ty) (simp_all add: emitted)
next
  case (AttemptStmt s body excepts final)
  then show ?case by (cases final) (simp_all add: emitted)
next
  case (StructureDecl s ps body)
  then show ?case by (cases body) (simp_all add: emitted)
next
  case (StateCondition s m isDefault body)
  then show ?case by (cases m) (simp_all add: emitted del: seqDocs.simps)
qed (simp_all add: emitted)

lemma buildProgram_emits: "emits (buildProgram p)"
  unfolding emits_def
proof (intro allI impI)
  fix b d b1 assume "buildProgram p b = (d, b1)"
  then obtain ds where ds: "stmtSeq (map buildStmt (Statements p)) b = (ds, b1)" "d = dConcat ds"
    by (auto simp: buildProgram_def split: prod.splits)
  have all: "emitsAll (stmtSeq (map buildStmt (Statements p)))"
    by (intro stmtSeq_emits) (simp add: buildStmt_emits list_all_mapI)
  show "\<exists>ps. spells d ps \<and> moved b b1 ps" using emitsAllD [OF all ds(1)] ds(2) by (auto intro: spells_concat)
qed

subsection \<open>The formatted text\<close>

lemma TrimRight_rest: "\<exists>rest. s = TrimRight cutset s @ rest \<and> set rest \<subseteq> set cutset"
proof (intro exI conjI)
  let ?P = "\<lambda>c. c \<in> set cutset"
  have "s = rev (takeWhile ?P (rev s) @ dropWhile ?P (rev s))" by (simp only: takeWhile_dropWhile_id rev_rev_ident)
  then show "s = TrimRight cutset s @ rev (takeWhile ?P (rev s))" unfolding TrimRight_def rev_append .
  show "set (rev (takeWhile ?P (rev s))) \<subseteq> set cutset" by (auto dest: set_takeWhileD)
qed

text \<open>
  \<open>Format\<close> returns for every file. A file with errors is never rewritten. The text of any other file is
  covered by its tokens up to the one at which the builder stops: each token that is passed gives its
  comments and its text, a string literal the part of the source that its span names, and between these
  pieces there are only white space and commas. That a literal's span is the one of the token at which the
  builder stands, and that the builder stops at \<open>EOF\<close>, would need a simulation of the parser by the builder,
  which is not part of this development.
\<close>

lemma formatted_text_is_covered:
  "\<exists>r. Format uc file = Some r \<and>
    (if FormatResult_HasErrors r then FormattedText r = []
     else \<exists>lexed n ps body rest. Lex uc file = Some lexed \<and> covers file (ResTokens lexed) 0 n ps \<and>
       interleaves ps (body @ rest) \<and> set rest \<subseteq> set (blanks @ [lineFeed]) \<and>
       FormattedText r = (if body = [] then [] else body @ [lineFeed]))"
proof -
  obtain l where lexed: "Lex uc file = Some l" "lexed file (ResTokens l) (ResDiagnostics l)"
    using Lex_lexed by (rule returnsE)
  obtain parsed where parsed: "Parse file (ResTokens l) = Some parsed" "parsedBy True file (ResTokens l) parsed"
    using Parse_parsedBy [OF lexed_tokensOk [OF lexed(2)]] by (rule returnsE)
  define result where "result = \<lparr>FormattedText = [], FormatDiagnostics = ResDiagnostics l @ ResParseDiagnostics parsed\<rparr>"
  define b where "b = \<lparr>b_file = file, b_tokens = ResParseTokens parsed, b_cursor = 0, b_openComment = False\<rparr>"
  define out where "out = render (fst (buildProgram (ResProgram parsed) b)) maxLineWidth"
  define body where "body = TrimRight (blanks @ [lineFeed]) out"
  have run: "Format uc file = Some (if FormatResult_HasErrors result \<or> body = [] then result
      else result\<lparr>FormattedText := body @ [lineFeed]\<rparr>)"
    using lexed(1) parsed(1) by (simp add: Format_def result_def b_def out_def body_def Let_def)
  have tokens: "ResParseTokens parsed = ResTokens l"
    using parsed(2) lexed_owned [OF lexed(2)] by (simp add: parsedBy_def)
  obtain d b1 where d: "buildProgram (ResProgram parsed) b = (d, b1)" by fastforce
  obtain ps where ps: "spells d ps" "moved b b1 ps" using emitsD [OF buildProgram_emits d] by blast
  obtain rest where rest: "out = body @ rest" "set rest \<subseteq> set (blanks @ [lineFeed])"
    unfolding body_def using TrimRight_rest by blast
  have "interleaves ps (body @ rest)" using render_spells [OF ps(1), of maxLineWidth] d unfolding rest(1) [symmetric] by (simp add: out_def)
  moreover have "covers file (ResTokens l) 0 (b_cursor b1) ps" using ps(2) tokens by (simp add: moved_def b_def)
  ultimately show ?thesis
    using run lexed(1) rest(2) by (cases "FormatResult_HasErrors result"; cases "body = []")
      (fastforce simp: result_def FormatResult_HasErrors_def)+
qed

text \<open>The characters that are neither white space nor commas.\<close>

definition significant :: "string \<Rightarrow> string" where
  "significant s = filter (\<lambda>c. c \<notin> set (blanks @ [lineFeed, CHR '','']) ) s"

lemma significant_simps [simp]: "significant [] = []" "significant (s @ t) = significant s @ significant t"
  by (simp_all add: significant_def)

lemma significant_glue: "glue s \<Longrightarrow> significant s = []"
  by (auto simp: significant_def glue_def blanks_def filter_empty_conv)

lemma interleaves_significant: "interleaves ps out \<Longrightarrow> significant out = concat (map significant ps)"
  by (induction rule: interleaves.induct) (simp_all add: significant_glue)

lemma spells_significant:
  "spells d ps \<Longrightarrow> significant (render d w) = concat (map significant ps)"
  using interleaves_significant [OF render_spells] .

lemma TrimRight_last: "TrimRight cutset s = [] \<or> last (TrimRight cutset s) \<notin> set cutset"
proof (cases "dropWhile (\<lambda>c. c \<in> set cutset) (rev s)")
  case (Cons c cs)
  then have "c \<notin> set cutset" using hd_dropWhile [of "\<lambda>c. c \<in> set cutset" "rev s"] by auto
  with Cons show ?thesis by (simp add: TrimRight_def)
qed (simp add: TrimRight_def)

text \<open>
  Layout keeps the content. \<open>Format\<close> returns for every file. A file with errors is never rewritten. For
  any other file the builder makes a document of the parsed program, and the formatted text has the
  characters of that document, apart from white space and commas, in their order: the same as the document
  printed on a page of any other width. So where groups are broken changes only white space and commas. The
  text is empty, or ends in one line end with no blank in front of it.
\<close>

theorem formatting_keeps_the_content:
  "\<exists>l p r. Lex uc file = Some l \<and> Parse file (ResTokens l) = Some p \<and> Format uc file = Some r \<and>
    (if list_ex (\<lambda>d. Sev d = SeverityError) (ResDiagnostics l @ ResParseDiagnostics p) then FormattedText r = []
     else
       (let document = fst (buildProgram (ResProgram p)
              \<lparr>b_file = file, b_tokens = ResParseTokens p, b_cursor = 0, b_openComment = False\<rparr>)
        in (\<forall>w. significant (FormattedText r) = significant (render document w))
          \<and> (case rev (FormattedText r) of
               [] \<Rightarrow> True
             | c # before \<Rightarrow> c = lineFeed \<and> before \<noteq> [] \<and> hd before \<notin> set (blanks @ [lineFeed]))))"
proof -
  obtain l where lexed: "Lex uc file = Some l" "lexed file (ResTokens l) (ResDiagnostics l)"
    using Lex_lexed by (rule returnsE)
  obtain p where parsed: "Parse file (ResTokens l) = Some p"
    using Parse_parsedBy [OF lexed_tokensOk [OF lexed(2)]] by (rule returnsE)
  define document where "document = fst (buildProgram (ResProgram p)
    \<lparr>b_file = file, b_tokens = ResParseTokens p, b_cursor = 0, b_openComment = False\<rparr>)"
  define body where "body = TrimRight (blanks @ [lineFeed]) (render document maxLineWidth)"
  define formatted where "formatted = (if body = [] then [] else body @ [lineFeed])"
  define bad where "bad \<longleftrightarrow> list_ex (\<lambda>d. Sev d = SeverityError) (ResDiagnostics l @ ResParseDiagnostics p)"
  have run: "Format uc file = Some \<lparr>FormattedText = (if bad then [] else formatted),
      FormatDiagnostics = ResDiagnostics l @ ResParseDiagnostics p\<rparr>"
    using lexed(1) parsed
    by (simp add: Format_def FormatResult_HasErrors_def bad_def formatted_def body_def document_def Let_def)
  obtain ps where ps: "spells document ps"
    unfolding document_def by (metis buildProgram_emits emitsD prod.collapse)
  obtain rest where "render document maxLineWidth = body @ rest" "set rest \<subseteq> set (blanks @ [lineFeed])"
    unfolding body_def using TrimRight_rest by blast
  then have "significant body = significant (render document maxLineWidth)"
    by (auto simp: significant_def filter_empty_conv)
  then have same: "significant formatted = significant (render document w)" for w
    using spells_significant [OF ps] significant_glue [of "[lineFeed]"]
    by (cases "body = []") (simp_all add: formatted_def)
  have "body = [] \<or> last body \<notin> set (blanks @ [lineFeed])" unfolding body_def by (rule TrimRight_last)
  then have "case rev formatted of [] \<Rightarrow> True
      | c # before \<Rightarrow> c = lineFeed \<and> before \<noteq> [] \<and> hd before \<notin> set (blanks @ [lineFeed])"
    by (auto simp: formatted_def hd_rev)
  with same show ?thesis
    by (intro exI [of _ l] exI [of _ p] exI [of _ "\<lparr>FormattedText = (if bad then [] else formatted),
        FormatDiagnostics = ResDiagnostics l @ ResParseDiagnostics p\<rparr>"] conjI lexed(1) parsed run)
      (simp add: bad_def [symmetric] document_def [symmetric] Let_def del: list_ex_append)
qed

subsection \<open>What is not kept\<close>

text \<open>Small files of tokens that stand on their own.\<close>

definition exampleToken :: "Kind \<Rightarrow> string \<Rightarrow> Trivia list \<Rightarrow> Token" where
  "exampleToken kind lexeme trivia =
    (let p = \<lparr>Offset = 0, Line = 1, Column = 1\<rparr>
     in \<lparr>KindOf = kind, Lexeme = lexeme, Value = lexeme, TokenSpan = NewSpan 1 p p, LeadingTrivia = trivia, Synthetic = False\<rparr>)"

definition exampleComment :: "Trivia" where
  "exampleComment = (let p = \<lparr>Offset = 0, Line = 1, Column = 1\<rparr>
    in \<lparr>TriviaOf = LineCommentTrivia, TriviaLexeme = ''// c'', TriviaSpan = NewSpan 1 p p\<rparr>)"

definition exampleBuilder :: "Token list \<Rightarrow> builder" where
  "exampleBuilder tokens = \<lparr>b_file = NewFile 1 ''x.ahd'' '''', b_tokens = tokens, b_cursor = 0, b_openComment = False\<rparr>"

abbreviation exampleName :: "Span \<Rightarrow> string \<Rightarrow> Expr" where
  "exampleName s name \<equiv> IdentifierExpr s name name"

lemmas example_formatting =
  exampleToken_def exampleComment_def exampleBuilder_def concatOf_def leaf_def leadingTriviaDoc_def b_advance_def
  b_current_def notLast_def fixed_def b_gap_def gapParts_def gapLoop.simps renderTrivia_def binaryOperatorLeaf_def
  isEmptyDoc_def render_def renderLoop.simps spliceChildren_def TrimRight_def blanks_def Let_def buildProgram_def
  stmtSeq_def

text \<open>
  A comment behind a binary operator, with the right operand on the next line: the operand is printed behind
  the comment on the same line, so it becomes a part of it.
\<close>

lemma operand_joins_the_comment:
  "render (fst (buildExpr (BinaryExpr s (exampleName s ''a'') ''+'' (exampleName s ''b''))
      (exampleBuilder [exampleToken Identifier ''a'' [], exampleToken Plus ''+'' [], exampleToken Newline [lineFeed] [exampleComment],
         exampleToken Identifier ''b'' [], exampleToken EOF '''' []]))) maxLineWidth = ''a + // cb''"
  by (simp add: example_formatting)

text \<open>The two signs of \<open>- - a\<close> are printed without white space, as the token of a decrement.\<close>

lemma signs_join:
  "render (fst (buildExpr (UnaryExpr s ''-'' (UnaryExpr s ''-'' (exampleName s ''a'')))
      (exampleBuilder [exampleToken Minus ''-'' [], exampleToken Minus ''-'' [], exampleToken Identifier ''a'' [],
         exampleToken EOF '''' []]))) maxLineWidth = ''--a''"
  by (simp add: example_formatting)

text \<open>A comment at the end of a file that has no newline behind it belongs to \<open>EOF\<close> and is not printed.\<close>

lemma last_comment_is_lost:
  "render (fst (buildProgram \<lparr>ProgramSpan = s, Statements = [ExprStmt s (exampleName s ''a'')]\<rparr>
      (exampleBuilder [exampleToken Identifier ''a'' [], exampleToken EOF '''' [exampleComment]]))) maxLineWidth = ''a''"
  by (simp add: example_formatting)

end
