(* ===== verification/HttpServer.thy ===== *)
theory HttpServer
  imports Modules Containers Hosts
begin

text \<open>
  The HTTP server of the runtime library: registering routes, static and managed prefixes and
  WebSocket endpoints, the limits of a server, and the choice of what answers a request
  (\<open>internal/backend/golang/ahdruntime/http.go\<close>, \<open>websocket.go\<close>, \<open>html.go\<close>).

  The tables of servers and endpoints and the two globals of the asset system are one record,
  \<open>httpRuntime\<close>. Handlers and endpoint configurations are values of any type; a nil handler is
  \<^const>\<open>None\<close>. Routes and WebSocket routes are Go maps: where the code ranges over one, the order of
  that iteration is an argument. \<open>class\<close> is the class of the error that the caller passes. What the
  code asks the operating system about files is the record \<open>httpOS\<close>.
\<close>

subsection \<open>Text\<close>

definition ContainsAny :: "string \<Rightarrow> char list \<Rightarrow> bool" where
  "ContainsAny s chars = list_ex (\<lambda>c. c \<in> set chars) s"

text \<open>\<open>for _, r := range value\<close>, each rune written back.\<close>

function quoteRunes :: "string \<Rightarrow> string" where
  "quoteRunes value =
    (if value = [] then []
     else (case DecodeRune value of (r, n) \<Rightarrow>
       (if r = 0x22 \<or> r = 0x5C then [CHR 0x5C] else []) @ EncodeRune r @ quoteRunes (drop n value)))"
  by pat_completeness auto
termination
  by (relation "measure length") (auto simp: prod_eq_iff DecodeRune_size_pos)

declare quoteRunes.simps [simp del]

definition ahdHTMLQuote :: "string \<Rightarrow> string" where
  "ahdHTMLQuote value = [CHR 0x22] @ quoteRunes value @ [CHR 0x22]"

text \<open>RFC 9110 tokens.\<close>

definition ahdHTTPTchar :: "char \<Rightarrow> bool" where
  "ahdHTTPTchar c =
    (48 \<le> byteOf c \<and> byteOf c \<le> 57 \<or> 65 \<le> byteOf c \<and> byteOf c \<le> 90 \<or> 97 \<le> byteOf c \<and> byteOf c \<le> 122
     \<or> c \<in> set (''!#$%&'' @ [CHR 0x27] @ ''*+-.^_`|~''))"

definition ahdHTTPMethodToken :: "string \<Rightarrow> bool" where
  "ahdHTTPMethodToken m = (m \<noteq> [] \<and> list_all ahdHTTPTchar m)"

subsection \<open>State\<close>

type_synonym ahdHTTPRouteKey = "string \<times> string"

record ahdHTTPStaticEntry =
  entryPrefix :: string
  entryRoot :: string

record httpTimeouts =
  readHeaderTimeoutOf :: int64
  readTimeoutOf :: int64
  writeTimeoutOf :: int64
  idleTimeoutOf :: int64

record ('h, 'e) ahdHTTPServerState =
  serverHost :: string
  serverPort :: int64
  maxBodyBytes :: int64
  maxUploadBytes :: int64
  maxUploadFiles :: int64
  readTimeout :: int64
  writeTimeout :: int64
  idleTimeout :: int64
  serverRoutes :: "ahdHTTPRouteKey \<rightharpoonup> 'h"
  serverMethods :: "string \<rightharpoonup> string list"
  serverStarted :: bool
  serverHTTP :: "httpTimeouts option"
  staticRoutes :: "ahdHTTPStaticEntry list"
  managedRoutes :: "ahdHTTPStaticEntry list"
  webSockets :: "string \<rightharpoonup> 'e"

record ('h, 'e) httpRuntime =
  httpServers :: "string \<rightharpoonup> ('h, 'e) ahdHTTPServerState"
  httpNextID :: int64
  socketEndpoints :: "string \<rightharpoonup> 'e"
  managedAssetPrefix :: string
  exposedAssets :: "string set"

record httpOS = os +
  statIsDir :: "string \<Rightarrow> bool option"
  openable :: "string \<Rightarrow> bool"
  typeByExtension :: "string \<Rightarrow> string"

definition methodsAt :: "('h, 'e) ahdHTTPServerState \<Rightarrow> string \<Rightarrow> string list" where
  "methodsAt server path = (case serverMethods server path of None \<Rightarrow> [] | Some ms \<Rightarrow> ms)"

definition ahdHTTPLookup ::
  "string \<Rightarrow> ('h, 'e) httpRuntime \<Rightarrow> string \<Rightarrow> raised + ('h, 'e) ahdHTTPServerState" where
  "ahdHTTPLookup class w handle =
    (case httpServers w handle of
       None \<Rightarrow> Inl (class, ''HTTP Server storage is corrupted'')
     | Some server \<Rightarrow> Inr server)"

definition putServer ::
  "('h, 'e) httpRuntime \<Rightarrow> string \<Rightarrow> ('h, 'e) ahdHTTPServerState \<Rightarrow> ('h, 'e) httpRuntime" where
  "putServer w handle server = w\<lparr>httpServers := (httpServers w)(handle \<mapsto> server)\<rparr>"

definition AhdHTTPServer ::
  "string \<Rightarrow> ('h, 'e) httpRuntime \<Rightarrow> string \<Rightarrow> int64 \<Rightarrow> int64 \<Rightarrow> raised + string \<times> ('h, 'e) httpRuntime" where
  "AhdHTTPServer class w host port maxBody =
    (if TrimSpace host = '''' then Inl (class, ''HTTP host must not be empty'')
     else if sint port < 1 \<or> sint port > 65535 then Inl (class, ''HTTP port must be in 1..65535'')
     else if sint maxBody < 0 then Inl (class, ''HTTP maxBodyBytes must not be negative'')
     else
       (let next = httpNextID w + 1; ident = FormatInt (sint next)
        in Inr (ident, putServer (w\<lparr>httpNextID := next\<rparr>) ident
             \<lparr>serverHost = host, serverPort = port, maxBodyBytes = maxBody,
              maxUploadBytes = 0, maxUploadFiles = 0, readTimeout = 0, writeTimeout = 0, idleTimeout = 0,
              serverRoutes = Map.empty, serverMethods = Map.empty, serverStarted = False,
              serverHTTP = None, staticRoutes = [], managedRoutes = [], webSockets = Map.empty\<rparr>)))"

subsection \<open>Registration\<close>

text \<open>The prefix of a pattern \<open>/prefix/*\<close>; the empty string for any other path.\<close>

definition ahdHTTPWildcardPrefix :: "string \<Rightarrow> string" where
  "ahdHTTPWildcardPrefix path =
    (if \<not> HasSuffix path ''/*'' \<or> length (filter (\<lambda>c. c = CHR ''*'') path) \<noteq> 1 then ''''
     else
       (let pre = TrimSuffix path ''/*''
        in if pre = '''' \<or> \<not> HasPrefix pre ''/'' \<or> ContainsAny pre ''*?#'' then '''' else pre))"

definition routePathProblem :: "string \<Rightarrow> string \<Rightarrow> raised option" where
  "routePathProblem class path =
    (if \<not> HasPrefix path ''/'' \<or> ContainsAny path ''?#''
     then Some (class, ''HTTP route path '' @ ahdHTMLQuote path @ '' must begin with / and must not contain ? or #'')
     else if Contains path ''*'' \<and> ahdHTTPWildcardPrefix path = ''''
     then Some (class, ''HTTP route path '' @ ahdHTMLQuote path @ '' may use a trailing /* for one path segment'')
     else None)"

definition ahdHTTPRegister ::
  "string \<Rightarrow> ('h, 'e) httpRuntime \<Rightarrow> string \<Rightarrow> string \<Rightarrow> string \<Rightarrow> 'h option \<Rightarrow> raised + ('h, 'e) httpRuntime" where
  "ahdHTTPRegister class w handle method path handler =
    (case handler of None \<Rightarrow> Inl (class, ''HTTP route handler is missing'')
     | Some h \<Rightarrow>
       (case routePathProblem class path of Some problem \<Rightarrow> Inl problem
        | None \<Rightarrow> andThen (ahdHTTPLookup class w handle) (\<lambda>server.
            if serverStarted server then Inl (class, ''HTTP routes cannot be changed after start'')
            else if serverRoutes server (method, path) \<noteq> None
            then Inl (class, ''HTTP route '' @ method @ '' '' @ path @ '' is already registered'')
            else if webSockets server path \<noteq> None \<and> method = ''GET''
            then Inl (class, ''HTTP route GET '' @ path @ '' is already registered as a WebSocket endpoint'')
            else
              (let server = server\<lparr>serverRoutes := (serverRoutes server)((method, path) \<mapsto> h)\<rparr>
               in Inr (putServer w handle
                    (if method \<in> set (methodsAt server path) then server
                     else server\<lparr>serverMethods :=
                       (serverMethods server)(path \<mapsto> methodsAt server path @ [method])\<rparr>))))))"

definition AhdHTTPServerGet ::
  "string \<Rightarrow> ('h, 'e) httpRuntime \<Rightarrow> string \<Rightarrow> string \<Rightarrow> 'h option \<Rightarrow> raised + ('h, 'e) httpRuntime" where
  "AhdHTTPServerGet class w handle path handler = ahdHTTPRegister class w handle ''GET'' path handler"

definition AhdHTTPServerPost ::
  "string \<Rightarrow> ('h, 'e) httpRuntime \<Rightarrow> string \<Rightarrow> string \<Rightarrow> 'h option \<Rightarrow> raised + ('h, 'e) httpRuntime" where
  "AhdHTTPServerPost class w handle path handler = ahdHTTPRegister class w handle ''POST'' path handler"

definition AhdHTTPServerRoute ::
  "string \<Rightarrow> ('h, 'e) httpRuntime \<Rightarrow> string \<Rightarrow> string \<Rightarrow> string \<Rightarrow> 'h option \<Rightarrow> raised + ('h, 'e) httpRuntime" where
  "AhdHTTPServerRoute class w handle method path handler =
    (if \<not> ahdHTTPMethodToken method
     then Inl (class, ''HTTP method '' @ ahdHTMLQuote method @ '' is not a valid HTTP method token'')
     else ahdHTTPRegister class w handle method path handler)"

definition AhdHTTPServerWebSocket ::
  "string \<Rightarrow> ('h, 'e) httpRuntime \<Rightarrow> string \<Rightarrow> string \<Rightarrow> string \<Rightarrow> raised + ('h, 'e) httpRuntime" where
  "AhdHTTPServerWebSocket class w handle path endpointHandle =
    (case socketEndpoints w endpointHandle of
       None \<Rightarrow> Inl (class, ''WebSocketEndpoint storage is corrupted'')
     | Some endpoint \<Rightarrow>
       (case routePathProblem class path of Some problem \<Rightarrow> Inl problem
        | None \<Rightarrow> andThen (ahdHTTPLookup class w handle) (\<lambda>server.
            if serverStarted server then Inl (class, ''HTTP routes cannot be changed after start'')
            else if serverRoutes server (''GET'', path) \<noteq> None
            then Inl (class, ''HTTP route GET '' @ path @ '' is already registered'')
            else if webSockets server path \<noteq> None
            then Inl (class, ''HTTP WebSocket route '' @ path @ '' is already registered'')
            else Inr (putServer w handle
                   (server\<lparr>webSockets := (webSockets server)(path \<mapsto> endpoint)\<rparr>)))))"

text \<open>
  \<open>AhdHTTPServerStatic\<close> and \<open>AhdHTTPServerManaged\<close> validate a prefix and its directory in the same
  way, up to the word in their messages.
\<close>

definition normalizedPrefix :: "string \<Rightarrow> string" where
  "normalizedPrefix urlPrefix = (if HasSuffix urlPrefix ''/'' then urlPrefix else urlPrefix @ ''/'')"

definition canonicalDirectory :: "string \<Rightarrow> httpOS \<Rightarrow> string \<Rightarrow> string \<Rightarrow> string \<Rightarrow> raised + string" where
  "canonicalDirectory class sys kind urlPrefix root =
    (if \<not> HasPrefix urlPrefix ''/'' \<or> ContainsAny urlPrefix ''?#''
     then Inl (class, ''HTTP '' @ kind @ '' prefix '' @ ahdHTMLQuote urlPrefix
                 @ '' must begin with / and must not contain ? or #'')
     else if statIsDir sys root \<noteq> Some True
     then Inl (class, ''HTTP '' @ kind @ '' root '' @ ahdHTMLQuote root @ '' is not a directory'')
     else
       (case Abs (os.truncate sys) root of
          Inl err \<Rightarrow> Inl (class, ''HTTP '' @ kind @ '' root '' @ ahdHTMLQuote root @ '' could not be resolved'')
        | Inr absolute \<Rightarrow> Inr (case evalSymlinks sys absolute of Some e \<Rightarrow> e | None \<Rightarrow> absolute)))"

definition overlaps :: "string \<Rightarrow> ahdHTTPStaticEntry \<Rightarrow> bool" where
  "overlaps urlPrefix existing =
    (HasPrefix (entryPrefix existing) urlPrefix \<or> HasPrefix urlPrefix (entryPrefix existing))"

definition registerPrefix ::
  "string \<Rightarrow> httpOS \<Rightarrow> string \<Rightarrow> ('h, 'e) httpRuntime \<Rightarrow> string \<Rightarrow> string \<Rightarrow> string
    \<Rightarrow> raised + ('h, 'e) ahdHTTPServerState \<times> ahdHTTPStaticEntry" where
  "registerPrefix class sys kind w handle urlPrefix root =
    andThen (canonicalDirectory class sys kind urlPrefix root) (\<lambda>directory.
    andThen (ahdHTTPLookup class w handle) (\<lambda>server.
      if serverStarted server then Inl (class, ''HTTP routes cannot be changed after start'')
      else
        (case find (overlaps (normalizedPrefix urlPrefix)) (staticRoutes server @ managedRoutes server) of
           Some existing \<Rightarrow> Inl (class, ''HTTP '' @ kind @ '' prefix '' @ ahdHTMLQuote urlPrefix
             @ '' overlaps the already-registered prefix '' @ ahdHTMLQuote (entryPrefix existing))
         | None \<Rightarrow> Inr (server, \<lparr>entryPrefix = normalizedPrefix urlPrefix, entryRoot = directory\<rparr>))))"

definition AhdHTTPServerStatic ::
  "string \<Rightarrow> httpOS \<Rightarrow> ('h, 'e) httpRuntime \<Rightarrow> string \<Rightarrow> string \<Rightarrow> string \<Rightarrow> raised + ('h, 'e) httpRuntime" where
  "AhdHTTPServerStatic class sys w handle urlPrefix root =
    andThen (registerPrefix class sys ''static'' w handle urlPrefix root) (\<lambda>(server, entry).
      Inr (putServer w handle (server\<lparr>staticRoutes := staticRoutes server @ [entry]\<rparr>)))"

definition ahdHTMLSetManagedAssetPrefix :: "('h, 'e) httpRuntime \<Rightarrow> string \<Rightarrow> ('h, 'e) httpRuntime" where
  "ahdHTMLSetManagedAssetPrefix w urlPrefix = w\<lparr>managedAssetPrefix := normalizedPrefix urlPrefix\<rparr>"

definition AhdHTTPServerManaged ::
  "string \<Rightarrow> httpOS \<Rightarrow> ('h, 'e) httpRuntime \<Rightarrow> string \<Rightarrow> string \<Rightarrow> string \<Rightarrow> raised + ('h, 'e) httpRuntime" where
  "AhdHTTPServerManaged class sys w handle urlPrefix root =
    andThen (registerPrefix class sys ''managed'' w handle urlPrefix root) (\<lambda>(server, entry).
      Inr (ahdHTMLSetManagedAssetPrefix
        (putServer w handle (server\<lparr>managedRoutes := managedRoutes server @ [entry]\<rparr>))
        (entryPrefix entry)))"

definition ahdHTMLExposeAsset :: "('h, 'e) httpRuntime \<Rightarrow> string \<Rightarrow> ('h, 'e) httpRuntime" where
  "ahdHTMLExposeAsset w path = w\<lparr>exposedAssets := insert path (exposedAssets w)\<rparr>"

subsection \<open>Limits\<close>

text \<open>\<open>strconv.ParseInt(text, 10, bits)\<close>\<close>

definition ParseInt :: "nat \<Rightarrow> string \<Rightarrow> int option" where
  "ParseInt bits txt =
    (let negative = HasPrefix txt ''-'';
         digits = (if HasPrefix txt ''-'' \<or> HasPrefix txt ''+'' then tl txt else txt);
         i = (if negative then - int (digitsValue digits) else int (digitsValue digits))
     in if digits = '''' \<or> \<not> list_all isDecimal digits then None
        else if i < - (2 ^ (bits - 1)) \<or> i \<ge> 2 ^ (bits - 1) then None
        else Some i)"

text \<open>
  \<open>strings.HasSuffix(strings.ToUpper(text), suffix)\<close> and the same with \<open>ToLower\<close>, for the suffixes
  of the code: no rune other than the ASCII letters has a \<open>B\<close>, \<open>G\<close>, \<open>K\<close> or \<open>M\<close> as its upper case or
  an \<open>m\<close> or \<open>s\<close> as its lower case.
\<close>

definition upperByte :: "char \<Rightarrow> char" where
  "upperByte c = (if 97 \<le> byteOf c \<and> byteOf c \<le> 122 then char_of (byteOf c - 32) else c)"

definition lowerByte :: "char \<Rightarrow> char" where
  "lowerByte c = (if 65 \<le> byteOf c \<and> byteOf c \<le> 90 then char_of (byteOf c + 32) else c)"

definition hasUnit :: "(char \<Rightarrow> char) \<Rightarrow> string \<Rightarrow> string \<Rightarrow> bool" where
  "hasUnit toCase txt unitName = HasSuffix (map toCase txt) unitName"

definition withoutUnit :: "string \<Rightarrow> nat \<Rightarrow> string" where
  "withoutUnit txt n = TrimSpace (take (length txt - n) txt)"

definition sizeUnit :: "string \<Rightarrow> int64 \<times> string" where
  "sizeUnit txt =
    (if hasUnit upperByte txt ''GB'' then (0x40000000, withoutUnit txt 2)
     else if hasUnit upperByte txt ''MB'' then (0x100000, withoutUnit txt 2)
     else if hasUnit upperByte txt ''KB'' then (0x400, withoutUnit txt 2)
     else if hasUnit upperByte txt ''B'' then (1, withoutUnit txt 1)
     else (1, txt))"

definition ahdHTTPParseSize :: "string \<Rightarrow> string \<Rightarrow> string + int64" where
  "ahdHTTPParseSize key raw =
    (if TrimSpace raw = '''' then Inl (key @ '' must be a size such as 16MB'')
     else
       (let (unit, txt) = sizeUnit (TrimSpace raw)
        in if txt = '''' then Inl (key @ '' must be a size such as 16MB'')
           else if HasPrefix txt ''-'' then Inl (key @ '' must not be negative'')
           else
             (case ParseInt 64 txt of
                None \<Rightarrow> Inl (key @ ''='' @ raw @ '' is not a valid size. Use forms such as 16MB, 8KB, or 512B'')
              | Some i \<Rightarrow>
                  (let v = word_of_int i :: int64
                   in if sint v < 0 then Inl (key @ '' must not be negative'')
                      else if sint unit > 1 \<and> sint v > sint (goDiv MaxInt64 unit)
                      then Inl (key @ '' is too large'')
                      else Inr (v * unit)))))"

definition ahdHTTPParseCount :: "string \<Rightarrow> string \<Rightarrow> string + int64" where
  "ahdHTTPParseCount key raw =
    (let txt = TrimSpace raw
     in if txt = '''' then Inl (key @ '' must be a whole number of files'')
        else if HasPrefix txt ''-'' then Inl (key @ '' must not be negative'')
        else
          (case ParseInt 32 txt of
             None \<Rightarrow> Inl (key @ ''='' @ raw @ '' is not a valid file count'')
           | Some i \<Rightarrow>
               if i < 0 then Inl (key @ '' must not be negative'') else Inr (word_of_int i)))"

definition Millisecond :: int64 where "Millisecond = 1000000"
definition Second :: int64 where "Second = 1000 * Millisecond"
definition Minute :: int64 where "Minute = 60 * Second"

definition durationUnit :: "string \<Rightarrow> (int64 \<times> string) option" where
  "durationUnit txt =
    (if hasUnit lowerByte txt ''ms'' then Some (Millisecond, withoutUnit txt 2)
     else if hasUnit lowerByte txt ''s'' then Some (Second, withoutUnit txt 1)
     else if hasUnit lowerByte txt ''m'' then Some (Minute, withoutUnit txt 1)
     else None)"

definition ahdHTTPParseDuration :: "string \<Rightarrow> string \<Rightarrow> string + int64" where
  "ahdHTTPParseDuration key raw =
    (let invalid = Inl (key @ ''='' @ raw @ '' is not a valid duration. Use forms such as 30s, 500ms, or 1m'')
     in if TrimSpace raw = '''' then Inl (key @ '' must be a duration such as 30s'')
        else
          (case durationUnit (TrimSpace raw) of
             None \<Rightarrow> invalid
           | Some (multiplier, txt) \<Rightarrow>
               if txt = '''' then Inl (key @ '' must be a duration such as 30s'')
               else if HasPrefix txt ''-'' then Inl (key @ '' must not be negative'')
               else
                 (case ParseInt 64 txt of
                    None \<Rightarrow> invalid
                  | Some i \<Rightarrow>
                      (let v = word_of_int i :: int64
                       in if sint v < 0 then Inl (key @ '' must not be negative'')
                          else if sint v > sint (goDiv MaxInt64 multiplier) then Inl (key @ '' is too large'')
                          else Inr (v * multiplier)))))"

definition AhdHTTPServerSetLimits ::
  "string \<Rightarrow> ('h, 'e) httpRuntime \<Rightarrow> string \<Rightarrow> int64 \<Rightarrow> int64 \<Rightarrow> int64 \<Rightarrow> int64 \<Rightarrow> int64 \<Rightarrow> int64
    \<Rightarrow> raised + ('h, 'e) httpRuntime" where
  "AhdHTTPServerSetLimits class w handle maxBody maxUpload maxFiles readT writeT idleT =
    (if sint maxBody < 0 \<or> sint maxUpload < 0 \<or> sint maxFiles < 0 \<or> sint readT < 0 \<or> sint writeT < 0
         \<or> sint idleT < 0
     then Inl (class, ''HTTP Web limits must not be negative'')
     else if sint maxUpload > sint maxBody
     then Inl (class, ''AHD_WEB_MAX_UPLOAD_SIZE must not be greater than AHD_WEB_MAX_BODY_SIZE'')
     else andThen (ahdHTTPLookup class w handle) (\<lambda>server.
       if serverStarted server then Inl (class, ''HTTP routes cannot be changed after start'')
       else Inr (putServer w handle
         (server\<lparr>maxBodyBytes := maxBody, maxUploadBytes := maxUpload, maxUploadFiles := maxFiles,
            readTimeout := readT, writeTimeout := writeT, idleTimeout := idleT\<rparr>))))"

text \<open>\<open>env\<close> is \<open>os.Getenv\<close>.\<close>

definition ahdHTTPWebEnvOr :: "(string \<Rightarrow> string) \<Rightarrow> string \<Rightarrow> string \<Rightarrow> string" where
  "ahdHTTPWebEnvOr env key fallback = (let v = TrimSpace (env key) in if v = '''' then fallback else v)"

fun orRaise :: "string \<Rightarrow> string + 'a \<Rightarrow> raised + 'a" where
  "orRaise class (Inl message) = Inl (class, message)"
| "orRaise class (Inr x) = Inr x"

definition AhdHTTPServerApplyWebLimits ::
  "string \<Rightarrow> (string \<Rightarrow> string) \<Rightarrow> ('h, 'e) httpRuntime \<Rightarrow> string \<Rightarrow> raised + ('h, 'e) httpRuntime" where
  "AhdHTTPServerApplyWebLimits class env w handle =
    (let setting = (\<lambda>parse key fallback. orRaise class (parse key (ahdHTTPWebEnvOr env key fallback)))
     in andThen (setting ahdHTTPParseSize ''AHD_WEB_MAX_BODY_SIZE'' ''16MB'') (\<lambda>maxBody.
        andThen (setting ahdHTTPParseSize ''AHD_WEB_MAX_UPLOAD_SIZE'' ''8MB'') (\<lambda>maxUpload.
        andThen (setting ahdHTTPParseCount ''AHD_WEB_MAX_UPLOAD_FILES'' ''10'') (\<lambda>maxFiles.
        andThen (setting ahdHTTPParseDuration ''AHD_WEB_READ_TIMEOUT'' ''30s'') (\<lambda>readT.
        andThen (setting ahdHTTPParseDuration ''AHD_WEB_WRITE_TIMEOUT'' ''30s'') (\<lambda>writeT.
        andThen (setting ahdHTTPParseDuration ''AHD_WEB_IDLE_TIMEOUT'' ''60s'') (\<lambda>idleT.
          if sint maxUpload > sint maxBody
          then Inl (class, ''AHD_WEB_MAX_UPLOAD_SIZE must not be greater than AHD_WEB_MAX_BODY_SIZE'')
          else AhdHTTPServerSetLimits class w handle maxBody maxUpload maxFiles readT writeT idleT)))))))"

subsection \<open>Start\<close>

text \<open>
  \<open>AhdHTTPServerStart\<close> marks the server as started, binds, and serves until the server closes.
  \<open>joined\<close> is \<open>net.JoinHostPort\<close>, \<open>bindError\<close> and \<open>serveError\<close> are what \<open>net.Listen\<close> and \<open>Serve\<close>
  answer, \<^const>\<open>None\<close> standing for no error and for \<open>http.ErrServerClosed\<close>. What the call raises and
  the state it leaves are separate, since the mark stays when binding fails.
\<close>

definition positiveOr :: "int64 \<Rightarrow> int64 \<Rightarrow> int64" where
  "positiveOr t otherwise = (if sint t \<le> 0 then otherwise else t)"

definition startTimeouts :: "('h, 'e) ahdHTTPServerState \<Rightarrow> httpTimeouts" where
  "startTimeouts server =
    (let readT = positiveOr (readTimeout server) (15 * Second)
     in \<lparr>readHeaderTimeoutOf = (if sint readT < sint (10 * Second) then readT else 10 * Second),
         readTimeoutOf = readT,
         writeTimeoutOf = positiveOr (writeTimeout server) (15 * Second),
         idleTimeoutOf = positiveOr (idleTimeout server) (60 * Second)\<rparr>)"

definition AhdHTTPServerStart ::
  "string \<Rightarrow> (string \<Rightarrow> string \<Rightarrow> string) \<Rightarrow> (string \<Rightarrow> string option) \<Rightarrow> string option
    \<Rightarrow> ('h, 'e) httpRuntime \<Rightarrow> string \<Rightarrow> raised option \<times> ('h, 'e) httpRuntime" where
  "AhdHTTPServerStart class joined bindError serveError w handle =
    (case ahdHTTPLookup class w handle of
       Inl problem \<Rightarrow> (Some problem, w)
     | Inr server \<Rightarrow>
         if serverStarted server then (Some (class, ''HTTP server has already started''), w)
         else
           (let server = server\<lparr>serverStarted := True\<rparr>;
                addr = joined (serverHost server) (FormatInt (sint (serverPort server)))
            in case bindError addr of
                 Some err \<Rightarrow> (Some (class, ''HTTP server could not bind '' @ addr @ '': '' @ err),
                              putServer w handle server)
               | None \<Rightarrow>
                   (map_option (\<lambda>err. (class, ''HTTP server failed: '' @ err)) serveError,
                    putServer w handle (server\<lparr>serverHTTP := Some (startTimeouts server)\<rparr>))))"

subsection \<open>Requests\<close>

definition ahdHTTPWildcardMatch :: "string \<Rightarrow> string \<Rightarrow> bool" where
  "ahdHTTPWildcardMatch pre path =
    (if \<not> HasPrefix path (pre @ ''/'') then False
     else (let segment = drop (length pre + 1) path in segment \<noteq> '''' \<and> \<not> Contains segment ''/''))"

text \<open>The loop over the routes, in the order \<open>range\<close> yields them.\<close>

fun wildcardLoop ::
  "string \<Rightarrow> string \<Rightarrow> (ahdHTTPRouteKey \<times> 'h) list \<Rightarrow> 'h option \<Rightarrow> string list \<Rightarrow> 'h option \<times> string list" where
  "wildcardLoop m path [] matched allowed = (matched, allowed)"
| "wildcardLoop m path ((key, handler) # rest) matched allowed =
    (let pre = ahdHTTPWildcardPrefix (snd key)
     in if pre = '''' \<or> \<not> ahdHTTPWildcardMatch pre path then wildcardLoop m path rest matched allowed
        else wildcardLoop m path rest
               (if fst key = m then Some handler else matched)
               (if fst key \<in> set allowed then allowed else allowed @ [fst key]))"

definition ahdHTTPLookupRoute ::
  "('h, 'e) ahdHTTPServerState \<Rightarrow> (ahdHTTPRouteKey \<times> 'h) list \<Rightarrow> string \<Rightarrow> string
    \<Rightarrow> 'h option \<times> string list" where
  "ahdHTTPLookupRoute server order m path =
    (case serverRoutes server (m, path) of
       Some handler \<Rightarrow> (Some handler, methodsAt server path)
     | None \<Rightarrow> wildcardLoop m path order None (methodsAt server path))"

definition ahdHTTPLookupWebSocket ::
  "('h, 'e) ahdHTTPServerState \<Rightarrow> (string \<times> 'e) list \<Rightarrow> string \<Rightarrow> 'e option" where
  "ahdHTTPLookupWebSocket server order path =
    (case webSockets server path of
       Some route \<Rightarrow> Some route
     | None \<Rightarrow>
         if serverRoutes server (''GET'', path) \<noteq> None then None
         else map_option snd (find (\<lambda>(pattern, route). ahdHTTPWildcardPrefix pattern \<noteq> ''''
                \<and> ahdHTTPWildcardMatch (ahdHTTPWildcardPrefix pattern) path) order))"

definition ahdHTTPStaticSegmentBlocked :: "string \<Rightarrow> bool" where
  "ahdHTTPStaticSegmentBlocked relative =
    list_ex (\<lambda>segment. segment = '''' \<or> segment = ''.'' \<or> segment = ''..'' \<or> HasPrefix segment ''.'')
      (splitSlash relative)"

definition ahdHTTPWithinRoot :: "string \<Rightarrow> string \<Rightarrow> bool" where
  "ahdHTTPWithinRoot root candidate =
    (let root = Clean root; candidate = Clean candidate
     in if candidate = root then True
        else
          (case Rel root candidate of
             None \<Rightarrow> False
           | Some relative \<Rightarrow>
               if IsAbs relative then False
               else relative \<noteq> ''..'' \<and> \<not> HasPrefix relative ''../''))"

text \<open>What is written for a request.\<close>

datatype ('h, 'e) answer =
  Upgrade 'e
| RunHandler 'h
| SendFile string string
| NotFound
| MethodNotAllowed "string list"

text \<open>
  \<open>ahdHTTPServeStatic\<close> and \<open>ahdHTTPServeManaged\<close> differ in the entries and in the further condition
  \<open>exposed\<close> on the relative path. \<^const>\<open>None\<close> is "nothing written": no prefix matched. A file is named
  by its resolved path and goes out with the type of its extension.
\<close>

fun serveEntries ::
  "httpOS \<Rightarrow> (string \<Rightarrow> bool) \<Rightarrow> ahdHTTPStaticEntry list \<Rightarrow> string \<Rightarrow> ('h, 'e) answer option" where
  "serveEntries sys exposed [] path = None"
| "serveEntries sys exposed (entry # rest) path =
    (if \<not> HasPrefix path (entryPrefix entry) then serveEntries sys exposed rest path
     else
       (let relative = drop (length (entryPrefix entry)) path
        in if relative = '''' \<or> ahdHTTPStaticSegmentBlocked relative \<or> \<not> exposed relative then Some NotFound
           else
             (let candidate = PathJoin [entryRoot entry, relative]
              in if \<not> ahdHTTPWithinRoot (entryRoot entry) candidate then Some NotFound
                 else
                   (case evalSymlinks sys candidate of
                      None \<Rightarrow> Some NotFound
                    | Some resolved \<Rightarrow>
                        if \<not> ahdHTTPWithinRoot (entryRoot entry) resolved then Some NotFound
                        else if statIsDir sys resolved \<noteq> Some False then Some NotFound
                        else if \<not> openable sys resolved then Some NotFound
                        else Some (SendFile resolved (typeByExtension sys (Ext resolved)))))))"

definition ahdHTTPServeStatic ::
  "httpOS \<Rightarrow> ('h, 'e) ahdHTTPServerState \<Rightarrow> string \<Rightarrow> string \<Rightarrow> ('h, 'e) answer option" where
  "ahdHTTPServeStatic sys server m path =
    (if m \<noteq> ''GET'' \<and> m \<noteq> ''HEAD'' then None
     else serveEntries sys (\<lambda>_. True) (staticRoutes server) path)"

definition ahdHTTPServeManaged ::
  "httpOS \<Rightarrow> string set \<Rightarrow> ('h, 'e) ahdHTTPServerState \<Rightarrow> string \<Rightarrow> string \<Rightarrow> ('h, 'e) answer option" where
  "ahdHTTPServeManaged sys exposed server m path =
    (if m \<noteq> ''GET'' \<and> m \<noteq> ''HEAD'' then None
     else serveEntries sys (\<lambda>relative. relative \<in> exposed) (managedRoutes server) path)"

text \<open>
  The part of \<open>ServeHTTP\<close> that decides who answers: a WebSocket endpoint, a handler, a file, or the
  plain answers 404 and 405. \<open>routeOrder\<close> and \<open>socketOrder\<close> are the iterations over the two maps.
\<close>

definition dispatch ::
  "httpOS \<Rightarrow> string set \<Rightarrow> ('h, 'e) ahdHTTPServerState \<Rightarrow> (ahdHTTPRouteKey \<times> 'h) list
    \<Rightarrow> (string \<times> 'e) list \<Rightarrow> string \<Rightarrow> string \<Rightarrow> ('h, 'e) answer" where
  "dispatch sys exposed server routeOrder socketOrder m path =
    (let socketRoute = ahdHTTPLookupWebSocket server socketOrder path;
         (handler, allowed) = ahdHTTPLookupRoute server routeOrder m path
     in if socketRoute \<noteq> None \<and> m = ''GET'' then Upgrade (the socketRoute)
        else
          (let allowed = (if socketRoute \<noteq> None \<and> ''GET'' \<notin> set allowed then allowed @ [''GET''] else allowed)
           in case handler of
                Some h \<Rightarrow> RunHandler h
              | None \<Rightarrow>
                  if allowed = []
                  then (case ahdHTTPServeStatic sys server m path of
                          Some reply \<Rightarrow> reply
                        | None \<Rightarrow>
                            (case ahdHTTPServeManaged sys exposed server m path of
                               Some reply \<Rightarrow> reply
                             | None \<Rightarrow> NotFound))
                  else MethodNotAllowed allowed))"

end
