(* ===== verification/HttpProofs.thy ===== *)
theory HttpProofs
  imports HttpServer Composition
begin

text \<open>
  What the HTTP server guarantees in every state a program can bring it to: routing does not depend
  on the iteration order of Go's maps (through the locale \<open>exclusive_keys\<close>, interpreted on the
  \<open>/prefix/*\<close> patterns), files are served only from inside their root, and the limits are exact.
\<close>

subsection \<open>Scanning a map for the one key that matches\<close>

locale exclusive_keys =
  fixes matches :: "'q \<Rightarrow> 'k \<Rightarrow> bool" and keyFor :: "'q \<Rightarrow> 'k option"
  assumes matches_iff: "matches q k \<longleftrightarrow> keyFor q = Some k"
begin

lemma find_any_order:
  "map_option snd (find (\<lambda>(k, v). matches q k) order) = Option.bind (keyFor q) (map_of order)"
  by (induction order) (auto simp: matches_iff split: bind_splits)

lemma last_any_order:
  assumes "distinct (map fst order)"
  shows "fold (\<lambda>(k, v) r. if matches q k then Some v else r) order None = Option.bind (keyFor q) (map_of order)"
proof (cases "keyFor q")
  case None
  then have "fold (\<lambda>(k, v) r. if matches q k then Some v else r) order r = r" for r
    by (induction order) (auto simp: matches_iff)
  with None show ?thesis by simp
next
  case (Some k)
  have "fold (\<lambda>(k, v) r. if matches q k then Some v else r) order r
      = (case map_of order k of None \<Rightarrow> r | Some v \<Rightarrow> Some v)" for r
    using assms
  proof (induction order arbitrary: r)
    case (Cons kv order)
    obtain l v where kv: "kv = (l, v)" by (cases kv)
    have "map_of order l = None" using Cons.prems by (simp add: kv map_of_eq_None_iff)
    then show ?case
      using Cons Some by (auto simp: kv matches_iff split: option.split)
  qed simp
  with Some show ?thesis by (simp split: option.split)
qed

end

subsection \<open>Patterns\<close>

lemma ContainsAny_iff: "ContainsAny s chars \<longleftrightarrow> (\<exists>c \<in> set s. c \<in> set chars)"
  by (simp add: ContainsAny_def list_ex_iff)

lemma Contains_char: "Contains s [c] \<longleftrightarrow> c \<in> set s"
proof (induction s)
  case Nil
  show ?case by (subst Contains.simps) (simp add: HasPrefix_def)
next
  case (Cons d s)
  show ?case by (subst Contains.simps) (use Cons in \<open>auto simp: HasPrefix_def\<close>)
qed

lemma HasPrefix_iff: "HasPrefix s p \<longleftrightarrow> (\<exists>r. s = p @ r)"
  unfolding HasPrefix_def by (metis append_eq_conv_conj append_take_drop_id)

lemma HasSuffix_iff: "HasSuffix s p \<longleftrightarrow> (\<exists>r. s = r @ p)"
  unfolding HasSuffix_def by (metis append_eq_conv_conj append_take_drop_id diff_add_inverse2 le_add2 length_append)

lemma wildcardPrefix_path:
  assumes "ahdHTTPWildcardPrefix path \<noteq> ''''"
  shows "path = ahdHTTPWildcardPrefix path @ ''/*''"
proof -
  obtain r where "path = r @ ''/*''" and "ahdHTTPWildcardPrefix path = r"
    using assms by (auto simp: ahdHTTPWildcardPrefix_def HasSuffix_iff TrimSuffix_def Let_def split: if_splits)
  then show ?thesis by simp
qed

lemma wildcardMatch_iff:
  "ahdHTTPWildcardMatch pre path \<longleftrightarrow> (\<exists>seg. path = pre @ slash # seg \<and> seg \<noteq> [] \<and> slash \<notin> set seg)"
  by (auto simp: ahdHTTPWildcardMatch_def HasPrefix_iff Contains_char Let_def)

text \<open>The one pattern that a path can match: its text up to the last slash, followed by \<open>/*\<close>.\<close>

definition patternOf :: "string \<Rightarrow> string option" where
  "patternOf path =
    (let seg = rev (takeWhile (\<lambda>c. c \<noteq> slash) (rev path));
         pattern = take (length path - length seg) path @ ''*''
     in if slash \<in> set path \<and> seg \<noteq> '''' \<and> ahdHTTPWildcardPrefix pattern \<noteq> '''' then Some pattern else None)"

definition patternMatches :: "string \<Rightarrow> string \<Rightarrow> bool" where
  "patternMatches path pattern =
    (ahdHTTPWildcardPrefix pattern \<noteq> '''' \<and> ahdHTTPWildcardMatch (ahdHTTPWildcardPrefix pattern) path)"

lemma last_segment:
  "slash \<notin> set seg \<Longrightarrow> rev (takeWhile (\<lambda>c. c \<noteq> slash) (rev (pre @ slash # seg))) = seg"
  by (induction seg rule: rev_induct) auto

lemma split_last_segment:
  assumes "slash \<in> set path"
  shows "\<exists>pre. path = pre @ slash # rev (takeWhile (\<lambda>c. c \<noteq> slash) (rev path))"
proof -
  obtain pre seg where "path = pre @ slash # seg" "slash \<notin> set seg"
    using split_list_last [OF assms] by blast
  then show ?thesis using last_segment [of seg pre] by auto
qed

lemma patternMatches_iff: "patternMatches path pattern \<longleftrightarrow> patternOf path = Some pattern"
proof
  assume m: "patternMatches path pattern"
  then obtain seg where seg: "path = ahdHTTPWildcardPrefix pattern @ slash # seg" "seg \<noteq> []" "slash \<notin> set seg"
    by (auto simp: patternMatches_def wildcardMatch_iff)
  have "pattern = ahdHTTPWildcardPrefix pattern @ ''/*''"
    using m wildcardPrefix_path by (simp add: patternMatches_def)
  with m seg last_segment [OF seg(3), of "ahdHTTPWildcardPrefix pattern"]
  show "patternOf path = Some pattern"
    by (auto simp: patternOf_def patternMatches_def Let_def)
next
  assume p: "patternOf path = Some pattern"
  define seg where "seg = rev (takeWhile (\<lambda>c. c \<noteq> slash) (rev path))"
  have s: "slash \<in> set path" "seg \<noteq> ''''" "ahdHTTPWildcardPrefix pattern \<noteq> ''''"
      and pat: "pattern = take (length path - length seg) path @ ''*''"
    using p by (auto simp: patternOf_def Let_def seg_def split: if_splits)
  obtain pre where path: "path = pre @ slash # seg" using split_last_segment [OF s(1)] by (auto simp: seg_def)
  have "slash \<notin> set seg" unfolding seg_def by (auto dest: set_takeWhileD)
  moreover have "pattern = pre @ ''/*''" using path pat by simp
  with wildcardPrefix_path [OF s(3)] have "ahdHTTPWildcardPrefix pattern = pre" by simp
  ultimately show "patternMatches path pattern"
    using s path by (auto simp: patternMatches_def wildcardMatch_iff)
qed

interpretation wildcards: exclusive_keys patternMatches patternOf
  by unfold_locales (rule patternMatches_iff)

interpretation routeKeys: exclusive_keys
  "\<lambda>(m, path) (m', pattern). m' = m \<and> patternMatches path pattern"
  "\<lambda>(m, path). map_option (Pair m) (patternOf path)"
  by unfold_locales (auto simp: patternMatches_iff)

subsection \<open>Routing\<close>

definition handlerAt :: "('h, 'e) ahdHTTPServerState \<Rightarrow> string \<Rightarrow> string \<Rightarrow> 'h option" where
  "handlerAt server m path =
    (case serverRoutes server (m, path) of
       Some h \<Rightarrow> Some h
     | None \<Rightarrow> Option.bind (patternOf path) (\<lambda>pattern. serverRoutes server (m, pattern)))"

definition socketAt :: "('h, 'e) ahdHTTPServerState \<Rightarrow> string \<Rightarrow> 'e option" where
  "socketAt server path =
    (case webSockets server path of
       Some e \<Rightarrow> Some e
     | None \<Rightarrow> if serverRoutes server (''GET'', path) \<noteq> None then None
               else Option.bind (patternOf path) (webSockets server))"

definition allowedAt :: "('h, 'e) ahdHTTPServerState \<Rightarrow> string \<Rightarrow> string set" where
  "allowedAt server path =
    {m. handlerAt server m path \<noteq> None} \<union> (if socketAt server path = None then {} else {''GET''})"

text \<open>An order in which Go may range over a map.\<close>

definition rangesOver :: "('k \<times> 'v) list \<Rightarrow> ('k \<rightharpoonup> 'v) \<Rightarrow> bool" where
  "rangesOver order m \<longleftrightarrow> distinct (map fst order) \<and> map_of order = m"

definition methodsOk :: "('h, 'e) ahdHTTPServerState \<Rightarrow> bool" where
  "methodsOk server \<longleftrightarrow>
    (\<forall>path. set (methodsAt server path) = {m. serverRoutes server (m, path) \<noteq> None}
       \<and> distinct (methodsAt server path))"

lemma wildcardLoop_fold:
  "fst (wildcardLoop m path order matched allowed) =
     fold (\<lambda>((m', pattern), v) r. if m' = m \<and> patternMatches path pattern then Some v else r) order matched"
  by (induction m path order matched allowed rule: wildcardLoop.induct)
    (auto simp: patternMatches_def Let_def)

lemma wildcardLoop_allowed:
  "set (snd (wildcardLoop m path order matched allowed)) =
     set allowed \<union> {m'. \<exists>pattern. (m', pattern) \<in> fst ` set order \<and> patternMatches path pattern}"
proof (induction order arbitrary: matched allowed)
  case (Cons entry order)
  obtain m' pattern h where entry: "entry = ((m', pattern), h)" by (metis surj_pair)
  have keys: "{m''. \<exists>p. (m'', p) \<in> fst ` set (entry # order) \<and> patternMatches path p} =
      (if patternMatches path pattern then {m'} else {})
      \<union> {m''. \<exists>p. (m'', p) \<in> fst ` set order \<and> patternMatches path p}"
    by (auto simp: entry)
  show ?case
    unfolding keys by (auto simp: entry Cons patternMatches_def Let_def)
qed simp

lemma wildcardLoop_distinct:
  "distinct allowed \<Longrightarrow> distinct (snd (wildcardLoop m path order matched allowed))"
proof (induction order arbitrary: matched allowed)
  case (Cons entry order)
  then show ?case by (cases entry; cases "fst entry") (auto simp: Let_def)
qed simp

lemma LookupWebSocket_any_order:
  assumes "map_of order = webSockets server"
  shows "ahdHTTPLookupWebSocket server order path = socketAt server path"
  using wildcards.find_any_order [of path order] assms
  by (cases "webSockets server path"; cases "serverRoutes server (''GET'', path)")
    (auto simp: ahdHTTPLookupWebSocket_def socketAt_def patternMatches_def)

lemma LookupRoute_handler:
  assumes "rangesOver order (serverRoutes server)"
  shows "fst (ahdHTTPLookupRoute server order m path) = handlerAt server m path"
  using routeKeys.last_any_order [of order "(m, path)"] assms
  by (auto simp: ahdHTTPLookupRoute_def handlerAt_def wildcardLoop_fold rangesOver_def split_def
      split: option.split bind_splits)

lemma LookupRoute_allowed:
  assumes "rangesOver order (serverRoutes server)" "methodsOk server" "handlerAt server m path = None"
  shows "set (snd (ahdHTTPLookupRoute server order m path)) = {m. handlerAt server m path \<noteq> None}"
    and "distinct (snd (ahdHTTPLookupRoute server order m path))"
proof -
  have exact: "serverRoutes server (m, path) = None"
    using assms(3) by (auto simp: handlerAt_def split: option.splits)
  have keys: "fst ` set order = dom (serverRoutes server)"
    using assms(1) dom_map_of_conv_image_fst [of order] by (simp add: rangesOver_def)
  show "distinct (snd (ahdHTTPLookupRoute server order m path))"
    using exact assms(2) by (simp add: ahdHTTPLookupRoute_def methodsOk_def wildcardLoop_distinct)
  show "set (snd (ahdHTTPLookupRoute server order m path)) = {m. handlerAt server m path \<noteq> None}"
    using exact assms(2) unfolding ahdHTTPLookupRoute_def
    by (auto simp: wildcardLoop_allowed keys methodsOk_def handlerAt_def patternMatches_iff dom_def
        split: option.splits bind_splits)
qed

subsection \<open>Static and managed prefixes\<close>

abbreviation prefixEntries :: "('h, 'e) ahdHTTPServerState \<Rightarrow> ahdHTTPStaticEntry list" where
  "prefixEntries server \<equiv> staticRoutes server @ managedRoutes server"

definition disjointPrefixes :: "ahdHTTPStaticEntry list \<Rightarrow> bool" where
  "disjointPrefixes = sorted_wrt (\<lambda>a b. \<not> overlaps (entryPrefix a) b)"

lemma overlaps_sym: "overlaps (entryPrefix a) b = overlaps (entryPrefix b) a"
  by (auto simp: overlaps_def)

lemma disjointPrefixes_insert:
  "disjointPrefixes (xs @ e # ys) \<longleftrightarrow>
     disjointPrefixes (xs @ ys) \<and> (\<forall>x \<in> set (xs @ ys). \<not> overlaps (entryPrefix e) x)"
  by (auto simp: disjointPrefixes_def sorted_wrt_append overlaps_sym)

text \<open>Prefixes that do not overlap match at most one path each.\<close>

lemma one_prefix_matches:
  assumes "disjointPrefixes es" "e \<in> set es" "e' \<in> set es"
    and "HasPrefix path (entryPrefix e)" "HasPrefix path (entryPrefix e')"
  shows "e = e'"
proof (rule ccontr)
  assume "e \<noteq> e'"
  have "overlaps (entryPrefix e) e'"
    using assms(4,5) unfolding overlaps_def HasPrefix_iff by (metis append_eq_append_conv2)
  moreover obtain i j where "i < length es" "es ! i = e" "j < length es" "es ! j = e'"
    using assms(2,3) by (auto simp: in_set_conv_nth)
  ultimately show False
    using assms(1) \<open>e \<noteq> e'\<close> overlaps_sym unfolding disjointPrefixes_def sorted_wrt_iff_nth_less
    by (metis linorder_neqE_nat)
qed

lemma WithinRoot_isWithinRoot: "ahdHTTPWithinRoot = isWithinRoot"
  by (simp add: fun_eq_iff ahdHTTPWithinRoot_def isWithinRoot_def)

lemma PathJoin_IsAbs:
  assumes "IsAbs root"
  shows "IsAbs (PathJoin [root, relative])"
proof -
  obtain r where "root = slash # r" using assms by (auto simp: IsAbs_iff)
  then have "PathJoin [root, relative] = Clean (slash # r @ slash # relative)"
    by (simp add: PathJoin_def joinSlash_def)
  moreover have "IsAbs (slash # r @ slash # relative)" by (simp add: IsAbs_iff)
  ultimately show ?thesis using IsAbs_Clean by metis
qed

text \<open>
  What \<open>serveEntries\<close> sends is the file that the rest of the path names below the root of the entry
  whose prefix matched, with its symbolic links evaluated; the path is in the root before that, and
  its evaluation is in the root after. It is not a directory and it can be opened.
\<close>

definition servedFrom ::
  "httpOS \<Rightarrow> (string \<Rightarrow> bool) \<Rightarrow> ahdHTTPStaticEntry \<Rightarrow> string \<Rightarrow> string \<Rightarrow> bool" where
  "servedFrom sys exposed e path resolved \<longleftrightarrow>
    (\<exists>relative. path = entryPrefix e @ relative \<and> exposed relative
      \<and> list_all (\<lambda>segment. segment \<noteq> '''' \<and> hd segment \<noteq> CHR ''.'') (splitSlash relative)
      \<and> prefix (elements (Clean (entryRoot e))) (elements (Clean (PathJoin [entryRoot e, relative])))
      \<and> evalSymlinks sys (PathJoin [entryRoot e, relative]) = Some resolved)
    \<and> prefix (elements (Clean (entryRoot e))) (elements (Clean resolved))
    \<and> statIsDir sys resolved = Some False \<and> openable sys resolved"

lemma not_blocked:
  "\<not> ahdHTTPStaticSegmentBlocked relative \<Longrightarrow>
   list_all (\<lambda>segment. segment \<noteq> '''' \<and> hd segment \<noteq> CHR ''.'') (splitSlash relative)"
proof -
  have "HasPrefix s ''.''" if "s \<noteq> ''''" "hd s = CHR ''.''" for s
    using that by (cases s) (auto simp: HasPrefix_def)
  moreover assume "\<not> ahdHTTPStaticSegmentBlocked relative"
  ultimately show ?thesis
    unfolding ahdHTTPStaticSegmentBlocked_def list_all_iff list_ex_iff by blast
qed

lemma serveEntries_inside:
  assumes links: "\<And>p q. IsAbs p \<Longrightarrow> evalSymlinks sys p = Some q \<Longrightarrow> IsAbs q"
    and "serveEntries sys exposed es path = Some (SendFile resolved kind)"
    and "\<And>e. e \<in> set es \<Longrightarrow> IsAbs (entryRoot e)"
  shows "\<exists>e \<in> set es. servedFrom sys exposed e path resolved"
  using assms(2,3)
proof (induction es)
  case (Cons e es)
  show ?case
  proof (cases "HasPrefix path (entryPrefix e)")
    case False
    with Cons show ?thesis by auto
  next
    case True
    then obtain relative where path: "path = entryPrefix e @ relative" by (auto simp: HasPrefix_iff)
    let ?candidate = "PathJoin [entryRoot e, relative]"
    have r: "\<not> ahdHTTPStaticSegmentBlocked relative" "exposed relative"
        "ahdHTTPWithinRoot (entryRoot e) ?candidate"
        "evalSymlinks sys ?candidate = Some resolved" "ahdHTTPWithinRoot (entryRoot e) resolved"
        "statIsDir sys resolved = Some False" "openable sys resolved"
      using Cons.prems(1) True by (auto simp: path Let_def split: if_splits option.splits)
    have root: "IsAbs (entryRoot e)" using Cons.prems(2) by simp
    then have "IsAbs ?candidate" by (rule PathJoin_IsAbs)
    moreover from this have "IsAbs resolved" using links r(4) by blast
    ultimately have "prefix (elements (Clean (entryRoot e))) (elements (Clean ?candidate))"
        "prefix (elements (Clean (entryRoot e))) (elements (Clean resolved))"
      using r(3,5) root by (simp_all add: WithinRoot_isWithinRoot isWithinRoot_elements)
    then have "servedFrom sys exposed e path resolved"
      using r path not_blocked [OF r(1)] by (auto simp: servedFrom_def)
    then show ?thesis by simp
  qed
qed simp

definition absolutePaths :: "httpOS \<Rightarrow> bool" where
  "absolutePaths sys \<longleftrightarrow> (\<forall>wd. getwd sys = Inr wd \<longrightarrow> IsAbs wd)
     \<and> (\<forall>p q. IsAbs p \<longrightarrow> evalSymlinks sys p = Some q \<longrightarrow> IsAbs q)"

lemma ServeStatic_inside:
  fixes server :: "('h, 'e) ahdHTTPServerState"
  assumes "ahdHTTPServeStatic sys server m path = Some (SendFile resolved kind :: ('h, 'e) answer)"
    and "absolutePaths sys" "\<forall>e \<in> set (staticRoutes server). IsAbs (entryRoot e)"
  shows "m = ''GET'' \<or> m = ''HEAD''" "\<exists>e \<in> set (staticRoutes server). servedFrom sys (\<lambda>_. True) e path resolved"
proof -
  have "serveEntries sys (\<lambda>_. True) (staticRoutes server) path = Some (SendFile resolved kind :: ('h, 'e) answer)"
    using assms(1) by (simp add: ahdHTTPServeStatic_def split: if_splits)
  with assms(2,3) show "\<exists>e \<in> set (staticRoutes server). servedFrom sys (\<lambda>_. True) e path resolved"
    by (intro serveEntries_inside) (auto simp: absolutePaths_def)
qed (use assms(1) in \<open>auto simp: ahdHTTPServeStatic_def split: if_splits\<close>)

lemma ServeManaged_inside:
  fixes server :: "('h, 'e) ahdHTTPServerState"
  assumes "ahdHTTPServeManaged sys exposed server m path = Some (SendFile resolved kind :: ('h, 'e) answer)"
    and "absolutePaths sys" "\<forall>e \<in> set (managedRoutes server). IsAbs (entryRoot e)"
  shows "m = ''GET'' \<or> m = ''HEAD''"
    and "\<exists>e \<in> set (managedRoutes server). servedFrom sys (\<lambda>relative. relative \<in> exposed) e path resolved"
proof -
  have "serveEntries sys (\<lambda>relative. relative \<in> exposed) (managedRoutes server) path
      = Some (SendFile resolved kind :: ('h, 'e) answer)"
    using assms(1) by (simp add: ahdHTTPServeManaged_def split: if_splits)
  with assms(2,3)
  show "\<exists>e \<in> set (managedRoutes server). servedFrom sys (\<lambda>relative. relative \<in> exposed) e path resolved"
    by (intro serveEntries_inside) (auto simp: absolutePaths_def)
qed (use assms(1) in \<open>auto simp: ahdHTTPServeManaged_def split: if_splits\<close>)

subsection \<open>Every reachable server\<close>

definition routePath :: "string \<Rightarrow> bool" where
  "routePath path \<longleftrightarrow> HasPrefix path ''/'' \<and> \<not> ContainsAny path ''?#''
     \<and> (CHR ''*'' \<in> set path \<longrightarrow> ahdHTTPWildcardPrefix path \<noteq> '''')"

definition limitsOk :: "('h, 'e) ahdHTTPServerState \<Rightarrow> bool" where
  "limitsOk s \<longleftrightarrow> 0 \<le> sint (maxUploadBytes s) \<and> sint (maxUploadBytes s) \<le> sint (maxBodyBytes s)
     \<and> 0 \<le> sint (maxUploadFiles s) \<and> 0 \<le> sint (readTimeout s) \<and> 0 \<le> sint (writeTimeout s)
     \<and> 0 \<le> sint (idleTimeout s)"

definition serverOk :: "('h, 'e) ahdHTTPServerState \<Rightarrow> bool" where
  "serverOk s \<longleftrightarrow> methodsOk s \<and> limitsOk s
     \<and> (\<forall>m path. serverRoutes s (m, path) \<noteq> None \<longrightarrow> routePath path)
     \<and> (\<forall>path. webSockets s path \<noteq> None \<longrightarrow> routePath path \<and> serverRoutes s (''GET'', path) = None)
     \<and> disjointPrefixes (prefixEntries s) \<and> (\<forall>e \<in> set (prefixEntries s). IsAbs (entryRoot e))"

definition runtimeOk :: "('h, 'e) httpRuntime \<Rightarrow> bool" where
  "runtimeOk w \<longleftrightarrow> (\<forall>handle server. httpServers w handle = Some server \<longrightarrow> serverOk server)"

text \<open>The operations a program has, whatever their arguments, when they do not raise; start also when
  it does.\<close>

inductive httpStep :: "httpOS \<Rightarrow> ('h, 'e) httpRuntime \<Rightarrow> ('h, 'e) httpRuntime \<Rightarrow> bool" for sys where
  "AhdHTTPServer class w host port maxBody = Inr (ident, w') \<Longrightarrow> httpStep sys w w'"
| "AhdHTTPServerGet class w handle path handler = Inr w' \<Longrightarrow> httpStep sys w w'"
| "AhdHTTPServerPost class w handle path handler = Inr w' \<Longrightarrow> httpStep sys w w'"
| "AhdHTTPServerRoute class w handle m path handler = Inr w' \<Longrightarrow> httpStep sys w w'"
| "AhdHTTPServerWebSocket class w handle path endpoint = Inr w' \<Longrightarrow> httpStep sys w w'"
| "AhdHTTPServerStatic class sys w handle urlPrefix root = Inr w' \<Longrightarrow> httpStep sys w w'"
| "AhdHTTPServerManaged class sys w handle urlPrefix root = Inr w' \<Longrightarrow> httpStep sys w w'"
| "AhdHTTPServerApplyWebLimits class env w handle = Inr w' \<Longrightarrow> httpStep sys w w'"
| "AhdHTTPServerStart class joined bindError serveError w handle = (problem, w') \<Longrightarrow> httpStep sys w w'"
| "httpStep sys w (ahdHTMLExposeAsset w path)"
| "httpStep sys w (w\<lparr>socketEndpoints := (socketEndpoints w)(ident \<mapsto> endpoint)\<rparr>)"

inductive httpReachable :: "httpOS \<Rightarrow> ('h, 'e) httpRuntime \<Rightarrow> bool" for sys where
  "httpServers w = Map.empty \<Longrightarrow> httpReachable sys w"
| "httpReachable sys w \<Longrightarrow> httpStep sys w w' \<Longrightarrow> httpReachable sys w'"

lemma runtimeOk_putServer: "runtimeOk w \<Longrightarrow> serverOk server \<Longrightarrow> runtimeOk (putServer w handle server)"
  by (auto simp: runtimeOk_def putServer_def)

lemma ahdHTTPLookup_ok: "runtimeOk w \<Longrightarrow> ahdHTTPLookup class w handle = Inr server \<Longrightarrow> serverOk server"
  by (auto simp: runtimeOk_def ahdHTTPLookup_def split: option.splits)

lemma routePathProblem_None: "routePathProblem class path = None \<longleftrightarrow> routePath path"
  by (auto simp: routePathProblem_def routePath_def Contains_char)

lemma AhdHTTPServer_ok:
  assumes "runtimeOk w" "AhdHTTPServer class w host port maxBody = Inr (ident, w')"
  shows "runtimeOk w'"
proof -
  have "0 \<le> sint maxBody" using assms(2) by (auto simp: AhdHTTPServer_def split: if_splits)
  moreover have "runtimeOk (w\<lparr>httpNextID := n\<rparr>)" for n using assms(1) by (simp add: runtimeOk_def)
  ultimately show ?thesis
    using assms(2)
    by (auto simp: AhdHTTPServer_def Let_def serverOk_def methodsOk_def methodsAt_def limitsOk_def
        disjointPrefixes_def split: if_splits intro!: runtimeOk_putServer)
qed

lemma ahdHTTPRegister_ok:
  assumes "runtimeOk w" "ahdHTTPRegister class w handle m path handler = Inr w'"
  shows "runtimeOk w'"
proof -
  obtain h server where server: "handler = Some h" "routePath path" "ahdHTTPLookup class w handle = Inr server"
      "serverRoutes server (m, path) = None" "\<not> (webSockets server path \<noteq> None \<and> m = ''GET'')"
    using assms(2) by (auto simp: ahdHTTPRegister_def andThen_Inr routePathProblem_None
        split: option.splits if_splits)
  define routed where "routed = server\<lparr>serverRoutes := (serverRoutes server)((m, path) \<mapsto> h)\<rparr>"
  define server' where "server' = (if m \<in> set (methodsAt routed path) then routed
      else routed\<lparr>serverMethods := (serverMethods routed)(path \<mapsto> methodsAt routed path @ [m])\<rparr>)"
  have old: "serverOk server" using assms(1) server(3) by (rule ahdHTTPLookup_ok)
  have "methodsAt server' p = (if p = path then methodsAt server path @ [m] else methodsAt server p)" for p
    using old server(4) unfolding serverOk_def methodsOk_def
    by (auto simp: server'_def routed_def methodsAt_def split: option.splits)
  then have "methodsOk server'"
    using old server(4) unfolding serverOk_def methodsOk_def by (auto simp: server'_def routed_def)
  then have "serverOk server'"
    using old server(2,5) by (auto simp: serverOk_def limitsOk_def server'_def routed_def)
  moreover have "w' = putServer w handle server'"
    using assms(2) server(1,3) routePathProblem_None [of "class" path] server(2)
    by (auto simp: ahdHTTPRegister_def Let_def server'_def routed_def split: if_splits)
  ultimately show ?thesis using assms(1) by (simp add: runtimeOk_putServer)
qed

lemma AhdHTTPServerWebSocket_ok:
  assumes "runtimeOk w" "AhdHTTPServerWebSocket class w handle path endpoint = Inr w'"
  shows "runtimeOk w'"
proof -
  obtain e server where server: "routePath path" "ahdHTTPLookup class w handle = Inr server"
      "serverRoutes server (''GET'', path) = None"
      "w' = putServer w handle (server\<lparr>webSockets := (webSockets server)(path \<mapsto> e)\<rparr>)"
    using assms(2) by (auto simp: AhdHTTPServerWebSocket_def andThen_Inr routePathProblem_None
        split: option.splits if_splits)
  have "serverOk server" using assms(1) server(2) by (rule ahdHTTPLookup_ok)
  with server(1,3) have "serverOk (server\<lparr>webSockets := (webSockets server)(path \<mapsto> e)\<rparr>)"
    by (auto simp: serverOk_def methodsOk_def methodsAt_def limitsOk_def)
  with server(4) assms(1) show ?thesis by (simp add: runtimeOk_putServer)
qed

lemma registerPrefix_ok:
  assumes "runtimeOk w" "absolutePaths sys"
    and "registerPrefix class sys kind w handle urlPrefix root = Inr (server, entry)"
  shows "serverOk server" "IsAbs (entryRoot entry)"
    and "\<forall>x \<in> set (prefixEntries server). \<not> overlaps (entryPrefix entry) x"
proof -
  obtain directory where r: "canonicalDirectory class sys kind urlPrefix root = Inr directory"
      "ahdHTTPLookup class w handle = Inr server"
      "find (overlaps (normalizedPrefix urlPrefix)) (prefixEntries server) = None"
      "entry = \<lparr>entryPrefix = normalizedPrefix urlPrefix, entryRoot = directory\<rparr>"
    using assms(3) unfolding registerPrefix_def andThen_Inr
    by (elim exE conjE) (simp split: if_splits option.splits)
  show "serverOk server" using assms(1) r(2) by (rule ahdHTTPLookup_ok)
  show "\<forall>x \<in> set (prefixEntries server). \<not> overlaps (entryPrefix entry) x"
    using r(3,4) by (auto simp: find_None_iff)
  obtain absolute where a: "Abs (os.truncate sys) root = Inr absolute"
      "directory = (case evalSymlinks sys absolute of Some e \<Rightarrow> e | None \<Rightarrow> absolute)"
    using r(1) by (auto simp: canonicalDirectory_def split: if_splits sum.splits)
  have "getwd (os.truncate sys) = getwd sys" by (simp add: os.truncate_def)
  then have "IsAbs absolute" using Abs_IsAbs [OF a(1)] assms(2) unfolding absolutePaths_def by metis
  then have "IsAbs directory"
    using a(2) assms(2) unfolding absolutePaths_def by (cases "evalSymlinks sys absolute") auto
  then show "IsAbs (entryRoot entry)" by (simp add: r(4))
qed

lemma AhdHTTPServerStatic_ok:
  assumes "runtimeOk w" "absolutePaths sys"
    and "AhdHTTPServerStatic class sys w handle urlPrefix root = Inr w'"
  shows "runtimeOk w'"
proof -
  obtain server entry where r: "registerPrefix class sys ''static'' w handle urlPrefix root = Inr (server, entry)"
      "w' = putServer w handle (server\<lparr>staticRoutes := staticRoutes server @ [entry]\<rparr>)"
    using assms(3) by (auto simp: AhdHTTPServerStatic_def andThen_Inr)
  note ok = registerPrefix_ok [OF assms(1) assms(2) r(1)]
  have "serverOk (server\<lparr>staticRoutes := staticRoutes server @ [entry]\<rparr>)"
    using ok by (auto simp: serverOk_def methodsOk_def methodsAt_def limitsOk_def disjointPrefixes_insert)
  with r(2) assms(1) show ?thesis by (simp add: runtimeOk_putServer)
qed

lemma AhdHTTPServerManaged_ok:
  assumes "runtimeOk w" "absolutePaths sys"
    and "AhdHTTPServerManaged class sys w handle urlPrefix root = Inr w'"
  shows "runtimeOk w'"
proof -
  obtain server entry where r: "registerPrefix class sys ''managed'' w handle urlPrefix root = Inr (server, entry)"
      "w' = ahdHTMLSetManagedAssetPrefix
        (putServer w handle (server\<lparr>managedRoutes := managedRoutes server @ [entry]\<rparr>)) (entryPrefix entry)"
    using assms(3) by (auto simp: AhdHTTPServerManaged_def andThen_Inr)
  note ok = registerPrefix_ok [OF assms(1) assms(2) r(1)]
  have "disjointPrefixes ((staticRoutes server @ managedRoutes server) @ [entry])"
    using ok by (subst disjointPrefixes_insert) (auto simp: serverOk_def)
  then have "serverOk (server\<lparr>managedRoutes := managedRoutes server @ [entry]\<rparr>)"
    using ok by (auto simp: serverOk_def methodsOk_def methodsAt_def limitsOk_def)
  then have "runtimeOk (putServer w handle (server\<lparr>managedRoutes := managedRoutes server @ [entry]\<rparr>))"
    using assms(1) by (rule runtimeOk_putServer [rotated])
  then show ?thesis by (simp add: r(2) runtimeOk_def ahdHTMLSetManagedAssetPrefix_def)
qed

lemma AhdHTTPServerSetLimits_ok:
  assumes "runtimeOk w" "AhdHTTPServerSetLimits class w handle b u f r t i = Inr w'"
  shows "runtimeOk w'"
proof -
  obtain server where server: "ahdHTTPLookup class w handle = Inr server" "0 \<le> sint u" "sint u \<le> sint b"
      "0 \<le> sint f" "0 \<le> sint r" "0 \<le> sint t" "0 \<le> sint i"
      "w' = putServer w handle (server\<lparr>maxBodyBytes := b, maxUploadBytes := u, maxUploadFiles := f,
         readTimeout := r, writeTimeout := t, idleTimeout := i\<rparr>)"
    using assms(2) by (auto simp: AhdHTTPServerSetLimits_def andThen_Inr not_less split: if_splits)
  have "serverOk server" using assms(1) server(1) by (rule ahdHTTPLookup_ok)
  with server show ?thesis
    by (auto simp: serverOk_def methodsOk_def methodsAt_def limitsOk_def intro!: runtimeOk_putServer assms(1))
qed

lemma AhdHTTPServerApplyWebLimits_ok:
  assumes "runtimeOk w" "AhdHTTPServerApplyWebLimits class env w handle = Inr w'"
  shows "runtimeOk w'"
  using assms(2) AhdHTTPServerSetLimits_ok [OF assms(1)]
  by (auto simp: AhdHTTPServerApplyWebLimits_def andThen_Inr Let_def split: if_splits)

lemma AhdHTTPServerStart_ok:
  assumes "runtimeOk w" "AhdHTTPServerStart class joined bindError serveError w handle = (problem, w')"
  shows "runtimeOk w'"
proof (cases "ahdHTTPLookup class w handle")
  case (Inr server)
  have "serverOk server" using assms(1) Inr by (rule ahdHTTPLookup_ok)
  then have "serverOk (server\<lparr>serverStarted := True\<rparr>)"
      "serverOk (server\<lparr>serverStarted := True, serverHTTP := t\<rparr>)" for t
    by (auto simp: serverOk_def methodsOk_def methodsAt_def limitsOk_def)
  with Inr assms show ?thesis
    by (auto simp: AhdHTTPServerStart_def Let_def split: if_splits option.splits intro!: runtimeOk_putServer)
qed (use assms in \<open>simp add: AhdHTTPServerStart_def\<close>)

lemma runtimeOk_assets: "runtimeOk w \<Longrightarrow> runtimeOk (ahdHTMLExposeAsset w path)"
  by (simp add: runtimeOk_def ahdHTMLExposeAsset_def)

lemma runtimeOk_endpoints: "runtimeOk w \<Longrightarrow> runtimeOk (w\<lparr>socketEndpoints := es\<rparr>)"
  by (simp add: runtimeOk_def)

lemma httpReachable_ok:
  assumes "httpReachable sys w" "absolutePaths sys"
  shows "runtimeOk w"
  using assms(1)
proof induction
  case (2 w w')
  from 2(2,3) show ?case
    by cases (auto intro: AhdHTTPServer_ok ahdHTTPRegister_ok AhdHTTPServerWebSocket_ok
        AhdHTTPServerStatic_ok [OF _ assms(2)] AhdHTTPServerManaged_ok [OF _ assms(2)]
        AhdHTTPServerApplyWebLimits_ok AhdHTTPServerStart_ok runtimeOk_assets runtimeOk_endpoints
        simp: AhdHTTPServerGet_def AhdHTTPServerPost_def AhdHTTPServerRoute_def split: if_splits)
qed (simp add: runtimeOk_def)

text \<open>After start the configuration of a server is final: only a new server with the same number,
after \<open>2 ^ 64\<close> others, would replace it.\<close>

lemma started_servers_are_frozen:
  assumes "httpStep sys w w'" "httpServers w handle = Some server" "serverStarted server"
  shows "httpServers w' handle = Some server \<or> handle = FormatInt (sint (httpNextID w'))"
proof -
  note defs = putServer_def ahdHTTPLookup_def andThen_Inr Let_def
  have register: "httpServers w' handle = Some server"
    if "ahdHTTPRegister class w h m path f = Inr w'" for "class" h m path f
    using that assms(2,3) by (auto simp: ahdHTTPRegister_def defs split: option.splits if_splits)
  have fixed: "httpServers w' handle = Some server"
    if "registerPrefix class sys kind w h urlPrefix root = Inr (s, e)"
      "httpServers w' = httpServers (putServer w h s')" for "class" kind h urlPrefix root s s' e
    using that assms(2,3) by (auto simp: registerPrefix_def defs split: option.splits if_splits)
  have limits: "httpServers w' handle = Some server"
    if "AhdHTTPServerSetLimits class w h b u f r t i = Inr w'" for "class" h b u f r t i
    using that assms(2,3) by (auto simp: AhdHTTPServerSetLimits_def defs split: option.splits if_splits)
  from assms(1) show ?thesis
  proof cases
    case 1
    then show ?thesis using assms(2) by (auto simp: AhdHTTPServer_def defs split: if_splits)
  next
    case 5
    then show ?thesis
      using assms(2,3) by (auto simp: AhdHTTPServerWebSocket_def defs split: option.splits if_splits)
  next
    case (6 "class" h urlPrefix root)
    then obtain s e where "registerPrefix class sys ''static'' w h urlPrefix root = Inr (s, e)"
        "httpServers w' = httpServers (putServer w h (s\<lparr>staticRoutes := staticRoutes s @ [e]\<rparr>))"
      by (auto simp: AhdHTTPServerStatic_def andThen_Inr)
    then show ?thesis using fixed by blast
  next
    case (7 "class" h urlPrefix root)
    then obtain s e where "registerPrefix class sys ''managed'' w h urlPrefix root = Inr (s, e)"
        "httpServers w' = httpServers (putServer w h (s\<lparr>managedRoutes := managedRoutes s @ [e]\<rparr>))"
      by (auto simp: AhdHTTPServerManaged_def andThen_Inr ahdHTMLSetManagedAssetPrefix_def)
    then show ?thesis using fixed by blast
  next
    case 8
    then show ?thesis
      using limits by (auto simp: AhdHTTPServerApplyWebLimits_def andThen_Inr Let_def split: if_splits)
  next
    case 9
    then show ?thesis
      using assms(2,3) by (auto simp: AhdHTTPServerStart_def ahdHTTPLookup_def putServer_def Let_def
          split: option.splits if_splits)
  qed (use register assms(2) in \<open>auto simp: AhdHTTPServerGet_def AhdHTTPServerPost_def
      AhdHTTPServerRoute_def ahdHTMLExposeAsset_def split: if_splits\<close>)
qed

subsection \<open>Limits\<close>

lemma MaxInt64_div_bounds:
  fixes u :: int
  assumes "1 \<le> u"
  shows "0 \<le> (2 ^ 63 - 1) div u" "(2 ^ 63 - 1) div u * u \<le> 2 ^ 63 - 1" "(2 ^ 63 - 1) div u \<le> 2 ^ 63 - 1"
proof -
  let ?q = "(2 ^ 63 - 1) div u"
  show q: "0 \<le> ?q" using assms by (simp add: pos_imp_zdiv_nonneg_iff)
  show "?q * u \<le> 2 ^ 63 - 1"
    using assms div_mult_mod_eq [of "2 ^ 63 - 1" u] pos_mod_sign [of u "2 ^ 63 - 1"] by linarith
  moreover have "?q * 1 \<le> ?q * u" using q assms by (intro mult_left_mono) auto
  ultimately show "?q \<le> 2 ^ 63 - 1" by linarith
qed

lemma sint_small:
  assumes "0 \<le> i" "i \<le> 2 ^ 63 - 1"
  shows "sint (word_of_int i :: int64) = i"
  unfolding sint_sbintrunc' using assms by (intro signed_take_bit_int_eq_self) simp_all

lemma goDiv_MaxInt64:
  assumes "1 \<le> sint unit"
  shows "sint (goDiv MaxInt64 unit) = (2 ^ 63 - 1) div sint unit"
proof -
  have "sint MaxInt64 sdiv sint unit = (2 ^ 63 - 1) div sint unit"
    using assms by (simp add: MaxInt64_def signed_divide_int_def)
  then show ?thesis
    using sint_small MaxInt64_div_bounds [OF assms] unfolding goDiv_def by metis
qed

lemma product_fits:
  assumes "0 \<le> sint v" "1 \<le> sint unit" "sint v \<le> sint (goDiv MaxInt64 unit)"
  shows "sint (v * unit) = sint v * sint unit"
proof -
  have "sint v * sint unit \<le> (2 ^ 63 - 1) div sint unit * sint unit"
    using assms goDiv_MaxInt64 by (intro mult_right_mono) auto
  then have "sint v * sint unit \<le> 2 ^ 63 - 1" using MaxInt64_div_bounds(2) [OF assms(2)] by linarith
  moreover have "0 \<le> sint v * sint unit" using assms(1,2) by simp
  moreover have "v * unit = word_of_int (sint v * sint unit)" by simp
  ultimately show ?thesis using sint_small by metis
qed

text \<open>A size or duration that is accepted is the number before its unit times the unit, without
wrapping around.\<close>

lemma sizeUnit_units: "sizeUnit txt = (unit, rest) \<Longrightarrow> sint unit \<in> {1, 2 ^ 10, 2 ^ 20, 2 ^ 30}"
  by (auto simp: sizeUnit_def split: if_splits)

lemma durationUnit_units:
  "durationUnit txt = Some (unit, rest) \<Longrightarrow> sint unit \<in> {10 ^ 6, 10 ^ 9, 60 * 10 ^ 9}"
  by (auto simp: durationUnit_def Millisecond_def Second_def Minute_def split: if_splits)

lemma parsed_size_is_exact:
  assumes "ahdHTTPParseSize key raw = Inr v"
  shows "\<exists>n \<ge> 0. \<exists>unit \<in> {1, 2 ^ 10, 2 ^ 20, 2 ^ 30}. sint v = n * unit"
proof -
  obtain unit rest where u: "sizeUnit (TrimSpace raw) = (unit, rest)" by (cases "sizeUnit (TrimSpace raw)")
  obtain i where "ParseInt 64 rest = Some i"
    using assms u by (cases "ParseInt 64 rest") (simp_all add: ahdHTTPParseSize_def split: if_splits)
  define w where "w = (word_of_int i :: int64)"
  have w: "v = w * unit" "0 \<le> sint w" "1 < sint unit \<longrightarrow> sint w \<le> sint (goDiv MaxInt64 unit)"
    using assms u \<open>ParseInt 64 rest = Some i\<close>
    by (simp_all add: ahdHTTPParseSize_def Let_def not_less flip: w_def split: if_splits) linarith
  note units = sizeUnit_units [OF u]
  have "sint v = sint w * sint unit"
  proof (cases "sint unit = 1")
    case True
    then have "unit = 1" by (intro signed_word_eqI) simp
    with w(1) show ?thesis by simp
  next
    case False
    then have "1 < sint unit" using units by auto
    then show ?thesis using w product_fits [of w unit] by simp
  qed
  with units w(2) show ?thesis by (intro exI [of _ "sint w"] conjI bexI [of _ "sint unit"])
qed

lemma parsed_duration_is_exact:
  assumes "ahdHTTPParseDuration key raw = Inr v"
  shows "\<exists>n \<ge> 0. \<exists>unit \<in> {10 ^ 6, 10 ^ 9, 60 * 10 ^ 9}. sint v = n * unit"
proof -
  obtain unit rest i where u: "durationUnit (TrimSpace raw) = Some (unit, rest)"
    and i: "v = word_of_int i * unit" "0 \<le> sint (word_of_int i :: int64)"
      "sint (word_of_int i :: int64) \<le> sint (goDiv MaxInt64 unit)"
    using assms unfolding ahdHTTPParseDuration_def
    by (auto simp: Let_def not_less split: if_splits option.splits)
  note units = durationUnit_units [OF u]
  then have "sint v = sint (word_of_int i :: int64) * sint unit"
    using i product_fits [of "word_of_int i" unit] by auto
  with units i(2) show ?thesis
    by (intro exI [of _ "sint (word_of_int i :: int64)"] conjI bexI [of _ "sint unit"])
qed

subsection \<open>Properties\<close>

lemma dispatch_cases:
  assumes "rangesOver routeOrder (serverRoutes server)" "rangesOver socketOrder (webSockets server)"
    and "methodsOk server"
  shows "if m = ''GET'' \<and> socketAt server path \<noteq> None
    then dispatch sys exposed server routeOrder socketOrder m path = Upgrade (the (socketAt server path))
    else if handlerAt server m path \<noteq> None
    then dispatch sys exposed server routeOrder socketOrder m path = RunHandler (the (handlerAt server m path))
    else if allowedAt server path \<noteq> {}
    then (\<exists>ms. dispatch sys exposed server routeOrder socketOrder m path = MethodNotAllowed ms
      \<and> set ms = allowedAt server path \<and> distinct ms \<and> m \<notin> set ms)
    else dispatch sys exposed server routeOrder socketOrder m path =
      (case ahdHTTPServeStatic sys server m path of Some reply \<Rightarrow> reply
       | None \<Rightarrow> (case ahdHTTPServeManaged sys exposed server m path of Some reply \<Rightarrow> reply | None \<Rightarrow> NotFound))"
proof -
  have socket: "ahdHTTPLookupWebSocket server socketOrder path = socketAt server path"
    using assms(2) unfolding rangesOver_def by (intro LookupWebSocket_any_order) simp
  obtain handler allowed where route: "ahdHTTPLookupRoute server routeOrder m path = (handler, allowed)"
    by (cases "ahdHTTPLookupRoute server routeOrder m path")
  have handler: "handler = handlerAt server m path"
    using LookupRoute_handler [OF assms(1), of m path] route by simp
  show ?thesis
  proof (cases "handlerAt server m path")
    case (Some h)
    then show ?thesis by (auto simp: dispatch_def socket route handler Let_def)
  next
    case None
    have all: "set allowed = {m. handlerAt server m path \<noteq> None}" "distinct allowed"
      using LookupRoute_allowed [OF assms(1,3) None] route by simp_all
    define ms where "ms = (if socketAt server path \<noteq> None \<and> ''GET'' \<notin> set allowed
      then allowed @ [''GET''] else allowed)"
    have ms: "set ms = allowedAt server path" "distinct ms" using all by (auto simp: ms_def allowedAt_def)
    have other: "m \<notin> set ms" if "\<not> (m = ''GET'' \<and> socketAt server path \<noteq> None)"
      using that None ms(1) by (auto simp: allowedAt_def split: if_splits)
    have empty: "ms = [] \<longleftrightarrow> allowedAt server path = {}" unfolding ms(1) [symmetric] by simp
    have "dispatch sys exposed server routeOrder socketOrder m path =
      (if socketAt server path \<noteq> None \<and> m = ''GET'' then Upgrade (the (socketAt server path))
       else if ms = []
       then (case ahdHTTPServeStatic sys server m path of Some reply \<Rightarrow> reply
         | None \<Rightarrow> (case ahdHTTPServeManaged sys exposed server m path of Some reply \<Rightarrow> reply | None \<Rightarrow> NotFound))
       else MethodNotAllowed ms)"
      by (simp add: dispatch_def socket route handler None Let_def ms_def)
    then show ?thesis
      using None ms other empty by (cases "m = ''GET'' \<and> socketAt server path \<noteq> None") auto
  qed
qed

text \<open>C35: Routing. In every reachable server, whatever the order in which Go ranges over its maps, a
  request has one answer: the WebSocket endpoint of its path for GET; otherwise the handler
  registered for its method and path, or for its method and the one pattern \<open>/prefix/*\<close> its path can
  match; otherwise 405 with exactly the methods that would be answered; otherwise a static file, a
  managed file or 404.\<close>

theorem requests_have_one_answer:
  assumes "httpReachable sys w" "absolutePaths sys" "httpServers w handle = Some server"
    and "rangesOver routeOrder (serverRoutes server)" "rangesOver socketOrder (webSockets server)"
  shows "if m = ''GET'' \<and> socketAt server path \<noteq> None
    then dispatch sys exposed server routeOrder socketOrder m path = Upgrade (the (socketAt server path))
    else if handlerAt server m path \<noteq> None
    then dispatch sys exposed server routeOrder socketOrder m path = RunHandler (the (handlerAt server m path))
    else if allowedAt server path \<noteq> {}
    then (\<exists>ms. dispatch sys exposed server routeOrder socketOrder m path = MethodNotAllowed ms
      \<and> set ms = allowedAt server path \<and> distinct ms \<and> m \<notin> set ms)
    else dispatch sys exposed server routeOrder socketOrder m path =
      (case ahdHTTPServeStatic sys server m path of Some reply \<Rightarrow> reply
       | None \<Rightarrow> (case ahdHTTPServeManaged sys exposed server m path of Some reply \<Rightarrow> reply | None \<Rightarrow> NotFound))"
proof (rule dispatch_cases)
  show "methodsOk server"
    using httpReachable_ok [OF assms(1,2)] assms(3) by (auto simp: runtimeOk_def serverOk_def)
qed (use assms in auto)

text \<open>C36: Files. What a reachable server sends for a request under a static or managed prefix is the
  file that the rest of the path names below the directory of that prefix, with its symbolic links
  evaluated. The path is inside that directory, and so is its evaluation; what it names is not a
  directory and can be opened (the code asks no more, so a device would be sent as well). Only one
  prefix matches the path, no segment after it is empty or starts with a dot, the request is a GET or
  HEAD that no route answers, and a managed file is one that the asset system declared. The
  hypotheses are that the operating system answers with absolute paths and that the two iterations
  range over the server's maps.\<close>

theorem served_files_are_inside_their_root:
  assumes "httpReachable sys w" "absolutePaths sys" "httpServers w handle = Some server"
    and "rangesOver routeOrder (serverRoutes server)" "rangesOver socketOrder (webSockets server)"
    and "dispatch sys exposed server routeOrder socketOrder m path = SendFile resolved kind"
  shows "(m = ''GET'' \<or> m = ''HEAD'') \<and> allowedAt server path = {}
    \<and> ((\<exists>e \<in> set (staticRoutes server). servedFrom sys (\<lambda>_. True) e path resolved)
       \<or> (\<exists>e \<in> set (managedRoutes server). servedFrom sys (\<lambda>relative. relative \<in> exposed) e path resolved))
    \<and> (\<exists>!e. e \<in> set (prefixEntries server) \<and> HasPrefix path (entryPrefix e))"
proof -
  have ok: "serverOk server" using httpReachable_ok [OF assms(1,2)] assms(3) by (auto simp: runtimeOk_def)
  then have "methodsOk server" by (simp add: serverOk_def)
  note cases = dispatch_cases [OF assms(4,5) this, of m path sys exposed, unfolded assms(6)]
  have none: "allowedAt server path = {}" using cases by (auto split: if_splits)
  have roots: "\<forall>e \<in> set (staticRoutes server). IsAbs (entryRoot e)"
      "\<forall>e \<in> set (managedRoutes server). IsAbs (entryRoot e)"
    using ok by (auto simp: serverOk_def)
  have served: "(m = ''GET'' \<or> m = ''HEAD'')
    \<and> ((\<exists>e \<in> set (staticRoutes server). servedFrom sys (\<lambda>_. True) e path resolved)
       \<or> (\<exists>e \<in> set (managedRoutes server). servedFrom sys (\<lambda>relative. relative \<in> exposed) e path resolved))"
  proof (cases "ahdHTTPServeStatic sys server m path = Some (SendFile resolved kind)")
    case True
    then show ?thesis using ServeStatic_inside [OF True assms(2) roots(1)] by blast
  next
    case False
    then have managed: "ahdHTTPServeManaged sys exposed server m path = Some (SendFile resolved kind)"
      using cases none by (auto split: if_splits option.splits)
    show ?thesis using ServeManaged_inside [OF managed assms(2) roots(2)] by blast
  qed
  then obtain e where "e \<in> set (prefixEntries server)" "HasPrefix path (entryPrefix e)"
    by (auto simp: servedFrom_def HasPrefix_iff)
  then have "\<exists>!e. e \<in> set (prefixEntries server) \<and> HasPrefix path (entryPrefix e)"
    using ok one_prefix_matches unfolding serverOk_def by blast
  with served none show ?thesis by blast
qed

subsection \<open>An example\<close>

definition exampleOS :: httpOS where
  "exampleOS =
     \<lparr>getwd = Inr ''/srv'',
      evalSymlinks = (\<lambda>p. Some (if p = ''/srv/public/app.css'' then ''/srv/public/v2/app.css'' else p)),
      readDir = (\<lambda>_. None), readFile = (\<lambda>_. Inl ''none''),
      statIsDir = [''public'' \<mapsto> True, ''/srv/public/v2/app.css'' \<mapsto> False], openable = (\<lambda>_. True),
      typeByExtension = (\<lambda>e. if e = ''.css'' then ''text/css'' else '''')\<rparr>"

definition emptyRuntime :: "(nat, nat) httpRuntime" where
  "emptyRuntime = \<lparr>httpServers = Map.empty, httpNextID = 0, socketEndpoints = Map.empty,
     managedAssetPrefix = '''', exposedAssets = {}\<rparr>"

definition exampleSetup :: "raised + (nat, nat) httpRuntime" where
  "exampleSetup =
    andThen (AhdHTTPServer ''HTTPError'' emptyRuntime ''localhost'' 8080 1048576) (\<lambda>(ident, w).
    andThen (AhdHTTPServerGet ''HTTPError'' w ident ''/notes/*'' (Some 7)) (\<lambda>w.
      AhdHTTPServerStatic ''HTTPError'' exampleOS w ident ''/assets'' ''public''))"

definition exampleServer :: "(nat, nat) ahdHTTPServerState" where
  "exampleServer =
     \<lparr>serverHost = ''localhost'', serverPort = 8080, maxBodyBytes = 1048576,
      maxUploadBytes = 0, maxUploadFiles = 0, readTimeout = 0, writeTimeout = 0, idleTimeout = 0,
      serverRoutes = [(''GET'', ''/notes/*'') \<mapsto> 7], serverMethods = [''/notes/*'' \<mapsto> [''GET'']],
      serverStarted = False, serverHTTP = None,
      staticRoutes = [\<lparr>entryPrefix = ''/assets/'', entryRoot = ''/srv/public''\<rparr>], managedRoutes = [],
      webSockets = Map.empty\<rparr>"

definition exampleRuntime :: "(nat, nat) httpRuntime" where
  "exampleRuntime = putServer (emptyRuntime\<lparr>httpNextID := 1\<rparr>) ''1'' exampleServer"

lemma example_host: "TrimSpace ''localhost'' \<noteq> ''''"
  by (simp add: TrimSpace_def trimLeftSpace.simps trimRightSpace.simps DecodeRune_def DecodeLastRune_def
      isSpaceRune_def byteOf_def)

lemma example_texts:
  "FormatInt 1 = ''1''" "ahdHTTPWildcardPrefix ''/notes/*'' = ''/notes''"
  "normalizedPrefix ''/assets'' = ''/assets/''" "PathJoin [''/srv'', ''public''] = ''/srv/public''"
  by code_simp+

lemma example_paths:
  "routePathProblem class ''/notes/*'' = None" "HasPrefix ''/assets'' ''/''"
  "\<not> ContainsAny ''/assets'' ''?#''" "\<not> IsAbs ''public''"
  by (auto simp: routePathProblem_None routePath_def example_texts HasPrefix_def ContainsAny_def IsAbs_def)

definition blankServer :: "(nat, nat) ahdHTTPServerState" where
  "blankServer = exampleServer\<lparr>serverRoutes := Map.empty, serverMethods := Map.empty, staticRoutes := []\<rparr>"

lemma exampleSetup_server:
  "AhdHTTPServer ''HTTPError'' emptyRuntime ''localhost'' 8080 1048576
     = Inr (''1'', putServer (emptyRuntime\<lparr>httpNextID := 1\<rparr>) ''1'' blankServer)"
  by (simp add: AhdHTTPServer_def emptyRuntime_def example_host example_texts blankServer_def exampleServer_def Let_def)

lemma putServer_put [simp]:
  "putServer (putServer w handle s) handle s' = putServer w handle s'"
  "ahdHTTPLookup class (putServer w handle s) handle = Inr s"
  by (simp_all add: putServer_def ahdHTTPLookup_def)

lemma exampleSetup_route:
  "AhdHTTPServerGet ''HTTPError'' (putServer w ''1'' blankServer) ''1'' ''/notes/*'' (Some 7)
     = Inr (putServer w ''1'' (exampleServer\<lparr>staticRoutes := []\<rparr>))"
  by (simp add: AhdHTTPServerGet_def ahdHTTPRegister_def example_paths methodsAt_def blankServer_def
      exampleServer_def)

lemma exampleSetup_static:
  "AhdHTTPServerStatic ''HTTPError'' exampleOS (putServer w ''1'' (exampleServer\<lparr>staticRoutes := []\<rparr>)) ''1''
     ''/assets'' ''public'' = Inr (putServer w ''1'' exampleServer)"
  by (simp add: AhdHTTPServerStatic_def registerPrefix_def canonicalDirectory_def exampleOS_def Abs_def
      os.truncate_def example_texts example_paths exampleServer_def)

lemma exampleSetup_result: "exampleSetup = Inr exampleRuntime"
  by (simp add: exampleSetup_def exampleSetup_server exampleSetup_route exampleSetup_static exampleRuntime_def)

lemma exampleRuntime_reachable: "httpReachable exampleOS exampleRuntime"
proof -
  obtain ident w1 w2 where "AhdHTTPServer ''HTTPError'' emptyRuntime ''localhost'' 8080 1048576 = Inr (ident, w1)"
      "AhdHTTPServerGet ''HTTPError'' w1 ident ''/notes/*'' (Some 7) = Inr w2"
      "AhdHTTPServerStatic ''HTTPError'' exampleOS w2 ident ''/assets'' ''public'' = Inr exampleRuntime"
    using exampleSetup_result by (auto simp: exampleSetup_def andThen_Inr)
  moreover have "httpReachable exampleOS emptyRuntime"
    by (rule httpReachable.intros(1)) (simp add: emptyRuntime_def)
  ultimately show ?thesis by (meson httpReachable.intros(2) httpStep.intros)
qed

lemma exampleOS_absolute: "absolutePaths exampleOS"
  by (auto simp: absolutePaths_def exampleOS_def IsAbs_def HasPrefix_def)

lemma exampleServer_orders:
  "rangesOver [((''GET'', ''/notes/*''), 7)] (serverRoutes exampleServer)"
  "rangesOver [] (webSockets exampleServer)"
  by (simp_all add: rangesOver_def exampleServer_def)

lemma exampleRuntime_server: "httpServers exampleRuntime ''1'' = Some exampleServer"
  by (simp add: exampleRuntime_def putServer_def)

lemma distinct_set_singleton: "set xs = {x} \<Longrightarrow> distinct xs \<Longrightarrow> xs = [x]"
  by (cases xs; cases "tl xs") auto

lemma example_pattern: "patternOf ''/notes/7'' = Some ''/notes/*''"
  by code_simp

lemma example_answers:
  "socketAt exampleServer ''/notes/7'' = None"
  "handlerAt exampleServer m ''/notes/7'' = (if m = ''GET'' then Some 7 else None)"
  "allowedAt exampleServer ''/notes/7'' = {''GET''}"
proof -
  show socket: "socketAt exampleServer ''/notes/7'' = None"
    unfolding socketAt_def example_pattern by (simp add: exampleServer_def)
  show handler: "handlerAt exampleServer m ''/notes/7'' = (if m = ''GET'' then Some 7 else None)" for m
    unfolding handlerAt_def example_pattern by (simp add: exampleServer_def)
  show "allowedAt exampleServer ''/notes/7'' = {''GET''}"
    unfolding allowedAt_def socket handler by auto
qed

theorem requests_have_one_answer_witness:
  "dispatch exampleOS {} exampleServer [((''GET'', ''/notes/*''), 7)] [] ''GET'' ''/notes/7'' = RunHandler 7
   \<and> dispatch exampleOS {} exampleServer [((''GET'', ''/notes/*''), 7)] [] ''POST'' ''/notes/7''
       = MethodNotAllowed [''GET'']"
proof -
  note answer = requests_have_one_answer [OF exampleRuntime_reachable exampleOS_absolute
      exampleRuntime_server exampleServer_orders, of _ "''/notes/7''" "{}", unfolded example_answers]
  from answer [of "''POST''"] obtain ms where
    "dispatch exampleOS {} exampleServer [((''GET'', ''/notes/*''), 7)] [] ''POST'' ''/notes/7'' = MethodNotAllowed ms"
    "set ms = {''GET''}" "distinct ms" by auto
  with answer [of "''GET''"] distinct_set_singleton show ?thesis by simp
qed

theorem served_files_are_inside_their_root_witness:
  "evalSymlinks exampleOS (PathJoin [''/srv/public'', ''app.css'']) = Some ''/srv/public/v2/app.css''
    \<and> prefix (elements (Clean ''/srv/public'')) (elements (Clean ''/srv/public/v2/app.css''))"
proof -
  have "dispatch exampleOS {} exampleServer [((''GET'', ''/notes/*''), 7)] [] ''GET'' ''/assets/app.css''
      = SendFile ''/srv/public/v2/app.css'' ''text/css''"
    by code_simp
  from served_files_are_inside_their_root [OF exampleRuntime_reachable exampleOS_absolute
      exampleRuntime_server exampleServer_orders this]
  show ?thesis by (auto simp: servedFrom_def exampleServer_def)
qed

end
