(* ===== verification/HttpSessions.thy ===== *)
theory HttpSessions
  imports HttpServer
begin

text \<open>
  Responses, cookies and sessions of the HTTP module
  (\<open>internal/backend/golang/ahdruntime/http.go\<close>).

  A \<open>Response\<close>, \<open>Cookie\<close> or \<open>Session\<close> of a program is the JSON text of a Go struct. Strings of a
  program are valid UTF-8, on which \<open>json.Marshal\<close> followed by \<open>json.Unmarshal\<close> gives the struct
  back, so the values here are the structs themselves, and the branches for corrupted text do not
  arise. A Go map with string keys and values is the list of its entries. An instant is a number of
  nanoseconds. The bytes that \<open>crypto/rand\<close> yields are an argument, \<^const>\<open>None\<close> for its error.
\<close>

subsection \<open>Responses\<close>

record ahdHTTPHeaderPair =
  headerName :: string
  headerValue :: string

record ahdHTTPCookieData =
  cookieName :: string
  cookieValue :: string
  cookiePath :: string
  cookieHttpOnly :: bool
  cookieSecure :: bool
  cookieSameSite :: string
  cookieMaxAge :: "int64 option"

record ahdHTTPResponseData =
  responseStatus :: int64
  responseBody :: string
  responseContentType :: string
  responseHeaders :: "ahdHTTPHeaderPair list"
  responseCookies :: "ahdHTTPCookieData list"
  responseIsFile :: bool
  responseFilePath :: string
  responseDownloadName :: string

definition blankResponse :: ahdHTTPResponseData where
  "blankResponse =
     \<lparr>responseStatus = 0, responseBody = '''', responseContentType = '''', responseHeaders = [],
      responseCookies = [], responseIsFile = False, responseFilePath = '''', responseDownloadName = ''''\<rparr>"

definition ahdHTTPRequireStatus :: "string \<Rightarrow> int64 \<Rightarrow> raised + int64" where
  "ahdHTTPRequireStatus class status =
    (if sint status < 100 \<or> sint status > 599 then Inl (class, ''HTTP status must be in 100..599'')
     else Inr status)"

definition AhdHTTPResponse :: "string \<Rightarrow> int64 \<Rightarrow> string \<Rightarrow> string \<Rightarrow> raised + ahdHTTPResponseData" where
  "AhdHTTPResponse class status body contentType =
    andThen (ahdHTTPRequireStatus class status) (\<lambda>status.
      Inr (blankResponse\<lparr>responseStatus := status, responseBody := body, responseContentType := contentType\<rparr>))"

definition AhdHTTPText :: "string \<Rightarrow> string \<Rightarrow> int64 \<Rightarrow> raised + ahdHTTPResponseData" where
  "AhdHTTPText class body status =
    andThen (ahdHTTPRequireStatus class status) (\<lambda>status.
      Inr (blankResponse\<lparr>responseStatus := status, responseBody := body,
        responseContentType := ''text/plain; charset=utf-8''\<rparr>))"

definition AhdHTTPHTML :: "string \<Rightarrow> string \<Rightarrow> int64 \<Rightarrow> raised + ahdHTTPResponseData" where
  "AhdHTTPHTML class body status =
    andThen (ahdHTTPRequireStatus class status) (\<lambda>status.
      Inr (blankResponse\<lparr>responseStatus := status, responseBody := body,
        responseContentType := ''text/html; charset=utf-8''\<rparr>))"

definition AhdHTTPRedirect :: "string \<Rightarrow> string \<Rightarrow> int64 \<Rightarrow> raised + ahdHTTPResponseData" where
  "AhdHTTPRedirect class location status =
    (let status = (if status = 0 then 303 else status)
     in if status \<notin> {301, 302, 303, 307, 308}
        then Inl (class, ''HTTP redirect status must be 301, 302, 303, 307, or 308'')
        else Inr (blankResponse\<lparr>responseStatus := status,
               responseContentType := ''text/plain; charset=utf-8'',
               responseHeaders := [\<lparr>headerName = ''Location'', headerValue = location\<rparr>]\<rparr>))"

text \<open>\<open>isMediaType\<close> is whether \<open>mime.ParseMediaType\<close> accepts a text.\<close>

abbreviation lineBreaks :: "char list" where "lineBreaks \<equiv> [CHR 0x0D, CHR 0x0A]"

definition ahdHTTPRequireFileContentType :: "string \<Rightarrow> (string \<Rightarrow> bool) \<Rightarrow> string \<Rightarrow> raised option" where
  "ahdHTTPRequireFileContentType class isMediaType contentType =
    (if TrimSpace contentType = '''' then Some (class, ''HTTP file contentType must not be empty'')
     else if ContainsAny contentType lineBreaks
     then Some (class, ''HTTP file contentType must not contain a line break'')
     else if \<not> isMediaType contentType then Some (class, ''HTTP file contentType is not a valid media type'')
     else None)"

definition AhdHTTPFile ::
  "string \<Rightarrow> (string \<Rightarrow> bool) \<Rightarrow> string \<Rightarrow> string \<Rightarrow> raised + ahdHTTPResponseData" where
  "AhdHTTPFile class isMediaType path contentType =
    (if TrimSpace path = '''' then Inl (class, ''HTTP.file requires a path'')
     else
       (case ahdHTTPRequireFileContentType class isMediaType contentType of
          Some problem \<Rightarrow> Inl problem
        | None \<Rightarrow> Inr (blankResponse\<lparr>responseStatus := 200, responseContentType := contentType,
            responseIsFile := True, responseFilePath := path\<rparr>)))"

definition AhdHTTPDownload ::
  "string \<Rightarrow> (string \<Rightarrow> bool) \<Rightarrow> string \<Rightarrow> string \<Rightarrow> string \<Rightarrow> raised + ahdHTTPResponseData" where
  "AhdHTTPDownload class isMediaType path contentType fileName =
    (if TrimSpace path = '''' then Inl (class, ''HTTP.download requires a path'')
     else
       (case ahdHTTPRequireFileContentType class isMediaType contentType of
          Some problem \<Rightarrow> Inl problem
        | None \<Rightarrow>
            if TrimSpace fileName = '''' then Inl (class, ''HTTP.download requires a fileName'')
            else if ContainsAny fileName lineBreaks
            then Inl (class, ''HTTP download fileName must not contain a line break'')
            else Inr (blankResponse\<lparr>responseStatus := 200, responseContentType := contentType,
              responseIsFile := True, responseFilePath := path, responseDownloadName := fileName\<rparr>)))"

text \<open>
  \<open>textproto.CanonicalMIMEHeaderKey\<close>: the first letter and each letter after a hyphen in upper case,
  the others in lower case; a text that is no token stays as it is. \<open>equalFold\<close> is
  \<open>strings.EqualFold\<close> when its second argument is ASCII: the long s and the Kelvin sign are the only
  other runes that fold to ASCII letters.
\<close>

fun canonicalBytes :: "bool \<Rightarrow> string \<Rightarrow> string" where
  "canonicalBytes up [] = []"
| "canonicalBytes up (c # s) = (if up then upperByte c else lowerByte c) # canonicalBytes (c = CHR ''-'') s"

definition CanonicalMIMEHeaderKey :: "string \<Rightarrow> string" where
  "CanonicalMIMEHeaderKey name = (if list_all ahdHTTPTchar name then canonicalBytes True name else name)"

definition foldRune :: "nat \<Rightarrow> nat" where
  "foldRune r = (if 65 \<le> r \<and> r \<le> 90 then r + 32 else if r = 0x17F then 115 else if r = 0x212A then 107 else r)"

definition equalFold :: "string \<Rightarrow> string \<Rightarrow> bool" where
  "equalFold s t = (map foldRune (runesOf s) = map foldRune (runesOf t))"

text \<open>The loop over the headers: the first with the same key is replaced, later ones are dropped.\<close>

fun replaceHeader :: "ahdHTTPHeaderPair \<Rightarrow> bool \<Rightarrow> ahdHTTPHeaderPair list \<Rightarrow> ahdHTTPHeaderPair list" where
  "replaceHeader new replaced [] = (if replaced then [] else [new])"
| "replaceHeader new replaced (h # hs) =
    (if CanonicalMIMEHeaderKey (headerName h) = CanonicalMIMEHeaderKey (headerName new)
     then (if replaced then [] else [new]) @ replaceHeader new True hs
     else h # replaceHeader new replaced hs)"

definition AhdHTTPResponseWithHeader ::
  "string \<Rightarrow> ahdHTTPResponseData \<Rightarrow> string \<Rightarrow> string \<Rightarrow> raised + ahdHTTPResponseData" where
  "AhdHTTPResponseWithHeader class response name v =
    (if equalFold name ''Set-Cookie'' then Inl (class, ''HTTP Set-Cookie must be set with Response.withCookie'')
     else if \<not> ahdHTTPMethodToken name
     then Inl (class, ''HTTP header name '' @ ahdHTMLQuote name @ '' is not valid'')
     else if ContainsAny v lineBreaks then Inl (class, ''HTTP header value must not contain CR or LF'')
     else Inr (response\<lparr>responseHeaders :=
            replaceHeader \<lparr>headerName = name, headerValue = v\<rparr> False (responseHeaders response)\<rparr>))"

definition AhdHTTPResponseWithCookie :: "ahdHTTPResponseData \<Rightarrow> ahdHTTPCookieData \<Rightarrow> ahdHTTPResponseData" where
  "AhdHTTPResponseWithCookie response cookie =
     response\<lparr>responseCookies := responseCookies response @ [cookie]\<rparr>"

text \<open>The file name of a download in a header.\<close>

fun upperHex :: "nat \<Rightarrow> char" where
  "upperHex n = (if n < 10 then char_of (48 + n) else char_of (55 + n))"

definition ahdHTTPRFC5987Encode :: "string \<Rightarrow> string" where
  "ahdHTTPRFC5987Encode v =
    concat (map (\<lambda>c.
      if 65 \<le> byteOf c \<and> byteOf c \<le> 90 \<or> 97 \<le> byteOf c \<and> byteOf c \<le> 122 \<or> 48 \<le> byteOf c \<and> byteOf c \<le> 57
         \<or> c \<in> {CHR ''-'', CHR ''.'', CHR ''_'', CHR ''~''}
      then [c] else [CHR ''%'', upperHex (byteOf c div 16), upperHex (byteOf c mod 16)]) v)"

definition ahdHTTPASCIIFallbackFilename :: "string \<Rightarrow> string" where
  "ahdHTTPASCIIFallbackFilename v =
    (let result = concat (map (\<lambda>r.
           if r > 127 \<or> r < 0x20 \<or> r = 0x7F \<or> r = 0x22 \<or> r = 0x5C then ''_'' else EncodeRune r) (runesOf v))
     in if result = '''' then ''download'' else result)"

definition ahdHTTPContentDisposition :: "string \<Rightarrow> string" where
  "ahdHTTPContentDisposition fileName =
     ''attachment; filename='' @ [CHR 0x22] @ ahdHTTPASCIIFallbackFilename fileName @ [CHR 0x22]
     @ ''; filename*=UTF-8'' @ [CHR 0x27, CHR 0x27] @ ahdHTTPRFC5987Encode fileName"

subsection \<open>Cookies\<close>

definition ahdHTTPCookieValueOK :: "string \<Rightarrow> bool" where
  "ahdHTTPCookieValueOK v =
    list_all (\<lambda>c. \<not> (byteOf c < 0x21 \<or> byteOf c > 0x7E \<or> byteOf c = 0x22 \<or> c = CHR '','' \<or> c = CHR '';''
      \<or> byteOf c = 0x5C)) v"

definition ahdHTTPCookiePathOK :: "string \<Rightarrow> bool" where
  "ahdHTTPCookiePathOK path = list_all (\<lambda>c. \<not> (byteOf c < 0x20 \<or> byteOf c > 0x7E \<or> c = CHR '';'')) path"

definition sameSiteProblem :: "string \<Rightarrow> string \<Rightarrow> bool \<Rightarrow> raised option" where
  "sameSiteProblem class mode secure =
    (if mode = ''Lax'' \<or> mode = ''Strict'' then None
     else if mode = ''None''
     then (if secure then None
           else Some (class, ''HTTP SameSite '' @ [CHR 0x22] @ ''None'' @ [CHR 0x22] @ '' requires Secure=true''))
     else Some (class, ''HTTP SameSite must be Lax, Strict, or None''))"

definition ahdHTTPRequireCookie :: "string \<Rightarrow> ahdHTTPCookieData \<Rightarrow> raised + ahdHTTPCookieData" where
  "ahdHTTPRequireCookie class cookie =
    (if \<not> ahdHTTPMethodToken (cookieName cookie)
     then Inl (class, ''HTTP cookie name '' @ ahdHTMLQuote (cookieName cookie) @ '' is not valid'')
     else if \<not> ahdHTTPCookieValueOK (cookieValue cookie)
     then Inl (class, ''HTTP cookie value is not a cookie-octet string'')
     else if cookiePath cookie = '''' \<or> \<not> ahdHTTPCookiePathOK (cookiePath cookie)
     then Inl (class, ''HTTP cookie path '' @ ahdHTMLQuote (cookiePath cookie) @ '' is not valid'')
     else if (case cookieMaxAge cookie of None \<Rightarrow> False | Some age \<Rightarrow> sint age < 0)
     then Inl (class, ''HTTP cookie Max-Age must not be negative'')
     else
       (case sameSiteProblem class (cookieSameSite cookie) (cookieSecure cookie) of
          Some problem \<Rightarrow> Inl problem | None \<Rightarrow> Inr cookie))"

definition AhdHTTPCookie :: "string \<Rightarrow> string \<Rightarrow> string \<Rightarrow> raised + ahdHTTPCookieData" where
  "AhdHTTPCookie class name v =
    ahdHTTPRequireCookie class
      \<lparr>cookieName = name, cookieValue = v, cookiePath = ''/'', cookieHttpOnly = False, cookieSecure = False,
       cookieSameSite = ''Lax'', cookieMaxAge = None\<rparr>"

definition AhdHTTPDeleteCookie :: "string \<Rightarrow> string \<Rightarrow> string \<Rightarrow> raised + ahdHTTPCookieData" where
  "AhdHTTPDeleteCookie class name path =
    ahdHTTPRequireCookie class
      \<lparr>cookieName = name, cookieValue = '''', cookiePath = (if path = '''' then ''/'' else path),
       cookieHttpOnly = False, cookieSecure = False, cookieSameSite = ''Lax'', cookieMaxAge = Some 0\<rparr>"

definition AhdHTTPCookieWithPath :: "string \<Rightarrow> ahdHTTPCookieData \<Rightarrow> string \<Rightarrow> raised + ahdHTTPCookieData" where
  "AhdHTTPCookieWithPath class cookie path = ahdHTTPRequireCookie class (cookie\<lparr>cookiePath := path\<rparr>)"

definition AhdHTTPCookieWithHttpOnly :: "string \<Rightarrow> ahdHTTPCookieData \<Rightarrow> bool \<Rightarrow> raised + ahdHTTPCookieData" where
  "AhdHTTPCookieWithHttpOnly class cookie v = ahdHTTPRequireCookie class (cookie\<lparr>cookieHttpOnly := v\<rparr>)"

definition AhdHTTPCookieWithSecure :: "string \<Rightarrow> ahdHTTPCookieData \<Rightarrow> bool \<Rightarrow> raised + ahdHTTPCookieData" where
  "AhdHTTPCookieWithSecure class cookie v = ahdHTTPRequireCookie class (cookie\<lparr>cookieSecure := v\<rparr>)"

definition AhdHTTPCookieWithSameSite :: "string \<Rightarrow> ahdHTTPCookieData \<Rightarrow> string \<Rightarrow> raised + ahdHTTPCookieData" where
  "AhdHTTPCookieWithSameSite class cookie mode = ahdHTTPRequireCookie class (cookie\<lparr>cookieSameSite := mode\<rparr>)"

definition AhdHTTPCookieWithMaxAge :: "string \<Rightarrow> ahdHTTPCookieData \<Rightarrow> int64 \<Rightarrow> raised + ahdHTTPCookieData" where
  "AhdHTTPCookieWithMaxAge class cookie seconds =
    (if sint seconds < 0 then Inl (class, ''HTTP cookie Max-Age must not be negative'')
     else ahdHTTPRequireCookie class (cookie\<lparr>cookieMaxAge := Some seconds\<rparr>))"

text \<open>
  \<open>ahdHTTPCookieWire\<close> fills an \<open>http.Cookie\<close> and calls its method \<open>String\<close>, which drops bytes that may
  not stand in a value or path and quotes a value with a space or comma. \<open>expires\<close> is whether the
  field \<open>Expires\<close> is set, which the code sets to the beginning of 1970.
\<close>

definition sanitizeCookieValue :: "string \<Rightarrow> string" where
  "sanitizeCookieValue v =
    (let w = filter (\<lambda>c. 0x20 \<le> byteOf c \<and> byteOf c < 0x7F \<and> byteOf c \<noteq> 0x22 \<and> c \<noteq> CHR '';'' \<and> byteOf c \<noteq> 0x5C) v
     in if ContainsAny w '' ,'' then [CHR 0x22] @ w @ [CHR 0x22] else w)"

definition sanitizeCookiePath :: "string \<Rightarrow> string" where
  "sanitizeCookiePath = filter (\<lambda>c. 0x20 \<le> byteOf c \<and> byteOf c < 0x7F \<and> c \<noteq> CHR '';'')"

definition cookieString ::
  "string \<Rightarrow> string \<Rightarrow> string \<Rightarrow> bool \<Rightarrow> int \<Rightarrow> bool \<Rightarrow> bool \<Rightarrow> string \<Rightarrow> string" where
  "cookieString name v path expires maxAge httpOnly secure sameSite =
    (if \<not> ahdHTTPMethodToken name then ''''
     else name @ ''='' @ sanitizeCookieValue v
       @ (if path \<noteq> '''' then ''; Path='' @ sanitizeCookiePath path else '''')
       @ (if expires then ''; Expires=Thu, 01 Jan 1970 00:00:00 GMT'' else '''')
       @ (if maxAge > 0 then ''; Max-Age='' @ FormatInt maxAge else if maxAge < 0 then ''; Max-Age=0'' else '''')
       @ (if httpOnly then ''; HttpOnly'' else '''') @ (if secure then ''; Secure'' else '''')
       @ ''; SameSite='' @ sameSite)"

definition ahdHTTPCookieWire :: "ahdHTTPCookieData \<Rightarrow> string" where
  "ahdHTTPCookieWire cookie =
    cookieString (cookieName cookie) (cookieValue cookie) (cookiePath cookie)
      (cookieMaxAge cookie = Some 0)
      (case cookieMaxAge cookie of None \<Rightarrow> 0 | Some age \<Rightarrow> if age = 0 then -1 else sint age)
      (cookieHttpOnly cookie) (cookieSecure cookie)
      (if cookieSameSite cookie = ''Strict'' then ''Strict''
       else if cookieSameSite cookie = ''None'' then ''None'' else ''Lax'')"

subsection \<open>Sessions\<close>

record ahdHTTPSessionData =
  sessionStore :: string
  sessionID :: string
  sessionValues :: "(string \<times> string) list"
  sessionDirty :: bool
  sessionDestroyed :: bool

record ahdHTTPStoredSession =
  storedValues :: "(string \<times> string) list"
  expiresAt :: int

record ahdHTTPSessionStoreState =
  storeCookieName :: string
  storeMaxAge :: int64
  storeSecure :: bool
  storeSameSite :: string
  storeSessions :: "string \<rightharpoonup> ahdHTTPStoredSession"

record sessionRuntime =
  sessionStores :: "string \<rightharpoonup> ahdHTTPSessionStoreState"
  sessionNextID :: int64

definition putStore :: "sessionRuntime \<Rightarrow> string \<Rightarrow> ahdHTTPSessionStoreState \<Rightarrow> sessionRuntime" where
  "putStore w handle store = w\<lparr>sessionStores := (sessionStores w)(handle \<mapsto> store)\<rparr>"

definition ahdHTTPLookupSessionStore ::
  "string \<Rightarrow> sessionRuntime \<Rightarrow> string \<Rightarrow> raised + ahdHTTPSessionStoreState" where
  "ahdHTTPLookupSessionStore class w handle =
    (case sessionStores w handle of
       None \<Rightarrow> Inl (class, ''HTTP SessionStore storage is corrupted'')
     | Some store \<Rightarrow> Inr store)"

definition AhdHTTPSessions ::
  "string \<Rightarrow> sessionRuntime \<Rightarrow> string \<Rightarrow> int64 \<Rightarrow> bool \<Rightarrow> string \<Rightarrow> raised + string \<times> sessionRuntime" where
  "AhdHTTPSessions class w name maxAge secure sameSite =
    (if \<not> ahdHTTPMethodToken name
     then Inl (class, ''HTTP cookie name '' @ ahdHTMLQuote name @ '' is not valid'')
     else if sint maxAge \<le> 0 then Inl (class, ''HTTP session maxAgeSeconds must be greater than 0'')
     else
       (case sameSiteProblem class sameSite secure of
          Some problem \<Rightarrow> Inl problem
        | None \<Rightarrow>
            (let next = sessionNextID w + 1; handle = FormatInt (sint next)
             in Inr (handle, putStore (w\<lparr>sessionNextID := next\<rparr>) handle
                  \<lparr>storeCookieName = name, storeMaxAge = maxAge, storeSecure = secure, storeSameSite = sameSite,
                   storeSessions = Map.empty\<rparr>))))"

definition cleanupExpired :: "int \<Rightarrow> ahdHTTPSessionStoreState \<Rightarrow> ahdHTTPSessionStoreState" where
  "cleanupExpired now store =
     store\<lparr>storeSessions := (\<lambda>ident.
       case storeSessions store ident of
         None \<Rightarrow> None | Some s \<Rightarrow> if expiresAt s > now then Some s else None)\<rparr>"

text \<open>
  \<open>base64.RawURLEncoding\<close>, without padding: six bits a character, from the first byte on.
\<close>

definition base64Char :: "nat \<Rightarrow> char" where
  "base64Char n = ''ABCDEFGHIJKLMNOPQRSTUVWXYZabcdefghijklmnopqrstuvwxyz0123456789-_'' ! n"

fun base64URL :: "string \<Rightarrow> string" where
  "base64URL [] = []"
| "base64URL [a] = [base64Char (byteOf a div 4), base64Char (byteOf a mod 4 * 16)]"
| "base64URL [a, b] =
    [base64Char (byteOf a div 4), base64Char (byteOf a mod 4 * 16 + byteOf b div 16),
     base64Char (byteOf b mod 16 * 4)]"
| "base64URL (a # b # c # rest) =
    [base64Char (byteOf a div 4), base64Char (byteOf a mod 4 * 16 + byteOf b div 16),
     base64Char (byteOf b mod 16 * 4 + byteOf c div 64), base64Char (byteOf c mod 64)] @ base64URL rest"

text \<open>\<open>rand.Read\<close> fills the 32 bytes of the identifier.\<close>

definition ahdHTTPNewSessionID :: "string \<Rightarrow> string option \<Rightarrow> raised + string" where
  "ahdHTTPNewSessionID class random =
    (case random of None \<Rightarrow> Inl (class, ''HTTP session identifier could not be generated'')
     | Some raw \<Rightarrow> Inr (base64URL raw))"

text \<open>\<open>cookies\<close> are the names and values of the request's cookies, in order.\<close>

definition AhdHTTPSessionStoreOpen ::
  "string \<Rightarrow> sessionRuntime \<Rightarrow> string \<Rightarrow> (string \<times> string) list \<Rightarrow> int
    \<Rightarrow> raised + ahdHTTPSessionData \<times> sessionRuntime" where
  "AhdHTTPSessionStoreOpen class w handle cookies now =
    andThen (ahdHTTPLookupSessionStore class w handle) (\<lambda>store.
      let store = cleanupExpired now store;
          blank = \<lparr>sessionStore = handle, sessionID = '''', sessionValues = [], sessionDirty = False,
                   sessionDestroyed = False\<rparr>;
          session =
            (case find (\<lambda>(name, v). name = storeCookieName store) cookies of
               None \<Rightarrow> blank
             | Some (name, v) \<Rightarrow>
                 (case storeSessions store v of
                    None \<Rightarrow> blank
                  | Some stored \<Rightarrow>
                      if expiresAt stored > now
                      then blank\<lparr>sessionID := v, sessionValues := storedValues stored\<rparr> else blank))
      in Inr (session, putStore w handle store))"

text \<open>\<open>now.Add(time.Duration(store.maxAgeSeconds) * time.Second)\<close>: the product is a 64-bit word.\<close>

definition sessionExpiry :: "ahdHTTPSessionStoreState \<Rightarrow> int \<Rightarrow> int" where
  "sessionExpiry store now = now + sint (storeMaxAge store * Second)"

text \<open>
  What \<open>Commit\<close> raises or returns, and the state it leaves: the store is changed before the cookie
  is checked.
\<close>

definition AhdHTTPSessionStoreCommit ::
  "string \<Rightarrow> sessionRuntime \<Rightarrow> string \<Rightarrow> ahdHTTPSessionData \<Rightarrow> ahdHTTPResponseData \<Rightarrow> int \<Rightarrow> string option
    \<Rightarrow> (raised + ahdHTTPResponseData) \<times> sessionRuntime" where
  "AhdHTTPSessionStoreCommit class w handle session response now random =
    (case ahdHTTPLookupSessionStore class w handle of
       Inl problem \<Rightarrow> (Inl problem, w)
     | Inr store \<Rightarrow>
         if sessionStore session \<noteq> handle
         then (Inl (class, ''HTTP session does not belong to this SessionStore''), w)
         else if sessionDestroyed session
         then
           (let store = cleanupExpired now store;
                store = (if sessionID session \<noteq> ''''
                  then store\<lparr>storeSessions := (storeSessions store)(sessionID session := None)\<rparr> else store)
            in (andThen (AhdHTTPDeleteCookie class (storeCookieName store) ''/'')
                  (\<lambda>cookie. Inr (AhdHTTPResponseWithCookie response cookie)),
                putStore w handle store))
         else if \<not> sessionDirty session then (Inr response, w)
         else
           (case (if sessionID session = '''' then ahdHTTPNewSessionID class random else Inr (sessionID session)) of
              Inl problem \<Rightarrow> (Inl problem, w)
            | Inr ident \<Rightarrow>
                (let store = cleanupExpired now store;
                     stored = \<lparr>storedValues = sessionValues session, expiresAt = sessionExpiry store now\<rparr>;
                     store = store\<lparr>storeSessions := (storeSessions store)(ident \<mapsto> stored)\<rparr>
                 in (andThen
                       (ahdHTTPRequireCookie class
                         \<lparr>cookieName = storeCookieName store, cookieValue = ident, cookiePath = ''/'',
                          cookieHttpOnly = True, cookieSecure = storeSecure store,
                          cookieSameSite = storeSameSite store, cookieMaxAge = Some (storeMaxAge store)\<rparr>)
                       (\<lambda>cookie. Inr (response\<lparr>responseCookies := responseCookies response @ [cookie]\<rparr>)),
                     putStore w handle store))))"

definition AhdHTTPSessionGet :: "ahdHTTPSessionData \<Rightarrow> string \<Rightarrow> string option" where
  "AhdHTTPSessionGet session name =
    (if sessionDestroyed session then None else map_of (sessionValues session) name)"

definition AhdHTTPSessionHas :: "ahdHTTPSessionData \<Rightarrow> string \<Rightarrow> bool" where
  "AhdHTTPSessionHas session name =
    (if sessionDestroyed session then False else map_of (sessionValues session) name \<noteq> None)"

definition ahdHTTPRequireMutableSession :: "string \<Rightarrow> ahdHTTPSessionData \<Rightarrow> raised + ahdHTTPSessionData" where
  "ahdHTTPRequireMutableSession class session =
    (if sessionDestroyed session then Inl (class, ''HTTP session has been destroyed'') else Inr session)"

definition ahdHTTPRequireSessionKey :: "string \<Rightarrow> string \<Rightarrow> raised option" where
  "ahdHTTPRequireSessionKey class name =
    (if name = '''' then Some (class, ''HTTP session key must not be empty'')
     else if list_ex (\<lambda>c. byteOf c < 0x20 \<or> byteOf c = 0x7F) name
     then Some (class, ''HTTP session key must not contain control characters'')
     else None)"

definition AhdHTTPSessionSet ::
  "string \<Rightarrow> ahdHTTPSessionData \<Rightarrow> string \<Rightarrow> string \<Rightarrow> raised + ahdHTTPSessionData" where
  "AhdHTTPSessionSet class session name v =
    andThen (ahdHTTPRequireMutableSession class session) (\<lambda>session.
      case ahdHTTPRequireSessionKey class name of
        Some problem \<Rightarrow> Inl problem
      | None \<Rightarrow> Inr (session\<lparr>sessionValues := AList.update name v (sessionValues session), sessionDirty := True\<rparr>))"

definition AhdHTTPSessionRemove ::
  "string \<Rightarrow> ahdHTTPSessionData \<Rightarrow> string \<Rightarrow> raised + ahdHTTPSessionData" where
  "AhdHTTPSessionRemove class session name =
    andThen (ahdHTTPRequireMutableSession class session) (\<lambda>session.
      case ahdHTTPRequireSessionKey class name of
        Some problem \<Rightarrow> Inl problem
      | None \<Rightarrow>
          Inr (if map_of (sessionValues session) name \<noteq> None
            then session\<lparr>sessionValues := AList.delete name (sessionValues session), sessionDirty := True\<rparr>
            else session))"

definition AhdHTTPSessionClear :: "string \<Rightarrow> ahdHTTPSessionData \<Rightarrow> raised + ahdHTTPSessionData" where
  "AhdHTTPSessionClear class session =
    andThen (ahdHTTPRequireMutableSession class session) (\<lambda>session.
      Inr (if sessionValues session \<noteq> [] then session\<lparr>sessionValues := [], sessionDirty := True\<rparr> else session))"

definition forgetSession :: "sessionRuntime \<Rightarrow> string \<Rightarrow> ahdHTTPSessionStoreState \<Rightarrow> string \<Rightarrow> sessionRuntime" where
  "forgetSession w handle store ident =
    (if ident \<noteq> '''' then putStore w handle (store\<lparr>storeSessions := (storeSessions store)(ident := None)\<rparr>) else w)"

definition AhdHTTPSessionRotate ::
  "string \<Rightarrow> sessionRuntime \<Rightarrow> ahdHTTPSessionData \<Rightarrow> string option \<Rightarrow> raised + ahdHTTPSessionData \<times> sessionRuntime" where
  "AhdHTTPSessionRotate class w session random =
    andThen (ahdHTTPRequireMutableSession class session) (\<lambda>session.
    andThen (ahdHTTPLookupSessionStore class w (sessionStore session)) (\<lambda>store.
    andThen (ahdHTTPNewSessionID class random) (\<lambda>ident.
      Inr (session\<lparr>sessionID := ident, sessionDirty := True\<rparr>,
           forgetSession w (sessionStore session) store (sessionID session)))))"

definition AhdHTTPSessionDestroy ::
  "string \<Rightarrow> sessionRuntime \<Rightarrow> ahdHTTPSessionData \<Rightarrow> raised + ahdHTTPSessionData \<times> sessionRuntime" where
  "AhdHTTPSessionDestroy class w session =
    andThen (ahdHTTPRequireMutableSession class session) (\<lambda>session.
    andThen (ahdHTTPLookupSessionStore class w (sessionStore session)) (\<lambda>store.
      Inr (session\<lparr>sessionDestroyed := True, sessionDirty := False, sessionValues := []\<rparr>,
           forgetSession w (sessionStore session) store (sessionID session))))"

end
