(* ===== verification/HttpSessionProofs.thy ===== *)
theory HttpSessionProofs
  imports HttpSessions
begin

text \<open>
  What cookies and sessions guarantee: a cookie is sent as exactly its own attributes, a committed
  session is read back until it expires, identifiers come from the random generator only, and an
  identifier that was rotated away or destroyed is not accepted again.
\<close>

subsection \<open>Cookies\<close>

definition cookieOk :: "ahdHTTPCookieData \<Rightarrow> bool" where
  "cookieOk c \<longleftrightarrow> ahdHTTPMethodToken (cookieName c) \<and> ahdHTTPCookieValueOK (cookieValue c)
     \<and> cookiePath c \<noteq> '''' \<and> ahdHTTPCookiePathOK (cookiePath c)
     \<and> (\<forall>age. cookieMaxAge c = Some age \<longrightarrow> 0 \<le> sint age)
     \<and> (cookieSameSite c = ''Lax'' \<or> cookieSameSite c = ''Strict'' \<or> cookieSameSite c = ''None'' \<and> cookieSecure c)"

lemma sameSiteProblem_None:
  "sameSiteProblem class mode secure = None \<longleftrightarrow> mode = ''Lax'' \<or> mode = ''Strict'' \<or> mode = ''None'' \<and> secure"
  by (auto simp: sameSiteProblem_def)

lemma ahdHTTPRequireCookie_Inr: "ahdHTTPRequireCookie class c = Inr c' \<longleftrightarrow> c' = c \<and> cookieOk c"
  using sameSiteProblem_None [of "class" "cookieSameSite c" "cookieSecure c"]
  by (cases "cookieMaxAge c"; cases "sameSiteProblem class (cookieSameSite c) (cookieSecure c)")
    (auto simp: ahdHTTPRequireCookie_def cookieOk_def split: if_splits)

lemma tchar_not: "ahdHTTPTchar c \<Longrightarrow> c \<noteq> CHR ''='' \<and> c \<noteq> CHR '';'' \<and> c \<noteq> CHR '' ''"
  by (auto simp: ahdHTTPTchar_def byteOf_def)

lemma token_chars:
  assumes "ahdHTTPMethodToken s"
  shows "CHR ''='' \<notin> set s" "CHR '';'' \<notin> set s" "s \<noteq> ''''" "hd s \<noteq> CHR '' ''"
  using assms tchar_not unfolding ahdHTTPMethodToken_def list_all_iff by (metis list.set_sel(1))+

lemma sanitizeCookieValue_ok:
  assumes "ahdHTTPCookieValueOK v"
  shows "sanitizeCookieValue v = v" "CHR '';'' \<notin> set v"
proof -
  have c: "\<forall>c \<in> set v. 0x20 \<le> byteOf c \<and> byteOf c < 0x7F \<and> byteOf c \<noteq> 0x22 \<and> c \<noteq> CHR '';''
      \<and> byteOf c \<noteq> 0x5C \<and> c \<noteq> CHR '','' \<and> c \<noteq> CHR '' ''"
    using assms by (fastforce simp: ahdHTTPCookieValueOK_def list_all_iff byteOf_def)
  then show "CHR '';'' \<notin> set v" by auto
  have "\<not> ContainsAny v '' ,''" using c by (auto simp: ContainsAny_def list_ex_iff)
  moreover have "filter (\<lambda>c. 0x20 \<le> byteOf c \<and> byteOf c < 0x7F \<and> byteOf c \<noteq> 0x22 \<and> c \<noteq> CHR '';''
      \<and> byteOf c \<noteq> 0x5C) v = v"
    using c by (auto intro: filter_True)
  ultimately show "sanitizeCookieValue v = v" by (simp add: sanitizeCookieValue_def)
qed

lemma sanitizeCookiePath_ok:
  assumes "ahdHTTPCookiePathOK p"
  shows "sanitizeCookiePath p = p" "CHR '';'' \<notin> set p"
proof -
  have c: "\<forall>c \<in> set p. 0x20 \<le> byteOf c \<and> byteOf c < 0x7F \<and> c \<noteq> CHR '';''"
    using assms by (fastforce simp: ahdHTTPCookiePathOK_def list_all_iff)
  then show "CHR '';'' \<notin> set p" by auto
  show "sanitizeCookiePath p = p" unfolding sanitizeCookiePath_def using c by (auto intro: filter_True)
qed

text \<open>Reading a \<open>Set-Cookie\<close> header: attributes stand between semicolons, a name and its value on
  the two sides of the first equals sign.\<close>

definition readAttribute :: "string \<Rightarrow> string \<times> string option" where
  "readAttribute part =
    (case cutAt CHR ''='' (TrimPrefix part '' '') of
       (name, v, found) \<Rightarrow> (name, if found then Some v else None))"

definition readSetCookie :: "string \<Rightarrow> (string \<times> string option) list" where
  "readSetCookie wire = map readAttribute (splitAt CHR '';'' wire)"

fun attributeText :: "string \<times> string option \<Rightarrow> string" where
  "attributeText (name, None) = name"
| "attributeText (name, Some v) = name @ ''='' @ v"

fun attributeOk :: "string \<times> string option \<Rightarrow> bool" where
  "attributeOk (name, v) \<longleftrightarrow> ahdHTTPMethodToken name \<and> (\<forall>x. v = Some x \<longrightarrow> CHR '';'' \<notin> set x)"

lemma cutAt_token: "CHR ''='' \<notin> set s \<Longrightarrow> cutAt CHR ''='' (s @ CHR ''='' # v) = (s, v, True)"
    "CHR ''='' \<notin> set s \<Longrightarrow> cutAt CHR ''='' s = (s, [], False)"
  by (induction s) auto

lemma readAttribute_text:
  assumes "attributeOk a"
  shows "readAttribute (attributeText a) = a" "readAttribute (CHR '' '' # attributeText a) = a"
    "CHR '';'' \<notin> set (attributeText a)"
proof -
  obtain name v where a: "a = (name, v)" by (cases a)
  have token: "ahdHTTPMethodToken name" using assms by (simp add: a)
  have "\<not> HasPrefix (name @ s) '' ''" for s
    using token_chars [OF token] by (cases name) (auto simp: HasPrefix_def)
  from this this [of "[]"]
  have trim: "TrimPrefix (name @ s) '' '' = name @ s" "TrimPrefix name '' '' = name"
      "TrimPrefix (CHR '' '' # t) '' '' = t" for s t
    by (auto simp: TrimPrefix_def HasPrefix_def)
  show "readAttribute (attributeText a) = a" "readAttribute (CHR '' '' # attributeText a) = a"
    "CHR '';'' \<notin> set (attributeText a)"
    using assms token_chars [OF token] cutAt_token [of name]
    by (cases v; simp add: a readAttribute_def trim)+
qed

lemma readSetCookie_join:
  assumes "list_all attributeOk as" "as \<noteq> []"
  shows "readSetCookie (joinStrings ''; '' (map attributeText as)) = as"
proof -
  have "map readAttribute (splitAt CHR '';'' (CHR '' '' # joinStrings ''; '' (map attributeText as))) = as
      \<and> readSetCookie (joinStrings ''; '' (map attributeText as)) = as"
    using assms
  proof (induction as rule: induct_list012)
    case (2 a)
    then show ?case
      using readAttribute_text [of a] by (simp add: readSetCookie_def splitAt_plain)
  next
    case (3 a b as)
    have a: "attributeOk a" and IH: "map readAttribute (splitAt CHR '';'' (CHR '' '' # joinStrings ''; ''
        (map attributeText (b # as)))) = b # as"
      using 3 by auto
    have "joinStrings ''; '' (map attributeText (a # b # as)) =
        attributeText a @ CHR '';'' # CHR '' '' # joinStrings ''; '' (map attributeText (b # as))"
      by simp
    with IH readAttribute_text [OF a] show ?case
      using splitAt_append [of "CHR '';''" "attributeText a"]
        splitAt_append [of "CHR '';''" "CHR '' '' # attributeText a"]
      by (simp add: readSetCookie_def del: splitAt.simps)
  qed simp
  then show ?thesis by blast
qed

definition cookieAttributes :: "ahdHTTPCookieData \<Rightarrow> (string \<times> string option) list" where
  "cookieAttributes c =
     [(cookieName c, Some (cookieValue c)), (''Path'', Some (cookiePath c))]
     @ (if cookieMaxAge c = Some 0 then [(''Expires'', Some ''Thu, 01 Jan 1970 00:00:00 GMT'')] else [])
     @ (case cookieMaxAge c of None \<Rightarrow> [] | Some age \<Rightarrow> [(''Max-Age'', Some (FormatInt (sint age)))])
     @ (if cookieHttpOnly c then [(''HttpOnly'', None)] else [])
     @ (if cookieSecure c then [(''Secure'', None)] else [])
     @ [(''SameSite'', Some (cookieSameSite c))]"

lemma FormatInt_chars: "CHR '';'' \<notin> set (FormatInt i)"
proof -
  have "\<not> isDecimal CHR '';''" by (simp add: isDecimal_def byteOf_def)
  then have "CHR '';'' \<notin> set (digitsOf n)" for n using digitsOf_decimal [of n] by (auto simp: list_all_iff)
  then show ?thesis by (simp add: FormatInt_def)
qed

lemma attribute_names:
  "ahdHTTPMethodToken ''Path''" "ahdHTTPMethodToken ''Expires''" "ahdHTTPMethodToken ''Max-Age''"
  "ahdHTTPMethodToken ''HttpOnly''" "ahdHTTPMethodToken ''Secure''" "ahdHTTPMethodToken ''SameSite''"
  by code_simp+

lemma wire_is_join:
  assumes "cookieOk c"
  shows "ahdHTTPCookieWire c = joinStrings ''; '' (map attributeText (cookieAttributes c))"
proof -
  have "FormatInt 0 = ''0''" by code_simp
  moreover have "a = 0" if "sint a = 0" for a :: int64 using that by (intro signed_word_eqI) simp
  ultimately show ?thesis using assms
    by (cases "cookieMaxAge c")
      (auto simp: ahdHTTPCookieWire_def cookieString_def cookieAttributes_def cookieOk_def
        sanitizeCookieValue_ok sanitizeCookiePath_ok)
qed

text \<open>C37: A cookie goes out as itself: the attributes that a reader finds in the \<open>Set-Cookie\<close> header
  of any cookie the module builds are its name and value, its path, its age, its flags and its
  SameSite mode, and nothing else. No value or path can add an attribute.\<close>

theorem set_cookie_reads_back:
  assumes "ahdHTTPRequireCookie class c = Inr cookie"
  shows "readSetCookie (ahdHTTPCookieWire cookie) = cookieAttributes cookie"
proof -
  have ok: "cookieOk cookie" using assms by (simp add: ahdHTTPRequireCookie_Inr)
  then have "list_all attributeOk (cookieAttributes cookie)"
    using FormatInt_chars sanitizeCookieValue_ok(2) sanitizeCookiePath_ok(2)
    by (auto simp: cookieAttributes_def cookieOk_def attribute_names split: option.split)
  moreover have "cookieAttributes cookie \<noteq> []" by (simp add: cookieAttributes_def)
  ultimately show ?thesis unfolding wire_is_join [OF ok] by (rule readSetCookie_join)
qed

theorem set_cookie_reads_back_witness:
  "readSetCookie ''id=a=b; Path=/; Max-Age=60; Secure; SameSite=None''
     = [(''id'', Some ''a=b''), (''Path'', Some ''/''), (''Max-Age'', Some ''60''), (''Secure'', None),
        (''SameSite'', Some ''None'')]"
proof -
  define c where "c = \<lparr>cookieName = ''id'', cookieValue = ''a=b'', cookiePath = ''/'', cookieHttpOnly = False,
    cookieSecure = True, cookieSameSite = ''None'', cookieMaxAge = Some 60\<rparr>"
  have "ahdHTTPMethodToken ''id''" "ahdHTTPCookieValueOK ''a=b''" "ahdHTTPCookiePathOK ''/''" by code_simp+
  then have ok: "ahdHTTPRequireCookie ''HTTPError'' c = Inr c"
    by (simp add: ahdHTTPRequireCookie_Inr cookieOk_def c_def)
  have "ahdHTTPCookieWire c = ''id=a=b; Path=/; Max-Age=60; Secure; SameSite=None''"
    unfolding c_def by code_simp
  moreover have "FormatInt 60 = ''60''" by code_simp
  ultimately show ?thesis
    using set_cookie_reads_back [OF ok] by (simp add: cookieAttributes_def c_def)
qed

subsection \<open>Identifiers\<close>

lemma base64Char_ok: "n < 64 \<Longrightarrow> ahdHTTPCookieValueOK [base64Char n]"
proof -
  have "list_all (\<lambda>n. ahdHTTPCookieValueOK [base64Char n]) [0..<64]" by code_simp
  then show "n < 64 \<Longrightarrow> ?thesis" by (simp add: list_all_iff)
qed

text \<open>Generated identifiers are cookie values, as the documentation promises.\<close>

lemma base64URL_ok: "ahdHTTPCookieValueOK (base64URL raw)"
proof (induction raw rule: base64URL.induct)
  case (4 a b c rest)
  have "byteOf b mod 16 * 4 + byteOf c div 64 < 64" "byteOf a mod 4 * 16 + byteOf b div 16 < 64"
      "byteOf a div 4 < 64" "byteOf c mod 64 < 64"
    using byteOf_less [of a] byteOf_less [of b] byteOf_less [of c] by linarith+
  with 4 base64Char_ok show ?case by (simp add: ahdHTTPCookieValueOK_def)
next
  case (3 a b)
  have "byteOf b mod 16 * 4 < 64" "byteOf a mod 4 * 16 + byteOf b div 16 < 64" "byteOf a div 4 < 64"
    using byteOf_less [of a] byteOf_less [of b] by linarith+
  with base64Char_ok show ?case by (simp add: ahdHTTPCookieValueOK_def)
next
  case (2 a)
  have "byteOf a mod 4 * 16 < 64" "byteOf a div 4 < 64" using byteOf_less [of a] by linarith+
  with base64Char_ok show ?case by (simp add: ahdHTTPCookieValueOK_def)
qed (simp add: ahdHTTPCookieValueOK_def)

lemma base64URL_nonempty: "base64URL raw = '''' \<longleftrightarrow> raw = ''''"
  by (cases raw rule: base64URL.cases) auto

subsection \<open>Committing and opening\<close>

lemma cleanupExpired_simps [simp]:
  "storeCookieName (cleanupExpired now store) = storeCookieName store"
  "storeMaxAge (cleanupExpired now store) = storeMaxAge store"
  "sessionExpiry (cleanupExpired now store) = sessionExpiry store"
  "storeSessions (cleanupExpired now store) ident = Some s \<longleftrightarrow>
     storeSessions store ident = Some s \<and> now < expiresAt s"
  by (auto simp: cleanupExpired_def sessionExpiry_def split: option.splits if_splits)

lemma putStore_stores [simp]: "sessionStores (putStore w handle store) = (sessionStores w)(handle \<mapsto> store)"
  by (simp add: putStore_def)

lemma Second_sint: "sint Second = 10 ^ 9"
  by (simp add: Second_def Millisecond_def)

text \<open>The lifetime fits a \<open>time.Duration\<close> up to 9223372036 seconds.\<close>

lemma sessionExpiry_exact:
  assumes "0 \<le> sint (storeMaxAge store)" "sint (storeMaxAge store) \<le> 9223372036"
  shows "sessionExpiry store now = now + sint (storeMaxAge store) * 10 ^ 9"
proof -
  have "storeMaxAge store * Second = word_of_int (sint (storeMaxAge store) * sint Second)" by simp
  moreover have "sint (word_of_int (sint (storeMaxAge store) * sint Second) :: int64)
      = sint (storeMaxAge store) * sint Second"
    unfolding sint_sbintrunc' using assms by (intro signed_take_bit_int_eq_self) (simp_all add: Second_sint)
  ultimately show ?thesis by (simp add: sessionExpiry_def Second_sint)
qed

lemma Commit_dirty:
  assumes "AhdHTTPSessionStoreCommit class w handle session response now random = (Inr response', w')"
    and "sessionStores w handle = Some store" "sessionDirty session" "\<not> sessionDestroyed session"
  obtains ident cookie where
    "ident = sessionID session \<or> sessionID session = '''' \<and> ahdHTTPNewSessionID class random = Inr ident"
    and "sessionStore session = handle"
    and "w' = putStore w handle ((cleanupExpired now store)\<lparr>storeSessions :=
       (storeSessions (cleanupExpired now store))(ident \<mapsto>
          \<lparr>storedValues = sessionValues session, expiresAt = sessionExpiry store now\<rparr>)\<rparr>)"
    and "responseCookies response' = responseCookies response @ [cookie]"
    and "cookieName cookie = storeCookieName store" "cookieValue cookie = ident" "cookieHttpOnly cookie"
proof -
  have same: "sessionStore session = handle"
    using assms by (auto simp: AhdHTTPSessionStoreCommit_def ahdHTTPLookupSessionStore_def split: if_splits)
  obtain ident where ident:
    "(if sessionID session = '''' then ahdHTTPNewSessionID class random else Inr (sessionID session)) = Inr ident"
    using assms same by (cases "if sessionID session = '''' then ahdHTTPNewSessionID class random
        else Inr (sessionID session)")
      (simp_all add: AhdHTTPSessionStoreCommit_def ahdHTTPLookupSessionStore_def)
  define cookie where "cookie =
    \<lparr>cookieName = storeCookieName store, cookieValue = ident, cookiePath = ''/'', cookieHttpOnly = True,
     cookieSecure = storeSecure (cleanupExpired now store),
     cookieSameSite = storeSameSite (cleanupExpired now store), cookieMaxAge = Some (storeMaxAge store)\<rparr>"
  have r: "andThen (ahdHTTPRequireCookie class cookie)
      (\<lambda>cookie. Inr (response\<lparr>responseCookies := responseCookies response @ [cookie]\<rparr>)) = Inr response'"
    "w' = putStore w handle ((cleanupExpired now store)\<lparr>storeSessions :=
       (storeSessions (cleanupExpired now store))(ident \<mapsto>
          \<lparr>storedValues = sessionValues session, expiresAt = sessionExpiry store now\<rparr>)\<rparr>)"
    using assms same ident
    by (simp_all add: AhdHTTPSessionStoreCommit_def ahdHTTPLookupSessionStore_def Let_def cookie_def
        del: cleanupExpired_simps(4))
  show thesis
  proof (rule that)
    show "ident = sessionID session \<or> sessionID session = '''' \<and> ahdHTTPNewSessionID class random = Inr ident"
      using ident by (auto split: if_splits)
    show "responseCookies response' = responseCookies response @ [cookie]"
      using r(1) by (auto simp: andThen_Inr ahdHTTPRequireCookie_Inr)
  qed (use same r(2) in \<open>simp_all add: cookie_def\<close>)
qed

lemma Open_result:
  assumes "AhdHTTPSessionStoreOpen class w handle cookies now = Inr (opened, w')"
  obtains store where "sessionStores w handle = Some store" "w' = putStore w handle (cleanupExpired now store)"
    and "sessionStore opened = handle" "\<not> sessionDestroyed opened"
    and "sessionID opened = '''' \<and> sessionValues opened = [] \<or>
      (\<exists>s. find (\<lambda>(name, v). name = storeCookieName store) cookies = Some (storeCookieName store, sessionID opened)
        \<and> storeSessions store (sessionID opened) = Some s \<and> now < expiresAt s \<and> sessionValues opened = storedValues s)"
proof -
  obtain store where store: "sessionStores w handle = Some store"
    using assms by (auto simp: AhdHTTPSessionStoreOpen_def ahdHTTPLookupSessionStore_def andThen_Inr split: option.splits)
  have first: "find (\<lambda>(name, v). name = storeCookieName store) cookies = Some (name, v) \<Longrightarrow>
      name = storeCookieName store" for name v
    by (auto simp: find_Some_iff)
  show thesis
    using assms store first that
    by (auto simp: AhdHTTPSessionStoreOpen_def ahdHTTPLookupSessionStore_def Let_def
        split: option.splits if_splits prod.splits)
qed

text \<open>C38: What was committed is read back. A commit of a changed session answers with a cookie of the
  store, not readable by scripts; a later request that sends this cookie, whatever other cookies
  stand before and after it, opens a session with exactly the committed values until the age of the
  store has passed, and an empty one after that. The age must fit a duration of Go.\<close>

theorem committed_session_is_read_back:
  assumes "sessionStores w handle = Some store"
    and "0 < sint (storeMaxAge store)" "sint (storeMaxAge store) \<le> 9223372036"
    and "sessionDirty session" "\<not> sessionDestroyed session"
    and "AhdHTTPSessionStoreCommit class w handle session response now random = (Inr response', w')"
  shows "\<exists>cookie. responseCookies response' = responseCookies response @ [cookie]
    \<and> cookieName cookie = storeCookieName store \<and> cookieHttpOnly cookie
    \<and> (\<forall>others rest later. storeCookieName store \<notin> fst ` set others \<longrightarrow>
        (\<exists>opened w''. AhdHTTPSessionStoreOpen class w' handle
            (others @ (cookieName cookie, cookieValue cookie) # rest) later = Inr (opened, w'')
          \<and> (if later < now + sint (storeMaxAge store) * 10 ^ 9
             then sessionID opened = cookieValue cookie \<and> sessionValues opened = sessionValues session
             else sessionID opened = '''' \<and> sessionValues opened = [])))"
  using assms(6,1,4,5)
proof (rule Commit_dirty)
  fix ident cookie
  let ?store = "(cleanupExpired now store)\<lparr>storeSessions := (storeSessions (cleanupExpired now store))
    (ident \<mapsto> \<lparr>storedValues = sessionValues session, expiresAt = sessionExpiry store now\<rparr>)\<rparr>"
  assume w': "w' = putStore w handle ?store"
    and cookie: "responseCookies response' = responseCookies response @ [cookie]"
      "cookieName cookie = storeCookieName store" "cookieValue cookie = ident" "cookieHttpOnly cookie"
  have expiry: "sessionExpiry store now = now + sint (storeMaxAge store) * 10 ^ 9"
    using assms(2,3) by (intro sessionExpiry_exact) auto
  have "\<exists>opened w''. AhdHTTPSessionStoreOpen class w' handle
        (others @ (cookieName cookie, cookieValue cookie) # rest) later = Inr (opened, w'')
      \<and> (if later < now + sint (storeMaxAge store) * 10 ^ 9
         then sessionID opened = cookieValue cookie \<and> sessionValues opened = sessionValues session
         else sessionID opened = '''' \<and> sessionValues opened = [])"
    if "storeCookieName store \<notin> fst ` set others" for others rest later
  proof -
    have "find (\<lambda>(name, v). name = storeCookieName store) others = None"
      using that by (force simp: find_None_iff)
    then have first: "find (\<lambda>(name, v). name = storeCookieName store)
        (others @ (storeCookieName store, ident) # rest) = Some (storeCookieName store, ident)"
      by (induction others) auto
    have "storeSessions (cleanupExpired later ?store) ident =
      (if later < sessionExpiry store now
       then Some \<lparr>storedValues = sessionValues session, expiresAt = sessionExpiry store now\<rparr> else None)"
      by (simp add: cleanupExpired_def)
    with first show ?thesis
      unfolding expiry w' by (simp add: AhdHTTPSessionStoreOpen_def ahdHTTPLookupSessionStore_def cookie)
  qed
  with cookie show ?thesis by blast
qed

text \<open>
  Beyond that bound the duration wraps around: a store for 9223372037 seconds, some 292 years, has
  expired its sessions the moment they are committed.
\<close>

lemma longest_sessions_expire_at_once:
  assumes "storeMaxAge store = 9223372037"
  shows "sessionExpiry store now < now"
proof -
  have "sint (9223372037 * Second) < 0" unfolding Second_def Millisecond_def by code_simp
  with assms show ?thesis by (simp add: sessionExpiry_def)
qed

subsection \<open>Programs that use sessions\<close>

text \<open>
  A program holds session objects; \<open>issued\<close> remembers the store of every identifier the generator
  has made. Requests bring any cookies. The premise that a new identifier is not an issued one is
  what 256 random bits promise.
\<close>

record sessionWorld =
  worldRuntime :: sessionRuntime
  liveSessions :: "ahdHTTPSessionData list"
  worldTime :: int
  issued :: "string \<rightharpoonup> string"

definition freshBytes :: "sessionWorld \<Rightarrow> string \<Rightarrow> bool" where
  "freshBytes w raw \<longleftrightarrow> length raw = 32 \<and> issued w (base64URL raw) = None"

definition editsSession :: "ahdHTTPSessionData \<Rightarrow> ahdHTTPSessionData \<Rightarrow> bool" where
  "editsSession s s' \<longleftrightarrow> (\<exists>class name v. AhdHTTPSessionSet class s name v = Inr s'
     \<or> AhdHTTPSessionRemove class s name = Inr s' \<or> AhdHTTPSessionClear class s = Inr s')"

text \<open>The two operations that end the identifier of the object \<open>i\<close>.\<close>

inductive endStep :: "sessionWorld \<Rightarrow> nat \<Rightarrow> sessionWorld \<Rightarrow> bool" where
  rotates: "i < length (liveSessions w) \<Longrightarrow> freshBytes w raw \<Longrightarrow>
    AhdHTTPSessionRotate class (worldRuntime w) (liveSessions w ! i) (Some raw) = Inr (s', rt) \<Longrightarrow>
    endStep w i (w\<lparr>worldRuntime := rt, liveSessions := (liveSessions w)[i := s'],
      issued := (issued w)(sessionID s' \<mapsto> sessionStore s')\<rparr>)"
| destroys: "i < length (liveSessions w) \<Longrightarrow>
    AhdHTTPSessionDestroy class (worldRuntime w) (liveSessions w ! i) = Inr (s', rt) \<Longrightarrow>
    endStep w i (w\<lparr>worldRuntime := rt, liveSessions := (liveSessions w)[i := s']\<rparr>)"

inductive sessionStep :: "sessionWorld \<Rightarrow> sessionWorld \<Rightarrow> bool" where
  creates: "AhdHTTPSessions class (worldRuntime w) name age secure sameSite = Inr (handle, rt) \<Longrightarrow>
    sessionStores (worldRuntime w) handle = None \<Longrightarrow> sessionStep w (w\<lparr>worldRuntime := rt\<rparr>)"
| opens: "AhdHTTPSessionStoreOpen class (worldRuntime w) handle cookies (worldTime w) = Inr (s, rt) \<Longrightarrow>
    sessionStep w (w\<lparr>worldRuntime := rt, liveSessions := liveSessions w @ [s]\<rparr>)"
| edits: "i < length (liveSessions w) \<Longrightarrow> editsSession (liveSessions w ! i) s' \<Longrightarrow>
    sessionStep w (w\<lparr>liveSessions := (liveSessions w)[i := s']\<rparr>)"
| ends: "endStep w i w' \<Longrightarrow> sessionStep w w'"
| commits: "i < length (liveSessions w) \<Longrightarrow> freshBytes w raw \<Longrightarrow>
    AhdHTTPSessionStoreCommit class (worldRuntime w) handle (liveSessions w ! i) response (worldTime w) (Some raw)
      = (result, rt) \<Longrightarrow>
    sessionStep w (w\<lparr>worldRuntime := rt, issued := (issued w)(base64URL raw \<mapsto> handle)\<rparr>)"
| forgets: "liveSessions w = xs @ s # ys \<Longrightarrow> sessionStep w (w\<lparr>liveSessions := xs @ ys\<rparr>)"
| waits: "worldTime w \<le> t \<Longrightarrow> sessionStep w (w\<lparr>worldTime := t\<rparr>)"

inductive sessionReachable :: "sessionWorld \<Rightarrow> bool" where
  "sessionStores (worldRuntime w) = Map.empty \<Longrightarrow> liveSessions w = [] \<Longrightarrow> issued w '''' = None \<Longrightarrow>
    sessionReachable w"
| "sessionReachable w \<Longrightarrow> sessionStep w w' \<Longrightarrow> sessionReachable w'"

text \<open>The identifiers the stores hold, each with its store.\<close>

definition held :: "sessionRuntime \<Rightarrow> (string \<times> string) set" where
  "held rt = {(handle, ident). \<exists>store. sessionStores rt handle = Some store \<and> storeSessions store ident \<noteq> None}"

lemma held_putStore:
  "held (putStore rt handle store) =
     {(h, ident). h \<noteq> handle \<and> (h, ident) \<in> held rt} \<union> {(handle, ident) | ident. storeSessions store ident \<noteq> None}"
  by (auto simp: held_def split: if_splits)

lemma held_iff: "sessionStores rt handle = Some store \<Longrightarrow> (handle, ident) \<in> held rt \<longleftrightarrow> storeSessions store ident \<noteq> None"
  by (auto simp: held_def)

lemma held_AhdHTTPSessions:
  assumes "AhdHTTPSessions class rt name age secure sameSite = Inr (handle, rt')" "sessionStores rt handle = None"
  shows "held rt' \<subseteq> held rt"
proof -
  have "held (rt\<lparr>sessionNextID := n\<rparr>) = held rt" for n by (simp add: held_def)
  with assms show ?thesis
    by (auto simp: AhdHTTPSessions_def Let_def held_putStore split: if_splits option.splits)
qed

lemma held_Open:
  assumes "AhdHTTPSessionStoreOpen class rt handle cookies now = Inr (s, rt')"
  shows "held rt' \<subseteq> held rt" "sessionID s \<noteq> '''' \<Longrightarrow> (sessionStore s, sessionID s) \<in> held rt'"
    "\<not> sessionDestroyed s" "sessionStore s = handle"
  using assms by (elim Open_result; force simp: held_putStore held_iff)+

lemma held_forgetSession:
  assumes "sessionStores rt handle = Some store"
  shows "held (forgetSession rt handle store ident) = (if ident = '''' then held rt else held rt - {(handle, ident)})"
  using assms by (auto simp: forgetSession_def held_putStore held_iff)

text \<open>The effect of the operations on the held identifiers.\<close>

lemma ends_held:
  assumes "endStep w i w'"
  obtains s s' where "i < length (liveSessions w)" "s = liveSessions w ! i" "\<not> sessionDestroyed s"
    and "liveSessions w' = (liveSessions w)[i := s']" "sessionStore s' = sessionStore s" "worldTime w' = worldTime w"
    and "held (worldRuntime w') = held (worldRuntime w) - (if sessionID s = '''' then {} else {(sessionStore s, sessionID s)})"
    and "sessionDestroyed s' \<and> sessionID s' = sessionID s \<and> issued w' = issued w
      \<or> \<not> sessionDestroyed s' \<and> sessionID s' \<noteq> '''' \<and> issued w (sessionID s') = None
        \<and> issued w' = (issued w)(sessionID s' \<mapsto> sessionStore s')"
  using assms
proof cases
  case (rotates raw "class" s' rt)
  obtain store where r: "\<not> sessionDestroyed (liveSessions w ! i)"
      "sessionStores (worldRuntime w) (sessionStore (liveSessions w ! i)) = Some store"
      "s' = (liveSessions w ! i)\<lparr>sessionID := base64URL raw, sessionDirty := True\<rparr>"
      "rt = forgetSession (worldRuntime w) (sessionStore (liveSessions w ! i)) store (sessionID (liveSessions w ! i))"
    using rotates(4)
    by (auto simp: AhdHTTPSessionRotate_def andThen_Inr ahdHTTPRequireMutableSession_def
        ahdHTTPLookupSessionStore_def ahdHTTPNewSessionID_def split: if_splits option.splits)
  have "base64URL raw \<noteq> ''''" using rotates(3) by (auto simp: freshBytes_def base64URL_nonempty)
  with r rotates held_forgetSession [OF r(2)] show ?thesis
    by (intro that [of "liveSessions w ! i" s']) (simp_all add: freshBytes_def)
next
  case (destroys "class" s' rt)
  obtain store where r: "\<not> sessionDestroyed (liveSessions w ! i)"
      "sessionStores (worldRuntime w) (sessionStore (liveSessions w ! i)) = Some store"
      "s' = (liveSessions w ! i)\<lparr>sessionDestroyed := True, sessionDirty := False, sessionValues := []\<rparr>"
      "rt = forgetSession (worldRuntime w) (sessionStore (liveSessions w ! i)) store (sessionID (liveSessions w ! i))"
    using destroys(3)
    by (auto simp: AhdHTTPSessionDestroy_def andThen_Inr ahdHTTPRequireMutableSession_def
        ahdHTTPLookupSessionStore_def split: if_splits option.splits)
  with destroys held_forgetSession [OF r(2)] show ?thesis
    by (intro that [of "liveSessions w ! i" s']) simp_all
qed

lemma held_putStore_subset:
  assumes "sessionStores rt handle = Some store"
    and "\<forall>ident. storeSessions store' ident \<noteq> None \<longrightarrow> storeSessions store ident \<noteq> None \<or> ident \<in> extra"
  shows "held (putStore rt handle store') \<subseteq> held rt \<union> {handle} \<times> extra"
  using assms unfolding held_putStore by (auto simp: held_iff)

lemma cleanupExpired_subset: "storeSessions (cleanupExpired now store) ident \<noteq> None \<Longrightarrow> storeSessions store ident \<noteq> None"
  by (auto simp: cleanupExpired_def split: option.splits)

lemma held_Commit:
  assumes "AhdHTTPSessionStoreCommit class rt handle session response now (Some raw) = (result, rt')"
  shows "held rt' \<subseteq> held rt \<or> sessionStore session = handle \<and> \<not> sessionDestroyed session
    \<and> held rt' \<subseteq> held rt \<union> {handle} \<times> {if sessionID session = '''' then base64URL raw else sessionID session}"
proof (cases "sessionStores rt handle")
  case None
  then show ?thesis using assms by (auto simp: AhdHTTPSessionStoreCommit_def ahdHTTPLookupSessionStore_def)
next
  case (Some store)
  define ident where "ident = (if sessionID session = '''' then base64URL raw else sessionID session)"
  let ?clean = "cleanupExpired now store"
  have "(if sessionID session = '''' then ahdHTTPNewSessionID class (Some raw) else Inr (sessionID session))
      = Inr ident"
    by (simp add: ident_def ahdHTTPNewSessionID_def)
  then consider "rt' = rt"
    | "sessionDestroyed session" "rt' = putStore rt handle ?clean"
    | "sessionDestroyed session"
      "rt' = putStore rt handle (?clean\<lparr>storeSessions := (storeSessions ?clean)(sessionID session := None)\<rparr>)"
    | "sessionStore session = handle" "\<not> sessionDestroyed session"
      "rt' = putStore rt handle (?clean\<lparr>storeSessions := (storeSessions ?clean)(ident \<mapsto>
         \<lparr>storedValues = sessionValues session, expiresAt = sessionExpiry store now\<rparr>)\<rparr>)"
    using assms Some unfolding AhdHTTPSessionStoreCommit_def ahdHTTPLookupSessionStore_def
    by (simp add: Let_def split: if_splits)
  then show ?thesis
  proof cases
    case 2
    then show ?thesis using held_putStore_subset [OF Some, of ?clean "{}"] cleanupExpired_subset by auto
  next
    case 3
    then show ?thesis
      using held_putStore_subset [OF Some, of "?clean\<lparr>storeSessions :=
        (storeSessions ?clean)(sessionID session := None)\<rparr>" "{}"] cleanupExpired_subset by auto
  next
    case 4
    have "held rt' \<subseteq> held rt \<union> {handle} \<times> {ident}"
      unfolding 4(3) using cleanupExpired_subset
      by (intro held_putStore_subset [OF Some]) (auto simp del: cleanupExpired_simps(4))
    with 4 show ?thesis by (simp add: ident_def)
  qed simp
qed

definition worldOk :: "sessionWorld \<Rightarrow> bool" where
  "worldOk w \<longleftrightarrow> issued w '''' = None
     \<and> (\<forall>handle ident. (handle, ident) \<in> held (worldRuntime w) \<longrightarrow> issued w ident = Some handle)
     \<and> (\<forall>s \<in> set (liveSessions w). sessionID s \<noteq> '''' \<longrightarrow> issued w (sessionID s) = Some (sessionStore s))"

text \<open>An identifier is gone when no store holds it and no object could bring it back.\<close>

definition gone :: "sessionWorld \<Rightarrow> string \<Rightarrow> bool" where
  "gone w ident \<longleftrightarrow> issued w ident \<noteq> None \<and> ident \<notin> snd ` held (worldRuntime w)
     \<and> (\<forall>s \<in> set (liveSessions w). sessionID s = ident \<longrightarrow> sessionDestroyed s)"

lemma editsSession_same:
  "editsSession s s' \<Longrightarrow> sessionID s' = sessionID s \<and> sessionStore s' = sessionStore s
     \<and> \<not> sessionDestroyed s \<and> \<not> sessionDestroyed s'"
  by (auto simp: editsSession_def AhdHTTPSessionSet_def AhdHTTPSessionRemove_def AhdHTTPSessionClear_def
      andThen_Inr ahdHTTPRequireMutableSession_def split: if_splits option.splits)

lemma set_update_ball:
  "i < length xs \<Longrightarrow> (\<forall>x \<in> set xs. P x) \<Longrightarrow> P y \<Longrightarrow> \<forall>x \<in> set (xs[i := y]). P x"
  using set_update_subset_insert [of xs i y] by blast

lemma endStep_ok:
  assumes "worldOk w" "endStep w i w'"
  shows "worldOk w'"
  using assms(2)
proof (rule ends_held)
  fix s s'
  assume e: "i < length (liveSessions w)" "s = liveSessions w ! i" "liveSessions w' = (liveSessions w)[i := s']"
      "sessionStore s' = sessionStore s"
      "held (worldRuntime w') = held (worldRuntime w)
         - (if sessionID s = '''' then {} else {(sessionStore s, sessionID s)})"
    and id: "sessionDestroyed s' \<and> sessionID s' = sessionID s \<and> issued w' = issued w
      \<or> \<not> sessionDestroyed s' \<and> sessionID s' \<noteq> '''' \<and> issued w (sessionID s') = None
        \<and> issued w' = (issued w)(sessionID s' \<mapsto> sessionStore s')"
  have keeps: "issued w' ident = Some h" if "issued w ident = Some h" for ident h using that id by auto
  have "s \<in> set (liveSessions w)" using e(1,2) by simp
  then have "sessionID s' \<noteq> '''' \<longrightarrow> issued w' (sessionID s') = Some (sessionStore s')"
    using id assms(1) e(4) unfolding worldOk_def by auto
  then have "\<forall>x \<in> set (liveSessions w'). sessionID x \<noteq> '''' \<longrightarrow> issued w' (sessionID x) = Some (sessionStore x)"
    unfolding e(3) using assms(1) keeps by (intro set_update_ball e(1)) (auto simp: worldOk_def)
  moreover have "issued w' '''' = None" using id assms(1) by (auto simp: worldOk_def)
  ultimately show ?thesis using assms(1) keeps e(5) by (auto simp: worldOk_def)
qed

lemma sessionStep_ok:
  assumes "worldOk w" "sessionStep w w'"
  shows "worldOk w'"
  using assms(2)
proof cases
  case (creates "class" name age secure sameSite handle rt)
  then show ?thesis using held_AhdHTTPSessions [OF creates(2,3)] assms(1) by (auto simp: worldOk_def)
next
  case (opens "class" handle cookies s rt)
  then show ?thesis using held_Open [OF opens(2)] assms(1) by (auto simp: worldOk_def)
next
  case (edits i s')
  then have "sessionID s' \<noteq> '''' \<longrightarrow> issued w (sessionID s') = Some (sessionStore s')"
    using assms(1) editsSession_same [OF edits(3)] by (auto simp: worldOk_def)
  then have "\<forall>x \<in> set ((liveSessions w)[i := s']). sessionID x \<noteq> '''' \<longrightarrow> issued w (sessionID x) = Some (sessionStore x)"
    using assms(1) edits(2) by (intro set_update_ball) (auto simp: worldOk_def)
  then show ?thesis using assms(1) edits(1) by (simp add: worldOk_def)
next
  case (ends i)
  with assms(1) show ?thesis by (simp add: endStep_ok)
next
  case (commits i raw "class" handle response result rt)
  let ?s = "liveSessions w ! i"
  have fresh: "issued w (base64URL raw) = None" "base64URL raw \<noteq> ''''"
    using commits(3) by (auto simp: freshBytes_def base64URL_nonempty)
  have "?s \<in> set (liveSessions w)" using commits(2) by simp
  then have own: "sessionID ?s \<noteq> '''' \<Longrightarrow> issued w (sessionID ?s) = Some (sessionStore ?s)"
    using assms(1) by (auto simp: worldOk_def)
  have "issued w' ident = Some h" if "(h, ident) \<in> held rt" for h ident
  proof (cases "(h, ident) \<in> held (worldRuntime w)")
    case True
    then show ?thesis using assms(1) fresh commits(1) by (auto simp: worldOk_def)
  next
    case False
    then show ?thesis
      using held_Commit [OF commits(4)] that own fresh commits(1) by (auto split: if_splits)
  qed
  moreover have "issued w' '''' = None" "\<forall>s \<in> set (liveSessions w'). sessionID s \<noteq> '''' \<longrightarrow>
      issued w' (sessionID s) = Some (sessionStore s)"
    using assms(1) fresh commits(1) by (auto simp: worldOk_def)
  ultimately show ?thesis using commits(1) by (simp add: worldOk_def)
qed (use assms(1) in \<open>auto simp: worldOk_def\<close>)

lemma sessionReachable_ok: "sessionReachable w \<Longrightarrow> worldOk w"
proof (induction rule: sessionReachable.induct)
  case (1 w)
  then show ?case by (simp add: worldOk_def held_def)
qed (rule sessionStep_ok)

lemma gone_stays:
  assumes "worldOk w" "gone w ident" "sessionStep w w'"
  shows "gone w' ident"
  using assms(3)
proof cases
  case (creates "class" name age secure sameSite handle rt)
  then show ?thesis using held_AhdHTTPSessions [OF creates(2,3)] assms(2) by (auto simp: gone_def)
next
  case (opens "class" handle cookies s rt)
  have "held rt \<subseteq> held (worldRuntime w)" using held_Open(1) [OF opens(2)] .
  moreover have "sessionID s = ident \<Longrightarrow> ident = '''' \<or> (sessionStore s, ident) \<in> held rt"
    using held_Open(2) [OF opens(2)] by auto
  moreover have "ident \<noteq> ''''" using assms(1,2) by (auto simp: gone_def worldOk_def)
  ultimately show ?thesis using opens(1) assms(2) by (force simp: gone_def)
next
  case (edits i s')
  have "sessionID s' \<noteq> ident"
    using editsSession_same [OF edits(3)] assms(2) edits(2) by (auto simp: gone_def)
  then have "\<forall>x \<in> set ((liveSessions w)[i := s']). sessionID x = ident \<longrightarrow> sessionDestroyed x"
    using assms(2) edits(2) by (intro set_update_ball) (auto simp: gone_def)
  then show ?thesis using assms(2) edits(1) by (simp add: gone_def)
next
  case (ends i)
  from ends show ?thesis
  proof (rule ends_held)
    fix s s'
    assume e: "i < length (liveSessions w)" "s = liveSessions w ! i" "liveSessions w' = (liveSessions w)[i := s']"
        "held (worldRuntime w') = held (worldRuntime w)
           - (if sessionID s = '''' then {} else {(sessionStore s, sessionID s)})"
      and id: "sessionDestroyed s' \<and> sessionID s' = sessionID s \<and> issued w' = issued w
        \<or> \<not> sessionDestroyed s' \<and> sessionID s' \<noteq> '''' \<and> issued w (sessionID s') = None
          \<and> issued w' = (issued w)(sessionID s' \<mapsto> sessionStore s')"
    have "\<forall>x \<in> set (liveSessions w'). sessionID x = ident \<longrightarrow> sessionDestroyed x"
      unfolding e(3) using assms(2) id by (intro set_update_ball e(1)) (auto simp: gone_def)
    moreover have "issued w' ident \<noteq> None" using assms(2) id by (auto simp: gone_def)
    ultimately show ?thesis using assms(2) e(4) by (auto simp: gone_def)
  qed
next
  case (commits i raw "class" handle response result rt)
  let ?s = "liveSessions w ! i"
  have fresh: "issued w (base64URL raw) = None" using commits(3) by (auto simp: freshBytes_def)
  have "?s \<in> set (liveSessions w)" using commits(2) by simp
  then have "sessionDestroyed ?s \<or> sessionID ?s \<noteq> ident" using assms(2) by (auto simp: gone_def)
  moreover have "base64URL raw \<noteq> ident" using fresh assms(2) by (auto simp: gone_def)
  ultimately have "ident \<notin> snd ` held rt"
    using held_Commit [OF commits(4)] assms(2) by (auto simp: gone_def split: if_splits)
  then show ?thesis using commits(1) assms(2) by (auto simp: gone_def)
qed (use assms(2) in \<open>auto simp: gone_def\<close>)

lemma ended_is_gone:
  assumes "worldOk w" "endStep w i w1" "sessionID (liveSessions w ! i) \<noteq> ''''"
    and "\<forall>j < length (liveSessions w). j \<noteq> i \<longrightarrow> sessionID (liveSessions w ! j) = sessionID (liveSessions w ! i)
      \<longrightarrow> sessionDestroyed (liveSessions w ! j)"
  shows "gone w1 (sessionID (liveSessions w ! i))"
  using assms(2)
proof (rule ends_held)
  fix s s'
  assume e: "i < length (liveSessions w)" "s = liveSessions w ! i" "liveSessions w1 = (liveSessions w)[i := s']"
      "held (worldRuntime w1) = held (worldRuntime w)
         - (if sessionID s = '''' then {} else {(sessionStore s, sessionID s)})"
    and id: "sessionDestroyed s' \<and> sessionID s' = sessionID s \<and> issued w1 = issued w
      \<or> \<not> sessionDestroyed s' \<and> sessionID s' \<noteq> '''' \<and> issued w (sessionID s') = None
        \<and> issued w1 = (issued w)(sessionID s' \<mapsto> sessionStore s')"
  have "s \<in> set (liveSessions w)" using e(1,2) by simp
  then have own: "issued w (sessionID s) = Some (sessionStore s)"
    using assms(1,3) e(2) by (auto simp: worldOk_def)
  have "sessionDestroyed x" if x: "x \<in> set (liveSessions w1)" "sessionID x = sessionID s" for x
  proof -
    obtain j where j: "j < length (liveSessions w)" "(liveSessions w)[i := s'] ! j = x"
      using x(1) e(3) by (auto simp: in_set_conv_nth)
    show ?thesis
    proof (cases "j = i")
      case True
      then have "x = s'" using j by simp
      then show ?thesis using id own x(2) by auto
    next
      case False
      then show ?thesis using j x(2) assms(4) e(2) by auto
    qed
  qed
  moreover have "sessionID s \<notin> snd ` held (worldRuntime w1)"
    using assms(1,3) own e(2,4) by (auto simp: worldOk_def)
  moreover have "issued w1 (sessionID s) \<noteq> None" using id own by auto
  ultimately show ?thesis using e(2) by (simp add: gone_def)
qed

text \<open>C39: Identifiers. Take any run of a program in which \<open>rotate\<close> replaces the identifier of a session
  object, or \<open>destroy\<close> ends it, at a moment when no other live session object carries that identifier. Then
  the identifier is never accepted again, whatever cookies later requests bring and however the program goes
  on. Without the condition it can be: another object opened for the same cookie stores the session again
  when it is committed (\<open>destroyed_session_comes_back\<close>). And every identifier that \<open>open\<close> accepts was made by
  the generator for that store, never taken from a request.\<close>

theorem ended_sessions_stay_ended:
  assumes "sessionReachable w" "endStep w i w1" "sessionID (liveSessions w ! i) \<noteq> ''''"
    and "\<forall>j < length (liveSessions w). j \<noteq> i \<longrightarrow> sessionID (liveSessions w ! j) = sessionID (liveSessions w ! i)
      \<longrightarrow> sessionDestroyed (liveSessions w ! j)"
    and "sessionStep\<^sup>*\<^sup>* w1 w2"
    and "AhdHTTPSessionStoreOpen class (worldRuntime w2) handle cookies now = Inr (opened, rt)"
  shows "sessionID opened \<noteq> sessionID (liveSessions w ! i)
    \<and> (sessionID opened = '''' \<or> issued w2 (sessionID opened) = Some handle)"
proof -
  let ?ident = "sessionID (liveSessions w ! i)"
  have ok: "worldOk w" using assms(1) by (rule sessionReachable_ok)
  have start: "worldOk w1 \<and> gone w1 ?ident"
    using ok assms(2,3,4) by (auto intro: endStep_ok ended_is_gone)
  have "worldOk w2 \<and> gone w2 ?ident"
    using assms(5) start by (induction rule: rtranclp_induct) (auto intro: sessionStep_ok gone_stays)
  then have w2: "?ident \<notin> snd ` held (worldRuntime w2)"
      "\<And>ident. (handle, ident) \<in> held (worldRuntime w2) \<Longrightarrow> issued w2 ident = Some handle"
    by (auto simp: worldOk_def gone_def)
  have "sessionID opened = '''' \<or> (handle, sessionID opened) \<in> held (worldRuntime w2)"
    using held_Open [OF assms(6)] by auto
  then show ?thesis
  proof
    assume "(handle, sessionID opened) \<in> held (worldRuntime w2)"
    then show ?thesis using w2 by (metis imageI snd_conv)
  qed (use assms(3) in auto)
qed

subsection \<open>An example\<close>

definition exampleID :: string where "exampleID = base64URL (replicate 32 CHR 0x00)"

definition exampleStore :: "(string \<rightharpoonup> ahdHTTPStoredSession) \<Rightarrow> ahdHTTPSessionStoreState" where
  "exampleStore m = \<lparr>storeCookieName = ''sid'', storeMaxAge = 60, storeSecure = False, storeSameSite = ''Lax'',
     storeSessions = m\<rparr>"

definition exampleStores :: "(string \<rightharpoonup> ahdHTTPStoredSession) \<Rightarrow> sessionRuntime" where
  "exampleStores m = \<lparr>sessionStores = [''1'' \<mapsto> exampleStore m], sessionNextID = 1\<rparr>"

definition exampleSession :: "string \<Rightarrow> (string \<times> string) list \<Rightarrow> bool \<Rightarrow> bool \<Rightarrow> ahdHTTPSessionData" where
  "exampleSession ident vs dirty destroyed = \<lparr>sessionStore = ''1'', sessionID = ident, sessionValues = vs,
     sessionDirty = dirty, sessionDestroyed = destroyed\<rparr>"

lemma exampleSession_simps [simp]:
  "sessionID (exampleSession ident vs dirty destroyed) = ident"
  "sessionValues (exampleSession ident vs dirty destroyed) = vs"
  "sessionDirty (exampleSession ident vs dirty destroyed) = dirty"
  "sessionDestroyed (exampleSession ident vs dirty destroyed) = destroyed"
  by (simp_all add: exampleSession_def)

definition committed :: "string \<rightharpoonup> ahdHTTPStoredSession" where
  "committed = [exampleID \<mapsto> \<lparr>storedValues = [(''user'', ''7'')], expiresAt = 60 * 10 ^ 9\<rparr>]"

lemma exampleID_facts: "exampleID \<noteq> ''''" "ahdHTTPMethodToken ''sid''" "ahdHTTPCookieValueOK exampleID"
  "ahdHTTPCookiePathOK ''/''" "FormatInt 1 = ''1''" "ahdHTTPNewSessionID class (Some (replicate 32 CHR 0x00)) = Inr exampleID"
proof -
  show "exampleID \<noteq> ''''" by (simp add: exampleID_def base64URL_nonempty)
  show "ahdHTTPCookieValueOK exampleID" by (simp add: exampleID_def base64URL_ok)
  show "ahdHTTPNewSessionID class (Some (replicate 32 CHR 0x00)) = Inr exampleID"
    by (simp add: ahdHTTPNewSessionID_def exampleID_def)
  show "ahdHTTPMethodToken ''sid''" "ahdHTTPCookiePathOK ''/''" "FormatInt 1 = ''1''" by code_simp+
qed

lemma example_cleanup:
  "cleanupExpired now (exampleStore Map.empty) = exampleStore Map.empty"
  "now < 60 * 10 ^ 9 \<Longrightarrow> cleanupExpired now (exampleStore committed) = exampleStore committed"
  by (auto simp: cleanupExpired_def exampleStore_def committed_def)

lemma example_put [simp]: "putStore (exampleStores m) ''1'' (exampleStore m') = exampleStores m'"
  "sessionStores (exampleStores m) ''1'' = Some (exampleStore m)"
  "(exampleStore m)\<lparr>storeSessions := m'\<rparr> = exampleStore m'" "storeSessions (exampleStore m) = m"
  "storeCookieName (exampleStore m) = ''sid''" "storeMaxAge (exampleStore m) = 60"
  "storeSecure (exampleStore m) = False" "storeSameSite (exampleStore m) = ''Lax''"
  by (simp_all add: putStore_def exampleStores_def exampleStore_def)

lemma committed_session:
  "committed exampleID = Some \<lparr>storedValues = [(''user'', ''7'')], expiresAt = 60 * 10 ^ 9\<rparr>"
  by (simp add: committed_def)

lemma example_create:
  "AhdHTTPSessions ''HTTPError'' \<lparr>sessionStores = Map.empty, sessionNextID = 0\<rparr> ''sid'' 60 False ''Lax''
     = Inr (''1'', exampleStores Map.empty)"
  by (simp add: AhdHTTPSessions_def exampleID_facts sameSiteProblem_def Let_def putStore_def exampleStores_def
      exampleStore_def)

lemma example_open:
  "AhdHTTPSessionStoreOpen ''HTTPError'' (exampleStores Map.empty) ''1'' [] 0
     = Inr (exampleSession '''' [] False False, exampleStores Map.empty)"
  "AhdHTTPSessionStoreOpen ''HTTPError'' (exampleStores committed) ''1'' [(''sid'', exampleID)] 0
     = Inr (exampleSession exampleID [(''user'', ''7'')] False False, exampleStores committed)"
  by (simp_all add: AhdHTTPSessionStoreOpen_def ahdHTTPLookupSessionStore_def example_cleanup Let_def
      committed_session exampleSession_def)

lemma example_set:
  "AhdHTTPSessionSet ''HTTPError'' (exampleSession ident [] False False) ''user'' ''7''
     = Inr (exampleSession ident [(''user'', ''7'')] True False)"
  "AhdHTTPSessionSet ''HTTPError'' (exampleSession ident [(''user'', ''7'')] False False) ''user'' ''7''
     = Inr (exampleSession ident [(''user'', ''7'')] True False)"
  by (simp_all add: AhdHTTPSessionSet_def ahdHTTPRequireMutableSession_def ahdHTTPRequireSessionKey_def
      exampleSession_def byteOf_def)

lemma example_commit:
  assumes "ident = '''' \<and> m = Map.empty \<or> ident = exampleID \<and> m = Map.empty"
  shows "\<exists>response. AhdHTTPSessionStoreCommit ''HTTPError'' (exampleStores m) ''1''
     (exampleSession ident [(''user'', ''7'')] True False) blankResponse 0 (Some (replicate 32 CHR 0x00))
   = (Inr response, exampleStores committed)"
proof -
  have "sessionExpiry (exampleStore Map.empty) 0 = 60 * 10 ^ 9"
    using sessionExpiry_exact [of "exampleStore Map.empty" 0] by (simp add: exampleStore_def)
  then show ?thesis
    using assms exampleID_facts
    by (auto simp: AhdHTTPSessionStoreCommit_def ahdHTTPLookupSessionStore_def exampleSession_def Let_def
        example_cleanup andThen_Inr ahdHTTPRequireCookie_Inr cookieOk_def committed_def)
qed

lemma example_destroy:
  "AhdHTTPSessionDestroy ''HTTPError'' (exampleStores committed) (exampleSession exampleID [(''user'', ''7'')] False False)
     = Inr (exampleSession exampleID [] False True, exampleStores Map.empty)"
  by (simp add: AhdHTTPSessionDestroy_def ahdHTTPRequireMutableSession_def ahdHTTPLookupSessionStore_def
      forgetSession_def exampleSession_def exampleID_facts) (simp add: committed_def)

text \<open>
  The premise on other objects is needed. A program that opened the same request twice can destroy
  one of the two sessions and commit the other: the destroyed identifier is accepted again, although
  the documentation says that it cannot be reused.
\<close>

lemma destroyed_session_comes_back:
  "\<exists>response. AhdHTTPSessionDestroy ''HTTPError'' (exampleStores committed)
       (exampleSession exampleID [(''user'', ''7'')] False False)
     = Inr (exampleSession exampleID [] False True, exampleStores Map.empty)
   \<and> AhdHTTPSessionSet ''HTTPError'' (exampleSession exampleID [(''user'', ''7'')] False False) ''user'' ''7''
     = Inr (exampleSession exampleID [(''user'', ''7'')] True False)
   \<and> AhdHTTPSessionStoreCommit ''HTTPError'' (exampleStores Map.empty) ''1''
       (exampleSession exampleID [(''user'', ''7'')] True False) blankResponse 0 (Some (replicate 32 CHR 0x00))
     = (Inr response, exampleStores committed)
   \<and> AhdHTTPSessionStoreOpen ''HTTPError'' (exampleStores committed) ''1'' [(''sid'', exampleID)] 0
     = Inr (exampleSession exampleID [(''user'', ''7'')] False False, exampleStores committed)"
  using example_destroy example_set(2) example_commit example_open(2) by blast

theorem committed_session_is_read_back_witness:
  "\<exists>response cookie opened w'. AhdHTTPSessionStoreCommit ''HTTPError'' (exampleStores Map.empty) ''1''
      (exampleSession '''' [(''user'', ''7'')] True False) blankResponse 0 (Some (replicate 32 CHR 0x00))
      = (Inr response, exampleStores committed)
    \<and> responseCookies response = [cookie]
    \<and> AhdHTTPSessionStoreOpen ''HTTPError'' (exampleStores committed) ''1''
        [(''theme'', ''dark''), (cookieName cookie, cookieValue cookie)] 59999999999 = Inr (opened, w')
    \<and> sessionValues opened = [(''user'', ''7'')]"
proof -
  obtain response where commit: "AhdHTTPSessionStoreCommit ''HTTPError'' (exampleStores Map.empty) ''1''
      (exampleSession '''' [(''user'', ''7'')] True False) blankResponse 0 (Some (replicate 32 CHR 0x00))
      = (Inr response, exampleStores committed)"
    using example_commit by blast
  from committed_session_is_read_back [OF _ _ _ _ _ commit, of "exampleStore Map.empty"]
  obtain cookie where cookie: "responseCookies response = responseCookies blankResponse @ [cookie]"
    "\<And>others rest later. ''sid'' \<notin> fst ` set others \<Longrightarrow>
      \<exists>opened w''. AhdHTTPSessionStoreOpen ''HTTPError'' (exampleStores committed) ''1''
          (others @ (cookieName cookie, cookieValue cookie) # rest) later = Inr (opened, w'')
        \<and> (if later < 0 + 60 * 10 ^ 9
           then sessionID opened = cookieValue cookie
             \<and> sessionValues opened = sessionValues (exampleSession '''' [(''user'', ''7'')] True False)
           else sessionID opened = '''' \<and> sessionValues opened = [])"
    by auto
  have "responseCookies response = [cookie]" using cookie(1) by (simp add: blankResponse_def)
  with commit cookie(2) [of "[(''theme'', ''dark'')]" "[]" 59999999999] show ?thesis by auto
qed

definition exampleWorld :: sessionWorld where
  "exampleWorld = \<lparr>worldRuntime = exampleStores committed,
     liveSessions = [exampleSession '''' [(''user'', ''7'')] True False,
       exampleSession exampleID [(''user'', ''7'')] False False],
     worldTime = 0, issued = [exampleID \<mapsto> ''1'']\<rparr>"

definition endedWorld :: sessionWorld where
  "endedWorld = exampleWorld\<lparr>worldRuntime := exampleStores Map.empty,
     liveSessions := (liveSessions exampleWorld)[1 := exampleSession exampleID [] False True]\<rparr>"

lemma exampleWorld_reachable: "sessionReachable exampleWorld"
proof -
  let ?w = "\<lambda>rt live ids. \<lparr>worldRuntime = rt, liveSessions = live, worldTime = 0, issued = ids\<rparr>"
  let ?none = "?w \<lparr>sessionStores = Map.empty, sessionNextID = 0\<rparr> [] Map.empty"
  have 0: "sessionReachable ?none" by (rule sessionReachable.intros(1)) simp_all
  have 1: "sessionStep ?none (?w (exampleStores Map.empty) [] Map.empty)"
    using sessionStep.creates [of "''HTTPError''" ?none] example_create by simp
  have 2: "sessionStep (?w (exampleStores Map.empty) [] Map.empty)
      (?w (exampleStores Map.empty) [exampleSession '''' [] False False] Map.empty)"
    using sessionStep.opens [of "''HTTPError''" "?w (exampleStores Map.empty) [] Map.empty"] example_open(1) by simp
  have edited: "editsSession (exampleSession '''' [] False False) (exampleSession '''' [(''user'', ''7'')] True False)"
    unfolding editsSession_def using example_set(1) by blast
  have 3: "sessionStep (?w (exampleStores Map.empty) [exampleSession '''' [] False False] Map.empty)
      (?w (exampleStores Map.empty) [exampleSession '''' [(''user'', ''7'')] True False] Map.empty)"
    using sessionStep.edits [of 0 "?w (exampleStores Map.empty) [exampleSession '''' [] False False] Map.empty"]
      edited by simp
  obtain response where commit: "AhdHTTPSessionStoreCommit ''HTTPError'' (exampleStores Map.empty) ''1''
      (exampleSession '''' [(''user'', ''7'')] True False) blankResponse 0 (Some (replicate 32 CHR 0x00))
      = (Inr response, exampleStores committed)"
    using example_commit by blast
  have 4: "sessionStep (?w (exampleStores Map.empty) [exampleSession '''' [(''user'', ''7'')] True False] Map.empty)
      (?w (exampleStores committed) [exampleSession '''' [(''user'', ''7'')] True False] [exampleID \<mapsto> ''1''])"
    using sessionStep.commits [of 0 "?w (exampleStores Map.empty)
        [exampleSession '''' [(''user'', ''7'')] True False] Map.empty" "replicate 32 CHR 0x00"] commit
    by (simp add: freshBytes_def exampleID_def)
  have 5: "sessionStep (?w (exampleStores committed) [exampleSession '''' [(''user'', ''7'')] True False]
      [exampleID \<mapsto> ''1'']) exampleWorld"
    using sessionStep.opens [of "''HTTPError''" "?w (exampleStores committed)
        [exampleSession '''' [(''user'', ''7'')] True False] [exampleID \<mapsto> ''1'']"] example_open(2)
    by (simp add: exampleWorld_def)
  show ?thesis using 0 1 2 3 4 5 by (meson sessionReachable.intros(2))
qed

theorem ended_sessions_stay_ended_witness:
  "endStep exampleWorld 1 endedWorld \<and> sessionID (liveSessions exampleWorld ! 1) = exampleID
   \<and> sessionID (exampleSession '''' [] False False) \<noteq> exampleID"
proof -
  have ended: "endStep exampleWorld 1 endedWorld"
    using endStep.destroys [of 1 exampleWorld "''HTTPError''"] example_destroy
    by (simp add: exampleWorld_def endedWorld_def)
  have opened: "AhdHTTPSessionStoreOpen ''HTTPError'' (worldRuntime endedWorld) ''1'' [(''sid'', exampleID)] 0
      = Inr (exampleSession '''' [] False False, exampleStores Map.empty)"
    by (simp add: endedWorld_def AhdHTTPSessionStoreOpen_def ahdHTTPLookupSessionStore_def example_cleanup
        exampleSession_def Let_def)
  have live: "sessionID (liveSessions exampleWorld ! 1) = exampleID"
    by (simp add: exampleWorld_def exampleSession_def)
  have "sessionID (exampleSession '''' [] False False) \<noteq> sessionID (liveSessions exampleWorld ! 1)"
    using ended_sessions_stay_ended [OF exampleWorld_reachable ended _ _ rtranclp.rtrancl_refl opened] live
    by (auto simp: exampleID_facts exampleID_facts(1) [symmetric] exampleWorld_def less_Suc_eq)
  with ended live show ?thesis by simp
qed

end
