(* ===== verification/GuiModel.thy ===== *)
theory GuiModel
  imports Json Diagnostics "HOL-Library.Signed_Division"
begin

text \<open>
  The state of a window of the GUI helper, \<open>cmd/ahdgui/model.go\<close> and \<open>cmd/ahdgui/scroll.go\<close>:
  the widget tree, its layout, and what requests of the program and input of the user do to it.
  A \<open>*widget\<close> is the entry of its identifier in \<open>widgets\<close>; a function of the code that changes
  only the widget it is given is a function on \<open>widget\<close>, one that changes the window a function on
  \<open>model\<close>. \<^const>\<open>None\<close> is a nil dereference or a layout that does not end. The lock \<open>mu\<close> is held
  from the beginning to the end of every operation, so an operation is one step.

  The width of a text in the window's font is the field \<open>mMeasure\<close>, as in the code. Of the display
  scale, a \<open>float64\<close>, the code reads only \<open>int(float64(scroll)/max(scale, 1))\<close>, which is the field
  \<open>mScale\<close>; a wheel movement is given in pixels, \<open>int(d * notch)\<close>. Go's division of integers
  truncates, which is \<open>sdiv\<close>. The integers are unbounded: the limits of the protocol bound every size,
  and the coordinates of the user are those of a display.
\<close>

subsection \<open>Runes\<close>

text \<open>\<open>[]rune(s)\<close> and \<open>string(runes)\<close>\<close>

function toRunes :: "string \<Rightarrow> nat list" where
  "toRunes s = (if s = [] then [] else fst (DecodeRune s) # toRunes (drop (snd (DecodeRune s)) s))"
  by pat_completeness auto
termination
  by (relation "measure length") (auto simp: DecodeRune_size_pos)

declare toRunes.simps [simp del]

definition stringOf :: "nat list \<Rightarrow> string" where
  "stringOf runes = concat (map EncodeRune runes)"

definition validText :: "string \<Rightarrow> int \<Rightarrow> bool" where
  "validText s limit = (ValidString s \<and> int (RuneCount s) \<le> limit \<and> CHR 0x00 \<notin> set s)"

definition validAreaText :: "string \<Rightarrow> int \<Rightarrow> bool" where
  "validAreaText s limit = (validText s limit \<and> CHR 0x0D \<notin> set s)"

subsection \<open>Kinds and metrics\<close>

datatype widgetKind =
  kindColumn | kindRow | kindLabel | kindButton | kindTextInput | kindCheckbox | kindPassword
  | kindTextArea | kindListBox | kindSelect | kindTable

fun kindName :: "widgetKind \<Rightarrow> string" where
  "kindName kindColumn = ''column''"
| "kindName kindRow = ''row''"
| "kindName kindLabel = ''label''"
| "kindName kindButton = ''button''"
| "kindName kindTextInput = ''textInput''"
| "kindName kindCheckbox = ''checkbox''"
| "kindName kindPassword = ''passwordInput''"
| "kindName kindTextArea = ''textArea''"
| "kindName kindListBox = ''listBox''"
| "kindName kindSelect = ''select''"
| "kindName kindTable = ''table''"

definition allKinds :: "widgetKind list" where
  "allKinds = [kindColumn, kindRow, kindLabel, kindButton, kindTextInput, kindCheckbox, kindPassword,
     kindTextArea, kindListBox, kindSelect, kindTable]"

definition kindNamed :: "string \<Rightarrow> widgetKind option" where
  "kindNamed name = find (\<lambda>k. kindName k = name) allKinds"

definition rowHeight :: int where "rowHeight = 32"
definition buttonPadding :: int where "buttonPadding = 14"
definition minButtonWidth :: int where "minButtonWidth = 64"
definition textInputWidth :: int where "textInputWidth = 260"
definition textInputInset :: int where "textInputInset = 8"
definition checkboxBox :: int where "checkboxBox = 18"
definition checkboxGap :: int where "checkboxGap = 8"
definition windowMargin :: int where "windowMargin = 0"
definition itemHeight :: int where "itemHeight = 24"
definition headerHeight :: int where "headerHeight = 28"
definition lineHeight :: int where "lineHeight = 20"
definition itemInset :: int where "itemInset = 8"
definition scrollbar :: int where "scrollbar = 10"
definition listBoxWidth :: int where "listBoxWidth = 260"
definition listBoxRows :: int where "listBoxRows = 6"
definition textAreaWidth :: int where "textAreaWidth = 360"
definition textAreaLines :: int where "textAreaLines = 6"
definition tableRows :: int where "tableRows = 8"
definition tableMinWidth :: int where "tableMinWidth = 200"
definition tableMaxWidth :: int where "tableMaxWidth = 640"
definition minColumnWidth :: int where "minColumnWidth = 48"
definition maxColumnWidth :: int where "maxColumnWidth = 320"
definition measuredRows :: nat where "measuredRows = 1000"
definition selectVisible :: int where "selectVisible = 8"
definition selectMinWidth :: int where "selectMinWidth = 200"
definition selectMaxWidth :: int where "selectMaxWidth = 480"
definition selectArrow :: int where "selectArrow = 28"
definition pageItems :: int where "pageItems = 6"

lemmas metrics = rowHeight_def buttonPadding_def minButtonWidth_def textInputWidth_def textInputInset_def
  checkboxBox_def checkboxGap_def windowMargin_def itemHeight_def headerHeight_def lineHeight_def
  itemInset_def scrollbar_def listBoxWidth_def listBoxRows_def textAreaWidth_def textAreaLines_def
  tableRows_def tableMinWidth_def tableMaxWidth_def minColumnWidth_def maxColumnWidth_def
  selectVisible_def selectMinWidth_def selectMaxWidth_def selectArrow_def

definition maxDimension :: int where "maxDimension = 4096"
definition maxTextRunes :: int where "maxTextRunes = 4096"
definition maxWidgets :: int where "maxWidgets = 1024"
definition maxSpacing :: int where "maxSpacing = 1000"
definition maxAreaRunes :: int where "maxAreaRunes = 100000"
definition maxItems :: int where "maxItems = 20000"
definition maxItemRunes :: int where "maxItemRunes = 1024"
definition maxColumns :: int where "maxColumns = 64"
definition maxRows :: int where "maxRows = 20000"
definition maxCells :: int where "maxCells = 200000"
definition maxCellRunes :: int where "maxCellRunes = 1024"

lemmas limits = maxDimension_def maxTextRunes_def maxWidgets_def maxSpacing_def
  maxAreaRunes_def maxItems_def maxItemRunes_def maxColumns_def maxRows_def
  maxCells_def maxCellRunes_def

subsection \<open>State\<close>

type_synonym NRGBA = "8 word \<times> 8 word \<times> 8 word \<times> 8 word"

record widget =
  wId :: int
  wKind :: widgetKind
  wParent :: int
  wChildren :: "int list"
  wText :: "nat list"
  wPlaceholder :: string
  wChecked :: bool
  wSpacing :: int
  wPadding :: int
  wCaret :: int
  wScroll :: int
  wItems :: "string list"
  wColumns :: "string list"
  wRows :: "string list list"
  wWidths :: "int list"
  wSelected :: int
  wScrollX :: int
  wScrollY :: int
  wHighlight :: int
  wListScroll :: int
  wForeground :: "NRGBA option"
  wBackground :: "NRGBA option"
  wDisabled :: bool
  wX :: int
  wY :: int
  wW :: int
  wH :: int
  wNatW :: int
  wNatH :: int
  wGrows :: bool

definition container :: "widget \<Rightarrow> bool" where
  "container w = (wKind w = kindColumn \<or> wKind w = kindRow)"

definition textField :: "widget \<Rightarrow> bool" where
  "textField w = (wKind w = kindTextInput \<or> wKind w = kindPassword)"

definition scrolling :: "widget \<Rightarrow> bool" where
  "scrolling w = (wKind w = kindListBox \<or> wKind w = kindTable \<or> wKind w = kindTextArea)"

definition interactive :: "widget \<Rightarrow> bool" where
  "interactive w = (wKind w \<in> {kindButton, kindTextInput, kindCheckbox, kindPassword, kindTextArea,
     kindListBox, kindSelect, kindTable})"

definition focusable :: "widget \<Rightarrow> bool" where
  "focusable w = (interactive w \<and> \<not> wDisabled w)"

definition countOf :: "widget \<Rightarrow> int" where
  "countOf w = (if wKind w = kindTable then int (length (wRows w)) else int (length (wItems w)))"

record popupBox =
  pX :: int
  pY :: int
  pW :: int
  pH :: int

record model =
  mTitle :: string
  mWidth :: int
  mHeight :: int
  mWidgets :: "int \<Rightarrow> widget option"
  mOrder :: "int list"
  mRoot :: int
  mNext :: int
  mFocus :: int
  mPressed :: int
  mDirty :: bool
  mMeasure :: "string \<Rightarrow> int"
  mBackground :: "NRGBA option"
  mResizable :: bool
  mScale :: "int \<Rightarrow> int"
  mPopup :: int
  mList :: popupBox
  mDragging :: int
  mGrabY :: int
  mChanges :: "int list"

definition newModel :: "string \<Rightarrow> int \<Rightarrow> int \<Rightarrow> (string \<Rightarrow> int) \<Rightarrow> model" where
  "newModel title width height measureText =
    \<lparr>mTitle = title, mWidth = width, mHeight = height, mWidgets = Map.empty, mOrder = [], mRoot = 0,
     mNext = 0, mFocus = 0, mPressed = 0, mDirty = True, mMeasure = measureText, mBackground = None,
     mResizable = False, mScale = (\<lambda>s. s), mPopup = 0,
     mList = \<lparr>pX = 0, pY = 0, pW = 0, pH = 0\<rparr>, mDragging = 0, mGrabY = 0, mChanges = []\<rparr>"

text \<open>An assignment through the pointer to a widget.\<close>

definition updateW :: "int \<Rightarrow> (widget \<Rightarrow> widget) \<Rightarrow> model \<Rightarrow> model" where
  "updateW i f m = m\<lparr>mWidgets := (mWidgets m)(i := map_option f (mWidgets m i))\<rparr>"

definition dirtied :: "model \<Rightarrow> model" where
  "dirtied m = m\<lparr>mDirty := True\<rparr>"

subsection \<open>Viewports and scroll bars\<close>

record viewport =
  vX :: int
  vY :: int
  vW :: int
  vH :: int
  vContentW :: int
  vContentH :: int
  vVertical :: bool
  vHorizontalScroll :: bool

text \<open>\<open>areaLines\<close>: the lines of a text, and \<open>areaPosition\<close>, \<open>areaOffset\<close>: the caret as line and
  column and back.\<close>

definition newlineRune :: nat where "newlineRune = 10"

fun areaLinesFrom :: "nat list list \<Rightarrow> nat list \<Rightarrow> nat list \<Rightarrow> nat list list" where
  "areaLinesFrom lines current [] = lines @ [current]"
| "areaLinesFrom lines current (c # cs) =
    (if c = newlineRune then areaLinesFrom (lines @ [current]) [] cs
     else areaLinesFrom lines (current @ [c]) cs)"

definition areaLines :: "nat list \<Rightarrow> nat list list" where
  "areaLines runes = areaLinesFrom [] [] runes"

fun areaPositionFrom :: "int \<times> int \<Rightarrow> nat list \<Rightarrow> int \<times> int" where
  "areaPositionFrom (line, column) [] = (line, column)"
| "areaPositionFrom (line, column) (c # cs) =
    areaPositionFrom (if c = newlineRune then (line + 1, 0) else (line, column + 1)) cs"

definition areaPosition :: "nat list \<Rightarrow> int \<Rightarrow> int \<times> int" where
  "areaPosition runes caret = areaPositionFrom (0, 0) (take (nat caret) runes)"

definition areaOffset :: "nat list \<Rightarrow> int \<Rightarrow> int \<Rightarrow> int" where
  "areaOffset runes line0 column =
    (let lines = areaLines runes;
         line = min (max line0 0) (int (length lines) - 1);
         offset = sum_list (map (\<lambda>l. int (length l) + 1) (take (nat line) lines))
     in offset + min (max column 0) (int (length (lines ! nat line))))"

definition viewportOf :: "widget \<Rightarrow> viewport" where
  "viewportOf target =
    (let finish = (\<lambda>v0.
           let v1 = v0\<lparr>vW := max (vW v0) 0, vH := max (vH v0) 0\<rparr>;
               v2 = v1\<lparr>vVertical := (vContentH v1 > vH v1)\<rparr>;
               v3 = (if vVertical v2 then v2\<lparr>vW := max (vW v2 - scrollbar) 0\<rparr> else v2)
           in v3\<lparr>vHorizontalScroll := (vContentW v3 > vW v3)\<rparr>)
     in case wKind target of
       kindListBox \<Rightarrow> finish \<lparr>vX = wX target + 1, vY = wY target + 1, vW = wW target - 2, vH = wH target - 2,
         vContentW = wW target - 2, vContentH = int (length (wItems target)) * itemHeight,
         vVertical = False, vHorizontalScroll = False\<rparr>
     | kindTable \<Rightarrow> finish \<lparr>vX = wX target + 1, vY = wY target + 1 + headerHeight, vW = wW target - 2,
         vH = wH target - 2 - headerHeight, vContentW = sum_list (wWidths target),
         vContentH = int (length (wRows target)) * itemHeight, vVertical = False, vHorizontalScroll = False\<rparr>
     | kindTextArea \<Rightarrow> finish \<lparr>vX = wX target + textInputInset, vY = wY target + textInputInset,
         vW = wW target - 2 * textInputInset, vH = wH target - 2 * textInputInset,
         vContentW = wW target - 2 * textInputInset,
         vContentH = int (length (areaLines (wText target))) * lineHeight,
         vVertical = False, vHorizontalScroll = False\<rparr>
     | _ \<Rightarrow> \<lparr>vX = 0, vY = 0, vW = 0, vH = 0, vContentW = 0, vContentH = 0, vVertical = False,
         vHorizontalScroll = False\<rparr>)"

definition clampScroll :: "widget \<Rightarrow> widget" where
  "clampScroll target =
    (if \<not> scrolling target then target
     else (let v = viewportOf target;
               t1 = target\<lparr>wScrollY := min (max (wScrollY target) 0) (max (vContentH v - vH v) 0)\<rparr>
           in if wKind target = kindTable
              then t1\<lparr>wScrollX := min (max (wScrollX t1) 0) (max (vContentW v - vW v) 0)\<rparr>
              else t1))"

definition reveal :: "widget \<Rightarrow> widget" where
  "reveal target =
    (if wKind target \<noteq> kindListBox \<and> wKind target \<noteq> kindTable then target
     else clampScroll
       (if wSelected target \<ge> 0
        then (let v = viewportOf target;
                  top = wSelected target * itemHeight;
                  t1 = (if top < wScrollY target then target\<lparr>wScrollY := top\<rparr> else target)
              in if top + itemHeight > wScrollY t1 + vH v
                 then t1\<lparr>wScrollY := top + itemHeight - vH v\<rparr> else t1)
        else target))"

definition revealCaret :: "widget \<Rightarrow> widget" where
  "revealCaret target =
    (if wKind target \<noteq> kindTextArea then target
     else (let line = fst (areaPosition (wText target) (wCaret target));
               v = viewportOf target;
               top = line * lineHeight;
               t1 = (if top < wScrollY target then target\<lparr>wScrollY := top\<rparr> else target);
               t2 = (if top + lineHeight > wScrollY t1 + vH v
                     then t1\<lparr>wScrollY := top + lineHeight - vH v\<rparr> else t1)
           in clampScroll t2))"

definition thumb :: "viewport \<Rightarrow> int \<Rightarrow> int \<times> int" where
  "thumb v scrollY =
    (let height = min (max ((vH v * vH v) sdiv max (vContentH v) 1) 16) (vH v);
         travel = vH v - height;
         span' = vContentH v - vH v;
         top = (if span' > 0 then (travel * scrollY) sdiv span' else 0)
     in (vY v + top, height))"

definition rowAt :: "widget \<Rightarrow> int \<Rightarrow> int" where
  "rowAt target y =
    (let v = viewportOf target
     in if y < vY v \<or> y \<ge> vY v + vH v then -1
        else (let row = (y - vY v + wScrollY target) sdiv itemHeight
              in if row \<ge> countOf target then -1 else row))"

subsection \<open>The open list of a Select\<close>

definition visibleChoices :: "widget \<Rightarrow> int" where
  "visibleChoices target = min (max (int (length (wItems target))) 1) selectVisible"

definition clampPopup :: "widget \<Rightarrow> widget" where
  "clampPopup target =
    target\<lparr>wListScroll := min (max (wListScroll target) 0)
       (max (int (length (wItems target)) - visibleChoices target) 0 * itemHeight)\<rparr>"

definition revealPopup :: "widget \<Rightarrow> widget" where
  "revealPopup target =
    (if wHighlight target < 0 then target
     else (let visible = visibleChoices target;
               top = wHighlight target * itemHeight;
               t1 = (if top < wListScroll target then target\<lparr>wListScroll := top\<rparr> else target);
               t2 = (if top + itemHeight > wListScroll t1 + visible * itemHeight
                     then t1\<lparr>wListScroll := top + itemHeight - visible * itemHeight\<rparr> else t1)
           in clampPopup t2))"

text \<open>\<open>placePopup\<close>: where the list of a Select goes, below it or, for want of room, above.\<close>

definition popupPlace :: "model \<Rightarrow> widget \<Rightarrow> popupBox" where
  "popupPlace m target =
    (let height = visibleChoices target * itemHeight + 2;
         y = wY target + wH target
     in \<lparr>pX = wX target,
         pY = (if y + height > mHeight m \<and> wY target - height \<ge> 0 then wY target - height else y),
         pW = wW target, pH = height\<rparr>)"

definition placePopup :: "model \<Rightarrow> int \<Rightarrow> model option" where
  "placePopup m i = (case mWidgets m i of
      None \<Rightarrow> None
    | Some target \<Rightarrow> Some (updateW i clampPopup (m\<lparr>mList := popupPlace m target\<rparr>)))"

definition inPopup :: "model \<Rightarrow> int \<Rightarrow> int \<Rightarrow> bool" where
  "inPopup m x y = (x \<ge> pX (mList m) \<and> y \<ge> pY (mList m) \<and> x < pX (mList m) + pW (mList m)
     \<and> y < pY (mList m) + pH (mList m))"

definition popupChoiceAt :: "model \<Rightarrow> int \<Rightarrow> int option" where
  "popupChoiceAt m y = (case mWidgets m (mPopup m) of
      None \<Rightarrow> None
    | Some target \<Rightarrow>
        (let choice = (y - pY (mList m) - 1 + wListScroll target) sdiv itemHeight
         in Some (if y < pY (mList m) + 1 \<or> choice \<ge> int (length (wItems target)) then -1 else choice)))"

definition closePopup :: "model \<Rightarrow> model" where
  "closePopup m = dirtied ((updateW (mPopup m) (wHighlight_update (\<lambda>_. -1)) m)\<lparr>mPopup := 0\<rparr>)"

definition openPopup :: "model \<Rightarrow> int \<Rightarrow> model option" where
  "openPopup m i = (case mWidgets m i of
      None \<Rightarrow> None
    | Some target \<Rightarrow>
        if wDisabled target then Some m
        else do {
          m1 \<leftarrow> placePopup (updateW i (\<lambda>w. w\<lparr>wHighlight := wSelected w, wListScroll := 0\<rparr>)
                 (m\<lparr>mPopup := wId target\<rparr>)) i;
          Some (dirtied (updateW i revealPopup m1))
        })"

subsection \<open>Requests of the program\<close>

definition errSecondRoot :: string where "errSecondRoot = ''the Window already has its root Container''"
definition errNoParent :: string where "errNoParent = ''the parent Container does not exist''"
definition errNotContainer :: string where "errNotContainer = ''the parent is not a Container''"
definition errTooMany :: string where "errTooMany = ''the Window has too many widgets''"
definition errNoWidget :: string where "errNoWidget = ''the widget does not exist''"
definition errWrongKind :: string where "errWrongKind = ''the widget does not support that request''"
definition errIndex :: string where "errIndex = ''the index is outside the items''"

record widgetSpec =
  sKind :: string
  sText :: string
  sPlaceholder :: string
  sChecked :: bool
  sSpacing :: int
  sPadding :: int
  sItems :: "string list"
  sColumns :: "string list"
  sRows :: "string list list"
  sSelected :: int

definition checkItems :: "string list \<Rightarrow> string option" where
  "checkItems items =
    (if int (length items) > maxItems then Some ''too many items''
     else if \<not> list_all (\<lambda>item. validText item maxItemRunes) items then Some ''invalid item text''
     else None)"

fun checkTableRows :: "nat \<Rightarrow> string list list \<Rightarrow> string option" where
  "checkTableRows width [] = None"
| "checkTableRows width (row # rows) =
    (if length row \<noteq> width then Some ''every row needs one cell per column''
     else if \<not> list_all (\<lambda>cell. validText cell maxCellRunes) row then Some ''invalid cell text''
     else checkTableRows width rows)"

definition checkTable :: "string list \<Rightarrow> string list list \<Rightarrow> string option" where
  "checkTable columns rows =
    (if length columns = 0 \<or> int (length columns) > maxColumns
     then Some ''a TableView needs between 1 and 64 columns''
     else if int (length rows) > maxRows \<or> int (length rows * length columns) > maxCells
     then Some ''too many rows''
     else if \<not> list_all (\<lambda>column. validText column maxCellRunes) columns
     then Some ''invalid column text''
     else checkTableRows (length columns) rows)"

text \<open>\<open>columnWidths\<close>: the widest of the header and the first cells, within bounds. A row that is
  longer than the header would panic in the code; \<open>checkTable\<close> has refused it before.\<close>

definition widenRow :: "(string \<Rightarrow> int) \<Rightarrow> int list \<Rightarrow> string list \<Rightarrow> int list" where
  "widenRow measureText widths row =
    map (\<lambda>(width, cell). if length cell > 0 then max width (measureText cell) else width) (zip widths row)
    @ drop (length row) widths"

definition columnWidths :: "(string \<Rightarrow> int) \<Rightarrow> string list \<Rightarrow> string list list \<Rightarrow> int list" where
  "columnWidths measureText columns rows =
    map (\<lambda>width. min (max (width + 2 * itemInset) minColumnWidth) maxColumnWidth)
      (fold (\<lambda>row widths. widenRow measureText widths row) (take measuredRows rows)
        (map measureText columns))"

definition freshWidget :: "widgetKind \<Rightarrow> int \<Rightarrow> widgetSpec \<Rightarrow> widget" where
  "freshWidget kind parent s =
    \<lparr>wId = 0, wKind = kind, wParent = parent, wChildren = [], wText = toRunes (sText s),
     wPlaceholder = sPlaceholder s, wChecked = sChecked s, wSpacing = sSpacing s, wPadding = sPadding s,
     wCaret = 0, wScroll = 0, wItems = [], wColumns = [], wRows = [], wWidths = [], wSelected = -1,
     wScrollX = 0, wScrollY = 0, wHighlight = -1, wListScroll = 0, wForeground = None,
     wBackground = None, wDisabled = False, wX = 0, wY = 0, wW = 0, wH = 0, wNatW = 0, wNatH = 0,
     wGrows = False\<rparr>"

text \<open>The checks of \<open>addSpec\<close> before the widget exists, and the widget.\<close>

definition checkSpec :: "widgetKind \<Rightarrow> widgetSpec \<Rightarrow> string option" where
  "checkSpec kind s =
    (let valid = (if kind = kindTextArea then validAreaText (sText s) maxAreaRunes
                  else validText (sText s) maxTextRunes)
     in if \<not> valid \<or> \<not> validText (sPlaceholder s) maxTextRunes then Some ''invalid widget text''
        else if sSpacing s < 0 \<or> sPadding s < 0 \<or> sSpacing s > maxSpacing \<or> sPadding s > maxSpacing
        then Some ''spacing and padding must be between 0 and 1000''
        else (case checkItems (sItems s) of
                Some e \<Rightarrow> Some e
              | None \<Rightarrow> if kind = kindTable then checkTable (sColumns s) (sRows s) else None))"

definition createWidget :: "model \<Rightarrow> widgetKind \<Rightarrow> int \<Rightarrow> widgetSpec \<Rightarrow> string + widget" where
  "createWidget m kind parent s =
    (let created = freshWidget kind parent s
     in if kind = kindListBox \<or> kind = kindSelect
        then (if sSelected s < -1 \<or> sSelected s \<ge> int (length (sItems s)) then Inl errIndex
              else Inr (created\<lparr>wItems := sItems s, wSelected := sSelected s\<rparr>))
        else if kind = kindTable
        then Inr (created\<lparr>wColumns := sColumns s, wRows := sRows s,
               wWidths := columnWidths (mMeasure m) (sColumns s) (sRows s)\<rparr>)
        else Inr created)"

definition checkParent :: "model \<Rightarrow> int \<Rightarrow> widget \<Rightarrow> string option" where
  "checkParent m parent created =
    (if parent = 0
     then (if mRoot m \<noteq> 0 then Some errSecondRoot
           else if \<not> container created then Some errNotContainer else None)
     else (case mWidgets m parent of
             None \<Rightarrow> Some errNoParent
           | Some owner \<Rightarrow> if \<not> container owner then Some errNotContainer else None))"

definition attach :: "model \<Rightarrow> int \<Rightarrow> widget \<Rightarrow> int \<times> model" where
  "attach m parent created =
    (let i = mNext m + 1;
         m1 = m\<lparr>mNext := i,
                mWidgets := (mWidgets m)(i \<mapsto> created\<lparr>wId := i, wCaret := int (length (wText created))\<rparr>),
                mOrder := mOrder m @ [i]\<rparr>;
         m2 = (if parent = 0 then m1\<lparr>mRoot := i\<rparr>
               else updateW parent (\<lambda>w. w\<lparr>wChildren := wChildren w @ [i]\<rparr>) m1)
     in (i, dirtied m2))"

text \<open>\<open>len(m.widgets)\<close> is the length of \<open>order\<close>: both grow only here, by the new identifier
  (\<open>widgets_are_counted\<close>).\<close>

definition addSpec :: "model \<Rightarrow> int \<Rightarrow> widgetSpec \<Rightarrow> string + (int \<times> model)" where
  "addSpec m parent s =
    (if int (length (mOrder m)) \<ge> maxWidgets then Inl errTooMany
     else (case kindNamed (sKind s) of
       None \<Rightarrow> Inl (''unknown widget kind '' @ sKind s)
     | Some kind \<Rightarrow>
         (case checkSpec kind s of
            Some e \<Rightarrow> Inl e
          | None \<Rightarrow> (case createWidget m kind parent s of
                Inl e \<Rightarrow> Inl e
              | Inr created \<Rightarrow> (case checkParent m parent created of
                    Some e \<Rightarrow> Inl e
                  | None \<Rightarrow> Inr (attach m parent created))))))"

definition setText :: "model \<Rightarrow> int \<Rightarrow> string \<Rightarrow> string + model" where
  "setText m i s = (case mWidgets m i of
      None \<Rightarrow> Inl errNoWidget
    | Some target \<Rightarrow>
        (let valid = (if wKind target \<in> {kindLabel, kindButton, kindCheckbox, kindTextInput, kindPassword}
                      then (if validText s maxTextRunes then None else Some ''invalid widget text'')
                      else if wKind target = kindTextArea
                      then (if validAreaText s maxAreaRunes then None else Some ''invalid widget text'')
                      else Some errWrongKind)
         in case valid of
              Some e \<Rightarrow> Inl e
            | None \<Rightarrow> Inr (dirtied (updateW i
                (\<lambda>w. w\<lparr>wText := toRunes s, wCaret := int (length (toRunes s)), wScroll := 0, wScrollY := 0\<rparr>) m))))"

definition setChecked :: "model \<Rightarrow> int \<Rightarrow> bool \<Rightarrow> string + model" where
  "setChecked m i b = (case mWidgets m i of
      None \<Rightarrow> Inl errNoWidget
    | Some target \<Rightarrow>
        if wKind target \<noteq> kindCheckbox then Inl errWrongKind
        else Inr (dirtied (updateW i (wChecked_update (\<lambda>_. b)) m)))"

definition afterReplace :: "int \<Rightarrow> model \<Rightarrow> model" where
  "afterReplace i m =
    (let m1 = updateW i (\<lambda>w. w\<lparr>wSelected := (if wSelected w \<ge> countOf w then -1 else wSelected w),
                wHighlight := -1\<rparr>) m;
         m2 = (if mPopup m1 = i then closePopup m1 else m1)
     in dirtied (updateW i clampScroll m2))"

definition setItems :: "model \<Rightarrow> int \<Rightarrow> string list \<Rightarrow> string + model" where
  "setItems m i items = (case mWidgets m i of
      None \<Rightarrow> Inl errNoWidget
    | Some target \<Rightarrow>
        if wKind target \<noteq> kindListBox \<and> wKind target \<noteq> kindSelect then Inl errWrongKind
        else (case checkItems items of
                Some e \<Rightarrow> Inl e
              | None \<Rightarrow> Inr (afterReplace i (updateW i (wItems_update (\<lambda>_. items)) m))))"

definition setRows :: "model \<Rightarrow> int \<Rightarrow> string list list \<Rightarrow> string + model" where
  "setRows m i rows = (case mWidgets m i of
      None \<Rightarrow> Inl errNoWidget
    | Some target \<Rightarrow>
        if wKind target \<noteq> kindTable then Inl errWrongKind
        else (case checkTable (wColumns target) rows of
                Some e \<Rightarrow> Inl e
              | None \<Rightarrow> Inr (afterReplace i (updateW i
                  (\<lambda>w. w\<lparr>wRows := rows, wWidths := columnWidths (mMeasure m) (wColumns w) rows\<rparr>) m))))"

definition selectIndex :: "model \<Rightarrow> int \<Rightarrow> int \<Rightarrow> string + model" where
  "selectIndex m i index = (case mWidgets m i of
      None \<Rightarrow> Inl errNoWidget
    | Some target \<Rightarrow>
        if wKind target \<noteq> kindListBox \<and> wKind target \<noteq> kindSelect \<and> wKind target \<noteq> kindTable
        then Inl errWrongKind
        else if index < -1 \<or> index \<ge> countOf target then Inl errIndex
        else Inr (dirtied (updateW i (\<lambda>w. reveal (w\<lparr>wSelected := index\<rparr>)) m)))"

definition readAll :: "model \<Rightarrow> int \<Rightarrow> string + (string \<times> bool \<times> int)" where
  "readAll m i = (case mWidgets m i of
      None \<Rightarrow> Inl errNoWidget
    | Some target \<Rightarrow> Inr (stringOf (wText target), wChecked target, wSelected target))"

record reading =
  rWidget :: int
  rText :: string
  rChecked :: bool
  rSelected :: "int option"

definition valueOf :: "widget \<Rightarrow> reading option" where
  "valueOf target =
    (if wKind target \<in> {kindTextInput, kindPassword, kindTextArea}
     then Some \<lparr>rWidget = wId target, rText = stringOf (wText target), rChecked = False, rSelected = None\<rparr>
     else if wKind target = kindCheckbox
     then Some \<lparr>rWidget = wId target, rText = [], rChecked = wChecked target, rSelected = None\<rparr>
     else if wKind target \<in> {kindListBox, kindSelect, kindTable}
     then Some \<lparr>rWidget = wId target, rText = [], rChecked = False, rSelected = Some (wSelected target)\<rparr>
     else None)"

definition valuesOf :: "model \<Rightarrow> reading list" where
  "valuesOf m = List.map_filter (\<lambda>i. Option.bind (mWidgets m i) valueOf) (mOrder m)"

definition valueNow :: "model \<Rightarrow> int \<Rightarrow> reading option" where
  "valueNow m i = Option.bind (mWidgets m i) valueOf"

definition noteChange :: "int \<Rightarrow> model \<Rightarrow> model" where
  "noteChange i m = (if i \<in> set (mChanges m) then m else m\<lparr>mChanges := mChanges m @ [i]\<rparr>)"

definition takeChanges :: "model \<Rightarrow> int list \<times> model" where
  "takeChanges m = (mChanges m, m\<lparr>mChanges := []\<rparr>)"

definition partForeground :: string where "partForeground = ''foreground''"
definition partBackground :: string where "partBackground = ''background''"

definition setColor :: "model \<Rightarrow> int \<Rightarrow> string \<Rightarrow> NRGBA \<Rightarrow> string + model" where
  "setColor m i part color =
    (if part \<noteq> partForeground \<and> part \<noteq> partBackground then Inl (''unknown color part '' @ part)
     else if i = 0
     then (if part \<noteq> partBackground then Inl errWrongKind
           else Inr (dirtied (m\<lparr>mBackground := Some color\<rparr>)))
     else (case mWidgets m i of
             None \<Rightarrow> Inl errNoWidget
           | Some target \<Rightarrow>
               if container target \<and> part \<noteq> partBackground then Inl errWrongKind
               else Inr (dirtied (updateW i (if part = partForeground then wForeground_update (\<lambda>_. Some color)
                      else wBackground_update (\<lambda>_. Some color)) m))))"

definition setEnabled :: "model \<Rightarrow> int \<Rightarrow> bool \<Rightarrow> string + model" where
  "setEnabled m i enabled = (case mWidgets m i of
      None \<Rightarrow> Inl errNoWidget
    | Some target \<Rightarrow>
        if \<not> interactive target then Inl errWrongKind
        else (let m1 = updateW i (wDisabled_update (\<lambda>_. \<not> enabled)) m;
                  m2 = (if enabled then m1
                        else (let a = (if mFocus m1 = i then m1\<lparr>mFocus := 0\<rparr> else m1);
                                  b = (if mPressed a = i then a\<lparr>mPressed := 0\<rparr> else a);
                                  c = (if mPopup b = i then closePopup b else b)
                              in if mDragging c = i then c\<lparr>mDragging := 0\<rparr> else c))
              in Inr (dirtied m2)))"

definition enabledWidget :: "model \<Rightarrow> int \<Rightarrow> bool" where
  "enabledWidget m i = (case mWidgets m i of None \<Rightarrow> False | Some target \<Rightarrow> \<not> wDisabled target)"

definition setTitle :: "string \<Rightarrow> model \<Rightarrow> model" where
  "setTitle title m = m\<lparr>mTitle := title\<rparr>"

definition setResizable :: "bool \<Rightarrow> model \<Rightarrow> model" where
  "setResizable b m = m\<lparr>mResizable := b\<rparr>"

definition resizeWindow :: "int \<Rightarrow> int \<Rightarrow> model \<Rightarrow> model" where
  "resizeWindow width0 height0 m =
    (let width = min (max width0 1) maxDimension; height = min (max height0 1) maxDimension
     in if width \<noteq> mWidth m \<or> height \<noteq> mHeight m
        then dirtied (closePopup (m\<lparr>mWidth := width, mHeight := height\<rparr>)) else m)"

subsection \<open>Layout\<close>

text \<open>The natural size of a leaf, and whether it grows.\<close>

definition naturalLeaf :: "model \<Rightarrow> widget \<Rightarrow> int \<times> int" where
  "naturalLeaf m target = (case wKind target of
      kindLabel \<Rightarrow> (mMeasure m (stringOf (wText target)), rowHeight)
    | kindButton \<Rightarrow> (max (mMeasure m (stringOf (wText target)) + 2 * buttonPadding) minButtonWidth, rowHeight)
    | kindTextInput \<Rightarrow> (textInputWidth, rowHeight)
    | kindPassword \<Rightarrow> (textInputWidth, rowHeight)
    | kindCheckbox \<Rightarrow> (checkboxBox + checkboxGap + mMeasure m (stringOf (wText target)), rowHeight)
    | kindTextArea \<Rightarrow> (textAreaWidth, textAreaLines * lineHeight + 2 * textInputInset)
    | kindListBox \<Rightarrow> (listBoxWidth, listBoxRows * itemHeight + 2)
    | kindSelect \<Rightarrow>
        (let widest = fold (\<lambda>item widest. max widest (mMeasure m item)) (take measuredRows (wItems target))
               (mMeasure m (wPlaceholder target))
         in (min (max (widest + 2 * itemInset + selectArrow) selectMinWidth) selectMaxWidth, rowHeight))
    | kindTable \<Rightarrow>
        (min (max (sum_list (wWidths target) + 2 + scrollbar) tableMinWidth) tableMaxWidth,
         headerHeight + tableRows * itemHeight + 2)
    | _ \<Rightarrow> (0, 0))"

text \<open>The loop over the children of a container: the model, the extent so far, whether a child
  grows, and whether the next child is the first.\<close>

primrec measureChildren ::
  "(model \<Rightarrow> int \<Rightarrow> model option) \<Rightarrow> bool \<Rightarrow> int \<Rightarrow> int list \<Rightarrow> bool
   \<Rightarrow> model \<times> int \<times> int \<times> bool \<Rightarrow> (model \<times> int \<times> int \<times> bool) option" where
  "measureChildren measureOne column spacing [] first acc = Some acc"
| "measureChildren measureOne column spacing (c # cs) first acc = (case acc of (m, width, height, grows) \<Rightarrow>
     do {
       m' \<leftarrow> measureOne m c;
       child \<leftarrow> mWidgets m' c;
       let gap = (if first then 0 else spacing);
       measureChildren measureOne column spacing cs False
         (if column then (m', max width (wNatW child), height + gap + wNatH child, grows \<or> wGrows child)
          else (m', width + gap + wNatW child, max height (wNatH child), grows \<or> wGrows child))
     })"

primrec measureWidget :: "nat \<Rightarrow> model \<Rightarrow> int \<Rightarrow> model option" where
  "measureWidget 0 m i = None"
| "measureWidget (Suc fuel) m i = (case mWidgets m i of
      None \<Rightarrow> None
    | Some target \<Rightarrow>
        if container target
        then do {
          (m', width, height, grows) \<leftarrow> measureChildren (measureWidget fuel) (wKind target = kindColumn)
             (wSpacing target) (wChildren target) True (m, 0, 0, scrolling target);
          Some (updateW i (\<lambda>w. w\<lparr>wNatW := width + 2 * wPadding target,
            wNatH := height + 2 * wPadding target, wGrows := grows\<rparr>) m')
        }
        else (case naturalLeaf m target of (width, height) \<Rightarrow>
          Some (updateW i (\<lambda>w. w\<lparr>wNatW := width, wNatH := height, wGrows := scrolling target\<rparr>) m)))"

text \<open>What the children of a container use of it: how many grow, and their extent with the gaps.\<close>

primrec usedBy :: "model \<Rightarrow> bool \<Rightarrow> int \<Rightarrow> int list \<Rightarrow> bool \<Rightarrow> int \<times> int \<Rightarrow> (int \<times> int) option" where
  "usedBy m column spacing [] first acc = Some acc"
| "usedBy m column spacing (c # cs) first acc = (case acc of (growing, used) \<Rightarrow>
     do {
       child \<leftarrow> mWidgets m c;
       usedBy m column spacing cs False
         (growing + (if wGrows child then 1 else 0),
          used + (if first then 0 else spacing) + (if column then wNatH child else wNatW child))
     })"

definition shareOf :: "int \<Rightarrow> int \<Rightarrow> int \<Rightarrow> int" where
  "shareOf extra growing index =
    (if growing = 0 then 0 else extra sdiv growing + (if index < extra smod growing then 1 else 0))"

text \<open>The size of a child inside a container of inner size \<open>innerW\<close>, \<open>innerH\<close>.\<close>

definition childSize :: "bool \<Rightarrow> int \<Rightarrow> int \<Rightarrow> int \<Rightarrow> widget \<Rightarrow> int \<times> int" where
  "childSize column innerW innerH share child =
    (if wGrows child
     then (if column then (max (wNatW child) innerW, wNatH child + share)
           else (wNatW child + share, max (wNatH child) innerH))
     else (wNatW child, wNatH child))"

primrec placeChildren ::
  "(model \<Rightarrow> int \<Rightarrow> int \<Rightarrow> int \<Rightarrow> int \<Rightarrow> int \<Rightarrow> model option) \<Rightarrow> bool \<Rightarrow> int \<Rightarrow> int \<Rightarrow> int
   \<Rightarrow> (int \<Rightarrow> int) \<Rightarrow> int list \<Rightarrow> int \<Rightarrow> int \<Rightarrow> int \<Rightarrow> model \<Rightarrow> model option" where
  "placeChildren placeOne column spacing innerW innerH share [] growingIndex cursorX cursorY m = Some m"
| "placeChildren placeOne column spacing innerW innerH share (c # cs) growingIndex cursorX cursorY m =
    do {
      child \<leftarrow> mWidgets m c;
      let (childW, childH) = childSize column innerW innerH (share growingIndex) child;
      let growingIndex' = (if wGrows child then growingIndex + 1 else growingIndex);
      if column
      then do {
        m' \<leftarrow> placeOne m c cursorX cursorY childW childH;
        placeChildren placeOne column spacing innerW innerH share cs growingIndex'
          cursorX (cursorY + childH + spacing) m'
      }
      else do {
        m' \<leftarrow> placeOne m c cursorX (cursorY + (innerH - childH) sdiv 2) childW childH;
        placeChildren placeOne column spacing innerW innerH share cs growingIndex'
          (cursorX + childW + spacing) cursorY m'
      }
    }"

primrec place :: "nat \<Rightarrow> model \<Rightarrow> int \<Rightarrow> int \<Rightarrow> int \<Rightarrow> int \<Rightarrow> int \<Rightarrow> model option" where
  "place 0 m i x y width height = None"
| "place (Suc fuel) m i x y width height = (case mWidgets m i of
      None \<Rightarrow> None
    | Some target \<Rightarrow>
        (let m1 = updateW i (\<lambda>w. w\<lparr>wX := x, wY := y, wW := width, wH := height\<rparr>) m
         in if \<not> container target then Some (updateW i clampScroll m1)
            else (let column = (wKind target = kindColumn);
                      innerW = width - 2 * wPadding target;
                      innerH = height - 2 * wPadding target
                  in do {
                    (growing, used) \<leftarrow> usedBy m1 column (wSpacing target) (wChildren target) True (0, 0);
                    let extra = max ((if column then innerH else innerW) - used) 0;
                    placeChildren (place fuel) column (wSpacing target) innerW innerH (shareOf extra growing)
                      (wChildren target) 0 (x + wPadding target) (y + wPadding target) m1
                  })))"

text \<open>A chain of containers is at most as long as there are widgets, which bounds the recursion.\<close>

definition layoutFuel :: "model \<Rightarrow> nat" where
  "layoutFuel m = Suc (length (mOrder m))"

definition layout :: "model \<Rightarrow> model option" where
  "layout m =
    (if mRoot m = 0 then Some m
     else do {
       m1 \<leftarrow> measureWidget (layoutFuel m) m (mRoot m);
       root \<leftarrow> mWidgets m1 (mRoot m);
       let (width, height) = (if wGrows root
             then (max (wNatW root) (mWidth m1 - 2 * windowMargin), max (wNatH root) (mHeight m1 - 2 * windowMargin))
             else (wNatW root, wNatH root));
       m2 \<leftarrow> place (layoutFuel m) m1 (mRoot m) windowMargin windowMargin width height;
       if mPopup m2 \<noteq> 0 then placePopup m2 (mPopup m2) else Some m2
     })"

definition coversPoint :: "widget \<Rightarrow> int \<Rightarrow> int \<Rightarrow> bool" where
  "coversPoint w x y = (x \<ge> wX w \<and> y \<ge> wY w \<and> x < wX w + wW w \<and> y < wY w + wH w)"

primrec hitIn :: "model \<Rightarrow> int list \<Rightarrow> int \<Rightarrow> int \<Rightarrow> int option" where
  "hitIn m [] x y = Some 0"
| "hitIn m (i # is) x y = (case mWidgets m i of
      None \<Rightarrow> None
    | Some target \<Rightarrow> if \<not> container target \<and> coversPoint target x y then Some (wId target) else hitIn m is x y)"

definition hit :: "model \<Rightarrow> int \<Rightarrow> int \<Rightarrow> int option" where
  "hit m x y = hitIn m (rev (mOrder m)) x y"

subsection \<open>Input of the user\<close>

definition userSelect :: "model \<Rightarrow> int \<Rightarrow> int \<Rightarrow> model option" where
  "userSelect m i index = (case mWidgets m i of
      None \<Rightarrow> None
    | Some target \<Rightarrow>
        Some (if wDisabled target \<or> index < -1 \<or> index \<ge> countOf target \<or> wSelected target = index then m
              else dirtied (noteChange (wId target) (updateW i (\<lambda>w. reveal (w\<lparr>wSelected := index\<rparr>)) m))))"

definition pressScrollbar :: "model \<Rightarrow> int \<Rightarrow> int \<Rightarrow> int \<Rightarrow> (bool \<times> model) option" where
  "pressScrollbar m i x y = (case mWidgets m i of
      None \<Rightarrow> None
    | Some target \<Rightarrow>
        if \<not> scrolling target then Some (False, m)
        else
          (let v = viewportOf target
           in if \<not> vVertical v \<or> x < vX v + vW v \<or> x \<ge> vX v + vW v + scrollbar \<or> y < vY v \<or> y \<ge> vY v + vH v
              then Some (False, m)
              else
                (case thumb v (wScrollY target) of (upper, height) \<Rightarrow>
                  let jump = (y < upper \<or> y \<ge> upper + height);
                      target' = (if jump
                        then clampScroll (target\<lparr>wScrollY :=
                          ((y - vY v - height sdiv 2) * (vContentH v - vH v)) sdiv max (vH v - height) 1\<rparr>)
                        else target);
                      upper' = (if jump then fst (thumb v (wScrollY target')) else upper)
                  in Some (True, (updateW i (\<lambda>_. target') m)\<lparr>mDragging := wId target, mGrabY := y - upper'\<rparr>))))"

definition dragScrollbar :: "int \<Rightarrow> int \<Rightarrow> widget \<Rightarrow> widget" where
  "dragScrollbar grabY y target =
    (let v = viewportOf target;
         height = snd (thumb v (wScrollY target));
         travel = max (vH v - height) 1
     in clampScroll (target\<lparr>wScrollY := ((y - grabY - vY v) * (vContentH v - vH v)) sdiv travel\<rparr>))"

text \<open>The column of a line nearest to a point, \<open>want\<close> pixels from its start.\<close>

function caretColumnAt :: "(string \<Rightarrow> int) \<Rightarrow> nat list \<Rightarrow> int \<Rightarrow> nat \<Rightarrow> nat" where
  "caretColumnAt measureText line want column =
    (if column < length line
     then (let next = measureText (stringOf (take (column + 1) line))
           in if next > want
              then (let previous = measureText (stringOf (take column line))
                    in if want - previous > next - want then column + 1 else column)
              else caretColumnAt measureText line want (column + 1))
     else column)"
  by pat_completeness auto
termination
  by (relation "measure (\<lambda>(_, line, _, column). length line - column)") auto

declare caretColumnAt.simps [simp del]

definition placeAreaCaret :: "model \<Rightarrow> int \<Rightarrow> int \<Rightarrow> widget \<Rightarrow> widget" where
  "placeAreaCaret m x y target =
    (let v = viewportOf target;
         lines = areaLines (wText target);
         line = min (max ((y - vY v + wScrollY target) sdiv lineHeight) 0) (int (length lines) - 1);
         want = x - vX v + mScale m (wScroll target);
         column = caretColumnAt (mMeasure m) (lines ! nat line) want 0
     in target\<lparr>wCaret := areaOffset (wText target) line (int column)\<rparr>)"

text \<open>\<open>press\<close>, from its end: what a press does to the widget it meets, which widget that is, and the
  open list, which comes first.\<close>

definition pressWidget :: "model \<Rightarrow> int \<Rightarrow> int \<Rightarrow> int \<Rightarrow> model option" where
  "pressWidget m i x y = (case mWidgets m i of
      None \<Rightarrow> None
    | Some target \<Rightarrow>
        if \<not> focusable target then Some m
        else do {
          (grabbed, m5) \<leftarrow> pressScrollbar (m\<lparr>mPressed := i, mFocus := i\<rparr>) i x y;
          if grabbed then Some m5
          else if wKind target = kindListBox \<or> wKind target = kindTable
          then (let row = rowAt target y in if row \<ge> 0 then userSelect m5 i row else Some m5)
          else if wKind target = kindTextArea then Some (updateW i (placeAreaCaret m5 x y) m5)
          else Some m5
        })"

definition pressWindow :: "model \<Rightarrow> int \<Rightarrow> int \<Rightarrow> model option" where
  "pressWindow m x y = do {
     i \<leftarrow> hit m x y;
     if i = 0 then Some (m\<lparr>mFocus := 0\<rparr>) else pressWidget (m\<lparr>mFocus := 0\<rparr>) i x y
   }"

definition press :: "model \<Rightarrow> int \<Rightarrow> int \<Rightarrow> model option" where
  "press m0 x y = do {
     m1 \<leftarrow> layout m0;
     let m2 = (dirtied m1)\<lparr>mPressed := 0\<rparr>;
     if mPopup m2 \<noteq> 0 \<and> inPopup m2 x y then Some (m2\<lparr>mPressed := mPopup m2\<rparr>)
     else pressWindow (if mPopup m2 \<noteq> 0 then closePopup m2 else m2) x y
   }"

definition drag :: "model \<Rightarrow> int \<Rightarrow> int \<Rightarrow> model" where
  "drag m x y =
    (if mDragging m = 0 then m
     else (case mWidgets m (mDragging m) of
             None \<Rightarrow> m\<lparr>mDragging := 0\<rparr>
           | Some target \<Rightarrow> dirtied (updateW (mDragging m) (dragScrollbar (mGrabY m) y) m)))"

text \<open>\<open>activate\<close>: the Button clicked, or 0, and the new state.\<close>

definition activate :: "model \<Rightarrow> int \<Rightarrow> (int \<times> model) option" where
  "activate m i = (case mWidgets m i of
      None \<Rightarrow> None
    | Some target \<Rightarrow>
        if wKind target = kindButton then Some (i, m)
        else if wKind target = kindCheckbox
        then Some (0, dirtied (noteChange i (updateW i (\<lambda>w. w\<lparr>wChecked := \<not> wChecked w\<rparr>) m)))
        else if wKind target = kindSelect
        then (if mPopup m = i then Some (0, closePopup m) else map_option (Pair 0) (openPopup m i))
        else Some (0, m))"

definition releasePopup :: "model \<Rightarrow> int \<Rightarrow> int \<Rightarrow> (int \<times> model) option" where
  "releasePopup m x y =
    (if inPopup m x y
     then do {
       choice \<leftarrow> popupChoiceAt m y;
       if choice \<ge> 0
       then do { m' \<leftarrow> userSelect m (mPopup m) choice; Some (0, closePopup m') }
       else Some (0, m)
     }
     else Some (0, m))"

definition release :: "model \<Rightarrow> int \<Rightarrow> int \<Rightarrow> (int \<times> model) option" where
  "release m0 x y = do {
     m1 \<leftarrow> layout m0;
     let pressed = mPressed m1;
     let m2 = (dirtied m1)\<lparr>mPressed := 0\<rparr>;
     if mDragging m2 \<noteq> 0 then Some (0, m2\<lparr>mDragging := 0\<rparr>)
     else if pressed \<noteq> 0 \<and> pressed = mPopup m2 then releasePopup m2 x y
     else do {
       i \<leftarrow> hit m2 x y;
       if i = 0 \<or> i \<noteq> pressed then Some (0, m2) else activate m2 i
     }
   }"

definition wheel :: "model \<Rightarrow> int \<Rightarrow> int \<Rightarrow> int \<Rightarrow> int \<Rightarrow> (bool \<times> model) option" where
  "wheel m0 x y pixelsX pixelsY = do {
     m \<leftarrow> layout m0;
     if mPopup m \<noteq> 0
     then (if \<not> inPopup m x y then Some (False, m)
           else do {
             target \<leftarrow> mWidgets m (mPopup m);
             Some (True, dirtied (updateW (mPopup m)
               (\<lambda>w. clampPopup (w\<lparr>wListScroll := wListScroll w - pixelsY\<rparr>)) m))
           })
     else do {
       i \<leftarrow> hit m x y;
       if i = 0 then Some (False, m)
       else do {
         target \<leftarrow> mWidgets m i;
         if \<not> scrolling target \<or> wDisabled target then Some (False, m)
         else Some (True, dirtied (updateW i (\<lambda>w. clampScroll (w\<lparr>wScrollY := wScrollY w - pixelsY,
                wScrollX := (if wKind w = kindTable then wScrollX w - pixelsX else wScrollX w)\<rparr>)) m))
       }
     }
   }"

text \<open>\<open>focusStep\<close> looks at the widgets after the focused one, in a circle.\<close>

definition lastIndexOf :: "int list \<Rightarrow> int \<Rightarrow> int \<Rightarrow> int" where
  "lastIndexOf xs x start = fold (\<lambda>(index, i) start. if i = x then index else start)
     (zip (map int [0..<length xs]) xs) start"

primrec focusLoop :: "nat \<Rightarrow> int \<Rightarrow> int \<Rightarrow> int \<Rightarrow> model \<Rightarrow> model option" where
  "focusLoop 0 step start direction m = Some m"
| "focusLoop (Suc left) step start direction m =
    (let n = int (length (mOrder m));
         i = mOrder m ! nat (((start + direction * step) smod n + n) smod n)
     in case mWidgets m i of
          None \<Rightarrow> None
        | Some w \<Rightarrow> if focusable w then Some (dirtied (m\<lparr>mFocus := i\<rparr>))
                    else focusLoop left (step + 1) start direction m)"

definition focusStep :: "int \<Rightarrow> model \<Rightarrow> model option" where
  "focusStep direction m0 =
    (let m = closePopup m0;
         start = lastIndexOf (mOrder m) (mFocus m) (if direction < 0 then int (length (mOrder m)) else -1)
     in focusLoop (length (mOrder m)) 1 start direction m)"

definition focusNext :: "model \<Rightarrow> model option" where "focusNext m = focusStep 1 m"
definition focusPrevious :: "model \<Rightarrow> model option" where "focusPrevious m = focusStep (-1) m"

definition activateFocused :: "bool \<Rightarrow> model \<Rightarrow> (int \<times> model) option" where
  "activateFocused space m = (case mWidgets m (mFocus m) of
      None \<Rightarrow> Some (0, m)
    | Some target \<Rightarrow>
        if wDisabled target then Some (0, m)
        else if wKind target = kindButton then activate m (wId target)
        else if wKind target = kindCheckbox \<and> space then activate m (wId target)
        else if wKind target = kindSelect \<and> mPopup m = wId target
        then do {
          m1 \<leftarrow> (if wHighlight target \<ge> 0 then userSelect m (wId target) (wHighlight target) else Some m);
          Some (0, closePopup m1)
        }
        else if wKind target = kindSelect then map_option (Pair 0) (openPopup m (wId target))
        else Some (0, m))"

definition focusedKind :: "model \<Rightarrow> string" where
  "focusedKind m = (case mWidgets m (mFocus m) of
      None \<Rightarrow> [] | Some target \<Rightarrow> if wDisabled target then [] else kindName (wKind target))"

definition escape :: "model \<Rightarrow> bool \<times> model" where
  "escape m = (if mPopup m = 0 then (False, m) else (True, closePopup m))"

definition focusedInput :: "model \<Rightarrow> widget option" where
  "focusedInput m = (case mWidgets m (mFocus m) of
      None \<Rightarrow> None
    | Some target \<Rightarrow>
        if \<not> (textField target \<or> wKind target = kindTextArea) \<or> wDisabled target then None
        else Some target)"

text \<open>Inserting a rune at the caret, and removing one; the caret lies in the text.\<close>

definition insertRune :: "nat \<Rightarrow> widget \<Rightarrow> widget" where
  "insertRune c target =
    target\<lparr>wText := take (nat (wCaret target)) (wText target) @ c # drop (nat (wCaret target)) (wText target),
      wCaret := wCaret target + 1\<rparr>"

definition backspace :: "widget \<Rightarrow> widget" where
  "backspace target =
    target\<lparr>wText := take (nat (wCaret target - 1)) (wText target) @ drop (nat (wCaret target)) (wText target),
      wCaret := wCaret target - 1\<rparr>"

definition deleteRune :: "widget \<Rightarrow> widget" where
  "deleteRune target =
    target\<lparr>wText := take (nat (wCaret target)) (wText target) @ drop (nat (wCaret target + 1)) (wText target)\<rparr>"

primrec insertRunes :: "int \<Rightarrow> nat list \<Rightarrow> bool \<times> widget \<Rightarrow> bool \<times> widget" where
  "insertRunes limit [] acc = acc"
| "insertRunes limit (c # cs) acc = (case acc of (changed, target) \<Rightarrow>
     let newline = (c = newlineRune \<and> wKind target = kindTextArea)
     in if (\<not> newline \<and> (c < 0x20 \<or> c = 0x7F)) \<or> \<not> validRune c \<or> int (length (wText target)) \<ge> limit
        then insertRunes limit cs acc
        else insertRunes limit cs (True, insertRune c target))"

definition insertText :: "nat list \<Rightarrow> model \<Rightarrow> bool \<times> model" where
  "insertText runes m = (case focusedInput m of
      None \<Rightarrow> (False, m)
    | Some target \<Rightarrow>
        (let limit = (if wKind target = kindTextArea then maxAreaRunes else maxTextRunes)
         in case insertRunes limit runes (False, target) of (changed, target') \<Rightarrow>
              (True, dirtied (if changed
                 then noteChange (wId target) (updateW (mFocus m) (\<lambda>_. revealCaret target') m)
                 else m))))"

definition editArea :: "int \<Rightarrow> string \<Rightarrow> widget \<Rightarrow> model \<Rightarrow> model" where
  "editArea i key target m =
    (case areaPosition (wText target) (wCaret target) of (line, column) \<Rightarrow>
     let finish = (\<lambda>changed target'. dirtied (updateW i (\<lambda>_. revealCaret target')
           (if changed then noteChange (wId target) m else m)));
         moveTo = (\<lambda>caret. finish False (target\<lparr>wCaret := caret\<rparr>));
         runes = wText target
     in if key = ''Enter''
        then (if int (length runes) < maxAreaRunes then finish True (insertRune newlineRune target)
              else finish False target)
        else if key = ''Backspace''
        then (if wCaret target > 0 then finish True (backspace target) else finish False target)
        else if key = ''Delete''
        then (if wCaret target < int (length runes) then finish True (deleteRune target) else finish False target)
        else if key = ''ArrowLeft'' then moveTo (max (wCaret target - 1) 0)
        else if key = ''ArrowRight'' then moveTo (min (wCaret target + 1) (int (length runes)))
        else if key = ''ArrowUp'' then moveTo (if line = 0 then 0 else areaOffset runes (line - 1) column)
        else if key = ''ArrowDown''
        then moveTo (if line = int (length (areaLines runes)) - 1 then int (length runes)
                     else areaOffset runes (line + 1) column)
        else if key = ''Home'' then moveTo (areaOffset runes line 0)
        else if key = ''End'' then moveTo (areaOffset runes line (2 ^ 30))
        else if key = ''PageUp'' then moveTo (areaOffset runes (line - pageItems) column)
        else if key = ''PageDown'' then moveTo (areaOffset runes (line + pageItems) column)
        else m)"

definition edit :: "string \<Rightarrow> model \<Rightarrow> bool \<times> model" where
  "edit key m = (case focusedInput m of
      None \<Rightarrow> (False, m)
    | Some target \<Rightarrow>
        if wKind target = kindTextArea then (True, editArea (mFocus m) key target m)
        else
          (let i = mFocus m;
               moveTo = (\<lambda>caret. (True, dirtied (updateW i (wCaret_update (\<lambda>_. caret)) m)))
           in if key = ''Backspace''
              then (True, dirtied (if wCaret target > 0
                then noteChange (wId target) (updateW i backspace m) else m))
              else if key = ''Delete''
              then (True, dirtied (if wCaret target < int (length (wText target))
                then noteChange (wId target) (updateW i deleteRune m) else m))
              else if key = ''ArrowLeft'' then moveTo (max (wCaret target - 1) 0)
              else if key = ''ArrowRight'' then moveTo (min (wCaret target + 1) (int (length (wText target))))
              else if key = ''Home'' then moveTo 0
              else if key = ''End'' then moveTo (int (length (wText target)))
              else (True, m)))"

definition stepIndex :: "int \<Rightarrow> int \<Rightarrow> string \<Rightarrow> int \<times> bool" where
  "stepIndex current count key =
    (if count = 0
     then (-1, key \<in> {''ArrowUp'', ''ArrowDown'', ''Home'', ''End'', ''PageUp'', ''PageDown''})
     else if key = ''ArrowUp'' then (if current < 0 then (0, True) else (max (current - 1) 0, True))
     else if key = ''ArrowDown'' then (min (current + 1) (count - 1), True)
     else if key = ''Home'' then (0, True)
     else if key = ''End'' then (count - 1, True)
     else if key = ''PageUp'' then (max (current - pageItems) 0, True)
     else if key = ''PageDown'' then (min (max current 0 + pageItems) (count - 1), True)
     else (current, False))"

definition navigate :: "string \<Rightarrow> model \<Rightarrow> (bool \<times> model) option" where
  "navigate key m = (case mWidgets m (mFocus m) of
      None \<Rightarrow> Some (False, m)
    | Some target \<Rightarrow>
        if wDisabled target \<or> wKind target \<notin> {kindListBox, kindTable, kindSelect} then Some (False, m)
        else
          (let current = (if mPopup m = wId target then wHighlight target else wSelected target)
           in case stepIndex current (countOf target) key of (next, ok) \<Rightarrow>
                if \<not> ok then Some (False, m)
                else if mPopup m = wId target
                then Some (True, dirtied (updateW (mFocus m) (\<lambda>w. revealPopup (w\<lparr>wHighlight := next\<rparr>)) m))
                else if next \<ge> 0 then map_option (Pair True) (userSelect m (mFocus m) next)
                else Some (True, m)))"

definition typeInto :: "model \<Rightarrow> int \<Rightarrow> string \<Rightarrow> string + model" where
  "typeInto m i s = (case mWidgets m i of
      None \<Rightarrow> Inl errWrongKind
    | Some target \<Rightarrow>
        if \<not> (textField target \<or> wKind target = kindTextArea) then Inl errWrongKind
        else if wDisabled target then Inr m
        else Inr ((snd (insertText (toRunes s) (m\<lparr>mFocus := i\<rparr>)))\<lparr>mFocus := mFocus m\<rparr>))"

definition toggle :: "model \<Rightarrow> int \<Rightarrow> (string + model) option" where
  "toggle m i = (case mWidgets m i of
      None \<Rightarrow> Some (Inl errWrongKind)
    | Some target \<Rightarrow>
        if wKind target \<noteq> kindCheckbox then Some (Inl errWrongKind)
        else if wDisabled target then Some (Inr m)
        else map_option (\<lambda>(_, m'). Inr m') (activate m i))"

definition chooseItem :: "model \<Rightarrow> int \<Rightarrow> int \<Rightarrow> (string + model) option" where
  "chooseItem m i index = (case mWidgets m i of
      None \<Rightarrow> Some (Inl errWrongKind)
    | Some target \<Rightarrow>
        if wKind target \<notin> {kindListBox, kindSelect, kindTable} then Some (Inl errWrongKind)
        else if index < -1 \<or> index \<ge> countOf target then Some (Inl errIndex)
        else map_option Inr (userSelect m i index))"

text \<open>What drawing (\<open>render.go\<close>) changes in the model: the display scale, the layout, and the horizontal
  scroll of the text fields, which follows the caret in the pixels of the display. Here it may become
  anything, the argument \<open>scrolls\<close>.\<close>

definition drawn :: "(int \<Rightarrow> int) \<Rightarrow> (int \<Rightarrow> int) \<Rightarrow> model \<Rightarrow> model option" where
  "drawn scale scrolls m =
    map_option (\<lambda>m'. m'\<lparr>mDirty := False,
        mWidgets := (\<lambda>i. map_option (\<lambda>w. if textField w \<or> wKind w = kindTextArea
          then w\<lparr>wScroll := scrolls i\<rparr> else w) (mWidgets m' i))\<rparr>)
      (layout (m\<lparr>mScale := scale\<rparr>))"

end
