(* ===== verification/GuiProofs.thy ===== *)
theory GuiProofs
  imports GuiModel
begin

text \<open>
  What holds in every state of a window of the GUI helper: the widgets form a tree, every index and
  caret lies in its range, and the focus, the pressed widget, the open list and the dragged scroll bar
  are widgets that accept input. Every operation keeps this, so none dereferences nil and the layout
  ends. The layout puts every widget inside its container and keeps siblings apart.
\<close>

subsection \<open>The invariant\<close>

text \<open>The contents of one widget.\<close>

definition contentsOk :: "widget \<Rightarrow> bool" where
  "contentsOk w \<longleftrightarrow>
     0 \<le> wCaret w \<and> wCaret w \<le> int (length (wText w))
   \<and> int (length (wText w)) \<le> (if wKind w = kindTextArea then maxAreaRunes else maxTextRunes)
   \<and> -1 \<le> wSelected w \<and> wSelected w < countOf w
   \<and> -1 \<le> wHighlight w \<and> wHighlight w < countOf w
   \<and> 0 \<le> wSpacing w \<and> wSpacing w \<le> maxSpacing \<and> 0 \<le> wPadding w \<and> wPadding w \<le> maxSpacing
   \<and> int (length (wItems w)) \<le> maxItems
   \<and> list_all (\<lambda>row. length row = length (wColumns w)) (wRows w)
   \<and> length (wWidths w) = length (wColumns w)
   \<and> list_all (\<lambda>width. minColumnWidth \<le> width \<and> width \<le> maxColumnWidth) (wWidths w)"

definition widgetOk :: "widget \<Rightarrow> bool" where
  "widgetOk w \<longleftrightarrow> contentsOk w \<and> 0 \<le> wScrollX w \<and> 0 \<le> wScrollY w \<and> 0 \<le> wListScroll w"

text \<open>The place of a widget in the tree: its identifier is its key, its children name it as their
  parent and were created later, and every widget but the root is a child.\<close>

definition treeNode :: "(int \<Rightarrow> widget option) \<Rightarrow> int \<Rightarrow> widget \<Rightarrow> bool" where
  "treeNode ws i w \<longleftrightarrow> wId w = i
   \<and> (\<forall>c \<in> set (wChildren w). i < c \<and> (\<exists>cw. ws c = Some cw \<and> wParent cw = i))
   \<and> distinct (wChildren w)
   \<and> (wChildren w \<noteq> [] \<longrightarrow> container w)
   \<and> (i \<noteq> 1 \<longrightarrow> (\<exists>pw. ws (wParent w) = Some pw \<and> i \<in> set (wChildren pw)))"

definition treeOk :: "model \<Rightarrow> bool" where
  "treeOk m \<longleftrightarrow>
     0 \<le> mNext m \<and> mNext m \<le> maxWidgets \<and> mOrder m = [1..mNext m]
   \<and> dom (mWidgets m) = {1..mNext m} \<and> mRoot m = (if mNext m = 0 then 0 else 1)
   \<and> (\<forall>i w. mWidgets m i = Some w \<longrightarrow> treeNode (mWidgets m) i w)"

definition refersTo :: "(widget \<Rightarrow> bool) \<Rightarrow> model \<Rightarrow> int \<Rightarrow> bool" where
  "refersTo P m i \<longleftrightarrow> i = 0 \<or> (\<exists>w. mWidgets m i = Some w \<and> P w)"

definition openable :: "widget \<Rightarrow> bool" where
  "openable w \<longleftrightarrow> wKind w = kindSelect \<and> \<not> wDisabled w"

definition draggable :: "widget \<Rightarrow> bool" where
  "draggable w \<longleftrightarrow> scrolling w \<and> \<not> wDisabled w"

definition changeable :: "widget \<Rightarrow> bool" where
  "changeable w \<longleftrightarrow> interactive w \<and> wKind w \<noteq> kindButton"

definition inputOk :: "model \<Rightarrow> bool" where
  "inputOk m \<longleftrightarrow> refersTo focusable m (mFocus m) \<and> refersTo focusable m (mPressed m)
   \<and> refersTo openable m (mPopup m) \<and> refersTo draggable m (mDragging m)
   \<and> distinct (mChanges m)
   \<and> (\<forall>i \<in> set (mChanges m). \<exists>w. mWidgets m i = Some w \<and> changeable w)"

definition guiOk :: "model \<Rightarrow> bool" where
  "guiOk m \<longleftrightarrow> treeOk m \<and> inputOk m \<and> (\<forall>i w. mWidgets m i = Some w \<longrightarrow> widgetOk w)
   \<and> 1 \<le> mWidth m \<and> mWidth m \<le> maxDimension \<and> 1 \<le> mHeight m \<and> mHeight m \<le> maxDimension
   \<and> (\<forall>s. 0 \<le> mMeasure m s)"

lemma widgets_are_counted: "guiOk m \<Longrightarrow> card (dom (mWidgets m)) = length (mOrder m)"
  by (simp add: guiOk_def treeOk_def)

subsection \<open>Assignments that keep the invariant\<close>

text \<open>What an assignment to a widget must leave alone for the tree and the references to it.\<close>

definition shape :: "widget \<Rightarrow> int \<times> widgetKind \<times> int \<times> int list \<times> bool" where
  "shape w = (wId w, wKind w, wParent w, wChildren w, wDisabled w)"

definition sameTree :: "model \<Rightarrow> model \<Rightarrow> bool" where
  "sameTree m m' \<longleftrightarrow> mOrder m' = mOrder m \<and> mRoot m' = mRoot m \<and> mNext m' = mNext m
   \<and> (\<forall>i. map_option shape (mWidgets m' i) = map_option shape (mWidgets m i))"

lemma sameTree_refl [simp]: "sameTree m m"
  by (simp add: sameTree_def)

lemma sameTree_trans [trans]: "sameTree a b \<Longrightarrow> sameTree b c \<Longrightarrow> sameTree a c"
  by (simp add: sameTree_def)

lemma shape_kinds:
  "shape w' = shape w \<Longrightarrow> container w' = container w \<and> scrolling w' = scrolling w
     \<and> interactive w' = interactive w \<and> focusable w' = focusable w \<and> openable w' = openable w
     \<and> draggable w' = draggable w \<and> changeable w' = changeable w \<and> textField w' = textField w"
  by (simp add: shape_def container_def scrolling_def interactive_def focusable_def openable_def
      draggable_def changeable_def textField_def)

lemma sameTree_Some:
  assumes "sameTree m m'" and "mWidgets m i = Some w"
  obtains w' where "mWidgets m' i = Some w'" and "shape w' = shape w"
proof -
  have "map_option shape (mWidgets m' i) = Some (shape w)"
    using assms by (simp add: sameTree_def)
  then show thesis by (auto intro: that)
qed

lemma sameTree_sym: "sameTree m m' \<Longrightarrow> sameTree m' m"
  by (simp add: sameTree_def)

lemmas sameTree_Some' = sameTree_Some [OF sameTree_sym]

lemma sameTree_dom: "sameTree m m' \<Longrightarrow> dom (mWidgets m') = dom (mWidgets m)"
  by (auto simp: sameTree_def dom_def) (metis map_option_is_None option.exhaust)+

lemma sameTree_refersTo:
  assumes t: "sameTree m m'" and P: "\<And>w w'. shape w' = shape w \<Longrightarrow> P w' = P w" and r: "refersTo P m i"
  shows "refersTo P m' i"
proof (cases "i = 0")
  case False
  then obtain w where w: "mWidgets m i = Some w" "P w" using r by (auto simp: refersTo_def)
  then obtain w' where "mWidgets m' i = Some w'" "shape w' = shape w" using t by (auto elim: sameTree_Some)
  then show ?thesis using P [of w' w] w(2) by (simp add: refersTo_def)
qed (simp add: refersTo_def)

lemma sameTree_references:
  assumes t: "sameTree m m'"
  shows "refersTo focusable m i \<Longrightarrow> refersTo focusable m' i" "refersTo openable m i \<Longrightarrow> refersTo openable m' i"
    "refersTo draggable m i \<Longrightarrow> refersTo draggable m' i"
    "mWidgets m i = Some w \<Longrightarrow> changeable w \<Longrightarrow> \<exists>w'. mWidgets m' i = Some w' \<and> changeable w'"
proof -
  have "refersTo P m i \<Longrightarrow> refersTo P m' i" if "P \<in> {focusable, openable, draggable}" for P
    using that by (auto intro: sameTree_refersTo [OF t] dest: shape_kinds)
  then show "refersTo focusable m i \<Longrightarrow> refersTo focusable m' i" "refersTo openable m i \<Longrightarrow> refersTo openable m' i"
    "refersTo draggable m i \<Longrightarrow> refersTo draggable m' i" by simp_all
  assume "mWidgets m i = Some w" "changeable w"
  then show "\<exists>w'. mWidgets m' i = Some w' \<and> changeable w'"
    by (auto elim!: sameTree_Some [OF t] dest: shape_kinds)
qed

lemma treeOk_sameTree:
  assumes "sameTree m m'" and "treeOk m"
  shows "treeOk m'"
proof -
  have "treeNode (mWidgets m') i w'" if w': "mWidgets m' i = Some w'" for i w'
  proof -
    obtain w where w: "mWidgets m i = Some w" and s: "shape w = shape w'"
      using assms(1) w' by (rule sameTree_Some')
    have n: "treeNode (mWidgets m) i w" using assms(2) w by (simp add: treeOk_def)
    have eqs: "wId w' = wId w" "wChildren w' = wChildren w" "wParent w' = wParent w"
      using s by (simp_all add: shape_def)
    have "\<exists>cw. mWidgets m' c = Some cw \<and> wParent cw = i" if c: "c \<in> set (wChildren w)" for c
    proof -
      obtain cw where "mWidgets m c = Some cw" "wParent cw = i"
        using n c by (auto simp: treeNode_def)
      then show ?thesis by (auto simp: shape_def elim!: sameTree_Some [OF assms(1)])
    qed
    moreover have "i < c" if "c \<in> set (wChildren w)" for c
      using n that by (simp add: treeNode_def)
    moreover have "\<exists>pw. mWidgets m' (wParent w) = Some pw \<and> i \<in> set (wChildren pw)" if i: "i \<noteq> 1"
    proof -
      obtain pw where "mWidgets m (wParent w) = Some pw" "i \<in> set (wChildren pw)"
        using n i by (auto simp: treeNode_def)
      then show ?thesis by (auto simp: shape_def elim!: sameTree_Some [OF assms(1)])
    qed
    ultimately show ?thesis
      using n eqs shape_kinds [OF s] by (simp add: treeNode_def)
  qed
  with assms show ?thesis
    by (simp add: treeOk_def sameTree_dom [OF assms(1)]) (simp add: sameTree_def)
qed

text \<open>A model that differs in the contents of widgets and in fields the invariant does not read.\<close>

definition sameInput :: "model \<Rightarrow> model \<Rightarrow> bool" where
  "sameInput m m' \<longleftrightarrow> mFocus m' = mFocus m \<and> mPressed m' = mPressed m \<and> mPopup m' = mPopup m
   \<and> mDragging m' = mDragging m \<and> mChanges m' = mChanges m \<and> mWidth m' = mWidth m
   \<and> mHeight m' = mHeight m \<and> mMeasure m' = mMeasure m"

lemma inputOk_sameTree:
  assumes t: "sameTree m m'" and "sameInput m m'" and "inputOk m"
  shows "inputOk m'"
proof -
  have "\<exists>w. mWidgets m' i = Some w \<and> changeable w" if "i \<in> set (mChanges m)" for i
    using assms(3) that by (auto simp: inputOk_def dest!: bspec intro: sameTree_references [OF t])
  with assms(2,3) show ?thesis
    by (auto simp: inputOk_def sameInput_def intro: sameTree_references [OF t])
qed

lemma guiOk_sameTree:
  assumes "guiOk m" and "sameTree m m'" and "sameInput m m'"
    and "\<And>i w. mWidgets m' i = Some w \<Longrightarrow> widgetOk w"
  shows "guiOk m'"
  using assms inputOk_sameTree [OF assms(2,3)] treeOk_sameTree [OF assms(2)]
  by (simp add: guiOk_def sameInput_def)

lemma mWidgets_updateW:
  "mWidgets (updateW i f m) j = (if j = i then map_option f (mWidgets m i) else mWidgets m j)"
  by (simp add: updateW_def)

lemma updateW_fields [simp]:
  "mOrder (updateW i f m) = mOrder m" "mRoot (updateW i f m) = mRoot m" "mNext (updateW i f m) = mNext m"
  "mFocus (updateW i f m) = mFocus m" "mPressed (updateW i f m) = mPressed m"
  "mPopup (updateW i f m) = mPopup m" "mDragging (updateW i f m) = mDragging m"
  "mChanges (updateW i f m) = mChanges m" "mWidth (updateW i f m) = mWidth m"
  "mHeight (updateW i f m) = mHeight m" "mMeasure (updateW i f m) = mMeasure m"
  "mGrabY (updateW i f m) = mGrabY m" "mList (updateW i f m) = mList m"
  "mScale (updateW i f m) = mScale m" "mTitle (updateW i f m) = mTitle m"
  "mResizable (updateW i f m) = mResizable m" "mBackground (updateW i f m) = mBackground m"
  by (simp_all add: updateW_def)

lemma sameTree_updateW:
  "(\<And>w. mWidgets m i = Some w \<Longrightarrow> shape (f w) = shape w) \<Longrightarrow> sameTree m (updateW i f m)"
  by (cases "mWidgets m i") (auto simp: sameTree_def mWidgets_updateW)

lemma sameInput_updateW [simp]: "sameInput m (updateW i f m)"
  by (simp add: sameInput_def)

lemma guiOk_widget: "guiOk m \<Longrightarrow> mWidgets m i = Some w \<Longrightarrow> widgetOk w"
  by (simp add: guiOk_def)

lemma guiOk_updateW:
  assumes "guiOk m" and "\<And>w. mWidgets m i = Some w \<Longrightarrow> widgetOk w \<Longrightarrow> shape (f w) = shape w \<and> widgetOk (f w)"
  shows "guiOk (updateW i f m)"
proof (rule guiOk_sameTree [OF assms(1)])
  show "sameTree m (updateW i f m)"
    using assms(2) guiOk_widget [OF assms(1)] by (blast intro: sameTree_updateW)
  show "widgetOk w" if "mWidgets (updateW i f m) j = Some w" for j w
    using that assms(2) guiOk_widget [OF assms(1)] by (auto simp: mWidgets_updateW split: if_splits)
qed simp

text \<open>Fields the invariant does not read.\<close>

lemma guiOk_fields [simp]:
  "guiOk (m\<lparr>mDirty := b\<rparr>) = guiOk m" "guiOk (m\<lparr>mList := l\<rparr>) = guiOk m" "guiOk (m\<lparr>mGrabY := y\<rparr>) = guiOk m"
  "guiOk (m\<lparr>mTitle := t\<rparr>) = guiOk m" "guiOk (m\<lparr>mResizable := b\<rparr>) = guiOk m"
  "guiOk (m\<lparr>mBackground := c\<rparr>) = guiOk m" "guiOk (m\<lparr>mScale := s\<rparr>) = guiOk m"
  "guiOk (dirtied m) = guiOk m"
  by (simp_all add: guiOk_def treeOk_def inputOk_def refersTo_def dirtied_def)

text \<open>References that are dropped or set to a widget that accepts the input.\<close>

lemma guiOk_references [intro]:
  "guiOk m \<Longrightarrow> refersTo focusable m i \<Longrightarrow> guiOk (m\<lparr>mFocus := i\<rparr>)"
  "guiOk m \<Longrightarrow> refersTo focusable m i \<Longrightarrow> guiOk (m\<lparr>mPressed := i\<rparr>)"
  "guiOk m \<Longrightarrow> refersTo openable m i \<Longrightarrow> guiOk (m\<lparr>mPopup := i\<rparr>)"
  "guiOk m \<Longrightarrow> refersTo draggable m i \<Longrightarrow> guiOk (m\<lparr>mDragging := i\<rparr>)"
  by (auto simp: guiOk_def treeOk_def inputOk_def refersTo_def)

lemma refersTo_zero [simp]: "refersTo P m 0"
  by (simp add: refersTo_def)

subsection \<open>Operations on one widget\<close>

text \<open>Updates of single fields.\<close>

lemma shape_updates [simp]:
  "shape (w\<lparr>wText := t\<rparr>) = shape w" "shape (w\<lparr>wCaret := c\<rparr>) = shape w" "shape (w\<lparr>wScroll := s\<rparr>) = shape w"
  "shape (w\<lparr>wScrollX := s\<rparr>) = shape w" "shape (w\<lparr>wScrollY := s\<rparr>) = shape w"
  "shape (w\<lparr>wListScroll := s\<rparr>) = shape w" "shape (w\<lparr>wHighlight := h\<rparr>) = shape w"
  "shape (w\<lparr>wSelected := h\<rparr>) = shape w" "shape (w\<lparr>wChecked := b\<rparr>) = shape w"
  "shape (w\<lparr>wItems := items\<rparr>) = shape w" "shape (w\<lparr>wRows := rows\<rparr>) = shape w"
  "shape (w\<lparr>wWidths := ws\<rparr>) = shape w" "shape (w\<lparr>wForeground := c'\<rparr>) = shape w"
  "shape (w\<lparr>wBackground := c'\<rparr>) = shape w" "shape (w\<lparr>wX := x\<rparr>) = shape w" "shape (w\<lparr>wY := y\<rparr>) = shape w"
  "shape (w\<lparr>wW := x\<rparr>) = shape w" "shape (w\<lparr>wH := y\<rparr>) = shape w" "shape (w\<lparr>wNatW := x\<rparr>) = shape w"
  "shape (w\<lparr>wNatH := y\<rparr>) = shape w" "shape (w\<lparr>wGrows := b\<rparr>) = shape w"
  by (simp_all add: shape_def)

lemma countOf_nonneg [simp]: "0 \<le> countOf w"
  by (simp add: countOf_def)

lemma countOf_updates [simp]:
  "countOf (w\<lparr>wText := t\<rparr>) = countOf w" "countOf (w\<lparr>wCaret := c\<rparr>) = countOf w"
  "countOf (w\<lparr>wScroll := s\<rparr>) = countOf w" "countOf (w\<lparr>wScrollX := s\<rparr>) = countOf w"
  "countOf (w\<lparr>wScrollY := s\<rparr>) = countOf w" "countOf (w\<lparr>wListScroll := s\<rparr>) = countOf w"
  "countOf (w\<lparr>wHighlight := s\<rparr>) = countOf w" "countOf (w\<lparr>wSelected := s\<rparr>) = countOf w"
  by (simp_all add: countOf_def)

lemma contentsOk_updates [simp]:
  "contentsOk (w\<lparr>wScroll := s\<rparr>) = contentsOk w" "contentsOk (w\<lparr>wChecked := b\<rparr>) = contentsOk w"
  "contentsOk (w\<lparr>wForeground := c\<rparr>) = contentsOk w" "contentsOk (w\<lparr>wBackground := c\<rparr>) = contentsOk w"
  "contentsOk (w\<lparr>wX := x\<rparr>) = contentsOk w" "contentsOk (w\<lparr>wY := y\<rparr>) = contentsOk w"
  "contentsOk (w\<lparr>wW := x\<rparr>) = contentsOk w" "contentsOk (w\<lparr>wH := y\<rparr>) = contentsOk w"
  "contentsOk (w\<lparr>wNatW := x\<rparr>) = contentsOk w" "contentsOk (w\<lparr>wNatH := y\<rparr>) = contentsOk w"
  "contentsOk (w\<lparr>wGrows := b\<rparr>) = contentsOk w" "contentsOk (w\<lparr>wDisabled := b\<rparr>) = contentsOk w"
  "contentsOk (w\<lparr>wChildren := cs\<rparr>) = contentsOk w" "contentsOk (w\<lparr>wId := i\<rparr>) = contentsOk w"
  "contentsOk (w\<lparr>wScrollX := s\<rparr>) = contentsOk w" "contentsOk (w\<lparr>wScrollY := s\<rparr>) = contentsOk w"
  "contentsOk (w\<lparr>wListScroll := s\<rparr>) = contentsOk w"
  by (simp_all add: contentsOk_def countOf_def)

lemma widgetOk_updates [simp]:
  "widgetOk (w\<lparr>wScroll := s\<rparr>) = widgetOk w" "widgetOk (w\<lparr>wChecked := b\<rparr>) = widgetOk w"
  "widgetOk (w\<lparr>wForeground := c\<rparr>) = widgetOk w" "widgetOk (w\<lparr>wBackground := c\<rparr>) = widgetOk w"
  "widgetOk (w\<lparr>wX := x\<rparr>) = widgetOk w" "widgetOk (w\<lparr>wY := y\<rparr>) = widgetOk w"
  "widgetOk (w\<lparr>wW := x\<rparr>) = widgetOk w" "widgetOk (w\<lparr>wH := y\<rparr>) = widgetOk w"
  "widgetOk (w\<lparr>wNatW := x\<rparr>) = widgetOk w" "widgetOk (w\<lparr>wNatH := y\<rparr>) = widgetOk w"
  "widgetOk (w\<lparr>wGrows := b\<rparr>) = widgetOk w" "widgetOk (w\<lparr>wDisabled := b\<rparr>) = widgetOk w"
  "widgetOk (w\<lparr>wChildren := cs\<rparr>) = widgetOk w" "widgetOk (w\<lparr>wId := i\<rparr>) = widgetOk w"
  by (simp_all add: widgetOk_def)

lemma widgetOk_listScroll: "widgetOk w \<Longrightarrow> 0 \<le> s \<Longrightarrow> widgetOk (w\<lparr>wListScroll := s\<rparr>)"
  by (simp add: widgetOk_def)

lemma widgetOk_selected: "widgetOk w \<Longrightarrow> -1 \<le> s \<Longrightarrow> s < countOf w \<Longrightarrow> widgetOk (w\<lparr>wSelected := s\<rparr>)"
  by (simp add: widgetOk_def contentsOk_def)

lemma widgetOk_highlight: "widgetOk w \<Longrightarrow> -1 \<le> s \<Longrightarrow> s < countOf w \<Longrightarrow> widgetOk (w\<lparr>wHighlight := s\<rparr>)"
  by (simp add: widgetOk_def contentsOk_def)

lemma widgetOk_caret:
  "widgetOk w \<Longrightarrow> 0 \<le> c \<Longrightarrow> c \<le> int (length (wText w)) \<Longrightarrow> widgetOk (w\<lparr>wCaret := c\<rparr>)"
  by (simp add: widgetOk_def contentsOk_def)

lemma widgetOk_text:
  "widgetOk w \<Longrightarrow> int (length t) \<le> (if wKind w = kindTextArea then maxAreaRunes else maxTextRunes)
   \<Longrightarrow> 0 \<le> c \<Longrightarrow> c \<le> int (length t) \<Longrightarrow> widgetOk (w\<lparr>wText := t, wCaret := c\<rparr>)"
  by (simp add: widgetOk_def contentsOk_def)

text \<open>Scrolling sets the two scroll positions and nothing else.\<close>

named_theorems widget_steps "operations on one widget keep its shape and its invariant"

lemma clampScroll_form:
  obtains x y where "clampScroll w = w\<lparr>wScrollY := y, wScrollX := x\<rparr>"
    and "scrolling w \<or> 0 \<le> wScrollY w \<Longrightarrow> 0 \<le> y" and "wKind w = kindTable \<or> 0 \<le> wScrollX w \<Longrightarrow> 0 \<le> x"
proof (cases "scrolling w")
  case False
  then have "clampScroll w = w\<lparr>wScrollY := wScrollY w, wScrollX := wScrollX w\<rparr>"
    by (simp add: clampScroll_def)
  then show thesis by (rule that) (use False in \<open>auto simp: scrolling_def\<close>)
next
  case True
  let ?v = "viewportOf w"
  let ?y = "min (max (wScrollY w) 0) (max (vContentH ?v - vH ?v) 0)"
  let ?x = "if wKind w = kindTable then min (max (wScrollX w) 0) (max (vContentW ?v - vW ?v) 0) else wScrollX w"
  have "clampScroll w = w\<lparr>wScrollY := ?y, wScrollX := ?x\<rparr>"
    using True by (simp add: clampScroll_def Let_def)
  then show thesis by (rule that) auto
qed

lemma clampScroll_ok:
  assumes "contentsOk w" "0 \<le> wListScroll w" "scrolling w \<or> 0 \<le> wScrollY w"
    "wKind w = kindTable \<or> 0 \<le> wScrollX w"
  shows "widgetOk (clampScroll w)"
  using assms by (cases rule: clampScroll_form [of w]) (simp add: widgetOk_def)

lemma shape_clampScroll [simp]: "shape (clampScroll w) = shape w"
  by (cases rule: clampScroll_form [of w]) simp

lemma clampScroll_fields [simp]:
  "wText (clampScroll w) = wText w" "wCaret (clampScroll w) = wCaret w" "wKind (clampScroll w) = wKind w"
  "wSelected (clampScroll w) = wSelected w" "wX (clampScroll w) = wX w" "wY (clampScroll w) = wY w"
  "wW (clampScroll w) = wW w" "wH (clampScroll w) = wH w" "wNatW (clampScroll w) = wNatW w"
  "wNatH (clampScroll w) = wNatH w" "wGrows (clampScroll w) = wGrows w"
  by (cases rule: clampScroll_form [of w], simp)+

lemma clampScroll_steps [widget_steps]:
  "shape (clampScroll w) = shape w" "widgetOk w \<Longrightarrow> widgetOk (clampScroll w)"
  by (auto simp: widgetOk_def [of w] intro: clampScroll_ok)

text \<open>The other functions move the scroll and then clamp it.\<close>

lemma scrolled_steps:
  "scrolling w \<Longrightarrow> shape (clampScroll (w\<lparr>wScrollY := y\<rparr>)) = shape w"
  "scrolling w \<Longrightarrow> widgetOk w \<Longrightarrow> widgetOk (clampScroll (w\<lparr>wScrollY := y\<rparr>))"
  by (auto simp: widgetOk_def [of w] scrolling_def intro!: clampScroll_ok)

lemma reveal_form: obtains "reveal w = w" | y where "reveal w = clampScroll (w\<lparr>wScrollY := y\<rparr>)" "scrolling w"
proof (cases "wKind w = kindListBox \<or> wKind w = kindTable")
  case True
  then have "\<exists>y. reveal w = clampScroll (w\<lparr>wScrollY := y\<rparr>)"
    unfolding reveal_def Let_def
    by (auto intro: exI [of _ "wScrollY w"])
  with True that show thesis by (auto simp: scrolling_def)
qed (auto simp: reveal_def intro: that)

lemma reveal_steps [widget_steps]:
  "shape (reveal w) = shape w" "widgetOk w \<Longrightarrow> widgetOk (reveal w)"
  by (cases rule: reveal_form [of w]; simp add: scrolled_steps)+

lemma revealCaret_form:
  obtains "revealCaret w = w" | y where "revealCaret w = clampScroll (w\<lparr>wScrollY := y\<rparr>)" "scrolling w"
proof (cases "wKind w = kindTextArea")
  case True
  then have "\<exists>y. revealCaret w = clampScroll (w\<lparr>wScrollY := y\<rparr>)"
    unfolding revealCaret_def Let_def
    by (auto intro: exI [of _ "wScrollY w"])
  with True that show thesis by (auto simp: scrolling_def)
qed (auto simp: revealCaret_def intro: that)

lemma revealCaret_steps [widget_steps]:
  "shape (revealCaret w) = shape w" "widgetOk w \<Longrightarrow> widgetOk (revealCaret w)"
  by (cases rule: revealCaret_form [of w]; simp add: scrolled_steps)+

lemma dragScrollbar_steps [widget_steps]:
  "shape (dragScrollbar g y w) = shape w"
  "widgetOk w \<Longrightarrow> scrolling w \<Longrightarrow> widgetOk (dragScrollbar g y w)"
  by (simp_all add: dragScrollbar_def Let_def scrolled_steps)

lemma wheel_steps [widget_steps]:
  "shape (clampScroll (w\<lparr>wScrollY := y, wScrollX := x\<rparr>)) = shape w"
  "scrolling w \<Longrightarrow> widgetOk w \<Longrightarrow> wKind w = kindTable \<or> 0 \<le> x \<Longrightarrow>
   widgetOk (clampScroll (w\<lparr>wScrollY := y, wScrollX := x\<rparr>))"
  by (auto simp: widgetOk_def [of w] scrolling_def intro!: clampScroll_ok)

lemma itemHeight_pos [simp]: "0 < itemHeight" "0 \<le> itemHeight"
  by (simp_all add: itemHeight_def)

lemma clampPopup_steps [widget_steps]:
  "shape (clampPopup w) = shape w" "widgetOk (w\<lparr>wListScroll := 0\<rparr>) \<Longrightarrow> widgetOk (clampPopup w)"
  "widgetOk w \<Longrightarrow> widgetOk (clampPopup w)"
  by (simp_all add: clampPopup_def widgetOk_def)

lemma revealPopup_steps [widget_steps]:
  "shape (revealPopup w) = shape w" "widgetOk w \<Longrightarrow> widgetOk (revealPopup w)"
  by (simp_all add: revealPopup_def clampPopup_def widgetOk_def Let_def)

subsection \<open>Text\<close>

lemma length_toRunes: "length (toRunes s) = RuneCount s"
proof (induction s rule: toRunes.induct)
  case (1 s)
  then show ?case
    by (cases "s = []") (simp add: toRunes.simps, subst toRunes.simps, simp add: RuneCount_step)
qed

lemma widgetOk_caretD: "widgetOk w \<Longrightarrow> 0 \<le> wCaret w \<and> wCaret w \<le> int (length (wText w))"
  by (simp add: widgetOk_def contentsOk_def)

lemma widgetOk_lengthD:
  "widgetOk w \<Longrightarrow> int (length (wText w)) \<le> (if wKind w = kindTextArea then maxAreaRunes else maxTextRunes)"
  by (simp add: widgetOk_def contentsOk_def)

lemma insertRune_steps [widget_steps]:
  "shape (insertRune c w) = shape w" "wKind (insertRune c w) = wKind w"
  "widgetOk w \<Longrightarrow> int (length (wText w)) < (if wKind w = kindTextArea then maxAreaRunes else maxTextRunes)
   \<Longrightarrow> widgetOk (insertRune c w)"
proof -
  assume w: "widgetOk w" and l: "int (length (wText w)) < (if wKind w = kindTextArea then maxAreaRunes else maxTextRunes)"
  show "widgetOk (insertRune c w)"
    unfolding insertRune_def using widgetOk_caretD [OF w] l by (intro widgetOk_text [OF w]) auto
qed (simp_all add: insertRune_def)

lemma backspace_steps [widget_steps]:
  "shape (backspace w) = shape w" "widgetOk w \<Longrightarrow> 0 < wCaret w \<Longrightarrow> widgetOk (backspace w)"
proof -
  assume w: "widgetOk w" and c: "0 < wCaret w"
  show "widgetOk (backspace w)"
    unfolding backspace_def using widgetOk_caretD [OF w] widgetOk_lengthD [OF w] c
    by (intro widgetOk_text [OF w]) auto
qed (simp_all add: backspace_def)

lemma deleteRune_steps [widget_steps]:
  "shape (deleteRune w) = shape w"
  "widgetOk w \<Longrightarrow> wCaret w < int (length (wText w)) \<Longrightarrow> widgetOk (deleteRune w)"
proof -
  assume w: "widgetOk w" and c: "wCaret w < int (length (wText w))"
  have "deleteRune w = w\<lparr>wText := take (nat (wCaret w)) (wText w) @ drop (nat (wCaret w + 1)) (wText w),
      wCaret := wCaret w\<rparr>" by (simp add: deleteRune_def)
  moreover have "widgetOk \<dots>"
    using widgetOk_caretD [OF w] widgetOk_lengthD [OF w] c by (intro widgetOk_text [OF w]) auto
  ultimately show "widgetOk (deleteRune w)" by simp
qed (simp_all add: deleteRune_def)

lemma insertRunes_steps [widget_steps]:
  assumes "insertRunes limit rs (changed, w) = (changed', w')"
    and "limit = (if wKind w = kindTextArea then maxAreaRunes else maxTextRunes)" and "widgetOk w"
  shows "shape w' = shape w" "widgetOk w'" "\<not> changed' \<Longrightarrow> w' = w"
proof -
  have "shape w' = shape w \<and> widgetOk w' \<and> (\<not> changed' \<longrightarrow> \<not> changed \<and> w' = w)"
    using assms
  proof (induction rs arbitrary: changed w)
    case (Cons c rs)
    show ?case
    proof (cases "(\<not> (c = newlineRune \<and> wKind w = kindTextArea) \<and> (c < 0x20 \<or> c = 0x7F)) \<or> \<not> validRune c
        \<or> int (length (wText w)) \<ge> limit")
      case False
      then have "insertRunes limit rs (True, insertRune c w) = (changed', w')"
        using Cons.prems(1) by (auto simp: Let_def split: if_splits)
      from Cons.IH [OF this] show ?thesis
        using Cons.prems(2,3) False by (auto simp: insertRune_steps)
    next
      case True
      then have "insertRunes limit rs (changed, w) = (changed', w')"
        using Cons.prems(1) by (auto simp: Let_def split: if_splits)
      from Cons.IH [OF this Cons.prems(2,3)] show ?thesis .
    qed
  qed simp
  then show "shape w' = shape w" "widgetOk w'" "\<not> changed' \<Longrightarrow> w' = w" by simp_all
qed

text \<open>Lines: the offset of a position lies in the text, and the position of a caret leads back to it.\<close>

lemma areaLinesFrom_ne [simp]: "areaLinesFrom lines current rs \<noteq> []"
  by (induction rs arbitrary: lines current) simp_all

lemma areaLines_ne [simp]: "areaLines rs \<noteq> []"
  by (simp add: areaLines_def)

lemma areaLinesFrom_append: "areaLinesFrom lines current rs = lines @ areaLinesFrom [] current rs"
  by (induction rs arbitrary: lines current) (simp, metis append_assoc append_Nil areaLinesFrom.simps(2))

lemma areaLinesFrom_newline: "areaLinesFrom [] cur (newlineRune # rs) = cur # areaLinesFrom [] [] rs"
  by (simp add: areaLinesFrom_append [of "[cur]"])

lemma areaLinesFrom_split:
  "areaLinesFrom [] cur (xs @ ys)
   = butlast (areaLinesFrom [] cur xs) @ areaLinesFrom [] (last (areaLinesFrom [] cur xs)) ys"
proof (induction xs arbitrary: cur)
  case (Cons x xs)
  then show ?case
    by (cases "x = newlineRune") (simp_all only: append_Cons areaLinesFrom_newline, simp_all)
qed simp

lemma areaLines_total:
  "sum_list (map (\<lambda>l. int (length l) + 1) (areaLinesFrom [] cur rs)) = int (length cur) + int (length rs) + 1"
proof (induction rs arbitrary: cur)
  case (Cons r rs)
  then show ?case
    by (cases "r = newlineRune") (simp_all only: areaLinesFrom_newline, simp_all)
qed simp

lemma areaLinesFrom_hd: "length cur \<le> length (hd (areaLinesFrom [] cur rs))"
proof (induction rs arbitrary: cur)
  case (Cons r rs)
  then show ?case
    by (cases "r = newlineRune")
      (simp_all only: areaLinesFrom_newline, simp_all, metis Cons.IH Suc_leD length_append_singleton)
qed simp

lemma areaPositionFrom_lines:
  "areaPositionFrom (line, int (length cur)) rs
   = (line + int (length (areaLinesFrom [] cur rs)) - 1, int (length (last (areaLinesFrom [] cur rs))))"
proof (induction rs arbitrary: line cur)
  case (Cons r rs)
  show ?case
  proof (cases "r = newlineRune")
    case True
    then show ?thesis using Cons.IH [of "line + 1" "[]"] by (simp only: areaLinesFrom_newline) simp
  next
    case False
    then show ?thesis using Cons.IH [of line "cur @ [r]"] by (simp add: add.commute)
  qed
qed simp

lemma areaOffset_bounds: "0 \<le> areaOffset rs line column" "areaOffset rs line column \<le> int (length rs)"
proof -
  let ?lines = "areaLines rs" and ?size = "\<lambda>l. int (length l) + 1"
  define k where "k = nat (min (max line 0) (int (length ?lines) - 1))"
  have k: "k < length ?lines"
    using length_greater_0_conv [of ?lines] areaLines_ne [of rs] unfolding k_def by linarith
  have off: "areaOffset rs line column
      = sum_list (map ?size (take k ?lines)) + min (max column 0) (int (length (?lines ! k)))"
    by (simp add: areaOffset_def k_def Let_def)
  have "sum_list (map ?size ?lines) = int (length rs) + 1"
    using areaLines_total [of "[]" rs] by (simp add: areaLines_def)
  moreover have "?lines = take k ?lines @ ?lines ! k # drop (Suc k) ?lines"
    using k by (simp add: id_take_nth_drop)
  then have "sum_list (map ?size ?lines)
      = sum_list (map ?size (take k ?lines)) + ?size (?lines ! k) + sum_list (map ?size (drop (Suc k) ?lines))"
    by (metis (no_types, lifting) add.assoc list.simps(9) map_append sum_list.Cons sum_list_append)
  moreover have pos: "0 \<le> sum_list (map ?size ls)" for ls by (rule sum_list_nonneg) auto
  ultimately show "0 \<le> areaOffset rs line column" "areaOffset rs line column \<le> int (length rs)"
    using off pos [of "take k ?lines"] pos [of "drop (Suc k) ?lines"] by auto
qed

text \<open>The caret as line and column leads back to the caret.\<close>

lemma areaOffset_areaPosition:
  assumes "0 \<le> caret" "caret \<le> int (length rs)"
  shows "areaOffset rs (fst (areaPosition rs caret)) (snd (areaPosition rs caret)) = caret"
proof -
  define xs ys where "xs = take (nat caret) rs" and "ys = drop (nat caret) rs"
  have rs: "rs = xs @ ys" and len: "int (length xs) = caret" using assms by (auto simp: xs_def ys_def)
  let ?ls = "areaLinesFrom [] [] xs" and ?size = "\<lambda>l. int (length l) + 1"
  let ?rest = "areaLinesFrom [] (last ?ls) ys"
  have pos: "areaPosition rs caret = (int (length ?ls) - 1, int (length (last ?ls)))"
    using areaPositionFrom_lines [of 0 "[]" xs] by (simp add: areaPosition_def xs_def)
  have lines: "areaLines rs = butlast ?ls @ ?rest"
    unfolding areaLines_def rs by (rule areaLinesFrom_split)
  have n: "0 < length ?ls" "0 < length ?rest" by simp_all
  define k where "k = length (butlast ?ls)"
  have "int k = int (length ?ls) - 1" using n(1) unfolding k_def length_butlast by linarith
  moreover have "int (length (areaLines rs)) = int k + int (length ?rest)" unfolding lines k_def by simp
  ultimately have k: "nat (min (max (int (length ?ls) - 1) 0) (int (length (areaLines rs)) - 1)) = k"
    using n(2) by linarith
  have nth: "areaLines rs ! k = hd ?rest"
    unfolding lines k_def using n by (simp add: nth_append hd_conv_nth)
  have col: "int (length (last ?ls)) \<le> int (length (hd ?rest))" using areaLinesFrom_hd by simp
  have "?ls = butlast ?ls @ [last ?ls]" by simp
  then have "sum_list (map ?size ?ls) = sum_list (map ?size (butlast ?ls)) + ?size (last ?ls)"
    by (metis (no_types, lifting) list.simps(8,9) map_append sum_list.Cons sum_list.Nil sum_list_append
        add.right_neutral)
  then have sum: "sum_list (map ?size (butlast ?ls)) + int (length (last ?ls)) = caret"
    using areaLines_total [of "[]" xs] len by simp
  have "take k (areaLines rs) = butlast ?ls" unfolding lines k_def by simp
  then show ?thesis
    using k nth col sum unfolding pos areaOffset_def Let_def fst_conv snd_conv k by simp
qed

lemma areaPosition_nonneg: "0 \<le> fst (areaPosition rs caret)" "0 \<le> snd (areaPosition rs caret)"
  using areaPositionFrom_lines [of 0 "[]" "take (nat caret) rs"]
    length_greater_0_conv [of "areaLinesFrom [] [] (take (nat caret) rs)"]
  by (simp_all add: areaPosition_def)

end
