(* ===== verification/GuiLayout.thy ===== *)
theory GuiLayout
  imports GuiProofs
begin

text \<open>
  The layout of a window: measuring and placing end on every tree of widgets, and put each widget
  inside the padding of its container, siblings one after the other. So no point lies in two leaves,
  and \<open>hit\<close> finds the leaf there is.
\<close>

subsection \<open>The tree under a widget\<close>

definition childRel :: "model \<Rightarrow> (int \<times> int) set" where
  "childRel m = {(p, c). \<exists>w. mWidgets m p = Some w \<and> c \<in> set (wChildren w)}"

definition under :: "model \<Rightarrow> int \<Rightarrow> int set" where
  "under m i = (childRel m)\<^sup>* `` {i}"

lemma childRel_I: "mWidgets m p = Some w \<Longrightarrow> c \<in> set (wChildren w) \<Longrightarrow> (p, c) \<in> childRel m"
  by (auto simp: childRel_def)

lemma sameTree_childRel:
  assumes "sameTree m m'"
  shows "childRel m' = childRel m"
proof -
  have "childRel a \<subseteq> childRel b" if t: "sameTree a b" for a b
  proof (rule subrelI)
    fix p c
    assume "(p, c) \<in> childRel a"
    then obtain w where "mWidgets a p = Some w" "c \<in> set (wChildren w)" by (auto simp: childRel_def)
    moreover from this(1) obtain w' where "mWidgets b p = Some w'" "shape w' = shape w"
      using t by (auto elim: sameTree_Some)
    ultimately show "(p, c) \<in> childRel b" by (auto simp: childRel_def shape_def)
  qed
  from this [OF assms] this [OF sameTree_sym [OF assms]] show ?thesis by blast
qed

lemma sameTree_below: "sameTree m m' \<Longrightarrow> under m' i = under m i"
  by (simp add: under_def sameTree_childRel)

lemma under_refl [simp]: "i \<in> under m i"
  by (simp add: under_def)

lemma under_child: "(i, c) \<in> childRel m \<Longrightarrow> j \<in> under m c \<Longrightarrow> j \<in> under m i"
  by (auto simp: under_def intro: converse_rtrancl_into_rtrancl)

lemma under_step: "j \<in> under m i \<Longrightarrow> (j, c) \<in> childRel m \<Longrightarrow> c \<in> under m i"
  by (auto simp: under_def intro: rtrancl_into_rtrancl)

lemma under_cases:
  "j \<in> under m i \<longleftrightarrow> j = i \<or> (\<exists>c. (i, c) \<in> childRel m \<and> j \<in> under m c)"
  unfolding under_def by (auto elim: converse_rtranclE intro: converse_rtrancl_into_rtrancl)

lemma childRel_node:
  assumes tree: "treeOk m" and "(p, c) \<in> childRel m"
  shows "p < c" and "\<exists>cw. mWidgets m c = Some cw \<and> wParent cw = p"
proof -
  obtain w where w: "mWidgets m p = Some w" "c \<in> set (wChildren w)"
    using assms(2) by (auto simp: childRel_def)
  then have "treeNode (mWidgets m) p w" using tree by (simp add: treeOk_def)
  with w show "p < c" "\<exists>cw. mWidgets m c = Some cw \<and> wParent cw = p" by (auto simp: treeNode_def)
qed

lemma childRel_parent:
  assumes "treeOk m" "(p, c) \<in> childRel m" "(q, c) \<in> childRel m" shows "p = q"
  using childRel_node(2) [OF assms(1,2)] childRel_node(2) [OF assms(1,3)] by auto

lemma under_le:
  assumes "treeOk m" "j \<in> under m i" shows "i \<le> j"
proof -
  have "(i, j) \<in> (childRel m)\<^sup>*" using assms(2) by (simp add: under_def)
  then show ?thesis by (induction rule: rtrancl_induct) (use childRel_node(1) [OF assms(1)] in fastforce)+
qed

lemma under_child_greater:
  assumes "treeOk m" "(i, c) \<in> childRel m" "j \<in> under m c" shows "i < j"
  using childRel_node(1) [OF assms(1,2)] under_le [OF assms(1,3)] by simp

lemma under_linear:
  assumes tree: "treeOk m" and "j \<in> under m a" and "j \<in> under m b" shows "a \<in> under m b \<or> b \<in> under m a"
proof -
  have "(a, j) \<in> (childRel m)\<^sup>*" using assms(2) by (simp add: under_def)
  then show ?thesis
  proof (induction rule: converse_rtrancl_induct)
    case base
    show ?case using assms(3) by simp
  next
    case (step x y)
    from step.IH show ?case
    proof
      assume "y \<in> under m b"
      then have "(b, y) \<in> (childRel m)\<^sup>*" by (simp add: under_def)
      then show ?thesis
      proof (cases rule: rtranclE)
        case base
        then show ?thesis using step.hyps(1) by (auto intro: under_child)
      next
        case (step z)
        with \<open>(x, y) \<in> childRel m\<close> have "z = x" using tree by (auto dest: childRel_parent)
        with step show ?thesis by (simp add: under_def)
      qed
    next
      assume "b \<in> under m y"
      with step.hyps(1) show ?thesis by (auto intro: under_child)
    qed
  qed
qed

lemma under_siblings:
  assumes tree: "treeOk m" and "(i, c) \<in> childRel m" "(i, d) \<in> childRel m" "c \<noteq> d"
  shows "under m c \<inter> under m d = {}"
proof -
  have apart: "a \<notin> under m b" if ab: "(i, a) \<in> childRel m" "(i, b) \<in> childRel m" "a \<noteq> b" for a b
  proof
    assume "a \<in> under m b"
    then have "(b, a) \<in> (childRel m)\<^sup>*" by (simp add: under_def)
    then obtain z where "(b, z) \<in> (childRel m)\<^sup>*" "(z, a) \<in> childRel m"
      using ab(3) by (auto elim: rtranclE)
    then have "i \<in> under m b" using childRel_parent [OF tree _ ab(1)] by (auto simp: under_def)
    then show False using under_le [OF tree] childRel_node(1) [OF tree ab(2)] by force
  qed
  show ?thesis using under_linear [OF tree] apart assms(2-4) by blast
qed

lemma under_dom:
  assumes tree: "treeOk m" and i: "i \<in> dom (mWidgets m)" and "j \<in> under m i"
  shows "j \<in> dom (mWidgets m)"
proof -
  have "(i, j) \<in> (childRel m)\<^sup>*" using assms(3) by (simp add: under_def)
  then show ?thesis by (cases rule: rtranclE) (use i childRel_node(2) [OF tree] in auto)
qed

lemma all_under_root:
  assumes tree: "treeOk m"
  shows "j \<in> dom (mWidgets m) \<Longrightarrow> j \<in> under m 1"
proof (induction "nat j" arbitrary: j rule: less_induct)
  case less
  then obtain w where w: "mWidgets m j = Some w" by blast
  have n: "treeNode (mWidgets m) j w" using tree w by (simp add: treeOk_def)
  show ?case
  proof (cases "j = 1")
    case False
    then obtain pw where pw: "mWidgets m (wParent w) = Some pw" "j \<in> set (wChildren pw)"
      using n by (auto simp: treeNode_def)
    then have r: "(wParent w, j) \<in> childRel m" by (rule childRel_I)
    have "wParent w \<in> {1..mNext m}" using pw(1) tree by (auto simp: treeOk_def)
    then have "nat (wParent w) < nat j" using childRel_node(1) [OF tree r] by auto
    then have "wParent w \<in> under m 1" using less.hyps pw(1) by blast
    then show ?thesis using r by (rule under_step)
  qed simp
qed

subsection \<open>Measuring\<close>

text \<open>What measuring changes: the natural sizes, and who grows.\<close>

definition stripNat :: "widget \<Rightarrow> widget" where
  "stripNat w = w\<lparr>wNatW := 0, wNatH := 0, wGrows := False\<rparr>"

definition onlyNat :: "model \<Rightarrow> model \<Rightarrow> bool" where
  "onlyNat m m' \<longleftrightarrow> (\<exists>ws. m' = m\<lparr>mWidgets := ws\<rparr> \<and> map_option stripNat \<circ> ws = map_option stripNat \<circ> mWidgets m)"

lemma onlyNat_refl [simp]: "onlyNat m m"
  unfolding onlyNat_def by (rule exI [of _ "mWidgets m"]) simp

lemma onlyNat_trans [trans]: "onlyNat a b \<Longrightarrow> onlyNat b c \<Longrightarrow> onlyNat a c"
  by (auto simp: onlyNat_def)

lemma onlyNat_Some:
  assumes "onlyNat m m'" and "mWidgets m i = Some w"
  obtains w' where "mWidgets m' i = Some w'" and "stripNat w' = stripNat w"
proof -
  have "map_option stripNat (mWidgets m' i) = map_option stripNat (mWidgets m i)"
    using assms(1) by (auto simp: onlyNat_def fun_eq_iff)
  then show thesis using assms(2) by (auto intro: that)
qed

lemma stripNat_shape: "stripNat w' = stripNat w \<Longrightarrow> shape w' = shape w"
  by (metis stripNat_def shape_updates(19-21))

lemma stripNat_ok: "stripNat w' = stripNat w \<Longrightarrow> widgetOk w \<Longrightarrow> widgetOk w'"
  by (metis stripNat_def widgetOk_updates(9-11))

lemma onlyNat_sameTree: "onlyNat m m' \<Longrightarrow> sameTree m m'"
  unfolding sameTree_def
proof (intro conjI allI)
  fix i
  assume o: "onlyNat m m'"
  then have "map_option stripNat (mWidgets m' i) = map_option stripNat (mWidgets m i)"
    by (auto simp: onlyNat_def fun_eq_iff)
  then show "map_option shape (mWidgets m' i) = map_option shape (mWidgets m i)"
    by (cases "mWidgets m i"; cases "mWidgets m' i") (auto dest: stripNat_shape)
qed (auto simp: onlyNat_def)

lemma onlyNat_guiOk:
  assumes "onlyNat m m'" and "guiOk m"
  shows "guiOk m'"
proof (rule guiOk_sameTree [OF assms(2) onlyNat_sameTree [OF assms(1)]])
  show "sameInput m m'" using assms(1) by (auto simp: onlyNat_def sameInput_def)
  fix i w'
  assume w': "mWidgets m' i = Some w'"
  have "map_option stripNat (mWidgets m' i) = map_option stripNat (mWidgets m i)"
    using assms(1) by (auto simp: onlyNat_def fun_eq_iff)
  then obtain w where "mWidgets m i = Some w" "stripNat w' = stripNat w"
    using w' by (cases "mWidgets m i") auto
  then show "widgetOk w'" using guiOk_widget [OF assms(2)] by (auto intro: stripNat_ok)
qed

lemma onlyNat_updateW:
  assumes "\<And>w. mWidgets m i = Some w \<Longrightarrow> stripNat (f w) = stripNat w"
  shows "onlyNat m (updateW i f m)"
  unfolding onlyNat_def
  by (rule exI [of _ "mWidgets (updateW i f m)"])
    (use assms in \<open>cases "mWidgets m i", auto simp: updateW_def fun_eq_iff\<close>)

text \<open>What the natural sizes are, in terms of the natural sizes of the children.\<close>

definition alongOf :: "bool \<Rightarrow> widget \<Rightarrow> int" where
  "alongOf column w = (if column then wNatH w else wNatW w)"

definition acrossOf :: "bool \<Rightarrow> widget \<Rightarrow> int" where
  "acrossOf column w = (if column then wNatW w else wNatH w)"

definition extentFrom :: "bool \<Rightarrow> int \<Rightarrow> int list \<Rightarrow> int" where
  "extentFrom first spacing sizes =
    sum_list sizes + spacing * (int (length sizes) - (if first \<and> sizes \<noteq> [] then 1 else 0))"

definition kidsOf :: "model \<Rightarrow> int list \<Rightarrow> widget list" where
  "kidsOf m cs = map (\<lambda>c. the (mWidgets m c)) cs"

definition measuredAt :: "model \<Rightarrow> int \<Rightarrow> bool" where
  "measuredAt m i \<longleftrightarrow> (\<exists>w. mWidgets m i = Some w \<and> 0 \<le> wNatW w \<and> 0 \<le> wNatH w \<and>
     (if container w
      then (let column = (wKind w = kindColumn); kids = kidsOf m (wChildren w)
            in alongOf column w = extentFrom True (wSpacing w) (map (alongOf column) kids) + 2 * wPadding w
             \<and> acrossOf column w = fold max (map (acrossOf column) kids) 0 + 2 * wPadding w
             \<and> (wGrows w \<longleftrightarrow> list_ex wGrows kids))
      else (wNatW w, wNatH w) = naturalLeaf m w \<and> (wGrows w \<longleftrightarrow> scrolling w)))"

lemma naturalLeaf_cong:
  "stripNat w' = stripNat w \<Longrightarrow> mMeasure m' = mMeasure m \<Longrightarrow> naturalLeaf m' w' = naturalLeaf m w"
proof -
  assume s: "stripNat w' = stripNat w" and m: "mMeasure m' = mMeasure m"
  have "wKind w' = wKind w" "wText w' = wText w" "wPlaceholder w' = wPlaceholder w"
    "wItems w' = wItems w" "wWidths w' = wWidths w"
    using arg_cong [OF s, of wKind] arg_cong [OF s, of wText] arg_cong [OF s, of wPlaceholder]
      arg_cong [OF s, of wItems] arg_cong [OF s, of wWidths] by (simp_all add: stripNat_def)
  then show ?thesis using m by (cases "wKind w") (simp_all add: naturalLeaf_def)
qed

lemma fold_max_ge: "(z::int) \<le> fold max xs z" "x \<in> set xs \<Longrightarrow> x \<le> fold max xs z"
proof (induction xs arbitrary: z)
  case (Cons y xs)
  { case 1 show ?case using Cons.IH(1) [of "max y z"] by simp }
  { case 2 then show ?case using Cons.IH(1) [of "max y z"] Cons.IH(2) [of "max y z"] by auto }
qed simp_all

lemma fold_max_item: "(z::int) \<le> fold (\<lambda>x. max' (f x)) xs z" if "\<And>a b. b \<le> max' a b" for max'
proof (induction xs arbitrary: z)
  case (Cons x xs)
  show ?case using Cons.IH [of "max' (f x) z"] that [of z "f x"] by simp
qed simp

lemma naturalLeaf_nonneg:
  assumes "\<forall>s. 0 \<le> mMeasure m s"
  shows "0 \<le> fst (naturalLeaf m w)" "0 \<le> snd (naturalLeaf m w)"
  using assms by (auto simp: naturalLeaf_def Let_def metrics split: widgetKind.split)

lemma measuredAt_frame:
  assumes "measuredAt m d" and "mMeasure m' = mMeasure m"
    and "mWidgets m' d = mWidgets m d" and "\<And>c. (d, c) \<in> childRel m \<Longrightarrow> mWidgets m' c = mWidgets m c"
  shows "measuredAt m' d"
proof -
  obtain w where w: "mWidgets m d = Some w" using assms(1) by (auto simp: measuredAt_def)
  have kids: "kidsOf m' (wChildren w) = kidsOf m (wChildren w)"
    unfolding kidsOf_def by (rule map_cong [OF refl]) (simp only: assms(4) [OF childRel_I [OF w]])
  have leaf: "naturalLeaf m' w = naturalLeaf m w" using assms(2) by (rule naturalLeaf_cong [OF refl])
  have w': "mWidgets m' d = Some w" using assms(3) w by (rule trans)
  from assms(1) show ?thesis
    unfolding measuredAt_def w w' by (simp only: option.inject) (metis kids leaf)
qed

text \<open>Measuring one widget, as the loop over the children needs it.\<close>

definition measuresBelow :: "(model \<Rightarrow> int \<Rightarrow> model option) \<Rightarrow> model \<Rightarrow> int \<Rightarrow> bool" where
  "measuresBelow measureOne m c \<longleftrightarrow> (\<exists>m'. measureOne m c = Some m' \<and> onlyNat m m'
     \<and> (\<forall>j. j \<notin> under m c \<longrightarrow> mWidgets m' j = mWidgets m j) \<and> (\<forall>d \<in> under m c. measuredAt m' d))"

lemma extentFrom_Cons:
  "extentFrom first spacing (x # xs) = x + (if first then 0 else spacing) + extentFrom False spacing xs"
  by (simp add: extentFrom_def algebra_simps)

lemma measureChildren_ok:
  assumes one: "\<forall>m c. guiOk m \<and> c \<in> dom (mWidgets m) \<and> c \<in> C \<and> mNext m = n \<longrightarrow> measuresBelow measureOne m c"
    and "guiOk m" "mNext m = n" "set cs \<subseteq> C" "distinct cs" "\<forall>c \<in> set cs. (i, c) \<in> childRel m"
  shows "\<exists>m'. measureChildren measureOne column spacing cs first (m, width, height, grows)
      = Some (let kids = kidsOf m' cs; alongs = extentFrom first spacing (map (alongOf column) kids);
                  widest = fold max (map (acrossOf column) kids)
              in (m', if column then widest width else width + alongs,
                  if column then height + alongs else widest height, grows \<or> list_ex wGrows kids))
    \<and> onlyNat m m' \<and> (\<forall>j. (\<forall>c \<in> set cs. j \<notin> under m c) \<longrightarrow> mWidgets m' j = mWidgets m j)
    \<and> (\<forall>c \<in> set cs. \<forall>d \<in> under m c. measuredAt m' d)"
  using assms(2-)
proof (induction cs arbitrary: m first width height grows)
  case Nil
  show ?case by (rule exI [of _ m]) (simp add: kidsOf_def extentFrom_def)
next
  case (Cons c cs)
  have tree: "treeOk m" using Cons.prems(1) by (simp add: guiOk_def)
  have ic: "(i, c) \<in> childRel m" using Cons.prems(5) by simp
  obtain cw where "mWidgets m c = Some cw" using childRel_node(2) [OF tree ic] by blast
  then have "measuresBelow measureOne m c"
    using Cons.prems(1-3) by (intro one [rule_format]) auto
  then obtain m1 where m1: "measureOne m c = Some m1" "onlyNat m m1"
    "\<And>j. j \<notin> under m c \<Longrightarrow> mWidgets m1 j = mWidgets m j" "\<And>d. d \<in> under m c \<Longrightarrow> measuredAt m1 d"
    by (auto simp: measuresBelow_def)
  note st = onlyNat_sameTree [OF m1(2)]
  obtain child where child: "mWidgets m1 c = Some child" using m1(4) [of c] by (auto simp: measuredAt_def)
  let ?g = "if first then 0 else spacing"
  let ?w = "if column then max width (wNatW child) else width + ?g + wNatW child"
  let ?h = "if column then height + ?g + wNatH child else max height (wNatH child)"
  have pre: "guiOk m1" "mNext m1 = n" "set cs \<subseteq> C" "distinct cs" "\<forall>c \<in> set cs. (i, c) \<in> childRel m1"
    using Cons.prems onlyNat_guiOk [OF m1(2)] m1(2) sameTree_childRel [OF st] by (auto simp: onlyNat_def)
  obtain m2 where m2: "measureChildren measureOne column spacing cs False (m1, ?w, ?h, grows \<or> wGrows child)
      = Some (let kids = kidsOf m2 cs; alongs = extentFrom False spacing (map (alongOf column) kids);
                  widest = fold max (map (acrossOf column) kids)
              in (m2, if column then widest ?w else ?w + alongs,
                  if column then ?h + alongs else widest ?h, (grows \<or> wGrows child) \<or> list_ex wGrows kids))"
    "onlyNat m1 m2" "\<forall>j. (\<forall>c \<in> set cs. j \<notin> under m1 c) \<longrightarrow> mWidgets m2 j = mWidgets m1 j"
    "\<forall>c \<in> set cs. \<forall>d \<in> under m1 c. measuredAt m2 d"
    using Cons.IH [OF pre, of False ?w ?h "grows \<or> wGrows child"] by (elim exE conjE)
  have apart: "j \<notin> under m d" if "j \<in> under m c" "d \<in> set cs" for j d
    using under_siblings [OF tree ic, of d] that Cons.prems(4,5) by auto
  have same: "mWidgets m2 j = mWidgets m1 j" if "j \<in> under m c" for j
    using m2(3) apart that by (simp add: sameTree_below [OF st])
  have kids: "kidsOf m2 (c # cs) = child # kidsOf m2 cs" using same [of c] child by (simp add: kidsOf_def)
  have res: "measureChildren measureOne column spacing (c # cs) first (m, width, height, grows)
      = measureChildren measureOne column spacing cs False (m1, ?w, ?h, grows \<or> wGrows child)"
    using m1(1) child by simp
  have eq: "measureChildren measureOne column spacing (c # cs) first (m, width, height, grows)
      = Some (let kids = kidsOf m2 (c # cs); alongs = extentFrom first spacing (map (alongOf column) kids);
                  widest = fold max (map (acrossOf column) kids)
              in (m2, if column then widest width else width + alongs,
                  if column then height + alongs else widest height, grows \<or> list_ex wGrows kids))"
    unfolding res m2(1) kids Let_def
    by (simp add: extentFrom_Cons alongOf_def acrossOf_def max.commute)
  have measured: "measuredAt m2 d" if "d \<in> under m c" for d
  proof (rule measuredAt_frame [OF m1(4) [OF that]])
    show "mMeasure m2 = mMeasure m1" using m2(2) by (auto simp: onlyNat_def)
    show "mWidgets m2 d = mWidgets m1 d" using same that by blast
    show "mWidgets m2 e = mWidgets m1 e" if "(d, e) \<in> childRel m1" for e
      using same under_step [OF \<open>d \<in> under m c\<close>] that by (simp add: sameTree_childRel [OF st])
  qed
  show ?case
  proof (intro exI [of _ m2] conjI)
    show "onlyNat m m2" using m1(2) m2(2) by (rule onlyNat_trans)
    show "\<forall>j. (\<forall>c \<in> set (c # cs). j \<notin> under m c) \<longrightarrow> mWidgets m2 j = mWidgets m j"
      using m1(3) m2(3) by (simp add: sameTree_below [OF st])
    show "\<forall>c \<in> set (c # cs). \<forall>d \<in> under m c. measuredAt m2 d"
      using measured m2(4) by (simp add: sameTree_below [OF st])
  qed (rule eq)
qed

lemma guiOk_treeOk: "guiOk m \<Longrightarrow> treeOk m"
  by (simp add: guiOk_def)

lemma guiOk_node: "guiOk m \<Longrightarrow> mWidgets m i = Some w \<Longrightarrow> treeNode (mWidgets m) i w"
  by (simp add: guiOk_def treeOk_def)

lemma guiOk_range: "guiOk m \<Longrightarrow> i \<in> dom (mWidgets m) \<Longrightarrow> 1 \<le> i \<and> i \<le> mNext m"
  by (simp add: guiOk_def treeOk_def)

lemma guiOk_rangeI: "guiOk m \<Longrightarrow> mWidgets m i = Some w \<Longrightarrow> 1 \<le> i \<and> i \<le> mNext m"
  using guiOk_range [of m i] by auto

lemma under_leaf:
  assumes "guiOk m" "mWidgets m i = Some w" "\<not> container w"
  shows "under m i = {i}" and "wChildren w = []"
proof -
  show c: "wChildren w = []" using guiOk_node [OF assms(1,2)] assms(3) by (auto simp: treeNode_def)
  have "(i, c) \<notin> childRel m" for c using c assms(2) by (simp add: childRel_def)
  then show "under m i = {i}" by (subst set_eq_iff, subst under_cases) auto
qed

lemma under_container:
  assumes "mWidgets m i = Some w"
  shows "under m i = insert i (\<Union>c \<in> set (wChildren w). under m c)"
proof -
  have "(i, c) \<in> childRel m \<longleftrightarrow> c \<in> set (wChildren w)" for c using assms by (simp add: childRel_def)
  then show ?thesis by (subst set_eq_iff, subst under_cases) auto
qed

lemma extentFrom_nonneg: "list_all (\<lambda>x. 0 \<le> x) xs \<Longrightarrow> 0 \<le> s \<Longrightarrow> 0 \<le> extentFrom first s xs"
  by (induction xs arbitrary: first) (simp_all add: extentFrom_Cons, simp add: extentFrom_def)

lemma measured_nonneg: "measuredAt m i \<Longrightarrow> 0 \<le> alongOf column (the (mWidgets m i))"
  "measuredAt m i \<Longrightarrow> 0 \<le> acrossOf column (the (mWidgets m i))"
  by (auto simp: measuredAt_def alongOf_def acrossOf_def)

lemma guiOk_spacing: "guiOk m \<Longrightarrow> mWidgets m i = Some w \<Longrightarrow> 0 \<le> wSpacing w \<and> 0 \<le> wPadding w"
  by (auto dest: guiOk_widget simp: widgetOk_def contentsOk_def)

lemma measureWidget_ok:
  "guiOk m \<Longrightarrow> i \<in> dom (mWidgets m) \<Longrightarrow> nat (mNext m - i) < fuel \<Longrightarrow> measuresBelow (measureWidget fuel) m i"
proof (induction fuel arbitrary: m i)
  case (Suc fuel)
  obtain w where w: "mWidgets m i = Some w" using Suc.prems(2) by blast
  note ok = Suc.prems(1) and tree = guiOk_treeOk [OF Suc.prems(1)]
  have measure_pos: "\<forall>s. 0 \<le> mMeasure m s" using ok by (simp add: guiOk_def)
  show ?case
  proof (cases "container w")
    case False
    obtain width height where nat: "naturalLeaf m w = (width, height)" by (cases "naturalLeaf m w")
    let ?f = "\<lambda>w'. w'\<lparr>wNatW := width, wNatH := height, wGrows := scrolling w\<rparr>"
    have pos: "0 \<le> width" "0 \<le> height" using naturalLeaf_nonneg [OF measure_pos, of w] nat by simp_all
    have "measureWidget (Suc fuel) m i = Some (updateW i ?f m)" using w False nat by simp
    moreover have "onlyNat m (updateW i ?f m)" by (rule onlyNat_updateW) (simp add: stripNat_def)
    moreover have "naturalLeaf (updateW i ?f m) (?f w) = (width, height)"
      unfolding nat [symmetric] by (rule naturalLeaf_cong) (simp_all add: stripNat_def)
    then have "measuredAt (updateW i ?f m) i"
      using w False pos by (simp add: measuredAt_def mWidgets_updateW container_def scrolling_def)
    ultimately show ?thesis
      unfolding measuresBelow_def under_leaf(1) [OF ok w False]
      by (intro exI [of _ "updateW i ?f m"]) (simp add: mWidgets_updateW)
  next
    case True
    let ?col = "wKind w = kindColumn"
    have rel: "\<forall>c \<in> set (wChildren w). (i, c) \<in> childRel m" using w by (simp add: childRel_def)
    have one: "\<forall>m' c. guiOk m' \<and> c \<in> dom (mWidgets m') \<and> c \<in> set (wChildren w) \<and> mNext m' = mNext m
      \<longrightarrow> measuresBelow (measureWidget fuel) m' c"
    proof (intro allI impI, elim conjE)
      fix m' c
      assume m': "guiOk m'" "c \<in> dom (mWidgets m')" and c: "c \<in> set (wChildren w)" and n: "mNext m' = mNext m"
      have "i < c" using childRel_node(1) [OF tree] rel c by blast
      then have "nat (mNext m' - c) < fuel" using Suc.prems(3) guiOk_range [OF m'] n by linarith
      with m' show "measuresBelow (measureWidget fuel) m' c" by (rule Suc.IH)
    qed
    have node: "distinct (wChildren w)" using guiOk_node [OF ok w] by (simp add: treeNode_def)
    from measureChildren_ok [of "set (wChildren w)" "mNext m" "measureWidget fuel" m "wChildren w" i
        ?col "wSpacing w" True 0 0 "scrolling w", OF one ok refl subset_refl node rel]
    obtain m1 where m1: "measureChildren (measureWidget fuel) ?col (wSpacing w) (wChildren w) True
          (m, 0, 0, scrolling w)
        = Some (let kids = kidsOf m1 (wChildren w); alongs = extentFrom True (wSpacing w) (map (alongOf ?col) kids);
                    widest = fold max (map (acrossOf ?col) kids)
                in (m1, if ?col then widest 0 else 0 + alongs, if ?col then 0 + alongs else widest 0,
                    scrolling w \<or> list_ex wGrows kids))"
      and only: "onlyNat m m1"
      and frame: "\<forall>j. (\<forall>c \<in> set (wChildren w). j \<notin> under m c) \<longrightarrow> mWidgets m1 j = mWidgets m j"
      and sub: "\<forall>c \<in> set (wChildren w). \<forall>d \<in> under m c. measuredAt m1 d"
      by (elim exE conjE)
    define kids where "kids = kidsOf m1 (wChildren w)"
    define alongs where "alongs = extentFrom True (wSpacing w) (map (alongOf ?col) kids)"
    define across where "across = fold max (map (acrossOf ?col) kids) 0"
    define f :: "widget \<Rightarrow> widget" where "f = (\<lambda>w'. w'\<lparr>wNatW := (if ?col then across else alongs) + 2 * wPadding w,
        wNatH := (if ?col then alongs else across) + 2 * wPadding w, wGrows := list_ex wGrows kids\<rparr>)"
    have apart: "i \<notin> under m c" if "c \<in> set (wChildren w)" for c
      using under_child_greater [OF tree, of i c i] rel that by auto
    have i1: "mWidgets m1 i = Some w" using frame apart w by simp
    have noscroll: "\<not> scrolling w" using True by (auto simp: container_def scrolling_def)
    let ?m2 = "updateW i f m1"
    have res: "measureWidget (Suc fuel) m i = Some ?m2"
      using w True m1 noscroll
      by (simp add: Let_def f_def kids_def alongs_def across_def)
    have "onlyNat m1 ?m2" by (rule onlyNat_updateW) (simp add: f_def stripNat_def)
    with only have only2: "onlyNat m ?m2" by (rule onlyNat_trans)
    have same: "mWidgets ?m2 j = mWidgets m1 j" if "j \<noteq> i" for j using that by (simp add: mWidgets_updateW)
    have kids2: "kidsOf ?m2 (wChildren w) = kids"
      unfolding kidsOf_def kids_def using same apart by (intro map_cong [OF refl]) (metis under_refl)
    have pos: "0 \<le> alongs" "0 \<le> across"
      using sub guiOk_spacing [OF ok w]
      by (auto simp: alongs_def across_def kids_def kidsOf_def list_all_iff measured_nonneg
          intro!: extentFrom_nonneg fold_max_ge(1))
    have mi: "measuredAt ?m2 i"
      unfolding measuredAt_def
    proof (intro exI [of _ "f w"] conjI)
      show "mWidgets ?m2 i = Some (f w)" by (simp add: mWidgets_updateW i1)
      show "0 \<le> wNatW (f w)" "0 \<le> wNatH (f w)" using pos guiOk_spacing [OF ok w] by (simp_all add: f_def)
      have "container (f w)" "wKind (f w) = wKind w" "wChildren (f w) = wChildren w"
        "wSpacing (f w) = wSpacing w" "wPadding (f w) = wPadding w"
        using True by (simp_all add: f_def container_def)
      then show "if container (f w)
          then let column = wKind (f w) = kindColumn; kids = kidsOf ?m2 (wChildren (f w))
            in alongOf column (f w) = extentFrom True (wSpacing (f w)) (map (alongOf column) kids) + 2 * wPadding (f w)
             \<and> acrossOf column (f w) = fold max (map (acrossOf column) kids) 0 + 2 * wPadding (f w)
             \<and> wGrows (f w) = list_ex wGrows kids
          else (wNatW (f w), wNatH (f w)) = naturalLeaf ?m2 (f w) \<and> wGrows (f w) = scrolling (f w)"
        by (simp add: kids2 Let_def) (simp add: f_def alongOf_def acrossOf_def alongs_def across_def)
    qed
    have md: "measuredAt ?m2 d" if c: "c \<in> set (wChildren w)" and d: "d \<in> under m c" for c d
    proof (rule measuredAt_frame)
      show "measuredAt m1 d" using sub c d by blast
      show "mMeasure ?m2 = mMeasure m1" by simp
      have "d \<noteq> i" using apart [OF c] d by auto
      then show "mWidgets ?m2 d = mWidgets m1 d" by (rule same)
      show "mWidgets ?m2 e = mWidgets m1 e" if "(d, e) \<in> childRel m1" for e
      proof (rule same)
        have "(d, e) \<in> childRel m" using that by (simp add: sameTree_childRel [OF onlyNat_sameTree [OF only]])
        then show "e \<noteq> i" using under_step [OF d] apart c by blast
      qed
    qed
    show ?thesis
      unfolding measuresBelow_def
    proof (intro exI [of _ ?m2] conjI allI impI ballI res only2)
      show "mWidgets ?m2 j = mWidgets m j" if "j \<notin> under m i" for j
        using that frame by (auto simp: under_container [OF w] mWidgets_updateW)
      show "measuredAt ?m2 d" if "d \<in> under m i" for d
        using that mi md by (auto simp: under_container [OF w])
    qed
  qed
qed simp

subsection \<open>Placing\<close>

text \<open>What placing changes: the boxes, and the scroll positions, which are clamped.\<close>

definition stripBox :: "widget \<Rightarrow> widget" where
  "stripBox w = w\<lparr>wX := 0, wY := 0, wW := 0, wH := 0, wScrollX := 0, wScrollY := 0\<rparr>"

definition onlyBox :: "model \<Rightarrow> model \<Rightarrow> bool" where
  "onlyBox m m' \<longleftrightarrow> (\<exists>ws. m' = m\<lparr>mWidgets := ws\<rparr> \<and> map_option stripBox \<circ> ws = map_option stripBox \<circ> mWidgets m)"

lemma onlyBox_refl [simp]: "onlyBox m m"
  unfolding onlyBox_def by (rule exI [of _ "mWidgets m"]) simp

lemma onlyBox_trans [trans]: "onlyBox a b \<Longrightarrow> onlyBox b c \<Longrightarrow> onlyBox a c"
  by (auto simp: onlyBox_def)

lemma stripBox_shape: "stripBox w' = stripBox w \<Longrightarrow> shape w' = shape w"
  by (metis stripBox_def shape_updates(4,5,15-18))

lemma onlyBox_sameTree: "onlyBox m m' \<Longrightarrow> sameTree m m'"
  unfolding sameTree_def
proof (intro conjI allI)
  fix i
  assume o: "onlyBox m m'"
  then have "map_option stripBox (mWidgets m' i) = map_option stripBox (mWidgets m i)"
    by (auto simp: onlyBox_def fun_eq_iff)
  then show "map_option shape (mWidgets m' i) = map_option shape (mWidgets m i)"
    by (cases "mWidgets m i"; cases "mWidgets m' i") (auto dest: stripBox_shape)
qed (auto simp: onlyBox_def)

lemma onlyBox_updateW:
  assumes "\<And>w. mWidgets m i = Some w \<Longrightarrow> stripBox (f w) = stripBox w"
  shows "onlyBox m (updateW i f m)"
  unfolding onlyBox_def
  by (rule exI [of _ "mWidgets (updateW i f m)"])
    (use assms in \<open>cases "mWidgets m i", auto simp: updateW_def fun_eq_iff\<close>)

lemma stripBox_clampScroll [simp]: "stripBox (clampScroll w) = stripBox w"
  by (cases rule: clampScroll_form [of w]) (simp add: stripBox_def)

text \<open>Where a widget starts, and how far it reaches, in the direction of its container.\<close>

definition startOf :: "bool \<Rightarrow> widget \<Rightarrow> int" where
  "startOf column w = (if column then wY w else wX w)"

definition sizeOf :: "bool \<Rightarrow> widget \<Rightarrow> int" where
  "sizeOf column w = (if column then wH w else wW w)"

definition before :: "bool \<Rightarrow> int \<Rightarrow> widget \<Rightarrow> widget \<Rightarrow> bool" where
  "before column spacing a b \<longleftrightarrow> startOf column a + sizeOf column a + spacing \<le> startOf column b"

definition insideOf :: "widget \<Rightarrow> widget \<Rightarrow> bool" where
  "insideOf w c \<longleftrightarrow> wX w + wPadding w \<le> wX c \<and> wX c + wW c \<le> wX w + wW w - wPadding w
   \<and> wY w + wPadding w \<le> wY c \<and> wY c + wH c \<le> wY w + wH w - wPadding w"

definition placedAt :: "model \<Rightarrow> int \<Rightarrow> bool" where
  "placedAt m i \<longleftrightarrow> (\<exists>w. mWidgets m i = Some w \<and> 0 \<le> wNatW w \<and> 0 \<le> wNatH w
     \<and> wNatW w \<le> wW w \<and> wNatH w \<le> wH w
     \<and> (container w \<longrightarrow> list_all (insideOf w) (kidsOf m (wChildren w))
          \<and> sorted_wrt (before (wKind w = kindColumn) (wSpacing w)) (kidsOf m (wChildren w))))"

lemma placedAt_frame:
  assumes "placedAt m d" and "mWidgets m' d = mWidgets m d"
    and "\<And>c. (d, c) \<in> childRel m \<Longrightarrow> mWidgets m' c = mWidgets m c"
  shows "placedAt m' d"
proof -
  obtain w where w: "mWidgets m d = Some w" using assms(1) by (auto simp: placedAt_def)
  have kids: "kidsOf m' (wChildren w) = kidsOf m (wChildren w)"
    unfolding kidsOf_def by (rule map_cong [OF refl]) (simp only: assms(3) [OF childRel_I [OF w]])
  have w': "mWidgets m' d = Some w" using assms(2) w by (rule trans)
  from assms(1) show ?thesis
    unfolding placedAt_def w w' by (simp only: option.inject) (metis kids)
qed

text \<open>What the children of a container need: their natural extent, and a share for each that grows.\<close>

primrec needed :: "bool \<Rightarrow> int \<Rightarrow> (int \<Rightarrow> int) \<Rightarrow> widget list \<Rightarrow> int \<Rightarrow> int" where
  "needed column spacing share [] g = 0"
| "needed column spacing share (k # ks) g =
    alongOf column k + (if wGrows k then share g else 0) + (if ks = [] then 0 else spacing)
    + needed column spacing share ks (if wGrows k then g + 1 else g)"

lemma needed_nonneg:
  "list_all (\<lambda>k. 0 \<le> alongOf column k) ks \<Longrightarrow> \<forall>j. 0 \<le> share j \<Longrightarrow> 0 \<le> spacing
   \<Longrightarrow> 0 \<le> needed column spacing share ks g"
  by (induction ks arbitrary: g) simp_all

lemma needed_sum:
  "needed column spacing share ks g = extentFrom True spacing (map (alongOf column) ks)
     + (\<Sum>j < length (filter wGrows ks). share (g + int j))"
proof (induction ks arbitrary: g)
  case (Cons k ks)
  show ?case
  proof (cases "wGrows k")
    case True
    have "(\<Sum>j < Suc (length (filter wGrows ks)). share (g + int j))
        = share g + (\<Sum>j < length (filter wGrows ks). share (g + 1 + int j))"
      by (subst sum.lessThan_Suc_shift) (simp add: algebra_simps)
    then show ?thesis using True Cons.IH [of "g + 1"]
      by (cases ks) (simp_all add: extentFrom_Cons, simp_all add: extentFrom_def algebra_simps)
  next
    case False
    then show ?thesis using Cons.IH [of g]
      by (cases ks) (simp_all add: extentFrom_Cons, simp_all add: extentFrom_def algebra_simps)
  qed
qed (simp add: extentFrom_def)

text \<open>The shares of the growing children add up to the extra space.\<close>

lemma sdiv_smod_nonneg: "0 \<le> a \<Longrightarrow> 0 < b \<Longrightarrow> a sdiv b = a div b \<and> a smod b = a mod (b::int)"
  by (simp add: signed_divide_int_def signed_modulo_int_def minus_div_mult_eq_mod)
     (cases "a = 0"; simp add: sgn_if mult.commute minus_mult_div_eq_mod minus_div_mult_eq_mod)

lemma shareOf_nonneg: "0 \<le> extra \<Longrightarrow> 0 \<le> growing \<Longrightarrow> 0 \<le> shareOf extra growing j"
  by (cases "growing = 0") (simp_all add: shareOf_def sdiv_smod_nonneg pos_imp_zdiv_nonneg_iff)

lemma sum_indicator: "r \<le> n \<Longrightarrow> (\<Sum>j < n. if int j < int r then 1 else 0) = int r"
proof -
  assume "r \<le> n"
  then have "{..<n} \<inter> {j. int j < int r} = {..<r}" by auto
  then show ?thesis by (simp add: sum.If_cases)
qed

lemma shares_add_up:
  assumes "0 \<le> extra" "0 < n"
  shows "(\<Sum>j < n. shareOf extra (int n) (int j)) = extra"
proof -
  have "(\<Sum>j < n. shareOf extra (int n) (int j))
      = (\<Sum>j < n. extra div int n + (if int j < int (nat (extra mod int n)) then 1 else 0))"
    using assms by (intro sum.cong refl) (simp add: shareOf_def sdiv_smod_nonneg)
  also have "\<dots> = int n * (extra div int n) + (\<Sum>j < n. if int j < int (nat (extra mod int n)) then 1 else 0)"
    by (simp add: sum.distrib)
  also have "nat (extra mod int n) \<le> n" using assms by (simp add: nat_le_iff pos_mod_bound less_imp_le)
  then have "(\<Sum>j < n. if int j < int (nat (extra mod int n)) then 1 else 0) = extra mod int n"
    using assms by (subst sum_indicator) simp_all
  finally show ?thesis by simp
qed

definition placesBelow ::
  "(model \<Rightarrow> int \<Rightarrow> int \<Rightarrow> int \<Rightarrow> int \<Rightarrow> int \<Rightarrow> model option) \<Rightarrow> model \<Rightarrow> int \<Rightarrow> int \<Rightarrow> int \<Rightarrow> int \<Rightarrow> int \<Rightarrow> bool" where
  "placesBelow placeOne m c x y width height \<longleftrightarrow> (\<exists>m'. placeOne m c x y width height = Some m'
     \<and> guiOk m' \<and> onlyBox m m' \<and> (\<forall>j. j \<notin> under m c \<longrightarrow> mWidgets m' j = mWidgets m j)
     \<and> (\<forall>d \<in> under m c. placedAt m' d)
     \<and> (\<exists>w. mWidgets m' c = Some w \<and> wX w = x \<and> wY w = y \<and> wW w = width \<and> wH w = height))"

text \<open>A measured widget roomFor the size it is to have.\<close>

definition roomFor :: "model \<Rightarrow> int \<Rightarrow> int \<Rightarrow> int \<Rightarrow> bool" where
  "roomFor m c width height \<longleftrightarrow> (\<forall>d \<in> under m c. measuredAt m d)
     \<and> (\<forall>w. mWidgets m c = Some w \<longrightarrow> wNatW w \<le> width \<and> wNatH w \<le> height)"

definition placedIn :: "bool \<Rightarrow> int \<Rightarrow> int \<Rightarrow> int \<Rightarrow> int \<Rightarrow> widget \<Rightarrow> bool" where
  "placedIn column lo hi crossLo crossHi k \<longleftrightarrow> lo \<le> startOf column k \<and> startOf column k + sizeOf column k \<le> hi
     \<and> crossLo \<le> startOf (\<not> column) k \<and> startOf (\<not> column) k + sizeOf (\<not> column) k \<le> crossHi"

lemma half_bounds: "0 \<le> (k::int) \<Longrightarrow> 0 \<le> k sdiv 2 \<and> k sdiv 2 \<le> k"
  using sdiv_smod_nonneg [of k 2] by simp

lemma placeChildren_Cons:
  assumes "mWidgets m c = Some child" "childSize column innerW innerH (share g) child = (childW, childH)"
  shows "placeChildren placeOne column spacing innerW innerH share (c # cs) g cursorX cursorY m
    = Option.bind (placeOne m c cursorX (if column then cursorY else cursorY + (innerH - childH) sdiv 2) childW childH)
       (placeChildren placeOne column spacing innerW innerH share cs (if wGrows child then g + 1 else g)
          (if column then cursorX else cursorX + childW + spacing)
          (if column then cursorY + childH + spacing else cursorY))"
  using assms by (simp add: Let_def)

lemma childSize_bounds:
  assumes "childSize column innerW innerH share child = (childW, childH)" "0 \<le> share"
    and "acrossOf column child \<le> (if column then innerW else innerH)"
  shows "wNatW child \<le> childW" "wNatH child \<le> childH"
    "(if column then childH else childW) = alongOf column child + (if wGrows child then share else 0)"
    "(if column then childW else childH) \<le> (if column then innerW else innerH)"
  using assms by (auto simp: childSize_def alongOf_def acrossOf_def split: if_splits)

lemma placeChildren_ok:
  assumes one: "\<forall>m c x y width height. guiOk m \<and> c \<in> C \<and> c \<in> dom (mWidgets m) \<and> mNext m = n
      \<and> roomFor m c width height \<longrightarrow> placesBelow placeOne m c x y width height"
    and shares: "\<forall>j. 0 \<le> share j" and spacing: "0 \<le> spacing"
    and "guiOk m" "mNext m = n" "set cs \<subseteq> C" "distinct cs" "\<forall>c \<in> set cs. (i, c) \<in> childRel m"
    and "\<forall>c \<in> set cs. \<forall>d \<in> under m c. measuredAt m d"
    and "\<forall>k \<in> set (kidsOf m cs). acrossOf column k \<le> (if column then innerW else innerH)"
    and "(if column then cursorY else cursorX) + needed column spacing share (kidsOf m cs) g \<le> hi"
  shows "\<exists>m'. placeChildren placeOne column spacing innerW innerH share cs g cursorX cursorY m = Some m'
    \<and> guiOk m' \<and> onlyBox m m' \<and> (\<forall>j. (\<forall>c \<in> set cs. j \<notin> under m c) \<longrightarrow> mWidgets m' j = mWidgets m j)
    \<and> (\<forall>c \<in> set cs. \<forall>d \<in> under m c. placedAt m' d)
    \<and> list_all (placedIn column (if column then cursorY else cursorX) hi (if column then cursorX else cursorY)
         (if column then cursorX + innerW else cursorY + innerH)) (kidsOf m' cs)
    \<and> sorted_wrt (before column spacing) (kidsOf m' cs)"
  using assms(4-)
proof (induction cs arbitrary: m g cursorX cursorY)
  case Nil
  then show ?case by (intro exI [of _ m]) (simp add: kidsOf_def)
next
  case (Cons c cs)
  have tree: "treeOk m" using Cons.prems(1) by (rule guiOk_treeOk)
  have ic: "(i, c) \<in> childRel m" using Cons.prems(5) by simp
  obtain child where child: "mWidgets m c = Some child" using childRel_node(2) [OF tree ic] by blast
  obtain childW childH where size: "childSize column innerW innerH (share g) child = (childW, childH)"
    by (cases "childSize column innerW innerH (share g) child")
  have kids: "kidsOf m (c # cs) = child # kidsOf m cs" using child by (simp add: kidsOf_def)
  have across: "acrossOf column child \<le> (if column then innerW else innerH)"
    using Cons.prems(7) by (simp add: kids)
  note b = childSize_bounds [OF size shares [rule_format] across]
  let ?py = "if column then cursorY else cursorY + (innerH - childH) sdiv 2"
  let ?nx = "if column then cursorX else cursorX + childW + spacing"
  let ?ny = "if column then cursorY + childH + spacing else cursorY"
  let ?g = "if wGrows child then g + 1 else g"
  have "roomFor m c childW childH" using Cons.prems(6) child b(1,2) by (simp add: roomFor_def)
  then have "placesBelow placeOne m c cursorX ?py childW childH"
    using Cons.prems(1-3) child by (intro one [rule_format] conjI) auto
  then obtain m1 cw where m1: "placeOne m c cursorX ?py childW childH = Some m1" "guiOk m1" "onlyBox m m1"
    "\<forall>j. j \<notin> under m c \<longrightarrow> mWidgets m1 j = mWidgets m j" "\<forall>d \<in> under m c. placedAt m1 d"
    "mWidgets m1 c = Some cw" "wX cw = cursorX" "wY cw = ?py" "wW cw = childW" "wH cw = childH"
    unfolding placesBelow_def by (elim exE conjE)
  note st = onlyBox_sameTree [OF m1(3)]
  have apart: "j \<notin> under m d" if "j \<in> under m c" "d \<in> set cs" for j d
    using under_siblings [OF tree ic, of d] that Cons.prems(4,5) by auto
  have far: "mWidgets m1 j = mWidgets m j" if "j \<in> under m d" "d \<in> set cs" for j d
    using m1(4) apart that by blast
  have kids1: "kidsOf m1 cs = kidsOf m cs"
    unfolding kidsOf_def using far by (intro map_cong [OF refl]) (metis under_refl)
  have along: "(if column then childH else childW) + (if cs = [] then 0 else spacing)
      + needed column spacing share (kidsOf m cs) ?g = needed column spacing share (kidsOf m (c # cs)) g"
    unfolding kids needed.simps b(3) by (simp add: kidsOf_def)
  have pre: "guiOk m1" "mNext m1 = n" "set cs \<subseteq> C" "distinct cs" "\<forall>c \<in> set cs. (i, c) \<in> childRel m1"
    "\<forall>c \<in> set cs. \<forall>d \<in> under m1 c. measuredAt m1 d"
    "\<forall>k \<in> set (kidsOf m1 cs). acrossOf column k \<le> (if column then innerW else innerH)"
  proof -
    show "mNext m1 = n" using m1(3) Cons.prems(2) by (auto simp: onlyBox_def)
    show "\<forall>c \<in> set cs. (i, c) \<in> childRel m1" using Cons.prems(5) by (simp add: sameTree_childRel [OF st])
    show "\<forall>c \<in> set cs. \<forall>d \<in> under m1 c. measuredAt m1 d"
    proof (intro ballI)
      fix d e assume d: "d \<in> set cs" and "e \<in> under m1 d"
      then have e: "e \<in> under m d" by (simp add: sameTree_below [OF st])
      show "measuredAt m1 e"
      proof (rule measuredAt_frame)
        show "measuredAt m e" using Cons.prems(6) d e by simp
        show "mMeasure m1 = mMeasure m" using m1(3) by (auto simp: onlyBox_def)
        show "mWidgets m1 e = mWidgets m e" using e d by (rule far)
        show "mWidgets m1 f = mWidgets m f" if "(e, f) \<in> childRel m" for f
          using under_step [OF e that] d by (rule far)
      qed
    qed
  qed (use Cons.prems m1(2) kids1 kids in auto)
  have measured: "list_all (\<lambda>k. 0 \<le> alongOf column k) (kidsOf m cs)"
    using Cons.prems(6) by (auto simp: kidsOf_def list_all_iff intro!: measured_nonneg dest: bspec [OF _ under_refl])
  have rest_pos: "0 \<le> needed column spacing share (kidsOf m cs) ?g"
    by (rule needed_nonneg [OF measured shares spacing])
  show ?case
  proof (cases "cs = []")
    case True
    have fit: "placedIn column (if column then cursorY else cursorX) hi (if column then cursorX else cursorY)
         (if column then cursorX + innerW else cursorY + innerH) cw"
      using m1(7-10) b(4) along Cons.prems(8) half_bounds [of "innerH - childH"] True
      by (auto simp: placedIn_def startOf_def sizeOf_def kidsOf_def split: if_splits)
    have "placeChildren placeOne column spacing innerW innerH share (c # cs) g cursorX cursorY m = Some m1"
      unfolding placeChildren_Cons [where share = share, OF child size] m1(1) using True by simp
    then show ?thesis
      using m1(2-6) fit True by (intro exI [of _ m1] conjI) (simp_all add: kidsOf_def)
  next
    case False
    have fit2: "(if column then ?ny else ?nx) + needed column spacing share (kidsOf m1 cs) ?g \<le> hi"
      using along Cons.prems(8) False unfolding kids1 by (simp split: if_splits)
    obtain m2 where m2: "placeChildren placeOne column spacing innerW innerH share cs ?g ?nx ?ny m1 = Some m2"
      "guiOk m2" "onlyBox m1 m2" "\<forall>j. (\<forall>c \<in> set cs. j \<notin> under m1 c) \<longrightarrow> mWidgets m2 j = mWidgets m1 j"
      "\<forall>c \<in> set cs. \<forall>d \<in> under m1 c. placedAt m2 d"
      "list_all (placedIn column (if column then ?ny else ?nx) hi (if column then ?nx else ?ny)
         (if column then ?nx + innerW else ?ny + innerH)) (kidsOf m2 cs)"
      "sorted_wrt (before column spacing) (kidsOf m2 cs)"
      using Cons.IH [OF pre fit2] by (elim exE conjE)
    have same: "mWidgets m2 j = mWidgets m1 j" if "j \<in> under m c" for j
      using m2(4) apart that by (simp add: sameTree_below [OF st])
    have kids2: "kidsOf m2 (c # cs) = cw # kidsOf m2 cs" using same [of c] m1(6) by (simp add: kidsOf_def)
    have fit: "placedIn column (if column then cursorY else cursorX) hi (if column then cursorX else cursorY)
         (if column then cursorX + innerW else cursorY + innerH) cw"
      using m1(7-10) b(4) along Cons.prems(8) half_bounds [of "innerH - childH"] rest_pos spacing False
      by (auto simp: placedIn_def startOf_def sizeOf_def split: if_splits)
    have grow: "0 \<le> (if column then childH else childW)"
      using b(3) shares Cons.prems(6) child measured_nonneg(1) [of m c column] by (auto split: if_splits)
    have rest: "list_all (placedIn column (if column then cursorY else cursorX) hi (if column then cursorX else cursorY)
         (if column then cursorX + innerW else cursorY + innerH)) (kidsOf m2 cs)"
      using m2(6) grow spacing by (auto simp: list_all_iff placedIn_def split: if_splits)
    have first: "\<forall>k \<in> set (kidsOf m2 cs). before column spacing cw k"
      using m2(6) m1(7-10) by (auto simp: list_all_iff placedIn_def before_def startOf_def sizeOf_def split: if_splits)
    have placed: "placedAt m2 d" if d: "d \<in> under m c" for d
    proof (rule placedAt_frame)
      show "placedAt m1 d" using m1(5) d by blast
      show "mWidgets m2 d = mWidgets m1 d" using d by (rule same)
      show "mWidgets m2 e = mWidgets m1 e" if "(d, e) \<in> childRel m1" for e
        using same under_step [OF d] that by (simp add: sameTree_childRel [OF st])
    qed
    show ?thesis
    proof (intro exI [of _ m2] conjI)
      show "placeChildren placeOne column spacing innerW innerH share (c # cs) g cursorX cursorY m = Some m2"
        unfolding placeChildren_Cons [where share = share, OF child size] m1(1) using m2(1) by simp
      show "onlyBox m m2" using m1(3) m2(3) by (rule onlyBox_trans)
      show "\<forall>j. (\<forall>c \<in> set (c # cs). j \<notin> under m c) \<longrightarrow> mWidgets m2 j = mWidgets m j"
        using m1(4) m2(4) by (simp add: sameTree_below [OF st])
      show "\<forall>c \<in> set (c # cs). \<forall>d \<in> under m c. placedAt m2 d"
        using placed m2(5) by (simp add: sameTree_below [OF st])
    qed (use m2(2,7) fit rest first in \<open>simp_all add: kids2\<close>)
  qed
qed

lemma usedBy_extent:
  assumes "\<forall>c \<in> set cs. c \<in> dom (mWidgets m)"
  shows "usedBy m column spacing cs first (growing, used)
    = Some (growing + int (length (filter wGrows (kidsOf m cs))),
            used + extentFrom first spacing (map (alongOf column) (kidsOf m cs)))"
  using assms
proof (induction cs arbitrary: first growing used)
  case (Cons c cs)
  then obtain k where k: "mWidgets m c = Some k" by auto
  then have "kidsOf m (c # cs) = k # kidsOf m cs" by (simp add: kidsOf_def)
  then show ?case using Cons k by (simp add: extentFrom_Cons alongOf_def)
qed (simp add: kidsOf_def extentFrom_def)

text \<open>A container that is large enough for its natural size is large enough for its children with
  their shares of the extra space.\<close>

lemma children_fit:
  assumes "extent = extentFrom True spacing (map (alongOf column) kids)" "extent \<le> inner"
    and "growing = int (length (filter wGrows kids))"
  shows "needed column spacing (shareOf (max (inner - extent) 0) growing) kids 0 \<le> inner"
proof (cases "length (filter wGrows kids) = 0")
  case True
  then show ?thesis using assms by (simp add: needed_sum)
next
  case False
  then have "(\<Sum>j < length (filter wGrows kids). shareOf (inner - extent) growing (int j)) = inner - extent"
    unfolding assms(3) using assms(2) by (intro shares_add_up) auto
  then show ?thesis using assms by (simp add: needed_sum)
qed

lemma place_ok:
  "guiOk m \<Longrightarrow> i \<in> dom (mWidgets m) \<Longrightarrow> nat (mNext m - i) < fuel \<Longrightarrow> roomFor m i width height
   \<Longrightarrow> placesBelow (place fuel) m i x y width height"
proof (induction fuel arbitrary: m i x y width height)
  case (Suc fuel)
  obtain w where w: "mWidgets m i = Some w" using Suc.prems(2) by blast
  note ok = Suc.prems(1) and tree = guiOk_treeOk [OF Suc.prems(1)]
  have mi: "measuredAt m i" using Suc.prems(4) by (simp add: roomFor_def)
  have nat: "0 \<le> wNatW w" "0 \<le> wNatH w" "wNatW w \<le> width" "wNatH w \<le> height"
    using mi Suc.prems(4) w by (auto simp: roomFor_def measuredAt_def)
  define box :: "widget \<Rightarrow> widget" where "box = (\<lambda>w. w\<lparr>wX := x, wY := y, wW := width, wH := height\<rparr>)"
  define m1 where "m1 = updateW i box m"
  have m1: "guiOk m1" unfolding m1_def by (rule guiOk_updateW [OF ok]) (simp add: box_def)
  have only1: "onlyBox m m1" unfolding m1_def by (rule onlyBox_updateW) (simp add: box_def stripBox_def)
  have i1: "mWidgets m1 i = Some (box w)" by (simp add: m1_def mWidgets_updateW w)
  have same1: "mWidgets m1 j = mWidgets m j" if "j \<noteq> i" for j using that by (simp add: m1_def mWidgets_updateW)
  show ?case
  proof (cases "container w")
    case False
    let ?m2 = "updateW i clampScroll m1"
    have "place (Suc fuel) m i x y width height = Some ?m2"
      using w False by (simp add: m1_def box_def)
    moreover have "guiOk ?m2" by (rule guiOk_updateW [OF m1]) (simp add: clampScroll_steps)
    moreover have "onlyBox m1 ?m2" by (rule onlyBox_updateW) simp
    with only1 have "onlyBox m ?m2" by (rule onlyBox_trans)
    moreover have i2: "mWidgets ?m2 i = Some (clampScroll (box w))" by (simp add: mWidgets_updateW i1)
    then have "placedAt ?m2 i"
      using nat False by (simp add: placedAt_def) (simp add: box_def container_def)
    ultimately show ?thesis
      unfolding placesBelow_def under_leaf(1) [OF ok w False]
      by (intro exI [of _ ?m2]) (simp add: mWidgets_updateW i1 same1 box_def)
  next
    case True
    let ?col = "wKind w = kindColumn"
    define innerW where "innerW = width - 2 * wPadding w"
    define innerH where "innerH = height - 2 * wPadding w"
    define kids where "kids = kidsOf m (wChildren w)"
    define extent where "extent = extentFrom True (wSpacing w) (map (alongOf ?col) kids)"
    define growing where "growing = int (length (filter wGrows kids))"
    define share where "share = shareOf (max ((if ?col then innerH else innerW) - extent) 0) growing"
    have rel: "\<forall>c \<in> set (wChildren w). (i, c) \<in> childRel m" using w by (simp add: childRel_def)
    have rel1: "\<forall>c \<in> set (wChildren w). (i, c) \<in> childRel m1"
      using rel by (simp add: sameTree_childRel [OF onlyBox_sameTree [OF only1]])
    have less: "\<forall>c \<in> set (wChildren w). i < c" using rel childRel_node(1) [OF tree] by blast
    have dom: "\<forall>c \<in> set (wChildren w). c \<in> dom (mWidgets m1)"
      using rel1 childRel_node(2) [OF guiOk_treeOk [OF m1]] by blast
    have kids1: "kidsOf m1 (wChildren w) = kids"
      unfolding kidsOf_def kids_def using less same1 by (intro map_cong refl) (metis less_irrefl)
    have used: "usedBy m1 ?col (wSpacing w) (wChildren w) True (0, 0) = Some (growing, extent)"
      using usedBy_extent [OF dom, of ?col "wSpacing w" True 0 0] by (simp add: kids1 growing_def extent_def)
    have nats: "alongOf ?col w = extent + 2 * wPadding w"
      "acrossOf ?col w = fold max (map (acrossOf ?col) kids) 0 + 2 * wPadding w"
      using mi w True by (auto simp: measuredAt_def extent_def kids_def Let_def)
    have fitA: "extent \<le> (if ?col then innerH else innerW)"
      using nats(1) nat by (auto simp: alongOf_def innerW_def innerH_def split: if_splits)
    have fitC: "acrossOf ?col k \<le> (if ?col then innerW else innerH)" if "k \<in> set kids" for k
      using fold_max_ge(2) [of "acrossOf ?col k" "map (acrossOf ?col) kids" 0] that nats(2) nat
      by (auto simp: acrossOf_def [of _ w] innerW_def innerH_def split: if_splits)
    have one: "\<forall>m' c x y width height. guiOk m' \<and> c \<in> set (wChildren w) \<and> c \<in> dom (mWidgets m')
        \<and> mNext m' = mNext m \<and> roomFor m' c width height \<longrightarrow> placesBelow (place fuel) m' c x y width height"
    proof (intro allI impI, elim conjE)
      fix m' c x y width height
      assume m': "guiOk m'" "c \<in> dom (mWidgets m')" and c: "c \<in> set (wChildren w)" and n: "mNext m' = mNext m"
        and f: "roomFor m' c width height"
      have "nat (mNext m' - c) < fuel" using less c Suc.prems(3) guiOk_range [OF m'] n by fastforce
      with m' show "placesBelow (place fuel) m' c x y width height" using f by (rule Suc.IH)
    qed
    have sub: "\<forall>c \<in> set (wChildren w). \<forall>d \<in> under m1 c. measuredAt m1 d"
    proof (intro ballI)
      fix c d assume c: "c \<in> set (wChildren w)" and "d \<in> under m1 c"
      then have d: "d \<in> under m c" by (simp add: sameTree_below [OF onlyBox_sameTree [OF only1]])
      have ne: "e \<noteq> i" if "e \<in> under m c" for e using under_le [OF tree that] less c by auto
      show "measuredAt m1 d"
      proof (rule measuredAt_frame)
        show "measuredAt m d" using Suc.prems(4) under_child rel c d by (auto simp: roomFor_def)
        show "mMeasure m1 = mMeasure m" by (simp add: m1_def)
        show "mWidgets m1 d = mWidgets m d" using same1 ne d by blast
        show "mWidgets m1 e = mWidgets m e" if "(d, e) \<in> childRel m" for e
          using same1 ne under_step [OF d that] by blast
      qed
    qed
    have shares: "\<forall>j. 0 \<le> share j" unfolding share_def by (intro allI shareOf_nonneg) (simp_all add: growing_def)
    have node: "distinct (wChildren w)" using guiOk_node [OF ok w] by (simp add: treeNode_def)
    have across: "\<forall>k \<in> set (kidsOf m1 (wChildren w)). acrossOf ?col k \<le> (if ?col then innerW else innerH)"
      unfolding kids1 using fitC by blast
    let ?x = "x + wPadding w" and ?y = "y + wPadding w"
    have hi: "(if ?col then ?y else ?x) + needed ?col (wSpacing w) share (kidsOf m1 (wChildren w)) 0
        \<le> (if ?col then ?y + innerH else ?x + innerW)"
      unfolding kids1 share_def using children_fit [OF extent_def fitA growing_def] by (simp split: if_splits)
    have n1: "mNext m1 = mNext m" by (simp add: m1_def)
    obtain m2 where m2: "placeChildren (place fuel) ?col (wSpacing w) innerW innerH share (wChildren w) 0 ?x ?y m1
        = Some m2"
      "guiOk m2" "onlyBox m1 m2" "\<forall>j. (\<forall>c \<in> set (wChildren w). j \<notin> under m1 c) \<longrightarrow> mWidgets m2 j = mWidgets m1 j"
      "\<forall>c \<in> set (wChildren w). \<forall>d \<in> under m1 c. placedAt m2 d"
      "list_all (placedIn ?col (if ?col then ?y else ?x) (if ?col then ?y + innerH else ?x + innerW)
         (if ?col then ?x else ?y) (if ?col then ?x + innerW else ?y + innerH)) (kidsOf m2 (wChildren w))"
      "sorted_wrt (before ?col (wSpacing w)) (kidsOf m2 (wChildren w))"
      using placeChildren_ok [OF one shares _ m1 n1 subset_refl node rel1 sub across hi]
        guiOk_spacing [OF ok w] by blast
    have res: "place (Suc fuel) m i x y width height = Some m2"
      using w True used m2(1)
      by (simp add: Let_def m1_def [symmetric] box_def [symmetric] innerW_def innerH_def share_def cong: if_cong)
    have out: "\<forall>c \<in> set (wChildren w). i \<notin> under m1 c"
      using under_child_greater [OF guiOk_treeOk [OF m1]] rel1 by blast
    then have i2: "mWidgets m2 i = Some (box w)" using m2(4) i1 by simp
    have pi: "placedAt m2 i"
      unfolding placedAt_def
    proof (intro exI [of _ "box w"] conjI impI)
      have b: "wChildren (box w) = wChildren w" "wKind (box w) = wKind w" "wSpacing (box w) = wSpacing w"
        "wNatW (box w) = wNatW w" "wNatH (box w) = wNatH w" "wW (box w) = width" "wH (box w) = height"
        by (simp_all add: box_def)
      show "list_all (insideOf (box w)) (kidsOf m2 (wChildren (box w)))"
        using m2(6) unfolding b by (auto simp: list_all_iff placedIn_def insideOf_def startOf_def sizeOf_def
            box_def innerW_def innerH_def split: if_splits)
      show "sorted_wrt (before (wKind (box w) = kindColumn) (wSpacing (box w))) (kidsOf m2 (wChildren (box w)))"
        using m2(7) unfolding b .
      show "0 \<le> wNatW (box w)" "0 \<le> wNatH (box w)" "wNatW (box w) \<le> wW (box w)" "wNatH (box w) \<le> wH (box w)"
        using nat unfolding b .
    qed (rule i2)
    show ?thesis
      unfolding placesBelow_def
    proof (intro exI [of _ m2] conjI allI impI ballI res m2(2))
      show "onlyBox m m2" using only1 m2(3) by (rule onlyBox_trans)
      show "mWidgets m2 j = mWidgets m j" if "j \<notin> under m i" for j
      proof -
        have "j \<noteq> i" "\<forall>c \<in> set (wChildren w). j \<notin> under m1 c"
          using that by (auto simp: under_container [OF w] sameTree_below [OF onlyBox_sameTree [OF only1]])
        then show ?thesis using m2(4) same1 by simp
      qed
      show "placedAt m2 d" if "d \<in> under m i" for d
        using that pi m2(5) by (auto simp: under_container [OF w] sameTree_below [OF onlyBox_sameTree [OF only1]])
    qed (simp_all add: i2 box_def)
  qed
qed simp

subsection \<open>The layout of a window\<close>

text \<open>The fields of a widget that its place in the window depends on.\<close>

definition geometry :: "widget \<Rightarrow> (int \<times> widgetKind \<times> int list) \<times> (int \<times> int \<times> int \<times> int) \<times> (int \<times> int \<times> int \<times> int)" where
  "geometry w = ((wId w, wKind w, wChildren w), (wX w, wY w, wW w, wH w),
     (wNatW w, wNatH w, wSpacing w, wPadding w))"

definition sameGeometry :: "model \<Rightarrow> model \<Rightarrow> bool" where
  "sameGeometry m m' \<longleftrightarrow> (\<forall>i. map_option geometry (mWidgets m' i) = map_option geometry (mWidgets m i))"

definition laidOut :: "model \<Rightarrow> bool" where
  "laidOut m \<longleftrightarrow> (\<forall>i \<in> dom (mWidgets m). placedAt m i)"

lemma sameGeometry_the: "sameGeometry m m' \<Longrightarrow> geometry (the (mWidgets m' i)) = geometry (the (mWidgets m i))"
  by (cases "mWidgets m i"; cases "mWidgets m' i") (auto simp: sameGeometry_def dest: spec [of _ i])

lemma sameGeometry_Some:
  assumes "sameGeometry m m'" "mWidgets m' i = Some w'"
  obtains w where "mWidgets m i = Some w" "geometry w' = geometry w"
proof -
  have "map_option geometry (mWidgets m' i) = map_option geometry (mWidgets m i)"
    using assms(1) by (simp add: sameGeometry_def)
  then show thesis using assms(2) by (cases "mWidgets m i") (auto intro: that)
qed

lemma laidOut_sameGeometry:
  assumes "sameGeometry m m'" "laidOut m"
  shows "laidOut m'"
  unfolding laidOut_def
proof
  fix i
  assume "i \<in> dom (mWidgets m')"
  then obtain w' where w': "mWidgets m' i = Some w'" by blast
  then obtain w where w: "mWidgets m i = Some w" and g: "geometry w' = geometry w"
    by (rule sameGeometry_Some [OF assms(1)])
  have p: "placedAt m i" using assms(2) w by (auto simp: laidOut_def)
  note k = sameGeometry_the [OF assms(1)]
  have eqs: "wKind w' = wKind w" "wChildren w' = wChildren w" "wSpacing w' = wSpacing w"
    "wNatW w' = wNatW w" "wNatH w' = wNatH w" "wW w' = wW w" "wH w' = wH w"
    using g by (simp_all add: geometry_def)
  have inside: "insideOf w' (the (mWidgets m' c)) = insideOf w (the (mWidgets m c))" for c
    using g k [of c] by (simp add: insideOf_def geometry_def)
  have bef: "before col sp (the (mWidgets m' a)) (the (mWidgets m' b))
      = before col sp (the (mWidgets m a)) (the (mWidgets m b))" for col sp a b
    using k [of a] k [of b] by (simp add: before_def startOf_def sizeOf_def geometry_def)
  show "placedAt m' i"
    using p w w' unfolding placedAt_def kidsOf_def
    by (simp add: eqs container_def list_all_iff sorted_wrt_map inside bef)
qed

lemma roomFor_root:
  "\<forall>d \<in> under m i. measuredAt m d \<Longrightarrow> mWidgets m i = Some w \<Longrightarrow> wNatW w \<le> width \<Longrightarrow> wNatH w \<le> height
   \<Longrightarrow> roomFor m i width height"
  by (simp add: roomFor_def)

lemma layoutFuel_enough: "guiOk m \<Longrightarrow> nat (mNext m - 1) < layoutFuel m"
  by (auto simp: layoutFuel_def guiOk_def treeOk_def)

lemma guiOk_popup: "guiOk m \<Longrightarrow> mPopup m \<noteq> 0 \<Longrightarrow> \<exists>w. mWidgets m (mPopup m) = Some w \<and> openable w"
  by (simp add: guiOk_def inputOk_def refersTo_def)

lemma placePopup_ok:
  assumes "guiOk m" "mWidgets m i = Some w"
  shows "\<exists>m'. placePopup m i = Some m' \<and> guiOk m' \<and> sameTree m m' \<and> sameGeometry m m' \<and> sameInput m m'"
proof -
  let ?m = "m\<lparr>mList := popupPlace m w\<rparr>"
  have "guiOk (updateW i clampPopup ?m)"
    using assms(1) by (intro guiOk_updateW) (simp_all add: clampPopup_steps)
  moreover have "sameTree m (updateW i clampPopup ?m)"
    using sameTree_updateW [of ?m i clampPopup] by (simp add: clampPopup_steps sameTree_def)
  moreover have "geometry \<circ> clampPopup = geometry" by (simp add: fun_eq_iff geometry_def clampPopup_def)
  then have "sameGeometry m (updateW i clampPopup ?m)"
    by (simp add: sameGeometry_def mWidgets_updateW option.map_comp)
  ultimately show ?thesis using assms(2) by (simp add: placePopup_def sameInput_def)
qed

lemma layout_ok:
  assumes ok: "guiOk m"
  shows "returns (\<lambda>m'. guiOk m' \<and> sameTree m m' \<and> sameInput m m' \<and> laidOut m') (layout m)"
proof (cases "mRoot m = 0")
  case True
  then have "dom (mWidgets m) = {}" using ok by (auto simp: guiOk_def treeOk_def split: if_splits)
  then show ?thesis using True ok by (simp add: layout_def laidOut_def sameInput_def)
next
  case False
  then have root: "mRoot m = 1" "1 \<in> dom (mWidgets m)" using ok by (auto simp: guiOk_def treeOk_def split: if_splits)
  obtain m1 where m1: "measureWidget (layoutFuel m) m 1 = Some m1" "onlyNat m m1"
    "\<forall>d \<in> under m 1. measuredAt m1 d"
    using measureWidget_ok [OF ok root(2) layoutFuel_enough [OF ok]] by (auto simp: measuresBelow_def)
  note ok1 = onlyNat_guiOk [OF m1(2) ok] and st1 = onlyNat_sameTree [OF m1(2)]
  have under1: "\<forall>d \<in> under m1 1. measuredAt m1 d" using m1(3) by (simp add: sameTree_below [OF st1])
  obtain w where w: "mWidgets m1 1 = Some w" using m1(3) by (auto simp: measuredAt_def dest: bspec [OF _ under_refl])
  define size where "size = (if wGrows w
    then (max (wNatW w) (mWidth m1 - 2 * windowMargin), max (wNatH w) (mHeight m1 - 2 * windowMargin))
    else (wNatW w, wNatH w))"
  have fit: "roomFor m1 1 (fst size) (snd size)"
    by (rule roomFor_root [OF under1 w]) (simp_all add: size_def)
  have fuel: "nat (mNext m1 - 1) < layoutFuel m"
    using layoutFuel_enough [OF ok] st1 by (simp add: sameTree_def)
  have "1 \<in> dom (mWidgets m1)" using w by blast
  from place_ok [OF ok1 this fuel fit, of windowMargin windowMargin]
  obtain m2 where m2: "place (layoutFuel m) m1 1 windowMargin windowMargin (fst size) (snd size) = Some m2"
    "guiOk m2" "onlyBox m1 m2" "\<forall>d \<in> under m1 1. placedAt m2 d"
    unfolding placesBelow_def by (elim exE conjE)
  note st2 = onlyBox_sameTree [OF m2(3)]
  have "laidOut m2"
    unfolding laidOut_def using m2(4) all_under_root [OF guiOk_treeOk [OF m2(2)]] by (simp add: sameTree_below [OF st2])
  moreover have "sameTree m m2" using st1 st2 by (rule sameTree_trans)
  moreover have "sameInput m m2" using m1(2) m2(3) by (auto simp: sameInput_def onlyNat_def onlyBox_def)
  moreover have step: "layout m = (if mPopup m2 \<noteq> 0 then placePopup m2 (mPopup m2) else Some m2)"
    using False m1(1) w m2(1) by (simp add: layout_def root(1) size_def split: if_splits)
  ultimately show ?thesis
  proof (cases "mPopup m2 = 0")
    case False
    then obtain p where "mWidgets m2 (mPopup m2) = Some p" using guiOk_popup [OF m2(2)] by blast
    from placePopup_ok [OF m2(2) this]
    obtain m3 where m3: "placePopup m2 (mPopup m2) = Some m3" "guiOk m3" "sameTree m2 m3" "sameGeometry m2 m3"
      "sameInput m2 m3" by (elim exE conjE)
    have "sameTree m m3" "laidOut m3" "sameInput m m3"
      using \<open>sameTree m m2\<close> m3(3) laidOut_sameGeometry [OF m3(4) \<open>laidOut m2\<close>] \<open>sameInput m m2\<close> m3(5)
      by (auto simp: sameInput_def intro: sameTree_trans)
    then show ?thesis using False step m3(1,2) by simp
  qed (use m2(2) in simp)
qed

subsection \<open>The widget under a point\<close>

lemma sorted_wrt_two:
  "sorted_wrt R (map f xs) \<Longrightarrow> a \<in> set xs \<Longrightarrow> b \<in> set xs \<Longrightarrow> a \<noteq> b \<Longrightarrow> R (f a) (f b) \<or> R (f b) (f a)"
  by (induction xs) auto

lemma laidOut_child:
  assumes ok: "guiOk m" and out: "laidOut m" and c: "(i, c) \<in> childRel m"
    and w: "mWidgets m i = Some w" and k: "mWidgets m c = Some k"
  shows "insideOf w k"
proof -
  have child: "c \<in> set (wChildren w)" using c w by (simp add: childRel_def)
  then have "container w" using guiOk_node [OF ok w] by (auto simp: treeNode_def)
  moreover have "placedAt m i" using out w by (auto simp: laidOut_def)
  ultimately have "list_all (insideOf w) (kidsOf m (wChildren w))" using w by (simp add: placedAt_def)
  then show ?thesis using child k by (auto simp: kidsOf_def list_all_iff)
qed

lemma coversPoint_ancestor:
  assumes ok: "guiOk m" and out: "laidOut m" and "j \<in> under m i"
    and "mWidgets m j = Some wj" "coversPoint wj x y"
  shows "\<exists>wi. mWidgets m i = Some wi \<and> coversPoint wi x y"
proof -
  have "(i, j) \<in> (childRel m)\<^sup>*" using assms(3) by (simp add: under_def)
  then show ?thesis
  proof (induction rule: converse_rtrancl_induct)
    case base
    show ?case using assms(4,5) by blast
  next
    case (step p c)
    then obtain wc where wc: "mWidgets m c = Some wc" "coversPoint wc x y" by blast
    obtain wp where wp: "mWidgets m p = Some wp" using step.hyps(1) by (auto simp: childRel_def)
    have "insideOf wp wc" using laidOut_child [OF ok out step.hyps(1) wp wc(1)] .
    then have "coversPoint wp x y" using wc(2) guiOk_spacing [OF ok wp] by (auto simp: insideOf_def coversPoint_def)
    then show ?case using wp by blast
  qed
qed

lemma siblings_apart:
  assumes ok: "guiOk m" and out: "laidOut m" and c: "(i, c) \<in> childRel m" "(i, d) \<in> childRel m" "c \<noteq> d"
    and k: "mWidgets m c = Some a" "mWidgets m d = Some b" and "coversPoint a x y" "coversPoint b x y"
  shows False
proof -
  obtain w where w: "mWidgets m i = Some w" "c \<in> set (wChildren w)" "d \<in> set (wChildren w)"
    using c by (auto simp: childRel_def)
  then have "container w" using guiOk_node [OF ok w(1)] by (auto simp: treeNode_def)
  moreover have "placedAt m i" using out w by (auto simp: laidOut_def)
  ultimately have "sorted_wrt (before (wKind w = kindColumn) (wSpacing w)) (kidsOf m (wChildren w))"
    using w by (simp add: placedAt_def)
  then have "before (wKind w = kindColumn) (wSpacing w) a b \<or> before (wKind w = kindColumn) (wSpacing w) b a"
    unfolding kidsOf_def using sorted_wrt_two [OF _ w(2,3) c(3)] k by fastforce
  then show False
    using assms(8,9) guiOk_spacing [OF ok w(1)]
    by (auto simp: before_def startOf_def sizeOf_def coversPoint_def split: if_splits)
qed

lemma leaf_is_unique:
  assumes ok: "guiOk m" and out: "laidOut m"
    and a: "mWidgets m a = Some wa" "\<not> container wa" "coversPoint wa x y"
    and b: "mWidgets m b = Some wb" "\<not> container wb" "coversPoint wb x y"
  shows "a = b"
proof -
  note tree = guiOk_treeOk [OF ok]
  have below: "a = b" if "a \<in> under m i" "b \<in> under m i" "mWidgets m i = Some w" for i w
    using that
  proof (induction "nat (mNext m - i)" arbitrary: i w rule: less_induct)
    case less
    note w = less.prems(3)
    show ?case
    proof (cases "container w")
      case False
      then show ?thesis using less.prems under_leaf(1) [OF ok w] by simp
    next
      case True
      then have ne: "a \<noteq> i" "b \<noteq> i" using w a b by auto
      obtain c where c: "(i, c) \<in> childRel m" "a \<in> under m c"
        using less.prems(1) ne(1) under_cases [of a m i] by blast
      obtain d where d: "(i, d) \<in> childRel m" "b \<in> under m d"
        using less.prems(2) ne(2) under_cases [of b m i] by blast
      obtain wc where kc: "mWidgets m c = Some wc" "coversPoint wc x y"
        using coversPoint_ancestor [OF ok out c(2) a(1,3)] by (elim exE conjE)
      obtain wd where kd: "mWidgets m d = Some wd" "coversPoint wd x y"
        using coversPoint_ancestor [OF ok out d(2) b(1,3)] by (elim exE conjE)
      have cd: "c = d"
      proof (rule ccontr)
        assume "c \<noteq> d"
        then show False by (rule siblings_apart [OF ok out c(1) d(1) _ kc(1) kd(1) kc(2) kd(2)])
      qed
      have small: "nat (mNext m - c) < nat (mNext m - i)"
        using childRel_node(1) [OF tree c(1)] guiOk_rangeI [OF ok kc(1)] by linarith
      from less.hyps [OF small c(2) _ kc(1)] d(2) cd show ?thesis by simp
    qed
  qed
  have "1 \<in> dom (mWidgets m)"
    using guiOk_rangeI [OF ok a(1)] tree by (simp add: treeOk_def)
  then obtain r where r: "mWidgets m 1 = Some r" by blast
  have "a \<in> under m 1" by (rule all_under_root [OF tree]) (use a(1) in blast)
  moreover have "b \<in> under m 1" by (rule all_under_root [OF tree]) (use b(1) in blast)
  ultimately show ?thesis using r by (rule below)
qed

definition leafAt :: "model \<Rightarrow> int \<Rightarrow> int \<Rightarrow> int \<Rightarrow> bool" where
  "leafAt m x y i \<longleftrightarrow> (\<exists>w. mWidgets m i = Some w \<and> \<not> container w \<and> coversPoint w x y)"

lemma hitIn_leaf:
  assumes ok: "guiOk m" and "set is \<subseteq> dom (mWidgets m)"
  shows "\<exists>i. hitIn m is x y = Some i \<and> (if i = 0 then \<forall>j \<in> set is. \<not> leafAt m x y j else i \<in> set is \<and> leafAt m x y i)"
  using assms(2)
proof (induction "is")
  case (Cons j js)
  then obtain w where w: "mWidgets m j = Some w" by auto
  have id: "wId w = j" using guiOk_node [OF ok w] by (simp add: treeNode_def)
  have "j \<noteq> 0" using guiOk_rangeI [OF ok w] by auto
  have leaf: "leafAt m x y j \<longleftrightarrow> \<not> container w \<and> coversPoint w x y" using w by (simp add: leafAt_def)
  show ?case
  proof (cases "leafAt m x y j")
    case True
    then have "hitIn m (j # js) x y = Some j" using w id by (simp add: leaf)
    then show ?thesis using True \<open>j \<noteq> 0\<close> by simp
  next
    case False
    then have "hitIn m (j # js) x y = hitIn m js x y" using w by (auto simp: leaf)
    then show ?thesis using Cons False by (auto split: if_splits)
  qed
qed simp

lemma hit_leaf:
  assumes ok: "guiOk m"
  shows "\<exists>i. hit m x y = Some i \<and> (if i = 0 then \<forall>j. \<not> leafAt m x y j else leafAt m x y i)"
proof -
  have "dom (mWidgets m) = set (rev (mOrder m))" using ok by (simp add: guiOk_def treeOk_def)
  moreover have "j \<in> dom (mWidgets m)" if "leafAt m x y j" for j using that by (auto simp: leafAt_def)
  ultimately show ?thesis
    using hitIn_leaf [OF ok, of "rev (mOrder m)" x y] unfolding hit_def by (metis subset_refl)
qed

lemma hit_the_leaf:
  assumes "guiOk m" "laidOut m"
  shows "hit m x y = Some i \<longleftrightarrow> (if i = 0 then \<forall>j. \<not> leafAt m x y j else leafAt m x y i)"
proof -
  obtain j where j: "hit m x y = Some j" "if j = 0 then \<forall>k. \<not> leafAt m x y k else leafAt m x y j"
    using hit_leaf [OF assms(1)] by blast
  have zero: "\<not> leafAt m x y 0"
    by (auto simp: leafAt_def dest!: guiOk_rangeI [OF assms(1)])
  have same: "k = j" if "leafAt m x y k" "leafAt m x y j" for k
    using that leaf_is_unique [OF assms, of k _ x y j] by (auto simp: leafAt_def)
  show ?thesis
  proof (cases "j = 0")
    case True
    then show ?thesis using j by auto
  next
    case False
    then have "leafAt m x y j" using j(2) by simp
    then show ?thesis using j(1) False same [of i] by auto
  qed
qed

end
