(* ===== verification/GuiInput.thy ===== *)
theory GuiInput
  imports GuiLayout
begin

text \<open>
  Every request of the program and every input of the user keeps the invariant of a window: from a new
  window, no sequence of them dereferences nil or loops. The operations are steps on the model; the
  requests that fail change nothing.
\<close>

subsection \<open>Small steps\<close>

lemma guiOk_id: "guiOk m \<Longrightarrow> mWidgets m i = Some w \<Longrightarrow> wId w = i"
  using guiOk_node by (simp add: treeNode_def)

lemma closePopup_ok [intro, simp]: "guiOk m \<Longrightarrow> guiOk (closePopup m)"
  unfolding closePopup_def guiOk_fields
  by (intro guiOk_references guiOk_updateW) (auto intro!: widgetOk_highlight simp: order_less_le_trans [of "-1" 0])

lemma closePopup_fields [simp]:
  "mPopup (closePopup m) = 0" "mFocus (closePopup m) = mFocus m" "mPressed (closePopup m) = mPressed m"
  "mDragging (closePopup m) = mDragging m" "mOrder (closePopup m) = mOrder m" "mChanges (closePopup m) = mChanges m"
  by (simp_all add: closePopup_def dirtied_def)

lemma dirtied_fields [simp]:
  "mWidgets (dirtied m) = mWidgets m" "mPopup (dirtied m) = mPopup m" "mFocus (dirtied m) = mFocus m"
  "mPressed (dirtied m) = mPressed m" "mDragging (dirtied m) = mDragging m" "mOrder (dirtied m) = mOrder m"
  "mChanges (dirtied m) = mChanges m" "mList (dirtied m) = mList m" "mGrabY (dirtied m) = mGrabY m"
  by (simp_all add: dirtied_def)

lemma closePopup_sameTree: "sameTree m (closePopup m)"
proof -
  have "sameTree m (updateW (mPopup m) (wHighlight_update (\<lambda>_. -1)) m)" by (rule sameTree_updateW) simp
  then show ?thesis by (simp add: closePopup_def sameTree_def dirtied_def)
qed

lemma closePopup_geometry: "sameGeometry m (closePopup m)"
proof -
  have "geometry \<circ> wHighlight_update (\<lambda>_. -1) = geometry" by (simp add: fun_eq_iff geometry_def)
  then show ?thesis
    by (simp add: sameGeometry_def closePopup_def mWidgets_updateW option.map_comp)
qed

lemma noteChange_ok: "guiOk m \<Longrightarrow> mWidgets m i = Some w \<Longrightarrow> changeable w \<Longrightarrow> guiOk (noteChange i m)"
  by (auto simp: noteChange_def guiOk_def treeOk_def inputOk_def refersTo_def)

lemma noteChange_fields [simp]:
  "mWidgets (noteChange i m) = mWidgets m" "mPopup (noteChange i m) = mPopup m" "mFocus (noteChange i m) = mFocus m"
  by (simp_all add: noteChange_def)

lemma openPopup_ok:
  assumes ok: "guiOk m" and w: "mWidgets m i = Some w" "wKind w = kindSelect"
  shows "returns guiOk (openPopup m i)"
proof (cases "wDisabled w")
  case True
  then show ?thesis using ok w by (simp add: openPopup_def)
next
  case False
  let ?f = "\<lambda>w. w\<lparr>wHighlight := wSelected w, wListScroll := 0\<rparr>"
  let ?m = "updateW i ?f (m\<lparr>mPopup := wId w\<rparr>)"
  have "refersTo openable m (wId w)"
    using w False guiOk_id [OF ok w(1)] by (simp add: refersTo_def openable_def)
  with ok have "guiOk (m\<lparr>mPopup := wId w\<rparr>)" by (rule guiOk_references)
  then have m: "guiOk ?m"
    by (rule guiOk_updateW) (auto simp: widgetOk_def contentsOk_def)
  have "mWidgets ?m i = Some (?f w)" using w by (simp add: mWidgets_updateW)
  from placePopup_ok [OF m this] obtain m1 where m1: "placePopup ?m i = Some m1" "guiOk m1" by blast
  moreover have "guiOk (updateW i revealPopup m1)"
    using m1(2) by (rule guiOk_updateW) (simp add: revealPopup_steps)
  ultimately show ?thesis using w False by (simp add: openPopup_def)
qed

lemma userSelect_ok:
  assumes ok: "guiOk m" and w: "mWidgets m i = Some w" "wKind w \<in> {kindListBox, kindTable, kindSelect}"
  shows "returns guiOk (userSelect m i index)"
proof -
  let ?f = "\<lambda>w. reveal (w\<lparr>wSelected := index\<rparr>)"
  have shape: "shape (?f w) = shape w" for w by (simp add: reveal_steps)
  have "guiOk (dirtied (noteChange (wId w) (updateW i ?f m)))" if index: "-1 \<le> index" "index < countOf w"
  proof -
    have "guiOk (updateW i ?f m)"
    proof (rule guiOk_updateW [OF ok])
      fix v assume "mWidgets m i = Some v" "widgetOk v"
      with w index show "shape (?f v) = shape v \<and> widgetOk (?f v)"
        by (simp add: shape reveal_steps widgetOk_selected)
    qed
    moreover have "mWidgets (updateW i ?f m) i = Some (?f w)" using w by (simp add: mWidgets_updateW)
    moreover have "changeable w" using w(2) by (auto simp: changeable_def interactive_def)
    then have "changeable (?f w)" using shape_kinds [OF shape [of w]] by simp
    ultimately show ?thesis unfolding guiOk_fields guiOk_id [OF ok w(1)] by (rule noteChange_ok)
  qed
  then show ?thesis using ok w by (simp add: userSelect_def)
qed

subsection \<open>Requests\<close>

text \<open>A request that is refused leaves the window as it was; one that is not keeps the invariant.\<close>

definition keepsOk :: "string + model \<Rightarrow> bool" where
  "keepsOk r = (case r of Inl _ \<Rightarrow> True | Inr m \<Rightarrow> guiOk m)"

lemma keepsOk_simps [simp]: "keepsOk (Inl e)" "keepsOk (Inr m) = guiOk m"
  by (simp_all add: keepsOk_def)

lemma updateW_updateW: "updateW i g (updateW i f m) = updateW i (g \<circ> f) m"
  by (simp add: updateW_def option.map_comp)

lemma validText_length: "validText s limit \<Longrightarrow> int (length (toRunes s)) \<le> limit"
  by (simp add: validText_def length_toRunes)

lemma setText_ok: assumes ok: "guiOk m" shows "keepsOk (setText m i s)"
proof (cases "mWidgets m i")
  case (Some w)
  let ?f = "\<lambda>w. w\<lparr>wText := toRunes s, wCaret := int (length (toRunes s)), wScroll := 0, wScrollY := 0\<rparr>"
  have "guiOk (updateW i ?f m)"
    if "int (length (toRunes s)) \<le> (if wKind w = kindTextArea then maxAreaRunes else maxTextRunes)"
  proof (rule guiOk_updateW [OF ok])
    fix v assume "mWidgets m i = Some v" "widgetOk v"
    with Some that have "widgetOk (v\<lparr>wText := toRunes s, wCaret := int (length (toRunes s))\<rparr>)"
      by (intro widgetOk_text) simp_all
    then show "shape (?f v) = shape v \<and> widgetOk (?f v)" by (simp add: widgetOk_def)
  qed
  then show ?thesis
    using Some by (auto simp: setText_def validAreaText_def Let_def dest!: validText_length)
qed (simp add: setText_def)

lemma setChecked_ok: assumes ok: "guiOk m" shows "keepsOk (setChecked m i b)"
  using guiOk_updateW [OF ok, of i "wChecked_update (\<lambda>_. b)"]
  by (auto simp: setChecked_def split: option.split)

lemma afterReplace_ok:
  assumes ok: "guiOk m"
    and f: "\<And>w. mWidgets m i = Some w \<Longrightarrow> widgetOk w \<Longrightarrow> shape (f w) = shape w \<and> wScrollX (f w) = wScrollX w
      \<and> wScrollY (f w) = wScrollY w \<and> wListScroll (f w) = wListScroll w \<and> wSelected (f w) = wSelected w
      \<and> contentsOk (f w\<lparr>wSelected := -1, wHighlight := -1\<rparr>)"
  shows "guiOk (afterReplace i (updateW i f m))"
proof -
  let ?g = "\<lambda>w. w\<lparr>wSelected := (if wSelected w \<ge> countOf w then -1 else wSelected w), wHighlight := -1\<rparr>"
  have "guiOk (updateW i (?g \<circ> f) m)"
  proof (rule guiOk_updateW [OF ok])
    fix w assume w: "mWidgets m i = Some w" "widgetOk w"
    have "contentsOk (?g (f w))"
      using f [OF w] w(2) by (auto simp: contentsOk_def widgetOk_def)
    then show "shape ((?g \<circ> f) w) = shape w \<and> widgetOk ((?g \<circ> f) w)"
      using f [OF w] w(2) by (simp add: widgetOk_def)
  qed
  then have "guiOk (updateW i ?g (updateW i f m))" by (simp only: updateW_updateW)
  then have "guiOk (if mPopup (updateW i f m) = i then closePopup (updateW i ?g (updateW i f m))
      else updateW i ?g (updateW i f m))" by simp
  then show ?thesis
    unfolding afterReplace_def Let_def guiOk_fields
    by (intro guiOk_updateW) (simp_all add: clampScroll_steps split: if_splits)
qed

lemma setItems_ok: assumes ok: "guiOk m" shows "keepsOk (setItems m i items)"
proof -
  have "guiOk (afterReplace i (updateW i (wItems_update (\<lambda>_. items)) m))" if "checkItems items = None"
    by (rule afterReplace_ok [OF ok])
      (use that in \<open>auto simp: widgetOk_def contentsOk_def checkItems_def countOf_def split: if_splits\<close>)
  then show ?thesis by (auto simp: setItems_def split: option.split)
qed

lemma checkTableRows_rows: "checkTableRows n rows = None \<Longrightarrow> list_all (\<lambda>row. length row = n) rows"
  by (induction rows) (auto split: if_splits)

lemma length_widenRow: "length row = length widths \<Longrightarrow> length (widenRow f widths row) = length widths"
  by (simp add: widenRow_def)

lemma columnWidths_ok:
  assumes "list_all (\<lambda>row. length row = length columns) rows"
  shows "length (columnWidths f columns rows) = length columns"
    and "list_all (\<lambda>width. minColumnWidth \<le> width \<and> width \<le> maxColumnWidth) (columnWidths f columns rows)"
proof -
  have "length (fold (widenRow' f) rows widths) = length widths"
    if "list_all (\<lambda>row. length row = length widths) rows" "widenRow' = (\<lambda>f row widths. widenRow f widths row)"
    for rows widths and widenRow' :: "(string \<Rightarrow> int) \<Rightarrow> string list \<Rightarrow> int list \<Rightarrow> int list"
    using that(1) unfolding that(2)
    by (induction rows arbitrary: widths) (auto simp: length_widenRow)
  from this [OF _ refl, of "map f columns" "take measuredRows rows"]
  show "length (columnWidths f columns rows) = length columns"
    using assms by (auto simp: columnWidths_def list_all_iff dest: in_set_takeD)
  show "list_all (\<lambda>width. minColumnWidth \<le> width \<and> width \<le> maxColumnWidth) (columnWidths f columns rows)"
    by (auto simp: columnWidths_def list_all_iff metrics)
qed

lemma setRows_ok: assumes ok: "guiOk m" shows "keepsOk (setRows m i rows)"
proof (cases "mWidgets m i")
  case (Some w)
  let ?f = "\<lambda>w. w\<lparr>wRows := rows, wWidths := columnWidths (mMeasure m) (wColumns w) rows\<rparr>"
  have "guiOk (afterReplace i (updateW i ?f m))" if "checkTable (wColumns w) rows = None"
  proof (rule afterReplace_ok [OF ok])
    fix v assume v: "mWidgets m i = Some v" "widgetOk v"
    have rows: "list_all (\<lambda>row. length row = length (wColumns v)) rows"
      using that v(1) Some by (intro checkTableRows_rows) (simp add: checkTable_def split: if_splits)
    show "shape (?f v) = shape v \<and> wScrollX (?f v) = wScrollX v \<and> wScrollY (?f v) = wScrollY v
      \<and> wListScroll (?f v) = wListScroll v \<and> wSelected (?f v) = wSelected v
      \<and> contentsOk (?f v\<lparr>wSelected := -1, wHighlight := -1\<rparr>)"
      using v(2) rows columnWidths_ok [OF rows, of "mMeasure m"]
      by (simp add: widgetOk_def contentsOk_def) (simp add: countOf_def order_less_le_trans [of "-1" 0])
  qed
  then show ?thesis using Some by (simp add: setRows_def split: option.split)
qed (simp add: setRows_def)

lemma selectIndex_ok: assumes ok: "guiOk m" shows "keepsOk (selectIndex m i index)"
proof (cases "mWidgets m i")
  case (Some w)
  let ?f = "\<lambda>w. reveal (w\<lparr>wSelected := index\<rparr>)"
  have "guiOk (updateW i ?f m)" if "-1 \<le> index" "index < countOf w"
  proof (rule guiOk_updateW [OF ok])
    fix v assume "mWidgets m i = Some v" "widgetOk v"
    with Some that show "shape (?f v) = shape v \<and> widgetOk (?f v)"
      by (simp add: reveal_steps widgetOk_selected)
  qed
  then show ?thesis using Some by (simp add: selectIndex_def)
qed (simp add: selectIndex_def)

lemma setColor_ok: assumes ok: "guiOk m" shows "keepsOk (setColor m i part c)"
  using guiOk_updateW [OF ok, of i "wForeground_update (\<lambda>_. Some c)"]
    guiOk_updateW [OF ok, of i "wBackground_update (\<lambda>_. Some c)"] ok
  by (auto simp: setColor_def split: option.split)

lemma resizeWindow_ok: "guiOk m \<Longrightarrow> guiOk (resizeWindow width height m)"
proof -
  assume ok: "guiOk m"
  have "guiOk (m\<lparr>mWidth := min (max width 1) maxDimension, mHeight := min (max height 1) maxDimension\<rparr>)"
    using ok by (simp add: guiOk_def treeOk_def inputOk_def refersTo_def limits)
  then show ?thesis using ok by (simp add: resizeWindow_def Let_def)
qed

text \<open>Enabling and disabling: the references to a disabled widget are dropped.\<close>

lemma treeOk_disabled:
  assumes "treeOk m" shows "treeOk (updateW i (wDisabled_update (\<lambda>_. b)) m)"
proof -
  let ?m = "updateW i (wDisabled_update (\<lambda>_. b)) m"
  have get: "\<exists>w. mWidgets m j = Some w \<and> wId w' = wId w \<and> wKind w' = wKind w \<and> wParent w' = wParent w
      \<and> wChildren w' = wChildren w" if "mWidgets ?m j = Some w'" for j w'
    using that by (auto simp: mWidgets_updateW split: if_splits)
  have put: "\<exists>w'. mWidgets ?m j = Some w' \<and> wParent w' = wParent w \<and> wChildren w' = wChildren w"
    if "mWidgets m j = Some w" for j w
    using that by (auto simp: mWidgets_updateW)
  have "treeNode (mWidgets ?m) j w'" if w': "mWidgets ?m j = Some w'" for j w'
  proof -
    obtain w where w: "mWidgets m j = Some w" "wId w' = wId w" "wKind w' = wKind w" "wParent w' = wParent w"
      "wChildren w' = wChildren w" using get [OF w'] by blast
    have n: "treeNode (mWidgets m) j w" using assms w(1) by (simp add: treeOk_def)
    have "\<exists>cw. mWidgets ?m c = Some cw \<and> wParent cw = j" if "c \<in> set (wChildren w)" for c
      using n that put unfolding treeNode_def by fastforce
    moreover have "\<exists>pw. mWidgets ?m (wParent w) = Some pw \<and> j \<in> set (wChildren pw)" if "j \<noteq> 1"
      using n that put unfolding treeNode_def by fastforce
    ultimately show ?thesis using n w by (simp add: treeNode_def container_def)
  qed
  moreover have "dom (mWidgets ?m) = dom (mWidgets m)" by (auto simp: mWidgets_updateW split: if_splits)
  ultimately show ?thesis using assms by (simp add: treeOk_def)
qed

lemma refersTo_other: "j \<noteq> i \<Longrightarrow> refersTo P m j \<Longrightarrow> refersTo P (updateW i f m) j"
  by (simp add: refersTo_def mWidgets_updateW)

lemma refersTo_enable:
  "P \<in> {focusable, openable, draggable} \<Longrightarrow> refersTo P m j \<Longrightarrow> refersTo P (updateW i (wDisabled_update (\<lambda>_. False)) m) j"
  by (auto simp: refersTo_def mWidgets_updateW focusable_def interactive_def openable_def draggable_def scrolling_def)

lemma refersTo_fields [simp]:
  "refersTo P (m\<lparr>mFocus := a\<rparr>) j = refersTo P m j" "refersTo P (m\<lparr>mPressed := a\<rparr>) j = refersTo P m j"
  "refersTo P (m\<lparr>mPopup := a\<rparr>) j = refersTo P m j" "refersTo P (m\<lparr>mDragging := a\<rparr>) j = refersTo P m j"
  "refersTo P (dirtied m) j = refersTo P m j"
  by (simp_all add: refersTo_def)

lemma setEnabled_ok: assumes ok: "guiOk m" shows "keepsOk (setEnabled m i enabled)"
proof (cases "mWidgets m i")
  case (Some w)
  let ?f = "wDisabled_update (\<lambda>_. \<not> enabled) :: widget \<Rightarrow> widget"
  let ?m = "updateW i ?f m"
  have tree: "treeOk ?m" using ok by (simp add: guiOk_def treeOk_disabled)
  have widgets: "widgetOk w'" if "mWidgets ?m j = Some w'" for j w'
    using that guiOk_widget [OF ok] by (auto simp: mWidgets_updateW split: if_splits)
  have changes: "distinct (mChanges m)" "\<forall>j \<in> set (mChanges m). \<exists>w. mWidgets ?m j = Some w \<and> changeable w"
  proof -
    show "\<forall>j \<in> set (mChanges m). \<exists>w. mWidgets ?m j = Some w \<and> changeable w"
    proof
      fix j assume "j \<in> set (mChanges m)"
      then obtain v where "mWidgets m j = Some v" "changeable v" using ok by (auto simp: guiOk_def inputOk_def)
      then show "\<exists>w. mWidgets ?m j = Some w \<and> changeable w"
        by (auto simp: mWidgets_updateW changeable_def interactive_def)
    qed
  qed (use ok in \<open>simp add: guiOk_def inputOk_def\<close>)
  have refs: "refersTo focusable m (mFocus m)" "refersTo focusable m (mPressed m)" "refersTo openable m (mPopup m)"
    "refersTo draggable m (mDragging m)" using ok by (simp_all add: guiOk_def inputOk_def)
  show ?thesis
  proof (cases enabled)
    case True
    then have "guiOk ?m"
      using ok tree widgets changes refs by (simp add: guiOk_def inputOk_def refersTo_enable)
    then show ?thesis using Some True by (simp add: setEnabled_def)
  next
    case False
    define m1 where "m1 = ?m\<lparr>mFocus := (if mFocus m = i then 0 else mFocus m),
        mPressed := (if mPressed m = i then 0 else mPressed m), mPopup := (if mPopup m = i then 0 else mPopup m),
        mDragging := (if mDragging m = i then 0 else mDragging m)\<rparr>"
    have m1: "guiOk m1"
    proof -
      have "treeOk m1" using tree by (simp add: m1_def treeOk_def)
      moreover have "refersTo focusable m1 (mFocus m1)" "refersTo focusable m1 (mPressed m1)"
        "refersTo openable m1 (mPopup m1)" "refersTo draggable m1 (mDragging m1)"
        using refs by (simp_all add: m1_def refersTo_other)
      ultimately show ?thesis
        using ok widgets changes by (simp add: guiOk_def inputOk_def m1_def)
    qed
    show ?thesis
    proof (cases "mPopup m = i")
      case True
      have "guiOk (updateW i (wHighlight_update (\<lambda>_. -1)) m1)"
        using m1 by (rule guiOk_updateW) (auto intro!: widgetOk_highlight simp: order_less_le_trans [of "-1" 0])
      moreover have "setEnabled m i enabled = (if interactive w
          then Inr (dirtied (dirtied (updateW i (wHighlight_update (\<lambda>_. -1)) m1))) else Inl errWrongKind)"
        using Some False True
        by (simp add: setEnabled_def Let_def closePopup_def updateW_def m1_def dirtied_def)
      ultimately show ?thesis by simp
    next
      case popup: False
      have "setEnabled m i enabled = (if interactive w then Inr (dirtied m1) else Inl errWrongKind)"
        using Some False popup by (simp add: setEnabled_def Let_def updateW_def m1_def dirtied_def)
      with m1 show ?thesis by simp
    qed
  qed
qed (simp add: setEnabled_def)

text \<open>A new widget.\<close>

lemma kindNamed_kind: "kindNamed name = Some kind \<Longrightarrow> kindName kind = name"
  by (auto simp: kindNamed_def find_Some_iff)

lemma createWidget_ok:
  assumes "checkSpec kind s = None" and "createWidget m kind parent s = Inr created"
  shows "contentsOk (created\<lparr>wCaret := int (length (wText created))\<rparr>)" "wScrollX created = 0" "wScrollY created = 0"
    "wListScroll created = 0" "wParent created = parent" "wChildren created = []" "wKind created = kind"
    "\<not> wDisabled created"
proof -
  have c: "created = freshWidget kind parent s \<or> created = freshWidget kind parent s\<lparr>wItems := sItems s, wSelected := sSelected s\<rparr>
      \<or> created = freshWidget kind parent s\<lparr>wColumns := sColumns s, wRows := sRows s,
          wWidths := columnWidths (mMeasure m) (sColumns s) (sRows s)\<rparr>"
    using assms(2) by (auto simp: createWidget_def Let_def split: if_splits)
  then show "wScrollX created = 0" "wScrollY created = 0" "wListScroll created = 0" "wParent created = parent"
    "wChildren created = []" "wKind created = kind" "\<not> wDisabled created"
    by (auto simp: freshWidget_def)
  have bnds: "int (length (toRunes (sText s))) \<le> (if kind = kindTextArea then maxAreaRunes else maxTextRunes)"
    "0 \<le> sSpacing s \<and> sSpacing s \<le> maxSpacing \<and> 0 \<le> sPadding s \<and> sPadding s \<le> maxSpacing"
    "int (length (sItems s)) \<le> maxItems" "kind = kindTable \<Longrightarrow> checkTable (sColumns s) (sRows s) = None"
    using assms(1) by (auto simp: checkSpec_def Let_def checkItems_def validAreaText_def dest!: validText_length
        split: if_splits option.splits)
  show "contentsOk (created\<lparr>wCaret := int (length (wText created))\<rparr>)"
  proof (cases "kind = kindTable")
    case True
    then have rows: "list_all (\<lambda>row. length row = length (sColumns s)) (sRows s)"
      using bnds(4) by (intro checkTableRows_rows) (simp add: checkTable_def split: if_splits)
    show ?thesis
      using assms(2) True bnds(1-3) rows columnWidths_ok [OF rows, of "mMeasure m"]
      by (auto simp: createWidget_def Let_def freshWidget_def contentsOk_def countOf_def limits)
  next
    case False
    then show ?thesis
      using assms(2) bnds(1-3)
      by (auto simp: createWidget_def Let_def freshWidget_def contentsOk_def countOf_def split: if_splits)
  qed
qed

text \<open>Adding a widget: the last of the order, and the last child of its parent.\<close>

definition grown :: "model \<Rightarrow> model \<Rightarrow> bool" where
  "grown m m' \<longleftrightarrow> (\<forall>j w. mWidgets m j = Some w \<longrightarrow> (\<exists>w'. mWidgets m' j = Some w' \<and> wId w' = wId w
     \<and> wKind w' = wKind w \<and> wParent w' = wParent w \<and> wDisabled w' = wDisabled w
     \<and> set (wChildren w) \<subseteq> set (wChildren w')))"

lemma grown_inputOk:
  assumes g: "grown m m'" and s: "sameInput m m'" and "inputOk m"
  shows "inputOk m'"
proof -
  have kinds: "(focusable w' = focusable w) \<and> (openable w' = openable w) \<and> (draggable w' = draggable w)
      \<and> (changeable w' = changeable w)" if "wKind w' = wKind w" "wDisabled w' = wDisabled w" for w w'
    using that by (simp add: focusable_def interactive_def openable_def draggable_def scrolling_def changeable_def)
  have keep: "\<exists>w'. mWidgets m' j = Some w' \<and> P w'" if w: "mWidgets m j = Some w" "P w"
    "P \<in> {focusable, openable, draggable, changeable}" for j w P
  proof -
    obtain w' where w': "mWidgets m' j = Some w'" "wKind w' = wKind w" "wDisabled w' = wDisabled w"
      using g w(1) unfolding grown_def by blast
    with w(2,3) kinds [OF w'(2,3)] show ?thesis by auto
  qed
  have ref: "refersTo P m j \<Longrightarrow> refersTo P m' j" if "P \<in> {focusable, openable, draggable, changeable}" for P j
    using keep that by (auto simp: refersTo_def)
  have "\<exists>w'. mWidgets m' j = Some w' \<and> changeable w'" if j: "j \<in> set (mChanges m)" for j
  proof -
    obtain w where "mWidgets m j = Some w" "changeable w" using assms(3) j by (auto simp: inputOk_def)
    then show ?thesis by (rule keep) simp
  qed
  moreover have "refersTo focusable m' (mFocus m)" "refersTo focusable m' (mPressed m)"
    "refersTo openable m' (mPopup m)" "refersTo draggable m' (mDragging m)"
    using assms(3) by (auto simp: inputOk_def intro: ref)
  ultimately show ?thesis using assms(3) s by (simp add: inputOk_def sameInput_def)
qed

lemma attach_ok:
  assumes ok: "guiOk m" and room: "int (length (mOrder m)) < maxWidgets"
    and created: "contentsOk (created\<lparr>wCaret := int (length (wText created))\<rparr>)" "wScrollX created = 0"
      "wScrollY created = 0" "wListScroll created = 0" "wParent created = parent" "wChildren created = []"
    and parent: "checkParent m parent created = None"
  shows "guiOk (snd (attach m parent created))"
proof -
  define i where "i = mNext m + 1"
  define new where "new = created\<lparr>wId := i, wCaret := int (length (wText created))\<rparr>"
  define m' where "m' = snd (attach m parent created)"
  note tree = guiOk_treeOk [OF ok]
  have fresh: "mWidgets m i = None" using guiOk_rangeI [OF ok, of i] by (cases "mWidgets m i") (auto simp: i_def)
  have next_pos: "0 \<le> mNext m" using tree by (simp add: treeOk_def)
  have old: "\<exists>owner. mWidgets m parent = Some owner \<and> container owner" if "parent \<noteq> 0"
    using parent that by (auto simp: checkParent_def split: option.splits if_splits)
  have first: "mNext m = 0" if "parent = 0"
    using parent that tree by (auto simp: checkParent_def treeOk_def split: if_splits)
  have ws: "mWidgets m' j = (if j = i then Some new
      else if j = parent then map_option (\<lambda>w. w\<lparr>wChildren := wChildren w @ [i]\<rparr>) (mWidgets m j) else mWidgets m j)" for j
  proof (cases "parent = 0")
    case True
    then show ?thesis using guiOk_rangeI [OF ok, of 0]
      by (cases "mWidgets m 0") (auto simp: m'_def attach_def Let_def i_def new_def dirtied_def)
  next
    case False
    then have "parent \<noteq> i" using old fresh by auto
    then show ?thesis using False
      by (auto simp: m'_def attach_def Let_def i_def new_def dirtied_def updateW_def)
  qed
  have fields: "mNext m' = i" "mOrder m' = mOrder m @ [i]" "mRoot m' = (if parent = 0 then i else mRoot m)"
    "sameInput m m'"
    by (auto simp: m'_def attach_def Let_def i_def dirtied_def sameInput_def updateW_def)
  have grown: "grown m m'"
    unfolding grown_def using fresh by (auto simp: ws)
  have olds: "\<exists>w. mWidgets m j = Some w \<and> wId w' = wId w \<and> wKind w' = wKind w \<and> wParent w' = wParent w
      \<and> wChildren w' = wChildren w @ (if j = parent then [i] else [])" if "mWidgets m' j = Some w'" "j \<noteq> i" for j w'
    using that by (auto simp: ws split: if_splits)
  have node: "treeNode (mWidgets m') j w'" if w': "mWidgets m' j = Some w'" for j w'
  proof (cases "j = i")
    case True
    then have new: "w' = new" using w' by (simp add: ws)
    have "\<exists>pw. mWidgets m' parent = Some pw \<and> i \<in> set (wChildren pw)" if "i \<noteq> 1"
    proof -
      have "parent \<noteq> 0" using first that by (auto simp: i_def)
      then show ?thesis using old fresh by (auto simp: ws)
    qed
    then show ?thesis using True new created(5,6) by (auto simp: treeNode_def new_def)
  next
    case False
    obtain w where w: "mWidgets m j = Some w" "wId w' = wId w" "wKind w' = wKind w" "wParent w' = wParent w"
      "wChildren w' = wChildren w @ (if j = parent then [i] else [])"
      using olds [OF w' False] by blast
    have n: "treeNode (mWidgets m) j w" using guiOk_node [OF ok w(1)] .
    have kid: "j < c \<and> (\<exists>cw. mWidgets m' c = Some cw \<and> wParent cw = j)" if "c \<in> set (wChildren w)" for c
    proof -
      obtain cw where cw: "j < c" "mWidgets m c = Some cw" "wParent cw = j" using n \<open>c \<in> set (wChildren w)\<close> by (auto simp: treeNode_def)
      then show ?thesis using grown unfolding grown_def by fastforce
    qed
    have less: "j < i" using guiOk_rangeI [OF ok w(1)] by (simp add: i_def)
    have newkid: "j < i \<and> (\<exists>cw. mWidgets m' i = Some cw \<and> wParent cw = j)" if "j = parent"
      using less that created(5) by (simp add: ws new_def)
    have notin: "i \<notin> set (wChildren w)"
    proof
      assume "i \<in> set (wChildren w)"
      then obtain cw where "mWidgets m i = Some cw" using n by (auto simp: treeNode_def)
      then show False using fresh by simp
    qed
    have up: "\<exists>pw. mWidgets m' (wParent w) = Some pw \<and> j \<in> set (wChildren pw)" if j1: "j \<noteq> 1"
    proof -
      obtain pw where pw: "mWidgets m (wParent w) = Some pw" "j \<in> set (wChildren pw)" using n j1 by (auto simp: treeNode_def)
      then show ?thesis using grown unfolding grown_def by (meson subsetD)
    qed
    have cont: "container w'" if "j = parent"
      using old w(1,3) that guiOk_rangeI [OF ok w(1)] by (auto simp: container_def)
    show ?thesis
      using n w kid newkid notin up cont by (auto simp: treeNode_def container_def)
  qed
  have "dom (mWidgets m') = insert i (dom (mWidgets m))" by (auto simp: ws split: if_splits)
  then have dom: "dom (mWidgets m') = {1..i}" using tree by (auto simp: treeOk_def i_def)
  have "treeOk m'"
    unfolding treeOk_def
  proof (intro conjI)
    show "mNext m' \<le> maxWidgets" using room tree next_pos by (simp add: fields treeOk_def i_def)
    show "mOrder m' = [1..mNext m']"
      using tree next_pos upto_rec2 [of 1 i] by (simp add: fields treeOk_def i_def)
    show "mRoot m' = (if mNext m' = 0 then 0 else 1)"
    proof (cases "parent = 0")
      case True
      then show ?thesis using first by (simp add: fields i_def)
    next
      case False
      then have "mNext m \<noteq> 0" using old tree by (auto simp: treeOk_def)
      then show ?thesis using False tree next_pos by (simp add: fields treeOk_def i_def)
    qed
  qed (use next_pos dom node in \<open>auto simp: fields i_def\<close>)
  moreover have "new = created\<lparr>wCaret := int (length (wText created))\<rparr>\<lparr>wId := i\<rparr>" by (simp add: new_def)
  then have "contentsOk new" using created(1) by (simp only: contentsOk_updates)
  then have "widgetOk new" using created(2-4) by (simp add: widgetOk_def) (simp add: new_def)
  then have "widgetOk w'" if "mWidgets m' j = Some w'" for j w'
    using that guiOk_widget [OF ok] by (auto simp: ws split: if_splits)
  moreover have "inputOk m'" using grown_inputOk [OF grown fields(4)] ok by (simp add: guiOk_def)
  ultimately show ?thesis
    using ok fields(4) unfolding m'_def [symmetric] by (simp add: guiOk_def sameInput_def)
qed

lemma addSpec_ok:
  assumes ok: "guiOk m" and "addSpec m parent s = Inr (i, m')"
  shows "guiOk m'" and "i = mNext m + 1"
proof -
  obtain kind created where k: "kindNamed (sKind s) = Some kind" "checkSpec kind s = None"
    "createWidget m kind parent s = Inr created" "checkParent m parent created = None"
    "int (length (mOrder m)) < maxWidgets" "(i, m') = attach m parent created"
    using assms(2) by (auto simp: addSpec_def split: if_splits option.splits sum.splits)
  note c = createWidget_ok [OF k(2,3)]
  show "guiOk m'" using attach_ok [OF ok k(5) c(1-6) k(4)] k(6) by (metis snd_conv)
  show "i = mNext m + 1" using k(6) by (simp add: attach_def Let_def)
qed

subsection \<open>Input of the user\<close>

lemma openable_focusable: "openable w \<Longrightarrow> focusable w"
  by (simp add: openable_def focusable_def interactive_def)

lemma refersToI: "mWidgets m i = Some w \<Longrightarrow> P w \<Longrightarrow> refersTo P m i"
  by (simp add: refersTo_def)

lemma pressScrollbar_ok:
  assumes ok: "guiOk m" and w: "mWidgets m i = Some w" "focusable w"
  shows "returns (\<lambda>(grabbed, m'). guiOk m' \<and> (\<not> grabbed \<longrightarrow> m' = m)) (pressScrollbar m i x y)"
proof (cases "scrolling w")
  case True
  have keep: "guiOk ((updateW i (\<lambda>_. t) m)\<lparr>mDragging := wId w, mGrabY := g\<rparr>)"
    if t: "shape t = shape w" "widgetOk t" for t g
  proof -
    have m: "guiOk (updateW i (\<lambda>_. t) m)" by (rule guiOk_updateW [OF ok]) (use w t in auto)
    have "draggable t" using shape_kinds [OF t(1)] True w(2) by (simp add: draggable_def focusable_def shape_def)
    then have "refersTo draggable (updateW i (\<lambda>_. t) m) (wId w)"
      using guiOk_id [OF ok w(1)] w(1) by (simp add: refersTo_def mWidgets_updateW)
    with m have "guiOk ((updateW i (\<lambda>_. t) m)\<lparr>mDragging := wId w\<rparr>)" by (rule guiOk_references)
    then show ?thesis by simp
  qed
  have "guiOk ((updateW i (\<lambda>_. w) m)\<lparr>mDragging := wId w, mGrabY := g\<rparr>)" for g
    using keep [OF refl guiOk_widget [OF ok w(1)]] .
  moreover have "guiOk ((updateW i (\<lambda>_. clampScroll (w\<lparr>wScrollY := z\<rparr>)) m)\<lparr>mDragging := wId w, mGrabY := g\<rparr>)" for g z
    using keep True guiOk_widget [OF ok w(1)] by (simp add: scrolled_steps)
  ultimately show ?thesis using True w ok
    by (simp add: pressScrollbar_def Let_def split: prod.split)
qed (use w ok in \<open>simp add: pressScrollbar_def\<close>)

lemma placeAreaCaret_steps [widget_steps]:
  "shape (placeAreaCaret m x y w) = shape w" "widgetOk w \<Longrightarrow> widgetOk (placeAreaCaret m x y w)"
  by (simp_all add: placeAreaCaret_def Let_def widgetOk_caret areaOffset_bounds)

lemma pressWidget_ok:
  assumes ok: "guiOk m" and w: "mWidgets m i = Some w"
  shows "returns guiOk (pressWidget m i x y)"
proof (cases "focusable w")
  case True
  let ?m = "m\<lparr>mPressed := i, mFocus := i\<rparr>"
  have r: "refersTo focusable m i" using w True by (rule refersToI)
  have "guiOk (m\<lparr>mPressed := i\<rparr>)" using ok r by (rule guiOk_references)
  then have m: "guiOk ?m" using r by (intro guiOk_references(1)) simp_all
  have w': "mWidgets ?m i = Some w" using w by simp
  obtain grabbed m5 where m5: "pressScrollbar ?m i x y = Some (grabbed, m5)" "guiOk m5" "\<not> grabbed \<Longrightarrow> m5 = ?m"
    using pressScrollbar_ok [OF m w' True, of x y]
    by (cases "pressScrollbar ?m i x y") (auto split: prod.splits)
  have sel: "returns guiOk (userSelect ?m i row)" if "wKind w = kindListBox \<or> wKind w = kindTable" for row
    by (rule userSelect_ok [OF m w']) (use that in auto)
  have "guiOk (updateW i (placeAreaCaret m5 x y) m5)"
    using m5(2) by (rule guiOk_updateW) (simp add: placeAreaCaret_steps)
  then show ?thesis using w True m5 sel m by (auto simp: pressWidget_def Let_def)
qed (use ok w in \<open>simp add: pressWidget_def\<close>)

lemma pressWindow_ok:
  assumes ok: "guiOk m" shows "returns guiOk (pressWindow m x y)"
proof -
  obtain i where i: "hit m x y = Some i" "if i = 0 then \<forall>j. \<not> leafAt m x y j else leafAt m x y i"
    using hit_leaf [OF ok] by blast
  have m': "guiOk (m\<lparr>mFocus := 0\<rparr>)" using guiOk_references(1) [OF ok, of 0] by simp
  have "returns guiOk (pressWidget (m\<lparr>mFocus := 0\<rparr>) i x y)" if i0: "i \<noteq> 0"
  proof -
    obtain w where "mWidgets (m\<lparr>mFocus := 0\<rparr>) i = Some w" using i(2) i0 by (auto simp: leafAt_def)
    with m' show ?thesis by (rule pressWidget_ok)
  qed
  then show ?thesis using i(1) m' by (simp add: pressWindow_def)
qed

lemma laid_out_step:
  assumes "guiOk m"
  obtains m1 where "layout m = Some m1" "guiOk m1" "guiOk ((dirtied m1)\<lparr>mPressed := 0\<rparr>)"
proof -
  obtain m1 where m1: "layout m = Some m1" "guiOk m1" using layout_ok [OF assms] by (rule returnsE) blast
  then show thesis using guiOk_references(2) [of "dirtied m1" 0] by (intro that) simp_all
qed

lemma press_ok:
  assumes ok: "guiOk m" shows "returns guiOk (press m x y)"
proof -
  obtain m1 where m1: "layout m = Some m1" and m2: "guiOk ((dirtied m1)\<lparr>mPressed := 0\<rparr>)"
    using laid_out_step [OF ok] by metis
  have popup: "guiOk ((dirtied m1)\<lparr>mPressed := mPopup m1\<rparr>)" if p: "mPopup m1 \<noteq> 0"
  proof -
    obtain p where "mWidgets m1 (mPopup m1) = Some p" "openable p" using guiOk_popup [OF m2] p by auto
    then have "guiOk ((dirtied m1)\<lparr>mPressed := 0\<rparr>\<lparr>mPressed := mPopup m1\<rparr>)"
      by (intro guiOk_references(2) m2 refersToI) (auto intro: openable_focusable)
    then show ?thesis by simp
  qed
  show ?thesis using m1 popup pressWindow_ok m2 by (simp add: press_def Let_def)
qed

lemma drag_ok: assumes ok: "guiOk m" shows "guiOk (drag m x y)"
proof (cases "mDragging m = 0")
  case False
  then obtain w where w: "mWidgets m (mDragging m) = Some w" "draggable w"
    using ok by (auto simp: guiOk_def inputOk_def refersTo_def)
  have "guiOk (updateW (mDragging m) (dragScrollbar (mGrabY m) y) m)"
    using ok by (rule guiOk_updateW) (use w in \<open>auto simp: dragScrollbar_steps draggable_def\<close>)
  then show ?thesis using w False by (simp add: drag_def)
qed (use ok in \<open>simp add: drag_def\<close>)

lemma activate_ok:
  assumes ok: "guiOk m" and w: "mWidgets m i = Some w"
  shows "returns (\<lambda>(_, m'). guiOk m') (activate m i)"
proof -
  let ?f = "\<lambda>w. w\<lparr>wChecked := \<not> wChecked w\<rparr>"
  have "guiOk (noteChange i (updateW i ?f m))" if "wKind w = kindCheckbox"
  proof (rule noteChange_ok)
    show "guiOk (updateW i ?f m)" using ok by (rule guiOk_updateW) simp
    show "mWidgets (updateW i ?f m) i = Some (?f w)" using w by (simp add: mWidgets_updateW)
    show "changeable (?f w)" using that by (simp add: changeable_def interactive_def)
  qed
  moreover have "returns (\<lambda>(_, m'). guiOk m') (map_option (Pair 0) (openPopup m i))" if "wKind w = kindSelect"
    using openPopup_ok [OF ok w that] by (cases "openPopup m i") auto
  ultimately show ?thesis using ok w by (auto simp: activate_def)
qed

lemma releasePopup_ok:
  assumes ok: "guiOk m" and p: "mPopup m \<noteq> 0"
  shows "returns (\<lambda>(_, m'). guiOk m') (releasePopup m x y)"
proof -
  obtain p where p: "mWidgets m (mPopup m) = Some p" "openable p" using guiOk_popup [OF ok p] by auto
  obtain choice where choice: "popupChoiceAt m y = Some choice" using p by (simp add: popupChoiceAt_def Let_def)
  obtain m3 where "userSelect m (mPopup m) choice = Some m3" "guiOk m3"
    using userSelect_ok [OF ok p(1)] p(2) by (auto simp: openable_def elim: returnsE)
  then show ?thesis using ok choice by (simp add: releasePopup_def)
qed

lemma release_ok:
  assumes ok: "guiOk m" shows "returns (\<lambda>(_, m'). guiOk m') (release m x y)"
proof -
  obtain m1 where m1: "layout m = Some m1" and m2: "guiOk ((dirtied m1)\<lparr>mPressed := 0\<rparr>)"
    using laid_out_step [OF ok] by metis
  let ?m = "(dirtied m1)\<lparr>mPressed := 0\<rparr>"
  have drop: "guiOk (?m\<lparr>mDragging := 0\<rparr>)" using guiOk_references(4) [OF m2, of 0] by simp
  obtain i where i: "hit ?m x y = Some i" "if i = 0 then \<forall>j. \<not> leafAt ?m x y j else leafAt ?m x y i"
    using hit_leaf [OF m2] by blast
  have "returns (\<lambda>(_, m'). guiOk m') (activate ?m i)" if "i \<noteq> 0"
    using i(2) that activate_ok [OF m2] by (auto simp: leafAt_def)
  moreover have "returns (\<lambda>(_, m'). guiOk m') (releasePopup ?m x y)" if "mPopup m1 \<noteq> 0"
    using releasePopup_ok [OF m2] that by simp
  ultimately show ?thesis using m1 m2 drop i(1) by (auto simp: release_def Let_def)
qed

lemma wheel_ok:
  assumes ok: "guiOk m" shows "returns (\<lambda>(_, m'). guiOk m') (wheel m x y dx dy)"
proof -
  obtain m1 where m1: "layout m = Some m1" "guiOk m1" using layout_ok [OF ok] by (rule returnsE) blast
  show ?thesis
  proof (cases "mPopup m1 = 0")
    case False
    then obtain p where p: "mWidgets m1 (mPopup m1) = Some p" using guiOk_popup [OF m1(2)] by blast
    have "guiOk (updateW (mPopup m1) (\<lambda>w. clampPopup (w\<lparr>wListScroll := wListScroll w - dy\<rparr>)) m1)"
      using m1(2) by (rule guiOk_updateW) (auto simp: clampPopup_steps widgetOk_def intro!: clampPopup_steps(2) [unfolded widgetOk_def])
    then show ?thesis using m1 False p by (simp add: wheel_def)
  next
    case True
    obtain i where i: "hit m1 x y = Some i" "if i = 0 then \<forall>j. \<not> leafAt m1 x y j else leafAt m1 x y i"
      using hit_leaf [OF m1(2)] by blast
    show ?thesis
    proof (cases "i = 0")
      case False
      then obtain w where w: "mWidgets m1 i = Some w" using i(2) by (auto simp: leafAt_def)
      let ?f = "\<lambda>w. clampScroll (w\<lparr>wScrollY := wScrollY w - dy,
                wScrollX := (if wKind w = kindTable then wScrollX w - dx else wScrollX w)\<rparr>)"
      have "guiOk (updateW i ?f m1)" if "scrolling w"
      proof (rule guiOk_updateW [OF m1(2)])
        fix v assume "mWidgets m1 i = Some v" "widgetOk v"
        with w that show "shape (?f v) = shape v \<and> widgetOk (?f v)"
          by (intro conjI wheel_steps) (auto simp: widgetOk_def)
      qed
      then show ?thesis using m1 True i(1) w False by (simp add: wheel_def)
    qed (use m1 True i in \<open>simp add: wheel_def\<close>)
  qed
qed

text \<open>Go's two remainders around a sum make an index of the order.\<close>

lemma wrapped_index: "0 < (n::int) \<Longrightarrow> (a smod n + n) smod n = a mod n"
proof -
  assume n: "0 < n"
  have bound: "\<bar>a smod n\<bar> < n" using n by (simp add: signed_modulo_int_def abs_mult abs_sgn_eq)
  have "a smod n mod n = a mod n"
    using n by (simp add: signed_modulo_int_def mod_mult_right_eq) (metis mod_mult_right_eq sgn_mult_abs)
  moreover have "(a smod n + n) smod n = (a smod n + n) mod n"
    using sdiv_smod_nonneg [of "a smod n + n" n] n bound by simp
  ultimately show ?thesis by simp
qed

lemma focusLoop_ok:
  assumes ok: "guiOk m"
  shows "left \<le> length (mOrder m) \<Longrightarrow> returns guiOk (focusLoop left step start direction m)"
proof (induction left arbitrary: step)
  case (Suc left)
  define n where "n = int (length (mOrder m))"
  define i where "i = mOrder m ! nat (((start + direction * step) smod n + n) smod n)"
  have n: "0 < n" using Suc.prems unfolding n_def by linarith
  then have "nat (((start + direction * step) smod n + n) smod n) < length (mOrder m)"
    unfolding wrapped_index [OF n] by (simp add: n_def nat_less_iff)
  then have "i \<in> dom (mWidgets m)" using ok nth_mem unfolding i_def by (fastforce simp: guiOk_def treeOk_def)
  then obtain w where w: "mWidgets m i = Some w" by blast
  have "guiOk (m\<lparr>mFocus := i\<rparr>)" if "focusable w" using ok refersToI [OF w] that by (intro guiOk_references) simp
  then show ?case
    using Suc w by (simp add: Let_def i_def [symmetric] n_def [symmetric])
qed (use ok in simp)

lemma focusStep_ok: "guiOk m \<Longrightarrow> returns guiOk (focusStep direction m)"
  by (simp add: focusStep_def Let_def focusLoop_ok)

lemma activateFocused_ok:
  assumes ok: "guiOk m" shows "returns (\<lambda>(_, m'). guiOk m') (activateFocused space m)"
proof (cases "mWidgets m (mFocus m)")
  case (Some w)
  have id: "wId w = mFocus m" using guiOk_id [OF ok Some] .
  have "returns (\<lambda>(_, m'). guiOk m') (do {
          m1 \<leftarrow> (if wHighlight w \<ge> 0 then userSelect m (mFocus m) (wHighlight w) else Some m);
          Some (0, closePopup m1)
        })" if kind: "wKind w = kindSelect"
  proof -
    have "returns guiOk (if wHighlight w \<ge> 0 then userSelect m (mFocus m) (wHighlight w) else Some m)"
      using userSelect_ok [OF ok Some] kind ok by simp
    then show ?thesis by (rule returns_bind) simp
  qed
  moreover have "returns (\<lambda>(_, m'). guiOk m') (map_option (Pair 0) (openPopup m (mFocus m)))" if "wKind w = kindSelect"
    using openPopup_ok [OF ok Some that] by (cases "openPopup m (mFocus m)") auto
  ultimately show ?thesis
    using Some ok activate_ok [OF ok Some] by (auto simp: activateFocused_def id)
qed (use ok in \<open>simp add: activateFocused_def\<close>)

lemma focusedInput_Some:
  assumes "focusedInput m = Some w"
  shows "mWidgets m (mFocus m) = Some w" "changeable w" "textField w \<or> wKind w = kindTextArea"
  using assms by (auto simp: focusedInput_def changeable_def interactive_def textField_def split: option.splits if_splits)

text \<open>A changed text is entered into the window and noted.\<close>

lemma entered_ok:
  assumes ok: "guiOk m" and w: "mWidgets m i = Some w" "changeable w" and w': "shape w' = shape w" "widgetOk w'"
  shows "guiOk (updateW i (\<lambda>_. w') m)" "guiOk (noteChange (wId w) (updateW i (\<lambda>_. w') m))"
    "guiOk (updateW i (\<lambda>_. w') (noteChange (wId w) m))"
proof -
  show m: "guiOk (updateW i (\<lambda>_. w') m)" by (rule guiOk_updateW [OF ok]) (use w w' in auto)
  have "changeable w'" using shape_kinds [OF w'(1)] w(2) by simp
  moreover have "mWidgets (updateW i (\<lambda>_. w') m) (wId w) = Some w'"
    using guiOk_id [OF ok w(1)] w(1) by (simp add: mWidgets_updateW)
  ultimately show n: "guiOk (noteChange (wId w) (updateW i (\<lambda>_. w') m))" by (intro noteChange_ok m)
  have "noteChange (wId w) (updateW i (\<lambda>_. w') m) = updateW i (\<lambda>_. w') (noteChange (wId w) m)"
    by (simp add: noteChange_def updateW_def)
  with n show "guiOk (updateW i (\<lambda>_. w') (noteChange (wId w) m))" by simp
qed

lemma insertText_ok: assumes ok: "guiOk m" shows "guiOk (snd (insertText rs m))"
proof (cases "focusedInput m")
  case (Some w)
  note f = focusedInput_Some [OF Some]
  let ?limit = "if wKind w = kindTextArea then maxAreaRunes else maxTextRunes"
  obtain changed w' where ins: "insertRunes ?limit rs (False, w) = (changed, w')"
    by (cases "insertRunes ?limit rs (False, w)")
  note w' = insertRunes_steps [OF ins refl guiOk_widget [OF ok f(1)]]
  have "guiOk (noteChange (wId w) (updateW (mFocus m) (\<lambda>_. revealCaret w') m))"
    using entered_ok(2) [OF ok f(1,2), of "revealCaret w'"] w' by (simp add: revealCaret_steps)
  then show ?thesis using Some ins ok by (simp add: insertText_def Let_def)
qed (use ok in \<open>simp add: insertText_def\<close>)

lemma editArea_ok:
  assumes ok: "guiOk m" and w: "mWidgets m i = Some w" "changeable w" "wKind w = kindTextArea"
  shows "guiOk (editArea i key w m)"
proof -
  note wok = guiOk_widget [OF ok w(1)]
  have fin: "guiOk (updateW i (\<lambda>_. revealCaret t) m)"
    "guiOk (updateW i (\<lambda>_. revealCaret t) (noteChange (wId w) m))"
    if "shape t = shape w" "widgetOk t" for t
    using entered_ok [OF ok w(1,2), of "revealCaret t"] that by (simp_all add: revealCaret_steps)
  have caret: "shape (w\<lparr>wCaret := c\<rparr>) = shape w" for c by simp
  have ok_caret: "widgetOk (w\<lparr>wCaret := c\<rparr>)" if "0 \<le> c" "c \<le> int (length (wText w))" for c
    using wok that by (rule widgetOk_caret)
  have "widgetOk (insertRune newlineRune w)" if "int (length (wText w)) < maxAreaRunes"
    using wok w(3) that by (intro insertRune_steps) simp_all
  moreover have "widgetOk (backspace w)" if "0 < wCaret w" using wok that by (rule backspace_steps)
  moreover have "widgetOk (deleteRune w)" if "wCaret w < int (length (wText w))"
    using wok that by (rule deleteRune_steps)
  ultimately show ?thesis
    unfolding editArea_def Let_def
    using ok wok widgetOk_caretD [OF wok]
    by (simp add: fin insertRune_steps backspace_steps deleteRune_steps ok_caret areaOffset_bounds split: prod.split)
qed

lemma edit_ok: assumes ok: "guiOk m" shows "guiOk (snd (edit key m))"
proof (cases "focusedInput m")
  case (Some w)
  note f = focusedInput_Some [OF Some]
  note wok = guiOk_widget [OF ok f(1)]
  let ?i = "mFocus m"
  have change: "guiOk (noteChange (wId w) (updateW ?i g m))" if "shape (g w) = shape w" "widgetOk (g w)" for g
  proof -
    have "updateW ?i g m = updateW ?i (\<lambda>_. g w) m" using f(1) by (simp add: updateW_def)
    then show ?thesis using entered_ok(2) [OF ok f(1,2) that] by simp
  qed
  have caret: "guiOk (updateW ?i (wCaret_update (\<lambda>_. c)) m)" if "0 \<le> c" "c \<le> int (length (wText w))" for c
    using ok by (rule guiOk_updateW) (use f(1) that in \<open>auto intro: widgetOk_caret\<close>)
  show ?thesis
    using Some ok editArea_ok [OF ok f(1,2)] change [of backspace] change [of deleteRune] caret
      widgetOk_caretD [OF wok] wok
    by (auto simp: edit_def Let_def backspace_steps deleteRune_steps)
qed (use ok in \<open>simp add: edit_def\<close>)

lemma stepIndex_bounds:
  assumes "stepIndex current count key = (nxt, True)" "0 \<le> count" "-1 \<le> current" "current < count"
  shows "-1 \<le> nxt \<and> nxt < count"
  using assms by (auto simp: stepIndex_def pageItems_def split: if_splits)

lemma navigate_ok: assumes ok: "guiOk m" shows "returns (\<lambda>(_, m'). guiOk m') (navigate key m)"
proof (cases "mWidgets m (mFocus m)")
  case (Some w)
  let ?current = "if mPopup m = wId w then wHighlight w else wSelected w"
  obtain nxt ok' where st: "stepIndex ?current (countOf w) key = (nxt, ok')"
    by (cases "stepIndex ?current (countOf w) key")
  note wok = guiOk_widget [OF ok Some]
  have "-1 \<le> ?current" "?current < countOf w" using wok by (simp_all add: widgetOk_def contentsOk_def)
  with st have b: "ok' \<Longrightarrow> -1 \<le> nxt \<and> nxt < countOf w" using stepIndex_bounds by simp
  have "guiOk (updateW (mFocus m) (\<lambda>w. revealPopup (w\<lparr>wHighlight := nxt\<rparr>)) m)" if "ok'"
  proof (rule guiOk_updateW [OF ok])
    fix v assume "mWidgets m (mFocus m) = Some v" "widgetOk v"
    with Some b [OF that] show "shape (revealPopup (v\<lparr>wHighlight := nxt\<rparr>)) = shape v \<and> widgetOk (revealPopup (v\<lparr>wHighlight := nxt\<rparr>))"
      by (simp add: revealPopup_steps widgetOk_highlight)
  qed
  moreover have "returns (\<lambda>(_, m'). guiOk m') (map_option (Pair True) (userSelect m (mFocus m) nxt))"
    if "wKind w \<in> {kindListBox, kindTable, kindSelect}"
    using userSelect_ok [OF ok Some that, of nxt] by (cases "userSelect m (mFocus m) nxt") auto
  ultimately show ?thesis
    using Some ok st by (auto simp: navigate_def Let_def)
qed (use ok in \<open>simp add: navigate_def\<close>)

lemma typeInto_ok: assumes ok: "guiOk m" shows "keepsOk (typeInto m i s)"
proof (cases "mWidgets m i")
  case (Some w)
  have "guiOk ((snd (insertText (toRunes s) (m\<lparr>mFocus := i\<rparr>)))\<lparr>mFocus := mFocus m\<rparr>)"
    if t: "textField w \<or> wKind w = kindTextArea" "\<not> wDisabled w"
  proof -
    let ?m = "m\<lparr>mFocus := i\<rparr>"
    have "focusable w" using t by (auto simp: focusable_def interactive_def textField_def)
    then have m: "guiOk ?m" using ok refersToI [OF Some] by (intro guiOk_references)
    let ?r = "snd (insertText (toRunes s) ?m)"
    have r: "guiOk ?r" using m by (rule insertText_ok)
    have f: "focusedInput ?m = Some w" using Some t by (simp add: focusedInput_def)
    have same: "sameTree ?m ?r"
    proof -
      let ?limit = "if wKind w = kindTextArea then maxAreaRunes else maxTextRunes"
      obtain changed w' where ins: "insertRunes ?limit (toRunes s) (False, w) = (changed, w')"
        by (cases "insertRunes ?limit (toRunes s) (False, w)")
      note w' = insertRunes_steps [OF ins refl guiOk_widget [OF ok Some]]
      have "sameTree ?m (updateW i (\<lambda>_. revealCaret w') ?m)"
        by (rule sameTree_updateW) (use Some w' in \<open>simp add: revealCaret_steps\<close>)
      then show ?thesis using f ins by (simp add: insertText_def Let_def sameTree_def dirtied_def noteChange_def)
    qed
    have "refersTo focusable m (mFocus m)" using ok by (simp add: guiOk_def inputOk_def)
    then have "refersTo focusable ?m (mFocus m)" by simp
    then have "refersTo focusable ?r (mFocus m)" using sameTree_references(1) [OF same] by blast
    with r show ?thesis by (rule guiOk_references)
  qed
  then show ?thesis using Some ok by (simp add: typeInto_def)
qed (simp add: typeInto_def)

lemma toggle_ok: assumes ok: "guiOk m" shows "returns keepsOk (toggle m i)"
proof (cases "mWidgets m i")
  case (Some w)
  then show ?thesis using activate_ok [OF ok Some] ok by (cases "activate m i") (auto simp: toggle_def)
qed (simp add: toggle_def)

lemma chooseItem_ok: assumes ok: "guiOk m" shows "returns keepsOk (chooseItem m i index)"
proof (cases "mWidgets m i")
  case (Some w)
  have "returns keepsOk (map_option Inr (userSelect m i index))" if "wKind w \<in> {kindListBox, kindTable, kindSelect}"
    using userSelect_ok [OF ok Some that, of index] by (cases "userSelect m i index") auto
  then show ?thesis using Some by (auto simp: chooseItem_def)
qed (simp add: chooseItem_def)

lemma takeChanges_ok: "guiOk m \<Longrightarrow> guiOk (snd (takeChanges m))"
  by (simp add: takeChanges_def guiOk_def treeOk_def inputOk_def refersTo_def)

lemma drawn_ok: assumes ok: "guiOk m" shows "returns guiOk (drawn scale scrolls m)"
proof -
  have "guiOk (m\<lparr>mScale := scale\<rparr>)" using ok by simp
  then obtain m1 where m1: "layout (m\<lparr>mScale := scale\<rparr>) = Some m1" "guiOk m1"
    using laid_out_step by metis
  let ?g = "\<lambda>i w. if textField w \<or> wKind w = kindTextArea then w\<lparr>wScroll := scrolls i\<rparr> else w"
  let ?m = "m1\<lparr>mDirty := False, mWidgets := (\<lambda>i. map_option (?g i) (mWidgets m1 i))\<rparr>"
  have "guiOk ?m"
  proof (rule guiOk_sameTree [OF m1(2)])
    have "shape (?g i w) = shape w" for i w by simp
    then show "sameTree m1 ?m" by (simp add: sameTree_def option.map_comp comp_def)
    show "widgetOk w" if "mWidgets ?m i = Some w" for i w
      using that guiOk_widget [OF m1(2)] by (auto split: if_splits)
  qed (simp add: sameInput_def)
  then show ?thesis using m1(1) by (simp add: drawn_def)
qed

end
