(* ===== verification/GuiWindow.thy ===== *)
theory GuiWindow
  imports GuiInput
begin

text \<open>
  Windows of the GUI helper as they are run: the operations as steps, and what holds of every window that
  a sequence of them reaches.
\<close>

subsection \<open>Runs\<close>











subsection \<open>The order of the focus\<close>










subsection \<open>Every window\<close>







subsection \<open>Two clicks that miss\<close>

text \<open>
  The comment of \<open>release\<close> says that a click on a Select opens or closes its list. With the list open, the
  press outside the list closes it, so the release of the same click on the Select opens it again: a click
  never closes it.
\<close>

lemma hitIn_cong:
  assumes "\<And>j. map_option (\<lambda>w. (wId w, container w, coversPoint w x y)) (mWidgets m' j)
      = map_option (\<lambda>w. (wId w, container w, coversPoint w x y)) (mWidgets m j)"
  shows "hitIn m' is x y = hitIn m is x y"
proof (induction "is")
  case (Cons j js)
  then show ?case using assms [of j] by (cases "mWidgets m' j"; cases "mWidgets m j") auto
qed simp

lemma hit_closePopup: "hit (closePopup m) x y = hit m x y"
  unfolding hit_def closePopup_fields
  by (rule hitIn_cong)
    (auto simp: closePopup_def mWidgets_updateW container_def coversPoint_def option.map_comp comp_def)

lemma hit_fields [simp]:
  "hit (m\<lparr>mDirty := b\<rparr>) x y = hit m x y" "hit (m\<lparr>mPressed := p\<rparr>) x y = hit m x y"
  "hit (m\<lparr>mFocus := p\<rparr>) x y = hit m x y"
  by (simp_all add: hit_def) (rule hitIn_cong, simp)+

lemma press_closes_the_list:
  assumes "guiOk m" "layout m = Some m0" "mPopup m0 = i" "i \<noteq> 0" "hit m0 x y = Some i" "\<not> inPopup m0 x y"
  shows "\<exists>m1. press m x y = Some m1 \<and> mPopup m1 = 0 \<and> mPressed m1 = i \<and> mDragging m1 = mDragging m0
    \<and> sameTree m0 m1"
proof -
  have ok: "guiOk m0" using layout_ok [OF assms(1)] assms(2) by simp
  obtain w where w: "mWidgets m0 i = Some w" "openable w" using guiOk_popup [OF ok] assms(3,4) by auto
  define d where "d = (dirtied m0)\<lparr>mPressed := 0\<rparr>"
  define c where "c = closePopup d"
  let ?w = "w\<lparr>wHighlight := -1\<rparr>"
  have d: "mPopup d = i" "mDragging d = mDragging m0" "inPopup d x y = inPopup m0 x y" "hit d x y = Some i"
      "sameTree m0 d" "mWidgets d i = Some w"
    using assms(3,5) w(1) by (simp_all add: d_def inPopup_def dirtied_def sameTree_def)
  have c: "mPopup c = 0" "mDragging c = mDragging m0" "hit c x y = Some i" "sameTree m0 c" "mWidgets c i = Some ?w"
    using d sameTree_trans [OF d(5) closePopup_sameTree]
    by (simp_all add: c_def hit_closePopup, simp add: closePopup_def mWidgets_updateW)
  have kinds: "focusable ?w" "\<not> scrolling ?w" "wKind ?w = kindSelect"
    using w(2) by (simp_all add: openable_def focusable_def interactive_def scrolling_def)
  have widget: "pressWidget (c\<lparr>mFocus := 0\<rparr>) i x y = Some (c\<lparr>mFocus := i, mPressed := i\<rparr>)"
    using c(5) kinds by (simp add: pressWidget_def pressScrollbar_def)
  have "press m x y = pressWindow c x y"
    using assms(2,4,6) d(1,3) unfolding press_def c_def d_def by (simp del: closePopup_fields)
  also have "\<dots> = Some (c\<lparr>mFocus := i, mPressed := i\<rparr>)"
    using c(3) assms(4) by (simp add: pressWindow_def widget)
  finally show ?thesis using c by (simp add: sameTree_def)
qed

lemma open_popup_opens:
  assumes "mWidgets m i = Some w" "\<not> wDisabled w" "wId w = i"
  shows "\<exists>m'. openPopup m i = Some m' \<and> mPopup m' = i"
  using assms by (simp add: openPopup_def placePopup_def updateW_def dirtied_def)

lemma click_on_open_select_reopens:
  assumes "guiOk m" "layout m = Some m0" "mPopup m0 = i" "i \<noteq> 0" "hit m0 x y = Some i" "\<not> inPopup m0 x y"
    and "mDragging m0 = 0" "press m x y = Some m1" "layout m1 = Some m2" "hit m2 x y = Some i"
  shows "mPopup m1 = 0 \<and> returns (\<lambda>(clicked, m3). clicked = 0 \<and> mPopup m3 = i) (release m1 x y)"
proof -
  have ok: "guiOk m0" using layout_ok [OF assms(1)] assms(2) by simp
  have m1: "mPopup m1 = 0" "mPressed m1 = i" "mDragging m1 = 0" "sameTree m0 m1"
    using press_closes_the_list [OF assms(1-6)] assms(7,8) by auto
  have "guiOk m1" using press_ok [OF assms(1), of x y] assms(8) by simp
  from layout_ok [OF this] have m2: "guiOk m2" "sameTree m1 m2" "sameInput m1 m2"
    using assms(9) by simp_all
  have fields: "mPopup m2 = 0" "mPressed m2 = i" "mDragging m2 = 0"
    using m1 m2(3) by (simp_all add: sameInput_def)
  let ?d = "(dirtied m2)\<lparr>mPressed := 0\<rparr>"
  have "guiOk (dirtied m2)" using m2(1) by simp
  then have d: "guiOk ?d" by (rule guiOk_references(2)) simp
  have hits: "hit ?d x y = Some i" using assms(10) by (simp add: dirtied_def)
  obtain w where w: "mWidgets m0 i = Some w" "openable w" using guiOk_popup [OF ok] assms(3,4) by auto
  obtain w2 where w2: "mWidgets m2 i = Some w2" "shape w2 = shape w"
    using sameTree_trans [OF m1(4) m2(2)] w(1) by (rule sameTree_Some)
  then have w2: "mWidgets ?d i = Some w2" "openable w2"
    using w(2) shape_kinds [OF w2(2)] by (simp_all add: dirtied_def)
  have select: "wKind w2 = kindSelect" "\<not> wDisabled w2" "wId w2 = i"
    using w2(2) guiOk_id [OF d w2(1)] by (simp_all add: openable_def)
  obtain m3 where m3: "openPopup ?d i = Some m3" "mPopup m3 = i"
    using open_popup_opens [OF w2(1) select(2,3)] by blast
  have "activate ?d i = Some (0, m3)"
    using w2 select fields m3 assms(4) by (simp add: activate_def)
  then have "release m1 x y = Some (0, m3)"
    using assms(9) fields hits assms(4) by (simp add: release_def)
  then show ?thesis using m1(1) m3(2) by simp
qed

text \<open>
  The lower border line of a list belongs to it (\<open>inPopup\<close>), and \<open>popupChoiceAt\<close> counts it as the line of a
  ninth choice: a click there selects a choice that is not shown.
\<close>

lemma border_selects_a_hidden_choice:
  assumes "mWidgets m (mPopup m) = Some target" "mList m = popupPlace m target"
    and "wListScroll target = 0" "8 < length (wItems target)" "0 < wW target"
  shows "inPopup m (wX target) (pY (mList m) + pH (mList m) - 1)
    \<and> popupChoiceAt m (pY (mList m) + pH (mList m) - 1) = Some 8 \<and> visibleChoices target = 8"
  using assms
  by (simp add: inPopup_def popupChoiceAt_def popupPlace_def visibleChoices_def metrics Let_def signed_divide_int_def)

end
