(* ===== verification/Spec2Isabelle.thy ===== *)
theory Spec2Isabelle
  imports Frontend Types Compilation LspPosition CronScheduler Bits HostsProofs Collections JsonRoundTrip
    OverloadProofs ControlFlow ConstantProofs FormatterProofs HttpProofs HttpSessionProofs GuiWindow
begin

text \<open>
  A model of the core of AhdCode, translated from the Go sources under \<open>internal/\<close> and
  \<open>cmd/ahdgui/\<close>.

  \<^bold>\<open>The program.\<close> AhdCode compiles a small statically typed language to Go. One compilation starts
  from an entry file: the module compiler (\<open>module/compiler.go\<close>) loads it, runs the lexer and the
  parser, merges the files its \<open>require\<close> statements name (\<open>module/require.go\<close>), visits the modules
  its \<open>bring\<close> statements name depth first, and hands each tree to the semantic analyzer; all
  stages report into a bag of diagnostics. The formatter prints the parser's tree again, the language
  server reads the same sources through its own coordinates, and the compiled program runs on the
  runtime library \<open>backend/golang/ahdruntime/\<close>. The tools beside the compiler edit the machine's hosts
  file.

  \<^bold>\<open>The theories of the compiler.\<close>
    \<^item> \<open>Prelude\<close>: results within a fuel (\<open>returns\<close>), append-only logs (\<open>extends\<close>), slices. A string
      is the list of its bytes, as in Go. \<open>Utf8\<close>, \<open>GoStrings\<close>, \<open>GoText\<close>: what the code uses of Go's
      \<open>unicode/utf8\<close>, \<open>strings\<close>, \<open>strconv\<close> and \<open>path/filepath\<close>.
    \<^item> \<open>Source\<close>, \<open>Diagnostics\<close>, \<open>Token\<close>: \<open>source/source.go\<close>, \<open>diagnostics/\<close>, \<open>syntax/token/\<close>.
    \<^item> \<open>LexerBase\<close>, \<open>Lexer\<close>: \<open>lexer/\<close>. The mutable \<open>*lexer\<close> is the record \<open>lexer\<close>, passed and
      returned by one function per method. \<open>LexerProofs\<close>: every method appends tokens, trivia and
      diagnostics whose spans tile the text it consumed; the locales \<open>string_scanner\<close> and
      \<open>interpolation_scanner\<close> are the contract between strings and the code in them.
    \<^item> \<open>Ast\<close>, \<open>ParserMessages\<close>, \<open>ParserBase\<close>, \<open>Parser\<close>, \<open>ParserStatements\<close>: \<open>syntax/ast/\<close> and
      \<open>parser/\<close>, error recovery and messages included. \<open>Grammar\<close> states, on trees alone, what the
      language allows. \<open>ParserRules\<close>, \<open>ParserProofs\<close>, \<open>ParserStmtProofs\<close>: a small program logic
      (\<open>parses\<close>: total correctness with progress) and the proof that every parsing function builds
      only such trees or reports; \<open>recursive_parsers\<close> is the contract of the recursive calls.
      \<open>Frontend\<close> joins lexer and parser.
    \<^item> \<open>Types\<close>: \<open>types/types.go\<close>, identity and assignability of semantic types, with the classes and
      their parents in an explicit store.
    \<^item> \<open>Overload\<close>, \<open>ControlFlow\<close>, \<open>Constant\<close>: the parts of \<open>semantic/\<close> that decide on the types and
      trees alone: overload resolution (\<open>overload.go\<close>), returns and jumps (\<open>statement.go\<close>,
      \<open>callable.go\<close>), constant expressions (\<open>constant.go\<close>). \<open>OverloadProofs\<close> compares resolution with the
      best matching of arguments and parameters, \<open>ControlFlow\<close> the checks with a nondeterministic
      meaning of statements, \<open>ConstantProofs\<close> evaluation with the unfolding of Constants.
    \<^item> \<open>Modules\<close>, \<open>Require\<close>, \<open>ModuleCompiler\<close>: \<open>module/\<close> and the lookups of \<open>framework/\<close>. The
      \<open>*Compiler\<close> and the \<open>requireState\<close> are records of state. \<open>RequireProofs\<close> and \<open>Composition\<close>,
      \<open>ModuleProofs\<close> and \<open>Compilation\<close> prove what they do, for every workspace that satisfies the
      locale \<open>workspace\<close>, which is interpreted on both workspaces of the code, the file system and
      the in-memory one.
    \<^item> \<open>Layout\<close>, \<open>Formatter\<close>: \<open>formatter/doc.go\<close> and \<open>formatter/formatter.go\<close>; the builder and the state
      of the printer are records. \<open>LayoutProofs\<close>, \<open>FormatterProofs\<close>: which pieces of text a document
      prints at any width, and that those the builder emits for a program come from tokens it passes.
      That it passes each token once and stops at the last would need a simulation of the parser by
      the builder, which is not here.
    \<^item> \<open>LspPosition\<close>: \<open>lsp/position.go\<close>.

  \<^bold>\<open>The theories of the runtime library and the tools.\<close>
    \<^item> \<open>IntArith\<close>: checked arithmetic on 64-bit words, indices and ranges, the iteration \<open>between\<close>.
      \<open>Bits\<close>: \<open>bits.go\<close>.
    \<^item> \<open>Containers\<close>: \<open>AhdList\<close> and \<open>AhdPair\<close> (\<open>ahdruntime.go\<close>), refined to sequences and association
      lists through the locale \<open>object_refinement\<close>. \<open>Collections\<close>: the modules \<open>Lists\<close> and \<open>KeyValue\<close>
      on them.
    \<^item> \<open>Json\<close>, \<open>JsonProofs\<close>, \<open>JsonRoundTrip\<close>: the parser, the writer and the accessors of \<open>JSON\<close>.
    \<^item> \<open>Calendar\<close>, \<open>Clock\<close>: Go's civil time and the functions of \<open>Time\<close> and \<open>Calendar\<close>. \<open>Cron\<close>,
      \<open>CronProofs\<close>: schedules and the search for their next minute; \<open>CronScheduler\<close>: the scheduler as
      steps of its loop, its tasks and the clock.
    \<^item> \<open>HttpServer\<close>, \<open>HttpProofs\<close>: registration, limits and dispatch of \<open>http.go\<close> as steps of a program
      on its server; the locale \<open>exclusive_keys\<close> is why the order of Go's maps does not matter.
      \<open>HttpSessions\<close>, \<open>HttpSessionProofs\<close>: responses, cookies and the session store.
    \<^item> \<open>Hosts\<close>, \<open>HostsProofs\<close>: \<open>localdev/hostname.go\<close>, \<open>localdev/hosts.go\<close>.
    \<^item> \<open>GuiModel\<close>: a window of the GUI helper, \<open>cmd/ahdgui/model.go\<close> and \<open>scroll.go\<close>: the records \<open>widget\<close>
      and \<open>model\<close> are its structs, and every request and input is a function on \<open>model\<close>. \<open>GuiProofs\<close>:
      the invariant of a window and the operations on one widget; \<open>GuiLayout\<close>: measuring and placing,
      whose recursion over the widget tree carries as fuel one more than the number of widgets;
      \<open>GuiInput\<close>: each operation keeps the invariant; \<open>GuiWindow\<close>: runs of a window.

  \<^bold>\<open>What is shown.\<close> Compiler: the front end returns on every file; its tokens reproduce the source,
  are ordered and nested; its trees obey the grammar. Type identity is an equivalence,
  assignability is transitive, resolution selects the one best candidate, checked Functions that no
  loop encloses return, constants have one value. \<open>require\<close> stays in the application root and merges each file once; a
  compilation ends, analyzes each module once, and resolves the entry exactly if nothing was
  reported. The layout keeps what the formatter's builder emits, and groups break exactly
  when the line ahead does not fit. Runtime:
  arithmetic is exact or raises; containers refine their abstract types; JSON text, civil time,
  cookies and sessions read back; the next occurrence of a schedule is the first, exists within
  401 years, and runs once; a request has one answer, and files come only from inside their root;
  identifiers of ended sessions that no other object carries are not accepted again; a window stays
  sound under every sequence of requests and inputs. The lemmas that start with a counterexample
  to a comment or a document are the findings of the manifest.

  \<^bold>\<open>Loops and fuel.\<close> Loops that consume input are recursive functions with their measure. Mutual
  recursion through records of functions and recursion through file contents carry a fuel, and
  \<^const>\<open>None\<close> is "deeper than the fuel". The callers supply enough, and the properties say so:
  the scanner of nested strings one more than the bytes left, the parser the number of tokens,
  \<open>require\<close> composition one more than the number of files, the module compiler one more than the
  number of files and embedded modules, the JSON parser twice the length of its input. A property
  stated with \<open>returns\<close> includes that the computation gives a result; Go panics on slices and
  indices are \<^const>\<open>None\<close> as well.

  \<^bold>\<open>Parameters.\<close> The Unicode tables and NFKC normalisation of \<open>golang.org/x/text\<close> (record
  \<open>unicode\<close>), the file system (record \<open>os\<close>, with its documented laws as hypotheses), the embedded
  framework files, the semantic analyzer as the module compiler calls it (record \<open>config\<close>), real
  numbers (record \<open>floats\<close>, field \<open>reals\<close> of \<open>constEnv\<close>), time zones (a function from instants to offsets), the
  width of a text in the font of a window, the random bytes of session identifiers, and Go's \<open>strconv.Quote\<close> in messages are arguments of the
  model. Paths are those of Unix.

  \<^bold>\<open>Not modelled.\<close> In the semantic analyzer, the analysis of expressions with its scopes, null flow
  and class checks, and the tables of the standard modules: the parts above do not depend on it. The
  lowering to the intermediate representation, the Go code generator and the evaluator, which take
  its result. In the runtime library, Reals, texts, tables, statistics and plots, request bodies,
  uploads, the HTTP client and WebSocket connections, and the modules that are mostly input and
  output (databases, mail, documents). Of the GUI helper, the protocol lines, the drawing and the
  windowing library. The request handlers of the language server, the
  build pipeline, packaging and project templates. The counter \<open>LoadCount\<close> of the in-memory
  workspace serves tests and is left out.
\<close>

section \<open>The front end as a whole\<close>

text \<open>C1: The front end is total. For every source file, whatever its bytes, the lexer and then the
  parser return a result: every loop ends, the recursion stays within its depth, and none of the
  slice and index operations of the code panics.\<close>

theorem frontEnd_total: "\<exists>lexed parsed. frontEnd uc file = Some (lexed, parsed)"
proof -
  obtain r where "frontEnd uc file = Some r" using frontEnd_ok by (rule returnsE)
  then show ?thesis by (cases r) blast
qed

text \<open>C2: A program that the parser accepts without an error is well formed everywhere: no
  placeholder for a bad expression, declarations only where they are allowed, assignments only to
  assignable targets, parameters in order, operators nested by precedence.\<close>

theorem accepted_program_is_grammatical:
  "returns (\<lambda>(lexed, parsed). ParseResult_HasErrors parsed \<or>
     list_all (allStmt (exprNode True) (stmtNode True) scopeModule) (Statements (ResProgram parsed)))
   (frontEnd uc file)"
  by (rule frontEnd_rule) (auto dest: frontEndOk_grammar)

text \<open>C3: Operator precedence and associativity. In every tree the parser builds, also after
  errors, an operand that is an unparenthesised operator application binds tighter than the
  operator above it; operators of equal power group to the left, except \<open>^\<close>, which groups to the
  right. A prefix operator that is a right operand is exempt, since nothing before it can bind to its
  operand: \<open>2 ^ -3\<close> and \<open>a * not b\<close> are what they look like.\<close>

theorem operators_nest_by_precedence:
  "returns (\<lambda>(lexed, parsed).
     list_all (allStmt precedenceOk (\<lambda>_ _. True) scopeModule) (Statements (ResProgram parsed)))
   (frontEnd uc file)"
  by (rule frontEnd_rule)
    (auto intro: list_all_allStmt_mono exprNode_parts dest!: frontEndOk_always)

text \<open>A placeholder for a bad expression occurs only in a program for which an error was
  reported.\<close>

theorem accepted_program_has_no_BadExpr:
  "returns (\<lambda>(lexed, parsed). ParseResult_HasErrors parsed \<or>
     list_all (allStmt notBad (\<lambda>_ _. True) scopeModule) (Statements (ResProgram parsed)))
   (frontEnd uc file)"
  by (rule frontEnd_rule)
    (auto intro: list_all_allStmt_mono exprNode_parts dest!: frontEndOk_grammar)

text \<open>Placement. In an accepted program, classes and literal \<open>require\<close> statements stand only at
  module root, structures and overriding functions only directly in a class.\<close>

theorem accepted_declarations_are_placed:
  "returns (\<lambda>(lexed, parsed). ParseResult_HasErrors parsed \<or>
     list_all (allStmt (\<lambda>_. True) placementOk scopeModule) (Statements (ResProgram parsed)))
   (frontEnd uc file)"
  by (rule frontEnd_rule)
    (auto intro: list_all_allStmt_mono stmtNode_parts dest!: frontEndOk_grammar)

text \<open>Targets. In an accepted program, assignments, updates and declarations have assignable
  targets, and a declaration without type and without \<open>Global\<close> names a plain identifier.\<close>

theorem accepted_targets_are_assignable:
  "returns (\<lambda>(lexed, parsed). ParseResult_HasErrors parsed \<or>
     list_all (allStmt (\<lambda>_. True) (\<lambda>_. targetsOk) scopeModule) (Statements (ResProgram parsed)))
   (frontEnd uc file)"
  by (rule frontEnd_rule)
    (auto intro: list_all_allStmt_mono stmtNode_parts dest!: frontEndOk_grammar)

text \<open>Parameters. In an accepted program no required parameter follows a default parameter, in
  functions, structures and lambdas.\<close>

theorem accepted_parameters_are_in_order:
  "returns (\<lambda>(lexed, parsed). ParseResult_HasErrors parsed \<or>
     list_all (allStmt (\<lambda>e. parametersInOrder (lambdaParameters e))
       (\<lambda>_ s. parametersInOrder (declaredParameters s)) scopeModule) (Statements (ResProgram parsed)))
   (frontEnd uc file)"
  by (rule frontEnd_rule)
    (auto intro: list_all_allStmt_mono stmtNode_parts exprNode_parts dest!: frontEndOk_grammar)

text \<open>Shape of statements, also after errors: the parser never produces \<open>BadStmt\<close>, an \<open>if\<close> has a
  branch, a \<open>state\<close> clause has a match expression unless it is the default, and a declaration has
  an initializer unless it only names a \<open>Global\<close>.\<close>

theorem statements_have_their_parts:
  "returns (\<lambda>(lexed, parsed).
     list_all (allStmt (\<lambda>_. True) (\<lambda>_. statementShapeOk) scopeModule) (Statements (ResProgram parsed)))
   (frontEnd uc file)"
  by (rule frontEnd_rule)
    (auto intro: list_all_allStmt_mono stmtNode_parts dest!: frontEndOk_always)

text \<open>The parser reads the whole file: it keeps the lexer's tokens as they are, the program's span
  ends at the end of the text, and everything it reports is an error.\<close>

theorem parser_reads_the_whole_file:
  "returns (\<lambda>(lexed, parsed). ResParseTokens parsed = ResTokens lexed
     \<and> Offset (End (ProgramSpan (ResProgram parsed))) = int (length (Text file))
     \<and> list_all (\<lambda>d. Sev d = SeverityError) (ResParseDiagnostics parsed))
   (frontEnd uc file)"
  by (rule frontEnd_rule)
    (auto simp: frontEndOk_def parsedBy_def lexed_owned lexed_EOF onlyErrors_def)

text \<open>The parser is total on any token list in which imaginary literals carry a value and
  identifiers come from the source, also one without EOF or with unbalanced brackets.\<close>

theorem Parse_total:
  assumes "tokensOk tokens"
  shows "\<exists>r. Parse file tokens = Some r"
  by (rule returnsE [OF Parse_parsedBy [OF assms]]) blast

lemma Parse_total_witness:
  "\<exists>r. Parse (NewFile 1 ''a.ahd'' '''')
     [syntheticToken RightBrace (NewSpan 1 zeroPosition zeroPosition)] = Some r"
  by (rule Parse_total) (simp add: tokensOk_def syntheticToken_def)

section \<open>The lexer\<close>

text \<open>C4: Lossless tokens. The trivia and lexemes of the token stream, in order, are the source text,
  unless the lexer reported an invalid byte or an unexpected character, which it drops.\<close>

theorem tokens_reproduce_the_source:
  "returns (\<lambda>r. lossy (ResDiagnostics r) \<or> concat (map tokenText (ResTokens r)) = Text file)
     (Lex uc file)"
  using Lex_lexed by (rule returns_mono) (auto simp: lexed_def)

text \<open>C5: Spans. The tokens' spans are ordered, do not overlap, lie in the file, and each lexeme is
  the text of its span.\<close>

theorem token_spans_are_ordered:
  "returns (\<lambda>r. chain 0 (butlast (ResTokens r)) (int (length (Text file)))
      \<and> list_all (\<lambda>t. Lexeme t = Span_Text (TokenSpan t) file) (butlast (ResTokens r)))
     (Lex uc file)"
  using Lex_lexed by (rule returns_mono) (auto simp: lexed_def list_all_iff tokenOk_def)

text \<open>C6: Strings and interpolations are properly nested in every token stream, whatever the
  source: each \<open>StringStart\<close> has its \<open>StringEnd\<close>, each \<open>InterpolationStart\<close> its end, and string
  text occurs only inside a string.\<close>

theorem strings_are_nested:
  "returns (\<lambda>r. nest (map KindOf (butlast (ResTokens r))) [] = Some []) (Lex uc file)"
  using Lex_lexed by (rule returns_mono) (auto simp: lexed_def)

text \<open>The stream ends in its only EOF token, which is synthetic, empty, and at the end of the
  text.\<close>

theorem stream_ends_in_its_only_EOF:
  "returns (\<lambda>r. \<exists>ts eof. ResTokens r = ts @ [eof] \<and> EOF \<notin> set (map KindOf ts)
      \<and> KindOf eof = EOF \<and> Synthetic eof \<and> Lexeme eof = []
      \<and> Offset (Start (TokenSpan eof)) = int (length (Text file)))
     (Lex uc file)"
  using Lex_lexed by (rule returns_mono) (fastforce simp: lexed_def list_all_iff tokenOk_def)

text \<open>A reserved word is never lexed as an identifier, and the only tokens that do not stand in
  the source are the string and interpolation ends the lexer supplies, and EOF.\<close>

theorem identifiers_are_not_reserved:
  "returns (\<lambda>r.
        list_all (\<lambda>t. LookupKeyword (Value t) = None) (filter (\<lambda>t. KindOf t = Identifier) (ResTokens r))
      \<and> list_all (\<lambda>t. KindOf t \<in> {InterpolationEnd, StringEnd, EOF}) (filter Synthetic (ResTokens r)))
     (Lex uc file)"
  using Lex_lexed by (rule returns_mono) (auto simp: lexed_def list_all_iff tokenOk_def)

text \<open>The keyword table: exactly the display names of the reserved words are looked up, each as
  its own keyword.\<close>

theorem keyword_lookup:
  "LookupKeyword s = Some k \<longleftrightarrow> (\<exists>w. k = Keyword w \<and> s = keyword_String w)"
proof
  assume "LookupKeyword s = Some k"
  then have "(s, k) \<in> set keywordTable" by (auto simp: LookupKeyword_def dest: map_of_SomeD)
  then show "\<exists>w. k = Keyword w \<and> s = keyword_String w" by (auto simp: keywordTable_def)
next
  assume "\<exists>w. k = Keyword w \<and> s = keyword_String w"
  then obtain w where "k = Keyword w" "s = keyword_String w" by blast
  then show "LookupKeyword s = Some k"
    by (cases w) (simp_all add: LookupKeyword_def keywordTable_def)
qed

section \<open>Diagnostics\<close>

text \<open>The caret line of a rendered diagnostic never has a negative length, and a caret that starts
  within the displayed line ends within it.\<close>

theorem caret_stays_in_the_line:
  "1 \<le> caretColumn item (int n) \<and> caretColumn item (int n) \<le> int n + 1
   \<and> 1 \<le> caretWidth item (int n)
   \<and> (caretColumn item (int n) = int n + 1
      \<or> caretColumn item (int n) + caretWidth item (int n) \<le> int n + 1)"
  using caret_in_line [of "int n" item] by linarith

end
